(* ===== verification/Prelude.thy ===== *)
theory Prelude
  imports Main "HOL-Library.AList"
begin

text \<open>
  Shared vocabulary of the development: fixed-width integers as Go has them, Go maps as
  association lists, errors as the left summand of a sum, and the list lemmas that more than one
  component uses.  Nothing in this theory models a particular source file; the components do.

  \<^item> An \<^verbatim>\<open>int64\<close> is an \<^typ>\<open>int\<close> that every arithmetic operation of the source that can leave the
    range brings back with \<^verbatim>\<open>to_int64\<close>.
  \<^item> A Go map with string keys is an association list; only its lookup function is observable, and
    all updates go through \<^const>\<open>AList.update\<close>, which keeps keys distinct.
  \<^item> A call that returns \<^verbatim>\<open>(x, error)\<close> returns \<^verbatim>\<open>Inl err\<close> or \<^verbatim>\<open>Inr x\<close>.
\<close>

named_theorems agentspace_simps \<open>rewrite rules shared by the component theories\<close>

section \<open>Machine integers\<close>

definition to_int64 :: "int \<Rightarrow> int" where
  "to_int64 x = (x + 9223372036854775808) mod 18446744073709551616 - 9223372036854775808"

definition int64_range :: "int \<Rightarrow> bool" where
  "int64_range x \<longleftrightarrow> - 9223372036854775808 \<le> x \<and> x \<le> 9223372036854775807"

lemma to_int64_range: "int64_range (to_int64 x)"
  unfolding to_int64_def int64_range_def
  using pos_mod_bound[of 18446744073709551616 "x + 9223372036854775808"]
    pos_mod_sign[of 18446744073709551616 "x + 9223372036854775808"] by linarith

lemma to_int64_id [simp]: "int64_range x \<Longrightarrow> to_int64 x = x"
  unfolding to_int64_def int64_range_def by simp

text \<open>Integer division of Go truncates towards zero.\<close>

definition go_quot :: "int \<Rightarrow> int \<Rightarrow> int" where
  "go_quot a b = (if (0 \<le> a) = (0 < b) then abs a div abs b else - (abs a div abs b))"

lemma go_quot_nonneg [simp]: "0 \<le> a \<Longrightarrow> 0 < b \<Longrightarrow> go_quot a b = a div b"
  by (simp add: go_quot_def)

lemma go_quot_mult [simp]: "0 < b \<Longrightarrow> go_quot (a * b) b = a"
proof -
  assume b: "0 < b"
  show ?thesis
  proof (cases "0 \<le> a")
    case True
    then show ?thesis using b by (simp add: go_quot_def)
  next
    case False
    then have neg: "\<not> 0 \<le> a * b" using b by (simp add: zero_le_mult_iff)
    then have "abs (a * b) = (- a) * b" by linarith
    then have "abs (a * b) div abs b = - a"
      using b nonzero_mult_div_cancel_right[of b "- a"] by simp
    then show ?thesis using b neg by (simp add: go_quot_def)
  qed
qed

section \<open>Go maps\<close>

type_synonym 'v gomap = "(string \<times> 'v) list"

text \<open>Indexing a \<^verbatim>\<open>map[string]string\<close> yields the empty string for a missing key.\<close>

definition str_at :: "string gomap \<Rightarrow> string \<Rightarrow> string" where
  "str_at m k = (case map_of m k of None \<Rightarrow> [] | Some v \<Rightarrow> v)"

text \<open>Reading a possibly nil map behaves as reading an empty one.\<close>

definition or_nil :: "'v gomap option \<Rightarrow> 'v gomap" where
  "or_nil m = (case m of None \<Rightarrow> [] | Some x \<Rightarrow> x)"

lemma or_nil_simps [simp]: "or_nil None = []" "or_nil (Some m) = m"
  by (simp_all add: or_nil_def)

lemma str_at_Nil [simp]: "str_at [] k = []"
  by (simp add: str_at_def)

lemma map_of_upd [simp]: "map_of (AList.update k v m) = (map_of m)(k \<mapsto> v)"
  by (rule update_conv')

lemma str_at_upd [simp]: "str_at (AList.update k v m) k' = (if k' = k then v else str_at m k')"
  by (simp add: str_at_def)

text \<open>\<^verbatim>\<open>for k, v := range src { dst[k] = v }\<close>\<close>

definition map_merge :: "'v gomap \<Rightarrow> 'v gomap \<Rightarrow> 'v gomap" where
  "map_merge dst src = fold (\<lambda>(k, v) m. AList.update k v m) src dst"

lemma map_merge_Nil [simp]: "map_merge m [] = m"
  by (simp add: map_merge_def)

lemma map_of_fold_update:
  "map_of (fold (\<lambda>(k, v) m. AList.update k v m) src dst) = map_of dst ++ map_of (rev src)"
  by (induction src arbitrary: dst) (auto simp: map_add_def fun_eq_iff split: option.splits)

lemma map_of_merge: "map_of (map_merge dst src) = map_of dst ++ map_of (rev src)"
  by (simp add: map_merge_def map_of_fold_update)

lemma map_of_merge_distinct:
  "distinct (map fst src) \<Longrightarrow> map_of (map_merge dst src) = map_of dst ++ map_of src"
proof -
  assume d: "distinct (map fst src)"
  then have "map_of (rev src) = map_of src"
    by (intro map_of_inject_set[THEN iffD2]) (simp_all add: rev_map[symmetric])
  then show ?thesis by (simp add: map_of_merge)
qed

section \<open>Results\<close>

definition bindr :: "'e + 'a \<Rightarrow> ('a \<Rightarrow> 'e + 'b) \<Rightarrow> 'e + 'b" where
  "bindr r f = (case r of Inl er \<Rightarrow> Inl er | Inr x \<Rightarrow> f x)"

lemma bindr_simps [simp]: "bindr (Inl er) f = Inl er" "bindr (Inr x) f = f x"
  by (simp_all add: bindr_def)

lemma bindr_assoc: "bindr (bindr r f) g = bindr r (\<lambda>x. bindr (f x) g)"
  by (cases r) simp_all

lemma bindr_eq_Inr: "bindr r f = Inr y \<longleftrightarrow> (\<exists>x. r = Inr x \<and> f x = Inr y)"
  by (cases r) auto

lemma bindr_eq_Inl: "bindr r f = Inl er \<longleftrightarrow> r = Inl er \<or> (\<exists>x. r = Inr x \<and> f x = Inl er)"
  by (cases r) auto

definition is_ok :: "'e + 'a \<Rightarrow> bool" where
  "is_ok r = (case r of Inl _ \<Rightarrow> False | Inr _ \<Rightarrow> True)"

lemma is_ok_simps [simp]: "\<not> is_ok (Inl er)" "is_ok (Inr x)"
  by (simp_all add: is_ok_def)

lemma is_okE: "is_ok r \<Longrightarrow> (\<And>x. r = Inr x \<Longrightarrow> P) \<Longrightarrow> P"
  by (cases r) auto

section \<open>Lists\<close>

lemma map_if_key:
  assumes "distinct (map f xs)" "x \<in> set xs" "\<And>y. f (g y) = f y"
  shows "set (map (\<lambda>y. if f y = f x then g y else y) xs) = insert (g x) (set xs - {x})"
  using assms by (auto simp: distinct_map inj_on_def image_iff)

lemma map_if_key_id: "k \<notin> f ` set xs \<Longrightarrow> map (\<lambda>y. if f y = k then g y else y) xs = xs"
  by (rule map_idI) auto

lemma find_eq_Some_key:
  "distinct (map f xs) \<Longrightarrow> x \<in> set xs \<Longrightarrow> find (\<lambda>y. f y = f x) xs = Some x"
  by (induction xs) auto

lemma find_key_and:
  "distinct (map f xs) \<Longrightarrow> x \<in> set xs \<Longrightarrow> P x \<Longrightarrow> find (\<lambda>y. f y = f x \<and> P y) xs = Some x"
  by (induction xs) auto

lemma distinct_map_key_filter:
  "distinct (map f xs) \<Longrightarrow> x \<in> set xs \<Longrightarrow> filter (\<lambda>y. f y = f x) xs = [x]"
  by (induction xs) (auto simp: filter_empty_conv image_iff)

lemma find_None_key: "find (\<lambda>y. f y = k) xs = None \<longleftrightarrow> k \<notin> f ` set xs"
  by (auto simp: find_None_iff)

lemma find_SomeD: "find P xs = Some x \<Longrightarrow> x \<in> set xs \<and> P x"
  by (induction xs) (auto split: if_splits)

lemma hd_sort_key_min:
  assumes "xs \<noteq> []" "y \<in> set xs"
  shows "f (hd (sort_key f xs)) \<le> f y"
proof -
  obtain z zs where z: "sort_key f xs = z # zs"
    using assms(1) by (metis length_0_conv length_sort neq_Nil_conv)
  have "sorted (map f (z # zs))" "y \<in> set (z # zs)"
    using sorted_sort_key[of f xs] assms(2) set_sort[of f xs] z by simp_all
  then show ?thesis using z by auto
qed

end
