(* ===== verification/Go_Std.thy ===== *)
theory Go_Std
  imports Prelude "HOL-Library.Word" "HOL-Library.Sublist"
begin

text \<open>
  The parts of the Go standard library that the stores rely on: \<^verbatim>\<open>strings\<close>
  (Split, SplitN, Join, ToLower, TrimSpace), \<^verbatim>\<open>strconv.Atoi\<close>, \<^verbatim>\<open>time\<close> (instants, the RFC 3339 layouts)
  and \<^verbatim>\<open>encoding/json\<close> on the values the stores put into JSON columns.

  Strings are byte strings (Go strings; well-formed UTF-8 wherever they pass through JSON).  An instant
  is the number of nanoseconds since the Unix epoch; the zero \<^verbatim>\<open>time.Time\<close> is year 1.  Locations are not
  kept: the stores convert to UTC.  A JSON column holds the document its text denotes, so that
  marshalling and unmarshalling are functions between Go values and documents; numbers read back from a
  document are \<^verbatim>\<open>float64\<close> values, kept as their 64-bit pattern.
\<close>

section \<open>Strings\<close>

fun split_on :: "char \<Rightarrow> string \<Rightarrow> string list" where
  "split_on c [] = [[]]"
| "split_on c (x # xs) =
    (if x = c then [] # split_on c xs
     else case split_on c xs of [] \<Rightarrow> [[x]] | y # ys \<Rightarrow> (x # y) # ys)"

fun join_with :: "string \<Rightarrow> string list \<Rightarrow> string" where
  "join_with sep [] = []"
| "join_with sep [x] = x"
| "join_with sep (x # y # ys) = x @ sep @ join_with sep (y # ys)"

text \<open>\<^verbatim>\<open>strings.SplitN(s, sep, 2)\<close>: cut at the first separator.\<close>

fun splitN2 :: "char \<Rightarrow> string \<Rightarrow> string list" where
  "splitN2 c [] = [[]]"
| "splitN2 c (x # xs) =
    (if x = c then [[], xs]
     else case splitN2 c xs of [] \<Rightarrow> [[x]] | y # ys \<Rightarrow> (x # y) # ys)"

lemma split_on_not_Nil [simp]: "split_on c s \<noteq> []"
  by (cases s) (auto split: list.splits)

lemma split_on_no_sep: "c \<notin> set s \<Longrightarrow> split_on c s = [s]"
  by (induction s) auto

lemma split_on_append: "c \<notin> set s \<Longrightarrow> split_on c (s @ c # rest) = s # split_on c rest"
  by (induction s) auto

lemma split_join:
  "xs \<noteq> [] \<Longrightarrow> (\<And>x. x \<in> set xs \<Longrightarrow> c \<notin> set x) \<Longrightarrow> split_on c (join_with [c] xs) = xs"
  by (induction "[c]" xs rule: join_with.induct) (auto simp: split_on_no_sep split_on_append)

lemma splitN2_append: "c \<notin> set k \<Longrightarrow> splitN2 c (k @ c # v) = [k, v]"
  by (induction k) auto

lemma splitN2_no_sep: "c \<notin> set k \<Longrightarrow> splitN2 c k = [k]"
  by (induction k) auto

lemma splitN2_cases:
  "splitN2 c s = [s] \<and> c \<notin> set s \<or> (\<exists>k v. splitN2 c s = [k, v] \<and> s = k @ c # v \<and> c \<notin> set k)"
  by (induction s) (auto simp: Cons_eq_append_conv)

definition is_space :: "char \<Rightarrow> bool" where
  "is_space c \<longleftrightarrow> of_char c \<in> {9, 10, 11, 12, 13, 32 :: nat}"

definition trim_space :: "string \<Rightarrow> string" where
  "trim_space s = rev (dropWhile is_space (rev (dropWhile is_space s)))"

definition lower_char :: "char \<Rightarrow> char" where
  "lower_char c =
    (if 65 \<le> (of_char c :: nat) \<and> (of_char c :: nat) \<le> 90 then char_of ((of_char c :: nat) + 32) else c)"

definition to_lower :: "string \<Rightarrow> string" where
  "to_lower s = map lower_char s"

lemma dropWhile_prefix: "prefix p s \<Longrightarrow> dropWhile P s = s \<Longrightarrow> dropWhile P p = p"
  by (cases p) (auto simp: prefix_def dropWhile_eq_self_iff simp del: dropWhile.simps)

lemma trim_space_idem [simp]: "trim_space (trim_space s) = trim_space s"
proof -
  let ?d = "dropWhile is_space s" and ?t = "trim_space s"
  have "suffix (rev ?t) (rev ?d)" by (simp add: trim_space_def suffix_dropWhile)
  then have "prefix ?t ?d" by (simp add: suffix_to_prefix)
  then have "dropWhile is_space ?t = ?t" by (rule dropWhile_prefix) simp
  moreover have "dropWhile is_space (rev ?t) = rev ?t" by (simp add: trim_space_def)
  ultimately show ?thesis by (simp add: trim_space_def)
qed

section \<open>Decimal numbers\<close>

definition is_digit :: "char \<Rightarrow> bool" where
  "is_digit c \<longleftrightarrow> 48 \<le> (of_char c :: nat) \<and> (of_char c :: nat) \<le> 57"

definition digit_val :: "char \<Rightarrow> int" where
  "digit_val c = int (of_char c) - 48"

definition digits_val :: "string \<Rightarrow> int" where
  "digits_val s = fold (\<lambda>c n. 10 * n + digit_val c) s 0"

text \<open>\<^verbatim>\<open>strconv.Atoi\<close>: an optional sign, at least one digit, and a value of the \<^verbatim>\<open>int\<close> type.\<close>

definition atoi :: "string \<Rightarrow> int option" where
  "atoi s =
    (let neg = (s \<noteq> [] \<and> hd s = CHR ''-'');
         ds = (if s \<noteq> [] \<and> (hd s = CHR ''-'' \<or> hd s = CHR ''+'') then tl s else s);
         n = (if neg then - digits_val ds else digits_val ds)
     in if ds \<noteq> [] \<and> list_all is_digit ds \<and> int64_range n then Some n else None)"

function int_digits :: "int \<Rightarrow> string" where
  "int_digits n = (if n < 10 then [char_of (48 + n)] else int_digits (n div 10) @ [char_of (48 + n mod 10)])"
  by pat_completeness auto
termination by (relation "measure nat") auto

declare int_digits.simps [simp del]

definition show_int :: "int \<Rightarrow> string" where
  "show_int i = (if i < 0 then CHR ''-'' # int_digits (- i) else int_digits i)"

lemma digits_val_snoc: "digits_val (s @ [c]) = 10 * digits_val s + digit_val c"
  by (simp add: digits_val_def)

lemma digit_char:
  assumes "0 \<le> n" "n < 10"
  shows "is_digit (char_of (48 + n))" "digit_val (char_of (48 + n)) = n"
proof -
  obtain m where m: "n = int m" using assms(1) nonneg_int_cases by blast
  then have lt: "m < 10" using assms(2) by simp
  have "(char_of (48 + n) :: char) = char_of (48 + m)"
    using char_of_nat[of "48 + m", where ?'a = int] m by simp
  moreover have "of_char (char_of (48 + m) :: char) = 48 + m"
    using lt by (simp add: of_char_of)
  ultimately show "is_digit (char_of (48 + n))" "digit_val (char_of (48 + n)) = n"
    using lt m by (simp_all add: is_digit_def digit_val_def)
qed

lemma int_digits_spec:
  "0 \<le> n \<Longrightarrow> int_digits n \<noteq> [] \<and> list_all is_digit (int_digits n) \<and> digits_val (int_digits n) = n"
proof (induction n rule: int_digits.induct)
  case (1 n)
  show ?case
  proof (cases "n < 10")
    case True
    then show ?thesis
      using 1 digit_char[of n] by (simp add: int_digits.simps[of n] digits_val_def)
  next
    case False
    then show ?thesis
      using 1 digit_char[of "n mod 10"] by (simp add: int_digits.simps[of n] digits_val_snoc)
  qed
qed

definition pad0 :: "nat \<Rightarrow> string \<Rightarrow> string" where
  "pad0 w s = replicate (w - length s) (CHR ''0'') @ s"

section \<open>Instants and durations\<close>

type_synonym gotime = int
type_synonym duration = int

definition zero_time :: gotime where
  "zero_time = - 62135596800 * 1000000000"

definition IsZero :: "gotime \<Rightarrow> bool" where
  "IsZero t \<longleftrightarrow> t = zero_time"

definition Millisecond :: duration where "Millisecond = 1000000"
definition Second :: duration where "Second = 1000000000"
definition Minute :: duration where "Minute = 60000000000"

definition UnixMilli :: "gotime \<Rightarrow> int" where
  "UnixMilli t = t div 1000000"

definition time_UnixMilli :: "int \<Rightarrow> gotime" where
  "time_UnixMilli ms = ms * 1000000"

lemma UnixMilli_time [simp]: "UnixMilli (time_UnixMilli ms) = ms"
  by (simp add: UnixMilli_def time_UnixMilli_def)

lemma UnixMilli_mono: "s \<le> t \<Longrightarrow> UnixMilli s \<le> UnixMilli t"
  by (simp add: UnixMilli_def zdiv_mono1)

lemma UnixMilli_add_ms: "UnixMilli (t + ms * 1000000) = UnixMilli t + ms"
  by (simp add: UnixMilli_def)

lemma time_UnixMilli_le: "time_UnixMilli (UnixMilli t) \<le> t"
  using pos_mod_sign[of 1000000 t] div_mult_mod_eq[of t 1000000]
  unfolding UnixMilli_def time_UnixMilli_def by linarith

lemma not_IsZero_pos [simp]: "0 \<le> t \<Longrightarrow> \<not> IsZero t"
  by (simp add: IsZero_def zero_time_def)

text \<open>\<^verbatim>\<open>time.ParseDuration\<close>; a fraction is cut to whole nanoseconds.\<close>

definition duration_units :: "(string \<times> int) list" where
  "duration_units = [(''ns'', 1), (''us'', 1000), ([CHR 0xC2, CHR 0xB5, CHR ''s''], 1000), ([CHR 0xCE, CHR 0xBC, CHR ''s''], 1000),
     (''ms'', 1000000), (''s'', 1000000000), (''m'', 60000000000), (''h'', 3600000000000)]"

fun parse_units :: "nat \<Rightarrow> string \<Rightarrow> int \<Rightarrow> int option" where
  "parse_units 0 s acc = (if s = [] then Some acc else None)"
| "parse_units (Suc n) s acc =
    (if s = [] then Some acc
     else let ds = takeWhile is_digit s; s1 = dropWhile is_digit s;
              (fs, s2) = (case s1 of c # r \<Rightarrow> if c = CHR ''.'' then (takeWhile is_digit r, dropWhile is_digit r) else ([], s1)
                          | [] \<Rightarrow> ([], []));
              u = takeWhile (\<lambda>c. c \<noteq> CHR ''.'' \<and> \<not> is_digit c) s2
          in if ds = [] \<and> fs = [] then None
             else case map_of duration_units u of None \<Rightarrow> None
               | Some scale \<Rightarrow> parse_units n (drop (length u) s2)
                   (acc + digits_val ds * scale + digits_val fs * scale div 10 ^ length fs))"

definition ParseDuration :: "string \<Rightarrow> duration option" where
  "ParseDuration s =
    (let neg = (s \<noteq> [] \<and> hd s = CHR ''-'');
         t = (if s \<noteq> [] \<and> (hd s = CHR ''-'' \<or> hd s = CHR ''+'') then tl s else s)
     in if t = ''0'' then Some 0
        else if t = [] then None
        else case parse_units (length t) t 0 of None \<Rightarrow> None
          | Some d \<Rightarrow> if int64_range (if neg then - d else d) then Some (if neg then - d else d) else None)"

text \<open>Proleptic Gregorian calendar, days counted from 1970-01-01.\<close>

definition civil_from_days :: "int \<Rightarrow> int \<times> int \<times> int" where
  "civil_from_days d =
    (let z = d + 719468; era = z div 146097; doe = z mod 146097;
         yoe = (doe - doe div 1460 + doe div 36524 - doe div 146096) div 365;
         doy = doe - (365 * yoe + yoe div 4 - yoe div 100);
         mp = (5 * doy + 2) div 153;
         day = doy - (153 * mp + 2) div 5 + 1;
         mon = (if mp < 10 then mp + 3 else mp - 9);
         y = yoe + era * 400
     in (if mon \<le> 2 then y + 1 else y, mon, day))"

definition days_from_civil :: "int \<Rightarrow> int \<Rightarrow> int \<Rightarrow> int" where
  "days_from_civil y m d =
    (let y' = (if m \<le> 2 then y - 1 else y); era = y' div 400; yoe = y' mod 400;
         doy = (153 * (if 2 < m then m - 3 else m + 9) + 2) div 5 + d - 1;
         doe = yoe * 365 + yoe div 4 - yoe div 100 + doy
     in era * 146097 + doe - 719468)"

definition year_of :: "gotime \<Rightarrow> int" where
  "year_of t = fst (civil_from_days (t div 86400000000000))"

definition pad_int :: "nat \<Rightarrow> int \<Rightarrow> string" where
  "pad_int w i = (if i < 0 then CHR ''-'' # pad0 w (int_digits (- i)) else pad0 w (int_digits i))"

definition frac_digits :: "int \<Rightarrow> string" where
  "frac_digits ns =
    (if ns = 0 then []
     else CHR ''.'' # rev (dropWhile (\<lambda>c. c = CHR ''0'') (rev (pad0 9 (int_digits ns)))))"

text \<open>\<^verbatim>\<open>t.UTC().Format(time.RFC3339Nano)\<close>\<close>

definition format_rfc3339nano :: "gotime \<Rightarrow> string" where
  "format_rfc3339nano t =
    (let (y, m, d) = civil_from_days (t div 86400000000000);
         sod = (t div 1000000000) mod 86400
     in pad_int 4 y @ ''-'' @ pad_int 2 m @ ''-'' @ pad_int 2 d @ ''T'' @
        pad_int 2 (sod div 3600) @ '':'' @ pad_int 2 ((sod div 60) mod 60) @ '':'' @
        pad_int 2 (sod mod 60) @ frac_digits (t mod 1000000000) @ ''Z'')"

subsection \<open>Hashes\<close>

text \<open>FNV-1a with 32 bits of package \<^verbatim>\<open>hash/fnv\<close>; \<^verbatim>\<open>Write\<close> folds the bytes into the sum.\<close>

definition fnv_write :: "32 word \<Rightarrow> string \<Rightarrow> 32 word" where
  "fnv_write h s = fold (\<lambda>ch h. xor h (word_of_nat (of_char ch)) * 16777619) s h"

section \<open>Parsing the RFC 3339 layout\<close>

definition take_num :: "nat \<Rightarrow> string \<Rightarrow> (int \<times> string) option" where
  "take_num w s =
    (if w \<le> length s \<and> list_all is_digit (take w s) then Some (digits_val (take w s), drop w s) else None)"

text \<open>The hour field of the layout accepts one or two digits.\<close>

definition take_hour :: "string \<Rightarrow> (int \<times> string) option" where
  "take_hour s = (case take_num 2 s of Some r \<Rightarrow> Some r | None \<Rightarrow> take_num 1 s)"

definition take_char :: "char \<Rightarrow> string \<Rightarrow> string option" where
  "take_char c s = (case s of x # xs \<Rightarrow> if x = c then Some xs else None | [] \<Rightarrow> None)"

definition days_in :: "int \<Rightarrow> int \<Rightarrow> int" where
  "days_in y m =
    (if m = 2 then (if y mod 4 = 0 \<and> (y mod 100 \<noteq> 0 \<or> y mod 400 = 0) then 29 else 28)
     else if m \<in> {4, 6, 9, 11} then 30 else 31)"

text \<open>A fraction may follow the seconds; digits after the ninth are dropped.\<close>

definition take_frac :: "string \<Rightarrow> int \<times> string" where
  "take_frac s =
    (case s of
       c # d # rest \<Rightarrow>
         if (c = CHR ''.'' \<or> c = CHR '','') \<and> is_digit d then
           (let ds = takeWhile is_digit (d # rest); f = take 9 ds
            in (digits_val f * 10 ^ (9 - length f), dropWhile is_digit (d # rest)))
         else (0, s)
     | _ \<Rightarrow> (0, s))"

definition take_zone :: "string \<Rightarrow> int option" where
  "take_zone s =
    (if s = ''Z'' then Some 0
     else if length s = 6 \<and> (s ! 0 = CHR ''+'' \<or> s ! 0 = CHR ''-'') \<and> s ! 3 = CHR '':'' then
       (case (take_num 2 (drop 1 s), take_num 2 (drop 4 s)) of
          (Some (h, _), Some (m, _)) \<Rightarrow>
            if h \<le> 24 \<and> m \<le> 60 then
              Some ((if s ! 0 = CHR ''-'' then - 1 else 1) * (h * 3600 + m * 60))
            else None
        | _ \<Rightarrow> None)
     else None)"

definition obind :: "'a option \<Rightarrow> ('a \<Rightarrow> 'b option) \<Rightarrow> 'b option" where
  "obind x f = (case x of None \<Rightarrow> None | Some y \<Rightarrow> f y)"

definition parse_rfc3339 :: "string \<Rightarrow> gotime option" where
  "parse_rfc3339 s =
    obind (take_num 4 s) (\<lambda>(y, s). obind (take_char (CHR ''-'') s) (\<lambda>s.
    obind (take_num 2 s) (\<lambda>(m, s). obind (take_char (CHR ''-'') s) (\<lambda>s.
    obind (take_num 2 s) (\<lambda>(d, s). obind (take_char (CHR ''T'') s) (\<lambda>s.
    obind (take_hour s) (\<lambda>(h, s). obind (take_char (CHR '':'') s) (\<lambda>s.
    obind (take_num 2 s) (\<lambda>(mi, s). obind (take_char (CHR '':'') s) (\<lambda>s.
    obind (take_num 2 s) (\<lambda>(sec, s). (let (ns, s) = take_frac s in
    obind (take_zone s) (\<lambda>off.
      if 1 \<le> m \<and> m \<le> 12 \<and> 1 \<le> d \<and> d \<le> days_in y m \<and> h < 24 \<and> mi < 60 \<and> sec < 60
      then Some ((days_from_civil y m d * 86400 + h * 3600 + mi * 60 + sec - off) * 1000000000 + ns)
      else None)))))))))))))"

section \<open>JSON values\<close>

text \<open>
  The dynamic types an \<^verbatim>\<open>interface{}\<close> carries in this program: the six kinds that
  \<^verbatim>\<open>encoding/json\<close> decodes to, and the Go types \<^verbatim>\<open>time.Time\<close>, \<^verbatim>\<open>[]string\<close> and
  \<^verbatim>\<open>map[string]string\<close> that in-process callers pass in update maps.
\<close>

datatype gval =
    VNil
  | VBool bool
  | VFloat "64 word"
  | VStr string
  | VTime gotime
  | VStrings "string list"
  | VList "gval list"
  | VStrMap "(string \<times> string) list"
  | VMap "(string \<times> gval) list"

datatype json =
    JNull
  | JBool bool
  | JInt int
  | JFloat "64 word"
  | JStr string
  | JArr "json list"
  | JObj "(string \<times> json) list"

fun all_some :: "'a option list \<Rightarrow> 'a list option" where
  "all_some [] = Some []"
| "all_some (None # xs) = None"
| "all_some (Some x # xs) = map_option (Cons x) (all_some xs)"

fun all_some_snd :: "('k \<times> 'a option) list \<Rightarrow> ('k \<times> 'a) list option" where
  "all_some_snd [] = Some []"
| "all_some_snd ((k, None) # xs) = None"
| "all_some_snd ((k, Some x) # xs) = map_option (Cons (k, x)) (all_some_snd xs)"

text \<open>NaN and the infinities have the all-ones exponent; \<^verbatim>\<open>json.Marshal\<close> rejects them.\<close>

definition finite_float :: "64 word \<Rightarrow> bool" where
  "finite_float w \<longleftrightarrow> uint w div 2 ^ 52 mod 2 ^ 11 \<noteq> 2047"

definition marshal_time :: "gotime \<Rightarrow> json option" where
  "marshal_time t = (if 0 \<le> year_of t \<and> year_of t \<le> 9999 then Some (JStr (format_rfc3339nano t)) else None)"

primrec marshal :: "gval \<Rightarrow> json option" where
  "marshal VNil = Some JNull"
| "marshal (VBool b) = Some (JBool b)"
| "marshal (VFloat w) = (if finite_float w then Some (JFloat w) else None)"
| "marshal (VStr s) = Some (JStr s)"
| "marshal (VTime t) = marshal_time t"
| "marshal (VStrings ss) = Some (JArr (map JStr ss))"
| "marshal (VList vs) = map_option JArr (all_some (map marshal vs))"
| "marshal (VStrMap kvs) = Some (JObj (map (\<lambda>(k, v). (k, JStr v)) kvs))"
| "marshal (VMap kvs) = map_option JObj (all_some_snd (map (map_prod id marshal) kvs))"

text \<open>The \<^verbatim>\<open>float64\<close> nearest to an integer, ties to even.\<close>

function bitlen :: "int \<Rightarrow> nat" where
  "bitlen n = (if n \<le> 0 then 0 else Suc (bitlen (n div 2)))"
  by pat_completeness auto
termination by (relation "measure nat") auto

declare bitlen.simps [simp del]

definition float64_of_int :: "int \<Rightarrow> 64 word" where
  "float64_of_int i =
    (let m = abs i; l = bitlen m; sgn_bit = (if i < 0 then 2 ^ 63 else 0 :: int)
     in if m = 0 then 0
        else let (mant, ex) =
               (if l \<le> 53 then (m * 2 ^ (53 - l), int l - 1)
                else let sh = l - 53; q = m div 2 ^ sh; r = m mod 2 ^ sh; half = 2 ^ (sh - 1);
                         q' = (if half < r \<or> r = half \<and> odd q then q + 1 else q)
                     in if q' = 2 ^ 53 then (2 ^ 52, int l) else (q', int l - 1))
             in of_int (sgn_bit + (ex + 1023) * 2 ^ 52 + (mant - 2 ^ 52)))"

primrec unmarshal :: "json \<Rightarrow> gval" where
  "unmarshal JNull = VNil"
| "unmarshal (JBool b) = VBool b"
| "unmarshal (JInt i) = VFloat (float64_of_int i)"
| "unmarshal (JFloat w) = VFloat w"
| "unmarshal (JStr s) = VStr s"
| "unmarshal (JArr js) = VList (map unmarshal js)"
| "unmarshal (JObj kvs) = VMap (map (map_prod id unmarshal) kvs)"

text \<open>Values that JSON decoding yields: exactly those that survive a round trip.\<close>

primrec json_plain :: "gval \<Rightarrow> bool" where
  "json_plain VNil = True"
| "json_plain (VBool b) = True"
| "json_plain (VFloat w) = finite_float w"
| "json_plain (VStr s) = True"
| "json_plain (VTime t) = False"
| "json_plain (VStrings ss) = False"
| "json_plain (VList vs) = list_all id (map json_plain vs)"
| "json_plain (VStrMap kvs) = False"
| "json_plain (VMap kvs) = list_all snd (map (map_prod id json_plain) kvs)"

definition json_plain_map :: "gval gomap \<Rightarrow> bool" where
  "json_plain_map m \<longleftrightarrow> list_all (json_plain \<circ> snd) m"

lemma all_some_eq_Some: "all_some xs = Some ys \<longleftrightarrow> xs = map Some ys"
  by (induction xs arbitrary: ys rule: all_some.induct) (auto simp: map_eq_Cons_conv)

lemma all_some_snd_eq_Some: "all_some_snd xs = Some ys \<longleftrightarrow> xs = map (map_prod id Some) ys"
  by (induction xs arbitrary: ys rule: all_some_snd.induct) (auto simp: map_eq_Cons_conv)

lemma marshal_plain: "json_plain v \<Longrightarrow> \<exists>j. marshal v = Some j \<and> unmarshal j = v"
proof (induction v)
  case (VList vs)
  have "\<exists>js. map marshal vs = map Some js \<and> map unmarshal js = vs"
    using VList
  proof (induction vs)
    case (Cons v vs)
    obtain j where j: "marshal v = Some j" "unmarshal j = v"
      using Cons.prems by fastforce
    obtain js where "map marshal vs = map Some js" "map unmarshal js = vs"
      using Cons by auto
    then show ?case using j by (intro exI[of _ "j # js"]) simp
  qed simp
  then show ?case by (auto simp: all_some_eq_Some)
next
  case (VMap kvs)
  have "\<exists>js. map (map_prod id marshal) kvs = map (map_prod id Some) js \<and> map (map_prod id unmarshal) js = kvs"
    using VMap
  proof (induction kvs)
    case (Cons p kvs)
    obtain k v where p: "p = (k, v)" by force
    obtain j where j: "marshal v = Some j" "unmarshal j = v"
      using Cons.prems(1)[of p v] Cons.prems(2) p by auto
    have "\<exists>js. map (map_prod id marshal) kvs = map (map_prod id Some) js \<and>
        map (map_prod id unmarshal) js = kvs"
    proof (rule Cons.IH)
      fix q w assume "q \<in> set kvs" "w \<in> Basic_BNFs.snds q" "json_plain w"
      then show "\<exists>j. marshal w = Some j \<and> unmarshal j = w"
        using Cons.prems(1)[of q w] by simp
    qed (use Cons.prems(2) in simp)
    then obtain js where "map (map_prod id marshal) kvs = map (map_prod id Some) js"
        "map (map_prod id unmarshal) js = kvs" by blast
    then show ?case using j p by (intro exI[of _ "(k, j) # js"]) (simp add: id_def)
  qed simp
  then show ?case by (auto simp: all_some_snd_eq_Some)
qed auto

definition marshal_map :: "gval gomap \<Rightarrow> json option" where
  "marshal_map m = marshal (VMap m)"

lemma marshal_map_plain:
  assumes "json_plain_map m"
  obtains kvs where "marshal_map m = Some (JObj kvs)" "map (map_prod id unmarshal) kvs = m"
proof -
  have "json_plain (VMap m)"
    using assms by (simp add: json_plain_map_def list_all_iff split_beta)
  then obtain j where j: "marshal (VMap m) = Some j" "unmarshal j = VMap m"
    using marshal_plain by blast
  then obtain kvs where "j = JObj kvs" by auto
  with j show ?thesis by (intro that) (auto simp: marshal_map_def)
qed

end
