(* ===== verification/Agent_Model.thy ===== *)
theory Agent_Model
  imports Go_Std
begin

text \<open>
  The data model of package \<^verbatim>\<open>agent\<close> (\<^verbatim>\<open>types.go\<close>, \<^verbatim>\<open>helpers.go\<close>, \<^verbatim>\<open>route_context.go\<close>):
  agents, events, queries, the DAG view, and the pure helpers on them.  Statuses and event types are
  strings, as in the source, so that any text a client stores is a value of the model.  A \<^verbatim>\<open>nil\<close> payload
  or metadata map is \<^const>\<open>None\<close>; a \<^verbatim>\<open>nil\<close> tag slice is the empty list.
\<close>

section \<open>Constants and types of types.go\<close>

type_synonym status = string

definition StatusNew :: status where "StatusNew = ''NEW''"
definition StatusInProgress :: status where "StatusInProgress = ''IN_PROGRESS''"
definition StatusCompleted :: status where "StatusCompleted = ''COMPLETED''"
definition StatusFailed :: status where "StatusFailed = ''FAILED''"
definition StatusCancelled :: status where "StatusCancelled = ''CANCELLED''"

type_synonym event_type = string

definition EventCreated :: event_type where "EventCreated = ''CREATED''"
definition EventClaimed :: event_type where "EventClaimed = ''CLAIMED''"
definition EventUpdated :: event_type where "EventUpdated = ''UPDATED''"
definition EventCompleted :: event_type where "EventCompleted = ''COMPLETED''"
definition EventFailed :: event_type where "EventFailed = ''FAILED''"
definition EventReleased :: event_type where "EventReleased = ''RELEASED''"

lemmas status_defs =
  StatusNew_def StatusInProgress_def StatusCompleted_def StatusFailed_def StatusCancelled_def

lemmas event_type_defs =
  EventCreated_def EventClaimed_def EventUpdated_def EventCompleted_def EventFailed_def EventReleased_def

lemma status_distinct [simp]:
  "StatusNew \<noteq> StatusInProgress" "StatusInProgress \<noteq> StatusNew"
  "StatusNew \<noteq> StatusCompleted" "StatusCompleted \<noteq> StatusNew"
  "StatusInProgress \<noteq> StatusCompleted" "StatusCompleted \<noteq> StatusInProgress"
  "StatusNew \<noteq> []" "StatusInProgress \<noteq> []" "StatusCompleted \<noteq> []"
  by (simp_all add: status_defs)

lemma event_type_distinct [simp]:
  "EventCreated \<noteq> EventCompleted" "EventClaimed \<noteq> EventCompleted" "EventUpdated \<noteq> EventCompleted"
  "EventReleased \<noteq> EventCompleted" "EventCompleted \<noteq> EventReleased" "EventCompleted \<noteq> EventCreated"
  "EventCompleted \<noteq> EventClaimed" "EventCompleted \<noteq> EventUpdated"
  by (simp_all add: event_type_defs)

record agent =
  a_ID :: string
  a_Kind :: string
  a_Status :: status
  a_ShardID :: string
  a_Payload :: "gval gomap option"
  a_Tags :: "string list"
  a_Owner :: string
  a_ParentID :: string
  a_TraceID :: string
  a_NamespaceID :: string
  a_TTL :: duration
  a_CreatedAt :: gotime
  a_UpdatedAt :: gotime
  a_OwnerTime :: gotime
  a_LeaseToken :: string
  a_LeaseUntil :: gotime
  a_Version :: int
  a_Metadata :: "string gomap option"

text \<open>
  The \<^verbatim>\<open>Data\<close> map of an event holds plain values and, under the key \<^verbatim>\<open>agent\<close>, a pointer to the agent
  just written.
\<close>

datatype event_val = EVal gval | EAgent agent

record event =
  e_ID :: string
  e_TupleID :: string
  e_Type :: event_type
  e_Kind :: string
  e_Timestamp :: gotime
  e_AgentID :: string
  e_Data :: "event_val gomap"
  e_TraceID :: string
  e_Version :: int

record query =
  q_Kind :: string
  q_Status :: status
  q_Tags :: "string list"
  q_Owner :: string
  q_ParentID :: string
  q_TraceID :: string
  q_NamespaceID :: string
  q_AgentID :: string
  q_Metadata :: "string gomap option"
  q_Limit :: int
  q_Offset :: int

definition empty_query :: query where
  "empty_query = \<lparr> q_Kind = [], q_Status = [], q_Tags = [], q_Owner = [], q_ParentID = [], q_TraceID = [],
     q_NamespaceID = [], q_AgentID = [], q_Metadata = None, q_Limit = 0, q_Offset = 0 \<rparr>"

record event_query =
  eq_TupleID :: string
  eq_AgentID :: string
  eq_Type :: event_type
  eq_TraceID :: string
  eq_Limit :: int
  eq_Offset :: int
  eq_Cursor :: string

definition empty_event_query :: event_query where
  "empty_event_query = \<lparr> eq_TupleID = [], eq_AgentID = [], eq_Type = [], eq_TraceID = [],
     eq_Limit = 0, eq_Offset = 0, eq_Cursor = [] \<rparr>"

record event_page =
  ep_Events :: "event list"
  ep_Total :: int
  ep_NextCursor :: string

record event_filter =
  f_Types :: "event_type list"
  f_TupleIDs :: "string list"
  f_Kinds :: "string list"
  f_AgentIDs :: "string list"
  f_TraceIDs :: "string list"

record dag_node =
  n_TupleID :: string
  n_Kind :: string
  n_Status :: status
  n_CreatedAt :: gotime
  n_Metadata :: "string gomap option"

record edge =
  ed_From :: string
  ed_To :: string
  ed_Type :: string

record dag =
  d_Nodes :: "dag_node gomap"
  d_Edges :: "edge list"

record lease_options =
  lo_LeaseDuration :: duration
  lo_AutoRenew :: bool

section \<open>Constructors and builders of helpers.go\<close>

definition empty_agent :: agent where
  "empty_agent = \<lparr> a_ID = [], a_Kind = [], a_Status = [], a_ShardID = [], a_Payload = None, a_Tags = [],
     a_Owner = [], a_ParentID = [], a_TraceID = [], a_NamespaceID = [], a_TTL = 0,
     a_CreatedAt = zero_time, a_UpdatedAt = zero_time, a_OwnerTime = zero_time, a_LeaseToken = [],
     a_LeaseUntil = zero_time, a_Version = 0, a_Metadata = None \<rparr>"

text \<open>The two UUIDs and the clock reading are what \<^verbatim>\<open>uuid.New\<close> and \<^verbatim>\<open>time.Now\<close> return.\<close>

definition NewAgent :: "string \<Rightarrow> string \<Rightarrow> gotime \<Rightarrow> string \<Rightarrow> gval gomap option \<Rightarrow> agent" where
  "NewAgent uuid1 uuid2 now kind payload = empty_agent
     \<lparr> a_ID := uuid1, a_Kind := kind, a_TraceID := uuid2, a_Status := StatusNew, a_Payload := payload,
       a_Tags := [], a_CreatedAt := now, a_UpdatedAt := now, a_Version := 1, a_Metadata := Some [] \<rparr>"

definition WithTraceID :: "string \<Rightarrow> agent \<Rightarrow> agent" where
  "WithTraceID traceID t = t \<lparr> a_TraceID := traceID \<rparr>"

definition WithParentID :: "string \<Rightarrow> agent \<Rightarrow> agent" where
  "WithParentID parentID t = t \<lparr> a_ParentID := parentID \<rparr>"

definition WithTags :: "string list \<Rightarrow> agent \<Rightarrow> agent" where
  "WithTags tags t = t \<lparr> a_Tags := a_Tags t @ tags \<rparr>"

definition WithTTL :: "duration \<Rightarrow> agent \<Rightarrow> agent" where
  "WithTTL ttl t = t \<lparr> a_TTL := ttl \<rparr>"

definition WithMetadata :: "string \<Rightarrow> string \<Rightarrow> agent \<Rightarrow> agent" where
  "WithMetadata key v t = t \<lparr> a_Metadata := Some (AList.update key v (or_nil (a_Metadata t))) \<rparr>"

section \<open>Predicates of helpers.go\<close>

fun tag_loop :: "string list \<Rightarrow> string \<Rightarrow> bool" where
  "tag_loop [] tag = False"
| "tag_loop (t # ts) tag = (if t = tag then True else tag_loop ts tag)"

definition HasTag :: "agent \<Rightarrow> string \<Rightarrow> bool" where
  "HasTag t tag = tag_loop (a_Tags t) tag"

fun HasAnyTag :: "agent \<Rightarrow> string list \<Rightarrow> bool" where
  "HasAnyTag t [] = False"
| "HasAnyTag t (tag # tags) = (if HasTag t tag then True else HasAnyTag t tags)"

fun HasAllTags :: "agent \<Rightarrow> string list \<Rightarrow> bool" where
  "HasAllTags t [] = True"
| "HasAllTags t (tag # tags) = (if \<not> HasTag t tag then False else HasAllTags t tags)"

text \<open>\<^verbatim>\<open>time.Since(u) > d\<close> at clock reading \<^verbatim>\<open>now\<close>.\<close>

definition IsExpired :: "gotime \<Rightarrow> agent \<Rightarrow> bool" where
  "IsExpired now t = (if a_TTL t = 0 then False else now - a_CreatedAt t > a_TTL t)"

definition IsLeaseExpired :: "gotime \<Rightarrow> duration \<Rightarrow> agent \<Rightarrow> bool" where
  "IsLeaseExpired now leaseDuration t =
    (if a_Owner t = [] \<or> a_Status t \<noteq> StatusInProgress then False
     else if \<not> IsZero (a_LeaseUntil t) then now > a_LeaseUntil t
     else now - a_OwnerTime t > leaseDuration)"

definition MatchesQuery :: "agent \<Rightarrow> query option \<Rightarrow> bool" where
  "MatchesQuery t qo = (case qo of None \<Rightarrow> True | Some q \<Rightarrow>
    (if q_Kind q \<noteq> [] \<and> a_Kind t \<noteq> q_Kind q then False
     else if q_Status q \<noteq> [] \<and> a_Status t \<noteq> q_Status q then False
     else if q_Owner q \<noteq> [] \<and> a_Owner t \<noteq> q_Owner q then False
     else if q_TraceID q \<noteq> [] \<and> a_TraceID t \<noteq> q_TraceID q then False
     else if q_ParentID q \<noteq> [] \<and> a_ParentID t \<noteq> q_ParentID q then False
     else if q_NamespaceID q \<noteq> [] \<and> a_NamespaceID t \<noteq> q_NamespaceID q then False
     else if q_Tags q \<noteq> [] \<and> \<not> HasAllTags t (q_Tags q) then False
     else True))"

definition ParseTag :: "string \<Rightarrow> string \<times> string" where
  "ParseTag tag = (case splitN2 (CHR '':'') tag of [k, v] \<Rightarrow> (k, v) | _ \<Rightarrow> (tag, []))"

definition MakeTag :: "string \<Rightarrow> string \<Rightarrow> string" where
  "MakeTag key v = (if v = [] then key else key @ '':'' @ v)"

definition DefaultLeaseOptions :: lease_options where
  "DefaultLeaseOptions = \<lparr> lo_LeaseDuration = 5 * Minute, lo_AutoRenew = False \<rparr>"

section \<open>Routing hints of route\_context.go\<close>

text \<open>A context is nil, a root context, or one extended by a value under the shard key.\<close>

datatype go_context = NilCtx | Background | WithShardValue go_context string

fun shard_value :: "go_context \<Rightarrow> string option" where
  "shard_value NilCtx = None"
| "shard_value Background = None"
| "shard_value (WithShardValue c s) = Some s"

definition ContextWithShardID :: "go_context \<Rightarrow> string \<Rightarrow> go_context" where
  "ContextWithShardID ctx shardID = (if ctx = NilCtx \<or> shardID = [] then ctx else WithShardValue ctx shardID)"

definition ShardIDFromContext :: "go_context \<Rightarrow> string" where
  "ShardIDFromContext ctx =
    (if ctx = NilCtx then [] else case shard_value ctx of Some s \<Rightarrow> s | None \<Rightarrow> [])"

section \<open>Marshalling agents and events\<close>

definition json_opt_map :: "gval gomap option \<Rightarrow> json option" where
  "json_opt_map m = (case m of None \<Rightarrow> Some JNull | Some x \<Rightarrow> marshal_map x)"

definition json_str_map :: "string gomap option \<Rightarrow> json" where
  "json_str_map m = (case m of None \<Rightarrow> JNull | Some x \<Rightarrow> JObj (map (\<lambda>(k, v). (k, JStr v)) x))"

text \<open>
  \<^verbatim>\<open>json.Marshal\<close> of an agent follows the field tags: \<^verbatim>\<open>shard_id\<close> and \<^verbatim>\<open>lease_token\<close> are dropped when empty;
  \<^verbatim>\<open>omitempty\<close> has no effect on the time fields, which are structs.
\<close>

definition agent_json :: "agent \<Rightarrow> json option" where
  "agent_json t = map_option JObj (all_some_snd (
     [(''id'', Some (JStr (a_ID t))), (''kind'', Some (JStr (a_Kind t))), (''status'', Some (JStr (a_Status t)))] @
     (if a_ShardID t = [] then [] else [(''shard_id'', Some (JStr (a_ShardID t)))]) @
     [(''payload'', json_opt_map (a_Payload t)), (''tags'', Some (JArr (map JStr (a_Tags t)))),
      (''owner'', Some (JStr (a_Owner t))), (''parent_id'', Some (JStr (a_ParentID t))),
      (''trace_id'', Some (JStr (a_TraceID t))), (''namespace_id'', Some (JStr (a_NamespaceID t))),
      (''ttl'', Some (JInt (a_TTL t))), (''created_at'', marshal_time (a_CreatedAt t)),
      (''updated_at'', marshal_time (a_UpdatedAt t)), (''owner_time'', marshal_time (a_OwnerTime t))] @
     (if a_LeaseToken t = [] then [] else [(''lease_token'', Some (JStr (a_LeaseToken t)))]) @
     [(''lease_until'', marshal_time (a_LeaseUntil t)), (''version'', Some (JInt (a_Version t))),
      (''metadata'', Some (json_str_map (a_Metadata t)))]))"

definition event_val_json :: "event_val \<Rightarrow> json option" where
  "event_val_json v = (case v of EVal g \<Rightarrow> marshal g | EAgent t \<Rightarrow> agent_json t)"

definition event_data_json :: "event_val gomap \<Rightarrow> json option" where
  "event_data_json d = map_option JObj (all_some_snd (map (map_prod id event_val_json) d))"

text \<open>An \<^verbatim>\<open>interface{}\<close> map used as event data.\<close>

definition plain_data :: "gval gomap \<Rightarrow> event_val gomap" where
  "plain_data m = map (map_prod id EVal) m"

section \<open>Basic facts\<close>

lemma tag_loop_iff [simp]: "tag_loop ts tag \<longleftrightarrow> tag \<in> set ts"
  by (induction ts) auto

lemma HasTag_iff [simp]: "HasTag t tag \<longleftrightarrow> tag \<in> set (a_Tags t)"
  by (simp add: HasTag_def)

lemma HasAllTags_iff [simp]: "HasAllTags t tags \<longleftrightarrow> set tags \<subseteq> set (a_Tags t)"
  by (induction tags) auto

lemma HasAnyTag_iff [simp]: "HasAnyTag t tags \<longleftrightarrow> set tags \<inter> set (a_Tags t) \<noteq> {}"
  by (induction tags) auto

lemma MatchesQuery_Some:
  "MatchesQuery t (Some q) \<longleftrightarrow>
     (q_Kind q = [] \<or> a_Kind t = q_Kind q) \<and> (q_Status q = [] \<or> a_Status t = q_Status q) \<and>
     (q_Owner q = [] \<or> a_Owner t = q_Owner q) \<and> (q_TraceID q = [] \<or> a_TraceID t = q_TraceID q) \<and>
     (q_ParentID q = [] \<or> a_ParentID t = q_ParentID q) \<and>
     (q_NamespaceID q = [] \<or> a_NamespaceID t = q_NamespaceID q) \<and> set (q_Tags q) \<subseteq> set (a_Tags t)"
  by (cases "q_Tags q = []") (simp_all add: MatchesQuery_def)

lemma event_data_json_plain:
  "event_data_json (plain_data m) = marshal_map m"
  by (simp add: event_data_json_def plain_data_def marshal_map_def prod.map_comp comp_def)
     (simp add: event_val_json_def id_def)

section \<open>Properties\<close>

text \<open>The tag codec round-trips.  \<^verbatim>\<open>ParseTag\<close> recovers the key and the value that \<^verbatim>\<open>MakeTag\<close> put
  together, for any value and any key without a colon.\<close>

theorem ParseTag_MakeTag:
  assumes "CHR '':'' \<notin> set key"
  shows "ParseTag (MakeTag key v) = (key, v)"
  using assms by (simp add: ParseTag_def MakeTag_def splitN2_append splitN2_no_sep)

theorem ParseTag_MakeTag_witness:
  "CHR '':'' \<notin> set ''env'' \<and> ParseTag (MakeTag ''env'' ''a:b'') = (''env'', ''a:b'')"
  using ParseTag_MakeTag[of "''env''" "''a:b''"] by simp

end
