(* ===== verification/Store_Common.thy ===== *)
theory Store_Common
  imports Agent_Model
begin

text \<open>
  Package \<^verbatim>\<open>pkg/store/internal/common\<close>: the completion metadata (\<^verbatim>\<open>completion.go\<close>, \<^verbatim>\<open>constants.go\<close>), the
  generic update map (\<^verbatim>\<open>update.go\<close>) and the in-process subscription registry (\<^verbatim>\<open>subscription.go\<close>), and
  the error values and the environment (clock, UUID source, database faults) every backend uses.
\<close>

section \<open>Errors and environment\<close>

text \<open>The database calls at which an operation can fail; calls in a loop carry the iteration.\<close>

datatype db_call =
    CBegin | CSelect | CScanRows | CClaim nat | CWrite nat | CInsertEvent nat | CCommit | CExec nat
  | CLock | CNotify nat

datatype store_error =
    ErrNotFound string
  | ErrAgentIDRequired
  | ErrLeaseTokenRequired
  | ErrInvalidStatus status
  | ErrOwnedBy string string string
  | ErrLeaseTokenMismatch
  | ErrTokenMismatchStale
  | ErrTimeout
  | ErrDeadline
  | ErrDB db_call
  | ErrDuplicateEvent string
  | ErrMarshal
  | ErrUnmarshal
  | ErrSyntax
  | ErrCreateOutputAgent store_error
  | ErrCreateOutputEvent store_error
  | ErrOutputWakeup store_error
  | ErrUnsupported
  | ErrSQL string
  | ErrOther string

text \<open>
  What one call of a store operation reads from outside: \<^verbatim>\<open>clock e i\<close> is the reading of \<^verbatim>\<open>time.Now()\<close> at the
  \<open>i\<close>-th place of the operation that reads it, \<^verbatim>\<open>uuid e i\<close> the \<open>i\<close>-th UUID it generates, and
  \<^verbatim>\<open>fault e c\<close> says that the database call \<open>c\<close> returns an error.
\<close>

record env =
  clock :: "nat \<Rightarrow> gotime"
  uuid :: "nat \<Rightarrow> string"
  fault :: "db_call \<Rightarrow> bool"

section \<open>constants.go and completion.go\<close>

definition CompletedByMetadataKey :: string where "CompletedByMetadataKey = ''_completed_by''"
definition CompletedByTokenMetadataKey :: string where "CompletedByTokenMetadataKey = ''_completed_by_token''"
definition CompletedAtMetadataKey :: string where "CompletedAtMetadataKey = ''_completed_at''"
definition QueueMetadataKey :: string where "QueueMetadataKey = ''queue''"
definition NamespaceMetadataKey :: string where "NamespaceMetadataKey = ''namespace_id''"

lemma metadata_keys_distinct [simp]:
  "CompletedByTokenMetadataKey \<noteq> CompletedByMetadataKey" "CompletedByMetadataKey \<noteq> CompletedByTokenMetadataKey"
  "CompletedByTokenMetadataKey \<noteq> CompletedAtMetadataKey" "CompletedAtMetadataKey \<noteq> CompletedByTokenMetadataKey"
  "NamespaceMetadataKey \<noteq> CompletedByTokenMetadataKey" "CompletedByTokenMetadataKey \<noteq> NamespaceMetadataKey"
  "NamespaceMetadataKey \<noteq> CompletedByMetadataKey" "NamespaceMetadataKey \<noteq> CompletedAtMetadataKey"
  "CompletedByMetadataKey \<noteq> NamespaceMetadataKey" "CompletedAtMetadataKey \<noteq> NamespaceMetadataKey"
  "CompletedByMetadataKey \<noteq> CompletedAtMetadataKey" "CompletedAtMetadataKey \<noteq> CompletedByMetadataKey"
  by (simp_all add: CompletedByMetadataKey_def CompletedByTokenMetadataKey_def CompletedAtMetadataKey_def
      NamespaceMetadataKey_def)

definition SetCompletionMetadata :: "agent \<Rightarrow> string \<Rightarrow> string \<Rightarrow> gotime \<Rightarrow> agent" where
  "SetCompletionMetadata t agentID leaseToken completedAt =
    (let m0 = or_nil (a_Metadata t);
         m1 = (if agentID \<noteq> [] then AList.update CompletedByMetadataKey agentID m0 else m0);
         m2 = (if leaseToken \<noteq> [] then AList.update CompletedByTokenMetadataKey leaseToken m1 else m1);
         m3 = (if \<not> IsZero completedAt
               then AList.update CompletedAtMetadataKey (format_rfc3339nano completedAt) m2 else m2)
     in t \<lparr> a_Metadata := Some m3 \<rparr>)"

definition CompletionTokenMatches :: "agent option \<Rightarrow> string \<Rightarrow> bool" where
  "CompletionTokenMatches t leaseToken =
    (case t of None \<Rightarrow> False | Some a \<Rightarrow>
      (case a_Metadata a of None \<Rightarrow> False | Some m \<Rightarrow>
        if leaseToken = [] then False
        else (let token = str_at m CompletedByTokenMetadataKey in token \<noteq> [] \<and> token = leaseToken)))"

definition CompletionTokenRecorded :: "agent option \<Rightarrow> bool" where
  "CompletionTokenRecorded t =
    (case t of None \<Rightarrow> False | Some a \<Rightarrow>
      (case a_Metadata a of None \<Rightarrow> False | Some m \<Rightarrow> str_at m CompletedByTokenMetadataKey \<noteq> []))"

section \<open>update.go\<close>

text \<open>A failing type assertion yields the zero value.\<close>

definition GetStringFromMap :: "gval gomap \<Rightarrow> string \<Rightarrow> string" where
  "GetStringFromMap m key = (case map_of m key of Some (VStr v) \<Rightarrow> v | _ \<Rightarrow> [])"

definition upd_payload :: "gval gomap \<Rightarrow> agent \<Rightarrow> agent" where
  "upd_payload u t = (case map_of u ''payload'' of
     Some (VMap payload) \<Rightarrow> t \<lparr> a_Payload := Some (map_merge (or_nil (a_Payload t)) payload) \<rparr>
   | _ \<Rightarrow> t)"

definition upd_status :: "gval gomap \<Rightarrow> agent \<Rightarrow> agent" where
  "upd_status u t = (case map_of u ''status'' of Some (VStr s) \<Rightarrow> t \<lparr> a_Status := s \<rparr> | _ \<Rightarrow> t)"

definition upd_owner :: "gval gomap \<Rightarrow> agent \<Rightarrow> agent" where
  "upd_owner u t = (case map_of u ''owner'' of Some (VStr s) \<Rightarrow> t \<lparr> a_Owner := s \<rparr> | _ \<Rightarrow> t)"

definition string_of_gval :: "gval \<Rightarrow> string option" where
  "string_of_gval v = (case v of VStr s \<Rightarrow> Some s | _ \<Rightarrow> None)"

definition upd_tags :: "gval gomap \<Rightarrow> agent \<Rightarrow> agent" where
  "upd_tags u t = (case map_of u ''tags'' of
     Some (VStrings tags) \<Rightarrow> t \<lparr> a_Tags := tags \<rparr>
   | Some (VList tags) \<Rightarrow> t \<lparr> a_Tags := List.map_filter string_of_gval tags \<rparr>
   | _ \<Rightarrow> t)"

definition upd_metadata :: "gval gomap \<Rightarrow> agent \<Rightarrow> agent" where
  "upd_metadata u t = (case map_of u ''metadata'' of
     Some (VStrMap metadata) \<Rightarrow> t \<lparr> a_Metadata := Some (map_merge (or_nil (a_Metadata t)) metadata) \<rparr>
   | Some (VMap metadata) \<Rightarrow> t \<lparr> a_Metadata := Some (map_merge (or_nil (a_Metadata t))
       (List.map_filter (\<lambda>(k, v). map_option (Pair k) (string_of_gval v)) metadata)) \<rparr>
   | _ \<Rightarrow> t)"

definition upd_owner_time :: "gval gomap \<Rightarrow> agent \<Rightarrow> agent" where
  "upd_owner_time u t = (case map_of u ''owner_time'' of
     Some (VTime ownerTime) \<Rightarrow> t \<lparr> a_OwnerTime := ownerTime \<rparr>
   | Some (VStr ownerTime) \<Rightarrow>
       (case parse_rfc3339 ownerTime of Some parsed \<Rightarrow> t \<lparr> a_OwnerTime := parsed \<rparr> | None \<Rightarrow> t)
   | _ \<Rightarrow> t)"

definition upd_lease_until :: "gval gomap \<Rightarrow> agent \<Rightarrow> agent" where
  "upd_lease_until u t = (case map_of u ''lease_until'' of
     Some (VTime leaseUntil) \<Rightarrow> t \<lparr> a_LeaseUntil := leaseUntil \<rparr>
   | Some (VStr leaseUntil) \<Rightarrow>
       (case parse_rfc3339 leaseUntil of Some parsed \<Rightarrow> t \<lparr> a_LeaseUntil := parsed \<rparr> | None \<Rightarrow> t)
   | _ \<Rightarrow> t)"

definition upd_lease_token :: "gval gomap \<Rightarrow> agent \<Rightarrow> agent" where
  "upd_lease_token u t = (case map_of u ''lease_token'' of Some (VStr s) \<Rightarrow> t \<lparr> a_LeaseToken := s \<rparr> | _ \<Rightarrow> t)"

definition ApplyUpdates :: "agent \<Rightarrow> gval gomap option \<Rightarrow> agent" where
  "ApplyUpdates t updates = (case updates of None \<Rightarrow> t | Some u \<Rightarrow>
     upd_lease_token u (upd_lease_until u (upd_owner_time u (upd_metadata u
       (upd_tags u (upd_owner u (upd_status u (upd_payload u t))))))))"

lemmas upd_defs = upd_payload_def upd_status_def upd_owner_def upd_tags_def upd_metadata_def
  upd_owner_time_def upd_lease_until_def upd_lease_token_def

section \<open>subscription.go\<close>

text \<open>Handlers are named by numbers; the registry maps subscription keys to their handlers in order.\<close>

type_synonym handler = nat
type_synonym registry = "(string \<times> handler list) list"

definition NewSubscriptionRegistry :: registry where
  "NewSubscriptionRegistry = []"

definition filter_part :: "string \<Rightarrow> string list \<Rightarrow> string list" where
  "filter_part name xs = (if xs = [] then [] else [name, join_with '','' xs])"

definition GenerateSubKey :: "event_filter option \<Rightarrow> string" where
  "GenerateSubKey flt = (case flt of None \<Rightarrow> join_with '':'' [''sub''] | Some f \<Rightarrow>
     join_with '':'' ([''sub''] @ filter_part ''types'' (f_Types f) @ filter_part ''kinds'' (f_Kinds f) @
       filter_part ''tuples'' (f_TupleIDs f) @ filter_part ''agents'' (f_AgentIDs f) @
       filter_part ''traces'' (f_TraceIDs f)))"

fun containsString :: "string list \<Rightarrow> string \<Rightarrow> bool" where
  "containsString [] str = False"
| "containsString (s # ss) str = (if s = str then True else containsString ss str)"

definition filter_clause :: "event \<Rightarrow> string \<Rightarrow> string \<Rightarrow> bool" where
  "filter_clause ev filterType filterValue =
    (if filterType = ''types'' then containsString (split_on (CHR '','') filterValue) (e_Type ev)
     else if filterType = ''kinds'' then containsString (split_on (CHR '','') filterValue) (e_Kind ev)
     else if filterType = ''tuples'' then containsString (split_on (CHR '','') filterValue) (e_TupleID ev)
     else if filterType = ''agents'' then containsString (split_on (CHR '','') filterValue) (e_AgentID ev)
     else if filterType = ''traces'' then containsString (split_on (CHR '','') filterValue) (e_TraceID ev)
     else True)"

text \<open>The loop walks over the parts after the first in pairs; an odd part at the end is ignored.\<close>

fun match_parts :: "event \<Rightarrow> string list \<Rightarrow> bool" where
  "match_parts ev (ty # val # rest) = (if \<not> filter_clause ev ty val then False else match_parts ev rest)"
| "match_parts ev _ = True"

definition EventMatchesFilter :: "event \<Rightarrow> string \<Rightarrow> bool" where
  "EventMatchesFilter ev subKey =
    (let parts = split_on (CHR '':'') subKey in if length parts < 2 then True else match_parts ev (tl parts))"

definition handlers_at :: "registry \<Rightarrow> string \<Rightarrow> handler list" where
  "handlers_at r k = (case map_of r k of None \<Rightarrow> [] | Some hs \<Rightarrow> hs)"

definition Subscribe :: "registry \<Rightarrow> event_filter option \<Rightarrow> handler option \<Rightarrow> registry" where
  "Subscribe r flt h = (case h of None \<Rightarrow> r | Some h1 \<Rightarrow>
     (let subKey = GenerateSubKey flt in AList.update subKey (handlers_at r subKey @ [h1]) r))"

text \<open>The handlers \<^verbatim>\<open>Notify\<close> starts a goroutine for.\<close>

definition Notify :: "registry \<Rightarrow> event option \<Rightarrow> handler list" where
  "Notify r ev = (case ev of None \<Rightarrow> [] | Some e \<Rightarrow>
     concat (map (\<lambda>(subKey, hs). if EventMatchesFilter e subKey then hs else []) r))"

text \<open>What a filter is meant to select: every non-empty list is a disjunction, the lists a conjunction.\<close>

definition filter_selects :: "event_filter option \<Rightarrow> event \<Rightarrow> bool" where
  "filter_selects flt ev = (case flt of None \<Rightarrow> True | Some f \<Rightarrow>
     (f_Types f = [] \<or> e_Type ev \<in> set (f_Types f)) \<and> (f_Kinds f = [] \<or> e_Kind ev \<in> set (f_Kinds f)) \<and>
     (f_TupleIDs f = [] \<or> e_TupleID ev \<in> set (f_TupleIDs f)) \<and>
     (f_AgentIDs f = [] \<or> e_AgentID ev \<in> set (f_AgentIDs f)) \<and>
     (f_TraceIDs f = [] \<or> e_TraceID ev \<in> set (f_TraceIDs f)))"

definition plain_name :: "string \<Rightarrow> bool" where
  "plain_name s \<longleftrightarrow> CHR '':'' \<notin> set s \<and> CHR '','' \<notin> set s"

definition plain_filter :: "event_filter option \<Rightarrow> bool" where
  "plain_filter flt = (case flt of None \<Rightarrow> True | Some f \<Rightarrow>
     list_all plain_name (f_Types f @ f_Kinds f @ f_TupleIDs f @ f_AgentIDs f @ f_TraceIDs f))"

section \<open>Lemmas\<close>

lemma containsString_iff [simp]: "containsString xs s \<longleftrightarrow> s \<in> set xs"
  by (induction xs) auto

lemma set_join_with: "set (join_with sep xs) \<subseteq> set sep \<union> \<Union> (set ` set xs)"
  by (induction sep xs rule: join_with.induct) auto

lemma plain_join_no_colon: "list_all plain_name xs \<Longrightarrow> CHR '':'' \<notin> set (join_with '','' xs)"
  using set_join_with[of "'',''" xs] by (auto simp: list_all_iff plain_name_def)

lemma plain_join_split: "list_all plain_name xs \<Longrightarrow> xs \<noteq> [] \<Longrightarrow> split_on (CHR '','') (join_with '','' xs) = xs"
  by (rule split_join) (auto simp: list_all_iff plain_name_def)

lemma match_filter_part:
  assumes "list_all plain_name xs"
  shows "match_parts ev (filter_part name xs @ rest) \<longleftrightarrow>
           (xs = [] \<or> filter_clause ev name (join_with '','' xs)) \<and> match_parts ev rest"
  by (simp add: filter_part_def)

lemma filter_part_no_colon:
  "list_all plain_name xs \<Longrightarrow> CHR '':'' \<notin> set name \<Longrightarrow> p \<in> set (filter_part name xs) \<Longrightarrow> CHR '':'' \<notin> set p"
  by (auto simp: filter_part_def plain_join_no_colon split: if_splits)

lemma SetCompletionMetadata_token [simp]:
  "leaseToken \<noteq> [] \<Longrightarrow>
     str_at (or_nil (a_Metadata (SetCompletionMetadata t agentID leaseToken now))) CompletedByTokenMetadataKey = leaseToken"
  by (simp add: SetCompletionMetadata_def Let_def)

lemma SetCompletionMetadata_frame [simp]:
  "a_ID (SetCompletionMetadata t ag tok now) = a_ID t" "a_Kind (SetCompletionMetadata t ag tok now) = a_Kind t"
  "a_Status (SetCompletionMetadata t ag tok now) = a_Status t" "a_Payload (SetCompletionMetadata t ag tok now) = a_Payload t"
  "a_Tags (SetCompletionMetadata t ag tok now) = a_Tags t" "a_Owner (SetCompletionMetadata t ag tok now) = a_Owner t"
  "a_ParentID (SetCompletionMetadata t ag tok now) = a_ParentID t" "a_TraceID (SetCompletionMetadata t ag tok now) = a_TraceID t"
  "a_NamespaceID (SetCompletionMetadata t ag tok now) = a_NamespaceID t" "a_TTL (SetCompletionMetadata t ag tok now) = a_TTL t"
  "a_CreatedAt (SetCompletionMetadata t ag tok now) = a_CreatedAt t" "a_UpdatedAt (SetCompletionMetadata t ag tok now) = a_UpdatedAt t"
  "a_OwnerTime (SetCompletionMetadata t ag tok now) = a_OwnerTime t" "a_LeaseToken (SetCompletionMetadata t ag tok now) = a_LeaseToken t"
  "a_LeaseUntil (SetCompletionMetadata t ag tok now) = a_LeaseUntil t" "a_Version (SetCompletionMetadata t ag tok now) = a_Version t"
  "a_ShardID (SetCompletionMetadata t ag tok now) = a_ShardID t"
  by (simp_all add: SetCompletionMetadata_def Let_def)

lemma SetCompletionMetadata_is_Some:
  "a_Metadata (SetCompletionMetadata t ag tok now) = Some (or_nil (a_Metadata (SetCompletionMetadata t ag tok now)))"
  by (simp add: SetCompletionMetadata_def Let_def)

lemma CompletionTokenMatches_iff:
  "CompletionTokenMatches (Some a) tok \<longleftrightarrow> tok \<noteq> [] \<and> str_at (or_nil (a_Metadata a)) CompletedByTokenMetadataKey = tok"
  by (auto simp: CompletionTokenMatches_def Let_def split: option.splits)

lemma upd_payload_frame [simp]:
  "a_ID (upd_payload u t) = a_ID t" "a_Kind (upd_payload u t) = a_Kind t"
  "a_Status (upd_payload u t) = a_Status t" "a_ShardID (upd_payload u t) = a_ShardID t"
  "a_Tags (upd_payload u t) = a_Tags t" "a_Owner (upd_payload u t) = a_Owner t"
  "a_ParentID (upd_payload u t) = a_ParentID t" "a_TraceID (upd_payload u t) = a_TraceID t"
  "a_NamespaceID (upd_payload u t) = a_NamespaceID t" "a_TTL (upd_payload u t) = a_TTL t"
  "a_CreatedAt (upd_payload u t) = a_CreatedAt t" "a_UpdatedAt (upd_payload u t) = a_UpdatedAt t"
  "a_OwnerTime (upd_payload u t) = a_OwnerTime t" "a_LeaseToken (upd_payload u t) = a_LeaseToken t"
  "a_LeaseUntil (upd_payload u t) = a_LeaseUntil t" "a_Version (upd_payload u t) = a_Version t"
  "a_Metadata (upd_payload u t) = a_Metadata t"
  by (simp_all add: upd_payload_def split: option.splits gval.splits)

lemma upd_status_frame [simp]:
  "a_ID (upd_status u t) = a_ID t" "a_Kind (upd_status u t) = a_Kind t"
  "a_ShardID (upd_status u t) = a_ShardID t" "a_Payload (upd_status u t) = a_Payload t"
  "a_Tags (upd_status u t) = a_Tags t" "a_Owner (upd_status u t) = a_Owner t"
  "a_ParentID (upd_status u t) = a_ParentID t" "a_TraceID (upd_status u t) = a_TraceID t"
  "a_NamespaceID (upd_status u t) = a_NamespaceID t" "a_TTL (upd_status u t) = a_TTL t"
  "a_CreatedAt (upd_status u t) = a_CreatedAt t" "a_UpdatedAt (upd_status u t) = a_UpdatedAt t"
  "a_OwnerTime (upd_status u t) = a_OwnerTime t" "a_LeaseToken (upd_status u t) = a_LeaseToken t"
  "a_LeaseUntil (upd_status u t) = a_LeaseUntil t" "a_Version (upd_status u t) = a_Version t"
  "a_Metadata (upd_status u t) = a_Metadata t"
  by (simp_all add: upd_status_def split: option.splits gval.splits)

lemma upd_owner_frame [simp]:
  "a_ID (upd_owner u t) = a_ID t" "a_Kind (upd_owner u t) = a_Kind t"
  "a_Status (upd_owner u t) = a_Status t" "a_ShardID (upd_owner u t) = a_ShardID t"
  "a_Payload (upd_owner u t) = a_Payload t" "a_Tags (upd_owner u t) = a_Tags t"
  "a_ParentID (upd_owner u t) = a_ParentID t" "a_TraceID (upd_owner u t) = a_TraceID t"
  "a_NamespaceID (upd_owner u t) = a_NamespaceID t" "a_TTL (upd_owner u t) = a_TTL t"
  "a_CreatedAt (upd_owner u t) = a_CreatedAt t" "a_UpdatedAt (upd_owner u t) = a_UpdatedAt t"
  "a_OwnerTime (upd_owner u t) = a_OwnerTime t" "a_LeaseToken (upd_owner u t) = a_LeaseToken t"
  "a_LeaseUntil (upd_owner u t) = a_LeaseUntil t" "a_Version (upd_owner u t) = a_Version t"
  "a_Metadata (upd_owner u t) = a_Metadata t"
  by (simp_all add: upd_owner_def split: option.splits gval.splits)

lemma upd_tags_frame [simp]:
  "a_ID (upd_tags u t) = a_ID t" "a_Kind (upd_tags u t) = a_Kind t"
  "a_Status (upd_tags u t) = a_Status t" "a_ShardID (upd_tags u t) = a_ShardID t"
  "a_Payload (upd_tags u t) = a_Payload t" "a_Owner (upd_tags u t) = a_Owner t"
  "a_ParentID (upd_tags u t) = a_ParentID t" "a_TraceID (upd_tags u t) = a_TraceID t"
  "a_NamespaceID (upd_tags u t) = a_NamespaceID t" "a_TTL (upd_tags u t) = a_TTL t"
  "a_CreatedAt (upd_tags u t) = a_CreatedAt t" "a_UpdatedAt (upd_tags u t) = a_UpdatedAt t"
  "a_OwnerTime (upd_tags u t) = a_OwnerTime t" "a_LeaseToken (upd_tags u t) = a_LeaseToken t"
  "a_LeaseUntil (upd_tags u t) = a_LeaseUntil t" "a_Version (upd_tags u t) = a_Version t"
  "a_Metadata (upd_tags u t) = a_Metadata t"
  by (simp_all add: upd_tags_def split: option.splits gval.splits)

lemma upd_metadata_frame [simp]:
  "a_ID (upd_metadata u t) = a_ID t" "a_Kind (upd_metadata u t) = a_Kind t"
  "a_Status (upd_metadata u t) = a_Status t" "a_ShardID (upd_metadata u t) = a_ShardID t"
  "a_Payload (upd_metadata u t) = a_Payload t" "a_Tags (upd_metadata u t) = a_Tags t"
  "a_Owner (upd_metadata u t) = a_Owner t" "a_ParentID (upd_metadata u t) = a_ParentID t"
  "a_TraceID (upd_metadata u t) = a_TraceID t" "a_NamespaceID (upd_metadata u t) = a_NamespaceID t"
  "a_TTL (upd_metadata u t) = a_TTL t" "a_CreatedAt (upd_metadata u t) = a_CreatedAt t"
  "a_UpdatedAt (upd_metadata u t) = a_UpdatedAt t" "a_OwnerTime (upd_metadata u t) = a_OwnerTime t"
  "a_LeaseToken (upd_metadata u t) = a_LeaseToken t" "a_LeaseUntil (upd_metadata u t) = a_LeaseUntil t"
  "a_Version (upd_metadata u t) = a_Version t"
  by (simp_all add: upd_metadata_def split: option.splits gval.splits)

lemma upd_owner_time_frame [simp]:
  "a_ID (upd_owner_time u t) = a_ID t" "a_Kind (upd_owner_time u t) = a_Kind t"
  "a_Status (upd_owner_time u t) = a_Status t" "a_ShardID (upd_owner_time u t) = a_ShardID t"
  "a_Payload (upd_owner_time u t) = a_Payload t" "a_Tags (upd_owner_time u t) = a_Tags t"
  "a_Owner (upd_owner_time u t) = a_Owner t" "a_ParentID (upd_owner_time u t) = a_ParentID t"
  "a_TraceID (upd_owner_time u t) = a_TraceID t" "a_NamespaceID (upd_owner_time u t) = a_NamespaceID t"
  "a_TTL (upd_owner_time u t) = a_TTL t" "a_CreatedAt (upd_owner_time u t) = a_CreatedAt t"
  "a_UpdatedAt (upd_owner_time u t) = a_UpdatedAt t" "a_LeaseToken (upd_owner_time u t) = a_LeaseToken t"
  "a_LeaseUntil (upd_owner_time u t) = a_LeaseUntil t" "a_Version (upd_owner_time u t) = a_Version t"
  "a_Metadata (upd_owner_time u t) = a_Metadata t"
  by (simp_all add: upd_owner_time_def split: option.splits gval.splits)

lemma upd_lease_until_frame [simp]:
  "a_ID (upd_lease_until u t) = a_ID t" "a_Kind (upd_lease_until u t) = a_Kind t"
  "a_Status (upd_lease_until u t) = a_Status t" "a_ShardID (upd_lease_until u t) = a_ShardID t"
  "a_Payload (upd_lease_until u t) = a_Payload t" "a_Tags (upd_lease_until u t) = a_Tags t"
  "a_Owner (upd_lease_until u t) = a_Owner t" "a_ParentID (upd_lease_until u t) = a_ParentID t"
  "a_TraceID (upd_lease_until u t) = a_TraceID t" "a_NamespaceID (upd_lease_until u t) = a_NamespaceID t"
  "a_TTL (upd_lease_until u t) = a_TTL t" "a_CreatedAt (upd_lease_until u t) = a_CreatedAt t"
  "a_UpdatedAt (upd_lease_until u t) = a_UpdatedAt t" "a_OwnerTime (upd_lease_until u t) = a_OwnerTime t"
  "a_LeaseToken (upd_lease_until u t) = a_LeaseToken t" "a_Version (upd_lease_until u t) = a_Version t"
  "a_Metadata (upd_lease_until u t) = a_Metadata t"
  by (simp_all add: upd_lease_until_def split: option.splits gval.splits)

lemma upd_lease_token_frame [simp]:
  "a_ID (upd_lease_token u t) = a_ID t" "a_Kind (upd_lease_token u t) = a_Kind t"
  "a_Status (upd_lease_token u t) = a_Status t" "a_ShardID (upd_lease_token u t) = a_ShardID t"
  "a_Payload (upd_lease_token u t) = a_Payload t" "a_Tags (upd_lease_token u t) = a_Tags t"
  "a_Owner (upd_lease_token u t) = a_Owner t" "a_ParentID (upd_lease_token u t) = a_ParentID t"
  "a_TraceID (upd_lease_token u t) = a_TraceID t" "a_NamespaceID (upd_lease_token u t) = a_NamespaceID t"
  "a_TTL (upd_lease_token u t) = a_TTL t" "a_CreatedAt (upd_lease_token u t) = a_CreatedAt t"
  "a_UpdatedAt (upd_lease_token u t) = a_UpdatedAt t" "a_OwnerTime (upd_lease_token u t) = a_OwnerTime t"
  "a_LeaseUntil (upd_lease_token u t) = a_LeaseUntil t" "a_Version (upd_lease_token u t) = a_Version t"
  "a_Metadata (upd_lease_token u t) = a_Metadata t"
  by (simp_all add: upd_lease_token_def split: option.splits gval.splits)

lemma upd_own_field:
  "a_Status (upd_status u t) = (case map_of u ''status'' of Some (VStr s) \<Rightarrow> s | _ \<Rightarrow> a_Status t)"
  "a_Owner (upd_owner u t) = (case map_of u ''owner'' of Some (VStr s) \<Rightarrow> s | _ \<Rightarrow> a_Owner t)"
  "a_LeaseToken (upd_lease_token u t) = (case map_of u ''lease_token'' of Some (VStr s) \<Rightarrow> s | _ \<Rightarrow> a_LeaseToken t)"
  "map_of (or_nil (a_Payload (upd_payload u t))) = map_of (or_nil (a_Payload t)) ++
     (case map_of u ''payload'' of Some (VMap p) \<Rightarrow> map_of (rev p) | _ \<Rightarrow> Map.empty)"
  by (simp_all add: upd_status_def upd_owner_def upd_lease_token_def upd_payload_def map_of_merge
      split: option.split gval.split)

lemma ApplyUpdates_frame [simp]:
  "a_ID (ApplyUpdates t u) = a_ID t" "a_Kind (ApplyUpdates t u) = a_Kind t"
  "a_ParentID (ApplyUpdates t u) = a_ParentID t" "a_TraceID (ApplyUpdates t u) = a_TraceID t"
  "a_NamespaceID (ApplyUpdates t u) = a_NamespaceID t" "a_TTL (ApplyUpdates t u) = a_TTL t"
  "a_CreatedAt (ApplyUpdates t u) = a_CreatedAt t" "a_UpdatedAt (ApplyUpdates t u) = a_UpdatedAt t"
  "a_Version (ApplyUpdates t u) = a_Version t" "a_ShardID (ApplyUpdates t u) = a_ShardID t"
  by (simp_all add: ApplyUpdates_def split: option.splits)

lemma Notify_iff:
  assumes "distinct (map fst r)"
  shows "h \<in> set (Notify r (Some ev)) \<longleftrightarrow> (\<exists>k. h \<in> set (handlers_at r k) \<and> EventMatchesFilter ev k)"
proof
  assume "h \<in> set (Notify r (Some ev))"
  then obtain k hs where k: "(k, hs) \<in> set r" "EventMatchesFilter ev k" "h \<in> set hs"
    by (auto simp: Notify_def split: if_splits)
  then have "handlers_at r k = hs" using assms by (simp add: handlers_at_def)
  with k show "\<exists>k. h \<in> set (handlers_at r k) \<and> EventMatchesFilter ev k" by blast
next
  assume "\<exists>k. h \<in> set (handlers_at r k) \<and> EventMatchesFilter ev k"
  then obtain k where k: "h \<in> set (handlers_at r k)" "EventMatchesFilter ev k" by blast
  then obtain hs where "map_of r k = Some hs" "h \<in> set hs"
    by (cases "map_of r k") (auto simp: handlers_at_def)
  then show "h \<in> set (Notify r (Some ev))"
    using k(2) by (force simp: Notify_def dest: map_of_SomeD)
qed

lemma Subscribe_distinct: "distinct (map fst r) \<Longrightarrow> distinct (map fst (Subscribe r flt h))"
  by (simp add: Subscribe_def Let_def distinct_update split: option.split)

lemma handlers_at_Subscribe:
  "handlers_at (Subscribe r flt (Some h)) k =
     (if k = GenerateSubKey flt then handlers_at r k @ [h] else handlers_at r k)"
  by (simp add: Subscribe_def Let_def handlers_at_def)

lemma subkey_parts:
  assumes "plain_filter (Some f)"
  shows "split_on (CHR '':'') (GenerateSubKey (Some f)) =
    ''sub'' # filter_part ''types'' (f_Types f) @ filter_part ''kinds'' (f_Kinds f) @
      filter_part ''tuples'' (f_TupleIDs f) @ filter_part ''agents'' (f_AgentIDs f) @
      filter_part ''traces'' (f_TraceIDs f)" (is "_ = ?parts")
proof -
  have plain: "list_all plain_name (f_Types f)" "list_all plain_name (f_Kinds f)"
    "list_all plain_name (f_TupleIDs f)" "list_all plain_name (f_AgentIDs f)" "list_all plain_name (f_TraceIDs f)"
    using assms by (simp_all add: plain_filter_def)
  have "CHR '':'' \<notin> set p" if "p \<in> set ?parts" for p
    using that plain[THEN filter_part_no_colon, of _ p] by fastforce
  then show ?thesis
    using split_join[of ?parts "CHR '':''"] by (simp add: GenerateSubKey_def)
qed

lemma filter_clause_part:
  assumes "list_all plain_name xs" "xs \<noteq> []"
  shows "filter_clause ev ''types'' (join_with '','' xs) \<longleftrightarrow> e_Type ev \<in> set xs"
    and "filter_clause ev ''kinds'' (join_with '','' xs) \<longleftrightarrow> e_Kind ev \<in> set xs"
    and "filter_clause ev ''tuples'' (join_with '','' xs) \<longleftrightarrow> e_TupleID ev \<in> set xs"
    and "filter_clause ev ''agents'' (join_with '','' xs) \<longleftrightarrow> e_AgentID ev \<in> set xs"
    and "filter_clause ev ''traces'' (join_with '','' xs) \<longleftrightarrow> e_TraceID ev \<in> set xs"
  using plain_join_split[OF assms] by (simp_all add: filter_clause_def)

lemma match_parts_part:
  assumes "list_all plain_name xs"
  shows "match_parts ev (filter_part ''types'' xs @ rest) \<longleftrightarrow> (xs = [] \<or> e_Type ev \<in> set xs) \<and> match_parts ev rest"
    and "match_parts ev (filter_part ''kinds'' xs @ rest) \<longleftrightarrow> (xs = [] \<or> e_Kind ev \<in> set xs) \<and> match_parts ev rest"
    and "match_parts ev (filter_part ''tuples'' xs @ rest) \<longleftrightarrow> (xs = [] \<or> e_TupleID ev \<in> set xs) \<and> match_parts ev rest"
    and "match_parts ev (filter_part ''agents'' xs @ rest) \<longleftrightarrow> (xs = [] \<or> e_AgentID ev \<in> set xs) \<and> match_parts ev rest"
    and "match_parts ev (filter_part ''traces'' xs @ rest) \<longleftrightarrow> (xs = [] \<or> e_TraceID ev \<in> set xs) \<and> match_parts ev rest"
  using filter_clause_part[OF assms, of ev] by (cases "xs = []"; simp add: filter_part_def)+

lemma EventMatchesFilter_parts:
  "split_on (CHR '':'') key = p # ps \<Longrightarrow> EventMatchesFilter ev key \<longleftrightarrow> match_parts ev ps"
  by (cases ps) (simp_all add: EventMatchesFilter_def)

lemma subkey_filter_sound:
  assumes "plain_filter flt"
  shows "EventMatchesFilter ev (GenerateSubKey flt) \<longleftrightarrow> filter_selects flt ev"
proof (cases flt)
  case None
  then show ?thesis
    by (simp add: GenerateSubKey_def EventMatchesFilter_def filter_selects_def split_on_no_sep)
next
  case (Some f)
  have plain: "list_all plain_name (f_Types f)" "list_all plain_name (f_Kinds f)"
    "list_all plain_name (f_TupleIDs f)" "list_all plain_name (f_AgentIDs f)" "list_all plain_name (f_TraceIDs f)"
    using assms Some by (simp_all add: plain_filter_def)
  have "EventMatchesFilter ev (GenerateSubKey (Some f)) \<longleftrightarrow>
      match_parts ev (filter_part ''types'' (f_Types f) @ filter_part ''kinds'' (f_Kinds f) @
      filter_part ''tuples'' (f_TupleIDs f) @ filter_part ''agents'' (f_AgentIDs f) @
      filter_part ''traces'' (f_TraceIDs f) @ [])"
    using EventMatchesFilter_parts[OF subkey_parts] assms Some by simp
  then show ?thesis
    unfolding Some filter_selects_def option.case by (simp only: plain match_parts_part) simp
qed

section \<open>Properties\<close>

text \<open>After \<^verbatim>\<open>Subscribe\<close> with a filter whose names contain neither a colon nor a comma, \<^verbatim>\<open>Notify\<close>
  starts the new handler for exactly the events that the filter selects, and every handler that was
  started for an event before is still started for it, whatever was subscribed earlier.\<close>

theorem Subscribe_Notify:
  assumes "distinct (map fst r)" "plain_filter flt"
    and "\<And>k. h \<notin> set (handlers_at r k)"
  shows "(h \<in> set (Notify (Subscribe r flt (Some h)) (Some ev)) \<longleftrightarrow> filter_selects flt ev) \<and>
         set (Notify r (Some ev)) \<subseteq> set (Notify (Subscribe r flt (Some h)) (Some ev))"
proof -
  have d: "distinct (map fst (Subscribe r flt (Some h)))" using assms(1) by (rule Subscribe_distinct)
  have "h \<in> set (Notify (Subscribe r flt (Some h)) (Some ev)) \<longleftrightarrow> EventMatchesFilter ev (GenerateSubKey flt)"
    using assms(3) by (auto simp: Notify_iff[OF d] handlers_at_Subscribe)
  moreover have "set (Notify r (Some ev)) \<subseteq> set (Notify (Subscribe r flt (Some h)) (Some ev))"
  proof
    fix x assume "x \<in> set (Notify r (Some ev))"
    then obtain k where "x \<in> set (handlers_at r k)" "EventMatchesFilter ev k"
      by (auto simp: Notify_iff[OF assms(1)])
    then have "x \<in> set (handlers_at (Subscribe r flt (Some h)) k) \<and> EventMatchesFilter ev k"
      by (auto simp: handlers_at_Subscribe)
    then show "x \<in> set (Notify (Subscribe r flt (Some h)) (Some ev))" unfolding Notify_iff[OF d] by blast
  qed
  ultimately show ?thesis using subkey_filter_sound[OF assms(2), of ev] by simp
qed

definition demo_filter :: event_filter where
  "demo_filter = \<lparr> f_Types = [''CREATED'', ''CLAIMED''], f_TupleIDs = [], f_Kinds = [''task''],
     f_AgentIDs = [], f_TraceIDs = [] \<rparr>"

definition demo_event :: event where
  "demo_event = \<lparr> e_ID = ''e1'', e_TupleID = ''t1'', e_Type = ''CLAIMED'', e_Kind = ''task'',
     e_Timestamp = 0, e_AgentID = ''w1'', e_Data = [], e_TraceID = ''tr'', e_Version = 2 \<rparr>"

theorem Subscribe_Notify_witness:
  "7 \<in> set (Notify (Subscribe [(''sub'', [3])] (Some demo_filter) (Some 7)) (Some demo_event))"
proof -
  have "distinct (map fst [(''sub'', [3 :: nat])])" "plain_filter (Some demo_filter)"
    by (simp_all add: demo_filter_def plain_filter_def plain_name_def)
  moreover have "\<And>k. 7 \<notin> set (handlers_at [(''sub'', [3])] k)" by (simp add: handlers_at_def)
  moreover have "filter_selects (Some demo_filter) demo_event"
    by (simp add: filter_selects_def demo_filter_def demo_event_def)
  ultimately show ?thesis using Subscribe_Notify[of "[(''sub'', [3])]" "Some demo_filter" 7 demo_event] by blast
qed

text \<open>The colon separates the parts of a subscription key, so the plain-name hypothesis cannot be
  dropped: a subscription to the kind \<^verbatim>\<open>job:1\<close> is not told of the events of that kind.\<close>

theorem subkey_colon_loses_events:
  "\<exists>f ev. filter_selects (Some f) ev \<and> \<not> EventMatchesFilter ev (GenerateSubKey (Some f))"
proof (intro exI conjI)
  let ?f = "\<lparr> f_Types = [], f_TupleIDs = [], f_Kinds = [''job:1''], f_AgentIDs = [], f_TraceIDs = [] \<rparr>"
  let ?ev = "demo_event \<lparr> e_Kind := ''job:1'' \<rparr>"
  show "filter_selects (Some ?f) ?ev" by (simp add: filter_selects_def)
  show "\<not> EventMatchesFilter ?ev (GenerateSubKey (Some ?f))"
    by (simp add: EventMatchesFilter_def GenerateSubKey_def filter_part_def filter_clause_def Let_def)
qed

text \<open>A generic update never touches the identity of an agent or its version bookkeeping, changes
  the status, owner and lease token only through the string entries of those names, and merges the
  payload key by key.\<close>

theorem ApplyUpdates_effect:
  "a_ID (ApplyUpdates t (Some u)) = a_ID t \<and> a_Version (ApplyUpdates t (Some u)) = a_Version t \<and>
   a_NamespaceID (ApplyUpdates t (Some u)) = a_NamespaceID t \<and>
   a_CreatedAt (ApplyUpdates t (Some u)) = a_CreatedAt t \<and>
   a_Status (ApplyUpdates t (Some u)) = (case map_of u ''status'' of Some (VStr s) \<Rightarrow> s | _ \<Rightarrow> a_Status t) \<and>
   a_Owner (ApplyUpdates t (Some u)) = (case map_of u ''owner'' of Some (VStr s) \<Rightarrow> s | _ \<Rightarrow> a_Owner t) \<and>
   a_LeaseToken (ApplyUpdates t (Some u)) =
     (case map_of u ''lease_token'' of Some (VStr s) \<Rightarrow> s | _ \<Rightarrow> a_LeaseToken t) \<and>
   map_of (or_nil (a_Payload (ApplyUpdates t (Some u)))) = map_of (or_nil (a_Payload t)) ++
     (case map_of u ''payload'' of Some (VMap p) \<Rightarrow> map_of (rev p) | _ \<Rightarrow> Map.empty)"
  by (simp add: ApplyUpdates_def upd_own_field cong: option.case_cong gval.case_cong)

end
