(* ===== verification/Sql_Common.thy ===== *)
theory Sql_Common
  imports Store_Common
begin

text \<open>
  What the SQLite and the Postgres backend do in the same way before the statements differ: decoding
  JSON columns, keeping the namespace in the metadata map, the defaults of a new agent, lease durations,
  the effect of completing an agent held in memory, and the checks on a lease.
\<close>

section \<open>Documents and agents\<close>

definition scan_payload :: "json \<Rightarrow> store_error + gval gomap option" where
  "scan_payload j = (case j of
     JObj kvs \<Rightarrow> Inr (Some (map (map_prod id unmarshal) kvs))
   | JNull \<Rightarrow> Inr None
   | _ \<Rightarrow> Inl ErrUnmarshal)"

definition json_string :: "json \<Rightarrow> string" where
  "json_string j = (case j of JStr s \<Rightarrow> s | _ \<Rightarrow> [])"

text \<open>
  Decoding into \<^verbatim>\<open>map[string]string\<close> stores the empty string for a member of another type and goes on;
  the fallback then stores the string members again, with the same outcome.
\<close>

definition scan_metadata :: "json \<Rightarrow> string gomap option" where
  "scan_metadata j = (case j of
     JObj kvs \<Rightarrow> Some (map (map_prod id json_string) kvs)
   | JNull \<Rightarrow> None
   | _ \<Rightarrow> Some [])"

text \<open>The head of both row writers: the namespace is kept in the metadata map.\<close>

definition sync_namespace :: "agent \<Rightarrow> agent" where
  "sync_namespace t =
    (let m = or_nil (a_Metadata t) in
     if a_NamespaceID t \<noteq> [] then t \<lparr> a_Metadata := Some (AList.update NamespaceMetadataKey (a_NamespaceID t) m) \<rparr>
     else if str_at m NamespaceMetadataKey \<noteq> []
     then t \<lparr> a_Metadata := Some m, a_NamespaceID := str_at m NamespaceMetadataKey \<rparr>
     else t \<lparr> a_Metadata := Some m \<rparr>)"

definition ttl_ms_of :: "duration \<Rightarrow> int" where
  "ttl_ms_of ttl = (if ttl = 0 then 0 else go_quot ttl Millisecond)"

definition is_str_doc :: "json \<Rightarrow> bool" where
  "is_str_doc j = (case j of JStr s \<Rightarrow> True | _ \<Rightarrow> False)"

definition is_object :: "json \<Rightarrow> bool" where
  "is_object j = (case j of JObj _ \<Rightarrow> True | _ \<Rightarrow> False)"

text \<open>\<^verbatim>\<open>if v != "" { clauses = append(clauses, c) }\<close>\<close>

definition opt_clause :: "(string \<Rightarrow> 'c) \<Rightarrow> string \<Rightarrow> 'c list" where
  "opt_clause c v = (if v \<noteq> [] then [c v] else [])"

definition q_limit :: "query option \<Rightarrow> int" where
  "q_limit qo = (case qo of None \<Rightarrow> 0 | Some q \<Rightarrow> q_Limit q)"

definition q_offset :: "query option \<Rightarrow> int" where
  "q_offset qo = (case qo of None \<Rightarrow> 0 | Some q \<Rightarrow> q_Offset q)"

text \<open>The LIMIT and OFFSET parts of the statement, each present only when positive.\<close>

definition sql_page :: "int \<Rightarrow> int \<Rightarrow> 'a list \<Rightarrow> 'a list" where
  "sql_page limit offset xs =
    (let ys = (if 0 < offset then drop (nat offset) xs else xs) in if 0 < limit then take (nat limit) ys else ys)"

definition defaults_out :: "'e env_scheme \<Rightarrow> nat \<Rightarrow> agent \<Rightarrow> agent" where
  "defaults_out e i t =
    (let t = (if a_ID t = [] then t \<lparr> a_ID := uuid e (2 * i) \<rparr> else t);
         t = (if IsZero (a_CreatedAt t) then t \<lparr> a_CreatedAt := clock e (3 * i) \<rparr> else t);
         t = t \<lparr> a_UpdatedAt := clock e (3 * i + 1) \<rparr>;
         t = (if a_Version t = 0 then t \<lparr> a_Version := 1 \<rparr> else t)
     in t \<lparr> a_Metadata := Some (or_nil (a_Metadata t)) \<rparr>)"

text \<open>The event carries a pointer to the agent: it is marshalled after the upsert has synchronised
  the namespace.\<close>

definition created_event :: "'e env_scheme \<Rightarrow> nat \<Rightarrow> string \<Rightarrow> agent \<Rightarrow> (string \<times> event_val) list \<Rightarrow> event" where
  "created_event e i agentID t extra = \<lparr> e_ID = uuid e (2 * i + 1), e_TupleID = a_ID t, e_Type = EventCreated,
     e_Kind = a_Kind t, e_Timestamp = clock e (3 * i + 2), e_AgentID = agentID,
     e_Data = (''agent'', EAgent t) # extra, e_TraceID = a_TraceID t, e_Version = a_Version t \<rparr>"

definition leaseDurationForAgent :: "agent option \<Rightarrow> duration" where
  "leaseDurationForAgent t =
    (let default = lo_LeaseDuration DefaultLeaseOptions in
     case t of None \<Rightarrow> default | Some a \<Rightarrow>
       (case a_Metadata a of None \<Rightarrow> default | Some m \<Rightarrow>
         let fromMs = (case map_of m ''lease_ms'' of None \<Rightarrow> default | Some leaseMs \<Rightarrow>
               (case atoi leaseMs of Some ms \<Rightarrow> if 0 < ms then to_int64 (ms * Millisecond) else default
                | None \<Rightarrow> default))
         in case map_of m ''lease_sec'' of None \<Rightarrow> fromMs | Some leaseSec \<Rightarrow>
              (case atoi leaseSec of Some sec \<Rightarrow> if 0 < sec then to_int64 (sec * Second) else fromMs
               | None \<Rightarrow> fromMs)))"

definition take_agent_id :: "query option \<Rightarrow> string" where
  "take_agent_id qo = (case qo of None \<Rightarrow> [] | Some q \<Rightarrow>
     if q_AgentID q = [] then str_at (or_nil (q_Metadata q)) ''agent_id'' else q_AgentID q)"

definition completed_agent :: "gotime \<Rightarrow> string \<Rightarrow> string \<Rightarrow> gval gomap \<Rightarrow> agent \<Rightarrow> agent" where
  "completed_agent now agentID leaseToken result t =
    (let t = t \<lparr> a_Payload := Some (AList.update ''result'' (VMap result) (or_nil (a_Payload t))) \<rparr>;
         t = SetCompletionMetadata t agentID leaseToken now
     in t \<lparr> a_Status := StatusCompleted, a_Owner := [], a_OwnerTime := zero_time, a_LeaseToken := [],
            a_LeaseUntil := zero_time, a_UpdatedAt := now, a_Version := to_int64 (a_Version t + 1) \<rparr>)"

definition completed_event :: "string \<Rightarrow> gotime \<Rightarrow> string \<Rightarrow> gval gomap \<Rightarrow> agent \<Rightarrow> event" where
  "completed_event u now agentID result t = \<lparr> e_ID = u, e_TupleID = a_ID t, e_Type = EventCompleted,
     e_Kind = a_Kind t, e_Timestamp = now, e_AgentID = agentID, e_Data = plain_data result,
     e_TraceID = a_TraceID t, e_Version = a_Version t \<rparr>"

text \<open>The checks on the agent read inside the transaction; Complete, Release and RenewLease make them in
  the same order and differ in the verb of the ownership message.\<close>

definition lease_guard :: "string \<Rightarrow> string \<Rightarrow> string \<Rightarrow> agent \<Rightarrow> store_error option" where
  "lease_guard verb agentID leaseToken t =
    (if a_Status t \<noteq> StatusInProgress then Some (ErrInvalidStatus (a_Status t))
     else if a_Owner t \<noteq> agentID then Some (ErrOwnedBy verb (a_Owner t) agentID)
     else if a_LeaseToken t \<noteq> leaseToken then Some ErrLeaseTokenMismatch
     else None)"

definition released_agent :: "gotime \<Rightarrow> agent \<Rightarrow> agent" where
  "released_agent now t = t \<lparr> a_Status := StatusNew, a_Owner := [], a_OwnerTime := zero_time, a_LeaseToken := [],
     a_LeaseUntil := zero_time, a_UpdatedAt := now, a_Version := to_int64 (a_Version t + 1) \<rparr>"

text \<open>What a query asks of an agent: the fields of \<^verbatim>\<open>MatchesQuery\<close> and its metadata entries, save \<^verbatim>\<open>agent_id\<close>.\<close>

definition query_selects :: "query option \<Rightarrow> agent \<Rightarrow> bool" where
  "query_selects qo t \<longleftrightarrow> MatchesQuery t qo \<and> (case qo of None \<Rightarrow> True | Some q \<Rightarrow>
     (\<forall>(k, v) \<in> set (or_nil (q_Metadata q)). k = ''agent_id'' \<or> map_of (or_nil (a_Metadata t)) k = Some v))"

text \<open>Update maps that leave the status, the owner and the tokens alone.\<close>

definition lease_safe_update :: "gval gomap \<Rightarrow> bool" where
  "lease_safe_update u \<longleftrightarrow> map_of u ''status'' = None \<and> map_of u ''owner'' = None \<and> map_of u ''lease_token'' = None \<and>
     (case map_of u ''metadata'' of
        Some (VStrMap m) \<Rightarrow> CompletedByTokenMetadataKey \<notin> fst ` set m
      | Some (VMap m) \<Rightarrow> CompletedByTokenMetadataKey \<notin> fst ` set m
      | _ \<Rightarrow> True)"

section \<open>Lemmas\<close>

lemma sync_namespace_frame [simp]:
  "a_ID (sync_namespace t) = a_ID t" "a_Kind (sync_namespace t) = a_Kind t" "a_Status (sync_namespace t) = a_Status t"
  "a_Payload (sync_namespace t) = a_Payload t" "a_Tags (sync_namespace t) = a_Tags t"
  "a_Owner (sync_namespace t) = a_Owner t" "a_ParentID (sync_namespace t) = a_ParentID t"
  "a_TraceID (sync_namespace t) = a_TraceID t" "a_TTL (sync_namespace t) = a_TTL t"
  "a_CreatedAt (sync_namespace t) = a_CreatedAt t" "a_UpdatedAt (sync_namespace t) = a_UpdatedAt t"
  "a_OwnerTime (sync_namespace t) = a_OwnerTime t" "a_LeaseToken (sync_namespace t) = a_LeaseToken t"
  "a_LeaseUntil (sync_namespace t) = a_LeaseUntil t" "a_Version (sync_namespace t) = a_Version t"
  by (simp_all add: sync_namespace_def Let_def)

lemma sync_namespace_metadata:
  "\<exists>m. a_Metadata (sync_namespace t) = Some m \<and>
     (\<forall>k. k \<noteq> NamespaceMetadataKey \<longrightarrow> map_of m k = map_of (or_nil (a_Metadata t)) k) \<and>
     a_NamespaceID (sync_namespace t) = str_at m NamespaceMetadataKey"
  by (auto simp: sync_namespace_def Let_def str_at_def split: option.splits)

lemma json_opt_map_object: "json_opt_map p = Some j \<Longrightarrow> is_object j \<or> j = JNull"
  by (auto simp: json_opt_map_def marshal_map_def is_object_def split: option.splits)

lemma scan_metadata_json [simp]: "scan_metadata (json_str_map (Some m)) = Some m"
  by (simp add: scan_metadata_def json_str_map_def comp_def split_beta json_string_def map_idI)

lemma event_data_object: "event_data_json dat = Some j \<Longrightarrow> is_object j"
  by (auto simp: event_data_json_def is_object_def)

lemma list_all_opt_clause [simp]:
  "list_all P (opt_clause c v) \<longleftrightarrow> v = [] \<or> P (c v)"
  by (simp add: opt_clause_def)

lemma sql_page_map: "sql_page l k (map f xs) = map f (sql_page l k xs)"
  by (simp add: sql_page_def Let_def take_map drop_map)

lemma set_sql_page: "set (sql_page l k xs) \<subseteq> set xs"
  by (auto simp: sql_page_def Let_def dest: in_set_takeD in_set_dropD)

lemma lease_safe_cell:
  assumes "lease_safe_update u"
  shows "a_Status (ApplyUpdates t (Some u)) = a_Status t" "a_Owner (ApplyUpdates t (Some u)) = a_Owner t"
    "a_LeaseToken (ApplyUpdates t (Some u)) = a_LeaseToken t"
    "str_at (or_nil (a_Metadata (ApplyUpdates t (Some u)))) CompletedByTokenMetadataKey =
       str_at (or_nil (a_Metadata t)) CompletedByTokenMetadataKey"
proof -
  show "a_Status (ApplyUpdates t (Some u)) = a_Status t" "a_Owner (ApplyUpdates t (Some u)) = a_Owner t"
    "a_LeaseToken (ApplyUpdates t (Some u)) = a_LeaseToken t"
    using assms by (simp_all add: ApplyUpdates_def upd_own_field lease_safe_update_def)
  have merge: "map_of (map_merge m (src :: string gomap)) CompletedByTokenMetadataKey = map_of m CompletedByTokenMetadataKey"
    if "CompletedByTokenMetadataKey \<notin> fst ` set src" for m src
    using that by (simp add: map_of_merge map_add_dom_app_simps(3) dom_map_of_conv_image_fst)
  have keys: "CompletedByTokenMetadataKey \<notin> fst ` set (List.map_filter (\<lambda>(k, v). map_option (Pair k) (string_of_gval v)) m)"
    if "CompletedByTokenMetadataKey \<notin> fst ` set m" for m
    using that by (force simp: List.map_filter_def)
  have "map_of (or_nil (a_Metadata (upd_metadata u t))) CompletedByTokenMetadataKey =
      map_of (or_nil (a_Metadata t)) CompletedByTokenMetadataKey" for t
  proof (cases "map_of u ''metadata''")
    case (Some v)
    then show ?thesis
      using assms by (cases v) (simp_all add: lease_safe_update_def upd_metadata_def merge keys)
  qed (simp add: upd_metadata_def)
  then have "str_at (or_nil (a_Metadata (upd_metadata u t))) CompletedByTokenMetadataKey =
      str_at (or_nil (a_Metadata t)) CompletedByTokenMetadataKey" for t
    by (simp add: str_at_def)
  then show "str_at (or_nil (a_Metadata (ApplyUpdates t (Some u)))) CompletedByTokenMetadataKey =
      str_at (or_nil (a_Metadata t)) CompletedByTokenMetadataKey"
    by (simp add: ApplyUpdates_def)
qed

end
