(* ===== verification/Sqlite_Rows.thy ===== *)
theory Sqlite_Rows
  imports Sql_Common
begin

text \<open>
  The tables of the SQLite backend and the row-level functions of \<^verbatim>\<open>sqlite_sql_helpers.go\<close>: scanning a row
  into an agent or event, the upsert, the full-row update, the conditional claim and the event insert.

  A table is the list of its rows in rowid order.  The columns are those of the schema in
  \<^verbatim>\<open>migrations/sqlite\<close>; a JSON column holds a document.  The constraints the code can run into are the
  primary keys: the upsert resolves a conflict on the agent id itself, an event insert with a used id
  fails.  A write consults the environment for a database error first.
\<close>

section \<open>Tables\<close>

record agent_row =
  r_id :: string
  r_kind :: string
  r_status :: string
  r_payload :: json
  r_tags :: json
  r_owner :: string
  r_parent_id :: string
  r_trace_id :: string
  r_ttl_ms :: int
  r_created_at_ms :: int
  r_updated_at_ms :: int
  r_owner_time_ms :: "int option"
  r_lease_token :: string
  r_lease_until_ms :: "int option"
  r_version :: int
  r_metadata :: json

record event_row =
  er_id :: string
  er_tuple_id :: string
  er_type :: string
  er_kind :: string
  er_timestamp_ms :: int
  er_agent_id :: string
  er_trace_id :: string
  er_version :: int
  er_data :: json

record db =
  db_agents :: "agent_row list"
  db_events :: "event_row list"

definition empty_db :: db where
  "empty_db = \<lparr> db_agents = [], db_events = [] \<rparr>"

section \<open>Scanning\<close>

text \<open>Decoding errors of the tags column are ignored.\<close>

definition scan_tags :: "json \<Rightarrow> string list" where
  "scan_tags j = (case j of JArr js \<Rightarrow> map json_string js | _ \<Rightarrow> [])"

definition null_time :: "int option \<Rightarrow> gotime" where
  "null_time ms = (case ms of None \<Rightarrow> zero_time | Some m \<Rightarrow> time_UnixMilli m)"

definition scanSQLiteAgent :: "agent_row \<Rightarrow> store_error + agent" where
  "scanSQLiteAgent r = bindr (scan_payload (r_payload r)) (\<lambda>payload.
     let metadata = scan_metadata (r_metadata r) in
     Inr \<lparr> a_ID = r_id r, a_Kind = r_kind r, a_Status = r_status r, a_ShardID = [], a_Payload = payload,
       a_Tags = scan_tags (r_tags r), a_Owner = r_owner r, a_ParentID = r_parent_id r, a_TraceID = r_trace_id r,
       a_NamespaceID = str_at (or_nil metadata) NamespaceMetadataKey,
       a_TTL = to_int64 (r_ttl_ms r * Millisecond), a_CreatedAt = time_UnixMilli (r_created_at_ms r),
       a_UpdatedAt = time_UnixMilli (r_updated_at_ms r), a_OwnerTime = null_time (r_owner_time_ms r),
       a_LeaseToken = r_lease_token r, a_LeaseUntil = null_time (r_lease_until_ms r),
       a_Version = r_version r, a_Metadata = metadata \<rparr>)"

definition scanSQLiteEvent :: "event_row \<Rightarrow> store_error + event" where
  "scanSQLiteEvent r = bindr (scan_payload (er_data r)) (\<lambda>data.
     Inr \<lparr> e_ID = er_id r, e_TupleID = er_tuple_id r, e_Type = er_type r, e_Kind = er_kind r,
       e_Timestamp = time_UnixMilli (er_timestamp_ms r), e_AgentID = er_agent_id r,
       e_Data = plain_data (or_nil data), e_TraceID = er_trace_id r, e_Version = er_version r \<rparr>)"

section \<open>Writing\<close>

definition time_null :: "gotime \<Rightarrow> int option" where
  "time_null t = (if IsZero t then None else Some (UnixMilli t))"

text \<open>The bound parameters of the INSERT and UPDATE statements, after the three \<^verbatim>\<open>json.Marshal\<close> calls.\<close>

definition agent_columns :: "agent \<Rightarrow> store_error + agent_row" where
  "agent_columns t = (case json_opt_map (a_Payload t) of None \<Rightarrow> Inl ErrMarshal | Some payloadJSON \<Rightarrow>
     Inr \<lparr> r_id = a_ID t, r_kind = a_Kind t, r_status = a_Status t, r_payload = payloadJSON,
       r_tags = JArr (map JStr (a_Tags t)), r_owner = a_Owner t, r_parent_id = a_ParentID t,
       r_trace_id = a_TraceID t, r_ttl_ms = ttl_ms_of (a_TTL t), r_created_at_ms = UnixMilli (a_CreatedAt t),
       r_updated_at_ms = UnixMilli (a_UpdatedAt t), r_owner_time_ms = time_null (a_OwnerTime t),
       r_lease_token = a_LeaseToken t, r_lease_until_ms = time_null (a_LeaseUntil t),
       r_version = a_Version t, r_metadata = json_str_map (a_Metadata t) \<rparr>)"

text \<open>INSERT with ON CONFLICT(id) DO UPDATE: the row keeps its place in the table.\<close>

definition put_row :: "agent_row \<Rightarrow> agent_row list \<Rightarrow> agent_row list" where
  "put_row r rows =
    (if r_id r \<in> r_id ` set rows then map (\<lambda>x. if r_id x = r_id r then r else x) rows else rows @ [r])"

definition upsertSQLiteAgent :: "env \<Rightarrow> db_call \<Rightarrow> db \<Rightarrow> agent \<Rightarrow> store_error + agent \<times> db" where
  "upsertSQLiteAgent e c d t =
    (let t = sync_namespace t in
     bindr (agent_columns t) (\<lambda>r.
       if fault e c then Inl (ErrDB c)
       else Inr (t, d \<lparr> db_agents := put_row r (db_agents d) \<rparr>)))"

definition updateSQLiteAgent :: "env \<Rightarrow> db_call \<Rightarrow> db \<Rightarrow> agent \<Rightarrow> store_error + agent \<times> db" where
  "updateSQLiteAgent e c d t =
    (let t = sync_namespace t in
     bindr (agent_columns t) (\<lambda>r.
       if fault e c then Inl (ErrDB c)
       else Inr (t, d \<lparr> db_agents := map (\<lambda>x. if r_id x = r_id r then r else x) (db_agents d) \<rparr>)))"

text \<open>\<^verbatim>\<open>(ttl_ms = 0 OR created_at_ms + ttl_ms > ?)\<close>\<close>

definition ttl_alive :: "int \<Rightarrow> agent_row \<Rightarrow> bool" where
  "ttl_alive nowMs r \<longleftrightarrow> r_ttl_ms r = 0 \<or> r_created_at_ms r + r_ttl_ms r > nowMs"

definition claim_row :: "agent \<Rightarrow> agent_row \<Rightarrow> agent_row" where
  "claim_row t r = r \<lparr> r_status := a_Status t, r_owner := a_Owner t, r_owner_time_ms := time_null (a_OwnerTime t),
     r_lease_token := a_LeaseToken t, r_lease_until_ms := time_null (a_LeaseUntil t),
     r_updated_at_ms := UnixMilli (a_UpdatedAt t), r_version := a_Version t \<rparr>"

definition claimable :: "string \<Rightarrow> int \<Rightarrow> agent_row \<Rightarrow> bool" where
  "claimable i nowMs r \<longleftrightarrow> r_id r = i \<and> r_status r = StatusNew \<and> ttl_alive nowMs r"

definition claimSQLiteAgent :: "env \<Rightarrow> db_call \<Rightarrow> db \<Rightarrow> agent \<Rightarrow> int \<Rightarrow> store_error + bool \<times> db" where
  "claimSQLiteAgent e c d t nowMs =
    (if fault e c then Inl (ErrDB c)
     else Inr (list_ex (claimable (a_ID t) nowMs) (db_agents d),
               d \<lparr> db_agents := map (\<lambda>x. if claimable (a_ID t) nowMs x then claim_row t x else x) (db_agents d) \<rparr>))"

definition event_columns :: "event \<Rightarrow> json \<Rightarrow> event_row" where
  "event_columns ev dataJSON = \<lparr> er_id = e_ID ev, er_tuple_id = e_TupleID ev, er_type = e_Type ev,
     er_kind = e_Kind ev, er_timestamp_ms = UnixMilli (e_Timestamp ev), er_agent_id = e_AgentID ev,
     er_trace_id = e_TraceID ev, er_version = e_Version ev, er_data = dataJSON \<rparr>"

definition insertSQLiteEvent :: "env \<Rightarrow> db_call \<Rightarrow> db \<Rightarrow> event \<Rightarrow> store_error + db" where
  "insertSQLiteEvent e c d ev =
    (case event_data_json (e_Data ev) of None \<Rightarrow> Inl ErrMarshal | Some dataJSON \<Rightarrow>
       if fault e c then Inl (ErrDB c)
       else if e_ID ev \<in> er_id ` set (db_events d) then Inl (ErrDuplicateEvent (e_ID ev))
       else Inr (d \<lparr> db_events := db_events d @ [event_columns ev dataJSON] \<rparr>))"

section \<open>Well-formed tables\<close>

text \<open>What the writers guarantee of a stored row: its documents have the shape the readers expect.\<close>

definition wf_row :: "agent_row \<Rightarrow> bool" where
  "wf_row r \<longleftrightarrow> (is_object (r_payload r) \<or> r_payload r = JNull) \<and>
     (case r_tags r of JArr js \<Rightarrow> list_all is_str_doc js | _ \<Rightarrow> False) \<and>
     (case r_metadata r of JObj kvs \<Rightarrow> list_all (is_str_doc \<circ> snd) kvs | _ \<Rightarrow> False)"

definition wf_db :: "db \<Rightarrow> bool" where
  "wf_db d \<longleftrightarrow> distinct (map r_id (db_agents d)) \<and> list_all wf_row (db_agents d) \<and>
     distinct (map er_id (db_events d)) \<and> list_all (is_object \<circ> er_data) (db_events d)"

definition row_of :: "db \<Rightarrow> string \<Rightarrow> agent_row option" where
  "row_of d i = find (\<lambda>r. r_id r = i) (db_agents d)"

section \<open>Lemmas\<close>

lemma wf_row_scan: "wf_row r \<Longrightarrow> \<exists>t. scanSQLiteAgent r = Inr t"
  by (auto simp: wf_row_def scanSQLiteAgent_def scan_payload_def is_object_def Let_def split: json.splits)

lemma scan_fields:
  assumes "scanSQLiteAgent r = Inr t"
  shows "a_ID t = r_id r" "a_Kind t = r_kind r" "a_Status t = r_status r" "a_Owner t = r_owner r"
    "a_ParentID t = r_parent_id r" "a_TraceID t = r_trace_id r" "a_LeaseToken t = r_lease_token r"
    "a_Version t = r_version r" "a_Metadata t = scan_metadata (r_metadata r)"
    "a_CreatedAt t = time_UnixMilli (r_created_at_ms r)" "a_UpdatedAt t = time_UnixMilli (r_updated_at_ms r)"
    "a_OwnerTime t = null_time (r_owner_time_ms r)" "a_LeaseUntil t = null_time (r_lease_until_ms r)"
    "a_Tags t = scan_tags (r_tags r)" "a_TTL t = to_int64 (r_ttl_ms r * Millisecond)"
    "a_NamespaceID t = str_at (or_nil (scan_metadata (r_metadata r))) NamespaceMetadataKey"
    "scan_payload (r_payload r) = Inr (a_Payload t)"
  using assms by (auto simp: scanSQLiteAgent_def bindr_eq_Inr Let_def)

lemma agent_columns_fields:
  assumes "agent_columns t = Inr r"
  shows "r_id r = a_ID t" "r_kind r = a_Kind t" "r_status r = a_Status t" "r_owner r = a_Owner t"
    "r_parent_id r = a_ParentID t" "r_trace_id r = a_TraceID t" "r_lease_token r = a_LeaseToken t"
    "r_version r = a_Version t" "r_metadata r = json_str_map (a_Metadata t)"
    "r_created_at_ms r = UnixMilli (a_CreatedAt t)" "r_updated_at_ms r = UnixMilli (a_UpdatedAt t)"
    "r_owner_time_ms r = time_null (a_OwnerTime t)" "r_lease_until_ms r = time_null (a_LeaseUntil t)"
    "r_tags r = JArr (map JStr (a_Tags t))" "r_ttl_ms r = ttl_ms_of (a_TTL t)"
    "json_opt_map (a_Payload t) = Some (r_payload r)"
  using assms by (auto simp: agent_columns_def split: option.splits)

lemma agent_columns_wf: "agent_columns (sync_namespace t) = Inr r \<Longrightarrow> wf_row r"
  using agent_columns_fields[of "sync_namespace t" r] sync_namespace_metadata[of t]
    json_opt_map_object[of "a_Payload t" "r_payload r"]
  by (auto simp: wf_row_def json_str_map_def list_all_iff is_str_doc_def)

lemma null_time_trunc: "null_time (time_null t) = time_UnixMilli (UnixMilli t)"
  by (simp add: time_null_def null_time_def IsZero_def zero_time_def UnixMilli_def time_UnixMilli_def)

lemma time_null_pos [simp]: "0 \<le> t \<Longrightarrow> time_null t = Some (UnixMilli t)"
  by (simp add: time_null_def)

lemma time_null_zero [simp]: "time_null zero_time = None"
  by (simp add: time_null_def IsZero_def)

subsection \<open>Looking rows up\<close>

lemma row_of_SomeD: "row_of d i = Some r \<Longrightarrow> r \<in> set (db_agents d) \<and> r_id r = i"
  unfolding row_of_def by (rule find_SomeD)

lemma row_of_id: "row_of d i = Some r \<Longrightarrow> r_id r = i"
  by (simp add: row_of_SomeD)

lemma row_of_iff: "wf_db d \<Longrightarrow> row_of d i = Some r \<longleftrightarrow> r \<in> set (db_agents d) \<and> r_id r = i"
  using find_eq_Some_key[of r_id "db_agents d" r] by (auto simp: row_of_def wf_db_def dest: find_SomeD)

lemma row_of_None: "row_of d i = None \<longleftrightarrow> i \<notin> r_id ` set (db_agents d)"
  by (simp add: row_of_def find_None_key)

lemma row_of_wf: "wf_db d \<Longrightarrow> row_of d i = Some r \<Longrightarrow> wf_row r"
  by (auto simp: wf_db_def list_all_iff dest: row_of_SomeD)

lemma find_map_rows:
  assumes "\<And>x. r_id (f x) = r_id x"
  shows "find (\<lambda>r. r_id r = i) (map f rows) = map_option f (find (\<lambda>r. r_id r = i) rows)"
  by (induction rows) (simp_all add: assms)

lemma row_of_map:
  "(\<And>x. r_id (f x) = r_id x) \<Longrightarrow> row_of (d \<lparr> db_agents := map f (db_agents d) \<rparr>) i = map_option f (row_of d i)"
  by (simp add: row_of_def find_map_rows)

lemma row_of_put:
  "row_of (d \<lparr> db_agents := put_row r (db_agents d) \<rparr>) i = (if i = r_id r then Some r else row_of d i)"
proof (cases "r_id r \<in> r_id ` set (db_agents d)")
  case True
  then have "row_of (d \<lparr> db_agents := put_row r (db_agents d) \<rparr>) i =
      map_option (\<lambda>x. if r_id x = r_id r then r else x) (row_of d i)"
    by (simp add: put_row_def row_of_map)
  then show ?thesis
    using True row_of_None[of d "r_id r"] by (cases "row_of d i") (auto dest: row_of_id)
next
  case False
  have "find (\<lambda>x. r_id x = i) (rows @ [r]) =
      (case find (\<lambda>x. r_id x = i) rows of None \<Rightarrow> if r_id r = i then Some r else None | Some y \<Rightarrow> Some y)" for rows
    by (induction rows) auto
  then show ?thesis
    using False find_None_key[of r_id i "db_agents d"]
    by (auto simp: put_row_def row_of_def dest: find_SomeD split: option.splits)
qed

lemma row_of_events [simp]: "row_of (d \<lparr> db_events := evs \<rparr>) i = row_of d i"
  by (simp add: row_of_def)

subsection \<open>Row writers\<close>

lemma distinct_map_keep:
  "(\<And>x. r_id (f x) = r_id x) \<Longrightarrow> distinct (map r_id (map f rows)) = distinct (map r_id rows)"
  by (simp add: comp_def)

lemma put_row_distinct:
  assumes "distinct (map r_id rows)"
  shows "distinct (map r_id (put_row r rows))"
proof (cases "r_id r \<in> r_id ` set rows")
  case True
  then show ?thesis using assms unfolding put_row_def by (simp only: if_True) (subst distinct_map_keep, auto)
next
  case False
  then show ?thesis using assms unfolding put_row_def by (simp only: if_False) simp
qed

lemma upsert_InrD:
  assumes "upsertSQLiteAgent e c d t = Inr (t', d')"
  obtains r where "t' = sync_namespace t" "agent_columns t' = Inr r" "wf_row r"
    "d' = d \<lparr> db_agents := put_row r (db_agents d) \<rparr>" "\<not> fault e c"
  using assms agent_columns_wf
  by (auto simp: upsertSQLiteAgent_def Let_def bindr_eq_Inr split: if_splits)

lemma update_InrD:
  assumes "updateSQLiteAgent e c d t = Inr (t', d')"
  obtains r where "t' = sync_namespace t" "agent_columns t' = Inr r" "wf_row r"
    "d' = d \<lparr> db_agents := map (\<lambda>x. if r_id x = r_id r then r else x) (db_agents d) \<rparr>" "\<not> fault e c"
  using assms agent_columns_wf
  by (auto simp: updateSQLiteAgent_def Let_def bindr_eq_Inr split: if_splits)

lemma insert_event_InrD:
  assumes "insertSQLiteEvent e c d ev = Inr d'"
  obtains j where "event_data_json (e_Data ev) = Some j" "\<not> fault e c" "e_ID ev \<notin> er_id ` set (db_events d)"
    "d' = d \<lparr> db_events := db_events d @ [event_columns ev j] \<rparr>"
  using assms by (auto simp: insertSQLiteEvent_def split: option.splits if_splits)

lemma set_put_row: "x \<in> set (put_row r rows) \<Longrightarrow> x = r \<or> x \<in> set rows"
  by (auto simp: put_row_def split: if_splits)

lemma wf_upsert: "wf_db d \<Longrightarrow> upsertSQLiteAgent e c d t = Inr (t', d') \<Longrightarrow> wf_db d'"
  by (erule upsert_InrD) (auto simp: wf_db_def put_row_distinct list_all_iff dest: set_put_row)

lemma wf_map_rows:
  assumes "wf_db d" "\<And>x. r_id (f x) = r_id x" "\<And>x. wf_row x \<Longrightarrow> wf_row (f x)"
  shows "wf_db (d \<lparr> db_agents := map f (db_agents d) \<rparr>)"
  using assms distinct_map_keep[of f "db_agents d"] by (auto simp: wf_db_def list_all_iff)

lemma wf_update: "wf_db d \<Longrightarrow> updateSQLiteAgent e c d t = Inr (t', d') \<Longrightarrow> wf_db d'"
  by (erule update_InrD) (auto intro!: wf_map_rows)

lemma wf_claim: "wf_db d \<Longrightarrow> claimSQLiteAgent e c d t nowMs = Inr (b, d') \<Longrightarrow> wf_db d'"
  by (auto simp: claimSQLiteAgent_def claim_row_def wf_row_def split: if_splits intro!: wf_map_rows)

lemma wf_insert_event: "wf_db d \<Longrightarrow> insertSQLiteEvent e c d ev = Inr d' \<Longrightarrow> wf_db d'"
  by (erule insert_event_InrD) (auto simp: wf_db_def event_columns_def event_data_object)

lemma row_of_update:
  assumes "updateSQLiteAgent e c d t = Inr (t', d')" "agent_columns (sync_namespace t) = Inr r"
  shows "row_of d' i = (if i = a_ID t then map_option (\<lambda>_. r) (row_of d i) else row_of d i)"
proof -
  have id: "r_id r = a_ID t" using agent_columns_fields(1)[OF assms(2)] by simp
  have d': "d' = d \<lparr> db_agents := map (\<lambda>x. if r_id x = r_id r then r else x) (db_agents d) \<rparr>"
    using assms by (auto elim!: update_InrD)
  have "row_of d' i = map_option (\<lambda>x. if r_id x = r_id r then r else x) (row_of d i)"
    unfolding d' by (rule row_of_map) simp
  then show ?thesis using id by (cases "row_of d i") (auto dest: row_of_id)
qed

end
