(* ===== verification/Sqlite_Query.thy ===== *)
theory Sqlite_Query
  imports Sqlite_Rows
begin

text \<open>
  The read side of the SQLite backend: \<^verbatim>\<open>sqlite_query.go\<close> (Query, Count, the WHERE builder and the
  in-memory filter), Get of \<^verbatim>\<open>sqlite_lifecycle.go\<close> and the event queries of \<^verbatim>\<open>sqlite_events.go\<close>.

  A WHERE text with its arguments is a list of clauses, a conjunction; ORDER BY is a stable sort of the
  rows in rowid order.  \<^verbatim>\<open>visible_agents\<close> and \<^verbatim>\<open>query_selects\<close> are the reference the query is compared with.
\<close>

section \<open>WHERE clauses\<close>

datatype where_clause =
    WTTL int | WStatus string | WKind string | WOwner string | WParentID string | WTraceID string

fun clause_holds :: "where_clause \<Rightarrow> agent_row \<Rightarrow> bool" where
  "clause_holds (WTTL nowMs) r = ttl_alive nowMs r"
| "clause_holds (WStatus s) r = (r_status r = s)"
| "clause_holds (WKind s) r = (r_kind r = s)"
| "clause_holds (WOwner s) r = (r_owner r = s)"
| "clause_holds (WParentID s) r = (r_parent_id r = s)"
| "clause_holds (WTraceID s) r = (r_trace_id r = s)"

definition buildSQLiteWhereClauses :: "query option \<Rightarrow> bool \<Rightarrow> int \<Rightarrow> where_clause list \<times> bool" where
  "buildSQLiteWhereClauses qo forceStatusNew nowMs = (case qo of
     None \<Rightarrow> ([WTTL nowMs], False)
   | Some q \<Rightarrow>
      ([WTTL nowMs] @
       (if forceStatusNew then [WStatus StatusNew] else opt_clause WStatus (q_Status q)) @
       opt_clause WKind (q_Kind q) @ opt_clause WOwner (q_Owner q) @
       opt_clause WParentID (q_ParentID q) @ opt_clause WTraceID (q_TraceID q),
       q_NamespaceID q \<noteq> [] \<or> q_Tags q \<noteq> [] \<or>
         (case q_Metadata q of None \<Rightarrow> False | Some m \<Rightarrow> list_ex (\<lambda>(k, _). k \<noteq> ''agent_id'') m)))"

definition select_where :: "where_clause list \<Rightarrow> db \<Rightarrow> agent_row list" where
  "select_where cs d = sort_key r_created_at_ms (filter (\<lambda>r. list_all (\<lambda>c. clause_holds c r) cs) (db_agents d))"

section \<open>The in-memory filter\<close>

fun metadata_loop :: "string gomap option \<Rightarrow> string gomap \<Rightarrow> bool" where
  "metadata_loop m [] = True"
| "metadata_loop m ((k, v) # rest) =
    (if k = ''agent_id'' then metadata_loop m rest
     else case m of None \<Rightarrow> False | Some mm \<Rightarrow> if map_of mm k \<noteq> Some v then False else metadata_loop m rest)"

fun tags_loop :: "string list \<Rightarrow> string list \<Rightarrow> bool" where
  "tags_loop existing [] = True"
| "tags_loop existing (tag # tags) = (if \<not> tag_loop existing tag then False else tags_loop existing tags)"

definition matchesQueryFilters :: "agent \<Rightarrow> query option \<Rightarrow> bool" where
  "matchesQueryFilters t qo = (case qo of None \<Rightarrow> True | Some q \<Rightarrow>
     (let namespaceID = (if a_NamespaceID t = [] then str_at (or_nil (a_Metadata t)) NamespaceMetadataKey
                         else a_NamespaceID t) in
      if q_NamespaceID q \<noteq> [] \<and> namespaceID \<noteq> q_NamespaceID q then False
      else if q_Tags q \<noteq> [] \<and> \<not> tags_loop (a_Tags t) (q_Tags q) then False
      else case q_Metadata q of None \<Rightarrow> True | Some m \<Rightarrow> metadata_loop (a_Metadata t) m))"

section \<open>Get, Query and Count\<close>

text \<open>\<^verbatim>\<open>SELECT ... WHERE id=? AND (ttl clause)\<close>: at most one row.\<close>

definition select_by_id :: "db \<Rightarrow> string \<Rightarrow> int \<Rightarrow> agent_row option" where
  "select_by_id d i nowMs = find (\<lambda>r. r_id r = i \<and> ttl_alive nowMs r) (db_agents d)"

definition fetch :: "env \<Rightarrow> db \<Rightarrow> string \<Rightarrow> int \<Rightarrow> store_error + agent" where
  "fetch e d i nowMs =
    (if fault e CSelect then Inl (ErrDB CSelect)
     else case select_by_id d i nowMs of None \<Rightarrow> Inl (ErrNotFound i) | Some r \<Rightarrow> scanSQLiteAgent r)"

definition SQLiteGet :: "env \<Rightarrow> db \<Rightarrow> string \<Rightarrow> store_error + agent" where
  "SQLiteGet e d i = fetch e d i (UnixMilli (clock e 0))"

definition scan_loop :: "bool \<Rightarrow> query option \<Rightarrow> agent_row list \<Rightarrow> agent list" where
  "scan_loop needsFilter qo rows = List.map_filter (\<lambda>r. case scanSQLiteAgent r of Inl _ \<Rightarrow> None
     | Inr t \<Rightarrow> if needsFilter \<and> \<not> matchesQueryFilters t qo then None else Some t) rows"

text \<open>The slicing of the filtered result.\<close>

definition mem_page :: "int \<Rightarrow> int \<Rightarrow> 'a list \<Rightarrow> 'a list" where
  "mem_page limit offset xs =
    (if 0 < offset \<and> int (length xs) \<le> offset then []
     else let ys = (if 0 < offset then drop (nat offset) xs else xs)
          in if 0 < limit \<and> limit < int (length ys) then take (nat limit) ys else ys)"

text \<open>
  Without in-memory filtering, a positive offset with no positive limit yields a statement that ends in
  \<^verbatim>\<open>OFFSET ?\<close> without \<^verbatim>\<open>LIMIT\<close>, which the SQLite grammar does not accept.
\<close>

definition SQLiteQuery :: "env \<Rightarrow> db \<Rightarrow> query option \<Rightarrow> store_error + agent list" where
  "SQLiteQuery e d qo =
    (let nowMs = UnixMilli (clock e 0); (wh, needsFilter) = buildSQLiteWhereClauses qo False nowMs;
         limit = q_limit qo; offset = q_offset qo
     in if \<not> needsFilter \<and> \<not> 0 < limit \<and> 0 < offset then Inl ErrSyntax
        else if fault e CSelect then Inl (ErrDB CSelect)
        else let rows = select_where wh d;
                 agents = scan_loop needsFilter qo (if needsFilter then rows else sql_page limit offset rows)
             in if fault e CScanRows then Inl (ErrDB CScanRows)
                else Inr (if needsFilter \<and> qo \<noteq> None then mem_page limit offset agents else agents))"

definition SQLiteCount :: "env \<Rightarrow> db \<Rightarrow> query option \<Rightarrow> store_error + int" where
  "SQLiteCount e d qo =
    (let nowMs = UnixMilli (clock e 0); (wh, needsFilter) = buildSQLiteWhereClauses qo False nowMs
     in if fault e CSelect then Inl (ErrDB CSelect)
        else if \<not> needsFilter then Inr (int (length (select_where wh d)))
        else let n = int (length (scan_loop True qo (select_where wh d)))
             in if fault e CScanRows then Inl (ErrDB CScanRows) else Inr n)"

section \<open>Event queries\<close>

definition scan_events :: "event_row list \<Rightarrow> event list" where
  "scan_events rows = List.map_filter (\<lambda>r. case scanSQLiteEvent r of Inl _ \<Rightarrow> None | Inr ev \<Rightarrow> Some ev) rows"

definition SQLiteGetEvents :: "env \<Rightarrow> db \<Rightarrow> string \<Rightarrow> store_error + event list" where
  "SQLiteGetEvents e d tupleID =
    (if fault e CSelect then Inl (ErrDB CSelect)
     else let evs = scan_events (sort_key er_timestamp_ms (filter (\<lambda>r. er_tuple_id r = tupleID) (db_events d)))
          in if fault e CScanRows then Inl (ErrDB CScanRows) else Inr evs)"

text \<open>A negative OFFSET argument counts as zero.\<close>

definition SQLiteGetGlobalEvents :: "env \<Rightarrow> db \<Rightarrow> int \<Rightarrow> int \<Rightarrow> store_error + event list" where
  "SQLiteGetGlobalEvents e d limit offset =
    (let limit = (if limit \<le> 0 then 100 else limit) in
     if fault e CSelect then Inl (ErrDB CSelect)
     else let evs = scan_events (take (nat limit) (drop (nat offset) (sort_key (\<lambda>r. - er_timestamp_ms r) (db_events d))))
          in if fault e CScanRows then Inl (ErrDB CScanRows) else Inr evs)"

definition event_clauses :: "event_query \<Rightarrow> event_row \<Rightarrow> bool" where
  "event_clauses q r \<longleftrightarrow> (eq_TupleID q = [] \<or> er_tuple_id r = eq_TupleID q) \<and>
     (eq_AgentID q = [] \<or> er_agent_id r = eq_AgentID q) \<and> (eq_Type q = [] \<or> er_type r = eq_Type q) \<and>
     (eq_TraceID q = [] \<or> er_trace_id r = eq_TraceID q)"

definition SQLiteQueryEvents :: "env \<Rightarrow> db \<Rightarrow> event_query option \<Rightarrow> store_error + event_page" where
  "SQLiteQueryEvents e d qo =
    (let q = (case qo of None \<Rightarrow> empty_event_query | Some q \<Rightarrow> q);
         limit = (if eq_Limit q \<le> 0 then 100 else eq_Limit q);
         offset = (if eq_Offset q < 0 then 0 else eq_Offset q);
         matching = filter (event_clauses q) (db_events d);
         ordered = (if eq_TupleID q \<noteq> [] then sort_key er_timestamp_ms matching
                    else sort_key (\<lambda>r. - er_timestamp_ms r) matching)
     in if fault e CSelect then Inl (ErrDB CSelect)
        else let evs = scan_events (take (nat limit) (drop (nat offset) ordered))
             in if fault e CScanRows then Inl (ErrDB CScanRows)
                else if fault e (CExec 0) then Inl (ErrDB (CExec 0))
                else Inr \<lparr> ep_Events = evs, ep_Total = int (length matching), ep_NextCursor = [] \<rparr>)"

section \<open>Reference\<close>

definition scanned :: "agent_row \<Rightarrow> agent" where
  "scanned r = (case scanSQLiteAgent r of Inr t \<Rightarrow> t | Inl _ \<Rightarrow> empty_agent)"

text \<open>The agents whose time to live has not run out, oldest first.\<close>

definition visible_agents :: "int \<Rightarrow> db \<Rightarrow> agent list" where
  "visible_agents nowMs d = map scanned (sort_key r_created_at_ms (filter (ttl_alive nowMs) (db_agents d)))"

section \<open>A small store for examples\<close>

definition quiet_env :: env where
  "quiet_env = \<lparr> clock = (\<lambda>_. 5000000000), uuid = (\<lambda>n. replicate (Suc n) (CHR ''u'')), fault = (\<lambda>_. False) \<rparr>"

definition demo_row :: "string \<Rightarrow> int \<Rightarrow> agent_row" where
  "demo_row i created = \<lparr> r_id = i, r_kind = ''task'', r_status = ''NEW'', r_payload = JObj [(''n'', JInt 1)],
     r_tags = JArr [JStr ''gpu''], r_owner = [], r_parent_id = [], r_trace_id = ''tr'', r_ttl_ms = 0,
     r_created_at_ms = created, r_updated_at_ms = created, r_owner_time_ms = None, r_lease_token = [],
     r_lease_until_ms = None, r_version = 1, r_metadata = JObj [(''lease_sec'', JStr ''10'')] \<rparr>"

definition demo_db :: db where
  "demo_db = \<lparr> db_agents = [demo_row ''b'' 200, demo_row ''a'' 100], db_events = [] \<rparr>"

section \<open>Lemmas\<close>

lemma wf_demo_db: "wf_db demo_db"
  by (simp add: wf_db_def demo_db_def demo_row_def wf_row_def is_object_def is_str_doc_def)

lemma tags_loop_iff [simp]: "tags_loop ts tags \<longleftrightarrow> set tags \<subseteq> set ts"
  by (induction tags) auto

lemma metadata_loop_iff:
  "metadata_loop m kvs \<longleftrightarrow> (\<forall>(k, v) \<in> set kvs. k = ''agent_id'' \<or> map_of (or_nil m) k = Some v)"
  by (induction m kvs rule: metadata_loop.induct) (auto split: option.splits)

lemma mem_page_eq: "mem_page limit offset xs = sql_page limit offset xs"
  by (auto simp: mem_page_def sql_page_def Let_def)

lemma scanned_wf: "wf_row r \<Longrightarrow> scanSQLiteAgent r = Inr (scanned r)"
  using wf_row_scan[of r] by (auto simp: scanned_def)

lemma scan_loop_wf:
  "list_all wf_row rows \<Longrightarrow>
     scan_loop nf qo rows = filter (\<lambda>t. nf \<longrightarrow> matchesQueryFilters t qo) (map scanned rows)"
  by (induction rows) (auto simp: scan_loop_def List.map_filter_simps scanned_wf)

lemma matches_filters_scanned:
  assumes "wf_row r"
  shows "matchesQueryFilters (scanned r) (Some q) \<longleftrightarrow>
    (q_NamespaceID q = [] \<or> a_NamespaceID (scanned r) = q_NamespaceID q) \<and>
    set (q_Tags q) \<subseteq> set (a_Tags (scanned r)) \<and>
    (\<forall>(k, v) \<in> set (or_nil (q_Metadata q)). k = ''agent_id'' \<or> map_of (or_nil (a_Metadata (scanned r))) k = Some v)"
proof -
  have "a_NamespaceID (scanned r) = str_at (or_nil (a_Metadata (scanned r))) NamespaceMetadataKey"
    using scan_fields(9,16)[OF scanned_wf[OF assms]] by simp
  then show ?thesis
    by (cases "q_Tags q = []"; cases "q_Metadata q")
       (simp_all add: matchesQueryFilters_def Let_def metadata_loop_iff split: if_splits)
qed

lemma where_holds_selects:
  assumes "wf_row r" "buildSQLiteWhereClauses qo False nowMs = (wh, nf)"
  shows "list_all (\<lambda>c. clause_holds c r) wh \<and> (nf \<longrightarrow> matchesQueryFilters (scanned r) qo) \<longleftrightarrow>
         ttl_alive nowMs r \<and> query_selects qo (scanned r)"
proof (cases qo)
  case None
  then show ?thesis using assms(2) by (auto simp: buildSQLiteWhereClauses_def query_selects_def MatchesQuery_def)
next
  case (Some q)
  note sf = scan_fields[OF scanned_wf[OF assms(1)]]
  have trivial: "matchesQueryFilters (scanned r) (Some q)" if "\<not> nf"
    using assms that unfolding Some matches_filters_scanned[OF assms(1)]
    by (auto simp: buildSQLiteWhereClauses_def list_ex_iff split: option.splits)
  have "list_all (\<lambda>c. clause_holds c r) wh \<and> (nf \<longrightarrow> matchesQueryFilters (scanned r) qo) \<longleftrightarrow>
      list_all (\<lambda>c. clause_holds c r) wh \<and> matchesQueryFilters (scanned r) qo"
    using trivial Some by blast
  also have "\<dots> \<longleftrightarrow> ttl_alive nowMs r \<and> query_selects qo (scanned r)"
    using assms(2) unfolding Some matches_filters_scanned[OF assms(1)] query_selects_def option.case MatchesQuery_Some
    by (auto simp: buildSQLiteWhereClauses_def sf)
  finally show ?thesis .
qed

lemma filter_sort_key: "filter P (sort_key f xs) = sort_key f (filter P xs)"
  by (rule filter_sort)

lemma select_where_scan:
  assumes "wf_db d" "buildSQLiteWhereClauses qo False nowMs = (wh, nf)"
  shows "scan_loop nf qo (select_where wh d) = filter (query_selects qo) (visible_agents nowMs d)"
proof -
  have wf: "\<And>r. r \<in> set (db_agents d) \<Longrightarrow> wf_row r" using assms(1) by (auto simp: wf_db_def list_all_iff)
  have "list_all wf_row (select_where wh d)" using wf by (auto simp: select_where_def list_all_iff)
  then have "scan_loop nf qo (select_where wh d) =
      map scanned (filter (\<lambda>r. nf \<longrightarrow> matchesQueryFilters (scanned r) qo) (select_where wh d))"
    by (simp add: scan_loop_wf filter_map comp_def)
  also have "\<dots> = map scanned (sort_key r_created_at_ms
      (filter (\<lambda>r. ttl_alive nowMs r \<and> query_selects qo (scanned r)) (db_agents d)))"
    unfolding select_where_def filter_sort_key filter_filter
    using where_holds_selects[OF wf assms(2)] by (metis (no_types, lifting) filter_cong conj_commute)
  also have "\<dots> = filter (query_selects qo) (visible_agents nowMs d)"
    by (simp add: visible_agents_def filter_map comp_def filter_sort_key filter_filter conj_commute)
  finally show ?thesis .
qed

lemma scan_loop_page:
  assumes "list_all wf_row rows"
  shows "scan_loop False qo (sql_page l k rows) = sql_page l k (scan_loop False qo rows)"
proof -
  have "list_all wf_row (sql_page l k rows)"
    using assms by (auto simp: sql_page_def list_all_iff Let_def dest: in_set_takeD in_set_dropD)
  then show ?thesis
    using assms by (simp add: scan_loop_wf sql_page_def Let_def take_map drop_map)
qed

lemma SQLiteQuery_spec:
  assumes "wf_db d" "\<not> fault e CSelect" "\<not> fault e CScanRows"
    and "0 < q_offset qo \<Longrightarrow> 0 < q_limit qo"
  shows "SQLiteQuery e d qo = Inr (sql_page (q_limit qo) (q_offset qo)
           (filter (query_selects qo) (visible_agents (UnixMilli (clock e 0)) d)))"
proof -
  obtain wh nf where b: "buildSQLiteWhereClauses qo False (UnixMilli (clock e 0)) = (wh, nf)" by force
  have wf: "list_all wf_row (select_where wh d)"
    using assms(1) by (auto simp: select_where_def wf_db_def list_all_iff)
  note scan = select_where_scan[OF assms(1) b]
  show ?thesis
  proof (cases nf)
    case True
    then have "qo \<noteq> None" using b by (cases qo) (auto simp: buildSQLiteWhereClauses_def)
    then show ?thesis using True assms b scan by (simp add: SQLiteQuery_def Let_def mem_page_eq)
  next
    case False
    then show ?thesis using assms b scan scan_loop_page[OF wf]
      by (cases "0 < q_offset qo") (simp_all add: SQLiteQuery_def Let_def)
  qed
qed

section \<open>Properties\<close>



text \<open>Count agrees with Query without paging.\<close>

theorem SQLiteCount_correct:
  assumes "wf_db d" "\<not> fault e CSelect" "\<not> fault e CScanRows"
    and "SQLiteQuery e d (Some (q \<lparr> q_Limit := 0, q_Offset := 0 \<rparr>)) = Inr agents"
  shows "SQLiteCount e d (Some q) = Inr (int (length agents))"
proof -
  let ?now = "UnixMilli (clock e 0)"
  obtain wh nf where b: "buildSQLiteWhereClauses (Some q) False ?now = (wh, nf)" by force
  have sel: "query_selects (Some (q \<lparr> q_Limit := 0, q_Offset := 0 \<rparr>)) = query_selects (Some q)"
    by (simp add: query_selects_def fun_eq_iff MatchesQuery_Some)
  have "agents = filter (query_selects (Some q)) (visible_agents ?now d)"
    using SQLiteQuery_spec[OF assms(1-3), of "Some (q \<lparr> q_Limit := 0, q_Offset := 0 \<rparr>)"] assms(4)
    by (simp add: sel sql_page_def q_limit_def q_offset_def)
  moreover have "scan_loop nf (Some q) (select_where wh d) = filter (query_selects (Some q)) (visible_agents ?now d)"
    by (rule select_where_scan[OF assms(1) b])
  moreover have "length (select_where wh d) = length (scan_loop False (Some q) (select_where wh d))"
    using assms(1) by (subst scan_loop_wf) (auto simp: select_where_def wf_db_def list_all_iff)
  ultimately show ?thesis
    using assms b by (cases nf) (simp_all add: SQLiteCount_def Let_def)
qed

theorem SQLiteCount_correct_witness:
  "SQLiteCount quiet_env demo_db (Some (empty_query \<lparr> q_Kind := ''task'', q_Limit := 1 \<rparr>)) = Inr 2"
proof -
  let ?q = "empty_query \<lparr> q_Kind := ''task'', q_Limit := 1 \<rparr>"
  have "SQLiteQuery quiet_env demo_db (Some (?q \<lparr> q_Limit := 0, q_Offset := 0 \<rparr>)) =
      Inr [scanned (demo_row ''a'' 100), scanned (demo_row ''b'' 200)]"
    by (simp add: SQLiteQuery_def buildSQLiteWhereClauses_def quiet_env_def empty_query_def Let_def
        q_limit_def q_offset_def select_where_def demo_db_def demo_row_def opt_clause_def ttl_alive_def
        scan_loop_def List.map_filter_simps scanned_def scanSQLiteAgent_def scan_payload_def sql_page_def)
  then show ?thesis
    using SQLiteCount_correct[OF wf_demo_db, of quiet_env ?q] by (simp add: quiet_env_def)
qed

text \<open>A positive offset without a limit is not served: when the query needs no in-memory filter,
  Query fails with a syntax error on every database.\<close>

theorem SQLiteQuery_offset_without_limit:
  assumes "q_NamespaceID q = []" "q_Tags q = []" "q_Metadata q = None" "q_Limit q = 0" "0 < q_Offset q"
  shows "SQLiteQuery e d (Some q) = Inl ErrSyntax"
  using assms by (simp add: SQLiteQuery_def buildSQLiteWhereClauses_def q_limit_def q_offset_def)

theorem SQLiteQuery_offset_without_limit_witness:
  "SQLiteQuery quiet_env demo_db (Some (empty_query \<lparr> q_Offset := 1 \<rparr>)) = Inl ErrSyntax"
  using SQLiteQuery_offset_without_limit[of "empty_query \<lparr> q_Offset := 1 \<rparr>"] by (simp add: empty_query_def)

end
