(* ===== verification/Sqlite_Lifecycle.thy ===== *)
theory Sqlite_Lifecycle
  imports Sqlite_Query
begin

text \<open>
  The state-changing operations of the SQLite backend (\<^verbatim>\<open>sqlite_lifecycle.go\<close>), the lease reaper
  (\<^verbatim>\<open>sqlite_reaper.go\<close>) and the polling reads (In and Read of \<^verbatim>\<open>sqlite_query.go\<close>).

  The store is the database, the subscription registry and the log of notifications, each with the
  handlers started for it.  Every operation runs its body on the database inside \<^verbatim>\<open>with_tx\<close>: an error or a
  rollback leaves the store as it was, a commit installs the new tables and then notifies.  The pool has
  one connection, so transactions are executed one after the other.
\<close>

section \<open>Store and transactions\<close>

record sqlite_store =
  s_db :: db
  s_subs :: registry
  s_log :: "(event \<times> handler list) list"

definition empty_store :: sqlite_store where
  "empty_store = \<lparr> s_db = empty_db, s_subs = NewSubscriptionRegistry, s_log = [] \<rparr>"

definition notifySubscribers :: "sqlite_store \<Rightarrow> event \<Rightarrow> sqlite_store" where
  "notifySubscribers s ev = s \<lparr> s_log := s_log s @ [(ev, Notify (s_subs s) (Some ev))] \<rparr>"

definition SQLiteSubscribe :: "sqlite_store \<Rightarrow> event_filter option \<Rightarrow> handler option \<Rightarrow> sqlite_store" where
  "SQLiteSubscribe s flt h = s \<lparr> s_subs := Subscribe (s_subs s) flt h \<rparr>"

text \<open>How a transaction body ends: a commit with the events to announce, or a return that leaves the
  deferred Rollback to run.\<close>

datatype 'a tx_end = TxCommit 'a db "event list" | TxRollback 'a

definition with_tx ::
  "env \<Rightarrow> sqlite_store \<Rightarrow> (db \<Rightarrow> store_error + 'a tx_end) \<Rightarrow> (store_error + 'a) \<times> sqlite_store" where
  "with_tx e s body =
    (if fault e CBegin then (Inl (ErrDB CBegin), s)
     else case body (s_db s) of
       Inl er \<Rightarrow> (Inl er, s)
     | Inr (TxRollback x) \<Rightarrow> (Inr x, s)
     | Inr (TxCommit x d evs) \<Rightarrow>
         if fault e CCommit then (Inl (ErrDB CCommit), s)
         else (Inr x, fold (\<lambda>ev s. notifySubscribers s ev) evs (s \<lparr> s_db := d \<rparr>)))"

section \<open>Out\<close>

definition out_tx :: "env \<Rightarrow> agent \<Rightarrow> db \<Rightarrow> store_error + agent tx_end" where
  "out_tx e t d =
    (let t = defaults_out e 0 t; agentID = str_at (or_nil (a_Metadata t)) ''agent_id'' in
     bindr (upsertSQLiteAgent e (CWrite 0) d t) (\<lambda>(t, d).
       let ev = created_event e 0 agentID t [] in
       bindr (insertSQLiteEvent e (CInsertEvent 0) d ev) (\<lambda>d. Inr (TxCommit t d [ev]))))"

text \<open>\<^verbatim>\<open>Out\<close> returns only an error; the agent it filled in through the pointer is the result here.\<close>

definition SQLiteOut :: "env \<Rightarrow> sqlite_store \<Rightarrow> agent \<Rightarrow> (store_error + agent) \<times> sqlite_store" where
  "SQLiteOut e s t = with_tx e s (out_tx e t)"

section \<open>Take\<close>

definition claimed_agent :: "env \<Rightarrow> nat \<Rightarrow> string \<Rightarrow> agent \<Rightarrow> agent" where
  "claimed_agent e i agentID t =
    (let now = clock e (2 * i + 1); leaseUntil = now + leaseDurationForAgent (Some t) in
     t \<lparr> a_Status := StatusInProgress, a_Owner := agentID, a_OwnerTime := now, a_LeaseToken := uuid e (2 * i),
         a_LeaseUntil := leaseUntil, a_UpdatedAt := now, a_Version := to_int64 (a_Version t + 1) \<rparr>)"

definition claimed_event :: "env \<Rightarrow> nat \<Rightarrow> string \<Rightarrow> agent \<Rightarrow> event" where
  "claimed_event e i agentID t = \<lparr> e_ID = uuid e (2 * i + 1), e_TupleID = a_ID t, e_Type = EventClaimed,
     e_Kind = a_Kind t, e_Timestamp = clock e (2 * i + 2), e_AgentID = agentID,
     e_Data = [(''agent_id'', EVal (VStr agentID))], e_TraceID = a_TraceID t, e_Version = a_Version t \<rparr>"

text \<open>The loop over the selected rows, \<open>i\<close> counting the iterations.\<close>

fun take_rows ::
  "env \<Rightarrow> query option \<Rightarrow> string \<Rightarrow> bool \<Rightarrow> int \<Rightarrow> db \<Rightarrow> nat \<Rightarrow> agent_row list \<Rightarrow> store_error + agent option tx_end"
where
  "take_rows e qo agentID needsFilter nowMs d i [] =
     (if fault e CScanRows then Inl (ErrDB CScanRows) else Inr (TxRollback None))"
| "take_rows e qo agentID needsFilter nowMs d i (r # rows) =
     (case scanSQLiteAgent r of
        Inl _ \<Rightarrow> take_rows e qo agentID needsFilter nowMs d (Suc i) rows
      | Inr t0 \<Rightarrow>
          if needsFilter \<and> \<not> matchesQueryFilters t0 qo then take_rows e qo agentID needsFilter nowMs d (Suc i) rows
          else let t = claimed_agent e i agentID t0 in
            bindr (claimSQLiteAgent e (CClaim i) d t nowMs) (\<lambda>(updated, d').
              if \<not> updated then take_rows e qo agentID needsFilter nowMs d (Suc i) rows
              else let ev = claimed_event e i agentID t in
                bindr (insertSQLiteEvent e (CInsertEvent i) d' ev) (\<lambda>d'. Inr (TxCommit (Some t) d' [ev]))))"

definition take_tx :: "env \<Rightarrow> query option \<Rightarrow> db \<Rightarrow> store_error + agent option tx_end" where
  "take_tx e qo d =
    (let nowMs = UnixMilli (clock e 0); (wh, needsFilter) = buildSQLiteWhereClauses qo True nowMs;
         rows = select_where wh d
     in if fault e CSelect then Inl (ErrDB CSelect)
        else take_rows e qo (take_agent_id qo) needsFilter nowMs d 0 (if needsFilter then rows else take 1 rows))"

definition SQLiteTake :: "env \<Rightarrow> sqlite_store \<Rightarrow> query option \<Rightarrow> (store_error + agent option) \<times> sqlite_store" where
  "SQLiteTake e s qo =
    (if (case qo of None \<Rightarrow> False | Some q \<Rightarrow> q_Status q \<noteq> [] \<and> q_Status q \<noteq> StatusNew) then (Inr None, s)
     else with_tx e s (take_tx e qo))"

section \<open>Update\<close>

definition update_tx :: "env \<Rightarrow> string \<Rightarrow> gval gomap \<Rightarrow> db \<Rightarrow> store_error + agent tx_end" where
  "update_tx e i updates d =
    bindr (fetch e d i (UnixMilli (clock e 0))) (\<lambda>t0.
      let t = ApplyUpdates t0 (Some updates);
          t = t \<lparr> a_UpdatedAt := clock e 1, a_Version := to_int64 (a_Version t + 1) \<rparr> in
      bindr (updateSQLiteAgent e (CWrite 0) d t) (\<lambda>(t, d).
        let ev = \<lparr> e_ID = uuid e 0, e_TupleID = a_ID t, e_Type = EventUpdated, e_Kind = a_Kind t,
                   e_Timestamp = clock e 2, e_AgentID = GetStringFromMap updates ''agent_id'',
                   e_Data = plain_data updates, e_TraceID = a_TraceID t, e_Version = a_Version t \<rparr> in
        bindr (insertSQLiteEvent e (CInsertEvent 0) d ev) (\<lambda>d. Inr (TxCommit t d [ev]))))"

definition SQLiteUpdateAndGet ::
  "env \<Rightarrow> sqlite_store \<Rightarrow> string \<Rightarrow> gval gomap option \<Rightarrow> (store_error + agent) \<times> sqlite_store" where
  "SQLiteUpdateAndGet e s i updates = (case updates of
     None \<Rightarrow> (SQLiteGet e (s_db s) i, s)
   | Some u \<Rightarrow> with_tx e s (update_tx e i u))"

definition SQLiteUpdate ::
  "env \<Rightarrow> sqlite_store \<Rightarrow> string \<Rightarrow> gval gomap option \<Rightarrow> (store_error + unit) \<times> sqlite_store" where
  "SQLiteUpdate e s i updates = (case updates of
     None \<Rightarrow> (Inr (), s)
   | Some u \<Rightarrow> (let (r, s') = SQLiteUpdateAndGet e s i (Some u) in (bindr r (\<lambda>_. Inr ()), s')))"

section \<open>Complete\<close>

definition complete_tx ::
  "env \<Rightarrow> string \<Rightarrow> string \<Rightarrow> string \<Rightarrow> gval gomap option \<Rightarrow> db \<Rightarrow> store_error + agent tx_end" where
  "complete_tx e i agentID leaseToken result d =
    bindr (fetch e d i (UnixMilli (clock e 0))) (\<lambda>t0.
      if a_Status t0 = StatusCompleted then
        (if \<not> CompletionTokenMatches (Some t0) leaseToken then Inl ErrTokenMismatchStale
         else Inr (TxCommit t0 d []))
      else case lease_guard ''complete'' agentID leaseToken t0 of Some er \<Rightarrow> Inl er | None \<Rightarrow>
        let now = clock e 1; res = or_nil result; t = completed_agent now agentID leaseToken res t0 in
        bindr (updateSQLiteAgent e (CWrite 0) d t) (\<lambda>(t, d).
          let ev = completed_event (uuid e 0) now agentID res t in
          bindr (insertSQLiteEvent e (CInsertEvent 0) d ev) (\<lambda>d. Inr (TxCommit t d [ev]))))"

definition SQLiteCompleteAndGet ::
  "env \<Rightarrow> sqlite_store \<Rightarrow> string \<Rightarrow> string \<Rightarrow> string \<Rightarrow> gval gomap option \<Rightarrow> (store_error + agent) \<times> sqlite_store"
where
  "SQLiteCompleteAndGet e s i agentID leaseToken result =
    (if agentID = [] then (Inl ErrAgentIDRequired, s)
     else if leaseToken = [] then (Inl ErrLeaseTokenRequired, s)
     else with_tx e s (complete_tx e i agentID leaseToken result))"

definition SQLiteComplete ::
  "env \<Rightarrow> sqlite_store \<Rightarrow> string \<Rightarrow> string \<Rightarrow> string \<Rightarrow> gval gomap option \<Rightarrow> (store_error + unit) \<times> sqlite_store"
where
  "SQLiteComplete e s i agentID leaseToken result =
    (let (r, s') = SQLiteCompleteAndGet e s i agentID leaseToken result in (bindr r (\<lambda>_. Inr ()), s'))"

section \<open>CompleteAndOut\<close>

text \<open>Defaults of an output agent: those of Out, then status, trace and parent.\<close>

definition defaults_output :: "env \<Rightarrow> nat \<Rightarrow> agent \<Rightarrow> agent \<Rightarrow> agent" where
  "defaults_output e i parent out =
    (let out = defaults_out e i out;
         out = (if a_Status out = [] then out \<lparr> a_Status := StatusNew \<rparr> else out);
         out = (if a_TraceID out = [] \<and> a_TraceID parent \<noteq> [] then out \<lparr> a_TraceID := a_TraceID parent \<rparr> else out)
     in if a_ParentID out = [] then out \<lparr> a_ParentID := a_ID parent \<rparr> else out)"

text \<open>The \<open>i\<close>-th output uses the clock and UUID places from \<open>i\<close> on; places below belong to the completion.\<close>

fun create_outputs ::
  "env \<Rightarrow> string \<Rightarrow> agent \<Rightarrow> nat \<Rightarrow> agent list \<Rightarrow> db \<Rightarrow> store_error + agent list \<times> event list \<times> db" where
  "create_outputs e agentID parent i [] d = Inr ([], [], d)"
| "create_outputs e agentID parent i (out # outs) d =
    (let out = defaults_output e i parent out in
     case upsertSQLiteAgent e (CWrite i) d out of
       Inl er \<Rightarrow> Inl (ErrCreateOutputAgent er)
     | Inr (out, d) \<Rightarrow>
        (let ev = created_event e i agentID out [(''parent_id'', EVal (VStr (a_ID parent)))] in
         case insertSQLiteEvent e (CInsertEvent i) d ev of
           Inl er \<Rightarrow> Inl (ErrCreateOutputEvent er)
         | Inr d \<Rightarrow> bindr (create_outputs e agentID parent (Suc i) outs d) (\<lambda>(os, evs, d). Inr (out # os, ev # evs, d))))"

definition complete_and_out_tx ::
  "env \<Rightarrow> string \<Rightarrow> string \<Rightarrow> string \<Rightarrow> gval gomap option \<Rightarrow> agent list \<Rightarrow> db \<Rightarrow>
     store_error + (agent \<times> agent list) tx_end" where
  "complete_and_out_tx e i agentID leaseToken result outputs d =
    bindr (fetch e d i (UnixMilli (clock e 0))) (\<lambda>t0.
      if a_Status t0 = StatusCompleted then
        (if \<not> CompletionTokenMatches (Some t0) leaseToken then Inl ErrTokenMismatchStale
         else Inr (TxCommit (t0, []) d []))
      else case lease_guard ''complete'' agentID leaseToken t0 of Some er \<Rightarrow> Inl er | None \<Rightarrow>
        let now = clock e 1; res = or_nil result; t = completed_agent now agentID leaseToken res t0 in
        bindr (updateSQLiteAgent e (CWrite 0) d t) (\<lambda>(t, d).
          let ev = completed_event (uuid e 0) now agentID res t in
          bindr (insertSQLiteEvent e (CInsertEvent 0) d ev) (\<lambda>d.
            bindr (create_outputs e agentID t 1 outputs d) (\<lambda>(outs, evs, d).
              Inr (TxCommit (t, outs) d (ev # evs))))))"

definition SQLiteCompleteAndOut ::
  "env \<Rightarrow> sqlite_store \<Rightarrow> string \<Rightarrow> string \<Rightarrow> string \<Rightarrow> gval gomap option \<Rightarrow> agent list \<Rightarrow>
     (store_error + agent \<times> agent list) \<times> sqlite_store" where
  "SQLiteCompleteAndOut e s i agentID leaseToken result outputs =
    (if agentID = [] then (Inl ErrAgentIDRequired, s)
     else if leaseToken = [] then (Inl ErrLeaseTokenRequired, s)
     else with_tx e s (complete_and_out_tx e i agentID leaseToken result outputs))"

section \<open>Release and RenewLease\<close>

definition release_tx :: "env \<Rightarrow> string \<Rightarrow> string \<Rightarrow> string \<Rightarrow> string \<Rightarrow> db \<Rightarrow> store_error + agent tx_end" where
  "release_tx e i agentID leaseToken reason d =
    bindr (fetch e d i (UnixMilli (clock e 0))) (\<lambda>t0.
      case lease_guard ''release'' agentID leaseToken t0 of Some er \<Rightarrow> Inl er | None \<Rightarrow>
        let previousOwner = a_Owner t0; t = released_agent (clock e 1) t0 in
        bindr (updateSQLiteAgent e (CWrite 0) d t) (\<lambda>(t, d).
          let eventData = (if reason \<noteq> [] then [(''reap_reason'', EVal (VStr reason)),
                (''previous_owner'', EVal (VStr previousOwner))] else []);
              ev = \<lparr> e_ID = uuid e 0, e_TupleID = a_ID t, e_Type = EventReleased, e_Kind = a_Kind t,
                e_Timestamp = clock e 2, e_AgentID = agentID, e_Data = eventData, e_TraceID = a_TraceID t,
                e_Version = a_Version t \<rparr> in
          bindr (insertSQLiteEvent e (CInsertEvent 0) d ev) (\<lambda>d. Inr (TxCommit t d [ev]))))"

definition SQLiteReleaseAndGet ::
  "env \<Rightarrow> sqlite_store \<Rightarrow> string \<Rightarrow> string \<Rightarrow> string \<Rightarrow> string \<Rightarrow> (store_error + agent) \<times> sqlite_store" where
  "SQLiteReleaseAndGet e s i agentID leaseToken reason =
    (if agentID = [] then (Inl ErrAgentIDRequired, s)
     else if leaseToken = [] then (Inl ErrLeaseTokenRequired, s)
     else with_tx e s (release_tx e i agentID leaseToken reason))"

definition SQLiteRelease ::
  "env \<Rightarrow> sqlite_store \<Rightarrow> string \<Rightarrow> string \<Rightarrow> string \<Rightarrow> string \<Rightarrow> (store_error + unit) \<times> sqlite_store" where
  "SQLiteRelease e s i agentID leaseToken reason =
    (let (r, s') = SQLiteReleaseAndGet e s i agentID leaseToken reason in (bindr r (\<lambda>_. Inr ()), s'))"

definition renew_tx :: "env \<Rightarrow> string \<Rightarrow> string \<Rightarrow> string \<Rightarrow> duration \<Rightarrow> db \<Rightarrow> store_error + agent tx_end" where
  "renew_tx e i agentID leaseToken leaseDuration d =
    bindr (fetch e d i (UnixMilli (clock e 0))) (\<lambda>t0.
      case lease_guard ''renew'' agentID leaseToken t0 of Some er \<Rightarrow> Inl er | None \<Rightarrow>
        let leaseDuration = (if leaseDuration \<le> 0 then leaseDurationForAgent (Some t0) else leaseDuration);
            now = clock e 1;
            t = t0 \<lparr> a_OwnerTime := now, a_LeaseUntil := now + leaseDuration, a_UpdatedAt := now \<rparr> in
        bindr (updateSQLiteAgent e (CWrite 0) d t) (\<lambda>(t, d). Inr (TxCommit t d [])))"

definition SQLiteRenewLease ::
  "env \<Rightarrow> sqlite_store \<Rightarrow> string \<Rightarrow> string \<Rightarrow> string \<Rightarrow> duration \<Rightarrow> (store_error + agent) \<times> sqlite_store" where
  "SQLiteRenewLease e s i agentID leaseToken leaseDuration =
    (if agentID = [] then (Inl ErrAgentIDRequired, s)
     else if leaseToken = [] then (Inl ErrLeaseTokenRequired, s)
     else with_tx e s (renew_tx e i agentID leaseToken leaseDuration))"

section \<open>The lease reaper\<close>

definition lease_lapsed :: "int \<Rightarrow> agent_row \<Rightarrow> bool" where
  "lease_lapsed nowMs r \<longleftrightarrow> r_status r = StatusInProgress \<and>
     (case r_lease_until_ms r of None \<Rightarrow> False | Some u \<Rightarrow> u < nowMs)"

definition reap_row :: "int \<Rightarrow> agent_row \<Rightarrow> agent_row" where
  "reap_row nowMs r = r \<lparr> r_status := StatusNew, r_owner := [], r_owner_time_ms := None, r_lease_token := [],
     r_lease_until_ms := None, r_version := r_version r + 1, r_updated_at_ms := nowMs \<rparr>"

definition reap_event :: "env \<Rightarrow> nat \<Rightarrow> agent_row \<Rightarrow> event" where
  "reap_event e i r = \<lparr> e_ID = uuid e i, e_TupleID = r_id r, e_Type = EventReleased, e_Kind = r_kind r,
     e_Timestamp = clock e 0, e_AgentID = ''reaper'',
     e_Data = [(''reap_reason'', EVal (VStr ''lease_expired'')), (''previous_owner'', EVal (VStr (r_owner r)))],
     e_TraceID = r_trace_id r, e_Version = to_int64 (r_version r + 1) \<rparr>"

text \<open>A failed statement is logged and skipped; subscribers are told before the commit.\<close>

fun reap_loop :: "env \<Rightarrow> int \<Rightarrow> nat \<Rightarrow> agent_row list \<Rightarrow> db \<Rightarrow> db \<times> event list" where
  "reap_loop e nowMs i [] d = (d, [])"
| "reap_loop e nowMs i (r # rs) d =
    (if fault e (CExec i) then reap_loop e nowMs (Suc i) rs d
     else let d = d \<lparr> db_agents := map (\<lambda>x. if r_id x = r_id r then reap_row nowMs x else x) (db_agents d) \<rparr>;
              ev = reap_event e i r in
       case insertSQLiteEvent e (CInsertEvent i) d ev of
         Inl _ \<Rightarrow> reap_loop e nowMs (Suc i) rs d
       | Inr d \<Rightarrow> (let (d', evs) = reap_loop e nowMs (Suc i) rs d in (d', ev # evs)))"

definition reapExpiredLeases :: "env \<Rightarrow> sqlite_store \<Rightarrow> sqlite_store" where
  "reapExpiredLeases e s =
    (let nowMs = UnixMilli (clock e 0); reaped = filter (lease_lapsed nowMs) (db_agents (s_db s)) in
     if fault e CBegin \<or> fault e CSelect \<or> fault e CScanRows \<or> reaped = [] then s
     else let (d, evs) = reap_loop e nowMs 0 reaped (s_db s);
              s' = fold (\<lambda>ev s. notifySubscribers s ev) evs s
          in if fault e CCommit then s' else s' \<lparr> s_db := d \<rparr>)"

end
