(* ===== verification/Lease_Spec.thy ===== *)
theory Lease_Spec
  imports Agent_Model
begin

text \<open>
  The contract every backend of the agent space keeps, stated without tables, clocks or JSON: a space
  maps agent ids to lease cells, and every operation is a sequence of labelled steps on it.  The laws of
  the lease protocol are proved here once, by rule induction over step sequences:
  completion happens at most once, versions never decrease, and a token is useless once another claim
  has replaced it.  The locale \<^verbatim>\<open>lease_backend\<close> carries them over to any backend whose operations refine
  the steps.
\<close>

section \<open>Cells, labels and steps\<close>

record cell =
  c_status :: status
  c_owner :: string
  c_token :: string
  c_until :: "int option"
  c_version :: int
  c_ctoken :: string

type_synonym space = "string \<rightharpoonup> cell"

text \<open>A label names the agent it acts on; claims, completions, releases and renewals name the worker
  and the token, a write by Out or Update the cell it leaves.  An expired lease ends by \<^verbatim>\<open>LReap\<close> in a store that refuses a
  version past the end of the range, and by \<^verbatim>\<open>LExpire\<close> in one whose versions wrap around.\<close>

datatype label =
    LOut string cell
  | LUpdate string cell
  | LTake string string string "int option"
  | LComplete string string string
  | LRelease string string string
  | LRenew string string string "int option"
  | LReap string int
  | LExpire string int

definition held_by :: "string \<Rightarrow> string \<Rightarrow> cell \<Rightarrow> bool" where
  "held_by agentID token c \<longleftrightarrow> c_status c = StatusInProgress \<and> c_owner c = agentID \<and> c_token c = token"

definition freed :: "status \<Rightarrow> cell \<Rightarrow> cell" where
  "freed st c = c \<lparr> c_status := st, c_owner := [], c_token := [], c_until := None \<rparr>"

inductive step :: "space \<Rightarrow> label \<Rightarrow> space \<Rightarrow> bool" where
  Out: "step m (LOut i c) (m(i \<mapsto> c))"
| Update: "m i = Some c0 \<Longrightarrow> c_version c = to_int64 (c_version c0 + 1) \<Longrightarrow> step m (LUpdate i c) (m(i \<mapsto> c))"
| Take: "m i = Some c \<Longrightarrow> c_status c = StatusNew \<Longrightarrow> step m (LTake i ag tok u)
    (m(i \<mapsto> c \<lparr> c_status := StatusInProgress, c_owner := ag, c_token := tok, c_until := u,
                c_version := to_int64 (c_version c + 1) \<rparr>))"
| Complete: "m i = Some c \<Longrightarrow> ag \<noteq> [] \<Longrightarrow> tok \<noteq> [] \<Longrightarrow> held_by ag tok c \<Longrightarrow> step m (LComplete i ag tok)
    (m(i \<mapsto> (freed StatusCompleted c) \<lparr> c_version := to_int64 (c_version c + 1), c_ctoken := tok \<rparr>))"
| Release: "m i = Some c \<Longrightarrow> ag \<noteq> [] \<Longrightarrow> tok \<noteq> [] \<Longrightarrow> held_by ag tok c \<Longrightarrow> step m (LRelease i ag tok)
    (m(i \<mapsto> (freed StatusNew c) \<lparr> c_version := to_int64 (c_version c + 1) \<rparr>))"
| Renew: "m i = Some c \<Longrightarrow> ag \<noteq> [] \<Longrightarrow> tok \<noteq> [] \<Longrightarrow> held_by ag tok c \<Longrightarrow> step m (LRenew i ag tok u)
    (m(i \<mapsto> c \<lparr> c_until := u \<rparr>))"
| Reap: "m i = Some c \<Longrightarrow> c_status c = StatusInProgress \<Longrightarrow> c_until c = Some u \<Longrightarrow> u < now \<Longrightarrow> step m (LReap i now)
    (m(i \<mapsto> (freed StatusNew c) \<lparr> c_version := c_version c + 1 \<rparr>))"
| Expire: "m i = Some c \<Longrightarrow> c_status c = StatusInProgress \<Longrightarrow> c_until c = Some u \<Longrightarrow> u < now \<Longrightarrow> step m (LExpire i now)
    (m(i \<mapsto> (freed StatusNew c) \<lparr> c_version := to_int64 (c_version c + 1) \<rparr>))"

inductive_cases step_OutE: "step m (LOut i c) m'"
inductive_cases step_UpdateE: "step m (LUpdate i c) m'"
inductive_cases step_TakeE: "step m (LTake i ag tok u) m'"
inductive_cases step_CompleteE: "step m (LComplete i ag tok) m'"
inductive_cases step_ReleaseE: "step m (LRelease i ag tok) m'"
inductive_cases step_RenewE: "step m (LRenew i ag tok u) m'"
inductive_cases step_ReapE: "step m (LReap i now) m'"
inductive_cases step_ExpireE: "step m (LExpire i now) m'"

inductive steps :: "space \<Rightarrow> label list \<Rightarrow> space \<Rightarrow> bool" where
  steps_Nil: "steps m [] m"
| steps_Cons: "step m l m1 \<Longrightarrow> steps m1 ls m2 \<Longrightarrow> steps m (l # ls) m2"

inductive_cases steps_NilE: "steps m [] m'"
inductive_cases steps_ConsE: "steps m (l # ls) m'"

text \<open>A step of the lease protocol: new agents get fresh ids and start out of any lease, and updates
  leave the status, the owner and the tokens alone.  Out on a used id and Update with status, owner or token entries are
  the two ways around the protocol.\<close>

fun protocol_step :: "space \<Rightarrow> label \<Rightarrow> bool" where
  "protocol_step m (LOut i c) = (m i = None)"
| "protocol_step m (LUpdate i c) = (case m i of None \<Rightarrow> False | Some c0 \<Rightarrow>
     c_status c = c_status c0 \<and> c_owner c = c_owner c0 \<and> c_token c = c_token c0 \<and> c_ctoken c = c_ctoken c0)"
| "protocol_step m l = True"

fun protocol :: "space \<Rightarrow> label list \<Rightarrow> space \<Rightarrow> bool" where
  "protocol m [] m' = (m = m')"
| "protocol m (l # ls) m' = (protocol_step m l \<and> (\<exists>m1. step m l m1 \<and> protocol m1 ls m'))"

definition is_complete :: "string \<Rightarrow> label \<Rightarrow> bool" where
  "is_complete i l = (case l of LComplete j _ _ \<Rightarrow> j = i | _ \<Rightarrow> False)"

definition issues :: "string \<Rightarrow> string \<Rightarrow> label \<Rightarrow> bool" where
  "issues i tok l = (case l of LTake j _ tok' _ \<Rightarrow> j = i \<and> tok' = tok | LOut j c \<Rightarrow> j = i \<and> c_token c = tok | _ \<Rightarrow> False)"

definition spends :: "string \<Rightarrow> string \<Rightarrow> label \<Rightarrow> bool" where
  "spends i tok l = (case l of LComplete j _ tok' \<Rightarrow> j = i \<and> tok' = tok | LRelease j _ tok' \<Rightarrow> j = i \<and> tok' = tok
     | LRenew j _ tok' _ \<Rightarrow> j = i \<and> tok' = tok | _ \<Rightarrow> False)"

section \<open>Laws of the protocol\<close>

lemma steps_append: "steps m ls m1 \<Longrightarrow> steps m1 ls' m2 \<Longrightarrow> steps m (ls @ ls') m2"
  by (induction rule: steps.induct) (auto intro: steps.intros)

lemma steps_single: "step m l m' \<Longrightarrow> steps m [l] m'"
  by (auto intro: steps.intros)

lemma protocol_steps: "protocol m ls m' \<Longrightarrow> steps m ls m'"
  by (induction ls arbitrary: m) (auto intro: steps.intros)

lemma protocol_append:
  "protocol m (ls @ ls') m' \<longleftrightarrow> (\<exists>m1. protocol m ls m1 \<and> protocol m1 ls' m')"
  by (induction ls arbitrary: m) auto

definition finished :: "string \<Rightarrow> space \<Rightarrow> bool" where
  "finished i m \<longleftrightarrow> (\<exists>c. m i = Some c \<and> c_status c = StatusCompleted)"

lemma finished_stable_step: "step m l m' \<Longrightarrow> protocol_step m l \<Longrightarrow> finished i m \<Longrightarrow> finished i m'"
  by (induction rule: step.induct) (auto simp: finished_def held_by_def freed_def split: if_splits)

lemma complete_needs_not_finished: "step m (LComplete i ag tok) m' \<Longrightarrow> \<not> finished i m \<and> finished i m'"
  by (erule step_CompleteE) (auto simp: finished_def held_by_def freed_def)

lemma is_complete_step: "step m l m' \<Longrightarrow> is_complete i l \<Longrightarrow> \<not> finished i m \<and> finished i m'"
  by (cases l) (auto simp: is_complete_def dest: complete_needs_not_finished)

lemma no_complete_after_finished: "protocol m ls m' \<Longrightarrow> finished i m \<Longrightarrow> filter (is_complete i) ls = []"
  by (induction ls arbitrary: m) (auto dest: is_complete_step finished_stable_step)

lemma protocol_finished: "protocol m ls m' \<Longrightarrow> finished i m \<Longrightarrow> finished i m'"
  by (induction ls arbitrary: m) (auto dest: finished_stable_step)

lemma complete_at_most_once: "protocol m ls m' \<Longrightarrow> length (filter (is_complete i) ls) \<le> 1"
proof (induction ls arbitrary: m)
  case (Cons l ls)
  then obtain m1 where m1: "step m l m1" "protocol m1 ls m'" by auto
  show ?case
  proof (cases "is_complete i l")
    case True
    then have "finished i m1" using is_complete_step[OF m1(1)] by blast
    then show ?thesis using no_complete_after_finished[OF m1(2)] True by simp
  next
    case False
    then show ?thesis using Cons.IH[OF m1(2)] by simp
  qed
qed simp

text \<open>A token that the cell does not hold and that is not issued again cannot be spent.\<close>

definition lacks :: "string \<Rightarrow> string \<Rightarrow> space \<Rightarrow> bool" where
  "lacks i tok m \<longleftrightarrow> tok \<noteq> [] \<and> (\<forall>c. m i = Some c \<longrightarrow> c_token c \<noteq> tok)"

lemma lacks_step: "step m l m' \<Longrightarrow> protocol_step m l \<Longrightarrow> lacks i tok m \<Longrightarrow> \<not> issues i tok l \<Longrightarrow> lacks i tok m'"
  by (induction rule: step.induct) (auto simp: lacks_def issues_def freed_def split: if_splits)

lemma lacks_not_spent: "step m l m' \<Longrightarrow> lacks i tok m \<Longrightarrow> \<not> spends i tok l"
  by (induction rule: step.induct) (auto simp: lacks_def spends_def held_by_def)

lemma stale_token_fenced:
  "protocol m ls m' \<Longrightarrow> lacks i tok m \<Longrightarrow> (\<And>l. l \<in> set ls \<Longrightarrow> \<not> issues i tok l) \<Longrightarrow>
     l \<in> set ls \<Longrightarrow> \<not> spends i tok l"
proof (induction ls arbitrary: m)
  case (Cons x xs)
  then obtain m1 where m1: "step m x m1" "protocol m1 xs m'" "protocol_step m x" by auto
  have "lacks i tok m1" using lacks_step[OF m1(1,3) Cons.prems(2)] Cons.prems(3) by simp
  then show ?case
    using Cons.IH[OF m1(2)] Cons.prems(3,4) lacks_not_spent[OF m1(1) Cons.prems(2)] by auto
qed simp

lemma protocol_lacks:
  "protocol m ls m' \<Longrightarrow> lacks i tok m \<Longrightarrow> (\<And>l. l \<in> set ls \<Longrightarrow> \<not> issues i tok l) \<Longrightarrow> lacks i tok m'"
proof (induction ls arbitrary: m)
  case (Cons x xs)
  then obtain m1 where m1: "step m x m1" "protocol m1 xs m'" "protocol_step m x" by auto
  have "lacks i tok m1" using lacks_step[OF m1(1,3) Cons.prems(2)] Cons.prems(3) by simp
  then show ?case using Cons.IH[OF m1(2)] Cons.prems(3) by simp
qed simp

lemma take_lacks_old: "step m (LTake i ag tok' u) m' \<Longrightarrow> tok \<noteq> tok' \<Longrightarrow> tok \<noteq> [] \<Longrightarrow> lacks i tok m'"
  by (erule step_TakeE) (auto simp: lacks_def)

text \<open>As long as no version reaches the end of the range, versions never decrease.\<close>

definition below_max :: "space \<Rightarrow> string \<Rightarrow> bool" where
  "below_max m i \<longleftrightarrow> (\<forall>c. m i = Some c \<longrightarrow> 0 \<le> c_version c \<and> c_version c < 9223372036854775807)"

definition version_at :: "space \<Rightarrow> string \<Rightarrow> int" where
  "version_at m i = (case m i of None \<Rightarrow> -1 | Some c \<Rightarrow> c_version c)"

lemma to_int64_Suc: "0 \<le> v \<Longrightarrow> v < 9223372036854775807 \<Longrightarrow> to_int64 (v + 1) = v + 1"
  by (rule to_int64_id) (simp add: int64_range_def)

lemma version_step:
  "step m l m' \<Longrightarrow> below_max m i \<Longrightarrow> protocol_step m l \<Longrightarrow> m i = Some c \<Longrightarrow>
     \<exists>c'. m' i = Some c' \<and> c_version c \<le> c_version c' \<and> c_version c' \<le> c_version c + 1"
  by (induction rule: step.induct) (auto simp: below_max_def freed_def to_int64_Suc split: if_splits)

section \<open>The interface of a backend\<close>

text \<open>Running a list of operations, the labels of the run, and that every operation of it was proper
  in the state it met.\<close>

fun run_ops :: "('op \<Rightarrow> 's \<Rightarrow> 's) \<Rightarrow> 'op list \<Rightarrow> 's \<Rightarrow> 's" where
  "run_ops ex [] s = s"
| "run_ops ex (op # ops) s = run_ops ex ops (ex op s)"

fun trace_ops :: "('op \<Rightarrow> 's \<Rightarrow> 's) \<Rightarrow> ('op \<Rightarrow> 's \<Rightarrow> label list) \<Rightarrow> 'op list \<Rightarrow> 's \<Rightarrow> label list" where
  "trace_ops ex lab [] s = []"
| "trace_ops ex lab (op # ops) s = lab op s @ trace_ops ex lab ops (ex op s)"

fun proper_ops :: "('op \<Rightarrow> 's \<Rightarrow> 's) \<Rightarrow> ('op \<Rightarrow> 's \<Rightarrow> bool) \<Rightarrow> 'op list \<Rightarrow> 's \<Rightarrow> bool" where
  "proper_ops ex ok [] s = True"
| "proper_ops ex ok (op # ops) s = (ok op s \<and> proper_ops ex ok ops (ex op s))"

text \<open>
  A backend has states with an invariant, a view of a state as a space, operations (each with the
  environment it runs in) and for every run of an operation the labels of the steps it took.  It promises
  that each operation keeps the invariant and takes exactly those steps, and that the operations it calls
  proper follow the lease protocol.
\<close>

locale lease_backend =
  fixes view :: "'s \<Rightarrow> space"
    and good :: "'s \<Rightarrow> bool"
    and exec :: "'op \<Rightarrow> 's \<Rightarrow> 's"
    and labels :: "'op \<Rightarrow> 's \<Rightarrow> label list"
    and proper :: "'op \<Rightarrow> 's \<Rightarrow> bool"
  assumes good_exec: "good s \<Longrightarrow> good (exec op s)"
    and refines: "good s \<Longrightarrow> steps (view s) (labels op s) (view (exec op s))"
    and proper_protocol: "good s \<Longrightarrow> proper op s \<Longrightarrow> protocol (view s) (labels op s) (view (exec op s))"
begin

lemma good_run: "good s \<Longrightarrow> good (run_ops exec ops s)"
  by (induction ops arbitrary: s) (auto intro: good_exec)

lemma run_refines: "good s \<Longrightarrow> steps (view s) (trace_ops exec labels ops s) (view (run_ops exec ops s))"
  by (induction ops arbitrary: s) (auto intro: steps_Nil steps_append refines good_exec)

lemma run_protocol:
  "good s \<Longrightarrow> proper_ops exec proper ops s \<Longrightarrow>
     protocol (view s) (trace_ops exec labels ops s) (view (run_ops exec ops s))"
  by (induction ops arbitrary: s) (auto simp: protocol_append intro: good_exec dest: proper_protocol)

lemma run_completes_once:
  "good s \<Longrightarrow> proper_ops exec proper ops s \<Longrightarrow> length (filter (is_complete i) (trace_ops exec labels ops s)) \<le> 1"
  using run_protocol complete_at_most_once by blast

lemma run_completed_stays:
  "good s \<Longrightarrow> proper_ops exec proper ops s \<Longrightarrow> finished i (view s) \<Longrightarrow>
     finished i (view (run_ops exec ops s)) \<and> filter (is_complete i) (trace_ops exec labels ops s) = []"
  using run_protocol protocol_finished no_complete_after_finished by blast

lemma run_fences:
  assumes "good s" "proper_ops exec proper ops s" "lacks i tok (view s)"
    and "\<And>l. l \<in> set (trace_ops exec labels ops s) \<Longrightarrow> \<not> issues i tok l"
    and "l \<in> set (trace_ops exec labels ops s)"
  shows "\<not> spends i tok l"
  using stale_token_fenced[OF run_protocol] assms by blast

end

end
