(* ===== verification/Sqlite_Refine.thy ===== *)
theory Sqlite_Refine
  imports Sqlite_Lifecycle Lease_Spec
begin

text \<open>
  The SQLite backend refines the lease contract.  \<^verbatim>\<open>view_db\<close> reads the tables as a space; the effect lemmas
  say what each transaction body does to the view, the tables and the event log; \<^verbatim>\<open>sqlite_op_sound\<close>
  collects them into one simulation statement per operation, and the interpretation of
  \<^verbatim>\<open>lease_backend\<close> rests on it.
\<close>

section \<open>The view of the tables as a space\<close>

definition cell_of :: "agent_row \<Rightarrow> cell" where
  "cell_of r = \<lparr> c_status = r_status r, c_owner = r_owner r, c_token = r_lease_token r,
     c_until = r_lease_until_ms r, c_version = r_version r,
     c_ctoken = str_at (or_nil (scan_metadata (r_metadata r))) CompletedByTokenMetadataKey \<rparr>"

definition view_db :: "db \<Rightarrow> space" where
  "view_db d i = map_option cell_of (row_of d i)"

definition agent_cell :: "agent \<Rightarrow> cell" where
  "agent_cell t = \<lparr> c_status = a_Status t, c_owner = a_Owner t, c_token = a_LeaseToken t,
     c_until = time_null (a_LeaseUntil t), c_version = a_Version t,
     c_ctoken = str_at (or_nil (a_Metadata t)) CompletedByTokenMetadataKey \<rparr>"

lemma cell_written: "agent_columns (sync_namespace t) = Inr r \<Longrightarrow> cell_of r = agent_cell t"
  using agent_columns_fields[of "sync_namespace t" r] sync_namespace_metadata[of t]
  by (auto simp: cell_of_def agent_cell_def str_at_def)

lemma agent_cell_sync [simp]: "agent_cell (sync_namespace t) = agent_cell t"
  using sync_namespace_metadata[of t] by (auto simp: agent_cell_def str_at_def)

lemma cell_scanned:
  "scanSQLiteAgent r = Inr t \<Longrightarrow> agent_cell t = cell_of r \<lparr> c_until := time_null (a_LeaseUntil t) \<rparr>"
  using scan_fields[of r t] by (simp add: cell_of_def agent_cell_def)

section \<open>Statements\<close>

lemma select_by_id_row_of:
  assumes "wf_db d"
  shows "select_by_id d i nowMs = Some r \<longleftrightarrow> row_of d i = Some r \<and> ttl_alive nowMs r"
proof -
  have "distinct (map r_id rows) \<Longrightarrow>
      find (\<lambda>r. r_id r = i \<and> ttl_alive nowMs r) rows = Some r \<longleftrightarrow>
      find (\<lambda>r. r_id r = i) rows = Some r \<and> ttl_alive nowMs r" for rows
    by (induction rows) (auto dest!: find_SomeD simp: image_iff)
  then show ?thesis using assms by (simp add: select_by_id_def row_of_def wf_db_def)
qed

lemma fetch_InrD:
  assumes "wf_db d" "fetch e d i nowMs = Inr t"
  obtains r where "row_of d i = Some r" "ttl_alive nowMs r" "scanSQLiteAgent r = Inr t" "a_ID t = i"
  using assms select_by_id_row_of[OF assms(1)]
  by (auto simp: fetch_def scan_fields(1) row_of_id split: if_splits option.splits)

lemma view_update:
  assumes "updateSQLiteAgent e c d t = Inr (t', d')" "row_of d (a_ID t) \<noteq> None"
  shows "view_db d' = (view_db d)(a_ID t \<mapsto> agent_cell t)" "db_events d' = db_events d" "t' = sync_namespace t"
proof -
  obtain r where r: "t' = sync_namespace t" "agent_columns t' = Inr r"
    "d' = d \<lparr> db_agents := map (\<lambda>x. if r_id x = r_id r then r else x) (db_agents d) \<rparr>"
    using assms(1) by (rule update_InrD)
  then show "db_events d' = db_events d" "t' = sync_namespace t" by simp_all
  have ro: "row_of d' k = (if k = a_ID t then map_option (\<lambda>_. r) (row_of d k) else row_of d k)" for k
    using row_of_update[OF assms(1)] r by simp
  show "view_db d' = (view_db d)(a_ID t \<mapsto> agent_cell t)"
    using assms(2) cell_written[of t r] r(1,2) by (auto simp: view_db_def fun_eq_iff ro)
qed

lemma view_upsert:
  assumes "upsertSQLiteAgent e c d t = Inr (t', d')"
  shows "view_db d' = (view_db d)(a_ID t \<mapsto> agent_cell t)" "db_events d' = db_events d" "t' = sync_namespace t"
proof -
  obtain r where r: "t' = sync_namespace t" "agent_columns t' = Inr r"
    "d' = d \<lparr> db_agents := put_row r (db_agents d) \<rparr>"
    using assms by (rule upsert_InrD)
  then show "db_events d' = db_events d" "t' = sync_namespace t" by simp_all
  have "r_id r = a_ID t" using agent_columns_fields(1)[OF r(2)] r by simp
  then show "view_db d' = (view_db d)(a_ID t \<mapsto> agent_cell t)"
    using cell_written[of t r] r by (auto simp: view_db_def fun_eq_iff row_of_put)
qed

lemma view_insert_event:
  assumes "insertSQLiteEvent e c d ev = Inr d'"
  shows "view_db d' = view_db d" "\<exists>j. db_events d' = db_events d @ [event_columns ev j]"
  using assms by (auto elim!: insert_event_InrD simp: view_db_def fun_eq_iff)

lemma insert_event_agents: "insertSQLiteEvent e c d ev = Inr d' \<Longrightarrow> db_agents d' = db_agents d"
  by (auto elim!: insert_event_InrD)

lemma with_tx_Inl: "with_tx e s body = (Inl er, s') \<Longrightarrow> s' = s"
  by (auto simp: with_tx_def split: if_splits sum.splits tx_end.splits)

lemma s_db_notify [simp]: "s_db (fold (\<lambda>ev s. notifySubscribers s ev) evs s) = s_db s"
  by (induction evs arbitrary: s) (simp_all add: notifySubscribers_def)

lemma with_tx_InrD:
  assumes "with_tx e s body = (Inr x, s')"
  shows "body (s_db s) = Inr (TxRollback x) \<and> s' = s \<or>
    (\<exists>d evs. body (s_db s) = Inr (TxCommit x d evs) \<and> s_db s' = d \<and>
       s' = fold (\<lambda>ev s. notifySubscribers s ev) evs (s \<lparr> s_db := d \<rparr>))"
  using assms by (auto simp: with_tx_def split: if_splits sum.splits tx_end.splits)

text \<open>A property of the tables that every successful body keeps holds after the operation.\<close>

lemma with_tx_db:
  assumes "P (s_db s)" "\<And>x d evs. body (s_db s) = Inr (TxCommit x d evs) \<Longrightarrow> P d"
  shows "P (s_db (snd (with_tx e s body)))"
  using assms by (auto simp: with_tx_def split: sum.splits tx_end.splits)

text \<open>Every operation leaves the store as it was when it returns an error.\<close>

lemma sqlite_error_unchanged:
  "SQLiteOut e s t = (Inl er, s') \<Longrightarrow> s' = s"
  "SQLiteTake e s q = (Inl er, s') \<Longrightarrow> s' = s"
  "SQLiteUpdateAndGet e s i u = (Inl er, s') \<Longrightarrow> s' = s"
  "SQLiteCompleteAndGet e s i ag tok res = (Inl er, s') \<Longrightarrow> s' = s"
  "SQLiteCompleteAndOut e s i ag tok res outs = (Inl er, s') \<Longrightarrow> s' = s"
  "SQLiteReleaseAndGet e s i ag tok reason = (Inl er, s') \<Longrightarrow> s' = s"
  "SQLiteRenewLease e s i ag tok dur = (Inl er, s') \<Longrightarrow> s' = s"
  by (auto simp: SQLiteOut_def SQLiteTake_def SQLiteUpdateAndGet_def SQLiteCompleteAndGet_def
      SQLiteCompleteAndOut_def SQLiteReleaseAndGet_def SQLiteRenewLease_def
      dest: with_tx_Inl split: if_splits option.splits)

section \<open>Effects of the transaction bodies\<close>

lemma out_tx_effect:
  assumes "wf_db d" "out_tx e t d = Inr (TxCommit t' d' evs)"
  shows "wf_db d'" "view_db d' = (view_db d)(a_ID t' \<mapsto> agent_cell t')" "\<exists>ev j. evs = [ev] \<and>
    db_events d' = db_events d @ [event_columns ev j] \<and> e_TupleID ev = a_ID t' \<and> e_Type ev = EventCreated"
proof -
  let ?t = "defaults_out e 0 t" and ?ag = "str_at (or_nil (a_Metadata (defaults_out e 0 t))) ''agent_id''"
  obtain t1 d1 where u: "upsertSQLiteAgent e (CWrite 0) d ?t = Inr (t1, d1)"
    "insertSQLiteEvent e (CInsertEvent 0) d1 (created_event e 0 ?ag t1 []) = Inr d'"
    "t' = t1" "evs = [created_event e 0 ?ag t1 []]"
    using assms(2) by (auto simp: out_tx_def Let_def bindr_eq_Inr)
  show "wf_db d'" using assms(1) u wf_upsert wf_insert_event by blast
  show "view_db d' = (view_db d)(a_ID t' \<mapsto> agent_cell t')"
    using view_upsert[OF u(1)] view_insert_event(1)[OF u(2)] u(3) by simp
  show "\<exists>ev j. evs = [ev] \<and> db_events d' = db_events d @ [event_columns ev j] \<and> e_TupleID ev = a_ID t' \<and>
      e_Type ev = EventCreated"
    using view_insert_event(2)[OF u(2)] view_upsert(2)[OF u(1)] u(3,4) by (simp add: created_event_def)
qed

lemma update_tx_effect:
  assumes "wf_db d" "update_tx e i u d = Inr (TxCommit t' d' evs)"
  obtains r t0 ev j where "row_of d i = Some r" "scanSQLiteAgent r = Inr t0" "ttl_alive (UnixMilli (clock e 0)) r"
    "wf_db d'" "view_db d' = (view_db d)(i \<mapsto> agent_cell t')" "a_ID t' = i"
    "t' = sync_namespace ((ApplyUpdates t0 (Some u)) \<lparr> a_UpdatedAt := clock e 1, a_Version := to_int64 (r_version r + 1) \<rparr>)"
    "evs = [ev]" "db_events d' = db_events d @ [event_columns ev j]" "e_TupleID ev = i" "e_Type ev = EventUpdated"
proof -
  obtain t0 t1 d1 where t0: "fetch e d i (UnixMilli (clock e 0)) = Inr t0"
    and u: "updateSQLiteAgent e (CWrite 0) d ((ApplyUpdates t0 (Some u)) \<lparr> a_UpdatedAt := clock e 1,
        a_Version := to_int64 (a_Version t0 + 1) \<rparr>) = Inr (t1, d1)"
    and ev: "insertSQLiteEvent e (CInsertEvent 0) d1 (hd evs) = Inr d'" "t' = t1" "length evs = 1"
      "e_TupleID (hd evs) = a_ID t1" "e_Type (hd evs) = EventUpdated"
    using assms(2) by (auto simp: update_tx_def Let_def bindr_eq_Inr)
  obtain r where r: "row_of d i = Some r" "ttl_alive (UnixMilli (clock e 0)) r" "scanSQLiteAgent r = Inr t0" "a_ID t0 = i"
    using fetch_InrD[OF assms(1) t0] .
  have ver: "a_Version t0 = r_version r" using scan_fields(8)[OF r(3)] .
  note vu = view_update[OF u]
  show ?thesis
    using that[of r t0 "hd evs"] r ev vu view_insert_event[OF ev(1)] wf_update[OF assms(1) u] wf_insert_event[OF _ ev(1)] ver
    by (auto simp: length_Suc_conv)
qed

lemma lease_guard_None:
  "lease_guard verb ag tok t = None \<longleftrightarrow> a_Status t = StatusInProgress \<and> a_Owner t = ag \<and> a_LeaseToken t = tok"
  by (simp add: lease_guard_def)

lemma lease_guard_held:
  "scanSQLiteAgent r = Inr t \<Longrightarrow> lease_guard verb ag tok t = None \<longleftrightarrow> held_by ag tok (cell_of r)"
  by (auto simp: lease_guard_None held_by_def cell_of_def scan_fields)

lemma completed_agent_cell:
  assumes "scanSQLiteAgent r = Inr t0" "tok \<noteq> []"
  shows "agent_cell (completed_agent now ag tok res t0) =
    (freed StatusCompleted (cell_of r)) \<lparr> c_version := to_int64 (r_version r + 1), c_ctoken := tok \<rparr>"
  using assms scan_fields[OF assms(1)]
  by (simp add: agent_cell_def completed_agent_def Let_def freed_def cell_of_def)

lemma completed_agent_id [simp]:
  "a_ID (completed_agent now ag tok res t) = a_ID t" "a_TraceID (completed_agent now ag tok res t) = a_TraceID t"
  by (simp_all add: completed_agent_def Let_def)

lemma released_agent_cell:
  assumes "scanSQLiteAgent r = Inr t0"
  shows "agent_cell (released_agent now t0) =
    (freed StatusNew (cell_of r)) \<lparr> c_version := to_int64 (r_version r + 1) \<rparr>"
  using scan_fields[OF assms] by (simp add: agent_cell_def released_agent_def freed_def cell_of_def)

text \<open>A completion either finds the agent completed with the same token and changes nothing, or turns a
  held lease into a completed agent and records one event.\<close>

lemma complete_tx_effect:
  assumes "wf_db d" "complete_tx e i ag tok res d = Inr (TxCommit t d' evs)" "tok \<noteq> []"
  obtains r where "row_of d i = Some r" "r_status r = StatusCompleted" "d' = d" "evs = []"
      "c_ctoken (cell_of r) = tok" "scanSQLiteAgent r = Inr t"
  | r t0 ev j where "row_of d i = Some r" "ttl_alive (UnixMilli (clock e 0)) r" "scanSQLiteAgent r = Inr t0"
      "held_by ag tok (cell_of r)" "t = sync_namespace (completed_agent (clock e 1) ag tok (or_nil res) t0)"
      "view_db d' = (view_db d)(i \<mapsto> (freed StatusCompleted (cell_of r))
         \<lparr> c_version := to_int64 (r_version r + 1), c_ctoken := tok \<rparr>)"
      "wf_db d'" "evs = [ev]" "db_events d' = db_events d @ [event_columns ev j]"
      "ev = completed_event (uuid e 0) (clock e 1) ag (or_nil res) t"
proof -
  obtain t0 where t0: "fetch e d i (UnixMilli (clock e 0)) = Inr t0"
    using assms(2) by (auto simp: complete_tx_def bindr_eq_Inr)
  obtain r where r: "row_of d i = Some r" "ttl_alive (UnixMilli (clock e 0)) r" "scanSQLiteAgent r = Inr t0" "a_ID t0 = i"
    using fetch_InrD[OF assms(1) t0] .
  show ?thesis
  proof (cases "a_Status t0 = StatusCompleted")
    case True
    then have m: "CompletionTokenMatches (Some t0) tok" "t = t0" "d' = d" "evs = []"
      using assms(2) t0 by (auto simp: complete_tx_def split: if_splits)
    show ?thesis
      by (rule that(1)[OF r(1)])
         (use m r scan_fields[OF r(3)] True in \<open>auto simp: CompletionTokenMatches_iff cell_of_def\<close>)
  next
    case False
    let ?t = "completed_agent (clock e 1) ag tok (or_nil res) t0"
    have g: "lease_guard ''complete'' ag tok t0 = None"
      using False assms(2) t0 by (auto simp: complete_tx_def split: option.splits)
    obtain t1 d1 where u: "updateSQLiteAgent e (CWrite 0) d ?t = Inr (t1, d1)"
      and ev: "insertSQLiteEvent e (CInsertEvent 0) d1 (completed_event (uuid e 0) (clock e 1) ag (or_nil res) t1) = Inr d'"
        "t = t1" "evs = [completed_event (uuid e 0) (clock e 1) ag (or_nil res) t1]"
      using assms(2) t0 False g by (auto simp: complete_tx_def Let_def bindr_eq_Inr)
    have id: "a_ID ?t = i" using r(4) by simp
    note vu = view_update[OF u, unfolded id]
    obtain j where j: "db_events d' = db_events d1 @ [event_columns (completed_event (uuid e 0) (clock e 1) ag (or_nil res) t1) j]"
      using view_insert_event(2)[OF ev(1)] by blast
    show ?thesis
    proof (rule that(2)[OF r(1-3)])
      show "held_by ag tok (cell_of r)" using g lease_guard_held[OF r(3)] by blast
      show "view_db d' = (view_db d)(i \<mapsto> (freed StatusCompleted (cell_of r))
         \<lparr> c_version := to_int64 (r_version r + 1), c_ctoken := tok \<rparr>)"
        using vu(1) r(1) view_insert_event(1)[OF ev(1)] completed_agent_cell[OF r(3) assms(3)] by simp
      show "wf_db d'" using wf_insert_event[OF wf_update[OF assms(1) u] ev(1)] .
      show "db_events d' = db_events d @ [event_columns (completed_event (uuid e 0) (clock e 1) ag (or_nil res) t1) j]"
        using j vu(2) r(1) by simp
    qed (use ev vu(3) r(1) in simp_all)
  qed
qed

lemma release_tx_effect:
  assumes "wf_db d" "release_tx e i ag tok reason d = Inr (TxCommit t d' evs)"
  obtains r t0 ev j where "row_of d i = Some r" "ttl_alive (UnixMilli (clock e 0)) r" "scanSQLiteAgent r = Inr t0"
      "held_by ag tok (cell_of r)" "t = sync_namespace (released_agent (clock e 1) t0)"
      "view_db d' = (view_db d)(i \<mapsto> (freed StatusNew (cell_of r)) \<lparr> c_version := to_int64 (r_version r + 1) \<rparr>)"
      "wf_db d'" "evs = [ev]" "db_events d' = db_events d @ [event_columns ev j]"
      "e_TupleID ev = i" "e_Type ev = EventReleased"
proof -
  obtain t0 where t0: "fetch e d i (UnixMilli (clock e 0)) = Inr t0"
    using assms(2) by (auto simp: release_tx_def bindr_eq_Inr)
  obtain r where r: "row_of d i = Some r" "ttl_alive (UnixMilli (clock e 0)) r" "scanSQLiteAgent r = Inr t0" "a_ID t0 = i"
    using fetch_InrD[OF assms(1) t0] .
  let ?t = "released_agent (clock e 1) t0"
  have g: "lease_guard ''release'' ag tok t0 = None"
    using assms(2) t0 by (auto simp: release_tx_def split: option.splits)
  obtain t1 d1 ev where u: "updateSQLiteAgent e (CWrite 0) d ?t = Inr (t1, d1)"
    and ev: "insertSQLiteEvent e (CInsertEvent 0) d1 ev = Inr d'" "t = t1" "evs = [ev]"
      "e_TupleID ev = a_ID t1" "e_Type ev = EventReleased"
    using assms(2) t0 g by (auto simp: release_tx_def Let_def bindr_eq_Inr)
  have id: "a_ID ?t = i" using r(4) by (simp add: released_agent_def)
  note vu = view_update[OF u, unfolded id]
  obtain j where j: "db_events d' = db_events d1 @ [event_columns ev j]" using view_insert_event(2)[OF ev(1)] by blast
  show ?thesis
  proof (rule that[OF r(1-3)])
    show "held_by ag tok (cell_of r)" using g lease_guard_held[OF r(3)] by blast
    show "view_db d' = (view_db d)(i \<mapsto> (freed StatusNew (cell_of r)) \<lparr> c_version := to_int64 (r_version r + 1) \<rparr>)"
      using vu(1) r(1) view_insert_event(1)[OF ev(1)] released_agent_cell[OF r(3)] by simp
    show "wf_db d'" using wf_insert_event[OF wf_update[OF assms(1) u] ev(1)] .
    show "db_events d' = db_events d @ [event_columns ev j]" using j vu(2) r(1) by simp
  qed (use ev vu(3) r(1) id in simp_all)
qed

lemma renew_tx_effect:
  assumes "wf_db d" "renew_tx e i ag tok dur d = Inr (TxCommit t d' evs)"
  obtains r t0 where "row_of d i = Some r" "ttl_alive (UnixMilli (clock e 0)) r" "scanSQLiteAgent r = Inr t0"
      "held_by ag tok (cell_of r)"
      "t = sync_namespace (t0 \<lparr> a_OwnerTime := clock e 1, a_LeaseUntil := clock e 1 +
         (if dur \<le> 0 then leaseDurationForAgent (Some t0) else dur), a_UpdatedAt := clock e 1 \<rparr>)"
      "view_db d' = (view_db d)(i \<mapsto> cell_of r \<lparr> c_until := time_null (a_LeaseUntil t) \<rparr>)"
      "wf_db d'" "evs = []" "db_events d' = db_events d"
proof -
  obtain t0 where t0: "fetch e d i (UnixMilli (clock e 0)) = Inr t0"
    using assms(2) by (auto simp: renew_tx_def bindr_eq_Inr)
  obtain r where r: "row_of d i = Some r" "ttl_alive (UnixMilli (clock e 0)) r" "scanSQLiteAgent r = Inr t0" "a_ID t0 = i"
    using fetch_InrD[OF assms(1) t0] .
  let ?t = "t0 \<lparr> a_OwnerTime := clock e 1, a_LeaseUntil := clock e 1 +
         (if dur \<le> 0 then leaseDurationForAgent (Some t0) else dur), a_UpdatedAt := clock e 1 \<rparr>"
  have g: "lease_guard ''renew'' ag tok t0 = None"
    using assms(2) t0 by (auto simp: renew_tx_def split: option.splits)
  have u: "updateSQLiteAgent e (CWrite 0) d ?t = Inr (t, d')" "evs = []"
    using assms(2) t0 g by (auto simp: renew_tx_def Let_def bindr_eq_Inr)
  have id: "a_ID ?t = i" using r(4) by simp
  note vu = view_update[OF u(1), unfolded id]
  have "agent_cell ?t = cell_of r \<lparr> c_until := time_null (a_LeaseUntil ?t) \<rparr>"
    using scan_fields[OF r(3)] by (simp add: agent_cell_def cell_of_def)
  then show ?thesis
    using that[OF r(1-3)] g lease_guard_held[OF r(3)] vu r(1) wf_update[OF assms(1) u(1)] u(2) by simp
qed

subsection \<open>Take\<close>

lemma claim_iff:
  assumes "wf_db d" "r \<in> set (db_agents d)"
  shows "x \<in> set (db_agents d) \<Longrightarrow> claimable (r_id r) nowMs x \<longleftrightarrow> x = r \<and> r_status r = StatusNew \<and> ttl_alive nowMs r"
  using assms by (auto simp: claimable_def wf_db_def distinct_map inj_on_def)

lemma claim_effect:
  assumes "wf_db d" "r \<in> set (db_agents d)" "a_ID t = r_id r" "claimSQLiteAgent e c d t nowMs = Inr (b, d')"
  shows "b \<longleftrightarrow> r_status r = StatusNew \<and> ttl_alive nowMs r"
    and "b \<Longrightarrow> view_db d' = (view_db d)(r_id r \<mapsto> cell_of (claim_row t r))"
    and "db_events d' = db_events d"
proof -
  note ci = claim_iff[OF assms(1,2)]
  have d': "d' = d \<lparr> db_agents := map (\<lambda>x. if claimable (a_ID t) nowMs x then claim_row t x else x) (db_agents d) \<rparr>"
    and b: "b \<longleftrightarrow> (\<exists>x \<in> set (db_agents d). claimable (a_ID t) nowMs x)"
    using assms(4) by (auto simp: claimSQLiteAgent_def list_ex_iff split: if_splits)
  show "db_events d' = db_events d" using d' by simp
  show bb: "b \<longleftrightarrow> r_status r = StatusNew \<and> ttl_alive nowMs r" unfolding b using ci assms(2,3) by auto
  show "view_db d' = (view_db d)(r_id r \<mapsto> cell_of (claim_row t r))" if b
  proof
    fix k
    have "row_of d' k = map_option (\<lambda>x. if claimable (a_ID t) nowMs x then claim_row t x else x) (row_of d k)"
      unfolding d' by (rule row_of_map) (simp add: claim_row_def)
    moreover have "row_of d (r_id r) = Some r" using assms(1,2) by (simp add: row_of_iff)
    moreover have "claimable (r_id r) nowMs r" using that bb by (simp add: claimable_def)
    moreover have "\<not> claimable (r_id r) nowMs x" if "row_of d k = Some x" "k \<noteq> r_id r" for x
      using that row_of_id[of d k x] by (simp add: claimable_def)
    ultimately show "view_db d' k = ((view_db d)(r_id r \<mapsto> cell_of (claim_row t r))) k"
      using assms(3) by (cases "row_of d k") (auto simp: view_db_def)
  qed
qed

text \<open>A row that the loop of Take stops at.\<close>

definition takeable :: "bool \<Rightarrow> query option \<Rightarrow> int \<Rightarrow> agent_row \<Rightarrow> bool" where
  "takeable nf qo nowMs r \<longleftrightarrow>
     (nf \<longrightarrow> matchesQueryFilters (scanned r) qo) \<and> r_status r = StatusNew \<and> ttl_alive nowMs r"

lemma claimed_agent_id [simp]: "a_ID (claimed_agent e k ag t) = a_ID t"
  by (simp add: claimed_agent_def Let_def)

lemma claimed_cell:
  assumes "scanSQLiteAgent r = Inr t0"
  shows "cell_of (claim_row (claimed_agent e k ag t0) r) = cell_of r \<lparr> c_status := StatusInProgress, c_owner := ag,
     c_token := uuid e (2 * k), c_until := time_null (a_LeaseUntil (claimed_agent e k ag t0)),
     c_version := to_int64 (r_version r + 1) \<rparr>"
  using scan_fields(8)[OF assms] by (simp add: cell_of_def claim_row_def claimed_agent_def Let_def)

lemma take_rows_effect:
  assumes "wf_db d" "set rows \<subseteq> set (db_agents d)" "take_rows e qo ag nf nowMs d i rows = Inr y"
  shows "case y of
     TxRollback x \<Rightarrow> x = None \<and> find (takeable nf qo nowMs) rows = None
   | TxCommit x d' evs \<Rightarrow> \<exists>k r ev j. find (takeable nf qo nowMs) rows = Some r \<and>
       x = Some (claimed_agent e k ag (scanned r)) \<and>
       view_db d' = (view_db d)(r_id r \<mapsto> cell_of (claim_row (claimed_agent e k ag (scanned r)) r)) \<and>
       wf_db d' \<and> evs = [ev] \<and> db_events d' = db_events d @ [event_columns ev j] \<and>
       ev = claimed_event e k ag (claimed_agent e k ag (scanned r))"
  using assms(2,3)
proof (induction rows arbitrary: i)
  case Nil
  then show ?case by (auto split: if_splits)
next
  case (Cons r rows)
  have r: "r \<in> set (db_agents d)" "wf_row r" using Cons.prems(1) assms(1) by (auto simp: wf_db_def list_all_iff)
  note sc = scanned_wf[OF r(2)]
  let ?t = "claimed_agent e i ag (scanned r)"
  have id: "a_ID ?t = r_id r" using scan_fields(1)[OF sc] by simp
  show ?case
  proof (cases "nf \<and> \<not> matchesQueryFilters (scanned r) qo")
    case True
    then have skip: "find (takeable nf qo nowMs) (r # rows) = find (takeable nf qo nowMs) rows"
      by (simp add: takeable_def)
    have "take_rows e qo ag nf nowMs d (Suc i) rows = Inr y" using Cons.prems(2) True sc by simp
    then show ?thesis unfolding skip using Cons.IH[of "Suc i"] Cons.prems(1) by simp
  next
    case False
    then obtain b d1 where c: "claimSQLiteAgent e (CClaim i) d ?t nowMs = Inr (b, d1)"
      using Cons.prems(2) sc by (auto simp: Let_def bindr_eq_Inr split: if_splits)
    note ce = claim_effect[OF assms(1) r(1) id c]
    show ?thesis
    proof (cases b)
      case True
      obtain d2 where ins: "insertSQLiteEvent e (CInsertEvent i) d1 (claimed_event e i ag ?t) = Inr d2"
        "y = TxCommit (Some ?t) d2 [claimed_event e i ag ?t]"
        using Cons.prems(2) sc False c True by (auto simp: Let_def bindr_eq_Inr split: if_splits)
      have "takeable nf qo nowMs r" using False ce(1) True by (auto simp: takeable_def)
      moreover obtain j where "db_events d2 = db_events d1 @ [event_columns (claimed_event e i ag ?t) j]"
        using view_insert_event(2)[OF ins(1)] by blast
      ultimately show ?thesis
        using ins ce True view_insert_event(1)[OF ins(1)] wf_insert_event[OF wf_claim[OF assms(1) c] ins(1)] by auto
    next
      case b: False
      then have skip: "find (takeable nf qo nowMs) (r # rows) = find (takeable nf qo nowMs) rows"
        using ce(1) by (auto simp: takeable_def)
      have "take_rows e qo ag nf nowMs d (Suc i) rows = Inr y"
        using Cons.prems(2) False sc c b by (simp add: Let_def split: if_splits)
      then show ?thesis unfolding skip using Cons.IH[of "Suc i"] Cons.prems(1) by simp
    qed
  qed
qed

lemma take_rows_rollback: "take_rows e qo ag nf nowMs d i rows = Inr (TxRollback x) \<Longrightarrow> x = None"
  by (induction rows arbitrary: i) (auto simp: Let_def bindr_eq_Inr split: if_splits sum.splits)

lemma take_tx_rollback: "take_tx e qo d = Inr (TxRollback x) \<Longrightarrow> x = None"
  by (auto simp: take_tx_def Let_def dest: take_rows_rollback split: if_splits prod.splits)

lemma take_tx_effect:
  assumes "wf_db d" "take_tx e qo d = Inr (TxCommit x d' evs)"
  obtains k r ev j where "r \<in> set (db_agents d)" "r_status r = StatusNew" "ttl_alive (UnixMilli (clock e 0)) r"
    "x = Some (claimed_agent e k (take_agent_id qo) (scanned r))"
    "view_db d' = (view_db d)(r_id r \<mapsto> cell_of (claim_row (claimed_agent e k (take_agent_id qo) (scanned r)) r))"
    "wf_db d'" "evs = [ev]" "db_events d' = db_events d @ [event_columns ev j]"
    "ev = claimed_event e k (take_agent_id qo) (claimed_agent e k (take_agent_id qo) (scanned r))"
proof -
  obtain wh nf where b: "buildSQLiteWhereClauses qo True (UnixMilli (clock e 0)) = (wh, nf)" by force
  let ?rows = "if nf then select_where wh d else take 1 (select_where wh d)"
  have sub: "set ?rows \<subseteq> set (db_agents d)" by (auto simp: select_where_def dest: in_set_takeD)
  have t: "take_rows e qo (take_agent_id qo) nf (UnixMilli (clock e 0)) d 0 ?rows = Inr (TxCommit x d' evs)"
    using assms(2) b by (auto simp: take_tx_def Let_def split: if_splits)
  from take_rows_effect[OF assms(1) sub t] obtain k r ev j where
    r: "find (takeable nf qo (UnixMilli (clock e 0))) ?rows = Some r" and rest:
    "x = Some (claimed_agent e k (take_agent_id qo) (scanned r))"
    "view_db d' = (view_db d)(r_id r \<mapsto> cell_of (claim_row (claimed_agent e k (take_agent_id qo) (scanned r)) r))"
    "wf_db d'" "evs = [ev]" "db_events d' = db_events d @ [event_columns ev j]"
    "ev = claimed_event e k (take_agent_id qo) (claimed_agent e k (take_agent_id qo) (scanned r))" by auto
  have "r \<in> set ?rows" "takeable nf qo (UnixMilli (clock e 0)) r" using find_SomeD[OF r] by auto
  then show ?thesis using that[of r k ev j] sub rest unfolding takeable_def by blast
qed

subsection \<open>CompleteAndOut and the reaper\<close>

definition completions :: "db \<Rightarrow> string \<Rightarrow> nat" where
  "completions d i = length (filter (\<lambda>r. er_tuple_id r = i \<and> er_type r = EventCompleted) (db_events d))"

lemma completions_append:
  "db_events d' = db_events d @ [event_columns ev j] \<Longrightarrow>
     completions d' i = completions d i + (if e_TupleID ev = i \<and> e_Type ev = EventCompleted then 1 else 0)"
  by (simp add: completions_def event_columns_def)

definition out_label :: "agent \<Rightarrow> label" where
  "out_label t = LOut (a_ID t) (agent_cell t)"

lemma create_outputs_effect:
  assumes "wf_db d" "create_outputs e ag parent i outs d = Inr (outs', evs, d')"
  shows "wf_db d' \<and> steps (view_db d) (map out_label outs') (view_db d') \<and> completions d' k = completions d k \<and>
    length outs' = length outs \<and>
    (distinct (map a_ID outs') \<longrightarrow> (\<forall>t \<in> set outs'. view_db d (a_ID t) = None) \<longrightarrow>
      protocol (view_db d) (map out_label outs') (view_db d'))"
  using assms
proof (induction e ag parent i outs d arbitrary: outs' evs rule: create_outputs.induct)
  case (1 e ag parent i d)
  then show ?case by (auto intro: steps_Nil)
next
  case (2 e ag parent i out outs d)
  let ?o = "defaults_output e i parent out"
  obtain o1 d1 where u: "upsertSQLiteAgent e (CWrite i) d ?o = Inr (o1, d1)"
    using "2.prems"(2) by (auto simp: Let_def split: sum.splits)
  let ?ev = "created_event e i ag o1 [(''parent_id'', EVal (VStr (a_ID parent)))]"
  obtain d2 where ins: "insertSQLiteEvent e (CInsertEvent i) d1 ?ev = Inr d2"
    using "2.prems"(2) u by (auto simp: Let_def split: sum.splits)
  obtain os evs1 where rest: "create_outputs e ag parent (Suc i) outs d2 = Inr (os, evs1, d')" "outs' = o1 # os"
    using "2.prems"(2) u ins by (auto simp: Let_def bindr_eq_Inr)
  have wf: "wf_db d2" using wf_insert_event[OF wf_upsert[OF "2.prems"(1) u] ins] .
  have IH: "wf_db d' \<and> steps (view_db d2) (map out_label os) (view_db d') \<and> completions d' k = completions d2 k \<and>
      length os = length outs \<and>
      (distinct (map a_ID os) \<longrightarrow> (\<forall>t \<in> set os. view_db d2 (a_ID t) = None) \<longrightarrow>
        protocol (view_db d2) (map out_label os) (view_db d'))"
    using "2.IH" u ins wf rest(1) by blast
  have v2: "view_db d2 = (view_db d)(a_ID o1 \<mapsto> agent_cell o1)"
    using view_upsert[OF u] view_insert_event(1)[OF ins] by simp
  have st: "step (view_db d) (out_label o1) (view_db d2)" unfolding v2 out_label_def by (rule step.Out)
  have c: "completions d2 k = completions d k"
    using view_insert_event(2)[OF ins] view_upsert(2)[OF u] completions_append[of d2 d ?ev _ k]
    by (auto simp: created_event_def)
  have pr: "protocol (view_db d) (map out_label outs') (view_db d')"
    if "distinct (map a_ID outs')" "\<forall>t \<in> set outs'. view_db d (a_ID t) = None"
  proof -
    have "protocol (view_db d2) (map out_label os) (view_db d')" using IH that rest(2) v2 by (auto simp: image_iff)
    then show ?thesis using st that rest(2) by (auto simp: out_label_def)
  qed
  show ?case using IH st c rest(2) pr by (auto intro: steps_Cons)
qed

lemma complete_and_out_tx_split:
  assumes "complete_and_out_tx e i ag tok res outs d = Inr (TxCommit (t, outs') d' evs)"
  shows "\<exists>d1 evs1. complete_tx e i ag tok res d = Inr (TxCommit t d1 evs1) \<and>
      (evs1 = [] \<and> outs' = [] \<and> d' = d1 \<and> evs = [] \<or>
       (\<exists>evs2. evs1 \<noteq> [] \<and> create_outputs e ag t 1 outs d1 = Inr (outs', evs2, d') \<and> evs = evs1 @ evs2))"
proof -
  obtain t0 where t0: "fetch e d i (UnixMilli (clock e 0)) = Inr t0"
    using assms by (auto simp: complete_and_out_tx_def bindr_eq_Inr)
  show ?thesis
  proof (cases "a_Status t0 = StatusCompleted")
    case True
    then show ?thesis using assms t0 by (auto simp: complete_and_out_tx_def complete_tx_def split: if_splits)
  next
    case False
    then have g: "lease_guard ''complete'' ag tok t0 = None"
      using assms t0 by (auto simp: complete_and_out_tx_def split: option.splits)
    show ?thesis
      using assms t0 False g by (auto simp: complete_and_out_tx_def complete_tx_def Let_def bindr_eq_Inr)
  qed
qed

fun reap_labels :: "env \<Rightarrow> int \<Rightarrow> nat \<Rightarrow> agent_row list \<Rightarrow> label list" where
  "reap_labels e nowMs i [] = []"
| "reap_labels e nowMs i (r # rs) =
    (if fault e (CExec i) then reap_labels e nowMs (Suc i) rs else LReap (r_id r) nowMs # reap_labels e nowMs (Suc i) rs)"

lemma reap_one:
  assumes "wf_db d" "r \<in> set (db_agents d)" "lease_lapsed nowMs r"
    and d1: "d1 = d \<lparr> db_agents := map (\<lambda>x. if r_id x = r_id r then reap_row nowMs x else x) (db_agents d) \<rparr>"
  shows "wf_db d1" "step (view_db d) (LReap (r_id r) nowMs) (view_db d1)"
    "\<And>x. x \<in> set (db_agents d) \<Longrightarrow> r_id x \<noteq> r_id r \<Longrightarrow> x \<in> set (db_agents d1)"
proof -
  show "wf_db d1" unfolding d1 by (rule wf_map_rows) (use assms(1) in \<open>auto simp: reap_row_def wf_row_def\<close>)
  show "\<And>x. x \<in> set (db_agents d) \<Longrightarrow> r_id x \<noteq> r_id r \<Longrightarrow> x \<in> set (db_agents d1)" unfolding d1 by force
  have ro: "row_of d (r_id r) = Some r" using assms(1,2) by (simp add: row_of_iff)
  obtain u where u: "r_status r = StatusInProgress" "r_lease_until_ms r = Some u" "u < nowMs"
    using assms(3) by (auto simp: lease_lapsed_def split: option.splits)
  have "view_db d1 = (view_db d)(r_id r \<mapsto> (freed StatusNew (cell_of r)) \<lparr> c_version := c_version (cell_of r) + 1 \<rparr>)"
  proof
    fix k
    have "row_of d1 k = map_option (\<lambda>x. if r_id x = r_id r then reap_row nowMs x else x) (row_of d k)"
      unfolding d1 by (rule row_of_map) (simp add: reap_row_def)
    then show "view_db d1 k = ((view_db d)(r_id r \<mapsto> (freed StatusNew (cell_of r))
        \<lparr> c_version := c_version (cell_of r) + 1 \<rparr>)) k"
      using ro by (cases "row_of d k") (auto simp: view_db_def reap_row_def cell_of_def freed_def dest: row_of_id)
  qed
  then show "step (view_db d) (LReap (r_id r) nowMs) (view_db d1)"
    using step.Reap[of "view_db d" "r_id r" "cell_of r" u nowMs] ro u by (simp add: view_db_def cell_of_def)
qed

lemma reap_loop_effect:
  assumes "wf_db d" "reap_loop e nowMs i rs d = (d', evs)" "distinct (map r_id rs)" "set rs \<subseteq> set (db_agents d)"
    "\<forall>r \<in> set rs. lease_lapsed nowMs r"
  shows "wf_db d' \<and> protocol (view_db d) (reap_labels e nowMs i rs) (view_db d') \<and> completions d' k = completions d k"
  using assms
proof (induction rs arbitrary: i d evs)
  case Nil
  then show ?case by auto
next
  case (Cons r rs)
  show ?case
  proof (cases "fault e (CExec i)")
    case True
    then show ?thesis using Cons.IH[of d "Suc i" evs] Cons.prems by simp
  next
    case False
    let ?d1 = "d \<lparr> db_agents := map (\<lambda>x. if r_id x = r_id r then reap_row nowMs x else x) (db_agents d) \<rparr>"
    have one: "wf_db ?d1" "step (view_db d) (LReap (r_id r) nowMs) (view_db ?d1)"
      and keep: "\<And>x. x \<in> set (db_agents d) \<Longrightarrow> r_id x \<noteq> r_id r \<Longrightarrow> x \<in> set (db_agents ?d1)"
      using reap_one[OF Cons.prems(1) _ _ refl, of r nowMs] Cons.prems(4,5) by simp_all
    obtain d2 evs2 where d2: "reap_loop e nowMs (Suc i) rs d2 = (d', evs2)" "wf_db d2" "view_db d2 = view_db ?d1"
        "db_agents d2 = db_agents ?d1" "completions d2 k = completions d k"
    proof (cases "insertSQLiteEvent e (CInsertEvent i) ?d1 (reap_event e i r)")
      case (Inl er)
      then show ?thesis using that[of ?d1] Cons.prems(2) False one by (simp add: Let_def completions_def)
    next
      case (Inr d2)
      have c: "completions d2 k = completions d k"
        using view_insert_event(2)[OF Inr] completions_append[of d2 ?d1 "reap_event e i r" _ k]
        by (auto simp: reap_event_def completions_def)
      obtain evs2 where "reap_loop e nowMs (Suc i) rs d2 = (d', evs2)"
        using Cons.prems(2) False Inr by (auto simp: Let_def split: prod.splits)
      then show ?thesis
        using that[of d2 evs2] wf_insert_event[OF one(1) Inr] view_insert_event(1)[OF Inr] c insert_event_agents[OF Inr]
        by simp
    qed
    have "set rs \<subseteq> set (db_agents d2)"
      using keep Cons.prems(3,4) unfolding d2(4) by (auto simp: image_iff)
    then have "wf_db d' \<and> protocol (view_db d2) (reap_labels e nowMs (Suc i) rs) (view_db d') \<and> completions d' k = completions d2 k"
      using Cons.IH[OF d2(2,1)] Cons.prems(3,5) by simp
    then show ?thesis using False one(2) d2(3,5) by auto
  qed
qed

section \<open>Operations as a backend\<close>

datatype sqlite_op =
    OpOut agent
  | OpTake "query option"
  | OpUpdate string "gval gomap option"
  | OpComplete string string string "gval gomap option"
  | OpCompleteAndOut string string string "gval gomap option" "agent list"
  | OpRelease string string string string
  | OpRenew string string string duration
  | OpReap

fun sqlite_exec :: "env \<times> sqlite_op \<Rightarrow> sqlite_store \<Rightarrow> sqlite_store" where
  "sqlite_exec (e, OpOut t) s = snd (SQLiteOut e s t)"
| "sqlite_exec (e, OpTake q) s = snd (SQLiteTake e s q)"
| "sqlite_exec (e, OpUpdate i u) s = snd (SQLiteUpdateAndGet e s i u)"
| "sqlite_exec (e, OpComplete i ag tok res) s = snd (SQLiteCompleteAndGet e s i ag tok res)"
| "sqlite_exec (e, OpCompleteAndOut i ag tok res outs) s = snd (SQLiteCompleteAndOut e s i ag tok res outs)"
| "sqlite_exec (e, OpRelease i ag tok reason) s = snd (SQLiteReleaseAndGet e s i ag tok reason)"
| "sqlite_exec (e, OpRenew i ag tok dur) s = snd (SQLiteRenewLease e s i ag tok dur)"
| "sqlite_exec (e, OpReap) s = reapExpiredLeases e s"

definition is_completed :: "db \<Rightarrow> string \<Rightarrow> bool" where
  "is_completed d i = (case row_of d i of None \<Rightarrow> False | Some r \<Rightarrow> r_status r = StatusCompleted)"

text \<open>The steps an operation took, read off its result: none on an error, none for a repeated completion.\<close>

fun sqlite_labels :: "env \<times> sqlite_op \<Rightarrow> sqlite_store \<Rightarrow> label list" where
  "sqlite_labels (e, OpOut t) s = (case fst (SQLiteOut e s t) of Inl _ \<Rightarrow> [] | Inr t' \<Rightarrow> [out_label t'])"
| "sqlite_labels (e, OpTake q) s = (case fst (SQLiteTake e s q) of
     Inr (Some t) \<Rightarrow> [LTake (a_ID t) (a_Owner t) (a_LeaseToken t) (time_null (a_LeaseUntil t))] | _ \<Rightarrow> [])"
| "sqlite_labels (e, OpUpdate i u) s = (case (u, fst (SQLiteUpdateAndGet e s i u)) of
     (Some _, Inr t) \<Rightarrow> [LUpdate i (agent_cell t)] | _ \<Rightarrow> [])"
| "sqlite_labels (e, OpComplete i ag tok res) s = (case fst (SQLiteCompleteAndGet e s i ag tok res) of
     Inl _ \<Rightarrow> [] | Inr _ \<Rightarrow> if is_completed (s_db s) i then [] else [LComplete i ag tok])"
| "sqlite_labels (e, OpCompleteAndOut i ag tok res outs) s = (case fst (SQLiteCompleteAndOut e s i ag tok res outs) of
     Inl _ \<Rightarrow> [] | Inr (t, outs') \<Rightarrow>
       if is_completed (s_db s) i then [] else LComplete i ag tok # map out_label outs')"
| "sqlite_labels (e, OpRelease i ag tok reason) s = (case fst (SQLiteReleaseAndGet e s i ag tok reason) of
     Inl _ \<Rightarrow> [] | Inr _ \<Rightarrow> [LRelease i ag tok])"
| "sqlite_labels (e, OpRenew i ag tok dur) s = (case fst (SQLiteRenewLease e s i ag tok dur) of
     Inl _ \<Rightarrow> [] | Inr t \<Rightarrow> [LRenew i ag tok (time_null (a_LeaseUntil t))])"
| "sqlite_labels (e, OpReap) s =
    (let nowMs = UnixMilli (clock e 0) in
     if fault e CBegin \<or> fault e CSelect \<or> fault e CScanRows \<or> fault e CCommit then []
     else reap_labels e nowMs 0 (filter (lease_lapsed nowMs) (db_agents (s_db s))))"

text \<open>The operations that keep to the lease protocol: Out and the outputs of CompleteAndOut under fresh
  ids, updates that are lease safe, and all others always.\<close>

fun sqlite_proper :: "env \<times> sqlite_op \<Rightarrow> sqlite_store \<Rightarrow> bool" where
  "sqlite_proper (e, OpOut t) s = (case fst (SQLiteOut e s t) of Inl _ \<Rightarrow> True | Inr t' \<Rightarrow> row_of (s_db s) (a_ID t') = None)"
| "sqlite_proper (e, OpUpdate i u) s = (case u of None \<Rightarrow> True | Some m \<Rightarrow> lease_safe_update m)"
| "sqlite_proper (e, OpCompleteAndOut i ag tok res outs) s = (case fst (SQLiteCompleteAndOut e s i ag tok res outs) of
     Inl _ \<Rightarrow> True
   | Inr (t, outs') \<Rightarrow> distinct (map a_ID outs') \<and> list_all (\<lambda>t. row_of (s_db s) (a_ID t) = None) outs')"
| "sqlite_proper (e, _) s = True"

definition sound :: "db \<Rightarrow> label list \<Rightarrow> bool \<Rightarrow> db \<Rightarrow> bool" where
  "sound d ls ok d' \<longleftrightarrow> wf_db d' \<and> steps (view_db d) ls (view_db d') \<and>
     (ok \<longrightarrow> protocol (view_db d) ls (view_db d')) \<and>
     (\<forall>k. completions d' k = completions d k + length (filter (is_complete k) ls))"

lemma sound_refl [simp]: "wf_db d \<Longrightarrow> sound d [] ok d"
  by (simp add: sound_def steps_Nil)

lemma sound_step:
  assumes "wf_db d'" "step (view_db d) l (view_db d')" "ok \<Longrightarrow> protocol_step (view_db d) l"
    "\<And>k. completions d' k = completions d k + (if is_complete k l then 1 else 0)"
  shows "sound d [l] ok d'"
  using assms by (auto simp: sound_def intro: steps_single)

lemma with_tx_cases:
  obtains er where "with_tx e s body = (Inl er, s)"
  | x where "body (s_db s) = Inr (TxRollback x)" "with_tx e s body = (Inr x, s)"
  | x d evs s' where "body (s_db s) = Inr (TxCommit x d evs)" "with_tx e s body = (Inr x, s')" "s_db s' = d"
proof (cases "with_tx e s body")
  case (Pair r s')
  then show ?thesis
  proof (cases r)
    case (Inl er)
    then show ?thesis using that(1) Pair with_tx_Inl[of e s body er s'] by simp
  next
    case (Inr x)
    then show ?thesis using that(2,3) Pair with_tx_InrD[of e s body x s'] by blast
  qed
qed

lemma out_sound:
  assumes "wf_db (s_db s)"
  shows "sound (s_db s) (sqlite_labels (e, OpOut t) s) (sqlite_proper (e, OpOut t) s) (s_db (sqlite_exec (e, OpOut t) s))"
proof (cases rule: with_tx_cases[of e s "out_tx e t"])
  case (3 t' d evs s')
  note eff = out_tx_effect[OF assms 3(1)]
  have "sound (s_db s) [out_label t'] (row_of (s_db s) (a_ID t') = None) d"
  proof (rule sound_step)
    show "step (view_db (s_db s)) (out_label t') (view_db d)" unfolding out_label_def eff(2) by (rule step.Out)
    show "completions d k = completions (s_db s) k + (if is_complete k (out_label t') then 1 else 0)" for k
      using eff(3) completions_append[of d "s_db s" _ _ k] by (auto simp: is_complete_def out_label_def)
  qed (use eff in \<open>auto simp: out_label_def view_db_def\<close>)
  then show ?thesis using 3 by (simp add: SQLiteOut_def)
next
  case (2 x)
  then show ?thesis by (auto simp: out_tx_def Let_def bindr_eq_Inr)
qed (use assms in \<open>simp add: SQLiteOut_def\<close>)

lemma take_sound:
  assumes "wf_db (s_db s)"
  shows "sound (s_db s) (sqlite_labels (e, OpTake q) s) (sqlite_proper (e, OpTake q) s) (s_db (sqlite_exec (e, OpTake q) s))"
proof (cases "fst (SQLiteTake e s q) = Inr None \<and> snd (SQLiteTake e s q) = s")
  case True
  then show ?thesis using assms by simp
next
  case False
  then have tk: "SQLiteTake e s q = with_tx e s (take_tx e q)" by (auto simp: SQLiteTake_def split: if_splits option.splits)
  show ?thesis
  proof (cases rule: with_tx_cases[of e s "take_tx e q"])
    case (3 x d evs s')
    obtain k r ev j where eff: "r \<in> set (db_agents (s_db s))" "r_status r = StatusNew"
      "x = Some (claimed_agent e k (take_agent_id q) (scanned r))"
      "view_db d = (view_db (s_db s))(r_id r \<mapsto> cell_of (claim_row (claimed_agent e k (take_agent_id q) (scanned r)) r))"
      "wf_db d" "db_events d = db_events (s_db s) @ [event_columns ev j]"
      "ev = claimed_event e k (take_agent_id q) (claimed_agent e k (take_agent_id q) (scanned r))"
      using take_tx_effect[OF assms 3(1)] by metis
    have "wf_row r" using assms eff(1) by (auto simp: wf_db_def list_all_iff)
    note sc = scanned_wf[OF this]
    let ?t = "claimed_agent e k (take_agent_id q) (scanned r)"
    let ?l = "LTake (r_id r) (take_agent_id q) (uuid e (2 * k)) (time_null (a_LeaseUntil ?t))"
    have "sound (s_db s) [?l] True d"
    proof (rule sound_step)
      have ro: "view_db (s_db s) (r_id r) = Some (cell_of r)" using row_of_iff[OF assms, of "r_id r" r] eff(1) by (simp add: view_db_def)
      show "step (view_db (s_db s)) ?l (view_db d)"
        unfolding eff(4) claimed_cell[OF sc] using step.Take[of "view_db (s_db s)" "r_id r" "cell_of r"] ro eff(2) by (simp add: cell_of_def)
      show "completions d k' = completions (s_db s) k' + (if is_complete k' ?l then 1 else 0)" for k'
        using completions_append[OF eff(6)] by (simp add: is_complete_def eff(7) claimed_event_def)
    qed (use eff in simp_all)
    moreover have "a_ID ?t = r_id r" "a_Owner ?t = take_agent_id q" "a_LeaseToken ?t = uuid e (2 * k)"
      using scan_fields(1)[OF sc] by (simp_all add: claimed_agent_def Let_def)
    ultimately show ?thesis using 3 tk eff(3) by simp
  next
    case (2 x)
    then show ?thesis using take_tx_rollback[of e q "s_db s" x] tk assms by simp
  qed (use assms tk in simp)
qed

lemma update_sound:
  assumes "wf_db (s_db s)"
  shows "sound (s_db s) (sqlite_labels (e, OpUpdate i u) s) (sqlite_proper (e, OpUpdate i u) s) (s_db (sqlite_exec (e, OpUpdate i u) s))"
proof (cases u)
  case None
  then show ?thesis using assms by (simp add: SQLiteUpdateAndGet_def)
next
  case (Some m)
  have ug: "SQLiteUpdateAndGet e s i u = with_tx e s (update_tx e i m)" using Some by (simp add: SQLiteUpdateAndGet_def)
  show ?thesis
  proof (cases rule: with_tx_cases[of e s "update_tx e i m"])
    case (3 t d evs s')
    obtain r t0 ev j where eff: "row_of (s_db s) i = Some r" "scanSQLiteAgent r = Inr t0"
      "wf_db d" "view_db d = (view_db (s_db s))(i \<mapsto> agent_cell t)"
      "t = sync_namespace ((ApplyUpdates t0 (Some m)) \<lparr> a_UpdatedAt := clock e 1, a_Version := to_int64 (r_version r + 1) \<rparr>)"
      "db_events d = db_events (s_db s) @ [event_columns ev j]" "e_TupleID ev = i" "e_Type ev = EventUpdated"
      using update_tx_effect[OF assms 3(1)] by metis
    have v: "view_db (s_db s) i = Some (cell_of r)" using eff(1) by (simp add: view_db_def)
    have "agent_cell t = agent_cell ((ApplyUpdates t0 (Some m))
        \<lparr> a_UpdatedAt := clock e 1, a_Version := to_int64 (r_version r + 1) \<rparr>)" unfolding eff(5) by simp
    then have cell: "c_version (agent_cell t) = to_int64 (c_version (cell_of r) + 1)"
      "lease_safe_update m \<Longrightarrow> protocol_step (view_db (s_db s)) (LUpdate i (agent_cell t))"
      using v scan_fields[OF eff(2)] lease_safe_cell[of m t0] by (simp_all add: agent_cell_def cell_of_def)
    have "sound (s_db s) [LUpdate i (agent_cell t)] (lease_safe_update m) d"
    proof (rule sound_step)
      show "step (view_db (s_db s)) (LUpdate i (agent_cell t)) (view_db d)"
        unfolding eff(4) using step.Update[of "view_db (s_db s)" i "cell_of r"] v cell(1) by blast
      show "completions d k = completions (s_db s) k + (if is_complete k (LUpdate i (agent_cell t)) then 1 else 0)" for k
        using completions_append[OF eff(6)] eff(8) by (simp add: is_complete_def)
    qed (use eff cell in simp_all)
    then show ?thesis using 3 ug Some by simp
  next
    case (2 x)
    then show ?thesis by (auto simp: update_tx_def Let_def bindr_eq_Inr)
  qed (use assms ug Some in simp)
qed

lemma complete_tx_sound:
  assumes "wf_db d" "complete_tx e i ag tok res d = Inr (TxCommit t d' evs)" "ag \<noteq> []" "tok \<noteq> []"
  shows "sound d (if is_completed d i then [] else [LComplete i ag tok]) True d'" "is_completed d i \<longleftrightarrow> evs = []"
proof -
  have "sound d (if is_completed d i then [] else [LComplete i ag tok]) True d' \<and> (is_completed d i \<longleftrightarrow> evs = [])"
  proof (cases rule: complete_tx_effect[OF assms(1,2,4)])
    case (1 r)
    then show ?thesis using assms(1) by (simp add: is_completed_def)
  next
    case (2 r t0 ev j)
    have v: "view_db d i = Some (cell_of r)" using 2(1) by (simp add: view_db_def)
    have nc: "\<not> is_completed d i" using 2(1,4) by (simp add: is_completed_def held_by_def cell_of_def)
    have "a_ID t0 = i" using scan_fields(1)[OF 2(3)] row_of_id[OF 2(1)] by simp
    then have ev: "e_TupleID ev = i" "e_Type ev = EventCompleted" using 2(5,10) by (simp_all add: completed_event_def)
    have "sound d [LComplete i ag tok] True d'"
    proof (rule sound_step)
      show "step (view_db d) (LComplete i ag tok) (view_db d')"
        unfolding 2(6) using step.Complete[of "view_db d" i "cell_of r"] v assms(3,4) 2(4) by (simp add: cell_of_def)
      show "completions d' k = completions d k + (if is_complete k (LComplete i ag tok) then 1 else 0)" for k
        using completions_append[OF 2(9)] ev by (simp add: is_complete_def)
    qed (use 2 in simp_all)
    then show ?thesis using nc 2(8) by simp
  qed
  then show "sound d (if is_completed d i then [] else [LComplete i ag tok]) True d'" "is_completed d i \<longleftrightarrow> evs = []"
    by blast+
qed

lemma complete_tx_commits: "complete_tx e i ag tok res d \<noteq> Inr (TxRollback x)"
  by (auto simp: complete_tx_def Let_def bindr_eq_Inr split: if_splits option.splits)

lemma complete_sound:
  assumes "wf_db (s_db s)"
  shows "sound (s_db s) (sqlite_labels (e, OpComplete i ag tok res) s) True (s_db (sqlite_exec (e, OpComplete i ag tok res) s))"
proof (cases "ag = [] \<or> tok = []")
  case True
  then show ?thesis using assms by (auto simp: SQLiteCompleteAndGet_def)
next
  case False
  then have c: "SQLiteCompleteAndGet e s i ag tok res = with_tx e s (complete_tx e i ag tok res)"
    by (simp add: SQLiteCompleteAndGet_def)
  show ?thesis
  proof (cases rule: with_tx_cases[of e s "complete_tx e i ag tok res"])
    case (3 t d evs s')
    then show ?thesis using c complete_tx_sound(1)[OF assms 3(1)] False by simp
  qed (use assms c complete_tx_commits in simp_all)
qed

text \<open>A completion that reports success for a completed agent leaves the tables alone.\<close>

lemma complete_again_unchanged:
  assumes "wf_db (s_db s)" "is_completed (s_db s) i"
  shows "s_db (snd (SQLiteCompleteAndGet e s i ag tok res)) = s_db s"
proof (cases "ag = [] \<or> tok = []")
  case False
  then have c: "SQLiteCompleteAndGet e s i ag tok res = with_tx e s (complete_tx e i ag tok res)"
    by (simp add: SQLiteCompleteAndGet_def)
  show ?thesis
  proof (cases rule: with_tx_cases[of e s "complete_tx e i ag tok res"])
    case (3 t d evs s')
    have tok: "tok \<noteq> []" using False by simp
    show ?thesis
      by (rule complete_tx_effect[OF assms(1) 3(1) tok])
         (use 3 c assms(2) in \<open>auto simp: is_completed_def held_by_def cell_of_def\<close>)
  qed (use c in simp_all)
qed (auto simp: SQLiteCompleteAndGet_def)

lemma sound_append:
  assumes "sound d ls ok d1" "sound d1 ls' ok d2"
  shows "sound d (ls @ ls') ok d2"
  using assms by (auto simp: sound_def protocol_append intro: steps_append)

lemma outputs_sound:
  assumes "wf_db d" "create_outputs e ag parent n outs d = Inr (outs', evs, d')"
  shows "sound d (map out_label outs') (distinct (map a_ID outs') \<and> (\<forall>t \<in> set outs'. row_of d (a_ID t) = None)) d'"
proof -
  have "filter (is_complete k) (map out_label outs') = []" for k
    by (auto simp: filter_empty_conv is_complete_def out_label_def)
  then show ?thesis using create_outputs_effect[OF assms] by (auto simp: sound_def view_db_def)
qed

lemma complete_and_out_sound:
  assumes "wf_db (s_db s)"
  shows "sound (s_db s) (sqlite_labels (e, OpCompleteAndOut i ag tok res outs) s)
    (sqlite_proper (e, OpCompleteAndOut i ag tok res outs) s) (s_db (sqlite_exec (e, OpCompleteAndOut i ag tok res outs) s))"
proof (cases "ag = [] \<or> tok = []")
  case True
  then show ?thesis using assms by (auto simp: SQLiteCompleteAndOut_def)
next
  case False
  then have c: "SQLiteCompleteAndOut e s i ag tok res outs = with_tx e s (complete_and_out_tx e i ag tok res outs)"
    by (simp add: SQLiteCompleteAndOut_def)
  show ?thesis
  proof (cases rule: with_tx_cases[of e s "complete_and_out_tx e i ag tok res outs"])
    case (3 x d evs s')
    obtain t outs' where x: "x = (t, outs')" by force
    obtain d1 evs1 where c1: "complete_tx e i ag tok res (s_db s) = Inr (TxCommit t d1 evs1)"
      and alt: "evs1 = [] \<and> outs' = [] \<and> d = d1 \<or>
        (\<exists>evs2. evs1 \<noteq> [] \<and> create_outputs e ag t 1 outs d1 = Inr (outs', evs2, d))"
      using complete_and_out_tx_split[OF 3(1)[unfolded x]] by blast
    note cs = complete_tx_sound[OF assms c1] False
    show ?thesis
    proof (cases "is_completed (s_db s) i")
      case True
      then show ?thesis using 3 c x cs alt by auto
    next
      case nc: False
      then obtain evs2 where co: "create_outputs e ag t 1 outs d1 = Inr (outs', evs2, d)"
        and s1: "sound (s_db s) [LComplete i ag tok] True d1" using cs alt by auto
      let ?ok = "distinct (map a_ID outs') \<and> (\<forall>t \<in> set outs'. row_of (s_db s) (a_ID t) = None)"
      have wf1: "wf_db d1" using s1 by (simp add: sound_def)
      have new: "row_of d1 k = None \<longleftrightarrow> row_of (s_db s) k = None" for k
      proof -
        have "step (view_db (s_db s)) (LComplete i ag tok) (view_db d1)"
          using s1 by (auto simp: sound_def elim!: steps_ConsE steps_NilE)
        then have "view_db d1 k = None \<longleftrightarrow> view_db (s_db s) k = None"
          by (rule step_CompleteE) auto
        then show ?thesis by (simp add: view_db_def)
      qed
      have "sound d1 (map out_label outs') ?ok d" using outputs_sound[OF wf1 co] new by simp
      moreover have "sound (s_db s) [LComplete i ag tok] ?ok d1" using s1 by (auto simp: sound_def)
      ultimately have "sound (s_db s) ([LComplete i ag tok] @ map out_label outs') ?ok d" by (rule sound_append[rotated])
      then show ?thesis using 3 c x nc by (simp add: list_all_iff)
    qed
  next
    case (2 x)
    then show ?thesis
      by (auto simp: complete_and_out_tx_def Let_def bindr_eq_Inr split: if_splits option.splits)
  qed (use assms c in simp_all)
qed

lemma release_sound:
  assumes "wf_db (s_db s)"
  shows "sound (s_db s) (sqlite_labels (e, OpRelease i ag tok reason) s) True (s_db (sqlite_exec (e, OpRelease i ag tok reason) s))"
proof (cases "ag = [] \<or> tok = []")
  case True
  then show ?thesis using assms by (auto simp: SQLiteReleaseAndGet_def)
next
  case False
  then have c: "SQLiteReleaseAndGet e s i ag tok reason = with_tx e s (release_tx e i ag tok reason)"
    by (simp add: SQLiteReleaseAndGet_def)
  show ?thesis
  proof (cases rule: with_tx_cases[of e s "release_tx e i ag tok reason"])
    case (3 t d evs s')
    have "sound (s_db s) [LRelease i ag tok] True d"
    proof (rule release_tx_effect[OF assms 3(1)])
      fix r ev j
      assume r: "row_of (s_db s) i = Some r" "held_by ag tok (cell_of r)" "wf_db d"
        "view_db d = (view_db (s_db s))(i \<mapsto> (freed StatusNew (cell_of r)) \<lparr> c_version := to_int64 (r_version r + 1) \<rparr>)"
        "db_events d = db_events (s_db s) @ [event_columns ev j]" "e_Type ev = EventReleased"
      show ?thesis
      proof (rule sound_step)
        show "step (view_db (s_db s)) (LRelease i ag tok) (view_db d)"
          unfolding r(4) using step.Release[of "view_db (s_db s)" i "cell_of r" ag tok] r(1,2) False
          by (simp add: view_db_def cell_of_def)
        show "completions d k = completions (s_db s) k + (if is_complete k (LRelease i ag tok) then 1 else 0)" for k
          using completions_append[OF r(5)] r(6) by (simp add: is_complete_def)
      qed (use r in simp_all)
    qed
    then show ?thesis using 3 c by simp
  next
    case (2 x)
    then show ?thesis by (auto simp: release_tx_def Let_def bindr_eq_Inr split: option.splits)
  qed (use assms c in simp_all)
qed

lemma renew_sound:
  assumes "wf_db (s_db s)"
  shows "sound (s_db s) (sqlite_labels (e, OpRenew i ag tok dur) s) True (s_db (sqlite_exec (e, OpRenew i ag tok dur) s))"
proof (cases "ag = [] \<or> tok = []")
  case True
  then show ?thesis using assms by (auto simp: SQLiteRenewLease_def)
next
  case False
  then have c: "SQLiteRenewLease e s i ag tok dur = with_tx e s (renew_tx e i ag tok dur)"
    by (simp add: SQLiteRenewLease_def)
  show ?thesis
  proof (cases rule: with_tx_cases[of e s "renew_tx e i ag tok dur"])
    case (3 t d evs s')
    let ?l = "LRenew i ag tok (time_null (a_LeaseUntil t))"
    have "sound (s_db s) [?l] True d"
    proof (rule renew_tx_effect[OF assms 3(1)])
      fix r
      assume r: "row_of (s_db s) i = Some r" "held_by ag tok (cell_of r)" "wf_db d"
        "view_db d = (view_db (s_db s))(i \<mapsto> cell_of r \<lparr> c_until := time_null (a_LeaseUntil t) \<rparr>)"
        "db_events d = db_events (s_db s)"
      show ?thesis
      proof (rule sound_step)
        show "step (view_db (s_db s)) ?l (view_db d)"
          unfolding r(4) using step.Renew[of "view_db (s_db s)" i "cell_of r" ag tok] r(1,2) False
          by (simp add: view_db_def)
        show "completions d k = completions (s_db s) k + (if is_complete k ?l then 1 else 0)" for k
          using r(5) by (simp add: is_complete_def completions_def)
      qed (use r in simp_all)
    qed
    then show ?thesis using 3 c by simp
  next
    case (2 x)
    then show ?thesis by (auto simp: renew_tx_def Let_def bindr_eq_Inr split: option.splits)
  qed (use assms c in simp_all)
qed

lemma reap_labels_not_complete: "filter (is_complete k) (reap_labels e nowMs n rs) = []"
  by (induction rs arbitrary: n) (auto simp: is_complete_def)

lemma reap_sound:
  assumes "wf_db (s_db s)"
  shows "sound (s_db s) (sqlite_labels (e, OpReap) s) True (s_db (sqlite_exec (e, OpReap) s))"
proof -
  let ?now = "UnixMilli (clock e 0)"
  let ?rs = "filter (lease_lapsed ?now) (db_agents (s_db s))"
  obtain d evs where r: "reap_loop e ?now 0 ?rs (s_db s) = (d, evs)" by force
  have dis: "distinct (map r_id ?rs)" using assms by (simp add: wf_db_def distinct_map_filter)
  have eff: "wf_db d \<and> protocol (view_db (s_db s)) (reap_labels e ?now 0 ?rs) (view_db d) \<and>
      completions d k = completions (s_db s) k" for k
    by (rule reap_loop_effect[OF assms r dis]) auto
  then have "sound (s_db s) (reap_labels e ?now 0 ?rs) True d"
    by (auto simp: sound_def reap_labels_not_complete intro: protocol_steps)
  moreover have "s_db (fold (\<lambda>ev s. notifySubscribers s ev) evs s) = s_db s" by simp
  ultimately show ?thesis
    using assms r by (cases "?rs = []") (auto simp: reapExpiredLeases_def Let_def)
qed

lemmas op_sound = out_sound take_sound update_sound complete_sound complete_and_out_sound release_sound
  renew_sound reap_sound

definition good_store :: "sqlite_store \<Rightarrow> bool" where
  "good_store s \<longleftrightarrow> wf_db (s_db s)"

lemma sqlite_op_sound:
  assumes "good_store s"
  shows "sound (s_db s) (sqlite_labels op s) (sqlite_proper op s) (s_db (sqlite_exec op s))"
proof (cases op)
  case (Pair e o1)
  then show ?thesis
    using op_sound[of s] assms unfolding good_store_def by (cases o1) (simp_all del: sqlite_exec.simps sqlite_labels.simps)
qed

interpretation sqlite: lease_backend "\<lambda>s. view_db (s_db s)" good_store sqlite_exec sqlite_labels sqlite_proper
proof unfold_locales
  fix s op assume g: "good_store s"
  note so = sqlite_op_sound[OF g, of op]
  show "good_store (sqlite_exec op s)" using so by (simp add: sound_def good_store_def)
  show "steps (view_db (s_db s)) (sqlite_labels op s) (view_db (s_db (sqlite_exec op s)))" using so by (simp add: sound_def)
  assume "sqlite_proper op s"
  then show "protocol (view_db (s_db s)) (sqlite_labels op s) (view_db (s_db (sqlite_exec op s)))"
    using so by (simp add: sound_def)
qed

lemma run_completions:
  "good_store s \<Longrightarrow> completions (s_db (run_ops sqlite_exec ops s)) i =
     completions (s_db s) i + length (filter (is_complete i) (trace_ops sqlite_exec sqlite_labels ops s))"
proof (induction ops arbitrary: s)
  case (Cons op ops)
  then show ?case
    using sqlite_op_sound[OF Cons.prems, of op] sqlite.good_exec[OF Cons.prems, of op] by (simp add: sound_def)
qed simp

end
