(* ===== verification/Sqlite_Leases.thy ===== *)
theory Sqlite_Leases
  imports Sqlite_Refine
begin

text \<open>
  The lease properties of the SQLite store: refinement of the contract, completion at most once, fencing of
  replaced tokens, operations that fail without effect, and what Take claims.  The example environment,
  store and run at the start feed the witnesses.
\<close>

section \<open>A run for the examples\<close>

definition demo_env :: env where
  "demo_env = \<lparr> clock = (\<lambda>_. 5000000000), uuid = (\<lambda>n. replicate (Suc n) (CHR ''u'')), fault = (\<lambda>_. False) \<rparr>"

text \<open>An environment with other identifiers, a later clock and a chosen fault.\<close>

definition later_env :: "char \<Rightarrow> gotime \<Rightarrow> (db_call \<Rightarrow> bool) \<Rightarrow> env" where
  "later_env c t flt = \<lparr> clock = (\<lambda>_. t), uuid = (\<lambda>n. replicate (Suc n) c), fault = flt \<rparr>"

definition no_fault :: "db_call \<Rightarrow> bool" where
  "no_fault c = False"

definition demo_store :: sqlite_store where
  "demo_store = \<lparr> s_db = demo_db, s_subs = [(''sub'', [1])], s_log = [] \<rparr>"

definition demo_q :: query where
  "demo_q = empty_query \<lparr> q_AgentID := ''w1'' \<rparr>"

text \<open>Claim the oldest agent, complete it, and try to complete it again.\<close>

definition demo_run :: "(env \<times> sqlite_op) list" where
  "demo_run = [(demo_env, OpTake (Some demo_q)),
     (later_env CHR ''v'' 6000000000 no_fault, OpComplete ''a'' ''w1'' ''u'' None),
     (later_env CHR ''w'' 7000000000 no_fault, OpComplete ''a'' ''w1'' ''u'' None)]"

definition demo_claim :: "agent \<times> sqlite_store" where
  "demo_claim = (case SQLiteTake demo_env demo_store (Some demo_q) of
     (Inr (Some t), s1) \<Rightarrow> (t, s1) | (_, s1) \<Rightarrow> (empty_agent, s1))"

lemma good_demo_store: "good_store demo_store"
  using wf_demo_db by (simp add: good_store_def demo_store_def)

section \<open>Refinement, exactly-once completion and fencing\<close>

text \<open>C1: any sequence of operations on the SQLite store is a run of the lease contract: the labels read off
  the results of the operations take the view of the tables from the initial to the final state.\<close>

theorem sqlite_refines_lease_spec:
  assumes "good_store s"
  shows "steps (view_db (s_db s)) (trace_ops sqlite_exec sqlite_labels ops s) (view_db (s_db (run_ops sqlite_exec ops s))) \<and>
         good_store (run_ops sqlite_exec ops s)"
  using sqlite.run_refines[OF assms] sqlite.good_run[OF assms] by blast

theorem sqlite_refines_lease_spec_witness:
  "steps (view_db (s_db demo_store)) (trace_ops sqlite_exec sqlite_labels demo_run demo_store)
     (view_db (s_db (run_ops sqlite_exec demo_run demo_store)))"
  using sqlite_refines_lease_spec[OF good_demo_store, of demo_run] by blast

text \<open>C3: in a run of proper operations an agent is completed at most once, however many workers claim,
  release, renew, complete and retry, and whichever database calls fail: the event table gains at most one
  COMPLETED event for it, and none once the agent was completed.\<close>

theorem sqlite_completes_at_most_once:
  assumes "good_store s" "proper_ops sqlite_exec sqlite_proper ops s"
  shows "completions (s_db (run_ops sqlite_exec ops s)) i \<le> completions (s_db s) i + (if is_completed (s_db s) i then 0 else 1)"
proof (cases "is_completed (s_db s) i")
  case True
  then have "finished i (view_db (s_db s))"
    by (auto simp: finished_def is_completed_def view_db_def cell_of_def split: option.splits)
  then show ?thesis
    using sqlite.run_completed_stays[OF assms] run_completions[OF assms(1)] True by simp
next
  case False
  then show ?thesis
    using sqlite.run_completes_once[OF assms, of i] run_completions[OF assms(1), of ops i] by simp
qed

theorem sqlite_completes_at_most_once_witness:
  "completions (s_db (run_ops sqlite_exec demo_run demo_store)) ''a'' = 1 \<and>
   completions (s_db (run_ops sqlite_exec demo_run demo_store)) ''a'' \<le> completions (s_db demo_store) ''a'' + 1"
proof -
  have "proper_ops sqlite_exec sqlite_proper demo_run demo_store" by (simp add: demo_run_def)
  from sqlite_completes_at_most_once[OF good_demo_store this, of "''a''"]
  have "completions (s_db (run_ops sqlite_exec demo_run demo_store)) ''a'' \<le> completions (s_db demo_store) ''a'' + 1"
    by (auto split: if_splits)
  moreover have "completions (s_db (run_ops sqlite_exec demo_run demo_store)) ''a'' = 1" by code_simp
  ultimately show ?thesis by blast
qed

text \<open>An operation that would have to spend a token the space lacks does not take effect.\<close>

lemma lacking_token_refused:
  assumes "good_store s" "lacks i tok (view_db (s_db s))"
  shows "\<exists>er. SQLiteReleaseAndGet e s i ag tok reason = (Inl er, s)"
    and "\<exists>er. SQLiteRenewLease e s i ag tok dur = (Inl er, s)"
    and "s_db (snd (SQLiteCompleteAndGet e s i ag tok res)) = s_db s"
proof -
  have ns: "\<not> spends i tok l" if "steps (view_db (s_db s)) [l] m" for l m
    using lacks_not_spent[OF _ assms(2)] that by (auto elim!: steps_ConsE steps_NilE)
  have nr: "\<not> steps (view_db (s_db s)) [LRelease i ag tok] m" "\<not> steps (view_db (s_db s)) [LRenew i ag tok u] m"
    "\<not> steps (view_db (s_db s)) [LComplete i ag tok] m" for u m
    using ns[of "LRelease i ag tok" m] ns[of "LRenew i ag tok u" m] ns[of "LComplete i ag tok" m]
    by (auto simp: spends_def)
  note ref = sqlite.refines[OF assms(1)]
  obtain r s' where r: "SQLiteReleaseAndGet e s i ag tok reason = (r, s')" by force
  then show "\<exists>er. SQLiteReleaseAndGet e s i ag tok reason = (Inl er, s)"
    using ref[of "(e, OpRelease i ag tok reason)"] nr(1) sqlite_error_unchanged(6) by (cases r) auto
  obtain r s' where r: "SQLiteRenewLease e s i ag tok dur = (r, s')" by force
  then show "\<exists>er. SQLiteRenewLease e s i ag tok dur = (Inl er, s)"
    using ref[of "(e, OpRenew i ag tok dur)"] nr(2) sqlite_error_unchanged(7) by (cases r) auto
  obtain r s' where r: "SQLiteCompleteAndGet e s i ag tok res = (r, s')" by force
  show "s_db (snd (SQLiteCompleteAndGet e s i ag tok res)) = s_db s"
  proof (cases "is_completed (s_db s) i")
    case True
    then show ?thesis using complete_again_unchanged assms(1) by (simp add: good_store_def)
  next
    case False
    then show ?thesis
      using r ref[of "(e, OpComplete i ag tok res)"] nr(3) by (cases r) (auto dest: sqlite_error_unchanged(4))
  qed
qed

text \<open>C17: a lease token is fenced off by the next claim.  After a Take that issued another token for the
  agent, and any later run of proper operations that does not issue the old token again, the old token can
  neither release nor renew the agent, and completing with it changes nothing.\<close>

theorem sqlite_stale_token_fenced:
  assumes "good_store s" "SQLiteTake e s q = (Inr (Some t), s1)" "tok \<noteq> a_LeaseToken t" "tok \<noteq> []"
    and "proper_ops sqlite_exec sqlite_proper ops s1"
    and "list_all (\<lambda>l. \<not> issues (a_ID t) tok l) (trace_ops sqlite_exec sqlite_labels ops s1)"
  defines "s2 \<equiv> run_ops sqlite_exec ops s1"
  shows "(\<exists>er. SQLiteReleaseAndGet e' s2 (a_ID t) ag tok reason = (Inl er, s2)) \<and>
         (\<exists>er. SQLiteRenewLease e' s2 (a_ID t) ag tok dur = (Inl er, s2)) \<and>
         s_db (snd (SQLiteCompleteAndGet e' s2 (a_ID t) ag tok res)) = s_db s2"
proof -
  have s1: "s1 = sqlite_exec (e, OpTake q) s" "sqlite_labels (e, OpTake q) s =
      [LTake (a_ID t) (a_Owner t) (a_LeaseToken t) (time_null (a_LeaseUntil t))]" using assms(2) by simp_all
  then have g1: "good_store s1" using sqlite.good_exec[OF assms(1), of "(e, OpTake q)"] by simp
  then have g2: "good_store s2" unfolding s2_def by (rule sqlite.good_run)
  have "step (view_db (s_db s)) (LTake (a_ID t) (a_Owner t) (a_LeaseToken t) (time_null (a_LeaseUntil t))) (view_db (s_db s1))"
    using sqlite.refines[OF assms(1), of "(e, OpTake q)"] s1 by (auto elim!: steps_ConsE steps_NilE)
  then have l1: "lacks (a_ID t) tok (view_db (s_db s1))" using take_lacks_old assms(3,4) by blast
  have pr: "protocol (view_db (s_db s1)) (trace_ops sqlite_exec sqlite_labels ops s1) (view_db (s_db s2))"
    unfolding s2_def by (rule sqlite.run_protocol[OF g1 assms(5)])
  have l2: "lacks (a_ID t) tok (view_db (s_db s2))"
    using protocol_lacks[OF pr l1] assms(6) by (auto simp: list_all_iff)
  show ?thesis using lacking_token_refused[OF g2 l2] by blast
qed

lemma demo_claim_eq:
  "SQLiteTake demo_env demo_store (Some demo_q) = (Inr (Some (fst demo_claim)), snd demo_claim)"
  "a_ID (fst demo_claim) = ''a''" "a_LeaseToken (fst demo_claim) = ''u''"
proof -
  have "case fst (SQLiteTake demo_env demo_store (Some demo_q)) of
      Inr (Some t) \<Rightarrow> a_ID t = ''a'' \<and> a_LeaseToken t = ''u'' | _ \<Rightarrow> False" by code_simp
  then show "SQLiteTake demo_env demo_store (Some demo_q) = (Inr (Some (fst demo_claim)), snd demo_claim)"
    "a_ID (fst demo_claim) = ''a''" "a_LeaseToken (fst demo_claim) = ''u''"
    by (auto simp: demo_claim_def split: prod.splits sum.splits option.splits)
qed

theorem sqlite_stale_token_fenced_witness:
  "\<exists>er. SQLiteReleaseAndGet demo_env (snd demo_claim) ''a'' ''w0'' ''old'' [] = (Inl er, snd demo_claim)"
  using sqlite_stale_token_fenced[OF good_demo_store demo_claim_eq(1), of "''old''" "[]" demo_env "''w0''" "[]" 0 None]
  by (simp add: demo_claim_eq)

section \<open>Errors\<close>



section \<open>Take\<close>

text \<open>The rows Take may claim for a query: new, not expired, and selected by the query.\<close>

definition candidates :: "query \<Rightarrow> int \<Rightarrow> db \<Rightarrow> agent_row list" where
  "candidates q nowMs d = filter (\<lambda>r. r_status r = StatusNew \<and> ttl_alive nowMs r \<and>
     query_selects (Some (q \<lparr> q_Status := [] \<rparr>)) (scanned r)) (db_agents d)"

definition fresh_events :: "env \<Rightarrow> db \<Rightarrow> bool" where
  "fresh_events e d \<longleftrightarrow> (\<forall>n. uuid e n \<notin> er_id ` set (db_events d))"

lemma force_new_where:
  "buildSQLiteWhereClauses (Some q) True nowMs = buildSQLiteWhereClauses (Some (q \<lparr> q_Status := StatusNew \<rparr>)) False nowMs"
  by (simp add: buildSQLiteWhereClauses_def opt_clause_def)

lemma matchesQueryFilters_status [simp]:
  "matchesQueryFilters t (Some (q \<lparr> q_Status := st \<rparr>)) = matchesQueryFilters t (Some q)"
  by (simp add: matchesQueryFilters_def)

lemma takeable_candidates:
  assumes "wf_db d" "buildSQLiteWhereClauses (Some q) True nowMs = (wh, nf)"
  shows "filter (takeable nf (Some q) nowMs) (select_where wh d) = sort_key r_created_at_ms (candidates q nowMs d)"
    and "\<not> nf \<Longrightarrow> select_where wh d = sort_key r_created_at_ms (candidates q nowMs d)"
proof -
  have wf: "\<And>r. r \<in> set (db_agents d) \<Longrightarrow> wf_row r" using assms(1) by (auto simp: wf_db_def list_all_iff)
  have sel: "list_all (\<lambda>c. clause_holds c r) wh \<and> (nf \<longrightarrow> matchesQueryFilters (scanned r) (Some q)) \<longleftrightarrow>
      r_status r = StatusNew \<and> ttl_alive nowMs r \<and> query_selects (Some (q \<lparr> q_Status := [] \<rparr>)) (scanned r)"
    if "r \<in> set (db_agents d)" for r
    using where_holds_selects[OF wf[OF that] assms(2)[unfolded force_new_where]] scan_fields(3)[OF scanned_wf[OF wf[OF that]]]
    by (auto simp: query_selects_def MatchesQuery_Some)
  have new: "list_all (\<lambda>c. clause_holds c r) wh \<Longrightarrow> r_status r = StatusNew \<and> ttl_alive nowMs r" for r
    using assms(2) by (auto simp: buildSQLiteWhereClauses_def)
  have c1: "filter (\<lambda>r. takeable nf (Some q) nowMs r \<and> list_all (\<lambda>c. clause_holds c r) wh) (db_agents d) = candidates q nowMs d"
    unfolding candidates_def takeable_def using sel new by (intro filter_cong) auto
  then show "filter (takeable nf (Some q) nowMs) (select_where wh d) = sort_key r_created_at_ms (candidates q nowMs d)"
    by (simp add: select_where_def filter_sort_key filter_filter conj_commute)
  show "select_where wh d = sort_key r_created_at_ms (candidates q nowMs d)" if "\<not> nf"
    unfolding select_where_def candidates_def
    by (rule arg_cong[where f = "sort_key r_created_at_ms"], rule filter_cong) (use sel that in auto)
qed

lemma take_rows_no_error:
  assumes "wf_db d" "set rows \<subseteq> set (db_agents d)" "\<And>c. \<not> fault e c" "fresh_events e d"
  shows "\<exists>y. take_rows e qo ag nf nowMs d i rows = Inr y"
  using assms(2)
proof (induction rows arbitrary: i)
  case (Cons r rows)
  have ins: "\<exists>d2. insertSQLiteEvent e (CInsertEvent i) d1 (claimed_event e i ag t) = Inr d2" if "db_events d1 = db_events d" for d1 t
    using that assms(3,4) by (auto simp: insertSQLiteEvent_def claimed_event_def event_data_json_def event_val_json_def fresh_events_def)
  obtain b d1 where c: "claimSQLiteAgent e (CClaim i) d (claimed_agent e i ag (scanned r)) nowMs = Inr (b, d1)"
    "db_events d1 = db_events d" using assms(3) by (auto simp: claimSQLiteAgent_def)
  have "wf_row r" using Cons.prems assms(1) by (auto simp: wf_db_def list_all_iff)
  moreover obtain d2 where "insertSQLiteEvent e (CInsertEvent i) d1 (claimed_event e i ag (claimed_agent e i ag (scanned r))) = Inr d2"
    using ins[OF c(2)] by blast
  ultimately show ?case
    using Cons c(1) scanned_wf[of r] by (auto simp: Let_def)
qed (simp add: assms(3))

lemma find_hd_filter: "find P xs = (case filter P xs of [] \<Rightarrow> None | x # _ \<Rightarrow> Some x)"
  by (induction xs) auto

lemma take_tx_candidates:
  fixes q :: query
  assumes "wf_db d" "\<And>c. \<not> fault e c" "fresh_events e d"
  defines "cs \<equiv> sort_key r_created_at_ms (candidates q (UnixMilli (clock e 0)) d)"
  shows "cs = [] \<Longrightarrow> take_tx e (Some q) d = Inr (TxRollback None)"
    and "cs \<noteq> [] \<Longrightarrow> \<exists>k d' ev j. take_tx e (Some q) d =
       Inr (TxCommit (Some (claimed_agent e k (take_agent_id (Some q)) (scanned (hd cs)))) d' [ev]) \<and>
       view_db d' = (view_db d)(r_id (hd cs) \<mapsto> cell_of (claim_row (claimed_agent e k (take_agent_id (Some q)) (scanned (hd cs))) (hd cs))) \<and>
       db_events d' = db_events d @ [event_columns ev j] \<and> e_Type ev = EventClaimed \<and> e_TupleID ev = r_id (hd cs)"
proof -
  let ?now = "UnixMilli (clock e 0)" and ?ag = "take_agent_id (Some q)"
  obtain wh nf where b: "buildSQLiteWhereClauses (Some q) True ?now = (wh, nf)" by force
  let ?rows = "if nf then select_where wh d else take 1 (select_where wh d)"
  have sub: "set ?rows \<subseteq> set (db_agents d)" by (auto simp: select_where_def dest: in_set_takeD)
  obtain y where y: "take_rows e (Some q) ?ag nf ?now d 0 ?rows = Inr y"
    using take_rows_no_error[OF assms(1) sub assms(2,3)] by blast
  have tx: "take_tx e (Some q) d = Inr y" using y b assms(2) by (simp add: take_tx_def)
  have f: "find (takeable nf (Some q) ?now) ?rows = (case cs of [] \<Rightarrow> None | x # _ \<Rightarrow> Some x)"
  proof (cases nf)
    case True
    then show ?thesis using takeable_candidates(1)[OF assms(1) b] by (simp add: find_hd_filter cs_def)
  next
    case False
    have "takeable nf (Some q) ?now x" if "x \<in> set cs" for x
      using that False by (auto simp: cs_def candidates_def takeable_def)
    moreover have "?rows = take 1 cs" using takeable_candidates(2)[OF assms(1) b False] False by (simp add: cs_def)
    ultimately show ?thesis by (cases cs) auto
  qed
  note eff = take_rows_effect[OF assms(1) sub y]
  show "take_tx e (Some q) d = Inr (TxRollback None)" if "cs = []"
    using eff f that tx by (cases y) auto
  show "\<exists>k d' ev j. take_tx e (Some q) d =
       Inr (TxCommit (Some (claimed_agent e k ?ag (scanned (hd cs)))) d' [ev]) \<and>
       view_db d' = (view_db d)(r_id (hd cs) \<mapsto> cell_of (claim_row (claimed_agent e k ?ag (scanned (hd cs))) (hd cs))) \<and>
       db_events d' = db_events d @ [event_columns ev j] \<and> e_Type ev = EventClaimed \<and> e_TupleID ev = r_id (hd cs)" if ne: "cs \<noteq> []"
  proof -
    obtain z zs where z: "cs = z # zs" using ne by (cases cs) auto
    then have "z \<in> set (db_agents d)" by (metis (no_types, lifting) candidates_def cs_def filter_is_subset list.set_intros(1) set_sort subset_iff)
    then have "wf_row z" using assms(1) by (auto simp: wf_db_def list_all_iff)
    then have "a_ID (scanned z) = r_id z" using scan_fields(1)[OF scanned_wf] by blast
    then have ev: "e_Type (claimed_event e k ?ag (claimed_agent e k ?ag (scanned z))) = EventClaimed"
      "e_TupleID (claimed_event e k ?ag (claimed_agent e k ?ag (scanned z))) = r_id z" for k
      by (simp_all add: claimed_event_def)
    obtain x d' evs where yc: "y = TxCommit x d' evs" using eff f z by (cases y) auto
    then obtain k ev j where "x = Some (claimed_agent e k ?ag (scanned z))" "evs = [ev]"
      "view_db d' = (view_db d)(r_id z \<mapsto> cell_of (claim_row (claimed_agent e k ?ag (scanned z)) z))"
      "db_events d' = db_events d @ [event_columns ev j]" "ev = claimed_event e k ?ag (claimed_agent e k ?ag (scanned z))"
      using eff f z by auto
    then show ?thesis using tx yc ev[of k] z
      by (intro exI[of _ k] exI[of _ d'] exI[of _ ev] exI[of _ j]) simp
  qed
qed

text \<open>C23: Take claims the oldest claimable agent.  When no database call fails and the generated event ids are
  new, Take on a query (with no status or status NEW) returns nothing exactly when no agent is new, unexpired
  and selected; otherwise it claims one that no other such agent is older than, hands it to the caller with
  status IN_PROGRESS, the token just generated and the version increased by one, and the table then holds that
  claim while every other agent is untouched.\<close>

theorem SQLiteTake_claims_oldest:
  assumes "good_store s" "\<And>c. \<not> fault e c" "fresh_events e (s_db s)" "q_Status q \<in> {[], StatusNew}"
  defines "cs \<equiv> candidates q (UnixMilli (clock e 0)) (s_db s)"
  shows "if cs = [] then SQLiteTake e s (Some q) = (Inr None, s)
    else \<exists>r \<in> set cs. \<exists>t s'. SQLiteTake e s (Some q) = (Inr (Some t), s') \<and>
      (\<forall>r' \<in> set cs. r_created_at_ms r \<le> r_created_at_ms r') \<and>
      a_ID t = r_id r \<and> a_Status t = StatusInProgress \<and> a_Owner t = take_agent_id (Some q) \<and>
      a_LeaseToken t \<in> range (uuid e) \<and> a_Version t = to_int64 (r_version r + 1) \<and>
      view_db (s_db s') = (view_db (s_db s))(r_id r \<mapsto> (agent_cell t) \<lparr> c_ctoken := c_ctoken (cell_of r) \<rparr>)"
proof -
  let ?d = "s_db s" and ?ag = "take_agent_id (Some q)"
  let ?cs = "sort_key r_created_at_ms (candidates q (UnixMilli (clock e 0)) ?d)"
  have wf: "wf_db ?d" using assms(1) by (simp add: good_store_def)
  have tk: "SQLiteTake e s (Some q) = with_tx e s (take_tx e (Some q))"
    using assms(4) by (auto simp: SQLiteTake_def)
  have empty: "?cs = [] \<longleftrightarrow> cs = []" unfolding cs_def by (metis length_0_conv length_sort)
  show ?thesis
  proof (cases "cs = []")
    case True
    then show ?thesis using take_tx_candidates(1)[OF wf assms(2,3), of q] empty tk assms(2) by (simp add: with_tx_def)
  next
    case False
    obtain k d' ev where tx: "take_tx e (Some q) ?d = Inr (TxCommit (Some (claimed_agent e k ?ag (scanned (hd ?cs)))) d' [ev])"
      and v: "view_db d' = (view_db ?d)(r_id (hd ?cs) \<mapsto> cell_of (claim_row (claimed_agent e k ?ag (scanned (hd ?cs))) (hd ?cs)))"
      using take_tx_candidates(2)[OF wf assms(2,3), of q] False empty by blast
    let ?r = "hd ?cs" and ?t = "claimed_agent e k ?ag (scanned (hd ?cs))"
    have r: "?r \<in> set cs" using False empty hd_in_set[of ?cs] by (simp add: cs_def)
    then have "wf_row ?r" using wf by (auto simp: cs_def candidates_def wf_db_def list_all_iff)
    note sf = scan_fields[OF scanned_wf[OF this]]
    have old: "\<forall>r' \<in> set cs. r_created_at_ms ?r \<le> r_created_at_ms r'"
      using hd_sort_key_min[of cs _ r_created_at_ms] False unfolding cs_def by blast
    have cell: "cell_of (claim_row ?t ?r) = (agent_cell ?t) \<lparr> c_ctoken := c_ctoken (cell_of ?r) \<rparr>"
      by (simp add: cell_of_def agent_cell_def claim_row_def)
    have "SQLiteTake e s (Some q) = (Inr (Some ?t), notifySubscribers (s \<lparr> s_db := d' \<rparr>) ev)"
      using tk tx assms(2) by (simp add: with_tx_def)
    moreover have "s_db (notifySubscribers (s \<lparr> s_db := d' \<rparr>) ev) = d'" by (simp add: notifySubscribers_def)
    ultimately show ?thesis
      using False r old v cell sf by (auto intro!: bexI[of _ ?r] simp: claimed_agent_def Let_def)
  qed
qed

theorem SQLiteTake_claims_oldest_witness:
  "\<exists>r \<in> set (candidates demo_q 5000 demo_db). \<exists>t s'. SQLiteTake demo_env demo_store (Some demo_q) = (Inr (Some t), s') \<and>
      (\<forall>r' \<in> set (candidates demo_q 5000 demo_db). r_created_at_ms r \<le> r_created_at_ms r') \<and> a_ID t = r_id r"
proof -
  have "\<And>c. \<not> fault demo_env c" "fresh_events demo_env (s_db demo_store)" "q_Status demo_q \<in> {[], StatusNew}"
    "UnixMilli (clock demo_env 0) = 5000" "s_db demo_store = demo_db"
    by (simp_all add: demo_env_def fresh_events_def demo_store_def demo_db_def demo_q_def empty_query_def UnixMilli_def)
  moreover have "candidates demo_q 5000 demo_db \<noteq> []"
    by (simp add: candidates_def demo_db_def demo_row_def StatusNew_def ttl_alive_def query_selects_def
        MatchesQuery_Some demo_q_def empty_query_def)
  ultimately show ?thesis
    using SQLiteTake_claims_oldest[OF good_demo_store, of demo_env demo_q] by (auto split: if_splits)
qed

text \<open>Without a query Take does not ask for status NEW and looks at one row only, so an old agent that is
  in progress hides every claimable agent behind it.\<close>

theorem SQLiteTake_nil_query_starves:
  assumes "good_store s" "\<And>c. \<not> fault e c" "r \<in> set (db_agents (s_db s))" "r_ttl_ms r = 0" "r_status r \<noteq> StatusNew"
    and "\<And>r'. r' \<in> set (db_agents (s_db s)) \<Longrightarrow> r' \<noteq> r \<Longrightarrow> r_created_at_ms r < r_created_at_ms r'"
  shows "SQLiteTake e s None = (Inr None, s)"
proof -
  let ?now = "UnixMilli (clock e 0)"
  have wf: "wf_db (s_db s)" using assms(1) by (simp add: good_store_def)
  let ?rows = "select_where [WTTL ?now] (s_db s)"
  have r: "r \<in> set ?rows" using assms(3,4) by (simp add: select_where_def ttl_alive_def)
  then obtain z zs where z: "?rows = z # zs" by (cases ?rows) auto
  have zin: "z \<in> set (db_agents (s_db s))" using z list.set_intros(1)[of z zs] by (auto simp: select_where_def simp flip: z)
  have "r_created_at_ms z \<le> r_created_at_ms r"
    using hd_sort_key_min[of "filter (\<lambda>r. list_all (\<lambda>c. clause_holds c r) [WTTL ?now]) (db_agents (s_db s))" r r_created_at_ms]
      r z by (auto simp: select_where_def filter_empty_conv)
  then have "z = r" using assms(6)[OF zin] by fastforce
  then have "z \<in> set (db_agents (s_db s))" "wf_row z" using assms(3) wf by (auto simp: wf_db_def list_all_iff)
  note sc = scanned_wf[OF this(2)]
  have "\<not> claimable (a_ID (claimed_agent e 0 [] (scanned z))) ?now x" if "x \<in> set (db_agents (s_db s))" for x
    using claim_iff[OF wf assms(3) that] scan_fields(1)[OF sc] \<open>z = r\<close> assms(5) by simp
  then have "take_tx e None (s_db s) = Inr (TxRollback None)"
    using assms(2) z sc by (simp add: take_tx_def buildSQLiteWhereClauses_def take_agent_id_def Let_def
        claimSQLiteAgent_def list_ex_iff)
  then show ?thesis using assms(2) by (simp add: SQLiteTake_def with_tx_def)
qed

theorem SQLiteTake_nil_query_starves_witness:
  "SQLiteTake demo_env (demo_store \<lparr> s_db := demo_db \<lparr> db_agents := [demo_row ''b'' 200, (demo_row ''a'' 100) \<lparr> r_status := ''IN_PROGRESS'' \<rparr>] \<rparr> \<rparr>) None =
     (Inr None, demo_store \<lparr> s_db := demo_db \<lparr> db_agents := [demo_row ''b'' 200, (demo_row ''a'' 100) \<lparr> r_status := ''IN_PROGRESS'' \<rparr>] \<rparr> \<rparr>)"
  by (rule SQLiteTake_nil_query_starves[where r = "(demo_row ''a'' 100) \<lparr> r_status := ''IN_PROGRESS'' \<rparr>"])
     (auto simp: good_store_def wf_db_def demo_row_def wf_row_def is_object_def is_str_doc_def demo_env_def demo_db_def StatusNew_def)

end
