(* ===== verification/Sqlite_Outcomes.thy ===== *)
theory Sqlite_Outcomes
  imports Sqlite_Leases
begin

text \<open>
  What single operations of the SQLite store achieve: the retry behaviour of Complete, the effect of
  CompleteAndOut on the completed agent and its outputs, the reaper, lease durations, and the round trip of
  an agent through the columns.
\<close>

section \<open>Retrying a completion\<close>

lemma view_fetch:
  assumes "wf_db d" "SQLiteGet e d i = Inr t" "view_db d i = Some c"
  shows "a_Status t = c_status c" "str_at (or_nil (a_Metadata t)) CompletedByTokenMetadataKey = c_ctoken c"
    "a_Version t = c_version c"
proof -
  have f: "fetch e d i (UnixMilli (clock e 0)) = Inr t" using assms(2) by (simp add: SQLiteGet_def)
  obtain r where r: "row_of d i = Some r" "scanSQLiteAgent r = Inr t" using fetch_InrD[OF assms(1) f] .
  have "c = cell_of r" using r(1) assms(3) by (simp add: view_db_def)
  then show "a_Status t = c_status c" "str_at (or_nil (a_Metadata t)) CompletedByTokenMetadataKey = c_ctoken c"
    "a_Version t = c_version c"
    using scan_fields[OF r(2)] by (simp_all add: cell_of_def)
qed

lemma complete_effect:
  assumes "good_store s" "SQLiteCompleteAndGet e s i ag tok res = (Inr t, s')" "\<not> is_completed (s_db s) i"
  obtains r where "row_of (s_db s) i = Some r" "held_by ag tok (cell_of r)" "wf_db (s_db s')" "ag \<noteq> []" "tok \<noteq> []"
    "view_db (s_db s') = (view_db (s_db s))(i \<mapsto> (freed StatusCompleted (cell_of r))
       \<lparr> c_version := to_int64 (r_version r + 1), c_ctoken := tok \<rparr>)"
    "a_Version t = to_int64 (r_version r + 1)"
proof -
  have wf: "wf_db (s_db s)" using assms(1) by (simp add: good_store_def)
  have ne: "ag \<noteq> []" "tok \<noteq> []" and tx: "with_tx e s (complete_tx e i ag tok res) = (Inr t, s')"
    using assms(2) by (auto simp: SQLiteCompleteAndGet_def split: if_splits)
  obtain d evs where c: "complete_tx e i ag tok res (s_db s) = Inr (TxCommit t d evs)" "s_db s' = d"
    using with_tx_InrD[OF tx] complete_tx_commits by blast
  show ?thesis
  proof (rule complete_tx_effect[OF wf c(1) ne(2)])
    fix r t0
    assume "row_of (s_db s) i = Some r" "held_by ag tok (cell_of r)" "wf_db d" "scanSQLiteAgent r = Inr t0"
      "t = sync_namespace (completed_agent (clock e 1) ag tok (or_nil res) t0)"
      "view_db d = (view_db (s_db s))(i \<mapsto> (freed StatusCompleted (cell_of r))
         \<lparr> c_version := to_int64 (r_version r + 1), c_ctoken := tok \<rparr>)"
    then show ?thesis
      using that[of r] c(2) ne scan_fields(8) by (simp add: completed_agent_def Let_def)
  qed (use assms(3) in \<open>auto simp: is_completed_def\<close>)
qed

text \<open>Completing is idempotent for the worker that completed.  After a completion, as long as the agent is
  still visible, a retry with the same token succeeds without touching the store and returns the agent at
  the version the completion gave it; a completion with any other token is refused as stale, also without
  effect.\<close>

theorem SQLiteComplete_retry:
  assumes "good_store s" "\<not> is_completed (s_db s) i"
    and "SQLiteCompleteAndGet e s i ag tok res = (Inr t, s')"
    and "SQLiteGet e2 (s_db s') i = Inr t2" "\<not> fault e2 CBegin" "\<not> fault e2 CCommit" "ag2 \<noteq> []" "tok2 \<noteq> []"
  shows "SQLiteCompleteAndGet e2 s' i ag2 tok res2 = (Inr t2, s') \<and> a_Version t2 = a_Version t \<and>
         (tok2 \<noteq> tok \<longrightarrow> SQLiteCompleteAndGet e2 s' i ag2 tok2 res2 = (Inl ErrTokenMismatchStale, s'))"
proof -
  obtain r where r: "wf_db (s_db s')" "tok \<noteq> []"
    "view_db (s_db s') = (view_db (s_db s))(i \<mapsto> (freed StatusCompleted (cell_of r))
       \<lparr> c_version := to_int64 (r_version r + 1), c_ctoken := tok \<rparr>)" "a_Version t = to_int64 (r_version r + 1)"
    using complete_effect[OF assms(1,3,2)] by blast
  have v: "view_db (s_db s') i = Some ((freed StatusCompleted (cell_of r))
       \<lparr> c_version := to_int64 (r_version r + 1), c_ctoken := tok \<rparr>)" using r(3) by simp
  note vf = view_fetch[OF r(1) assms(4) v]
  have f: "fetch e2 (s_db s') i (UnixMilli (clock e2 0)) = Inr t2" using assms(4) by (simp add: SQLiteGet_def)
  have st: "a_Status t2 = StatusCompleted" "CompletionTokenMatches (Some t2) x \<longleftrightarrow> x \<noteq> [] \<and> x = tok" for x
    using vf by (auto simp: freed_def CompletionTokenMatches_iff)
  show ?thesis
    using f st assms(5-8) r(2,4) vf(3)
    by (simp add: SQLiteCompleteAndGet_def with_tx_def complete_tx_def)
qed

text \<open>The demonstration agent after its claim and completion.\<close>

definition demo_done :: "(store_error + agent) \<times> sqlite_store" where
  "demo_done = SQLiteCompleteAndGet (later_env CHR ''v'' 6000000000 no_fault) (snd demo_claim) ''a'' ''w1'' ''u'' None"

lemma good_demo_claim: "good_store (snd demo_claim)"
  using sqlite.good_exec[OF good_demo_store, of "(demo_env, OpTake (Some demo_q))"] demo_claim_eq(1) by simp

lemma demo_done_ok:
  "\<not> is_completed (s_db (snd demo_claim)) ''a''" "is_ok (fst demo_done)"
  "is_ok (SQLiteGet (later_env CHR ''w'' 7000000000 no_fault) (s_db (snd demo_done)) ''a'')"
  by code_simp+

theorem SQLiteComplete_retry_witness:
  "\<exists>t2. SQLiteCompleteAndGet (later_env CHR ''w'' 7000000000 no_fault) (snd demo_done) ''a'' ''w1'' ''u'' None = (Inr t2, snd demo_done)"
proof -
  obtain t where t: "demo_done = (Inr t, snd demo_done)"
    using demo_done_ok(2) by (metis is_okE prod.collapse)
  obtain t2 where t2: "SQLiteGet (later_env CHR ''w'' 7000000000 no_fault) (s_db (snd demo_done)) ''a'' = Inr t2"
    using demo_done_ok(3) by (rule is_okE)
  show ?thesis
    using SQLiteComplete_retry[OF good_demo_claim demo_done_ok(1) _ t2, of _ "''w1''" "''u''" None t "''w1''" "''x''"]
      t[unfolded demo_done_def, folded demo_done_def[THEN arg_cong[where f = snd]]]
    by (auto simp: later_env_def no_fault_def)
qed

section \<open>CompleteAndOut\<close>

lemma create_outputs_shape:
  "create_outputs e ag parent k outs d = Inr (outs', evs, d') \<Longrightarrow>
     length outs' = length outs \<and> length evs = length outs \<and>
     (\<forall>n < length outs. outs' ! n = sync_namespace (defaults_output e (k + n) parent (outs ! n)))"
proof (induction e ag parent k outs d arbitrary: outs' evs rule: create_outputs.induct)
  case (2 e ag parent i out outs d)
  let ?o = "defaults_output e i parent out"
  obtain o1 d1 where u: "upsertSQLiteAgent e (CWrite i) d ?o = Inr (o1, d1)"
    using "2.prems" by (auto simp: Let_def split: sum.splits)
  let ?ev = "created_event e i ag o1 [(''parent_id'', EVal (VStr (a_ID parent)))]"
  obtain d2 where ins: "insertSQLiteEvent e (CInsertEvent i) d1 ?ev = Inr d2"
    using "2.prems" u by (auto simp: Let_def split: sum.splits)
  obtain os evs1 where rest: "create_outputs e ag parent (Suc i) outs d2 = Inr (os, evs1, d')" "outs' = o1 # os" "evs = ?ev # evs1"
    using "2.prems" u ins by (auto simp: Let_def bindr_eq_Inr)
  have "length os = length outs \<and> length evs1 = length outs \<and>
     (\<forall>n < length outs. os ! n = sync_namespace (defaults_output e (Suc i + n) parent (outs ! n)))"
    using "2.IH" u ins rest(1) by blast
  then show ?case using rest(2,3) view_upsert(3)[OF u] by (auto simp: nth_Cons split: nat.splits)
qed simp

lemma defaults_output_fields:
  "a_ParentID (defaults_output e k p o1) = (if a_ParentID o1 = [] then a_ID p else a_ParentID o1)"
  "a_TraceID (defaults_output e k p o1) = (if a_TraceID o1 = [] then a_TraceID p else a_TraceID o1)"
  "a_Status (defaults_output e k p o1) = (if a_Status o1 = [] then StatusNew else a_Status o1)"
  "a_ID (defaults_output e k p o1) = (if a_ID o1 = [] then uuid e (2 * k) else a_ID o1)"
  "a_Kind (defaults_output e k p o1) = a_Kind o1" "a_Payload (defaults_output e k p o1) = a_Payload o1"
  "a_NamespaceID (defaults_output e k p o1) = a_NamespaceID o1"
  by (auto simp: defaults_output_def defaults_out_def Let_def)

lemma steps_outs_final:
  "steps m (map out_label outs) m' \<Longrightarrow> distinct (map a_ID outs) \<Longrightarrow>
     (\<forall>t \<in> set outs. m' (a_ID t) = Some (agent_cell t)) \<and> (\<forall>k. k \<notin> a_ID ` set outs \<longrightarrow> m' k = m k)"
proof (induction outs arbitrary: m)
  case Nil
  then show ?case by (auto elim: steps_NilE)
next
  case (Cons t outs)
  obtain m1 where m1: "step m (out_label t) m1" "steps m1 (map out_label outs) m'"
    using Cons.prems(1) by (auto elim: steps_ConsE)
  have "m1 = m(a_ID t \<mapsto> agent_cell t)" using m1(1) unfolding out_label_def by (auto elim: step_OutE)
  then show ?case using Cons.IH[OF m1(2)] Cons.prems(2) by (auto simp: image_iff)
qed

lemma complete_tx_fresh:
  assumes "wf_db d" "complete_tx e i ag tok res d = Inr (TxCommit t d1 evs)" "tok \<noteq> []" "\<not> is_completed d i"
  shows "view_db d1 i = Some ((agent_cell t) \<lparr> c_status := StatusCompleted, c_ctoken := tok \<rparr>)" "a_ID t = i"
proof -
  have "view_db d1 i = Some ((agent_cell t) \<lparr> c_status := StatusCompleted, c_ctoken := tok \<rparr>) \<and> a_ID t = i"
  proof (rule complete_tx_effect[OF assms(1-3)])
    fix r t0
    assume a: "row_of d i = Some r" "scanSQLiteAgent r = Inr t0"
      "t = sync_namespace (completed_agent (clock e 1) ag tok (or_nil res) t0)"
      "view_db d1 = (view_db d)(i \<mapsto> (freed StatusCompleted (cell_of r))
         \<lparr> c_version := to_int64 (r_version r + 1), c_ctoken := tok \<rparr>)"
    have "a_ID t0 = i" using scan_fields(1)[OF a(2)] row_of_id[OF a(1)] by simp
    then show ?thesis using a(3,4) completed_agent_cell[OF a(2) assms(3), of "clock e 1" ag "or_nil res"]
      by (simp add: freed_def)
  qed (use assms(4) in \<open>auto simp: is_completed_def\<close>)
  then show "view_db d1 i = Some ((agent_cell t) \<lparr> c_status := StatusCompleted, c_ctoken := tok \<rparr>)" "a_ID t = i" by auto
qed

text \<open>CompleteAndOut is one step: when it reports a fresh completion, the agent is completed and every output
  has been stored, in order, linked to the completed agent as parent, in its trace and with status NEW unless
  the caller chose otherwise, and one event for the completion and one per output went into the event table.\<close>

theorem SQLiteCompleteAndOut_effect:
  assumes "good_store s" "\<not> is_completed (s_db s) i"
    and "SQLiteCompleteAndOut e s i ag tok res outs = (Inr (t, outs'), s')"
    and "distinct (i # map a_ID outs')"
  shows "view_db (s_db s') i = Some ((agent_cell t) \<lparr> c_status := StatusCompleted, c_ctoken := tok \<rparr>) \<and>
    length outs' = length outs \<and>
    (\<forall>n < length outs. view_db (s_db s') (a_ID (outs' ! n)) = Some (agent_cell (outs' ! n)) \<and>
       a_Kind (outs' ! n) = a_Kind (outs ! n) \<and> a_Payload (outs' ! n) = a_Payload (outs ! n) \<and>
       a_Status (outs' ! n) = (if a_Status (outs ! n) = [] then StatusNew else a_Status (outs ! n)) \<and>
       a_ParentID (outs' ! n) = (if a_ParentID (outs ! n) = [] then i else a_ParentID (outs ! n)) \<and>
       a_TraceID (outs' ! n) = (if a_TraceID (outs ! n) = [] then a_TraceID t else a_TraceID (outs ! n))) \<and>
    completions (s_db s') i = completions (s_db s) i + 1"
proof -
  have wf: "wf_db (s_db s)" using assms(1) by (simp add: good_store_def)
  have ne: "ag \<noteq> []" "tok \<noteq> []" and tx: "with_tx e s (complete_and_out_tx e i ag tok res outs) = (Inr (t, outs'), s')"
    using assms(3) by (auto simp: SQLiteCompleteAndOut_def split: if_splits)
  obtain d evs where c: "complete_and_out_tx e i ag tok res outs (s_db s) = Inr (TxCommit (t, outs') d evs)" "s_db s' = d"
    using with_tx_InrD[OF tx]
    by (auto simp: complete_and_out_tx_def Let_def bindr_eq_Inr split: if_splits option.splits)
  obtain d1 evs1 evs2 where c1: "complete_tx e i ag tok res (s_db s) = Inr (TxCommit t d1 evs1)"
    and co: "create_outputs e ag t 1 outs d1 = Inr (outs', evs2, d)"
    using complete_and_out_tx_split[OF c(1)] complete_tx_sound(2)[OF wf _ ne] assms(2) by metis
  have wf1: "wf_db d1" using complete_tx_sound(1)[OF wf c1 ne] by (simp add: sound_def)
  note shape = create_outputs_shape[OF co]
  have fin: "(\<forall>t \<in> set outs'. view_db d (a_ID t) = Some (agent_cell t)) \<and> view_db d i = view_db d1 i"
    using steps_outs_final[of "view_db d1" outs' "view_db d"] create_outputs_effect[OF wf1 co, of i] assms(4) by auto
  have comp: "completions d i = completions (s_db s) i + 1"
    using create_outputs_effect[OF wf1 co, of i] complete_tx_sound(1)[OF wf c1 ne] assms(2)
    by (simp add: sound_def is_complete_def)
  note vi = complete_tx_fresh(1)[OF wf c1 ne(2) assms(2)] and idt = complete_tx_fresh(2)[OF wf c1 ne(2) assms(2)]
  have "view_db d (a_ID (outs' ! n)) = Some (agent_cell (outs' ! n)) \<and>
       a_Kind (outs' ! n) = a_Kind (outs ! n) \<and> a_Payload (outs' ! n) = a_Payload (outs ! n) \<and>
       a_Status (outs' ! n) = (if a_Status (outs ! n) = [] then StatusNew else a_Status (outs ! n)) \<and>
       a_ParentID (outs' ! n) = (if a_ParentID (outs ! n) = [] then i else a_ParentID (outs ! n)) \<and>
       a_TraceID (outs' ! n) = (if a_TraceID (outs ! n) = [] then a_TraceID t else a_TraceID (outs ! n))"
    if n: "n < length outs" for n
  proof -
    have "outs' ! n \<in> set outs'" by (rule nth_mem) (use shape n in simp)
    then have "view_db d (a_ID (outs' ! n)) = Some (agent_cell (outs' ! n))" using fin by blast
    moreover have "outs' ! n = sync_namespace (defaults_output e (1 + n) t (outs ! n))" using shape n by blast
    ultimately show ?thesis using idt by (auto simp: defaults_output_fields)
  qed
  then show ?thesis using fin vi comp shape c(2) by simp
qed

text \<open>The claimed agent completed with one output.\<close>

definition demo_fan_out :: "(store_error + agent \<times> agent list) \<times> sqlite_store" where
  "demo_fan_out = SQLiteCompleteAndOut (later_env CHR ''v'' 6000000000 no_fault) (snd demo_claim) ''a'' ''w1'' ''u'' None
     [empty_agent \<lparr> a_Kind := ''report'' \<rparr>]"

lemma demo_fan_out_ok:
  "is_ok (fst demo_fan_out)" "case fst demo_fan_out of Inr (t, outs) \<Rightarrow> map a_ID outs = [''vvv''] | _ \<Rightarrow> False"
  by code_simp+

theorem SQLiteCompleteAndOut_effect_witness:
  "\<exists>t o1. fst demo_fan_out = Inr (t, [o1]) \<and> a_ParentID o1 = ''a'' \<and> a_Status o1 = StatusNew \<and>
     view_db (s_db (snd demo_fan_out)) (a_ID o1) = Some (agent_cell o1)"
proof -
  obtain t outs where f: "fst demo_fan_out = Inr (t, outs)" "map a_ID outs = [''vvv'']"
    using demo_fan_out_ok by (auto simp: is_ok_def split: sum.splits)
  then obtain o1 where o1: "outs = [o1]" "a_ID o1 = ''vvv''" by (auto simp: map_eq_Cons_conv)
  have eq: "SQLiteCompleteAndOut (later_env CHR ''v'' 6000000000 no_fault) (snd demo_claim) ''a'' ''w1'' ''u'' None
     [empty_agent \<lparr> a_Kind := ''report'' \<rparr>] = (Inr (t, outs), snd demo_fan_out)"
    using f(1) by (metis demo_fan_out_def prod.collapse)
  show ?thesis
    using SQLiteCompleteAndOut_effect[OF good_demo_claim demo_done_ok(1) eq] f o1 by (auto simp: empty_agent_def)
qed

section \<open>The reaper\<close>

lemma reap_labels_all: "(\<And>c. \<not> fault e c) \<Longrightarrow> reap_labels e nowMs n rs = map (\<lambda>r. LReap (r_id r) nowMs) rs"
  by (induction rs arbitrary: n) simp_all

lemma steps_reap_final:
  "steps m (map (\<lambda>r. LReap (r_id r) nowMs) rs) m' \<Longrightarrow> distinct (map r_id rs) \<Longrightarrow>
     m' k = (if k \<in> r_id ` set rs then map_option (\<lambda>c. (freed StatusNew c) \<lparr> c_version := c_version c + 1 \<rparr>) (m k) else m k)"
proof (induction rs arbitrary: m)
  case Nil
  then show ?case by (auto elim: steps_NilE)
next
  case (Cons r rs)
  obtain m1 where m1: "step m (LReap (r_id r) nowMs) m1" "steps m1 (map (\<lambda>r. LReap (r_id r) nowMs) rs) m'"
    using Cons.prems(1) by (auto elim: steps_ConsE)
  obtain c where "m (r_id r) = Some c" "m1 = m(r_id r \<mapsto> (freed StatusNew c) \<lparr> c_version := c_version c + 1 \<rparr>)"
    using m1(1) by (auto elim: step_ReapE)
  then show ?case using Cons.IH[OF m1(2)] Cons.prems(2) by (auto simp: image_iff)
qed

text \<open>C26: when no database call fails, the reaper returns exactly the agents whose lease has run out: each of
  them is NEW again, without owner, token and lease, one version later, and every other agent is as before.
  Afterwards no lease has run out at that time.\<close>

theorem reapExpiredLeases_exact:
  assumes "good_store s" "\<And>c. \<not> fault e c"
  defines "nowMs \<equiv> UnixMilli (clock e 0)" and "s' \<equiv> reapExpiredLeases e s"
  shows "view_db (s_db s') i = (case row_of (s_db s) i of None \<Rightarrow> None | Some r \<Rightarrow>
           Some (if lease_lapsed nowMs r then (freed StatusNew (cell_of r)) \<lparr> c_version := r_version r + 1 \<rparr> else cell_of r)) \<and>
         (\<forall>r \<in> set (db_agents (s_db s')). \<not> lease_lapsed nowMs r)"
proof -
  have wf: "wf_db (s_db s)" using assms(1) by (simp add: good_store_def)
  let ?rs = "filter (lease_lapsed nowMs) (db_agents (s_db s))"
  have so: "sound (s_db s) (reap_labels e nowMs 0 ?rs) True (s_db s')"
    using reap_sound[OF wf, of e] assms(2) by (simp add: nowMs_def s'_def Let_def)
  have dis: "distinct (map r_id ?rs)" using wf by (simp add: wf_db_def distinct_map_filter)
  have st: "steps (view_db (s_db s)) (map (\<lambda>r. LReap (r_id r) nowMs) ?rs) (view_db (s_db s'))"
    using so reap_labels_all[OF assms(2)] by (simp add: sound_def)
  have view: "view_db (s_db s') k = (case row_of (s_db s) k of None \<Rightarrow> None | Some r \<Rightarrow>
      Some (if lease_lapsed nowMs r then (freed StatusNew (cell_of r)) \<lparr> c_version := r_version r + 1 \<rparr> else cell_of r))" for k
  proof (cases "row_of (s_db s) k")
    case None
    then have "k \<notin> r_id ` set ?rs" by (auto simp: row_of_None)
    then show ?thesis using steps_reap_final[OF st dis, of k] None by (simp add: view_db_def)
  next
    case (Some r)
    have "x = r" if "x \<in> set (db_agents (s_db s))" "r_id x = k" for x
      using row_of_iff[OF wf, of k x] Some that by simp
    then have "k \<in> r_id ` set ?rs \<longleftrightarrow> lease_lapsed nowMs r"
      using row_of_SomeD[OF Some] by (auto simp: image_iff)
    then show ?thesis using steps_reap_final[OF st dis, of k] Some by (simp add: view_db_def cell_of_def freed_def)
  qed
  have wf': "wf_db (s_db s')" using so by (simp add: sound_def)
  have "\<not> lease_lapsed nowMs r" if "r \<in> set (db_agents (s_db s'))" for r
  proof -
    have "row_of (s_db s') (r_id r) = Some r" using that wf' by (simp add: row_of_iff)
    then have c: "view_db (s_db s') (r_id r) = Some (cell_of r)" by (simp add: view_db_def)
    then show ?thesis using view[of "r_id r"]
      by (auto simp: lease_lapsed_def cell_of_def freed_def split: option.splits if_splits)
  qed
  then show ?thesis using view by blast
qed

theorem reapExpiredLeases_exact_witness:
  "c_status (the (view_db (s_db (reapExpiredLeases (later_env CHR ''r'' 20000000000 no_fault) (snd demo_claim))) ''a'')) = ''NEW''"
proof -
  let ?e = "later_env CHR ''r'' 20000000000 no_fault"
  have "case row_of (s_db (snd demo_claim)) ''a'' of None \<Rightarrow> False | Some r \<Rightarrow> lease_lapsed 20000 r" by code_simp
  then obtain r where "row_of (s_db (snd demo_claim)) ''a'' = Some r" "lease_lapsed 20000 r" by (auto split: option.splits)
  moreover have "\<And>c. \<not> fault ?e c" "UnixMilli (clock ?e 0) = 20000" by (simp_all add: later_env_def no_fault_def UnixMilli_def)
  ultimately show ?thesis
    using reapExpiredLeases_exact[OF good_demo_claim, of ?e "''a''"] by (simp add: freed_def StatusNew_def)
qed

text \<open>The reaper announces a release before it is committed: when the commit fails, the subscribers have
  been told of a release that never happened.\<close>

theorem reaper_announces_uncommitted:
  "\<exists>e s. good_store s \<and> s_db (reapExpiredLeases e s) = s_db s \<and> length (s_log (reapExpiredLeases e s)) = length (s_log s) + 1"
proof (intro exI conjI)
  let ?e = "later_env CHR ''r'' 20000000000 (\<lambda>c. c = CCommit)"
  show "good_store (snd demo_claim)" by (rule good_demo_claim)
  show "s_db (reapExpiredLeases ?e (snd demo_claim)) = s_db (snd demo_claim)"
    by (simp add: reapExpiredLeases_def later_env_def Let_def split: prod.splits)
  show "length (s_log (reapExpiredLeases ?e (snd demo_claim))) = length (s_log (snd demo_claim)) + 1" by code_simp
qed

section \<open>Lease durations\<close>

text \<open>The lease duration asked for in the metadata is honoured in seconds first, then in milliseconds, and
  falls back to five minutes; it is positive exactly as long as the product fits 64 bits.  A request for
  9223372037 seconds or more (up to the point where the product wraps into the positive range again) gives a
  lease that has already run out.\<close>

theorem leaseDurationForAgent_cases:
  assumes "a_Metadata t = Some m"
  shows "(\<forall>n. map_of m ''lease_sec'' = Some v \<and> atoi v = Some n \<and> 0 < n \<longrightarrow>
            leaseDurationForAgent (Some t) = to_int64 (n * 1000000000) \<and>
            (n \<le> 9223372036 \<longrightarrow> leaseDurationForAgent (Some t) = n * Second) \<and>
            (9223372037 \<le> n \<and> n \<le> 18446744073 \<longrightarrow> leaseDurationForAgent (Some t) < 0)) \<and>
         (map_of m ''lease_sec'' = None \<and> map_of m ''lease_ms'' = None \<longrightarrow>
            leaseDurationForAgent (Some t) = 300 * Second)"
proof (intro conjI allI impI)
  fix n assume a: "map_of m ''lease_sec'' = Some v \<and> atoi v = Some n \<and> 0 < n"
  then show e: "leaseDurationForAgent (Some t) = to_int64 (n * 1000000000)"
    using assms by (simp add: leaseDurationForAgent_def Second_def Let_def)
  show "n \<le> 9223372036 \<Longrightarrow> leaseDurationForAgent (Some t) = n * Second"
    using e a by (simp add: Second_def int64_range_def)
  assume n: "9223372037 \<le> n \<and> n \<le> 18446744073"
  have "n * 1000000000 + 9223372036854775808 = (n * 1000000000 - 9223372036854775808) + 18446744073709551616" by simp
  moreover have "((n * 1000000000 - 9223372036854775808) + 18446744073709551616) mod 18446744073709551616 =
      n * 1000000000 - 9223372036854775808" using n by (simp only: mod_add_self2) (rule mod_pos_pos_trivial, auto)
  ultimately have "(n * 1000000000 + 9223372036854775808) mod 18446744073709551616 = n * 1000000000 - 9223372036854775808"
    by (simp only:)
  then show "leaseDurationForAgent (Some t) < 0" using e n by (simp add: to_int64_def)
next
  assume "map_of m ''lease_sec'' = None \<and> map_of m ''lease_ms'' = None"
  then show "leaseDurationForAgent (Some t) = 300 * Second"
    using assms by (simp add: leaseDurationForAgent_def DefaultLeaseOptions_def Minute_def Second_def Let_def)
qed

theorem leaseDurationForAgent_cases_witness:
  "leaseDurationForAgent (Some (empty_agent \<lparr> a_Metadata := Some [(''lease_sec'', ''10'')] \<rparr>)) = 10 * Second \<and>
   leaseDurationForAgent (Some (empty_agent \<lparr> a_Metadata := Some [(''lease_sec'', ''9223372037'')] \<rparr>)) < 0"
proof -
  have "atoi ''10'' = Some 10" "atoi ''9223372037'' = Some 9223372037" by code_simp+
  then show ?thesis
    using leaseDurationForAgent_cases[of "empty_agent \<lparr> a_Metadata := Some [(''lease_sec'', ''10'')] \<rparr>" _ "''10''"]
      leaseDurationForAgent_cases[of "empty_agent \<lparr> a_Metadata := Some [(''lease_sec'', ''9223372037'')] \<rparr>" _ "''9223372037''"]
    by simp
qed

section \<open>Storing and reading back\<close>

text \<open>What a row keeps of an agent: times and the time to live to the millisecond, no shard id.\<close>

definition stored_form :: "agent \<Rightarrow> agent" where
  "stored_form t = t \<lparr> a_ShardID := [], a_TTL := to_int64 (ttl_ms_of (a_TTL t) * Millisecond),
     a_CreatedAt := time_UnixMilli (UnixMilli (a_CreatedAt t)), a_UpdatedAt := time_UnixMilli (UnixMilli (a_UpdatedAt t)),
     a_OwnerTime := time_UnixMilli (UnixMilli (a_OwnerTime t)), a_LeaseUntil := time_UnixMilli (UnixMilli (a_LeaseUntil t)) \<rparr>"

lemma scan_tags_json [simp]: "scan_tags (JArr (map JStr ts)) = ts"
  by (simp add: scan_tags_def json_string_def comp_def)

lemma scan_columns:
  assumes "agent_columns (sync_namespace t) = Inr r"
    and "case a_Payload t of None \<Rightarrow> True | Some p \<Rightarrow> json_plain_map p"
  shows "scanSQLiteAgent r = Inr (stored_form (sync_namespace t))"
proof -
  note cf = agent_columns_fields[OF assms(1)]
  obtain mm where mm: "a_Metadata (sync_namespace t) = Some mm" "a_NamespaceID (sync_namespace t) = str_at mm NamespaceMetadataKey"
    using sync_namespace_metadata[of t] by blast
  have "scan_payload (r_payload r) = Inr (a_Payload t)"
  proof (cases "a_Payload t")
    case None
    then have "r_payload r = JNull" using cf(16) by (simp add: json_opt_map_def)
    then show ?thesis using None by (simp add: scan_payload_def)
  next
    case (Some p)
    then obtain kvs where k: "marshal_map p = Some (JObj kvs)" "map (map_prod id unmarshal) kvs = p"
      using assms(2) marshal_map_plain[of p] by auto
    then have "r_payload r = JObj kvs" using cf(16) Some by (simp add: json_opt_map_def)
    then show ?thesis using k(2) Some by (simp add: scan_payload_def)
  qed
  then show ?thesis
    using cf mm by (simp add: scanSQLiteAgent_def stored_form_def null_time_trunc Let_def)
qed

text \<open>C39: storing an agent and reading it back: what Get returns after Out is the agent Out filled in, in the
  form the columns keep, for every agent whose payload is made of JSON values and whose time to live has not
  run out.\<close>

theorem SQLiteOut_Get_roundtrip:
  assumes "good_store s" "SQLiteOut e s t = (Inr t', s')" "\<not> fault e2 CSelect"
    and "case a_Payload t of None \<Rightarrow> True | Some p \<Rightarrow> json_plain_map p"
    and "a_TTL t = 0 \<or> UnixMilli (a_CreatedAt t') + ttl_ms_of (a_TTL t) > UnixMilli (clock e2 0)"
  shows "SQLiteGet e2 (s_db s') (a_ID t') = Inr (stored_form t')"
proof -
  have wf: "wf_db (s_db s)" using assms(1) by (simp add: good_store_def)
  obtain d evs where o: "out_tx e t (s_db s) = Inr (TxCommit t' d evs)" "s_db s' = d"
    using with_tx_InrD[of e s "out_tx e t" t' s'] assms(2)
    by (auto simp: SQLiteOut_def out_tx_def Let_def bindr_eq_Inr)
  let ?t = "defaults_out e 0 t"
  obtain d1 ev where u: "upsertSQLiteAgent e (CWrite 0) (s_db s) ?t = Inr (t', d1)"
    "insertSQLiteEvent e (CInsertEvent 0) d1 ev = Inr d"
    using o(1) by (auto simp: out_tx_def Let_def bindr_eq_Inr)
  obtain r where r: "t' = sync_namespace ?t" "agent_columns t' = Inr r" "d1 = s_db s \<lparr> db_agents := put_row r (db_agents (s_db s)) \<rparr>"
    using u(1) by (rule upsert_InrD)
  have cf: "r_id r = a_ID t'" "r_ttl_ms r = ttl_ms_of (a_TTL t')" "r_created_at_ms r = UnixMilli (a_CreatedAt t')"
    using agent_columns_fields[OF r(2)] by auto
  have keep: "a_Payload ?t = a_Payload t" "a_TTL ?t = a_TTL t" by (simp_all add: defaults_out_def Let_def)
  have wfd: "wf_db d" using out_tx_effect(1)[OF wf o(1)] .
  have "db_agents d = db_agents d1" using insert_event_agents[OF u(2)] .
  then have "row_of d (a_ID t') = row_of d1 (a_ID t')" by (simp add: row_of_def)
  then have ro: "row_of d (a_ID t') = Some r" using r(3) cf(1) by (simp add: row_of_put)
  have alive: "ttl_alive (UnixMilli (clock e2 0)) r"
    using assms(5) cf r(1) keep by (auto simp: ttl_alive_def ttl_ms_of_def)
  have "scanSQLiteAgent r = Inr (stored_form t')"
    using scan_columns[of ?t r] r(1,2) assms(4) keep by simp
  moreover have "select_by_id d (a_ID t') (UnixMilli (clock e2 0)) = Some r"
    using ro alive select_by_id_row_of[OF wfd] by simp
  ultimately show ?thesis using assms(3) o(2) by (simp add: SQLiteGet_def fetch_def)
qed

theorem SQLiteOut_Get_roundtrip_witness:
  "\<exists>t'. fst (SQLiteOut demo_env demo_store (empty_agent \<lparr> a_Kind := ''k'', a_Payload := Some [(''x'', VBool True)] \<rparr>)) = Inr t' \<and>
     SQLiteGet demo_env (s_db (snd (SQLiteOut demo_env demo_store (empty_agent \<lparr> a_Kind := ''k'', a_Payload := Some [(''x'', VBool True)] \<rparr>))))
       (a_ID t') = Inr (stored_form t')"
proof -
  let ?a = "empty_agent \<lparr> a_Kind := ''k'', a_Payload := Some [(''x'', VBool True)] \<rparr>"
  have "is_ok (fst (SQLiteOut demo_env demo_store ?a))" by code_simp
  then obtain t' where t': "SQLiteOut demo_env demo_store ?a = (Inr t', snd (SQLiteOut demo_env demo_store ?a))"
    by (metis is_okE prod.collapse)
  have "SQLiteGet demo_env (s_db (snd (SQLiteOut demo_env demo_store ?a))) (a_ID t') = Inr (stored_form t')"
    by (rule SQLiteOut_Get_roundtrip[OF good_demo_store t'])
       (simp_all add: demo_env_def empty_agent_def json_plain_map_def)
  then show ?thesis using t' by (metis fst_conv)
qed

text \<open>A time to live below one millisecond is stored as zero, which means no expiry: such an agent, expired
  for the helper of package agent a second later, stays visible for ever.\<close>

theorem sub_millisecond_ttl_never_expires:
  assumes "0 < a_TTL t" "a_TTL t < Millisecond" "agent_columns t = Inr r" "a_CreatedAt t + Second \<le> now"
  shows "IsExpired now t \<and> ttl_alive nowMs r"
  using assms agent_columns_fields(15)[OF assms(3)]
  by (simp add: IsExpired_def ttl_alive_def ttl_ms_of_def Millisecond_def Second_def)

theorem sub_millisecond_ttl_never_expires_witness:
  "\<exists>r. agent_columns (empty_agent \<lparr> a_TTL := 500000 \<rparr>) = Inr r \<and>
     IsExpired 5000000000 (empty_agent \<lparr> a_TTL := 500000 \<rparr>) \<and> ttl_alive 123456789 r"
proof -
  obtain r where "agent_columns (empty_agent \<lparr> a_TTL := 500000 \<rparr>) = Inr r"
    by (simp add: agent_columns_def json_opt_map_def empty_agent_def)
  then show ?thesis
    using sub_millisecond_ttl_never_expires[of "empty_agent \<lparr> a_TTL := 500000 \<rparr>" r 5000000000 123456789]
    by (simp add: Millisecond_def Second_def empty_agent_def zero_time_def)
qed

end
