(* ===== verification/Store_Graph.thy ===== *)
theory Store_Graph
  imports Sql_Common
begin

text \<open>
  What the backends share in code that reads the store again and again: the traversal of related agents
  (\<^verbatim>\<open>GetDAG\<close>) and the polling of the blocking calls (\<^verbatim>\<open>In\<close>, \<^verbatim>\<open>Read\<close>).  The source repeats both in every
  backend; here they take the read operations of the backend as arguments.  The locale \<^verbatim>\<open>dag_source\<close> states
  what the traversal needs of them, and its lemmas show that it returns and what it collects.
\<close>

section \<open>GetDAG\<close>

definition node_of :: "agent \<Rightarrow> dag_node" where
  "node_of t = \<lparr> n_TupleID = a_ID t, n_Kind = a_Kind t, n_Status = a_Status t, n_CreatedAt = a_CreatedAt t,
     n_Metadata = a_Metadata t \<rparr>"

definition add_node :: "string \<Rightarrow> agent \<Rightarrow> dag \<Rightarrow> dag" where
  "add_node i t g = g \<lparr> d_Nodes := AList.update i (node_of t) (d_Nodes g) \<rparr>"

definition add_edges :: "edge list \<Rightarrow> dag \<Rightarrow> dag" where
  "add_edges es g = g \<lparr> d_Edges := d_Edges g @ es \<rparr>"

definition parent_edges :: "agent \<Rightarrow> edge list" where
  "parent_edges t = (if a_ParentID t \<noteq> [] then [\<lparr> ed_From = a_ParentID t, ed_To = a_ID t, ed_Type = ''parent'' \<rparr>] else [])"

definition spawned_edge :: "agent \<Rightarrow> agent \<Rightarrow> edge" where
  "spawned_edge t child = \<lparr> ed_From = a_ID t, ed_To = a_ID child, ed_Type = ''spawned'' \<rparr>"

definition children_query :: "agent \<Rightarrow> query" where
  "children_query t = empty_query \<lparr> q_ParentID := a_ID t \<rparr>"

text \<open>The ids and edges one visited agent contributes; a failing child query contributes none.\<close>

definition visit :: "store_error + agent list \<Rightarrow> string \<Rightarrow> agent \<Rightarrow> dag \<Rightarrow> string list \<times> dag" where
  "visit found i t g =
    (let g = add_edges (parent_edges t) (add_node i t g);
         up = (if a_ParentID t \<noteq> [] then [a_ParentID t] else [])
     in case found of
          Inl _ \<Rightarrow> (up, g)
        | Inr children \<Rightarrow> (up @ map a_ID children, add_edges (map (spawned_edge t) children) g))"

text \<open>The loop; \<open>get n\<close> and \<open>qry n\<close> are the \<open>n\<close>-th reads of the store.\<close>

partial_function (option) dag_loop ::
  "(nat \<Rightarrow> string \<Rightarrow> store_error + agent) \<Rightarrow> (nat \<Rightarrow> query option \<Rightarrow> store_error + agent list) \<Rightarrow>
     nat \<Rightarrow> string list \<Rightarrow> string list \<Rightarrow> dag \<Rightarrow> dag option" where
  "dag_loop get qry n visited queue g = (case queue of [] \<Rightarrow> Some g | i # queue \<Rightarrow>
     if i \<in> set visited then dag_loop get qry n visited queue g
     else case get (2 * n) i of
       Inl _ \<Rightarrow> dag_loop get qry (Suc n) (i # visited) queue g
     | Inr t \<Rightarrow> (let (nxt, g') = visit (qry (2 * n + 1) (Some (children_query t))) i t g
                in dag_loop get qry (Suc n) (i # visited) (queue @ nxt) g'))"

lemma dag_loop_code [code]:
  "dag_loop get qry n visited [] g = Some g"
  "dag_loop get qry n visited (i # queue) g =
    (if i \<in> set visited then dag_loop get qry n visited queue g
     else case get (2 * n) i of
       Inl _ \<Rightarrow> dag_loop get qry (Suc n) (i # visited) queue g
     | Inr t \<Rightarrow> (let (nxt, g') = visit (qry (2 * n + 1) (Some (children_query t))) i t g
                in dag_loop get qry (Suc n) (i # visited) (queue @ nxt) g'))"
  by (simp_all add: dag_loop.simps)

definition get_dag ::
  "(nat \<Rightarrow> string \<Rightarrow> store_error + agent) \<Rightarrow> (nat \<Rightarrow> query option \<Rightarrow> store_error + agent list) \<Rightarrow> string \<Rightarrow> dag option" where
  "get_dag get qry rootID = dag_loop get qry 0 [] [rootID] \<lparr> d_Nodes = [], d_Edges = [] \<rparr>"

text \<open>From a visible agent to its parent and to its visible children; \<open>live\<close> yields the visible agents by id.\<close>

definition related :: "(string \<Rightarrow> agent option) \<Rightarrow> (string \<times> string) set" where
  "related live = {(i, j). \<exists>t. live i = Some t \<and>
     (a_ParentID t \<noteq> [] \<and> j = a_ParentID t \<or> (\<exists>c. live j = Some c \<and> a_ParentID c = i))}"

text \<open>A steady view: every read sees the agents of \<open>live\<close>.\<close>

definition reads_live ::
  "(nat \<Rightarrow> string \<Rightarrow> store_error + agent) \<Rightarrow> (nat \<Rightarrow> query option \<Rightarrow> store_error + agent list) \<Rightarrow> (string \<Rightarrow> agent option) \<Rightarrow> bool" where
  "reads_live get qry live \<longleftrightarrow>
     (\<forall>n i t. get n i = Inr t \<longleftrightarrow> live i = Some t) \<and>
     (\<forall>i t. live i = Some t \<longrightarrow> a_ID t = i \<and> i \<noteq> []) \<and>
     (\<forall>n i t. live i = Some t \<longrightarrow> (\<exists>cs. qry n (Some (children_query t)) = Inr cs \<and>
        a_ID ` set cs = {j. \<exists>c. live j = Some c \<and> a_ParentID c = i}))"

lemma dag_measure_less:
  assumes "finite K" "i \<notin> set visited" "set nxt \<subseteq> K"
  shows "card ((set (queue @ nxt) \<union> K) - set (i # visited)) < card ((set (i # queue) \<union> K) - set visited)"
proof (rule psubset_card_mono)
  show "finite ((set (i # queue) \<union> K) - set visited)" using assms(1) by simp
  show "(set (queue @ nxt) \<union> K) - set (i # visited) \<subset> (set (i # queue) \<union> K) - set visited"
    using assms(2,3) by auto
qed

locale dag_source =
  fixes get :: "nat \<Rightarrow> string \<Rightarrow> store_error + agent"
    and qry :: "nat \<Rightarrow> query option \<Rightarrow> store_error + agent list"
    and known :: "string set"
  assumes finite_known: "finite known"
    and get_known: "get n i = Inr t \<Longrightarrow> a_ParentID t \<in> known"
    and qry_known: "qry n q = Inr cs \<Longrightarrow> c \<in> set cs \<Longrightarrow> a_ID c \<in> known"
begin

lemma visit_known: "get m i = Inr t \<Longrightarrow> set (fst (visit (qry n q) i t g)) \<subseteq> known"
  by (auto simp: visit_def Let_def split: sum.splits dest: get_known qry_known)

text \<open>Every round drops a visited id or visits one of the finitely many ids for the first time; this gives an
  induction rule for the loop.\<close>

lemma loop_induct [case_names Nil Seen Missing Visit]:
  assumes "\<And>n visited g. P n visited [] g"
    and "\<And>n visited i queue g. i \<in> set visited \<Longrightarrow> P n visited queue g \<Longrightarrow> P n visited (i # queue) g"
    and "\<And>n visited i queue g er. i \<notin> set visited \<Longrightarrow> get (2 * n) i = Inl er \<Longrightarrow> P (Suc n) (i # visited) queue g \<Longrightarrow>
      P n visited (i # queue) g"
    and "\<And>n visited i queue g t nxt g'. i \<notin> set visited \<Longrightarrow> get (2 * n) i = Inr t \<Longrightarrow>
      visit (qry (2 * n + 1) (Some (children_query t))) i t g = (nxt, g') \<Longrightarrow> P (Suc n) (i # visited) (queue @ nxt) g' \<Longrightarrow>
      P n visited (i # queue) g"
  shows "P n visited queue g"
proof -
  have "card ((set queue \<union> known) - set visited) \<le> k \<Longrightarrow> P n visited queue g" for k
  proof (induction k arbitrary: n visited queue g rule: less_induct)
    case (less k n visited queue g)
    show ?case using less.prems
    proof (induction queue)
      case (Cons i rest)
      show ?case
      proof (cases "i \<in> set visited")
        case True
        then have "(set (i # rest) \<union> known) - set visited = (set rest \<union> known) - set visited" by auto
        then show ?thesis using assms(2)[OF True] Cons by simp
      next
        case new: False
        have rec: "P (Suc n) (i # visited) (rest @ nxt) g1" if "set nxt \<subseteq> known" for nxt g1
          by (rule less.IH[OF _ order_refl]) (use dag_measure_less[OF finite_known new that, of rest] Cons.prems in simp)
        show ?thesis
        proof (cases "get (2 * n) i")
          case (Inl er)
          then show ?thesis using assms(3)[OF new Inl] rec[of "[]" g] by simp
        next
          case (Inr t)
          obtain nxt g1 where v: "visit (qry (2 * n + 1) (Some (children_query t))) i t g = (nxt, g1)" by force
          then have "set nxt \<subseteq> known" using visit_known[OF Inr] by (metis fst_conv)
          then show ?thesis using assms(4)[OF new Inr v] rec by blast
        qed
      qed
    qed (rule assms(1))
  qed
  then show ?thesis by blast
qed

lemma loop_step:
  "i \<in> set visited \<Longrightarrow> dag_loop get qry n visited (i # queue) g = dag_loop get qry n visited queue g"
  "i \<notin> set visited \<Longrightarrow> get (2 * n) i = Inl er \<Longrightarrow>
     dag_loop get qry n visited (i # queue) g = dag_loop get qry (Suc n) (i # visited) queue g"
  "i \<notin> set visited \<Longrightarrow> get (2 * n) i = Inr t \<Longrightarrow> visit (qry (2 * n + 1) (Some (children_query t))) i t g = (nxt, g') \<Longrightarrow>
     dag_loop get qry n visited (i # queue) g = dag_loop get qry (Suc n) (i # visited) (queue @ nxt) g'"
  by (simp_all add: dag_loop_code)

lemma loop_returns: "\<exists>g'. dag_loop get qry n visited queue g = Some g'"
  by (induction n visited queue g rule: loop_induct) (simp_all add: loop_step dag_loop_code)

lemma dag_returns: "\<exists>g. get_dag get qry root = Some g"
  unfolding get_dag_def by (rule loop_returns)

lemma visit_effect:
  assumes "reads_live get qry live" "live i = Some t"
  shows "set (fst (visit (qry n (Some (children_query t))) i t g)) = related live `` {i}"
    and "fst ` set (d_Nodes (snd (visit (qry n (Some (children_query t))) i t g))) = insert i (fst ` set (d_Nodes g))"
proof -
  obtain cs where cs: "qry n (Some (children_query t)) = Inr cs" "a_ID ` set cs = {j. \<exists>c. live j = Some c \<and> a_ParentID c = i}"
    using assms unfolding reads_live_def by blast
  show "set (fst (visit (qry n (Some (children_query t))) i t g)) = related live `` {i}"
    using cs assms(2) by (auto simp: visit_def Let_def related_def)
  show "fst ` set (d_Nodes (snd (visit (qry n (Some (children_query t))) i t g))) = insert i (fst ` set (d_Nodes g))"
    using cs(1) by (auto simp: visit_def Let_def add_edges_def add_node_def dom_update)
qed

text \<open>The invariant of the traversal and what it gives at the end.\<close>

lemma loop_nodes:
  assumes "reads_live get qry live"
  shows "dag_loop get qry n visited queue g = Some g' \<Longrightarrow> root \<in> set visited \<union> set queue \<Longrightarrow>
    related live `` set visited \<subseteq> set visited \<union> set queue \<Longrightarrow> set visited \<union> set queue \<subseteq> (related live)\<^sup>* `` {root} \<Longrightarrow>
    fst ` set (d_Nodes g) = set visited \<inter> dom live \<Longrightarrow> fst ` set (d_Nodes g') = (related live)\<^sup>* `` {root} \<inter> dom live"
proof (induction n visited queue g rule: loop_induct)
  case (Nil n visited g)
  have "x \<in> set visited" if "(root, x) \<in> (related live)\<^sup>*" for x
    using that by induction (use Nil.prems(2,3) in auto)
  then show ?case using Nil.prems(1,4,5) by (auto simp: dag_loop_code)
next
  case (Seen n visited i queue g)
  then show ?case by (auto simp: loop_step(1))
next
  case (Missing n visited i queue g er)
  have "get (2 * n) i = Inr y" if "live i = Some y" for y using that assms by (simp add: reads_live_def)
  then have dead: "i \<notin> dom live" using Missing.hyps(2) by auto
  then have "related live `` {i} = {}" by (auto simp: related_def)
  then show ?case using Missing dead by (intro Missing.IH) (auto simp: loop_step(2)[OF Missing.hyps(1,2)])
next
  case (Visit n visited i queue g t nxt g1)
  have live: "live i = Some t" using Visit.hyps(2) assms by (simp add: reads_live_def)
  have v: "set nxt = related live `` {i}" "fst ` set (d_Nodes g1) = insert i (fst ` set (d_Nodes g))"
    using visit_effect[OF assms live, of "2 * n + 1" g] Visit.hyps(3) by simp_all
  have "set nxt \<subseteq> (related live)\<^sup>* `` {root}" using v(1) Visit.prems(4) by (auto intro: rtrancl_into_rtrancl)
  then show ?case
    using Visit.prems live v by (intro Visit.IH) (auto simp: loop_step(3)[OF Visit.hyps(1-3)])
qed

lemma dag_nodes:
  assumes "reads_live get qry live"
  shows "\<exists>g. get_dag get qry root = Some g \<and> fst ` set (d_Nodes g) = (related live)\<^sup>* `` {root} \<inter> dom live"
proof -
  obtain g where g: "get_dag get qry root = Some g" using dag_returns by blast
  then show ?thesis using loop_nodes[OF assms, of 0 "[]" "[root]" _ g root] by (simp add: get_dag_def)
qed

end

section \<open>In and Read\<close>

text \<open>The outside of a polling call: the clock when the deadline is set and at the loop test of each round,
  whether the context is done when the round waits, and what others do to the store meanwhile.\<close>

record 's poll =
  p_start :: gotime
  p_now :: "nat \<Rightarrow> gotime"
  p_done :: "nat \<Rightarrow> bool"
  p_other :: "nat \<Rightarrow> 's \<Rightarrow> 's"

text \<open>The loop; \<open>call i\<close> is the store call of round \<open>i\<close>, the fuel bounds the rounds.\<close>

fun poll_loop ::
  "(nat \<Rightarrow> 's \<Rightarrow> (store_error + agent option) \<times> 's) \<Rightarrow> nat \<Rightarrow> nat \<Rightarrow> 's poll \<Rightarrow> gotime \<Rightarrow> 's \<Rightarrow>
     ((store_error + agent) \<times> 's) option" where
  "poll_loop call 0 i p deadline s = None"
| "poll_loop call (Suc fuel) i p deadline s =
    (if \<not> p_now p i < deadline then Some (Inl ErrTimeout, s)
     else case call i s of
       (Inl er, s') \<Rightarrow> Some (Inl er, s')
     | (Inr (Some t), s') \<Rightarrow> Some (Inr t, s')
     | (Inr None, s') \<Rightarrow>
         if p_done p i then Some (Inl ErrDeadline, s')
         else poll_loop call fuel (Suc i) p deadline (p_other p i s'))"

definition poll_until ::
  "(nat \<Rightarrow> 's \<Rightarrow> (store_error + agent option) \<times> 's) \<Rightarrow> nat \<Rightarrow> 's poll \<Rightarrow> duration \<Rightarrow> 's \<Rightarrow> ((store_error + agent) \<times> 's) option" where
  "poll_until call fuel p timeout s = poll_loop call fuel 0 p (p_start p + timeout) s"

text \<open>A Read asks for the first agent of the query.\<close>

definition read_query :: "query option \<Rightarrow> query" where
  "read_query q = (case q of None \<Rightarrow> empty_query | Some x \<Rightarrow> x) \<lparr> q_Limit := 1 \<rparr>"

definition first_of :: "store_error + agent list \<Rightarrow> store_error + agent option" where
  "first_of r = bindr r (\<lambda>ts. Inr (case ts of [] \<Rightarrow> None | t # _ \<Rightarrow> Some t))"

lemma poll_loop_ends:
  "\<not> p_now p (i + n) < deadline \<Longrightarrow> \<exists>y. poll_loop call (Suc n) i p deadline s = Some y"
proof (induction n arbitrary: i s)
  case (Suc n)
  have "\<exists>y. poll_loop call (Suc n) (Suc i) p deadline s' = Some y" for s' using Suc.IH[of "Suc i" s'] Suc.prems by simp
  then show ?case
    unfolding poll_loop.simps(2)[of call "Suc n"] by (simp del: poll_loop.simps split: prod.split sum.split option.split)
qed simp

lemma poll_rounds:
  assumes "p_start p \<le> p_now p 0" "\<And>n. p_now p n + step \<le> p_now p (Suc n)" "0 \<le> timeout" "0 < step"
  shows "\<exists>y. poll_until call (Suc (Suc (nat (timeout div step)))) p timeout s = Some y"
proof -
  have pass: "p_now p 0 + int n * step \<le> p_now p n" for n
  proof (induction n)
    case (Suc n)
    then show ?case using assms(2)[of n] by (simp add: algebra_simps)
  qed simp
  let ?n = "Suc (nat (timeout div step))"
  have t: "timeout div step * step + timeout mod step = timeout" by (rule div_mult_mod_eq)
  have m: "timeout mod step < step" "0 \<le> timeout div step"
    using assms(3,4) by (simp_all add: pos_imp_zdiv_nonneg_iff)
  have "timeout \<le> (timeout div step + 1) * step" using t m(1) unfolding distrib_right by linarith
  moreover have "int ?n = timeout div step + 1" using m(2) by simp
  ultimately have "timeout \<le> int ?n * step" by (simp only:)
  then have "\<not> p_now p (0 + ?n) < p_start p + timeout" using pass[of ?n] assms(1) by simp
  then show ?thesis unfolding poll_until_def by (rule poll_loop_ends)
qed

text \<open>What a polling call returns, one of its rounds returned; \<open>I\<close> is an invariant of the rounds and of what happens
  in between.\<close>

lemma poll_loop_result:
  assumes "poll_loop call fuel i p deadline s = Some (Inr t, s')" "I s"
    and "\<And>k s. I s \<Longrightarrow> I (snd (call k s))" "\<And>k s. I s \<Longrightarrow> I (p_other p k s)"
  shows "\<exists>k s1. I s1 \<and> call k s1 = (Inr (Some t), s')"
  using assms(1,2)
proof (induction fuel arbitrary: i s)
  case (Suc fuel)
  obtain r s1 where r: "call i s = (r, s1)" by force
  show ?case
  proof (cases "\<exists>t. r = Inr (Some t)")
    case True
    then show ?thesis using Suc.prems r by (intro exI[of _ i] exI[of _ s]) (auto split: if_splits)
  next
    case False
    then have "poll_loop call fuel (Suc i) p deadline (p_other p i s1) = Some (Inr t, s')"
      using Suc.prems(1) r by (auto split: if_splits sum.splits option.splits)
    moreover have "I (p_other p i s1)" using assms(3)[OF Suc.prems(2), of i] assms(4) r by simp
    ultimately show ?thesis using Suc.IH by blast
  qed
qed simp

end
