(* ===== verification/Sqlite_Graph.thy ===== *)
theory Sqlite_Graph
  imports Sqlite_Leases Store_Graph
begin

text \<open>
  The traversal of related agents (GetDAG of \<^verbatim>\<open>sqlite_lifecycle.go\<close>) and the polling reads (In and Read of
  \<^verbatim>\<open>sqlite_query.go\<close>) of the SQLite store, on top of the loops all backends share.  GetDAG reads with a
  sequence of environments over tables that do not change while it runs.  In and Read run for as many rounds as
  they are given fuel; between two rounds other clients may change the store.
\<close>

section \<open>GetDAG\<close>

definition SQLiteGetDAG :: "(nat \<Rightarrow> env) \<Rightarrow> db \<Rightarrow> string \<Rightarrow> dag option" where
  "SQLiteGetDAG es d rootID = get_dag (\<lambda>n. SQLiteGet (es n) d) (\<lambda>n. SQLiteQuery (es n) d) rootID"

section \<open>In and Read\<close>

definition pollInterval :: duration where
  "pollInterval = 100 * Millisecond"

definition SQLiteIn ::
  "nat \<Rightarrow> (nat \<Rightarrow> env) \<Rightarrow> sqlite_store poll \<Rightarrow> query option \<Rightarrow> duration \<Rightarrow> sqlite_store \<Rightarrow> ((store_error + agent) \<times> sqlite_store) option" where
  "SQLiteIn fuel es p q timeout s = poll_until (\<lambda>i s. SQLiteTake (es i) s q) fuel p timeout s"

definition SQLiteRead ::
  "nat \<Rightarrow> (nat \<Rightarrow> env) \<Rightarrow> sqlite_store poll \<Rightarrow> query option \<Rightarrow> duration \<Rightarrow> sqlite_store \<Rightarrow> ((store_error + agent) \<times> sqlite_store) option" where
  "SQLiteRead fuel es p q timeout s =
    poll_until (\<lambda>i s. (first_of (SQLiteQuery (es i) (s_db s) (Some (read_query q))), s)) fuel p timeout s"

section \<open>What GetDAG reaches\<close>

lemma SQLiteGet_row: "SQLiteGet e d i = Inr t \<Longrightarrow> \<exists>r \<in> set (db_agents d). scanSQLiteAgent r = Inr t"
  by (auto simp: SQLiteGet_def fetch_def select_by_id_def dest: find_SomeD split: if_splits option.splits)

lemma SQLiteQuery_rows:
  assumes "SQLiteQuery e d q = Inr ts" "t \<in> set ts"
  shows "\<exists>r \<in> set (db_agents d). scanSQLiteAgent r = Inr t"
proof -
  obtain wh nf where b: "buildSQLiteWhereClauses q False (UnixMilli (clock e 0)) = (wh, nf)" by force
  have scan: "x \<in> set (scan_loop nf q rows) \<Longrightarrow> \<exists>r \<in> set rows. scanSQLiteAgent r = Inr x" for x rows
    by (induction rows) (auto simp: scan_loop_def List.map_filter_simps split: sum.splits if_splits option.splits)
  have "ts = (if nf \<and> q \<noteq> None then mem_page (q_limit q) (q_offset q) (scan_loop nf q (select_where wh d))
      else scan_loop nf q (if nf then select_where wh d else sql_page (q_limit q) (q_offset q) (select_where wh d)))"
    using assms(1) b by (auto simp: SQLiteQuery_def Let_def split: if_splits)
  then obtain rows where "t \<in> set (scan_loop nf q rows)" "set rows \<subseteq> set (select_where wh d)"
    using assms(2) set_sql_page[of "q_limit q" "q_offset q" "select_where wh d"]
      set_sql_page[of "q_limit q" "q_offset q" "scan_loop nf q (select_where wh d)"]
    by (auto simp: mem_page_eq split: if_splits)
  then show ?thesis using scan[of t rows] by (fastforce simp: select_where_def)
qed

text \<open>The ids the traversal can come across.\<close>

definition known_ids :: "db \<Rightarrow> string set" where
  "known_ids d = r_id ` set (db_agents d) \<union> r_parent_id ` set (db_agents d)"

lemma known_ids_finite [simp]: "finite (known_ids d)"
  by (simp add: known_ids_def)

interpretation sqlite_dag: dag_source "\<lambda>n. SQLiteGet (es n) d" "\<lambda>n. SQLiteQuery (es n) d" "known_ids d" for es d
proof unfold_locales
  show "a_ParentID t \<in> known_ids d" if "SQLiteGet (es n) d i = Inr t" for n i t
    using SQLiteGet_row[OF that] scan_fields(5) by (force simp: known_ids_def)
  show "a_ID c \<in> known_ids d" if "SQLiteQuery (es n) d q = Inr cs" "c \<in> set cs" for n q cs c
    using SQLiteQuery_rows[OF that] scan_fields(1) by (force simp: known_ids_def)
qed simp

text \<open>Environments of a traversal without faults, all at one time, and the agents visible then.\<close>

definition steady :: "(nat \<Rightarrow> env) \<Rightarrow> int \<Rightarrow> bool" where
  "steady es nowMs \<longleftrightarrow> (\<forall>n. UnixMilli (clock (es n) 0) = nowMs \<and> (\<forall>c. \<not> fault (es n) c))"

definition live_agent :: "int \<Rightarrow> db \<Rightarrow> string \<Rightarrow> agent option" where
  "live_agent nowMs d i = (case row_of d i of None \<Rightarrow> None | Some r \<Rightarrow> if ttl_alive nowMs r then Some (scanned r) else None)"

lemma SQLiteGet_steady:
  assumes "wf_db d" "steady es nowMs"
  shows "SQLiteGet (es n) d i = (case row_of d i of Some r \<Rightarrow>
      if ttl_alive nowMs r then Inr (scanned r) else Inl (ErrNotFound i) | None \<Rightarrow> Inl (ErrNotFound i))"
proof -
  have e: "\<not> fault (es n) CSelect" "UnixMilli (clock (es n) 0) = nowMs" using assms(2) by (auto simp: steady_def)
  note sr = select_by_id_row_of[OF assms(1), of i nowMs]
  show ?thesis
  proof (cases "select_by_id d i nowMs")
    case None
    then have "\<not> (row_of d i = Some r \<and> ttl_alive nowMs r)" for r using sr[of r] by simp
    then show ?thesis using None e by (cases "row_of d i") (simp_all add: SQLiteGet_def fetch_def)
  next
    case (Some r)
    then have r: "row_of d i = Some r" "ttl_alive nowMs r" using sr[of r] by simp_all
    then show ?thesis using Some e scanned_wf[OF row_of_wf[OF assms(1) r(1)]] by (simp add: SQLiteGet_def fetch_def)
  qed
qed

lemma live_agent_row:
  assumes "wf_db d"
  shows "live_agent nowMs d i = Some t \<longleftrightarrow> (\<exists>r \<in> set (db_agents d). r_id r = i \<and> ttl_alive nowMs r \<and> scanned r = t)"
proof
  assume "live_agent nowMs d i = Some t"
  then show "\<exists>r \<in> set (db_agents d). r_id r = i \<and> ttl_alive nowMs r \<and> scanned r = t"
    by (auto simp: live_agent_def row_of_iff[OF assms] split: option.splits if_splits)
next
  assume "\<exists>r \<in> set (db_agents d). r_id r = i \<and> ttl_alive nowMs r \<and> scanned r = t"
  then obtain r where "row_of d i = Some r" "ttl_alive nowMs r" "scanned r = t" using row_of_iff[OF assms] by blast
  then show "live_agent nowMs d i = Some t" by (simp add: live_agent_def)
qed

lemma children_ids:
  assumes "wf_db d" "steady es nowMs" "a_ID t \<noteq> []"
  shows "\<exists>cs. SQLiteQuery (es n) d (Some (children_query t)) = Inr cs \<and>
    a_ID ` set cs = {j. \<exists>c. live_agent nowMs d j = Some c \<and> a_ParentID c = a_ID t}"
proof -
  have nf: "\<not> fault (es n) CSelect" "\<not> fault (es n) CScanRows" "UnixMilli (clock (es n) 0) = nowMs"
    using assms(2) by (auto simp: steady_def)
  have q: "q_offset (Some (children_query t)) = 0" "q_limit (Some (children_query t)) = 0"
    by (simp_all add: q_offset_def q_limit_def children_query_def empty_query_def)
  let ?cs = "filter (query_selects (Some (children_query t))) (visible_agents nowMs d)"
  have "SQLiteQuery (es n) d (Some (children_query t)) = Inr ?cs"
    using SQLiteQuery_spec[OF assms(1) nf(1,2), of "Some (children_query t)"] q nf(3) by (simp add: sql_page_def)
  moreover have "a_ID ` set ?cs = {j. \<exists>c. live_agent nowMs d j = Some c \<and> a_ParentID c = a_ID t}"
  proof -
    have wf: "wf_row c" if "c \<in> set (db_agents d)" for c using assms(1) that by (auto simp: wf_db_def list_all_iff)
    have "a_ID (scanned c) = r_id c" if "c \<in> set (db_agents d)" for c
      using scan_fields[OF scanned_wf[OF wf[OF that]]] by simp
    moreover have "query_selects (Some (children_query t)) c \<longleftrightarrow> a_ParentID c = a_ID t" for c
      using assms(3) by (simp add: query_selects_def MatchesQuery_Some children_query_def empty_query_def)
    ultimately show ?thesis by (force simp: visible_agents_def live_agent_row[OF assms(1)])
  qed
  ultimately show ?thesis by blast
qed

lemma sqlite_reads_live:
  assumes "wf_db d" "steady es nowMs" "\<And>r. r \<in> set (db_agents d) \<Longrightarrow> r_id r \<noteq> []"
  shows "reads_live (\<lambda>n. SQLiteGet (es n) d) (\<lambda>n. SQLiteQuery (es n) d) (live_agent nowMs d)"
proof -
  have id: "a_ID t = i \<and> i \<noteq> []" if "live_agent nowMs d i = Some t" for i t
    using that assms(1,3) scan_fields(1)[OF scanned_wf]
    by (auto simp: live_agent_row[OF assms(1)] wf_db_def list_all_iff)
  have get: "SQLiteGet (es n) d i = Inr t \<longleftrightarrow> live_agent nowMs d i = Some t" for n i t
    unfolding SQLiteGet_steady[OF assms(1,2)] by (simp add: live_agent_def split: option.splits)
  show ?thesis unfolding reads_live_def
  proof (intro conjI allI impI)
    fix n i t assume "live_agent nowMs d i = Some t"
    with id[OF this] children_ids[OF assms(1,2), of t n]
    show "\<exists>cs. SQLiteQuery (es n) d (Some (children_query t)) = Inr cs \<and>
        a_ID ` set cs = {j. \<exists>c. live_agent nowMs d j = Some c \<and> a_ParentID c = i}" by simp
  qed (use get id in blast)+
qed

text \<open>C37: GetDAG returns on every table, and without faults it collects exactly the live agents connected to the
  root through parent and child links of live agents.\<close>

theorem SQLiteGetDAG_nodes:
  assumes "wf_db d" "\<And>r. r \<in> set (db_agents d) \<Longrightarrow> r_id r \<noteq> []" "steady es nowMs"
  shows "\<exists>g. SQLiteGetDAG es d root = Some g \<and>
    fst ` set (d_Nodes g) = (related (live_agent nowMs d))\<^sup>* `` {root} \<inter> dom (live_agent nowMs d)"
  unfolding SQLiteGetDAG_def by (rule sqlite_dag.dag_nodes[OF sqlite_reads_live[OF assms(1,3,2)]])

text \<open>A parent with one child.\<close>

definition family_db :: db where
  "family_db = \<lparr> db_agents = [demo_row ''p'' 1, (demo_row ''c'' 2) \<lparr> r_parent_id := ''p'' \<rparr>], db_events = [] \<rparr>"

theorem SQLiteGetDAG_nodes_witness:
  "(related (live_agent 5000 family_db))\<^sup>* `` {''c''} \<inter> dom (live_agent 5000 family_db) = {''c'', ''p''}"
proof -
  have "\<exists>g. SQLiteGetDAG (\<lambda>_. quiet_env) family_db ''c'' = Some g \<and>
      fst ` set (d_Nodes g) = (related (live_agent 5000 family_db))\<^sup>* `` {''c''} \<inter> dom (live_agent 5000 family_db)"
    by (rule SQLiteGetDAG_nodes)
      (auto simp: family_db_def demo_row_def wf_db_def wf_row_def is_object_def is_str_doc_def steady_def quiet_env_def UnixMilli_def)
  then obtain g where g: "SQLiteGetDAG (\<lambda>_. quiet_env) family_db ''c'' = Some g"
    "fst ` set (d_Nodes g) = (related (live_agent 5000 family_db))\<^sup>* `` {''c''} \<inter> dom (live_agent 5000 family_db)" by blast
  have "map_option (map fst \<circ> d_Nodes) (SQLiteGetDAG (\<lambda>_. quiet_env) family_db ''c'') = Some [''c'', ''p'']" by code_simp
  then have "map fst (d_Nodes g) = [''c'', ''p'']" unfolding g(1) by simp
  then have "fst ` set (d_Nodes g) = {''c'', ''p''}" by (metis list.set_map set_simps)
  then show ?thesis unfolding g(2) .
qed

section \<open>Polling ends\<close>

text \<open>C38: the blocking calls end.  If every round takes at least the poll interval, In and Read with a timeout
  return within \<open>timeout / pollInterval + 2\<close> rounds, whatever the other clients do to the store in
  between.\<close>

theorem SQLiteIn_Read_return:
  assumes "p_start p \<le> p_now p 0" "\<And>n. p_now p n + pollInterval \<le> p_now p (Suc n)" "0 \<le> timeout"
  defines "fuel \<equiv> Suc (Suc (nat (timeout div pollInterval)))"
  shows "(\<exists>y. SQLiteIn fuel es p q timeout s = Some y) \<and> (\<exists>y. SQLiteRead fuel es p q timeout s = Some y)"
proof -
  have "0 < pollInterval" by (simp add: pollInterval_def Millisecond_def)
  then show ?thesis
    unfolding SQLiteIn_def SQLiteRead_def fuel_def using poll_rounds[OF assms(1-3)] by blast
qed

definition demo_poll :: "sqlite_store poll" where
  "demo_poll = \<lparr> p_start = 0, p_now = (\<lambda>n. int n * 100000000), p_done = (\<lambda>_. False), p_other = (\<lambda>_ s. s) \<rparr>"

theorem SQLiteIn_Read_return_witness:
  "\<exists>y. SQLiteIn (Suc (Suc (nat (1000000000 div pollInterval)))) (\<lambda>_. quiet_env) demo_poll None 1000000000 empty_store = Some y"
  using SQLiteIn_Read_return[of demo_poll 1000000000 "\<lambda>_. quiet_env" None empty_store]
  by (simp add: demo_poll_def pollInterval_def Millisecond_def algebra_simps)

end
