(* ===== verification/Pg_Rows.thy ===== *)
theory Pg_Rows
  imports Sql_Common
begin

text \<open>
  The tables of the Postgres backend and the row-level functions of \<^verbatim>\<open>postgres_sql_helpers.go\<close>.

  A table is the list of its rows.  The columns are those the migrations under
  \<^verbatim>\<open>migrations/postgres\<close> lead to: times are \<^verbatim>\<open>timestamptz\<close> values, counted here in microseconds since
  the Unix epoch; \<^verbatim>\<open>queue\<close> and \<^verbatim>\<open>namespace_id\<close> are columns of their own; \<^verbatim>\<open>shard_id\<close> was added without a
  default and may be NULL; JSON columns hold documents whose member order has no meaning.  The event
  table is partitioned by day and has the key \<^verbatim>\<open>(timestamp, id)\<close>: an insert fails on a used key and on a
  day without a partition.  The \<^verbatim>\<open>Tags\<close> slice of a written agent is not nil, text has no NUL byte.

  An UPDATE is \<^verbatim>\<open>sql_update\<close>: it changes the rows its condition selects, and the error an expression
  raises on one of them is the error of the statement.
\<close>

section \<open>Environment\<close>

text \<open>
  Besides clock, UUIDs and faults, a Postgres operation depends on the server: the value of \<^verbatim>\<open>now()\<close> in
  its \<open>i\<close>-th transaction, whether \<^verbatim>\<open>pg_try_advisory_xact_lock\<close> succeeds, which rows other transactions
  hold locked, the order of ids in the collation of the database, the SQLSTATE a failing call reports
  (empty when the error does not come from the server) and the values \<^verbatim>\<open>gen_random_uuid()\<close> yields per row.
\<close>

record pg_env = env +
  db_now :: "nat \<Rightarrow> int"
  try_lock :: bool
  row_locked :: "string \<Rightarrow> bool"
  collation :: "string \<Rightarrow> int"
  sql_state :: "db_call \<Rightarrow> string"
  gen_uuid :: "string \<Rightarrow> string"

definition UnixMicro :: "gotime \<Rightarrow> int" where
  "UnixMicro t = t div 1000"

definition time_UnixMicro :: "int \<Rightarrow> gotime" where
  "time_UnixMicro us = us * 1000"

section \<open>Tables\<close>

record pg_row =
  pr_id :: string
  pr_kind :: string
  pr_status :: string
  pr_payload :: json
  pr_tags :: "string list"
  pr_owner :: string
  pr_parent_id :: string
  pr_trace_id :: string
  pr_queue :: string
  pr_namespace_id :: string
  pr_shard_id :: "string option"
  pr_ttl_ms :: int
  pr_created_at :: int
  pr_updated_at :: int
  pr_owner_time :: "int option"
  pr_lease_token :: string
  pr_lease_until :: "int option"
  pr_version :: int
  pr_metadata :: json

record pg_event_row =
  pe_id :: string
  pe_tuple_id :: string
  pe_type :: string
  pe_kind :: string
  pe_timestamp :: int
  pe_agent_id :: string
  pe_trace_id :: string
  pe_version :: int
  pe_data :: json
  pe_namespace_id :: string
  pe_shard_id :: string

text \<open>\<^verbatim>\<open>pd_days\<close> are the UTC days, counted from the epoch, for which the event table has a partition,
  \<^verbatim>\<open>pd_telemetry_days\<close> those of the telemetry table.\<close>

record pg_db =
  pd_agents :: "pg_row list"
  pd_events :: "pg_event_row list"
  pd_days :: "int list"
  pd_telemetry_days :: "int list"

definition micros_per_day :: int where "micros_per_day = 86400000000"

section \<open>Scanning\<close>

definition scan_time :: "int option \<Rightarrow> gotime" where
  "scan_time us = (case us of None \<Rightarrow> zero_time | Some u \<Rightarrow> time_UnixMicro u)"

text \<open>A NULL cannot be scanned into a Go string.\<close>

definition scanAgent :: "pg_row \<Rightarrow> store_error + agent" where
  "scanAgent r = (case pr_shard_id r of None \<Rightarrow> Inl (ErrOther ''scan'') | Some shardID \<Rightarrow>
     bindr (scan_payload (pr_payload r)) (\<lambda>payload.
       let metadata = scan_metadata (pr_metadata r) in
       Inr \<lparr> a_ID = pr_id r, a_Kind = pr_kind r, a_Status = pr_status r, a_ShardID = shardID, a_Payload = payload,
         a_Tags = pr_tags r, a_Owner = pr_owner r, a_ParentID = pr_parent_id r, a_TraceID = pr_trace_id r,
         a_NamespaceID = (if pr_namespace_id r = [] then str_at (or_nil metadata) NamespaceMetadataKey
                          else pr_namespace_id r),
         a_TTL = to_int64 (pr_ttl_ms r * Millisecond), a_CreatedAt = time_UnixMicro (pr_created_at r),
         a_UpdatedAt = time_UnixMicro (pr_updated_at r), a_OwnerTime = scan_time (pr_owner_time r),
         a_LeaseToken = pr_lease_token r, a_LeaseUntil = scan_time (pr_lease_until r),
         a_Version = pr_version r, a_Metadata = metadata \<rparr>))"

definition scanEvent :: "pg_event_row \<Rightarrow> store_error + event" where
  "scanEvent r = bindr (scan_payload (pe_data r)) (\<lambda>data.
     Inr \<lparr> e_ID = pe_id r, e_TupleID = pe_tuple_id r, e_Type = pe_type r, e_Kind = pe_kind r,
       e_Timestamp = time_UnixMicro (pe_timestamp r), e_AgentID = pe_agent_id r,
       e_Data = plain_data (or_nil data), e_TraceID = pe_trace_id r, e_Version = pe_version r \<rparr>)"

section \<open>Writing\<close>

definition time_param :: "gotime \<Rightarrow> int option" where
  "time_param t = (if IsZero t then None else Some (UnixMicro t))"

text \<open>The bound parameters of the INSERT and UPDATE statements; a version is an int64 in Go.\<close>

definition pg_columns :: "agent \<Rightarrow> store_error + pg_row" where
  "pg_columns t = (case json_opt_map (a_Payload t) of None \<Rightarrow> Inl ErrMarshal | Some payloadJSON \<Rightarrow>
     Inr \<lparr> pr_id = a_ID t, pr_kind = a_Kind t, pr_status = a_Status t, pr_payload = payloadJSON,
       pr_tags = a_Tags t, pr_owner = a_Owner t, pr_parent_id = a_ParentID t, pr_trace_id = a_TraceID t,
       pr_queue = str_at (or_nil (a_Metadata t)) QueueMetadataKey, pr_namespace_id = a_NamespaceID t,
       pr_shard_id = Some (a_ShardID t), pr_ttl_ms = ttl_ms_of (a_TTL t),
       pr_created_at = UnixMicro (a_CreatedAt t), pr_updated_at = UnixMicro (a_UpdatedAt t),
       pr_owner_time = time_param (a_OwnerTime t), pr_lease_token = a_LeaseToken t,
       pr_lease_until = time_param (a_LeaseUntil t), pr_version = to_int64 (a_Version t),
       pr_metadata = json_str_map (a_Metadata t) \<rparr>)"

definition put_pg_row :: "pg_row \<Rightarrow> pg_row list \<Rightarrow> pg_row list" where
  "put_pg_row r rows =
    (if pr_id r \<in> pr_id ` set rows then map (\<lambda>x. if pr_id x = pr_id r then r else x) rows else rows @ [r])"

definition upsertAgent :: "pg_env \<Rightarrow> db_call \<Rightarrow> pg_db \<Rightarrow> agent \<Rightarrow> store_error + agent \<times> pg_db" where
  "upsertAgent e c d t =
    (let t = sync_namespace t in
     bindr (pg_columns t) (\<lambda>r.
       if fault e c then Inl (ErrDB c)
       else Inr (t, d \<lparr> pd_agents := put_pg_row r (pd_agents d) \<rparr>)))"

definition updateAgentRow :: "pg_env \<Rightarrow> db_call \<Rightarrow> pg_db \<Rightarrow> agent \<Rightarrow> store_error + agent \<times> pg_db" where
  "updateAgentRow e c d t =
    (let t = sync_namespace t in
     bindr (pg_columns t) (\<lambda>r.
       if fault e c then Inl (ErrDB c)
       else Inr (t, d \<lparr> pd_agents := map (\<lambda>x. if pr_id x = a_ID t then r else x) (pd_agents d) \<rparr>)))"

text \<open>Only the columns a completion touches are written.\<close>

definition completion_columns :: "pg_row \<Rightarrow> pg_row \<Rightarrow> pg_row" where
  "completion_columns r x = x \<lparr> pr_status := pr_status r, pr_payload := pr_payload r, pr_owner := pr_owner r,
     pr_owner_time := pr_owner_time r, pr_lease_token := pr_lease_token r, pr_lease_until := pr_lease_until r,
     pr_updated_at := pr_updated_at r, pr_version := pr_version r, pr_metadata := pr_metadata r,
     pr_namespace_id := pr_namespace_id r \<rparr>"

definition updateAgentCompletionRow :: "pg_env \<Rightarrow> db_call \<Rightarrow> pg_db \<Rightarrow> agent \<Rightarrow> store_error + agent \<times> pg_db" where
  "updateAgentCompletionRow e c d t =
    (let t = sync_namespace t in
     bindr (pg_columns t) (\<lambda>r.
       if fault e c then Inl (ErrDB c)
       else Inr (t, d \<lparr> pd_agents := map (\<lambda>x. if pr_id x = a_ID t then completion_columns r x else x)
                                       (pd_agents d) \<rparr>)))"

definition pg_event_columns :: "event \<Rightarrow> json \<Rightarrow> string \<Rightarrow> string \<Rightarrow> pg_event_row" where
  "pg_event_columns ev dataJSON namespaceID shardID = \<lparr> pe_id = e_ID ev, pe_tuple_id = e_TupleID ev,
     pe_type = e_Type ev, pe_kind = e_Kind ev, pe_timestamp = UnixMicro (e_Timestamp ev),
     pe_agent_id = e_AgentID ev, pe_trace_id = e_TraceID ev, pe_version = e_Version ev, pe_data = dataJSON,
     pe_namespace_id = namespaceID, pe_shard_id = shardID \<rparr>"

text \<open>The INSERT itself: the day must have a partition, the key must be new.\<close>

definition exec_insert_event :: "pg_env \<Rightarrow> db_call \<Rightarrow> pg_db \<Rightarrow> pg_event_row \<Rightarrow> store_error + pg_db" where
  "exec_insert_event e c d r =
    (if fault e c then Inl (ErrDB c)
     else if pe_timestamp r div micros_per_day \<notin> set (pd_days d) then Inl (ErrSQL ''23514'')
     else if (pe_timestamp r, pe_id r) \<in> (\<lambda>x. (pe_timestamp x, pe_id x)) ` set (pd_events d)
     then Inl (ErrDuplicateEvent (pe_id r))
     else Inr (d \<lparr> pd_events := pd_events d @ [r] \<rparr>))"

definition insertEvent :: "pg_env \<Rightarrow> db_call \<Rightarrow> pg_db \<Rightarrow> event \<Rightarrow> string \<Rightarrow> string \<Rightarrow> store_error + pg_db" where
  "insertEvent e c d ev namespaceID shardID =
    (case event_data_json (e_Data ev) of None \<Rightarrow> Inl ErrMarshal | Some dataJSON \<Rightarrow>
       exec_insert_event e c d (pg_event_columns ev dataJSON namespaceID shardID))"

text \<open>Queueing marshals now and executes the statement when the batch is sent.\<close>

definition queueInsertEvent ::
  "pg_event_row list \<Rightarrow> event \<Rightarrow> string \<Rightarrow> string \<Rightarrow> store_error + pg_event_row list" where
  "queueInsertEvent batch ev namespaceID shardID =
    (case event_data_json (e_Data ev) of None \<Rightarrow> Inl ErrMarshal
     | Some dataJSON \<Rightarrow> Inr (batch @ [pg_event_columns ev dataJSON namespaceID shardID]))"

section \<open>SQL expressions\<close>

text \<open>\<^verbatim>\<open>ttl_ms = 0 OR created_at + (ttl_ms * interval '1 millisecond') > now()\<close>\<close>

definition pg_alive :: "int \<Rightarrow> pg_row \<Rightarrow> bool" where
  "pg_alive now r \<longleftrightarrow> pr_ttl_ms r = 0 \<or> pr_created_at r + pr_ttl_ms r * 1000 > now"

text \<open>\<^verbatim>\<open>version + 1\<close> on a bigint.\<close>

definition sql_inc :: "int \<Rightarrow> store_error + int" where
  "sql_inc v = (if v = 9223372036854775807 then Inl (ErrSQL ''22003'') else Inr (v + 1))"

text \<open>Adding an interval fails at the end of the timestamp range, the year 294277.  (The product with the
  interval is exact: the server computes it in double precision, exact below 285 years.)\<close>

definition add_interval :: "int \<Rightarrow> int \<Rightarrow> store_error + int" where
  "add_interval now us = (if 9224318016000000000 \<le> now + us then Inl (ErrSQL ''22008'') else Inr (now + us))"

text \<open>\<^verbatim>\<open>metadata->>'k'\<close>; the writers store string members only.\<close>

definition json_text :: "json \<Rightarrow> string \<Rightarrow> string option" where
  "json_text j k = (case j of JObj kvs \<Rightarrow> (case map_of kvs k of Some (JStr s) \<Rightarrow> Some s | _ \<Rightarrow> None) | _ \<Rightarrow> None)"

text \<open>\<^verbatim>\<open>(metadata->>'k') ~ '^[0-9]+$' AND (metadata->>'k')::bigint > 0\<close>, with the number when it holds.\<close>

definition lease_number :: "json \<Rightarrow> string \<Rightarrow> store_error + int option" where
  "lease_number meta k = (case json_text meta k of None \<Rightarrow> Inr None | Some s \<Rightarrow>
     if s = [] \<or> \<not> list_all is_digit s then Inr None
     else if 9223372036854775807 < digits_val s then Inl (ErrSQL ''22003'')
     else Inr (if 0 < digits_val s then Some (digits_val s) else None))"

text \<open>The CASE expression for \<^verbatim>\<open>lease_until\<close>.\<close>

definition sql_lease_until :: "int \<Rightarrow> int \<Rightarrow> json \<Rightarrow> store_error + int" where
  "sql_lease_until now defaultLeaseMs meta =
    bindr (lease_number meta ''lease_sec'') (\<lambda>sec. case sec of
      Some n \<Rightarrow> add_interval now (n * 1000000)
    | None \<Rightarrow> bindr (lease_number meta ''lease_ms'') (\<lambda>ms. case ms of
        Some n \<Rightarrow> add_interval now (n * 1000)
      | None \<Rightarrow> add_interval now (defaultLeaseMs * 1000)))"

text \<open>\<^verbatim>\<open>jsonb_set(payload, '{result}', v, true)\<close> fails on anything but an object; \<^verbatim>\<open>metadata || v\<close> merges two
  objects and otherwise makes an array of its operands.\<close>

definition jsonb_set :: "json \<Rightarrow> string \<Rightarrow> json \<Rightarrow> store_error + json" where
  "jsonb_set j k v = (case j of JObj kvs \<Rightarrow> Inr (JObj (AList.update k v kvs)) | _ \<Rightarrow> Inl (ErrSQL ''22023''))"

definition jsonb_concat :: "json \<Rightarrow> string gomap \<Rightarrow> json" where
  "jsonb_concat j m = (let members = map (map_prod id JStr) m in case j of
     JObj kvs \<Rightarrow> JObj (map_merge kvs members)
   | JArr js \<Rightarrow> JArr (js @ [JObj members])
   | _ \<Rightarrow> JArr [j, JObj members])"

section \<open>UPDATE ... RETURNING\<close>

fun upd_rows ::
  "(pg_row \<Rightarrow> bool) \<Rightarrow> (pg_row \<Rightarrow> store_error + pg_row) \<Rightarrow> pg_row list \<Rightarrow> store_error + pg_row list \<times> pg_row list"
where
  "upd_rows P f [] = Inr ([], [])"
| "upd_rows P f (r # rs) =
    (if P r then bindr (f r) (\<lambda>r'. bindr (upd_rows P f rs) (\<lambda>(ret, rs'). Inr (r' # ret, r' # rs')))
     else bindr (upd_rows P f rs) (\<lambda>(ret, rs'). Inr (ret, r # rs')))"

definition sql_update ::
  "pg_env \<Rightarrow> db_call \<Rightarrow> (pg_row \<Rightarrow> bool) \<Rightarrow> (pg_row \<Rightarrow> store_error + pg_row) \<Rightarrow> pg_db \<Rightarrow>
     store_error + pg_row list \<times> pg_db" where
  "sql_update e c P f d =
    (if fault e c then Inl (ErrDB c)
     else bindr (upd_rows P f (pd_agents d)) (\<lambda>(ret, rows). Inr (ret, d \<lparr> pd_agents := rows \<rparr>)))"

section \<open>Well-formed tables\<close>

definition wf_pg_row :: "pg_row \<Rightarrow> bool" where
  "wf_pg_row r \<longleftrightarrow> (is_object (pr_payload r) \<or> pr_payload r = JNull) \<and> pr_shard_id r \<noteq> None \<and>
     int64_range (pr_version r) \<and>
     pr_queue r = str_at (or_nil (scan_metadata (pr_metadata r))) QueueMetadataKey \<and>
     pr_namespace_id r = str_at (or_nil (scan_metadata (pr_metadata r))) NamespaceMetadataKey \<and>
     (case pr_metadata r of JObj kvs \<Rightarrow> list_all (is_str_doc \<circ> snd) kvs | _ \<Rightarrow> False)"

definition wf_pg :: "pg_db \<Rightarrow> bool" where
  "wf_pg d \<longleftrightarrow> distinct (map pr_id (pd_agents d)) \<and> list_all wf_pg_row (pd_agents d)"

definition pg_row_of :: "pg_db \<Rightarrow> string \<Rightarrow> pg_row option" where
  "pg_row_of d i = find (\<lambda>r. pr_id r = i) (pd_agents d)"

end
