(* ===== verification/Pg_Query.thy ===== *)
theory Pg_Query
  imports Pg_Rows
begin

text \<open>
  The read side of the Postgres backend: the WHERE builders and \<^verbatim>\<open>shiftPlaceholders\<close> of
  \<^verbatim>\<open>postgres_query.go\<close>, Query, Count and CountByStatus, Get of \<^verbatim>\<open>postgres_lifecycle.go\<close> and the event
  queries of \<^verbatim>\<open>postgres_events.go\<close>.

  A WHERE text with its arguments is modelled twice: as the list of clauses with their placeholder
  numbers, which is what the statements are evaluated with, and as the text the code builds from them,
  which is what \<^verbatim>\<open>shiftPlaceholders\<close> rewrites.
\<close>

section \<open>WHERE clauses\<close>

datatype pg_column = ColStatus | ColKind | ColOwner | ColParentID | ColTraceID | ColNamespaceID | ColQueue

fun column_value :: "pg_column \<Rightarrow> pg_row \<Rightarrow> string" where
  "column_value ColStatus r = pr_status r"
| "column_value ColKind r = pr_kind r"
| "column_value ColOwner r = pr_owner r"
| "column_value ColParentID r = pr_parent_id r"
| "column_value ColTraceID r = pr_trace_id r"
| "column_value ColNamespaceID r = pr_namespace_id r"
| "column_value ColQueue r = pr_queue r"

text \<open>A clause names its placeholder; a metadata argument is the one-member document \<open>{k: v}\<close>.\<close>

datatype pg_clause = PTTL | PEq pg_column nat | PTags nat | PMeta nat

datatype pg_arg = AStr string | AStrs "string list" | AMember string string

fun clause_sat :: "int \<Rightarrow> pg_arg list \<Rightarrow> pg_clause \<Rightarrow> pg_row \<Rightarrow> bool" where
  "clause_sat now args PTTL r = pg_alive now r"
| "clause_sat now args (PEq col n) r = (args ! (n - 1) = AStr (column_value col r))"
| "clause_sat now args (PTags n) r = (case args ! (n - 1) of AStrs tags \<Rightarrow> set tags \<subseteq> set (pr_tags r) | _ \<Rightarrow> False)"
| "clause_sat now args (PMeta n) r = (case args ! (n - 1) of AMember k v \<Rightarrow> json_text (pr_metadata r) k = Some v | _ \<Rightarrow> False)"

definition where_sat :: "int \<Rightarrow> pg_clause list \<times> pg_arg list \<Rightarrow> pg_row \<Rightarrow> bool" where
  "where_sat now w r = list_all (\<lambda>c. clause_sat now (snd w) c r) (fst w)"

text \<open>Appending a clause and its argument; the running index is one more than the number of arguments.\<close>

definition add_clause ::
  "(nat \<Rightarrow> pg_clause) \<times> pg_arg \<Rightarrow> pg_clause list \<times> pg_arg list \<Rightarrow> pg_clause list \<times> pg_arg list" where
  "add_clause x w = (fst w @ [fst x (length (snd w) + 1)], snd w @ [snd x])"

definition col_clause :: "pg_column \<Rightarrow> string \<Rightarrow> (nat \<Rightarrow> pg_clause) \<times> pg_arg" where
  "col_clause col v = (PEq col, AStr v)"

definition metadata_clause :: "string \<times> string \<Rightarrow> ((nat \<Rightarrow> pg_clause) \<times> pg_arg) option" where
  "metadata_clause kv = (let (k, v) = kv in
     if k = ''agent_id'' then None
     else if k = QueueMetadataKey then Some (col_clause ColQueue v)
     else Some (PMeta, AMember k v))"

definition query_clauses :: "query \<Rightarrow> bool \<Rightarrow> ((nat \<Rightarrow> pg_clause) \<times> pg_arg) list" where
  "query_clauses q forceStatusNew =
    (if forceStatusNew then [col_clause ColStatus StatusNew] else opt_clause (col_clause ColStatus) (q_Status q)) @
    opt_clause (col_clause ColKind) (q_Kind q) @ opt_clause (col_clause ColOwner) (q_Owner q) @
    opt_clause (col_clause ColParentID) (q_ParentID q) @ opt_clause (col_clause ColTraceID) (q_TraceID q) @
    opt_clause (col_clause ColNamespaceID) (q_NamespaceID q) @
    (if q_Tags q \<noteq> [] then [(PTags, AStrs (q_Tags q))] else []) @
    (case q_Metadata q of None \<Rightarrow> [] | Some m \<Rightarrow> List.map_filter metadata_clause m)"

definition buildWhereClauses :: "query option \<Rightarrow> bool \<Rightarrow> pg_clause list \<times> pg_arg list" where
  "buildWhereClauses qo forceStatusNew = (case qo of
     None \<Rightarrow> ([PTTL], [])
   | Some q \<Rightarrow> fold add_clause (query_clauses q forceStatusNew) ([PTTL], []))"

definition buildStrictQueueHeadWhereClauses :: "query option \<Rightarrow> pg_clause list \<times> pg_arg list" where
  "buildStrictQueueHeadWhereClauses qo =
    (let w0 = ([PTTL, PEq ColStatus 1], [AStr StatusNew]) in case qo of
       None \<Rightarrow> w0
     | Some q \<Rightarrow> fold add_clause
         (opt_clause (col_clause ColNamespaceID) (q_NamespaceID q) @
          (case q_Metadata q of None \<Rightarrow> []
           | Some m \<Rightarrow> opt_clause (col_clause ColQueue) (trim_space (str_at m QueueMetadataKey)))) w0)"

section \<open>The text of a WHERE condition\<close>

definition ttlClause :: string where
  "ttlClause = ''(ttl_ms = 0 OR created_at + (ttl_ms * interval '' @ [CHR 0x27] @ ''1 millisecond'' @ [CHR 0x27] @
     '') > now())''"

fun column_name :: "pg_column \<Rightarrow> string" where
  "column_name ColStatus = ''status''"
| "column_name ColKind = ''kind''"
| "column_name ColOwner = ''owner''"
| "column_name ColParentID = ''parent_id''"
| "column_name ColTraceID = ''trace_id''"
| "column_name ColNamespaceID = ''namespace_id''"
| "column_name ColQueue = ''queue''"

definition placeholder :: "nat \<Rightarrow> string" where
  "placeholder n = CHR ''$'' # show_int (int n)"

fun clause_text :: "pg_clause \<Rightarrow> string" where
  "clause_text PTTL = ttlClause"
| "clause_text (PEq col n) = column_name col @ '' = '' @ placeholder n"
| "clause_text (PTags n) = ''tags @> '' @ placeholder n"
| "clause_text (PMeta n) = ''metadata @> '' @ placeholder n @ ''::jsonb''"

definition where_text :: "pg_clause list \<Rightarrow> string" where
  "where_text cs = join_with '' AND '' (map clause_text cs)"

text \<open>\<^verbatim>\<open>ReplaceAllStringFunc\<close> with the pattern \<^verbatim>\<open>\$(\d+)\<close>: every dollar sign with the digits after it.\<close>

function replace_placeholders :: "int \<Rightarrow> string \<Rightarrow> string" where
  "replace_placeholders k [] = []"
| "replace_placeholders k (c # cs) =
    (if c = CHR ''$'' \<and> takeWhile is_digit cs \<noteq> []
     then (case atoi (takeWhile is_digit cs) of
             None \<Rightarrow> CHR ''$'' # takeWhile is_digit cs
           | Some index \<Rightarrow> CHR ''$'' # show_int (index + k)) @ replace_placeholders k (dropWhile is_digit cs)
     else c # replace_placeholders k cs)"
  by pat_completeness auto
termination
  by (relation "measure (length \<circ> snd)") (auto simp: le_imp_less_Suc length_dropWhile_le)

definition shiftPlaceholders :: "string \<Rightarrow> int \<Rightarrow> string" where
  "shiftPlaceholders clause offset =
    (if offset = 0 \<or> clause = [] then clause else replace_placeholders offset clause)"

text \<open>The effect of the rewriting on the clauses.\<close>

fun shift_clause :: "nat \<Rightarrow> pg_clause \<Rightarrow> pg_clause" where
  "shift_clause k PTTL = PTTL"
| "shift_clause k (PEq col n) = PEq col (n + k)"
| "shift_clause k (PTags n) = PTags (n + k)"
| "shift_clause k (PMeta n) = PMeta (n + k)"

section \<open>Get, Query, Count and CountByStatus\<close>

text \<open>\<^verbatim>\<open>ORDER BY created_at ASC, id ASC\<close>\<close>

definition pg_order :: "pg_env \<Rightarrow> pg_row list \<Rightarrow> pg_row list" where
  "pg_order e rows = sort_key pr_created_at (sort_key (\<lambda>r. collation e (pr_id r)) rows)"

definition pg_select :: "pg_env \<Rightarrow> nat \<Rightarrow> pg_clause list \<times> pg_arg list \<Rightarrow> pg_db \<Rightarrow> pg_row list" where
  "pg_select e k w d = pg_order e (filter (where_sat (db_now e k) w) (pd_agents d))"

definition pg_fetch :: "pg_env \<Rightarrow> nat \<Rightarrow> pg_db \<Rightarrow> string \<Rightarrow> store_error + agent" where
  "pg_fetch e k d i =
    (if fault e CSelect then Inl (ErrDB CSelect)
     else case find (\<lambda>r. pr_id r = i \<and> pg_alive (db_now e k) r) (pd_agents d) of
       None \<Rightarrow> Inl (ErrNotFound i) | Some r \<Rightarrow> scanAgent r)"

definition PgGet :: "pg_env \<Rightarrow> pg_db \<Rightarrow> string \<Rightarrow> store_error + agent" where
  "PgGet e d i = pg_fetch e 0 d i"

text \<open>A row whose payload cannot be decoded is skipped; a column that cannot be scanned ends the
  iteration with an error.\<close>

fun pg_scan_rows :: "pg_row list \<Rightarrow> store_error + agent list" where
  "pg_scan_rows [] = Inr []"
| "pg_scan_rows (r # rs) = (case scanAgent r of
     Inl ErrUnmarshal \<Rightarrow> pg_scan_rows rs
   | Inl er \<Rightarrow> Inl er
   | Inr t \<Rightarrow> bindr (pg_scan_rows rs) (\<lambda>ts. Inr (t # ts)))"

definition PgQuery :: "pg_env \<Rightarrow> pg_db \<Rightarrow> query option \<Rightarrow> store_error + agent list" where
  "PgQuery e d qo =
    (if fault e CSelect then Inl (ErrDB CSelect)
     else bindr (pg_scan_rows (sql_page (q_limit qo) (q_offset qo) (pg_select e 0 (buildWhereClauses qo False) d)))
       (\<lambda>agents. if fault e CScanRows then Inl (ErrDB CScanRows) else Inr agents))"

definition PgCount :: "pg_env \<Rightarrow> pg_db \<Rightarrow> query option \<Rightarrow> store_error + int" where
  "PgCount e d qo =
    (if fault e CSelect then Inl (ErrDB CSelect)
     else Inr (int (length (pg_select e 0 (buildWhereClauses qo False) d))))"

definition zero_counts :: "(status \<times> int) list" where
  "zero_counts = [(StatusNew, 0), (StatusInProgress, 0), (StatusCompleted, 0), (StatusFailed, 0), (StatusCancelled, 0)]"

definition group_count :: "pg_row list \<Rightarrow> (status \<times> int) list" where
  "group_count rows = map (\<lambda>s. (s, int (length (filter (\<lambda>r. pr_status r = s) rows)))) (remdups (map pr_status rows))"

definition PgCountByStatus :: "pg_env \<Rightarrow> pg_db \<Rightarrow> query option \<Rightarrow> store_error + (status \<times> int) list" where
  "PgCountByStatus e d qo =
    (let q = (case qo of None \<Rightarrow> empty_query | Some q \<Rightarrow> q \<lparr> q_Status := [], q_Limit := 0, q_Offset := 0 \<rparr>);
         rows = filter (where_sat (db_now e 0) (buildWhereClauses (Some q) False)) (pd_agents d)
     in if fault e CSelect then Inl (ErrDB CSelect)
        else if fault e CScanRows then Inl (ErrDB CScanRows)
        else Inr (map_merge zero_counts (group_count rows)))"

section \<open>Event queries\<close>

definition pg_scan_events :: "pg_event_row list \<Rightarrow> event list" where
  "pg_scan_events rows = List.map_filter (\<lambda>r. case scanEvent r of Inl _ \<Rightarrow> None | Inr ev \<Rightarrow> Some ev) rows"

definition PgGetEvents :: "pg_env \<Rightarrow> pg_db \<Rightarrow> string \<Rightarrow> store_error + event list" where
  "PgGetEvents e d tupleID =
    (if fault e CSelect then Inl (ErrDB CSelect)
     else let evs = pg_scan_events (sort_key pe_timestamp (filter (\<lambda>r. pe_tuple_id r = tupleID) (pd_events d)))
          in if fault e CScanRows then Inl (ErrDB CScanRows) else Inr evs)"

text \<open>A negative OFFSET is an error of the statement.\<close>

definition PgGetGlobalEvents :: "pg_env \<Rightarrow> pg_db \<Rightarrow> int \<Rightarrow> int \<Rightarrow> store_error + event list" where
  "PgGetGlobalEvents e d limit offset =
    (let limit = (if limit \<le> 0 then 100 else limit) in
     if fault e CSelect then Inl (ErrDB CSelect)
     else if offset < 0 then Inl (ErrSQL ''2201X'')
     else let evs = pg_scan_events (take (nat limit) (drop (nat offset) (sort_key (\<lambda>r. - pe_timestamp r) (pd_events d))))
          in if fault e CScanRows then Inl (ErrDB CScanRows) else Inr evs)"

definition pg_event_clauses :: "event_query \<Rightarrow> pg_event_row \<Rightarrow> bool" where
  "pg_event_clauses q r \<longleftrightarrow> (eq_TupleID q = [] \<or> pe_tuple_id r = eq_TupleID q) \<and>
     (eq_AgentID q = [] \<or> pe_agent_id r = eq_AgentID q) \<and> (eq_Type q = [] \<or> pe_type r = eq_Type q) \<and>
     (eq_TraceID q = [] \<or> pe_trace_id r = eq_TraceID q)"

definition PgQueryEvents :: "pg_env \<Rightarrow> pg_db \<Rightarrow> event_query option \<Rightarrow> store_error + event_page" where
  "PgQueryEvents e d qo =
    (let q = (case qo of None \<Rightarrow> empty_event_query | Some q \<Rightarrow> q);
         limit = (if eq_Limit q \<le> 0 then 100 else eq_Limit q);
         offset = (if eq_Offset q < 0 then 0 else eq_Offset q);
         matching = filter (pg_event_clauses q) (pd_events d);
         ordered = (if eq_TupleID q \<noteq> [] then sort_key pe_timestamp matching
                    else sort_key (\<lambda>r. - pe_timestamp r) matching)
     in if fault e CSelect then Inl (ErrDB CSelect)
        else let evs = pg_scan_events (take (nat limit) (drop (nat offset) ordered))
             in if fault e CScanRows then Inl (ErrDB CScanRows)
                else if fault e (CExec 0) then Inl (ErrDB (CExec 0))
                else Inr \<lparr> ep_Events = evs, ep_Total = int (length matching), ep_NextCursor = [] \<rparr>)"

section \<open>Lemmas\<close>

text \<open>A clause maker whose clause reads only the argument it is given the number of.\<close>

definition reads_own :: "(nat \<Rightarrow> pg_clause) \<Rightarrow> bool" where
  "reads_own mk \<longleftrightarrow> (\<forall>now args a rest r.
     clause_sat now (args @ a # rest) (mk (length args + 1)) r = clause_sat now [a] (mk (Suc 0)) r)"

lemma reads_own [simp]: "reads_own (PEq col)" "reads_own PTags" "reads_own PMeta"
  by (simp_all add: reads_own_def nth_append)

lemma where_sat_fold:
  assumes "\<And>x. x \<in> set xs \<Longrightarrow> reads_own (fst x)"
    and "\<And>c rest. c \<in> set cs \<Longrightarrow> clause_sat now (args @ rest) c r = clause_sat now args c r"
  shows "where_sat now (fold add_clause xs (cs, args)) r \<longleftrightarrow>
    where_sat now (cs, args) r \<and> list_all (\<lambda>x. clause_sat now [snd x] (fst x (Suc 0)) r) xs"
  using assms
proof (induction xs arbitrary: cs args)
  case (Cons x xs)
  let ?c = "fst x (length args + 1)"
  have own: "clause_sat now (args @ snd x # rest) ?c r = clause_sat now [snd x] (fst x (Suc 0)) r" for rest
    using Cons.prems(1)[of x] by (auto simp: reads_own_def)
  have "where_sat now (fold add_clause xs (cs @ [?c], args @ [snd x])) r \<longleftrightarrow>
      where_sat now (cs @ [?c], args @ [snd x]) r \<and> list_all (\<lambda>x. clause_sat now [snd x] (fst x (Suc 0)) r) xs"
  proof (rule Cons.IH)
    show "reads_own (fst y)" if "y \<in> set xs" for y using that Cons.prems(1) by simp
    show "clause_sat now ((args @ [snd x]) @ rest) c r = clause_sat now (args @ [snd x]) c r"
      if "c \<in> set (cs @ [?c])" for c rest
      using that Cons.prems(2)[of c "snd x # rest"] Cons.prems(2)[of c "[snd x]"] own[of rest] own[of "[]"] by auto
  qed
  moreover have "where_sat now (cs @ [?c], args @ [snd x]) r \<longleftrightarrow>
      where_sat now (cs, args) r \<and> clause_sat now [snd x] (fst x (Suc 0)) r"
    using Cons.prems(2)[of _ "[snd x]"] own[of "[]"] by (auto simp: where_sat_def list_all_iff)
  moreover have "fold add_clause (x # xs) (cs, args) = fold add_clause xs (cs @ [?c], args @ [snd x])"
    by (simp add: add_clause_def[of x "(cs, args)"])
  ultimately show ?case by auto
qed simp

lemma reads_own_query:
  assumes "x \<in> set (query_clauses q force)"
  shows "reads_own (fst x)"
proof -
  have "reads_own (fst y)" if "metadata_clause kv = Some y" for kv y
    using that by (auto simp: metadata_clause_def col_clause_def split: prod.splits if_splits)
  then show ?thesis
    using assms
    by (auto simp: query_clauses_def opt_clause_def col_clause_def List.map_filter_def split: if_splits option.splits)
qed

definition member_sat :: "pg_row \<Rightarrow> string \<times> string \<Rightarrow> bool" where
  "member_sat r kv \<longleftrightarrow> fst kv = ''agent_id'' \<or>
     (if fst kv = QueueMetadataKey then pr_queue r = snd kv else json_text (pr_metadata r) (fst kv) = Some (snd kv))"

lemma metadata_clauses_sat:
  "list_all (\<lambda>x. clause_sat now [snd x] (fst x (Suc 0)) r) (List.map_filter metadata_clause m) \<longleftrightarrow> list_all (member_sat r) m"
proof -
  have "(case metadata_clause kv of None \<Rightarrow> True | Some x \<Rightarrow> clause_sat now [snd x] (fst x (Suc 0)) r) \<longleftrightarrow> member_sat r kv" for kv
    by (cases kv) (auto simp: metadata_clause_def member_sat_def col_clause_def QueueMetadataKey_def)
  note single = this
  show ?thesis
  proof (induction m)
    case (Cons kv m)
    then show ?case using single[of kv] by (cases "metadata_clause kv") (simp_all add: List.map_filter_simps)
  qed (simp add: List.map_filter_simps)
qed

lemma build_where_sat:
  "where_sat now (buildWhereClauses (Some q) force) r \<longleftrightarrow> pg_alive now r \<and>
     (if force then pr_status r = StatusNew else q_Status q = [] \<or> pr_status r = q_Status q) \<and>
     (q_Kind q = [] \<or> pr_kind r = q_Kind q) \<and> (q_Owner q = [] \<or> pr_owner r = q_Owner q) \<and>
     (q_ParentID q = [] \<or> pr_parent_id r = q_ParentID q) \<and> (q_TraceID q = [] \<or> pr_trace_id r = q_TraceID q) \<and>
     (q_NamespaceID q = [] \<or> pr_namespace_id r = q_NamespaceID q) \<and> set (q_Tags q) \<subseteq> set (pr_tags r) \<and>
     list_all (member_sat r) (or_nil (q_Metadata q))"
proof -
  have "where_sat now (buildWhereClauses (Some q) force) r \<longleftrightarrow> pg_alive now r \<and>
      list_all (\<lambda>x. clause_sat now [snd x] (fst x (Suc 0)) r) (query_clauses q force)"
    unfolding buildWhereClauses_def option.case
    by (subst where_sat_fold) (auto simp: where_sat_def dest: reads_own_query)
  then show ?thesis
    by (cases "q_Metadata q"; cases force)
      (simp_all add: query_clauses_def col_clause_def metadata_clauses_sat eq_commute[of "_ :: string"])
qed

lemma build_where_nil: "where_sat now (buildWhereClauses None force) r \<longleftrightarrow> pg_alive now r"
  by (simp add: buildWhereClauses_def where_sat_def)

lemma strict_head_sat:
  "where_sat now (buildStrictQueueHeadWhereClauses (Some q)) r \<longleftrightarrow> pg_alive now r \<and> pr_status r = StatusNew \<and>
     (q_NamespaceID q = [] \<or> pr_namespace_id r = q_NamespaceID q) \<and>
     (let queue = trim_space (str_at (or_nil (q_Metadata q)) QueueMetadataKey) in queue = [] \<or> pr_queue r = queue)"
proof -
  have [simp]: "trim_space [] = []" by (simp add: trim_space_def)
  show ?thesis
    unfolding buildStrictQueueHeadWhereClauses_def Let_def option.case
    by (subst where_sat_fold)
      (auto simp: where_sat_def opt_clause_def col_clause_def or_nil_def split: option.splits if_splits)
qed

subsection \<open>Shifting placeholders\<close>

fun clause_index :: "pg_clause \<Rightarrow> nat option" where
  "clause_index PTTL = None"
| "clause_index (PEq col n) = Some n"
| "clause_index (PTags n) = Some n"
| "clause_index (PMeta n) = Some n"

definition proper_index :: "pg_clause \<Rightarrow> bool" where
  "proper_index c \<longleftrightarrow> (\<forall>n. clause_index c = Some n \<longrightarrow> 1 \<le> n \<and> n \<le> 65535)"

lemma shift_clause_sat:
  "proper_index c \<Longrightarrow> clause_sat now (args' @ args) (shift_clause (length args') c) r = clause_sat now args c r"
proof -
  have "(args' @ args) ! (n + length args' - 1) = args ! (n - 1)" if "1 \<le> n" for n
    using that by (cases n) (simp_all add: nth_append)
  then show "proper_index c \<Longrightarrow> ?thesis" by (cases c) (simp_all add: proper_index_def)
qed

lemma replace_no_dollar:
  "CHR ''$'' \<notin> set s \<Longrightarrow> replace_placeholders k (s @ rest) = s @ replace_placeholders k rest"
  by (induction s) auto

lemma replace_placeholder:
  assumes "n \<le> 65535" "rest = [] \<or> \<not> is_digit (hd rest)"
  shows "replace_placeholders (int k) (placeholder n @ rest) = placeholder (n + k) @ replace_placeholders (int k) rest"
proof -
  let ?ds = "int_digits (int n)"
  have ds: "?ds \<noteq> []" "list_all is_digit ?ds" "digits_val ?ds = int n" using int_digits_spec[of "int n"] by auto
  have sign: "\<not> is_digit (CHR ''-'')" "\<not> is_digit (CHR ''+'')" by (simp_all add: is_digit_def)
  have "hd ?ds \<noteq> CHR ''-''" "hd ?ds \<noteq> CHR ''+''"
    using ds(1,2) sign by (auto simp: list_all_iff dest: hd_in_set)
  then have atoi: "atoi ?ds = Some (int n)" using ds assms(1) by (simp add: atoi_def int64_range_def)
  have "takeWhile is_digit (?ds @ rest) = ?ds" "dropWhile is_digit (?ds @ rest) = rest"
    using ds(2) assms(2) by (cases rest; simp add: takeWhile_append dropWhile_append list_all_iff)+
  then show ?thesis using ds(1) atoi by (simp add: placeholder_def show_int_def)
qed

lemma replace_clause_text:
  assumes "proper_index c" "rest = [] \<or> hd rest = CHR '' ''"
  shows "replace_placeholders (int k) (clause_text c @ rest) =
    clause_text (shift_clause k c) @ replace_placeholders (int k) rest"
proof -
  have rest: "rest = [] \<or> \<not> is_digit (hd rest)" using assms(2) by (auto simp: is_digit_def)
  have cast: "\<not> is_digit (hd (''::jsonb'' @ rest))" by (simp add: is_digit_def)
  have name: "CHR ''$'' \<notin> set (column_name col @ '' = '')" for col by (cases col) simp_all
  show ?thesis
  proof (cases c)
    case PTTL
    then show ?thesis using replace_no_dollar[of ttlClause] by (simp add: ttlClause_def)
  next
    case (PEq col n)
    then show ?thesis
      using replace_no_dollar[OF name[of col], of "int k" "placeholder n @ rest"] replace_placeholder[OF _ rest, of n k]
        assms(1) by (simp add: proper_index_def)
  next
    case (PTags n)
    then show ?thesis
      using replace_no_dollar[of "''tags @> ''" "int k" "placeholder n @ rest"] replace_placeholder[OF _ rest, of n k]
        assms(1) by (simp add: proper_index_def)
  next
    case (PMeta n)
    then show ?thesis
      using replace_no_dollar[of "''metadata @> ''" "int k" "placeholder n @ ''::jsonb'' @ rest"]
        replace_placeholder[of n "''::jsonb'' @ rest" k] replace_no_dollar[of "''::jsonb''" "int k" rest] cast
        assms(1) by (simp add: proper_index_def)
  qed
qed

lemma replace_where_text:
  "list_all proper_index cs \<Longrightarrow> replace_placeholders (int k) (where_text cs) = where_text (map (shift_clause k) cs)"
proof (induction cs rule: induct_list012)
  case (2 c)
  then show ?case using replace_clause_text[of c "[]" k] by (simp add: where_text_def)
next
  case (3 c c' cs)
  then show ?case
    using replace_clause_text[of c "'' AND '' @ where_text (c' # cs)" k]
      replace_no_dollar[of "'' AND ''" "int k" "where_text (c' # cs)"]
    by (simp add: where_text_def)
qed (simp add: where_text_def)

lemma shift_zero: "shift_clause 0 c = c"
  by (cases c) simp_all

lemma shiftPlaceholders_spec:
  assumes "list_all proper_index cs"
  shows "shiftPlaceholders (where_text cs) (int k) = where_text (map (shift_clause k) cs)"
proof (cases "k = 0 \<or> where_text cs = []")
  case True
  have "clause_text c \<noteq> []" for c by (cases c) (simp_all add: ttlClause_def)
  then have "cs = []" if "where_text cs = []" using that by (induction cs rule: induct_list012) (auto simp: where_text_def)
  then show ?thesis using True by (auto simp: shiftPlaceholders_def shift_zero[abs_def] where_text_def comp_def)
next
  case False
  then show ?thesis using replace_where_text[OF assms] by (simp add: shiftPlaceholders_def)
qed

subsection \<open>Query against the reference\<close>

definition pg_scanned :: "pg_row \<Rightarrow> agent" where
  "pg_scanned r = (case scanAgent r of Inr t \<Rightarrow> t | Inl _ \<Rightarrow> empty_agent)"

text \<open>The agents whose time to live has not run out, in the order of creation and id.\<close>

definition pg_visible :: "pg_env \<Rightarrow> pg_db \<Rightarrow> agent list" where
  "pg_visible e d = map pg_scanned (pg_order e (filter (pg_alive (db_now e 0)) (pd_agents d)))"

text \<open>An empty queue name in a query selects the agents without a queue.\<close>

definition names_queue :: "query option \<Rightarrow> bool" where
  "names_queue qo \<longleftrightarrow> (case qo of None \<Rightarrow> True | Some q \<Rightarrow> (QueueMetadataKey, []) \<notin> set (or_nil (q_Metadata q)))"

lemma pg_scan_fields:
  assumes "scanAgent r = Inr t"
  shows "a_ID t = pr_id r" "a_Kind t = pr_kind r" "a_Status t = pr_status r" "a_Owner t = pr_owner r"
    "a_ParentID t = pr_parent_id r" "a_TraceID t = pr_trace_id r" "a_LeaseToken t = pr_lease_token r"
    "a_Version t = pr_version r" "a_Metadata t = scan_metadata (pr_metadata r)" "a_Tags t = pr_tags r"
    "a_CreatedAt t = time_UnixMicro (pr_created_at r)" "a_UpdatedAt t = time_UnixMicro (pr_updated_at r)"
    "a_OwnerTime t = scan_time (pr_owner_time r)" "a_LeaseUntil t = scan_time (pr_lease_until r)"
    "a_TTL t = to_int64 (pr_ttl_ms r * Millisecond)" "pr_shard_id r = Some (a_ShardID t)"
    "a_NamespaceID t = (if pr_namespace_id r = [] then str_at (or_nil (scan_metadata (pr_metadata r))) NamespaceMetadataKey
       else pr_namespace_id r)"
    "scan_payload (pr_payload r) = Inr (a_Payload t)"
  using assms by (auto simp: scanAgent_def bindr_eq_Inr Let_def split: option.splits)

lemma wf_pg_row_scan: "wf_pg_row r \<Longrightarrow> scanAgent r = Inr (pg_scanned r)"
  by (auto simp: wf_pg_row_def scanAgent_def scan_payload_def is_object_def Let_def pg_scanned_def split: json.splits option.splits)

lemma wf_pg_rows_scan: "list_all wf_pg_row rows \<Longrightarrow> pg_scan_rows rows = Inr (map pg_scanned rows)"
  by (induction rows) (simp_all add: wf_pg_row_scan)

lemma json_text_metadata:
  assumes "wf_pg_row r"
  shows "json_text (pr_metadata r) k = map_of (or_nil (scan_metadata (pr_metadata r))) k"
proof -
  obtain kvs where kvs: "pr_metadata r = JObj kvs" "list_all (is_str_doc \<circ> snd) kvs"
    using assms by (auto simp: wf_pg_row_def split: json.splits)
  have "(case map_of kvs k of Some (JStr s) \<Rightarrow> Some s | _ \<Rightarrow> None) = map_option json_string (map_of kvs k)"
  proof (cases "map_of kvs k")
    case (Some j)
    then have "is_str_doc j" using map_of_SomeD[OF Some] kvs(2) by (force simp: list_all_iff)
    then show ?thesis using Some by (auto simp: is_str_doc_def json_string_def split: json.splits)
  qed simp
  then show ?thesis
    using kvs(1) by (simp add: json_text_def scan_metadata_def map_prod_def id_def map_of_map)
qed

lemma where_selects:
  assumes "wf_pg_row r" "names_queue qo"
  shows "where_sat now (buildWhereClauses qo False) r \<longleftrightarrow> pg_alive now r \<and> query_selects qo (pg_scanned r)"
proof (cases qo)
  case None
  then show ?thesis by (simp add: build_where_nil query_selects_def MatchesQuery_def)
next
  case (Some q)
  let ?m = "or_nil (scan_metadata (pr_metadata r))"
  note fields = pg_scan_fields[OF wf_pg_row_scan[OF assms(1)]]
  have queue: "pr_queue r = str_at ?m QueueMetadataKey" and ns: "pr_namespace_id r = str_at ?m NamespaceMetadataKey"
    using assms(1) by (simp_all add: wf_pg_row_def)
  have "member_sat r kv \<longleftrightarrow> fst kv = ''agent_id'' \<or> map_of ?m (fst kv) = Some (snd kv)"
    if "kv \<in> set (or_nil (q_Metadata q))" for kv
  proof -
    have "snd kv \<noteq> []" if "fst kv = QueueMetadataKey"
      using that \<open>kv \<in> _\<close> assms(2) Some by (cases kv) (auto simp: names_queue_def)
    then show ?thesis
      using queue json_text_metadata[OF assms(1), of "fst kv"]
      by (auto simp: member_sat_def str_at_def split: option.splits)
  qed
  then have "list_all (member_sat r) (or_nil (q_Metadata q)) \<longleftrightarrow>
      (\<forall>(k, v) \<in> set (or_nil (q_Metadata q)). k = ''agent_id'' \<or> map_of ?m k = Some v)"
    by (force simp: list_all_iff)
  then show ?thesis
    using ns by (auto simp: Some build_where_sat query_selects_def MatchesQuery_Some fields)
qed

lemma pg_order_filter: "filter P (pg_order e rows) = pg_order e (filter P rows)"
  by (simp add: pg_order_def filter_sort)

lemma set_pg_order [simp]: "set (pg_order e rows) = set rows"
  by (simp add: pg_order_def)

lemma pg_select_reference:
  assumes "wf_pg d" "names_queue qo"
  shows "map pg_scanned (pg_select e 0 (buildWhereClauses qo False) d) = filter (query_selects qo) (pg_visible e d)"
proof -
  have wf: "wf_pg_row r" if "r \<in> set (pd_agents d)" for r using that assms(1) by (simp add: wf_pg_def list_all_iff)
  have "filter (where_sat (db_now e 0) (buildWhereClauses qo False)) (pd_agents d) =
      filter (query_selects qo \<circ> pg_scanned) (filter (pg_alive (db_now e 0)) (pd_agents d))"
    by (simp add: where_selects[OF wf assms(2)] conj_commute cong: filter_cong)
  then show ?thesis by (simp add: pg_select_def pg_visible_def filter_map pg_order_filter)
qed

lemma PgQuery_spec:
  assumes "wf_pg d" "names_queue qo" "\<not> fault e CSelect" "\<not> fault e CScanRows"
  shows "PgQuery e d qo = Inr (sql_page (q_limit qo) (q_offset qo) (filter (query_selects qo) (pg_visible e d)))"
proof -
  let ?rows = "sql_page (q_limit qo) (q_offset qo) (pg_select e 0 (buildWhereClauses qo False) d)"
  have "set ?rows \<subseteq> set (pd_agents d)"
    using set_sql_page[of "q_limit qo" "q_offset qo" "pg_select e 0 (buildWhereClauses qo False) d"]
    by (auto simp: pg_select_def)
  then have "list_all wf_pg_row ?rows" using assms(1) by (auto simp: wf_pg_def list_all_iff)
  then show ?thesis
    using assms(3,4) by (simp add: PgQuery_def wf_pg_rows_scan flip: pg_select_reference[OF assms(1,2)] sql_page_map)
qed

subsection \<open>Argument numbers\<close>

lemma fold_add_clause_index:
  assumes "\<And>x n. x \<in> set xs \<Longrightarrow> clause_index (fst x n) = Some n"
    and "\<And>c n. c \<in> set cs \<Longrightarrow> clause_index c = Some n \<Longrightarrow> 1 \<le> n \<and> n \<le> length args"
    and "c \<in> set (fst (fold add_clause xs (cs, args)))" "clause_index c = Some n"
  shows "1 \<le> n \<and> n \<le> length (snd (fold add_clause xs (cs, args)))"
  using assms
proof (induction xs arbitrary: cs args)
  case (Cons x xs)
  have "fold add_clause (x # xs) (cs, args) = fold add_clause xs (cs @ [fst x (length args + 1)], args @ [snd x])"
    by (simp add: add_clause_def[of x "(cs, args)"])
  moreover have "1 \<le> n \<and> n \<le> length (args @ [snd x])"
    if "c \<in> set (cs @ [fst x (length args + 1)])" "clause_index c = Some n" for c n
    using that Cons.prems(1)[of x "length args + 1"] Cons.prems(2)[of c n] by auto
  ultimately show ?case using Cons.IH[of "cs @ [fst x (length args + 1)]" "args @ [snd x]"] Cons.prems by simp
qed simp

lemma query_clauses_index: "x \<in> set (query_clauses q force) \<Longrightarrow> clause_index (fst x n) = Some n"
proof -
  have "clause_index (fst y n) = Some n" if "metadata_clause kv = Some y" for kv y
    using that by (auto simp: metadata_clause_def col_clause_def split: prod.splits if_splits)
  then show "x \<in> set (query_clauses q force) \<Longrightarrow> ?thesis"
    by (auto simp: query_clauses_def opt_clause_def col_clause_def List.map_filter_def split: if_splits option.splits)
qed

lemma build_where_index:
  assumes "length (snd (buildWhereClauses qo force)) \<le> 65535"
  shows "list_all proper_index (fst (buildWhereClauses qo force))"
proof (cases qo)
  case None
  then show ?thesis by (simp add: buildWhereClauses_def proper_index_def)
next
  case (Some q)
  have "1 \<le> n \<and> n \<le> length (snd (buildWhereClauses qo force))"
    if "c \<in> set (fst (buildWhereClauses qo force))" "clause_index c = Some n" for c n
    using that fold_add_clause_index[of "query_clauses q force" "[PTTL]" "[]" c n] query_clauses_index
    by (auto simp: buildWhereClauses_def Some)
  then show ?thesis using assms by (force simp: list_all_iff proper_index_def)
qed

lemma shifted_where_sat:
  assumes "list_all proper_index cs"
  shows "where_sat now (map (shift_clause (length args')) cs, args' @ args @ rest) r = where_sat now (cs, args @ rest) r"
  using assms by (auto simp: where_sat_def list_all_iff shift_clause_sat)

lemma group_count_at:
  "map_of (group_count rows) s = (if s \<in> pr_status ` set rows then Some (int (length (filter (\<lambda>r. pr_status r = s) rows))) else None)"
  by (simp add: group_count_def map_of_map_restrict restrict_map_def)

lemma group_count_distinct: "distinct (map fst (group_count rows))"
  by (simp add: group_count_def comp_def)

lemma status_counts:
  "(case map_of (map_merge zero_counts (group_count rows)) s of None \<Rightarrow> 0 | Some n \<Rightarrow> n) =
     int (length (filter (\<lambda>r. pr_status r = s) rows))"
proof (cases "s \<in> pr_status ` set rows")
  case True
  then show ?thesis by (simp add: map_of_merge_distinct[OF group_count_distinct] group_count_at map_add_def)
next
  case False
  then have "filter (\<lambda>r. pr_status r = s) rows = []" by (auto simp: filter_empty_conv)
  moreover have "(case map_of zero_counts s of None \<Rightarrow> 0 | Some n \<Rightarrow> n) = 0" by (simp add: zero_counts_def)
  ultimately show ?thesis
    using False by (simp add: map_of_merge_distinct[OF group_count_distinct] group_count_at map_add_def)
qed

section \<open>A small database for examples\<close>

definition pg_quiet :: pg_env where
  "pg_quiet = \<lparr> clock = (\<lambda>_. 5000000000), uuid = (\<lambda>n. replicate (Suc n) (CHR ''u'')), fault = (\<lambda>_. False),
     db_now = (\<lambda>_. 5000000), try_lock = True, row_locked = (\<lambda>_. False), collation = (\<lambda>i. int (length i)),
     sql_state = (\<lambda>_. []), gen_uuid = (\<lambda>i. CHR ''g'' # i) \<rparr>"

definition pg_demo_row :: "string \<Rightarrow> string \<Rightarrow> int \<Rightarrow> pg_row" where
  "pg_demo_row i status created = \<lparr> pr_id = i, pr_kind = ''task'', pr_status = status,
     pr_payload = JObj [(''n'', JInt 1)], pr_tags = [''gpu''], pr_owner = [], pr_parent_id = [], pr_trace_id = ''tr'',
     pr_queue = ''jobs'', pr_namespace_id = ''ns'', pr_shard_id = Some [], pr_ttl_ms = 0, pr_created_at = created,
     pr_updated_at = created, pr_owner_time = None, pr_lease_token = [], pr_lease_until = None, pr_version = 1,
     pr_metadata = JObj [(''queue'', JStr ''jobs''), (''namespace_id'', JStr ''ns''), (''lease_sec'', JStr ''10'')] \<rparr>"

definition pg_demo :: pg_db where
  "pg_demo = \<lparr> pd_agents = [pg_demo_row ''b'' ''NEW'' 200, pg_demo_row ''a'' ''NEW'' 100], pd_events = [],
     pd_days = [0, 1], pd_telemetry_days = [] \<rparr>"

lemma wf_pg_demo: "wf_pg pg_demo"
  by (simp add: wf_pg_def pg_demo_def pg_demo_row_def wf_pg_row_def is_object_def is_str_doc_def int64_range_def
      scan_metadata_def json_string_def str_at_def QueueMetadataKey_def NamespaceMetadataKey_def)

section \<open>Properties\<close>

text \<open>C36: on a well-formed database, Query returns the page the query asks for of the visible agents it
  selects, in the order of creation and id.  The selection is the one the SQLite backend is proved to
  make; only a query for the empty queue name is read differently.\<close>

theorem PgQuery_correct:
  assumes "wf_pg d" "names_queue qo" "\<not> fault e CSelect" "\<not> fault e CScanRows"
  shows "PgQuery e d qo = Inr (sql_page (q_limit qo) (q_offset qo) (filter (query_selects qo) (pg_visible e d)))"
  by (rule PgQuery_spec[OF assms])

theorem PgQuery_correct_witness:
  "map_sum id (map a_ID) (PgQuery pg_quiet pg_demo
     (Some (empty_query \<lparr> q_Kind := ''task'', q_Metadata := Some [(''queue'', ''jobs'')], q_Limit := 1, q_Offset := 1 \<rparr>))) =
   Inr [''b'']"
proof -
  let ?q = "Some (empty_query \<lparr> q_Kind := ''task'', q_Metadata := Some [(''queue'', ''jobs'')], q_Limit := 1, q_Offset := 1 \<rparr>)"
  have "names_queue ?q" "\<not> fault pg_quiet CSelect" "\<not> fault pg_quiet CScanRows"
    by (simp_all add: names_queue_def pg_quiet_def)
  then have eq: "PgQuery pg_quiet pg_demo ?q =
      Inr (sql_page (q_limit ?q) (q_offset ?q) (filter (query_selects ?q) (pg_visible pg_quiet pg_demo)))"
    by (rule PgQuery_correct[OF wf_pg_demo])
  have "map a_ID (sql_page (q_limit ?q) (q_offset ?q) (filter (query_selects ?q) (pg_visible pg_quiet pg_demo))) = [''b'']"
    by code_simp
  then show ?thesis unfolding eq by simp
qed

text \<open>CountByStatus counts, for every status, the agents the query selects without its own status
  and paging; a status without such agents counts zero.\<close>

theorem PgCountByStatus_correct:
  assumes "\<not> fault e CSelect" "\<not> fault e CScanRows"
  shows "\<exists>cs. PgCountByStatus e d (Some q) = Inr cs \<and>
    (\<forall>s. s \<noteq> [] \<longrightarrow> PgCount e d (Some (q \<lparr> q_Status := s \<rparr>)) = Inr (case map_of cs s of None \<Rightarrow> 0 | Some n \<Rightarrow> n))"
proof -
  let ?w = "where_sat (db_now e 0) (buildWhereClauses (Some (q \<lparr> q_Status := [], q_Limit := 0, q_Offset := 0 \<rparr>)) False)"
  have "filter (where_sat (db_now e 0) (buildWhereClauses (Some (q \<lparr> q_Status := s \<rparr>)) False)) (pd_agents d) =
      filter (\<lambda>r. pr_status r = s) (filter ?w (pd_agents d))" if "s \<noteq> []" for s
    unfolding filter_filter using that by (intro filter_cong) (auto simp: build_where_sat)
  then show ?thesis
    using assms by (simp add: PgCountByStatus_def PgCount_def pg_select_def pg_order_def status_counts del: filter_filter)
qed

theorem PgCountByStatus_correct_witness:
  "map_sum id (\<lambda>cs. map_of cs ''NEW'') (PgCountByStatus pg_quiet pg_demo (Some empty_query)) = Inr (Some 2)"
proof -
  have "\<not> fault pg_quiet CSelect" "\<not> fault pg_quiet CScanRows" by (simp_all add: pg_quiet_def)
  from PgCountByStatus_correct[OF this, of pg_demo empty_query] obtain cs where
    cs: "PgCountByStatus pg_quiet pg_demo (Some empty_query) = Inr cs"
      "PgCount pg_quiet pg_demo (Some (empty_query \<lparr> q_Status := ''NEW'' \<rparr>)) = Inr (case map_of cs ''NEW'' of None \<Rightarrow> 0 | Some n \<Rightarrow> n)"
    by auto
  have "PgCount pg_quiet pg_demo (Some (empty_query \<lparr> q_Status := ''NEW'' \<rparr>)) = Inr 2" by code_simp
  then show ?thesis using cs by (simp split: option.splits)
qed

text \<open>Rewriting the text of a WHERE condition with \<^verbatim>\<open>shiftPlaceholders\<close> gives the text of the condition
  with its placeholders moved, and with the arguments of another condition put in front the moved
  condition means the same.\<close>

theorem shiftPlaceholders_correct:
  assumes "buildWhereClauses qo force = (cs, args)" "length args \<le> 65535"
  shows "shiftPlaceholders (where_text cs) (int (length args')) = where_text (map (shift_clause (length args')) cs) \<and>
    where_sat now (map (shift_clause (length args')) cs, args' @ args) r = where_sat now (cs, args) r"
  using assms build_where_index[of qo force] shiftPlaceholders_spec[of cs "length args'"]
    shifted_where_sat[of cs now args' args "[]" r] by simp

theorem shiftPlaceholders_correct_witness:
  "shiftPlaceholders (where_text (fst (buildWhereClauses (Some empty_query) True))) 2 =
   where_text [PTTL, PEq ColStatus 3]"
  using shiftPlaceholders_correct[of "Some empty_query" True "[PTTL, PEq ColStatus 1]" "[AStr StatusNew]" "[AStr [], AStr []]"]
  by (simp add: buildWhereClauses_def query_clauses_def empty_query_def opt_clause_def col_clause_def add_clause_def numeral_3_eq_3)

text \<open>The migration that added \<^verbatim>\<open>shard_id\<close> set no default, and a NULL cannot be scanned: one agent
  written before it makes every Query that meets it fail, and Get of that agent too.\<close>

theorem null_shard_id_breaks_reads:
  assumes "r \<in> set (pd_agents d)" "pr_shard_id r = None" "pg_alive (db_now e 0) r" "distinct (map pr_id (pd_agents d))"
    and "\<not> fault e CSelect"
  shows "PgQuery e d None = Inl (ErrOther ''scan'') \<and> PgGet e d (pr_id r) = Inl (ErrOther ''scan'')"
proof -
  have scan: "pg_scan_rows rows = Inl (ErrOther ''scan'')" if "r \<in> set rows" for rows
    using that
  proof (induction rows)
    case (Cons x xs)
    show ?case
    proof (cases "x = r")
      case True
      then show ?thesis using assms(2) by (simp add: scanAgent_def)
    next
      case False
      then have "pg_scan_rows xs = Inl (ErrOther ''scan'')" using Cons by simp
      then show ?thesis
        by (auto simp: scanAgent_def scan_payload_def Let_def split: option.splits json.splits)
    qed
  qed simp
  have "r \<in> set (pg_select e 0 (buildWhereClauses None False) d)"
    using assms(1,3) by (simp add: pg_select_def build_where_nil)
  moreover have "find (\<lambda>x. pr_id x = pr_id r \<and> pg_alive (db_now e 0) x) (pd_agents d) = Some r"
    using find_key_and[OF assms(4,1), of "pg_alive (db_now e 0)"] assms(3) by simp
  ultimately show ?thesis
    using assms(2,5) by (simp add: PgQuery_def PgGet_def pg_fetch_def scan sql_page_def q_limit_def q_offset_def scanAgent_def)
qed

theorem null_shard_id_breaks_reads_witness:
  "PgQuery pg_quiet (pg_demo \<lparr> pd_agents := [pg_demo_row ''a'' ''NEW'' 100 \<lparr> pr_shard_id := None \<rparr>] \<rparr>) None =
     Inl (ErrOther ''scan'')"
  using null_shard_id_breaks_reads[of "pg_demo_row ''a'' ''NEW'' 100 \<lparr> pr_shard_id := None \<rparr>"
      "pg_demo \<lparr> pd_agents := [pg_demo_row ''a'' ''NEW'' 100 \<lparr> pr_shard_id := None \<rparr>] \<rparr>" pg_quiet]
  by (simp add: pg_demo_row_def pg_quiet_def pg_alive_def)

end
