(* ===== verification/Pg_Lifecycle.thy ===== *)
theory Pg_Lifecycle
  imports Pg_Query
begin

text \<open>
  The state-changing operations of the Postgres backend: \<^verbatim>\<open>postgres_lifecycle.go\<close>, the reaper, the wakeup
  notifications, the deferred event writer of \<^verbatim>\<open>postgres_engine.go\<close>, the candidate prefetcher, the daily
  partitions and the fallback rule for claims.

  Operations run one after the other, each against the committed tables; what other transactions do at
  the same time enters through the environment (rows they hold locked, the advisory lock, \<^verbatim>\<open>now()\<close>).  A
  transaction body returns the tables it leaves, the events to hand to the deferred writer, the events
  to announce, the wakeup payloads and whether waiting readers are woken; all of it takes effect at the
  commit, and an error or a rollback leaves the store as it was.
\<close>

section \<open>Configuration and store\<close>

definition QueueClaimModeStrict :: string where "QueueClaimModeStrict = ''strict''"
definition QueueClaimModeParallel :: string where "QueueClaimModeParallel = ''parallel''"

definition ParseQueueClaimMode :: "string \<Rightarrow> store_error + string" where
  "ParseQueueClaimMode raw =
    (let mode = to_lower (trim_space raw) in
     if mode = [] then Inr QueueClaimModeStrict
     else if mode = QueueClaimModeStrict \<or> mode = QueueClaimModeParallel then Inr mode
     else Inl (ErrOther ''invalid postgres queue claim mode''))"

text \<open>The fields of the store that do not change; \<^verbatim>\<open>cf_prefetch\<close> holds the buffer and batch size of the
  prefetcher, which only runs in parallel mode.\<close>

record pg_config =
  cf_slimEvents :: bool
  cf_deferEvents :: bool
  cf_queueClaimMode :: string
  cf_shardID :: string
  cf_leaseDuration :: duration
  cf_prefetch :: "(nat \<times> nat) option"

record queue_prefetcher =
  pf_namespaceID :: string
  pf_queueName :: string
  pf_candidates :: "string list"
  pf_pending :: "string list"
  pf_lastAccess :: int

text \<open>\<^verbatim>\<open>g_queue\<close> is the channel of the deferred writer and \<^verbatim>\<open>g_buf\<close> its buffer, \<^verbatim>\<open>g_notes\<close> the payloads sent
  with \<^verbatim>\<open>pg_notify\<close>, \<^verbatim>\<open>g_wakeups\<close> counts \<^verbatim>\<open>signalWakeups\<close>.\<close>

record pg_store =
  g_db :: pg_db
  g_subs :: registry
  g_log :: "(event \<times> handler list) list"
  g_queue :: "(event \<times> string) list"
  g_buf :: "(event \<times> string) list"
  g_notes :: "string list"
  g_wakeups :: nat
  g_prefetchers :: "(string \<times> queue_prefetcher) list"

definition pg_notifySubscribers :: "event \<Rightarrow> pg_store \<Rightarrow> pg_store" where
  "pg_notifySubscribers ev s = s \<lparr> g_log := g_log s @ [(ev, Notify (g_subs s) (Some ev))] \<rparr>"

definition PgSubscribe :: "pg_store \<Rightarrow> event_filter option \<Rightarrow> handler option \<Rightarrow> pg_store" where
  "PgSubscribe s flt h = s \<lparr> g_subs := Subscribe (g_subs s) flt h \<rparr>"

definition signalWakeups :: "pg_store \<Rightarrow> pg_store" where
  "signalWakeups s = s \<lparr> g_wakeups := Suc (g_wakeups s) \<rparr>"

definition buildWakeupPayload :: "string \<Rightarrow> string \<Rightarrow> string" where
  "buildWakeupPayload namespaceID queue = trim_space namespaceID @ ''|'' @ trim_space queue"

text \<open>The notification is part of the transaction: its payload goes out with the commit.\<close>

definition queueWakeupNotify :: "pg_env \<Rightarrow> nat \<Rightarrow> string \<Rightarrow> string \<Rightarrow> store_error + string" where
  "queueWakeupNotify e i namespaceID queue =
    (if fault e (CNotify i) then Inl (ErrDB (CNotify i)) else Inr (buildWakeupPayload namespaceID queue))"

section \<open>The deferred event writer\<close>

definition event_queue_cap :: nat where "event_queue_cap = 10000"

text \<open>The channel is bounded; when it is full the event is written at once and a failure is only logged.\<close>

definition enqueueEvent :: "pg_config \<Rightarrow> pg_env \<Rightarrow> event \<times> string \<Rightarrow> pg_store \<Rightarrow> pg_store" where
  "enqueueEvent c e pe s =
    (if length (g_queue s) < event_queue_cap then s \<lparr> g_queue := g_queue s @ [pe] \<rparr>
     else case insertEvent e (CExec 0) (g_db s) (fst pe) (snd pe) (cf_shardID c) of
       Inl _ \<Rightarrow> s | Inr d \<Rightarrow> s \<lparr> g_db := d \<rparr>)"

text \<open>A batch runs as one implicit transaction: it is written as a whole or not at all.\<close>

fun send_batch :: "pg_env \<Rightarrow> nat \<Rightarrow> pg_event_row list \<Rightarrow> pg_db \<Rightarrow> store_error + pg_db" where
  "send_batch e i [] d = Inr d"
| "send_batch e i (r # rs) d = bindr (exec_insert_event e (CInsertEvent i) d r) (send_batch e (Suc i) rs)"

fun queue_pending :: "string \<Rightarrow> (event \<times> string) list \<Rightarrow> pg_event_row list \<Rightarrow> pg_event_row list" where
  "queue_pending shardID [] batch = batch"
| "queue_pending shardID ((ev, ns) # pending) batch =
    (case queueInsertEvent batch ev ns shardID of
       Inl _ \<Rightarrow> queue_pending shardID pending batch
     | Inr batch' \<Rightarrow> queue_pending shardID pending batch')"

definition flushEvents :: "pg_config \<Rightarrow> pg_env \<Rightarrow> (event \<times> string) list \<Rightarrow> pg_store \<Rightarrow> pg_store" where
  "flushEvents c e pending s =
    (if pending = [] then s
     else case send_batch e 0 (queue_pending (cf_shardID c) pending []) (g_db s) of
       Inl _ \<Rightarrow> s | Inr d \<Rightarrow> s \<lparr> g_db := d \<rparr>)"

text \<open>One round of the writer loop: a received event, a tick of its timer, or the end of the store's
  context, on which it drains the channel.\<close>

datatype writer_round = WRecv | WTick | WDone

definition event_writer_round :: "pg_config \<Rightarrow> pg_env \<Rightarrow> nat \<Rightarrow> writer_round \<Rightarrow> pg_store \<Rightarrow> pg_store" where
  "event_writer_round c e batchSize w s = (case w of
     WRecv \<Rightarrow> (case g_queue s of
        [] \<Rightarrow> s
      | pe # rest \<Rightarrow>
          (let s = s \<lparr> g_queue := rest, g_buf := g_buf s @ [pe] \<rparr> in
           if batchSize \<le> length (g_buf s) then (flushEvents c e (g_buf s) s) \<lparr> g_buf := [] \<rparr> else s))
   | WTick \<Rightarrow> if g_buf s \<noteq> [] then (flushEvents c e (g_buf s) s) \<lparr> g_buf := [] \<rparr> else s
   | WDone \<Rightarrow> (flushEvents c e (g_buf s @ g_queue s) s) \<lparr> g_buf := [], g_queue := [] \<rparr>)"

section \<open>Transactions\<close>

record commit =
  cm_queued :: "(event \<times> string) list"
  cm_events :: "event list"
  cm_notes :: "string list"
  cm_wake :: bool

datatype 'a pg_end = PgCommit 'a pg_db commit | PgRollback 'a

definition after_commit :: "pg_config \<Rightarrow> pg_env \<Rightarrow> commit \<Rightarrow> pg_store \<Rightarrow> pg_store" where
  "after_commit c e cm s =
    (let s = fold (enqueueEvent c e) (cm_queued cm) s;
         s = fold pg_notifySubscribers (cm_events cm) s
     in if cm_wake cm then signalWakeups s else s)"

definition pg_tx ::
  "pg_config \<Rightarrow> pg_env \<Rightarrow> pg_store \<Rightarrow> (pg_db \<Rightarrow> store_error + 'a pg_end) \<Rightarrow> (store_error + 'a) \<times> pg_store" where
  "pg_tx c e s body =
    (if fault e CBegin then (Inl (ErrDB CBegin), s)
     else case body (g_db s) of
       Inl er \<Rightarrow> (Inl er, s)
     | Inr (PgRollback x) \<Rightarrow> (Inr x, s)
     | Inr (PgCommit x d cm) \<Rightarrow>
         if fault e CCommit then (Inl (ErrDB CCommit), s)
         else (Inr x, after_commit c e cm (s \<lparr> g_db := d, g_notes := g_notes s @ cm_notes cm \<rparr>)))"

text \<open>An event is inserted inside the transaction or, when events are deferred, queued after the commit.\<close>

definition append_event :: "pg_config \<Rightarrow> pg_env \<Rightarrow> nat \<Rightarrow> pg_db \<Rightarrow> event \<Rightarrow> string \<Rightarrow> store_error + pg_db" where
  "append_event c e i d ev ns =
    (if cf_deferEvents c then Inr d else insertEvent e (CInsertEvent i) d ev ns (cf_shardID c))"

definition commit_one :: "pg_config \<Rightarrow> event \<Rightarrow> string \<Rightarrow> string list \<Rightarrow> bool \<Rightarrow> commit" where
  "commit_one c ev ns notes wake = \<lparr> cm_queued = (if cf_deferEvents c then [(ev, ns)] else []),
     cm_events = [ev], cm_notes = notes, cm_wake = wake \<rparr>"

definition event_data :: "pg_config \<Rightarrow> agent \<Rightarrow> status \<Rightarrow> event_val gomap \<Rightarrow> event_val gomap" where
  "event_data c t status full =
    (if cf_slimEvents c then [(''tuple_id'', EVal (VStr (a_ID t))), (''kind'', EVal (VStr (a_Kind t))),
       (''status'', EVal (VStr status))] else full)"

definition agent_event :: "string \<Rightarrow> agent \<Rightarrow> event_type \<Rightarrow> gotime \<Rightarrow> string \<Rightarrow> event_val gomap \<Rightarrow> event" where
  "agent_event u t ty ts agentID dat = \<lparr> e_ID = u, e_TupleID = a_ID t, e_Type = ty, e_Kind = a_Kind t,
     e_Timestamp = ts, e_AgentID = agentID, e_Data = dat, e_TraceID = a_TraceID t, e_Version = a_Version t \<rparr>"

definition queue_of :: "agent \<Rightarrow> string" where
  "queue_of t = str_at (or_nil (a_Metadata t)) QueueMetadataKey"

section \<open>Out\<close>

definition with_shard :: "pg_config \<Rightarrow> agent \<Rightarrow> agent" where
  "with_shard c t = (if a_ShardID t = [] \<and> cf_shardID c \<noteq> [] then t \<lparr> a_ShardID := cf_shardID c \<rparr> else t)"

definition pg_out_tx :: "pg_config \<Rightarrow> pg_env \<Rightarrow> agent \<Rightarrow> pg_db \<Rightarrow> store_error + agent pg_end" where
  "pg_out_tx c e t d =
    (let t = with_shard c (defaults_out e 0 t); agentID = str_at (or_nil (a_Metadata t)) ''agent_id'' in
     bindr (upsertAgent e (CWrite 0) d t) (\<lambda>(t, d).
       let ev = agent_event (uuid e 1) t EventCreated (clock e 2) agentID
                  (event_data c t (a_Status t) [(''agent'', EAgent t)]) in
       bindr (append_event c e 0 d ev (a_NamespaceID t)) (\<lambda>d.
         bindr (queueWakeupNotify e 0 (a_NamespaceID t) (queue_of t)) (\<lambda>note.
           Inr (PgCommit t d (commit_one c ev (a_NamespaceID t) [note] True))))))"

definition PgOut :: "pg_config \<Rightarrow> pg_env \<Rightarrow> pg_store \<Rightarrow> agent \<Rightarrow> (store_error + agent) \<times> pg_store" where
  "PgOut c e s t = pg_tx c e s (pg_out_tx c e t)"

section \<open>Claiming\<close>

definition defaultLeaseMs :: "pg_config \<Rightarrow> int" where
  "defaultLeaseMs c =
    (let ms = go_quot (cf_leaseDuration c) Millisecond
     in if ms \<le> 0 then go_quot (lo_LeaseDuration DefaultLeaseOptions) Millisecond else ms)"

text \<open>The SET list of a claim.\<close>

definition claim_set :: "int \<Rightarrow> int \<Rightarrow> string \<Rightarrow> string \<Rightarrow> pg_row \<Rightarrow> store_error + pg_row" where
  "claim_set now defaultMs agentID token r =
    bindr (sql_lease_until now defaultMs (pr_metadata r)) (\<lambda>until.
    bindr (sql_inc (pr_version r)) (\<lambda>v.
      Inr (r \<lparr> pr_status := StatusInProgress, pr_owner := agentID, pr_owner_time := Some now,
               pr_lease_token := token, pr_lease_until := Some until, pr_updated_at := now, pr_version := v \<rparr>)))"

text \<open>The row an UPDATE ... RETURNING read with QueryRow yields.\<close>

definition scan_returned :: "pg_row list \<times> pg_db \<Rightarrow> store_error + (agent \<times> pg_db) option" where
  "scan_returned x = (case fst x of [] \<Rightarrow> Inr None | r # _ \<Rightarrow> bindr (scanAgent r) (\<lambda>t. Inr (Some (t, snd x))))"

definition claim_commit ::
  "pg_config \<Rightarrow> pg_env \<Rightarrow> string \<Rightarrow> (agent \<times> pg_db) option \<Rightarrow> store_error + agent option pg_end" where
  "claim_commit c e agentID claim = (case claim of None \<Rightarrow> Inr (PgRollback None) | Some (t, d) \<Rightarrow>
     let ev = agent_event (uuid e 1) t EventClaimed (clock e 1) agentID
                (event_data c t StatusInProgress [(''agent_id'', EVal (VStr agentID))]) in
     bindr (append_event c e 0 d ev (a_NamespaceID t)) (\<lambda>d.
       Inr (PgCommit (Some t) d (commit_one c ev (a_NamespaceID t) [] False))))"

definition claimByID ::
  "pg_config \<Rightarrow> pg_env \<Rightarrow> pg_store \<Rightarrow> string \<Rightarrow> string \<Rightarrow> (store_error + agent option) \<times> pg_store" where
  "claimByID c e s candidateID agentID = pg_tx c e s (\<lambda>d.
     bindr (sql_update e (CClaim 0)
         (\<lambda>r. pr_id r = candidateID \<and> pr_status r = StatusNew \<and> pg_alive (db_now e 0) r)
         (claim_set (UnixMicro (clock e 0)) (defaultLeaseMs c) agentID (uuid e 0)) d) (\<lambda>ret.
       bindr (scan_returned ret) (claim_commit c e agentID)))"

subsection \<open>Prefetched candidates\<close>

definition prefetchKey :: "string \<Rightarrow> string \<Rightarrow> string" where
  "prefetchKey namespaceID queue = namespaceID @ ''|'' @ queue"

definition getOrStart :: "gotime \<Rightarrow> string \<Rightarrow> string \<Rightarrow> pg_store \<Rightarrow> queue_prefetcher" where
  "getOrStart now namespaceID queue s = (case map_of (g_prefetchers s) (prefetchKey namespaceID queue) of
     Some pf \<Rightarrow> pf \<lparr> pf_lastAccess := now \<rparr>
   | None \<Rightarrow> \<lparr> pf_namespaceID = namespaceID, pf_queueName = queue, pf_candidates = [], pf_pending = [],
       pf_lastAccess = now \<rparr>)"

text \<open>Reading the channel without waiting; the empty id stands for an empty buffer.\<close>

definition tryGet :: "gotime \<Rightarrow> string \<Rightarrow> string \<Rightarrow> pg_store \<Rightarrow> string \<times> pg_store" where
  "tryGet now namespaceID queue s =
    (let pf = getOrStart now namespaceID queue s;
         put = (\<lambda>pf. s \<lparr> g_prefetchers := AList.update (prefetchKey namespaceID queue) pf (g_prefetchers s) \<rparr>)
     in case pf_candidates pf of [] \<Rightarrow> ([], put pf)
        | i # is \<Rightarrow> (i, put (pf \<lparr> pf_candidates := is \<rparr>)))"

fun prefetch_attempts ::
  "pg_config \<Rightarrow> (nat \<Rightarrow> pg_env) \<Rightarrow> string \<Rightarrow> string \<Rightarrow> string \<Rightarrow> nat \<Rightarrow> nat \<Rightarrow> pg_store \<Rightarrow>
     (store_error + agent option) \<times> pg_store" where
  "prefetch_attempts c es ns queue agentID i 0 s = (Inr None, s)"
| "prefetch_attempts c es ns queue agentID i (Suc n) s =
    (let (candidateID, s) = tryGet (clock (es i) 2) ns queue s in
     if candidateID = [] then (Inr None, s)
     else let (r, s) = claimByID c (es i) s candidateID agentID in
       case r of Inl er \<Rightarrow> (Inl er, s)
       | Inr (Some t) \<Rightarrow> (Inr (Some t), s)
       | Inr None \<Rightarrow> prefetch_attempts c es ns queue agentID (Suc i) n s)"

definition takePrefetched ::
  "pg_config \<Rightarrow> (nat \<Rightarrow> pg_env) \<Rightarrow> pg_store \<Rightarrow> string \<Rightarrow> string \<Rightarrow> string \<Rightarrow> (store_error + agent option) \<times> pg_store" where
  "takePrefetched c es s ns queue agentID = prefetch_attempts c es ns queue agentID 0 3 s"

definition fetchCandidateIDs :: "pg_env \<Rightarrow> queue_prefetcher \<Rightarrow> nat \<Rightarrow> pg_db \<Rightarrow> store_error + string list" where
  "fetchCandidateIDs e pf limit d =
    (if fault e CSelect then Inl (ErrDB CSelect)
     else Inr (map pr_id (take limit (pg_order e (filter (\<lambda>r. pr_status r = StatusNew \<and>
       pr_namespace_id r = pf_namespaceID pf \<and> pr_queue r = pf_queueName pf \<and> pg_alive (db_now e 0) r) (pd_agents d))))))"

text \<open>One tick of a prefetcher; ids for which the channel has no room wait in the goroutine.\<close>

definition feed :: "nat \<Rightarrow> queue_prefetcher \<Rightarrow> queue_prefetcher" where
  "feed cap pf = (let n = cap - length (pf_candidates pf) in
     pf \<lparr> pf_candidates := pf_candidates pf @ take n (pf_pending pf), pf_pending := drop n (pf_pending pf) \<rparr>)"

definition prefetch_tick :: "pg_env \<Rightarrow> nat \<Rightarrow> nat \<Rightarrow> pg_db \<Rightarrow> queue_prefetcher \<Rightarrow> queue_prefetcher" where
  "prefetch_tick e cap batchSize d pf =
    (if pf_pending pf \<noteq> [] then feed cap pf
     else if cap div 2 \<le> length (pf_candidates pf) then pf
     else case fetchCandidateIDs e pf batchSize d of Inl _ \<Rightarrow> pf | Inr ids \<Rightarrow> feed cap (pf \<lparr> pf_pending := ids \<rparr>))"

definition prefetch_run :: "pg_config \<Rightarrow> pg_env \<Rightarrow> string \<Rightarrow> pg_store \<Rightarrow> pg_store" where
  "prefetch_run c e key s = (case (cf_prefetch c, map_of (g_prefetchers s) key) of
     (Some (cap, batchSize), Some pf) \<Rightarrow>
       s \<lparr> g_prefetchers := AList.update key (prefetch_tick e cap batchSize (g_db s) pf) (g_prefetchers s) \<rparr>
   | _ \<Rightarrow> s)"

definition prefetchIdleTimeout :: duration where "prefetchIdleTimeout = 30 * Second"

definition evictIdle :: "gotime \<Rightarrow> pg_store \<Rightarrow> pg_store" where
  "evictIdle now s = s \<lparr> g_prefetchers :=
     filter (\<lambda>(key, pf). \<not> now - pf_lastAccess pf > prefetchIdleTimeout) (g_prefetchers s) \<rparr>"

subsection \<open>Claims by query\<close>

datatype lock_clause = ForUpdate | ForUpdateSkipLocked

definition lockable :: "pg_env \<Rightarrow> lock_clause \<Rightarrow> pg_row list \<Rightarrow> pg_row list" where
  "lockable e lock rows = (case lock of ForUpdate \<Rightarrow> rows | ForUpdateSkipLocked \<Rightarrow> filter (\<lambda>r. \<not> row_locked e (pr_id r)) rows)"

definition resolveTakeLockClause :: "pg_config \<Rightarrow> pg_env \<Rightarrow> string \<Rightarrow> store_error + lock_clause \<times> bool" where
  "resolveTakeLockClause c e queue =
    (if queue \<noteq> [] \<and> cf_queueClaimMode c = QueueClaimModeStrict then
       (if fault e CLock then Inl (ErrDB CLock)
        else if \<not> try_lock e then Inr (ForUpdateSkipLocked, False) else Inr (ForUpdate, True))
     else Inr (ForUpdateSkipLocked, True))"

text \<open>The candidate is chosen and claimed in one statement.\<close>

definition takeAtomicClaim ::
  "pg_config \<Rightarrow> pg_env \<Rightarrow> pg_clause list \<times> pg_arg list \<Rightarrow> string \<Rightarrow> lock_clause \<Rightarrow> pg_db \<Rightarrow>
     store_error + (agent \<times> pg_db) option" where
  "takeAtomicClaim c e w agentID lock d = (case lockable e lock (pg_select e 0 w d) of
     [] \<Rightarrow> if fault e (CClaim 0) then Inl (ErrDB (CClaim 0)) else Inr None
   | cand # _ \<Rightarrow>
       bindr (sql_update e (CClaim 0) (\<lambda>r. pr_id r = pr_id cand)
         (claim_set (UnixMicro (clock e 0)) (defaultLeaseMs c) agentID (uuid e 0)) d) scan_returned)"

text \<open>The head of the queue is the candidate; it is claimed only if it also matches the whole query,
  whose placeholders were shifted past the arguments of the head condition.\<close>

definition takeStrictHeadClaim ::
  "pg_config \<Rightarrow> pg_env \<Rightarrow> query option \<Rightarrow> string \<Rightarrow> lock_clause \<Rightarrow> pg_db \<Rightarrow> store_error + (agent \<times> pg_db) option" where
  "takeStrictHeadClaim c e qo agentID lock d =
    (let (headWhere, headArgs) = buildStrictQueueHeadWhereClauses qo;
         (matchWhere, matchArgs) = buildWhereClauses qo True;
         shifted = (map (shift_clause (length headArgs)) matchWhere, headArgs @ matchArgs)
     in case lockable e lock (pg_select e 0 (headWhere, headArgs) d) of
          [] \<Rightarrow> if fault e (CClaim 0) then Inl (ErrDB (CClaim 0)) else Inr None
        | cand # _ \<Rightarrow>
            bindr (sql_update e (CClaim 0) (\<lambda>r. pr_id r = pr_id cand \<and> where_sat (db_now e 0) shifted r)
              (claim_set (UnixMicro (clock e 0)) (defaultLeaseMs c) agentID (uuid e 0)) d) scan_returned)"

text \<open>The older way: select, then update by id; the lease is computed in Go.\<close>

definition legacy_set :: "gotime \<Rightarrow> gotime \<Rightarrow> string \<Rightarrow> string \<Rightarrow> pg_row \<Rightarrow> store_error + pg_row" where
  "legacy_set now leaseUntil agentID token r =
    bindr (sql_inc (pr_version r)) (\<lambda>v.
      Inr (r \<lparr> pr_status := StatusInProgress, pr_owner := agentID, pr_owner_time := Some (UnixMicro now),
               pr_lease_token := token, pr_lease_until := Some (UnixMicro leaseUntil),
               pr_updated_at := UnixMicro now, pr_version := v \<rparr>))"

definition takeLegacyClaim ::
  "pg_env \<Rightarrow> pg_clause list \<times> pg_arg list \<Rightarrow> string \<Rightarrow> lock_clause \<Rightarrow> pg_db \<Rightarrow> store_error + (agent \<times> pg_db) option" where
  "takeLegacyClaim e w agentID lock d =
    (if fault e CSelect then Inl (ErrDB CSelect)
     else case lockable e lock (pg_select e 0 w d) of
       [] \<Rightarrow> Inr None
     | r # _ \<Rightarrow> bindr (scanAgent r) (\<lambda>t.
         let now = clock e 0; leaseToken = uuid e 0; leaseUntil = now + leaseDurationForAgent (Some t) in
         bindr (sql_update e (CWrite 0) (\<lambda>r. pr_id r = a_ID t) (legacy_set now leaseUntil agentID leaseToken) d)
           (\<lambda>(ret, d). if ret = [] then Inr None
             else Inr (Some (t \<lparr> a_Status := StatusInProgress, a_Owner := agentID, a_OwnerTime := now,
               a_LeaseToken := leaseToken, a_LeaseUntil := leaseUntil, a_UpdatedAt := now,
               a_Version := to_int64 (a_Version t + 1) \<rparr>, d)))))"

definition takeWithStrategy ::
  "pg_config \<Rightarrow> pg_env \<Rightarrow> pg_store \<Rightarrow> string \<Rightarrow> string \<Rightarrow>
     (lock_clause \<Rightarrow> pg_db \<Rightarrow> store_error + (agent \<times> pg_db) option) \<Rightarrow> (store_error + agent option) \<times> pg_store" where
  "takeWithStrategy c e s queue agentID claimFn = pg_tx c e s (\<lambda>d.
     bindr (resolveTakeLockClause c e queue) (\<lambda>(lock, proceed).
       if \<not> proceed then Inr (PgRollback None)
       else bindr (claimFn lock d) (claim_commit c e agentID)))"

definition takeStrictQueueHead ::
  "pg_config \<Rightarrow> pg_env \<Rightarrow> pg_store \<Rightarrow> query option \<Rightarrow> string \<Rightarrow> string \<Rightarrow> (store_error + agent option) \<times> pg_store" where
  "takeStrictQueueHead c e s qo queue agentID =
    takeWithStrategy c e s queue agentID (takeStrictHeadClaim c e qo agentID)"

definition takeClaimSQLState :: "pg_env \<Rightarrow> store_error \<Rightarrow> string" where
  "takeClaimSQLState e er = (case er of ErrSQL st \<Rightarrow> st | ErrDB c \<Rightarrow> sql_state e c | ErrDuplicateEvent _ \<Rightarrow> ''23505'' | _ \<Rightarrow> [])"

definition shouldFallbackToLegacyTake :: "pg_env \<Rightarrow> store_error \<Rightarrow> bool" where
  "shouldFallbackToLegacyTake e er =
    (let sqlState = takeClaimSQLState e er
     in if sqlState = [] then False else take 2 sqlState = ''42'' \<or> sqlState = ''0A000'')"

definition take_queue :: "query option \<Rightarrow> string" where
  "take_queue qo = (case qo of None \<Rightarrow> [] | Some q \<Rightarrow> str_at (or_nil (q_Metadata q)) QueueMetadataKey)"

definition query_namespace :: "query option \<Rightarrow> string" where
  "query_namespace qo = (case qo of None \<Rightarrow> [] | Some q \<Rightarrow> q_NamespaceID q)"

text \<open>Take runs up to five transactions: three attempts on prefetched candidates, the atomic claim and the
  legacy claim; \<open>es i\<close> is the environment of the \<open>i\<close>-th.\<close>

definition take_by_query ::
  "pg_config \<Rightarrow> (nat \<Rightarrow> pg_env) \<Rightarrow> pg_store \<Rightarrow> query option \<Rightarrow> (store_error + agent option) \<times> pg_store" where
  "take_by_query c es s qo =
    (let agentID = take_agent_id qo; queue = take_queue qo; w = buildWhereClauses qo True;
         (r, s') = takeWithStrategy c (es 3) s queue agentID (takeAtomicClaim c (es 3) w agentID)
     in case r of
          Inr t \<Rightarrow> (Inr t, s')
        | Inl er \<Rightarrow> if \<not> shouldFallbackToLegacyTake (es 3) er then (Inl er, s')
            else takeWithStrategy c (es 4) s' queue agentID (takeLegacyClaim (es 4) w agentID))"

definition PgTake ::
  "pg_config \<Rightarrow> (nat \<Rightarrow> pg_env) \<Rightarrow> pg_store \<Rightarrow> query option \<Rightarrow> (store_error + agent option) \<times> pg_store" where
  "PgTake c es s qo =
    (if (case qo of None \<Rightarrow> False | Some q \<Rightarrow> q_Status q \<noteq> [] \<and> q_Status q \<noteq> StatusNew) then (Inr None, s)
     else let agentID = take_agent_id qo; queue = take_queue qo in
       if queue \<noteq> [] \<and> cf_queueClaimMode c = QueueClaimModeStrict then takeStrictQueueHead c (es 3) s qo queue agentID
       else if queue \<noteq> [] \<and> cf_prefetch c \<noteq> None then
         (let (r, s') = takePrefetched c es s (query_namespace qo) queue agentID in
          case r of Inr (Some t) \<Rightarrow> (Inr (Some t), s') | _ \<Rightarrow> take_by_query c es s' qo)
       else take_by_query c es s qo)"

end
