(* ===== verification/Pg_Complete.thy ===== *)
theory Pg_Complete
  imports Pg_Lifecycle
begin

text \<open>
  The rest of \<^verbatim>\<open>postgres_lifecycle.go\<close> (Update, Complete, CompleteAndOut, Release, RenewLease, BatchTake), the
  reaper of \<^verbatim>\<open>postgres_reaper.go\<close> and the daily partitions of \<^verbatim>\<open>postgres_partitions.go\<close>.

  Complete, Release and RenewLease are single conditional UPDATE statements; when no row matches, a
  second read decides which error to report.
\<close>

section \<open>Update\<close>

definition pg_update_tx :: "pg_config \<Rightarrow> pg_env \<Rightarrow> string \<Rightarrow> gval gomap \<Rightarrow> pg_db \<Rightarrow> store_error + agent pg_end" where
  "pg_update_tx c e i updates d =
    bindr (pg_fetch e 0 d i) (\<lambda>t0.
      let t = ApplyUpdates t0 (Some updates);
          t = t \<lparr> a_UpdatedAt := clock e 0, a_Version := to_int64 (a_Version t + 1) \<rparr> in
      bindr (updateAgentRow e (CWrite 0) d t) (\<lambda>(t, d).
        let ev = agent_event (uuid e 0) t EventUpdated (clock e 1) (GetStringFromMap updates ''agent_id'')
                   (plain_data updates) in
        bindr (append_event c e 0 d ev (a_NamespaceID t)) (\<lambda>d.
          Inr (PgCommit t d (commit_one c ev (a_NamespaceID t) [] False)))))"

definition PgUpdateAndGet ::
  "pg_config \<Rightarrow> pg_env \<Rightarrow> pg_store \<Rightarrow> string \<Rightarrow> gval gomap option \<Rightarrow> (store_error + agent) \<times> pg_store" where
  "PgUpdateAndGet c e s i updates = (case updates of
     None \<Rightarrow> (PgGet e (g_db s) i, s)
   | Some u \<Rightarrow> pg_tx c e s (pg_update_tx c e i u))"

definition PgUpdate ::
  "pg_config \<Rightarrow> pg_env \<Rightarrow> pg_store \<Rightarrow> string \<Rightarrow> gval gomap option \<Rightarrow> (store_error + unit) \<times> pg_store" where
  "PgUpdate c e s i updates = (case updates of
     None \<Rightarrow> (Inr (), s)
   | Some u \<Rightarrow> (let (r, s') = PgUpdateAndGet c e s i (Some u) in (bindr r (\<lambda>_. Inr ()), s')))"

section \<open>Conditional updates of a leased agent\<close>

definition lease_row :: "pg_env \<Rightarrow> string \<Rightarrow> string \<Rightarrow> string \<Rightarrow> pg_row \<Rightarrow> bool" where
  "lease_row e i agentID leaseToken r \<longleftrightarrow> pr_id r = i \<and> pr_status r = StatusInProgress \<and> pr_owner r = agentID \<and>
     pr_lease_token r = leaseToken \<and> pg_alive (db_now e 0) r"

definition classifyCompletionConflict :: "agent option \<Rightarrow> string \<Rightarrow> string \<Rightarrow> store_error option" where
  "classifyCompletionConflict current agentID leaseToken = (case current of
     None \<Rightarrow> Some (ErrOther ''agent not found'')
   | Some t \<Rightarrow>
       if a_Status t = StatusCompleted then
         (if CompletionTokenMatches (Some t) leaseToken then None else Some ErrTokenMismatchStale)
       else if a_Status t \<noteq> StatusInProgress then Some (ErrInvalidStatus (a_Status t))
       else if a_Owner t \<noteq> agentID then Some (ErrOwnedBy ''complete'' (a_Owner t) agentID)
       else if a_LeaseToken t \<noteq> leaseToken then Some ErrLeaseTokenMismatch
       else Some (ErrOther ''complete rejected''))"

text \<open>Release and renewal classify alike and differ in the verb.\<close>

definition classify_lease_conflict :: "string \<Rightarrow> agent option \<Rightarrow> string \<Rightarrow> string \<Rightarrow> store_error" where
  "classify_lease_conflict verb current agentID leaseToken = (case current of
     None \<Rightarrow> ErrOther ''agent not found''
   | Some t \<Rightarrow>
       if a_Status t \<noteq> StatusInProgress then ErrInvalidStatus (a_Status t)
       else if a_Owner t \<noteq> agentID then ErrOwnedBy verb (a_Owner t) agentID
       else if a_LeaseToken t \<noteq> leaseToken then ErrLeaseTokenMismatch
       else ErrOther (verb @ '' rejected''))"

definition classifyReleaseConflict :: "agent option \<Rightarrow> string \<Rightarrow> string \<Rightarrow> store_error" where
  "classifyReleaseConflict = classify_lease_conflict ''release''"

definition classifyRenewConflict :: "agent option \<Rightarrow> string \<Rightarrow> string \<Rightarrow> store_error" where
  "classifyRenewConflict = classify_lease_conflict ''renew''"

section \<open>Complete\<close>

definition completion_meta :: "string \<Rightarrow> string \<Rightarrow> gotime \<Rightarrow> string gomap" where
  "completion_meta agentID leaseToken now =
    or_nil (a_Metadata (SetCompletionMetadata (empty_agent \<lparr> a_Metadata := Some [] \<rparr>) agentID leaseToken now))"

definition complete_set :: "gotime \<Rightarrow> json \<Rightarrow> string gomap \<Rightarrow> pg_row \<Rightarrow> store_error + pg_row" where
  "complete_set now resultJSON meta r =
    bindr (jsonb_set (pr_payload r) ''result'' resultJSON) (\<lambda>p.
    bindr (sql_inc (pr_version r)) (\<lambda>v.
      Inr (r \<lparr> pr_status := StatusCompleted, pr_payload := p, pr_owner := [], pr_owner_time := None,
               pr_lease_token := [], pr_lease_until := None, pr_updated_at := UnixMicro now, pr_version := v,
               pr_metadata := jsonb_concat (pr_metadata r) meta \<rparr>)))"

definition pg_complete_tx ::
  "pg_config \<Rightarrow> pg_env \<Rightarrow> string \<Rightarrow> string \<Rightarrow> string \<Rightarrow> gval gomap option \<Rightarrow> pg_db \<Rightarrow> store_error + agent pg_end" where
  "pg_complete_tx c e i agentID leaseToken result d =
    (let now = clock e 0; res = or_nil result in
     case marshal_map res of None \<Rightarrow> Inl ErrMarshal | Some resultJSON \<Rightarrow>
       bindr (bindr (sql_update e (CWrite 0) (lease_row e i agentID leaseToken)
           (complete_set now resultJSON (completion_meta agentID leaseToken now)) d) scan_returned) (\<lambda>ret. case ret of
         None \<Rightarrow> bindr (pg_fetch e 1 d i) (\<lambda>current.
           case classifyCompletionConflict (Some current) agentID leaseToken of
             Some er \<Rightarrow> Inl er | None \<Rightarrow> Inr (PgRollback current))
       | Some (t, d) \<Rightarrow>
           let ev = agent_event (uuid e 0) t EventCompleted now agentID (event_data c t StatusCompleted (plain_data res)) in
           bindr (append_event c e 0 d ev (a_NamespaceID t)) (\<lambda>d.
             Inr (PgCommit t d (commit_one c ev (a_NamespaceID t) [] False)))))"

definition PgCompleteAndGet ::
  "pg_config \<Rightarrow> pg_env \<Rightarrow> pg_store \<Rightarrow> string \<Rightarrow> string \<Rightarrow> string \<Rightarrow> gval gomap option \<Rightarrow> (store_error + agent) \<times> pg_store"
where
  "PgCompleteAndGet c e s i agentID leaseToken result =
    (if agentID = [] then (Inl ErrAgentIDRequired, s)
     else if leaseToken = [] then (Inl ErrLeaseTokenRequired, s)
     else pg_tx c e s (pg_complete_tx c e i agentID leaseToken result))"

section \<open>CompleteAndOut\<close>

definition pg_defaults_output :: "pg_config \<Rightarrow> pg_env \<Rightarrow> nat \<Rightarrow> agent \<Rightarrow> agent \<Rightarrow> agent" where
  "pg_defaults_output c e i parent out =
    (let out = defaults_out e i out;
         out = (if a_Status out = [] then out \<lparr> a_Status := StatusNew \<rparr> else out);
         out = with_shard c out;
         out = (if a_TraceID out = [] \<and> a_TraceID parent \<noteq> [] then out \<lparr> a_TraceID := a_TraceID parent \<rparr> else out);
         out = (if a_NamespaceID out = [] \<and> a_NamespaceID parent \<noteq> []
                then out \<lparr> a_NamespaceID := a_NamespaceID parent \<rparr> else out)
     in if a_ParentID out = [] then out \<lparr> a_ParentID := a_ID parent \<rparr> else out)"

text \<open>The \<open>i\<close>-th output uses the clock and UUID places from \<open>i\<close> on; places below belong to the completion.\<close>

fun pg_create_outputs ::
  "pg_config \<Rightarrow> pg_env \<Rightarrow> string \<Rightarrow> agent \<Rightarrow> nat \<Rightarrow> agent list \<Rightarrow> pg_db \<Rightarrow>
     store_error + (agent \<times> event \<times> string) list \<times> pg_db" where
  "pg_create_outputs c e agentID parent i [] d = Inr ([], d)"
| "pg_create_outputs c e agentID parent i (out # outs) d =
    (case upsertAgent e (CWrite i) d (pg_defaults_output c e i parent out) of
       Inl er \<Rightarrow> Inl (ErrCreateOutputAgent er)
     | Inr (out, d) \<Rightarrow>
       (case queueWakeupNotify e i (a_NamespaceID out) (queue_of out) of
          Inl er \<Rightarrow> Inl (ErrOutputWakeup er)
        | Inr payload \<Rightarrow>
          let ev = agent_event (uuid e (2 * i + 1)) out EventCreated (clock e (3 * i + 2)) agentID
                     (event_data c out (a_Status out) [(''agent'', EAgent out), (''parent_id'', EVal (VStr (a_ID parent)))]) in
          case append_event c e i d ev (a_NamespaceID out) of
            Inl er \<Rightarrow> Inl (ErrCreateOutputEvent er)
          | Inr d \<Rightarrow> bindr (pg_create_outputs c e agentID parent (Suc i) outs d) (\<lambda>(os, d).
              Inr ((out, ev, payload) # os, d))))"

text \<open>The namespace under which a deferred output event is queued: that of the first output with its id.\<close>

definition output_namespace :: "agent list \<Rightarrow> agent \<Rightarrow> event \<Rightarrow> string" where
  "output_namespace outs t ev = (case find (\<lambda>out. a_ID out = e_TupleID ev) outs of
     None \<Rightarrow> a_NamespaceID t | Some out \<Rightarrow> a_NamespaceID out)"

definition pg_complete_and_out_tx ::
  "pg_config \<Rightarrow> pg_env \<Rightarrow> string \<Rightarrow> string \<Rightarrow> string \<Rightarrow> gval gomap option \<Rightarrow> agent list \<Rightarrow> pg_db \<Rightarrow>
     store_error + (agent \<times> agent list) pg_end" where
  "pg_complete_and_out_tx c e i agentID leaseToken result outputs d =
    bindr (pg_fetch e 0 d i) (\<lambda>t0.
      if a_Status t0 = StatusCompleted then
        (if \<not> CompletionTokenMatches (Some t0) leaseToken then Inl ErrTokenMismatchStale
         else Inr (PgCommit (t0, []) d \<lparr> cm_queued = [], cm_events = [], cm_notes = [], cm_wake = False \<rparr>))
      else case lease_guard ''complete'' agentID leaseToken t0 of Some er \<Rightarrow> Inl er | None \<Rightarrow>
        let now = clock e 1; res = or_nil result; t = completed_agent now agentID leaseToken res t0 in
        bindr (updateAgentCompletionRow e (CWrite 0) d t) (\<lambda>(t, d).
          let ev = agent_event (uuid e 0) t EventCompleted now agentID (event_data c t StatusCompleted (plain_data res)) in
          bindr (append_event c e 0 d ev (a_NamespaceID t)) (\<lambda>d.
            bindr (pg_create_outputs c e agentID t 1 outputs d) (\<lambda>(os, d).
              let outs = map fst os; evs = map (fst \<circ> snd) os in
              Inr (PgCommit (t, outs) d \<lparr>
                cm_queued = (if cf_deferEvents c
                  then (ev, a_NamespaceID t) # map (\<lambda>x. (x, output_namespace outs t x)) evs else []),
                cm_events = ev # evs, cm_notes = map (snd \<circ> snd) os, cm_wake = True \<rparr>)))))"

definition PgCompleteAndOut ::
  "pg_config \<Rightarrow> pg_env \<Rightarrow> pg_store \<Rightarrow> string \<Rightarrow> string \<Rightarrow> string \<Rightarrow> gval gomap option \<Rightarrow> agent list \<Rightarrow>
     (store_error + agent \<times> agent list) \<times> pg_store" where
  "PgCompleteAndOut c e s i agentID leaseToken result outputs =
    (if agentID = [] then (Inl ErrAgentIDRequired, s)
     else if leaseToken = [] then (Inl ErrLeaseTokenRequired, s)
     else pg_tx c e s (pg_complete_and_out_tx c e i agentID leaseToken result outputs))"

section \<open>Release and RenewLease\<close>

definition release_set :: "gotime \<Rightarrow> pg_row \<Rightarrow> store_error + pg_row" where
  "release_set now r = bindr (sql_inc (pr_version r)) (\<lambda>v.
     Inr (r \<lparr> pr_status := StatusNew, pr_owner := [], pr_owner_time := None, pr_lease_token := [],
              pr_lease_until := None, pr_updated_at := UnixMicro now, pr_version := v \<rparr>))"

definition pg_release_tx ::
  "pg_config \<Rightarrow> pg_env \<Rightarrow> string \<Rightarrow> string \<Rightarrow> string \<Rightarrow> string \<Rightarrow> pg_db \<Rightarrow> store_error + agent pg_end" where
  "pg_release_tx c e i agentID leaseToken reason d =
    bindr (bindr (sql_update e (CWrite 0) (lease_row e i agentID leaseToken) (release_set (clock e 0)) d) scan_returned)
      (\<lambda>ret. case ret of
        None \<Rightarrow> bindr (pg_fetch e 1 d i) (\<lambda>current. Inl (classifyReleaseConflict (Some current) agentID leaseToken))
      | Some (t, d) \<Rightarrow>
          let eventData = (if reason \<noteq> [] then [(''reap_reason'', EVal (VStr reason))] else []) @
                [(''previous_owner'', EVal (VStr agentID))];
              ev = agent_event (uuid e 0) t EventReleased (clock e 1) agentID eventData in
          bindr (append_event c e 0 d ev (a_NamespaceID t)) (\<lambda>d.
            bindr (queueWakeupNotify e 0 (a_NamespaceID t) (queue_of t)) (\<lambda>note.
              Inr (PgCommit t d (commit_one c ev (a_NamespaceID t) [note] True)))))"

definition PgReleaseAndGet ::
  "pg_config \<Rightarrow> pg_env \<Rightarrow> pg_store \<Rightarrow> string \<Rightarrow> string \<Rightarrow> string \<Rightarrow> string \<Rightarrow> (store_error + agent) \<times> pg_store" where
  "PgReleaseAndGet c e s i agentID leaseToken reason =
    (if agentID = [] then (Inl ErrAgentIDRequired, s)
     else if leaseToken = [] then (Inl ErrLeaseTokenRequired, s)
     else pg_tx c e s (pg_release_tx c e i agentID leaseToken reason))"

definition renew_set :: "int \<Rightarrow> int \<Rightarrow> pg_row \<Rightarrow> store_error + pg_row" where
  "renew_set now defaultMs r = bindr (sql_lease_until now defaultMs (pr_metadata r)) (\<lambda>until.
     Inr (r \<lparr> pr_owner_time := Some now, pr_lease_until := Some until, pr_updated_at := now \<rparr>))"

definition pg_renew_tx ::
  "pg_config \<Rightarrow> pg_env \<Rightarrow> string \<Rightarrow> string \<Rightarrow> string \<Rightarrow> duration \<Rightarrow> pg_db \<Rightarrow> store_error + agent pg_end" where
  "pg_renew_tx c e i agentID leaseToken leaseDuration d =
    (let ms = go_quot leaseDuration Millisecond;
         ms = (if ms \<le> 0 then go_quot (cf_leaseDuration c) Millisecond else ms) in
     bindr (bindr (sql_update e (CWrite 0) (lease_row e i agentID leaseToken) (renew_set (UnixMicro (clock e 0)) ms) d)
         scan_returned)
       (\<lambda>ret. case ret of
         None \<Rightarrow> bindr (pg_fetch e 1 d i) (\<lambda>current. Inl (classifyRenewConflict (Some current) agentID leaseToken))
       | Some (t, d) \<Rightarrow> Inr (PgCommit t d \<lparr> cm_queued = [], cm_events = [], cm_notes = [], cm_wake = False \<rparr>)))"

definition PgRenewLease ::
  "pg_config \<Rightarrow> pg_env \<Rightarrow> pg_store \<Rightarrow> string \<Rightarrow> string \<Rightarrow> string \<Rightarrow> duration \<Rightarrow> (store_error + agent) \<times> pg_store" where
  "PgRenewLease c e s i agentID leaseToken leaseDuration =
    (if agentID = [] then (Inl ErrAgentIDRequired, s)
     else if leaseToken = [] then (Inl ErrLeaseTokenRequired, s)
     else pg_tx c e s (pg_renew_tx c e i agentID leaseToken leaseDuration))"

section \<open>BatchTake\<close>

definition batch_take_tx ::
  "pg_config \<Rightarrow> pg_env \<Rightarrow> query option \<Rightarrow> string \<Rightarrow> nat \<Rightarrow> pg_db \<Rightarrow> store_error + agent list pg_end" where
  "batch_take_tx c e qo agentID limit d =
    (let candidates = map pr_id (take limit (lockable e ForUpdateSkipLocked (pg_select e 0 (buildWhereClauses qo True) d))) in
     bindr (sql_update e (CClaim 0) (\<lambda>r. pr_id r \<in> set candidates)
         (\<lambda>r. claim_set (UnixMicro (clock e 0)) (defaultLeaseMs c) agentID (gen_uuid e (pr_id r)) r) d) (\<lambda>(ret, d).
       case all_some (map (\<lambda>r. case scanAgent r of Inr t \<Rightarrow> Some t | Inl _ \<Rightarrow> None) ret) of
         None \<Rightarrow> Inl (ErrOther ''postgres batch take scan failed'')
       | Some claimed \<Rightarrow>
           if fault e CScanRows then Inl (ErrDB CScanRows)
           else if claimed = [] then Inr (PgRollback [])
           else Inr (PgCommit claimed d \<lparr> cm_queued = [], cm_events = [], cm_notes = [], cm_wake = False \<rparr>)))"

text \<open>The events follow the commit; an insert that fails is dropped.\<close>

fun batch_events :: "pg_config \<Rightarrow> pg_env \<Rightarrow> string \<Rightarrow> nat \<Rightarrow> agent list \<Rightarrow> pg_store \<Rightarrow> pg_store" where
  "batch_events c e agentID i [] s = s"
| "batch_events c e agentID i (t # ts) s =
    (let ev = agent_event (uuid e i) t EventClaimed (clock e 0) agentID
                (event_data c t StatusInProgress [(''agent_id'', EVal (VStr agentID))]);
         s = (if cf_deferEvents c then enqueueEvent c e (ev, a_NamespaceID t) s
              else case insertEvent e (CInsertEvent i) (g_db s) ev (a_NamespaceID t) (cf_shardID c) of
                Inl _ \<Rightarrow> s | Inr d \<Rightarrow> s \<lparr> g_db := d \<rparr>)
     in batch_events c e agentID (Suc i) ts (pg_notifySubscribers ev s))"

definition PgBatchTake ::
  "pg_config \<Rightarrow> pg_env \<Rightarrow> pg_store \<Rightarrow> query option \<Rightarrow> int \<Rightarrow> (store_error + agent list) \<times> pg_store" where
  "PgBatchTake c e s qo limit =
    (if limit \<le> 0 then (Inr [], s)
     else if (case qo of None \<Rightarrow> False | Some q \<Rightarrow> q_Status q \<noteq> [] \<and> q_Status q \<noteq> StatusNew) then (Inr [], s)
     else let agentID = take_agent_id qo; (r, s') = pg_tx c e s (batch_take_tx c e qo agentID (nat limit)) in
       case r of Inl er \<Rightarrow> (Inl er, s') | Inr claimed \<Rightarrow> (Inr claimed, batch_events c e agentID 0 claimed s'))"

section \<open>The lease reaper\<close>

definition pg_lapsed :: "pg_env \<Rightarrow> int \<Rightarrow> pg_row \<Rightarrow> bool" where
  "pg_lapsed e now r \<longleftrightarrow> pr_status r = StatusInProgress \<and>
     (case pr_lease_until r of None \<Rightarrow> False | Some u \<Rightarrow> u < now) \<and> \<not> row_locked e (pr_id r)"

definition reap_set :: "int \<Rightarrow> pg_row \<Rightarrow> store_error + pg_row" where
  "reap_set now r = bindr (sql_inc (pr_version r)) (\<lambda>v.
     Inr (r \<lparr> pr_status := StatusNew, pr_owner := [], pr_owner_time := None, pr_lease_token := [],
              pr_lease_until := None, pr_version := v, pr_updated_at := now \<rparr>))"

text \<open>The event names the owner the row had before the update; \<open>r\<close> is that row.\<close>

definition pg_reap_event :: "pg_env \<Rightarrow> nat \<Rightarrow> pg_row \<Rightarrow> event" where
  "pg_reap_event e i r = \<lparr> e_ID = uuid e i, e_TupleID = pr_id r, e_Type = EventReleased, e_Kind = pr_kind r,
     e_Timestamp = clock e 0, e_AgentID = ''reaper'',
     e_Data = [(''reap_reason'', EVal (VStr ''lease_expired'')), (''previous_owner'', EVal (VStr (pr_owner r)))],
     e_TraceID = pr_trace_id r, e_Version = pr_version r + 1 \<rparr>"

text \<open>The batch holds one event insert and one notification per reaped agent.\<close>

fun reap_batch :: "pg_config \<Rightarrow> pg_env \<Rightarrow> nat \<Rightarrow> pg_row list \<Rightarrow> pg_db \<Rightarrow> store_error + (event \<times> string) list \<times> pg_db" where
  "reap_batch c e i [] d = Inr ([], d)"
| "reap_batch c e i (r # rs) d =
    (let ev = pg_reap_event e i r in
     bindr (insertEvent e (CInsertEvent i) d ev (pr_namespace_id r) (cf_shardID c)) (\<lambda>d.
     bindr (queueWakeupNotify e i (pr_namespace_id r) (pr_queue r)) (\<lambda>note.
     bindr (reap_batch c e (Suc i) rs d) (\<lambda>(evs, d). Inr ((ev, note) # evs, d)))))"

definition pg_reap_tx :: "pg_config \<Rightarrow> pg_env \<Rightarrow> pg_db \<Rightarrow> store_error + unit pg_end" where
  "pg_reap_tx c e d =
    (let now = UnixMicro (clock e 0); expired = filter (pg_lapsed e now) (pd_agents d) in
     bindr (sql_update e (CExec 0) (pg_lapsed e now) (reap_set now) d) (\<lambda>(_, d).
       if expired = [] then Inr (PgRollback ())
       else bindr (reap_batch c e 0 expired d) (\<lambda>(evs, d).
         Inr (PgCommit () d \<lparr> cm_queued = [], cm_events = map fst evs, cm_notes = map snd evs, cm_wake = True \<rparr>))))"

definition pg_reapExpiredLeases :: "pg_config \<Rightarrow> pg_env \<Rightarrow> pg_store \<Rightarrow> pg_store" where
  "pg_reapExpiredLeases c e s = snd (pg_tx c e s (pg_reap_tx c e))"

section \<open>Daily partitions\<close>

definition truncateToUTCDate :: "gotime \<Rightarrow> int" where
  "truncateToUTCDate ts = UnixMicro ts div micros_per_day"

datatype partitioned = AgentEvents | TelemetryEvents

text \<open>\<^verbatim>\<open>CREATE TABLE IF NOT EXISTS\<close> of the partition of one day.\<close>

fun create_partition :: "partitioned \<Rightarrow> int \<Rightarrow> pg_db \<Rightarrow> pg_db" where
  "create_partition AgentEvents day d = d \<lparr> pd_days := List.insert day (pd_days d) \<rparr>"
| "create_partition TelemetryEvents day d = d \<lparr> pd_telemetry_days := List.insert day (pd_telemetry_days d) \<rparr>"

text \<open>The days from \<open>start + i\<close> on; \<open>k\<close> numbers the statements.\<close>

fun ensureDailyPartitions :: "pg_env \<Rightarrow> partitioned \<Rightarrow> int \<Rightarrow> nat \<Rightarrow> nat \<Rightarrow> nat \<Rightarrow> pg_db \<Rightarrow> store_error option \<times> pg_db" where
  "ensureDailyPartitions e table start i 0 k d = (None, d)"
| "ensureDailyPartitions e table start i (Suc n) k d =
    (if fault e (CExec k) then (Some (ErrDB (CExec k)), d)
     else ensureDailyPartitions e table start (Suc i) n (Suc k) (create_partition table (start + int i) d))"

definition ensureEventPartitions :: "pg_env \<Rightarrow> gotime \<Rightarrow> int \<Rightarrow> pg_db \<Rightarrow> store_error option \<times> pg_db" where
  "ensureEventPartitions e now totalDays d =
    (let totalDays = (if totalDays \<le> 0 then 1 else totalDays); start = truncateToUTCDate now in
     case ensureDailyPartitions e AgentEvents start 0 (nat totalDays) 0 d of
       (Some er, d) \<Rightarrow> (Some er, d)
     | (None, d) \<Rightarrow> ensureDailyPartitions e TelemetryEvents start 0 (nat totalDays) (nat totalDays) d)"

text \<open>The call at start-up, after the schema is migrated; it is the only one.\<close>

definition initSchema :: "pg_env \<Rightarrow> pg_db \<Rightarrow> store_error option \<times> pg_db" where
  "initSchema e d = ensureEventPartitions e (clock e 0) 8 d"

end
