(* ===== verification/Pg_Statements.thy ===== *)
theory Pg_Statements
  imports Pg_Complete Lease_Spec
begin

text \<open>
  The SQL statements of the Postgres backend as functions on tables: how a table looks as a space of lease
  cells, what an UPDATE, an upsert or a scan does to that view, what every SET list keeps of a well-formed
  row, and which step of the lease contract it takes.
\<close>

section \<open>The view of the tables as a space\<close>

definition pg_cell :: "pg_row \<Rightarrow> cell" where
  "pg_cell r = \<lparr> c_status = pr_status r, c_owner = pr_owner r, c_token = pr_lease_token r,
     c_until = pr_lease_until r, c_version = pr_version r,
     c_ctoken = str_at (or_nil (scan_metadata (pr_metadata r))) CompletedByTokenMetadataKey \<rparr>"

definition pg_view :: "pg_db \<Rightarrow> space" where
  "pg_view d i = map_option pg_cell (pg_row_of d i)"

definition pg_agent_cell :: "agent \<Rightarrow> cell" where
  "pg_agent_cell t = \<lparr> c_status = a_Status t, c_owner = a_Owner t, c_token = a_LeaseToken t,
     c_until = time_param (a_LeaseUntil t), c_version = to_int64 (a_Version t),
     c_ctoken = str_at (or_nil (a_Metadata t)) CompletedByTokenMetadataKey \<rparr>"

text \<open>Writing a list of cells, one after the other.\<close>

definition write_cells :: "(pg_row \<Rightarrow> pg_row) \<Rightarrow> pg_row list \<Rightarrow> space \<Rightarrow> space" where
  "write_cells g rs m = fold (\<lambda>r m. m(pr_id r \<mapsto> pg_cell (g r))) rs m"

lemma write_cells_simps [simp]:
  "write_cells g [] m = m" "write_cells g (r # rs) m = write_cells g rs (m(pr_id r \<mapsto> pg_cell (g r)))"
  by (simp_all add: write_cells_def)

lemma write_cells_at:
  "distinct (map pr_id rs) \<Longrightarrow> write_cells g rs m i =
     (case find (\<lambda>r. pr_id r = i) rs of None \<Rightarrow> m i | Some r \<Rightarrow> Some (pg_cell (g r)))"
proof (induction rs arbitrary: m)
  case (Cons r rs)
  then show ?case using find_None_key[of pr_id i rs] by (cases "pr_id r = i") (auto split: option.split)
qed simp

section \<open>Rows\<close>

lemma pg_row_of_SomeD: "pg_row_of d i = Some r \<Longrightarrow> r \<in> set (pd_agents d) \<and> pr_id r = i"
  unfolding pg_row_of_def by (rule find_SomeD)

lemma pg_row_of_None: "pg_row_of d i = None \<longleftrightarrow> i \<notin> pr_id ` set (pd_agents d)"
  by (simp add: pg_row_of_def find_None_key)

lemma pg_row_of_in: "wf_pg d \<Longrightarrow> r \<in> set (pd_agents d) \<Longrightarrow> pg_row_of d (pr_id r) = Some r"
  by (simp add: pg_row_of_def wf_pg_def find_eq_Some_key)

lemma pg_view_in: "wf_pg d \<Longrightarrow> r \<in> set (pd_agents d) \<Longrightarrow> pg_view d (pr_id r) = Some (pg_cell r)"
  by (simp add: pg_view_def pg_row_of_in)

lemma wf_pg_rowD: "wf_pg d \<Longrightarrow> r \<in> set (pd_agents d) \<Longrightarrow> wf_pg_row r"
  by (simp add: wf_pg_def list_all_iff)

lemma pg_agents_only:
  assumes "pd_agents d' = pd_agents d"
  shows "pg_view d' = pg_view d" "wf_pg d' = wf_pg d" "pg_row_of d' = pg_row_of d"
  using assms by (simp_all add: pg_view_def pg_row_of_def wf_pg_def fun_eq_iff)

lemma pg_fetch_InrD:
  assumes "wf_pg d" "pg_fetch e k d i = Inr t"
  obtains r where "pg_row_of d i = Some r" "pg_alive (db_now e k) r" "scanAgent r = Inr t" "wf_pg_row r" "a_ID t = i"
proof -
  obtain r where f: "find (\<lambda>r. pr_id r = i \<and> pg_alive (db_now e k) r) (pd_agents d) = Some r" "scanAgent r = Inr t"
    using assms(2) by (auto simp: pg_fetch_def split: if_splits option.splits)
  then have "r \<in> set (pd_agents d)" "pr_id r = i" "pg_alive (db_now e k) r" by (auto dest: find_SomeD)
  then show ?thesis
    using that[of r] f(2) pg_row_of_in[OF assms(1)] wf_pg_rowD[OF assms(1)] pg_scan_fields(1)[OF f(2)] by auto
qed

lemma pg_columns_fields:
  assumes "pg_columns t = Inr r"
  shows "pr_id r = a_ID t" "pr_status r = a_Status t" "pr_owner r = a_Owner t" "pr_lease_token r = a_LeaseToken t"
    "pr_lease_until r = time_param (a_LeaseUntil t)" "pr_version r = to_int64 (a_Version t)"
    "pr_metadata r = json_str_map (a_Metadata t)" "pr_shard_id r = Some (a_ShardID t)"
    "pr_queue r = str_at (or_nil (a_Metadata t)) QueueMetadataKey" "pr_namespace_id r = a_NamespaceID t"
    "json_opt_map (a_Payload t) = Some (pr_payload r)"
  using assms by (auto simp: pg_columns_def split: option.splits)

lemma pg_columns_row:
  assumes "pg_columns (sync_namespace t) = Inr r"
  shows "wf_pg_row r" "pg_cell r = pg_agent_cell t" "pr_id r = a_ID t"
proof -
  note f = pg_columns_fields[OF assms]
  obtain m where m: "a_Metadata (sync_namespace t) = Some m"
    "\<And>k. k \<noteq> NamespaceMetadataKey \<Longrightarrow> map_of m k = map_of (or_nil (a_Metadata t)) k"
    "a_NamespaceID (sync_namespace t) = str_at m NamespaceMetadataKey"
    using sync_namespace_metadata[of t] by auto
  show "wf_pg_row r"
    using f m json_opt_map_object[OF f(11)] to_int64_range[of "a_Version t"]
    by (auto simp: wf_pg_row_def json_str_map_def list_all_iff is_str_doc_def scan_metadata_def comp_def json_string_def
        split_beta map_idI)
  show "pg_cell r = pg_agent_cell t" "pr_id r = a_ID t"
    using f m by (simp_all add: pg_cell_def pg_agent_cell_def str_at_def)
qed

lemma pg_agent_cell_sync [simp]: "pg_agent_cell (sync_namespace t) = pg_agent_cell t"
  using sync_namespace_metadata[of t] by (auto simp: pg_agent_cell_def str_at_def)

section \<open>Statements\<close>

lemma upd_rows_spec:
  assumes "upd_rows P f rows = Inr (ret, rows')"
  shows "ret = map (sum.projr \<circ> f) (filter P rows)" "rows' = map (\<lambda>r. if P r then sum.projr (f r) else r) rows"
    "\<And>r. r \<in> set rows \<Longrightarrow> P r \<Longrightarrow> f r = Inr (sum.projr (f r))"
proof -
  have "ret = map (sum.projr \<circ> f) (filter P rows) \<and> rows' = map (\<lambda>r. if P r then sum.projr (f r) else r) rows \<and>
      (\<forall>r \<in> set rows. P r \<longrightarrow> f r = Inr (sum.projr (f r)))"
    using assms by (induction rows arbitrary: ret rows') (auto simp: bindr_eq_Inr split: if_splits)
  then show "ret = map (sum.projr \<circ> f) (filter P rows)" "rows' = map (\<lambda>r. if P r then sum.projr (f r) else r) rows"
    "\<And>r. r \<in> set rows \<Longrightarrow> P r \<Longrightarrow> f r = Inr (sum.projr (f r))" by blast+
qed

lemma sql_update_InrD:
  assumes "sql_update e c P f d = Inr (ret, d')"
  shows "ret = map (sum.projr \<circ> f) (filter P (pd_agents d))"
    "pd_agents d' = map (\<lambda>r. if P r then sum.projr (f r) else r) (pd_agents d)"
    "\<And>r. r \<in> set (pd_agents d) \<Longrightarrow> P r \<Longrightarrow> f r = Inr (sum.projr (f r))"
    "pd_events d' = pd_events d" "pd_days d' = pd_days d"
proof -
  obtain rows where r: "upd_rows P f (pd_agents d) = Inr (ret, rows)" "d' = d \<lparr> pd_agents := rows \<rparr>"
    using assms by (auto simp: sql_update_def bindr_eq_Inr split: if_splits)
  note spec = upd_rows_spec[OF r(1)]
  show "ret = map (sum.projr \<circ> f) (filter P (pd_agents d))" by (rule spec(1))
  show "pd_agents d' = map (\<lambda>r. if P r then sum.projr (f r) else r) (pd_agents d)"
    "pd_events d' = pd_events d" "pd_days d' = pd_days d" using spec(2) r(2) by simp_all
  show "r \<in> set (pd_agents d) \<Longrightarrow> P r \<Longrightarrow> f r = Inr (sum.projr (f r))" for r by (rule spec(3))
qed

text \<open>Rewriting rows in place, keeping their ids: the view changes at the rewritten rows only.\<close>

lemma map_rows_view:
  assumes "wf_pg d" "pd_agents d' = map (\<lambda>r. if P r then g r else r) (pd_agents d)"
    and "\<And>r. r \<in> set (pd_agents d) \<Longrightarrow> P r \<Longrightarrow> pr_id (g r) = pr_id r \<and> wf_pg_row (g r)"
  shows "wf_pg d'" "pg_view d' = write_cells g (filter P (pd_agents d)) (pg_view d)"
proof -
  let ?h = "\<lambda>r. if P r then g r else r"
  have ids: "map pr_id (map ?h (pd_agents d)) = map pr_id (pd_agents d)" using assms(3) by simp
  show wf: "wf_pg d'"
    using assms(1,3) unfolding wf_pg_def assms(2) ids by (auto simp: list_all_iff)
  have dis: "distinct (map pr_id (filter P (pd_agents d)))" using assms(1) by (simp add: wf_pg_def distinct_map_filter)
  show "pg_view d' = write_cells g (filter P (pd_agents d)) (pg_view d)"
  proof
    fix i
    show "pg_view d' i = write_cells g (filter P (pd_agents d)) (pg_view d) i"
    proof (cases "pg_row_of d i")
      case None
      then have no: "i \<notin> pr_id ` set (pd_agents d)" by (simp add: pg_row_of_None)
      moreover have "pr_id ` set (pd_agents d') = pr_id ` set (pd_agents d)" using ids assms(2) by (metis list.set_map)
      ultimately have "pg_row_of d' i = None" by (simp add: pg_row_of_None)
      moreover have "find (\<lambda>r. pr_id r = i) (filter P (pd_agents d)) = None" using no by (auto simp: find_None_iff)
      ultimately show ?thesis using None by (simp add: pg_view_def write_cells_at[OF dis])
    next
      case (Some r)
      then have r: "r \<in> set (pd_agents d)" "pr_id r = i" by (auto dest: pg_row_of_SomeD)
      have h: "?h r \<in> set (pd_agents d')" "pr_id (?h r) = i" using r assms(2,3) by auto
      have view': "pg_view d' i = Some (pg_cell (?h r))" using pg_view_in[OF wf h(1)] h(2) by simp
      show ?thesis
      proof (cases "P r")
        case True
        then have "find (\<lambda>x. pr_id x = i) (filter P (pd_agents d)) = Some r"
          using find_eq_Some_key[OF dis, of r] r by simp
        then show ?thesis using view' True by (simp add: write_cells_at[OF dis])
      next
        case False
        then have "x \<noteq> r" if "x \<in> set (filter P (pd_agents d))" for x using that by auto
        then have "find (\<lambda>x. pr_id x = i) (filter P (pd_agents d)) = None"
          using r assms(1) by (auto simp: find_None_iff wf_pg_def distinct_map inj_on_def)
        then show ?thesis using view' False Some by (simp add: write_cells_at[OF dis] pg_view_def)
      qed
    qed
  qed
qed

lemma upsert_view:
  assumes "wf_pg d" "upsertAgent e c d t = Inr (t', d')"
  shows "wf_pg d'" "pg_view d' = (pg_view d)(a_ID t \<mapsto> pg_agent_cell t)" "t' = sync_namespace t"
    "pd_events d' = pd_events d"
proof -
  obtain r where r: "pg_columns (sync_namespace t) = Inr r" "t' = sync_namespace t"
    "d' = d \<lparr> pd_agents := put_pg_row r (pd_agents d) \<rparr>"
    using assms(2) by (auto simp: upsertAgent_def Let_def bindr_eq_Inr split: if_splits)
  note row = pg_columns_row[OF r(1)]
  show "t' = sync_namespace t" "pd_events d' = pd_events d" using r by simp_all
  have "wf_pg d' \<and> pg_view d' = (pg_view d)(a_ID t \<mapsto> pg_agent_cell t)"
  proof (cases "pr_id r \<in> pr_id ` set (pd_agents d)")
    case True
    then have ag: "pd_agents d' = map (\<lambda>x. if pr_id x = pr_id r then r else x) (pd_agents d)"
      using r(3) by (simp add: put_pg_row_def)
    obtain x where x: "x \<in> set (pd_agents d)" "pr_id x = pr_id r" using True by auto
    have "filter (\<lambda>x. pr_id x = pr_id r) (pd_agents d) = [x]"
      using assms(1) x by (auto simp: wf_pg_def dest: distinct_map_key_filter)
    then show ?thesis
      using map_rows_view[OF assms(1) ag] row x by simp
  next
    case False
    then have ag: "pd_agents d' = pd_agents d @ [r]" using r(3) by (simp add: put_pg_row_def)
    have wf: "wf_pg d'" using assms(1) False row(1) unfolding wf_pg_def ag by auto
    have "pg_row_of d' i = (if i = pr_id r then Some r else pg_row_of d i)" for i
    proof (cases "i = pr_id r")
      case True
      then show ?thesis using pg_row_of_in[OF wf, of r] ag by simp
    next
      case neq: False
      have "find (\<lambda>x. pr_id x = i) (rows @ [r]) = find (\<lambda>x. pr_id x = i) rows" for rows
        using neq by (induction rows) auto
      then show ?thesis using neq ag by (simp add: pg_row_of_def)
    qed
    then have "pg_view d' = (pg_view d)(a_ID t \<mapsto> pg_agent_cell t)" using row by (auto simp: pg_view_def fun_eq_iff)
    then show ?thesis using wf by simp
  qed
  then show "wf_pg d'" "pg_view d' = (pg_view d)(a_ID t \<mapsto> pg_agent_cell t)" by simp_all
qed

lemma insertEvent_agents: "insertEvent e c d ev ns sh = Inr d' \<Longrightarrow> pd_agents d' = pd_agents d"
  by (auto simp: insertEvent_def exec_insert_event_def split: option.splits if_splits)

lemma append_event_agents: "append_event c e i d ev ns = Inr d' \<Longrightarrow> pd_agents d' = pd_agents d"
  by (auto simp: append_event_def dest: insertEvent_agents split: if_splits)

section \<open>The SET lists\<close>

lemma sql_inc_Inr: "sql_inc v = Inr v' \<longleftrightarrow> v \<noteq> 9223372036854775807 \<and> v' = v + 1"
  by (auto simp: sql_inc_def)

lemma inc_range: "int64_range v \<Longrightarrow> v \<noteq> 9223372036854775807 \<Longrightarrow> int64_range (v + 1)"
  by (simp add: int64_range_def)

text \<open>What a SET list keeps of a well-formed row.\<close>

definition keeps_row :: "(pg_row \<Rightarrow> store_error + pg_row) \<Rightarrow> bool" where
  "keeps_row f \<longleftrightarrow> (\<forall>r r'. f r = Inr r' \<longrightarrow> pr_id r' = pr_id r \<and> (wf_pg_row r \<longrightarrow> wf_pg_row r'))"

lemma keeps_rowD: "keeps_row f \<Longrightarrow> f r = Inr r' \<Longrightarrow> pr_id r' = pr_id r \<and> (wf_pg_row r \<longrightarrow> wf_pg_row r')"
  by (simp add: keeps_row_def)

lemma claim_set_keeps: "keeps_row (\<lambda>r. claim_set now ms ag (tok r) r)" "keeps_row (claim_set now ms ag tk)"
  by (auto simp: keeps_row_def claim_set_def bindr_eq_Inr sql_inc_Inr wf_pg_row_def inc_range)

lemma legacy_set_keeps: "keeps_row (legacy_set now lu ag tok)"
  by (auto simp: keeps_row_def legacy_set_def bindr_eq_Inr sql_inc_Inr wf_pg_row_def inc_range)

lemma release_set_keeps: "keeps_row (release_set now)"
  by (auto simp: keeps_row_def release_set_def bindr_eq_Inr sql_inc_Inr wf_pg_row_def inc_range)

lemma reap_set_keeps: "keeps_row (reap_set nowus)"
  by (auto simp: keeps_row_def reap_set_def bindr_eq_Inr sql_inc_Inr wf_pg_row_def inc_range)

lemma renew_set_keeps: "keeps_row (renew_set nowus ms)"
  by (auto simp: keeps_row_def renew_set_def bindr_eq_Inr wf_pg_row_def)

lemma str_at_concat:
  assumes "distinct (map fst m)"
  shows "str_at (or_nil (scan_metadata (jsonb_concat (JObj kvs) m))) k =
    (case map_of m k of Some v \<Rightarrow> v | None \<Rightarrow> str_at (or_nil (scan_metadata (JObj kvs))) k)"
proof -
  have at: "map_of (map (map_prod id f) xs) k = map_option f (map_of xs k)" for f :: "'a \<Rightarrow> 'b" and xs
    by (simp add: map_prod_def id_def map_of_map)
  have "distinct (map fst (map (map_prod id JStr) m))" using assms by (simp add: comp_def)
  then have "map_of (map_merge kvs (map (map_prod id JStr) m)) k =
      (case map_of m k of Some v \<Rightarrow> Some (JStr v) | None \<Rightarrow> map_of kvs k)"
    by (simp add: map_of_merge_distinct map_add_def map_prod_def id_def map_of_map split: option.split)
  then show ?thesis
    by (simp add: str_at_def scan_metadata_def jsonb_concat_def map_prod_def id_def map_of_map json_string_def
        split: option.split)
qed

lemma str_docs_merge:
  "list_all (is_str_doc \<circ> snd) src \<Longrightarrow> list_all (is_str_doc \<circ> snd) xs \<Longrightarrow> list_all (is_str_doc \<circ> snd) (map_merge xs src)"
proof (induction src arbitrary: xs)
  case (Cons kv src)
  have "list_all (is_str_doc \<circ> snd) (AList.update (fst kv) (snd kv) xs)"
    using Cons.prems by (induction xs) auto
  then show ?case using Cons by (simp add: map_merge_def split_beta comp_def)
qed simp

lemma completion_meta_spec:
  assumes "ag \<noteq> []" "tok \<noteq> []"
  shows "distinct (map fst (completion_meta ag tok now))"
    "map_of (completion_meta ag tok now) CompletedByTokenMetadataKey = Some tok"
    "map_of (completion_meta ag tok now) QueueMetadataKey = None"
    "map_of (completion_meta ag tok now) NamespaceMetadataKey = None"
  using assms
  by (simp_all add: completion_meta_def SetCompletionMetadata_def Let_def CompletedByMetadataKey_def
      CompletedByTokenMetadataKey_def CompletedAtMetadataKey_def QueueMetadataKey_def NamespaceMetadataKey_def)

lemma complete_set_Inr:
  assumes "complete_set now j (completion_meta ag tok now) r = Inr r'" "wf_pg_row r" "ag \<noteq> []" "tok \<noteq> []"
  shows "pr_id r' = pr_id r" "wf_pg_row r'"
    "pg_cell r' = (freed StatusCompleted (pg_cell r)) \<lparr> c_version := to_int64 (c_version (pg_cell r) + 1), c_ctoken := tok \<rparr>"
proof -
  obtain kvs where kvs: "pr_metadata r = JObj kvs" "list_all (is_str_doc \<circ> snd) kvs"
    using assms(2) by (auto simp: wf_pg_row_def split: json.splits)
  let ?m = "jsonb_concat (JObj kvs) (completion_meta ag tok now)"
  note at = str_at_concat[OF completion_meta_spec(1)[OF assms(3,4)], of kvs now]
  obtain p where p: "jsonb_set (pr_payload r) ''result'' j = Inr p" "is_object p"
    using assms(1) by (auto simp: complete_set_def bindr_eq_Inr jsonb_set_def is_object_def split: json.splits)
  have r': "r' = r \<lparr> pr_status := StatusCompleted, pr_payload := p, pr_owner := [], pr_owner_time := None,
      pr_lease_token := [], pr_lease_until := None, pr_updated_at := UnixMicro now, pr_version := pr_version r + 1,
      pr_metadata := ?m \<rparr>" and v: "int64_range (pr_version r + 1)"
    using assms(1,2) p kvs by (auto simp: complete_set_def bindr_eq_Inr sql_inc_Inr wf_pg_row_def inc_range)
  have docs: "list_all (is_str_doc \<circ> snd) (map_merge kvs (map (map_prod id JStr) m))" for m
    using kvs(2) by (intro str_docs_merge) (simp_all add: list_all_iff is_str_doc_def)
  show "pr_id r' = pr_id r" using r' by simp
  show "wf_pg_row r'"
    using assms(2) p v docs at completion_meta_spec(3,4)[OF assms(3,4)] kvs
    unfolding r' by (simp add: wf_pg_row_def jsonb_concat_def)
  show "pg_cell r' = (freed StatusCompleted (pg_cell r)) \<lparr> c_version := to_int64 (c_version (pg_cell r) + 1), c_ctoken := tok \<rparr>"
    using v at completion_meta_spec(2)[OF assms(3,4)] unfolding r' by (simp add: pg_cell_def freed_def)
qed

section \<open>Steps of a statement\<close>

lemma protocol_cells:
  assumes "distinct (map pr_id rs)" "\<And>r. r \<in> set rs \<Longrightarrow> m (pr_id r) = Some (pg_cell r)"
    and "\<And>r m. r \<in> set rs \<Longrightarrow> m (pr_id r) = Some (pg_cell r) \<Longrightarrow>
      step m (l r) (m(pr_id r \<mapsto> pg_cell (g r))) \<and> protocol_step m (l r)"
  shows "protocol m (map l rs) (write_cells g rs m)"
  using assms
proof (induction rs arbitrary: m)
  case (Cons r rs)
  have "protocol (m(pr_id r \<mapsto> pg_cell (g r))) (map l rs) (write_cells g rs (m(pr_id r \<mapsto> pg_cell (g r))))"
  proof (rule Cons.IH)
    show "(m(pr_id r \<mapsto> pg_cell (g r))) (pr_id x) = Some (pg_cell x)" if "x \<in> set rs" for x
      using that Cons.prems(1) Cons.prems(2)[of x] by (auto simp: image_iff)
  qed (use Cons.prems in simp_all)
  moreover have "step m (l r) (m(pr_id r \<mapsto> pg_cell (g r)))" "protocol_step m (l r)"
    using Cons.prems(2)[of r] Cons.prems(3)[of r m] by (meson list.set_intros(1))+
  ultimately show ?case by auto
qed simp

lemma sql_update_view:
  assumes "wf_pg d" "sql_update e c P f d = Inr (ret, d')"
    and "\<And>r r'. r \<in> set (pd_agents d) \<Longrightarrow> P r \<Longrightarrow> f r = Inr r' \<Longrightarrow> pr_id r' = pr_id r \<and> wf_pg_row r'"
  shows "wf_pg d'" "pg_view d' = write_cells (sum.projr \<circ> f) (filter P (pd_agents d)) (pg_view d)"
  using map_rows_view[OF assms(1) sql_update_InrD(2)[OF assms(2)]] sql_update_InrD(3)[OF assms(2)] assms(3)
  by (auto simp: comp_def)

lemma sql_update_protocol:
  assumes "wf_pg d" "sql_update e c P f d = Inr (ret, d')" "keeps_row f"
    and "\<And>r r' m. wf_pg_row r \<Longrightarrow> P r \<Longrightarrow> f r = Inr r' \<Longrightarrow> m (pr_id r) = Some (pg_cell r) \<Longrightarrow>
      step m (l r) (m(pr_id r \<mapsto> pg_cell r')) \<and> protocol_step m (l r)"
  shows "wf_pg d'" "protocol (pg_view d) (map l (filter P (pd_agents d))) (pg_view d')"
proof -
  have keep: "pr_id r' = pr_id r \<and> wf_pg_row r'" if "r \<in> set (pd_agents d)" "f r = Inr r'" for r r'
    using keeps_rowD[OF assms(3) that(2)] wf_pg_rowD[OF assms(1) that(1)] by simp
  have v: "wf_pg d'" "pg_view d' = write_cells (sum.projr \<circ> f) (filter P (pd_agents d)) (pg_view d)"
    by (rule sql_update_view[OF assms(1,2)]; use keep in blast)+
  show "wf_pg d'" by (rule v(1))
  show "protocol (pg_view d) (map l (filter P (pd_agents d))) (pg_view d')"
    unfolding v(2)
  proof (rule protocol_cells)
    show "distinct (map pr_id (filter P (pd_agents d)))" using assms(1) by (simp add: wf_pg_def distinct_map_filter)
    show "pg_view d (pr_id r) = Some (pg_cell r)" if "r \<in> set (filter P (pd_agents d))" for r
      using that pg_view_in[OF assms(1)] by simp
    show "step m (l r) (m(pr_id r \<mapsto> pg_cell ((sum.projr \<circ> f) r))) \<and> protocol_step m (l r)"
      if "r \<in> set (filter P (pd_agents d))" "m (pr_id r) = Some (pg_cell r)" for r m
      using that assms(4)[of r _ m] sql_update_InrD(3)[OF assms(2), of r] wf_pg_rowD[OF assms(1), of r] by auto
  qed
qed

text \<open>A statement whose condition fixes the id touches at most one row.\<close>

lemma filter_one_id:
  assumes "wf_pg d" "\<And>r. P r \<Longrightarrow> pr_id r = i" "r \<in> set (pd_agents d)" "P r"
  shows "filter P (pd_agents d) = [r]"
proof -
  have "filter P (pd_agents d) = filter P (filter (\<lambda>x. pr_id x = pr_id r) (pd_agents d))"
    using assms(2)[OF assms(4)] assms(2) by (auto intro: filter_cong)
  also have "filter (\<lambda>x. pr_id x = pr_id r) (pd_agents d) = [r]"
    using distinct_map_key_filter[of pr_id "pd_agents d" r] assms(1,3) by (simp add: wf_pg_def)
  finally show ?thesis using assms(4) by simp
qed

lemma single_update:
  assumes "wf_pg d" "bindr (sql_update e c P f d) scan_returned = Inr (Some (t, d'))" "\<And>r. P r \<Longrightarrow> pr_id r = i"
  obtains r r' ret where "sql_update e c P f d = Inr (ret, d')" "r \<in> set (pd_agents d)" "P r" "f r = Inr r'"
    "scanAgent r' = Inr t" "filter P (pd_agents d) = [r]" "pg_row_of d i = Some r" "wf_pg_row r"
proof -
  obtain ret d0 where u0: "sql_update e c P f d = Inr (ret, d0)" "scan_returned (ret, d0) = Inr (Some (t, d'))"
    using assms(2) by (auto simp: bindr_eq_Inr)
  then have u: "sql_update e c P f d = Inr (ret, d')" "ret \<noteq> []" "scanAgent (hd ret) = Inr t"
    by (cases ret; auto simp: scan_returned_def bindr_eq_Inr)+
  note spec = sql_update_InrD[OF u(1)]
  have "filter P (pd_agents d) \<noteq> []" using u(2) spec(1) by auto
  then obtain r where r: "r \<in> set (pd_agents d)" "P r" by (auto simp: filter_empty_conv)
  note one = filter_one_id[of d P i r, OF assms(1) assms(3) r]
  have "hd ret = sum.projr (f r)" using spec(1) one by simp
  moreover have "pg_row_of d i = Some r" using pg_row_of_in[OF assms(1) r(1)] assms(3)[OF r(2)] by simp
  ultimately show ?thesis
    using that[OF u(1) r _ _ one] spec(3)[OF r] u(3) wf_pg_rowD[OF assms(1) r(1)] by metis
qed

lemma no_row_updated:
  assumes "bindr (sql_update e c P f d) scan_returned = Inr None" "r \<in> set (pd_agents d)"
  shows "\<not> P r"
proof
  assume "P r"
  then have "filter P (pd_agents d) \<noteq> []" using assms(2) by (auto simp: filter_empty_conv)
  moreover obtain ret d' where u: "sql_update e c P f d = Inr (ret, d')" "scan_returned (ret, d') = Inr None"
    using assms(1) by (auto simp: bindr_eq_Inr)
  moreover have "ret = []" using u(2) by (cases ret) (auto simp: scan_returned_def bindr_eq_Inr)
  ultimately show False using sql_update_InrD(1)[OF u(1)] by simp
qed

end
