(* ===== verification/Pg_Refine.thy ===== *)
theory Pg_Refine
  imports Pg_Statements
begin

text \<open>
  The transactions of the Postgres backend refine the lease contract: for each one the labels it takes,
  that they lead from the view of the tables before to the view after the commit, and that the COMPLETED
  events it announces are exactly its completion labels.
\<close>

section \<open>Transactions\<close>

definition completes :: "string \<Rightarrow> event \<Rightarrow> bool" where
  "completes k ev \<longleftrightarrow> e_Type ev = EventCompleted \<and> e_TupleID ev = k"

text \<open>The completions of an agent that subscribers were told of.\<close>

definition announced :: "pg_store \<Rightarrow> string \<Rightarrow> nat" where
  "announced s k = length (filter (completes k \<circ> fst) (g_log s))"

lemma enqueue_keeps [simp]:
  "pd_agents (g_db (enqueueEvent c e pe s)) = pd_agents (g_db s)" "g_log (enqueueEvent c e pe s) = g_log s"
  by (auto simp: enqueueEvent_def dest: insertEvent_agents split: sum.splits)

lemma notify_keeps [simp]:
  "g_db (pg_notifySubscribers ev s) = g_db s"
  "announced (pg_notifySubscribers ev s) k = announced s k + (if completes k ev then 1 else 0)"
  by (simp_all add: pg_notifySubscribers_def announced_def)

lemma fold_enqueue [simp]:
  "pd_agents (g_db (fold (enqueueEvent c e) pes s)) = pd_agents (g_db s)"
  "announced (fold (enqueueEvent c e) pes s) k = announced s k"
  by (induction pes arbitrary: s) (simp_all add: announced_def)

lemma fold_notify [simp]:
  "g_db (fold pg_notifySubscribers evs s) = g_db s"
  "announced (fold pg_notifySubscribers evs s) k = announced s k + length (filter (completes k) evs)"
  by (induction evs arbitrary: s) simp_all

lemma wake_keeps [simp]: "g_db (signalWakeups s) = g_db s" "announced (signalWakeups s) k = announced s k"
  by (simp_all add: signalWakeups_def announced_def)

lemma after_commit_keeps [simp]:
  "pd_agents (g_db (after_commit c e cm s)) = pd_agents (g_db s)"
  "announced (after_commit c e cm s) k = announced s k + length (filter (completes k) (cm_events cm))"
  by (simp_all add: after_commit_def Let_def)

text \<open>What a committing transaction body must achieve, and what an operation then does to the store.\<close>

definition tx_sound :: "pg_db \<Rightarrow> label list \<Rightarrow> bool \<Rightarrow> pg_db \<Rightarrow> event list \<Rightarrow> bool" where
  "tx_sound d ls ok d' evs \<longleftrightarrow> wf_pg d' \<and> steps (pg_view d) ls (pg_view d') \<and>
     (ok \<longrightarrow> protocol (pg_view d) ls (pg_view d')) \<and>
     (\<forall>k. length (filter (completes k) evs) = length (filter (is_complete k) ls))"

definition pg_sound :: "pg_store \<Rightarrow> label list \<Rightarrow> bool \<Rightarrow> pg_store \<Rightarrow> bool" where
  "pg_sound s ls ok s' \<longleftrightarrow> wf_pg (g_db s') \<and> steps (pg_view (g_db s)) ls (pg_view (g_db s')) \<and>
     (ok \<longrightarrow> protocol (pg_view (g_db s)) ls (pg_view (g_db s'))) \<and>
     (\<forall>k. announced s' k = announced s k + length (filter (is_complete k) ls))"

lemma pg_sound_same:
  assumes "wf_pg (g_db s)" "pd_agents (g_db s') = pd_agents (g_db s)" "\<And>k. announced s' k = announced s k"
  shows "pg_sound s [] ok s'"
  using assms pg_agents_only[OF assms(2)] by (simp add: pg_sound_def steps_Nil)

lemma pg_sound_refl: "wf_pg (g_db s) \<Longrightarrow> pg_sound s [] ok s"
  by (rule pg_sound_same) simp_all

lemma tx_sound_protocol:
  assumes "wf_pg d'" "protocol (pg_view d) ls (pg_view d')"
    "\<And>k. length (filter (completes k) evs) = length (filter (is_complete k) ls)"
  shows "tx_sound d ls ok d' evs"
  using assms by (simp add: tx_sound_def protocol_steps)

lemma pg_tx_cases:
  obtains (error) er where "pg_tx c e s body = (Inl er, s)"
  | (rollback) x where "body (g_db s) = Inr (PgRollback x)" "pg_tx c e s body = (Inr x, s)"
  | (commit) x d cm s' where "body (g_db s) = Inr (PgCommit x d cm)" "pg_tx c e s body = (Inr x, s')"
      "pd_agents (g_db s') = pd_agents d"
      "\<And>k. announced s' k = announced s k + length (filter (completes k) (cm_events cm))"
proof (cases "fault e CBegin")
  case False
  show ?thesis
  proof (cases "body (g_db s)")
    case (Inl er)
    then show ?thesis using error False by (simp add: pg_tx_def)
  next
    case (Inr y)
    show ?thesis
    proof (cases y)
      case (PgCommit x d cm)
      have "announced (s \<lparr> g_db := d, g_notes := ns \<rparr>) k = announced s k" for ns k by (simp add: announced_def)
      then show ?thesis
        using PgCommit error[of "ErrDB CCommit"] commit[of x d cm] False Inr
        by (cases "fault e CCommit") (simp_all add: pg_tx_def)
    qed (use Inr rollback False in \<open>simp add: pg_tx_def\<close>)
  qed
qed (use error in \<open>simp add: pg_tx_def\<close>)

lemma pg_tx_sound:
  assumes "wf_pg (g_db s)"
    and "\<And>x d cm. body (g_db s) = Inr (PgCommit x d cm) \<Longrightarrow> tx_sound (g_db s) (lab x) (ok x) d (cm_events cm)"
    and "\<And>x. body (g_db s) = Inr (PgRollback x) \<Longrightarrow> lab x = []"
  shows "pg_sound s (case fst (pg_tx c e s body) of Inl _ \<Rightarrow> [] | Inr x \<Rightarrow> lab x)
    (case fst (pg_tx c e s body) of Inl _ \<Rightarrow> True | Inr x \<Rightarrow> ok x) (snd (pg_tx c e s body))"
proof (cases rule: pg_tx_cases[of c e s body])
  case (commit x d cm s')
  then show ?thesis
    using assms(2)[OF commit(1)] pg_agents_only[OF commit(3)] by (simp add: tx_sound_def pg_sound_def)
next
  case (rollback x)
  then show ?thesis using assms(1) assms(3)[OF rollback(1)] by (simp add: pg_sound_refl)
qed (use assms(1) in \<open>simp add: pg_sound_refl\<close>)

lemma pg_tx_Inl: "pg_tx c e s body = (Inl er, s') \<Longrightarrow> s' = s"
  by (auto simp: pg_tx_def split: if_splits sum.splits pg_end.splits)

section \<open>Claims\<close>

definition take_label :: "agent \<Rightarrow> label" where
  "take_label t = LTake (a_ID t) (a_Owner t) (a_LeaseToken t) (Some (UnixMicro (a_LeaseUntil t)))"

definition row_take_label :: "pg_row \<Rightarrow> label" where
  "row_take_label r = LTake (pr_id r) (pr_owner r) (pr_lease_token r) (pr_lease_until r)"

lemma scan_take_label:
  "scanAgent r = Inr t \<Longrightarrow> pr_lease_until r = Some u \<Longrightarrow> take_label t = row_take_label r"
  using pg_scan_fields[of r t]
  by (simp add: take_label_def row_take_label_def scan_time_def time_UnixMicro_def UnixMicro_def)

lemma claim_set_step:
  assumes "claim_set now ms ag tok r = Inr r'" "wf_pg_row r" "pr_status r = StatusNew" "m (pr_id r) = Some (pg_cell r)"
  shows "step m (row_take_label r') (m(pr_id r \<mapsto> pg_cell r'))" "protocol_step m (row_take_label r')"
    "\<exists>u. pr_lease_until r' = Some u"
proof -
  obtain u v where v: "sql_inc (pr_version r) = Inr v" and r': "r' = r \<lparr> pr_status := StatusInProgress, pr_owner := ag,
      pr_owner_time := Some now, pr_lease_token := tok, pr_lease_until := Some u, pr_updated_at := now, pr_version := v \<rparr>"
    using assms(1) by (auto simp: claim_set_def bindr_eq_Inr)
  have "v = to_int64 (pr_version r + 1)"
    using v assms(2) inc_range[of "pr_version r"] by (simp add: sql_inc_Inr wf_pg_row_def)
  then have "pg_cell r' = pg_cell r \<lparr> c_status := StatusInProgress, c_owner := ag, c_token := tok, c_until := Some u,
      c_version := to_int64 (c_version (pg_cell r) + 1) \<rparr>" "row_take_label r' = LTake (pr_id r) ag tok (Some u)"
    using r' by (simp_all add: pg_cell_def row_take_label_def)
  note cell = this
  have new: "c_status (pg_cell r) = StatusNew" using assms(3) by (simp add: pg_cell_def)
  show "step m (row_take_label r') (m(pr_id r \<mapsto> pg_cell r'))"
    unfolding cell using step.Take[of m "pr_id r" "pg_cell r" ag tok "Some u"] assms(4) new by blast
  show "protocol_step m (row_take_label r')" unfolding cell by simp
  show "\<exists>u. pr_lease_until r' = Some u" using r' by simp
qed

text \<open>A claim that is about to be committed.\<close>

definition claim_ok :: "pg_db \<Rightarrow> (agent \<times> pg_db) option \<Rightarrow> bool" where
  "claim_ok d claim = (case claim of None \<Rightarrow> True | Some (t, d') \<Rightarrow>
     wf_pg d' \<and> protocol (pg_view d) [take_label t] (pg_view d'))"

lemma claim_update_ok:
  assumes "wf_pg d" "bindr (sql_update e c P (claim_set now ms ag tok) d) scan_returned = Inr claim"
    and "\<And>r. P r \<Longrightarrow> pr_id r = i" "\<And>r. r \<in> set (pd_agents d) \<Longrightarrow> P r \<Longrightarrow> pr_status r = StatusNew"
  shows "claim_ok d claim"
proof (cases claim)
  case (Some td)
  obtain t d' where td: "td = (t, d')" by force
  obtain r r' ret where u: "sql_update e c P (claim_set now ms ag tok) d = Inr (ret, d')"
    "r \<in> set (pd_agents d)" "P r" "claim_set now ms ag tok r = Inr r'" "scanAgent r' = Inr t"
    "filter P (pd_agents d) = [r]" "wf_pg_row r"
    using single_update[OF assms(1), of e c P "claim_set now ms ag tok" t d' i] assms(2,3) Some td by metis
  have view: "wf_pg d'" "pg_view d' = (pg_view d)(pr_id r \<mapsto> pg_cell r')"
    using sql_update_view[OF assms(1) u(1)] keeps_rowD[OF claim_set_keeps(2)] wf_pg_rowD[OF assms(1)] u(4,6) by auto
  note st = claim_set_step[of now ms ag tok r r' "pg_view d", OF u(4,7) assms(4)[OF u(2,3)] pg_view_in[OF assms(1) u(2)]]
  then have "take_label t = row_take_label r'" using scan_take_label[OF u(5)] by blast
  then show ?thesis using Some td st view by (auto simp: claim_ok_def)
qed (simp add: claim_ok_def)

lemma select_where_new:
  assumes "r \<in> set (lockable e lock (pg_select e k (buildWhereClauses (Some q) True) d))"
  shows "r \<in> set (pd_agents d)" "pr_status r = StatusNew"
  using assms by (auto simp: lockable_def pg_select_def build_where_sat split: lock_clause.splits)

lemma atomic_claim_ok:
  assumes "wf_pg d" "takeAtomicClaim c e (buildWhereClauses (Some q) True) ag lock d = Inr claim"
  shows "claim_ok d claim"
proof (cases "lockable e lock (pg_select e 0 (buildWhereClauses (Some q) True) d)")
  case (Cons cand rest)
  have cand: "cand \<in> set (pd_agents d)" "pr_status cand = StatusNew"
    using select_where_new[of cand e lock 0 q d] Cons by simp_all
  show ?thesis
  proof (rule claim_update_ok[OF assms(1)])
    show "bindr (sql_update e (CClaim 0) (\<lambda>r. pr_id r = pr_id cand)
        (claim_set (UnixMicro (clock e 0)) (defaultLeaseMs c) ag (uuid e 0)) d) scan_returned = Inr claim"
      using assms(2) Cons by (simp add: takeAtomicClaim_def)
    show "pr_status r = StatusNew" if "r \<in> set (pd_agents d)" "pr_id r = pr_id cand" for r
      using that cand pg_row_of_in[OF assms(1)] by (metis option.inject)
  qed
qed (use assms(2) in \<open>auto simp: takeAtomicClaim_def claim_ok_def split: if_splits\<close>)

lemma strict_claim_ok:
  assumes "wf_pg d" "takeStrictHeadClaim c e (Some q) ag lock d = Inr claim"
  shows "claim_ok d claim"
proof -
  obtain hw ha mw ma where w: "buildStrictQueueHeadWhereClauses (Some q) = (hw, ha)" "buildWhereClauses (Some q) True = (mw, ma)"
    by (metis surj_pair)
  show ?thesis
  proof (cases "lockable e lock (pg_select e 0 (hw, ha) d)")
    case (Cons cand rest)
    then have "cand \<in> set (lockable e lock (pg_select e 0 (hw, ha) d))" by simp
    then have cand: "cand \<in> set (pd_agents d)" "pr_status cand = StatusNew"
      using strict_head_sat[of "db_now e 0" q cand] w(1)
      by (auto simp: lockable_def pg_select_def split: lock_clause.splits)
    let ?P = "\<lambda>r. pr_id r = pr_id cand \<and> where_sat (db_now e 0) (map (shift_clause (length ha)) mw, ha @ ma) r"
    show ?thesis
    proof (rule claim_update_ok[OF assms(1), where P = ?P])
      show "bindr (sql_update e (CClaim 0) ?P
          (claim_set (UnixMicro (clock e 0)) (defaultLeaseMs c) ag (uuid e 0)) d) scan_returned = Inr claim"
        using assms(2) Cons w by (simp add: takeStrictHeadClaim_def)
      show "pr_status r = StatusNew" if "r \<in> set (pd_agents d)" "?P r" for r
        using that cand pg_row_of_in[OF assms(1)] by (metis option.inject)
    qed simp
  qed (use assms(2) w in \<open>auto simp: takeStrictHeadClaim_def claim_ok_def split: if_splits\<close>)
qed

lemma legacy_claim_ok:
  assumes "wf_pg d" "takeLegacyClaim e (buildWhereClauses (Some q) True) ag lock d = Inr claim"
  shows "claim_ok d claim"
proof (cases claim)
  case (Some td)
  obtain t' d' where td: "td = (t', d')" by force
  obtain r rest t ret where r: "lockable e lock (pg_select e 0 (buildWhereClauses (Some q) True) d) = r # rest"
    "scanAgent r = Inr t" "ret \<noteq> []"
    "sql_update e (CWrite 0) (\<lambda>x. pr_id x = a_ID t)
       (legacy_set (clock e 0) (clock e 0 + leaseDurationForAgent (Some t)) ag (uuid e 0)) d = Inr (ret, d')"
    "t' = t \<lparr> a_Status := StatusInProgress, a_Owner := ag, a_OwnerTime := clock e 0, a_LeaseToken := uuid e 0,
       a_LeaseUntil := clock e 0 + leaseDurationForAgent (Some t), a_UpdatedAt := clock e 0,
       a_Version := to_int64 (a_Version t + 1) \<rparr>"
    using assms(2) Some td
    by (auto simp: takeLegacyClaim_def Let_def bindr_eq_Inr split: if_splits list.splits)
  have in_r: "r \<in> set (pd_agents d)" "pr_status r = StatusNew" using select_where_new[of r e lock 0 q d] r(1) by simp_all
  have id: "a_ID t = pr_id r" using pg_scan_fields(1)[OF r(2)] .
  let ?f = "legacy_set (clock e 0) (clock e 0 + leaseDurationForAgent (Some t)) ag (uuid e 0)"
  have one: "filter (\<lambda>x. pr_id x = a_ID t) (pd_agents d) = [r]"
    by (rule filter_one_id[of d _ "a_ID t" r]) (use assms(1) in_r id in simp_all)
  have wf_r: "wf_pg_row r" by (rule wf_pg_rowD[OF assms(1) in_r(1)])
  obtain r' where r': "?f r = Inr r'" using sql_update_InrD(3)[OF r(4) in_r(1)] id by auto
  have cell: "pg_cell r' = pg_cell r \<lparr> c_status := StatusInProgress, c_owner := ag, c_token := uuid e 0,
      c_until := Some (UnixMicro (clock e 0 + leaseDurationForAgent (Some t))),
      c_version := to_int64 (c_version (pg_cell r) + 1) \<rparr>"
    using r' wf_r by (auto simp: legacy_set_def bindr_eq_Inr sql_inc_Inr pg_cell_def wf_pg_row_def inc_range)
  have "wf_pg d'" "pg_view d' = (pg_view d)(pr_id r \<mapsto> pg_cell r')"
    using sql_update_view[OF assms(1) r(4)] keeps_rowD[OF legacy_set_keeps] wf_pg_rowD[OF assms(1)] one r' by auto
  moreover have "take_label t' = LTake (pr_id r) ag (uuid e 0) (Some (UnixMicro (clock e 0 + leaseDurationForAgent (Some t))))"
    using r(5) id by (simp add: take_label_def)
  moreover have "c_status (pg_cell r) = StatusNew" using in_r(2) by (simp add: pg_cell_def)
  then have "step (pg_view d) (LTake (pr_id r) ag (uuid e 0) (Some (UnixMicro (clock e 0 + leaseDurationForAgent (Some t)))))
      ((pg_view d)(pr_id r \<mapsto> pg_cell r'))"
    unfolding cell using step.Take[of "pg_view d" "pr_id r" "pg_cell r"] pg_view_in[OF assms(1) in_r(1)] by blast
  ultimately show ?thesis using Some td by (auto simp: claim_ok_def)
qed (simp add: claim_ok_def)

lemma claim_commit_sound:
  assumes "claim_ok d claim" "claim_commit c e ag claim = Inr (PgCommit x d' cm)"
  shows "tx_sound d (case x of None \<Rightarrow> [] | Some t \<Rightarrow> [take_label t]) ok d' (cm_events cm)"
proof -
  obtain t d1 where t: "claim = Some (t, d1)" using assms(2) by (cases claim) (auto simp: claim_commit_def)
  obtain ev where ev: "append_event c e 0 d1 ev (a_NamespaceID t) = Inr d'" "x = Some t" "cm_events cm = [ev]"
    "e_Type ev = EventClaimed"
    using assms(2) t by (auto simp: claim_commit_def Let_def bindr_eq_Inr commit_one_def agent_event_def)
  have "wf_pg d1" "protocol (pg_view d) [take_label t] (pg_view d1)" using assms(1) t by (simp_all add: claim_ok_def)
  then show ?thesis
    using ev pg_agents_only[OF append_event_agents[OF ev(1)]]
    by (intro tx_sound_protocol) (simp_all add: completes_def is_complete_def take_label_def)
qed

lemma claim_commit_rollback: "claim_commit c e ag claim = Inr (PgRollback x) \<Longrightarrow> x = None"
  by (auto simp: claim_commit_def Let_def bindr_eq_Inr split: option.splits)

text \<open>The labels of a claiming operation, read off its result.\<close>

definition take_labels :: "store_error + agent option \<Rightarrow> label list" where
  "take_labels r = (case r of Inr (Some t) \<Rightarrow> [take_label t] | _ \<Rightarrow> [])"

lemma take_labels_case: "(case r of Inl _ \<Rightarrow> [] | Inr x \<Rightarrow> (case x of None \<Rightarrow> [] | Some t \<Rightarrow> [take_label t])) = take_labels r"
  by (simp add: take_labels_def split: sum.splits option.splits)

lemma pg_sound_ok: "pg_sound s ls True s' \<Longrightarrow> pg_sound s ls ok s'"
  by (simp add: pg_sound_def)

lemma claim_tx_sound:
  assumes "wf_pg (g_db s)"
    and "\<And>y. body (g_db s) = Inr y \<Longrightarrow> (\<exists>claim. claim_ok (g_db s) claim \<and> claim_commit c e ag claim = Inr y) \<or> y = PgRollback None"
  shows "pg_sound s (take_labels (fst (pg_tx c e s body))) ok (snd (pg_tx c e s body))"
proof -
  have "pg_sound s (case fst (pg_tx c e s body) of Inl _ \<Rightarrow> [] | Inr x \<Rightarrow> (case x of None \<Rightarrow> [] | Some t \<Rightarrow> [take_label t]))
    (case fst (pg_tx c e s body) of Inl _ \<Rightarrow> True | Inr x \<Rightarrow> True) (snd (pg_tx c e s body))"
    by (rule pg_tx_sound[OF assms(1)])
      (use assms(2) claim_commit_sound claim_commit_rollback in \<open>fastforce split: option.splits\<close>)+
  then show ?thesis unfolding take_labels_case by (cases "fst (pg_tx c e s body)") (simp_all add: pg_sound_ok)
qed

section \<open>Take\<close>

lemma claimByID_sound:
  assumes "wf_pg (g_db s)"
  shows "pg_sound s (take_labels (fst (claimByID c e s i ag))) ok (snd (claimByID c e s i ag))"
  unfolding claimByID_def
proof (rule claim_tx_sound[OF assms])
  let ?P = "\<lambda>r. pr_id r = i \<and> pr_status r = StatusNew \<and> pg_alive (db_now e 0) r"
  let ?f = "claim_set (UnixMicro (clock e 0)) (defaultLeaseMs c) ag (uuid e 0)"
  fix y
  assume "bindr (sql_update e (CClaim 0) ?P ?f (g_db s)) (\<lambda>ret. bindr (scan_returned ret) (claim_commit c e ag)) = Inr y"
  then obtain claim where "bindr (sql_update e (CClaim 0) ?P ?f (g_db s)) scan_returned = Inr claim"
    "claim_commit c e ag claim = Inr y" by (auto simp: bindr_eq_Inr)
  then show "(\<exists>claim. claim_ok (g_db s) claim \<and> claim_commit c e ag claim = Inr y) \<or> y = PgRollback None"
    using claim_update_ok[OF assms, of e "CClaim 0" ?P] by blast
qed

lemma takeWithStrategy_sound:
  assumes "wf_pg (g_db s)" "\<And>lock claim. claimFn lock (g_db s) = Inr claim \<Longrightarrow> claim_ok (g_db s) claim"
  shows "pg_sound s (take_labels (fst (takeWithStrategy c e s queue ag claimFn))) ok (snd (takeWithStrategy c e s queue ag claimFn))"
  unfolding takeWithStrategy_def
  by (rule claim_tx_sound[OF assms(1)]) (use assms(2) in \<open>auto simp: bindr_eq_Inr split: if_splits\<close>)

lemma tx_keeps_db:
  assumes "fst (pg_tx c e s body) = Inr None" "\<And>x d cm. body (g_db s) = Inr (PgCommit x d cm) \<Longrightarrow> x \<noteq> None"
  shows "snd (pg_tx c e s body) = s"
  using assms by (auto simp: pg_tx_def split: if_splits sum.splits pg_end.splits)

lemma tryGet_keeps: "tryGet now ns queue s = (i, s') \<Longrightarrow> g_db s' = g_db s \<and> g_log s' = g_log s"
  by (auto simp: tryGet_def Let_def split: list.splits)

lemma pg_sound_via:
  assumes "pg_sound s' ls ok s''" "g_db s' = g_db s" "g_log s' = g_log s"
  shows "pg_sound s ls ok s''"
  using assms by (simp add: pg_sound_def announced_def)

lemma pg_sound_None:
  assumes "pg_sound s [] True s'" "pg_sound s' ls ok s''"
  shows "pg_sound s ls ok s''"
proof -
  have "pg_view (g_db s') = pg_view (g_db s)" using assms(1) by (auto simp: pg_sound_def elim: steps_NilE)
  then show ?thesis using assms by (simp add: pg_sound_def)
qed

lemma prefetch_attempts_sound:
  assumes "wf_pg (g_db s)"
  shows "pg_sound s (take_labels (fst (prefetch_attempts c es ns queue ag i n s))) True (snd (prefetch_attempts c es ns queue ag i n s))"
  using assms
proof (induction n arbitrary: i s)
  case (Suc n)
  obtain cand s1 where t: "tryGet (clock (es i) 2) ns queue s = (cand, s1)" by force
  note keep = tryGet_keeps[OF t]
  have wf1: "wf_pg (g_db s1)" using keep Suc.prems by simp
  obtain r s2 where cl: "claimByID c (es i) s1 cand ag = (r, s2)" by force
  have snd2: "pg_sound s (take_labels r) True s2"
    using pg_sound_via[OF claimByID_sound[OF wf1, of c "es i" cand ag True]] keep cl by simp
  show ?case
  proof (cases "cand = []")
    case True
    then show ?thesis using t keep Suc.prems by (simp add: take_labels_def pg_sound_same announced_def)
  next
    case False
    show ?thesis
    proof (cases "r = Inr None")
      case True
      have "wf_pg (g_db s2)" using snd2 by (simp add: pg_sound_def)
      then show ?thesis
        using t cl False True pg_sound_None[OF _ Suc.IH[of s2 "Suc i"]] snd2 by (simp add: take_labels_def)
    next
      case other: False
      then show ?thesis using t cl False snd2 by (cases r) (auto simp: take_labels_def split: option.splits)
    qed
  qed
qed (simp add: take_labels_def pg_sound_refl)

lemma take_by_query_sound:
  assumes "wf_pg (g_db s)"
  shows "pg_sound s (take_labels (fst (take_by_query c es s (Some q)))) True (snd (take_by_query c es s (Some q)))"
proof -
  let ?ag = "take_agent_id (Some q)" and ?w = "buildWhereClauses (Some q) True" and ?qu = "take_queue (Some q)"
  obtain r s' where a: "takeWithStrategy c (es 3) s ?qu ?ag (takeAtomicClaim c (es 3) ?w ?ag) = (r, s')" by force
  have sa: "pg_sound s (take_labels r) True s'"
    using takeWithStrategy_sound[OF assms, of "takeAtomicClaim c (es 3) ?w ?ag" c "es 3" ?qu ?ag True]
      atomic_claim_ok[OF assms] a by simp
  have wf': "wf_pg (g_db s')" using sa by (simp add: pg_sound_def)
  have sl: "pg_sound s' (take_labels (fst (takeWithStrategy c (es 4) s' ?qu ?ag (takeLegacyClaim (es 4) ?w ?ag)))) True
      (snd (takeWithStrategy c (es 4) s' ?qu ?ag (takeLegacyClaim (es 4) ?w ?ag)))"
    by (rule takeWithStrategy_sound[OF wf']) (rule legacy_claim_ok[OF wf'])
  show ?thesis
  proof (cases r)
    case (Inl er)
    then show ?thesis using a sa pg_sound_None[OF _ sl] by (simp add: take_by_query_def take_labels_def Let_def)
  next
    case (Inr x)
    then show ?thesis using a sa by (simp add: take_by_query_def)
  qed
qed

lemma take_sound_pg:
  assumes "wf_pg (g_db s)"
  shows "pg_sound s (take_labels (fst (PgTake c es s (Some q)))) True (snd (PgTake c es s (Some q)))"
proof (cases "q_Status q \<noteq> [] \<and> q_Status q \<noteq> StatusNew")
  case True
  then show ?thesis using assms by (simp add: PgTake_def take_labels_def pg_sound_refl)
next
  case live: False
  let ?qu = "take_queue (Some q)" and ?ag = "take_agent_id (Some q)"
  consider (strict) "?qu \<noteq> [] \<and> cf_queueClaimMode c = QueueClaimModeStrict"
    | (prefetch) "\<not> (?qu \<noteq> [] \<and> cf_queueClaimMode c = QueueClaimModeStrict)" "?qu \<noteq> [] \<and> cf_prefetch c \<noteq> None"
    | (plain) "\<not> (?qu \<noteq> [] \<and> cf_queueClaimMode c = QueueClaimModeStrict)" "\<not> (?qu \<noteq> [] \<and> cf_prefetch c \<noteq> None)" by blast
  then show ?thesis
  proof cases
    case strict
    have "pg_sound s (take_labels (fst (takeStrictQueueHead c (es 3) s (Some q) ?qu ?ag))) True
        (snd (takeStrictQueueHead c (es 3) s (Some q) ?qu ?ag))"
      unfolding takeStrictQueueHead_def by (rule takeWithStrategy_sound[OF assms]) (rule strict_claim_ok[OF assms])
    then show ?thesis using live strict by (auto simp: PgTake_def)
  next
    case prefetch
    obtain r s' where p: "takePrefetched c es s (query_namespace (Some q)) ?qu ?ag = (r, s')" by force
    have sp: "pg_sound s (take_labels r) True s'"
      using prefetch_attempts_sound[OF assms, of c es "query_namespace (Some q)" ?qu ?ag 0 3] p
      by (simp add: takePrefetched_def)
    have wf': "wf_pg (g_db s')" using sp by (simp add: pg_sound_def)
    show ?thesis
    proof (cases "\<exists>t. r = Inr (Some t)")
      case True
      then show ?thesis using live prefetch p sp by (auto simp: PgTake_def)
    next
      case False
      then have "take_labels r = []" by (auto simp: take_labels_def split: sum.splits option.splits)
      then have "pg_sound s (take_labels (fst (take_by_query c es s' (Some q)))) True (snd (take_by_query c es s' (Some q)))"
        using sp pg_sound_None[OF _ take_by_query_sound[OF wf']] by simp
      moreover have "PgTake c es s (Some q) = take_by_query c es s' (Some q)"
        using live prefetch p False by (auto simp: PgTake_def split: sum.splits option.splits)
      ultimately show ?thesis by simp
    qed
  next
    case plain
    then show ?thesis using live take_by_query_sound[OF assms, of c es q] by (auto simp: PgTake_def)
  qed
qed

section \<open>Out and Update\<close>

definition pg_out_label :: "agent \<Rightarrow> label" where
  "pg_out_label t = LOut (a_ID t) (pg_agent_cell t)"

lemma out_tx_sound:
  assumes "wf_pg d" "pg_out_tx c e t d = Inr (PgCommit t' d' cm)"
  shows "tx_sound d [pg_out_label t'] (pg_row_of d (a_ID t') = None) d' (cm_events cm)"
proof -
  let ?t0 = "with_shard c (defaults_out e 0 t)"
  obtain d1 ev where u: "upsertAgent e (CWrite 0) d ?t0 = Inr (t', d1)" "append_event c e 0 d1 ev (a_NamespaceID t') = Inr d'"
    "cm_events cm = [ev]" "e_Type ev = EventCreated"
    using assms(2) by (auto simp: pg_out_tx_def Let_def bindr_eq_Inr commit_one_def agent_event_def)
  note v = upsert_view[OF assms(1) u(1)]
  have "pg_view d' = (pg_view d)(a_ID t' \<mapsto> pg_agent_cell t')" "wf_pg d'"
    using v pg_agents_only[OF append_event_agents[OF u(2)]] by simp_all
  then show ?thesis
    using step.Out[of "pg_view d" "a_ID t'" "pg_agent_cell t'"] u(3,4)
    by (auto simp: tx_sound_def pg_out_label_def is_complete_def completes_def pg_view_def intro: steps_single)
qed

lemma update_row_view:
  assumes "wf_pg d" "updateAgentRow e c d t = Inr (t', d')" "pg_row_of d (a_ID t) = Some r0"
  shows "wf_pg d'" "pg_view d' = (pg_view d)(a_ID t \<mapsto> pg_agent_cell t)" "t' = sync_namespace t"
proof -
  obtain r where r: "pg_columns (sync_namespace t) = Inr r" "t' = sync_namespace t"
    "pd_agents d' = map (\<lambda>x. if pr_id x = a_ID t then r else x) (pd_agents d)"
    using assms(2) by (auto simp: updateAgentRow_def Let_def bindr_eq_Inr split: if_splits)
  note row = pg_columns_row[OF r(1)]
  have r0: "r0 \<in> set (pd_agents d)" "pr_id r0 = a_ID t" using pg_row_of_SomeD[OF assms(3)] by auto
  have "filter (\<lambda>x. pr_id x = a_ID t) (pd_agents d) = [r0]"
    by (rule filter_one_id[of d _ "a_ID t" r0]) (use assms(1) r0 in simp_all)
  then show "wf_pg d'" "pg_view d' = (pg_view d)(a_ID t \<mapsto> pg_agent_cell t)"
    using map_rows_view[OF assms(1) r(3)] row r0 by simp_all
  show "t' = sync_namespace t" by (rule r(2))
qed

lemma update_tx_sound:
  assumes "wf_pg d" "pg_update_tx c e i u d = Inr (PgCommit t' d' cm)"
  shows "tx_sound d [LUpdate i (pg_agent_cell t')] (lease_safe_update u) d' (cm_events cm)"
proof -
  obtain t0 where t0: "pg_fetch e 0 d i = Inr t0" using assms(2) by (auto simp: pg_update_tx_def bindr_eq_Inr)
  let ?t = "(ApplyUpdates t0 (Some u)) \<lparr> a_UpdatedAt := clock e 0, a_Version := to_int64 (a_Version t0 + 1) \<rparr>"
  obtain d1 ev where w: "updateAgentRow e (CWrite 0) d ?t = Inr (t', d1)" "append_event c e 0 d1 ev (a_NamespaceID t') = Inr d'"
    "cm_events cm = [ev]" "e_Type ev = EventUpdated"
    using assms(2) t0 by (auto simp: pg_update_tx_def Let_def bindr_eq_Inr commit_one_def agent_event_def)
  obtain r where r: "pg_row_of d i = Some r" "scanAgent r = Inr t0" "a_ID t0 = i" "wf_pg_row r"
    using pg_fetch_InrD[OF assms(1) t0] by metis
  note f = pg_scan_fields[OF r(2)]
  have v: "wf_pg d1" "pg_view d1 = (pg_view d)(i \<mapsto> pg_agent_cell ?t)" "t' = sync_namespace ?t"
    using update_row_view[OF assms(1) w(1)] r by simp_all
  have view: "wf_pg d'" "pg_view d' = (pg_view d)(i \<mapsto> pg_agent_cell t')"
    using v pg_agents_only[OF append_event_agents[OF w(2)]] by simp_all
  have at: "pg_view d i = Some (pg_cell r)" using r(1) by (simp add: pg_view_def)
  have cell: "pg_agent_cell t' = pg_agent_cell ?t" unfolding v(3) by simp
  have ver: "c_version (pg_agent_cell t') = to_int64 (c_version (pg_cell r) + 1)"
    unfolding cell using f(8) to_int64_range[of "a_Version t0 + 1"] by (simp add: pg_agent_cell_def pg_cell_def)
  have "lease_safe_update u \<Longrightarrow> protocol_step (pg_view d) (LUpdate i (pg_agent_cell t'))"
    unfolding cell using at f lease_safe_cell[of u t0] by (simp add: pg_agent_cell_def pg_cell_def)
  moreover have "step (pg_view d) (LUpdate i (pg_agent_cell t')) (pg_view d')"
    unfolding view(2) using step.Update[of "pg_view d" i "pg_cell r"] at ver by blast
  ultimately show ?thesis
    using view(1) w(3,4) by (auto simp: tx_sound_def is_complete_def completes_def intro: steps_single)
qed

section \<open>Conditional updates of a leased agent\<close>

definition pg_completed :: "pg_db \<Rightarrow> string \<Rightarrow> bool" where
  "pg_completed d i = (case pg_row_of d i of None \<Rightarrow> False | Some r \<Rightarrow> pr_status r = StatusCompleted)"

lemma lease_row_held: "lease_row e i ag tok r \<Longrightarrow> pr_id r = i \<and> held_by ag tok (pg_cell r)"
  by (simp add: lease_row_def held_by_def pg_cell_def)

text \<open>The update of the one row that the lease condition admits.\<close>

lemma leased_update:
  assumes "wf_pg d" "bindr (sql_update e c (lease_row e i ag tok) f d) scan_returned = Inr (Some (t, d'))"
    and "\<And>r r'. f r = Inr r' \<Longrightarrow> wf_pg_row r \<Longrightarrow> pr_id r' = pr_id r \<and> wf_pg_row r'"
  obtains r r' where "pg_row_of d i = Some r" "pg_view d i = Some (pg_cell r)" "held_by ag tok (pg_cell r)" "f r = Inr r'"
    "scanAgent r' = Inr t" "a_ID t = i" "wf_pg_row r" "wf_pg d'" "pg_view d' = (pg_view d)(i \<mapsto> pg_cell r')"
proof -
  have fixes_id: "\<And>r. lease_row e i ag tok r \<Longrightarrow> pr_id r = i" by (simp add: lease_row_def)
  obtain r r' ret where u: "sql_update e c (lease_row e i ag tok) f d = Inr (ret, d')" "r \<in> set (pd_agents d)"
    "lease_row e i ag tok r" "f r = Inr r'" "scanAgent r' = Inr t" "filter (lease_row e i ag tok) (pd_agents d) = [r]"
    "pg_row_of d i = Some r" "wf_pg_row r"
    using single_update[OF assms(1,2) fixes_id] by metis
  have keep: "pr_id x' = pr_id x \<and> wf_pg_row x'" if "x \<in> set (pd_agents d)" "f x = Inr x'" for x x'
    using assms(3)[OF that(2)] wf_pg_rowD[OF assms(1) that(1)] by simp
  have "wf_pg d'" "pg_view d' = write_cells (sum.projr \<circ> f) (filter (lease_row e i ag tok) (pd_agents d)) (pg_view d)"
    by (rule sql_update_view[OF assms(1) u(1)]; use keep in blast)+
  then have "wf_pg d'" "pg_view d' = (pg_view d)(i \<mapsto> pg_cell r')"
    using u(4,6) lease_row_held[OF u(3)] by simp_all
  moreover have "a_ID t = i" using pg_scan_fields(1)[OF u(5)] keep[OF u(2,4)] lease_row_held[OF u(3)] by simp
  moreover have "pg_view d i = Some (pg_cell r)" using u(7) by (simp add: pg_view_def)
  ultimately show ?thesis using that u lease_row_held[OF u(3)] by blast
qed

lemma complete_tx_sound_pg:
  assumes "wf_pg d" "pg_complete_tx c e i ag tok res d = Inr (PgCommit t d' cm)" "ag \<noteq> []" "tok \<noteq> []"
  shows "tx_sound d (if pg_completed d i then [] else [LComplete i ag tok]) True d' (cm_events cm)"
proof -
  obtain j where j: "marshal_map (or_nil res) = Some j" using assms(2) by (auto simp: pg_complete_tx_def Let_def split: option.splits)
  let ?u = "bindr (sql_update e (CWrite 0) (lease_row e i ag tok)
      (complete_set (clock e 0) j (completion_meta ag tok (clock e 0))) d) scan_returned"
  obtain ret where ret: "?u = Inr ret" using assms(2) j by (cases ?u) (simp_all add: pg_complete_tx_def Let_def)
  have "ret \<noteq> None" using assms(2) j ret by (auto simp: pg_complete_tx_def Let_def bindr_eq_Inr split: option.splits)
  then obtain t1 d1 where "ret = Some (t1, d1)" by auto
  then obtain ev where w: "?u = Inr (Some (t, d1))" "append_event c e 0 d1 ev (a_NamespaceID t) = Inr d'" "cm_events cm = [ev]"
    "e_Type ev = EventCompleted" "e_TupleID ev = a_ID t"
    using assms(2) j ret by (auto simp: pg_complete_tx_def Let_def bindr_eq_Inr[of "append_event _ _ _ _ _ _"] commit_one_def agent_event_def)
  obtain r r' where r: "pg_row_of d i = Some r" "pg_view d i = Some (pg_cell r)" "held_by ag tok (pg_cell r)"
    "complete_set (clock e 0) j (completion_meta ag tok (clock e 0)) r = Inr r'" "a_ID t = i" "wf_pg_row r" "wf_pg d1"
    "pg_view d1 = (pg_view d)(i \<mapsto> pg_cell r')"
    using leased_update[OF assms(1) w(1)] complete_set_Inr[OF _ _ assms(3,4)] by metis
  note only = pg_agents_only[OF append_event_agents[OF w(2)]]
  have "step (pg_view d) (LComplete i ag tok) (pg_view d')"
    unfolding only(1) r(8) complete_set_Inr(3)[OF r(4,6) assms(3,4)]
    using step.Complete[of "pg_view d" i "pg_cell r"] r(2,3) assms(3,4) by blast
  moreover have "\<not> pg_completed d i" using r(1,3) by (simp add: pg_completed_def held_by_def pg_cell_def)
  ultimately show ?thesis
    using only r(5,7) w(3-5) by (intro tx_sound_protocol) (auto simp: is_complete_def completes_def)
qed

lemma complete_tx_rollback:
  assumes "wf_pg d" "pg_complete_tx c e i ag tok res d = Inr (PgRollback t)"
  shows "pg_completed d i"
proof -
  have f: "pg_fetch e 1 d i = Inr t" "classifyCompletionConflict (Some t) ag tok = None"
    using assms(2) by (auto simp: pg_complete_tx_def Let_def bindr_eq_Inr split: option.splits)
  obtain r where "pg_row_of d i = Some r" "scanAgent r = Inr t" using pg_fetch_InrD[OF assms(1) f(1)] by metis
  then show ?thesis
    using f(2) pg_scan_fields(3)[of r t] by (auto simp: classifyCompletionConflict_def pg_completed_def split: if_splits)
qed

lemma release_set_cell:
  assumes "release_set now r = Inr r'" "wf_pg_row r"
  shows "pg_cell r' = (freed StatusNew (pg_cell r)) \<lparr> c_version := to_int64 (c_version (pg_cell r) + 1) \<rparr>"
  using assms inc_range[of "pr_version r"]
  by (auto simp: release_set_def bindr_eq_Inr sql_inc_Inr pg_cell_def freed_def wf_pg_row_def)

lemma release_tx_sound:
  assumes "wf_pg d" "pg_release_tx c e i ag tok reason d = Inr (PgCommit t d' cm)" "ag \<noteq> []" "tok \<noteq> []"
  shows "tx_sound d [LRelease i ag tok] True d' (cm_events cm)"
proof -
  obtain d1 ev where w: "bindr (sql_update e (CWrite 0) (lease_row e i ag tok) (release_set (clock e 0)) d) scan_returned = Inr (Some (t, d1))"
    "append_event c e 0 d1 ev (a_NamespaceID t) = Inr d'" "cm_events cm = [ev]" "e_Type ev = EventReleased"
    using assms(2)
    by (auto simp: pg_release_tx_def Let_def bindr_eq_Inr commit_one_def agent_event_def split: option.splits)
  obtain r r' where r: "pg_view d i = Some (pg_cell r)" "held_by ag tok (pg_cell r)" "release_set (clock e 0) r = Inr r'"
    "wf_pg_row r" "wf_pg d1" "pg_view d1 = (pg_view d)(i \<mapsto> pg_cell r')"
    using leased_update[OF assms(1) w(1)] keeps_rowD[OF release_set_keeps] by metis
  note only = pg_agents_only[OF append_event_agents[OF w(2)]]
  have "step (pg_view d) (LRelease i ag tok) (pg_view d')"
    unfolding only(1) r(6) release_set_cell[OF r(3,4)]
    using step.Release[of "pg_view d" i "pg_cell r"] r(1,2) assms(3,4) by blast
  then show ?thesis
    using only r(5) w(3,4) by (intro tx_sound_protocol) (auto simp: is_complete_def completes_def)
qed

lemma release_tx_no_rollback: "pg_release_tx c e i ag tok reason d \<noteq> Inr (PgRollback t)"
  by (auto simp: pg_release_tx_def Let_def bindr_eq_Inr split: option.splits)

definition renew_label :: "string \<Rightarrow> string \<Rightarrow> string \<Rightarrow> agent \<Rightarrow> label" where
  "renew_label i ag tok t = LRenew i ag tok (Some (UnixMicro (a_LeaseUntil t)))"

lemma renew_tx_sound:
  assumes "wf_pg d" "pg_renew_tx c e i ag tok dur d = Inr (PgCommit t d' cm)" "ag \<noteq> []" "tok \<noteq> []"
  shows "tx_sound d [renew_label i ag tok t] True d' (cm_events cm)"
proof -
  let ?ms = "if go_quot dur Millisecond \<le> 0 then go_quot (cf_leaseDuration c) Millisecond else go_quot dur Millisecond"
  have w: "bindr (sql_update e (CWrite 0) (lease_row e i ag tok) (renew_set (UnixMicro (clock e 0)) ?ms) d) scan_returned =
      Inr (Some (t, d'))" "cm_events cm = []"
    using assms(2) by (auto simp: pg_renew_tx_def Let_def bindr_eq_Inr split: option.splits)
  obtain r r' where r: "pg_view d i = Some (pg_cell r)" "held_by ag tok (pg_cell r)" "renew_set (UnixMicro (clock e 0)) ?ms r = Inr r'"
    "scanAgent r' = Inr t" "wf_pg d'" "pg_view d' = (pg_view d)(i \<mapsto> pg_cell r')"
    using leased_update[OF assms(1) w(1)] keeps_rowD[OF renew_set_keeps] by metis
  obtain u where u: "pr_lease_until r' = Some u" "pg_cell r' = pg_cell r \<lparr> c_until := Some u \<rparr>"
    using r(3) by (auto simp: renew_set_def bindr_eq_Inr pg_cell_def)
  have "renew_label i ag tok t = LRenew i ag tok (Some u)"
    using pg_scan_fields(14)[OF r(4)] u(1) by (simp add: renew_label_def scan_time_def time_UnixMicro_def UnixMicro_def)
  then have "step (pg_view d) (renew_label i ag tok t) (pg_view d')"
    unfolding r(6) u(2) using step.Renew[of "pg_view d" i "pg_cell r"] r(1,2) assms(3,4) by simp
  then show ?thesis
    using r(5) w(2) by (intro tx_sound_protocol) (auto simp: is_complete_def renew_label_def)
qed

lemma renew_tx_no_rollback: "pg_renew_tx c e i ag tok dur d \<noteq> Inr (PgRollback t)"
  by (auto simp: pg_renew_tx_def Let_def bindr_eq_Inr split: option.splits)

section \<open>CompleteAndOut\<close>

lemma tx_sound_append:
  assumes "tx_sound d ls ok d1 evs" "tx_sound d1 ls' ok' d2 evs'"
  shows "tx_sound d (ls @ ls') (ok \<and> ok') d2 (evs @ evs')"
  using assms by (auto simp: tx_sound_def protocol_append intro: steps_append)

lemma tx_sound_ok: "tx_sound d ls ok d' evs \<Longrightarrow> (ok' \<Longrightarrow> ok) \<Longrightarrow> tx_sound d ls ok' d' evs"
  by (auto simp: tx_sound_def)

text \<open>A completion does not move an agent to another queue.\<close>

lemma completed_queue:
  "str_at (or_nil (a_Metadata (sync_namespace (completed_agent now ag tok res t)))) QueueMetadataKey =
     str_at (or_nil (a_Metadata t)) QueueMetadataKey"
proof -
  have "QueueMetadataKey \<noteq> CompletedByMetadataKey" "QueueMetadataKey \<noteq> CompletedByTokenMetadataKey"
    "QueueMetadataKey \<noteq> CompletedAtMetadataKey" "QueueMetadataKey \<noteq> NamespaceMetadataKey"
    by (simp_all add: QueueMetadataKey_def CompletedByMetadataKey_def CompletedByTokenMetadataKey_def
        CompletedAtMetadataKey_def NamespaceMetadataKey_def)
  then show ?thesis
    using sync_namespace_metadata[of "completed_agent now ag tok res t"]
    by (auto simp: str_at_def completed_agent_def SetCompletionMetadata_def Let_def)
qed

lemma completion_row_view:
  assumes "wf_pg d" "pg_row_of d i = Some r" "scanAgent r = Inr t0" "wf_pg_row r" "tok \<noteq> []"
    and "updateAgentCompletionRow e cl d (completed_agent now ag tok res t0) = Inr (t', d')"
  shows "wf_pg d'" "a_ID t' = i"
    "pg_view d' = (pg_view d)(i \<mapsto> (freed StatusCompleted (pg_cell r)) \<lparr> c_version := to_int64 (c_version (pg_cell r) + 1), c_ctoken := tok \<rparr>)"
proof -
  let ?t = "completed_agent now ag tok res t0"
  note f = pg_scan_fields[OF assms(3)]
  have ids: "r \<in> set (pd_agents d)" "pr_id r = i" using pg_row_of_SomeD[OF assms(2)] by auto
  obtain x where x: "pg_columns (sync_namespace ?t) = Inr x" "t' = sync_namespace ?t"
    "pd_agents d' = map (\<lambda>y. if pr_id y = a_ID ?t then completion_columns x y else y) (pd_agents d)"
    using assms(6) by (auto simp: updateAgentCompletionRow_def Let_def bindr_eq_Inr split: if_splits)
  note row = pg_columns_row[OF x(1)]
  have id: "a_ID ?t = i" using f(1) ids by (simp add: completed_agent_def SetCompletionMetadata_def Let_def)
  then show "a_ID t' = i" using x(2) by simp
  have queue: "pr_queue x = pr_queue r"
    using completed_queue[of now ag tok res t0] pg_columns_fields(9)[OF x(1)] f(9) assms(4) by (simp add: wf_pg_row_def)
  have one: "filter (\<lambda>y. pr_id y = a_ID ?t) (pd_agents d) = [r]"
    by (rule filter_one_id[of d _ "a_ID ?t" r]) (use assms(1) ids id in simp_all)
  have only_r: "y = r" if "y \<in> set (pd_agents d)" "pr_id y = a_ID ?t" for y
  proof -
    have "y \<in> set (filter (\<lambda>y. pr_id y = a_ID ?t) (pd_agents d))" using that by simp
    then show ?thesis unfolding one by simp
  qed
  have wfr: "wf_pg_row (completion_columns x r)"
    using row(1) assms(4) queue by (simp add: wf_pg_row_def completion_columns_def)
  have keep: "pr_id (completion_columns x y) = pr_id y \<and> wf_pg_row (completion_columns x y)"
    if "y \<in> set (pd_agents d)" "pr_id y = a_ID ?t" for y
    using only_r[OF that] wfr by (simp add: completion_columns_def)
  have cell: "pg_cell (completion_columns x r) = (freed StatusCompleted (pg_cell r)) \<lparr> c_version := to_int64 (c_version (pg_cell r) + 1), c_ctoken := tok \<rparr>"
  proof -
    have "pg_cell (completion_columns x r) = pg_cell x" by (simp add: pg_cell_def completion_columns_def)
    also have "\<dots> = pg_agent_cell ?t" by (rule row(2))
    also have "\<dots> = (freed StatusCompleted (pg_cell r)) \<lparr> c_version := to_int64 (c_version (pg_cell r) + 1), c_ctoken := tok \<rparr>"
      using f(8) assms(5) to_int64_range[of "pr_version r + 1"]
      by (simp add: pg_agent_cell_def pg_cell_def freed_def completed_agent_def SetCompletionMetadata_def Let_def time_param_def IsZero_def)
    finally show ?thesis .
  qed
  show "wf_pg d'" "pg_view d' = (pg_view d)(i \<mapsto> (freed StatusCompleted (pg_cell r)) \<lparr> c_version := to_int64 (c_version (pg_cell r) + 1), c_ctoken := tok \<rparr>)"
    using map_rows_view[OF assms(1) x(3) keep] one cell ids by simp_all
qed

lemma outputs_sound_pg:
  assumes "wf_pg d" "pg_create_outputs c e ag parent n outs d = Inr (os, d')"
  shows "tx_sound d (map (pg_out_label \<circ> fst) os)
    (distinct (map (a_ID \<circ> fst) os) \<and> list_all (\<lambda>x. pg_row_of d (a_ID (fst x)) = None) os) d' (map (fst \<circ> snd) os)"
  using assms
proof (induction outs arbitrary: n os d)
  case Nil
  then show ?case by (simp add: tx_sound_def steps_Nil)
next
  case (Cons out outs)
  let ?up = "upsertAgent e (CWrite n) d (pg_defaults_output c e n parent out)"
  obtain t d1 where t: "?up = Inr (t, d1)" using Cons.prems(2) by (cases ?up) auto
  let ?nt = "queueWakeupNotify e n (a_NamespaceID t) (queue_of t)"
  obtain nt where nt: "?nt = Inr nt" using Cons.prems(2) t by (cases ?nt) auto
  define ev where "ev = agent_event (uuid e (2 * n + 1)) t EventCreated (clock e (3 * n + 2)) ag
    (event_data c t (a_Status t) [(''agent'', EAgent t), (''parent_id'', EVal (VStr (a_ID parent)))])"
  obtain d2 where d2: "append_event c e n d1 ev (a_NamespaceID t) = Inr d2"
    using Cons.prems(2) t nt by (cases "append_event c e n d1 ev (a_NamespaceID t)") (auto simp: ev_def)
  obtain os' where os': "pg_create_outputs c e ag parent (Suc n) outs d2 = Inr (os', d')" "os = (t, ev, nt) # os'"
    using Cons.prems(2) t nt d2 by (auto simp: bindr_eq_Inr ev_def Let_def)
  note w = t d2 os'
  have created: "e_Type ev = EventCreated" by (simp add: ev_def agent_event_def)
  note v = upsert_view[OF Cons.prems(1) w(1)]
  note only = pg_agents_only[OF append_event_agents[OF w(2)]]
  have view: "pg_view d2 = (pg_view d)(a_ID t \<mapsto> pg_agent_cell t)" using v only by simp
  have st: "step (pg_view d) (pg_out_label t) (pg_view d2)" unfolding view pg_out_label_def by (rule step.Out)
  have ih: "tx_sound d2 (map (pg_out_label \<circ> fst) os')
      (distinct (map (a_ID \<circ> fst) os') \<and> list_all (\<lambda>x. pg_row_of d2 (a_ID (fst x)) = None) os') d' (map (fst \<circ> snd) os')"
    by (rule Cons.IH[OF _ w(3)]) (use v(1) only(2) in simp)
  have fresh: "pg_row_of d2 k = None \<longleftrightarrow> pg_row_of d k = None \<and> k \<noteq> a_ID t" for k
    using fun_cong[OF view, of k] by (auto simp: pg_view_def split: if_splits)
  have one: "tx_sound d [pg_out_label t] (pg_row_of d (a_ID t) = None) d2 [ev]"
    using st created v(1) only(2)
    by (auto simp: tx_sound_def pg_out_label_def pg_view_def is_complete_def completes_def intro: steps_single)
  have all: "tx_sound d (map (pg_out_label \<circ> fst) os) (pg_row_of d (a_ID t) = None \<and>
      distinct (map (a_ID \<circ> fst) os') \<and> list_all (\<lambda>x. pg_row_of d2 (a_ID (fst x)) = None) os') d' (map (fst \<circ> snd) os)"
    using tx_sound_append[OF one ih] w(4) by simp
  show ?case
  proof (rule tx_sound_ok[OF all])
    assume ok: "distinct (map (a_ID \<circ> fst) os) \<and> list_all (\<lambda>x. pg_row_of d (a_ID (fst x)) = None) os"
    then have "a_ID (fst x) \<noteq> a_ID t" if "x \<in> set os'" for x using that w(4) by (force simp: image_iff)
    then show "pg_row_of d (a_ID t) = None \<and> distinct (map (a_ID \<circ> fst) os') \<and>
        list_all (\<lambda>x. pg_row_of d2 (a_ID (fst x)) = None) os'"
      using ok w(4) by (simp add: fresh list_all_iff)
  qed
qed

end
