(* ===== verification/Pg_Backend.thy ===== *)
theory Pg_Backend
  imports Pg_Refine
begin

text \<open>
  The batch claim, the reaper and the goroutines beside the transactions (event writer, prefetchers), and
  all operations of the Postgres store together as an instance of the interface \<^verbatim>\<open>lease_backend\<close>.
\<close>

definition fresh_outputs :: "pg_db \<Rightarrow> agent list \<Rightarrow> bool" where
  "fresh_outputs d outs \<longleftrightarrow> distinct (map a_ID outs) \<and> list_all (\<lambda>t. pg_row_of d (a_ID t) = None) outs"

lemma complete_and_out_tx_sound:
  assumes "wf_pg d" "pg_complete_and_out_tx c e i ag tok res outs d = Inr (PgCommit (t, outs') d' cm)" "ag \<noteq> []" "tok \<noteq> []"
  shows "tx_sound d (if pg_completed d i then [] else LComplete i ag tok # map pg_out_label outs')
    (fresh_outputs d outs') d' (cm_events cm)"
proof -
  obtain t0 where t0: "pg_fetch e 0 d i = Inr t0" using assms(2) by (auto simp: pg_complete_and_out_tx_def bindr_eq_Inr)
  obtain r where r: "pg_row_of d i = Some r" "scanAgent r = Inr t0" "wf_pg_row r" using pg_fetch_InrD[OF assms(1) t0] by metis
  note f = pg_scan_fields[OF r(2)]
  have at: "pg_view d i = Some (pg_cell r)" using r(1) by (simp add: pg_view_def)
  show ?thesis
  proof (cases "a_Status t0 = StatusCompleted")
    case True
    then have "d' = d" "cm_events cm = []" "pg_completed d i"
      using assms(2) t0 r(1) f(3) by (auto simp: pg_complete_and_out_tx_def pg_completed_def split: if_splits)
    then show ?thesis using assms(1) by (simp add: tx_sound_def steps_Nil)
  next
    case False
    then have nc: "\<not> pg_completed d i" using r(1) f(3) by (simp add: pg_completed_def)
    have guard: "lease_guard ''complete'' ag tok t0 = None"
      using assms(2) t0 False by (cases "lease_guard ''complete'' ag tok t0") (auto simp: pg_complete_and_out_tx_def)
    then have held: "held_by ag tok (pg_cell r)"
      using f by (auto simp: lease_guard_def held_by_def pg_cell_def split: if_splits)
    let ?t = "completed_agent (clock e 1) ag tok (or_nil res) t0"
    let ?ev = "\<lambda>t. agent_event (uuid e 0) t EventCompleted (clock e 1) ag (event_data c t StatusCompleted (plain_data (or_nil res)))"
    obtain t1 d1 where d1: "updateAgentCompletionRow e (CWrite 0) d ?t = Inr (t1, d1)"
      using assms(2) t0 False guard
      by (cases "updateAgentCompletionRow e (CWrite 0) d ?t") (auto simp: pg_complete_and_out_tx_def Let_def)
    obtain d2 where d2: "append_event c e 0 d1 (?ev t1) (a_NamespaceID t1) = Inr d2"
      using assms(2) t0 False guard d1
      by (cases "append_event c e 0 d1 (?ev t1) (a_NamespaceID t1)") (auto simp: pg_complete_and_out_tx_def Let_def)
    obtain os where os: "pg_create_outputs c e ag t1 1 outs d2 = Inr (os, d')" "outs' = map fst os"
      "cm_events cm = ?ev t1 # map (fst \<circ> snd) os"
      using assms(2) t0 False guard d1 d2 by (auto simp: pg_complete_and_out_tx_def Let_def bindr_eq_Inr)
    note v = completion_row_view[OF assms(1) r assms(4) d1]
    note only = pg_agents_only[OF append_event_agents[OF d2]]
    have "step (pg_view d) (LComplete i ag tok) (pg_view d2)"
      unfolding only(1) v(3) using step.Complete[of "pg_view d" i "pg_cell r"] at held assms(3,4) by blast
    then have one: "tx_sound d [LComplete i ag tok] True d2 [?ev t1]"
      using v(1,2) only(2) by (intro tx_sound_protocol) (auto simp: is_complete_def completes_def agent_event_def)
    have "pg_row_of d2 k = None \<longleftrightarrow> pg_row_of d k = None" for k
      using fun_cong[OF v(3), of k] r(1) only(3) by (auto simp: pg_view_def split: if_splits)
    then have "tx_sound d2 (map pg_out_label outs') (fresh_outputs d outs') d' (map (fst \<circ> snd) os)"
      using outputs_sound_pg[OF _ os(1)] v(1) only(2) os(2) by (simp add: fresh_outputs_def list_all_iff comp_def)
    from tx_sound_append[OF one this] show ?thesis using nc os(3) by simp
  qed
qed

lemma complete_and_out_no_rollback: "pg_complete_and_out_tx c e i ag tok res outs d \<noteq> Inr (PgRollback x)"
  by (auto simp: pg_complete_and_out_tx_def Let_def bindr_eq_Inr split: option.splits if_splits)

section \<open>BatchTake and the reaper\<close>

lemma filter_not_complete: "(\<And>x. x \<in> set xs \<Longrightarrow> \<not> is_complete k x) \<Longrightarrow> filter (is_complete k) xs = []"
  by (simp add: filter_empty_conv)

lemma batch_take_tx_sound:
  assumes "wf_pg d" "batch_take_tx c e (Some q) ag n d = Inr (PgCommit ts d' cm)"
  shows "tx_sound d (map take_label ts) True d' (cm_events cm)"
proof -
  let ?cs = "map pr_id (take n (lockable e ForUpdateSkipLocked (pg_select e 0 (buildWhereClauses (Some q) True) d)))"
  let ?f = "\<lambda>r. claim_set (UnixMicro (clock e 0)) (defaultLeaseMs c) ag (gen_uuid e (pr_id r)) r"
  obtain ret where u: "sql_update e (CClaim 0) (\<lambda>r. pr_id r \<in> set ?cs) ?f d = Inr (ret, d')"
    "all_some (map (\<lambda>r. case scanAgent r of Inr t \<Rightarrow> Some t | Inl _ \<Rightarrow> None) ret) = Some ts" "cm_events cm = []"
    using assms(2) by (auto simp: batch_take_tx_def Let_def bindr_eq_Inr split: option.splits if_splits)
  have new: "pr_status r = StatusNew" if "r \<in> set (pd_agents d)" "pr_id r \<in> set ?cs" for r
  proof -
    obtain x where x: "x \<in> set (lockable e ForUpdateSkipLocked (pg_select e 0 (buildWhereClauses (Some q) True) d))" "pr_id x = pr_id r"
      using \<open>pr_id r \<in> set ?cs\<close> by (auto dest: in_set_takeD)
    then show ?thesis
      using select_where_new[OF x(1)] pg_row_of_in[OF assms(1)] that(1) by (metis option.inject)
  qed
  let ?rs = "filter (\<lambda>r. pr_id r \<in> set ?cs) (pd_agents d)"
  let ?g = "sum.projr \<circ> ?f"
  have fr: "?f r = Inr (?g r)" if "r \<in> set ?rs" for r using sql_update_InrD(3)[OF u(1)] that by simp
  have st: "step m (row_take_label (?g r)) (m(pr_id r \<mapsto> pg_cell (?g r)))" "protocol_step m (row_take_label (?g r))"
    "\<exists>u. pr_lease_until (?g r) = Some u" if "r \<in> set ?rs" "m (pr_id r) = Some (pg_cell r)" for r m
  proof -
    have "wf_pg_row r" "pr_status r = StatusNew" using that(1) wf_pg_rowD[OF assms(1), of r] new[of r] by simp_all
    note cs = claim_set_step[of "UnixMicro (clock e 0)" "defaultLeaseMs c" ag "gen_uuid e (pr_id r)" r "?g r" m, OF fr[OF that(1)] this that(2)]
    show "step m (row_take_label (?g r)) (m(pr_id r \<mapsto> pg_cell (?g r)))" "protocol_step m (row_take_label (?g r))"
      "\<exists>u. pr_lease_until (?g r) = Some u" by (rule cs)+
  qed
  have keep: "pr_id x' = pr_id x \<and> wf_pg_row x'" if "x \<in> set (pd_agents d)" "?f x = Inr x'" for x x'
    using keeps_rowD[of ?f, OF claim_set_keeps(1) that(2)] wf_pg_rowD[OF assms(1) that(1)] by simp
  have view: "wf_pg d'" "pg_view d' = write_cells ?g ?rs (pg_view d)"
    by (rule sql_update_view[OF assms(1) u(1)]; use keep in blast)+
  have "protocol (pg_view d) (map (row_take_label \<circ> ?g) ?rs) (pg_view d')"
    unfolding view(2)
    by (rule protocol_cells) (use assms(1) st pg_view_in[OF assms(1)] in \<open>auto simp: wf_pg_def distinct_map_filter\<close>)
  moreover have "map take_label ts = map (row_take_label \<circ> ?g) ?rs"
  proof -
    have ret: "ret = map ?g ?rs" by (rule sql_update_InrD(1)[OF u(1)])
    have scan: "map (\<lambda>r. case scanAgent r of Inr t \<Rightarrow> Some t | Inl _ \<Rightarrow> None) ret = map Some ts"
      using u(2) by (simp add: all_some_eq_Some)
    have len: "length ts = length ?rs" using arg_cong[OF scan, of length] ret by simp
    have "take_label (ts ! j) = row_take_label (?g (?rs ! j))" if "j < length ts" for j
    proof -
      have "(case scanAgent (ret ! j) of Inr t \<Rightarrow> Some t | Inl _ \<Rightarrow> None) = Some (ts ! j)"
        using that scan len ret by (metis (no_types, lifting) length_map nth_map)
      then have "scanAgent (?g (?rs ! j)) = Inr (ts ! j)" using that len unfolding ret by (auto split: sum.splits)
      moreover have in_rs: "?rs ! j \<in> set ?rs" using that len by (metis nth_mem)
      then have "?rs ! j \<in> set (pd_agents d)" by simp
      then have vw: "pg_view d (pr_id (?rs ! j)) = Some (pg_cell (?rs ! j))" by (rule pg_view_in[OF assms(1)])
      obtain u where "pr_lease_until (?g (?rs ! j)) = Some u" using st(3)[of "?rs ! j" "pg_view d", OF in_rs vw] by blast
      ultimately show ?thesis by (rule scan_take_label)
    qed
    then show ?thesis using len by (intro nth_equalityI) auto
  qed
  ultimately show ?thesis
    using view(1) u(3) by (intro tx_sound_protocol) (simp_all add: filter_empty_conv is_complete_def row_take_label_def)
qed

lemma batch_events_keeps:
  "pd_agents (g_db (batch_events c e ag n ts s)) = pd_agents (g_db s)" "announced (batch_events c e ag n ts s) k = announced s k"
proof (induction ts arbitrary: n s)
  case (Cons t ts)
  {
    case 1
    show ?case using Cons(1)
      by (auto simp: Let_def dest: insertEvent_agents split: sum.splits)
  next
    case 2
    have "announced (enqueueEvent c e pe s) k = announced s k" for pe s by (simp add: announced_def)
    moreover have "announced (s \<lparr> g_db := d \<rparr>) k = announced s k" for d by (simp add: announced_def)
    ultimately show ?case using Cons(2)
      by (auto simp: Let_def completes_def agent_event_def split: sum.splits)
  }
qed simp_all

lemma batch_take_sound:
  assumes "wf_pg (g_db s)"
  shows "pg_sound s (case fst (PgBatchTake c e s (Some q) n) of Inl _ \<Rightarrow> [] | Inr ts \<Rightarrow> map take_label ts) True
    (snd (PgBatchTake c e s (Some q) n))"
proof (cases "n \<le> 0 \<or> q_Status q \<noteq> [] \<and> q_Status q \<noteq> StatusNew")
  case True
  then show ?thesis using assms by (auto simp: PgBatchTake_def pg_sound_refl)
next
  case False
  let ?ag = "take_agent_id (Some q)" and ?body = "batch_take_tx c e (Some q) (take_agent_id (Some q)) (nat n)"
  have rb: "x = []" if "?body (g_db s) = Inr (PgRollback x)" for x
    using that by (auto simp: batch_take_tx_def Let_def bindr_eq_Inr split: option.splits if_splits)
  have tx: "pg_sound s (case fst (pg_tx c e s ?body) of Inl _ \<Rightarrow> [] | Inr ts \<Rightarrow> map take_label ts)
      (case fst (pg_tx c e s ?body) of Inl _ \<Rightarrow> True | Inr x \<Rightarrow> True) (snd (pg_tx c e s ?body))"
    by (rule pg_tx_sound[OF assms]) (use batch_take_tx_sound[OF assms] rb in auto)
  obtain r s' where t: "pg_tx c e s ?body = (r, s')" by force
  show ?thesis
  proof (cases r)
    case (Inl er)
    then show ?thesis using False t tx by (auto simp: PgBatchTake_def Let_def)
  next
    case (Inr ts)
    then have "pg_sound s (map take_label ts) True s'" using t tx by simp
    then have "pg_sound s (map take_label ts) True (batch_events c e ?ag 0 ts s')"
      using pg_agents_only[OF batch_events_keeps(1), of c e ?ag 0 ts s'] batch_events_keeps(2)[of c e ?ag 0 ts s'] by (simp add: pg_sound_def)
    moreover have "PgBatchTake c e s (Some q) n = (Inr ts, batch_events c e ?ag 0 ts s')"
      using False t Inr by (auto simp: PgBatchTake_def Let_def)
    ultimately show ?thesis by simp
  qed
qed

lemma reap_batch_keeps:
  "reap_batch c e n rs d = Inr (evs, d') \<Longrightarrow> pd_agents d' = pd_agents d \<and> (\<forall>k. filter (completes k) (map fst evs) = [])"
proof (induction rs arbitrary: n d evs)
  case (Cons r rs)
  obtain d1 nt evs' where w: "insertEvent e (CInsertEvent n) d (pg_reap_event e n r) (pr_namespace_id r) (cf_shardID c) = Inr d1"
    "reap_batch c e (Suc n) rs d1 = Inr (evs', d')" "evs = (pg_reap_event e n r, nt) # evs'"
    using Cons.prems by (auto simp: Let_def bindr_eq_Inr)
  then show ?case
    using Cons.IH[OF w(2)] insertEvent_agents[OF w(1)] by (simp add: completes_def pg_reap_event_def)
qed simp

lemma reap_step:
  assumes "reap_set now r = Inr r'" "wf_pg_row r" "pg_lapsed e now r" "m (pr_id r) = Some (pg_cell r)"
  shows "step m (LReap (pr_id r) now) (m(pr_id r \<mapsto> pg_cell r'))" "protocol_step m (LReap (pr_id r) now)"
proof -
  obtain u where u: "pr_lease_until r = Some u" "u < now" "pr_status r = StatusInProgress"
    using assms(3) by (auto simp: pg_lapsed_def split: option.splits)
  have cell: "pg_cell r' = (freed StatusNew (pg_cell r)) \<lparr> c_version := c_version (pg_cell r) + 1 \<rparr>"
    using assms(1) by (auto simp: reap_set_def bindr_eq_Inr sql_inc_Inr pg_cell_def freed_def)
  have "c_status (pg_cell r) = StatusInProgress" "c_until (pg_cell r) = Some u" using u by (simp_all add: pg_cell_def)
  then show "step m (LReap (pr_id r) now) (m(pr_id r \<mapsto> pg_cell r'))"
    unfolding cell using step.Reap[of m "pr_id r" "pg_cell r" u now] assms(4) u(2) by blast
  show "protocol_step m (LReap (pr_id r) now)" by simp
qed

definition pg_reap_labels :: "pg_env \<Rightarrow> pg_db \<Rightarrow> label list" where
  "pg_reap_labels e d = map (\<lambda>r. LReap (pr_id r) (UnixMicro (clock e 0))) (filter (pg_lapsed e (UnixMicro (clock e 0))) (pd_agents d))"

lemma reap_tx_sound:
  assumes "wf_pg d" "pg_reap_tx c e d = Inr (PgCommit x d' cm)"
  shows "tx_sound d (pg_reap_labels e d) True d' (cm_events cm)"
proof -
  let ?now = "UnixMicro (clock e 0)"
  let ?rs = "filter (pg_lapsed e ?now) (pd_agents d)"
  obtain ret d1 evs where u: "sql_update e (CExec 0) (pg_lapsed e ?now) (reap_set ?now) d = Inr (ret, d1)"
    "reap_batch c e 0 ?rs d1 = Inr (evs, d')" "cm_events cm = map fst evs"
    using assms(2) by (auto simp: pg_reap_tx_def Let_def bindr_eq_Inr split: if_splits)
  have p: "wf_pg d1" "protocol (pg_view d) (map (\<lambda>r. LReap (pr_id r) ?now) ?rs) (pg_view d1)"
    by (rule sql_update_protocol[OF assms(1) u(1) reap_set_keeps]; use reap_step in blast)+
  note b = reap_batch_keeps[OF u(2)]
  show ?thesis
    using p pg_agents_only[of d' d1] b u(3)
    by (intro tx_sound_protocol) (auto simp: pg_reap_labels_def filter_empty_conv is_complete_def)
qed

lemma reap_tx_rollback: "pg_reap_tx c e d = Inr (PgRollback x) \<Longrightarrow> pg_reap_labels e d = []"
  by (auto simp: pg_reap_tx_def Let_def bindr_eq_Inr pg_reap_labels_def split: if_splits)

section \<open>Operations as a backend\<close>

datatype pg_op =
    PoOut agent
  | PoTake query
  | PoUpdate string "gval gomap option"
  | PoComplete string string string "gval gomap option"
  | PoCompleteAndOut string string string "gval gomap option" "agent list"
  | PoRelease string string string string
  | PoRenew string string string duration
  | PoBatchTake query int
  | PoReap
  | PoWriter nat writer_round
  | PoPrefetch string
  | PoEvict

text \<open>An operation with the environments of its transactions; all but Take use the first.\<close>

fun pg_exec :: "pg_config \<Rightarrow> (nat \<Rightarrow> pg_env) \<times> pg_op \<Rightarrow> pg_store \<Rightarrow> pg_store" where
  "pg_exec c (es, PoOut t) s = snd (PgOut c (es 0) s t)"
| "pg_exec c (es, PoTake q) s = snd (PgTake c es s (Some q))"
| "pg_exec c (es, PoUpdate i u) s = snd (PgUpdateAndGet c (es 0) s i u)"
| "pg_exec c (es, PoComplete i ag tok res) s = snd (PgCompleteAndGet c (es 0) s i ag tok res)"
| "pg_exec c (es, PoCompleteAndOut i ag tok res outs) s = snd (PgCompleteAndOut c (es 0) s i ag tok res outs)"
| "pg_exec c (es, PoRelease i ag tok reason) s = snd (PgReleaseAndGet c (es 0) s i ag tok reason)"
| "pg_exec c (es, PoRenew i ag tok dur) s = snd (PgRenewLease c (es 0) s i ag tok dur)"
| "pg_exec c (es, PoBatchTake q n) s = snd (PgBatchTake c (es 0) s (Some q) n)"
| "pg_exec c (es, PoReap) s = pg_reapExpiredLeases c (es 0) s"
| "pg_exec c (es, PoWriter n w) s = event_writer_round c (es 0) n w s"
| "pg_exec c (es, PoPrefetch key) s = prefetch_run c (es 0) key s"
| "pg_exec c (es, PoEvict) s = evictIdle (clock (es 0) 0) s"

fun pg_labels :: "pg_config \<Rightarrow> (nat \<Rightarrow> pg_env) \<times> pg_op \<Rightarrow> pg_store \<Rightarrow> label list" where
  "pg_labels c (es, PoOut t) s = (case fst (PgOut c (es 0) s t) of Inl _ \<Rightarrow> [] | Inr t' \<Rightarrow> [pg_out_label t'])"
| "pg_labels c (es, PoTake q) s = take_labels (fst (PgTake c es s (Some q)))"
| "pg_labels c (es, PoUpdate i u) s = (case (u, fst (PgUpdateAndGet c (es 0) s i u)) of
     (Some _, Inr t) \<Rightarrow> [LUpdate i (pg_agent_cell t)] | _ \<Rightarrow> [])"
| "pg_labels c (es, PoComplete i ag tok res) s = (case fst (PgCompleteAndGet c (es 0) s i ag tok res) of
     Inl _ \<Rightarrow> [] | Inr _ \<Rightarrow> if pg_completed (g_db s) i then [] else [LComplete i ag tok])"
| "pg_labels c (es, PoCompleteAndOut i ag tok res outs) s = (case fst (PgCompleteAndOut c (es 0) s i ag tok res outs) of
     Inl _ \<Rightarrow> [] | Inr x \<Rightarrow> if pg_completed (g_db s) i then [] else LComplete i ag tok # map pg_out_label (snd x))"
| "pg_labels c (es, PoRelease i ag tok reason) s = (case fst (PgReleaseAndGet c (es 0) s i ag tok reason) of
     Inl _ \<Rightarrow> [] | Inr _ \<Rightarrow> [LRelease i ag tok])"
| "pg_labels c (es, PoRenew i ag tok dur) s = (case fst (PgRenewLease c (es 0) s i ag tok dur) of
     Inl _ \<Rightarrow> [] | Inr t \<Rightarrow> [renew_label i ag tok t])"
| "pg_labels c (es, PoBatchTake q n) s = (case fst (PgBatchTake c (es 0) s (Some q) n) of
     Inl _ \<Rightarrow> [] | Inr ts \<Rightarrow> map take_label ts)"
| "pg_labels c (es, PoReap) s = (case fst (pg_tx c (es 0) s (pg_reap_tx c (es 0))) of
     Inl _ \<Rightarrow> [] | Inr _ \<Rightarrow> pg_reap_labels (es 0) (g_db s))"
| "pg_labels c _ s = []"

fun pg_proper :: "pg_config \<Rightarrow> (nat \<Rightarrow> pg_env) \<times> pg_op \<Rightarrow> pg_store \<Rightarrow> bool" where
  "pg_proper c (es, PoOut t) s = (case fst (PgOut c (es 0) s t) of Inl _ \<Rightarrow> True | Inr t' \<Rightarrow> pg_row_of (g_db s) (a_ID t') = None)"
| "pg_proper c (es, PoUpdate i u) s = (case u of None \<Rightarrow> True | Some m \<Rightarrow> lease_safe_update m)"
| "pg_proper c (es, PoCompleteAndOut i ag tok res outs) s = (case fst (PgCompleteAndOut c (es 0) s i ag tok res outs) of
     Inl _ \<Rightarrow> True | Inr x \<Rightarrow> fresh_outputs (g_db s) (snd x))"
| "pg_proper c _ s = True"

lemma out_sound_pg:
  assumes "wf_pg (g_db s)"
  shows "pg_sound s (pg_labels c (es, PoOut t) s) (pg_proper c (es, PoOut t) s) (pg_exec c (es, PoOut t) s)"
  unfolding pg_exec.simps pg_labels.simps pg_proper.simps PgOut_def
  by (rule pg_tx_sound[OF assms])
    (use out_tx_sound[OF assms] in \<open>auto simp: pg_out_tx_def Let_def bindr_eq_Inr\<close>)

lemma update_sound_pg:
  assumes "wf_pg (g_db s)"
  shows "pg_sound s (pg_labels c (es, PoUpdate i u) s) (pg_proper c (es, PoUpdate i u) s) (pg_exec c (es, PoUpdate i u) s)"
proof (cases u)
  case None
  then show ?thesis using assms by (simp add: PgUpdateAndGet_def pg_sound_refl)
next
  case (Some m)
  let ?tx = "pg_tx c (es 0) s (pg_update_tx c (es 0) i m)"
  have "pg_sound s (case fst ?tx of Inl _ \<Rightarrow> [] | Inr t \<Rightarrow> [LUpdate i (pg_agent_cell t)])
      (case fst ?tx of Inl _ \<Rightarrow> True | Inr x \<Rightarrow> lease_safe_update m) (snd ?tx)"
    by (rule pg_tx_sound[OF assms])
      (use update_tx_sound[OF assms] in \<open>auto simp: pg_update_tx_def Let_def bindr_eq_Inr\<close>)
  then show ?thesis
    using Some by (cases "fst ?tx") (simp_all add: PgUpdateAndGet_def pg_sound_ok)
qed

lemma complete_sound_pg:
  assumes "wf_pg (g_db s)"
  shows "pg_sound s (pg_labels c (es, PoComplete i ag tok res) s) True (pg_exec c (es, PoComplete i ag tok res) s)"
proof (cases "ag = [] \<or> tok = []")
  case True
  then show ?thesis using assms by (auto simp: PgCompleteAndGet_def pg_sound_refl)
next
  case False
  let ?tx = "pg_tx c (es 0) s (pg_complete_tx c (es 0) i ag tok res)"
  have "pg_sound s (case fst ?tx of Inl _ \<Rightarrow> [] | Inr t \<Rightarrow> if pg_completed (g_db s) i then [] else [LComplete i ag tok])
      (case fst ?tx of Inl _ \<Rightarrow> True | Inr x \<Rightarrow> True) (snd ?tx)"
    by (rule pg_tx_sound[OF assms])
      (use False complete_tx_sound_pg[OF assms] complete_tx_rollback[OF assms] in auto)
  then show ?thesis using False by (cases "fst ?tx") (simp_all add: PgCompleteAndGet_def)
qed

lemma complete_and_out_sound_pg:
  assumes "wf_pg (g_db s)"
  shows "pg_sound s (pg_labels c (es, PoCompleteAndOut i ag tok res outs) s) (pg_proper c (es, PoCompleteAndOut i ag tok res outs) s)
    (pg_exec c (es, PoCompleteAndOut i ag tok res outs) s)"
proof (cases "ag = [] \<or> tok = []")
  case True
  then show ?thesis using assms by (auto simp: PgCompleteAndOut_def pg_sound_refl)
next
  case False
  let ?tx = "pg_tx c (es 0) s (pg_complete_and_out_tx c (es 0) i ag tok res outs)"
  have "pg_sound s (case fst ?tx of Inl _ \<Rightarrow> [] | Inr x \<Rightarrow> if pg_completed (g_db s) i then [] else LComplete i ag tok # map pg_out_label (snd x))
      (case fst ?tx of Inl _ \<Rightarrow> True | Inr x \<Rightarrow> fresh_outputs (g_db s) (snd x)) (snd ?tx)"
  proof (rule pg_tx_sound[OF assms])
    fix x d cm
    assume "pg_complete_and_out_tx c (es 0) i ag tok res outs (g_db s) = Inr (PgCommit x d cm)"
    then show "tx_sound (g_db s) (if pg_completed (g_db s) i then [] else LComplete i ag tok # map pg_out_label (snd x))
        (fresh_outputs (g_db s) (snd x)) d (cm_events cm)"
      using complete_and_out_tx_sound[OF assms, of c "es 0" i ag tok res outs "fst x" "snd x" d cm] False by simp
  qed (use complete_and_out_no_rollback in blast)
  then show ?thesis using False by (cases "fst ?tx") (simp_all add: PgCompleteAndOut_def)
qed

lemma release_sound_pg:
  assumes "wf_pg (g_db s)"
  shows "pg_sound s (pg_labels c (es, PoRelease i ag tok reason) s) True (pg_exec c (es, PoRelease i ag tok reason) s)"
proof (cases "ag = [] \<or> tok = []")
  case True
  then show ?thesis using assms by (auto simp: PgReleaseAndGet_def pg_sound_refl)
next
  case False
  let ?tx = "pg_tx c (es 0) s (pg_release_tx c (es 0) i ag tok reason)"
  have "pg_sound s (case fst ?tx of Inl _ \<Rightarrow> [] | Inr t \<Rightarrow> [LRelease i ag tok]) (case fst ?tx of Inl _ \<Rightarrow> True | Inr x \<Rightarrow> True) (snd ?tx)"
    by (rule pg_tx_sound[OF assms]) (use False release_tx_sound[OF assms] release_tx_no_rollback in \<open>auto\<close>)
  then show ?thesis using False by (cases "fst ?tx") (simp_all add: PgReleaseAndGet_def)
qed

lemma renew_sound_pg:
  assumes "wf_pg (g_db s)"
  shows "pg_sound s (pg_labels c (es, PoRenew i ag tok dur) s) True (pg_exec c (es, PoRenew i ag tok dur) s)"
proof (cases "ag = [] \<or> tok = []")
  case True
  then show ?thesis using assms by (auto simp: PgRenewLease_def pg_sound_refl)
next
  case False
  let ?tx = "pg_tx c (es 0) s (pg_renew_tx c (es 0) i ag tok dur)"
  have "pg_sound s (case fst ?tx of Inl _ \<Rightarrow> [] | Inr t \<Rightarrow> [renew_label i ag tok t]) (case fst ?tx of Inl _ \<Rightarrow> True | Inr x \<Rightarrow> True) (snd ?tx)"
    by (rule pg_tx_sound[OF assms]) (use False renew_tx_sound[OF assms] renew_tx_no_rollback in \<open>auto\<close>)
  then show ?thesis using False by (cases "fst ?tx") (simp_all add: PgRenewLease_def)
qed

lemma reap_sound_pg:
  assumes "wf_pg (g_db s)"
  shows "pg_sound s (pg_labels c (es, PoReap) s) True (pg_exec c (es, PoReap) s)"
proof -
  let ?tx = "pg_tx c (es 0) s (pg_reap_tx c (es 0))"
  have "pg_sound s (case fst ?tx of Inl _ \<Rightarrow> [] | Inr _ \<Rightarrow> pg_reap_labels (es 0) (g_db s)) (case fst ?tx of Inl _ \<Rightarrow> True | Inr x \<Rightarrow> True) (snd ?tx)"
    by (rule pg_tx_sound[OF assms]) (use reap_tx_sound[OF assms] reap_tx_rollback in auto)
  then show ?thesis by (cases "fst ?tx") (simp_all add: pg_reapExpiredLeases_def)
qed

lemma send_batch_agents: "send_batch e n rs d = Inr d' \<Longrightarrow> pd_agents d' = pd_agents d"
  by (induction e n rs d arbitrary: d' rule: send_batch.induct)
    (auto simp: bindr_eq_Inr exec_insert_event_def split: if_splits)

lemma background_sound:
  assumes "wf_pg (g_db s)"
  shows "pg_sound s (pg_labels c (es, PoWriter n w) s) True (pg_exec c (es, PoWriter n w) s)"
    "pg_sound s (pg_labels c (es, PoPrefetch key) s) True (pg_exec c (es, PoPrefetch key) s)"
    "pg_sound s (pg_labels c (es, PoEvict) s) True (pg_exec c (es, PoEvict) s)"
proof -
  have flush: "pd_agents (g_db (flushEvents c e pes s)) = pd_agents (g_db s)" "g_log (flushEvents c e pes s) = g_log s" for e pes s
    by (auto simp: flushEvents_def dest: send_batch_agents split: sum.splits)
  show "pg_sound s (pg_labels c (es, PoWriter n w) s) True (pg_exec c (es, PoWriter n w) s)"
    using assms by (auto intro!: pg_sound_same simp: event_writer_round_def flush announced_def Let_def split: writer_round.splits list.splits)
  show "pg_sound s (pg_labels c (es, PoPrefetch key) s) True (pg_exec c (es, PoPrefetch key) s)"
    using assms by (auto intro!: pg_sound_same simp: prefetch_run_def announced_def split: option.splits)
  show "pg_sound s (pg_labels c (es, PoEvict) s) True (pg_exec c (es, PoEvict) s)"
    using assms by (auto intro!: pg_sound_same simp: evictIdle_def announced_def)
qed

definition good_pg :: "pg_store \<Rightarrow> bool" where
  "good_pg s \<longleftrightarrow> wf_pg (g_db s)"

lemma pg_op_sound:
  assumes "good_pg s"
  shows "pg_sound s (pg_labels c op s) (pg_proper c op s) (pg_exec c op s)"
proof -
  have wf: "wf_pg (g_db s)" using assms by (simp add: good_pg_def)
  obtain es p where op: "op = (es, p)" by force
  show ?thesis unfolding op
    using out_sound_pg[OF wf] update_sound_pg[OF wf] complete_and_out_sound_pg[OF wf] complete_sound_pg[OF wf]
      release_sound_pg[OF wf] renew_sound_pg[OF wf] reap_sound_pg[OF wf] background_sound[OF wf]
      take_sound_pg[OF wf] batch_take_sound[OF wf]
    by (cases p) (simp_all del: pg_exec.simps(1,3-7,9-12) pg_labels.simps(1,3-7,9-12))
qed

interpretation pg: lease_backend "\<lambda>s. pg_view (g_db s)" good_pg "pg_exec c" "pg_labels c" "pg_proper c" for c
proof unfold_locales
  fix s op assume g: "good_pg s"
  note so = pg_op_sound[OF g, of c op]
  show "good_pg (pg_exec c op s)" using so by (simp add: pg_sound_def good_pg_def)
  show "steps (pg_view (g_db s)) (pg_labels c op s) (pg_view (g_db (pg_exec c op s)))" using so by (simp add: pg_sound_def)
  assume "pg_proper c op s"
  then show "protocol (pg_view (g_db s)) (pg_labels c op s) (pg_view (g_db (pg_exec c op s)))"
    using so by (simp add: pg_sound_def)
qed

lemma run_announced:
  "good_pg s \<Longrightarrow> announced (run_ops (pg_exec c) ops s) i =
     announced s i + length (filter (is_complete i) (trace_ops (pg_exec c) (pg_labels c) ops s))"
proof (induction ops arbitrary: s)
  case (Cons op ops)
  then show ?case
    using pg_op_sound[OF Cons.prems, of c op] pg.good_exec[OF Cons.prems, of c op] by (simp add: pg_sound_def)
qed simp

end
