(* ===== verification/Pg_Leases.thy ===== *)
theory Pg_Leases
  imports Pg_Backend
begin

text \<open>
  The lease properties of the Postgres store: refinement of the contract, completion at most once, fencing of
  replaced tokens and operations that fail without effect.  The example configuration, store and run at the
  start feed the witnesses.
\<close>

section \<open>A run for the examples\<close>

definition pg_demo_config :: pg_config where
  "pg_demo_config = \<lparr> cf_slimEvents = False, cf_deferEvents = False, cf_queueClaimMode = QueueClaimModeParallel,
     cf_shardID = [], cf_leaseDuration = 30 * Second, cf_prefetch = None \<rparr>"

definition pg_demo_store :: pg_store where
  "pg_demo_store = \<lparr> g_db = pg_demo, g_subs = [], g_log = [], g_queue = [], g_buf = [], g_notes = [], g_wakeups = 0,
     g_prefetchers = [] \<rparr>"

text \<open>An environment with other identifiers and a chosen fault.\<close>

definition pg_later :: "char \<Rightarrow> gotime \<Rightarrow> (db_call \<Rightarrow> bool) \<Rightarrow> pg_env" where
  "pg_later ch t flt = pg_quiet \<lparr> clock := (\<lambda>_. t), uuid := (\<lambda>n. replicate (Suc n) ch), fault := flt \<rparr>"

definition pg_demo_q :: query where
  "pg_demo_q = empty_query \<lparr> q_AgentID := ''w1'' \<rparr>"

text \<open>Claim the oldest agent, complete it, and try to complete it again.\<close>

definition pg_demo_run :: "((nat \<Rightarrow> pg_env) \<times> pg_op) list" where
  "pg_demo_run = [(\<lambda>_. pg_quiet, PoTake pg_demo_q),
     (\<lambda>_. pg_later CHR ''v'' 6000000000 (\<lambda>_. False), PoComplete ''a'' ''w1'' ''u'' None),
     (\<lambda>_. pg_later CHR ''w'' 7000000000 (\<lambda>_. False), PoComplete ''a'' ''w1'' ''u'' None)]"

definition pg_demo_claim :: "agent \<times> pg_store" where
  "pg_demo_claim = (case PgTake pg_demo_config (\<lambda>_. pg_quiet) pg_demo_store (Some pg_demo_q) of
     (Inr (Some t), s1) \<Rightarrow> (t, s1) | (_, s1) \<Rightarrow> (empty_agent, s1))"

lemma good_pg_demo: "good_pg pg_demo_store"
  using wf_pg_demo by (simp add: good_pg_def pg_demo_store_def)

lemma pg_demo_claim_eq:
  "PgTake pg_demo_config (\<lambda>_. pg_quiet) pg_demo_store (Some pg_demo_q) = (Inr (Some (fst pg_demo_claim)), snd pg_demo_claim)"
  "a_ID (fst pg_demo_claim) = ''a''" "a_LeaseToken (fst pg_demo_claim) = ''u''"
proof -
  have "case fst (PgTake pg_demo_config (\<lambda>_. pg_quiet) pg_demo_store (Some pg_demo_q)) of
      Inr (Some t) \<Rightarrow> a_ID t = ''a'' \<and> a_LeaseToken t = ''u'' | _ \<Rightarrow> False" by code_simp
  then show "PgTake pg_demo_config (\<lambda>_. pg_quiet) pg_demo_store (Some pg_demo_q) = (Inr (Some (fst pg_demo_claim)), snd pg_demo_claim)"
    "a_ID (fst pg_demo_claim) = ''a''" "a_LeaseToken (fst pg_demo_claim) = ''u''"
    by (auto simp: pg_demo_claim_def split: prod.splits sum.splits option.splits)
qed

section \<open>Refinement, exactly-once completion and fencing\<close>





lemma complete_commit_leased:
  assumes "wf_pg d" "pg_complete_tx c e i ag tok res d = Inr (PgCommit t d' cm)"
  shows "\<not> pg_completed d i"
proof -
  obtain j where j: "marshal_map (or_nil res) = Some j" using assms(2) by (auto simp: pg_complete_tx_def Let_def split: option.splits)
  let ?u = "bindr (sql_update e (CWrite 0) (lease_row e i ag tok)
      (complete_set (clock e 0) j (completion_meta ag tok (clock e 0))) d) scan_returned"
  obtain ret where ret: "?u = Inr ret" using assms(2) j by (cases ?u) (simp_all add: pg_complete_tx_def Let_def)
  have "ret \<noteq> None" using assms(2) j ret by (auto simp: pg_complete_tx_def Let_def bindr_eq_Inr split: option.splits)
  then obtain t1 d1 where u: "?u = Inr (Some (t1, d1))" using ret by (cases ret) auto
  have fixes_id: "\<And>r. lease_row e i ag tok r \<Longrightarrow> pr_id r = i" by (simp add: lease_row_def)
  obtain r where "pg_row_of d i = Some r" "lease_row e i ag tok r"
    using single_update[OF assms(1) u fixes_id] by metis
  then show ?thesis by (simp add: pg_completed_def lease_row_def)
qed

lemma pg_complete_again:
  assumes "good_pg s" "pg_completed (g_db s) i"
  shows "\<exists>r. PgCompleteAndGet c e s i ag tok res = (r, s)"
proof -
  have "\<exists>r. pg_tx c e s (pg_complete_tx c e i ag tok res) = (r, s)"
    using complete_commit_leased[of "g_db s" c e i ag tok res] assms
    by (cases rule: pg_tx_cases[of c e s "pg_complete_tx c e i ag tok res"]) (auto simp: good_pg_def)
  then show ?thesis by (simp add: PgCompleteAndGet_def)
qed

text \<open>An operation that would have to spend a token the space lacks does not take effect.\<close>

lemma pg_lacking_token_refused:
  assumes "good_pg s" "lacks i tok (pg_view (g_db s))"
  shows "\<exists>er. PgReleaseAndGet c e s i ag tok reason = (Inl er, s)"
    and "\<exists>er. PgRenewLease c e s i ag tok dur = (Inl er, s)"
    and "\<exists>r. PgCompleteAndGet c e s i ag tok res = (r, s)"
proof -
  have ns: "\<not> spends i tok l" if "steps (pg_view (g_db s)) [l] m" for l m
    using lacks_not_spent[OF _ assms(2)] that by (auto elim!: steps_ConsE steps_NilE)
  have nr: "\<not> steps (pg_view (g_db s)) [LRelease i ag tok] m" "\<not> steps (pg_view (g_db s)) [LRenew i ag tok u] m"
    "\<not> steps (pg_view (g_db s)) [LComplete i ag tok] m" for u m
    using ns[of "LRelease i ag tok" m] ns[of "LRenew i ag tok u" m] ns[of "LComplete i ag tok" m]
    by (auto simp: spends_def)
  note ref = pg.refines[OF assms(1), of c]
  have err: "PgReleaseAndGet c e s i ag tok reason = (Inl er, s') \<Longrightarrow> s' = s"
    "PgRenewLease c e s i ag tok dur = (Inl er, s') \<Longrightarrow> s' = s"
    "PgCompleteAndGet c e s i ag tok res = (Inl er, s') \<Longrightarrow> s' = s" for er s'
    by (auto simp: PgReleaseAndGet_def PgRenewLease_def PgCompleteAndGet_def dest: pg_tx_Inl split: if_splits)
  obtain r s' where r: "PgReleaseAndGet c e s i ag tok reason = (r, s')" by force
  then show "\<exists>er. PgReleaseAndGet c e s i ag tok reason = (Inl er, s)"
    using ref[of "(\<lambda>_. e, PoRelease i ag tok reason)"] nr(1) err(1) by (cases r) auto
  obtain r s' where r: "PgRenewLease c e s i ag tok dur = (r, s')" by force
  then show "\<exists>er. PgRenewLease c e s i ag tok dur = (Inl er, s)"
    using ref[of "(\<lambda>_. e, PoRenew i ag tok dur)"] nr(2) err(2) by (cases r) (auto simp: renew_label_def)
  obtain r s' where r: "PgCompleteAndGet c e s i ag tok res = (r, s')" by force
  show "\<exists>r. PgCompleteAndGet c e s i ag tok res = (r, s)"
  proof (cases "pg_completed (g_db s) i")
    case True
    show ?thesis by (rule pg_complete_again[OF assms(1) True])
  next
    case False
    then show ?thesis
      using r ref[of "(\<lambda>_. e, PoComplete i ag tok res)"] nr(3) by (cases r) (auto dest: err(3))
  qed
qed

text \<open>C18: on the Postgres store, too, a lease token is fenced off by the next claim: after a Take that issued
  another token for the agent, and any later run of proper operations that does not issue the old token again,
  the old token can neither release nor renew the agent, and completing with it changes nothing.\<close>

theorem pg_stale_token_fenced:
  assumes "good_pg s" "PgTake c es s (Some q) = (Inr (Some t), s1)" "tok \<noteq> a_LeaseToken t" "tok \<noteq> []"
    and "proper_ops (pg_exec c) (pg_proper c) ops s1"
    and "list_all (\<lambda>l. \<not> issues (a_ID t) tok l) (trace_ops (pg_exec c) (pg_labels c) ops s1)"
  defines "s2 \<equiv> run_ops (pg_exec c) ops s1"
  shows "(\<exists>er. PgReleaseAndGet c e s2 (a_ID t) ag tok reason = (Inl er, s2)) \<and>
         (\<exists>er. PgRenewLease c e s2 (a_ID t) ag tok dur = (Inl er, s2)) \<and>
         (\<exists>r. PgCompleteAndGet c e s2 (a_ID t) ag tok res = (r, s2))"
proof -
  have s1: "s1 = pg_exec c (es, PoTake q) s" "pg_labels c (es, PoTake q) s = [take_label t]"
    using assms(2) by (simp_all add: take_labels_def)
  then have g1: "good_pg s1" using pg.good_exec[OF assms(1), of c "(es, PoTake q)"] by simp
  then have g2: "good_pg s2" unfolding s2_def by (rule pg.good_run)
  have "step (pg_view (g_db s)) (take_label t) (pg_view (g_db s1))"
    using pg.refines[OF assms(1), of c "(es, PoTake q)"] s1 by (auto elim!: steps_ConsE steps_NilE)
  then have l1: "lacks (a_ID t) tok (pg_view (g_db s1))"
    using take_lacks_old assms(3,4) unfolding take_label_def by blast
  have pr: "protocol (pg_view (g_db s1)) (trace_ops (pg_exec c) (pg_labels c) ops s1) (pg_view (g_db s2))"
    unfolding s2_def by (rule pg.run_protocol[OF g1 assms(5)])
  have l2: "lacks (a_ID t) tok (pg_view (g_db s2))"
    using protocol_lacks[OF pr l1] assms(6) by (auto simp: list_all_iff)
  show ?thesis using pg_lacking_token_refused[OF g2 l2] by blast
qed

theorem pg_stale_token_fenced_witness:
  "\<exists>er. PgReleaseAndGet pg_demo_config pg_quiet (snd pg_demo_claim) ''a'' ''w0'' ''old'' [] = (Inl er, snd pg_demo_claim)"
  using pg_stale_token_fenced[OF good_pg_demo pg_demo_claim_eq(1), of "''old''" "[]" pg_quiet "''w0''" "[]" 0 None]
  by (simp add: pg_demo_claim_eq)

section \<open>Errors\<close>

lemma pg_tx_error: "fst (pg_tx c e s body) = Inl er \<Longrightarrow> snd (pg_tx c e s body) = s"
  by (cases "pg_tx c e s body") (auto dest: pg_tx_Inl)

text \<open>A Take touches the prefetchers before any claim; nothing else changes when it fails.\<close>

definition same_data :: "pg_store \<Rightarrow> pg_store \<Rightarrow> bool" where
  "same_data s s' \<longleftrightarrow> s' = s \<lparr> g_prefetchers := g_prefetchers s' \<rparr>"

lemma same_data_refl [simp]: "same_data s s"
  by (simp add: same_data_def)

lemma same_data_trans: "same_data s s' \<Longrightarrow> same_data s' s'' \<Longrightarrow> same_data s s''"
  unfolding same_data_def by (metis pg_store.surjective pg_store.update_convs(8))

lemma tryGet_same: "same_data s (snd (tryGet now ns queue s))"
  by (simp add: tryGet_def same_data_def Let_def split: list.splits)

definition no_claim :: "(store_error + agent option) \<Rightarrow> bool" where
  "no_claim r \<longleftrightarrow> (\<forall>t. r \<noteq> Inr (Some t))"

lemma no_claim_simps [simp]: "no_claim (Inl er)" "no_claim (Inr None)" "\<not> no_claim (Inr (Some t))"
  by (simp_all add: no_claim_def)

lemma claim_tx_none:
  assumes "\<And>t d' cm. body (g_db s) = Inr (PgCommit t d' cm) \<Longrightarrow> t \<noteq> None" "no_claim (fst (pg_tx c e s body))"
  shows "snd (pg_tx c e s body) = s"
  using assms by (cases rule: pg_tx_cases[of c e s body]) auto

lemma claim_commit_Some: "claim_commit c e ag claim = Inr (PgCommit t d' cm) \<Longrightarrow> t \<noteq> None"
  by (auto simp: claim_commit_def Let_def bindr_eq_Inr split: option.splits)

lemma claimByID_none: "no_claim (fst (claimByID c e s i ag)) \<Longrightarrow> snd (claimByID c e s i ag) = s"
  unfolding claimByID_def by (rule claim_tx_none) (auto simp: bindr_eq_Inr dest: claim_commit_Some)

lemma takeWithStrategy_none: "no_claim (fst (takeWithStrategy c e s queue ag f)) \<Longrightarrow> snd (takeWithStrategy c e s queue ag f) = s"
  unfolding takeWithStrategy_def
  by (rule claim_tx_none) (auto simp: bindr_eq_Inr dest: claim_commit_Some split: if_splits)

lemma take_by_query_none: "no_claim (fst (take_by_query c es s qo)) \<Longrightarrow> snd (take_by_query c es s qo) = s"
  unfolding take_by_query_def Let_def
  using takeWithStrategy_none[of c "es 3" s "take_queue qo" "take_agent_id qo"
      "takeAtomicClaim c (es 3) (buildWhereClauses qo True) (take_agent_id qo)"]
    takeWithStrategy_none[of c "es 4" s "take_queue qo" "take_agent_id qo"]
  by (auto split: prod.splits sum.splits if_splits)

lemma prefetch_attempts_none:
  "no_claim (fst (prefetch_attempts c es ns queue ag i n s)) \<Longrightarrow> same_data s (snd (prefetch_attempts c es ns queue ag i n s))"
proof (induction n arbitrary: i s)
  case (Suc n)
  obtain cand s1 where g: "tryGet (clock (es i) 2) ns queue s = (cand, s1)" by force
  have s1: "same_data s s1" using tryGet_same[of s "clock (es i) 2" ns queue] g by simp
  obtain r s2 where cl: "claimByID c (es i) s1 cand ag = (r, s2)" by force
  have s2: "no_claim r \<Longrightarrow> s2 = s1" using claimByID_none[of c "es i" s1 cand ag] cl by simp
  show ?case
  proof (cases "cand = [] \<or> (\<exists>er. r = Inl er)")
    case True
    then show ?thesis using g cl s1 s2 by auto
  next
    case False
    then obtain x where r: "r = Inr x" by (cases r) auto
    then show ?thesis
      using Suc.IH[of "Suc i" s2] Suc.prems False g cl s1 s2 by (cases x) (auto intro: same_data_trans)
  qed
qed simp

lemma PgTake_none: "no_claim (fst (PgTake c es s qo)) \<Longrightarrow> same_data s (snd (PgTake c es s qo))"
proof -
  assume n: "no_claim (fst (PgTake c es s qo))"
  obtain r s1 where p: "takePrefetched c es s (query_namespace qo) (take_queue qo) (take_agent_id qo) = (r, s1)" by force
  have s1: "no_claim r \<Longrightarrow> same_data s s1"
    using prefetch_attempts_none[of c es "query_namespace qo" "take_queue qo" "take_agent_id qo" 0 3 s] p
    by (simp add: takePrefetched_def)
  have q: "no_claim (fst (take_by_query c es s' qo)) \<Longrightarrow> snd (take_by_query c es s' qo) = s'" for s'
    by (rule take_by_query_none)
  consider (skip) "PgTake c es s qo = (Inr None, s)"
    | (strict) "PgTake c es s qo = takeStrictQueueHead c (es 3) s qo (take_queue qo) (take_agent_id qo)"
    | (pre) "no_claim r" "PgTake c es s qo = take_by_query c es s1 qo"
    | (query) "PgTake c es s qo = take_by_query c es s qo"
    using n p by (auto simp: PgTake_def Let_def no_claim_def split: if_splits sum.splits option.splits)
  then show ?thesis
    by cases (use n s1 q takeWithStrategy_none in \<open>auto simp: takeStrictQueueHead_def\<close>)
qed

text \<open>Every operation of the Postgres store is all or nothing: when it returns an error, the tables, the
  queued events, the subscriptions and the notifications are as before, whatever the error and whichever
  database call failed.  A failing Take may only have used up prefetched candidates.\<close>

theorem pg_errors_change_nothing:
  "(fst (PgOut c e s t) = Inl er \<longrightarrow> snd (PgOut c e s t) = s) \<and>
   (fst (PgTake c es s qo) = Inl er \<longrightarrow> same_data s (snd (PgTake c es s qo))) \<and>
   (fst (PgBatchTake c e s qo n) = Inl er \<longrightarrow> snd (PgBatchTake c e s qo n) = s) \<and>
   (fst (PgUpdateAndGet c e s i u) = Inl er \<longrightarrow> snd (PgUpdateAndGet c e s i u) = s) \<and>
   (fst (PgCompleteAndGet c e s i ag tok res) = Inl er \<longrightarrow> snd (PgCompleteAndGet c e s i ag tok res) = s) \<and>
   (fst (PgCompleteAndOut c e s i ag tok res outs) = Inl er \<longrightarrow> snd (PgCompleteAndOut c e s i ag tok res outs) = s) \<and>
   (fst (PgReleaseAndGet c e s i ag tok reason) = Inl er \<longrightarrow> snd (PgReleaseAndGet c e s i ag tok reason) = s) \<and>
   (fst (PgRenewLease c e s i ag tok dur) = Inl er \<longrightarrow> snd (PgRenewLease c e s i ag tok dur) = s)"
proof (intro conjI impI)
  show "same_data s (snd (PgTake c es s qo))" if "fst (PgTake c es s qo) = Inl er"
    by (rule PgTake_none) (use that in simp)
  show "snd (PgBatchTake c e s qo n) = s" if "fst (PgBatchTake c e s qo n) = Inl er"
    using that pg_tx_Inl[of c e s "batch_take_tx c e qo (take_agent_id qo) (nat n)"]
    by (auto simp: PgBatchTake_def Let_def split: if_splits prod.splits sum.splits)
qed (auto simp: PgOut_def PgUpdateAndGet_def PgCompleteAndGet_def PgCompleteAndOut_def PgReleaseAndGet_def PgRenewLease_def
    intro: pg_tx_error split: if_splits option.splits)

theorem pg_errors_change_nothing_witness:
  "fst (PgOut pg_demo_config (pg_later CHR ''x'' 0 (\<lambda>c. c = CInsertEvent 0)) pg_demo_store empty_agent) = Inl (ErrDB (CInsertEvent 0)) \<and>
   snd (PgOut pg_demo_config (pg_later CHR ''x'' 0 (\<lambda>c. c = CInsertEvent 0)) pg_demo_store empty_agent) = pg_demo_store"
proof -
  have "fst (PgOut pg_demo_config (pg_later CHR ''x'' 0 (\<lambda>c. c = CInsertEvent 0)) pg_demo_store empty_agent) = Inl (ErrDB (CInsertEvent 0))"
    by code_simp
  then show ?thesis using pg_errors_change_nothing[THEN conjunct1, rule_format] by blast
qed
end
