(* ===== verification/Pg_Claims.thy ===== *)
theory Pg_Claims
  imports Pg_Leases
begin

text \<open>
  What single operations of the Postgres store decide: Complete behaves like a guarded read although it is one
  conditional UPDATE, strict queues are first in, first out, and the atomic claim and the legacy claim it falls
  back to leave the same tables.
\<close>

text \<open>A store whose one agent is held by the worker \<^verbatim>\<open>w1\<close>.\<close>

definition pg_held_row :: pg_row where
  "pg_held_row = pg_demo_row ''a'' ''IN_PROGRESS'' 100 \<lparr> pr_owner := ''w1'', pr_lease_token := ''tok'' \<rparr>"

definition pg_held :: "pg_row \<Rightarrow> pg_store" where
  "pg_held r = pg_demo_store \<lparr> g_db := pg_demo \<lparr> pd_agents := [r] \<rparr> \<rparr>"

lemma good_pg_held:
  "good_pg (pg_held pg_held_row)" "good_pg (pg_held (pg_held_row \<lparr> pr_payload := JNull \<rparr>))"
  by (simp_all add: good_pg_def pg_held_def pg_held_row_def wf_pg_def pg_demo_def pg_demo_row_def wf_pg_row_def is_object_def is_str_doc_def
      int64_range_def scan_metadata_def str_at_def json_string_def QueueMetadataKey_def NamespaceMetadataKey_def)

lemma pg_quiet_no_fault: "\<not> fault pg_quiet x"
  by (simp add: pg_quiet_def)

section \<open>Conditional updates decide like a guarded read\<close>

lemma upd_rows_one:
  assumes "filter P rows = [r]"
  shows "upd_rows P f rows = bindr (f r) (\<lambda>r'. Inr ([r'], map (\<lambda>x. if P x then r' else x) rows))"
proof -
  have none: "upd_rows P f xs = Inr ([], xs)" "map (\<lambda>x. if P x then y else x) xs = xs" if "filter P xs = []" for xs y
    using that by (induction xs) (auto split: if_splits)
  show ?thesis using assms
  proof (induction rows)
    case (Cons a rows)
    then show ?case using none[of rows] by (cases "f r") (auto split: if_splits)
  qed simp
qed

lemma upd_rows_none: "filter P rows = [] \<Longrightarrow> upd_rows P f rows = Inr ([], rows)"
  by (induction rows) (auto split: if_splits)

text \<open>The row with a changed id \<open>i\<close>.\<close>

definition set_row :: "string \<Rightarrow> pg_row \<Rightarrow> pg_db \<Rightarrow> pg_db" where
  "set_row i r' d = d \<lparr> pd_agents := map (\<lambda>x. if pr_id x = i then r' else x) (pd_agents d) \<rparr>"

lemma one_row_update:
  assumes "wf_pg d" "pg_row_of d i = Some r" "\<not> fault e c" "\<And>x. P x \<Longrightarrow> pr_id x = i"
  shows "bindr (sql_update e c P f d) scan_returned =
    (if P r then bindr (f r) (\<lambda>r'. bindr (scanAgent r') (\<lambda>t. Inr (Some (t, set_row i r' d)))) else Inr None)"
proof (cases "P r")
  case True
  have r: "r \<in> set (pd_agents d)" "pr_id r = i" using pg_row_of_SomeD[OF assms(2)] by blast+
  note one = filter_one_id[of d P i r, OF assms(1,4) r(1) True]
  have "(if P x then r' else x) = (if pr_id x = i then r' else x)" if "x \<in> set (pd_agents d)" for x r'
  proof -
    have "x = r" if "pr_id x = i" using pg_row_of_in[OF assms(1) \<open>x \<in> _\<close>] assms(2) that by simp
    then show ?thesis using assms(4)[of x] True r(2) by auto
  qed
  then have m: "map (\<lambda>x. if P x then r' else x) (pd_agents d) = map (\<lambda>x. if pr_id x = i then r' else x) (pd_agents d)" for r'
    by simp
  show ?thesis
    using True assms(3) by (cases "f r") (simp_all add: sql_update_def upd_rows_one[OF one] m scan_returned_def set_row_def)
next
  case False
  have "\<not> P x" if "x \<in> set (pd_agents d)" for x
  proof
    assume "P x"
    then have "x = r" using pg_row_of_in[OF assms(1) that] assms(2,4) by simp
    then show False using \<open>P x\<close> False by simp
  qed
  then have "filter P (pd_agents d) = []" by (simp add: filter_empty_conv)
  then show ?thesis using False assms(3) by (simp add: sql_update_def upd_rows_none scan_returned_def)
qed

lemma pg_fetch_row:
  assumes "wf_pg d" "pg_row_of d i = Some r" "\<not> fault e CSelect"
  shows "pg_fetch e k d i = (if pg_alive (db_now e k) r then scanAgent r else Inl (ErrNotFound i))"
proof -
  have r: "r \<in> set (pd_agents d)" "pr_id r = i" using pg_row_of_SomeD[OF assms(2)] by blast+
  have "find (\<lambda>x. pr_id x = i \<and> pg_alive (db_now e k) x) (pd_agents d) = (if pg_alive (db_now e k) r then Some r else None)"
  proof (cases "pg_alive (db_now e k) r")
    case True
    then show ?thesis using find_key_and[of pr_id "pd_agents d" r] assms(1) r by (auto simp: wf_pg_def)
  next
    case False
    have "x = r" if "x \<in> set (pd_agents d)" "pr_id x = i" for x using pg_row_of_in[OF assms(1) that(1)] that(2) assms(2) by simp
    then show ?thesis using False by (auto simp: find_None_iff)
  qed
  then show ?thesis using assms(3) by (simp add: pg_fetch_def)
qed

text \<open>The condition of the UPDATE is the guard on the scanned agent, and the classification of a refused
  UPDATE finds the guard's error.\<close>

lemma lease_row_guard:
  assumes "pr_id r = i" "scanAgent r = Inr t" "pg_alive (db_now e 0) r"
  shows "lease_row e i ag tok r \<longleftrightarrow> lease_guard verb ag tok t = None"
  using assms(1,3) pg_scan_fields[OF assms(2)] by (auto simp: lease_row_def lease_guard_def)

lemma classify_guard:
  assumes "lease_guard verb ag tok t = Some er"
  shows "classify_lease_conflict verb (Some t) ag tok = er"
    and "verb = ''complete'' \<Longrightarrow> a_Status t \<noteq> StatusCompleted \<Longrightarrow> classifyCompletionConflict (Some t) ag tok = Some er"
  using assms by (auto simp: classify_lease_conflict_def classifyCompletionConflict_def lease_guard_def split: if_splits)


text \<open>The event of an operation can be written: events are deferred, or its day has a partition and its key is new.\<close>

definition event_room :: "pg_config \<Rightarrow> pg_env \<Rightarrow> pg_db \<Rightarrow> gotime \<Rightarrow> bool" where
  "event_room c e d ts \<longleftrightarrow> cf_deferEvents c \<or> (UnixMicro ts div micros_per_day \<in> set (pd_days d) \<and>
     (UnixMicro ts, uuid e 0) \<notin> (\<lambda>x. (pe_timestamp x, pe_id x)) ` set (pd_events d))"

lemma append_event_room:
  assumes "event_room c e d (e_Timestamp ev)" "e_ID ev = uuid e 0" "\<not> fault e (CInsertEvent 0)" "event_data_json (e_Data ev) = Some j"
    and "pd_events d' = pd_events d" "pd_days d' = pd_days d"
  shows "\<exists>d2. append_event c e 0 d' ev ns = Inr d2 \<and> pd_agents d2 = pd_agents d'"
  using assms by (auto simp: append_event_def event_room_def insertEvent_def exec_insert_event_def pg_event_columns_def)

lemma set_row_simps [simp]: "pd_events (set_row i r' d) = pd_events d" "pd_days (set_row i r' d) = pd_days d"
  by (simp_all add: set_row_def)

lemma wf_scan_after:
  assumes "wf_pg_row r" "f r = Inr r'" "keeps_row f"
  shows "\<exists>t. scanAgent r' = Inr t"
  using keeps_rowD[OF assms(3,2)] assms(1) wf_pg_row_scan[of r'] by blast

lemma pg_tx_commit:
  assumes "\<And>x. \<not> fault e x" "body (g_db s) = Inr (PgCommit x d cm)"
  shows "\<exists>s'. pg_tx c e s body = (Inr x, s') \<and> pd_agents (g_db s') = pd_agents d"
  using assms by (simp add: pg_tx_def)

lemma pg_tx_Inl_body: "\<not> fault e CBegin \<Longrightarrow> body (g_db s) = Inl er \<Longrightarrow> pg_tx c e s body = (Inl er, s)"
  "\<not> fault e CBegin \<Longrightarrow> body (g_db s) = Inr (PgRollback x) \<Longrightarrow> pg_tx c e s body = (Inr x, s)"
  by (simp_all add: pg_tx_def)

lemma complete_tx_eq:
  assumes "wf_pg d" "\<And>x. \<not> fault e x" "marshal_map (or_nil res) = Some j" "pg_row_of d i = Some r" "scanAgent r = Inr t"
    and "pg_alive (db_now e 0) r" "pg_alive (db_now e 1) r"
  shows "lease_guard ''complete'' ag tok t = Some er \<Longrightarrow> pg_complete_tx c e i ag tok res d =
      (case classifyCompletionConflict (Some t) ag tok of Some er \<Rightarrow> Inl er | None \<Rightarrow> Inr (PgRollback t))"
    and "lease_guard ''complete'' ag tok t = None \<Longrightarrow>
      complete_set (clock e 0) j (completion_meta ag tok (clock e 0)) r = Inr r' \<Longrightarrow> scanAgent r' = Inr t' \<Longrightarrow>
      event_room c e d (clock e 0) \<Longrightarrow> \<exists>d2 cm. pg_complete_tx c e i ag tok res d = Inr (PgCommit t' d2 cm) \<and> pd_agents d2 = pd_agents (set_row i r' d)"
proof -
  have id: "pr_id r = i" using pg_row_of_SomeD[OF assms(4)] by blast
  note u = one_row_update[of d i r e "CWrite 0" "lease_row e i ag tok", OF assms(1,4,2)]
  have P: "\<And>x. lease_row e i ag tok x \<Longrightarrow> pr_id x = i" by (simp add: lease_row_def)
  note g = lease_row_guard[of r i t e ag tok "''complete''", OF id assms(5,6)]
  have f: "pg_fetch e 1 d i = Inr t" using pg_fetch_row[OF assms(1,4,2), of 1] assms(5,7) by simp
  show "pg_complete_tx c e i ag tok res d = (case classifyCompletionConflict (Some t) ag tok of Some er \<Rightarrow> Inl er | None \<Rightarrow> Inr (PgRollback t))"
    if "lease_guard ''complete'' ag tok t = Some er"
    using that u[OF P] g f assms(3) by (simp add: pg_complete_tx_def Let_def)
  assume h: "lease_guard ''complete'' ag tok t = None" "complete_set (clock e 0) j (completion_meta ag tok (clock e 0)) r = Inr r'"
    "scanAgent r' = Inr t'" "event_room c e d (clock e 0)"
  let ?ev = "agent_event (uuid e 0) t' EventCompleted (clock e 0) ag (event_data c t' StatusCompleted (plain_data (or_nil res)))"
  have "\<exists>k. event_data_json (e_Data ?ev) = Some k"
  proof (cases "cf_slimEvents c")
    case True
    then show ?thesis by (simp add: agent_event_def event_data_def event_data_json_def event_val_json_def)
  next
    case False
    then show ?thesis using assms(3) by (simp add: agent_event_def event_data_def event_data_json_plain)
  qed
  then obtain d2 where "append_event c e 0 (set_row i r' d) ?ev (a_NamespaceID t') = Inr d2" "pd_agents d2 = pd_agents (set_row i r' d)"
    using append_event_room[of c e d ?ev _ "set_row i r' d" "a_NamespaceID t'"] h(4) assms(2) by (auto simp: agent_event_def)
  then show "\<exists>d2 cm. pg_complete_tx c e i ag tok res d = Inr (PgCommit t' d2 cm) \<and> pd_agents d2 = pd_agents (set_row i r' d)"
    using h u[OF P] g assms(3) by (simp add: pg_complete_tx_def Let_def)
qed

text \<open>Complete on the Postgres store, one conditional UPDATE followed by a classification, decides like a
  guarded read: for an agent that is visible throughout, a retry with the token that completed it returns the
  stored agent, any other token is stale, a worker that does not hold the lease gets exactly the error of the
  guard, and the holder completes the agent and changes no other row.  The fallback error for a rejected update
  without a reason is never reported.\<close>

theorem PgComplete_decides:
  assumes "good_pg s" "\<And>x. \<not> fault e x" "ag \<noteq> []" "tok \<noteq> []" "marshal_map (or_nil res) = Some j"
    and "pg_row_of (g_db s) i = Some r" "pg_alive (db_now e 0) r" "pg_alive (db_now e 1) r"
    and "is_object (pr_payload r)" "pr_version r \<noteq> 9223372036854775807" "event_room c e (g_db s) (clock e 0)"
  shows "\<exists>t. scanAgent r = Inr t \<and>
    (if a_Status t = StatusCompleted then PgCompleteAndGet c e s i ag tok res =
       (if CompletionTokenMatches (Some t) tok then Inr t else Inl ErrTokenMismatchStale, s)
     else case lease_guard ''complete'' ag tok t of
       Some er \<Rightarrow> PgCompleteAndGet c e s i ag tok res = (Inl er, s)
     | None \<Rightarrow> \<exists>r' t' s'. complete_set (clock e 0) j (completion_meta ag tok (clock e 0)) r = Inr r' \<and>
         scanAgent r' = Inr t' \<and> PgCompleteAndGet c e s i ag tok res = (Inr t', s') \<and>
         pd_agents (g_db s') = map (\<lambda>x. if pr_id x = i then r' else x) (pd_agents (g_db s)))"
proof -
  have wf: "wf_pg (g_db s)" "wf_pg_row r"
    using assms(1) wf_pg_rowD pg_row_of_SomeD[OF assms(6)] by (auto simp: good_pg_def)
  obtain t where t: "scanAgent r = Inr t" using wf_pg_row_scan[OF wf(2)] by blast
  note eq = complete_tx_eq[OF wf(1) assms(2,5,6) t assms(7,8), where ag = ag and tok = tok and c = c]
  have tx: "PgCompleteAndGet c e s i ag tok res = pg_tx c e s (pg_complete_tx c e i ag tok res)"
    using assms(3,4) by (simp add: PgCompleteAndGet_def)
  obtain p where "jsonb_set (pr_payload r) ''result'' j = Inr p" using assms(9) by (auto simp: jsonb_set_def is_object_def split: json.splits)
  then obtain r' where r': "complete_set (clock e 0) j (completion_meta ag tok (clock e 0)) r = Inr r'"
    using assms(10) by (auto simp: complete_set_def sql_inc_def)
  then obtain t' where t': "scanAgent r' = Inr t'" using complete_set_Inr(2)[OF r' wf(2) assms(3,4)] wf_pg_row_scan by blast
  show ?thesis
  proof (cases "lease_guard ''complete'' ag tok t")
    case None
    then obtain d2 cm where "pg_complete_tx c e i ag tok res (g_db s) = Inr (PgCommit t' d2 cm)" "pd_agents d2 = pd_agents (set_row i r' (g_db s))"
      using eq(2)[OF None r' t' assms(11)] by blast
    then obtain s' where "PgCompleteAndGet c e s i ag tok res = (Inr t', s')" "pd_agents (g_db s') = pd_agents (set_row i r' (g_db s))"
      using pg_tx_commit[of e "pg_complete_tx c e i ag tok res" s t' d2 cm c] assms(2) tx by auto
    then show ?thesis using None t r' t' by (intro exI[of _ t]) (auto simp: lease_guard_def set_row_def split: if_splits)
  next
    case (Some er)
    then show ?thesis
      using eq(1)[OF Some] classify_guard(2)[OF Some] assms(2) tx t
      by (auto simp: pg_tx_def classifyCompletionConflict_def)
  qed
qed

theorem PgComplete_decides_witness:
  "PgCompleteAndGet pg_demo_config pg_quiet (pg_held pg_held_row) ''a'' ''w1'' ''bad'' None = (Inl ErrLeaseTokenMismatch, pg_held pg_held_row)"
proof -
  have h: "marshal_map (or_nil None) = Some (JObj [])" "pg_row_of (g_db (pg_held pg_held_row)) ''a'' = Some pg_held_row"
    "pg_alive (db_now pg_quiet 0) pg_held_row" "pg_alive (db_now pg_quiet 1) pg_held_row"
    "is_object (pr_payload pg_held_row)" "pr_version pg_held_row \<noteq> 9223372036854775807"
    "event_room pg_demo_config pg_quiet (g_db (pg_held pg_held_row)) (clock pg_quiet 0)" by code_simp+
  obtain t where t: "scanAgent pg_held_row = Inr t" "a_Status t = ''IN_PROGRESS''" "a_Owner t = ''w1''" "a_LeaseToken t = ''tok''"
    using pg_scan_fields(3,4,7)[of pg_held_row] wf_pg_row_scan[of pg_held_row] good_pg_held(1)
    by (auto simp: good_pg_def wf_pg_def pg_held_def pg_held_row_def pg_demo_row_def)
  then have "lease_guard ''complete'' ''w1'' ''bad'' t = Some ErrLeaseTokenMismatch" "a_Status t \<noteq> StatusCompleted"
    by (simp_all add: lease_guard_def StatusInProgress_def StatusCompleted_def)
  then show ?thesis
    using PgComplete_decides[OF good_pg_held(1) pg_quiet_no_fault _ _ h, of "''w1''" "''bad''"] t(1) by auto
qed

section \<open>Strict queues are first in, first out\<close>

text \<open>The order of the queue: creation time, then id in the collation of the database.\<close>

definition queued_before :: "pg_env \<Rightarrow> pg_row \<Rightarrow> pg_row \<Rightarrow> bool" where
  "queued_before e r r' \<longleftrightarrow> pr_created_at r < pr_created_at r' \<or>
     (pr_created_at r = pr_created_at r' \<and> collation e (pr_id r) \<le> collation e (pr_id r'))"

definition waiting :: "pg_env \<Rightarrow> query \<Rightarrow> pg_db \<Rightarrow> pg_row list" where
  "waiting e q d = filter (\<lambda>r. pr_status r = StatusNew \<and> pg_alive (db_now e 0) r \<and>
     (q_NamespaceID q = [] \<or> pr_namespace_id r = q_NamespaceID q) \<and> pr_queue r = take_queue (Some q)) (pd_agents d)"

lemma hd_sort_keys_least:
  assumes "sort_key f (sort_key g xs) = x # rest" "y \<in> set xs"
  shows "f x < f y \<or> f x = f y \<and> g x \<le> g y"
proof (cases "f x = f y")
  case False
  have "sorted (map f (x # rest))" using sorted_sort_key[of f "sort_key g xs"] assms(1) by simp
  moreover have "y \<in> set (x # rest)" using assms by (metis set_sort)
  ultimately show ?thesis using False by auto
next
  case True
  let ?same = "\<lambda>z. f z = f x"
  have "filter ?same (x # rest) = filter ?same (sort_key g xs)"
    using sort_key_stable[of f "f x" "sort_key g xs"] assms(1) by simp
  then have "sorted (map g (x # filter ?same rest))" using sorted_filter[of g "sort_key g xs" ?same] sorted_sort_key by simp
  moreover have "y \<in> set (x # filter ?same rest)" using assms True set_sort[of f "sort_key g xs"] by auto
  ultimately show ?thesis using True by auto
qed

lemma pg_order_head: "pg_order e xs = x # rest \<Longrightarrow> y \<in> set xs \<Longrightarrow> queued_before e x y"
  using hd_sort_keys_least[of pr_created_at "\<lambda>r. collation e (pr_id r)" xs x rest y] by (simp add: pg_order_def queued_before_def)

lemma strict_take_eq:
  assumes "cf_queueClaimMode c = QueueClaimModeStrict" "take_queue (Some q) \<noteq> []" "q_Status q \<in> {[], StatusNew}"
  shows "PgTake c es s (Some q) = takeWithStrategy c (es 3) s (take_queue (Some q)) (take_agent_id (Some q))
    (takeStrictHeadClaim c (es 3) (Some q) (take_agent_id (Some q)))"
  using assms by (auto simp: PgTake_def Let_def takeStrictQueueHead_def)

lemma strict_strategy:
  assumes "takeWithStrategy c e s queue ag f = (Inr x, s')" "cf_queueClaimMode c = QueueClaimModeStrict" "queue \<noteq> []"
  shows "x = Some t \<Longrightarrow> \<exists>d'. f ForUpdate (g_db s) = Inr (Some (t, d'))"
    and "x = None \<Longrightarrow> try_lock e \<Longrightarrow> f ForUpdate (g_db s) = Inr None"
proof -
  let ?body = "\<lambda>d. bindr (resolveTakeLockClause c e queue) (\<lambda>(lock, proceed).
       if \<not> proceed then Inr (PgRollback None) else bindr (f lock d) (claim_commit c e ag))"
  have cc: "claim_commit c e ag claim = Inr (PgCommit y d cm) \<Longrightarrow> \<exists>t d'. claim = Some (t, d') \<and> y = Some t"
    "claim_commit c e ag claim = Inr (PgRollback y) \<Longrightarrow> claim = None \<and> y = None" for claim y d cm
    by (auto simp: claim_commit_def Let_def bindr_eq_Inr split: option.splits)
  have r: "resolveTakeLockClause c e queue = Inr (lock, True) \<Longrightarrow> lock = ForUpdate"
    "resolveTakeLockClause c e queue = Inr (lock, False) \<Longrightarrow> \<not> try_lock e" for lock
    using assms(2,3) by (auto simp: resolveTakeLockClause_def split: if_splits)
  consider (rollback) "?body (g_db s) = Inr (PgRollback x)" | (commit) d cm where "?body (g_db s) = Inr (PgCommit x d cm)"
    using assms(1) unfolding takeWithStrategy_def by (cases rule: pg_tx_cases[of c e s ?body]) auto
  note b = this
  show "\<exists>d'. f ForUpdate (g_db s) = Inr (Some (t, d'))" if "x = Some t"
    using b that by cases (auto simp: bindr_eq_Inr dest!: cc dest: r split: if_splits)
  show "f ForUpdate (g_db s) = Inr None" if "x = None" "try_lock e"
    using b that by cases (auto simp: bindr_eq_Inr dest!: cc dest: r split: if_splits)
qed

lemma where_queue:
  assumes "where_sat now (buildWhereClauses (Some q) True) r" "take_queue (Some q) \<noteq> []"
  shows "pr_queue r = take_queue (Some q)"
proof -
  have "map_of (or_nil (q_Metadata q)) QueueMetadataKey = Some (take_queue (Some q))"
    using assms(2) by (auto simp: take_queue_def str_at_def split: option.splits)
  then show ?thesis
    using assms(1) map_of_SomeD by (fastforce simp: build_where_sat list_all_iff member_sat_def QueueMetadataKey_def)
qed

text \<open>A statement has at most 65535 parameters.\<close>

definition few_args :: "query \<Rightarrow> bool" where
  "few_args q \<longleftrightarrow> length (snd (buildWhereClauses (Some q) True)) \<le> 65535"

text \<open>The statement for the head of the queue: the candidates in order, and the update of the first of them.\<close>

lemma strict_claim_eq:
  fixes q :: query
  assumes "wf_pg d" "\<not> fault e (CClaim 0)" "few_args q"
  defines "w \<equiv> buildStrictQueueHeadWhereClauses (Some q)"
  shows "takeStrictHeadClaim c e (Some q) ag ForUpdate d = (case pg_select e 0 w d of [] \<Rightarrow> Inr None | cand # _ \<Rightarrow>
    if where_sat (db_now e 0) (buildWhereClauses (Some q) True) cand
    then bindr (claim_set (UnixMicro (clock e 0)) (defaultLeaseMs c) ag (uuid e 0) cand)
      (\<lambda>r'. bindr (scanAgent r') (\<lambda>t. Inr (Some (t, set_row (pr_id cand) r' d)))) else Inr None)"
proof -
  obtain hw ha mw ma where b: "buildStrictQueueHeadWhereClauses (Some q) = (hw, ha)" "buildWhereClauses (Some q) True = (mw, ma)"
    by (metis surj_pair)
  have sh: "where_sat now (map (shift_clause (length ha)) mw, ha @ ma) r = where_sat now (mw, ma) r" for now r
    using shifted_where_sat[of mw now ha ma "[]" r] build_where_index[of "Some q" True] b(2) assms(3) by (simp add: few_args_def)
  show ?thesis
  proof (cases "pg_select e 0 w d")
    case (Cons cand rest)
    then have "cand \<in> set (pd_agents d)" by (metis (no_types, lifting) filter_is_subset list.set_intros(1) pg_select_def set_pg_order subsetD)
    then have row: "pg_row_of d (pr_id cand) = Some cand" by (rule pg_row_of_in[OF assms(1)])
    show ?thesis
      using Cons b sh one_row_update[OF assms(1) row assms(2), of "\<lambda>r. pr_id r = pr_id cand \<and> where_sat (db_now e 0) (mw, ma) r"]
      by (simp add: takeStrictHeadClaim_def w_def lockable_def)
  qed (use assms(2) b in \<open>simp add: takeStrictHeadClaim_def w_def lockable_def\<close>)
qed

lemma strict_no_fault: "takeStrictHeadClaim c e (Some q) ag lock d = Inr x \<Longrightarrow> \<not> fault e (CClaim 0)"
  by (auto simp: takeStrictHeadClaim_def Let_def sql_update_def split: prod.splits list.splits if_splits)

lemma head_waiting:
  assumes "pg_select e 0 (buildStrictQueueHeadWhereClauses (Some q)) d = cand # rest" "pr_queue cand = take_queue (Some q)"
  shows "cand \<in> set (waiting e q d)" "\<forall>r' \<in> set (waiting e q d). queued_before e cand r'"
proof -
  let ?rows = "filter (where_sat (db_now e 0) (buildStrictQueueHeadWhereClauses (Some q))) (pd_agents d)"
  have "cand \<in> set ?rows" using assms(1) by (metis list.set_intros(1) pg_select_def set_pg_order)
  then have cand: "cand \<in> set (pd_agents d)" "where_sat (db_now e 0) (buildStrictQueueHeadWhereClauses (Some q)) cand" by auto
  show "cand \<in> set (waiting e q d)" using cand assms(2) by (auto simp: waiting_def strict_head_sat)
  have "set (waiting e q d) \<subseteq> set ?rows"
    using cand(2) assms(2) by (auto simp: waiting_def strict_head_sat)
  then show "\<forall>r' \<in> set (waiting e q d). queued_before e cand r'"
    using pg_order_head[of e ?rows cand rest] assms(1) by (auto simp: pg_select_def)
qed

lemma strict_head_claim:
  assumes "wf_pg d" "takeStrictHeadClaim c e (Some q) ag ForUpdate d = Inr x" "take_queue (Some q) \<noteq> []" "few_args q"
  shows "x = Some (t, d') \<Longrightarrow> \<exists>r \<in> set (waiting e q d). pr_id r = a_ID t \<and> where_sat (db_now e 0) (buildWhereClauses (Some q) True) r \<and>
      (\<forall>r' \<in> set (waiting e q d). queued_before e r r')"
    and "x = None \<Longrightarrow> trim_space (take_queue (Some q)) = take_queue (Some q) \<Longrightarrow>
      waiting e q d = [] \<or> (\<exists>r \<in> set (waiting e q d). \<not> where_sat (db_now e 0) (buildWhereClauses (Some q) True) r \<and>
      (\<forall>r' \<in> set (waiting e q d). queued_before e r r'))"
proof -
  note eq = strict_claim_eq[OF assms(1) strict_no_fault[OF assms(2)] assms(4), of c ag]
  have id: "claim_set now ms ag tok r = Inr r' \<Longrightarrow> scanAgent r' = Inr t \<Longrightarrow> a_ID t = pr_id r" for now ms tok r r'
    using keeps_rowD[OF claim_set_keeps(2)] pg_scan_fields(1) by metis
  show "\<exists>r \<in> set (waiting e q d). pr_id r = a_ID t \<and> where_sat (db_now e 0) (buildWhereClauses (Some q) True) r \<and>
      (\<forall>r' \<in> set (waiting e q d). queued_before e r r')" if x: "x = Some (t, d')"
  proof -
    obtain cand rest where c: "pg_select e 0 (buildStrictQueueHeadWhereClauses (Some q)) d = cand # rest"
      "where_sat (db_now e 0) (buildWhereClauses (Some q) True) cand" "a_ID t = pr_id cand"
      using assms(2) x eq id by (auto simp: bindr_eq_Inr split: list.splits if_splits)
    show ?thesis using head_waiting[OF c(1) where_queue[OF c(2) assms(3)]] c(2,3) by auto
  qed
  show "waiting e q d = [] \<or> (\<exists>r \<in> set (waiting e q d). \<not> where_sat (db_now e 0) (buildWhereClauses (Some q) True) r \<and>
      (\<forall>r' \<in> set (waiting e q d). queued_before e r r'))" if x: "x = None" and tr: "trim_space (take_queue (Some q)) = take_queue (Some q)"
  proof (cases "pg_select e 0 (buildStrictQueueHeadWhereClauses (Some q)) d")
    case Nil
    then have "filter (where_sat (db_now e 0) (buildStrictQueueHeadWhereClauses (Some q))) (pd_agents d) = []"
      by (metis pg_select_def set_empty set_pg_order)
    then show ?thesis using tr by (auto simp: waiting_def strict_head_sat filter_empty_conv take_queue_def)
  next
    case (Cons cand rest)
    then have "cand \<in> set (pg_select e 0 (buildStrictQueueHeadWhereClauses (Some q)) d)" by simp
    then have "pr_queue cand = take_queue (Some q)" using tr assms(3) by (auto simp: pg_select_def strict_head_sat take_queue_def)
    then show ?thesis using head_waiting[OF Cons] assms(2) x eq Cons by (auto simp: bindr_eq_Inr split: if_splits)
  qed
qed

text \<open>C24: strict queues are served first in, first out.  A Take on a queue in strict mode claims only an agent no
  waiting agent of the queue comes before, and that matches the query; it returns nothing, when it holds the
  queue's lock and the name has no surrounding blanks, only when no agent waits or the first one does not match
  the query, even if later ones would.\<close>

theorem strict_take_fifo:
  assumes "good_pg s" "cf_queueClaimMode c = QueueClaimModeStrict" "take_queue (Some q) \<noteq> []"
    and "trim_space (take_queue (Some q)) = take_queue (Some q)" "q_Status q \<in> {[], StatusNew}" "try_lock (es 3)"
    and "PgTake c es s (Some q) = (Inr x, s')" "few_args q"
  shows "case x of
    Some t \<Rightarrow> \<exists>r \<in> set (waiting (es 3) q (g_db s)). pr_id r = a_ID t \<and>
      where_sat (db_now (es 3) 0) (buildWhereClauses (Some q) True) r \<and> (\<forall>r' \<in> set (waiting (es 3) q (g_db s)). queued_before (es 3) r r')
  | None \<Rightarrow> waiting (es 3) q (g_db s) = [] \<or> (\<exists>r \<in> set (waiting (es 3) q (g_db s)).
      \<not> where_sat (db_now (es 3) 0) (buildWhereClauses (Some q) True) r \<and> (\<forall>r' \<in> set (waiting (es 3) q (g_db s)). queued_before (es 3) r r'))"
proof -
  have wf: "wf_pg (g_db s)" using assms(1) by (simp add: good_pg_def)
  note st = strict_strategy[OF assms(7)[unfolded strict_take_eq[OF assms(2,3,5)]] assms(2,3)]
  show ?thesis
  proof (cases x)
    case None
    then show ?thesis using strict_head_claim(2)[OF wf st(2)[OF None assms(6)] assms(3,8)] assms(4) by simp
  next
    case (Some t)
    then obtain d' where "takeStrictHeadClaim c (es 3) (Some q) (take_agent_id (Some q)) ForUpdate (g_db s) = Inr (Some (t, d'))"
      using st(1) by blast
    then show ?thesis using strict_head_claim(1)[OF wf _ assms(3,8)] Some by auto
  qed
qed

definition pg_strict_config :: pg_config where
  "pg_strict_config = pg_demo_config \<lparr> cf_queueClaimMode := QueueClaimModeStrict \<rparr>"

definition pg_jobs_q :: query where
  "pg_jobs_q = pg_demo_q \<lparr> q_NamespaceID := ''ns'', q_Metadata := Some [(''queue'', ''jobs'')] \<rparr>"

theorem strict_take_fifo_witness:
  "\<exists>r \<in> set (waiting pg_quiet pg_jobs_q pg_demo). pr_id r = ''a'' \<and> (\<forall>r' \<in> set (waiting pg_quiet pg_jobs_q pg_demo). queued_before pg_quiet r r')"
proof -
  let ?take = "PgTake pg_strict_config (\<lambda>_. pg_quiet) pg_demo_store (Some pg_jobs_q)"
  have h: "cf_queueClaimMode pg_strict_config = QueueClaimModeStrict" "take_queue (Some pg_jobs_q) \<noteq> []"
    "trim_space (take_queue (Some pg_jobs_q)) = take_queue (Some pg_jobs_q)" "q_Status pg_jobs_q \<in> {[], StatusNew}"
    "try_lock pg_quiet" "few_args pg_jobs_q" "g_db pg_demo_store = pg_demo" by code_simp+
  have "case fst ?take of Inr (Some t) \<Rightarrow> a_ID t = ''a'' | _ \<Rightarrow> False" by code_simp
  then obtain t where t: "?take = (Inr (Some t), snd ?take)" "a_ID t = ''a''"
    by (cases ?take) (auto split: sum.splits option.splits)
  show ?thesis using strict_take_fifo[OF good_pg_demo h(1-5) t(1) h(6)] t(2) h(7) by auto
qed

section \<open>The atomic and the legacy claim\<close>

text \<open>A lease entry both ways of reading it agree on: no plus sign, and not so large that the duration overflows.\<close>

definition plain_entry :: "int \<Rightarrow> string option \<Rightarrow> bool" where
  "plain_entry bound v = (case v of None \<Rightarrow> True | Some s \<Rightarrow>
     (s \<noteq> [] \<longrightarrow> hd s \<noteq> CHR ''+'') \<and> (list_all is_digit s \<longrightarrow> digits_val s \<le> bound))"

definition plain_lease :: "pg_row \<Rightarrow> bool" where
  "plain_lease r \<longleftrightarrow> plain_entry 9223372036 (json_text (pr_metadata r) ''lease_sec'') \<and>
     plain_entry 9223372036854 (json_text (pr_metadata r) ''lease_ms'')"

lemma digits_val_nonneg: "list_all is_digit s \<Longrightarrow> 0 \<le> digits_val s"
proof (induction s rule: rev_induct)
  case (snoc c s)
  then show ?case by (simp add: digits_val_snoc digit_val_def is_digit_def)
qed (simp add: digits_val_def)

definition entry_value :: "string option \<Rightarrow> int option" where
  "entry_value v = (case v of None \<Rightarrow> None | Some s \<Rightarrow> (case atoi s of Some n \<Rightarrow> if 0 < n then Some n else None | None \<Rightarrow> None))"

lemma lease_number_plain:
  assumes "plain_entry bound (json_text meta k)" "bound \<le> 9223372036854775807"
  shows "lease_number meta k = Inr (entry_value (json_text meta k))"
    and "entry_value (json_text meta k) = Some n \<Longrightarrow> 0 < n \<and> n \<le> bound"
proof -
  have "lease_number meta k = Inr (entry_value (json_text meta k)) \<and> (\<forall>n. entry_value (json_text meta k) = Some n \<longrightarrow> 0 < n \<and> n \<le> bound)"
  proof (cases "json_text meta k")
    case None
    then show ?thesis by (simp add: lease_number_def entry_value_def)
  next
    case (Some s)
    consider (empty) "s = []" | (neg) cs where "s = CHR ''-'' # cs" | (plain) "s \<noteq> []" "hd s \<noteq> CHR ''-''" "hd s \<noteq> CHR ''+''"
      using assms(1) Some by (cases s) (auto simp: plain_entry_def)
    then show ?thesis
    proof cases
      case empty
      then show ?thesis using Some by (simp add: lease_number_def entry_value_def atoi_def)
    next
      case neg
      have "\<not> is_digit CHR ''-''" by (simp add: is_digit_def)
      then show ?thesis using Some neg digits_val_nonneg[of cs] by (auto simp: lease_number_def entry_value_def atoi_def Let_def split: if_splits)
    next
      case plain
      show ?thesis
      proof (cases "list_all is_digit s")
        case True
        then have "0 \<le> digits_val s" "digits_val s \<le> bound" using digits_val_nonneg assms(1) Some by (auto simp: plain_entry_def)
        then show ?thesis using Some plain True assms(2) by (simp add: lease_number_def entry_value_def atoi_def Let_def int64_range_def)
      next
        case False
        then show ?thesis using Some plain by (simp add: lease_number_def entry_value_def atoi_def Let_def)
      qed
    qed
  qed
  then show "lease_number meta k = Inr (entry_value (json_text meta k))"
    "entry_value (json_text meta k) = Some n \<Longrightarrow> 0 < n \<and> n \<le> bound" by blast+
qed

lemma lease_duration_entries:
  assumes "wf_pg_row r" "scanAgent r = Inr t"
  shows "leaseDurationForAgent (Some t) = (case entry_value (json_text (pr_metadata r) ''lease_sec'') of
      Some n \<Rightarrow> to_int64 (n * Second)
    | None \<Rightarrow> (case entry_value (json_text (pr_metadata r) ''lease_ms'') of
        Some n \<Rightarrow> to_int64 (n * Millisecond) | None \<Rightarrow> 300 * Second))"
proof -
  obtain kvs where "pr_metadata r = JObj kvs" using assms(1) by (auto simp: wf_pg_row_def split: json.splits)
  then obtain m where m: "a_Metadata t = Some m" "\<And>k. json_text (pr_metadata r) k = map_of m k"
    using json_text_metadata[OF assms(1)] pg_scan_fields(9)[OF assms(2)] by (auto simp: scan_metadata_def)
  then show ?thesis
    by (auto simp: leaseDurationForAgent_def Let_def entry_value_def DefaultLeaseOptions_def Minute_def Second_def split: option.splits)
qed

lemma lease_until_agrees:
  assumes "wf_pg_row r" "scanAgent r = Inr t" "plain_lease r" "int64_range now"
  shows "sql_lease_until (UnixMicro now) 300000 (pr_metadata r) = Inr (UnixMicro (now + leaseDurationForAgent (Some t)))"
proof -
  have now: "now div 1000 < 9223372036854776" using zdiv_mono1[of now 9223372036854775807 1000] assms(4) by (simp add: int64_range_def)
  have p: "plain_entry 9223372036 (json_text (pr_metadata r) ''lease_sec'')" "plain_entry 9223372036854 (json_text (pr_metadata r) ''lease_ms'')"
    using assms(3) by (simp_all add: plain_lease_def)
  note ns = lease_number_plain[OF p(1)] lease_number_plain[OF p(2)]
  have small: "to_int64 (n * Second) = n * 1000000 * 1000" if "0 < n" "n \<le> 9223372036" for n
    using that to_int64_id[of "n * Second"] by (simp add: Second_def int64_range_def)
  have small': "to_int64 (n * Millisecond) = n * 1000 * 1000" if "0 < n" "n \<le> 9223372036854" for n
    using that to_int64_id[of "n * Millisecond"] by (simp add: Millisecond_def int64_range_def)
  have add: "(now + us * 1000) div 1000 = now div 1000 + us" for us by simp
  show ?thesis
  proof (cases "entry_value (json_text (pr_metadata r) ''lease_sec'')")
    case (Some n)
    then have "0 < n" "n \<le> 9223372036" using ns(2) by auto
    then show ?thesis
      using Some ns(1) now small[of n] add[of "n * 1000000"]
      by (simp add: sql_lease_until_def lease_duration_entries[OF assms(1,2)] UnixMicro_def add_interval_def)
  next
    case None
    note sec = None
    show ?thesis
    proof (cases "entry_value (json_text (pr_metadata r) ''lease_ms'')")
      case (Some n)
      then have "0 < n" "n \<le> 9223372036854" using ns(4) by auto
      then show ?thesis
        using Some sec ns(1,3) now small'[of n] add[of "n * 1000"]
        by (simp add: sql_lease_until_def lease_duration_entries[OF assms(1,2)] UnixMicro_def add_interval_def)
    next
      case None
      then show ?thesis
        using sec ns(1,3) now add[of 300000000]
        by (simp add: sql_lease_until_def lease_duration_entries[OF assms(1,2)] UnixMicro_def add_interval_def Second_def)
    qed
  qed
qed

text \<open>C25: the legacy claim Take falls back to does what the atomic claim does.  For the same query, clock and
  token, and leases both can read, with the default lease the legacy code has built in, they choose the same
  agent and leave the same tables.\<close>

theorem atomic_equals_legacy:
  assumes "wf_pg d" "\<And>x. \<not> fault e x" "int64_range (clock e 0)" "defaultLeaseMs c = 300000"
    and "list_all (\<lambda>r. plain_lease r \<and> pr_version r \<noteq> 9223372036854775807) (pd_agents d)"
  shows "\<exists>x y. takeAtomicClaim c e w ag lock d = Inr x \<and> takeLegacyClaim e w ag lock d = Inr y \<and>
    map_option (\<lambda>(t, d'). (a_ID t, a_LeaseToken t, a_Version t, d')) x = map_option (\<lambda>(t, d'). (a_ID t, a_LeaseToken t, a_Version t, d')) y"
proof (cases "lockable e lock (pg_select e 0 w d)")
  case Nil
  then show ?thesis using assms(2) by (simp add: takeAtomicClaim_def takeLegacyClaim_def)
next
  case (Cons r rest)
  then have "r \<in> set (lockable e lock (pg_select e 0 w d))" by simp
  then have r: "r \<in> set (pd_agents d)" by (auto simp: lockable_def pg_select_def split: lock_clause.splits)
  have row: "pg_row_of d (pr_id r) = Some r" "wf_pg_row r" by (rule pg_row_of_in[OF assms(1) r], rule wf_pg_rowD[OF assms(1) r])
  obtain t where t: "scanAgent r = Inr t" using wf_pg_row_scan[OF row(2)] by blast
  have p: "plain_lease r" "pr_version r \<noteq> 9223372036854775807" using assms(5) r by (auto simp: list_all_iff)
  let ?until = "clock e 0 + leaseDurationForAgent (Some t)"
  let ?r' = "r \<lparr> pr_status := StatusInProgress, pr_owner := ag, pr_owner_time := Some (UnixMicro (clock e 0)),
     pr_lease_token := uuid e 0, pr_lease_until := Some (UnixMicro ?until), pr_updated_at := UnixMicro (clock e 0),
     pr_version := pr_version r + 1 \<rparr>"
  have sets: "claim_set (UnixMicro (clock e 0)) (defaultLeaseMs c) ag (uuid e 0) r = Inr ?r'"
    "legacy_set (clock e 0) ?until ag (uuid e 0) r = Inr ?r'"
    using lease_until_agrees[OF row(2) t p(1) assms(3)] p(2) assms(4)
    by (simp_all add: claim_set_def legacy_set_def sql_inc_def)
  have "wf_pg_row ?r'" using keeps_rowD[OF claim_set_keeps(2) sets(1)] row(2) by blast
  then obtain t' where t': "scanAgent ?r' = Inr t'" using wf_pg_row_scan by blast
  note u = one_row_update[OF assms(1) row(1) assms(2), of "\<lambda>x. pr_id x = pr_id r"]
  have atomic: "takeAtomicClaim c e w ag lock d = Inr (Some (t', set_row (pr_id r) ?r' d))"
    using Cons u[of "CClaim 0"] sets(1) t' by (simp add: takeAtomicClaim_def)
  have "sql_update e (CWrite 0) (\<lambda>x. pr_id x = a_ID t) (legacy_set (clock e 0) ?until ag (uuid e 0)) d = Inr ([?r'], set_row (pr_id r) ?r' d)"
    using pg_scan_fields(1)[OF t] assms(2) sets(2) filter_one_id[OF assms(1) _ r, of "\<lambda>x. pr_id x = pr_id r" "pr_id r"]
    by (simp add: sql_update_def upd_rows_one set_row_def)
  then have legacy: "\<exists>t2. takeLegacyClaim e w ag lock d = Inr (Some (t2, set_row (pr_id r) ?r' d)) \<and>
      a_ID t2 = pr_id r \<and> a_LeaseToken t2 = uuid e 0 \<and> a_Version t2 = to_int64 (pr_version r + 1)"
    using Cons t assms(2) pg_scan_fields(1,8)[OF t] by (simp add: takeLegacyClaim_def Let_def)
  have "to_int64 (pr_version r + 1) = pr_version r + 1" using row(2) p(2) inc_range by (simp add: wf_pg_row_def)
  then show ?thesis using atomic legacy pg_scan_fields(1,7,8)[OF t'] by auto
qed

theorem atomic_equals_legacy_witness:
  "\<exists>x y. takeAtomicClaim (pg_demo_config \<lparr> cf_leaseDuration := 300 * Second \<rparr>) pg_quiet ([PTTL], []) ''w1'' ForUpdate pg_demo = Inr (Some x) \<and>
    takeLegacyClaim pg_quiet ([PTTL], []) ''w1'' ForUpdate pg_demo = Inr (Some y) \<and> a_ID (fst x) = a_ID (fst y) \<and> snd x = snd y"
proof -
  let ?c = "pg_demo_config \<lparr> cf_leaseDuration := 300 * Second \<rparr>"
  have h: "int64_range (clock pg_quiet 0)" "defaultLeaseMs ?c = 300000"
    "list_all (\<lambda>r. plain_lease r \<and> pr_version r \<noteq> 9223372036854775807) (pd_agents pg_demo)" by code_simp+
  have "case takeAtomicClaim ?c pg_quiet ([PTTL], []) ''w1'' ForUpdate pg_demo of Inr x \<Rightarrow> x \<noteq> None | _ \<Rightarrow> False" by code_simp
  moreover obtain x y where "takeAtomicClaim ?c pg_quiet ([PTTL], []) ''w1'' ForUpdate pg_demo = Inr x"
    "takeLegacyClaim pg_quiet ([PTTL], []) ''w1'' ForUpdate pg_demo = Inr y"
    "map_option (\<lambda>(t, d'). (a_ID t, a_LeaseToken t, a_Version t, d')) x = map_option (\<lambda>(t, d'). (a_ID t, a_LeaseToken t, a_Version t, d')) y"
    using atomic_equals_legacy[OF wf_pg_demo pg_quiet_no_fault h, of "([PTTL], [])" "''w1''" ForUpdate] by blast
  ultimately show ?thesis by (cases x; cases y) auto
qed

end
