(* ===== verification/Pg_Background.thy ===== *)
theory Pg_Background
  imports Pg_Claims
begin

text \<open>
  The goroutines beside the transactions: the deferred writer loses and repeats no event as long as its rows fit
  the table, and the prefetchers stay within their buffers.
\<close>

section \<open>The deferred event writer\<close>

definition event_row :: "string \<Rightarrow> event \<times> string \<Rightarrow> pg_event_row option" where
  "event_row sh pe = map_option (\<lambda>j. pg_event_columns (fst pe) j (snd pe) sh) (event_data_json (e_Data (fst pe)))"

definition event_rows :: "string \<Rightarrow> (event \<times> string) list \<Rightarrow> pg_event_row list" where
  "event_rows sh pes = List.map_filter (event_row sh) pes"

text \<open>Rows that can all be inserted after those of the table.\<close>

definition rows_fit :: "pg_db \<Rightarrow> pg_event_row list \<Rightarrow> bool" where
  "rows_fit d rs \<longleftrightarrow> distinct (map (\<lambda>x. (pe_timestamp x, pe_id x)) (pd_events d @ rs)) \<and>
     (\<forall>r \<in> set rs. pe_timestamp r div micros_per_day \<in> set (pd_days d))"

lemma event_rows_simps [simp]: "event_rows sh [] = []"
  "event_rows sh (xs @ ys) = event_rows sh xs @ event_rows sh ys"
  by (simp_all add: event_rows_def List.map_filter_def)

lemma queue_pending_rows: "queue_pending sh pes batch = batch @ event_rows sh pes"
proof (induction sh pes batch rule: queue_pending.induct)
  case (2 sh ev ns pending batch)
  then show ?case
    by (cases "event_data_json (e_Data ev)") (simp_all add: queueInsertEvent_def event_rows_def event_row_def List.map_filter_simps)
qed simp

lemma send_batch_fits:
  "(\<And>x. \<not> fault e x) \<Longrightarrow> rows_fit d rs \<Longrightarrow> send_batch e i rs d = Inr (d \<lparr> pd_events := pd_events d @ rs \<rparr>)"
proof (induction rs arbitrary: i d)
  case (Cons r rs)
  then have "exec_insert_event e (CInsertEvent i) d r = Inr (d \<lparr> pd_events := pd_events d @ [r] \<rparr>)"
    by (auto simp: exec_insert_event_def rows_fit_def)
  moreover have "rows_fit (d \<lparr> pd_events := pd_events d @ [r] \<rparr>) rs" using Cons.prems(2) by (simp add: rows_fit_def)
  ultimately show ?case using Cons.IH[of "d \<lparr> pd_events := pd_events d @ [r] \<rparr>"] Cons.prems(1) by simp
qed simp

lemma flush_fits:
  assumes "\<And>x. \<not> fault e x" "rows_fit (g_db s) (event_rows (cf_shardID c) pes)"
  shows "flushEvents c e pes s = s \<lparr> g_db := (g_db s) \<lparr> pd_events := pd_events (g_db s) @ event_rows (cf_shardID c) pes \<rparr> \<rparr>"
  using send_batch_fits[OF assms] by (simp add: flushEvents_def queue_pending_rows)

text \<open>What the writer still has to write, in order.\<close>

definition unwritten :: "pg_config \<Rightarrow> pg_store \<Rightarrow> pg_event_row list" where
  "unwritten c s = event_rows (cf_shardID c) (g_buf s @ g_queue s)"

lemma rows_fit_prefix: "rows_fit d (xs @ ys) \<Longrightarrow> rows_fit d xs"
  by (auto simp: rows_fit_def)

lemma rows_fit_moved: "pd_events d' @ ys = pd_events d @ xs \<Longrightarrow> pd_days d' = pd_days d \<Longrightarrow> set ys \<subseteq> set xs \<Longrightarrow> rows_fit d xs \<Longrightarrow> rows_fit d' ys"
  unfolding rows_fit_def by auto

lemma writer_round_moves:
  fixes n :: nat and w :: writer_round
  assumes "\<And>x. \<not> fault e x" "rows_fit (g_db s) (unwritten c s)"
  defines "s' \<equiv> event_writer_round c e n w s"
  shows "pd_events (g_db s') @ unwritten c s' = pd_events (g_db s) @ unwritten c s"
    and "pd_days (g_db s') = pd_days (g_db s)" and "set (unwritten c s') \<subseteq> set (unwritten c s)"
    and "w = WDone \<Longrightarrow> g_buf s' = [] \<and> g_queue s' = []"
    and "w = WRecv \<Longrightarrow> g_queue s' = tl (g_queue s)"
    and "w = WTick \<Longrightarrow> g_buf s' = [] \<and> g_queue s' = g_queue s"
proof -
  have fit: "rows_fit (g_db s) (event_rows (cf_shardID c) (g_buf s))"
    using assms(2) rows_fit_prefix by (simp add: unwritten_def)
  have fl: "flushEvents c e (g_buf s) s = s \<lparr> g_db := (g_db s) \<lparr> pd_events := pd_events (g_db s) @ event_rows (cf_shardID c) (g_buf s) \<rparr> \<rparr>"
    by (rule flush_fits[OF assms(1) fit])
  have fa: "flushEvents c e (g_buf s @ g_queue s) s = s \<lparr> g_db := (g_db s) \<lparr> pd_events := pd_events (g_db s) @ unwritten c s \<rparr> \<rparr>"
    using flush_fits[OF assms(1), of s c "g_buf s @ g_queue s"] assms(2) by (simp add: unwritten_def)
  have fr: "flushEvents c e (g_buf s @ [pe]) (s \<lparr> g_queue := rest, g_buf := g_buf s @ [pe] \<rparr>) =
      s \<lparr> g_db := (g_db s) \<lparr> pd_events := pd_events (g_db s) @ event_rows (cf_shardID c) (g_buf s @ [pe]) \<rparr>, g_queue := rest, g_buf := g_buf s @ [pe] \<rparr>"
    if "g_queue s = pe # rest" for pe rest
  proof -
    have "event_rows (cf_shardID c) (g_buf s @ g_queue s) = event_rows (cf_shardID c) (g_buf s @ [pe]) @ event_rows (cf_shardID c) rest"
      using that event_rows_simps(2)[of "cf_shardID c" "g_buf s @ [pe]" rest] by simp
    then have "rows_fit (g_db s) (event_rows (cf_shardID c) (g_buf s @ [pe]))"
      using assms(2) rows_fit_prefix by (metis unwritten_def)
    then show ?thesis by (simp add: flush_fits[OF assms(1)])
  qed
  have cons: "event_rows (cf_shardID c) (pe # rest) = event_rows (cf_shardID c) [pe] @ event_rows (cf_shardID c) rest" for pe rest
    using event_rows_simps(2)[of "cf_shardID c" "[pe]" rest] by simp
  note d = s'_def event_writer_round_def unwritten_def
  have "pd_events (g_db s') @ unwritten c s' = pd_events (g_db s) @ unwritten c s \<and> pd_days (g_db s') = pd_days (g_db s) \<and>
      set (unwritten c s') \<subseteq> set (unwritten c s) \<and> (w = WDone \<longrightarrow> g_buf s' = [] \<and> g_queue s' = []) \<and>
      (w = WRecv \<longrightarrow> g_queue s' = tl (g_queue s)) \<and> (w = WTick \<longrightarrow> g_buf s' = [] \<and> g_queue s' = g_queue s)"
  proof (cases w)
    case WRecv
    show ?thesis
    proof (cases "g_queue s")
      case Nil
      then show ?thesis using WRecv by (simp add: d)
    next
      case (Cons pe rest)
      then show ?thesis using WRecv fr[OF Cons] cons[of pe rest] by (auto simp: d Let_def)
    qed
  next
    case WTick
    then show ?thesis using fl by (cases "g_buf s = []") (simp_all add: d)
  next
    case WDone
    then show ?thesis using fa by (simp add: d)
  qed
  then show "pd_events (g_db s') @ unwritten c s' = pd_events (g_db s) @ unwritten c s" "pd_days (g_db s') = pd_days (g_db s)"
    "set (unwritten c s') \<subseteq> set (unwritten c s)" "w = WDone \<Longrightarrow> g_buf s' = [] \<and> g_queue s' = []"
    "w = WRecv \<Longrightarrow> g_queue s' = tl (g_queue s)" "w = WTick \<Longrightarrow> g_buf s' = [] \<and> g_queue s' = g_queue s" by blast+
qed

fun writer_rounds :: "pg_config \<Rightarrow> (pg_env \<times> nat \<times> writer_round) list \<Rightarrow> pg_store \<Rightarrow> pg_store" where
  "writer_rounds c [] s = s"
| "writer_rounds c ((e, n, w) # ws) s = writer_rounds c ws (event_writer_round c e n w s)"

lemma writer_rounds_append: "writer_rounds c (xs @ ys) s = writer_rounds c ys (writer_rounds c xs s)"
  by (induction c xs s rule: writer_rounds.induct) simp_all

lemma writer_rounds_move:
  assumes "list_all (\<lambda>(e, _). \<forall>x. \<not> fault e x) ws" "rows_fit (g_db s) (unwritten c s)"
  shows "pd_events (g_db (writer_rounds c ws s)) @ unwritten c (writer_rounds c ws s) = pd_events (g_db s) @ unwritten c s \<and>
    rows_fit (g_db (writer_rounds c ws s)) (unwritten c (writer_rounds c ws s))"
  using assms
proof (induction c ws s rule: writer_rounds.induct)
  case (2 c e n w ws s)
  then have nf: "\<And>x. \<not> fault e x" by auto
  note m = writer_round_moves[OF nf "2.prems"(2), where n = n and w = w]
  show ?case using "2.IH" "2.prems" m(1) rows_fit_moved[OF m(1-3) "2.prems"(2)] by simp
qed simp

lemma recv_rounds_drain:
  "list_all (\<lambda>(e, _, w). (\<forall>x. \<not> fault e x) \<and> w = WRecv) ws \<Longrightarrow> rows_fit (g_db s) (unwritten c s) \<Longrightarrow>
     g_queue (writer_rounds c ws s) = drop (length ws) (g_queue s)"
proof (induction c ws s rule: writer_rounds.induct)
  case (2 c e n w ws s)
  then have nf: "\<And>x. \<not> fault e x" and w: "w = WRecv" by auto
  note m = writer_round_moves[OF nf "2.prems"(2), where n = n and w = w]
  show ?case
    using "2.IH" "2.prems" m(5)[OF w] rows_fit_moved[OF m(1-3) "2.prems"(2)] by (simp add: drop_Suc tl_drop)
qed simp

text \<open>C27: no deferred event is lost or written twice.  Whatever rounds the writer went through, its shutdown
  writes what is left, so that the table gains the rows of all queued events in their order; and without a
  shutdown, as many receives as there are queued events and one tick of the timer write them all.  The rows must
  fit the table and the statements succeed.\<close>

theorem deferred_events_written:
  assumes "rows_fit (g_db s) (unwritten c s)" "list_all (\<lambda>(e, _). \<forall>x. \<not> fault e x) ws" "\<And>x. \<not> fault e x"
    and "rounds = ws @ [(e, n, WDone)] \<or> rounds = replicate (length (g_queue s)) (e, n, WRecv) @ [(e, n, WTick)]"
  shows "pd_events (g_db (writer_rounds c rounds s)) = pd_events (g_db s) @ unwritten c s \<and>
    g_buf (writer_rounds c rounds s) = [] \<and> g_queue (writer_rounds c rounds s) = []"
proof -
  have all: "list_all (\<lambda>(e, _). \<forall>x. \<not> fault e x) rounds" using assms(2-4) by (fastforce simp: list_all_iff)
  have "g_buf (writer_rounds c rounds s) = [] \<and> g_queue (writer_rounds c rounds s) = []"
    using assms(4)
  proof
    assume r: "rounds = ws @ [(e, n, WDone)]"
    show ?thesis
      using writer_round_moves(4)[OF assms(3), of "writer_rounds c ws s" c WDone n] writer_rounds_move[OF assms(2,1)]
      by (simp add: r writer_rounds_append)
  next
    assume r: "rounds = replicate (length (g_queue s)) (e, n, WRecv) @ [(e, n, WTick)]"
    let ?ws = "replicate (length (g_queue s)) (e, n, WRecv)"
    have "list_all (\<lambda>(e, _). \<forall>x. \<not> fault e x) ?ws" "list_all (\<lambda>(e, _, w). (\<forall>x. \<not> fault e x) \<and> w = WRecv) ?ws"
      using assms(3) by (auto simp: list_all_iff)
    note w = writer_rounds_move[OF this(1) assms(1)] recv_rounds_drain[OF this(2) assms(1)]
    show ?thesis
      using writer_round_moves(6)[OF assms(3), of "writer_rounds c ?ws s" c WTick n] w
      by (simp add: r writer_rounds_append)
  qed
  then show ?thesis using writer_rounds_move[OF all assms(1)] by (simp add: unwritten_def)
qed

text \<open>A store with one deferred event.\<close>

definition pg_pending :: "int list \<Rightarrow> pg_store" where
  "pg_pending days = pg_demo_store \<lparr> g_db := pg_demo \<lparr> pd_days := days \<rparr>,
     g_queue := [(agent_event ''ev'' empty_agent EventCreated 5000000000 [] [], ''ns'')] \<rparr>"

theorem deferred_events_written_witness:
  "length (pd_events (g_db (writer_rounds pg_demo_config [(pg_quiet, 10, WRecv), (pg_quiet, 10, WTick)] (pg_pending [0])))) = 1"
proof -
  have fit: "rows_fit (g_db (pg_pending [0])) (unwritten pg_demo_config (pg_pending [0]))" by code_simp
  have "[(pg_quiet, 10, WRecv), (pg_quiet, 10, WTick)] = replicate (length (g_queue (pg_pending [0]))) (pg_quiet, 10, WRecv) @ [(pg_quiet, 10, WTick)]"
    by (simp add: pg_pending_def)
  from deferred_events_written[OF fit _ pg_quiet_no_fault disjI2[OF this], of "[]"]
  have "pd_events (g_db (writer_rounds pg_demo_config [(pg_quiet, 10, WRecv), (pg_quiet, 10, WTick)] (pg_pending [0]))) =
      pd_events (g_db (pg_pending [0])) @ unwritten pg_demo_config (pg_pending [0])" by simp
  moreover have "length (pd_events (g_db (pg_pending [0])) @ unwritten pg_demo_config (pg_pending [0])) = 1" by code_simp
  ultimately show ?thesis by simp
qed

section \<open>Prefetched candidates\<close>

definition prefetch_ok :: "pg_config \<Rightarrow> pg_store \<Rightarrow> bool" where
  "prefetch_ok c s \<longleftrightarrow> distinct (map fst (g_prefetchers s)) \<and>
     list_all (\<lambda>(key, pf). key = prefetchKey (pf_namespaceID pf) (pf_queueName pf) \<and>
       length (pf_candidates pf) \<le> (case cf_prefetch c of None \<Rightarrow> 0 | Some (bufferSize, _) \<Rightarrow> bufferSize)) (g_prefetchers s)"

lemma prefetch_ok_same: "g_prefetchers s' = g_prefetchers s \<Longrightarrow> prefetch_ok c s' = prefetch_ok c s"
  by (simp add: prefetch_ok_def)

lemma set_alist_update: "x \<in> set (AList.update k v al) \<Longrightarrow> x = (k, v) \<or> x \<in> set al"
  by (induction al) (auto split: if_splits)

lemma prefetch_ok_put:
  assumes "prefetch_ok c s" "key = prefetchKey (pf_namespaceID pf) (pf_queueName pf)"
    "length (pf_candidates pf) \<le> (case cf_prefetch c of None \<Rightarrow> 0 | Some (bufferSize, _) \<Rightarrow> bufferSize)"
  shows "prefetch_ok c (s \<lparr> g_prefetchers := AList.update key pf (g_prefetchers s) \<rparr>)"
  using assms set_alist_update by (fastforce simp: prefetch_ok_def list_all_iff distinct_update)

lemma prefetch_ok_at:
  "prefetch_ok c s \<Longrightarrow> map_of (g_prefetchers s) key = Some pf \<Longrightarrow> key = prefetchKey (pf_namespaceID pf) (pf_queueName pf) \<and>
     length (pf_candidates pf) \<le> (case cf_prefetch c of None \<Rightarrow> 0 | Some (bufferSize, _) \<Rightarrow> bufferSize)"
  by (auto simp: prefetch_ok_def list_all_iff dest: map_of_SomeD)

lemma tryGet_ok:
  assumes "prefetch_ok c s" "tryGet now ns queue s = (i, s')"
  shows "prefetch_ok c s'"
proof -
  let ?pf = "getOrStart now ns queue s"
  have pf: "prefetchKey ns queue = prefetchKey (pf_namespaceID ?pf) (pf_queueName ?pf)"
    "length (pf_candidates ?pf) \<le> (case cf_prefetch c of None \<Rightarrow> 0 | Some (bufferSize, _) \<Rightarrow> bufferSize)"
    using prefetch_ok_at[OF assms(1)] by (auto simp: getOrStart_def split: option.splits)
  obtain pf' where "s' = s \<lparr> g_prefetchers := AList.update (prefetchKey ns queue) pf' (g_prefetchers s) \<rparr>"
    "pf_namespaceID pf' = pf_namespaceID ?pf" "pf_queueName pf' = pf_queueName ?pf" "length (pf_candidates pf') \<le> length (pf_candidates ?pf)"
    using assms(2) by (auto simp: tryGet_def Let_def split: list.splits)
  then show ?thesis using prefetch_ok_put[OF assms(1), of "prefetchKey ns queue" pf'] pf by simp
qed

text \<open>Everything but the prefetchers themselves leaves them alone.\<close>

lemma enqueue_prefetchers [simp]: "g_prefetchers (enqueueEvent c e pe s) = g_prefetchers s"
  by (auto simp: enqueueEvent_def split: sum.splits)

lemma fold_prefetchers [simp]: "g_prefetchers (fold (enqueueEvent c e) pes s) = g_prefetchers s"
  "g_prefetchers (fold pg_notifySubscribers evs s) = g_prefetchers s"
  by (induction pes arbitrary: s; simp) (induction evs arbitrary: s; simp add: pg_notifySubscribers_def)

lemma tx_prefetchers: "g_prefetchers (snd (pg_tx c e s body)) = g_prefetchers s"
  by (auto simp: pg_tx_def after_commit_def Let_def signalWakeups_def split: sum.splits pg_end.splits)

lemma tx_prefetchers_pair: "pg_tx c e s body = (r, s') \<Longrightarrow> g_prefetchers s' = g_prefetchers s"
  using tx_prefetchers[of c e s body] by simp

lemma flush_prefetchers [simp]: "g_prefetchers (flushEvents c e pes s) = g_prefetchers s"
  by (auto simp: flushEvents_def split: sum.splits)

lemma writer_prefetchers: "g_prefetchers (event_writer_round c e n w s) = g_prefetchers s"
  by (auto simp: event_writer_round_def Let_def split: writer_round.splits list.splits)

lemma batch_prefetchers: "g_prefetchers (batch_events c e ag i ts s) = g_prefetchers s"
  by (induction c e ag i ts s rule: batch_events.induct) (auto simp: Let_def pg_notifySubscribers_def split: sum.splits)

lemma take_prefetchers: "g_prefetchers (snd (take_by_query c es s qo)) = g_prefetchers s"
  "g_prefetchers (snd (takeStrictQueueHead c e s qo queue ag)) = g_prefetchers s"
  "g_prefetchers (snd (claimByID c e s i ag)) = g_prefetchers s"
proof -
  have t: "g_prefetchers s2 = g_prefetchers s1" if "takeWithStrategy c e s1 queue ag f = (r, s2)" for e s1 queue ag f r s2
    using tx_prefetchers that unfolding takeWithStrategy_def by (metis snd_conv)
  show "g_prefetchers (snd (take_by_query c es s qo)) = g_prefetchers s"
    by (auto simp: take_by_query_def Let_def dest!: t split: prod.splits sum.splits)
      (metis prod.collapse t)
  show "g_prefetchers (snd (takeStrictQueueHead c e s qo queue ag)) = g_prefetchers s"
    "g_prefetchers (snd (claimByID c e s i ag)) = g_prefetchers s"
    by (simp_all add: takeStrictQueueHead_def takeWithStrategy_def claimByID_def tx_prefetchers)
qed

lemma attempts_ok: "prefetch_ok c s \<Longrightarrow> prefetch_ok c (snd (prefetch_attempts c es ns queue ag i n s))"
proof (induction n arbitrary: i s)
  case (Suc n)
  obtain cand s1 where g: "tryGet (clock (es i) 2) ns queue s = (cand, s1)" by force
  obtain r s2 where cl: "claimByID c (es i) s1 cand ag = (r, s2)" by force
  have ok: "prefetch_ok c s1" "prefetch_ok c s2"
    using tryGet_ok[OF Suc.prems g] prefetch_ok_same[of s2 s1] take_prefetchers(3)[of c "es i" s1 cand ag] cl by simp_all
  show ?case using Suc.IH[OF ok(2)] ok g cl by (simp split: sum.split option.split)
qed simp

lemma take_ok: "prefetch_ok c s \<Longrightarrow> prefetch_ok c (snd (PgTake c es s qo))"
proof -
  assume ok: "prefetch_ok c s"
  obtain r s1 where p: "takePrefetched c es s (query_namespace qo) (take_queue qo) (take_agent_id qo) = (r, s1)" by force
  have "prefetch_ok c s1" using attempts_ok[OF ok] p unfolding takePrefetched_def by (metis snd_conv)
  then show ?thesis using ok p
    by (auto simp: PgTake_def Let_def prefetch_ok_same[OF take_prefetchers(1)] prefetch_ok_same[OF take_prefetchers(2)] split: sum.split option.split)
qed

lemma tick_ok:
  assumes "prefetch_ok c s"
  shows "prefetch_ok c (prefetch_run c e key s)"
proof (cases "cf_prefetch c")
  case (Some cb)
  obtain cap bs where cb: "cb = (cap, bs)" by force
  have feed: "length (pf_candidates (feed cap pf)) \<le> cap \<and> pf_namespaceID (feed cap pf) = pf_namespaceID pf \<and> pf_queueName (feed cap pf) = pf_queueName pf"
    if "length (pf_candidates pf) \<le> cap" for pf using that by (simp add: feed_def Let_def)
  show ?thesis
  proof (cases "map_of (g_prefetchers s) key")
    case None
    then show ?thesis using assms Some cb by (simp add: prefetch_run_def)
  next
    case pf: (Some pf)
    let ?pf' = "prefetch_tick e cap bs (g_db s) pf"
    have at: "key = prefetchKey (pf_namespaceID pf) (pf_queueName pf)" "length (pf_candidates pf) \<le> cap"
      using prefetch_ok_at[OF assms pf] Some cb by simp_all
    then have "length (pf_candidates ?pf') \<le> cap \<and> pf_namespaceID ?pf' = pf_namespaceID pf \<and> pf_queueName ?pf' = pf_queueName pf"
      using feed by (auto simp: prefetch_tick_def split: sum.split)
    then show ?thesis using prefetch_ok_put[OF assms, of key ?pf'] at pf Some cb by (simp add: prefetch_run_def)
  qed
qed (use assms in \<open>simp add: prefetch_run_def\<close>)

lemma evict_ok: "prefetch_ok c s \<Longrightarrow> prefetch_ok c (evictIdle now s)"
  by (auto simp: prefetch_ok_def evictIdle_def list_all_iff distinct_map_filter)

lemma exec_ok: "prefetch_ok c s \<Longrightarrow> prefetch_ok c (pg_exec c op s)"
proof -
  assume ok: "prefetch_ok c s"
  obtain es p where op: "op = (es, p)" by force
  have same: "g_prefetchers (pg_exec c op s) = g_prefetchers s" if "\<forall>q. p \<noteq> PoTake q" "\<forall>k. p \<noteq> PoPrefetch k" "p \<noteq> PoEvict"
    using that op
    by (cases p) (auto simp: PgOut_def PgUpdateAndGet_def PgCompleteAndGet_def PgCompleteAndOut_def PgReleaseAndGet_def PgRenewLease_def
        PgBatchTake_def pg_reapExpiredLeases_def Let_def tx_prefetchers batch_prefetchers writer_prefetchers
        dest: tx_prefetchers_pair split: option.split sum.split prod.split)
  show ?thesis
  proof (cases "(\<exists>q. p = PoTake q) \<or> (\<exists>k. p = PoPrefetch k) \<or> p = PoEvict")
    case True
    then show ?thesis using op take_ok[OF ok] tick_ok[OF ok] evict_ok[OF ok] by auto
  next
    case False
    then show ?thesis using ok prefetch_ok_same[OF same] by simp
  qed
qed


text \<open>A store with a prefetcher for the queue \<^verbatim>\<open>jobs\<close>.\<close>

definition pg_prefetch_config :: pg_config where
  "pg_prefetch_config = pg_demo_config \<lparr> cf_prefetch := Some (64, 32) \<rparr>"

definition pg_prefetching :: "string list \<Rightarrow> pg_store" where
  "pg_prefetching ids = pg_demo_store \<lparr> g_prefetchers := [(''ns|jobs'', \<lparr> pf_namespaceID = ''ns'', pf_queueName = ''jobs'',
     pf_candidates = ids, pf_pending = [], pf_lastAccess = 0 \<rparr>)] \<rparr>"


end
