(* ===== verification/Pg_Findings.thy ===== *)
theory Pg_Findings
  imports Pg_Background
begin

text \<open>
  Behaviour of the Postgres store that its callers would not expect, each proved for all inputs of the kind.
\<close>

section \<open>Where the backend departs from its intent\<close>

lemma claim_set_ok:
  assumes "pr_version r \<noteq> 9223372036854775807" "sql_lease_until now ms (pr_metadata r) = Inr u"
  shows "claim_set now ms ag tok r = Inr (r \<lparr> pr_status := StatusInProgress, pr_owner := ag, pr_owner_time := Some now,
    pr_lease_token := tok, pr_lease_until := Some u, pr_updated_at := now, pr_version := pr_version r + 1 \<rparr>)"
  using assms by (simp add: claim_set_def sql_inc_def)

text \<open>A row that can be claimed: its lease and version are in range and the CLAIMED event can be written.\<close>

definition claim_room :: "pg_config \<Rightarrow> pg_env \<Rightarrow> pg_db \<Rightarrow> pg_row \<Rightarrow> bool" where
  "claim_room c e d r \<longleftrightarrow> pr_version r \<noteq> 9223372036854775807 \<and>
     (\<exists>u. sql_lease_until (UnixMicro (clock e 0)) (defaultLeaseMs c) (pr_metadata r) = Inr u) \<and>
     (cf_deferEvents c \<or> (UnixMicro (clock e 1) div micros_per_day \<in> set (pd_days d) \<and>
        (UnixMicro (clock e 1), uuid e 1) \<notin> (\<lambda>x. (pe_timestamp x, pe_id x)) ` set (pd_events d)))"

lemma claim_goes_through:
  assumes "wf_pg d" "pg_row_of d i = Some r" "\<And>x. \<not> fault e x" "claim_room c e d r" "\<And>x. P x \<Longrightarrow> pr_id x = i" "P r"
  shows "\<exists>t d' cm. bindr (bindr (sql_update e (CClaim 0) P
      (claim_set (UnixMicro (clock e 0)) (defaultLeaseMs c) ag (uuid e 0)) d) scan_returned) (claim_commit c e ag) =
    Inr (PgCommit (Some t) d' cm) \<and> a_ID t = i \<and> a_Owner t = ag \<and> a_LeaseToken t = uuid e 0 \<and> a_Status t = StatusInProgress"
proof -
  obtain u where u: "sql_lease_until (UnixMicro (clock e 0)) (defaultLeaseMs c) (pr_metadata r) = Inr u"
    using assms(4) by (auto simp: claim_room_def)
  let ?r' = "r \<lparr> pr_status := StatusInProgress, pr_owner := ag, pr_owner_time := Some (UnixMicro (clock e 0)),
    pr_lease_token := uuid e 0, pr_lease_until := Some u, pr_updated_at := UnixMicro (clock e 0), pr_version := pr_version r + 1 \<rparr>"
  have set: "claim_set (UnixMicro (clock e 0)) (defaultLeaseMs c) ag (uuid e 0) r = Inr ?r'"
    using claim_set_ok[OF _ u] assms(4) by (simp add: claim_room_def)
  have r: "r \<in> set (pd_agents d)" "pr_id r = i" using pg_row_of_SomeD[OF assms(2)] by blast+
  have "wf_pg_row ?r'" using keeps_rowD[OF claim_set_keeps(2) set] wf_pg_rowD[OF assms(1) r(1)] by blast
  then obtain t where t: "scanAgent ?r' = Inr t" using wf_pg_row_scan by blast
  have upd: "bindr (sql_update e (CClaim 0) P (claim_set (UnixMicro (clock e 0)) (defaultLeaseMs c) ag (uuid e 0)) d) scan_returned =
      Inr (Some (t, set_row i ?r' d))"
    using one_row_update[of d i r e "CClaim 0" P, OF assms(1,2,3,5)] assms(6) set t by simp
  let ?ev = "agent_event (uuid e 1) t EventClaimed (clock e 1) ag (event_data c t StatusInProgress [(''agent_id'', EVal (VStr ag))])"
  have "\<exists>d2. append_event c e 0 (set_row i ?r' d) ?ev (a_NamespaceID t) = Inr d2"
    using assms(3,4) by (auto simp: append_event_def claim_room_def insertEvent_def agent_event_def event_data_def event_data_json_def
        event_val_json_def exec_insert_event_def pg_event_columns_def)
  then show ?thesis using upd pg_scan_fields(1,3,4,7)[OF t] r(2) by (auto simp: claim_commit_def Let_def)
qed

lemma pg_tx_commit_ex:
  "(\<And>x. \<not> fault e x) \<Longrightarrow> body (g_db s) = Inr (PgCommit x d cm) \<Longrightarrow> \<exists>s'. pg_tx c e s body = (Inr x, s')"
  by (simp add: pg_tx_def)

text \<open>A claim of a prefetched candidate ignores the query.  When the buffer for the namespace and queue of the
  query has a candidate that is still new, Take returns it, whatever kind, owner, trace, tags and further metadata
  the query asks for, and whatever namespace the prefetcher really serves.\<close>

theorem prefetched_claim_ignores_query:
  assumes "good_pg s" "\<And>x. \<not> fault (es 0) x" "q_Status q \<in> {[], StatusNew}"
    and "cf_queueClaimMode c \<noteq> QueueClaimModeStrict" "cf_prefetch c \<noteq> None" "take_queue (Some q) \<noteq> []"
    and "map_of (g_prefetchers s) (prefetchKey (q_NamespaceID q) (take_queue (Some q))) = Some pf"
    and "pf_candidates pf = i # rest" "i \<noteq> []" "pg_row_of (g_db s) i = Some r" "pr_status r = StatusNew"
    and "pg_alive (db_now (es 0) 0) r" "claim_room c (es 0) (g_db s) r"
  shows "\<exists>t s'. PgTake c es s (Some q) = (Inr (Some t), s') \<and> a_ID t = i \<and> a_Owner t = take_agent_id (Some q)"
proof -
  let ?ag = "take_agent_id (Some q)" and ?e = "es 0" and ?ns = "q_NamespaceID q" and ?queue = "take_queue (Some q)"
  obtain s1 where g: "tryGet (clock ?e 2) ?ns ?queue s = (i, s1)" "g_db s1 = g_db s"
    using assms(7,8) by (simp add: tryGet_def getOrStart_def Let_def)
  have wf: "wf_pg (g_db s1)" using assms(1) g(2) by (simp add: good_pg_def)
  let ?P = "\<lambda>r. pr_id r = i \<and> pr_status r = StatusNew \<and> pg_alive (db_now ?e 0) r"
  have "\<exists>t d' cm. bindr (bindr (sql_update ?e (CClaim 0) ?P
      (claim_set (UnixMicro (clock ?e 0)) (defaultLeaseMs c) ?ag (uuid ?e 0)) (g_db s1)) scan_returned) (claim_commit c ?e ?ag) =
    Inr (PgCommit (Some t) d' cm) \<and> a_ID t = i \<and> a_Owner t = ?ag \<and> a_LeaseToken t = uuid ?e 0 \<and> a_Status t = StatusInProgress"
    by (rule claim_goes_through[OF wf]) (use assms g(2) pg_row_of_SomeD[OF assms(10)] in auto)
  then obtain t d' cm where b: "bindr (bindr (sql_update ?e (CClaim 0) ?P
      (claim_set (UnixMicro (clock ?e 0)) (defaultLeaseMs c) ?ag (uuid ?e 0)) (g_db s1)) scan_returned) (claim_commit c ?e ?ag) =
    Inr (PgCommit (Some t) d' cm)" "a_ID t = i" "a_Owner t = ?ag" by blast
  have "\<exists>s2. claimByID c ?e s1 i ?ag = (Inr (Some t), s2)"
    unfolding claimByID_def by (rule pg_tx_commit_ex) (use assms(2) b(1)[unfolded bindr_assoc] in simp_all)
  then obtain s2 where "claimByID c ?e s1 i ?ag = (Inr (Some t), s2)" by blast
  then have "takePrefetched c es s ?ns ?queue ?ag = (Inr (Some t), s2)"
    using g(1) assms(9) by (simp add: takePrefetched_def numeral_3_eq_3)
  then show ?thesis
    using assms(3-6) b(2,3) by (auto simp: PgTake_def Let_def query_namespace_def)
qed

text \<open>The query asks for another kind than the candidate has.\<close>

theorem prefetched_claim_ignores_query_witness:
  "pr_kind (pg_demo_row ''a'' ''NEW'' 100) \<noteq> ''other'' \<and>
   (\<exists>t s'. PgTake pg_prefetch_config (\<lambda>_. pg_quiet) (pg_prefetching [''a'']) (Some (pg_jobs_q \<lparr> q_Kind := ''other'' \<rparr>)) = (Inr (Some t), s') \<and> a_ID t = ''a'')"
proof -
  let ?q = "pg_jobs_q \<lparr> q_Kind := ''other'' \<rparr>" and ?s = "pg_prefetching [''a'']" and ?r = "pg_demo_row ''a'' ''NEW'' 100"
  have g: "good_pg ?s" using good_pg_demo by (simp add: good_pg_def pg_prefetching_def)
  have h: "q_Status ?q \<in> {[], StatusNew}" "cf_queueClaimMode pg_prefetch_config \<noteq> QueueClaimModeStrict" "cf_prefetch pg_prefetch_config \<noteq> None"
    "take_queue (Some ?q) \<noteq> []"
    "map_of (g_prefetchers ?s) (prefetchKey (q_NamespaceID ?q) (take_queue (Some ?q))) =
      Some \<lparr> pf_namespaceID = ''ns'', pf_queueName = ''jobs'', pf_candidates = [''a''], pf_pending = [], pf_lastAccess = 0 \<rparr>"
    "pg_row_of (g_db ?s) ''a'' = Some ?r" "pr_status ?r = StatusNew" "pg_alive (db_now pg_quiet 0) ?r" "pr_kind ?r \<noteq> ''other''" by code_simp+
  have "sql_lease_until (UnixMicro (clock pg_quiet 0)) (defaultLeaseMs pg_prefetch_config) (pr_metadata ?r) = Inr 15000000"
    "pr_version ?r \<noteq> 9223372036854775807" "UnixMicro (clock pg_quiet 1) div micros_per_day \<in> set (pd_days (g_db ?s))"
    "pd_events (g_db ?s) = []" by code_simp+
  then have room: "claim_room pg_prefetch_config pg_quiet (g_db ?s) ?r" by (auto simp: claim_room_def)
  show ?thesis
    using prefetched_claim_ignores_query[OF g pg_quiet_no_fault h(1-5) _ _ h(6-8) room, of "[]"] h(9) by auto
qed

text \<open>Take without a query takes agents away from their holders.  The WHERE condition then only asks for an
  unexpired agent, so the oldest one is claimed for the empty owner with a new token, even when another worker
  holds it or it is completed.\<close>

theorem PgTake_nil_steals:
  assumes "good_pg s" "\<And>x. \<not> fault (es 3) x" "\<And>i. \<not> row_locked (es 3) i"
    and "pg_order (es 3) (filter (pg_alive (db_now (es 3) 0)) (pd_agents (g_db s))) = r # rest" "claim_room c (es 3) (g_db s) r"
  shows "\<exists>t s'. PgTake c es s None = (Inr (Some t), s') \<and> a_ID t = pr_id r \<and> a_Owner t = [] \<and>
    a_LeaseToken t = uuid (es 3) 0 \<and> a_Status t = StatusInProgress"
proof -
  let ?e = "es 3" and ?w = "buildWhereClauses None True"
  have wf: "wf_pg (g_db s)" using assms(1) by (simp add: good_pg_def)
  have sel: "lockable ?e ForUpdateSkipLocked (pg_select ?e 0 ?w (g_db s)) = r # rest"
    using assms(3,4) by (simp add: lockable_def pg_select_def build_where_nil[abs_def])
  have "r \<in> set (filter (pg_alive (db_now ?e 0)) (pd_agents (g_db s)))" using assms(4) by (metis list.set_intros(1) set_pg_order)
  then have row: "pg_row_of (g_db s) (pr_id r) = Some r" using pg_row_of_in[OF wf] by simp
  obtain t d' cm where b: "bindr (bindr (sql_update ?e (CClaim 0) (\<lambda>x. pr_id x = pr_id r)
      (claim_set (UnixMicro (clock ?e 0)) (defaultLeaseMs c) [] (uuid ?e 0)) (g_db s)) scan_returned) (claim_commit c ?e []) =
    Inr (PgCommit (Some t) d' cm)" and t: "a_ID t = pr_id r" "a_Owner t = []" "a_LeaseToken t = uuid ?e 0" "a_Status t = StatusInProgress"
    using claim_goes_through[OF wf row assms(2,5), of "\<lambda>x. pr_id x = pr_id r" "[]"] by auto
  have "\<exists>s'. takeWithStrategy c ?e s [] [] (takeAtomicClaim c ?e ?w []) = (Inr (Some t), s')"
    unfolding takeWithStrategy_def
    by (rule pg_tx_commit_ex) (use assms(2) b sel in \<open>simp_all add: resolveTakeLockClause_def takeAtomicClaim_def\<close>)
  then show ?thesis using t
    by (auto simp: PgTake_def take_by_query_def Let_def take_queue_def take_agent_id_def)
qed

theorem PgTake_nil_steals_witness:
  "pr_owner pg_held_row = ''w1'' \<and>
   (\<exists>t s'. PgTake pg_demo_config (\<lambda>_. pg_quiet) (pg_held pg_held_row) None = (Inr (Some t), s') \<and> a_ID t = ''a'' \<and> a_Owner t = [])"
proof -
  let ?s = "pg_held pg_held_row"
  have h: "pg_order pg_quiet (filter (pg_alive (db_now pg_quiet 0)) (pd_agents (g_db ?s))) = [pg_held_row]" "pr_id pg_held_row = ''a''"
    "pr_owner pg_held_row = ''w1''" by code_simp+
  have "sql_lease_until (UnixMicro (clock pg_quiet 0)) (defaultLeaseMs pg_demo_config) (pr_metadata pg_held_row) = Inr 15000000"
    "pr_version pg_held_row \<noteq> 9223372036854775807" "UnixMicro (clock pg_quiet 1) div micros_per_day \<in> set (pd_days (g_db ?s))"
    "pd_events (g_db ?s) = []" by code_simp+
  then have room: "claim_room pg_demo_config pg_quiet (g_db ?s) pg_held_row" by (auto simp: claim_room_def)
  have "\<not> row_locked pg_quiet i" for i by (simp add: pg_quiet_def)
  from PgTake_nil_steals[OF good_pg_held(1) pg_quiet_no_fault this h(1) room] show ?thesis using h(2,3) by auto
qed

text \<open>An agent without a payload can be claimed but never completed.  Its payload column is the JSON null, on
  which the UPDATE of Complete fails, whatever the result, so that only CompleteAndOut or the reaper end its lease.\<close>

theorem nil_payload_never_completes:
  assumes "good_pg s" "\<And>x. \<not> fault e x" "pg_row_of (g_db s) i = Some r" "pr_payload r = JNull"
    and "lease_row e i ag tok r" "ag \<noteq> []" "tok \<noteq> []" "marshal_map (or_nil res) \<noteq> None"
  shows "PgCompleteAndGet c e s i ag tok res = (Inl (ErrSQL ''22023''), s)"
proof -
  obtain j where j: "marshal_map (or_nil res) = Some j" using assms(8) by auto
  have P: "\<And>x. lease_row e i ag tok x \<Longrightarrow> pr_id x = i" by (simp add: lease_row_def)
  have "wf_pg (g_db s)" using assms(1) by (simp add: good_pg_def)
  from one_row_update[of "g_db s" i r e "CWrite 0" "lease_row e i ag tok" "complete_set (clock e 0) j (completion_meta ag tok (clock e 0))", OF this assms(3,2) P]
  have "pg_complete_tx c e i ag tok res (g_db s) = Inl (ErrSQL ''22023'')"
    using assms(4,5) j by (simp add: pg_complete_tx_def Let_def complete_set_def jsonb_set_def)
  then show ?thesis using assms(2,6,7) by (simp add: PgCompleteAndGet_def pg_tx_def)
qed

theorem nil_payload_never_completes_witness:
  "fst (PgCompleteAndGet pg_demo_config pg_quiet (pg_held (pg_held_row \<lparr> pr_payload := JNull \<rparr>)) ''a'' ''w1'' ''tok'' None) = Inl (ErrSQL ''22023'')"
proof -
  let ?r = "pg_held_row \<lparr> pr_payload := JNull \<rparr>"
  have h: "pg_row_of (g_db (pg_held ?r)) ''a'' = Some ?r" "pr_payload ?r = JNull" "lease_row pg_quiet ''a'' ''w1'' ''tok'' ?r"
    "marshal_map (or_nil None) \<noteq> None" by code_simp+
  show ?thesis using nil_payload_never_completes[OF good_pg_held(2) pg_quiet_no_fault h(1-3) _ _ h(4)] by simp
qed

text \<open>RenewLease ignores the duration it is asked for when the agent's metadata names a lease: the new lease
  ends where the metadata says, for every requested duration alike.\<close>

theorem renew_ignores_duration:
  assumes "pg_row_of (g_db s) i = Some r" "good_pg s" "json_text (pr_metadata r) ''lease_sec'' = Some v" "v \<noteq> []" "list_all is_digit v"
    and "0 < digits_val v"
  shows "PgRenewLease c e s i ag tok dur = PgRenewLease c e s i ag tok dur'"
proof -
  have set: "renew_set now ms r = renew_set now ms' r" for now ms ms'
    using assms(3-6) by (simp add: renew_set_def sql_lease_until_def lease_number_def)
  have wf: "wf_pg (g_db s)" using assms(2) by (simp add: good_pg_def)
  have P: "\<And>x. lease_row e i ag tok x \<Longrightarrow> pr_id x = i" by (simp add: lease_row_def)
  have u: "bindr (sql_update e (CWrite 0) (lease_row e i ag tok) (renew_set now ms) (g_db s)) scan_returned =
      bindr (sql_update e (CWrite 0) (lease_row e i ag tok) (renew_set now ms') (g_db s)) scan_returned" for now ms ms'
  proof (cases "fault e (CWrite 0)")
    case False
    then show ?thesis using one_row_update[OF wf assms(1) False P] set[of now ms ms'] by simp
  qed (simp add: sql_update_def)
  have "pg_renew_tx c e i ag tok dur (g_db s) = pg_renew_tx c e i ag tok dur' (g_db s)"
    unfolding pg_renew_tx_def Let_def by (rule arg_cong2[where f = bindr, OF u refl])
  then show ?thesis by (simp add: PgRenewLease_def pg_tx_def)
qed

theorem renew_ignores_duration_witness:
  "PgRenewLease pg_demo_config pg_quiet (pg_held pg_held_row) ''a'' ''w1'' ''tok'' (3600 * Second) =
   PgRenewLease pg_demo_config pg_quiet (pg_held pg_held_row) ''a'' ''w1'' ''tok'' Second"
proof -
  have h: "pg_row_of (g_db (pg_held pg_held_row)) ''a'' = Some pg_held_row" "json_text (pr_metadata pg_held_row) ''lease_sec'' = Some ''10''"
    "list_all is_digit ''10''" "0 < digits_val ''10''" by code_simp+
  show ?thesis by (rule renew_ignores_duration[OF h(1) good_pg_held(1) h(2) _ h(3,4)]) simp
qed

lemma ensure_days:
  "ensureDailyPartitions e AgentEvents start i n k d = (None, d') \<Longrightarrow> set (pd_days d') = set (pd_days d) \<union> {start + int i ..< start + int (i + n)}"
  "ensureDailyPartitions e TelemetryEvents start i n k d = (None, d') \<Longrightarrow> pd_days d' = pd_days d"
  by (induction n arbitrary: i k d) (auto split: if_splits)

text \<open>The event table only has partitions for the eight days from the start of the process.  A fresh schema
  gets exactly those, nothing adds later ones, and from the ninth day on every Out that is not deferring its event
  fails.\<close>

theorem events_fail_after_eight_days:
  assumes "initSchema e d0 = (None, d1)" "pd_days d0 = []" "pd_days (g_db s) = pd_days d1"
    and "\<not> cf_deferEvents c" "truncateToUTCDate (clock e 0) + 8 \<le> truncateToUTCDate (clock e' 2)"
  shows "set (pd_days d1) = {truncateToUTCDate (clock e 0) ..< truncateToUTCDate (clock e 0) + 8} \<and>
    (\<exists>er. PgOut c e' s t = (Inl er, s))"
proof -
  let ?day = "truncateToUTCDate (clock e 0)"
  obtain d where "ensureDailyPartitions e AgentEvents ?day 0 8 0 d0 = (None, d)" "ensureDailyPartitions e TelemetryEvents ?day 0 8 8 d = (None, d1)"
    using assms(1) by (auto simp: initSchema_def ensureEventPartitions_def Let_def split: prod.splits option.splits)
  then have days: "set (pd_days d1) = {?day ..< ?day + 8}" using ensure_days assms(2) by fastforce
  have ap: "\<exists>er. append_event c e' 0 d2 ev ns = Inl er" if "pd_days d2 = pd_days (g_db s)" "e_Timestamp ev = clock e' 2" for d2 ev ns
    using that assms(3-5) days
    by (auto simp: append_event_def insertEvent_def exec_insert_event_def pg_event_columns_def truncateToUTCDate_def split: option.splits)
  have "\<exists>er. pg_out_tx c e' t (g_db s) = Inl er"
  proof (cases "upsertAgent e' (CWrite 0) (g_db s) (with_shard c (defaults_out e' 0 t))")
    case (Inr x)
    obtain u d2 where x: "x = (u, d2)" by force
    then have "pd_days d2 = pd_days (g_db s)" using Inr by (auto simp: upsertAgent_def Let_def bindr_eq_Inr split: if_splits)
    then have "\<exists>er. append_event c e' 0 d2 (agent_event a u b (clock e' 2) ag dat) ns = Inl er" for a b ag dat ns
      using ap by (simp add: agent_event_def)
    then show ?thesis unfolding pg_out_tx_def Let_def Inr x bindr_simps prod.case by (metis bindr_simps(1))
  qed (simp add: pg_out_tx_def Let_def)
  then show ?thesis using days by (auto simp: PgOut_def pg_tx_def)
qed

theorem events_fail_after_eight_days_witness:
  "\<exists>er. PgOut pg_demo_config (pg_later CHR ''x'' (8 * 86400 * Second) (\<lambda>_. False))
     (pg_demo_store \<lparr> g_db := snd (initSchema pg_quiet (pg_demo \<lparr> pd_days := [] \<rparr>)) \<rparr>) empty_agent =
   (Inl er, pg_demo_store \<lparr> g_db := snd (initSchema pg_quiet (pg_demo \<lparr> pd_days := [] \<rparr>)) \<rparr>)"
proof -
  let ?d = "pg_demo \<lparr> pd_days := [] \<rparr>" and ?e = "pg_later CHR ''x'' (8 * 86400 * Second) (\<lambda>_. False)"
  have h: "fst (initSchema pg_quiet ?d) = None" "\<not> cf_deferEvents pg_demo_config" "truncateToUTCDate (clock pg_quiet 0) + 8 \<le> truncateToUTCDate (clock ?e 2)"
    by code_simp+
  then have "initSchema pg_quiet ?d = (None, snd (initSchema pg_quiet ?d))" by (metis prod.collapse)
  from events_fail_after_eight_days[OF this _ _ h(2,3), of "pg_demo_store \<lparr> g_db := snd (initSchema pg_quiet ?d) \<rparr>"] show ?thesis by simp
qed

lemma send_batch_bad:
  "r \<in> set rs \<Longrightarrow> pe_timestamp r div micros_per_day \<notin> set (pd_days d) \<Longrightarrow> \<exists>er. send_batch e i rs d = Inl er"
proof (induction rs arbitrary: i d)
  case (Cons x rs)
  have same: "exec_insert_event e (CInsertEvent i) d x = Inr d1 \<Longrightarrow> pd_days d1 = pd_days d" for d1
    by (auto simp: exec_insert_event_def split: if_splits)
  show ?case
  proof (cases "exec_insert_event e (CInsertEvent i) d x")
    case (Inr d1)
    then have "r \<noteq> x" using Cons.prems(2) by (auto simp: exec_insert_event_def split: if_splits)
    then show ?thesis using Cons.IH[of d1] Cons.prems same[OF Inr] Inr by simp
  qed simp
qed simp

text \<open>One event that cannot be written takes its whole batch with it.  When the table has no partition for the
  day of one pending event, the writer gives up every event it holds, and no later round brings them back.\<close>

theorem one_bad_event_loses_batch:
  assumes "pe \<in> set (g_buf s @ g_queue s)" "event_row (cf_shardID c) pe = Some r"
    and "pe_timestamp r div micros_per_day \<notin> set (pd_days (g_db s))"
  shows "event_writer_round c e n WDone s = s \<lparr> g_buf := [], g_queue := [] \<rparr> \<and>
    writer_rounds c ws (event_writer_round c e n WDone s) = s \<lparr> g_buf := [], g_queue := [] \<rparr>"
proof -
  have "r \<in> set (event_rows (cf_shardID c) (g_buf s @ g_queue s))"
    using assms(1,2) unfolding event_rows_def List.map_filter_def by force
  then obtain er where "send_batch e 0 (queue_pending (cf_shardID c) (g_buf s @ g_queue s) []) (g_db s) = Inl er"
    using send_batch_bad assms(3) by (fastforce simp: queue_pending_rows)
  then have lost: "event_writer_round c e n WDone s = s \<lparr> g_buf := [], g_queue := [] \<rparr>"
    by (simp add: event_writer_round_def flushEvents_def)
  have "writer_rounds c ws s' = s'" if "g_buf s' = []" "g_queue s' = []" for s'
  proof -
    have "event_writer_round c e n w s' = s'" for e n w
      using that by (cases w) (simp_all add: event_writer_round_def flushEvents_def)
    then show ?thesis by (induction ws) auto
  qed
  then show ?thesis using lost by simp
qed

theorem one_bad_event_loses_batch_witness:
  "event_writer_round pg_demo_config pg_quiet 10 WDone (pg_pending []) = pg_pending [] \<lparr> g_buf := [], g_queue := [] \<rparr>"
proof -
  let ?pe = "(agent_event ''ev'' empty_agent EventCreated 5000000000 [] [], ''ns'')"
  have "event_row [] ?pe = Some (pg_event_columns (fst ?pe) (JObj []) ''ns'' [])" by code_simp
  then show ?thesis using one_bad_event_loses_batch[of ?pe "pg_pending []" pg_demo_config]
    by (simp add: pg_pending_def pg_demo_config_def)
qed

end
