(* ===== verification/Telemetry_Types.thy ===== *)
theory Telemetry_Types
  imports Agent_Model
begin

text \<open>
  The records of \<^verbatim>\<open>pkg/telemetry/types.go\<close>: what a client reports with a request (an observation) and the spans that
  are stored.
\<close>

record link =
  ln_SpanID :: string
  ln_Type :: string

text \<open>An attribute is a plain value or, under the key \<^verbatim>\<open>links\<close>, the list of links itself.\<close>

datatype attr = Attr gval | ALinks "link list"

record tel_trace =
  tr_TraceID :: string
  tr_SpanID :: string
  tr_ParentSpanID :: string
  tr_CallID :: string
  tr_Links :: "link list"

record tel_metric =
  tm_Key :: string
  tm_ValueBool :: "bool option"
  tm_ValueNum :: "64 word option"
  tm_ValueStr :: "string option"

record guardrail =
  gr_RuleID :: string
  gr_Hit :: bool
  gr_Severity :: string
  gr_EvidenceRef :: string

record tel_event =
  te_Name :: string
  te_Kind :: string
  te_TsStart :: gotime
  te_TsEnd :: "gotime option"
  te_Status :: string
  te_Attrs :: "gval gomap option"
  te_SpanID :: string
  te_ParentSpanID :: string

record observation =
  ob_Trace :: "tel_trace option"
  ob_Treatments :: "gval gomap"
  ob_Metrics :: "tel_metric list"
  ob_Guardrails :: "guardrail list"
  ob_Events :: "tel_event list"

record span =
  sn_TraceID :: string
  sn_SpanID :: string
  sn_ParentSpanID :: string
  sn_TupleID :: string
  sn_NamespaceID :: string
  sn_Name :: string
  sn_Kind :: string
  sn_TsStart :: gotime
  sn_TsEnd :: "gotime option"
  sn_Status :: string
  sn_Attrs :: "attr gomap option"
  sn_Metric :: "tel_metric option"
  sn_CallID :: string
  sn_Links :: "link list"

definition empty_span :: span where
  "empty_span = \<lparr> sn_TraceID = [], sn_SpanID = [], sn_ParentSpanID = [], sn_TupleID = [], sn_NamespaceID = [],
     sn_Name = [], sn_Kind = [], sn_TsStart = zero_time, sn_TsEnd = None, sn_Status = [], sn_Attrs = None,
     sn_Metric = None, sn_CallID = [], sn_Links = [] \<rparr>"

text \<open>The JSON of an attribute; empty members of a link are left out.\<close>

definition link_json :: "link \<Rightarrow> json" where
  "link_json l = JObj ((if ln_SpanID l = [] then [] else [(''span_id'', JStr (ln_SpanID l))]) @
     (if ln_Type l = [] then [] else [(''type'', JStr (ln_Type l))]))"

definition attr_json :: "attr \<Rightarrow> json option" where
  "attr_json a = (case a of Attr g \<Rightarrow> marshal g | ALinks ls \<Rightarrow> Some (JArr (map link_json ls)))"

end
