(* ===== verification/Pg_Telemetry.thy ===== *)
theory Pg_Telemetry
  imports Pg_Complete Telemetry_Types
begin

text \<open>
  The telemetry of the Postgres store (\<^verbatim>\<open>postgres_telemetry.go\<close>, and the dropping of partitions in
  \<^verbatim>\<open>postgres_partitions.go\<close>): recording, listing and removing spans.

  The table is partitioned by the day of \<^verbatim>\<open>ts_start\<close> and has the key \<^verbatim>\<open>(ts_start, event_id)\<close>; its days are those that
  \<^const>\<open>ensureEventPartitions\<close> creates.  A batch is one implicit transaction.
\<close>

record tel_row =
  tw_event_id :: string
  tw_trace_id :: string
  tw_span_id :: string
  tw_parent_span_id :: string
  tw_tuple_id :: string
  tw_kind :: string
  tw_name :: string
  tw_ts_start :: int
  tw_ts_end :: "int option"
  tw_status :: string
  tw_attrs :: json
  tw_metric_key :: string
  tw_metric_bool :: "bool option"
  tw_metric_num :: "64 word option"
  tw_metric_str :: "string option"
  tw_namespace_id :: string
  tw_shard_id :: string

record tel_table =
  tt_days :: "int list"
  tt_rows :: "tel_row list"

section \<open>Recording\<close>

definition add_attr :: "string \<Rightarrow> attr \<Rightarrow> attr gomap \<Rightarrow> attr gomap" where
  "add_attr k v attrs = (if map_of attrs k = None then AList.update k v attrs else attrs)"

text \<open>The namespace of a span: its own, or the one its attributes name.\<close>

definition span_namespace :: "span \<Rightarrow> string" where
  "span_namespace sp = (if sn_NamespaceID sp \<noteq> [] then sn_NamespaceID sp
     else case map_of (or_nil (sn_Attrs sp)) NamespaceMetadataKey of Some (Attr (VStr ns)) \<Rightarrow> ns | _ \<Rightarrow> [])"

definition span_attrs :: "span \<Rightarrow> attr gomap" where
  "span_attrs sp =
    (let attrs = or_nil (sn_Attrs sp);
         attrs = (if sn_CallID sp \<noteq> [] then add_attr ''call_id'' (Attr (VStr (sn_CallID sp))) attrs else attrs);
         attrs = (if span_namespace sp \<noteq> [] then add_attr NamespaceMetadataKey (Attr (VStr (span_namespace sp))) attrs else attrs)
     in if sn_Links sp \<noteq> [] then add_attr ''links'' (ALinks (sn_Links sp)) attrs else attrs)"

definition span_row :: "string \<Rightarrow> string \<Rightarrow> gotime \<Rightarrow> span \<Rightarrow> store_error + tel_row" where
  "span_row shardID u now sp = (case all_some_snd (map (map_prod id attr_json) (span_attrs sp)) of
     None \<Rightarrow> Inl ErrMarshal
   | Some kvs \<Rightarrow> Inr
       \<lparr> tw_event_id = u, tw_trace_id = sn_TraceID sp, tw_span_id = sn_SpanID sp, tw_parent_span_id = sn_ParentSpanID sp,
         tw_tuple_id = sn_TupleID sp, tw_kind = sn_Kind sp, tw_name = sn_Name sp,
         tw_ts_start = UnixMicro (if IsZero (sn_TsStart sp) then now else sn_TsStart sp), tw_ts_end = map_option UnixMicro (sn_TsEnd sp),
         tw_status = sn_Status sp, tw_attrs = JObj kvs,
         tw_metric_key = (case sn_Metric sp of None \<Rightarrow> [] | Some m \<Rightarrow> tm_Key m), tw_metric_bool = obind (sn_Metric sp) tm_ValueBool,
         tw_metric_num = obind (sn_Metric sp) tm_ValueNum, tw_metric_str = obind (sn_Metric sp) tm_ValueStr,
         tw_namespace_id = span_namespace sp, tw_shard_id = shardID \<rparr>)"

text \<open>Spans without a trace id are skipped; \<open>i\<close> numbers the queued rows.\<close>

fun queue_spans :: "pg_env \<Rightarrow> string \<Rightarrow> gotime \<Rightarrow> nat \<Rightarrow> span list \<Rightarrow> store_error + tel_row list" where
  "queue_spans e shardID now i [] = Inr []"
| "queue_spans e shardID now i (sp # sps) =
    (if sn_TraceID sp = [] then queue_spans e shardID now i sps
     else bindr (span_row shardID (uuid e i) now sp) (\<lambda>r. bindr (queue_spans e shardID now (Suc i) sps) (\<lambda>rs. Inr (r # rs))))"

definition insert_span :: "pg_env \<Rightarrow> nat \<Rightarrow> tel_row \<Rightarrow> tel_table \<Rightarrow> store_error + tel_table" where
  "insert_span e i r t =
    (if fault e (CInsertEvent i) then Inl (ErrDB (CInsertEvent i))
     else if tw_ts_start r div micros_per_day \<notin> set (tt_days t) then Inl (ErrSQL ''23514'')
     else if (tw_ts_start r, tw_event_id r) \<in> (\<lambda>x. (tw_ts_start x, tw_event_id x)) ` set (tt_rows t) then Inl (ErrSQL ''23505'')
     else Inr (t \<lparr> tt_rows := tt_rows t @ [r] \<rparr>))"

fun send_spans :: "pg_env \<Rightarrow> nat \<Rightarrow> tel_row list \<Rightarrow> tel_table \<Rightarrow> store_error + tel_table" where
  "send_spans e i [] t = Inr t"
| "send_spans e i (r # rs) t = bindr (insert_span e i r t) (send_spans e (Suc i) rs)"

definition PgRecordSpans :: "pg_env \<Rightarrow> string \<Rightarrow> span list \<Rightarrow> tel_table \<Rightarrow> store_error option \<times> tel_table" where
  "PgRecordSpans e shardID spans t =
    (if spans = [] then (None, t)
     else case bindr (queue_spans e shardID (clock e 0) 0 spans) (\<lambda>rs. send_spans e 0 rs t) of
       Inl er \<Rightarrow> (Some er, t) | Inr t' \<Rightarrow> (None, t'))"

section \<open>Listing\<close>

definition row_span :: "tel_row \<Rightarrow> span" where
  "row_span r = empty_span
     \<lparr> sn_TraceID := tw_trace_id r, sn_SpanID := tw_span_id r, sn_ParentSpanID := tw_parent_span_id r, sn_TupleID := tw_tuple_id r,
       sn_NamespaceID := tw_namespace_id r, sn_Name := tw_name r, sn_Kind := tw_kind r, sn_TsStart := time_UnixMicro (tw_ts_start r),
       sn_TsEnd := map_option time_UnixMicro (tw_ts_end r), sn_Status := tw_status r,
       sn_Attrs := (case tw_attrs r of JObj kvs \<Rightarrow> Some (map (map_prod id (Attr \<circ> unmarshal)) kvs) | _ \<Rightarrow> None),
       sn_Metric := (if tw_metric_key r \<noteq> [] \<or> tw_metric_bool r \<noteq> None \<or> tw_metric_num r \<noteq> None \<or> tw_metric_str r \<noteq> None
         then Some \<lparr> tm_Key = tw_metric_key r, tm_ValueBool = tw_metric_bool r, tm_ValueNum = tw_metric_num r, tm_ValueStr = tw_metric_str r \<rparr>
         else None) \<rparr>"

text \<open>The database refuses a negative offset.\<close>

definition PgListSpans :: "pg_env \<Rightarrow> string \<Rightarrow> string \<Rightarrow> int \<Rightarrow> int \<Rightarrow> tel_table \<Rightarrow> store_error + span list" where
  "PgListSpans e traceID namespaceID limit offset t =
    (if traceID = [] then Inl (ErrOther ''trace_id is required'')
     else let limit = (if limit \<le> 0 then 100 else limit);
              rows = filter (\<lambda>r. tw_trace_id r = traceID \<and> (trim_space namespaceID = [] \<or> tw_namespace_id r = namespaceID)) (tt_rows t)
          in if fault e CSelect then Inl (ErrDB CSelect)
             else if offset < 0 then Inl (ErrSQL ''2201X'')
             else if fault e CScanRows then Inl (ErrDB CScanRows)
             else Inr (map row_span (take (nat limit) (drop (nat offset) (sort_key tw_ts_start rows)))))"

section \<open>Removing\<close>

definition shouldDropDailyPartition :: "int \<Rightarrow> int \<Rightarrow> bool" where
  "shouldDropDailyPartition cutoffDay day \<longleftrightarrow> day < cutoffDay"

text \<open>\<^verbatim>\<open>DROP TABLE\<close> of a partition takes its rows with it; what was dropped before an error stays dropped.\<close>

definition drop_partition :: "int \<Rightarrow> tel_table \<Rightarrow> tel_table" where
  "drop_partition day t = t \<lparr> tt_days := removeAll day (tt_days t), tt_rows := filter (\<lambda>r. tw_ts_start r div micros_per_day \<noteq> day) (tt_rows t) \<rparr>"

fun drop_partitions :: "pg_env \<Rightarrow> nat \<Rightarrow> int list \<Rightarrow> tel_table \<Rightarrow> store_error option \<times> tel_table" where
  "drop_partitions e k [] t = (None, t)"
| "drop_partitions e k (day # days) t =
    (if fault e (CExec k) then (Some (ErrDB (CExec k)), t) else drop_partitions e (Suc k) days (drop_partition day t))"

definition dropExpiredTelemetryPartitions :: "pg_env \<Rightarrow> gotime \<Rightarrow> tel_table \<Rightarrow> store_error option \<times> tel_table" where
  "dropExpiredTelemetryPartitions e cutoff t =
    (if fault e CSelect then (Some (ErrDB CSelect), t)
     else if fault e CScanRows then (Some (ErrDB CScanRows), t)
     else drop_partitions e 0 (filter (shouldDropDailyPartition (truncateToUTCDate cutoff)) (tt_days t)) t)"

text \<open>\<open>missing er\<close>: the text of the error contains \<^verbatim>\<open>does not exist\<close>.  The number of rows is that of the \<^verbatim>\<open>DELETE\<close>.\<close>

definition PgCleanupSpansBefore :: "pg_env \<Rightarrow> (store_error \<Rightarrow> bool) \<Rightarrow> gotime \<Rightarrow> tel_table \<Rightarrow> (store_error + int) \<times> tel_table" where
  "PgCleanupSpansBefore e missing cutoff t = (case dropExpiredTelemetryPartitions e cutoff t of
     (dropped, t) \<Rightarrow>
       if (case dropped of None \<Rightarrow> False | Some er \<Rightarrow> \<not> missing er) then (Inl (the dropped), t)
       else if fault e (CWrite 0) then (Inl (ErrDB (CWrite 0)), t)
       else let old = (\<lambda>r. tw_ts_start r < UnixMicro cutoff)
            in (Inr (int (length (filter old (tt_rows t)))), t \<lparr> tt_rows := filter (\<lambda>r. \<not> old r) (tt_rows t) \<rparr>))"

section \<open>What a span reads after it was recorded\<close>

text \<open>Times are cut to microseconds, and the call id and the links survive among the attributes only.\<close>

definition listed_span :: "gotime \<Rightarrow> span \<Rightarrow> span" where
  "listed_span now sp = sp
     \<lparr> sn_TsStart := time_UnixMicro (UnixMicro (if IsZero (sn_TsStart sp) then now else sn_TsStart sp)),
       sn_TsEnd := map_option (time_UnixMicro \<circ> UnixMicro) (sn_TsEnd sp), sn_NamespaceID := span_namespace sp,
       sn_Attrs := map_option (map (map_prod id (Attr \<circ> unmarshal))) (all_some_snd (map (map_prod id attr_json) (span_attrs sp))),
       sn_Metric := (case sn_Metric sp of None \<Rightarrow> None | Some m \<Rightarrow>
         if m = \<lparr> tm_Key = [], tm_ValueBool = None, tm_ValueNum = None, tm_ValueStr = None \<rparr> then None else Some m),
       sn_CallID := [], sn_Links := [] \<rparr>"

lemma row_span_listed:
  assumes "span_row shardID u now sp = Inr r"
  shows "row_span r = listed_span now sp"
proof -
  obtain kvs where kvs: "all_some_snd (map (map_prod id attr_json) (span_attrs sp)) = Some kvs"
    using assms by (cases "all_some_snd (map (map_prod id attr_json) (span_attrs sp))") (auto simp: span_row_def)
  have m: "sn_Metric (row_span r) = sn_Metric (listed_span now sp)"
  proof (cases "sn_Metric sp")
    case (Some m)
    then show ?thesis using assms kvs by (cases m) (auto simp: span_row_def row_span_def listed_span_def obind_def)
  qed (use assms kvs in \<open>auto simp: span_row_def row_span_def listed_span_def obind_def\<close>)
  show ?thesis
    by (rule span.equality) (use assms kvs m in \<open>auto simp: span_row_def row_span_def listed_span_def empty_span_def option.map_comp comp_def\<close>)
qed

lemma span_row_fields:
  "span_row shardID u now sp = Inr r \<Longrightarrow> tw_event_id r = u \<and> tw_trace_id r = sn_TraceID sp \<and> tw_namespace_id r = span_namespace sp \<and>
     tw_ts_start r = UnixMicro (if IsZero (sn_TsStart sp) then now else sn_TsStart sp)"
  by (auto simp: span_row_def split: option.splits)

section \<open>Recording and listing\<close>

lemma sort_key_map:
  assumes "\<And>x y. k x \<le> k y \<longleftrightarrow> k' (f x) \<le> k' (f y)"
  shows "map f (sort_key k xs) = sort_key k' (map f xs)"
proof -
  have "map f (insort_key k x ys) = insort_key k' (f x) (map f ys)" for x ys by (induction ys) (auto simp: assms)
  then show ?thesis by (induction xs) simp_all
qed

definition recordable :: "gotime \<Rightarrow> tel_table \<Rightarrow> span \<Rightarrow> bool" where
  "recordable now t sp \<longleftrightarrow> sn_TraceID sp = [] \<or> all_some_snd (map (map_prod id attr_json) (span_attrs sp)) \<noteq> None \<and>
     UnixMicro (if IsZero (sn_TsStart sp) then now else sn_TsStart sp) div micros_per_day \<in> set (tt_days t)"

lemma queue_spans_rows:
  "list_all (recordable now t) spans \<Longrightarrow> \<exists>rs. queue_spans e shardID now i spans = Inr rs \<and>
     map row_span rs = map (listed_span now) (filter (\<lambda>sp. sn_TraceID sp \<noteq> []) spans) \<and>
     map tw_trace_id rs = map sn_TraceID (filter (\<lambda>sp. sn_TraceID sp \<noteq> []) spans) \<and> map tw_event_id rs = map (\<lambda>j. uuid e (i + j)) [0..<length rs] \<and>
     (\<forall>r\<in>set rs. tw_ts_start r div micros_per_day \<in> set (tt_days t))"
proof (induction spans arbitrary: i)
  case (Cons sp sps)
  show ?case
  proof (cases "sn_TraceID sp = []")
    case True
    then show ?thesis using Cons by simp
  next
    case False
    then obtain r where r: "span_row shardID (uuid e i) now sp = Inr r" using Cons.prems by (auto simp: recordable_def span_row_def split: option.splits)
    obtain rs where rs: "queue_spans e shardID now (Suc i) sps = Inr rs"
      "map row_span rs = map (listed_span now) (filter (\<lambda>sp. sn_TraceID sp \<noteq> []) sps)"
      "map tw_trace_id rs = map sn_TraceID (filter (\<lambda>sp. sn_TraceID sp \<noteq> []) sps)" "map tw_event_id rs = map (\<lambda>j. uuid e (Suc i + j)) [0..<length rs]"
      "\<forall>r\<in>set rs. tw_ts_start r div micros_per_day \<in> set (tt_days t)"
      using Cons.IH[of "Suc i"] Cons.prems by auto
    show ?thesis
      using False r rs span_row_fields[OF r] row_span_listed[OF r] Cons.prems
      by (intro exI[of _ "r # rs"]) (auto simp: map_upt_Suc recordable_def simp del: upt_Suc)
  qed
qed simp

lemma send_spans_all:
  assumes "\<And>c. \<not> fault e c"
  shows "distinct (map tw_event_id rs) \<Longrightarrow> set (map tw_event_id rs) \<inter> tw_event_id ` set (tt_rows t) = {} \<Longrightarrow>
    \<forall>r\<in>set rs. tw_ts_start r div micros_per_day \<in> set (tt_days t) \<Longrightarrow> send_spans e i rs t = Inr (t \<lparr> tt_rows := tt_rows t @ rs \<rparr>)"
proof (induction rs arbitrary: i t)
  case (Cons r rs)
  have "insert_span e i r t = Inr (t \<lparr> tt_rows := tt_rows t @ [r] \<rparr>)" using Cons.prems assms by (auto simp: insert_span_def)
  moreover have "send_spans e (Suc i) rs (t \<lparr> tt_rows := tt_rows t @ [r] \<rparr>) = Inr (t \<lparr> tt_rows := tt_rows t @ [r] @ rs \<rparr>)"
    using Cons.IH[of "t \<lparr> tt_rows := tt_rows t @ [r] \<rparr>" "Suc i"] Cons.prems by auto
  ultimately show ?case by simp
qed simp

lemma filter_map_same: "map f xs = map g ys \<Longrightarrow> map h xs = map k ys \<Longrightarrow> map h (filter (\<lambda>x. P (f x)) xs) = map k (filter (\<lambda>y. P (g y)) ys)"
proof (induction xs arbitrary: ys)
  case (Cons x xs)
  then obtain y zs where "ys = y # zs" by (cases ys) auto
  then show ?case using Cons by auto
qed simp

text \<open>C33: where no call fails, the days have partitions and the UUIDs are new, the spans of a trace that were recorded are what
  a listing of the trace returns, in the order of their start; times are cut to microseconds, and the call id and the
  links of a span come back as attributes only.\<close>

theorem PgRecordSpans_PgListSpans:
  assumes "\<And>c. \<not> fault e c" "\<And>c. \<not> fault e' c" "inj (uuid e)" "\<And>r i. r \<in> set (tt_rows t) \<Longrightarrow> tw_event_id r \<noteq> uuid e i"
    and "list_all (recordable (clock e 0) t) spans" "traceID \<noteq> []" "\<And>r. r \<in> set (tt_rows t) \<Longrightarrow> tw_trace_id r \<noteq> traceID"
  shows "\<exists>t'. PgRecordSpans e shardID spans t = (None, t') \<and> PgListSpans e' traceID [] limit 0 t' =
    Inr (take (nat (if limit \<le> 0 then 100 else limit))
      (sort_key sn_TsStart (map (listed_span (clock e 0)) (filter (\<lambda>sp. sn_TraceID sp = traceID) spans))))"
proof -
  let ?now = "clock e 0" and ?kept = "filter (\<lambda>sp. sn_TraceID sp \<noteq> []) spans"
  obtain rs where rs: "queue_spans e shardID ?now 0 spans = Inr rs" "map row_span rs = map (listed_span ?now) ?kept"
    "map tw_trace_id rs = map sn_TraceID ?kept" "map tw_event_id rs = map (\<lambda>j. uuid e (0 + j)) [0..<length rs]"
    "\<forall>r\<in>set rs. tw_ts_start r div micros_per_day \<in> set (tt_days t)"
    using queue_spans_rows[OF assms(5), of e shardID 0] by blast
  have "distinct (map tw_event_id rs)" "set (map tw_event_id rs) \<inter> tw_event_id ` set (tt_rows t) = {}"
    unfolding rs(4) using assms(3,4) by (auto simp: distinct_map inj_on_def dest: injD sym)
  then have sent: "send_spans e 0 rs t = Inr (t \<lparr> tt_rows := tt_rows t @ rs \<rparr>)" using send_spans_all[OF assms(1)] rs(5) by blast
  have "PgRecordSpans e shardID spans t = (None, t \<lparr> tt_rows := tt_rows t @ rs \<rparr>)"
    using rs(1) sent by (cases "spans = []") (auto simp: PgRecordSpans_def)
  moreover have "map row_span (filter (\<lambda>r. tw_trace_id r = traceID) rs) = map (listed_span ?now) (filter (\<lambda>sp. sn_TraceID sp = traceID) ?kept)"
    by (rule filter_map_same[OF rs(3,2)])
  moreover have "filter (\<lambda>sp. sn_TraceID sp = traceID) ?kept = filter (\<lambda>sp. sn_TraceID sp = traceID) spans"
    using assms(6) by (auto intro: filter_cong)
  moreover have "filter (\<lambda>r. tw_trace_id r = traceID) (tt_rows t) = []" using assms(7) by (auto simp: filter_empty_conv)
  moreover have "map row_span (sort_key tw_ts_start xs) = sort_key sn_TsStart (map row_span xs)" for xs
    by (rule sort_key_map) (simp add: row_span_def time_UnixMicro_def)
  ultimately show ?thesis using assms(2,6) by (auto simp: PgListSpans_def Let_def take_map[symmetric] trim_space_def)
qed

definition demo_span :: "string \<Rightarrow> gotime \<Rightarrow> span" where
  "demo_span i start = empty_span \<lparr> sn_TraceID := ''tr'', sn_SpanID := i, sn_TsStart := start, sn_CallID := ''c'' \<rparr>"

theorem PgRecordSpans_PgListSpans_witness:
  "\<exists>t'. PgRecordSpans pg_quiet [] [demo_span ''b'' 9000, demo_span ''a'' 5500] \<lparr> tt_days = [0], tt_rows = [] \<rparr> = (None, t') \<and>
     map_sum id (map (\<lambda>sp. (sn_SpanID sp, sn_TsStart sp))) (PgListSpans pg_quiet ''tr'' [] 0 0 t') = Inr [(''a'', 5000), (''b'', 9000)]"
proof -
  let ?t = "\<lparr> tt_days = [0], tt_rows = [] \<rparr>" and ?sps = "[demo_span ''b'' 9000, demo_span ''a'' 5500]"
  have f: "\<not> fault pg_quiet c" for c by (simp add: pg_quiet_def)
  have u: "inj (uuid pg_quiet)" by (auto simp: pg_quiet_def inj_def replicate_eq_replicate)
  have r: "list_all (recordable (clock pg_quiet 0) ?t) ?sps" by code_simp
  have l: "map (\<lambda>sp. (sn_SpanID sp, sn_TsStart sp)) (take (nat (if (0 :: int) \<le> 0 then 100 else 0)) (sort_key sn_TsStart
      (map (listed_span (clock pg_quiet 0)) (filter (\<lambda>sp. sn_TraceID sp = ''tr'') ?sps)))) = [(''a'', 5000), (''b'', 9000)]" by code_simp
  show ?thesis
    using PgRecordSpans_PgListSpans[OF f f u _ r, of "''tr''" "[]" 0] l by auto
qed

end
