(* ===== verification/Pg_Graph.thy ===== *)
theory Pg_Graph
  imports Pg_Claims Store_Graph
begin

text \<open>
  GetDAG (\<^verbatim>\<open>postgres_lifecycle.go\<close>) and the blocking In and Read (\<^verbatim>\<open>postgres_query.go\<close>) of the Postgres store, on
  top of the loops all backends share.  A waiting round ends at the poll interval, at a wakeup or with the
  context; how long it takes and what others do meanwhile is part of the \<^verbatim>\<open>poll\<close> record.
\<close>

section \<open>GetDAG, In and Read\<close>

definition PgGetDAG :: "(nat \<Rightarrow> pg_env) \<Rightarrow> pg_db \<Rightarrow> string \<Rightarrow> dag option" where
  "PgGetDAG es d rootID = get_dag (\<lambda>n. PgGet (es n) d) (\<lambda>n. PgQuery (es n) d) rootID"

text \<open>\<open>es i\<close> are the environments of the Take of round \<open>i\<close>.\<close>

definition PgIn ::
  "pg_config \<Rightarrow> nat \<Rightarrow> (nat \<Rightarrow> nat \<Rightarrow> pg_env) \<Rightarrow> pg_store poll \<Rightarrow> query option \<Rightarrow> duration \<Rightarrow> pg_store \<Rightarrow>
     ((store_error + agent) \<times> pg_store) option" where
  "PgIn c fuel es p q timeout s = poll_until (\<lambda>i s. PgTake c (es i) s q) fuel p timeout s"

definition PgRead ::
  "nat \<Rightarrow> (nat \<Rightarrow> pg_env) \<Rightarrow> pg_store poll \<Rightarrow> query option \<Rightarrow> duration \<Rightarrow> pg_store \<Rightarrow> ((store_error + agent) \<times> pg_store) option" where
  "PgRead fuel es p q timeout s =
    poll_until (\<lambda>i s. (first_of (PgQuery (es i) (g_db s) (Some (read_query q))), s)) fuel p timeout s"

section \<open>What GetDAG reaches\<close>

definition pg_known_ids :: "pg_db \<Rightarrow> string set" where
  "pg_known_ids d = pr_id ` set (pd_agents d) \<union> pr_parent_id ` set (pd_agents d)"

lemma pg_scan_rows_in: "pg_scan_rows rows = Inr ts \<Longrightarrow> t \<in> set ts \<Longrightarrow> \<exists>r \<in> set rows. scanAgent r = Inr t"
  by (induction rows arbitrary: ts) (auto simp: bindr_eq_Inr split: sum.splits store_error.splits)

lemma PgQuery_rows:
  assumes "PgQuery e d q = Inr ts" "t \<in> set ts"
  shows "\<exists>r \<in> set (pd_agents d). scanAgent r = Inr t"
proof -
  let ?rows = "sql_page (q_limit q) (q_offset q) (pg_select e 0 (buildWhereClauses q False) d)"
  have "pg_scan_rows ?rows = Inr ts" using assms(1) by (auto simp: PgQuery_def bindr_eq_Inr split: if_splits)
  then obtain r where "r \<in> set ?rows" "scanAgent r = Inr t" using pg_scan_rows_in[OF _ assms(2)] by blast
  then show ?thesis using set_sql_page[of "q_limit q" "q_offset q" "pg_select e 0 (buildWhereClauses q False) d"] by (auto simp: pg_select_def)
qed

lemma PgGet_row: "PgGet e d i = Inr t \<Longrightarrow> \<exists>r \<in> set (pd_agents d). scanAgent r = Inr t"
  by (auto simp: PgGet_def pg_fetch_def dest: find_SomeD split: if_splits option.splits)

interpretation pg_dag: dag_source "\<lambda>n. PgGet (es n) d" "\<lambda>n. PgQuery (es n) d" "pg_known_ids d" for es d
proof unfold_locales
  show "finite (pg_known_ids d)" by (simp add: pg_known_ids_def)
  show "a_ParentID t \<in> pg_known_ids d" if "PgGet (es n) d i = Inr t" for n i t
    using PgGet_row[OF that] pg_scan_fields(5) by (force simp: pg_known_ids_def)
  show "a_ID c \<in> pg_known_ids d" if "PgQuery (es n) d q = Inr cs" "c \<in> set cs" for n q cs c
    using PgQuery_rows[OF that] pg_scan_fields(1) by (force simp: pg_known_ids_def)
qed

text \<open>Environments of a traversal without faults, all at one time, and the agents visible then.\<close>

definition pg_steady :: "(nat \<Rightarrow> pg_env) \<Rightarrow> int \<Rightarrow> bool" where
  "pg_steady es now \<longleftrightarrow> (\<forall>n. db_now (es n) 0 = now \<and> (\<forall>c. \<not> fault (es n) c))"

definition pg_live :: "int \<Rightarrow> pg_db \<Rightarrow> string \<Rightarrow> agent option" where
  "pg_live now d i = (case pg_row_of d i of None \<Rightarrow> None | Some r \<Rightarrow> if pg_alive now r then Some (pg_scanned r) else None)"

lemma pg_live_row:
  assumes "wf_pg d"
  shows "pg_live now d i = Some t \<longleftrightarrow> (\<exists>r \<in> set (pd_agents d). pr_id r = i \<and> pg_alive now r \<and> pg_scanned r = t)"
proof
  assume "pg_live now d i = Some t"
  then show "\<exists>r \<in> set (pd_agents d). pr_id r = i \<and> pg_alive now r \<and> pg_scanned r = t"
    by (auto simp: pg_live_def dest: pg_row_of_SomeD split: option.splits if_splits)
next
  assume "\<exists>r \<in> set (pd_agents d). pr_id r = i \<and> pg_alive now r \<and> pg_scanned r = t"
  then obtain r where "pg_row_of d i = Some r" "pg_alive now r" "pg_scanned r = t" using pg_row_of_in[OF assms] by blast
  then show "pg_live now d i = Some t" by (simp add: pg_live_def)
qed

lemma pg_scanned_id: "wf_pg d \<Longrightarrow> r \<in> set (pd_agents d) \<Longrightarrow> scanAgent r = Inr (pg_scanned r) \<and> a_ID (pg_scanned r) = pr_id r"
  using wf_pg_row_scan pg_scan_fields(1) wf_pg_rowD by metis

lemma pg_children_ids:
  assumes "wf_pg d" "pg_steady es now" "a_ID t \<noteq> []"
  shows "\<exists>cs. PgQuery (es n) d (Some (children_query t)) = Inr cs \<and>
    a_ID ` set cs = {j. \<exists>c. pg_live now d j = Some c \<and> a_ParentID c = a_ID t}"
proof -
  have nf: "\<not> fault (es n) CSelect" "\<not> fault (es n) CScanRows" "db_now (es n) 0 = now"
    using assms(2) by (auto simp: pg_steady_def)
  have q: "q_offset (Some (children_query t)) = 0" "q_limit (Some (children_query t)) = 0" "names_queue (Some (children_query t))"
    by (simp_all add: q_offset_def q_limit_def children_query_def empty_query_def names_queue_def)
  let ?cs = "filter (query_selects (Some (children_query t))) (pg_visible (es n) d)"
  have "PgQuery (es n) d (Some (children_query t)) = Inr ?cs"
    using PgQuery_spec[OF assms(1) q(3) nf(1,2)] q by (simp add: sql_page_def)
  moreover have "query_selects (Some (children_query t)) c \<longleftrightarrow> a_ParentID c = a_ID t" for c
    using assms(3) by (simp add: query_selects_def MatchesQuery_Some children_query_def empty_query_def)
  then have "a_ID ` set ?cs = {j. \<exists>c. pg_live now d j = Some c \<and> a_ParentID c = a_ID t}"
    using pg_scanned_id[OF assms(1)] nf(3) by (force simp: pg_visible_def pg_live_row[OF assms(1)])
  ultimately show ?thesis by blast
qed

lemma pg_reads_live:
  assumes "wf_pg d" "pg_steady es now" "\<And>r. r \<in> set (pd_agents d) \<Longrightarrow> pr_id r \<noteq> []"
  shows "reads_live (\<lambda>n. PgGet (es n) d) (\<lambda>n. PgQuery (es n) d) (pg_live now d)"
proof -
  have id: "a_ID t = i \<and> i \<noteq> []" if "pg_live now d i = Some t" for i t
    using that assms(3) pg_scanned_id[OF assms(1)] by (auto simp: pg_live_row[OF assms(1)])
  have get: "PgGet (es n) d i = Inr t \<longleftrightarrow> pg_live now d i = Some t" for n i t
  proof (cases "pg_row_of d i")
    case None
    then show ?thesis using assms(2) PgGet_row[of "es n" d i t] pg_fetch_InrD[OF assms(1), of "es n" 0 i t]
      by (auto simp: pg_live_def PgGet_def)
  next
    case (Some r)
    have "scanAgent r = Inr (pg_scanned r)" using pg_scanned_id[OF assms(1)] pg_row_of_SomeD[OF Some] by blast
    then show ?thesis using pg_fetch_row[OF assms(1) Some, of "es n" 0] assms(2) Some by (simp add: pg_live_def PgGet_def pg_steady_def)
  qed
  show ?thesis unfolding reads_live_def
  proof (intro conjI allI impI)
    fix n i t assume "pg_live now d i = Some t"
    with id[OF this] pg_children_ids[OF assms(1,2), of t n]
    show "\<exists>cs. PgQuery (es n) d (Some (children_query t)) = Inr cs \<and>
        a_ID ` set cs = {j. \<exists>c. pg_live now d j = Some c \<and> a_ParentID c = i}" by simp
  qed (use get id in blast)+
qed

text \<open>GetDAG on the Postgres store returns on every table, and without faults it collects exactly the live
  agents connected to the root through parent and child links of live agents.\<close>

theorem PgGetDAG_nodes:
  assumes "wf_pg d" "\<And>r. r \<in> set (pd_agents d) \<Longrightarrow> pr_id r \<noteq> []" "pg_steady es now"
  shows "\<exists>g. PgGetDAG es d root = Some g \<and> fst ` set (d_Nodes g) = (related (pg_live now d))\<^sup>* `` {root} \<inter> dom (pg_live now d)"
  unfolding PgGetDAG_def by (rule pg_dag.dag_nodes[OF pg_reads_live[OF assms(1,3,2)]])

theorem PgGetDAG_nodes_witness:
  "\<exists>g. PgGetDAG (\<lambda>_. pg_quiet) pg_demo ''a'' = Some g \<and>
    fst ` set (d_Nodes g) = (related (pg_live 5000000 pg_demo))\<^sup>* `` {''a''} \<inter> dom (pg_live 5000000 pg_demo)"
  by (rule PgGetDAG_nodes[OF wf_pg_demo]) (auto simp: pg_demo_def pg_demo_row_def pg_steady_def pg_quiet_def)

section \<open>Blocking calls\<close>

text \<open>An agent In returns was claimed by one step of the lease contract: whatever other clients do between
  the rounds, as long as they keep the tables well-formed, the last round took the NEW agent it returns and issued
  its token, and the store is left as that claim left it.\<close>

theorem PgIn_claims:
  assumes "good_pg s" "PgIn c fuel es p (Some q) timeout s = Some (Inr t, s')" "\<And>i s. good_pg s \<Longrightarrow> good_pg (p_other p i s)"
  shows "\<exists>s1. good_pg s1 \<and> step (pg_view (g_db s1)) (LTake (a_ID t) (a_Owner t) (a_LeaseToken t) (Some (UnixMicro (a_LeaseUntil t)))) (pg_view (g_db s'))"
proof -
  have keep: "good_pg (snd (PgTake c (es i) s (Some q)))" if "good_pg s" for i s
    using pg.good_exec[OF that, of c "(es i, PoTake q)"] by simp
  obtain k s1 where k: "good_pg s1" "PgTake c (es k) s1 (Some q) = (Inr (Some t), s')"
    using poll_loop_result[of "\<lambda>i s. PgTake c (es i) s (Some q)", OF _ assms(1) keep assms(3)] assms(2)
    unfolding PgIn_def poll_until_def by blast
  then have "steps (pg_view (g_db s1)) [take_label t] (pg_view (g_db s'))"
    using pg.refines[OF k(1), of c "(es k, PoTake q)"] by (simp add: take_labels_def)
  then show ?thesis using k(1) by (auto simp: take_label_def elim!: steps_ConsE steps_NilE)
qed

theorem PgIn_claims_witness:
  "\<exists>t s' s1. PgIn pg_demo_config 1 (\<lambda>_ _. pg_quiet) \<lparr> p_start = 0, p_now = (\<lambda>_. 0), p_done = (\<lambda>_. False), p_other = (\<lambda>_ s. s) \<rparr>
      (Some pg_demo_q) Second pg_demo_store = Some (Inr t, s') \<and> a_ID t = ''a'' \<and> good_pg s1 \<and>
    step (pg_view (g_db s1)) (LTake (a_ID t) (a_Owner t) (a_LeaseToken t) (Some (UnixMicro (a_LeaseUntil t)))) (pg_view (g_db s'))"
proof -
  let ?p = "\<lparr> p_start = 0, p_now = (\<lambda>_. 0), p_done = (\<lambda>_. False), p_other = (\<lambda>_ s. s) \<rparr>"
  have r: "PgIn pg_demo_config 1 (\<lambda>_ _. pg_quiet) ?p (Some pg_demo_q) Second pg_demo_store = Some (Inr (fst pg_demo_claim), snd pg_demo_claim)"
    using pg_demo_claim_eq(1) by (simp add: PgIn_def poll_until_def Second_def)
  have "\<exists>s1. good_pg s1 \<and> step (pg_view (g_db s1)) (LTake (a_ID (fst pg_demo_claim)) (a_Owner (fst pg_demo_claim))
      (a_LeaseToken (fst pg_demo_claim)) (Some (UnixMicro (a_LeaseUntil (fst pg_demo_claim))))) (pg_view (g_db (snd pg_demo_claim)))"
    by (rule PgIn_claims[OF good_pg_demo r]) simp
  then show ?thesis using r pg_demo_claim_eq(2) by blast
qed

end
