(* ===== verification/Sharded_Routing.thy ===== *)
theory Sharded_Routing
  imports Pg_Graph "HOL-Library.List_Lexorder" "HOL-Library.Char_ord" "HOL-Library.Sublist" "HOL-Library.Multiset"
begin

text \<open>
  The routing half of the sharded Postgres store: the shard map and its normalisation
  (\<^verbatim>\<open>postgressharded/config.go\<close>), the configuration of the Postgres store of a shard, and the choice of a
  shard for a namespace and a queue (\<^verbatim>\<open>postgressharded/store.go\<close>).

  A shard is named by its id; \<^verbatim>\<open>x_map\<close> is the shard map a node loaded and \<^verbatim>\<open>x_pg\<close> the configuration of each
  of its stores.  The state of a node is the list of the shards it owns, in the order of the map, with
  their stores, and the cache from agent ids to shard ids.
\<close>

unbundle bit_operations_syntax

section \<open>Configuration\<close>

record sharded_config =
  sc_ShardMapFile :: string
  sc_NodeID :: string
  sc_AdvertiseAddr :: string
  sc_ShardMapRefreshPeriod :: string
  sc_SchemaMode :: string
  sc_MaxConns :: int
  sc_MinConns :: int
  sc_MaxConnAge :: string
  sc_MaxIdleTime :: string
  sc_SlimEvents :: bool
  sc_QueueClaimMode :: string
  sc_DeferEvents :: bool
  sc_EventBatchSize :: int
  sc_PrefetchEnabled :: bool
  sc_PrefetchBufferSize :: int
  sc_PrefetchBatchSize :: int

record shard_spec =
  ss_ShardID :: string
  ss_WriterDSN :: string
  ss_ReplicaDSNs :: "string list"
  ss_OwnerNodeID :: string
  ss_AdvertiseAddr :: string

record shard_map =
  sm_Version :: int
  sm_Epoch :: int
  sm_Shards :: "shard_spec list"

datatype sharded_error =
    ShConfig string
  | ShMissingID nat
  | ShMissingDSN string
  | ShDuplicateID string
  | ShStore store_error
  | ShCreateStore string store_error
  | ShNamespaceRequired
  | ShQueueRequired
  | ShNoShards
  | ShRemoteOwner string string string
  | ShUnknownShard string
  | ShNilAgent
  | ShNotFound string
  | ShKeysRequired string
  | ShMovesQueue
  | ShSourceShard string
  | ShCrossShard string string
  | ShUnhealthy string store_error
  | ShNilStore

definition trim_spec :: "shard_spec \<Rightarrow> shard_spec" where
  "trim_spec sp = sp \<lparr> ss_ShardID := trim_space (ss_ShardID sp), ss_WriterDSN := trim_space (ss_WriterDSN sp),
     ss_OwnerNodeID := trim_space (ss_OwnerNodeID sp), ss_AdvertiseAddr := trim_space (ss_AdvertiseAddr sp) \<rparr>"

text \<open>The loop of \<^verbatim>\<open>normalize\<close>; \<open>i\<close> is the index of the head and \<open>seen\<close> holds the ids met so far.\<close>

fun normalize_specs :: "nat \<Rightarrow> string list \<Rightarrow> shard_spec list \<Rightarrow> sharded_error + shard_spec list" where
  "normalize_specs i seen [] = Inr []"
| "normalize_specs i seen (sp # sps) =
    (let sp = trim_spec sp in
     if ss_ShardID sp = [] then Inl (ShMissingID i)
     else if ss_WriterDSN sp = [] then Inl (ShMissingDSN (ss_ShardID sp))
     else if ss_ShardID sp \<in> set seen then Inl (ShDuplicateID (ss_ShardID sp))
     else bindr (normalize_specs (Suc i) (ss_ShardID sp # seen) sps) (\<lambda>rest. Inr (sp # rest)))"

definition normalize :: "shard_map option \<Rightarrow> sharded_error + shard_map" where
  "normalize mo = (case mo of None \<Rightarrow> Inl (ShConfig ''shard map is nil'') | Some m \<Rightarrow>
     if sm_Shards m = [] then Inl (ShConfig ''shard map contains no shards'')
     else bindr (normalize_specs 0 [] (sm_Shards m)) (\<lambda>sps. Inr (m \<lparr> sm_Shards := sort_key ss_ShardID sps \<rparr>)))"

text \<open>\<^verbatim>\<open>PostgresConfig\<close> of package postgres, and what \<^verbatim>\<open>url.Parse\<close> yields of a DSN.\<close>

record pg_settings =
  ps_Host :: string
  ps_Port :: int
  ps_User :: string
  ps_Password :: string
  ps_Database :: string
  ps_ShardID :: string
  ps_SSLMode :: string
  ps_SchemaMode :: string
  ps_MaxConns :: int
  ps_MinConns :: int
  ps_MaxConnAge :: string
  ps_MaxIdleTime :: string
  ps_SlimEvents :: bool
  ps_QueueClaimMode :: string
  ps_DeferEvents :: bool
  ps_EventBatchSize :: int
  ps_PrefetchEnabled :: bool
  ps_PrefetchBufferSize :: int
  ps_PrefetchBatchSize :: int

record dsn_url =
  u_Hostname :: string
  u_Port :: string
  u_User :: "(string \<times> string) option"
  u_Path :: string
  u_SSLMode :: string

definition trim_slash :: "string \<Rightarrow> string" where
  "trim_slash s = (case s of c # cs \<Rightarrow> if c = CHR ''/'' then cs else s | [] \<Rightarrow> [])"

definition postgresConfigFromShardSpec ::
  "(string \<Rightarrow> dsn_url option) \<Rightarrow> sharded_config \<Rightarrow> shard_spec \<Rightarrow> sharded_error + pg_settings" where
  "postgresConfigFromShardSpec parse cfg sp = (case parse (ss_WriterDSN sp) of
     None \<Rightarrow> Inl (ShConfig ''parse writer_dsn'')
   | Some u \<Rightarrow>
       let password = (case u_User u of None \<Rightarrow> [] | Some (_, pw) \<Rightarrow> pw);
           port = (if u_Port u = [] then 5432 else case atoi (u_Port u) of None \<Rightarrow> 5432 | Some n \<Rightarrow> n);
           sslMode = (if u_SSLMode u = [] then ''disable'' else u_SSLMode u);
           database = trim_slash (u_Path u);
           user = (case u_User u of None \<Rightarrow> [] | Some (name, _) \<Rightarrow> name)
       in if database = [] then Inl (ShConfig ''writer_dsn missing database name'')
          else if user = [] then Inl (ShConfig ''writer_dsn missing user'')
          else if u_Hostname u = [] then Inl (ShConfig ''writer_dsn missing hostname'')
          else Inr \<lparr> ps_Host = u_Hostname u, ps_Port = port, ps_User = user, ps_Password = password,
            ps_Database = database, ps_ShardID = ss_ShardID sp, ps_SSLMode = sslMode, ps_SchemaMode = sc_SchemaMode cfg,
            ps_MaxConns = sc_MaxConns cfg, ps_MinConns = sc_MinConns cfg, ps_MaxConnAge = sc_MaxConnAge cfg,
            ps_MaxIdleTime = sc_MaxIdleTime cfg, ps_SlimEvents = sc_SlimEvents cfg,
            ps_QueueClaimMode = sc_QueueClaimMode cfg, ps_DeferEvents = sc_DeferEvents cfg,
            ps_EventBatchSize = sc_EventBatchSize cfg, ps_PrefetchEnabled = sc_PrefetchEnabled cfg,
            ps_PrefetchBufferSize = sc_PrefetchBufferSize cfg, ps_PrefetchBatchSize = sc_PrefetchBatchSize cfg \<rparr>)"

text \<open>The buffer and batch size of a prefetch registry.\<close>

definition newPrefetchRegistry :: "int \<Rightarrow> int \<Rightarrow> nat \<times> nat" where
  "newPrefetchRegistry bufferSize batchSize =
    (nat (if bufferSize \<le> 0 then 64 else bufferSize), nat (if batchSize \<le> 0 then 32 else batchSize))"

text \<open>The fields \<^verbatim>\<open>NewPostgresStore\<close> gives a store; the pool, the listener and the goroutines it starts
  are outside.\<close>

definition new_store_config :: "pg_settings \<Rightarrow> store_error + pg_config" where
  "new_store_config ps = bindr (ParseQueueClaimMode (ps_QueueClaimMode ps)) (\<lambda>mode.
     Inr \<lparr> cf_slimEvents = ps_SlimEvents ps, cf_deferEvents = ps_DeferEvents ps, cf_queueClaimMode = mode,
       cf_shardID = ps_ShardID ps, cf_leaseDuration = lo_LeaseDuration DefaultLeaseOptions,
       cf_prefetch = (if ps_PrefetchEnabled ps \<and> mode = QueueClaimModeParallel
         then Some (newPrefetchRegistry (ps_PrefetchBufferSize ps) (ps_PrefetchBatchSize ps)) else None) \<rparr>)"

section \<open>A node\<close>

text \<open>\<^verbatim>\<open>no_store\<close> stands where \<^verbatim>\<open>x_pg\<close> has no store to describe; no operation looks there.\<close>

definition no_store :: pg_config where
  "no_store = \<lparr> cf_slimEvents = False, cf_deferEvents = False, cf_queueClaimMode = [], cf_shardID = [],
     cf_leaseDuration = 0, cf_prefetch = None \<rparr>"

record sharded_conf =
  x_map :: shard_map
  x_pg :: "string \<Rightarrow> pg_config"

record sharded =
  sh_shards :: "(string \<times> pg_store) list"
  sh_ids :: "string gomap"

definition ownsShard :: "sharded_config \<Rightarrow> shard_spec \<Rightarrow> bool" where
  "ownsShard cfg sp =
    (let nodeID = trim_space (sc_NodeID cfg); ownerNodeID = trim_space (ss_OwnerNodeID sp) in
     if nodeID = [] then True else if ownerNodeID = [] then True else ownerNodeID = nodeID)"

text \<open>The stores a node opens; \<open>connect\<close> is the outcome of opening the database with the settings: the
  store with its tables as they are found, or the error.\<close>

fun open_shards ::
  "(string \<Rightarrow> dsn_url option) \<Rightarrow> (pg_settings \<Rightarrow> store_error + pg_store) \<Rightarrow> sharded_config \<Rightarrow> shard_spec list \<Rightarrow>
     sharded_error + (string \<times> pg_config \<times> pg_store) list" where
  "open_shards parse connect cfg [] = Inr []"
| "open_shards parse connect cfg (sp # sps) =
    (if \<not> ownsShard cfg sp then open_shards parse connect cfg sps
     else bindr (postgresConfigFromShardSpec parse cfg sp) (\<lambda>ps.
       case bindr (new_store_config ps) (\<lambda>pc. bindr (connect ps) (\<lambda>g. Inr (pc, g))) of
         Inl er \<Rightarrow> Inl (ShCreateStore (ss_ShardID sp) er)
       | Inr (pc, g) \<Rightarrow> bindr (open_shards parse connect cfg sps) (\<lambda>rest. Inr ((ss_ShardID sp, pc, g) # rest))))"

text \<open>The file is read by \<open>load\<close>, which yields the decoded map.\<close>

definition NewSharded ::
  "(string \<Rightarrow> shard_map option) \<Rightarrow> (string \<Rightarrow> dsn_url option) \<Rightarrow> (pg_settings \<Rightarrow> store_error + pg_store) \<Rightarrow>
     sharded_config option \<Rightarrow> sharded_error + sharded_conf \<times> sharded" where
  "NewSharded load parse connect cfgo = (case cfgo of
     None \<Rightarrow> Inl (ShConfig ''postgres sharded config is nil'')
   | Some cfg \<Rightarrow>
       if trim_space (sc_ShardMapFile cfg) = [] then Inl (ShConfig ''postgres sharded config missing shard_map_file'')
       else case load (sc_ShardMapFile cfg) of
         None \<Rightarrow> Inl (ShConfig ''read shard map'')
       | Some raw \<Rightarrow> bindr (normalize (Some raw)) (\<lambda>m.
           bindr (open_shards parse connect cfg (sm_Shards m)) (\<lambda>hs.
             Inr (\<lparr> x_map = m, x_pg = (\<lambda>k. case map_of hs k of Some (pc, _) \<Rightarrow> pc | None \<Rightarrow> no_store) \<rparr>,
                  \<lparr> sh_shards = map (\<lambda>(k, _, g). (k, g)) hs, sh_ids = [] \<rparr>))))"

section \<open>Routing\<close>

definition hashKey :: "string \<Rightarrow> string \<Rightarrow> 32 word" where
  "hashKey namespaceID queue = fnv_write (fnv_write (fnv_write 2166136261 namespaceID) '':'') queue"

definition targetShardSpec :: "sharded_conf \<Rightarrow> string \<Rightarrow> string \<Rightarrow> sharded_error + shard_spec" where
  "targetShardSpec x namespaceID queue =
    (let namespaceID = trim_space namespaceID; queue = trim_space queue in
     if namespaceID = [] then Inl ShNamespaceRequired
     else if queue = [] then Inl ShQueueRequired
     else if sm_Shards (x_map x) = [] then Inl ShNoShards
     else let idx = unat (hashKey namespaceID queue mod word_of_nat (length (sm_Shards (x_map x))))
          in Inr (sm_Shards (x_map x) ! idx))"

definition remoteShardOwner :: "shard_spec \<Rightarrow> sharded_error" where
  "remoteShardOwner sp = ShRemoteOwner (ss_ShardID sp) (ss_OwnerNodeID sp) (ss_AdvertiseAddr sp)"

definition owned :: "sharded \<Rightarrow> string \<Rightarrow> bool" where
  "owned s k = (case map_of (sh_shards s) k of None \<Rightarrow> False | Some _ \<Rightarrow> True)"

definition shardForNamespaceQueue :: "sharded_conf \<Rightarrow> sharded \<Rightarrow> string \<Rightarrow> string \<Rightarrow> sharded_error + string" where
  "shardForNamespaceQueue x s namespaceID queue = bindr (targetShardSpec x namespaceID queue) (\<lambda>sp.
     if owned s (ss_ShardID sp) then Inr (ss_ShardID sp) else Inl (remoteShardOwner sp))"

text \<open>The answer is \<^const>\<open>None\<close> when the context carries no hint.\<close>

definition shardFromHint :: "sharded_conf \<Rightarrow> sharded \<Rightarrow> go_context \<Rightarrow> (sharded_error + string) option" where
  "shardFromHint x s ctx =
    (let shardID = trim_space (ShardIDFromContext ctx) in
     if shardID = [] then None
     else if owned s shardID then Some (Inr shardID)
     else case find (\<lambda>sp. ss_ShardID sp = shardID) (sm_Shards (x_map x)) of
       Some sp \<Rightarrow> Some (Inl (remoteShardOwner sp))
     | None \<Rightarrow> Some (Inl (ShUnknownShard shardID)))"

definition shardFromAgent :: "sharded_conf \<Rightarrow> sharded \<Rightarrow> agent option \<Rightarrow> sharded_error + string" where
  "shardFromAgent x s ao = (case ao of None \<Rightarrow> Inl ShNilAgent | Some t \<Rightarrow>
     let namespaceID = trim_space (a_NamespaceID t);
         namespaceID = (if namespaceID = [] then trim_space (str_at (or_nil (a_Metadata t)) NamespaceMetadataKey) else namespaceID);
         queue = trim_space (str_at (or_nil (a_Metadata t)) QueueMetadataKey)
     in shardForNamespaceQueue x s namespaceID queue)"

definition queryNamespaceAndQueue :: "query option \<Rightarrow> string \<times> string" where
  "queryNamespaceAndQueue qo = (case qo of None \<Rightarrow> ([], []) | Some q \<Rightarrow>
     (trim_space (q_NamespaceID q), trim_space (str_at (or_nil (q_Metadata q)) QueueMetadataKey)))"

definition shardFromQuery :: "sharded_conf \<Rightarrow> sharded \<Rightarrow> query option \<Rightarrow> (sharded_error + string) option" where
  "shardFromQuery x s qo =
    (let (namespaceID, queue) = queryNamespaceAndQueue qo in
     if namespaceID = [] \<or> queue = [] then None else Some (shardForNamespaceQueue x s namespaceID queue))"

section \<open>Lemmas\<close>

lemma trim_spec_idem [simp]: "trim_spec (trim_spec sp) = trim_spec sp"
  by (simp add: trim_spec_def)

lemma trim_spec_fields [simp]:
  "ss_ShardID (trim_spec sp) = trim_space (ss_ShardID sp)" "ss_WriterDSN (trim_spec sp) = trim_space (ss_WriterDSN sp)"
  by (simp_all add: trim_spec_def)

text \<open>The shape of a normalised map: at least one shard, ids and DSNs trimmed and not empty, ids distinct
  and ascending.\<close>

definition valid_spec :: "shard_spec \<Rightarrow> bool" where
  "valid_spec sp \<longleftrightarrow> trim_spec sp = sp \<and> ss_ShardID sp \<noteq> [] \<and> ss_WriterDSN sp \<noteq> []"

definition wf_shard_map :: "shard_map \<Rightarrow> bool" where
  "wf_shard_map m \<longleftrightarrow> sm_Shards m \<noteq> [] \<and> list_all valid_spec (sm_Shards m) \<and>
     distinct (map ss_ShardID (sm_Shards m)) \<and> sorted (map ss_ShardID (sm_Shards m))"

lemma normalize_specs_ok:
  "normalize_specs i seen sps = Inr out \<longleftrightarrow> out = map trim_spec sps \<and> list_all (valid_spec \<circ> trim_spec) sps \<and>
     distinct (map (ss_ShardID \<circ> trim_spec) sps) \<and> (ss_ShardID \<circ> trim_spec) ` set sps \<inter> set seen = {}"
proof (induction sps arbitrary: i seen out)
  case (Cons sp sps)
  show ?case
    unfolding normalize_specs.simps Let_def bindr_eq_Inr
    by (auto simp: Cons.IH bindr_eq_Inr valid_spec_def comp_def)
qed auto

lemma normalize_ok:
  "normalize (Some m) = Inr m' \<longleftrightarrow> sm_Shards m \<noteq> [] \<and> list_all (valid_spec \<circ> trim_spec) (sm_Shards m) \<and>
     distinct (map (ss_ShardID \<circ> trim_spec) (sm_Shards m)) \<and>
     m' = m \<lparr> sm_Shards := sort_key ss_ShardID (map trim_spec (sm_Shards m)) \<rparr>"
  by (auto simp: normalize_def bindr_eq_Inr normalize_specs_ok)

lemma sort_key_empty_iff: "sort_key f xs = [] \<longleftrightarrow> xs = []"
  by (metis length_0_conv length_sort)

lemma distinct_map_sort_key: "distinct (map f (sort_key f xs)) \<longleftrightarrow> distinct (map f xs)"
  by (metis mset_map mset_sort mset_eq_imp_distinct_iff)

lemma normalize_wf: "normalize (Some m) = Inr m' \<Longrightarrow> wf_shard_map m'"
  by (auto simp: normalize_ok wf_shard_map_def list_all_iff sort_key_empty_iff distinct_map_sort_key comp_def)

lemma sort_key_order_irrelevant:
  assumes "mset xs = mset ys" "distinct (map f xs)"
  shows "sort_key f xs = sort_key f ys"
proof (rule map_sorted_distinct_set_unique[of f])
  have set: "set ys = set xs" using mset_eq_setD[OF assms(1)] ..
  have "mset (map f ys) = mset (map f xs)" using assms(1) by simp
  then have d: "distinct (map f ys)" using assms(2) mset_eq_imp_distinct_iff by blast
  show "inj_on f (set (sort_key f xs) \<union> set (sort_key f ys))" using assms(2) set by (simp add: distinct_map)
  show "distinct (map f (sort_key f xs))" "distinct (map f (sort_key f ys))"
    using assms(2) d by (simp_all add: distinct_map_sort_key)
  show "set (sort_key f xs) = set (sort_key f ys)" using set by simp
qed simp_all

lemma normalize_order:
  assumes "normalize (Some m1) = Inr m1'" "normalize (Some m2) = Inr m2'" "mset (sm_Shards m1) = mset (sm_Shards m2)"
  shows "sm_Shards m1' = sm_Shards m2'"
proof -
  have "mset (map trim_spec (sm_Shards m1)) = mset (map trim_spec (sm_Shards m2))" using assms(3) by simp
  moreover have "distinct (map ss_ShardID (map trim_spec (sm_Shards m1)))" using assms(1) by (simp add: normalize_ok)
  ultimately show ?thesis using sort_key_order_irrelevant assms(1,2) by (fastforce simp: normalize_ok)
qed

text \<open>Where a key goes: the answer of every node follows from the shard alone.\<close>

definition answer :: "shard_spec \<Rightarrow> sharded \<Rightarrow> sharded_error + string" where
  "answer sp s = (if owned s (ss_ShardID sp) then Inr (ss_ShardID sp) else Inl (remoteShardOwner sp))"

lemma target_total:
  assumes "sm_Shards (x_map x) \<noteq> []" "length (sm_Shards (x_map x)) < 2 ^ 32" "trim_space ns \<noteq> []" "trim_space q \<noteq> []"
  shows "\<exists>sp \<in> set (sm_Shards (x_map x)). targetShardSpec x ns q = Inr sp"
proof -
  let ?n = "length (sm_Shards (x_map x))"
  let ?i = "unat (hashKey (trim_space ns) (trim_space q) mod word_of_nat ?n)"
  have "unat (word_of_nat ?n :: 32 word) = ?n" using assms(2) by (simp add: unat_of_nat)
  then have "?i < ?n" using assms(1) by (simp add: unat_mod)
  then have "sm_Shards (x_map x) ! ?i \<in> set (sm_Shards (x_map x))" by simp
  then show ?thesis using assms by (simp add: targetShardSpec_def Let_def)
qed

lemma target_trim: "targetShardSpec x (trim_space ns) (trim_space q) = targetShardSpec x ns q"
  by (simp add: targetShardSpec_def)

lemma shardForNamespaceQueue_answer:
  "targetShardSpec x ns q = Inr sp \<Longrightarrow> shardForNamespaceQueue x s ns q = answer sp s"
  by (simp add: shardForNamespaceQueue_def answer_def)

text \<open>The key of an agent: the namespace of the agent or of its metadata, and the queue.\<close>

definition agent_key :: "agent \<Rightarrow> string \<times> string" where
  "agent_key t = (if trim_space (a_NamespaceID t) = [] then trim_space (str_at (or_nil (a_Metadata t)) NamespaceMetadataKey)
     else trim_space (a_NamespaceID t), trim_space (str_at (or_nil (a_Metadata t)) QueueMetadataKey))"

lemma shardFromAgent_key:
  "shardFromAgent x s (Some t) = shardForNamespaceQueue x s (fst (agent_key t)) (snd (agent_key t))"
  by (simp add: shardFromAgent_def agent_key_def Let_def)

lemma agent_key_trim [simp]:
  "trim_space (fst (agent_key t)) = fst (agent_key t)" "trim_space (snd (agent_key t)) = snd (agent_key t)"
  by (simp_all add: agent_key_def)

section \<open>A map for examples\<close>

definition demo_spec :: "string \<Rightarrow> shard_spec" where
  "demo_spec k = \<lparr> ss_ShardID = k, ss_WriterDSN = ''postgres://u@h/db'', ss_ReplicaDSNs = [], ss_OwnerNodeID = [],
     ss_AdvertiseAddr = [] \<rparr>"

definition demo_map :: "string list \<Rightarrow> shard_map" where
  "demo_map ks = \<lparr> sm_Version = 1, sm_Epoch = 0, sm_Shards = map demo_spec ks \<rparr>"

definition demo_conf :: sharded_conf where
  "demo_conf = \<lparr> x_map = demo_map [''s1'', ''s2''], x_pg = (\<lambda>k. pg_demo_config \<lparr> cf_shardID := k \<rparr>) \<rparr>"

lemma demo_normalize:
  "normalize (Some (demo_map [''s2'', '' s1''])) = Inr (x_map demo_conf)"
  "normalize (Some (demo_map [''s2'', ''s1''])) = Inr (x_map demo_conf)"
  "normalize (Some (demo_map [''s1'', ''s2''])) = Inr (x_map demo_conf)"
  by code_simp+

section \<open>Properties\<close>

text \<open>C15: normalising the decoded shard map yields a well-formed map with the trimmed shards of the file, and
  normalising it again changes nothing.\<close>

theorem normalize_wellformed:
  assumes "normalize (Some m) = Inr m'"
  shows "wf_shard_map m' \<and> mset (sm_Shards m') = image_mset trim_spec (mset (sm_Shards m)) \<and> normalize (Some m') = Inr m'"
proof -
  have wf: "wf_shard_map m'" by (rule normalize_wf[OF assms])
  have sh: "mset (sm_Shards m') = image_mset trim_spec (mset (sm_Shards m))" using assms by (auto simp: normalize_ok)
  have "map trim_spec (sm_Shards m') = sm_Shards m'"
    using wf by (intro map_idI) (auto simp: wf_shard_map_def list_all_iff valid_spec_def)
  moreover have "sort_key ss_ShardID (sm_Shards m') = sm_Shards m'"
    using wf by (simp add: wf_shard_map_def sorted_sort_id sort_key_id_if_sorted)
  ultimately have "normalize (Some m') = Inr m'"
    using wf list_all_length[of "valid_spec \<circ> trim_spec" "sm_Shards m'"]
    unfolding normalize_ok wf_shard_map_def by (simp add: list_all_iff valid_spec_def flip: map_map)
  then show ?thesis using wf sh by blast
qed

theorem normalize_wellformed_witness:
  "wf_shard_map (x_map demo_conf) \<and> normalize (Some (x_map demo_conf)) = Inr (x_map demo_conf)"
  using normalize_wellformed[OF demo_normalize(1)] by blast

text \<open>C16: a producer and a worker agree on the shard of a queue.  Two nodes whose map files list the same shards, in
  any order, send an agent and a query with the same namespace and queue to the same shard: each node either uses its
  own store of that shard or names the owner of it in the error.\<close>

theorem routing_agrees:
  assumes "normalize (Some m1) = Inr (x_map x1)" "normalize (Some m2) = Inr (x_map x2)"
    and "mset (sm_Shards m1) = mset (sm_Shards m2)" "length (sm_Shards m1) < 2 ^ 32"
    and "queryNamespaceAndQueue (Some q) = agent_key t" "fst (agent_key t) \<noteq> []" "snd (agent_key t) \<noteq> []"
  shows "\<exists>sp \<in> set (sm_Shards (x_map x1)). \<forall>s1 s2.
    shardFromAgent x1 s1 (Some t) = answer sp s1 \<and> shardFromQuery x2 s2 (Some q) = Some (answer sp s2)"
proof -
  let ?ns = "fst (agent_key t)" and ?q = "snd (agent_key t)"
  have same: "sm_Shards (x_map x1) = sm_Shards (x_map x2)" by (rule normalize_order[OF assms(1-3)])
  have "length (sm_Shards (x_map x1)) = length (sm_Shards m1)" using assms(1) by (auto simp: normalize_ok)
  moreover have "sm_Shards (x_map x1) \<noteq> []" using normalize_wf[OF assms(1)] by (simp add: wf_shard_map_def)
  ultimately obtain sp where sp: "sp \<in> set (sm_Shards (x_map x1))" "targetShardSpec x1 ?ns ?q = Inr sp"
    using target_total[of x1 ?ns ?q] assms(4,6,7) by auto
  have t2: "targetShardSpec x2 ?ns ?q = Inr sp" using sp(2) unfolding targetShardSpec_def same .
  have "shardFromQuery x2 s (Some q) = Some (answer sp s)" for s
    using shardForNamespaceQueue_answer[OF t2] assms(5-7) by (simp add: shardFromQuery_def split_beta)
  then show ?thesis using sp shardForNamespaceQueue_answer[OF sp(2)] by (auto simp: shardFromAgent_key)
qed

theorem routing_agrees_witness:
  "\<exists>sp \<in> set (sm_Shards (x_map demo_conf)). \<forall>s1 s2.
    shardFromAgent demo_conf s1 (Some (empty_agent \<lparr> a_NamespaceID := '' ns'', a_Metadata := Some [(''queue'', ''jobs '')] \<rparr>)) = answer sp s1 \<and>
    shardFromQuery demo_conf s2 (Some (empty_query \<lparr> q_NamespaceID := ''ns'', q_Metadata := Some [(''queue'', ''jobs'')] \<rparr>)) = Some (answer sp s2)"
proof (rule routing_agrees[OF demo_normalize(2,3)])
  show "mset (sm_Shards (demo_map [''s2'', ''s1''])) = mset (sm_Shards (demo_map [''s1'', ''s2'']))"
    "length (sm_Shards (demo_map [''s2'', ''s1''])) < 2 ^ 32" by (simp_all add: demo_map_def)
qed (code_simp+)

end
