(* ===== verification/Sharded_Store.thy ===== *)
theory Sharded_Store
  imports Sharded_Routing
begin

text \<open>
  The operations of the sharded Postgres store (\<^verbatim>\<open>postgressharded/store.go\<close>), each the calls it makes on the
  Postgres stores of its shards.  Operations on one agent find its shard by the hint in the context, by the cache
  or by asking every shard in the order of their ids; operations on a queue go to the shard of the queue;
  everything else visits all shards of the node.

  An environment has one environment for each call on a shard: the look-up in the cached shard, the call
  made in a loop over the shards, the read of the agent found, and the operation proper.
\<close>

record sh_env =
  en_cached :: pg_env
  en_each :: "string \<Rightarrow> pg_env"
  en_get :: pg_env
  en_call :: "nat \<Rightarrow> pg_env"

section \<open>Calls on a shard\<close>

text \<open>A handle always names a shard of the node; the other case would be a nil dereference.\<close>

definition call_shard ::
  "string \<Rightarrow> (pg_store \<Rightarrow> (store_error + 'a) \<times> pg_store) \<Rightarrow> sharded \<Rightarrow> (sharded_error + 'a) \<times> sharded" where
  "call_shard k f s = (case map_of (sh_shards s) k of
     None \<Rightarrow> (Inl ShNilStore, s)
   | Some g \<Rightarrow> let (r, g') = f g in (map_sum ShStore id r, s \<lparr> sh_shards := AList.update k g' (sh_shards s) \<rparr>))"

definition read_shard :: "string \<Rightarrow> (pg_db \<Rightarrow> store_error + 'a) \<Rightarrow> sharded \<Rightarrow> sharded_error + 'a" where
  "read_shard k f s = (case map_of (sh_shards s) k of
     None \<Rightarrow> Inl ShNilStore | Some g \<Rightarrow> map_sum ShStore id (f (g_db g)))"

definition remember :: "string \<Rightarrow> string \<Rightarrow> sharded \<Rightarrow> sharded" where
  "remember i k s = s \<lparr> sh_ids := AList.update i k (sh_ids s) \<rparr>"

definition annotateAgent :: "agent \<Rightarrow> string \<Rightarrow> sharded \<Rightarrow> agent \<times> sharded" where
  "annotateAgent t k s = (t \<lparr> a_ShardID := k \<rparr>, remember (a_ID t) k s)"

fun annotateAgents :: "agent list \<Rightarrow> string \<Rightarrow> sharded \<Rightarrow> agent list \<times> sharded" where
  "annotateAgents [] k s = ([], s)"
| "annotateAgents (t # ts) k s =
    (let (t, s) = annotateAgent t k s; (ts, s) = annotateAgents ts k s in (t # ts, s))"

text \<open>\<^verbatim>\<open>if err != nil { return nil, err }; return s.annotateAgent(t, shardID), nil\<close>\<close>

definition annotated :: "string \<Rightarrow> (sharded_error + agent) \<times> sharded \<Rightarrow> (sharded_error + agent) \<times> sharded" where
  "annotated k x = (case x of (Inl er, s) \<Rightarrow> (Inl er, s)
     | (Inr t, s) \<Rightarrow> let (t, s) = annotateAgent t k s in (Inr t, s))"

definition orderedShardIDs :: "sharded \<Rightarrow> string list" where
  "orderedShardIDs s = sort (map fst (sh_shards s))"

section \<open>Finding the shard of an agent\<close>

fun probe_shards :: "sh_env \<Rightarrow> string \<Rightarrow> string list \<Rightarrow> sharded \<Rightarrow> (sharded_error + string) \<times> sharded" where
  "probe_shards e i [] s = (Inl (ShNotFound i), s)"
| "probe_shards e i (k # ks) s = (case read_shard k (\<lambda>d. PgGet (en_each e k) d i) s of
     Inl _ \<Rightarrow> probe_shards e i ks s
   | Inr t \<Rightarrow> (Inr k, snd (annotateAgent t k s)))"

definition shardByTupleID ::
  "sharded_conf \<Rightarrow> sh_env \<Rightarrow> go_context \<Rightarrow> string \<Rightarrow> sharded \<Rightarrow> (sharded_error + string) \<times> sharded" where
  "shardByTupleID x e ctx i s = (case shardFromHint x s ctx of
     Some r \<Rightarrow> (r, s)
   | None \<Rightarrow>
       let scan = probe_shards e i (orderedShardIDs s) s in
       (case map_of (sh_ids s) i of
          None \<Rightarrow> scan
        | Some k \<Rightarrow>
            if \<not> owned s k then scan
            else case read_shard k (\<lambda>d. PgGet (en_cached e) d i) s of
              Inl _ \<Rightarrow> scan
            | Inr t \<Rightarrow> (Inr k, snd (annotateAgent t k s))))"

text \<open>An operation on one agent: find its shard, call its store, annotate what it returns.\<close>

definition on_agent_shard ::
  "sharded_conf \<Rightarrow> sh_env \<Rightarrow> go_context \<Rightarrow> string \<Rightarrow> (string \<Rightarrow> sharded \<Rightarrow> (sharded_error + 'a) \<times> sharded) \<Rightarrow>
     sharded \<Rightarrow> (sharded_error + 'a) \<times> sharded" where
  "on_agent_shard x e ctx i f s = (case shardByTupleID x e ctx i s of
     (Inl er, s) \<Rightarrow> (Inl er, s) | (Inr k, s) \<Rightarrow> f k s)"

definition getWithContext ::
  "sharded_conf \<Rightarrow> sh_env \<Rightarrow> go_context \<Rightarrow> string \<Rightarrow> sharded \<Rightarrow> (sharded_error + agent) \<times> sharded" where
  "getWithContext x e ctx i =
    on_agent_shard x e ctx i (\<lambda>k s. annotated k (read_shard k (\<lambda>d. PgGet (en_get e) d i) s, s))"

section \<open>Out and the claims\<close>

definition ShOut :: "sharded_conf \<Rightarrow> sh_env \<Rightarrow> sharded \<Rightarrow> agent option \<Rightarrow> (sharded_error + agent) \<times> sharded" where
  "ShOut x e s ao = (case (shardFromAgent x s ao, ao) of
     (Inr k, Some t) \<Rightarrow>
       let t = t \<lparr> a_Metadata := Some (or_nil (a_Metadata t)), a_ShardID := k \<rparr> in
       (case call_shard k (\<lambda>g. PgOut (x_pg x k) (en_call e 0) g t) s of
          (Inl er, s) \<Rightarrow> (Inl er, s) | (Inr t, s) \<Rightarrow> (Inr t, remember (a_ID t) k s))
   | (Inl er, _) \<Rightarrow> (Inl er, s)
   | (Inr _, None) \<Rightarrow> (Inl ShNilAgent, s))"

text \<open>An operation on a queue: the shard comes from the query, which must name namespace and queue.\<close>

definition on_queue_shard ::
  "sharded_conf \<Rightarrow> string \<Rightarrow> query option \<Rightarrow> (string \<Rightarrow> (sharded_error + 'a) \<times> sharded) \<Rightarrow> sharded \<Rightarrow>
     (sharded_error + 'a) \<times> sharded" where
  "on_queue_shard x verb qo f s = (case shardFromQuery x s qo of
     Some (Inl er) \<Rightarrow> (Inl er, s) | None \<Rightarrow> (Inl (ShKeysRequired verb), s) | Some (Inr k) \<Rightarrow> f k)"

definition annotate_claim :: "string \<Rightarrow> (sharded_error + agent option) \<times> sharded \<Rightarrow> (sharded_error + agent option) \<times> sharded" where
  "annotate_claim k r = (case r of
     (Inr (Some t), s) \<Rightarrow> let (t, s) = annotateAgent t k s in (Inr (Some t), s) | _ \<Rightarrow> r)"

definition ShTake :: "sharded_conf \<Rightarrow> sh_env \<Rightarrow> sharded \<Rightarrow> query option \<Rightarrow> (sharded_error + agent option) \<times> sharded" where
  "ShTake x e s qo = on_queue_shard x ''take'' qo
     (\<lambda>k. annotate_claim k (call_shard k (\<lambda>g. PgTake (x_pg x k) (en_call e) g qo) s)) s"

definition ShBatchTake ::
  "sharded_conf \<Rightarrow> sh_env \<Rightarrow> sharded \<Rightarrow> query option \<Rightarrow> int \<Rightarrow> (sharded_error + agent list) \<times> sharded" where
  "ShBatchTake x e s qo limit = on_queue_shard x ''batch-take'' qo
     (\<lambda>k. case call_shard k (\<lambda>g. PgBatchTake (x_pg x k) (en_call e 0) g qo limit) s of
        (Inl er, s) \<Rightarrow> (Inl er, s)
      | (Inr ts, s) \<Rightarrow> let (ts, s) = annotateAgents ts k s in (Inr ts, s)) s"

text \<open>In waits in the store of the shard; \<open>es i\<close> are the environments of its \<open>i\<close>-th round.\<close>

definition ShIn ::
  "sharded_conf \<Rightarrow> nat \<Rightarrow> (nat \<Rightarrow> nat \<Rightarrow> pg_env) \<Rightarrow> pg_store poll \<Rightarrow> query option \<Rightarrow> duration \<Rightarrow> sharded \<Rightarrow>
     ((sharded_error + agent) \<times> sharded) option" where
  "ShIn x fuel es p qo timeout s = (case shardFromQuery x s qo of
     Some (Inl er) \<Rightarrow> Some (Inl er, s)
   | None \<Rightarrow> Some (Inl (ShKeysRequired ''in''), s)
   | Some (Inr k) \<Rightarrow> (case map_of (sh_shards s) k of
       None \<Rightarrow> Some (Inl ShNilStore, s)
     | Some g \<Rightarrow> map_option (\<lambda>y. annotated k (call_shard k (\<lambda>_. y) s)) (PgIn (x_pg x k) fuel es p qo timeout g)))"

section \<open>Update, Complete, Release and RenewLease\<close>

definition updateWithContext ::
  "sharded_conf \<Rightarrow> sh_env \<Rightarrow> go_context \<Rightarrow> string \<Rightarrow> gval gomap option \<Rightarrow> sharded \<Rightarrow> (sharded_error + unit) \<times> sharded" where
  "updateWithContext x e ctx i updates =
    on_agent_shard x e ctx i (\<lambda>k. call_shard k (\<lambda>g. PgUpdate (x_pg x k) (en_call e 0) g i updates))"

text \<open>The guard looks only at a \<^verbatim>\<open>map[string]string\<close>.\<close>

definition moves_queue :: "gval gomap option \<Rightarrow> bool" where
  "moves_queue updates = (case map_of (or_nil updates) ''metadata'' of
     Some (VStrMap m) \<Rightarrow> trim_space (str_at m QueueMetadataKey) \<noteq> [] | _ \<Rightarrow> False)"

definition ShUpdate ::
  "sharded_conf \<Rightarrow> sh_env \<Rightarrow> sharded \<Rightarrow> string \<Rightarrow> gval gomap option \<Rightarrow> (sharded_error + unit) \<times> sharded" where
  "ShUpdate x e s i updates =
    (if moves_queue updates then (Inl ShMovesQueue, s) else updateWithContext x e Background i updates s)"

definition ShUpdateAndGet ::
  "sharded_conf \<Rightarrow> sh_env \<Rightarrow> sh_env \<Rightarrow> sharded \<Rightarrow> string \<Rightarrow> gval gomap option \<Rightarrow> (sharded_error + agent) \<times> sharded" where
  "ShUpdateAndGet x e e' s i updates = (case ShUpdate x e s i updates of
     (Inl er, s) \<Rightarrow> (Inl er, s) | (Inr _, s) \<Rightarrow> getWithContext x e' Background i s)"

definition completeAndGetWithContext ::
  "sharded_conf \<Rightarrow> sh_env \<Rightarrow> go_context \<Rightarrow> string \<Rightarrow> string \<Rightarrow> string \<Rightarrow> gval gomap option \<Rightarrow> sharded \<Rightarrow>
     (sharded_error + agent) \<times> sharded" where
  "completeAndGetWithContext x e ctx i agentID leaseToken result = on_agent_shard x e ctx i (\<lambda>k s.
     annotated k (call_shard k (\<lambda>g. PgCompleteAndGet (x_pg x k) (en_call e 0) g i agentID leaseToken result) s))"

text \<open>The outputs are routed one by one; each must come to the shard of the source and gets its id.\<close>

fun route_outputs :: "sharded_conf \<Rightarrow> sharded \<Rightarrow> string \<Rightarrow> agent list \<Rightarrow> sharded_error + agent list" where
  "route_outputs x s source [] = Inr []"
| "route_outputs x s source (t # ts) = bindr (shardFromAgent x s (Some t)) (\<lambda>k.
     if k \<noteq> source then Inl (ShCrossShard source k)
     else bindr (route_outputs x s source ts) (\<lambda>ts. Inr (t \<lparr> a_ShardID := k \<rparr> # ts)))"

definition completeAndOutWithContext ::
  "sharded_conf \<Rightarrow> sh_env \<Rightarrow> go_context \<Rightarrow> string \<Rightarrow> string \<Rightarrow> string \<Rightarrow> gval gomap option \<Rightarrow> agent list \<Rightarrow> sharded \<Rightarrow>
     (sharded_error + agent \<times> agent list) \<times> sharded" where
  "completeAndOutWithContext x e ctx i agentID leaseToken result outputs s = (case getWithContext x e ctx i s of
     (Inl er, s) \<Rightarrow> (Inl er, s)
   | (Inr source, s) \<Rightarrow>
       let k = a_ShardID source in
       if \<not> owned s k then (Inl (ShSourceShard k), s)
       else case route_outputs x s k outputs of
         Inl er \<Rightarrow> (Inl er, s)
       | Inr outputs \<Rightarrow>
           (case call_shard k (\<lambda>g. PgCompleteAndOut (x_pg x k) (en_call e 0) g i agentID leaseToken result outputs) s of
              (Inl er, s) \<Rightarrow> (Inl er, s)
            | (Inr (completed, created), s) \<Rightarrow>
                let (completed, s) = annotateAgent completed k s; (created, s) = annotateAgents created k s
                in (Inr (completed, created), s)))"

definition releaseAndGetWithContext ::
  "sharded_conf \<Rightarrow> sh_env \<Rightarrow> go_context \<Rightarrow> string \<Rightarrow> string \<Rightarrow> string \<Rightarrow> string \<Rightarrow> sharded \<Rightarrow>
     (sharded_error + agent) \<times> sharded" where
  "releaseAndGetWithContext x e ctx i agentID leaseToken reason = on_agent_shard x e ctx i (\<lambda>k s.
     annotated k (call_shard k (\<lambda>g. PgReleaseAndGet (x_pg x k) (en_call e 0) g i agentID leaseToken reason) s))"

definition renewLeaseWithContext ::
  "sharded_conf \<Rightarrow> sh_env \<Rightarrow> go_context \<Rightarrow> string \<Rightarrow> string \<Rightarrow> string \<Rightarrow> duration \<Rightarrow> sharded \<Rightarrow>
     (sharded_error + agent) \<times> sharded" where
  "renewLeaseWithContext x e ctx i agentID leaseToken dur = on_agent_shard x e ctx i (\<lambda>k s.
     annotated k (call_shard k (\<lambda>g. PgRenewLease (x_pg x k) (en_call e 0) g i agentID leaseToken dur) s))"

section \<open>Queries over all shards\<close>

definition applyGlobalLimitOffset :: "'a list \<Rightarrow> int \<Rightarrow> int \<Rightarrow> 'a list" where
  "applyGlobalLimitOffset values limit offset =
    (if 0 < offset \<and> int (length values) \<le> offset then []
     else let values = (if 0 < offset then drop (nat offset) values else values)
          in if 0 < limit \<and> limit < int (length values) then take (nat limit) values else values)"

fun query_shards ::
  "sh_env \<Rightarrow> query \<Rightarrow> (string \<times> pg_store) list \<Rightarrow> sharded \<Rightarrow> (sharded_error + agent list) \<times> sharded" where
  "query_shards e q [] s = (Inr [], s)"
| "query_shards e q ((k, g) # rest) s = (case PgQuery (en_each e k) (g_db g) (Some q) of
     Inl er \<Rightarrow> (Inl (ShStore er), s)
   | Inr ts \<Rightarrow>
       let (ts, s) = annotateAgents ts k s in
       (case query_shards e q rest s of (Inl er, s) \<Rightarrow> (Inl er, s) | (Inr all, s) \<Rightarrow> (Inr (ts @ all), s)))"

text \<open>\<^verbatim>\<open>sort.SliceStable\<close> by creation time, then id.\<close>

definition by_creation :: "agent list \<Rightarrow> agent list" where
  "by_creation ts = sort_key a_CreatedAt (sort_key a_ID ts)"

definition ShQuery :: "sharded_conf \<Rightarrow> sh_env \<Rightarrow> sharded \<Rightarrow> query option \<Rightarrow> (sharded_error + agent list) \<times> sharded" where
  "ShQuery x e s qo = (case shardFromQuery x s qo of
     Some (Inl er) \<Rightarrow> (Inl er, s)
   | Some (Inr k) \<Rightarrow> (case read_shard k (\<lambda>d. PgQuery (en_each e k) d qo) s of
       Inl er \<Rightarrow> (Inl er, s) | Inr ts \<Rightarrow> let (ts, s) = annotateAgents ts k s in (Inr ts, s))
   | None \<Rightarrow>
       let perShardQuery = (case qo of None \<Rightarrow> empty_query | Some q \<Rightarrow> q \<lparr> q_Limit := 0, q_Offset := 0 \<rparr>) in
       (case query_shards e perShardQuery (sh_shards s) s of
          (Inl er, s) \<Rightarrow> (Inl er, s)
        | (Inr all, s) \<Rightarrow> (Inr (case qo of None \<Rightarrow> by_creation all
            | Some q \<Rightarrow> applyGlobalLimitOffset (by_creation all) (q_Limit q) (q_Offset q)), s)))"

text \<open>The loop of a Read without queue: the query of round \<open>i\<close> runs in \<open>es i\<close>, then the deadline is tested.\<close>

fun read_rounds ::
  "sharded_conf \<Rightarrow> nat \<Rightarrow> nat \<Rightarrow> (nat \<Rightarrow> sh_env) \<Rightarrow> sharded poll \<Rightarrow> query option \<Rightarrow> duration \<Rightarrow> sharded \<Rightarrow>
     ((sharded_error + agent option) \<times> sharded) option" where
  "read_rounds x 0 i es p qo timeout s = None"
| "read_rounds x (Suc fuel) i es p qo timeout s = (case ShQuery x (es i) s qo of
     (Inl er, s) \<Rightarrow> Some (Inl er, s)
   | (Inr (t # _), s) \<Rightarrow> Some (Inr (Some t), s)
   | (Inr [], s) \<Rightarrow>
       if timeout \<le> 0 \<or> p_start p + timeout < p_now p i then Some (Inr None, s)
       else read_rounds x fuel (Suc i) es p qo timeout (p_other p i s))"

text \<open>A Read with a queue waits in the store of its shard, in the environments \<open>pes\<close>.\<close>

definition ShRead ::
  "sharded_conf \<Rightarrow> nat \<Rightarrow> (nat \<Rightarrow> sh_env) \<Rightarrow> sharded poll \<Rightarrow> (nat \<Rightarrow> pg_env) \<Rightarrow> pg_store poll \<Rightarrow> query option \<Rightarrow> duration \<Rightarrow>
     sharded \<Rightarrow> ((sharded_error + agent option) \<times> sharded) option" where
  "ShRead x fuel es p pes pp qo timeout s = (case shardFromQuery x s qo of
     Some (Inl er) \<Rightarrow> Some (Inl er, s)
   | Some (Inr k) \<Rightarrow> (case map_of (sh_shards s) k of
       None \<Rightarrow> Some (Inl ShNilStore, s)
     | Some g \<Rightarrow> map_option (\<lambda>y. annotate_claim k (call_shard k (\<lambda>_. map_prod (map_sum id Some) id y) s))
         (PgRead fuel pes pp qo timeout g))
   | None \<Rightarrow> read_rounds x fuel 0 es p qo timeout s)"

fun sum_shards :: "(string \<Rightarrow> pg_db \<Rightarrow> store_error + int) \<Rightarrow> (string \<times> pg_store) list \<Rightarrow> int \<Rightarrow> sharded_error + int" where
  "sum_shards f [] acc = Inr acc"
| "sum_shards f ((k, g) # rest) acc = (case f k (g_db g) of
     Inl er \<Rightarrow> Inl (ShStore er) | Inr n \<Rightarrow> sum_shards f rest (acc + n))"

definition ShCount :: "sharded_conf \<Rightarrow> sh_env \<Rightarrow> sharded \<Rightarrow> query option \<Rightarrow> sharded_error + int" where
  "ShCount x e s qo = (case shardFromQuery x s qo of
     Some (Inl er) \<Rightarrow> Inl er
   | Some (Inr k) \<Rightarrow> read_shard k (\<lambda>d. PgCount (en_each e k) d qo) s
   | None \<Rightarrow> sum_shards (\<lambda>k d. PgCount (en_each e k) d qo) (sh_shards s) 0)"

text \<open>\<^verbatim>\<open>counts[status] += count\<close>\<close>

definition add_count :: "status \<times> int \<Rightarrow> (status \<times> int) list \<Rightarrow> (status \<times> int) list" where
  "add_count c counts = AList.update (fst c)
     ((case map_of counts (fst c) of None \<Rightarrow> 0 | Some n \<Rightarrow> n) + snd c) counts"

fun count_shards ::
  "sh_env \<Rightarrow> query option \<Rightarrow> (string \<times> pg_store) list \<Rightarrow> (status \<times> int) list \<Rightarrow> sharded_error + (status \<times> int) list" where
  "count_shards e qo [] counts = Inr counts"
| "count_shards e qo ((k, g) # rest) counts = (case PgCountByStatus (en_each e k) (g_db g) qo of
     Inl er \<Rightarrow> Inl (ShStore er) | Inr current \<Rightarrow> count_shards e qo rest (fold add_count current counts))"

definition ShCountByStatus :: "sharded_conf \<Rightarrow> sh_env \<Rightarrow> sharded \<Rightarrow> query option \<Rightarrow> sharded_error + (status \<times> int) list" where
  "ShCountByStatus x e s qo = (case shardFromQuery x s qo of
     Some (Inl er) \<Rightarrow> Inl er
   | Some (Inr k) \<Rightarrow> read_shard k (\<lambda>d. PgCountByStatus (en_each e k) d qo) s
   | None \<Rightarrow> count_shards e qo (sh_shards s) [])"

section \<open>Events\<close>

fun subscribe_shards :: "event_filter option \<Rightarrow> handler option \<Rightarrow> (string \<times> pg_store) list \<Rightarrow> (string \<times> pg_store) list" where
  "subscribe_shards flt h [] = []"
| "subscribe_shards flt h ((k, g) # rest) = (k, PgSubscribe g flt h) # subscribe_shards flt h rest"

definition ShSubscribe :: "sharded \<Rightarrow> event_filter option \<Rightarrow> handler option \<Rightarrow> sharded" where
  "ShSubscribe s flt h = s \<lparr> sh_shards := subscribe_shards flt h (sh_shards s) \<rparr>"

definition getEventsWithContext ::
  "sharded_conf \<Rightarrow> sh_env \<Rightarrow> go_context \<Rightarrow> string \<Rightarrow> sharded \<Rightarrow> (sharded_error + event list) \<times> sharded" where
  "getEventsWithContext x e ctx tupleID =
    on_agent_shard x e ctx tupleID (\<lambda>k s. (read_shard k (\<lambda>d. PgGetEvents (en_get e) d tupleID) s, s))"

text \<open>Newest first, then by id.\<close>

definition by_recency :: "event list \<Rightarrow> event list" where
  "by_recency evs = sort_key (\<lambda>ev. - e_Timestamp ev) (sort_key e_ID evs)"

fun gather :: "(string \<Rightarrow> pg_db \<Rightarrow> store_error + 'a list) \<Rightarrow> (string \<times> pg_store) list \<Rightarrow> sharded_error + 'a list" where
  "gather f [] = Inr []"
| "gather f ((k, g) # rest) = (case f k (g_db g) of
     Inl er \<Rightarrow> Inl (ShStore er) | Inr xs \<Rightarrow> bindr (gather f rest) (\<lambda>ys. Inr (xs @ ys)))"

definition ShGetGlobalEvents :: "sh_env \<Rightarrow> sharded \<Rightarrow> int \<Rightarrow> int \<Rightarrow> sharded_error + event list" where
  "ShGetGlobalEvents e s limit offset =
    (let fetch = to_int64 (limit + offset); fetch = (if fetch \<le> 0 then 100 else fetch) in
     bindr (gather (\<lambda>k d. PgGetGlobalEvents (en_each e k) d fetch 0) (sh_shards s)) (\<lambda>all.
       Inr (applyGlobalLimitOffset (by_recency all) limit offset)))"

fun gather_pages ::
  "sh_env \<Rightarrow> event_query option \<Rightarrow> (string \<times> pg_store) list \<Rightarrow> sharded_error + event list \<times> int" where
  "gather_pages e qo [] = Inr ([], 0)"
| "gather_pages e qo ((k, g) # rest) = (case PgQueryEvents (en_each e k) (g_db g) qo of
     Inl er \<Rightarrow> Inl (ShStore er)
   | Inr page \<Rightarrow> bindr (gather_pages e qo rest) (\<lambda>(evs, cnt). Inr (ep_Events page @ evs, ep_Total page + cnt)))"

text \<open>The query goes to every shard as it is, its offset included, and the merged list is cut again.\<close>

definition queryEventsWithContext ::
  "sharded_conf \<Rightarrow> sh_env \<Rightarrow> go_context \<Rightarrow> event_query option \<Rightarrow> sharded \<Rightarrow> (sharded_error + event_page) \<times> sharded" where
  "queryEventsWithContext x e ctx qo s =
    (let q = (case qo of None \<Rightarrow> empty_event_query | Some q \<Rightarrow> q) in
     if eq_TupleID q \<noteq> [] then
       on_agent_shard x e ctx (eq_TupleID q) (\<lambda>k s. (read_shard k (\<lambda>d. PgQueryEvents (en_get e) d qo) s, s)) s
     else (bindr (gather_pages e qo (sh_shards s)) (\<lambda>(all, cnt).
       Inr \<lparr> ep_Events = applyGlobalLimitOffset (by_recency all) (eq_Limit q) (eq_Offset q), ep_Total = cnt,
         ep_NextCursor = [] \<rparr>), s))"

section \<open>Graph and administration\<close>

text \<open>\<open>es\<close> are the environments of the reads of the traversal on the shard.\<close>

definition getDAGWithContext ::
  "sharded_conf \<Rightarrow> sh_env \<Rightarrow> (nat \<Rightarrow> pg_env) \<Rightarrow> go_context \<Rightarrow> string \<Rightarrow> sharded \<Rightarrow> (sharded_error + dag option) \<times> sharded" where
  "getDAGWithContext x e es ctx rootID =
    on_agent_shard x e ctx rootID (\<lambda>k s. (read_shard k (\<lambda>d. Inr (PgGetDAG es d rootID)) s, s))"

text \<open>\<open>health k\<close> is the answer of the database of shard \<open>k\<close>.\<close>

fun ShHealth :: "(string \<Rightarrow> store_error option) \<Rightarrow> (string \<times> pg_store) list \<Rightarrow> sharded_error option" where
  "ShHealth health [] = None"
| "ShHealth health ((k, _) # rest) = (case health k of Some er \<Rightarrow> Some (ShUnhealthy k er) | None \<Rightarrow> ShHealth health rest)"

record shard_health =
  h_ShardID :: string
  h_OwnerNodeID :: string
  h_AdvertiseAddr :: string
  h_Ready :: bool
  h_Error :: "store_error option"

definition spec_of :: "sharded_conf \<Rightarrow> string \<Rightarrow> shard_spec option" where
  "spec_of x k = find (\<lambda>sp. ss_ShardID sp = k) (sm_Shards (x_map x))"

definition ShardHealthInfo :: "sharded_conf \<Rightarrow> (string \<Rightarrow> store_error option) \<Rightarrow> sharded \<Rightarrow> shard_health list" where
  "ShardHealthInfo x health s = map (\<lambda>(k, _). \<lparr> h_ShardID = k,
     h_OwnerNodeID = (case spec_of x k of None \<Rightarrow> [] | Some sp \<Rightarrow> ss_OwnerNodeID sp),
     h_AdvertiseAddr = (case spec_of x k of None \<Rightarrow> [] | Some sp \<Rightarrow> ss_AdvertiseAddr sp),
     h_Ready = (health k = None), h_Error = health k \<rparr>) (sh_shards s)"

record queue_stats =
  qs_NamespaceID :: string
  qs_Queue :: string
  qs_ShardID :: string
  qs_Counts :: "(status \<times> int) list"
  qs_Total :: int

definition ShardQueueStats :: "sharded_conf \<Rightarrow> sh_env \<Rightarrow> sharded \<Rightarrow> string \<Rightarrow> string \<Rightarrow> sharded_error + queue_stats" where
  "ShardQueueStats x e s namespaceID queue = bindr (shardForNamespaceQueue x s namespaceID queue) (\<lambda>k.
     bindr (read_shard k (\<lambda>d. PgCountByStatus (en_each e k) d
         (Some (empty_query \<lparr> q_NamespaceID := namespaceID, q_Metadata := Some [(QueueMetadataKey, queue)] \<rparr>))) s) (\<lambda>counts.
       Inr \<lparr> qs_NamespaceID = namespaceID, qs_Queue = queue, qs_ShardID = k, qs_Counts = counts,
         qs_Total = sum_list (map snd counts) \<rparr>))"

section \<open>Bound to a context\<close>

text \<open>The view of the store the HTTP handlers use: agent operations with the hint of the request.  Its Update
  is the one without the guard.\<close>

definition BoundUpdate ::
  "sharded_conf \<Rightarrow> sh_env \<Rightarrow> go_context \<Rightarrow> sharded \<Rightarrow> string \<Rightarrow> gval gomap option \<Rightarrow> (sharded_error + unit) \<times> sharded" where
  "BoundUpdate x e ctx s i updates = updateWithContext x e ctx i updates s"

end
