(* ===== verification/Sharded_Leases.thy ===== *)
theory Sharded_Leases
  imports Sharded_Store
begin

text \<open>
  The lease contract of the sharded store, composed from that of the Postgres stores: every operation is at most one
  operation of one of the stores, so each shard by itself is a \<^verbatim>\<open>lease_backend\<close> under the operations of the
  sharded store.
\<close>

section \<open>What the look-ups leave alone\<close>

lemma map_sum_eq_Inr [simp]: "map_sum f id r = Inr y \<longleftrightarrow> r = Inr y"
  by (cases r) simp_all

lemma map_sum_eq_Inl: "map_sum f id r = Inl er \<longleftrightarrow> (\<exists>er'. r = Inl er' \<and> er = f er')"
  by (cases r) auto

lemma remember_shards [simp]: "sh_shards (remember i k s) = sh_shards s"
  by (simp add: remember_def)

lemma annotateAgent_shards [simp]: "sh_shards (snd (annotateAgent t k s)) = sh_shards s"
  by (simp add: annotateAgent_def)

lemma annotateAgents_spec [simp]:
  "sh_shards (snd (annotateAgents ts k s)) = sh_shards s"
  "fst (annotateAgents ts k s) = map (\<lambda>t. t \<lparr> a_ShardID := k \<rparr>) ts"
  by (induction ts arbitrary: s) (simp_all add: annotateAgent_def split_beta)

lemma annotated_shards [simp]: "sh_shards (snd (annotated k y)) = sh_shards (snd y)"
  by (simp add: annotated_def annotateAgent_def split: prod.splits sum.splits)

lemma annotate_claim_shards [simp]: "sh_shards (snd (annotate_claim k y)) = sh_shards (snd y)"
  by (simp add: annotate_claim_def annotateAgent_def split: prod.splits sum.splits option.splits)

lemma owned_cong: "sh_shards s' = sh_shards s \<Longrightarrow> owned s' k = owned s k"
  by (simp add: owned_def)

lemma owned_Some: "owned s k \<longleftrightarrow> (\<exists>g. map_of (sh_shards s) k = Some g)"
  by (simp add: owned_def split: option.split)

lemma probe_shards_shards [simp]: "sh_shards (snd (probe_shards e i ks s)) = sh_shards s"
  by (induction ks arbitrary: s) (simp_all split: sum.split)

lemma probe_shards_owned: "fst (probe_shards e i ks s) = Inr k \<Longrightarrow> owned s k"
  by (induction ks arbitrary: s)
    (auto simp: read_shard_def owned_Some split: sum.splits option.splits)

lemma shardByTupleID_shards [simp]: "sh_shards (snd (shardByTupleID x e ctx i s)) = sh_shards s"
  by (simp add: shardByTupleID_def Let_def split: option.split sum.split)

lemma shardByTupleID_owned: "fst (shardByTupleID x e ctx i s) = Inr k \<Longrightarrow> owned s k"
  by (auto simp: shardByTupleID_def shardFromHint_def Let_def
      dest: probe_shards_owned split: option.splits sum.splits if_splits)

lemma shardForNamespaceQueue_owned: "shardForNamespaceQueue x s ns q = Inr k \<Longrightarrow> owned s k"
  by (auto simp: shardForNamespaceQueue_def bindr_eq_Inr split: if_splits)

lemma shardFromQuery_owned: "shardFromQuery x s qo = Some (Inr k) \<Longrightarrow> owned s k"
  by (auto simp: shardFromQuery_def split_beta dest: shardForNamespaceQueue_owned split: if_splits)

lemma shardFromAgent_owned: "shardFromAgent x s ao = Inr k \<Longrightarrow> owned s k"
  by (auto simp: shardFromAgent_def Let_def dest: shardForNamespaceQueue_owned split: option.splits)

text \<open>One store of a node replaced by the outcome of an operation on it.\<close>

definition put_shard :: "string \<Rightarrow> (pg_store \<Rightarrow> pg_store) \<Rightarrow> (string \<times> pg_store) list \<Rightarrow> (string \<times> pg_store) list" where
  "put_shard k f gs = (case map_of gs k of None \<Rightarrow> gs | Some g \<Rightarrow> AList.update k (f g) gs)"

lemma put_shard_cong [cong]:
  "k = k' \<Longrightarrow> (\<And>g. f g = f' g) \<Longrightarrow> gs = gs' \<Longrightarrow> put_shard k f gs = put_shard k' f' gs'"
  by (simp add: put_shard_def split: option.split)

lemma call_shard_shards [simp]: "sh_shards (snd (call_shard k f s)) = put_shard k (\<lambda>g. snd (f g)) (sh_shards s)"
  by (simp add: call_shard_def put_shard_def split_beta split: option.split)

lemma map_of_put_shard: "map_of (put_shard k f gs) j = (if j = k then map_option f (map_of gs j) else map_of gs j)"
  by (auto simp: put_shard_def split: option.split)

lemma on_agent_shard_shards:
  assumes "\<And>k s. sh_shards (snd (f k s)) = put_shard k (h k) (sh_shards s)"
  shows "sh_shards (snd (on_agent_shard x e ctx i f s)) = (case fst (shardByTupleID x e ctx i s) of
    Inl _ \<Rightarrow> sh_shards s | Inr k \<Rightarrow> put_shard k (h k) (sh_shards s))"
proof -
  obtain r s' where r: "shardByTupleID x e ctx i s = (r, s')" by force
  have "sh_shards s' = sh_shards s" using shardByTupleID_shards[of x e ctx i s] r by simp
  then show ?thesis using assms r by (simp add: on_agent_shard_def split: sum.split)
qed

lemma AList_update_same: "map_of gs k = Some g \<Longrightarrow> AList.update k g gs = gs"
  by (induction gs) auto

lemma put_shard_id [simp]: "put_shard k (\<lambda>g. g) gs = gs"
  by (simp add: put_shard_def AList_update_same split: option.split)

lemma getWithContext_shards [simp]: "sh_shards (snd (getWithContext x e ctx i s)) = sh_shards s"
  unfolding getWithContext_def
  by (subst on_agent_shard_shards[where h = "\<lambda>k g. g"]) (simp_all split: sum.split)

lemma query_shards_shards [simp]: "sh_shards (snd (query_shards e q gs s)) = sh_shards s"
proof (induction gs arbitrary: s)
  case (Cons a gs)
  obtain k g where a: "a = (k, g)" by force
  show ?case
  proof (cases "PgQuery (en_each e k) (g_db g) (Some q)")
    case (Inr ts)
    obtain ts' s' where s': "annotateAgents ts k s = (ts', s')" by force
    then have "sh_shards s' = sh_shards s" using annotateAgents_spec(1)[of ts k s] by simp
    then show ?thesis using Cons.IH[of s'] a s' Inr by (auto split: prod.splits sum.splits)
  qed (simp add: a)
qed simp

lemma ShQuery_shards [simp]: "sh_shards (snd (ShQuery x e s qo)) = sh_shards s"
proof (cases "shardFromQuery x s qo")
  case None
  let ?q = "case qo of None \<Rightarrow> empty_query | Some q \<Rightarrow> q \<lparr> q_Limit := 0, q_Offset := 0 \<rparr>"
  obtain r s' where r: "query_shards e ?q (sh_shards s) s = (r, s')" by force
  then have "sh_shards s' = sh_shards s" using query_shards_shards[of e ?q "sh_shards s" s] by simp
  then show ?thesis using None r by (simp add: ShQuery_def split: sum.split)
next
  case (Some y)
  then show ?thesis
    using annotateAgents_spec(1) by (cases y) (simp_all add: ShQuery_def split_beta split: sum.split)
qed

section \<open>Operations\<close>

datatype sh_op =
    SoOut agent
  | SoTake query
  | SoBatchTake query int
  | SoUpdate string "gval gomap option"
  | SoBoundUpdate go_context string "gval gomap option"
  | SoComplete go_context string string string "gval gomap option"
  | SoCompleteAndOut go_context string string string "gval gomap option" "agent list"
  | SoRelease go_context string string string string
  | SoRenew go_context string string string duration
  | SoGet go_context string
  | SoQuery "query option"
  | SoBackground string pg_op

text \<open>\<^verbatim>\<open>SoBackground\<close> is a round of a goroutine of one of the stores: its reaper, event writer or prefetcher.\<close>

fun sh_exec :: "sharded_conf \<Rightarrow> sh_env \<times> sh_op \<Rightarrow> sharded \<Rightarrow> sharded" where
  "sh_exec x (e, SoOut t) s = snd (ShOut x e s (Some t))"
| "sh_exec x (e, SoTake q) s = snd (ShTake x e s (Some q))"
| "sh_exec x (e, SoBatchTake q n) s = snd (ShBatchTake x e s (Some q) n)"
| "sh_exec x (e, SoUpdate i u) s = snd (ShUpdate x e s i u)"
| "sh_exec x (e, SoBoundUpdate ctx i u) s = snd (BoundUpdate x e ctx s i u)"
| "sh_exec x (e, SoComplete ctx i ag tok res) s = snd (completeAndGetWithContext x e ctx i ag tok res s)"
| "sh_exec x (e, SoCompleteAndOut ctx i ag tok res outs) s = snd (completeAndOutWithContext x e ctx i ag tok res outs s)"
| "sh_exec x (e, SoRelease ctx i ag tok reason) s = snd (releaseAndGetWithContext x e ctx i ag tok reason s)"
| "sh_exec x (e, SoRenew ctx i ag tok dur) s = snd (renewLeaseWithContext x e ctx i ag tok dur s)"
| "sh_exec x (e, SoGet ctx i) s = snd (getWithContext x e ctx i s)"
| "sh_exec x (e, SoQuery qo) s = snd (ShQuery x e s qo)"
| "sh_exec x (e, SoBackground k p) s = s \<lparr> sh_shards := put_shard k (pg_exec (x_pg x k) (en_call e, p)) (sh_shards s) \<rparr>"

text \<open>The operation of a store that an operation comes down to.\<close>

definition on_key :: "(sharded_error + string) option \<Rightarrow> pg_op \<Rightarrow> (string \<times> pg_op) option" where
  "on_key r p = (case r of Some (Inr k) \<Rightarrow> Some (k, p) | _ \<Rightarrow> None)"

fun sh_target :: "sharded_conf \<Rightarrow> sh_env \<times> sh_op \<Rightarrow> sharded \<Rightarrow> (string \<times> pg_op) option" where
  "sh_target x (e, SoOut t) s = (case shardFromAgent x s (Some t) of Inl _ \<Rightarrow> None
     | Inr k \<Rightarrow> Some (k, PoOut (t \<lparr> a_Metadata := Some (or_nil (a_Metadata t)), a_ShardID := k \<rparr>)))"
| "sh_target x (e, SoTake q) s = on_key (shardFromQuery x s (Some q)) (PoTake q)"
| "sh_target x (e, SoBatchTake q n) s = on_key (shardFromQuery x s (Some q)) (PoBatchTake q n)"
| "sh_target x (e, SoUpdate i u) s =
    (if moves_queue u then None else on_key (Some (fst (shardByTupleID x e Background i s))) (PoUpdate i u))"
| "sh_target x (e, SoBoundUpdate ctx i u) s = on_key (Some (fst (shardByTupleID x e ctx i s))) (PoUpdate i u)"
| "sh_target x (e, SoComplete ctx i ag tok res) s =
    on_key (Some (fst (shardByTupleID x e ctx i s))) (PoComplete i ag tok res)"
| "sh_target x (e, SoCompleteAndOut ctx i ag tok res outs) s = (case getWithContext x e ctx i s of
     (Inl _, _) \<Rightarrow> None
   | (Inr t, s) \<Rightarrow> (case route_outputs x s (a_ShardID t) outs of
       Inl _ \<Rightarrow> None | Inr outs \<Rightarrow> Some (a_ShardID t, PoCompleteAndOut i ag tok res outs)))"
| "sh_target x (e, SoRelease ctx i ag tok reason) s =
    on_key (Some (fst (shardByTupleID x e ctx i s))) (PoRelease i ag tok reason)"
| "sh_target x (e, SoRenew ctx i ag tok dur) s = on_key (Some (fst (shardByTupleID x e ctx i s))) (PoRenew i ag tok dur)"
| "sh_target x (e, SoGet ctx i) s = None"
| "sh_target x (e, SoQuery qo) s = None"
| "sh_target x (e, SoBackground k p) s = Some (k, p)"

definition run_target :: "sharded_conf \<Rightarrow> sh_env \<Rightarrow> (string \<times> pg_op) option \<Rightarrow> (string \<times> pg_store) list \<Rightarrow> (string \<times> pg_store) list" where
  "run_target x e tgt gs = (case tgt of None \<Rightarrow> gs | Some (k, p) \<Rightarrow> put_shard k (pg_exec (x_pg x k) (en_call e, p)) gs)"

lemma run_target_simps [simp]:
  "run_target x e None gs = gs"
  "run_target x e (Some (k, p)) gs = put_shard k (pg_exec (x_pg x k) (en_call e, p)) gs"
  by (simp_all add: run_target_def)

lemma on_key_simps [simp]:
  "on_key (Some (Inr k)) p = Some (k, p)" "on_key (Some (Inl er)) p = None" "on_key None p = None"
  by (simp_all add: on_key_def)

lemma PgUpdate_state: "snd (PgUpdate c e g i u) = snd (PgUpdateAndGet c e g i u)"
  by (simp add: PgUpdate_def PgUpdateAndGet_def split_beta split: option.split)

lemma on_queue_exec:
  assumes "\<And>k. sh_shards (snd (f k)) = put_shard k (pg_exec (x_pg x k) (en_call e, p)) (sh_shards s)"
  shows "sh_shards (snd (on_queue_shard x verb qo f s)) = run_target x e (on_key (shardFromQuery x s qo) p) (sh_shards s)"
  using assms by (auto simp: on_queue_shard_def on_key_def split: option.split sum.split)

lemma on_agent_exec:
  assumes "\<And>k s. sh_shards (snd (f k s)) = put_shard k (pg_exec (x_pg x k) (en_call e, p)) (sh_shards s)"
  shows "sh_shards (snd (on_agent_shard x e ctx i f s)) =
    run_target x e (on_key (Some (fst (shardByTupleID x e ctx i s))) p) (sh_shards s)"
  by (subst on_agent_shard_shards[OF assms]) (simp split: sum.split)

lemma completeAndOut_exec:
  "sh_shards (snd (completeAndOutWithContext x e ctx i ag tok res outs s)) =
    run_target x e (sh_target x (e, SoCompleteAndOut ctx i ag tok res outs) s) (sh_shards s)"
proof -
  obtain r s1 where g: "getWithContext x e ctx i s = (r, s1)" by force
  then have s1: "sh_shards s1 = sh_shards s" using getWithContext_shards[of x e ctx i s] by simp
  show ?thesis
  proof (cases r)
    case (Inr t)
    let ?k = "a_ShardID t"
    show ?thesis
    proof (cases "route_outputs x s1 ?k outs")
      case (Inl er)
      then show ?thesis using g \<open>r = Inr t\<close> s1 by (simp add: completeAndOutWithContext_def Let_def)
    next
      case (Inr outs')
      let ?f = "\<lambda>g. PgCompleteAndOut (x_pg x ?k) (en_call e 0) g i ag tok res outs'"
      obtain y s2 where c: "call_shard ?k ?f s1 = (y, s2)" by force
      have s2: "sh_shards s2 = put_shard ?k (\<lambda>g. snd (?f g)) (sh_shards s)"
        using call_shard_shards[of ?k ?f s1] c s1 by simp
      have "\<not> owned s1 ?k \<Longrightarrow> put_shard ?k h (sh_shards s) = sh_shards s" for h
        using s1 by (simp add: owned_def put_shard_def split: option.splits)
      then show ?thesis
        using g \<open>r = Inr t\<close> Inr c s1 s2
        by (auto simp: completeAndOutWithContext_def Let_def split_beta split: sum.split)
    qed
  qed (simp add: completeAndOutWithContext_def g s1)
qed

lemma sh_exec_target: "sh_shards (sh_exec x (e, op) s) = run_target x e (sh_target x (e, op) s) (sh_shards s)"
proof (cases op)
  case (SoOut t)
  show ?thesis
    unfolding SoOut sh_exec.simps sh_target.simps
    by (cases "shardFromAgent x s (Some t)")
      (simp_all add: ShOut_def Let_def call_shard_def put_shard_def split_beta split: option.split sum.split)
next
  case (SoTake q)
  then show ?thesis by (simp add: ShTake_def) (rule on_queue_exec, simp)
next
  case (SoBatchTake q n)
  have "sh_shards (snd (case call_shard k f s of (Inl er, s) \<Rightarrow> (Inl er, s)
      | (Inr ts, s) \<Rightarrow> let (ts, s) = annotateAgents ts k s in (Inr ts, s))) = put_shard k (\<lambda>g. snd (f g)) (sh_shards s)" for k f
    using call_shard_shards[of k f s] annotateAgents_spec(1)
    by (cases "call_shard k f s") (simp add: split_beta split: sum.split)
  then show ?thesis unfolding SoBatchTake sh_exec.simps sh_target.simps ShBatchTake_def by (intro on_queue_exec) simp
next
  case (SoUpdate i u)
  then show ?thesis
    by (simp add: ShUpdate_def updateWithContext_def) (intro impI on_agent_exec, simp add: PgUpdate_state)
next
  case (SoBoundUpdate ctx i u)
  then show ?thesis by (simp add: BoundUpdate_def updateWithContext_def) (intro on_agent_exec, simp add: PgUpdate_state)
next
  case (SoComplete ctx i ag tok res)
  then show ?thesis by (simp add: completeAndGetWithContext_def) (intro on_agent_exec, simp)
next
  case (SoCompleteAndOut ctx i ag tok res outs)
  then show ?thesis by (simp only: sh_exec.simps completeAndOut_exec)
next
  case (SoRelease ctx i ag tok reason)
  then show ?thesis by (simp add: releaseAndGetWithContext_def) (intro on_agent_exec, simp)
next
  case (SoRenew ctx i ag tok dur)
  then show ?thesis by (simp add: renewLeaseWithContext_def) (intro on_agent_exec, simp)
qed simp_all

section \<open>Each shard keeps the lease contract\<close>

definition good_sharded :: "sharded \<Rightarrow> bool" where
  "good_sharded s \<longleftrightarrow> list_all (good_pg \<circ> snd) (sh_shards s)"

definition shard_view :: "string \<Rightarrow> sharded \<Rightarrow> space" where
  "shard_view k s = (case map_of (sh_shards s) k of None \<Rightarrow> Map.empty | Some g \<Rightarrow> pg_view (g_db g))"

definition shard_announced :: "string \<Rightarrow> sharded \<Rightarrow> string \<Rightarrow> nat" where
  "shard_announced k s i = (case map_of (sh_shards s) k of None \<Rightarrow> 0 | Some g \<Rightarrow> announced g i)"

text \<open>The steps an operation takes on shard \<open>k\<close>, and whether it is proper there.\<close>

definition sh_labels :: "sharded_conf \<Rightarrow> string \<Rightarrow> sh_env \<times> sh_op \<Rightarrow> sharded \<Rightarrow> label list" where
  "sh_labels x k eop s = (case (sh_target x eop s, map_of (sh_shards s) k) of
     (Some (j, p), Some g) \<Rightarrow> if j = k then pg_labels (x_pg x k) (en_call (fst eop), p) g else []
   | _ \<Rightarrow> [])"

definition sh_proper :: "sharded_conf \<Rightarrow> string \<Rightarrow> sh_env \<times> sh_op \<Rightarrow> sharded \<Rightarrow> bool" where
  "sh_proper x k eop s = (case (sh_target x eop s, map_of (sh_shards s) k) of
     (Some (j, p), Some g) \<Rightarrow> (if j = k then pg_proper (x_pg x k) (en_call (fst eop), p) g else True)
   | _ \<Rightarrow> True)"

lemma good_shard: "good_sharded s \<Longrightarrow> map_of (sh_shards s) k = Some g \<Longrightarrow> good_pg g"
  by (force simp: good_sharded_def list_all_iff dest: map_of_SomeD)

lemma set_AList_update: "set (AList.update k v al) \<subseteq> insert (k, v) (set al)"
  by (induction al) auto

text \<open>A shard the operation does not come down to is left as it was.\<close>

lemma shard_step:
  assumes "good_sharded s"
  obtains (other) "map_of (sh_shards (sh_exec x eop s)) k = map_of (sh_shards s) k" "sh_labels x k eop s = []"
  | (here) p g where "map_of (sh_shards s) k = Some g" "good_pg g" "sh_target x eop s = Some (k, p)"
      "map_of (sh_shards (sh_exec x eop s)) k = Some (pg_exec (x_pg x k) (en_call (fst eop), p) g)"
      "sh_labels x k eop s = pg_labels (x_pg x k) (en_call (fst eop), p) g"
proof -
  obtain e op where eop: "eop = (e, op)" by force
  have sh: "sh_shards (sh_exec x eop s) = run_target x e (sh_target x eop s) (sh_shards s)"
    unfolding eop by (rule sh_exec_target)
  show ?thesis
  proof (cases "\<exists>p g. sh_target x eop s = Some (k, p) \<and> map_of (sh_shards s) k = Some g")
    case True
    then obtain p g where "sh_target x eop s = Some (k, p)" "map_of (sh_shards s) k = Some g" by blast
    then show ?thesis using here[of g p] good_shard[OF assms] sh eop by (simp add: sh_labels_def map_of_put_shard)
  next
    case False
    then show ?thesis
      using sh by (intro other) (auto simp: sh_labels_def run_target_def map_of_put_shard split: option.splits)
  qed
qed

lemma good_sharded_exec: "good_sharded s \<Longrightarrow> good_sharded (sh_exec x eop s)"
proof -
  assume g: "good_sharded s"
  obtain e op where eop: "eop = (e, op)" by force
  have "list_all (good_pg \<circ> snd) (run_target x e tgt (sh_shards s))" for tgt
  proof (cases tgt)
    case (Some kp)
    obtain k p where kp: "kp = (k, p)" by force
    show ?thesis
    proof (cases "map_of (sh_shards s) k")
      case (Some st)
      have "good_pg (pg_exec (x_pg x k) (en_call e, p) st)" using pg.good_exec good_shard[OF g Some] by blast
      then show ?thesis
        using g set_AList_update[of k "pg_exec (x_pg x k) (en_call e, p) st" "sh_shards s"] Some \<open>tgt = _\<close> kp
        by (fastforce simp: put_shard_def good_sharded_def list_all_iff)
    qed (use g \<open>tgt = _\<close> kp in \<open>simp add: put_shard_def good_sharded_def\<close>)
  qed (use g in \<open>simp add: good_sharded_def\<close>)
  then show "good_sharded (sh_exec x eop s)" by (simp add: good_sharded_def eop sh_exec_target)
qed

interpretation shard: lease_backend "shard_view k" good_sharded "sh_exec x" "sh_labels x k" "sh_proper x k" for x k
proof unfold_locales
  fix s and op :: "sh_env \<times> sh_op"
  assume g: "good_sharded s"
  show "good_sharded (sh_exec x op s)" by (rule good_sharded_exec[OF g])
  show "steps (shard_view k s) (sh_labels x k op s) (shard_view k (sh_exec x op s))"
    using g
  proof (cases rule: shard_step[where x = x and eop = op and k = k])
    case (here p st)
    then show ?thesis using pg.refines[OF here(2), of "x_pg x k" "(en_call (fst op), p)"] by (simp add: shard_view_def)
  qed (simp add: shard_view_def steps_Nil)
  assume pr: "sh_proper x k op s"
  show "protocol (shard_view k s) (sh_labels x k op s) (shard_view k (sh_exec x op s))"
    using g
  proof (cases rule: shard_step[where x = x and eop = op and k = k])
    case (here p st)
    then show ?thesis
      using pg.proper_protocol[OF here(2), of "x_pg x k" "(en_call (fst op), p)"] pr
      by (simp add: shard_view_def sh_proper_def)
  qed (simp add: shard_view_def)
qed

lemma shard_run_announced:
  "good_sharded s \<Longrightarrow> shard_announced k (run_ops (sh_exec x) ops s) i =
     shard_announced k s i + length (filter (is_complete i) (trace_ops (sh_exec x) (sh_labels x k) ops s))"
proof (induction ops arbitrary: s)
  case (Cons op ops)
  have "shard_announced k (sh_exec x op s) i = shard_announced k s i + length (filter (is_complete i) (sh_labels x k op s))"
    using Cons.prems
  proof (cases rule: shard_step[where x = x and eop = op and k = k])
    case (here p st)
    then show ?thesis
      using pg_op_sound[OF here(2), of "x_pg x k" "(en_call (fst op), p)"] by (simp add: shard_announced_def pg_sound_def)
  qed (simp add: shard_announced_def)
  then show ?case using Cons.IH[OF good_sharded_exec[OF Cons.prems, of x op]] by simp
qed simp

section \<open>A node for examples\<close>

text \<open>Two shards; the queue \<^verbatim>\<open>jobs\<close> of namespace \<^verbatim>\<open>ns\<close> belongs to the first, the queue \<^verbatim>\<open>mail\<close> to the second.\<close>

definition sh_demo :: sharded where
  "sh_demo = \<lparr> sh_shards = [(''s1'', pg_demo_store), (''s2'', pg_demo_store \<lparr> g_db := pg_demo \<lparr> pd_agents := [] \<rparr> \<rparr>)],
     sh_ids = [] \<rparr>"

definition sh_quiet :: sh_env where
  "sh_quiet = \<lparr> en_cached = pg_quiet, en_each = (\<lambda>_. pg_quiet), en_get = pg_quiet, en_call = (\<lambda>_. pg_quiet) \<rparr>"

definition sh_later :: "char \<Rightarrow> gotime \<Rightarrow> sh_env" where
  "sh_later ch t = sh_quiet \<lparr> en_call := (\<lambda>_. pg_later ch t (\<lambda>_. False)) \<rparr>"

definition sh_queue :: "string \<Rightarrow> query" where
  "sh_queue q = empty_query \<lparr> q_NamespaceID := ''ns'', q_AgentID := ''w1'', q_Metadata := Some [(''queue'', q)] \<rparr>"

text \<open>Claim an agent of the queue, complete it through a cold cache, and try to complete it again.\<close>

definition sh_demo_run :: "(sh_env \<times> sh_op) list" where
  "sh_demo_run = [(sh_quiet, SoTake (sh_queue ''jobs'')),
     (sh_later CHR ''v'' 6000000000, SoComplete Background ''a'' ''w1'' ''u'' None),
     (sh_later CHR ''w'' 7000000000, SoComplete Background ''a'' ''w1'' ''u'' None)]"

lemma good_sh_demo: "good_sharded sh_demo"
  using wf_pg_demo by (simp add: good_sharded_def sh_demo_def good_pg_def pg_demo_store_def wf_pg_def)

section \<open>Properties\<close>

text \<open>C13: the sharded store keeps the lease contract shard by shard: for every shard of the node, any sequence of
  operations of the sharded store and of rounds of its background goroutines, with any faults, any hints and any
  state of the cache, is a run of the lease contract on the agents of that shard.\<close>

theorem sharded_refines_lease_spec:
  assumes "good_sharded s"
  shows "good_sharded (run_ops (sh_exec x) ops s) \<and>
    steps (shard_view k s) (trace_ops (sh_exec x) (sh_labels x k) ops s) (shard_view k (run_ops (sh_exec x) ops s))"
  using shard.good_run[OF assms] shard.run_refines[OF assms] by blast

theorem sharded_refines_lease_spec_witness:
  "good_sharded (run_ops (sh_exec demo_conf) sh_demo_run sh_demo) \<and>
   steps (shard_view ''s1'' sh_demo) (trace_ops (sh_exec demo_conf) (sh_labels demo_conf ''s1'') sh_demo_run sh_demo)
     (shard_view ''s1'' (run_ops (sh_exec demo_conf) sh_demo_run sh_demo))"
  by (rule sharded_refines_lease_spec[OF good_sh_demo])

text \<open>C14: in a run of proper operations on the sharded store, the subscribers of a shard are told of at most one
  completion of an agent, and of none once it was completed there, whatever way the operations found the shard.\<close>

theorem sharded_completes_at_most_once:
  assumes "good_sharded s" "proper_ops (sh_exec x) (sh_proper x k) ops s"
  shows "shard_announced k (run_ops (sh_exec x) ops s) i \<le>
    shard_announced k s i + (if finished i (shard_view k s) then 0 else 1)"
proof (cases "finished i (shard_view k s)")
  case True
  then show ?thesis using shard.run_completed_stays[OF assms] shard_run_announced[OF assms(1)] by simp
next
  case False
  then show ?thesis using shard.run_completes_once[OF assms, of i] shard_run_announced[OF assms(1), of k x ops i] by simp
qed

theorem sharded_completes_at_most_once_witness:
  "shard_announced ''s1'' (run_ops (sh_exec demo_conf) sh_demo_run sh_demo) ''a'' = 1 \<and>
   shard_announced ''s1'' (run_ops (sh_exec demo_conf) sh_demo_run sh_demo) ''a'' \<le> shard_announced ''s1'' sh_demo ''a'' + 1"
proof -
  have "proper_ops (sh_exec demo_conf) (sh_proper demo_conf ''s1'') sh_demo_run sh_demo" by code_simp
  from sharded_completes_at_most_once[OF good_sh_demo this, of "''a''"]
  have "shard_announced ''s1'' (run_ops (sh_exec demo_conf) sh_demo_run sh_demo) ''a'' \<le> shard_announced ''s1'' sh_demo ''a'' + 1"
    by (auto split: if_splits)
  moreover have "shard_announced ''s1'' (run_ops (sh_exec demo_conf) sh_demo_run sh_demo) ''a'' = 1" by code_simp
  ultimately show ?thesis by blast
qed

text \<open>A Take of the sharded store claims from the shard of its queue only: the agent it returns was claimed by
  one step of the lease contract on the shard the query is routed to, it carries the id of that shard, and every
  other shard is as before.\<close>

theorem ShTake_claims_routed:
  assumes "good_sharded s" "ShTake x e s (Some q) = (Inr (Some t), s')"
  shows "\<exists>k. shardFromQuery x s (Some q) = Some (Inr k) \<and> a_ShardID t = k \<and>
    step (shard_view k s) (LTake (a_ID t) (a_Owner t) (a_LeaseToken t) (Some (UnixMicro (a_LeaseUntil t)))) (shard_view k s') \<and>
    (\<forall>j. j \<noteq> k \<longrightarrow> map_of (sh_shards s') j = map_of (sh_shards s) j)"
proof -
  have s': "s' = sh_exec x (e, SoTake q) s" using assms(2) by simp
  obtain k where k: "shardFromQuery x s (Some q) = Some (Inr k)"
    using assms(2) by (auto simp: ShTake_def on_queue_shard_def split: option.splits sum.splits)
  obtain g where g: "map_of (sh_shards s) k = Some g" using shardFromQuery_owned[OF k] by (auto simp: owned_Some)
  obtain t0 where t0: "fst (PgTake (x_pg x k) (en_call e) g (Some q)) = Inr (Some t0)" "t = t0 \<lparr> a_ShardID := k \<rparr>"
    using assms(2) k g
    by (auto simp: ShTake_def on_queue_shard_def annotate_claim_def annotateAgent_def call_shard_def split_beta
        split: sum.splits option.splits)
  have "sh_labels x k (e, SoTake q) s = [take_label t0]" using k g t0(1) by (simp add: sh_labels_def take_labels_def)
  then have "step (shard_view k s) (take_label t0) (shard_view k s')"
    using shard.refines[OF assms(1), of k x "(e, SoTake q)"] s' by (auto elim!: steps_ConsE steps_NilE)
  moreover have "map_of (sh_shards s') j = map_of (sh_shards s) j" if "j \<noteq> k" for j
    using that k s' by (simp del: sh_exec.simps add: sh_exec_target map_of_put_shard)
  ultimately show ?thesis using k t0(2) by (auto simp: take_label_def)
qed

definition sh_demo_take :: "agent \<times> sharded" where
  "sh_demo_take = (case ShTake demo_conf sh_quiet sh_demo (Some (sh_queue ''jobs'')) of
     (Inr (Some t), s1) \<Rightarrow> (t, s1) | (_, s1) \<Rightarrow> (empty_agent, s1))"

theorem ShTake_claims_routed_witness:
  "ShTake demo_conf sh_quiet sh_demo (Some (sh_queue ''jobs'')) = (Inr (Some (fst sh_demo_take)), snd sh_demo_take) \<and>
   (\<exists>k. shardFromQuery demo_conf sh_demo (Some (sh_queue ''jobs'')) = Some (Inr k) \<and> a_ShardID (fst sh_demo_take) = k)"
proof -
  have "case fst (ShTake demo_conf sh_quiet sh_demo (Some (sh_queue ''jobs''))) of Inr (Some t) \<Rightarrow> True | _ \<Rightarrow> False"
    by code_simp
  then have r: "ShTake demo_conf sh_quiet sh_demo (Some (sh_queue ''jobs'')) = (Inr (Some (fst sh_demo_take)), snd sh_demo_take)"
    by (cases "ShTake demo_conf sh_quiet sh_demo (Some (sh_queue ''jobs''))")
      (auto simp: sh_demo_take_def split: sum.splits option.splits)
  then show ?thesis using ShTake_claims_routed[OF good_sh_demo r] by blast
qed

lemma PgCompleteAndOut_error:
  "fst (PgCompleteAndOut c e g i ag tok res outs) = Inl er \<Longrightarrow> snd (PgCompleteAndOut c e g i ag tok res outs) = g"
  by (auto simp: PgCompleteAndOut_def intro: pg_tx_error split: if_splits)

lemma route_outputs_ok:
  "route_outputs x s k outs = Inr outs' \<longleftrightarrow> list_all (\<lambda>t. shardFromAgent x s (Some t) = Inr k) outs \<and>
     outs' = map (\<lambda>t. t \<lparr> a_ShardID := k \<rparr>) outs"
  by (induction outs arbitrary: outs') (auto simp: bindr_eq_Inr)

lemma shardFromAgent_cong: "sh_shards s' = sh_shards s \<Longrightarrow> shardFromAgent x s' ao = shardFromAgent x s ao"
  by (simp add: shardFromAgent_def shardForNamespaceQueue_def owned_def Let_def split: option.split)

lemma put_shard_same: "map_of gs k = Some g \<Longrightarrow> f g = g \<Longrightarrow> put_shard k f gs = gs"
  by (simp add: put_shard_def AList_update_same)

text \<open>Completing an agent with outputs stays within one shard: it succeeds only if every output is routed to the
  shard of the completed agent, and then that is the only shard that changed and the id all returned agents carry;
  when it fails, for an output of another shard or any other reason, no store of the node has changed.\<close>

theorem sharded_outputs_stay_on_shard:
  assumes "completeAndOutWithContext x e ctx i ag tok res outs s = (r, s')"
  shows "case r of Inl _ \<Rightarrow> sh_shards s' = sh_shards s
    | Inr (t, created) \<Rightarrow> list_all (\<lambda>out. shardFromAgent x s (Some out) = Inr (a_ShardID t)) outs \<and>
        list_all (\<lambda>out. a_ShardID out = a_ShardID t) created \<and>
        (\<forall>j. j \<noteq> a_ShardID t \<longrightarrow> map_of (sh_shards s') j = map_of (sh_shards s) j)"
proof -
  obtain r1 s1 where g: "getWithContext x e ctx i s = (r1, s1)" by force
  then have s1: "sh_shards s1 = sh_shards s" using getWithContext_shards[of x e ctx i s] by simp
  consider (early) er where "r = Inl er" "s' = s1"
    | (call) t0 outs' y s2 where "r1 = Inr t0" "owned s1 (a_ShardID t0)" "route_outputs x s1 (a_ShardID t0) outs = Inr outs'"
      "call_shard (a_ShardID t0) (\<lambda>g. PgCompleteAndOut (x_pg x (a_ShardID t0)) (en_call e 0) g i ag tok res outs') s1 = (y, s2)"
    using assms g by (cases r1) (fastforce simp: completeAndOutWithContext_def Let_def split: if_splits sum.splits)+
  then show ?thesis
  proof cases
    case call
    let ?k = "a_ShardID t0" and ?f = "\<lambda>g. PgCompleteAndOut (x_pg x (a_ShardID t0)) (en_call e 0) g i ag tok res outs'"
    obtain st where st: "map_of (sh_shards s1) ?k = Some st" using call(2) by (auto simp: owned_Some)
    have s2: "sh_shards s2 = put_shard ?k (\<lambda>g. snd (?f g)) (sh_shards s)" using call_shard_shards[of ?k ?f s1] call(4) s1 by simp
    have y: "y = map_sum ShStore id (fst (?f st))" using call(4) st by (simp add: call_shard_def split_beta)
    have outs: "list_all (\<lambda>t. shardFromAgent x s (Some t) = Inr ?k) outs"
      using call(3) by (simp add: route_outputs_ok shardFromAgent_cong[OF s1])
    show ?thesis
    proof (cases y)
      case (Inl er)
      then have "snd (?f st) = st" using y PgCompleteAndOut_error by (auto simp: map_sum_eq_Inl)
      then have "sh_shards s2 = sh_shards s" using s2 st s1 by (simp add: put_shard_same)
      then show ?thesis using assms g call Inl by (auto simp: completeAndOutWithContext_def Let_def)
    next
      case (Inr tc)
      then show ?thesis
        using assms g call outs s2
        by (cases tc) (auto simp: completeAndOutWithContext_def Let_def annotateAgent_def split_beta list_all_iff map_of_put_shard)
    qed
  qed (simp add: s1)
qed

theorem sharded_outputs_stay_on_shard_witness:
  "\<exists>r s'. completeAndOutWithContext demo_conf (sh_later CHR ''v'' 6000000000) Background ''a'' ''w1'' ''u'' None
      [empty_agent \<lparr> a_NamespaceID := ''ns'', a_Metadata := Some [(''queue'', ''mail'')] \<rparr>] (snd sh_demo_take) = (r, s') \<and>
     r = Inl (ShCrossShard ''s1'' ''s2'') \<and> sh_shards s' = sh_shards (snd sh_demo_take)"
proof -
  let ?c = "completeAndOutWithContext demo_conf (sh_later CHR ''v'' 6000000000) Background ''a'' ''w1'' ''u'' None
      [empty_agent \<lparr> a_NamespaceID := ''ns'', a_Metadata := Some [(''queue'', ''mail'')] \<rparr>] (snd sh_demo_take)"
  have "fst ?c = Inl (ShCrossShard ''s1'' ''s2'')" by code_simp
  then have r: "?c = (Inl (ShCrossShard ''s1'' ''s2''), snd ?c)" by (metis prod.collapse)
  then show ?thesis using sharded_outputs_stay_on_shard[OF r] by auto
qed

definition sh_lone :: sharded where
  "sh_lone = \<lparr> sh_shards = [(''s1'', pg_demo_store \<lparr> g_db := pg_demo \<lparr> pd_agents := [pg_demo_row ''a'' ''NEW'' 100] \<rparr> \<rparr>),
     (''s2'', pg_demo_store \<lparr> g_db := pg_demo \<lparr> pd_agents := [] \<rparr> \<rparr>)], sh_ids = [] \<rparr>"

definition sh_move :: "gval gomap option" where
  "sh_move = Some [(''metadata'', VStrMap [(''queue'', ''mail'')])]"

definition sh_moved :: sharded where
  "sh_moved = snd (BoundUpdate demo_conf sh_quiet Background sh_lone ''a'' sh_move)"

definition took :: "(sharded_error + agent option) \<times> sharded \<Rightarrow> string option" where
  "took y = (case fst y of Inr (Some t) \<Rightarrow> Some (a_ID t) | _ \<Rightarrow> None)"

text \<open>The store refuses an Update that names a queue, since the queue decides the shard, but the view of the
  store bound to a request context lets it through: there is an agent that was claimable, and after the bound
  Update it is still NEW, yet neither a Take on its old queue nor one on its new queue finds it.\<close>

theorem bound_update_strands_agent:
  "\<exists>x s i u s'. good_sharded s \<and> fst (ShUpdate x sh_quiet s i u) = Inl ShMovesQueue \<and>
     BoundUpdate x sh_quiet Background s i u = (Inr (), s') \<and>
     took (ShTake x sh_quiet s (Some (sh_queue ''jobs''))) = Some i \<and>
     map_sum id a_Status (fst (getWithContext x sh_quiet Background i s')) = Inr StatusNew \<and>
     took (ShTake x sh_quiet s' (Some (sh_queue ''jobs''))) = None \<and>
     took (ShTake x sh_quiet s' (Some (sh_queue ''mail''))) = None"
proof (intro exI conjI)
  show "good_sharded sh_lone"
    using wf_pg_demo by (simp add: good_sharded_def sh_lone_def good_pg_def pg_demo_store_def wf_pg_def pg_demo_def)
  show "fst (ShUpdate demo_conf sh_quiet sh_lone ''a'' sh_move) = Inl ShMovesQueue" by code_simp
  have "fst (BoundUpdate demo_conf sh_quiet Background sh_lone ''a'' sh_move) = Inr ()" by code_simp
  then show "BoundUpdate demo_conf sh_quiet Background sh_lone ''a'' sh_move = (Inr (), sh_moved)"
    unfolding sh_moved_def by (metis prod.collapse)
  show "took (ShTake demo_conf sh_quiet sh_lone (Some (sh_queue ''jobs''))) = Some ''a''" by code_simp
  show "map_sum id a_Status (fst (getWithContext demo_conf sh_quiet Background ''a'' sh_moved)) = Inr StatusNew" by code_simp
  show "took (ShTake demo_conf sh_quiet sh_moved (Some (sh_queue ''jobs''))) = None" by code_simp
  show "took (ShTake demo_conf sh_quiet sh_moved (Some (sh_queue ''mail''))) = None" by code_simp
qed

end
