(* ===== verification/Sharded_Queries.thy ===== *)
theory Sharded_Queries
  imports Sharded_Leases
begin

text \<open>
  The reading side of the sharded store: finding the shard of an agent does not depend on the cache, a query without
  a queue is answered as by one table holding the agents of all shards, and the event pages are cut twice.
\<close>

section \<open>The cache\<close>

lemma PgGet_id: "PgGet e d i = Inr t \<Longrightarrow> a_ID t = i"
  by (auto simp: PgGet_def pg_fetch_def dest: find_SomeD pg_scan_fields(1) split: if_splits option.splits)

lemma read_shard_get:
  "read_shard k (\<lambda>d. PgGet e d i) s = Inr t \<longleftrightarrow> (\<exists>g. map_of (sh_shards s) k = Some g \<and> PgGet e (g_db g) i = Inr t)"
  by (simp add: read_shard_def split: option.split)

lemma probe_shards_finds:
  assumes "k \<in> set ks" "read_shard k (\<lambda>d. PgGet (en_each e k) d i) s = Inr t"
    and "\<And>j t. read_shard j (\<lambda>d. PgGet (en_each e j) d i) s = Inr t \<Longrightarrow> j = k"
  shows "probe_shards e i ks s = (Inr k, remember i k s)"
  using assms(1)
proof (induction ks)
  case (Cons j ks)
  show ?case
  proof (cases "read_shard j (\<lambda>d. PgGet (en_each e j) d i) s")
    case (Inl er)
    then have "j \<noteq> k" using assms(2) by auto
    then show ?thesis using Cons Inl by simp
  next
    case (Inr t')
    then have "j = k" "a_ID t' = i" using assms(3) PgGet_id by (auto simp: read_shard_get)
    then show ?thesis using Inr by (simp add: annotateAgent_def)
  qed
qed simp

text \<open>Without a hint, the shard of an agent is found whatever the cache holds: if the agent can be read on
  exactly one shard of the node, that shard is the answer and the cache names it afterwards, also when the
  entry was missing, stale or named a shard of another node.\<close>

theorem shardByTupleID_ignores_cache:
  assumes "trim_space (ShardIDFromContext ctx) = []" "map_of (sh_shards s) k = Some g"
    and "PgGet (en_each e k) (g_db g) i = Inr t"
    and "\<And>j g t. map_of (sh_shards s) j = Some g \<Longrightarrow>
      PgGet (en_each e j) (g_db g) i = Inr t \<or> PgGet (en_cached e) (g_db g) i = Inr t \<Longrightarrow> j = k"
  shows "shardByTupleID x e ctx i s = (Inr k, remember i k s)"
proof -
  have hint: "shardFromHint x s ctx = None" using assms(1) by (simp add: shardFromHint_def)
  have "k \<in> set (orderedShardIDs s)" using assms(2) by (force simp: orderedShardIDs_def dest: map_of_SomeD)
  then have scan: "probe_shards e i (orderedShardIDs s) s = (Inr k, remember i k s)"
    by (rule probe_shards_finds) (use assms(2-4) in \<open>auto simp: read_shard_get\<close>)
  have "j = k \<and> a_ID t = i" if "read_shard j (\<lambda>d. PgGet (en_cached e) d i) s = Inr t" for j t
    using that assms(4) PgGet_id by (auto simp: read_shard_get)
  then show ?thesis
    by (auto simp: shardByTupleID_def hint scan annotateAgent_def Let_def split: option.split sum.split)
qed

theorem shardByTupleID_ignores_cache_witness:
  "shardByTupleID demo_conf sh_quiet Background ''a'' (sh_lone \<lparr> sh_ids := [(''a'', ''s2'')] \<rparr>) =
     (Inr ''s1'', remember ''a'' ''s1'' (sh_lone \<lparr> sh_ids := [(''a'', ''s2'')] \<rparr>))"
proof (rule shardByTupleID_ignores_cache)
  let ?g = "pg_demo_store \<lparr> g_db := pg_demo \<lparr> pd_agents := [pg_demo_row ''a'' ''NEW'' 100] \<rparr> \<rparr>"
  show "trim_space (ShardIDFromContext Background) = []" by code_simp
  show "map_of (sh_shards (sh_lone \<lparr> sh_ids := [(''a'', ''s2'')] \<rparr>)) ''s1'' = Some ?g" by (simp add: sh_lone_def)
  have "scanAgent (pg_demo_row ''a'' ''NEW'' 100) = Inr (pg_scanned (pg_demo_row ''a'' ''NEW'' 100))"
    using wf_pg_demo by (intro wf_pg_row_scan) (simp add: wf_pg_def pg_demo_def)
  then show "PgGet (en_each sh_quiet ''s1'') (g_db ?g) ''a'' = Inr (pg_scanned (pg_demo_row ''a'' ''NEW'' 100))"
    by (simp add: PgGet_def pg_fetch_def sh_quiet_def pg_quiet_def pg_demo_row_def pg_alive_def)
  fix j g t
  assume "map_of (sh_shards (sh_lone \<lparr> sh_ids := [(''a'', ''s2'')] \<rparr>)) j = Some g"
    "PgGet (en_each sh_quiet j) (g_db g) ''a'' = Inr t \<or> PgGet (en_cached sh_quiet) (g_db g) ''a'' = Inr t"
  then show "j = ''s1''" by (auto simp: sh_lone_def PgGet_def pg_fetch_def split: if_splits)
qed

section \<open>Queries over all shards\<close>

text \<open>The agents of the node that a query selects, shard by shard, with the id of their shard.\<close>

definition selected :: "sh_env \<Rightarrow> query option \<Rightarrow> (string \<times> pg_store) list \<Rightarrow> agent list" where
  "selected e qo gs = concat (map (\<lambda>(k, g). map (\<lambda>t. t \<lparr> a_ShardID := k \<rparr>)
     (filter (query_selects qo) (pg_visible (en_each e k) (g_db g)))) gs)"

definition reads_ok :: "sh_env \<Rightarrow> bool" where
  "reads_ok e \<longleftrightarrow> (\<forall>k. \<not> fault (en_each e k) CSelect \<and> \<not> fault (en_each e k) CScanRows)"

lemma query_shards_selected:
  assumes "list_all (good_pg \<circ> snd) gs" "names_queue (Some q)" "reads_ok e" "q_Limit q = 0" "q_Offset q = 0"
  shows "fst (query_shards e q gs s) = Inr (selected e (Some q) gs)"
  using assms(1)
proof (induction gs arbitrary: s)
  case (Cons a gs)
  obtain k g where a: "a = (k, g)" by force
  have "PgQuery (en_each e k) (g_db g) (Some q) = Inr (filter (query_selects (Some q)) (pg_visible (en_each e k) (g_db g)))"
    using PgQuery_spec[of "g_db g" "Some q" "en_each e k"] Cons.prems assms a
    by (simp add: good_pg_def reads_ok_def sql_page_def q_limit_def q_offset_def)
  moreover have "fst (query_shards e q gs s') = Inr (selected e (Some q) gs)" for s' using Cons by simp
  ultimately show ?case
    by (simp add: a selected_def split_beta)
qed (simp add: selected_def)

lemma selects_unpaged: "query_selects (Some (q \<lparr> q_Limit := l, q_Offset := k \<rparr>)) = query_selects (Some q)"
  by (simp add: query_selects_def MatchesQuery_def fun_eq_iff)

lemma selected_unpaged: "selected e (Some (q \<lparr> q_Limit := l, q_Offset := k \<rparr>)) gs = selected e (Some q) gs"
  by (simp add: selected_def selects_unpaged)

text \<open>Creation order with ids as tie breaker.\<close>

definition created_before :: "agent \<Rightarrow> agent \<Rightarrow> bool" where
  "created_before t u \<longleftrightarrow> a_CreatedAt t < a_CreatedAt u \<or> a_CreatedAt t = a_CreatedAt u \<and> a_ID t \<le> a_ID u"

lemma insort_key_sorted:
  assumes "sorted_wrt (\<lambda>t u. f t < f u \<or> f t = f u \<and> g t \<le> g u) ts" "\<And>t. t \<in> set ts \<Longrightarrow> g x \<le> g t"
  shows "sorted_wrt (\<lambda>t u. f t < f u \<or> f t = f u \<and> g t \<le> g u) (insort_key f x ts)"
  using assms by (induction ts) (auto simp: set_insort_key not_le)

lemma sort_key_sort_key_sorted:
  "sorted (map g ts) \<Longrightarrow> sorted_wrt (\<lambda>t u. f t < f u \<or> f t = f u \<and> g t \<le> g u) (sort_key f ts)"
  by (induction ts) (auto intro: insort_key_sorted)

lemma by_creation_sorted: "sorted_wrt created_before (by_creation ts)"
  using sort_key_sort_key_sorted[of a_ID "sort_key a_ID ts" a_CreatedAt]
  by (simp add: by_creation_def created_before_def[abs_def])

lemma sql_page_apply: "applyGlobalLimitOffset xs l k = sql_page l k xs"
  by (auto simp: applyGlobalLimitOffset_def sql_page_def Let_def)

text \<open>A query that names no queue is answered as by a single table: without faults the sharded store returns
  the page asked for of all agents the query selects on the shards of the node, in the order of creation and id.\<close>

theorem ShQuery_merges_shards:
  assumes "good_sharded s" "reads_ok e" "names_queue (Some q)" "shardFromQuery x s (Some q) = None"
  shows "\<exists>all. mset all = mset (selected e (Some q) (sh_shards s)) \<and> sorted_wrt created_before all \<and>
    fst (ShQuery x e s (Some q)) = Inr (sql_page (q_Limit q) (q_Offset q) all)"
proof -
  let ?all = "by_creation (selected e (Some q) (sh_shards s))"
  have "fst (query_shards e (q \<lparr> q_Limit := 0, q_Offset := 0 \<rparr>) (sh_shards s) s) = Inr (selected e (Some q) (sh_shards s))"
    using query_shards_selected[of "sh_shards s" "q \<lparr> q_Limit := 0, q_Offset := 0 \<rparr>" e s] assms
    by (simp add: good_sharded_def names_queue_def selected_unpaged)
  then have "fst (ShQuery x e s (Some q)) = Inr (sql_page (q_Limit q) (q_Offset q) ?all)"
    using assms(4) by (cases "query_shards e (q \<lparr> q_Limit := 0, q_Offset := 0 \<rparr>) (sh_shards s) s")
      (simp add: ShQuery_def sql_page_apply)
  moreover have "mset ?all = mset (selected e (Some q) (sh_shards s))" by (simp add: by_creation_def)
  ultimately show ?thesis using by_creation_sorted by blast
qed

theorem ShQuery_merges_shards_witness:
  "\<exists>all. mset all = mset (selected sh_quiet (Some empty_query) (sh_shards sh_demo)) \<and> sorted_wrt created_before all \<and>
    fst (ShQuery demo_conf sh_quiet sh_demo (Some (empty_query \<lparr> q_Limit := 1 \<rparr>))) = Inr (sql_page 1 0 all)"
proof -
  let ?q = "empty_query \<lparr> q_Limit := 1 \<rparr>"
  have "reads_ok sh_quiet" by (simp add: reads_ok_def sh_quiet_def pg_quiet_def)
  moreover have "names_queue (Some ?q)" by (simp add: names_queue_def empty_query_def)
  moreover have "shardFromQuery demo_conf sh_demo (Some ?q) = None"
    by (simp add: shardFromQuery_def queryNamespaceAndQueue_def empty_query_def trim_space_def)
  ultimately show ?thesis
    using ShQuery_merges_shards[OF good_sh_demo, of sh_quiet ?q demo_conf]
      selected_unpaged[of sh_quiet 0 1 empty_query "sh_shards sh_demo"]
    by (simp add: empty_query_def)
qed

section \<open>Event pages\<close>

lemma PgQueryEvents_short:
  assumes "PgQueryEvents e d (Some q) = Inr page" "0 < eq_Limit q"
  shows "int (length (ep_Events page)) \<le> eq_Limit q"
proof -
  have "length (pg_scan_events rows) \<le> length rows" for rows
    by (induction rows) (simp_all add: pg_scan_events_def List.map_filter_simps split: option.split)
  then have "length (pg_scan_events (take n rows)) \<le> n" for n rows by (metis le_trans length_take min.cobounded2)
  note short = this[of "nat (eq_Limit q)"]
  show ?thesis
    using assms short by (auto simp: PgQueryEvents_def Let_def nat_le_iff le_nat_iff split: if_splits)
qed

lemma gather_pages_short:
  "gather_pages e (Some q) gs = Inr (evs, n) \<Longrightarrow> 0 < eq_Limit q \<Longrightarrow> int (length evs) \<le> eq_Limit q * int (length gs)"
proof (induction gs arbitrary: evs n)
  case (Cons a gs)
  obtain k g where a: "a = (k, g)" by force
  then obtain page evs' n' where p: "PgQueryEvents (en_each e k) (g_db g) (Some q) = Inr page"
    "gather_pages e (Some q) gs = Inr (evs', n')" "evs = ep_Events page @ evs'"
    using Cons.prems(1) by (auto simp: bindr_eq_Inr split: sum.splits)
  have "int (length evs') \<le> eq_Limit q * int (length gs)" using Cons.IH[OF p(2)] Cons.prems(2) .
  then show ?case using PgQueryEvents_short[OF p(1)] Cons.prems(2) p(3) by (simp add: algebra_simps)
qed simp

text \<open>The offset of an event query is applied on every shard and once more to the merged list, so a node with
  \<open>n\<close> shards never shows more than the first \<open>n\<close> pages: from an offset of \<open>n\<close> times the limit on, the page is empty
  however many events the total counts.\<close>

theorem event_pages_run_dry:
  assumes "eq_TupleID q = []" "0 < eq_Limit q" "eq_Limit q * int (length (sh_shards s)) \<le> eq_Offset q"
    and "fst (queryEventsWithContext x e ctx (Some q) s) = Inr page"
  shows "ep_Events page = []"
proof -
  obtain evs n where g: "gather_pages e (Some q) (sh_shards s) = Inr (evs, n)"
    "page = \<lparr> ep_Events = applyGlobalLimitOffset (by_recency evs) (eq_Limit q) (eq_Offset q), ep_Total = n, ep_NextCursor = [] \<rparr>"
    using assms(1,4) by (auto simp: queryEventsWithContext_def Let_def bindr_eq_Inr)
  have "int (length (by_recency evs)) \<le> eq_Offset q"
    using gather_pages_short[OF g(1) assms(2)] assms(3) by (simp add: by_recency_def)
  moreover from this have "\<not> 0 < eq_Offset q \<Longrightarrow> by_recency evs = []" by (cases "by_recency evs") simp_all
  ultimately show ?thesis using g(2) by (cases "0 < eq_Offset q") (simp_all add: sql_page_apply sql_page_def)
qed

definition sh_events_demo :: sharded where
  "sh_events_demo = \<lparr> sh_shards = [(''s1'', pg_demo_store \<lparr> g_db := pg_demo \<lparr> pd_events := map (\<lambda>n. \<lparr> pe_id = [n],
     pe_tuple_id = ''a'', pe_type = ''UPDATED'', pe_kind = ''task'', pe_timestamp = of_char n, pe_agent_id = ''w'', pe_trace_id = ''tr'',
     pe_version = 1, pe_data = JObj [], pe_namespace_id = ''ns'', pe_shard_id = ''s1'' \<rparr>) ''abcd'' \<rparr> \<rparr>)], sh_ids = [] \<rparr>"

theorem event_pages_run_dry_witness:
  "\<exists>page. fst (queryEventsWithContext demo_conf sh_quiet Background (Some (empty_event_query \<lparr> eq_Limit := 2, eq_Offset := 2 \<rparr>))
      sh_events_demo) = Inr page \<and> ep_Total page = 4 \<and> ep_Events page = []"
proof -
  let ?q = "empty_event_query \<lparr> eq_Limit := 2, eq_Offset := 2 \<rparr>"
  let ?r = "fst (queryEventsWithContext demo_conf sh_quiet Background (Some ?q) sh_events_demo)"
  have "map_sum (\<lambda>_. 0) ep_Total ?r = (Inr 4 :: int + int)" by code_simp
  then obtain page where page: "?r = Inr page" "ep_Total page = 4" by (cases ?r) auto
  have "ep_Events page = []"
    by (rule event_pages_run_dry[OF _ _ _ page(1)]) (simp_all add: empty_event_query_def sh_events_demo_def)
  then show ?thesis using page by blast
qed

end
