(* ===== verification/Api_Types.thy ===== *)
theory Api_Types
  imports Store_Common Telemetry_Types
begin

text \<open>
  The vocabulary of the HTTP layer (\<^verbatim>\<open>internal/api\<close>): actions of a handler, the errors a store returns, principals
  (\<^verbatim>\<open>auth_principal.go\<close>), telemetry values (\<^verbatim>\<open>pkg/telemetry\<close>), requests and responses (\<^verbatim>\<open>types.go\<close>), and the
  interface \<^verbatim>\<open>agent.AgentSpace\<close> with its optional capabilities.

  A handler runs against a store whose state has type \<open>'s\<close>.  What it does is an action: a function from the
  store's state to an answer and the new state, or \<^const>\<open>None\<close> where a loop does not end.  Every call of the store
  carries the number of its place in the handler, so that a backend can give each call its own environment.
  Logging, metrics and the random request id of error bodies are not represented.
\<close>

section \<open>Actions\<close>

type_synonym ('s, 'a) act = "'s \<Rightarrow> ('a \<times> 's) option"

definition ret :: "'a \<Rightarrow> ('s, 'a) act" where
  "ret x = (\<lambda>s. Some (x, s))"

definition andThen :: "('s, 'a) act \<Rightarrow> ('a \<Rightarrow> ('s, 'b) act) \<Rightarrow> ('s, 'b) act" where
  "andThen m f = (\<lambda>s. Option.bind (m s) (\<lambda>(x, s'). f x s'))"

text \<open>A step that may answer the request itself, the remaining steps then being skipped.\<close>

definition orAnswer :: "('s, 'r + 'a) act \<Rightarrow> ('a \<Rightarrow> ('s, 'r) act) \<Rightarrow> ('s, 'r) act" where
  "orAnswer m f = andThen m (\<lambda>x. case x of Inl r \<Rightarrow> ret r | Inr a \<Rightarrow> f a)"

text \<open>\<open>wp m Q s\<close>: if the action ends from \<open>s\<close>, its answer and its final state satisfy \<open>Q\<close>.  \<open>ends m s\<close>: it ends.\<close>

definition wp :: "('s, 'a) act \<Rightarrow> ('a \<Rightarrow> 's \<Rightarrow> bool) \<Rightarrow> 's \<Rightarrow> bool" where
  "wp m Q s = (case m s of None \<Rightarrow> True | Some (x, s') \<Rightarrow> Q x s')"

definition ends :: "('s, 'a) act \<Rightarrow> 's \<Rightarrow> bool" where
  "ends m s = (m s \<noteq> None)"

named_theorems wp_rules \<open>weakest preconditions of actions\<close>

lemma wp_ret [wp_rules, simp]: "wp (ret x) Q s = Q x s"
  by (simp add: wp_def ret_def)

lemma wp_andThen [wp_rules, simp]: "wp (andThen m f) Q s = wp m (\<lambda>x. wp (f x) Q) s"
  by (simp add: wp_def andThen_def split: option.split)

lemma wp_orAnswer [wp_rules, simp]:
  "wp (orAnswer m f) Q s = wp m (\<lambda>x. case x of Inl r \<Rightarrow> Q r | Inr a \<Rightarrow> wp (f a) Q) s"
  unfolding orAnswer_def wp_andThen by (rule arg_cong[where f = "\<lambda>R. wp m R s"]) (auto simp: fun_eq_iff split: sum.split)

lemma wp_mono: "wp m Q s \<Longrightarrow> (\<And>x s'. Q x s' \<Longrightarrow> R x s') \<Longrightarrow> wp m R s"
  by (auto simp: wp_def split: option.splits)

lemma wp_conj: "wp m Q s \<Longrightarrow> wp m R s \<Longrightarrow> wp m (\<lambda>x s'. Q x s' \<and> R x s') s"
  by (auto simp: wp_def split: option.splits)

lemma wp_Some: "m s = Some (x, s') \<Longrightarrow> wp m Q s \<Longrightarrow> Q x s'"
  by (simp add: wp_def)

lemma wp_True [simp]: "wp m (\<lambda>x s'. True) s"
  by (simp add: wp_def split: option.split)

lemma andThen_simps [simp]: "andThen (ret x) f = f x" "andThen (andThen m f) g = andThen m (\<lambda>x. andThen (f x) g)"
  by (auto simp: andThen_def ret_def fun_eq_iff split: Option.bind_splits option.split)

lemma orAnswer_simps [simp]:
  "orAnswer (ret (Inl r)) f = ret r" "orAnswer (ret (Inr x)) f = f x"
  by (simp_all add: orAnswer_def)

text \<open>\<^verbatim>\<open>for { ... }\<close>: a round of the body, given its number and the loop variables, leaves the loop with a value or goes on
  with new variables.\<close>

partial_function (option) for_loop :: "(nat \<Rightarrow> 'a \<Rightarrow> 's \<Rightarrow> (('b + 'a) \<times> 's) option) \<Rightarrow> nat \<Rightarrow> 'a \<Rightarrow> 's \<Rightarrow> ('b \<times> 's) option" where
  "for_loop body k a s =
    Option.bind (body k a s) (\<lambda>(x, s'). case x of Inl b \<Rightarrow> Some (b, s') | Inr a' \<Rightarrow> for_loop body (Suc k) a' s')"

section \<open>Errors\<close>

text \<open>An \<^verbatim>\<open>error\<close> as the handlers look at it: its text, and whether \<^verbatim>\<open>errors.Is\<close> finds the two context errors in it.\<close>

record go_err =
  er_Text :: string
  er_Deadline :: bool
  er_Canceled :: bool

definition plain_err :: "string \<Rightarrow> go_err" where
  "plain_err txt = \<lparr> er_Text = txt, er_Deadline = False, er_Canceled = False \<rparr>"

text \<open>\<^verbatim>\<open>strings.Contains\<close>, \<^verbatim>\<open>strings.HasPrefix\<close>, \<^verbatim>\<open>strings.HasSuffix\<close>, \<^verbatim>\<open>strings.TrimPrefix\<close>, \<^verbatim>\<open>strings.TrimSuffix\<close>\<close>

fun has_prefix :: "string \<Rightarrow> string \<Rightarrow> bool" where
  "has_prefix s [] = True"
| "has_prefix [] (p # ps) = False"
| "has_prefix (x # xs) (p # ps) = (x = p \<and> has_prefix xs ps)"

fun contains :: "string \<Rightarrow> string \<Rightarrow> bool" where
  "contains [] p = (p = [])"
| "contains (x # xs) p = (has_prefix (x # xs) p \<or> contains xs p)"

definition has_suffix :: "string \<Rightarrow> string \<Rightarrow> bool" where
  "has_suffix s p = has_prefix (rev s) (rev p)"

definition trim_prefix :: "string \<Rightarrow> string \<Rightarrow> string" where
  "trim_prefix s p = (if has_prefix s p then drop (length p) s else s)"

definition trim_suffix :: "string \<Rightarrow> string \<Rightarrow> string" where
  "trim_suffix s p = (if has_suffix s p then take (length s - length p) s else s)"

lemma has_prefix_iff: "has_prefix s p \<longleftrightarrow> (\<exists>r. s = p @ r)"
  by (induction s p rule: has_prefix.induct) auto

lemma contains_iff: "contains s p \<longleftrightarrow> (\<exists>a b. s = a @ p @ b)"
proof (induction s)
  case (Cons x s)
  show ?case
  proof
    assume "contains (x # s) p"
    then consider r where "x # s = p @ r" | a b where "s = a @ p @ b" using Cons by (auto simp: has_prefix_iff)
    then show "\<exists>a b. x # s = a @ p @ b"
    proof cases
      case 1
      then show ?thesis by (intro exI[of _ "[]"] exI[of _ r]) simp
    next
      case 2
      then show ?thesis by (intro exI[of _ "x # a"] exI[of _ b]) simp
    qed
  next
    assume "\<exists>a b. x # s = a @ p @ b"
    then show "contains (x # s) p" using Cons by (auto simp: has_prefix_iff Cons_eq_append_conv)
  qed
qed auto

section \<open>Principals\<close>

record namespace_limits =
  l_RateLimitRequests :: int
  l_RateLimitWindow :: duration
  l_MaxBodyBytes :: int
  l_MaxActiveAgents :: int
  l_MaxQueueDepth :: int

definition no_limits :: namespace_limits where
  "no_limits = \<lparr> l_RateLimitRequests = 0, l_RateLimitWindow = 0, l_MaxBodyBytes = 0, l_MaxActiveAgents = 0,
     l_MaxQueueDepth = 0 \<rparr>"

record auth_principal =
  p_NamespaceID :: string
  p_Admin :: bool
  p_Limits :: namespace_limits

section \<open>The store interface\<close>

text \<open>The place of a call in its handler, and the round where the place is in a loop.\<close>

type_synonym call = "nat \<times> nat"

text \<open>
  \<^verbatim>\<open>agent.AgentSpace\<close> and the interfaces the handlers look for by type assertion; a capability is \<^const>\<open>None\<close>
  where the assertion fails.  Out writes the stored agent through its pointer, so it returns that agent.  The
  administrative views are opaque documents to the handlers.
\<close>

record 's agent_space =
  sp_Get :: "call \<Rightarrow> string \<Rightarrow> ('s, go_err + agent) act"
  sp_Out :: "call \<Rightarrow> agent \<Rightarrow> ('s, go_err + agent) act"
  sp_In :: "call \<Rightarrow> query \<Rightarrow> duration \<Rightarrow> ('s, go_err + agent) act"
  sp_Read :: "call \<Rightarrow> query \<Rightarrow> duration \<Rightarrow> ('s, go_err + agent option) act"
  sp_Query :: "call \<Rightarrow> query \<Rightarrow> ('s, go_err + agent list) act"
  sp_Take :: "call \<Rightarrow> query \<Rightarrow> ('s, go_err + agent option) act"
  sp_Update :: "call \<Rightarrow> string \<Rightarrow> gval gomap \<Rightarrow> ('s, go_err + unit) act"
  sp_Complete :: "call \<Rightarrow> string \<Rightarrow> string \<Rightarrow> string \<Rightarrow> gval gomap option \<Rightarrow> ('s, go_err + unit) act"
  sp_CompleteAndOut :: "call \<Rightarrow> string \<Rightarrow> string \<Rightarrow> string \<Rightarrow> gval gomap option \<Rightarrow> agent list \<Rightarrow> ('s, go_err + agent \<times> agent list) act"
  sp_Release :: "call \<Rightarrow> string \<Rightarrow> string \<Rightarrow> string \<Rightarrow> string \<Rightarrow> ('s, go_err + unit) act"
  sp_RenewLease :: "call \<Rightarrow> string \<Rightarrow> string \<Rightarrow> string \<Rightarrow> duration \<Rightarrow> ('s, go_err + agent) act"
  sp_GetEvents :: "call \<Rightarrow> string \<Rightarrow> ('s, go_err + event list) act"
  sp_GetGlobalEvents :: "call \<Rightarrow> int \<Rightarrow> int \<Rightarrow> ('s, go_err + event list) act"
  sp_GetDAG :: "call \<Rightarrow> string \<Rightarrow> ('s, go_err + dag) act"
  sp_UpdateAndGet :: "(call \<Rightarrow> string \<Rightarrow> gval gomap \<Rightarrow> ('s, go_err + agent option) act) option"
  sp_CompleteAndGet :: "(call \<Rightarrow> string \<Rightarrow> string \<Rightarrow> string \<Rightarrow> gval gomap option \<Rightarrow> ('s, go_err + agent option) act) option"
  sp_ReleaseAndGet :: "(call \<Rightarrow> string \<Rightarrow> string \<Rightarrow> string \<Rightarrow> string \<Rightarrow> ('s, go_err + agent option) act) option"
  sp_BatchTake :: "(call \<Rightarrow> query \<Rightarrow> int \<Rightarrow> ('s, go_err + agent list) act) option"
  sp_Count :: "(call \<Rightarrow> query \<Rightarrow> ('s, go_err + int) act) option"
  sp_CountByStatus :: "(call \<Rightarrow> query \<Rightarrow> ('s, go_err + (status \<times> int) list) act) option"
  sp_QueryEvents :: "(call \<Rightarrow> event_query \<Rightarrow> ('s, go_err + event_page) act) option"
  sp_RecordSpans :: "(call \<Rightarrow> span list \<Rightarrow> ('s, go_err + unit) act) option"
  sp_ListSpans :: "(call \<Rightarrow> string \<Rightarrow> string \<Rightarrow> int \<Rightarrow> int \<Rightarrow> ('s, go_err + span list) act) option"
  sp_Health :: "(call \<Rightarrow> ('s, go_err + unit) act) option"
  sp_ShardMapInfo :: "(call \<Rightarrow> ('s, go_err + json) act) option"
  sp_ShardHealthInfo :: "(call \<Rightarrow> ('s, go_err + json) act) option"
  sp_ShardQueueStats :: "(call \<Rightarrow> string \<Rightarrow> string \<Rightarrow> ('s, go_err + json) act) option"
  sp_DebugInvariants :: "(call \<Rightarrow> ('s, go_err + json) act) option"

section \<open>Requests\<close>

text \<open>
  The body reader of a request: its bytes, and the limit a \<^verbatim>\<open>MaxBytesReader\<close> sets.  Decoding JSON is the work of
  \<^verbatim>\<open>goccy/go-json\<close>, a parameter: it turns a reader into the value, or fails; a failure of an empty body is
  \<^verbatim>\<open>io.EOF\<close>.
\<close>

record body_reader =
  b_Bytes :: string
  b_Limit :: "int option"

datatype 'a decoded = DecOK 'a | DecEOF | DecErr

record create_request =
  cr_Kind :: string
  cr_Payload :: "gval gomap option"
  cr_Tags :: "string list"
  cr_ParentID :: string
  cr_TraceID :: string
  cr_NamespaceID :: string
  cr_TTL :: int
  cr_Metadata :: "string gomap option"
  cr_Obs :: "observation option"

record update_request =
  ur_Payload :: "gval gomap option"
  ur_Status :: "string option"
  ur_Tags :: "string list option"
  ur_Owner :: "string option"
  ur_Metadata :: "string gomap option"
  ur_Obs :: "observation option"

record take_request =
  tk_Query :: query
  tk_Obs :: "observation option"

record batch_take_request =
  bt_Query :: query
  bt_Limit :: int

record in_request =
  in_Query :: query
  in_Timeout :: int
  in_Obs :: "observation option"

record read_request =
  rd_Query :: query
  rd_Timeout :: int
  rd_Blocking :: bool

record complete_request =
  co_Result :: "gval gomap option"
  co_ShardID :: string
  co_Obs :: "observation option"

record complete_and_out_request =
  ca_Result :: "gval gomap option"
  ca_ShardID :: string
  ca_Outputs :: "create_request list"
  ca_Obs :: "observation option"

record release_request =
  re_Reason :: string
  re_ShardID :: string
  re_Obs :: "observation option"

record renew_request =
  rn_LeaseSec :: int
  rn_ShardID :: string

record json_lib =
  js_create :: "body_reader \<Rightarrow> create_request decoded"
  js_update :: "body_reader \<Rightarrow> update_request decoded"
  js_query :: "body_reader \<Rightarrow> query decoded"
  js_take :: "body_reader \<Rightarrow> take_request decoded"
  js_batch_take :: "body_reader \<Rightarrow> batch_take_request decoded"
  js_in :: "body_reader \<Rightarrow> in_request decoded"
  js_read :: "body_reader \<Rightarrow> read_request decoded"
  js_complete :: "body_reader \<Rightarrow> complete_request decoded"
  js_complete_and_out :: "body_reader \<Rightarrow> complete_and_out_request decoded"
  js_release :: "body_reader \<Rightarrow> release_request decoded"
  js_renew :: "body_reader \<Rightarrow> renew_request decoded"
  js_span :: "body_reader \<Rightarrow> span decoded"
  js_batch :: "body_reader \<Rightarrow> span list decoded"

text \<open>
  A request as the server hands it on.  Header lines carry canonical names; \<^verbatim>\<open>r_Query\<close> is the parsed query
  string; the body of a request the server received is never nil; \<^verbatim>\<open>r_Principal\<close> is the value the context carries under the key of \<^verbatim>\<open>auth_principal.go\<close>, and \<^verbatim>\<open>r_Context\<close>
  the rest of the context.
\<close>

record http_request =
  r_Method :: string
  r_Path :: string
  r_Header :: "(string \<times> string) list"
  r_Query :: "(string \<times> string) list"
  r_RemoteAddr :: string
  r_ContentLength :: int
  r_Body :: body_reader
  r_Principal :: "auth_principal option"
  r_Context :: go_context

text \<open>\<^verbatim>\<open>Header.Get\<close>, \<^verbatim>\<open>Header.Values\<close> and \<^verbatim>\<open>URL.Query().Get\<close>: the first value, or the empty string.\<close>

definition header_get :: "http_request \<Rightarrow> string \<Rightarrow> string" where
  "header_get r k = str_at (r_Header r) k"

definition header_values :: "http_request \<Rightarrow> string \<Rightarrow> string list" where
  "header_values r k = map snd (filter (\<lambda>kv. fst kv = k) (r_Header r))"

definition query_get :: "http_request \<Rightarrow> string \<Rightarrow> string" where
  "query_get r k = str_at (r_Query r) k"

definition withAuthPrincipal :: "http_request \<Rightarrow> auth_principal \<Rightarrow> http_request" where
  "withAuthPrincipal r p = r \<lparr> r_Principal := Some p \<rparr>"

definition AuthPrincipalFromContext :: "http_request \<Rightarrow> auth_principal option" where
  "AuthPrincipalFromContext r = r_Principal r"

section \<open>Responses\<close>

text \<open>\<^verbatim>\<open>BAborted\<close> stands for a handler that panicked: the server closes the connection without an answer.\<close>

datatype resp_body =
    BNone
  | BText string
  | BError string
  | BAgent agent
  | BClaim string string string
  | BAgents "agent list"
  | BQuery "agent list" int
  | BCounts "(status \<times> int) list" int
  | BCompleted agent "agent list"
  | BEvents "event list" int string
  | BDAG dag
  | BSpans "span list" int
  | BIngested int
  | BHealth string bool string
  | BStats int int int string
  | BDoc json
  | BAborted
  | BInvariants string "(status \<times> int) list" bool

record http_response =
  rs_Status :: nat
  rs_Header :: "(string \<times> string) list"
  rs_Body :: resp_body

definition respond :: "nat \<Rightarrow> resp_body \<Rightarrow> http_response" where
  "respond status body = \<lparr> rs_Status = status, rs_Header = [], rs_Body = body \<rparr>"

text \<open>\<^verbatim>\<open>http.Error\<close>\<close>

definition http_error :: "string \<Rightarrow> nat \<Rightarrow> http_response" where
  "http_error msg status = \<lparr> rs_Status = status, rs_Header = [(''Content-Type'', ''text/plain; charset=utf-8'')], rs_Body = BText msg \<rparr>"

text \<open>The agents a response body carries.\<close>

fun body_agents :: "resp_body \<Rightarrow> agent list" where
  "body_agents (BAgent a) = [a]"
| "body_agents (BAgents as) = as"
| "body_agents (BQuery as n) = as"
| "body_agents (BCompleted a as) = a # as"
| "body_agents b = []"

end
