(* ===== verification/Api_Telemetry.thy ===== *)
theory Api_Telemetry
  imports Api_Types
begin

text \<open>
  The inline observations of a request as telemetry spans (\<^verbatim>\<open>internal/api/telemetry.go\<close>), and the handlers' own state:
  the store they were built with, how a request gets its bound store (\<^verbatim>\<open>request_space.go\<close>), and the backend's name.
\<close>

section \<open>Handlers and the bound store\<close>

datatype store_kind = KPostgres | KPostgresSharded | KValkey | KSQLite | KUnknown

record 's handlers =
  hd_space :: "'s agent_space"
  hd_bind :: "(go_context \<Rightarrow> 's agent_space) option"
  hd_kind :: store_kind

text \<open>\<^verbatim>\<open>telemetryStore\<close> asks for both methods.\<close>

definition hd_telemetry ::
  "'s handlers \<Rightarrow> ((call \<Rightarrow> span list \<Rightarrow> ('s, go_err + unit) act) \<times>
     (call \<Rightarrow> string \<Rightarrow> string \<Rightarrow> int \<Rightarrow> int \<Rightarrow> ('s, go_err + span list) act)) option" where
  "hd_telemetry h = (case (sp_RecordSpans (hd_space h), sp_ListSpans (hd_space h)) of
     (Some f, Some g) \<Rightarrow> Some (f, g) | _ \<Rightarrow> None)"

definition requestSpace :: "'s handlers \<Rightarrow> go_context \<Rightarrow> 's agent_space" where
  "requestSpace h ctx = (case hd_bind h of Some bind \<Rightarrow> bind ctx | None \<Rightarrow> hd_space h)"

fun backend_name :: "store_kind \<Rightarrow> string" where
  "backend_name KPostgres = ''postgres''"
| "backend_name KPostgresSharded = ''postgres-sharded''"
| "backend_name KValkey = ''valkey''"
| "backend_name KSQLite = ''sqlite''"
| "backend_name KUnknown = ''unknown''"

definition getBackendType :: "'s handlers \<Rightarrow> string" where
  "getBackendType h = backend_name (hd_kind h)"

text \<open>What a handler reads from outside: the JSON decoder, the clock and the UUID source.\<close>

record api_env =
  ae_json :: json_lib
  ae_now :: "nat \<Rightarrow> gotime"
  ae_uuid :: "nat \<Rightarrow> string"

section \<open>obsToSpans\<close>

definition base_attrs :: "tel_trace option \<Rightarrow> attr gomap" where
  "base_attrs trace = (case trace of None \<Rightarrow> [] | Some tr \<Rightarrow>
     (if tr_CallID tr \<noteq> [] then [(''call_id'', Attr (VStr (tr_CallID tr)))] else []) @
     (if tr_Links tr \<noteq> [] then [(''links'', ALinks (tr_Links tr))] else []))"

definition mergeAttrs :: "attr gomap \<Rightarrow> attr gomap \<Rightarrow> attr gomap option" where
  "mergeAttrs base attrs = (if base = [] \<and> attrs = [] then None else Some (map_merge (map_merge [] base) attrs))"

definition plain_attrs :: "gval gomap \<Rightarrow> attr gomap" where
  "plain_attrs m = map (\<lambda>(k, v). (k, Attr v)) m"

definition base_trace_id :: "string \<Rightarrow> tel_trace option \<Rightarrow> string" where
  "base_trace_id traceID trace =
    (case trace of Some tr \<Rightarrow> if tr_TraceID tr \<noteq> [] then tr_TraceID tr else traceID | None \<Rightarrow> traceID)"

definition anchor_span :: "gotime \<Rightarrow> string \<Rightarrow> string \<Rightarrow> string \<Rightarrow> tel_trace option \<Rightarrow> span list" where
  "anchor_span now tupleID traceID namespaceID trace =
    (case trace of None \<Rightarrow> [] | Some tr \<Rightarrow>
       if tr_SpanID tr = [] then []
       else [empty_span \<lparr> sn_TraceID := traceID, sn_SpanID := tr_SpanID tr,
               sn_ParentSpanID := (if tr_ParentSpanID tr = [] \<and> tupleID \<noteq> [] then tupleID else tr_ParentSpanID tr),
               sn_TupleID := tupleID, sn_NamespaceID := namespaceID, sn_Name := ''agent.op'', sn_Kind := ''agent_op'',
               sn_TsStart := now, sn_Attrs := mergeAttrs (base_attrs trace) [] \<rparr>])"

definition base_parent :: "string \<Rightarrow> tel_trace option \<Rightarrow> string" where
  "base_parent tupleID trace =
    (let p0 = (case trace of Some tr \<Rightarrow> tr_SpanID tr | None \<Rightarrow> []);
         p1 = (case trace of Some tr \<Rightarrow> if p0 = [] then tr_ParentSpanID tr else p0 | None \<Rightarrow> p0)
     in if p1 = [] \<and> tupleID \<noteq> [] then tupleID else p1)"

definition defaultTelemetryKind :: "string \<Rightarrow> string \<Rightarrow> string" where
  "defaultTelemetryKind value fallback = (if value \<noteq> [] then value else fallback)"

definition guardrail_attrs :: "guardrail \<Rightarrow> attr gomap" where
  "guardrail_attrs g =
    [(''rule_id'', Attr (VStr (gr_RuleID g))), (''hit'', Attr (VBool (gr_Hit g))), (''severity'', Attr (VStr (gr_Severity g)))] @
    (if gr_EvidenceRef g \<noteq> [] then [(''evidence_ref'', Attr (VStr (gr_EvidenceRef g)))] else [])"

definition obsToSpans :: "gotime \<Rightarrow> string \<Rightarrow> string \<Rightarrow> string \<Rightarrow> observation option \<Rightarrow> span list" where
  "obsToSpans now tupleID traceID namespaceID obs =
    (case obs of None \<Rightarrow> [] | Some ob \<Rightarrow>
      (let trace = ob_Trace ob; tid = base_trace_id traceID trace; parent = base_parent tupleID trace;
           base = base_attrs trace;
           sp = empty_span \<lparr> sn_TraceID := tid, sn_ParentSpanID := parent, sn_TupleID := tupleID,
                  sn_NamespaceID := namespaceID, sn_TsStart := now \<rparr>
       in if tid = [] then []
          else anchor_span now tupleID tid namespaceID trace @
            (if ob_Treatments ob \<noteq> [] then
               [sp \<lparr> sn_Name := ''trace.treatments'', sn_Kind := ''treatment'',
                     sn_Attrs := mergeAttrs base [(''treatments'', Attr (VMap (ob_Treatments ob)))] \<rparr>]
             else []) @
            map (\<lambda>m. sp \<lparr> sn_Name := tm_Key m, sn_Kind := ''metric'', sn_Metric := Some m,
                     sn_Attrs := mergeAttrs base [] \<rparr>) (ob_Metrics ob) @
            map (\<lambda>g. sp \<lparr> sn_Name := gr_RuleID g, sn_Kind := ''guardrail'',
                     sn_Attrs := mergeAttrs base (guardrail_attrs g) \<rparr>) (ob_Guardrails ob) @
            map (\<lambda>ev. sp \<lparr> sn_SpanID := te_SpanID ev,
                     sn_ParentSpanID := (if te_ParentSpanID ev = [] then parent else te_ParentSpanID ev),
                     sn_Name := te_Name ev, sn_Kind := defaultTelemetryKind (te_Kind ev) ''event'',
                     sn_TsStart := (if IsZero (te_TsStart ev) then now else te_TsStart ev), sn_TsEnd := te_TsEnd ev,
                     sn_Status := te_Status ev, sn_Attrs := mergeAttrs base (plain_attrs (or_nil (te_Attrs ev))) \<rparr>)
                (ob_Events ob)))"

text \<open>An error of the telemetry store is logged and dropped.\<close>

definition recordObs ::
  "api_env \<Rightarrow> 's handlers \<Rightarrow> call \<Rightarrow> string \<Rightarrow> string \<Rightarrow> string \<Rightarrow> observation option \<Rightarrow> ('s, unit) act" where
  "recordObs e h i tupleID traceID namespaceID obs =
    (case (hd_telemetry h, obs) of
       (Some (record, _), Some ob) \<Rightarrow>
         (let spans = obsToSpans (ae_now e 9) tupleID traceID namespaceID obs
          in if spans = [] then ret () else andThen (record i spans) (\<lambda>_. ret ()))
     | _ \<Rightarrow> ret ())"

lemma obsToSpans_fields:
  "sn \<in> set (obsToSpans now tupleID traceID namespaceID obs) \<Longrightarrow>
     sn_TupleID sn = tupleID \<and> sn_NamespaceID sn = namespaceID \<and> sn_TraceID sn \<noteq> []"
  by (auto simp: obsToSpans_def anchor_span_def Let_def empty_span_def split: option.splits if_splits)

end
