(* ===== verification/Api_Handlers.thy ===== *)
theory Api_Handlers
  imports Api_Telemetry
begin

text \<open>
  The handlers of \<^verbatim>\<open>internal/api/handlers.go\<close> that create, read, query and claim agents, with the helpers they share:
  answers, classification of errors, namespace scoping, counting and quotas.  Each handler reads like the source:
  decode, scope to the principal, call the store, answer.  The handlers that end a lease and those that read events
  and the graph are in the theories that follow.
\<close>

section \<open>Answers\<close>

definition agent_encodes :: "agent \<Rightarrow> bool" where
  "agent_encodes a = (agent_json a \<noteq> None)"

definition event_encodes :: "event \<Rightarrow> bool" where
  "event_encodes ev = (marshal_time (e_Timestamp ev) \<noteq> None \<and> event_data_json (e_Data ev) \<noteq> None)"

definition attr_encodes :: "attr \<Rightarrow> bool" where
  "attr_encodes v = (case v of Attr g \<Rightarrow> marshal g \<noteq> None | ALinks _ \<Rightarrow> True)"

definition span_encodes :: "span \<Rightarrow> bool" where
  "span_encodes sn = (marshal_time (sn_TsStart sn) \<noteq> None \<and>
     (case sn_TsEnd sn of None \<Rightarrow> True | Some t \<Rightarrow> marshal_time t \<noteq> None) \<and>
     list_all (attr_encodes \<circ> snd) (or_nil (sn_Attrs sn)))"

fun encodes :: "resp_body \<Rightarrow> bool" where
  "encodes (BAgent a) = agent_encodes a"
| "encodes (BAgents as) = list_all agent_encodes as"
| "encodes (BQuery as n) = list_all agent_encodes as"
| "encodes (BCompleted a as) = (agent_encodes a \<and> list_all agent_encodes as)"
| "encodes (BEvents evs n c) = list_all event_encodes evs"
| "encodes (BDAG g) = list_all (\<lambda>(k, n). marshal_time (n_CreatedAt n) \<noteq> None) (d_Nodes g)"
| "encodes (BSpans sns n) = list_all span_encodes sns"
| "encodes b = True"

definition writeJSON :: "nat \<Rightarrow> resp_body \<Rightarrow> http_response" where
  "writeJSON status data =
    (if encodes data then \<lparr> rs_Status = status, rs_Header = [(''Content-Type'', ''application/json'')], rs_Body = data \<rparr>
     else \<lparr> rs_Status = 500, rs_Header = [(''Content-Type'', ''application/json'')], rs_Body = BNone \<rparr>)"

definition writeError :: "nat \<Rightarrow> string \<Rightarrow> http_response" where
  "writeError status message = writeJSON status (BError message)"

lemma rs_writeError [simp]:
  "rs_Status (writeError st msg) = st" "rs_Body (writeError st msg) = BError msg"
  by (simp_all add: writeError_def writeJSON_def)

definition isTransientError :: "go_err \<Rightarrow> bool" where
  "isTransientError er = (let s = to_lower (er_Text er) in
     contains s ''connection refused'' \<or> contains s ''connection reset'' \<or> contains s ''connection closed'' \<or>
     contains s ''too many open files'' \<or> contains s ''resource temporarily unavailable'' \<or> contains s ''broken pipe'' \<or>
     contains s ''no such host'' \<or> contains s ''no hosts available'' \<or> contains s ''no connections'' \<or>
     contains s ''dial tcp'' \<or> contains s ''i/o timeout'' \<or> contains s ''operation timed out'' \<or>
     contains s ''unavailable'' \<or> contains s ''too many requests'' \<or> contains s ''overloaded'' \<or>
     contains s ''bootstrapping'')"

section \<open>Paths and headers\<close>

definition extractIDFromPath :: "string \<Rightarrow> string \<Rightarrow> string" where
  "extractIDFromPath path pre = hd (split_on (CHR ''/'') (trim_prefix path pre))"

definition agents_prefix :: string where "agents_prefix = ''/api/v1/agents/''"

text \<open>\<^verbatim>\<open>strings.Trim(s, "\"")\<close>\<close>

definition trim_quotes :: "string \<Rightarrow> string" where
  "trim_quotes s = rev (dropWhile (\<lambda>c. c = CHR 0x22) (rev (dropWhile (\<lambda>c. c = CHR 0x22) s)))"

definition token_is_minimal :: "string \<Rightarrow> bool" where
  "token_is_minimal rawToken =
    (let token = trim_space rawToken; directive = to_lower (trim_space (hd (splitN2 (CHR '';'') token)))
     in token \<noteq> [] \<and> has_prefix directive ''return='' \<and>
        trim_quotes (trim_space (trim_prefix directive ''return='')) = ''minimal'')"

definition requestPrefersReturnMinimal :: "http_request \<Rightarrow> bool" where
  "requestPrefersReturnMinimal r =
    list_ex (\<lambda>v. list_ex token_is_minimal (split_on (CHR '','') v)) (header_values r ''Prefer'')"

text \<open>\<^verbatim>\<open>strconv.Atoi\<close> with its error dropped: zero for no number, the nearest value for one out of range.\<close>

definition atoi_value :: "string \<Rightarrow> int" where
  "atoi_value s =
    (let neg = (s \<noteq> [] \<and> hd s = CHR ''-'');
         ds = (if s \<noteq> [] \<and> (hd s = CHR ''-'' \<or> hd s = CHR ''+'') then tl s else s)
     in if ds = [] \<or> \<not> list_all is_digit ds then 0
        else if neg then max (- 9223372036854775808) (- digits_val ds) else min 9223372036854775807 (digits_val ds))"

text \<open>\<^verbatim>\<open>time.Duration(n) * time.Second\<close>\<close>

definition seconds :: "int \<Rightarrow> duration" where
  "seconds n = to_int64 (n * Second)"

section \<open>Namespaces\<close>

definition effectiveAgentNamespace :: "agent \<Rightarrow> string" where
  "effectiveAgentNamespace t =
    (if trim_space (a_NamespaceID t) \<noteq> [] then trim_space (a_NamespaceID t)
     else case a_Metadata t of None \<Rightarrow> [] | Some m \<Rightarrow> trim_space (str_at m NamespaceMetadataKey))"

definition requestPrincipalNamespace :: "http_request \<Rightarrow> string" where
  "requestPrincipalNamespace r =
    (case AuthPrincipalFromContext r of None \<Rightarrow> [] | Some p \<Rightarrow> trim_space (p_NamespaceID p))"

definition agentVisibleToPrincipal :: "http_request \<Rightarrow> agent \<Rightarrow> bool" where
  "agentVisibleToPrincipal r t =
    (case AuthPrincipalFromContext r of None \<Rightarrow> True | Some p \<Rightarrow>
       trim_space (p_NamespaceID p) = [] \<or> effectiveAgentNamespace t = trim_space (p_NamespaceID p))"

definition applyPrincipalNamespaceToQuery :: "http_request \<Rightarrow> query \<Rightarrow> query" where
  "applyPrincipalNamespaceToQuery r q =
    (case AuthPrincipalFromContext r of None \<Rightarrow> q | Some p \<Rightarrow>
       (let ns = trim_space (p_NamespaceID p)
        in if ns = [] then q
           else q \<lparr> q_NamespaceID := ns,
                    q_Metadata := Some (AList.update NamespaceMetadataKey ns (or_nil (q_Metadata q))) \<rparr>))"

definition requireAdmin :: "http_request \<Rightarrow> http_response option" where
  "requireAdmin r = (case AuthPrincipalFromContext r of
     None \<Rightarrow> Some (writeError 401 ''admin authentication required'')
   | Some p \<Rightarrow> if \<not> p_Admin p then Some (writeError 403 ''admin access required'') else None)"

text \<open>Get followed by the visibility check, as the handlers that address one agent begin.\<close>

definition visibleAgent :: "http_request \<Rightarrow> 's agent_space \<Rightarrow> call \<Rightarrow> string \<Rightarrow> ('s, http_response + agent) act" where
  "visibleAgent r space i tid = andThen (sp_Get space i tid) (\<lambda>x. case x of
     Inl _ \<Rightarrow> ret (Inl (writeError 404 ''agent not found''))
   | Inr t \<Rightarrow> if \<not> agentVisibleToPrincipal r t then ret (Inl (writeError 404 ''agent not found'')) else ret (Inr t))"

section \<open>Counting and quotas\<close>

text \<open>The pages of \<^verbatim>\<open>countAllWithSpace\<close>; the loop ends at the first page that is not full.\<close>

definition count_page :: "'s agent_space \<Rightarrow> nat \<Rightarrow> query \<Rightarrow> int \<Rightarrow> nat \<Rightarrow> int \<times> int \<Rightarrow> ('s, (go_err + int) + int \<times> int) act" where
  "count_page space i q pageSize k acc =
    (let (sum, offset) = acc in
     andThen (sp_Query space (i, k) (q \<lparr> q_Limit := pageSize, q_Offset := offset \<rparr>)) (\<lambda>x. ret (case x of
       Inl er \<Rightarrow> Inl (Inl er)
     | Inr agents \<Rightarrow>
         if int (length agents) < pageSize then Inl (Inr (sum + int (length agents)))
         else Inr (sum + int (length agents), offset + pageSize))))"

definition countAllWithSpace :: "'s agent_space \<Rightarrow> nat \<Rightarrow> query option \<Rightarrow> int \<Rightarrow> ('s, go_err + int) act" where
  "countAllWithSpace space i qo pageSize =
    for_loop (count_page space i (case qo of None \<Rightarrow> empty_query | Some q \<Rightarrow> q) (if pageSize \<le> 0 then 1000 else pageSize)) 0 (0, 0)"

definition countAll :: "'s handlers \<Rightarrow> nat \<Rightarrow> query option \<Rightarrow> int \<Rightarrow> ('s, go_err + int) act" where
  "countAll h i qo pageSize = countAllWithSpace (hd_space h) i qo pageSize"

definition countByQuery :: "'s handlers \<Rightarrow> nat \<Rightarrow> query \<Rightarrow> ('s, go_err + int) act" where
  "countByQuery h i q = (case sp_Count (hd_space h) of Some count \<Rightarrow> count (i, 0) q | None \<Rightarrow> countAll h i (Some q) 1000)"

definition quota_query :: "status \<Rightarrow> string gomap \<Rightarrow> query" where
  "quota_query st md = empty_query \<lparr> q_Status := st, q_Metadata := Some md \<rparr>"

definition orError :: "('s, 'e + 'a) act \<Rightarrow> ('a \<Rightarrow> ('s, 'e + 'b) act) \<Rightarrow> ('s, 'e + 'b) act" where
  "orError m f = andThen m (\<lambda>x. case x of Inl er \<Rightarrow> ret (Inl er) | Inr a \<Rightarrow> f a)"

lemma wp_orError [wp_rules, simp]:
  "wp (orError m f) Q s = wp m (\<lambda>x. case x of Inl er \<Rightarrow> Q (Inl er) | Inr a \<Rightarrow> wp (f a) Q) s"
  unfolding orError_def wp_andThen by (rule arg_cong[where f = "\<lambda>R. wp m R s"]) (auto simp: fun_eq_iff split: sum.split)

definition active_quota :: "'s handlers \<Rightarrow> nat \<Rightarrow> int \<Rightarrow> string \<Rightarrow> int \<Rightarrow> ('s, go_err + bool) act" where
  "active_quota h i cap ns additional =
    (if cap \<le> 0 then ret (Inr True)
     else orError (countByQuery h i (quota_query StatusNew [(NamespaceMetadataKey, ns)])) (\<lambda>newCount.
          orError (countByQuery h (i + 1) (quota_query StatusInProgress [(NamespaceMetadataKey, ns)])) (\<lambda>inProgressCount.
          ret (Inr (\<not> cap < newCount + inProgressCount + additional)))))"

definition queue_quota ::
  "'s handlers \<Rightarrow> nat \<Rightarrow> int \<Rightarrow> string \<Rightarrow> string gomap option \<Rightarrow> int \<Rightarrow> ('s, go_err + bool) act" where
  "queue_quota h i cap ns metadata additional =
    (case metadata of None \<Rightarrow> ret (Inr True) | Some m \<Rightarrow>
       (let queueName = trim_space (str_at m QueueMetadataKey)
        in if cap \<le> 0 \<or> queueName = [] then ret (Inr True)
           else orError (countByQuery h i (quota_query StatusNew [(NamespaceMetadataKey, ns), (QueueMetadataKey, queueName)]))
                  (\<lambda>queueCount. ret (Inr (\<not> cap < queueCount + additional)))))"

text \<open>The answer: whether the creation is allowed, and the quota that refuses it.\<close>

definition allowNamespaceAgentCreation ::
  "'s handlers \<Rightarrow> nat \<Rightarrow> auth_principal \<Rightarrow> string \<Rightarrow> string gomap option \<Rightarrow> int \<Rightarrow> ('s, go_err + bool \<times> string) act" where
  "allowNamespaceAgentCreation h i prin namespaceID metadata additional =
    (if additional \<le> 0 then ret (Inr (True, []))
     else let principalNamespace = trim_space (p_NamespaceID prin);
              ns = trim_space (if principalNamespace \<noteq> [] then principalNamespace else namespaceID)
          in if principalNamespace \<noteq> [] \<and> ns \<noteq> principalNamespace then ret (Inr (False, ''namespace_mismatch''))
             else if ns = [] then ret (Inr (True, []))
             else orError (active_quota h i (l_MaxActiveAgents (p_Limits prin)) ns additional) (\<lambda>okActive.
               if \<not> okActive then ret (Inr (False, ''active_agent_quota''))
               else orError (queue_quota h (i + 2) (l_MaxQueueDepth (p_Limits prin)) ns metadata additional) (\<lambda>okQueue.
                 if \<not> okQueue then ret (Inr (False, ''queue_depth_quota'')) else ret (Inr (True, [])))))"

text \<open>The quota check of a handler: go on, or answer.\<close>

definition quotaCheck ::
  "'s handlers \<Rightarrow> nat \<Rightarrow> auth_principal \<Rightarrow> string \<Rightarrow> string gomap option \<Rightarrow> int \<Rightarrow> ('s, http_response + unit) act" where
  "quotaCheck h i prin namespaceID metadata additional =
    andThen (allowNamespaceAgentCreation h i prin namespaceID metadata additional) (\<lambda>x. case x of
      Inl er \<Rightarrow> ret (Inl (writeError 500 ''failed to evaluate namespace quotas''))
    | Inr (ok, reason) \<Rightarrow> if \<not> ok then ret (Inl (writeError 429 ''namespace quota exceeded'')) else ret (Inr ()))"

section \<open>CreateAgent\<close>

definition new_agent :: "api_env \<Rightarrow> create_request \<Rightarrow> string \<Rightarrow> agent" where
  "new_agent e req namespaceID =
    (let i = ae_uuid e 0; m = AList.update ''id'' i (or_nil (cr_Metadata req))
     in empty_agent \<lparr> a_ID := i, a_Kind := cr_Kind req, a_Status := StatusNew, a_Payload := cr_Payload req,
          a_Tags := cr_Tags req, a_ParentID := cr_ParentID req,
          a_TraceID := (if cr_TraceID req = [] then ae_uuid e 1 else cr_TraceID req),
          a_NamespaceID := namespaceID, a_TTL := seconds (cr_TTL req), a_CreatedAt := ae_now e 0, a_UpdatedAt := ae_now e 1,
          a_Metadata := Some (if namespaceID \<noteq> [] then AList.update NamespaceMetadataKey namespaceID m else m) \<rparr>)"

definition store_new_agent :: "api_env \<Rightarrow> 's handlers \<Rightarrow> http_request \<Rightarrow> create_request \<Rightarrow> string \<Rightarrow> ('s, http_response) act" where
  "store_new_agent e h r req namespaceID =
    andThen (sp_Out (requestSpace h (r_Context r)) (3, 0) (new_agent e req namespaceID)) (\<lambda>x. case x of
      Inl er \<Rightarrow> ret (if isTransientError er then writeError 503 ''service temporarily unavailable''
                     else writeError 500 ''failed to create agent'')
    | Inr t \<Rightarrow> andThen (recordObs e h (4, 0) (a_ID t) (a_TraceID t) (a_NamespaceID t) (cr_Obs req)) (\<lambda>_.
        ret (writeJSON 201 (BAgent t))))"

definition CreateAgent :: "api_env \<Rightarrow> 's handlers \<Rightarrow> http_request \<Rightarrow> ('s, http_response) act" where
  "CreateAgent e h r =
    (case js_create (ae_json e) (r_Body r) of
       DecOK req \<Rightarrow>
         (let namespaceID = trim_space (cr_NamespaceID req) in
          case AuthPrincipalFromContext r of
            None \<Rightarrow> store_new_agent e h r req namespaceID
          | Some prin \<Rightarrow>
              if p_NamespaceID prin \<noteq> [] \<and> namespaceID \<noteq> [] \<and> namespaceID \<noteq> p_NamespaceID prin
              then ret (writeError 403 ''namespace mismatch for authenticated principal'')
              else let ns = (if p_NamespaceID prin \<noteq> [] then p_NamespaceID prin else namespaceID) in
                orAnswer (quotaCheck h 0 prin ns (cr_Metadata req) 1) (\<lambda>_. store_new_agent e h r req ns))
     | _ \<Rightarrow> ret (writeError 400 ''invalid request body''))"

section \<open>GetAgent and UpdateAgent\<close>

definition GetAgent :: "api_env \<Rightarrow> 's handlers \<Rightarrow> http_request \<Rightarrow> ('s, http_response) act" where
  "GetAgent e h r =
    (let space = requestSpace h (r_Context r); tid = extractIDFromPath (r_Path r) agents_prefix
     in if tid = [] then ret (writeError 400 ''missing agent ID'')
        else orAnswer (visibleAgent r space (0, 0) tid) (\<lambda>t. ret (writeJSON 200 (BAgent t))))"

text \<open>The update map of a request, or the answer to one that would move the agent to another namespace.\<close>

definition build_updates :: "agent \<Rightarrow> update_request \<Rightarrow> http_response + gval gomap" where
  "build_updates current req =
    (let ns = effectiveAgentNamespace current;
         u0 = (case ur_Payload req of None \<Rightarrow> [] | Some p \<Rightarrow> [(''payload'', VMap p)]) @
              (case ur_Tags req of None \<Rightarrow> [] | Some ts \<Rightarrow> [(''tags'', VStrings ts)])
     in case ur_Metadata req of None \<Rightarrow> Inr u0
        | Some m \<Rightarrow>
            if str_at m NamespaceMetadataKey \<noteq> [] \<and> str_at m NamespaceMetadataKey \<noteq> ns
            then Inl (writeError 403 ''namespace_id metadata is immutable'')
            else Inr (u0 @ [(''metadata'', VStrMap (if ns \<noteq> [] then AList.update NamespaceMetadataKey ns m else m))]))"

text \<open>Get after a write, for stores that do not return the agent.\<close>

definition fetchAgain :: "'s agent_space \<Rightarrow> call \<Rightarrow> string \<Rightarrow> ('s, http_response + agent) act" where
  "fetchAgain space i tid = andThen (sp_Get space i tid) (\<lambda>x. case x of
     Inl _ \<Rightarrow> ret (Inl (writeError 404 ''agent not found'')) | Inr t \<Rightarrow> ret (Inr t))"

definition orFetch :: "'s agent_space \<Rightarrow> call \<Rightarrow> string \<Rightarrow> agent option \<Rightarrow> ('s, http_response + agent) act" where
  "orFetch space i tid t = (case t of Some a \<Rightarrow> ret (Inr a) | None \<Rightarrow> fetchAgain space i tid)"

definition run_update :: "'s agent_space \<Rightarrow> string \<Rightarrow> gval gomap \<Rightarrow> ('s, http_response + agent) act" where
  "run_update space tid updates =
    (case sp_UpdateAndGet space of
       Some updateAndGet \<Rightarrow> andThen (updateAndGet (1, 0) tid updates) (\<lambda>x. case x of
         Inl er \<Rightarrow> ret (Inl (writeError 500 ''failed to update agent'')) | Inr t \<Rightarrow> orFetch space (2, 0) tid t)
     | None \<Rightarrow> andThen (sp_Update space (1, 0) tid updates) (\<lambda>x. case x of
         Inl er \<Rightarrow> ret (Inl (writeError 500 ''failed to update agent'')) | Inr _ \<Rightarrow> fetchAgain space (2, 0) tid))"

definition UpdateAgent :: "api_env \<Rightarrow> 's handlers \<Rightarrow> http_request \<Rightarrow> ('s, http_response) act" where
  "UpdateAgent e h r =
    (let space = requestSpace h (r_Context r); tid = extractIDFromPath (r_Path r) agents_prefix
     in if tid = [] then ret (writeError 400 ''missing agent ID'')
        else orAnswer (visibleAgent r space (0, 0) tid) (\<lambda>current.
          case js_update (ae_json e) (r_Body r) of
            DecOK req \<Rightarrow>
              if ur_Status req \<noteq> None \<or> ur_Owner req \<noteq> None
              then ret (writeError 400 ''status and owner updates must use lease-aware endpoints'')
              else (case build_updates current req of Inl resp \<Rightarrow> ret resp | Inr updates \<Rightarrow>
                orAnswer (run_update space tid updates) (\<lambda>t.
                  andThen (recordObs e h (3, 0) (a_ID t) (a_TraceID t) (a_NamespaceID t) (ur_Obs req)) (\<lambda>_.
                    ret (writeJSON 200 (BAgent t)))))
          | _ \<Rightarrow> ret (writeError 400 ''invalid request body'')))"

section \<open>QueryAgents and AgentStats\<close>

definition QueryAgents :: "api_env \<Rightarrow> 's handlers \<Rightarrow> http_request \<Rightarrow> ('s, http_response) act" where
  "QueryAgents e h r =
    (case js_query (ae_json e) (r_Body r) of
       DecOK q0 \<Rightarrow>
         (let q1 = applyPrincipalNamespaceToQuery r q0;
              query = (if q_Limit q1 = 0 then q1 \<lparr> q_Limit := 100 \<rparr> else q1)
          in andThen (sp_Query (requestSpace h (r_Context r)) (0, 0) query) (\<lambda>x. case x of
               Inl er \<Rightarrow> ret (writeError 500 ''failed to query agents'')
             | Inr agents \<Rightarrow> andThen (countByQuery h 1 (query \<lparr> q_Limit := 0, q_Offset := 0 \<rparr>)) (\<lambda>y. case y of
                 Inl er \<Rightarrow> ret (writeError 500 ''failed to count agents'')
               | Inr n \<Rightarrow> ret (writeJSON 200 (BQuery agents n)))))
     | _ \<Rightarrow> ret (writeError 400 ''invalid query''))"

definition all_statuses :: "status list" where
  "all_statuses = [StatusNew, StatusInProgress, StatusCompleted, StatusFailed]"

definition count_at :: "(status \<times> int) list \<Rightarrow> status \<Rightarrow> int" where
  "count_at counts st = (case map_of counts st of None \<Rightarrow> 0 | Some n \<Rightarrow> n)"

fun stats_loop :: "'s agent_space \<Rightarrow> query \<Rightarrow> nat \<Rightarrow> status list \<Rightarrow> (status \<times> int) list \<Rightarrow> ('s, http_response + (status \<times> int) list) act" where
  "stats_loop space q i [] counts = ret (Inr counts)"
| "stats_loop space q i (st # rest) counts =
    andThen (case sp_Count space of Some count \<Rightarrow> count (i, 0) (q \<lparr> q_Status := st \<rparr>)
             | None \<Rightarrow> countAllWithSpace space i (Some (q \<lparr> q_Status := st \<rparr>)) 1000) (\<lambda>x. case x of
      Inl er \<Rightarrow> ret (Inl (writeError 500 ''failed to compute stats''))
    | Inr n \<Rightarrow> stats_loop space q (Suc i) rest (counts @ [(st, n)]))"

definition AgentStats :: "api_env \<Rightarrow> 's handlers \<Rightarrow> http_request \<Rightarrow> ('s, http_response) act" where
  "AgentStats e h r =
    (case js_query (ae_json e) (r_Body r) of
       DecErr \<Rightarrow> ret (writeError 400 ''invalid query'')
     | d \<Rightarrow>
         (let space = requestSpace h (r_Context r);
              query = applyPrincipalNamespaceToQuery r (case d of DecOK q \<Rightarrow> q | _ \<Rightarrow> empty_query);
              statuses = (if q_Status query \<noteq> [] then [q_Status query] else all_statuses);
              answer = (\<lambda>counts. ret (writeJSON 200 (BCounts counts (sum_list (map snd counts)))))
          in case sp_CountByStatus space of
               Some countByStatus \<Rightarrow>
                 andThen (countByStatus (0, 0) (query \<lparr> q_Status := [], q_Limit := 0, q_Offset := 0 \<rparr>)) (\<lambda>x. case x of
                   Inl er \<Rightarrow> ret (writeError 500 ''failed to compute stats'')
                 | Inr grouped \<Rightarrow> answer (map (\<lambda>st. (st, count_at grouped st)) statuses))
             | None \<Rightarrow> orAnswer (stats_loop space query 0 statuses []) answer))"

section \<open>ReadAgent, TakeAgent, BatchTakeAgent and InAgent\<close>

definition timeout_text :: string where "timeout_text = ''timeout waiting for agent''"

definition ReadAgent :: "api_env \<Rightarrow> 's handlers \<Rightarrow> http_request \<Rightarrow> ('s, http_response) act" where
  "ReadAgent e h r =
    (case js_read (ae_json e) (r_Body r) of
       DecOK req \<Rightarrow>
         (let space = requestSpace h (r_Context r); q = applyPrincipalNamespaceToQuery r (rd_Query req)
          in if rd_Blocking req then
               andThen (sp_Read space (0, 0) q (seconds (if rd_Timeout req = 0 then 30 else rd_Timeout req))) (\<lambda>x. case x of
                 Inl er \<Rightarrow> ret (if er_Text er = timeout_text then writeError 408 ''request timeout''
                                else writeError 500 ''failed to read agent'')
               | Inr None \<Rightarrow> ret (respond 204 BNone)
               | Inr (Some t) \<Rightarrow> ret (writeJSON 200 (BAgent t)))
             else
               andThen (sp_Query space (0, 0) (if q_Limit q \<le> 0 \<or> 1 < q_Limit q then q \<lparr> q_Limit := 1 \<rparr> else q)) (\<lambda>x. case x of
                 Inl er \<Rightarrow> ret (writeError 500 ''failed to read agent'')
               | Inr [] \<Rightarrow> ret (respond 204 BNone)
               | Inr (t # _) \<Rightarrow> ret (writeJSON 200 (BAgent t))))
     | _ \<Rightarrow> ret (writeError 400 ''invalid request''))"

text \<open>The header names the owner of the claim; it is not a filter.\<close>

definition with_agent_id :: "http_request \<Rightarrow> query \<Rightarrow> query" where
  "with_agent_id r q = (let agentID = header_get r ''X-Agent-ID'' in if agentID \<noteq> [] then q \<lparr> q_AgentID := agentID \<rparr> else q)"

definition take_error :: "go_err \<Rightarrow> http_response" where
  "take_error er =
    (if er_Deadline er then writeError 504 ''operation timeout''
     else if er_Canceled er then writeError 504 ''request canceled''
     else if isTransientError er then writeError 503 ''service temporarily unavailable''
     else writeError 500 ''failed to take agent'')"

definition TakeAgent :: "api_env \<Rightarrow> 's handlers \<Rightarrow> http_request \<Rightarrow> ('s, http_response) act" where
  "TakeAgent e h r =
    (case js_take (ae_json e) (r_Body r) of
       DecOK req \<Rightarrow>
         (let q = with_agent_id r (applyPrincipalNamespaceToQuery r (tk_Query req))
          in andThen (sp_Take (requestSpace h (r_Context r)) (0, 0) q) (\<lambda>x. case x of
               Inl er \<Rightarrow> ret (take_error er)
             | Inr None \<Rightarrow> ret (respond 204 BNone)
             | Inr (Some t) \<Rightarrow>
                 andThen (recordObs e h (1, 0) (a_ID t) (a_TraceID t) (a_NamespaceID t) (tk_Obs req)) (\<lambda>_.
                   ret (writeJSON 200 (if requestPrefersReturnMinimal r then BClaim (a_ID t) (a_LeaseToken t) (a_ShardID t)
                                       else BAgent t)))))
     | _ \<Rightarrow> ret (writeError 400 ''invalid request''))"

definition BatchTakeAgent :: "api_env \<Rightarrow> 's handlers \<Rightarrow> http_request \<Rightarrow> ('s, http_response) act" where
  "BatchTakeAgent e h r =
    (case js_batch_take (ae_json e) (r_Body r) of
       DecOK req \<Rightarrow>
         (let q = with_agent_id r (applyPrincipalNamespaceToQuery r (bt_Query req));
              limit = (if bt_Limit req \<le> 0 then 1 else if 100 < bt_Limit req then 100 else bt_Limit req)
          in case sp_BatchTake (requestSpace h (r_Context r)) of
               None \<Rightarrow> ret (writeError 501 ''batch take not supported by this backend'')
             | Some batchTake \<Rightarrow> andThen (batchTake (0, 0) q limit) (\<lambda>x. case x of
                 Inl er \<Rightarrow> ret (writeError 500 ''failed to batch take agents'')
               | Inr [] \<Rightarrow> ret (respond 204 BNone)
               | Inr agents \<Rightarrow> ret (writeJSON 200 (BAgents agents))))
     | _ \<Rightarrow> ret (writeError 400 ''invalid request''))"

definition in_error :: "go_err \<Rightarrow> http_response" where
  "in_error er =
    (if er_Text er = timeout_text then writeError 408 ''request timeout''
     else if er_Deadline er then writeError 408 ''request timeout''
     else if er_Canceled er then writeError 408 ''request canceled''
     else if isTransientError er then writeError 503 ''service temporarily unavailable''
     else writeError 500 ''failed to take agent'')"

definition InAgent :: "api_env \<Rightarrow> 's handlers \<Rightarrow> http_request \<Rightarrow> ('s, http_response) act" where
  "InAgent e h r =
    (case js_in (ae_json e) (r_Body r) of
       DecOK req \<Rightarrow>
         (let q = with_agent_id r (applyPrincipalNamespaceToQuery r (in_Query req));
              timeout = seconds (if in_Timeout req = 0 then 30 else in_Timeout req)
          in andThen (sp_In (requestSpace h (r_Context r)) (0, 0) q timeout) (\<lambda>x. case x of
               Inl er \<Rightarrow> ret (in_error er)
             | Inr t \<Rightarrow> andThen (recordObs e h (1, 0) (a_ID t) (a_TraceID t) (a_NamespaceID t) (in_Obs req)) (\<lambda>_.
                 ret (writeJSON 200 (BAgent t)))))
     | _ \<Rightarrow> ret (writeError 400 ''invalid request''))"

end
