(* ===== verification/Api_Net.thy ===== *)
theory Api_Net
  imports Api_Types
begin

text \<open>
  The parts of Go's \<^verbatim>\<open>net\<close> package the rate limiter uses to tell clients apart: SplitHostPort, ParseIP and
  ParseCIDR, and the client identifier of \<^verbatim>\<open>security_middleware.go\<close> on top of them.  An address is 32 or 128 bits; an
  IPv4 address in IPv6 form is the IPv4 address.
\<close>

section \<open>SplitHostPort\<close>

definition last_index :: "char \<Rightarrow> string \<Rightarrow> nat option" where
  "last_index c s = (if c \<in> set s then Some (length s - 1 - length (takeWhile (\<lambda>x. x \<noteq> c) (rev s))) else None)"

text \<open>The host of \<^verbatim>\<open>net.SplitHostPort\<close>, empty where it returns an error.\<close>

definition split_host :: "string \<Rightarrow> string" where
  "split_host s =
    (case last_index (CHR '':'') s of None \<Rightarrow> []
     | Some i \<Rightarrow>
         if hd s = CHR ''['' then
           (let h = takeWhile (\<lambda>c. c \<noteq> CHR '']'') (tl s); close = Suc (length h) in
            if CHR '']'' \<notin> set s \<or> Suc close \<noteq> i \<or> CHR ''['' \<in> set (tl s) \<or> CHR '']'' \<in> set (drop (Suc close) s) then [] else h)
         else
           (let h = take i s in
            if CHR '':'' \<in> set h \<or> CHR ''['' \<in> set s \<or> CHR '']'' \<in> set s then [] else h))"

section \<open>Addresses\<close>

datatype ip = V4 int | V6 int

definition octet :: "string \<Rightarrow> int option" where
  "octet s = (if s \<noteq> [] \<and> length s \<le> 3 \<and> list_all is_digit s \<and> (length s = 1 \<or> hd s \<noteq> CHR ''0'') \<and> digits_val s \<le> 255
     then Some (digits_val s) else None)"

definition parse_v4 :: "string \<Rightarrow> int option" where
  "parse_v4 s = (case map octet (split_on (CHR ''.'') s) of
     [Some a, Some b, Some c, Some d] \<Rightarrow> Some (((a * 256 + b) * 256 + c) * 256 + d) | _ \<Rightarrow> None)"

definition hex_val :: "char \<Rightarrow> int option" where
  "hex_val c = (let n = of_char (lower_char c) :: int in
     if 48 \<le> n \<and> n \<le> 57 then Some (n - 48) else if 97 \<le> n \<and> n \<le> 102 then Some (n - 87) else None)"

definition hex_group :: "string \<Rightarrow> int option" where
  "hex_group s = (if s = [] \<or> 4 < length s then None
     else fold (\<lambda>c acc. obind acc (\<lambda>n. map_option (\<lambda>d. 16 * n + d) (hex_val c))) s (Some 0))"

text \<open>The 16-bit groups of one side of an IPv6 address; the last field may be a dotted IPv4 address.\<close>

fun groups :: "bool \<Rightarrow> string list \<Rightarrow> int list option" where
  "groups v4 [] = Some []"
| "groups v4 [f] = (if v4 \<and> CHR ''.'' \<in> set f then map_option (\<lambda>n. [n div 65536, n mod 65536]) (parse_v4 f)
     else map_option (\<lambda>n. [n]) (hex_group f))"
| "groups v4 (f # fs) = obind (hex_group f) (\<lambda>n. map_option (\<lambda>ns. n # ns) (groups v4 fs))"

definition side_groups :: "bool \<Rightarrow> string \<Rightarrow> int list option" where
  "side_groups v4 s = (if s = [] then Some [] else groups v4 (split_on (CHR '':'') s))"

definition word_of_groups :: "int list \<Rightarrow> int" where
  "word_of_groups gs = fold (\<lambda>g n. 65536 * n + g) gs 0"

fun split_double_colon :: "string \<Rightarrow> string \<Rightarrow> (string \<times> string) option" where
  "split_double_colon acc [] = None"
| "split_double_colon acc [c] = None"
| "split_double_colon acc (a # b # rest) =
    (if a = CHR '':'' \<and> b = CHR '':'' then Some (rev acc, rest) else split_double_colon (a # acc) (b # rest))"

definition parse_v6 :: "string \<Rightarrow> int option" where
  "parse_v6 s =
    (case split_double_colon [] s of
       None \<Rightarrow> obind (side_groups True s) (\<lambda>gs. if length gs = 8 then Some (word_of_groups gs) else None)
     | Some (l, r) \<Rightarrow>
         obind (side_groups False l) (\<lambda>ls. obind (side_groups True r) (\<lambda>rs.
           if length ls + length rs < 8 then Some (word_of_groups (ls @ replicate (8 - length ls - length rs) 0 @ rs)) else None)))"

definition to4 :: "int \<Rightarrow> ip" where
  "to4 n = (if n div 4294967296 = 65535 then V4 (n mod 4294967296) else V6 n)"

definition ParseIP :: "string \<Rightarrow> ip option" where
  "ParseIP s = (if CHR '':'' \<in> set s then map_option to4 (parse_v6 s) else map_option V4 (parse_v4 s))"

text \<open>\<^verbatim>\<open>net.ParseCIDR\<close> and \<^verbatim>\<open>IPNet.Contains\<close>: the address and the prefix length; only addresses of the network's family
  are contained.\<close>

definition prefix_len :: "string \<Rightarrow> nat \<Rightarrow> nat option" where
  "prefix_len s bits = (if s \<noteq> [] \<and> list_all is_digit s \<and> digits_val s \<le> int bits then Some (nat (digits_val s)) else None)"

definition network6 :: "int \<Rightarrow> nat \<Rightarrow> ip \<times> nat" where
  "network6 n l = (let m = n div 2 ^ (128 - l) * 2 ^ (128 - l) in case to4 m of V4 a \<Rightarrow> (V4 a, l - 96) | V6 b \<Rightarrow> (V6 b, l))"

definition ParseCIDR :: "string \<Rightarrow> (ip \<times> nat) option" where
  "ParseCIDR s = (case splitN2 (CHR ''/'') s of
     [addr, m] \<Rightarrow>
       if CHR '':'' \<in> set addr then obind (parse_v6 addr) (\<lambda>n. map_option (\<lambda>l. network6 n l) (prefix_len m 128))
       else obind (parse_v4 addr) (\<lambda>n. map_option (\<lambda>l. (V4 n, l)) (prefix_len m 32))
   | _ \<Rightarrow> None)"

fun net_contains :: "ip \<times> nat \<Rightarrow> ip \<Rightarrow> bool" where
  "net_contains (V4 n, l) (V4 a) = (n div 2 ^ (32 - l) = a div 2 ^ (32 - l))"
| "net_contains (V6 n, l) (V6 a) = (n div 2 ^ (128 - l) = a div 2 ^ (128 - l))"
| "net_contains _ _ = False"

section \<open>Client identifiers\<close>

definition trusts :: "string \<Rightarrow> ip \<Rightarrow> string \<Rightarrow> bool" where
  "trusts ip parsed cidr =
    (if CHR ''/'' \<in> set cidr then (case ParseCIDR cidr of None \<Rightarrow> False | Some net \<Rightarrow> net_contains net parsed)
     else ParseIP cidr \<noteq> None \<and> cidr = ip)"

definition isTrustedProxy :: "string \<Rightarrow> string list \<Rightarrow> bool" where
  "isTrustedProxy ip trusted = (case ParseIP ip of None \<Rightarrow> False | Some parsed \<Rightarrow> list_ex (trusts ip parsed) trusted)"

text \<open>The last entry of the forwarding chain that is not a trusted proxy.\<close>

definition forwarded_client :: "string list \<Rightarrow> string \<Rightarrow> string option" where
  "forwarded_client trusted forwarded =
    find (\<lambda>c. c \<noteq> [] \<and> \<not> isTrustedProxy c trusted) (map trim_space (rev (split_on (CHR '','') forwarded)))"

definition clientIdentifierWithTrust :: "http_request \<Rightarrow> string list \<Rightarrow> string" where
  "clientIdentifierWithTrust r trustedProxies =
    (let host = split_host (r_RemoteAddr r);
         remoteHost = (if host = [] then r_RemoteAddr r else host);
         direct = (if remoteHost \<noteq> [] then remoteHost else ''unknown'')
     in if trustedProxies \<noteq> [] \<and> isTrustedProxy remoteHost trustedProxies then
          (let forwarded = trim_space (header_get r ''X-Forwarded-For'') in
           if forwarded = [] then direct
           else case forwarded_client trustedProxies forwarded of Some c \<Rightarrow> c | None \<Rightarrow> direct)
        else direct)"

end
