(* ===== verification/Api_Middleware.thy ===== *)
theory Api_Middleware
  imports Api_Handlers Api_Net
begin

text \<open>
  The middleware of \<^verbatim>\<open>middleware.go\<close>, \<^verbatim>\<open>security_middleware.go\<close>, \<^verbatim>\<open>security_headers.go\<close> and \<^verbatim>\<open>metrics_middleware.go\<close>, and the
  API keys of \<^verbatim>\<open>auth_principal.go\<close>.  A middleware turns a handler into a handler; the state is that of the whole
  server.  HMAC-SHA256 with the nonce of the process is a parameter, as are the file with the keys and its JSON
  decoding.  LoggingMiddleware and MetricsMiddleware pass requests and responses through unchanged; of the latter the
  endpoint label is modelled.
\<close>

type_synonym 's http_handler = "http_request \<Rightarrow> ('s, http_response) act"

section \<open>API keys\<close>

record key_entry =
  k_RawKey :: string
  k_Principal :: auth_principal

record key_limits =
  kl_RateLimitRequests :: int
  kl_RateLimitWindow :: string
  kl_MaxBodyBytes :: int
  kl_MaxActiveAgents :: int
  kl_MaxQueueDepth :: int

record key_record =
  kr_APIKey :: string
  kr_NamespaceID :: string
  kr_Admin :: bool
  kr_Limits :: key_limits

datatype key_error =
    KeyFileUnreadable | KeyFileMalformed | KeyMissing nat | KeyNoNamespace nat | KeyDuplicate nat
  | KeyBadWindow nat | KeyNegativeLimit nat

definition key_limits_of :: "nat \<Rightarrow> key_limits \<Rightarrow> key_error + namespace_limits" where
  "key_limits_of idx l =
    (let window = trim_space (kl_RateLimitWindow l);
         w = (if window = [] then Some 0
              else case ParseDuration window of None \<Rightarrow> None | Some d \<Rightarrow> if d \<le> 0 then None else Some d)
     in case w of None \<Rightarrow> Inl (KeyBadWindow idx)
        | Some d \<Rightarrow>
            if kl_RateLimitRequests l < 0 \<or> kl_MaxBodyBytes l < 0 \<or> kl_MaxActiveAgents l < 0 \<or> kl_MaxQueueDepth l < 0
            then Inl (KeyNegativeLimit idx)
            else Inr \<lparr> l_RateLimitRequests = kl_RateLimitRequests l, l_RateLimitWindow = d, l_MaxBodyBytes = kl_MaxBodyBytes l,
                   l_MaxActiveAgents = kl_MaxActiveAgents l, l_MaxQueueDepth = kl_MaxQueueDepth l \<rparr>)"

fun load_keys :: "nat \<Rightarrow> string list \<Rightarrow> key_record list \<Rightarrow> key_error + key_entry list" where
  "load_keys idx seen [] = Inr []"
| "load_keys idx seen (rec # rest) =
    (let apiKey = trim_space (kr_APIKey rec); namespaceID = trim_space (kr_NamespaceID rec) in
     if apiKey = [] then Inl (KeyMissing idx)
     else if namespaceID = [] then Inl (KeyNoNamespace idx)
     else if apiKey \<in> set seen then Inl (KeyDuplicate idx)
     else bindr (key_limits_of idx (kr_Limits rec)) (\<lambda>limits.
       bindr (load_keys (Suc idx) (apiKey # seen) rest) (\<lambda>out.
         Inr (\<lparr> k_RawKey = apiKey,
                k_Principal = \<lparr> p_NamespaceID = namespaceID, p_Admin = kr_Admin rec, p_Limits = limits \<rparr> \<rparr> # out))))"

text \<open>\<open>read\<close> gives the bytes of a file and \<open>decode\<close> the \<^verbatim>\<open>keys\<close> of its document.\<close>

definition LoadAuthKeyPrincipals ::
  "(string \<Rightarrow> string option) \<Rightarrow> (string \<Rightarrow> key_record list option) \<Rightarrow> string \<Rightarrow> key_error + key_entry list" where
  "LoadAuthKeyPrincipals read decode path0 =
    (let path = trim_space path0 in
     if path = [] then Inr []
     else case read path of None \<Rightarrow> Inl KeyFileUnreadable
       | Some raw \<Rightarrow> (case decode raw of None \<Rightarrow> Inl KeyFileMalformed | Some keys \<Rightarrow> load_keys 0 [] keys))"

section \<open>Authentication\<close>

text \<open>\<open>hmac\<close> is HMAC-SHA256 under the nonce the process drew.  All entries are compared and the last match wins.\<close>

definition constantTimeLookup :: "(string \<Rightarrow> string) \<Rightarrow> key_entry list \<Rightarrow> string \<Rightarrow> auth_principal option" where
  "constantTimeLookup hmac entries providedKey =
    fold (\<lambda>k found. if hmac providedKey = hmac (k_RawKey k) then Some (k_Principal k) else found) entries None"

definition AuthModeOptional :: string where "AuthModeOptional = ''optional''"
definition AuthModeRequired :: string where "AuthModeRequired = ''required''"

record auth_config =
  ac_APIKey :: string
  ac_Mode :: string
  ac_ExemptPaths :: "string list"
  ac_KeyPrincipals :: "key_entry list"
  ac_LegacyNamespaceID :: string

definition DefaultAuthExemptPaths :: "string list" where
  "DefaultAuthExemptPaths = [''/api/v1/health'', ''/health'']"

definition unauthorized :: http_response where
  "unauthorized = http_error ''Unauthorized'' 401"

text \<open>What AuthMiddleware decides: the request to pass on, or the refusal.\<close>

definition authenticate :: "(string \<Rightarrow> string) \<Rightarrow> auth_config \<Rightarrow> http_request \<Rightarrow> http_response + http_request" where
  "authenticate hmac cfg r =
    (let exemptPaths = (if ac_ExemptPaths cfg = [] then DefaultAuthExemptPaths else ac_ExemptPaths cfg);
         mode = (if ac_Mode cfg = [] then AuthModeOptional else ac_Mode cfg);
         providedKey = trim_space (header_get r ''X-API-Key'')
     in if r_Path r \<in> set exemptPaths then Inr r
        else if mode = AuthModeOptional \<and> ac_APIKey cfg = [] \<and> ac_KeyPrincipals cfg = [] then Inr r
        else if ac_APIKey cfg = [] \<and> ac_KeyPrincipals cfg = [] then Inl (http_error ''Authentication misconfigured'' 503)
        else if providedKey = [] then Inl unauthorized
        else if ac_KeyPrincipals cfg \<noteq> [] then
          (case constantTimeLookup hmac (ac_KeyPrincipals cfg) providedKey of
             None \<Rightarrow> Inl unauthorized | Some p \<Rightarrow> Inr (withAuthPrincipal r p))
        else if providedKey \<noteq> ac_APIKey cfg then Inl unauthorized
        else if trim_space (ac_LegacyNamespaceID cfg) \<noteq> [] then
          Inr (withAuthPrincipal r \<lparr> p_NamespaceID = trim_space (ac_LegacyNamespaceID cfg), p_Admin = False, p_Limits = no_limits \<rparr>)
        else Inr r)"

definition AuthMiddleware :: "(string \<Rightarrow> string) \<Rightarrow> auth_config \<Rightarrow> 's http_handler \<Rightarrow> 's http_handler" where
  "AuthMiddleware hmac cfg next r = (case authenticate hmac cfg r of Inl resp \<Rightarrow> ret resp | Inr r' \<Rightarrow> next r')"

definition APIKeyMiddleware :: "(string \<Rightarrow> string) \<Rightarrow> string \<Rightarrow> 's http_handler \<Rightarrow> 's http_handler" where
  "APIKeyMiddleware hmac apiKey = AuthMiddleware hmac \<lparr> ac_APIKey = apiKey, ac_Mode = AuthModeOptional,
     ac_ExemptPaths = DefaultAuthExemptPaths, ac_KeyPrincipals = [], ac_LegacyNamespaceID = [] \<rparr>"

section \<open>Admin routes\<close>

record admin_routes =
  ad_ExactPaths :: "string list"
  ad_Prefixes :: "string list"

definition DefaultAdminRouteConfig :: admin_routes where
  "DefaultAdminRouteConfig = \<lparr> ad_ExactPaths = [''/api/v1/stats'', ''/stats'', ''/metrics''], ad_Prefixes = [''/api/v1/admin/''] \<rparr>"

definition admin_path :: "admin_routes \<Rightarrow> string \<Rightarrow> bool" where
  "admin_path cfg0 path =
    (let cfg = (if ad_ExactPaths cfg0 = [] \<and> ad_Prefixes cfg0 = [] then DefaultAdminRouteConfig else cfg0)
     in path \<in> set (ad_ExactPaths cfg) \<or> list_ex (has_prefix path) (ad_Prefixes cfg))"

definition AdminOnlyMiddleware :: "admin_routes \<Rightarrow> 's http_handler \<Rightarrow> 's http_handler" where
  "AdminOnlyMiddleware cfg next r =
    (if \<not> admin_path cfg (r_Path r) then next r
     else case AuthPrincipalFromContext r of
       None \<Rightarrow> ret unauthorized
     | Some p \<Rightarrow> if \<not> p_Admin p then ret (http_error ''Forbidden'' 403) else next r)"

section \<open>Headers: CORS and security\<close>

definition with_headers :: "(string \<times> string) list \<Rightarrow> http_response \<Rightarrow> http_response" where
  "with_headers hs resp = resp \<lparr> rs_Header := hs @ rs_Header resp \<rparr>"

record cors_config =
  co_AllowedOrigins :: "string list"
  co_AllowedMethods :: "string list"
  co_AllowedHeaders :: "string list"
  co_MaxAgeSeconds :: int

fun normalize_cors :: "string list \<Rightarrow> string list \<Rightarrow> string list" where
  "normalize_cors seen [] = []"
| "normalize_cors seen (value # rest) =
    (let trimmed = trim_space value in
     if trimmed = [] \<or> trimmed \<in> set seen then normalize_cors seen rest
     else trimmed # normalize_cors (trimmed # seen) rest)"

definition normalizeCORSValues :: "string list \<Rightarrow> string list" where
  "normalizeCORSValues values = normalize_cors [] values"

definition default_methods :: "string list" where
  "default_methods = [''GET'', ''POST'', ''PUT'', ''DELETE'', ''OPTIONS'']"

definition default_headers :: "string list" where
  "default_headers = [''Content-Type'', ''Authorization'', ''X-API-Key'']"

definition DefaultCORSConfig :: cors_config where
  "DefaultCORSConfig = \<lparr> co_AllowedOrigins = [''*''], co_AllowedMethods = default_methods, co_AllowedHeaders = default_headers,
     co_MaxAgeSeconds = 86400 \<rparr>"

definition allow_any_origin :: "cors_config \<Rightarrow> bool" where
  "allow_any_origin cfg = (''*'' \<in> trim_space ` set (co_AllowedOrigins cfg))"

definition cors_headers :: "cors_config \<Rightarrow> string \<Rightarrow> (string \<times> string) list" where
  "cors_headers cfg origin =
    (let ms = normalizeCORSValues (co_AllowedMethods cfg); hs = normalizeCORSValues (co_AllowedHeaders cfg)
     in (if allow_any_origin cfg then [(''Access-Control-Allow-Origin'', ''*'')]
         else [(''Access-Control-Allow-Origin'', origin), (''Vary'', ''Origin'')]) @
        [(''Access-Control-Allow-Methods'', join_with '', '' (if ms = [] then default_methods else ms)),
         (''Access-Control-Allow-Headers'', join_with '', '' (if hs = [] then default_headers else hs)),
         (''Access-Control-Max-Age'', show_int (max 0 (co_MaxAgeSeconds cfg)))])"

definition origin_allowed :: "cors_config \<Rightarrow> string \<Rightarrow> bool" where
  "origin_allowed cfg origin = (allow_any_origin cfg \<or> origin \<in> trim_space ` set (co_AllowedOrigins cfg))"

definition CORSMiddlewareWithConfig :: "cors_config \<Rightarrow> 's http_handler \<Rightarrow> 's http_handler" where
  "CORSMiddlewareWithConfig cfg next r =
    (let origin = trim_space (header_get r ''Origin'');
         hs = (if origin = [] then [] else cors_headers cfg origin)
     in if origin \<noteq> [] \<and> \<not> origin_allowed cfg origin then ret (http_error ''CORS origin not allowed'' 403)
        else if r_Method r = ''OPTIONS'' then ret (with_headers hs (respond 204 BNone))
        else andThen (next r) (\<lambda>resp. ret (with_headers hs resp)))"

definition CORSMiddleware :: "'s http_handler \<Rightarrow> 's http_handler" where
  "CORSMiddleware = CORSMiddlewareWithConfig DefaultCORSConfig"

definition security_headers :: "(string \<times> string) list" where
  "security_headers = [(''X-Content-Type-Options'', ''nosniff''), (''X-Frame-Options'', ''DENY''),
     (''Content-Security-Policy'', ''default-src '' @ CHR 0x27 # ''none'' @ [CHR 0x27]), (''X-XSS-Protection'', ''0''),
     (''Referrer-Policy'', ''no-referrer''), (''Cache-Control'', ''no-store'')]"

definition SecurityHeadersMiddleware :: "'s http_handler \<Rightarrow> 's http_handler" where
  "SecurityHeadersMiddleware next r = andThen (next r) (\<lambda>resp. ret (with_headers security_headers resp))"

section \<open>Body size, timeout and telemetry mode\<close>

definition isMutatingMethod :: "string \<Rightarrow> bool" where
  "isMutatingMethod m = (m \<in> {''POST'', ''PUT'', ''PATCH'', ''DELETE''})"

definition MaxBodyBytesMiddleware :: "int \<Rightarrow> bool \<Rightarrow> 's http_handler \<Rightarrow> 's http_handler" where
  "MaxBodyBytesMiddleware maxBytes mutatingOnly next r =
    (if maxBytes \<le> 0 \<or> mutatingOnly \<and> \<not> isMutatingMethod (r_Method r) then next r
     else let effectiveMax = (case AuthPrincipalFromContext r of
                Some p \<Rightarrow> if 0 < l_MaxBodyBytes (p_Limits p) then l_MaxBodyBytes (p_Limits p) else maxBytes
              | None \<Rightarrow> maxBytes)
          in next (r \<lparr> r_Body := (r_Body r) \<lparr> b_Limit := Some effectiveMax \<rparr> \<rparr>))"

text \<open>\<open>expired\<close>: the handler did not answer within the timeout.  What it has done to the store stays done.\<close>

definition RequestTimeoutMiddleware :: "duration \<Rightarrow> bool \<Rightarrow> bool \<Rightarrow> 's http_handler \<Rightarrow> 's http_handler" where
  "RequestTimeoutMiddleware timeout mutatingOnly expired next r =
    (if timeout \<le> 0 \<or> mutatingOnly \<and> \<not> isMutatingMethod (r_Method r) then next r
     else andThen (next r) (\<lambda>resp.
       ret (if expired then respond 503 (BText (''{'' @ [CHR 0x22] @ ''error'' @ [CHR 0x22] @ '':'' @ [CHR 0x22] @ ''request timeout'' @ [CHR 0x22] @ ''}''))
            else resp)))"

definition TelemetryModeMiddleware :: "string \<Rightarrow> 's http_handler \<Rightarrow> 's http_handler" where
  "TelemetryModeMiddleware mode next r =
    (if to_lower (trim_space mode) = ''disabled'' \<and> has_prefix (r_Path r) ''/api/v1/telemetry/''
     then ret (http_error ''Telemetry endpoints disabled'' 404) else next r)"

section \<open>Rate limiting\<close>

record rate_config =
  rl_RequestsPerWindow :: int
  rl_Window :: duration
  rl_MutatingOnly :: bool
  rl_TrustedProxies :: "string list"

record rate_entry =
  rt_windowStart :: gotime
  rt_count :: int

type_synonym rate_table = "(string \<times> rate_entry) list"

definition effective_limit :: "rate_config \<Rightarrow> http_request \<Rightarrow> int" where
  "effective_limit cfg r = (case AuthPrincipalFromContext r of
     Some p \<Rightarrow> if 0 < l_RateLimitRequests (p_Limits p) then l_RateLimitRequests (p_Limits p) else rl_RequestsPerWindow cfg
   | None \<Rightarrow> rl_RequestsPerWindow cfg)"

definition effective_window :: "rate_config \<Rightarrow> http_request \<Rightarrow> duration" where
  "effective_window cfg r = (case AuthPrincipalFromContext r of
     Some p \<Rightarrow> if 0 < l_RateLimitWindow (p_Limits p) then l_RateLimitWindow (p_Limits p) else rl_Window cfg
   | None \<Rightarrow> rl_Window cfg)"

definition client_key :: "rate_config \<Rightarrow> http_request \<Rightarrow> string" where
  "client_key cfg r =
    (let ns = (case AuthPrincipalFromContext r of Some p \<Rightarrow> p_NamespaceID p | None \<Rightarrow> [])
     in if ns \<noteq> [] then ''ns:'' @ ns else clientIdentifierWithTrust r (rl_TrustedProxies cfg))"

definition zero_entry :: rate_entry where
  "zero_entry = \<lparr> rt_windowStart = zero_time, rt_count = 0 \<rparr>"

text \<open>The entry of a key at a time, its window begun anew where it has run out.\<close>

definition entry_at :: "rate_table \<Rightarrow> string \<Rightarrow> gotime \<Rightarrow> duration \<Rightarrow> rate_entry" where
  "entry_at entries key now window =
    (let en = (case map_of entries key of Some x \<Rightarrow> x | None \<Rightarrow> zero_entry)
     in if IsZero (rt_windowStart en) \<or> window \<le> now - rt_windowStart en then \<lparr> rt_windowStart = now, rt_count = 0 \<rparr> else en)"

text \<open>One request at the limiter: whether it may pass, and the table after it.\<close>

definition rate_step :: "gotime \<Rightarrow> string \<Rightarrow> int \<Rightarrow> duration \<Rightarrow> rate_table \<Rightarrow> bool \<times> rate_table" where
  "rate_step now key limit window entries =
    (let en = entry_at entries key now window
     in if limit \<le> rt_count en then (False, AList.update key en entries)
        else (True, AList.update key (en \<lparr> rt_count := rt_count en + 1 \<rparr>) entries))"

definition retry_after :: "gotime \<Rightarrow> rate_entry \<Rightarrow> duration \<Rightarrow> int" where
  "retry_after now en window = max 1 (go_quot (max 0 (window - (now - rt_windowStart en))) Second)"

definition too_many :: "int \<Rightarrow> http_response" where
  "too_many retrySeconds = with_headers [(''Retry-After'', show_int retrySeconds)] (http_error ''Too Many Requests'' 429)"

text \<open>The background goroutine that drops old entries, at one of its ticks.\<close>

definition prune :: "rate_config \<Rightarrow> gotime \<Rightarrow> rate_table \<Rightarrow> rate_table" where
  "prune cfg now entries = filter (\<lambda>(k, en). \<not> rl_Window cfg * 2 \<le> now - rt_windowStart en) entries"

text \<open>The table is the second component of the server's state.\<close>

definition RateLimitMiddleware :: "rate_config \<Rightarrow> gotime \<Rightarrow> ('s \<times> rate_table) http_handler \<Rightarrow> ('s \<times> rate_table) http_handler" where
  "RateLimitMiddleware cfg now next r =
    (let limit = effective_limit cfg r; window = effective_window cfg r; key = client_key cfg r in
     if rl_RequestsPerWindow cfg \<le> 0 \<or> rl_Window cfg \<le> 0 \<or> rl_MutatingOnly cfg \<and> \<not> isMutatingMethod (r_Method r) \<or>
        limit \<le> 0 \<or> window \<le> 0 then next r
     else (\<lambda>(s, entries).
       (case rate_step now key limit window entries of
          (False, entries') \<Rightarrow> ret (too_many (retry_after now (entry_at entries key now window) window)) (s, entries')
        | (True, entries') \<Rightarrow> next r (s, entries'))))"

section \<open>Endpoint labels and composition\<close>

definition id_pattern :: "string \<Rightarrow> string \<Rightarrow> bool" where
  "id_pattern path pre = (has_prefix path pre \<and> length pre < length path \<and> CHR ''/'' \<notin> set (drop (length pre) path))"

definition normalizeEndpoint :: "string \<Rightarrow> string" where
  "normalizeEndpoint path0 =
    (let path = trim_suffix path0 ''/'' in
     if id_pattern path ''/api/v1/agents/'' then ''/api/v1/agents/:id''
     else if id_pattern path ''/api/v1/dag/'' then ''/api/v1/dag/:id''
     else if id_pattern path ''/api/v1/events/'' then ''/api/v1/events/:id''
     else if path = ''/api/v1/agents/query'' then ''/api/v1/agents/query''
     else if path = ''/api/v1/agents/read'' then ''/api/v1/agents/read''
     else if path = ''/api/v1/agents/take'' then ''/api/v1/agents/take''
     else if path = ''/api/v1/agents/in'' then ''/api/v1/agents/in''
     else if has_suffix path ''/complete'' then ''/api/v1/agents/:id/complete''
     else if has_suffix path ''/release'' then ''/api/v1/agents/:id/release''
     else path)"

text \<open>The first middleware of the list is the outermost.\<close>

definition ApplyMiddleware :: "'s http_handler \<Rightarrow> ('s http_handler \<Rightarrow> 's http_handler) list \<Rightarrow> 's http_handler" where
  "ApplyMiddleware handler middleware = foldr (\<lambda>m h. m h) middleware handler"

end
