(* ===== verification/Api_Rate.thy ===== *)
theory Api_Rate
  imports Api_Middleware
begin

text \<open>
  How many requests the rate limiter of \<^verbatim>\<open>security_middleware.go\<close> lets through.  A run interleaves requests of any
  clients with the ticks of the goroutine that prunes the table; each request carries the time the middleware read,
  the client's key, and the limit and window in force for it.
\<close>

section \<open>Runs of the limiter\<close>

datatype rate_event = Arrive gotime string int duration | Tick gotime

fun ev_time :: "rate_event \<Rightarrow> gotime" where
  "ev_time (Arrive t k l w) = t"
| "ev_time (Tick t) = t"

text \<open>The requests of client \<open>K\<close> that pass: the start of the window each is counted in, and its time.\<close>

fun passed :: "rate_config \<Rightarrow> string \<Rightarrow> rate_event list \<Rightarrow> rate_table \<Rightarrow> (gotime \<times> gotime) list" where
  "passed cfg K [] tb = []"
| "passed cfg K (Tick t # es) tb = passed cfg K es (prune cfg t tb)"
| "passed cfg K (Arrive t k l w # es) tb =
    (let (ok, tb') = rate_step t k l w tb
     in (if ok \<and> k = K then [(rt_windowStart (entry_at tb k t w), t)] else []) @ passed cfg K es tb')"

definition accepted :: "rate_config \<Rightarrow> string \<Rightarrow> rate_event list \<Rightarrow> rate_table \<Rightarrow> gotime list" where
  "accepted cfg K es tb = map snd (passed cfg K es tb)"

text \<open>All requests of the client have one limit and one window, as those of one principal do.\<close>

definition uniform :: "string \<Rightarrow> int \<Rightarrow> duration \<Rightarrow> rate_event list \<Rightarrow> bool" where
  "uniform K L W es = (\<forall>t k l w. Arrive t k l w \<in> set es \<longrightarrow> k = K \<longrightarrow> l = L \<and> w = W)"

section \<open>Windows do not overlap\<close>

lemma prune_lookup:
  assumes "distinct (map fst entries)"
  shows "map_of (prune cfg now entries) k = Some en \<longleftrightarrow> map_of entries k = Some en \<and> now - rt_windowStart en < rl_Window cfg * 2"
proof -
  have "distinct (map fst (prune cfg now entries))" using assms by (simp add: prune_def distinct_map_filter)
  then show ?thesis using assms by (auto simp: prune_def)
qed

text \<open>What the table knows of the client at a time: its entry, with the start of the last window, or that the last
  window is over.\<close>

definition tracks :: "string \<Rightarrow> duration \<Rightarrow> rate_table \<Rightarrow> gotime \<Rightarrow> gotime \<Rightarrow> int \<Rightarrow> bool" where
  "tracks K W tb now m c = (distinct (map fst tb) \<and> 0 \<le> now \<and> 0 \<le> c \<and>
     (case map_of tb K of
        Some en \<Rightarrow> en = \<lparr> rt_windowStart = m, rt_count = c \<rparr> \<and> 0 \<le> m \<and> m \<le> now
      | None \<Rightarrow> m + W \<le> now))"

lemma tracks_prune:
  assumes "tracks K W tb now m c" "now \<le> t" "W \<le> 2 * rl_Window cfg"
  shows "tracks K W (prune cfg t tb) t m c"
proof -
  have d: "distinct (map fst tb)" "distinct (map fst (prune cfg t tb))"
    using assms(1) by (simp_all add: tracks_def prune_def distinct_map_filter)
  have look: "map_of (prune cfg t tb) K = Some en \<longleftrightarrow> map_of tb K = Some en \<and> t - rt_windowStart en < rl_Window cfg * 2" for en
    using prune_lookup[OF d(1)] .
  show ?thesis
  proof (cases "map_of (prune cfg t tb) K")
    case None
    then have old: "rl_Window cfg * 2 \<le> t - rt_windowStart en" if "map_of tb K = Some en" for en using look[of en] that by auto
    have "m + W \<le> t"
      using assms old unfolding tracks_def by (cases "map_of tb K") fastforce+
    then show ?thesis using assms None d(2) unfolding tracks_def by simp
  next
    case (Some en)
    then have "map_of tb K = Some en" using look[of en] by blast
    then show ?thesis using assms d(2) Some unfolding tracks_def by (auto simp del: map_of_eq_Some_iff)
  qed
qed

lemma tracks_other:
  assumes "tracks K W tb now m c" "now \<le> t" "k \<noteq> K" "rate_step t k l w tb = (ok, tb')"
  shows "tracks K W tb' t m c"
  using assms unfolding tracks_def rate_step_def Let_def
  by (auto simp: distinct_update split: option.splits if_splits)

lemma tracks_own:
  assumes "tracks K W tb now m c" "now \<le> t" "0 < W" "rate_step t K L W tb = (ok, tb')"
  defines "m' \<equiv> rt_windowStart (entry_at tb K t W)"
  shows "\<exists>c'. tracks K W tb' t m' (if ok then c' + 1 else c') \<and> (m' = m \<and> c' = c \<or> m + W \<le> m' \<and> c' = 0) \<and>
    m' \<le> t \<and> t < m' + W \<and> (ok \<longleftrightarrow> c' < L)"
proof -
  have d: "distinct (map fst tb)" "0 \<le> t" "0 \<le> c" using assms(1,2) by (auto simp: tracks_def)
  have up: "rate_step t K L W tb = (rt_count (entry_at tb K t W) < L,
      AList.update K ((entry_at tb K t W) \<lparr> rt_count := rt_count (entry_at tb K t W) +
        (if rt_count (entry_at tb K t W) < L then 1 else 0) \<rparr>) tb)"
    by (simp add: rate_step_def Let_def)
  show ?thesis
  proof (cases "map_of tb K \<noteq> None \<and> t < m + W")
    case True
    then have "entry_at tb K t W = \<lparr> rt_windowStart = m, rt_count = c \<rparr>" "0 \<le> m" "m \<le> now"
      using assms(1) by (auto simp: tracks_def entry_at_def Let_def)
    then show ?thesis using True assms(2,4) up d unfolding m'_def
      by (intro exI[of _ c]) (auto simp: tracks_def distinct_update)
  next
    case False
    then have "entry_at tb K t W = \<lparr> rt_windowStart = t, rt_count = 0 \<rparr>" "m + W \<le> t"
      using assms(1,2) by (auto simp: tracks_def entry_at_def Let_def zero_entry_def IsZero_def
          simp del: map_of_eq_Some_iff Some_eq_map_of_iff split: option.splits)
    then show ?thesis using assms(3,4) up d unfolding m'_def
      by (intro exI[of _ 0]) (auto simp: tracks_def distinct_update)
  qed
qed

lemma passed_windows:
  assumes "tracks K W tb now m c" "sorted (map ev_time es)" "\<forall>ev \<in> set es. now \<le> ev_time ev" "uniform K L W es"
    and "W \<le> 2 * rl_Window cfg" "0 < W"
  shows "(\<forall>(s, t) \<in> set (passed cfg K es tb). (s = m \<or> m + W \<le> s) \<and> s \<le> t \<and> t < s + W) \<and>
    sorted_wrt (\<lambda>x y. fst x = fst y \<or> fst x + W \<le> fst y) (passed cfg K es tb) \<and>
    (\<forall>s. int (count_list (map fst (passed cfg K es tb)) s) \<le> max 0 (if s = m then L - c else L))"
  using assms(1-4)
proof (induction es arbitrary: tb now m c)
  case (Cons ev es)
  have rest: "sorted (map ev_time es)" "\<forall>x \<in> set es. ev_time ev \<le> ev_time x" "uniform K L W es" "now \<le> ev_time ev"
    using Cons.prems by (auto simp: uniform_def)
  show ?case
  proof (cases ev)
    case (Tick t)
    then show ?thesis using Cons.IH[OF tracks_prune[OF Cons.prems(1) _ assms(5)], of t] rest by simp
  next
    case (Arrive t k l w)
    obtain ok tb' where st: "rate_step t k l w tb = (ok, tb')" by force
    show ?thesis
    proof (cases "k = K")
      case False
      then show ?thesis using Cons.IH[OF tracks_other[OF Cons.prems(1) _ False st]] rest Arrive st by simp
    next
      case True
      then have lw: "l = L" "w = W" using Cons.prems(4) Arrive by (auto simp: uniform_def)
      define m' where "m' = rt_windowStart (entry_at tb K t W)"
      obtain c' where c: "tracks K W tb' t m' (if ok then c' + 1 else c')" "m' = m \<and> c' = c \<or> m + W \<le> m' \<and> c' = 0"
        "m' \<le> t" "t < m' + W" "ok \<longleftrightarrow> c' < L"
        using tracks_own[OF Cons.prems(1) _ assms(6), of t L ok tb'] rest(4) st True lw Arrive unfolding m'_def by auto
      have cpos: "0 \<le> c" using Cons.prems(1) by (simp add: tracks_def)
      have ih: "\<forall>(s, u) \<in> set (passed cfg K es tb'). (s = m' \<or> m' + W \<le> s) \<and> s \<le> u \<and> u < s + W"
        "sorted_wrt (\<lambda>x y. fst x = fst y \<or> fst x + W \<le> fst y) (passed cfg K es tb')"
        "\<forall>s. int (count_list (map fst (passed cfg K es tb')) s) \<le> max 0 (if s = m' then L - (if ok then c' + 1 else c') else L)"
        using Cons.IH[OF c(1) rest(1) _ rest(3)] rest(2) Arrive by simp_all
      have now: "m' \<notin> fst ` set (passed cfg K es tb') \<longrightarrow> count_list (map fst (passed cfg K es tb')) m' = 0" by simp
      have old: "m' \<noteq> m \<longrightarrow> count_list (map fst (passed cfg K es tb')) m = 0"
        using ih(1) c(2) assms(6) by (intro impI count_notin) force
      have p: "passed cfg K (ev # es) tb = (if ok then [(m', t)] else []) @ passed cfg K es tb'"
        using Arrive st True lw by (simp add: m'_def)
      have a: "\<forall>(s, u) \<in> set (passed cfg K (ev # es) tb). (s = m \<or> m + W \<le> s) \<and> s \<le> u \<and> u < s + W"
        unfolding p using ih(1) c(2,3,4) assms(6) by fastforce
      have b: "sorted_wrt (\<lambda>x y. fst x = fst y \<or> fst x + W \<le> fst y) (passed cfg K (ev # es) tb)"
        unfolding p using ih(1,2) by fastforce
      have "int (count_list (map fst (passed cfg K (ev # es) tb)) s) \<le> max 0 (if s = m then L - c else L)" for s
        using ih(3)[rule_format, of s] old c(2,5) cpos assms(6) unfolding p by (cases "s = m'") (auto split: if_splits)
      then show ?thesis using a b by blast
    qed
  qed
qed simp

section \<open>How many pass\<close>

text \<open>Three starts that far apart do not fit into an interval of twice the window.\<close>

lemma few_starts:
  fixes S :: "int set"
  assumes "finite S" "\<And>x y. x \<in> S \<Longrightarrow> y \<in> S \<Longrightarrow> x = y \<or> x + W \<le> y \<or> y + W \<le> x" "\<And>x. x \<in> S \<Longrightarrow> a - W < x \<and> x < a + W"
  shows "card S \<le> 2"
proof (rule ccontr)
  assume "\<not> card S \<le> 2"
  then obtain T where T: "T \<subseteq> S" "card T = 3" using obtain_subset_with_card_n[of 3 S] by (metis not_less_eq_eq numeral_2_eq_2 numeral_3_eq_3)
  then obtain x y z where "T = {x, y, z}" "x \<noteq> y" "y \<noteq> z" "x \<noteq> z" by (metis card_3_iff)
  then have "x \<in> S" "y \<in> S" "z \<in> S" "x \<noteq> y" "y \<noteq> z" "x \<noteq> z" using T by auto
  then show False using assms(2)[of x y] assms(2)[of y z] assms(2)[of x z] assms(3)[of x] assms(3)[of y] assms(3)[of z]
    by linarith
qed

lemma sorted_wrt_gap:
  "sorted_wrt (\<lambda>x y. fst x = fst y \<or> fst x + W \<le> fst y) xs \<Longrightarrow> x \<in> set xs \<Longrightarrow> y \<in> set xs \<Longrightarrow>
     fst x = fst y \<or> fst x + W \<le> fst y \<or> fst y + W \<le> (fst x :: int)"
  by (induction xs) auto

lemma length_by_starts:
  assumes "sorted_wrt (\<lambda>x y. fst x = fst y \<or> fst x + W \<le> fst y) xs" "\<And>s. int (count_list (map fst xs) s) \<le> max 0 L"
    and "\<And>x. x \<in> set xs \<Longrightarrow> a - W < fst x \<and> fst x < (a :: int) + W"
  shows "int (length xs) \<le> 2 * max 0 L"
proof -
  let ?S = "fst ` set xs"
  have "card ?S \<le> 2" by (rule few_starts[of _ W a]) (use sorted_wrt_gap[OF assms(1)] assms(3) in auto)
  have "int (length xs) = (\<Sum>s\<in>?S. int (count_list (map fst xs) s))"
    using sum_count_set[of "map fst xs" ?S] by (simp flip: of_nat_sum)
  also have "\<dots> \<le> int (card ?S) * max 0 L" using sum_bounded_above[of ?S "\<lambda>s. int (count_list (map fst xs) s)"] assms(2) by simp
  also have "\<dots> \<le> 2 * max 0 L" using \<open>card ?S \<le> 2\<close> by (intro mult_right_mono) auto
  finally show ?thesis .
qed

lemma filter_counts: "count_list (map fst (filter P xs)) s \<le> count_list (map fst xs) s"
  by (induction xs) auto


definition demo_rate :: rate_config where
  "demo_rate = \<lparr> rl_RequestsPerWindow = 1, rl_Window = Second, rl_MutatingOnly = True, rl_TrustedProxies = [] \<rparr>"

definition demo_arrivals :: "rate_event list" where
  "demo_arrivals = [Arrive 5 ''ns:a'' 1 Second, Arrive 6 ''ns:b'' 7 Second, Arrive 7 ''ns:a'' 1 Second,
     Tick (3 * Second), Arrive (3 * Second) ''ns:a'' 1 Second]"


section \<open>Long windows\<close>

text \<open>A client that sends one request after every tick of the pruning goroutine.\<close>

fun patient_run :: "rate_config \<Rightarrow> string \<Rightarrow> int \<Rightarrow> duration \<Rightarrow> nat \<Rightarrow> gotime \<Rightarrow> rate_event list" where
  "patient_run cfg K L W 0 t = []"
| "patient_run cfg K L W (Suc n) t =
    Arrive t K L W # Tick (t + rl_Window cfg * 2) # patient_run cfg K L W n (t + rl_Window cfg * 2)"

text \<open>The pruning goroutine drops an entry after twice the configured window, whatever the window of the principal:
  with a longer window of its own, a client that sends one request per pruning interval is never refused, although
  all its requests lie within one of its windows and its limit is one.
\<close>

theorem long_windows_not_enforced:
  assumes "0 < rl_Window cfg" "0 \<le> t" "int n * (rl_Window cfg * 2) \<le> W"
  shows "length (accepted cfg K (patient_run cfg K 1 W n t) []) = n \<and>
    (\<forall>u \<in> set (accepted cfg K (patient_run cfg K 1 W n t) []). t \<le> u \<and> u < t + W)"
proof -
  have step: "accepted cfg K (patient_run cfg K 1 W (Suc n) t) [] = t # accepted cfg K (patient_run cfg K 1 W n (t + rl_Window cfg * 2)) []"
    if "0 \<le> t" for n t
    using that by (simp add: accepted_def rate_step_def entry_at_def zero_entry_def IsZero_def Let_def prune_def)
  have "length (accepted cfg K (patient_run cfg K 1 W n t) []) = n \<and>
    (\<forall>u \<in> set (accepted cfg K (patient_run cfg K 1 W n t) []). t \<le> u \<and> u < t + int n * (rl_Window cfg * 2))"
    using assms(2)
  proof (induction n arbitrary: t)
    case 0
    show ?case by (simp add: accepted_def)
  next
    case (Suc n)
    let ?w = "rl_Window cfg * 2"
    have ih: "length (accepted cfg K (patient_run cfg K 1 W n (t + ?w)) []) = n"
      "\<And>u. u \<in> set (accepted cfg K (patient_run cfg K 1 W n (t + ?w)) []) \<Longrightarrow> t + ?w \<le> u \<and> u < t + ?w + int n * ?w"
      using Suc.IH[of "t + ?w"] Suc.prems assms(1) by auto
    have "0 \<le> int n * ?w" using assms(1) by simp
    moreover have "int (Suc n) * ?w = ?w + int n * ?w" by (simp add: algebra_simps)
    ultimately have "t \<le> u \<and> u < t + int (Suc n) * ?w" if "u = t \<or> u \<in> set (accepted cfg K (patient_run cfg K 1 W n (t + ?w)) [])" for u
      using that ih(2)[of u] assms(1) by linarith
    then show ?case unfolding step[OF Suc.prems] using ih(1) by simp
  qed
  then show ?thesis using assms(3) by force
qed

theorem long_windows_not_enforced_witness:
  "length (accepted demo_rate ''ns:a'' (patient_run demo_rate ''ns:a'' 1 (60 * Minute) 1000 0) []) = 1000"
  using long_windows_not_enforced[of demo_rate 0 1000 "60 * Minute" "''ns:a''"] by (simp add: demo_rate_def Second_def Minute_def)

section \<open>Forwarding chains\<close>

lemma split_on_join: "split_on c (a @ c # b) = split_on c a @ split_on c b"
  by (induction a) (auto split: list.splits)

lemma find_append: "find P (xs @ ys) = (case find P xs of Some x \<Rightarrow> Some x | None \<Rightarrow> find P ys)"
  by (induction xs) auto

text \<open>What a client writes into \<^verbatim>\<open>X-Forwarded-For\<close> itself does not change its rate-limit key: entries left of those the
  trusted proxies appended have no effect, as long as these contain an untrusted address.
\<close>

theorem forged_forwarding_ignored:
  assumes "trustedProxies \<noteq> []" "forwarded_client trustedProxies chain = Some c"
    and "header_get r ''X-Forwarded-For'' = chain" "header_get r' ''X-Forwarded-For'' = forged @ CHR '','' # chain"
    and "trim_space chain = chain" "trim_space (forged @ CHR '','' # chain) = forged @ CHR '','' # chain" "chain \<noteq> []"
    and "r_RemoteAddr r' = r_RemoteAddr r"
  shows "clientIdentifierWithTrust r' trustedProxies = clientIdentifierWithTrust r trustedProxies"
proof -
  have "forwarded_client trustedProxies (forged @ CHR '','' # chain) = Some c"
    using assms(2) by (simp add: forwarded_client_def split_on_join find_append)
  then show ?thesis using assms(2,7)
    unfolding clientIdentifierWithTrust_def Let_def assms(3,4,5,6,8) by simp
qed

definition proxied :: "string \<Rightarrow> http_request" where
  "proxied forwarded = \<lparr> r_Method = ''POST'', r_Path = ''/api/v1/agents'', r_Header = [(''X-Forwarded-For'', forwarded)],
     r_Query = [], r_RemoteAddr = ''10.0.0.7:443'', r_ContentLength = 0, r_Body = \<lparr> b_Bytes = [], b_Limit = None \<rparr>,
     r_Principal = None, r_Context = Background \<rparr>"

theorem forged_forwarding_ignored_witness:
  "clientIdentifierWithTrust (proxied ''1.1.1.1,9.9.9.9'') [''10.0.0.0/8''] = ''9.9.9.9''"
proof -
  have c: "forwarded_client [''10.0.0.0/8''] ''9.9.9.9'' = Some ''9.9.9.9''" by code_simp
  have d: "clientIdentifierWithTrust (proxied ''9.9.9.9'') [''10.0.0.0/8''] = ''9.9.9.9''" by code_simp
  have "clientIdentifierWithTrust (proxied ''1.1.1.1,9.9.9.9'') [''10.0.0.0/8''] = clientIdentifierWithTrust (proxied ''9.9.9.9'') [''10.0.0.0/8'']"
    by (rule forged_forwarding_ignored[where forged = "''1.1.1.1''" and chain = "''9.9.9.9''", OF _ c])
      (simp_all add: proxied_def header_get_def str_at_def trim_space_def is_space_def)
  then show ?thesis using d by simp
qed

end
