(* ===== verification/Api_Lease_Handlers.thy ===== *)
theory Api_Lease_Handlers
  imports Api_Handlers
begin

text \<open>
  The handlers of \<^verbatim>\<open>internal/api/handlers.go\<close> that act under a lease: CompleteAgent, CompleteAndOutAgent, ReleaseAgent
  and RenewLeaseAgent.  The store refuses with an error text; which status the client sees is decided by what the
  text contains.
\<close>

section \<open>Error classification\<close>

definition complete_error :: "go_err \<Rightarrow> http_response" where
  "complete_error er =
    (let m = er_Text er in
     if contains m ''TOKEN_MISMATCH'' \<or> contains m ''NOT_OWNER'' \<or> contains m ''lease token mismatch'' \<or>
        contains m ''cannot complete'' \<or> contains m ''complete rejected'' \<or> contains m ''owned by''
     then writeError 403 ''stale or invalid lease token''
     else if contains m ''INVALID_STATUS'' \<or> contains m ''invalid status'' then writeError 409 ''agent not in correct state''
     else if contains m ''AGENT_NOT_FOUND'' \<or> contains m ''agent not found'' then writeError 404 ''agent not found''
     else writeError 500 ''failed to complete agent'')"

definition complete_and_out_error :: "go_err \<Rightarrow> http_response" where
  "complete_and_out_error er =
    (let m = er_Text er in
     if contains m ''not found'' then writeError 404 ''agent not found''
     else if contains m ''cross_shard_atomic_unsupported'' then writeError 409 ''cross-shard CompleteAndOut is not supported''
     else if contains m ''TOKEN_MISMATCH'' \<or> contains m ''NOT_OWNER'' \<or> contains m ''owned by'' \<or> contains m ''lease token mismatch''
     then writeError 403 ''not authorized to complete agent''
     else if contains m ''invalid status'' then writeError 409 ''agent in invalid state''
     else writeError 500 ''failed to complete agent'')"

definition release_error :: "go_err \<Rightarrow> http_response" where
  "release_error er =
    (if contains (er_Text er) ''cannot release'' then writeError 403 (er_Text er) else writeError 500 ''failed to release agent'')"

definition renew_error :: "go_err \<Rightarrow> http_response" where
  "renew_error er =
    (let m = er_Text er in
     if contains m ''TOKEN_MISMATCH'' \<or> contains m ''lease token mismatch'' \<or> contains m ''NOT_OWNER'' \<or>
        contains m ''owned by'' \<or> contains m ''cannot renew'' \<or> contains m ''renew rejected''
     then writeError 403 ''stale or invalid lease token''
     else if contains m ''INVALID_STATUS'' \<or> contains m ''invalid status'' then writeError 409 ''agent not in correct state''
     else if contains m ''agent not found'' \<or> contains m ''AGENT_NOT_FOUND'' then writeError 404 ''agent not found''
     else writeError 500 ''failed to renew lease'')"

text \<open>The two headers every one of these handlers asks for.\<close>

definition lease_headers :: "http_request \<Rightarrow> http_response + string \<times> string" where
  "lease_headers r =
    (let agentID = header_get r ''X-Agent-ID''; leaseToken = header_get r ''X-Lease-Token'' in
     if agentID = [] then Inl (writeError 400 ''X-Agent-ID header required'')
     else if leaseToken = [] then Inl (writeError 400 ''X-Lease-Token header required'')
     else Inr (agentID, leaseToken))"

definition path_id :: "http_request \<Rightarrow> string \<Rightarrow> string" where
  "path_id r sfx = trim_suffix (extractIDFromPath (r_Path r) agents_prefix) sfx"

definition shardSpace :: "'s handlers \<Rightarrow> http_request \<Rightarrow> string \<Rightarrow> 's agent_space" where
  "shardSpace h r shardID = requestSpace h (ContextWithShardID (r_Context r) shardID)"

section \<open>CompleteAgent\<close>

text \<open>Only a principal with a namespace makes the handler look at the agent first.\<close>

definition completion_target ::
  "http_request \<Rightarrow> 's agent_space \<Rightarrow> string \<Rightarrow> ('s, http_response + agent option) act" where
  "completion_target r space tid =
    (if requestPrincipalNamespace r = [] then ret (Inr None)
     else andThen (visibleAgent r space (0, 0) tid) (\<lambda>x. ret (map_sum (\<lambda>resp. resp) Some x)))"

definition run_complete ::
  "'s agent_space \<Rightarrow> bool \<Rightarrow> string \<Rightarrow> string \<Rightarrow> string \<Rightarrow> gval gomap option \<Rightarrow> ('s, go_err + agent option) act" where
  "run_complete space preferMinimal tid agentID leaseToken result =
    (case sp_CompleteAndGet space of
       Some completeAndGet \<Rightarrow>
         if preferMinimal then orError (sp_Complete space (1, 0) tid agentID leaseToken result) (\<lambda>_. ret (Inr None))
         else completeAndGet (1, 0) tid agentID leaseToken result
     | None \<Rightarrow> orError (sp_Complete space (1, 0) tid agentID leaseToken result) (\<lambda>_. ret (Inr None)))"

definition CompleteAgent :: "api_env \<Rightarrow> 's handlers \<Rightarrow> http_request \<Rightarrow> ('s, http_response) act" where
  "CompleteAgent e h r =
    (let tid = path_id r ''/complete''; preferMinimal = requestPrefersReturnMinimal r in
     if tid = [] then ret (writeError 400 ''missing agent ID'')
     else case js_complete (ae_json e) (r_Body r) of
       DecOK req \<Rightarrow>
         (let space = shardSpace h r (co_ShardID req) in
          orAnswer (completion_target r space tid) (\<lambda>current.
          case lease_headers r of Inl resp \<Rightarrow> ret resp | Inr (agentID, leaseToken) \<Rightarrow>
          andThen (run_complete space preferMinimal tid agentID leaseToken (co_Result req)) (\<lambda>x. case x of
            Inl er \<Rightarrow> ret (complete_error er)
          | Inr t \<Rightarrow>
              if preferMinimal then
                (let (traceID, namespaceID) = (case current of None \<Rightarrow> ([], []) | Some c \<Rightarrow> (a_TraceID c, a_NamespaceID c))
                 in andThen (recordObs e h (3, 0) tid traceID namespaceID (co_Obs req)) (\<lambda>_. ret (respond 204 BNone)))
              else orAnswer (orFetch space (2, 0) tid t) (\<lambda>t.
                andThen (recordObs e h (3, 0) (a_ID t) (a_TraceID t) (a_NamespaceID t) (co_Obs req)) (\<lambda>_.
                  ret (writeJSON 200 (BAgent t)))))))
     | _ \<Rightarrow> ret (writeError 400 ''invalid request body''))"

section \<open>CompleteAndOutAgent\<close>

text \<open>The number of outputs per queue.  The source keeps them in a map, whose iteration order is unspecified: it
  decides only which of several failing checks answers, and all of them answer alike unless the store fails.\<close>

fun queue_additions :: "create_request list \<Rightarrow> (string \<times> int) list \<Rightarrow> (string \<times> int) list" where
  "queue_additions [] acc = acc"
| "queue_additions (out # rest) acc =
    (case cr_Metadata out of None \<Rightarrow> queue_additions rest acc | Some m \<Rightarrow>
       (let queueName = trim_space (str_at m QueueMetadataKey)
        in if queueName = [] then queue_additions rest acc
           else queue_additions rest (AList.update queueName (case map_of acc queueName of None \<Rightarrow> 1 | Some n \<Rightarrow> n + 1) acc)))"

fun queue_checks ::
  "'s handlers \<Rightarrow> nat \<Rightarrow> auth_principal \<Rightarrow> string \<Rightarrow> (string \<times> int) list \<Rightarrow> ('s, http_response + unit) act" where
  "queue_checks h i prin ns [] = ret (Inr ())"
| "queue_checks h i prin ns ((queueName, additional) # rest) =
    andThen (quotaCheck h i prin ns (Some [(QueueMetadataKey, queueName)]) additional) (\<lambda>x. case x of
      Inl resp \<Rightarrow> ret (Inl resp) | Inr _ \<Rightarrow> queue_checks h (i + 3) prin ns rest)"

definition output_quotas :: "'s handlers \<Rightarrow> http_request \<Rightarrow> string \<Rightarrow> create_request list \<Rightarrow> ('s, http_response + unit) act" where
  "output_quotas h r ns outs =
    (case AuthPrincipalFromContext r of None \<Rightarrow> ret (Inr ()) | Some prin \<Rightarrow>
       andThen (quotaCheck h 5 prin ns None (int (length outs))) (\<lambda>x. case x of
         Inl resp \<Rightarrow> ret (Inl resp) | Inr _ \<Rightarrow> queue_checks h 8 prin ns (queue_additions outs [])))"

fun build_outputs :: "string \<Rightarrow> create_request list \<Rightarrow> http_response + agent list" where
  "build_outputs namespaceID [] = Inr []"
| "build_outputs namespaceID (out # rest) =
    (if cr_NamespaceID out \<noteq> [] \<and> cr_NamespaceID out \<noteq> namespaceID
     then Inl (writeError 403 ''output namespace_id must inherit parent namespace'')
     else let m = or_nil (cr_Metadata out);
              t = empty_agent \<lparr> a_Kind := cr_Kind out, a_Payload := cr_Payload out, a_Tags := cr_Tags out,
                    a_ParentID := cr_ParentID out, a_TraceID := cr_TraceID out, a_NamespaceID := namespaceID,
                    a_Status := StatusNew, a_TTL := (if 0 < cr_TTL out then seconds (cr_TTL out) else 0),
                    a_Metadata := Some (if namespaceID \<noteq> [] then AList.update NamespaceMetadataKey namespaceID m else m) \<rparr>
          in bindr (build_outputs namespaceID rest) (\<lambda>ts. Inr (t # ts)))"

fun record_outputs ::
  "api_env \<Rightarrow> 's handlers \<Rightarrow> nat \<Rightarrow> create_request list \<Rightarrow> agent list \<Rightarrow> ('s, unit) act" where
  "record_outputs e h k (out # outs) (t # ts) =
    andThen (recordObs e h (4, k) (a_ID t) (a_TraceID t) (a_NamespaceID t) (cr_Obs out)) (\<lambda>_. record_outputs e h (Suc k) outs ts)"
| "record_outputs e h k outs ts = ret ()"

definition CompleteAndOutAgent :: "api_env \<Rightarrow> 's handlers \<Rightarrow> http_request \<Rightarrow> ('s, http_response) act" where
  "CompleteAndOutAgent e h r =
    (let tid = path_id r ''/complete-and-out'' in
     if tid = [] then ret (writeError 400 ''missing agent ID'')
     else case js_complete_and_out (ae_json e) (r_Body r) of
       DecOK req \<Rightarrow>
         (let space = shardSpace h r (ca_ShardID req) in
          orAnswer (visibleAgent r space (0, 0) tid) (\<lambda>current.
          let namespaceID = effectiveAgentNamespace current in
          orAnswer (output_quotas h r namespaceID (ca_Outputs req)) (\<lambda>_.
          case lease_headers r of Inl resp \<Rightarrow> ret resp | Inr (agentID, leaseToken) \<Rightarrow>
          case build_outputs namespaceID (ca_Outputs req) of Inl resp \<Rightarrow> ret resp | Inr outputs \<Rightarrow>
          andThen (sp_CompleteAndOut space (1, 0) tid agentID leaseToken (ca_Result req) outputs) (\<lambda>x. case x of
            Inl er \<Rightarrow> ret (complete_and_out_error er)
          | Inr (completed, created) \<Rightarrow>
              andThen (recordObs e h (3, 0) (a_ID completed) (a_TraceID completed) (a_NamespaceID completed) (ca_Obs req)) (\<lambda>_.
              andThen (record_outputs e h 0 (ca_Outputs req) created) (\<lambda>_.
                ret (writeJSON 200 (BCompleted completed created))))))))
     | _ \<Rightarrow> ret (writeError 400 ''invalid request body''))"

section \<open>ReleaseAgent and RenewLeaseAgent\<close>

text \<open>The body of a release is optional and a body that does not decode is ignored.\<close>

definition release_body :: "api_env \<Rightarrow> http_request \<Rightarrow> release_request" where
  "release_body e r =
    (let none = \<lparr> re_Reason = [], re_ShardID = [], re_Obs = None \<rparr> in
     if 0 < r_ContentLength r then (case js_release (ae_json e) (r_Body r) of DecOK req \<Rightarrow> req | _ \<Rightarrow> none) else none)"

definition run_release ::
  "'s agent_space \<Rightarrow> string \<Rightarrow> string \<Rightarrow> string \<Rightarrow> string \<Rightarrow> ('s, go_err + agent option) act" where
  "run_release space tid agentID leaseToken reason =
    (case sp_ReleaseAndGet space of
       Some releaseAndGet \<Rightarrow> releaseAndGet (1, 0) tid agentID leaseToken reason
     | None \<Rightarrow> orError (sp_Release space (1, 0) tid agentID leaseToken reason) (\<lambda>_. ret (Inr None)))"

definition ReleaseAgent :: "api_env \<Rightarrow> 's handlers \<Rightarrow> http_request \<Rightarrow> ('s, http_response) act" where
  "ReleaseAgent e h r =
    (let tid = path_id r ''/release'' in
     if tid = [] then ret (writeError 400 ''missing agent ID'')
     else case lease_headers r of Inl resp \<Rightarrow> ret resp | Inr (agentID, leaseToken) \<Rightarrow>
       (let req = release_body e r; space = shardSpace h r (re_ShardID req) in
        orAnswer (visibleAgent r space (0, 0) tid) (\<lambda>current.
        andThen (run_release space tid agentID leaseToken (re_Reason req)) (\<lambda>x. case x of
          Inl er \<Rightarrow> ret (release_error er)
        | Inr t \<Rightarrow> orAnswer (orFetch space (2, 0) tid t) (\<lambda>t.
            andThen (recordObs e h (3, 0) (a_ID t) (a_TraceID t) (a_NamespaceID t) (re_Obs req)) (\<lambda>_.
              ret (writeJSON 200 (BAgent t))))))))"

text \<open>An empty body, of unknown or positive length, stands for the zero request.\<close>

definition renew_body :: "api_env \<Rightarrow> http_request \<Rightarrow> http_response + renew_request" where
  "renew_body e r =
    (let none = \<lparr> rn_LeaseSec = 0, rn_ShardID = [] \<rparr> in
     if 0 < r_ContentLength r \<or> r_ContentLength r = - 1 then
       (case js_renew (ae_json e) (r_Body r) of
          DecOK req \<Rightarrow> Inr req | DecEOF \<Rightarrow> Inr none | DecErr \<Rightarrow> Inl (writeError 400 ''invalid request body''))
     else Inr none)"

definition RenewLeaseAgent :: "api_env \<Rightarrow> 's handlers \<Rightarrow> http_request \<Rightarrow> ('s, http_response) act" where
  "RenewLeaseAgent e h r =
    (let tid = path_id r ''/renew'' in
     if tid = [] then ret (writeError 400 ''missing agent ID'')
     else case lease_headers r of Inl resp \<Rightarrow> ret resp | Inr (agentID, leaseToken) \<Rightarrow>
       (case renew_body e r of Inl resp \<Rightarrow> ret resp | Inr req \<Rightarrow>
         (let space = shardSpace h r (rn_ShardID req) in
          orAnswer (visibleAgent r space (0, 0) tid) (\<lambda>current.
          andThen (sp_RenewLease space (1, 0) tid agentID leaseToken (seconds (rn_LeaseSec req))) (\<lambda>x. case x of
            Inl er \<Rightarrow> ret (renew_error er)
          | Inr t \<Rightarrow> ret (writeJSON 200 (BAgent t)))))))"

end
