(* ===== verification/Api_Event_Handlers.thy ===== *)
theory Api_Event_Handlers
  imports Api_Handlers
begin

text \<open>
  The handlers of \<^verbatim>\<open>internal/api/handlers.go\<close> that read events, telemetry and the graph of agents, and the operational
  endpoints: health, statistics, shard administration and debug invariants.
\<close>

section \<open>Scoping events and spans to a namespace\<close>

text \<open>Visibility of an event's agent, looked up once per agent.\<close>

fun scope_events ::
  "'s agent_space \<Rightarrow> string \<Rightarrow> nat \<Rightarrow> (string \<times> bool) list \<Rightarrow> event list \<Rightarrow> ('s, event list) act" where
  "scope_events space ns k cache [] = ret []"
| "scope_events space ns k cache (ev # rest) =
    (let tupleID = trim_space (e_TupleID ev) in
     if tupleID = [] then scope_events space ns (Suc k) cache rest
     else case map_of cache tupleID of
       Some visible \<Rightarrow> andThen (scope_events space ns (Suc k) cache rest) (\<lambda>evs. ret (if visible then ev # evs else evs))
     | None \<Rightarrow> andThen (sp_Get space (20, k) tupleID) (\<lambda>x.
         let visible = (case x of Inl _ \<Rightarrow> False | Inr t \<Rightarrow> effectiveAgentNamespace t = ns)
         in andThen (scope_events space ns (Suc k) ((tupleID, visible) # cache) rest) (\<lambda>evs.
              ret (if visible then ev # evs else evs))))"

definition filterEventsForPrincipalWithSpace ::
  "http_request \<Rightarrow> 's agent_space \<Rightarrow> event list \<Rightarrow> ('s, event list) act" where
  "filterEventsForPrincipalWithSpace r space events =
    (let ns = requestPrincipalNamespace r
     in if ns = [] then ret events else scope_events space ns 0 [] events)"

fun scope_spans ::
  "'s agent_space \<Rightarrow> string \<Rightarrow> nat \<Rightarrow> (string \<times> bool) list \<Rightarrow> span list \<Rightarrow> ('s, http_response + span list) act" where
  "scope_spans space ns k cache [] = ret (Inr [])"
| "scope_spans space ns k cache (sn # rest) =
    (let tupleID = trim_space (sn_TupleID sn);
         next = (\<lambda>cache visible. if \<not> visible then ret (Inl (writeError 404 ''agent not found''))
           else orError (scope_spans space ns (Suc k) cache rest) (\<lambda>sns. ret (Inr (sn \<lparr> sn_NamespaceID := ns \<rparr> # sns))))
     in if tupleID = [] then next cache True
        else case map_of cache tupleID of
          Some visible \<Rightarrow> next cache visible
        | None \<Rightarrow> andThen (sp_Get space (20, k) tupleID) (\<lambda>x.
            let visible = (case x of Inl _ \<Rightarrow> False | Inr t \<Rightarrow> effectiveAgentNamespace t = ns)
            in next ((tupleID, visible) # cache) visible))"

definition scopeTelemetrySpansToPrincipal ::
  "'s handlers \<Rightarrow> http_request \<Rightarrow> span list \<Rightarrow> ('s, http_response + span list) act" where
  "scopeTelemetrySpansToPrincipal h r spans =
    (let ns = requestPrincipalNamespace r
     in if ns = [] \<or> spans = [] then ret (Inr spans)
        else scope_spans (requestSpace h (r_Context r)) ns 0 [] spans)"

section \<open>GetEvents\<close>

definition event_wanted :: "string \<Rightarrow> string \<Rightarrow> string \<Rightarrow> event \<Rightarrow> bool" where
  "event_wanted agentID eventType traceID ev =
    ((agentID = [] \<or> e_AgentID ev = agentID) \<and> (eventType = [] \<or> e_Type ev = eventType) \<and>
     (traceID = [] \<or> e_TraceID ev = traceID))"

text \<open>One batch of \<^verbatim>\<open>filterGlobalEvents\<close>: the events kept so far and how many matched.\<close>

fun keep_events :: "int \<Rightarrow> int \<Rightarrow> (event \<Rightarrow> bool) \<Rightarrow> event list \<Rightarrow> event list \<times> int \<Rightarrow> event list \<times> int" where
  "keep_events limit offset P [] acc = acc"
| "keep_events limit offset P (ev # rest) (kept, n) =
    (if \<not> P ev then keep_events limit offset P rest (kept, n)
     else keep_events limit offset P rest
       (if offset \<le> n \<and> int (length kept) < limit then kept @ [ev] else kept, n + 1))"

definition global_page ::
  "'s agent_space \<Rightarrow> int \<Rightarrow> int \<Rightarrow> int \<Rightarrow> (event \<Rightarrow> bool) \<Rightarrow> nat \<Rightarrow> int \<times> event list \<times> int \<Rightarrow>
     ('s, (go_err + event list \<times> int) + int \<times> event list \<times> int) act" where
  "global_page space batchSize limit offset P k acc =
    (let (globalOffset, kept) = acc in
     andThen (sp_GetGlobalEvents space (2, k) batchSize globalOffset) (\<lambda>x. ret (case x of
       Inl er \<Rightarrow> Inl (Inl er)
     | Inr events \<Rightarrow>
         if events = [] then Inl (Inr kept)
         else let kept' = keep_events limit offset P events kept in
           if int (length events) < batchSize then Inl (Inr kept') else Inr (globalOffset + int (length events), kept'))))"

definition filterGlobalEvents ::
  "'s agent_space \<Rightarrow> int \<Rightarrow> int \<Rightarrow> string \<Rightarrow> string \<Rightarrow> string \<Rightarrow> ('s, go_err + event list \<times> int) act" where
  "filterGlobalEvents space limit0 offset0 agentID eventType traceID =
    (let limit = (if limit0 \<le> 0 then 100 else limit0); offset = (if offset0 < 0 then 0 else offset0);
         batchSize = (if limit < 500 then 500 else limit)
     in for_loop (global_page space batchSize limit offset (event_wanted agentID eventType traceID)) 0 (0, [], 0))"

text \<open>\<^verbatim>\<open>filtered[start:end]\<close>, which panics when the bounds are not ordered.\<close>

definition event_slice :: "int \<Rightarrow> int \<Rightarrow> event list \<Rightarrow> event list option" where
  "event_slice offset limit evs =
    (let n = int (length evs); start = min offset n; stop = min (to_int64 (offset + limit)) n
     in if 0 \<le> start \<and> start \<le> stop then Some (take (nat (stop - start)) (drop (nat start) evs)) else None)"

definition query_events_page ::
  "http_request \<Rightarrow> 's agent_space \<Rightarrow> (call \<Rightarrow> event_query \<Rightarrow> ('s, go_err + event_page) act) \<Rightarrow> event_query \<Rightarrow> ('s, http_response) act" where
  "query_events_page r space queryEvents q =
    andThen (queryEvents (1, 0) q) (\<lambda>x. case x of
      Inl er \<Rightarrow> ret (writeError 500 ''failed to get events'')
    | Inr page \<Rightarrow> andThen (filterEventsForPrincipalWithSpace r space (ep_Events page)) (\<lambda>filtered.
        ret (writeJSON 200 (BEvents filtered (int (length filtered)) (ep_NextCursor page)))))"

definition agent_events ::
  "http_request \<Rightarrow> 's agent_space \<Rightarrow> string \<Rightarrow> string \<Rightarrow> string \<Rightarrow> string \<Rightarrow> int \<Rightarrow> int \<Rightarrow> ('s, http_response) act" where
  "agent_events r space tupleID agentID eventType traceID limit offset =
    andThen (sp_GetEvents space (1, 0) tupleID) (\<lambda>x. case x of
      Inl er \<Rightarrow> ret (writeError 500 ''failed to get events'')
    | Inr events \<Rightarrow> andThen (filterEventsForPrincipalWithSpace r space events) (\<lambda>scoped.
        let filtered = filter (event_wanted agentID eventType traceID) scoped in
        case event_slice offset limit filtered of
          None \<Rightarrow> ret (respond 0 BAborted)
        | Some page \<Rightarrow> ret (writeJSON 200 (BEvents page (int (length filtered)) []))))"

definition global_events ::
  "http_request \<Rightarrow> 's agent_space \<Rightarrow> string \<Rightarrow> string \<Rightarrow> string \<Rightarrow> int \<Rightarrow> int \<Rightarrow> ('s, http_response) act" where
  "global_events r space agentID eventType traceID limit offset =
    andThen (if agentID \<noteq> [] \<or> eventType \<noteq> [] \<or> traceID \<noteq> []
             then orError (filterGlobalEvents space limit offset agentID eventType traceID) (\<lambda>(evs, _). ret (Inr evs))
             else sp_GetGlobalEvents space (2, 0) limit offset) (\<lambda>x. case x of
      Inl er \<Rightarrow> ret (writeError 500 ''failed to get global events'')
    | Inr events \<Rightarrow> andThen (filterEventsForPrincipalWithSpace r space events) (\<lambda>filtered.
        ret (writeJSON 200 (BEvents filtered (int (length filtered)) []))))"

definition events_agent_visible :: "http_request \<Rightarrow> 's agent_space \<Rightarrow> string \<Rightarrow> ('s, http_response + unit) act" where
  "events_agent_visible r space tupleID =
    (if tupleID = [] then ret (Inr ())
     else andThen (visibleAgent r space (0, 0) tupleID) (\<lambda>x. ret (map_sum (\<lambda>resp. resp) (\<lambda>_. ()) x)))"

definition GetEvents :: "api_env \<Rightarrow> 's handlers \<Rightarrow> http_request \<Rightarrow> ('s, http_response) act" where
  "GetEvents e h r =
    (let space = requestSpace h (r_Context r);
         tupleID = query_get r ''tuple_id''; agentID = query_get r ''agent_id''; eventType = query_get r ''type'';
         traceID = query_get r ''trace_id''; limit0 = atoi_value (query_get r ''limit'');
         offset = atoi_value (query_get r ''offset''); cursor = query_get r ''cursor'';
         limit = (if limit0 = 0 then 100 else limit0)
     in orAnswer (events_agent_visible r space tupleID) (\<lambda>_.
        case sp_QueryEvents space of
          Some queryEvents \<Rightarrow> query_events_page r space queryEvents
            \<lparr> eq_TupleID = tupleID, eq_AgentID = agentID, eq_Type = eventType, eq_TraceID = traceID,
               eq_Limit = limit, eq_Offset = offset, eq_Cursor = cursor \<rparr>
        | None \<Rightarrow>
            if cursor \<noteq> [] then ret (writeError 400 ''cursor pagination is not supported by this backend'')
            else if tupleID \<noteq> [] then agent_events r space tupleID agentID eventType traceID limit offset
            else global_events r space agentID eventType traceID limit offset))"

section \<open>Telemetry endpoints\<close>

definition IngestTelemetrySpan :: "api_env \<Rightarrow> 's handlers \<Rightarrow> http_request \<Rightarrow> ('s, http_response) act" where
  "IngestTelemetrySpan e h r =
    (case hd_telemetry h of None \<Rightarrow> ret (writeError 501 ''telemetry store not available'')
     | Some (record, _) \<Rightarrow>
         (case js_span (ae_json e) (r_Body r) of
            DecOK sn0 \<Rightarrow>
              if sn_TraceID sn0 = [] then ret (writeError 400 ''trace_id is required'')
              else let sn = (if IsZero (sn_TsStart sn0) then sn0 \<lparr> sn_TsStart := ae_now e 0 \<rparr> else sn0) in
                orAnswer (scopeTelemetrySpansToPrincipal h r [sn]) (\<lambda>spans.
                andThen (record (1, 0) spans) (\<lambda>x. case x of
                  Inl er \<Rightarrow> ret (writeError 500 ''failed to record telemetry span'')
                | Inr _ \<Rightarrow> ret (writeJSON 200 (BIngested 1))))
          | _ \<Rightarrow> ret (writeError 400 ''invalid telemetry span'')))"

definition IngestTelemetrySpanBatch :: "api_env \<Rightarrow> 's handlers \<Rightarrow> http_request \<Rightarrow> ('s, http_response) act" where
  "IngestTelemetrySpanBatch e h r =
    (case hd_telemetry h of None \<Rightarrow> ret (writeError 501 ''telemetry store not available'')
     | Some (record, _) \<Rightarrow>
         (case js_batch (ae_json e) (r_Body r) of
            DecOK batch \<Rightarrow>
              if batch = [] then ret (writeJSON 200 (BIngested 0))
              else if list_ex (\<lambda>sn. sn_TraceID sn = []) batch then ret (writeError 400 ''trace_id is required for all spans'')
              else let spans0 = map (\<lambda>sn. if IsZero (sn_TsStart sn) then sn \<lparr> sn_TsStart := ae_now e 0 \<rparr> else sn) batch in
                orAnswer (scopeTelemetrySpansToPrincipal h r spans0) (\<lambda>spans.
                andThen (record (1, 0) spans) (\<lambda>x. case x of
                  Inl er \<Rightarrow> ret (writeError 500 ''failed to record telemetry spans'')
                | Inr _ \<Rightarrow> ret (writeJSON 200 (BIngested (int (length spans))))))
          | _ \<Rightarrow> ret (writeError 400 ''invalid telemetry span batch'')))"

definition ListTelemetrySpans :: "api_env \<Rightarrow> 's handlers \<Rightarrow> http_request \<Rightarrow> ('s, http_response) act" where
  "ListTelemetrySpans e h r =
    (case hd_telemetry h of None \<Rightarrow> ret (writeError 501 ''telemetry store not available'')
     | Some (_, list) \<Rightarrow>
         (let traceID = query_get r ''trace_id''; limit0 = atoi_value (query_get r ''limit'');
              offset = atoi_value (query_get r ''offset'')
          in if traceID = [] then ret (writeError 400 ''trace_id is required'')
             else andThen (list (0, 0) traceID (requestPrincipalNamespace r) (if limit0 = 0 then 100 else limit0) offset) (\<lambda>x. case x of
               Inl er \<Rightarrow> ret (writeError 500 ''failed to list telemetry spans'')
             | Inr spans \<Rightarrow> ret (writeJSON 200 (BSpans spans (int (length spans)))))))"

section \<open>GetDAG\<close>

definition GetDAG :: "api_env \<Rightarrow> 's handlers \<Rightarrow> http_request \<Rightarrow> ('s, http_response) act" where
  "GetDAG e h r =
    (let space = requestSpace h (r_Context r); tid = extractIDFromPath (r_Path r) ''/api/v1/dag/'' in
     if tid = [] then ret (writeError 400 ''missing root agent ID'')
     else orAnswer (visibleAgent r space (0, 0) tid) (\<lambda>_.
       andThen (sp_GetDAG space (1, 0) tid) (\<lambda>x. case x of
         Inl er \<Rightarrow> ret (writeError 500 ''failed to get DAG'')
       | Inr dag \<Rightarrow> ret (writeJSON 200 (BDAG dag)))))"

section \<open>Operational endpoints\<close>

definition HealthCheck :: "api_env \<Rightarrow> 's handlers \<Rightarrow> http_request \<Rightarrow> ('s, http_response) act" where
  "HealthCheck e h r =
    (case sp_Health (hd_space h) of
       None \<Rightarrow> ret (writeJSON 200 (BHealth ''healthy'' True (getBackendType h)))
     | Some health \<Rightarrow> andThen (health (0, 0)) (\<lambda>x. case x of
         Inl er \<Rightarrow> ret (writeJSON 503 (BHealth ''unhealthy'' False (getBackendType h)))
       | Inr _ \<Rightarrow> ret (writeJSON 200 (BHealth ''healthy'' True (getBackendType h)))))"

definition countAgentsFast :: "'s handlers \<Rightarrow> ('s, go_err + int) act" where
  "countAgentsFast h = (case sp_Count (hd_space h) of Some count \<Rightarrow> count (0, 0) empty_query | None \<Rightarrow> countAll h 0 (Some empty_query) 1000)"

definition event_page_round :: "'s agent_space \<Rightarrow> nat \<Rightarrow> int \<times> int \<Rightarrow> ('s, (go_err + int) + int \<times> int) act" where
  "event_page_round space k acc =
    (let (sum, offset) = acc in
     andThen (sp_GetGlobalEvents space (1, k) 1000 offset) (\<lambda>x. ret (case x of
       Inl er \<Rightarrow> Inl (Inl er)
     | Inr events \<Rightarrow>
         if int (length events) < 1000 then Inl (Inr (sum + int (length events)))
         else Inr (sum + int (length events), offset + 1000))))"

definition countEventsFast :: "'s handlers \<Rightarrow> ('s, go_err + int) act" where
  "countEventsFast h =
    (case sp_QueryEvents (hd_space h) of
       Some queryEvents \<Rightarrow> orError (queryEvents (1, 0) (empty_event_query \<lparr> eq_Limit := 1 \<rparr>)) (\<lambda>page. ret (Inr (ep_Total page)))
     | None \<Rightarrow> for_loop (event_page_round (hd_space h)) 0 (0, 0))"

text \<open>The owner of an agent in progress, and the owners of a page added to those seen.\<close>

definition owner_of :: "agent \<Rightarrow> string" where
  "owner_of t = (if a_Owner t \<noteq> [] then a_Owner t else str_at (or_nil (a_Metadata t)) ''agent_id'')"

definition add_owners :: "agent list \<Rightarrow> string list \<Rightarrow> string list" where
  "add_owners ts owners = fold (\<lambda>t acc. if owner_of t = [] then acc else List.insert (owner_of t) acc) ts owners"

definition owner_page :: "'s agent_space \<Rightarrow> nat \<Rightarrow> int \<times> string list \<Rightarrow> ('s, (go_err + int) + int \<times> string list) act" where
  "owner_page space k acc =
    (let (offset, owners) = acc in
     andThen (sp_Query space (3, k) (empty_query \<lparr> q_Status := StatusInProgress, q_Limit := 500, q_Offset := offset \<rparr>)) (\<lambda>x. ret (case x of
       Inl er \<Rightarrow> Inl (Inl er)
     | Inr ts \<Rightarrow>
         let owners' = add_owners ts owners in
         if int (length ts) < 500 then Inl (Inr (int (length owners'))) else Inr (offset + 500, owners'))))"

definition countActiveAgentsFast :: "'s handlers \<Rightarrow> ('s, go_err + int) act" where
  "countActiveAgentsFast h =
    (let pages = for_loop (owner_page (hd_space h)) 0 (0, []) in
     case sp_CountByStatus (hd_space h) of
       Some countByStatus \<Rightarrow> orError (countByStatus (2, 0) empty_query) (\<lambda>counts.
         if count_at counts StatusInProgress = 0 then ret (Inr 0) else pages)
     | None \<Rightarrow> pages)"

definition orFail :: "('s, go_err + 'a) act \<Rightarrow> string \<Rightarrow> ('a \<Rightarrow> ('s, http_response) act) \<Rightarrow> ('s, http_response) act" where
  "orFail m msg f = andThen m (\<lambda>x. case x of Inl er \<Rightarrow> ret (writeError 500 msg) | Inr a \<Rightarrow> f a)"

definition GetStats :: "api_env \<Rightarrow> 's handlers \<Rightarrow> http_request \<Rightarrow> ('s, http_response) act" where
  "GetStats e h r =
    (case requireAdmin r of Some resp \<Rightarrow> ret resp | None \<Rightarrow>
       orFail (countAgentsFast h) ''failed to count agents'' (\<lambda>totalCount.
       orFail (countEventsFast h) ''failed to count events'' (\<lambda>eventCount.
       orFail (countActiveAgentsFast h) ''failed to count active agents'' (\<lambda>activeAgentCount.
         ret (writeJSON 200 (BStats totalCount eventCount activeAgentCount (getBackendType h)))))))"

definition no_shards :: http_response where
  "no_shards = writeError 404 ''shard admin endpoints are not available for this backend''"

definition GetShardMap :: "api_env \<Rightarrow> 's handlers \<Rightarrow> http_request \<Rightarrow> ('s, http_response) act" where
  "GetShardMap e h r =
    (case requireAdmin r of Some resp \<Rightarrow> ret resp | None \<Rightarrow>
       (case sp_ShardMapInfo (hd_space h) of None \<Rightarrow> ret no_shards
        | Some info \<Rightarrow> orFail (info (0, 0)) ''failed to read shard map'' (\<lambda>doc. ret (writeJSON 200 (BDoc doc)))))"

definition GetShardHealth :: "api_env \<Rightarrow> 's handlers \<Rightarrow> http_request \<Rightarrow> ('s, http_response) act" where
  "GetShardHealth e h r =
    (case requireAdmin r of Some resp \<Rightarrow> ret resp | None \<Rightarrow>
       (case sp_ShardHealthInfo (hd_space h) of None \<Rightarrow> ret no_shards
        | Some info \<Rightarrow> orFail (info (0, 0)) ''failed to read shard health'' (\<lambda>doc.
            ret (writeJSON 200 (BDoc (JObj [(''backend'', JStr (getBackendType h)), (''shards'', doc)]))))))"

definition GetShardQueueStats :: "api_env \<Rightarrow> 's handlers \<Rightarrow> http_request \<Rightarrow> ('s, http_response) act" where
  "GetShardQueueStats e h r =
    (case requireAdmin r of Some resp \<Rightarrow> ret resp | None \<Rightarrow>
       (case sp_ShardQueueStats (hd_space h) of None \<Rightarrow> ret no_shards
        | Some stats \<Rightarrow>
            (let namespaceID = trim_space (query_get r ''namespace_id''); queue = trim_space (query_get r ''queue'') in
             if namespaceID = [] \<or> queue = [] then ret (writeError 400 ''namespace_id and queue are required'')
             else orFail (stats (0, 0) namespaceID queue) ''failed to read shard queue stats'' (\<lambda>doc. ret (writeJSON 200 (BDoc doc))))))"

text \<open>A status whose query fails counts zero.\<close>

fun countByStatus_loop ::
  "'s agent_space \<Rightarrow> int \<Rightarrow> nat \<Rightarrow> status list \<Rightarrow> (status \<times> int) list \<Rightarrow> bool \<Rightarrow> ('s, (status \<times> int) list \<times> bool) act" where
  "countByStatus_loop space limit i [] counts truncated = ret (counts, truncated)"
| "countByStatus_loop space limit i (st # rest) counts truncated =
    andThen (sp_Query space (i, 0) (empty_query \<lparr> q_Status := st, q_Limit := limit \<rparr>)) (\<lambda>x. case x of
      Inl er \<Rightarrow> countByStatus_loop space limit (Suc i) rest (counts @ [(st, 0)]) truncated
    | Inr ts \<Rightarrow> countByStatus_loop space limit (Suc i) rest (counts @ [(st, int (length ts))])
        (truncated \<or> limit \<le> int (length ts)))"

definition DebugInvariants :: "api_env \<Rightarrow> 's handlers \<Rightarrow> http_request \<Rightarrow> ('s, http_response) act" where
  "DebugInvariants e h r =
    (if r_Method r \<noteq> ''GET'' then ret (http_error ''Method not allowed'' 405)
     else case sp_DebugInvariants (hd_space h) of
       Some provider \<Rightarrow> orFail (provider (0, 0)) ''failed to compute invariants'' (\<lambda>doc.
         ret (writeJSON 200 (BDoc (JObj [(''backend'', JStr (getBackendType h)), (''invariants'', doc)]))))
     | None \<Rightarrow> andThen (countByStatus_loop (hd_space h) 2000 0 all_statuses [] False) (\<lambda>(counts, truncated).
         ret (writeJSON 200 (BInvariants (getBackendType h) counts truncated))))"

end
