(* ===== verification/Api_Server.thy ===== *)
theory Api_Server
  imports Api_Middleware Api_Lease_Handlers Api_Event_Handlers
begin

text \<open>
  The server of \<^verbatim>\<open>cmd/server/main.go\<close>: the settings it derives from the configuration and the checks it makes before it
  starts, the routes, and the chain of middleware in front of them.  The configuration library is a parameter: its
  three getters.  The Prometheus handler is a parameter too.  Starting and stopping the listener, the logger, and the
  command line are not modelled.
\<close>

section \<open>Settings\<close>

record viper =
  vp_String :: "string \<Rightarrow> string"
  vp_Int :: "string \<Rightarrow> int"
  vp_Bool :: "string \<Rightarrow> bool"

definition isValidRuntimeProfile :: "string \<Rightarrow> bool" where
  "isValidRuntimeProfile profile = (profile \<in> {''dev'', ''production'', ''benchmark''})"

record http_options =
  ho_SecurityHeaders :: bool
  ho_CORS :: bool
  ho_RequestTimeout :: bool
  ho_MaxBody :: bool

definition resolveHTTPRuntimeOptions :: "string \<Rightarrow> http_options" where
  "resolveHTTPRuntimeOptions profile =
    (let on = (profile \<noteq> ''benchmark'')
     in \<lparr> ho_SecurityHeaders = on, ho_CORS = on, ho_RequestTimeout = on, ho_MaxBody = on \<rparr>)"

definition splitCommaList :: "string \<Rightarrow> string list" where
  "splitCommaList value = (if trim_space value = [] then []
     else filter (\<lambda>s. s \<noteq> []) (map trim_space (split_on (CHR '','') value)))"

fun dedup :: "string list \<Rightarrow> string list \<Rightarrow> string list" where
  "dedup seen [] = []"
| "dedup seen (x # xs) = (if x \<in> set seen then dedup seen xs else x # dedup (x # seen) xs)"

definition splitCommaListDedup :: "string \<Rightarrow> string list" where
  "splitCommaListDedup value = dedup [] (splitCommaList value)"

definition defaultLocalCORSOrigins :: "string list" where
  "defaultLocalCORSOrigins = [''http://127.0.0.1'', ''http://127.0.0.1:3000'', ''http://127.0.0.1:5173'',
     ''http://127.0.0.1:8080'', ''http://localhost'', ''http://localhost:3000'', ''http://localhost:5173'',
     ''http://localhost:8080'', ''https://127.0.0.1'', ''https://localhost'']"

definition parseDurationOrDefault :: "string \<Rightarrow> duration \<Rightarrow> duration" where
  "parseDurationOrDefault value fallback =
    (if trim_space value = [] then fallback
     else case ParseDuration value of None \<Rightarrow> fallback | Some d \<Rightarrow> if d \<le> 0 then fallback else d)"

definition parseDurationOrZero :: "string \<Rightarrow> duration" where
  "parseDurationOrZero value = parseDurationOrDefault value 0"

text \<open>A setting in lower case without surrounding space, or its default.\<close>

definition lower_or :: "viper \<Rightarrow> string \<Rightarrow> string \<Rightarrow> string" where
  "lower_or v key dflt = (let s = to_lower (trim_space (vp_String v key)) in if s = [] then dflt else s)"

datatype startup_error =
    InvalidProfile | InvalidSchemaMode | InvalidTelemetryMode | TelemetryUnsupported | InvalidAuthMode
  | KeysFileError key_error | KeysFileRequired | KeysRequired | AuthNeedsKey | WildcardOrigin

record server_settings =
  ss_Profile :: string
  ss_SchemaMode :: string
  ss_PgSSLMode :: string
  ss_TelemetryMode :: string
  ss_Auth :: auth_config
  ss_CORS :: cors_config
  ss_Rate :: rate_config
  ss_MaxBodyBytes :: int
  ss_RequestTimeout :: duration

definition guard_start :: "bool \<Rightarrow> startup_error \<Rightarrow> (startup_error + 'a) \<Rightarrow> startup_error + 'a" where
  "guard_start bad er rest = (if bad then Inl er else rest)"

definition cors_origins :: "viper \<Rightarrow> string \<Rightarrow> string list" where
  "cors_origins v profile =
    (let os = splitCommaList (vp_String v ''cors.allow_origins'')
     in if os = [] then (if profile = ''production'' then [] else defaultLocalCORSOrigins) else os)"

definition auth_mode_of :: "viper \<Rightarrow> string \<Rightarrow> string" where
  "auth_mode_of v profile =
    (let m = lower_or v ''auth.mode'' ''optional''
     in if profile = ''production'' \<and> m \<noteq> AuthModeRequired then AuthModeRequired else m)"

definition settings_of :: "viper \<Rightarrow> key_entry list \<Rightarrow> server_settings" where
  "settings_of v keys =
    (let profile = lower_or v ''runtime.profile'' ''dev'';
         ssl = (let s = trim_space (vp_String v ''postgres.ssl_mode'') in if s = [] then ''disable'' else s);
         rl = vp_Int v ''rate_limit.requests''; mb = vp_Int v ''http.max_body_bytes''
     in \<lparr> ss_Profile = profile,
          ss_SchemaMode = lower_or v ''schema.mode'' (if profile = ''production'' then ''validate'' else ''migrate''),
          ss_PgSSLMode = (if profile = ''production'' \<and> ssl = ''disable'' then ''require'' else ssl),
          ss_TelemetryMode = lower_or v ''telemetry.mode'' ''optional'',
          ss_Auth = \<lparr> ac_APIKey = trim_space (vp_String v ''api.key''), ac_Mode = auth_mode_of v profile,
             ac_ExemptPaths = DefaultAuthExemptPaths, ac_KeyPrincipals = keys,
             ac_LegacyNamespaceID = trim_space (vp_String v ''auth.legacy_namespace_id'') \<rparr>,
          ss_CORS = \<lparr> co_AllowedOrigins = cors_origins v profile,
             co_AllowedMethods = splitCommaList (vp_String v ''cors.allow_methods''),
             co_AllowedHeaders = splitCommaList (vp_String v ''cors.allow_headers''),
             co_MaxAgeSeconds = vp_Int v ''cors.max_age_seconds'' \<rparr>,
          ss_Rate = \<lparr> rl_RequestsPerWindow = (if profile = ''production'' \<and> rl \<le> 0 then 200 else rl),
             rl_Window = parseDurationOrDefault (vp_String v ''rate_limit.window'') Second, rl_MutatingOnly = True,
             rl_TrustedProxies = splitCommaList (vp_String v ''security.trusted_proxies'') \<rparr>,
          ss_MaxBodyBytes = (if profile = ''production'' \<and> mb \<le> 0 then 1024 * 1024 else mb),
          ss_RequestTimeout = parseDurationOrDefault (vp_String v ''http.request_timeout'') (30 * Second) \<rparr>)"

text \<open>The fatal checks of \<^verbatim>\<open>runServer\<close>, in their order; \<open>telemetrySupported\<close> is the type assertion on the store.\<close>

definition check_settings :: "viper \<Rightarrow> bool \<Rightarrow> (key_error + key_entry list) \<Rightarrow> startup_error + server_settings" where
  "check_settings v telemetrySupported loaded =
    (let keys = (case loaded of Inl _ \<Rightarrow> [] | Inr ks \<Rightarrow> ks); ss = settings_of v keys;
         production = (ss_Profile ss = ''production'')
     in guard_start (\<not> isValidRuntimeProfile (ss_Profile ss)) InvalidProfile
       (guard_start (ss_SchemaMode ss \<noteq> ''migrate'' \<and> ss_SchemaMode ss \<noteq> ''validate'') InvalidSchemaMode
       (guard_start (ss_TelemetryMode ss \<notin> {''disabled'', ''optional'', ''required''}) InvalidTelemetryMode
       (guard_start (ss_TelemetryMode ss = ''required'' \<and> \<not> telemetrySupported) TelemetryUnsupported
       (guard_start (ac_Mode (ss_Auth ss) \<noteq> AuthModeOptional \<and> ac_Mode (ss_Auth ss) \<noteq> AuthModeRequired) InvalidAuthMode
       (case loaded of Inl er \<Rightarrow> Inl (KeysFileError er) | Inr _ \<Rightarrow>
        guard_start (production \<and> trim_space (vp_String v ''auth.keys_file'') = []) KeysFileRequired
       (guard_start (production \<and> keys = []) KeysRequired
       (guard_start (ac_Mode (ss_Auth ss) = AuthModeRequired \<and> ac_APIKey (ss_Auth ss) = [] \<and> keys = []) AuthNeedsKey
       (guard_start (production \<and> ''*'' \<in> set (co_AllowedOrigins (ss_CORS ss))) WildcardOrigin
          (Inr ss))))))))))"

section \<open>Routes\<close>

text \<open>The server's state is that of the store and the table of the rate limiter; handlers see the store.\<close>

definition on_store :: "('s, 'a) act \<Rightarrow> ('s \<times> 'l, 'a) act" where
  "on_store m = (\<lambda>(s, l). map_option (\<lambda>(x, s'). (x, (s', l))) (m s))"

definition method_not_allowed :: http_response where
  "method_not_allowed = http_error ''Method not allowed'' 405"

definition agents_route :: "api_env \<Rightarrow> 's handlers \<Rightarrow> 's http_handler" where
  "agents_route e h r =
    (let path = r_Path r; post = (r_Method r = ''POST'') in
     if path = ''/api/v1/agents/query'' \<and> post then QueryAgents e h r
     else if path = ''/api/v1/agents/stats'' \<and> post then AgentStats e h r
     else if path = ''/api/v1/agents/read'' \<and> post then ReadAgent e h r
     else if path = ''/api/v1/agents/take'' \<and> post then TakeAgent e h r
     else if path = ''/api/v1/agents/batch-take'' \<and> post then BatchTakeAgent e h r
     else if path = ''/api/v1/agents/in'' \<and> post then InAgent e h r
     else if has_suffix path ''/complete-and-out'' \<and> post then CompleteAndOutAgent e h r
     else if has_suffix path ''/complete'' \<and> post then CompleteAgent e h r
     else if has_suffix path ''/release'' \<and> post then ReleaseAgent e h r
     else if has_suffix path ''/renew'' \<and> post then RenewLeaseAgent e h r
     else if r_Method r = ''GET'' then GetAgent e h r
     else if r_Method r = ''PUT'' then UpdateAgent e h r
     else ret method_not_allowed)"

definition only :: "string \<Rightarrow> ('s, http_response) act \<Rightarrow> http_request \<Rightarrow> ('s, http_response) act" where
  "only m act r = (if r_Method r \<noteq> m then ret method_not_allowed else act)"

text \<open>\<^verbatim>\<open>http.ServeMux\<close> redirects a path with empty or dot segments to its clean form and picks the longest pattern.\<close>

definition clean_path :: "string \<Rightarrow> bool" where
  "clean_path p = (p \<noteq> [] \<and> hd p = CHR ''/'' \<and>
     (let segs = tl (split_on (CHR ''/'') p) in [] \<notin> set (butlast segs) \<and> ''.'' \<notin> set segs \<and> ''..'' \<notin> set segs))"

definition mux :: "bool \<Rightarrow> 's http_handler \<Rightarrow> api_env \<Rightarrow> 's handlers \<Rightarrow> 's http_handler" where
  "mux debug prometheus e h r =
    (let p = r_Path r in
     if \<not> clean_path p then ret (respond 301 BNone)
     else if p = ''/api/v1/agents'' then only ''POST'' (CreateAgent e h r) r
     else if p = ''/api/v1/events'' then GetEvents e h r
     else if p = ''/api/v1/admin/shards'' then only ''GET'' (GetShardMap e h r) r
     else if p = ''/api/v1/admin/shards/health'' then only ''GET'' (GetShardHealth e h r) r
     else if p = ''/api/v1/admin/shards/queues/stats'' then only ''GET'' (GetShardQueueStats e h r) r
     else if p = ''/api/v1/telemetry/spans'' then
       (if r_Method r = ''POST'' then IngestTelemetrySpan e h r else only ''GET'' (ListTelemetrySpans e h r) r)
     else if p = ''/api/v1/telemetry/spans:batch'' then only ''POST'' (IngestTelemetrySpanBatch e h r) r
     else if p = ''/api/v1/health'' \<or> p = ''/health'' then HealthCheck e h r
     else if p = ''/api/v1/stats'' \<or> p = ''/stats'' then GetStats e h r
     else if p = ''/metrics'' then prometheus r
     else if p = ''/debug/invariants'' \<and> debug then DebugInvariants e h r
     else if has_prefix p ''/api/v1/agents/'' then agents_route e h r
     else if has_prefix p ''/api/v1/dag/'' then GetDAG e h r
     else ret (http_error ''404 page not found'' 404))"

section \<open>The chain\<close>

text \<open>What a request meets outside the handlers: the limiter's clock, the HMAC of the process, whether the timeout struck.\<close>

record chain_env =
  ce_now :: gotime
  ce_hmac :: "string \<Rightarrow> string"
  ce_expired :: bool

definition server_chain ::
  "server_settings \<Rightarrow> chain_env \<Rightarrow> (('s \<times> rate_table) http_handler \<Rightarrow> ('s \<times> rate_table) http_handler) list" where
  "server_chain ss ce =
    (let opts = resolveHTTPRuntimeOptions (ss_Profile ss)
     in (if ho_SecurityHeaders opts then [SecurityHeadersMiddleware] else []) @
        (if ho_CORS opts then [CORSMiddlewareWithConfig (ss_CORS ss)] else []) @
        [TelemetryModeMiddleware (ss_TelemetryMode ss), AuthMiddleware (ce_hmac ce) (ss_Auth ss),
         AdminOnlyMiddleware DefaultAdminRouteConfig] @
        (if ho_RequestTimeout opts then [RequestTimeoutMiddleware (ss_RequestTimeout ss) True (ce_expired ce)] else []) @
        (if ho_MaxBody opts then [MaxBodyBytesMiddleware (ss_MaxBodyBytes ss) True] else []) @
        [RateLimitMiddleware (ss_Rate ss) (ce_now ce)])"

text \<open>A request enters with no principal: only AuthMiddleware sets one.\<close>

definition serve ::
  "server_settings \<Rightarrow> chain_env \<Rightarrow> bool \<Rightarrow> 's http_handler \<Rightarrow> api_env \<Rightarrow> 's handlers \<Rightarrow> http_request \<Rightarrow>
     ('s \<times> rate_table, http_response) act" where
  "serve ss ce debug prometheus e h r =
    ApplyMiddleware (\<lambda>r. on_store (mux debug prometheus e h r)) (server_chain ss ce) (r \<lparr> r_Principal := None \<rparr>)"

end
