(* ===== verification/Api_Isolation.thy ===== *)
theory Api_Isolation
  imports Api_Server
begin

text \<open>
  Isolation of namespaces by the handlers.  What a store has to promise is a locale: which rows an operation may
  touch, and whose agents it may return.  On these laws every handler, called with a principal that is bound to a
  namespace, leaves the rows of other namespaces as they are and answers with agents and events of its own namespace
  only.  The graph of GetDAG is not covered: its nodes are not scoped.
\<close>

section \<open>Vocabulary\<close>

text \<open>\<open>row s\<close> finds the stored record of an id, \<open>row_ns\<close> the namespace of a record.\<close>

definition belongs :: "('r \<Rightarrow> string) \<Rightarrow> (string \<Rightarrow> 'r option) \<Rightarrow> string \<Rightarrow> string \<Rightarrow> bool" where
  "belongs row_ns rows i ns = (\<exists>r. rows i = Some r \<and> row_ns r = ns)"

definition foreign_kept :: "('r \<Rightarrow> string) \<Rightarrow> string \<Rightarrow> (string \<Rightarrow> 'r option) \<Rightarrow> (string \<Rightarrow> 'r option) \<Rightarrow> bool" where
  "foreign_kept row_ns ns rows rows' = (\<forall>i r. rows i = Some r \<longrightarrow> row_ns r \<noteq> ns \<longrightarrow> rows' i = Some r)"

text \<open>The query asks for one namespace.\<close>

definition scoped :: "string \<Rightarrow> query \<Rightarrow> bool" where
  "scoped ns q = (ns \<noteq> [] \<and> trim_space ns = ns \<and> q_NamespaceID q = ns)"

text \<open>An action that changes no row, and one that changes the row of one id only and keeps its namespace.\<close>

definition reads_only :: "('s \<Rightarrow> bool) \<Rightarrow> ('s \<Rightarrow> string \<Rightarrow> 'r option) \<Rightarrow> ('s, 'a) act \<Rightarrow> bool" where
  "reads_only good row m = (\<forall>s. good s \<longrightarrow> wp m (\<lambda>x s'. good s' \<and> row s' = row s) s)"

definition writes_one ::
  "('s \<Rightarrow> bool) \<Rightarrow> ('s \<Rightarrow> string \<Rightarrow> 'r option) \<Rightarrow> ('r \<Rightarrow> string) \<Rightarrow> string \<Rightarrow> ('s, 'a) act \<Rightarrow> bool" where
  "writes_one good row row_ns k m = (\<forall>s. good s \<longrightarrow> wp m (\<lambda>x s'. good s' \<and> (\<forall>j. j \<noteq> k \<longrightarrow> row s' j = row s j) \<and>
     (\<forall>ns. belongs row_ns (row s) k ns \<longrightarrow> belongs row_ns (row s') k ns)) s)"

definition writes_own ::
  "('s \<Rightarrow> bool) \<Rightarrow> ('s \<Rightarrow> string \<Rightarrow> 'r option) \<Rightarrow> ('r \<Rightarrow> string) \<Rightarrow> string \<Rightarrow> string \<Rightarrow> ('s, 'a) act \<Rightarrow> bool" where
  "writes_own good row row_ns ns k m = (\<forall>s. good s \<longrightarrow> belongs row_ns (row s) k ns \<longrightarrow>
     wp m (\<lambda>x s'. good s' \<and> (\<forall>j. j \<noteq> k \<longrightarrow> row s' j = row s j) \<and> belongs row_ns (row s') k ns) s)"

lemma writes_one_own: "writes_one good row row_ns k m \<Longrightarrow> writes_own good row row_ns ns k m"
  by (auto simp: writes_one_def writes_own_def wp_def split: option.split)

text \<open>An update map that does not move an agent of the namespace elsewhere.\<close>

definition keeps_namespace :: "string \<Rightarrow> gval gomap \<Rightarrow> bool" where
  "keeps_namespace ns u = (ns \<noteq> [] \<and> trim_space ns = ns \<and> set (map fst u) \<subseteq> {''payload'', ''tags'', ''metadata''} \<and>
     (case map_of u ''metadata'' of None \<Rightarrow> True | Some v \<Rightarrow> (\<exists>m. v = VStrMap m \<and> str_at m NamespaceMetadataKey = ns)))"

section \<open>What a store promises\<close>

locale scoped_space =
  fixes sp :: "'s agent_space" and good :: "'s \<Rightarrow> bool" and row :: "'s \<Rightarrow> string \<Rightarrow> 'r option"
    and row_ns :: "'r \<Rightarrow> string" and uuids :: "string set"
  assumes get: "reads_only good row (sp_Get sp i k)"
    and get_ns: "good s \<Longrightarrow> sp_Get sp i k s = Some (Inr t, s') \<Longrightarrow> belongs row_ns (row s) k (effectiveAgentNamespace t)"
    and query: "reads_only good row (sp_Query sp i q)"
    and query_ns: "good s \<Longrightarrow> scoped ns q \<Longrightarrow> sp_Query sp i q s = Some (Inr ts, s') \<Longrightarrow> t \<in> set ts \<Longrightarrow>
      effectiveAgentNamespace t = ns"
    and read: "reads_only good row (sp_Read sp i q dur)"
    and read_ns: "good s \<Longrightarrow> scoped ns q \<Longrightarrow> sp_Read sp i q dur s = Some (Inr (Some t), s') \<Longrightarrow>
      effectiveAgentNamespace t = ns"
    and take: "good s \<Longrightarrow> scoped ns q \<Longrightarrow> sp_Take sp i q s = Some (x, s') \<Longrightarrow>
      good s' \<and> foreign_kept row_ns ns (row s) (row s') \<and> (\<forall>t. x = Inr (Some t) \<longrightarrow> effectiveAgentNamespace t = ns)"
    and inn: "good s \<Longrightarrow> scoped ns q \<Longrightarrow> sp_In sp i q dur s = Some (y, s') \<Longrightarrow>
      good s' \<and> foreign_kept row_ns ns (row s) (row s') \<and> (\<forall>t. y = Inr t \<longrightarrow> effectiveAgentNamespace t = ns)"
    and batch: "sp_BatchTake sp = Some bt \<Longrightarrow> good s \<Longrightarrow> scoped ns q \<Longrightarrow> bt i q lim s = Some (z, s') \<Longrightarrow>
      good s' \<and> foreign_kept row_ns ns (row s) (row s') \<and> (\<forall>ts. z = Inr ts \<longrightarrow> (\<forall>t \<in> set ts. effectiveAgentNamespace t = ns))"
    and out: "good s \<Longrightarrow> a_ID t \<noteq> [] \<Longrightarrow> sp_Out sp i t s = Some (w, s') \<Longrightarrow>
      good s' \<and> (\<forall>j. j \<noteq> a_ID t \<longrightarrow> row s' j = row s j) \<and>
      (\<forall>t'. w = Inr t' \<longrightarrow> (\<forall>ns. ns \<noteq> [] \<longrightarrow> trim_space ns = ns \<longrightarrow> a_NamespaceID t = ns \<longrightarrow> effectiveAgentNamespace t' = ns))"
    and update: "keeps_namespace ns u \<Longrightarrow> writes_own good row row_ns ns k (sp_Update sp i k u)"
    and update_get: "sp_UpdateAndGet sp = Some ug \<Longrightarrow> keeps_namespace ns u \<Longrightarrow> writes_own good row row_ns ns k (ug i k u)"
    and update_get_ns: "sp_UpdateAndGet sp = Some ug \<Longrightarrow> keeps_namespace ns u \<Longrightarrow> good s \<Longrightarrow> belongs row_ns (row s) k ns \<Longrightarrow>
      ug i k u s = Some (Inr (Some t), s') \<Longrightarrow> effectiveAgentNamespace t = ns"
    and complete: "writes_one good row row_ns k (sp_Complete sp i k ag tok res)"
    and complete_get: "sp_CompleteAndGet sp = Some cg \<Longrightarrow> writes_one good row row_ns k (cg i k ag tok res)"
    and complete_get_ns: "sp_CompleteAndGet sp = Some cg \<Longrightarrow> good s \<Longrightarrow> cg i k ag tok res s = Some (Inr (Some t), s') \<Longrightarrow>
      belongs row_ns (row s) k (effectiveAgentNamespace t)"
    and complete_out: "good s \<Longrightarrow> list_all (\<lambda>t. a_ID t = [] \<and> a_NamespaceID t = ns) outs \<Longrightarrow> ns \<noteq> [] \<Longrightarrow> trim_space ns = ns \<Longrightarrow>
      sp_CompleteAndOut sp i k ag tok res outs s = Some (c, s') \<Longrightarrow>
      good s' \<and> (\<forall>j. j \<noteq> k \<longrightarrow> j \<notin> uuids \<longrightarrow> row s' j = row s j) \<and>
      (\<forall>t ts. c = Inr (t, ts) \<longrightarrow> belongs row_ns (row s) k (effectiveAgentNamespace t) \<and> (\<forall>t' \<in> set ts. effectiveAgentNamespace t' = ns))"
    and release: "writes_one good row row_ns k (sp_Release sp i k ag tok reason)"
    and release_get: "sp_ReleaseAndGet sp = Some rg \<Longrightarrow> writes_one good row row_ns k (rg i k ag tok reason)"
    and release_get_ns: "sp_ReleaseAndGet sp = Some rg \<Longrightarrow> good s \<Longrightarrow> rg i k ag tok reason s = Some (Inr (Some t), s') \<Longrightarrow>
      belongs row_ns (row s) k (effectiveAgentNamespace t)"
    and renew: "writes_one good row row_ns k (sp_RenewLease sp i k ag tok dur)"
    and renew_ns: "good s \<Longrightarrow> sp_RenewLease sp i k ag tok dur s = Some (Inr t, s') \<Longrightarrow>
      belongs row_ns (row s) k (effectiveAgentNamespace t)"
    and events: "reads_only good row (sp_GetEvents sp i k)"
    and global_events: "reads_only good row (sp_GetGlobalEvents sp i lim off)"
    and query_events: "sp_QueryEvents sp = Some qe \<Longrightarrow> reads_only good row (qe i eq)"
    and dag: "reads_only good row (sp_GetDAG sp i k)"
    and count: "sp_Count sp = Some ct \<Longrightarrow> reads_only good row (ct i q)"
    and count_status: "sp_CountByStatus sp = Some cs \<Longrightarrow> reads_only good row (cs i q)"
    and record_spans: "sp_RecordSpans sp = Some rec \<Longrightarrow> reads_only good row (rec i spans)"
    and list_spans: "sp_ListSpans sp = Some ls \<Longrightarrow> reads_only good row (ls i tr ns lim off)"
    and health: "sp_Health sp = Some hl \<Longrightarrow> reads_only good row (hl i)"
    and shard_map: "sp_ShardMapInfo sp = Some sm \<Longrightarrow> reads_only good row (sm i)"
    and shard_health: "sp_ShardHealthInfo sp = Some sh \<Longrightarrow> reads_only good row (sh i)"
    and shard_stats: "sp_ShardQueueStats sp = Some st \<Longrightarrow> reads_only good row (st i ns qu)"
    and invariants: "sp_DebugInvariants sp = Some di \<Longrightarrow> reads_only good row (di i)"

text \<open>Handlers whose stores, bound to a request or not, all keep these promises.\<close>

locale scoped_api =
  fixes h :: "'s handlers" and good :: "'s \<Rightarrow> bool" and row :: "'s \<Rightarrow> string \<Rightarrow> 'r option"
    and row_ns :: "'r \<Rightarrow> string" and uuids :: "string set"
  assumes unbound: "scoped_space (hd_space h) good row row_ns uuids"
    and bound: "scoped_space (requestSpace h ctx) good row row_ns uuids"

section \<open>Answers\<close>

fun body_events :: "resp_body \<Rightarrow> event list" where
  "body_events (BEvents evs n c) = evs"
| "body_events b = []"

text \<open>Everything a body shows of agents is of one namespace.\<close>

definition own_body :: "('r \<Rightarrow> string) \<Rightarrow> string \<Rightarrow> (string \<Rightarrow> 'r option) \<Rightarrow> resp_body \<Rightarrow> bool" where
  "own_body row_ns ns rows b = ((\<forall>t \<in> set (body_agents b). effectiveAgentNamespace t = ns) \<and>
     (\<forall>ev \<in> set (body_events b). belongs row_ns rows (trim_space (e_TupleID ev)) ns))"

lemma own_body_none [simp]:
  "own_body row_ns ns rows BNone" "own_body row_ns ns rows (BError msg)" "own_body row_ns ns rows (BText msg)"
  "own_body row_ns ns rows (BClaim a b c)" "own_body row_ns ns rows (BCounts cs n)" "own_body row_ns ns rows (BDAG g)"
  "own_body row_ns ns rows (BSpans sns n)" "own_body row_ns ns rows (BIngested n)" "own_body row_ns ns rows (BHealth st rd bk)"
  "own_body row_ns ns rows (BStats n1 n2 n3 bk)" "own_body row_ns ns rows (BDoc j)" "own_body row_ns ns rows BAborted"
  "own_body row_ns ns rows (BInvariants bk cs tr)"
  by (simp_all add: own_body_def)

lemma own_body_agent [simp]:
  "own_body row_ns ns rows (BAgent t) = (effectiveAgentNamespace t = ns)"
  "own_body row_ns ns rows (BAgents ts) = (\<forall>t \<in> set ts. effectiveAgentNamespace t = ns)"
  "own_body row_ns ns rows (BQuery ts n) = (\<forall>t \<in> set ts. effectiveAgentNamespace t = ns)"
  "own_body row_ns ns rows (BCompleted t ts) = (effectiveAgentNamespace t = ns \<and> (\<forall>t \<in> set ts. effectiveAgentNamespace t = ns))"
  "own_body row_ns ns rows (BEvents evs n c) = (\<forall>ev \<in> set evs. belongs row_ns rows (trim_space (e_TupleID ev)) ns)"
  by (simp_all add: own_body_def)

lemma own_writeJSON: "own_body row_ns ns rows b \<Longrightarrow> own_body row_ns ns rows (rs_Body (writeJSON st b))"
  by (simp add: writeJSON_def)

lemma rs_respond [simp]: "rs_Body (respond st b) = b" "rs_Body (http_error msg st) = BText msg"
  by (simp_all add: respond_def http_error_def)

lemma foreign_kept_refl [simp]: "foreign_kept row_ns ns rows rows"
  by (simp add: foreign_kept_def)

lemma belongs_unique: "belongs row_ns rows k ns \<Longrightarrow> belongs row_ns rows k ns' \<Longrightarrow> ns = ns'"
  by (auto simp: belongs_def)

lemma foreign_kept_one: "belongs row_ns rows k ns \<Longrightarrow> (\<And>j. j \<noteq> k \<Longrightarrow> rows' j = rows j) \<Longrightarrow> foreign_kept row_ns ns rows rows'"
  unfolding belongs_def foreign_kept_def by (metis option.inject)

lemma foreign_kept_new: "rows k = None \<Longrightarrow> (\<And>j. j \<noteq> k \<Longrightarrow> rows' j = rows j) \<Longrightarrow> foreign_kept row_ns ns rows rows'"
  unfolding foreign_kept_def by (metis option.distinct(1))

section \<open>Rules for actions\<close>

lemma wpI: "(\<And>x s'. m s = Some (x, s') \<Longrightarrow> Q x s') \<Longrightarrow> wp m Q s"
  by (simp add: wp_def split: option.split)

lemma wp_ret_fun [simp]: "wp (ret x) Q = Q x"
  by (simp add: fun_eq_iff)

lemma wp_reads:
  "reads_only good row m \<Longrightarrow> good s \<Longrightarrow> (\<And>x s'. good s' \<Longrightarrow> row s' = row s \<Longrightarrow> m s = Some (x, s') \<Longrightarrow> Q x s') \<Longrightarrow> wp m Q s"
  by (auto simp: reads_only_def wp_def split: option.splits)

lemma reads_ret [simp]: "reads_only good row (ret x)"
  by (simp add: reads_only_def)

lemma reads_then: "reads_only good row m \<Longrightarrow> (\<And>x. reads_only good row (f x)) \<Longrightarrow> reads_only good row (andThen m f)"
  unfolding reads_only_def[of good row "andThen m f"] wp_andThen
  by (intro allI impI, rule wp_reads[where m = m], assumption+, rule wp_reads[where good = good and row = row]) auto

lemma reads_orError: "reads_only good row m \<Longrightarrow> (\<And>x. reads_only good row (f x)) \<Longrightarrow> reads_only good row (orError m f)"
  unfolding orError_def by (rule reads_then) (auto split: sum.split)

lemma reads_orAnswer: "reads_only good row m \<Longrightarrow> (\<And>x. reads_only good row (f x)) \<Longrightarrow> reads_only good row (orAnswer m f)"
  unfolding orAnswer_def by (rule reads_then) (auto split: sum.split)

lemma reads_onlyD: "reads_only good row m \<Longrightarrow> good s \<Longrightarrow> m s = Some (x, s') \<Longrightarrow> good s' \<and> row s' = row s"
  by (auto simp: reads_only_def wp_def)

lemma reads_for_loop:
  assumes "\<And>k a. reads_only good row (body k a)"
  shows "reads_only good row (for_loop body k a)"
proof -
  let ?P = "\<lambda>body k a s y. (\<forall>k a. reads_only good row (body k a)) \<longrightarrow> good s \<longrightarrow> good (snd y) \<and> row (snd y) = row s"
  have "?P body k a s y" if "for_loop body k a s = Some y" for s y
  proof (rule for_loop.raw_induct[where P = ?P, OF _ that], intro impI)
    fix loop body k a s y
    assume ih: "\<And>body k a s y. loop body k a s = Some y \<Longrightarrow> ?P body k a s y"
      and r: "\<forall>k a. reads_only good row (body k a)" and g: "good s"
      and b: "Option.bind (body k a s) (\<lambda>(x, s'). case x of Inl b \<Rightarrow> Some (b, s') | Inr a' \<Rightarrow> loop body (Suc k) a' s') = Some y"
    obtain x s1 where x: "body k a s = Some (x, s1)" using b by (auto simp: bind_eq_Some_conv)
    have s1: "good s1" "row s1 = row s" using reads_onlyD[of good row "body k a" s x s1] r g x by auto
    show "good (snd y) \<and> row (snd y) = row s"
    proof (cases x)
      case (Inl v)
      then show ?thesis using b x s1 by auto
    next
      case (Inr a')
      then have "loop body (Suc k) a' s1 = Some y" using b x by simp
      then show ?thesis using ih[of body "Suc k" a' s1 y] r s1 by simp
    qed
  qed
  then show ?thesis using assms by (fastforce simp: reads_only_def wp_def split: option.split)
qed

section \<open>The property\<close>

text \<open>The outcome of a request of namespace \<open>ns\<close> that started in a state with the given rows.\<close>

definition iso_post ::
  "('s \<Rightarrow> bool) \<Rightarrow> ('s \<Rightarrow> string \<Rightarrow> 'r option) \<Rightarrow> ('r \<Rightarrow> string) \<Rightarrow> string \<Rightarrow> (string \<Rightarrow> 'r option) \<Rightarrow> http_response \<Rightarrow> 's \<Rightarrow> bool" where
  "iso_post good row row_ns ns rows resp s' =
    (good s' \<and> foreign_kept row_ns ns rows (row s') \<and> own_body row_ns ns rows (rs_Body resp))"

definition isolated ::
  "('s \<Rightarrow> bool) \<Rightarrow> ('s \<Rightarrow> string \<Rightarrow> 'r option) \<Rightarrow> ('r \<Rightarrow> string) \<Rightarrow> string set \<Rightarrow> string \<Rightarrow> ((string \<Rightarrow> 'r option) \<Rightarrow> bool) \<Rightarrow>
     ('s, http_response) act \<Rightarrow> bool" where
  "isolated good row row_ns uuids ns P m =
    (\<forall>s. good s \<longrightarrow> (\<forall>u \<in> uuids. row s u = None) \<longrightarrow> P (row s) \<longrightarrow> wp m (iso_post good row row_ns ns (row s)) s)"

text \<open>An action that, where it answers itself, answers with an error.\<close>

definition plain_answer :: "http_response \<Rightarrow> bool" where
  "plain_answer resp = (rs_Body resp = BNone \<or> (\<exists>msg. rs_Body resp = BError msg))"

definition answers_plain :: "('s, http_response + 'a) act \<Rightarrow> bool" where
  "answers_plain m = (\<forall>s resp s'. m s = Some (Inl resp, s') \<longrightarrow> plain_answer resp)"

text \<open>An end of a handler that writes nothing more and shows agents of the namespace only.\<close>

definition shows_own :: "string \<Rightarrow> http_response \<Rightarrow> bool" where
  "shows_own ns resp = ((\<forall>t \<in> set (body_agents (rs_Body resp)). effectiveAgentNamespace t = ns) \<and> body_events (rs_Body resp) = [])"

definition own_tail ::
  "('s \<Rightarrow> bool) \<Rightarrow> ('s \<Rightarrow> string \<Rightarrow> 'r option) \<Rightarrow> string \<Rightarrow> ((string \<Rightarrow> 'r option) \<Rightarrow> bool) \<Rightarrow> ('s, http_response) act \<Rightarrow> bool" where
  "own_tail good row ns P m =
    (\<forall>s. good s \<longrightarrow> P (row s) \<longrightarrow> wp m (\<lambda>resp s'. good s' \<and> row s' = row s \<and> shows_own ns resp) s)"

lemma plain_answer_error [simp]: "plain_answer (writeError st msg)" "plain_answer (respond st BNone)"
  by (simp_all add: plain_answer_def)

lemma plain_answerD: "plain_answer resp \<Longrightarrow> own_body row_ns ns rows (rs_Body resp)"
  by (auto simp: plain_answer_def)

lemma answers_ret [simp]: "answers_plain (ret x) = (\<forall>resp. x = Inl resp \<longrightarrow> plain_answer resp)"
  by (auto simp: answers_plain_def ret_def)

lemma answers_then: "(\<And>x. answers_plain (f x)) \<Longrightarrow> answers_plain (andThen m f)"
  by (fastforce simp: answers_plain_def andThen_def bind_eq_Some_conv)

lemma answers_pass:
  assumes m: "answers_plain m" and f: "\<And>a. answers_plain (f a)"
  shows "answers_plain (andThen m (\<lambda>x. case x of Inl resp \<Rightarrow> ret (Inl resp) | Inr a \<Rightarrow> f a))"
  unfolding answers_plain_def
proof (intro allI impI)
  fix s resp s' assume "andThen m (\<lambda>x. case x of Inl resp \<Rightarrow> ret (Inl resp) | Inr a \<Rightarrow> f a) s = Some (Inl resp, s')"
  then obtain x s1 where x: "m s = Some (x, s1)" and
    c: "(case x of Inl resp \<Rightarrow> ret (Inl resp) | Inr a \<Rightarrow> f a) s1 = Some (Inl resp, s')"
    by (auto simp: andThen_def bind_eq_Some_conv)
  show "plain_answer resp"
  proof (cases x)
    case (Inl resp1)
    then show ?thesis using c x m unfolding answers_plain_def ret_def by auto
  next
    case (Inr a)
    then show ?thesis using c f[of a] unfolding answers_plain_def by auto
  qed
qed

lemma answers_map:
  assumes m: "answers_plain m"
  shows "answers_plain (andThen m (\<lambda>x. ret (map_sum (\<lambda>resp. resp) g x)))"
proof -
  have eq: "(\<lambda>x. ret (map_sum (\<lambda>resp. resp) g x)) = (\<lambda>x. case x of Inl resp \<Rightarrow> ret (Inl resp) | Inr a \<Rightarrow> ret (Inr (g a)))"
    by (auto simp: fun_eq_iff split: sum.split)
  show ?thesis unfolding eq by (rule answers_pass[OF m]) simp
qed

lemma shows_own_body: "shows_own ns resp \<Longrightarrow> own_body row_ns ns rows (rs_Body resp)"
  by (simp add: shows_own_def own_body_def)

lemma shows_own_simps [simp]:
  "shows_own ns (writeError st msg)" "shows_own ns (respond st BNone)"
  by (simp_all add: shows_own_def)

lemma shows_own_agent: "effectiveAgentNamespace t = ns \<Longrightarrow> shows_own ns (writeJSON st (BAgent t))"
  by (simp add: shows_own_def writeJSON_def)

lemma shows_own_answers [simp]:
  "shows_own ns (writeJSON st (BAgents ts)) = (encodes (BAgents ts) \<longrightarrow> (\<forall>t \<in> set ts. effectiveAgentNamespace t = ns))"
  "shows_own ns (writeJSON st (BQuery ts n)) = (encodes (BQuery ts n) \<longrightarrow> (\<forall>t \<in> set ts. effectiveAgentNamespace t = ns))"
  "shows_own ns (writeJSON st (BClaim a b c))" "shows_own ns (writeJSON st (BCounts cs n))" "shows_own ns (writeJSON st (BDAG g))"
  "shows_own ns (writeJSON st (BSpans sns n))" "shows_own ns (writeJSON st (BIngested n))" "shows_own ns (writeJSON st (BHealth hs rd bk))"
  "shows_own ns (writeJSON st (BStats n1 n2 n3 bk))" "shows_own ns (writeJSON st (BDoc j))"
  "shows_own ns (writeJSON st (BInvariants bk cs tr))" "shows_own ns (http_error msg st)"
  by (simp_all add: shows_own_def writeJSON_def)

lemma shows_own_completed:
  "effectiveAgentNamespace t = ns \<Longrightarrow> \<forall>t \<in> set ts. effectiveAgentNamespace t = ns \<Longrightarrow> shows_own ns (writeJSON st (BCompleted t ts))"
  by (simp add: shows_own_def writeJSON_def)

lemma own_tail_ret: "shows_own ns resp \<Longrightarrow> own_tail good row ns P (ret resp)"
  by (simp add: own_tail_def)

lemma own_tailD:
  "own_tail good row ns P m \<Longrightarrow> good s \<Longrightarrow> P (row s) \<Longrightarrow> wp m (\<lambda>resp s'. good s' \<and> row s' = row s \<and> shows_own ns resp) s"
  by (simp add: own_tail_def)

lemma own_tail_after:
  assumes m: "reads_only good row m" and f: "\<And>x. own_tail good row ns P (f x)"
  shows "own_tail good row ns P (andThen m f)"
  unfolding own_tail_def wp_andThen
proof (intro allI impI, rule wp_reads[OF m])
  fix s x s' assume "good s'" "row s' = row s" "P (row s)"
  then show "wp (f x) (\<lambda>resp s'. good s' \<and> row s' = row s \<and> shows_own ns resp) s'" using own_tailD[OF f, of s' x] by simp
qed

lemma isolated_own_tail: "own_tail good row ns P m \<Longrightarrow> isolated good row row_ns uuids ns P m"
  by (auto simp: own_tail_def isolated_def iso_post_def shows_own_body elim!: wp_mono)

lemma isolated_ret: "shows_own ns resp \<Longrightarrow> isolated good row row_ns uuids ns P (ret resp)"
  by (rule isolated_own_tail) (rule own_tail_ret)

lemma isolatedD:
  "isolated good row row_ns uuids ns P m \<Longrightarrow> good s \<Longrightarrow> \<forall>u \<in> uuids. row s u = None \<Longrightarrow> P (row s) \<Longrightarrow>
     wp m (iso_post good row row_ns ns (row s)) s"
  by (simp add: isolated_def)

lemma isolated_after:
  assumes m: "reads_only good row m" and f: "\<And>x. isolated good row row_ns uuids ns P (f x)"
  shows "isolated good row row_ns uuids ns P (andThen m f)"
  unfolding isolated_def wp_andThen
proof (intro allI impI, rule wp_reads[OF m])
  fix s x s' assume "good s'" "row s' = row s" "\<forall>u \<in> uuids. row s u = None" "P (row s)"
  then show "wp (f x) (iso_post good row row_ns ns (row s)) s'" using isolatedD[OF f, of s' x] by simp
qed

lemma isolated_answer:
  assumes m: "reads_only good row m" and p: "answers_plain m" and f: "\<And>x. isolated good row row_ns uuids ns P (f x)"
  shows "isolated good row row_ns uuids ns P (orAnswer m f)"
  unfolding isolated_def wp_orAnswer
proof (intro allI impI, rule wp_reads[OF m])
  fix s x s' assume s: "good s'" "row s' = row s" "\<forall>u \<in> uuids. row s u = None" "P (row s)" "m s = Some (x, s')"
  show "(case x of Inl resp \<Rightarrow> iso_post good row row_ns ns (row s) resp | Inr a \<Rightarrow> wp (f a) (iso_post good row row_ns ns (row s))) s'"
  proof (cases x)
    case (Inl resp)
    then have "plain_answer resp" using s p unfolding answers_plain_def by blast
    then show ?thesis using Inl s by (simp add: iso_post_def plain_answerD)
  next
    case (Inr a)
    then show ?thesis using s isolatedD[OF f, of s' a] by simp
  qed
qed

text \<open>A step that writes rows of the namespace only, and such an end.\<close>

lemma isolated_step:
  assumes "\<And>s x s1. good s \<Longrightarrow> \<forall>u \<in> uuids. row s u = None \<Longrightarrow> P (row s) \<Longrightarrow> m s = Some (x, s1) \<Longrightarrow>
    good s1 \<and> foreign_kept row_ns ns (row s) (row s1) \<and> Q (row s1) \<and> own_tail good row ns Q (f x)"
  shows "isolated good row row_ns uuids ns P (andThen m f)"
  unfolding isolated_def wp_andThen
proof (intro allI impI, rule wpI)
  fix s x s1 assume "good s" "\<forall>u \<in> uuids. row s u = None" "P (row s)" "m s = Some (x, s1)"
  from assms[OF this] show "wp (f x) (iso_post good row row_ns ns (row s)) s1"
    by (auto simp: iso_post_def shows_own_body dest!: own_tailD elim!: wp_mono)
qed

lemma isolated_write:
  assumes w: "writes_own good row row_ns ns k m"
    and f: "\<And>s x s1. good s \<Longrightarrow> belongs row_ns (row s) k ns \<Longrightarrow> m s = Some (x, s1) \<Longrightarrow>
      own_tail good row ns (\<lambda>rows. belongs row_ns rows k ns) (f x)"
  shows "isolated good row row_ns uuids ns (\<lambda>rows. belongs row_ns rows k ns) (andThen m f)"
proof (rule isolated_step[where Q = "\<lambda>rows. belongs row_ns rows k ns"])
  fix s x s1 assume s: "good s" "belongs row_ns (row s) k ns" "m s = Some (x, s1)"
  then have s1: "good s1" "\<And>j. j \<noteq> k \<Longrightarrow> row s1 j = row s j" "belongs row_ns (row s1) k ns"
    using w by (auto simp: writes_own_def wp_def)
  then have "foreign_kept row_ns ns (row s) (row s1)" using s foreign_kept_one by metis
  then show "good s1 \<and> foreign_kept row_ns ns (row s) (row s1) \<and> belongs row_ns (row s1) k ns \<and>
    own_tail good row ns (\<lambda>rows. belongs row_ns rows k ns) (f x)" using s1 f s by blast
qed

lemma orAnswer_andThen: "orAnswer (andThen m g) f = andThen m (\<lambda>x. orAnswer (g x) f)"
  by (simp add: orAnswer_def)

lemma andThen_orError:
  "andThen (orError m g) f = andThen m (\<lambda>x. case x of Inl er \<Rightarrow> f (Inl er) | Inr a \<Rightarrow> andThen (g a) f)"
  unfolding orError_def andThen_simps by (rule arg_cong[where f = "andThen m"]) (auto simp: fun_eq_iff split: sum.split)

end
