(* ===== verification/Api_Isolation_Handlers.thy ===== *)
theory Api_Isolation_Handlers
  imports Api_Isolation
begin

text \<open>
  Each handler, called for a principal that is bound to a namespace, is isolated: proved once from the promises of the
  store (the locale scoped_api), for every handler the router reaches.
\<close>

text \<open>The request carries a principal bound to the namespace.\<close>

definition namespaced :: "http_request \<Rightarrow> string \<Rightarrow> bool" where
  "namespaced r ns = (ns \<noteq> [] \<and> trim_space ns = ns \<and>
     (case AuthPrincipalFromContext r of None \<Rightarrow> False | Some p \<Rightarrow> p_NamespaceID p = ns))"

lemma namespacedD:
  assumes "namespaced r ns"
  shows "requestPrincipalNamespace r = ns" "ns \<noteq> []" "trim_space ns = ns" "\<exists>p. AuthPrincipalFromContext r = Some p \<and> p_NamespaceID p = ns"
    "scoped ns (applyPrincipalNamespaceToQuery r q)"
  using assms
  by (auto simp: namespaced_def requestPrincipalNamespace_def applyPrincipalNamespaceToQuery_def scoped_def Let_def
      split: option.splits)

lemma scoped_agent_id: "scoped ns (with_agent_id r q) = scoped ns q"
  by (simp add: scoped_def with_agent_id_def Let_def)

lemma scoped_limit [simp]: "scoped ns (q \<lparr> q_Limit := n \<rparr>) = scoped ns q" "scoped ns (q \<lparr> q_Offset := n \<rparr>) = scoped ns q"
  by (simp_all add: scoped_def)

section \<open>Shared steps\<close>

context scoped_api
begin

abbreviation own :: "string \<Rightarrow> string \<Rightarrow> (string \<Rightarrow> 'r option) \<Rightarrow> bool" where
  "own k ns rows \<equiv> belongs row_ns rows k ns"

lemma reads_countAll: "scoped_space sp good row row_ns uuids \<Longrightarrow> reads_only good row (countAllWithSpace sp i qo n)"
  unfolding countAllWithSpace_def
  by (auto intro!: reads_for_loop reads_then scoped_space.query simp: count_page_def)

lemma reads_countByQuery: "reads_only good row (countByQuery h i q)"
  unfolding countByQuery_def countAll_def
  by (auto split: option.split intro!: scoped_space.count[OF unbound] reads_countAll[OF unbound])

lemma reads_quota: "reads_only good row (allowNamespaceAgentCreation h i p n md k)"
  unfolding allowNamespaceAgentCreation_def active_quota_def queue_quota_def Let_def
  by (auto intro!: reads_orError reads_countByQuery split: option.split)

lemma reads_quotaCheck: "reads_only good row (quotaCheck h i p n md k)"
  unfolding quotaCheck_def by (auto intro!: reads_then reads_quota split: sum.split prod.split)

lemma answers_quotaCheck: "answers_plain (quotaCheck h i p n md k)"
  unfolding quotaCheck_def by (rule answers_then) (auto split: sum.split prod.split)

lemma reads_recordObs: "reads_only good row (recordObs e h i k tr n obs)"
  unfolding recordObs_def hd_telemetry_def Let_def
  by (auto intro!: reads_then scoped_space.record_spans[OF unbound] split: option.splits)

text \<open>The common start of the handlers that address one agent: what follows runs with the agent known to be its own.\<close>

lemma isolated_visible:
  assumes ns: "requestPrincipalNamespace r = ns" "ns \<noteq> []"
    and f: "\<And>t. effectiveAgentNamespace t = ns \<Longrightarrow> isolated good row row_ns uuids ns (own k ns) (f t)"
  shows "isolated good row row_ns uuids ns P (orAnswer (visibleAgent r (requestSpace h ctx) i k) f)"
  unfolding isolated_def wp_orAnswer visibleAgent_def wp_andThen
proof (intro allI impI, rule wp_reads[OF scoped_space.get[OF bound[of ctx]]])
  fix s x s' assume s: "good s" "\<forall>u \<in> uuids. row s u = None" and s': "good s'" "row s' = row s"
    and x: "sp_Get (requestSpace h ctx) i k s = Some (x, s')"
  show "wp (case x of Inl _ \<Rightarrow> ret (Inl (writeError 404 ''agent not found''))
      | Inr t \<Rightarrow> if \<not> agentVisibleToPrincipal r t then ret (Inl (writeError 404 ''agent not found'')) else ret (Inr t))
      (\<lambda>x. case x of Inl resp \<Rightarrow> iso_post good row row_ns ns (row s) resp | Inr a \<Rightarrow> wp (f a) (iso_post good row row_ns ns (row s))) s'"
  proof (cases "\<exists>t. x = Inr t \<and> agentVisibleToPrincipal r t")
    case True
    then obtain t where t: "x = Inr t" "agentVisibleToPrincipal r t" by blast
    then have "effectiveAgentNamespace t = ns" using ns
      by (auto simp: agentVisibleToPrincipal_def requestPrincipalNamespace_def split: option.splits)
    moreover have "belongs row_ns (row s) k (effectiveAgentNamespace t)"
      using scoped_space.get_ns[OF bound[of ctx]] s(1) x t by blast
    ultimately have "wp (f t) (iso_post good row row_ns ns (row s')) s'" using isolatedD[OF f, of t s'] s s' by simp
    then show ?thesis using t s' by simp
  next
    case False
    then show ?thesis using s s' by (auto simp: iso_post_def split: sum.split)
  qed
qed assumption

lemma own_tail_fetch:
  assumes t: "\<And>a. t = Some a \<Longrightarrow> effectiveAgentNamespace a = ns"
    and f: "\<And>a. effectiveAgentNamespace a = ns \<Longrightarrow> own_tail good row ns (own k ns) (f a)"
  shows "own_tail good row ns (own k ns) (orAnswer (orFetch (requestSpace h ctx) i k t) f)"
proof (cases t)
  case (Some a)
  then show ?thesis using t f by (simp add: orFetch_def)
next
  case None
  show ?thesis unfolding own_tail_def wp_orAnswer None orFetch_def option.case fetchAgain_def wp_andThen
  proof (intro allI impI, rule wp_reads[OF scoped_space.get[OF bound[of ctx]]])
    fix s x s' assume s: "good s" "own k ns (row s)" "good s'" "row s' = row s" "sp_Get (requestSpace h ctx) i k s = Some (x, s')"
    show "wp (case x of Inl _ \<Rightarrow> ret (Inl (writeError 404 ''agent not found'')) | Inr t \<Rightarrow> ret (Inr t))
      (\<lambda>x. case x of Inl resp \<Rightarrow> (\<lambda>s'. good s' \<and> row s' = row s \<and> shows_own ns resp)
        | Inr a \<Rightarrow> wp (f a) (\<lambda>resp s'. good s' \<and> row s' = row s \<and> shows_own ns resp)) s'"
    proof (cases x)
      case (Inl er)
      then show ?thesis using s by simp
    next
      case (Inr a)
      then have "own k (effectiveAgentNamespace a) (row s)" using scoped_space.get_ns[OF bound[of ctx]] s by blast
      then have "effectiveAgentNamespace a = ns" using s belongs_unique by metis
      then show ?thesis using own_tailD[OF f, of a s'] Inr s by simp
    qed
  qed assumption
qed

lemma own_tail_agent:
  "effectiveAgentNamespace t = ns \<Longrightarrow>
     own_tail good row ns P (andThen (recordObs e h i k tr n obs) (\<lambda>_. ret (writeJSON st (BAgent t))))"
  by (intro own_tail_after reads_recordObs own_tail_ret shows_own_agent)

section \<open>Handlers of one agent\<close>

lemma GetAgent_isolated:
  assumes "namespaced r ns"
  shows "isolated good row row_ns uuids ns P (GetAgent e h r)"
  unfolding GetAgent_def Let_def
  by (auto intro!: isolated_visible[OF namespacedD(1,2)[OF assms]] isolated_ret shows_own_agent)

lemma build_updates_keep:
  "effectiveAgentNamespace t = ns \<Longrightarrow> ns \<noteq> [] \<Longrightarrow> trim_space ns = ns \<Longrightarrow> build_updates t req = Inr u \<Longrightarrow> keeps_namespace ns u"
  by (auto simp: build_updates_def keeps_namespace_def Let_def split: option.splits if_splits)

lemma build_updates_plain: "build_updates t req = Inl resp \<Longrightarrow> shows_own ns resp"
  by (auto simp: build_updates_def Let_def split: option.splits if_splits)

lemma run_update_isolated:
  assumes u: "keeps_namespace ns u" and f: "\<And>a. effectiveAgentNamespace a = ns \<Longrightarrow> own_tail good row ns (own k ns) (f a)"
  shows "isolated good row row_ns uuids ns (own k ns) (orAnswer (run_update (requestSpace h ctx) k u) f)"
proof (cases "sp_UpdateAndGet (requestSpace h ctx)")
  case None
  note w = scoped_space.update[OF bound[of ctx] u]
  show ?thesis unfolding run_update_def None option.case orAnswer_andThen
    using own_tail_fetch[of None ns k f ctx] f
    by (intro isolated_write[OF w]) (auto split: sum.split intro!: own_tail_ret simp: orFetch_def)
next
  case (Some ug)
  note w = scoped_space.update_get[OF bound[of ctx] Some u]
  note g = scoped_space.update_get_ns[OF bound[of ctx] Some u]
  show ?thesis unfolding run_update_def Some option.case orAnswer_andThen
  proof (rule isolated_write[OF w])
    fix s x s1 assume s: "good s" "own k ns (row s)" "ug (1, 0) k u s = Some (x, s1)"
    show "own_tail good row ns (own k ns) (orAnswer (case x of Inl er \<Rightarrow> ret (Inl (writeError 500 ''failed to update agent''))
      | Inr t \<Rightarrow> orFetch (requestSpace h ctx) (2, 0) k t) f)"
    proof (cases x)
      case (Inr t)
      then have "t = Some a \<Longrightarrow> effectiveAgentNamespace a = ns" for a using g s by blast
      then show ?thesis using Inr f by (auto intro: own_tail_fetch)
    qed (simp add: own_tail_ret)
  qed
qed

lemma UpdateAgent_isolated:
  assumes "namespaced r ns"
  shows "isolated good row row_ns uuids ns P (UpdateAgent e h r)"
  unfolding UpdateAgent_def Let_def
  using namespacedD[OF assms] build_updates_keep build_updates_plain
  by (auto intro!: isolated_visible isolated_ret run_update_isolated own_tail_agent split: decoded.split sum.split)

section \<open>Handlers under a lease\<close>

lemmas isolated_visible_shard = isolated_visible[where ctx = "ContextWithShardID (r_Context r) sh" and r = r for r sh, folded shardSpace_def]

lemma own_tail_fetch_shard:
  "\<forall>a. t = Some a \<longrightarrow> effectiveAgentNamespace a = ns \<Longrightarrow>
     own_tail good row ns (own k ns) (orAnswer (orFetch (shardSpace h r sh) i k t) (\<lambda>t.
       andThen (recordObs e h j (a_ID t) (a_TraceID t) (a_NamespaceID t) obs) (\<lambda>_. ret (writeJSON st (BAgent t)))))"
  unfolding shardSpace_def by (rule own_tail_fetch) (blast, rule own_tail_agent)

lemma lease_headers_plain: "lease_headers r = Inl resp \<Longrightarrow> shows_own ns resp"
  by (auto simp: lease_headers_def Let_def split: if_splits)

lemma error_answers [simp]:
  "shows_own ns (complete_error er)" "shows_own ns (complete_and_out_error er)" "shows_own ns (release_error er)"
  "shows_own ns (renew_error er)" "shows_own ns (take_error er)" "shows_own ns (in_error er)"
  by (simp_all add: complete_error_def complete_and_out_error_def release_error_def renew_error_def take_error_def in_error_def Let_def)

lemma isolated_lease_headers:
  "(\<And>a b. isolated good row row_ns uuids ns P (f (a, b))) \<Longrightarrow>
     isolated good row row_ns uuids ns P (case lease_headers r of Inl resp \<Rightarrow> ret resp | Inr x \<Rightarrow> f x)"
  by (auto split: sum.split intro: isolated_ret dest: lease_headers_plain)

lemma completion_target_scoped:
  "namespaced r ns \<Longrightarrow> orAnswer (completion_target r sp k) f = orAnswer (visibleAgent r sp (0, 0) k) (\<lambda>t. f (Some t))"
  using namespacedD(1,2)[of r ns]
  by (auto simp: completion_target_def orAnswer_def fun_eq_iff andThen_def ret_def split: Option.bind_splits sum.splits)

text \<open>Completion, by Complete or by CompleteAndGet, then what does not write.\<close>

lemma run_complete_isolated:
  assumes er: "\<And>er. own_tail good row ns (own k ns) (f (Inl er))"
    and ok: "\<And>t. (\<And>a. t = Some a \<Longrightarrow> effectiveAgentNamespace a = ns) \<Longrightarrow> own_tail good row ns (own k ns) (f (Inr t))"
  shows "isolated good row row_ns uuids ns (own k ns) (andThen (run_complete (shardSpace h r sh) pm k ag tok res) f)"
proof -
  let ?sp = "shardSpace h r sh"
  have sp: "scoped_space ?sp good row row_ns uuids" unfolding shardSpace_def by (rule bound)
  have plain: "isolated good row row_ns uuids ns (own k ns) (andThen (orError (sp_Complete ?sp (1, 0) k ag tok res) (\<lambda>_. ret (Inr None))) f)"
    unfolding andThen_orError using er ok
    by (intro isolated_write[OF writes_one_own[OF scoped_space.complete[OF sp]]]) (auto split: sum.split)
  show ?thesis
  proof (cases "sp_CompleteAndGet ?sp = None \<or> pm")
    case True
    then show ?thesis using plain by (auto simp: run_complete_def split: option.split)
  next
    case False
    then obtain cg where cg: "sp_CompleteAndGet ?sp = Some cg" and pm: "\<not> pm" by auto
    have "isolated good row row_ns uuids ns (own k ns) (andThen (cg (1, 0) k ag tok res) f)"
    proof (rule isolated_write[OF writes_one_own[OF scoped_space.complete_get[OF sp cg]]])
      fix s x s1 assume s: "good s" "own k ns (row s)" "cg (1, 0) k ag tok res s = Some (x, s1)"
      show "own_tail good row ns (own k ns) (f x)"
      proof (cases x)
        case (Inr t)
        have "effectiveAgentNamespace a = ns" if "t = Some a" for a
          using scoped_space.complete_get_ns[OF sp cg] s Inr that belongs_unique by blast
        then show ?thesis using ok Inr by blast
      qed (simp add: er)
    qed
    then show ?thesis using cg pm by (simp add: run_complete_def)
  qed
qed

lemma CompleteAgent_isolated:
  assumes r: "namespaced r ns"
  shows "isolated good row row_ns uuids ns P (CompleteAgent e h r)"
  unfolding CompleteAgent_def Let_def completion_target_scoped[OF r]
  by (auto intro!: isolated_visible_shard[OF namespacedD(1,2)[OF r]] isolated_ret isolated_lease_headers
      run_complete_isolated own_tail_ret own_tail_after reads_recordObs own_tail_agent own_tail_fetch_shard
      split: decoded.split)

lemma run_release_isolated:
  assumes er: "\<And>er. own_tail good row ns (own k ns) (f (Inl er))"
    and ok: "\<And>t. (\<And>a. t = Some a \<Longrightarrow> effectiveAgentNamespace a = ns) \<Longrightarrow> own_tail good row ns (own k ns) (f (Inr t))"
  shows "isolated good row row_ns uuids ns (own k ns) (andThen (run_release (shardSpace h r sh) k ag tok rsn) f)"
proof -
  let ?sp = "shardSpace h r sh"
  have sp: "scoped_space ?sp good row row_ns uuids" unfolding shardSpace_def by (rule bound)
  show ?thesis
  proof (cases "sp_ReleaseAndGet ?sp")
    case None
    then show ?thesis unfolding run_release_def None option.case andThen_orError using er ok
      by (intro isolated_write[OF writes_one_own[OF scoped_space.release[OF sp]]]) (auto split: sum.split)
  next
    case (Some rg)
    show ?thesis unfolding run_release_def Some option.case
    proof (rule isolated_write[OF writes_one_own[OF scoped_space.release_get[OF sp Some]]])
      fix s x s1 assume s: "good s" "own k ns (row s)" "rg (1, 0) k ag tok rsn s = Some (x, s1)"
      show "own_tail good row ns (own k ns) (f x)"
      proof (cases x)
        case (Inr t)
        have "effectiveAgentNamespace a = ns" if "t = Some a" for a
          using scoped_space.release_get_ns[OF sp Some] s Inr that belongs_unique by blast
        then show ?thesis using ok Inr by blast
      qed (simp add: er)
    qed
  qed
qed

lemma ReleaseAgent_isolated:
  assumes r: "namespaced r ns"
  shows "isolated good row row_ns uuids ns P (ReleaseAgent e h r)"
  unfolding ReleaseAgent_def Let_def
  by (auto intro!: isolated_visible_shard[OF namespacedD(1,2)[OF r]] isolated_ret isolated_lease_headers
      run_release_isolated own_tail_ret own_tail_agent own_tail_fetch_shard)

lemma RenewLease_own_tail:
  assumes "good s" "own k ns (row s)" "sp_RenewLease (shardSpace h r sh) i k ag tok d s = Some (x, s1)"
  shows "own_tail good row ns (own k ns) (case x of Inl er \<Rightarrow> ret (renew_error er) | Inr t \<Rightarrow> ret (writeJSON 200 (BAgent t)))"
proof (cases x)
  case (Inr t)
  have "own k (effectiveAgentNamespace t) (row s)"
    using scoped_space.renew_ns[OF bound] assms Inr unfolding shardSpace_def by blast
  then show ?thesis using belongs_unique[OF _ assms(2)] Inr by (simp add: own_tail_ret shows_own_agent)
qed (simp add: own_tail_ret)

lemma RenewLeaseAgent_isolated:
  assumes r: "namespaced r ns"
  shows "isolated good row row_ns uuids ns P (RenewLeaseAgent e h r)"
proof -
  have w: "writes_own good row row_ns n k (sp_RenewLease (shardSpace h r sh) i k ag tok d)" for n k sh i ag tok d
    unfolding shardSpace_def by (rule writes_one_own) (rule scoped_space.renew[OF bound])
  have b: "shows_own ns resp" if "renew_body e r = Inl resp" for resp
    using that by (auto simp: renew_body_def Let_def split: if_splits decoded.splits)
  have "isolated good row row_ns uuids ns P (case renew_body e r of Inl resp \<Rightarrow> ret resp | Inr req \<Rightarrow>
     orAnswer (visibleAgent r (shardSpace h r (rn_ShardID req)) (0, 0) (path_id r ''/renew'')) (\<lambda>current.
       andThen (sp_RenewLease (shardSpace h r (rn_ShardID req)) (1, 0) (path_id r ''/renew'') a t (seconds (rn_LeaseSec req)))
         (\<lambda>x. case x of Inl er \<Rightarrow> ret (renew_error er) | Inr t \<Rightarrow> ret (writeJSON 200 (BAgent t)))))" for a t
    using b by (auto intro!: isolated_visible_shard[OF namespacedD(1,2)[OF r]] isolated_write[OF w] RenewLease_own_tail
        intro: isolated_ret split: sum.split)
  then show ?thesis unfolding RenewLeaseAgent_def Let_def by (auto intro!: isolated_lease_headers intro: isolated_ret)
qed

section \<open>CompleteAndOut\<close>

lemma reads_queue_checks: "reads_only good row (queue_checks h i prin n qs)"
  by (induction qs arbitrary: i) (auto intro!: reads_then reads_quotaCheck split: sum.split)

lemma answers_queue_checks: "answers_plain (queue_checks h i prin n qs)"
  by (induction qs arbitrary: i) (auto intro!: answers_pass answers_quotaCheck)

lemma output_quotas_checks:
  "reads_only good row (output_quotas h r n outs)" "answers_plain (output_quotas h r n outs)"
  unfolding output_quotas_def
  by (auto intro!: reads_then reads_quotaCheck reads_queue_checks answers_pass answers_quotaCheck answers_queue_checks
      split: option.split) (auto intro: reads_queue_checks split: sum.split)

lemma reads_record_outputs: "reads_only good row (record_outputs e h k outs ts)"
proof (induction outs arbitrary: k ts)
  case (Cons out outs)
  then show ?case by (cases ts) (auto intro!: reads_then reads_recordObs)
qed simp

lemma build_outputs_own: "build_outputs ns outs = Inr ts \<Longrightarrow> list_all (\<lambda>t. a_ID t = [] \<and> a_NamespaceID t = ns) ts"
  by (induction outs arbitrary: ts) (auto simp: Let_def bindr_def empty_agent_def split: if_splits sum.splits)

lemma build_outputs_plain: "build_outputs ns outs = Inl resp \<Longrightarrow> shows_own ns' resp"
  by (induction outs arbitrary: resp) (auto simp: Let_def bindr_def split: if_splits sum.splits)

lemma complete_out_isolated:
  assumes ns: "ns \<noteq> []" "trim_space ns = ns" and o: "list_all (\<lambda>t. a_ID t = [] \<and> a_NamespaceID t = ns) ts"
    and er: "\<And>er. shows_own ns (g er)"
    and ok: "\<And>t ts. effectiveAgentNamespace t = ns \<Longrightarrow> \<forall>t \<in> set ts. effectiveAgentNamespace t = ns \<Longrightarrow> own_tail good row ns (\<lambda>_. True) (f t ts)"
  shows "isolated good row row_ns uuids ns (own k ns) (andThen (sp_CompleteAndOut (shardSpace h r sh) i k ag tok res ts)
    (\<lambda>x. case x of Inl er \<Rightarrow> ret (g er) | Inr (t, ts) \<Rightarrow> f t ts))"
proof (rule isolated_step[where Q = "\<lambda>_. True"])
  fix s x s1 assume s: "good s" "\<forall>u \<in> uuids. row s u = None" "own k ns (row s)"
    and x: "sp_CompleteAndOut (shardSpace h r sh) i k ag tok res ts s = Some (x, s1)"
  have law: "good s1" "\<And>j. j \<noteq> k \<Longrightarrow> j \<notin> uuids \<Longrightarrow> row s1 j = row s j"
    "\<And>t ts. x = Inr (t, ts) \<Longrightarrow> own k (effectiveAgentNamespace t) (row s) \<and> (\<forall>t' \<in> set ts. effectiveAgentNamespace t' = ns)"
    using scoped_space.complete_out[OF bound s(1) o ns x[unfolded shardSpace_def]] by blast+
  have "foreign_kept row_ns ns (row s) (row s1)"
    unfolding foreign_kept_def using law(2) s(2,3) belongs_def by (metis option.distinct(1) option.inject)
  moreover have "own_tail good row ns (\<lambda>_. True) (case x of Inl er \<Rightarrow> ret (g er) | Inr (t, ts) \<Rightarrow> f t ts)"
    using law(3) belongs_unique[OF s(3)] er ok by (auto simp: own_tail_ret split: sum.split prod.split)
  ultimately show "good s1 \<and> foreign_kept row_ns ns (row s) (row s1) \<and> True \<and>
    own_tail good row ns (\<lambda>_. True) (case x of Inl er \<Rightarrow> ret (g er) | Inr (t, ts) \<Rightarrow> f t ts)" using law(1) by blast
qed

lemma CompleteAndOutAgent_isolated:
  assumes r: "namespaced r ns"
  shows "isolated good row row_ns uuids ns P (CompleteAndOutAgent e h r)"
proof -
  let ?tail = "\<lambda>req a b outputs. andThen (sp_CompleteAndOut (shardSpace h r (ca_ShardID req)) (1, 0) (path_id r ''/complete-and-out'') a b (ca_Result req) outputs)
    (\<lambda>x. case x of Inl er \<Rightarrow> ret (complete_and_out_error er) | Inr (completed, created) \<Rightarrow>
      andThen (recordObs e h (3, 0) (a_ID completed) (a_TraceID completed) (a_NamespaceID completed) (ca_Obs req)) (\<lambda>_.
      andThen (record_outputs e h 0 (ca_Outputs req) created) (\<lambda>_. ret (writeJSON 200 (BCompleted completed created)))))"
  have "isolated good row row_ns uuids ns (own (path_id r ''/complete-and-out'') ns)
    (case build_outputs ns (ca_Outputs req) of Inl resp \<Rightarrow> ret resp | Inr outputs \<Rightarrow> ?tail req a b outputs)" for req a b
    using namespacedD[OF r] build_outputs_own build_outputs_plain
    by (auto intro!: complete_out_isolated own_tail_after reads_recordObs reads_record_outputs own_tail_ret shows_own_completed
        intro: isolated_ret split: sum.split)
  then have "isolated good row row_ns uuids ns (own (path_id r ''/complete-and-out'') ns)
    (orAnswer (output_quotas h r ns (ca_Outputs req)) (\<lambda>_. case lease_headers r of Inl resp \<Rightarrow> ret resp | Inr (a, b) \<Rightarrow>
      (case build_outputs ns (ca_Outputs req) of Inl resp \<Rightarrow> ret resp | Inr outputs \<Rightarrow> ?tail req a b outputs)))" for req
    by (intro isolated_answer output_quotas_checks isolated_lease_headers) simp
  then show ?thesis unfolding CompleteAndOutAgent_def Let_def
    by (auto intro!: isolated_visible_shard[OF namespacedD(1,2)[OF r]] intro: isolated_ret split: decoded.split)
qed

section \<open>Creation\<close>

lemma new_agent_fields [simp]: "a_ID (new_agent e req n) = ae_uuid e 0" "a_NamespaceID (new_agent e req n) = n"
  by (simp_all add: new_agent_def empty_agent_def Let_def)

lemma store_new_agent_isolated:
  assumes ns: "ns \<noteq> []" "trim_space ns = ns" and u: "ae_uuid e 0 \<in> uuids" "ae_uuid e 0 \<noteq> []"
  shows "isolated good row row_ns uuids ns P (store_new_agent e h r req ns)"
  unfolding store_new_agent_def
proof (rule isolated_step[where Q = "\<lambda>_. True"])
  fix s x s1 assume s: "good s" "\<forall>u \<in> uuids. row s u = None"
    and x: "sp_Out (requestSpace h (r_Context r)) (3, 0) (new_agent e req ns) s = Some (x, s1)"
  let ?tail = "\<lambda>x. case x of Inl er \<Rightarrow> ret (if isTransientError er then writeError 503 ''service temporarily unavailable''
      else writeError 500 ''failed to create agent'')
    | Inr t \<Rightarrow> andThen (recordObs e h (4, 0) (a_ID t) (a_TraceID t) (a_NamespaceID t) (cr_Obs req)) (\<lambda>_. ret (writeJSON 201 (BAgent t)))"
  have law: "good s1" "\<And>j. j \<noteq> ae_uuid e 0 \<Longrightarrow> row s1 j = row s j" "\<And>t. x = Inr t \<Longrightarrow> effectiveAgentNamespace t = ns"
    using scoped_space.out[OF bound s(1) _ x] u ns by auto
  have "foreign_kept row_ns ns (row s) (row s1)" by (rule foreign_kept_new[of _ "ae_uuid e 0"]) (use s u law in auto)
  moreover have "own_tail good row ns (\<lambda>_. True) (?tail x)" using law(3) by (auto intro!: own_tail_agent own_tail_ret split: sum.split)
  ultimately show "good s1 \<and> foreign_kept row_ns ns (row s) (row s1) \<and> True \<and> own_tail good row ns (\<lambda>_. True) (?tail x)"
    using law(1) by blast
qed

lemma CreateAgent_isolated:
  assumes r: "namespaced r ns" and u: "ae_uuid e 0 \<in> uuids" "ae_uuid e 0 \<noteq> []"
  shows "isolated good row row_ns uuids ns P (CreateAgent e h r)"
proof -
  obtain p where p: "AuthPrincipalFromContext r = Some p" "p_NamespaceID p = ns" "ns \<noteq> []" "trim_space ns = ns"
    using namespacedD[OF r] by blast
  show ?thesis unfolding CreateAgent_def Let_def using p u
    by (auto intro!: isolated_answer reads_quotaCheck answers_quotaCheck store_new_agent_isolated
        intro: isolated_ret split: decoded.split)
qed

section \<open>Queries and claims\<close>

lemma isolated_reading:
  assumes m: "reads_only good row m" and f: "\<And>s x s1. good s \<Longrightarrow> m s = Some (x, s1) \<Longrightarrow> own_tail good row ns (\<lambda>_. True) (f x)"
  shows "isolated good row row_ns uuids ns P (andThen m f)"
  by (rule isolated_step[where Q = "\<lambda>_. True"]) (use reads_onlyD[OF m] f in auto)

lemma QueryAgents_isolated:
  assumes r: "namespaced r ns"
  shows "isolated good row row_ns uuids ns P (QueryAgents e h r)"
proof -
  have "isolated good row row_ns uuids ns P (andThen (sp_Query (requestSpace h (r_Context r)) (0, 0) q) (\<lambda>x. case x of
     Inl er \<Rightarrow> ret (writeError 500 ''failed to query agents'')
   | Inr agents \<Rightarrow> andThen (countByQuery h 1 q') (\<lambda>y. case y of
       Inl er \<Rightarrow> ret (writeError 500 ''failed to count agents'') | Inr n \<Rightarrow> ret (writeJSON 200 (BQuery agents n)))))"
    if "scoped ns q" for q q'
    using scoped_space.query_ns[OF bound _ that]
    by (intro isolated_reading scoped_space.query[OF bound])
      (auto intro!: own_tail_ret own_tail_after reads_countByQuery split: sum.split)
  then show ?thesis unfolding QueryAgents_def Let_def using namespacedD(5)[OF r]
    by (auto simp del: One_nat_def intro: isolated_ret split: decoded.split)
qed

lemma ReadAgent_isolated:
  assumes r: "namespaced r ns"
  shows "isolated good row row_ns uuids ns P (ReadAgent e h r)"
proof -
  let ?sp = "requestSpace h (r_Context r)"
  have "isolated good row row_ns uuids ns P (andThen (sp_Query ?sp (0, 0) q) (\<lambda>x. case x of
     Inl er \<Rightarrow> ret (writeError 500 ''failed to read agent'') | Inr [] \<Rightarrow> ret (respond 204 BNone)
   | Inr (t # _) \<Rightarrow> ret (writeJSON 200 (BAgent t))))" if "scoped ns q" for q
    using scoped_space.query_ns[OF bound _ that]
    by (intro isolated_reading scoped_space.query[OF bound])
      (auto intro!: own_tail_ret shows_own_agent split: sum.split list.split)
  moreover have "isolated good row row_ns uuids ns P (andThen (sp_Read ?sp (0, 0) q d) (\<lambda>x. case x of
     Inl er \<Rightarrow> ret (if er_Text er = timeout_text then writeError 408 ''request timeout'' else writeError 500 ''failed to read agent'')
   | Inr None \<Rightarrow> ret (respond 204 BNone) | Inr (Some t) \<Rightarrow> ret (writeJSON 200 (BAgent t))))" if "scoped ns q" for q d
    using scoped_space.read_ns[OF bound _ that]
    by (intro isolated_reading scoped_space.read[OF bound])
      (auto intro!: own_tail_ret shows_own_agent split: sum.split option.split)
  ultimately show ?thesis unfolding ReadAgent_def Let_def using namespacedD(5)[OF r]
    by (auto intro: isolated_ret split: decoded.split)
qed

lemma isolated_claiming:
  assumes "\<And>s x s1. good s \<Longrightarrow> m s = Some (x, s1) \<Longrightarrow> good s1 \<and> foreign_kept row_ns ns (row s) (row s1) \<and> R x"
    and "\<And>x. R x \<Longrightarrow> own_tail good row ns (\<lambda>_. True) (f x)"
  shows "isolated good row row_ns uuids ns P (andThen m f)"
  by (rule isolated_step[where Q = "\<lambda>_. True"]) (use assms in blast)

lemma claim_query: "namespaced r ns \<Longrightarrow> scoped ns (with_agent_id r (applyPrincipalNamespaceToQuery r q))"
  by (simp add: scoped_agent_id namespacedD)

lemma TakeAgent_isolated:
  assumes r: "namespaced r ns"
  shows "isolated good row row_ns uuids ns P (TakeAgent e h r)"
  unfolding TakeAgent_def Let_def
  by (auto intro!: isolated_claiming[OF scoped_space.take[OF bound _ claim_query[OF r]]] own_tail_ret own_tail_after
      reads_recordObs shows_own_agent intro: isolated_ret split: decoded.split sum.split option.split)

lemma InAgent_isolated:
  assumes r: "namespaced r ns"
  shows "isolated good row row_ns uuids ns P (InAgent e h r)"
  unfolding InAgent_def Let_def
  by (auto intro!: isolated_claiming[OF scoped_space.inn[OF bound _ claim_query[OF r]]] own_tail_ret own_tail_agent
      intro: isolated_ret split: decoded.split sum.split)

lemma BatchTakeAgent_isolated:
  assumes r: "namespaced r ns"
  shows "isolated good row row_ns uuids ns P (BatchTakeAgent e h r)"
proof (cases "sp_BatchTake (requestSpace h (r_Context r))")
  case (Some bt)
  then show ?thesis unfolding BatchTakeAgent_def Let_def
    by (auto intro!: isolated_claiming[OF scoped_space.batch[OF bound Some _ claim_query[OF r]]] own_tail_ret
      intro: isolated_ret split: decoded.split sum.split list.split)
qed (auto simp: BatchTakeAgent_def Let_def intro: isolated_ret split: decoded.split)

section \<open>Statistics\<close>

lemma stats_loop_checks:
  assumes sp: "scoped_space sp good row row_ns uuids"
  shows "reads_only good row (stats_loop sp q i sts cs)" "answers_plain (stats_loop sp q i sts cs)"
proof (induction sts arbitrary: i cs)
  case (Cons st sts)
  case 1
  show ?case using Cons(1)
    by (auto intro!: reads_then scoped_space.count[OF sp] reads_countAll[OF sp] split: option.split sum.split)
  case 2
  show ?case using Cons(2) by (auto intro!: answers_then split: sum.split)
qed simp_all

lemma AgentStats_isolated: "isolated good row row_ns uuids ns P (AgentStats e h r)"
proof -
  have "isolated good row row_ns uuids ns P (case sp_CountByStatus (requestSpace h (r_Context r)) of
      Some countByStatus \<Rightarrow> andThen (countByStatus (0, 0) q') (\<lambda>x. case x of
        Inl er \<Rightarrow> ret (writeError 500 ''failed to compute stats'')
      | Inr grouped \<Rightarrow> ret (writeJSON 200 (BCounts (g grouped) (sum_list (map snd (g grouped))))))
    | None \<Rightarrow> orAnswer (stats_loop (requestSpace h (r_Context r)) q 0 sts [])
        (\<lambda>counts. ret (writeJSON 200 (BCounts counts (sum_list (map snd counts))))))" for q q' sts g
    by (auto intro!: isolated_after scoped_space.count_status[OF bound] isolated_ret isolated_answer stats_loop_checks[OF bound]
      split: option.split sum.split)
  then show ?thesis unfolding AgentStats_def Let_def by (auto intro: isolated_ret split: decoded.split)
qed

lemma HealthCheck_isolated: "isolated good row row_ns uuids ns P (HealthCheck e h r)"
  unfolding HealthCheck_def
  by (auto intro!: isolated_after scoped_space.health[OF unbound] isolated_ret split: option.split sum.split)

lemma isolated_orFail:
  "reads_only good row m \<Longrightarrow> (\<And>x. isolated good row row_ns uuids ns P (f x)) \<Longrightarrow> isolated good row row_ns uuids ns P (orFail m msg f)"
  unfolding orFail_def by (auto intro!: isolated_after isolated_ret split: sum.split)

lemma isolated_admin:
  "isolated good row row_ns uuids ns P m \<Longrightarrow>
     isolated good row row_ns uuids ns P (case requireAdmin r of Some resp \<Rightarrow> ret resp | None \<Rightarrow> m)"
  by (auto simp: requireAdmin_def intro: isolated_ret split: option.splits)

lemma reads_stats:
  "reads_only good row (countAgentsFast h)" "reads_only good row (countEventsFast h)" "reads_only good row (countActiveAgentsFast h)"
proof -
  show "reads_only good row (countAgentsFast h)" unfolding countAgentsFast_def countAll_def
    by (auto intro!: scoped_space.count[OF unbound] reads_countAll[OF unbound] split: option.split)
  show "reads_only good row (countEventsFast h)" unfolding countEventsFast_def
    by (auto intro!: reads_orError scoped_space.query_events[OF unbound] reads_for_loop reads_then scoped_space.global_events[OF unbound]
        simp: event_page_round_def split: option.split)
  show "reads_only good row (countActiveAgentsFast h)" unfolding countActiveAgentsFast_def Let_def
    by (auto intro!: reads_orError scoped_space.count_status[OF unbound] reads_for_loop reads_then scoped_space.query[OF unbound]
        simp: owner_page_def split: option.split)
qed

lemma GetStats_isolated: "isolated good row row_ns uuids ns P (GetStats e h r)"
  unfolding GetStats_def by (intro isolated_admin isolated_orFail reads_stats isolated_ret shows_own_answers)

lemma shard_views_isolated:
  "isolated good row row_ns uuids ns P (GetShardMap e h r)" "isolated good row row_ns uuids ns P (GetShardHealth e h r)"
  "isolated good row row_ns uuids ns P (GetShardQueueStats e h r)"
proof -
  show "isolated good row row_ns uuids ns P (GetShardMap e h r)" unfolding GetShardMap_def no_shards_def
    by (rule isolated_admin) (auto intro!: isolated_orFail isolated_ret scoped_space.shard_map[OF unbound] split: option.split)
  show "isolated good row row_ns uuids ns P (GetShardHealth e h r)" unfolding GetShardHealth_def no_shards_def
    by (rule isolated_admin) (auto intro!: isolated_orFail isolated_ret scoped_space.shard_health[OF unbound] split: option.split)
  show "isolated good row row_ns uuids ns P (GetShardQueueStats e h r)" unfolding GetShardQueueStats_def no_shards_def Let_def
    by (rule isolated_admin) (auto intro!: isolated_orFail isolated_ret scoped_space.shard_stats[OF unbound] split: option.split)
qed

lemma reads_countByStatus_loop: "reads_only good row (countByStatus_loop (hd_space h) n i sts cs tr)"
  by (induction sts arbitrary: i cs tr) (auto intro!: reads_then scoped_space.query[OF unbound] split: sum.split)

lemma DebugInvariants_isolated: "isolated good row row_ns uuids ns P (DebugInvariants e h r)"
  unfolding DebugInvariants_def
  by (auto intro!: isolated_ret isolated_orFail scoped_space.invariants[OF unbound] isolated_after reads_countByStatus_loop
      split: option.split)

lemma GetDAG_isolated:
  assumes r: "namespaced r ns"
  shows "isolated good row row_ns uuids ns P (GetDAG e h r)"
  unfolding GetDAG_def Let_def
  by (auto intro!: isolated_visible[OF namespacedD(1,2)[OF r]] isolated_after scoped_space.dag[OF bound] isolated_ret split: sum.split)

section \<open>Events\<close>

text \<open>The cache of scope_events says yes only of agents of the namespace.\<close>

lemma scope_events_own:
  assumes sp: "scoped_space sp good row row_ns uuids"
  shows "good s \<Longrightarrow> row s = rows \<Longrightarrow> (\<And>k. map_of cache k = Some True \<Longrightarrow> belongs row_ns rows k ns) \<Longrightarrow>
    wp (scope_events sp ns i cache evs) (\<lambda>out s'. good s' \<and> row s' = rows \<and>
      (\<forall>ev \<in> set out. belongs row_ns rows (trim_space (e_TupleID ev)) ns)) s"
proof (induction evs arbitrary: i cache s)
  case (Cons ev evs)
  let ?t = "trim_space (e_TupleID ev)"
  note ih = Cons.IH
  show ?case
  proof (cases "?t = []")
    case True
    then show ?thesis using ih Cons.prems by simp
  next
    case t: False
    show ?thesis
    proof (cases "map_of cache ?t")
      case (Some v)
      show ?thesis using t Some Cons.prems ih[of s cache "Suc i"] by (auto elim!: wp_mono split: if_splits)
    next
      case None
      have "wp (scope_events sp ns (Suc i) ((?t, v) # cache) evs) (\<lambda>x s'. good s' \<and> row s' = rows \<and>
          (\<forall>e' \<in> set (if v then ev # x else x). belongs row_ns rows (trim_space (e_TupleID e')) ns)) s'"
        if x: "sp_Get sp (20, i) ?t s = Some (x, s')" and s': "good s'" "row s' = row s"
          and v: "v = (case x of Inl _ \<Rightarrow> False | Inr t \<Rightarrow> effectiveAgentNamespace t = ns)" for x s' v
      proof -
        have b: "v \<Longrightarrow> belongs row_ns rows ?t ns"
          using scoped_space.get_ns[OF sp Cons.prems(1)] x v Cons.prems(2) by (cases x) auto
        have "wp (scope_events sp ns (Suc i) ((?t, v) # cache) evs) (\<lambda>out s'. good s' \<and> row s' = rows \<and>
          (\<forall>ev \<in> set out. belongs row_ns rows (trim_space (e_TupleID ev)) ns)) s'"
          using s' Cons.prems b by (intro ih) (auto split: if_splits)
        then show ?thesis by (rule wp_mono) (use b in auto)
      qed
      then show ?thesis using t None
        by (auto simp: Let_def intro!: wp_reads[OF scoped_space.get[OF sp] Cons.prems(1)])
    qed
  qed
qed simp

text \<open>A step that reads events, its events then scoped and a part of them shown.\<close>

lemma isolated_events:
  assumes r: "namespaced r ns" and f: "\<And>evs. \<exists>n c shown. set shown \<subseteq> set evs \<and> f evs = ret (writeJSON 200 (BEvents shown n c)) \<or>
      f evs = ret (respond 0 BAborted)"
  shows "isolated good row row_ns uuids ns P (andThen (filterEventsForPrincipalWithSpace r (requestSpace h ctx) evs) f)"
  unfolding isolated_def wp_andThen filterEventsForPrincipalWithSpace_def Let_def namespacedD(1)[OF r] if_not_P[OF namespacedD(2)[OF r]]
proof (intro allI impI)
  fix s assume s: "good s"
  have "wp (scope_events (requestSpace h ctx) ns 0 [] evs) (\<lambda>out s'. good s' \<and> row s' = row s \<and>
      (\<forall>ev \<in> set out. belongs row_ns (row s) (trim_space (e_TupleID ev)) ns)) s"
    by (rule scope_events_own[OF bound s]) auto
  then show "wp (scope_events (requestSpace h ctx) ns 0 [] evs) (\<lambda>x. wp (f x) (iso_post good row row_ns ns (row s))) s"
  proof (rule wp_mono)
    fix x :: "event list" and s' assume x: "good s' \<and> row s' = row s \<and> (\<forall>ev \<in> set x. belongs row_ns (row s) (trim_space (e_TupleID ev)) ns)"
    obtain n c shown where "set shown \<subseteq> set x \<and> f x = ret (writeJSON 200 (BEvents shown n c)) \<or> f x = ret (respond 0 BAborted)"
      using f by blast
    then show "wp (f x) (iso_post good row row_ns ns (row s)) s'" using x by (auto simp: iso_post_def writeJSON_def subset_iff)
  qed
qed

lemma isolated_events_all:
  assumes r: "namespaced r ns"
  shows "isolated good row row_ns uuids ns P (andThen (filterEventsForPrincipalWithSpace r (requestSpace h ctx) evs)
    (\<lambda>shown. ret (writeJSON 200 (BEvents shown (n shown) c))))"
  by (rule isolated_events[OF r]) blast

lemma agent_events_isolated:
  assumes r: "namespaced r ns"
  shows "isolated good row row_ns uuids ns P (agent_events r (requestSpace h ctx) k ag ty tr lim off)"
proof -
  have "isolated good row row_ns uuids ns P (andThen (filterEventsForPrincipalWithSpace r (requestSpace h ctx) evs) (\<lambda>scoped.
      case event_slice off lim (filter (event_wanted ag ty tr) scoped) of None \<Rightarrow> ret (respond 0 BAborted)
      | Some page \<Rightarrow> ret (writeJSON 200 (BEvents page (int (length (filter (event_wanted ag ty tr) scoped))) []))))" for evs
  proof (rule isolated_events[OF r])
    fix evs
    have "set page \<subseteq> set evs" if "event_slice off lim (filter (event_wanted ag ty tr) evs) = Some page" for page
      using that by (auto simp: event_slice_def Let_def split: if_splits dest!: in_set_takeD in_set_dropD)
    then show "\<exists>n c shown. set shown \<subseteq> set evs \<and> (case event_slice off lim (filter (event_wanted ag ty tr) evs) of None \<Rightarrow> ret (respond 0 BAborted)
      | Some page \<Rightarrow> ret (writeJSON 200 (BEvents page (int (length (filter (event_wanted ag ty tr) evs))) []))) = ret (writeJSON 200 (BEvents shown n c)) \<or>
      (case event_slice off lim (filter (event_wanted ag ty tr) evs) of None \<Rightarrow> ret (respond 0 BAborted)
      | Some page \<Rightarrow> ret (writeJSON 200 (BEvents page (int (length (filter (event_wanted ag ty tr) evs))) []))) = ret (respond 0 BAborted)"
      by (cases "event_slice off lim (filter (event_wanted ag ty tr) evs)") auto
  qed
  then show ?thesis unfolding agent_events_def Let_def
    by (auto intro!: isolated_after scoped_space.events[OF bound] isolated_ret split: sum.split)
qed

lemma global_events_isolated:
  assumes r: "namespaced r ns"
  shows "isolated good row row_ns uuids ns P (global_events r (requestSpace h ctx) ag ty tr lim off)"
proof -
  have "reads_only good row (filterGlobalEvents (requestSpace h ctx) lim off ag ty tr)"
    unfolding filterGlobalEvents_def Let_def
    by (auto intro!: reads_for_loop reads_then scoped_space.global_events[OF bound] simp: global_page_def)
  then show ?thesis unfolding global_events_def
    by (auto intro!: isolated_after reads_orError isolated_events_all[OF r] scoped_space.global_events[OF bound] isolated_ret
        split: sum.split prod.split)
qed

lemma GetEvents_isolated:
  assumes r: "namespaced r ns"
  shows "isolated good row row_ns uuids ns P (GetEvents e h r)"
proof -
  let ?sp = "requestSpace h (r_Context r)"
  have "answers_plain (visibleAgent r ?sp i k)" for i k
    unfolding visibleAgent_def by (rule answers_then) (auto split: sum.split)
  then have v: "answers_plain (events_agent_visible r ?sp k)" for k
    unfolding events_agent_visible_def by (simp add: answers_map)
  have w: "reads_only good row (events_agent_visible r ?sp k)" for k
    unfolding events_agent_visible_def visibleAgent_def by (auto intro!: reads_then scoped_space.get[OF bound] split: sum.split)
  have "isolated good row row_ns uuids ns P (query_events_page r ?sp qe q)" if "sp_QueryEvents ?sp = Some qe" for qe q
    unfolding query_events_page_def using that
    by (auto intro!: isolated_after scoped_space.query_events[OF bound] isolated_events_all[OF r] isolated_ret split: sum.split)
  then show ?thesis unfolding GetEvents_def Let_def
    by (auto intro!: isolated_answer v w agent_events_isolated[OF r] global_events_isolated[OF r] intro: isolated_ret split: option.split)
qed

section \<open>Telemetry\<close>

lemma scope_spans_checks:
  assumes sp: "scoped_space sp good row row_ns uuids"
  shows "reads_only good row (scope_spans sp ns i cache sns)" "answers_plain (scope_spans sp ns i cache sns)"
proof (induction sns arbitrary: i cache)
  case (Cons sn sns)
  case 1
  show ?case using Cons(1)
    by (auto simp: Let_def intro!: reads_then reads_orError scoped_space.get[OF sp] split: option.split sum.split)
  case 2
  show ?case using Cons(2)
    by (auto simp: Let_def orError_def intro!: answers_then[where m = "sp_Get sp (20, i) (trim_space (sn_TupleID sn))"] answers_pass
        split: option.split)
qed simp_all

lemma scopeTelemetry_checks:
  "reads_only good row (scopeTelemetrySpansToPrincipal h r sns)" "answers_plain (scopeTelemetrySpansToPrincipal h r sns)"
  unfolding scopeTelemetrySpansToPrincipal_def Let_def by (auto intro: scope_spans_checks[OF bound])

lemma reads_record:
  "hd_telemetry h = Some (rec, lst) \<Longrightarrow> reads_only good row (rec i sns)"
  "hd_telemetry h = Some (rec, lst) \<Longrightarrow> reads_only good row (lst i tr n lim off)"
  unfolding hd_telemetry_def
  by (auto intro: scoped_space.record_spans[OF unbound] scoped_space.list_spans[OF unbound] split: option.splits)

lemma telemetry_isolated:
  "isolated good row row_ns uuids ns P (IngestTelemetrySpan e h r)"
  "isolated good row row_ns uuids ns P (IngestTelemetrySpanBatch e h r)"
  "isolated good row row_ns uuids ns P (ListTelemetrySpans e h r)"
  unfolding IngestTelemetrySpan_def IngestTelemetrySpanBatch_def ListTelemetrySpans_def Let_def
  by (auto intro!: isolated_answer scopeTelemetry_checks isolated_after isolated_ret dest: reads_record
      split: option.split decoded.split sum.split)

section \<open>The router\<close>

lemma isolated_only: "isolated good row row_ns uuids ns P m \<Longrightarrow> isolated good row row_ns uuids ns P (only meth m r)"
  by (simp add: only_def method_not_allowed_def isolated_ret)

lemma agents_route_isolated:
  assumes "namespaced r ns"
  shows "isolated good row row_ns uuids ns P (agents_route e h r)"
  unfolding agents_route_def Let_def
  by (simp add: assms QueryAgents_isolated AgentStats_isolated ReadAgent_isolated TakeAgent_isolated BatchTakeAgent_isolated
      InAgent_isolated CompleteAndOutAgent_isolated CompleteAgent_isolated ReleaseAgent_isolated RenewLeaseAgent_isolated
      GetAgent_isolated UpdateAgent_isolated method_not_allowed_def isolated_ret)

theorem mux_isolated:
  assumes "namespaced r ns" "ae_uuid e 0 \<in> uuids" "ae_uuid e 0 \<noteq> []" "isolated good row row_ns uuids ns P (prometheus r)"
  shows "isolated good row row_ns uuids ns P (mux debug prometheus e h r)"
  unfolding mux_def Let_def
  by (simp add: assms isolated_only CreateAgent_isolated GetEvents_isolated shard_views_isolated telemetry_isolated
      HealthCheck_isolated GetStats_isolated DebugInvariants_isolated agents_route_isolated GetDAG_isolated isolated_ret)

end

end
