(* ===== verification/Api_Sqlite.thy ===== *)
theory Api_Sqlite
  imports Api_Isolation_Handlers Sqlite_Graph
begin

text \<open>
  The HTTP API over the SQLite store: the store as the handlers see it, with the error texts it returns, and the proof
  that it keeps the promises the isolation of namespaces rests on.
\<close>

section \<open>Error texts\<close>

text \<open>Errors of the database driver and of the JSON library, context errors, and \<^verbatim>\<open>%q\<close> are parameters.\<close>

record text_lib =
  tx_quote :: "string \<Rightarrow> string"
  tx_other :: "store_error \<Rightarrow> go_err"

definition TokenMismatchStaleErr :: string where "TokenMismatchStaleErr = ''TOKEN_MISMATCH_STALE''"

fun err_of :: "text_lib \<Rightarrow> store_error \<Rightarrow> go_err" where
  "err_of lib (ErrNotFound i) = plain_err (''agent not found: '' @ i)"
| "err_of lib ErrAgentIDRequired = plain_err ''agent ID is required''"
| "err_of lib ErrLeaseTokenRequired = plain_err ''lease token is required''"
| "err_of lib (ErrInvalidStatus st) = plain_err (''invalid status: '' @ st)"
| "err_of lib (ErrOwnedBy verb owner ag) =
    plain_err (''cannot '' @ verb @ '': agent owned by '' @ tx_quote lib owner @ '', not '' @ tx_quote lib ag)"
| "err_of lib ErrLeaseTokenMismatch = plain_err ''lease token mismatch''"
| "err_of lib ErrTokenMismatchStale = plain_err TokenMismatchStaleErr"
| "err_of lib ErrTimeout = plain_err timeout_text"
| "err_of lib (ErrCreateOutputAgent er) = (err_of lib er) \<lparr> er_Text := ''failed to create output agent: '' @ er_Text (err_of lib er) \<rparr>"
| "err_of lib (ErrCreateOutputEvent er) = (err_of lib er) \<lparr> er_Text := ''failed to create output event: '' @ er_Text (err_of lib er) \<rparr>"
| "err_of lib er = tx_other lib er"

section \<open>The store as the handlers see it\<close>

text \<open>
  What the calls of a request read from outside: the environments of a call, the clock of a polling call and the rounds it
  may take.  While a request runs, nobody else changes the store.
\<close>

record sqlite_calls =
  sq_env :: "call \<Rightarrow> nat \<Rightarrow> env"
  sq_poll :: "call \<Rightarrow> sqlite_store poll"
  sq_rounds :: "call \<Rightarrow> nat"
  sq_texts :: text_lib

definition alone :: "sqlite_store poll \<Rightarrow> sqlite_store poll" where
  "alone p = p \<lparr> p_other := (\<lambda>n s. s) \<rparr>"

definition as_call :: "text_lib \<Rightarrow> (sqlite_store \<Rightarrow> (store_error + 'a) \<times> sqlite_store) \<Rightarrow> (sqlite_store, go_err + 'a) act" where
  "as_call lib f = (\<lambda>s. Some (map_sum (err_of lib) (\<lambda>x. x) (fst (f s)), snd (f s)))"

definition as_read :: "text_lib \<Rightarrow> (db \<Rightarrow> store_error + 'a) \<Rightarrow> (sqlite_store, go_err + 'a) act" where
  "as_read lib f = (\<lambda>s. Some (map_sum (err_of lib) (\<lambda>x. x) (f (s_db s)), s))"

definition as_loop :: "text_lib \<Rightarrow> ('a \<Rightarrow> 'b) \<Rightarrow> (sqlite_store \<Rightarrow> ((store_error + 'a) \<times> sqlite_store) option) \<Rightarrow> (sqlite_store, go_err + 'b) act" where
  "as_loop lib g f = (\<lambda>s. map_option (map_prod (map_sum (err_of lib) g) (\<lambda>s. s)) (f s))"

definition SQLiteHealth :: "env \<Rightarrow> db \<Rightarrow> store_error + unit" where
  "SQLiteHealth e d = (if fault e CSelect then Inl (ErrDB CSelect) else Inr ())"

definition sqlite_space :: "sqlite_calls \<Rightarrow> sqlite_store agent_space" where
  "sqlite_space c = (let lib = sq_texts c; en = (\<lambda>i. sq_env c i 0) in
    \<lparr> sp_Get = (\<lambda>i k. as_read lib (\<lambda>d. SQLiteGet (en i) d k)),
      sp_Out = (\<lambda>i t. as_call lib (\<lambda>s. SQLiteOut (en i) s t)),
      sp_In = (\<lambda>i q dur. as_loop lib (\<lambda>t. t) (SQLiteIn (sq_rounds c i) (sq_env c i) (alone (sq_poll c i)) (Some q) dur)),
      sp_Read = (\<lambda>i q dur. as_loop lib Some (SQLiteRead (sq_rounds c i) (sq_env c i) (alone (sq_poll c i)) (Some q) dur)),
      sp_Query = (\<lambda>i q. as_read lib (\<lambda>d. SQLiteQuery (en i) d (Some q))),
      sp_Take = (\<lambda>i q. as_call lib (\<lambda>s. SQLiteTake (en i) s (Some q))),
      sp_Update = (\<lambda>i k u. as_call lib (\<lambda>s. SQLiteUpdate (en i) s k (Some u))),
      sp_Complete = (\<lambda>i k ag tok res. as_call lib (\<lambda>s. SQLiteComplete (en i) s k ag tok res)),
      sp_CompleteAndOut = (\<lambda>i k ag tok res outs. as_call lib (\<lambda>s. SQLiteCompleteAndOut (en i) s k ag tok res outs)),
      sp_Release = (\<lambda>i k ag tok reason. as_call lib (\<lambda>s. SQLiteRelease (en i) s k ag tok reason)),
      sp_RenewLease = (\<lambda>i k ag tok dur. as_call lib (\<lambda>s. SQLiteRenewLease (en i) s k ag tok dur)),
      sp_GetEvents = (\<lambda>i k. as_read lib (\<lambda>d. SQLiteGetEvents (en i) d k)),
      sp_GetGlobalEvents = (\<lambda>i lim off. as_read lib (\<lambda>d. SQLiteGetGlobalEvents (en i) d lim off)),
      sp_GetDAG = (\<lambda>i k s. map_option (\<lambda>g. (Inr g, s)) (SQLiteGetDAG (sq_env c i) (s_db s) k)),
      sp_UpdateAndGet = Some (\<lambda>i k u. as_call lib (\<lambda>s. map_prod (map_sum (\<lambda>er. er) Some) (\<lambda>s. s) (SQLiteUpdateAndGet (en i) s k (Some u)))),
      sp_CompleteAndGet = Some (\<lambda>i k ag tok res. as_call lib (\<lambda>s. map_prod (map_sum (\<lambda>er. er) Some) (\<lambda>s. s) (SQLiteCompleteAndGet (en i) s k ag tok res))),
      sp_ReleaseAndGet = Some (\<lambda>i k ag tok reason. as_call lib (\<lambda>s. map_prod (map_sum (\<lambda>er. er) Some) (\<lambda>s. s) (SQLiteReleaseAndGet (en i) s k ag tok reason))),
      sp_BatchTake = None,
      sp_Count = Some (\<lambda>i q. as_read lib (\<lambda>d. SQLiteCount (en i) d (Some q))),
      sp_CountByStatus = None,
      sp_QueryEvents = Some (\<lambda>i q. as_read lib (\<lambda>d. SQLiteQueryEvents (en i) d (Some q))),
      sp_RecordSpans = None, sp_ListSpans = None,
      sp_Health = Some (\<lambda>i. as_read lib (\<lambda>d. SQLiteHealth (en i) d)),
      sp_ShardMapInfo = None, sp_ShardHealthInfo = None, sp_ShardQueueStats = None, sp_DebugInvariants = None \<rparr>)"

definition sqlite_handlers :: "sqlite_calls \<Rightarrow> sqlite_store handlers" where
  "sqlite_handlers c = \<lparr> hd_space = sqlite_space c, hd_bind = None, hd_kind = KSQLite \<rparr>"

section \<open>The namespace of a row\<close>

definition sqlite_row_ns :: "agent_row \<Rightarrow> string" where
  "sqlite_row_ns r = trim_space (str_at (or_nil (scan_metadata (r_metadata r))) NamespaceMetadataKey)"

definition sqlite_row :: "sqlite_store \<Rightarrow> string \<Rightarrow> agent_row option" where
  "sqlite_row s = row_of (s_db s)"

lemma trim_Nil [simp]: "trim_space [] = []"
  by (simp add: trim_space_def)

lemma effective_scan: "scanSQLiteAgent r = Inr t \<Longrightarrow> effectiveAgentNamespace t = sqlite_row_ns r"
  using scan_fields(9,16)[of r t]
  by (auto simp: effectiveAgentNamespace_def sqlite_row_ns_def split: option.splits)

lemma effective_sync: "effectiveAgentNamespace (sync_namespace t) = trim_space (a_NamespaceID (sync_namespace t))"
  using sync_namespace_metadata[of t] by (auto simp: effectiveAgentNamespace_def)

lemma written_ns:
  assumes "agent_columns (sync_namespace t) = Inr r"
  shows "sqlite_row_ns r = effectiveAgentNamespace (sync_namespace t)"
proof -
  obtain m where "a_Metadata (sync_namespace t) = Some m" "a_NamespaceID (sync_namespace t) = str_at m NamespaceMetadataKey"
    using sync_namespace_metadata[of t] by blast
  then show ?thesis using agent_columns_fields(9)[OF assms] effective_sync[of t] by (simp add: sqlite_row_ns_def)
qed

text \<open>The namespace an agent was scanned with survives a write of the changed agent.\<close>

definition same_namespace :: "agent \<Rightarrow> agent \<Rightarrow> bool" where
  "same_namespace t0 t \<longleftrightarrow> a_NamespaceID t = a_NamespaceID t0 \<and>
     (a_NamespaceID t0 = [] \<longrightarrow> str_at (or_nil (a_Metadata t)) NamespaceMetadataKey = [])"

lemma sync_same_namespace:
  assumes "scanSQLiteAgent r = Inr t0" "same_namespace t0 t"
  shows "effectiveAgentNamespace (sync_namespace t) = sqlite_row_ns r"
proof -
  have "a_NamespaceID (sync_namespace t) = a_NamespaceID t0"
    using assms(2) by (auto simp: same_namespace_def sync_namespace_def Let_def)
  then show ?thesis using effective_sync[of t] scan_fields(16)[OF assms(1)] by (simp add: sqlite_row_ns_def)
qed

text \<open>An end of a transaction that wrote the row of one id, with the agent it returns.\<close>

definition kept_row :: "string \<Rightarrow> db \<Rightarrow> db \<Rightarrow> agent \<Rightarrow> bool" where
  "kept_row i d d' t \<longleftrightarrow> wf_db d' \<and> (\<forall>j. j \<noteq> i \<longrightarrow> row_of d' j = row_of d j) \<and>
     (\<exists>r r'. row_of d i = Some r \<and> row_of d' i = Some r' \<and> sqlite_row_ns r' = sqlite_row_ns r \<and>
        effectiveAgentNamespace t = sqlite_row_ns r)"

lemma kept_row_update:
  assumes d: "wf_db d" and f: "fetch e d i now = Inr t0" and u: "updateSQLiteAgent e c d t = Inr (t', d1)"
    and t: "same_namespace t0 t" "a_ID t = a_ID t0" and d': "db_agents d' = db_agents d1" "wf_db d'"
  shows "kept_row i d d' t'"
proof -
  obtain r where r: "row_of d i = Some r" "scanSQLiteAgent r = Inr t0" "a_ID t0 = i" using fetch_InrD[OF d f] by metis
  obtain r' where r': "t' = sync_namespace t" "agent_columns t' = Inr r'" using update_InrD[OF u] by metis
  have rows: "row_of d' j = (if j = i then Some r' else row_of d j)" for j
    using row_of_update[OF u, of r'] r r' t(2) d' by (simp add: row_of_def)
  have "effectiveAgentNamespace t' = sqlite_row_ns r" using sync_same_namespace[OF r(2) t(1)] r' by simp
  moreover have "sqlite_row_ns r' = effectiveAgentNamespace t'" using written_ns r' by simp
  ultimately show ?thesis using rows r(1) d'(2) by (simp add: kept_row_def)
qed

section \<open>Transactions\<close>

lemma update_tx_kept:
  assumes d: "wf_db d" and ns: "belongs sqlite_row_ns (row_of d) i ns" "ns \<noteq> []" and tx: "update_tx e i u d = Inr (TxCommit t d' evs)"
  shows "kept_row i d d' t"
proof -
  obtain t0 d1 ev where f: "fetch e d i (UnixMilli (clock e 0)) = Inr t0"
    and u: "updateSQLiteAgent e (CWrite 0) d ((ApplyUpdates t0 (Some u)) \<lparr> a_UpdatedAt := clock e 1,
        a_Version := to_int64 (a_Version t0 + 1) \<rparr>) = Inr (t, d1)"
    and ev: "insertSQLiteEvent e (CInsertEvent 0) d1 ev = Inr d'"
    using tx by (auto simp: update_tx_def Let_def bindr_eq_Inr)
  obtain r where "row_of d i = Some r" "scanSQLiteAgent r = Inr t0" using fetch_InrD[OF d f] by metis
  then have "a_NamespaceID t0 \<noteq> []" using ns scan_fields(16)[of r t0] by (auto simp: belongs_def sqlite_row_ns_def)
  then show ?thesis using insert_event_agents[OF ev] wf_insert_event[OF wf_update[OF d u] ev]
    by (intro kept_row_update[OF d f u]) (simp_all add: same_namespace_def)
qed

lemma complete_tx_kept:
  assumes d: "wf_db d" and tx: "complete_tx e i ag tok res d = Inr (TxCommit t d' evs)"
  shows "kept_row i d d' t"
proof -
  obtain t0 where f: "fetch e d i (UnixMilli (clock e 0)) = Inr t0" using tx by (auto simp: complete_tx_def bindr_eq_Inr)
  obtain r where r: "row_of d i = Some r" "scanSQLiteAgent r = Inr t0" using fetch_InrD[OF d f] by metis
  show ?thesis
  proof (cases "a_Status t0 = StatusCompleted")
    case True
    then have "t = t0" "d' = d" using tx f by (auto simp: complete_tx_def split: if_splits)
    then show ?thesis using r d by (simp add: kept_row_def effective_scan)
  next
    case False
    let ?t = "completed_agent (clock e 1) ag tok (or_nil res) t0"
    obtain d1 ev where u: "updateSQLiteAgent e (CWrite 0) d ?t = Inr (t, d1)" and ev: "insertSQLiteEvent e (CInsertEvent 0) d1 ev = Inr d'"
      using tx f False by (auto simp: complete_tx_def Let_def bindr_eq_Inr split: option.splits)
    have "same_namespace t0 ?t" using scan_fields(9,16)[OF r(2)]
      by (auto simp: same_namespace_def completed_agent_def SetCompletionMetadata_def Let_def)
    then show ?thesis using insert_event_agents[OF ev] wf_insert_event[OF wf_update[OF d u] ev]
      by (intro kept_row_update[OF d f u]) simp_all
  qed
qed

lemma release_tx_kept:
  assumes d: "wf_db d" and tx: "release_tx e i ag tok reason d = Inr (TxCommit t d' evs)"
  shows "kept_row i d d' t"
proof -
  obtain t0 where f: "fetch e d i (UnixMilli (clock e 0)) = Inr t0" using tx by (auto simp: release_tx_def bindr_eq_Inr)
  obtain r where r: "scanSQLiteAgent r = Inr t0" using fetch_InrD[OF d f] by metis
  obtain d1 ev where u: "updateSQLiteAgent e (CWrite 0) d (released_agent (clock e 1) t0) = Inr (t, d1)"
    and ev: "insertSQLiteEvent e (CInsertEvent 0) d1 ev = Inr d'"
    using tx f by (auto simp: release_tx_def Let_def bindr_eq_Inr split: option.splits)
  have "same_namespace t0 (released_agent (clock e 1) t0)" using scan_fields(9,16)[OF r]
    by (simp add: same_namespace_def released_agent_def)
  then show ?thesis using insert_event_agents[OF ev] wf_insert_event[OF wf_update[OF d u] ev]
    by (intro kept_row_update[OF d f u]) (simp_all add: released_agent_def)
qed

lemma renew_tx_kept:
  assumes d: "wf_db d" and tx: "renew_tx e i ag tok dur d = Inr (TxCommit t d' evs)"
  shows "kept_row i d d' t"
proof -
  obtain t0 where f: "fetch e d i (UnixMilli (clock e 0)) = Inr t0" using tx by (auto simp: renew_tx_def bindr_eq_Inr)
  obtain r where r: "scanSQLiteAgent r = Inr t0" using fetch_InrD[OF d f] by metis
  obtain until where u: "updateSQLiteAgent e (CWrite 0) d (t0 \<lparr> a_OwnerTime := clock e 1, a_LeaseUntil := until,
      a_UpdatedAt := clock e 1 \<rparr>) = Inr (t, d')"
    using tx f by (auto simp: renew_tx_def Let_def bindr_eq_Inr split: option.splits)
  show ?thesis using scan_fields(9,16)[OF r] wf_update[OF d u]
    by (intro kept_row_update[OF d f u]) (simp_all add: same_namespace_def)
qed

text \<open>From a transaction to the promises of a write.\<close>

lemma with_tx_kept:
  assumes g: "good_store s" and tx: "\<forall>t d' evs. body (s_db s) = Inr (TxCommit t d' evs) \<longrightarrow> kept_row i (s_db s) d' t"
    and nr: "\<forall>t. body (s_db s) \<noteq> Inr (TxRollback t)" and w: "with_tx e s body = (x, s')"
  shows "good_store s'" "\<forall>j. j \<noteq> i \<longrightarrow> sqlite_row s' j = sqlite_row s j"
    "belongs sqlite_row_ns (sqlite_row s) i ns \<Longrightarrow> belongs sqlite_row_ns (sqlite_row s') i ns"
    "x = Inr t \<Longrightarrow> belongs sqlite_row_ns (sqlite_row s) i (effectiveAgentNamespace t)"
proof -
  have "x = Inl er \<Longrightarrow> s' = s" for er using w with_tx_Inl by blast
  moreover have "kept_row i (s_db s) (s_db s') t" if "x = Inr t" for t
    using with_tx_InrD[of e s body t s'] w that nr tx by auto
  ultimately consider "s' = s" "\<exists>er. x = Inl er" | t where "x = Inr t" "kept_row i (s_db s) (s_db s') t" by (cases x) auto
  note cs = this
  show "good_store s'" using cs g by cases (auto simp: good_store_def kept_row_def)
  show "\<forall>j. j \<noteq> i \<longrightarrow> sqlite_row s' j = sqlite_row s j" using cs by cases (auto simp: kept_row_def sqlite_row_def)
  show "belongs sqlite_row_ns (sqlite_row s) i ns \<Longrightarrow> belongs sqlite_row_ns (sqlite_row s') i ns"
    using cs by cases (auto simp: kept_row_def sqlite_row_def belongs_def)
  show "x = Inr t \<Longrightarrow> belongs sqlite_row_ns (sqlite_row s) i (effectiveAgentNamespace t)"
    using cs by cases (auto simp: kept_row_def sqlite_row_def belongs_def)
qed

section \<open>Claims and queries\<close>

lemma scoped_filter: "scoped ns q \<Longrightarrow> buildSQLiteWhereClauses (Some q) b now = (wh, nf) \<Longrightarrow> nf"
  by (auto simp: scoped_def buildSQLiteWhereClauses_def)

lemma scoped_matches:
  assumes "scoped ns q" "matchesQueryFilters t (Some q)" "scanSQLiteAgent r = Inr t"
  shows "sqlite_row_ns r = ns"
  using assms scan_fields(9,16)[OF assms(3)]
  by (auto simp: scoped_def matchesQueryFilters_def sqlite_row_ns_def Let_def split: if_splits)

lemma query_scoped:
  assumes q: "scoped ns q" and r: "SQLiteQuery e d (Some q) = Inr ts" "t \<in> set ts"
  shows "effectiveAgentNamespace t = ns"
proof -
  obtain wh nf where b: "buildSQLiteWhereClauses (Some q) False (UnixMilli (clock e 0)) = (wh, nf)" by force
  then have nf: nf using scoped_filter[OF q] by blast
  have "ts = mem_page (q_Limit q) (q_Offset q) (scan_loop True (Some q) (select_where wh d))"
    using r(1) b nf by (auto simp: SQLiteQuery_def Let_def q_limit_def q_offset_def split: if_splits)
  then have "t \<in> set (scan_loop True (Some q) (select_where wh d))" using r(2) set_sql_page by (fastforce simp: mem_page_eq)
  then obtain x where "scanSQLiteAgent x = Inr t" "matchesQueryFilters t (Some q)"
    by (auto simp: scan_loop_def List.map_filter_def split: sum.splits if_splits)
  then show ?thesis using scoped_matches[OF q] effective_scan by metis
qed

lemma take_rows_scoped:
  assumes q: "scoped ns q" and d: "wf_db d" "set rows \<subseteq> set (db_agents d)"
    and c: "take_rows e (Some q) ag True now d n rows = Inr (TxCommit x d' evs)"
  shows "wf_db d' \<and> (\<exists>r t. r \<in> set (db_agents d) \<and> sqlite_row_ns r = ns \<and> x = Some t \<and> effectiveAgentNamespace t = ns \<and>
    (\<forall>j. j \<noteq> r_id r \<longrightarrow> row_of d' j = row_of d j))"
  using d(2) c
proof (induction rows arbitrary: n)
  case Nil
  then show ?case by (auto split: if_splits)
next
  case (Cons r rows)
  have r: "r \<in> set (db_agents d)" "wf_row r" using Cons.prems(1) d(1) by (auto simp: wf_db_def list_all_iff)
  note sc = scanned_wf[OF r(2)]
  let ?t = "claimed_agent e n ag (scanned r)"
  obtain b d1 where cl: "claimSQLiteAgent e (CClaim n) d ?t now = Inr (b, d1)" if "matchesQueryFilters (scanned r) (Some q)"
    using Cons.prems(2) sc by (auto simp: Let_def bindr_eq_Inr split: if_splits)
  show ?case
  proof (cases "matchesQueryFilters (scanned r) (Some q) \<and> b")
    case True
    note cl = cl[OF conjunct1[OF True]]
    obtain ev where ev: "insertSQLiteEvent e (CInsertEvent n) d1 ev = Inr d'" "x = Some ?t"
      using Cons.prems(2) sc True cl by (auto simp: Let_def bindr_eq_Inr split: if_splits)
    have ns: "sqlite_row_ns r = ns" using scoped_matches[OF q _ sc] True by blast
    moreover have "effectiveAgentNamespace ?t = effectiveAgentNamespace (scanned r)" by (simp add: claimed_agent_def effectiveAgentNamespace_def Let_def)
    ultimately have "effectiveAgentNamespace ?t = ns" using effective_scan[OF sc] by simp
    moreover have "row_of d' j = row_of d j" if j: "j \<noteq> r_id r" for j
    proof -
      have "row_of d1 j = map_option (\<lambda>x. if claimable (r_id r) now x then claim_row ?t x else x) (row_of d j)"
        using cl scan_fields(1)[OF sc]
        by (auto simp: claimSQLiteAgent_def claim_row_def intro!: row_of_map split: if_splits)
      then have "row_of d1 j = row_of d j" using j by (cases "row_of d j") (auto simp: claimable_def dest: row_of_id)
      then show ?thesis using insert_event_agents[OF ev(1)] by (simp add: row_of_def)
    qed
    ultimately show ?thesis using r(1) ns ev wf_insert_event[OF wf_claim[OF d(1) cl] ev(1)] by blast
  next
    case False
    then have "take_rows e (Some q) ag True now d (Suc n) rows = Inr (TxCommit x d' evs)"
      using Cons.prems(2) sc cl by (auto simp: Let_def split: if_splits)
    then show ?thesis using Cons.IH Cons.prems(1) by auto
  qed
qed

lemma take_scoped:
  assumes q: "scoped ns q" and g: "good_store s" and r: "SQLiteTake e s (Some q) = (x, s')"
  shows "good_store s' \<and> foreign_kept sqlite_row_ns ns (sqlite_row s) (sqlite_row s') \<and>
    (\<forall>t. x = Inr (Some t) \<longrightarrow> effectiveAgentNamespace t = ns)"
proof (cases "s' = s \<and> (\<forall>t. x \<noteq> Inr (Some t))")
  case True
  then show ?thesis using g by auto
next
  case False
  then have w: "with_tx e s (take_tx e (Some q)) = (x, s')" using r by (auto simp: SQLiteTake_def split: if_splits)
  then obtain y where x: "x = Inr y" using with_tx_Inl[of e s "take_tx e (Some q)"] False by (cases x) blast+
  then obtain d evs where tx: "take_tx e (Some q) (s_db s) = Inr (TxCommit y d evs)" "s_db s' = d"
    using with_tx_InrD[of e s "take_tx e (Some q)" y s'] w False take_tx_rollback by blast
  obtain wh nf where b: "buildSQLiteWhereClauses (Some q) True (UnixMilli (clock e 0)) = (wh, nf)" by force
  then have nf: nf using scoped_filter[OF q] by blast
  have "take_rows e (Some q) (take_agent_id (Some q)) True (UnixMilli (clock e 0)) (s_db s) 0 (select_where wh (s_db s)) = Inr (TxCommit y d evs)"
    using tx(1) b nf by (auto simp: take_tx_def Let_def split: if_splits)
  moreover have "set (select_where wh (s_db s)) \<subseteq> set (db_agents (s_db s))" by (auto simp: select_where_def)
  ultimately obtain r t where rt: "wf_db d" "r \<in> set (db_agents (s_db s))" "sqlite_row_ns r = ns" "y = Some t"
    "effectiveAgentNamespace t = ns" "\<And>j. j \<noteq> r_id r \<Longrightarrow> row_of d j = row_of (s_db s) j"
    using take_rows_scoped[OF q] g unfolding good_store_def by blast
  have "belongs sqlite_row_ns (sqlite_row s) (r_id r) ns"
    using rt g by (auto simp: belongs_def sqlite_row_def row_of_iff good_store_def)
  then have "foreign_kept sqlite_row_ns ns (sqlite_row s) (sqlite_row s')"
    by (rule foreign_kept_one) (use rt tx in \<open>simp add: sqlite_row_def\<close>)
  then show ?thesis using rt tx x by (auto simp: good_store_def)
qed

lemma poll_loop_kept:
  assumes call: "\<And>n s x s'. good_store s \<Longrightarrow> call n s = (x, s') \<Longrightarrow>
      good_store s' \<and> foreign_kept sqlite_row_ns ns (sqlite_row s) (sqlite_row s') \<and> (\<forall>t. x = Inr (Some t) \<longrightarrow> effectiveAgentNamespace t = ns)"
    and quiet: "\<And>n s s'. good_store s \<Longrightarrow> call n s = (Inr None, s') \<Longrightarrow> sqlite_row s' = sqlite_row s"
    and g: "good_store s" and r: "poll_loop call fuel n (alone p) dl s = Some (x, s')"
  shows "good_store s' \<and> foreign_kept sqlite_row_ns ns (sqlite_row s) (sqlite_row s') \<and> (\<forall>t. x = Inr t \<longrightarrow> effectiveAgentNamespace t = ns)"
  using g r
proof (induction fuel arbitrary: n s)
  case (Suc fuel)
  obtain y s1 where y: "call n s = (y, s1)" by force
  note c = call[OF Suc.prems(1) y]
  show ?case
  proof (cases "y = Inr None \<and> p_now p n < dl \<and> \<not> p_done p n")
    case True
    then have "poll_loop call fuel (Suc n) (alone p) dl s1 = Some (x, s')" using Suc.prems(2) y by (simp add: alone_def)
    then show ?thesis using Suc.IH c quiet[OF Suc.prems(1), of n s1] y True by metis
  next
    case False
    then have "s' = s \<and> x = Inl ErrTimeout \<or> s' = s1 \<and> (\<forall>t. x = Inr t \<longrightarrow> y = Inr (Some t))"
      using Suc.prems(2) y by (auto simp: alone_def split: if_splits sum.splits option.splits)
    then show ?thesis using c Suc.prems(1) by auto
  qed
qed simp

lemma take_none_kept: "SQLiteTake e s q = (Inr None, s') \<Longrightarrow> good_store s \<Longrightarrow> s' = s"
proof -
  assume r: "SQLiteTake e s q = (Inr None, s')" and g: "good_store s"
  have "take_tx e q (s_db s) \<noteq> Inr (TxCommit None d evs)" for d evs
    using take_tx_effect[of "s_db s" e q None d evs] g by (auto simp: good_store_def)
  then show ?thesis using r with_tx_InrD[of e s "take_tx e q" None s'] by (auto simp: SQLiteTake_def split: if_splits)
qed

lemma in_scoped:
  assumes "scoped ns q" "good_store s" "SQLiteIn fuel es (alone p) (Some q) dur s = Some (x, s')"
  shows "good_store s' \<and> foreign_kept sqlite_row_ns ns (sqlite_row s) (sqlite_row s') \<and> (\<forall>t. x = Inr t \<longrightarrow> effectiveAgentNamespace t = ns)"
proof (rule poll_loop_kept[where call = "\<lambda>i s. SQLiteTake (es i) s (Some q)"])
  show "poll_loop (\<lambda>i s. SQLiteTake (es i) s (Some q)) fuel 0 (alone p) (p_start (alone p) + dur) s = Some (x, s')"
    using assms(3) by (simp add: SQLiteIn_def poll_until_def)
  show "sqlite_row s2 = sqlite_row s1" if "good_store s1" "SQLiteTake (es n) s1 (Some q) = (Inr None, s2)" for n s1 s2
    using take_none_kept[OF that(2,1)] by simp
qed (use assms take_scoped in blast)+

lemma read_kept:
  assumes "SQLiteRead fuel es (alone p) (Some q) dur s = Some (x, s')"
  shows "s' = s" "scoped ns q \<Longrightarrow> x = Inr t \<Longrightarrow> effectiveAgentNamespace t = ns"
proof -
  let ?call = "\<lambda>i s. (first_of (SQLiteQuery (es i) (s_db s) (Some (read_query (Some q)))), s)"
  have "s' = s \<and> (\<forall>t. x = Inr t \<longrightarrow> (\<exists>i. first_of (SQLiteQuery (es i) (s_db s) (Some (read_query (Some q)))) = Inr (Some t)))"
    if "poll_loop ?call fuel n (alone p) dl s = Some (x, s')" for n dl
    using that
  proof (induction fuel arbitrary: n)
    case (Suc fuel)
    then show ?case by (auto simp: alone_def split: if_splits sum.splits option.splits)
  qed simp
  then have *: "s' = s \<and> (\<forall>t. x = Inr t \<longrightarrow> (\<exists>i. first_of (SQLiteQuery (es i) (s_db s) (Some (read_query (Some q)))) = Inr (Some t)))"
    using assms unfolding SQLiteRead_def poll_until_def by blast
  then show "s' = s" by blast
  assume "scoped ns q" "x = Inr t"
  moreover have "scoped ns (read_query (Some q))" using \<open>scoped ns q\<close> by (simp add: read_query_def)
  moreover obtain i where "first_of (SQLiteQuery (es i) (s_db s) (Some (read_query (Some q)))) = Inr (Some t)"
    using * \<open>x = Inr t\<close> by blast
  then obtain ts where "SQLiteQuery (es i) (s_db s) (Some (read_query (Some q))) = Inr ts" "t \<in> set ts"
    by (cases "SQLiteQuery (es i) (s_db s) (Some (read_query (Some q)))") (fastforce simp: first_of_def bindr_def split: list.splits)+
  ultimately show "effectiveAgentNamespace t = ns" using query_scoped[of ns "read_query (Some q)"] by blast
qed

section \<open>New rows\<close>

lemma upsert_row:
  assumes d: "wf_db d" and u: "upsertSQLiteAgent e c d t = Inr (t', d1)"
  shows "wf_db d1" "j \<noteq> a_ID t \<Longrightarrow> row_of d1 j = row_of d j" "t' = sync_namespace t"
proof -
  obtain r where r: "t' = sync_namespace t" "agent_columns t' = Inr r" "d1 = d \<lparr> db_agents := put_row r (db_agents d) \<rparr>"
    using upsert_InrD[OF u] by metis
  show "wf_db d1" using wf_upsert[OF d u] .
  show "t' = sync_namespace t" by (rule r(1))
  have "r_id r = a_ID t" using agent_columns_fields(1)[OF r(2)] r(1) by simp
  then show "j \<noteq> a_ID t \<Longrightarrow> row_of d1 j = row_of d j" using r(3) by (simp add: row_of_put)
qed

lemma sync_given: "a_NamespaceID t = ns \<Longrightarrow> ns \<noteq> [] \<Longrightarrow> trim_space ns = ns \<Longrightarrow> effectiveAgentNamespace (sync_namespace t) = ns"
  unfolding effective_sync by (simp add: sync_namespace_def Let_def)

lemma defaults_out_fields:
  "a_ID (defaults_out e n t) = (if a_ID t = [] then uuid e (2 * n) else a_ID t)" "a_NamespaceID (defaults_out e n t) = a_NamespaceID t"
  by (simp_all add: defaults_out_def Let_def)

lemma out_kept:
  assumes g: "good_store s" and t: "a_ID t \<noteq> []" and r: "SQLiteOut e s t = (x, s')"
  shows "good_store s'" "\<forall>j. j \<noteq> a_ID t \<longrightarrow> sqlite_row s' j = sqlite_row s j"
    "x = Inr t' \<Longrightarrow> ns \<noteq> [] \<Longrightarrow> trim_space ns = ns \<Longrightarrow> a_NamespaceID t = ns \<Longrightarrow> effectiveAgentNamespace t' = ns"
proof -
  have "good_store s' \<and> (\<forall>j. j \<noteq> a_ID t \<longrightarrow> sqlite_row s' j = sqlite_row s j) \<and> (\<forall>t'. x = Inr t' \<longrightarrow> t' = sync_namespace (defaults_out e 0 t))"
  proof (cases x)
    case (Inl er)
    then show ?thesis using r with_tx_Inl[of e s "out_tx e t"] g by (auto simp: SQLiteOut_def)
  next
    case (Inr t1)
    have "out_tx e t (s_db s) \<noteq> Inr (TxRollback y)" for y by (simp add: out_tx_def Let_def bindr_eq_Inr split_beta)
    then obtain evs where tx: "out_tx e t (s_db s) = Inr (TxCommit t1 (s_db s') evs)"
      using r Inr with_tx_InrD[of e s "out_tx e t" t1 s'] by (auto simp: SQLiteOut_def)
    then obtain d1 ev where u: "upsertSQLiteAgent e (CWrite 0) (s_db s) (defaults_out e 0 t) = Inr (t1, d1)"
      and ev: "insertSQLiteEvent e (CInsertEvent 0) d1 ev = Inr (s_db s')"
      by (auto simp: out_tx_def Let_def bindr_eq_Inr)
    have d: "wf_db (s_db s)" using g by (simp add: good_store_def)
    show ?thesis using upsert_row[OF d u] wf_insert_event[OF _ ev] insert_event_agents[OF ev] t Inr
      by (auto simp: good_store_def sqlite_row_def row_of_def defaults_out_fields)
  qed
  then show "good_store s'" "\<forall>j. j \<noteq> a_ID t \<longrightarrow> sqlite_row s' j = sqlite_row s j"
    "x = Inr t' \<Longrightarrow> ns \<noteq> [] \<Longrightarrow> trim_space ns = ns \<Longrightarrow> a_NamespaceID t = ns \<Longrightarrow> effectiveAgentNamespace t' = ns"
    by (auto intro: sync_given simp: defaults_out_fields)
qed

lemma create_outputs_kept:
  assumes u: "\<And>n. uuid e n \<in> uuids" and ns: "ns \<noteq> []" "trim_space ns = ns"
  shows "wf_db d \<Longrightarrow> list_all (\<lambda>t. a_ID t = [] \<and> a_NamespaceID t = ns) outs \<Longrightarrow> create_outputs e ag par n outs d = Inr (ts, evs, d') \<Longrightarrow>
    wf_db d' \<and> (\<forall>j. j \<notin> uuids \<longrightarrow> row_of d' j = row_of d j) \<and> (\<forall>t \<in> set ts. effectiveAgentNamespace t = ns)"
proof (induction outs arbitrary: n d ts evs)
  case (Cons out outs)
  let ?o = "defaults_output e n par out"
  have f: "a_ID ?o \<in> uuids" "a_NamespaceID ?o = ns"
    using Cons.prems(2) u by (simp_all add: defaults_output_def Let_def defaults_out_fields)
  obtain o1 d1 ev d2 ts1 evs1 where up: "upsertSQLiteAgent e (CWrite n) d ?o = Inr (o1, d1)"
    and ev: "insertSQLiteEvent e (CInsertEvent n) d1 ev = Inr d2"
    and rest: "create_outputs e ag par (Suc n) outs d2 = Inr (ts1, evs1, d')" "ts = o1 # ts1"
    using Cons.prems(3) by (auto simp: Let_def bindr_eq_Inr split: sum.splits)
  note ur = upsert_row[OF Cons.prems(1) up]
  have "row_of d2 j = row_of d1 j" for j using insert_event_agents[OF ev] by (simp add: row_of_def)
  then have d2: "wf_db d2" "j \<notin> uuids \<Longrightarrow> row_of d2 j = row_of d j" for j
    using ur(1,2) f(1) wf_insert_event[OF _ ev] by metis+
  then show ?case using Cons.IH[OF d2(1) _ rest(1)] Cons.prems(2) rest(2) ur(3) sync_given[OF f(2) ns] by auto
qed simp

lemma complete_out_kept:
  assumes g: "good_store s" and o: "list_all (\<lambda>t. a_ID t = [] \<and> a_NamespaceID t = ns) outs" and ns: "ns \<noteq> []" "trim_space ns = ns"
    and u: "\<And>n. uuid e n \<in> uuids" and r: "SQLiteCompleteAndOut e s i ag tok res outs = (x, s')"
  shows "good_store s' \<and> (\<forall>j. j \<noteq> i \<longrightarrow> j \<notin> uuids \<longrightarrow> sqlite_row s' j = sqlite_row s j) \<and>
    (\<forall>t ts. x = Inr (t, ts) \<longrightarrow> belongs sqlite_row_ns (sqlite_row s) i (effectiveAgentNamespace t) \<and> (\<forall>t' \<in> set ts. effectiveAgentNamespace t' = ns))"
proof (cases x)
  case (Inl er)
  then show ?thesis using r sqlite_error_unchanged(5) g by blast
next
  case (Inr y)
  obtain t ts where y: "y = (t, ts)" by force
  have w: "with_tx e s (complete_and_out_tx e i ag tok res outs) = (Inr (t, ts), s')"
    using r Inr y by (auto simp: SQLiteCompleteAndOut_def split: if_splits)
  have "complete_and_out_tx e i ag tok res outs (s_db s) \<noteq> Inr (TxRollback z)" for z
    by (auto simp: complete_and_out_tx_def Let_def bindr_eq_Inr split: option.splits if_splits)
  then obtain evs where tx: "complete_and_out_tx e i ag tok res outs (s_db s) = Inr (TxCommit (t, ts) (s_db s') evs)"
    using with_tx_InrD[OF w] by blast
  obtain d1 evs1 where c: "complete_tx e i ag tok res (s_db s) = Inr (TxCommit t d1 evs1)"
    and o2: "ts = [] \<and> s_db s' = d1 \<or> (\<exists>evs2. create_outputs e ag t 1 outs d1 = Inr (ts, evs2, s_db s'))"
    using complete_and_out_tx_split[OF tx] by blast
  have k: "kept_row i (s_db s) d1 t" using complete_tx_kept[OF _ c] g by (simp add: good_store_def)
  have "wf_db (s_db s') \<and> (\<forall>j. j \<notin> uuids \<longrightarrow> row_of (s_db s') j = row_of d1 j) \<and> (\<forall>t \<in> set ts. effectiveAgentNamespace t = ns)"
    using o2 create_outputs_kept[OF u ns _ o, of d1] k by (auto simp: kept_row_def)
  then show ?thesis using k Inr y by (auto simp: kept_row_def good_store_def sqlite_row_def belongs_def)
qed

section \<open>The promises\<close>

lemma as_read_reads: "reads_only good row (as_read lib f)"
  by (simp add: reads_only_def wp_def as_read_def)

lemma as_read_Inr: "as_read lib f s = Some (Inr x, s') \<longleftrightarrow> f (s_db s) = Inr x \<and> s' = s"
  by (cases "f (s_db s)") (auto simp: as_read_def)

lemma as_call_Inr: "as_call lib f s = Some (Inr x, s') \<longleftrightarrow> f s = (Inr x, s')"
  by (cases "f s"; cases "fst (f s)") (auto simp: as_call_def)

lemma as_call_Some: "as_call lib f s = Some (y, s') \<Longrightarrow> \<exists>x. f s = (x, s') \<and> y = map_sum (err_of lib) (\<lambda>t. t) x"
  by (cases "f s") (auto simp: as_call_def)

lemma as_loop_Some: "as_loop lib g f s = Some (y, s') \<Longrightarrow> \<exists>x. f s = Some (x, s') \<and> y = map_sum (err_of lib) g x"
  by (auto simp: as_loop_def)

lemma map_sum_Inr: "map_sum f g x = Inr y \<longleftrightarrow> (\<exists>z. x = Inr z \<and> y = g z)" "Inr y = map_sum f g x \<longleftrightarrow> (\<exists>z. x = Inr z \<and> y = g z)"
  by (cases x; auto)+

text \<open>A call that keeps a row, whatever becomes of its result.\<close>

lemma writes_one_call:
  assumes "\<And>s x s'. good_store s \<Longrightarrow> f s = (x, s') \<Longrightarrow> good_store s' \<and> (\<forall>j. j \<noteq> k \<longrightarrow> sqlite_row s' j = sqlite_row s j) \<and>
    (\<forall>ns. belongs sqlite_row_ns (sqlite_row s) k ns \<longrightarrow> belongs sqlite_row_ns (sqlite_row s') k ns)"
  shows "writes_one good_store sqlite_row sqlite_row_ns k (as_call lib f)"
  unfolding writes_one_def by (auto intro!: wpI dest!: as_call_Some dest: assms)

definition kept_store :: "string \<Rightarrow> sqlite_store \<Rightarrow> store_error + agent \<Rightarrow> sqlite_store \<Rightarrow> bool" where
  "kept_store k s x s' \<longleftrightarrow> good_store s' \<and> (\<forall>j. j \<noteq> k \<longrightarrow> sqlite_row s' j = sqlite_row s j) \<and>
      (\<forall>ns. belongs sqlite_row_ns (sqlite_row s) k ns \<longrightarrow> belongs sqlite_row_ns (sqlite_row s') k ns) \<and>
      (\<forall>t. x = Inr t \<longrightarrow> belongs sqlite_row_ns (sqlite_row s) k (effectiveAgentNamespace t))"

lemma with_tx_kept_store:
  assumes "good_store s" "\<forall>t d' evs. body (s_db s) = Inr (TxCommit t d' evs) \<longrightarrow> kept_row k (s_db s) d' t"
    "\<forall>t. body (s_db s) \<noteq> Inr (TxRollback t)" "with_tx e s body = (x, s')"
  shows "kept_store k s x s'"
  unfolding kept_store_def using with_tx_kept[OF assms] by blast

lemma lease_ops_kept:
  assumes g: "good_store s"
  shows "SQLiteCompleteAndGet e s k ag tok res = (x, s') \<Longrightarrow> kept_store k s x s'"
    and "SQLiteReleaseAndGet e s k ag tok reason = (x, s') \<Longrightarrow> kept_store k s x s'"
    and "SQLiteRenewLease e s k ag tok dur = (x, s') \<Longrightarrow> kept_store k s x s'"
proof -
  have d: "wf_db (s_db s)" using g by (simp add: good_store_def)
  have refused: "kept_store k s (Inl er) s" for er using g by (simp add: kept_store_def)
  have rl: "kept_store k s x s'" if "with_tx e s (release_tx e k ag tok reason) = (x, s')" for x s'
    by (rule with_tx_kept_store[OF g _ _ that]) (use release_tx_kept[OF d] in
      \<open>blast, auto simp: release_tx_def Let_def bindr_eq_Inr split: option.splits\<close>)
  have rn: "kept_store k s x s'" if "with_tx e s (renew_tx e k ag tok dur) = (x, s')" for x s'
    by (rule with_tx_kept_store[OF g _ _ that]) (use renew_tx_kept[OF d] in
      \<open>blast, auto simp: renew_tx_def Let_def bindr_eq_Inr split: option.splits\<close>)
  have co: "kept_store k s x s'" if "with_tx e s (complete_tx e k ag tok res) = (x, s')" for x s'
    by (rule with_tx_kept_store[OF g _ _ that]) (use complete_tx_kept[OF d] complete_tx_commits in blast)+
  show "SQLiteReleaseAndGet e s k ag tok reason = (x, s') \<Longrightarrow> kept_store k s x s'"
    using rl refused by (auto simp: SQLiteReleaseAndGet_def split: if_splits)
  show "SQLiteRenewLease e s k ag tok dur = (x, s') \<Longrightarrow> kept_store k s x s'"
    using rn refused by (auto simp: SQLiteRenewLease_def split: if_splits)
  show "SQLiteCompleteAndGet e s k ag tok res = (x, s') \<Longrightarrow> kept_store k s x s'"
    using co refused by (auto simp: SQLiteCompleteAndGet_def split: if_splits)
qed

lemma update_kept:
  assumes g: "good_store s" and b: "belongs sqlite_row_ns (sqlite_row s) k ns" "ns \<noteq> []"
    and r: "SQLiteUpdateAndGet e s k (Some u) = (x, s')"
  shows "good_store s' \<and> (\<forall>j. j \<noteq> k \<longrightarrow> sqlite_row s' j = sqlite_row s j) \<and> belongs sqlite_row_ns (sqlite_row s') k ns \<and>
    (\<forall>t. x = Inr t \<longrightarrow> effectiveAgentNamespace t = ns)"
proof -
  have d: "wf_db (s_db s)" and b': "belongs sqlite_row_ns (row_of (s_db s)) k ns" using g b by (simp_all add: good_store_def sqlite_row_def)
  have n: "\<forall>t. update_tx e k u (s_db s) \<noteq> Inr (TxRollback t)" by (auto simp: update_tx_def Let_def bindr_eq_Inr)
  have w: "with_tx e s (update_tx e k u) = (x, s')" using r by (simp add: SQLiteUpdateAndGet_def)
  have tx: "\<forall>t d' evs. update_tx e k u (s_db s) = Inr (TxCommit t d' evs) \<longrightarrow> kept_row k (s_db s) d' t"
    using update_tx_kept[OF d b' b(2)] by blast
  note k = with_tx_kept[OF g tx n w]
  have "effectiveAgentNamespace t = ns" if "x = Inr t" for t using belongs_unique[OF k(4)[OF that] b(1)] .
  then show ?thesis using k(1,2) k(3)[OF b(1)] by blast
qed

text \<open>The UUIDs a request draws: the handler's own and those of its store calls.\<close>

definition drawn :: "sqlite_calls \<Rightarrow> api_env \<Rightarrow> string set" where
  "drawn c e = insert (ae_uuid e 0) {uuid (sq_env c i n) m | i n m. True}"

lemma sqlite_space_sel [simp]:
  "sp_Get (sqlite_space c) i k = as_read (sq_texts c) (\<lambda>d. SQLiteGet (sq_env c i 0) d k)"
  "sp_Out (sqlite_space c) i t = as_call (sq_texts c) (\<lambda>s. SQLiteOut (sq_env c i 0) s t)"
  "sp_In (sqlite_space c) i q dur = as_loop (sq_texts c) (\<lambda>t. t) (SQLiteIn (sq_rounds c i) (sq_env c i) (alone (sq_poll c i)) (Some q) dur)"
  "sp_Read (sqlite_space c) i q dur = as_loop (sq_texts c) Some (SQLiteRead (sq_rounds c i) (sq_env c i) (alone (sq_poll c i)) (Some q) dur)"
  "sp_Query (sqlite_space c) i q = as_read (sq_texts c) (\<lambda>d. SQLiteQuery (sq_env c i 0) d (Some q))"
  "sp_Take (sqlite_space c) i q = as_call (sq_texts c) (\<lambda>s. SQLiteTake (sq_env c i 0) s (Some q))"
  "sp_Update (sqlite_space c) i k u = as_call (sq_texts c) (\<lambda>s. SQLiteUpdate (sq_env c i 0) s k (Some u))"
  "sp_Complete (sqlite_space c) i k ag tok res = as_call (sq_texts c) (\<lambda>s. SQLiteComplete (sq_env c i 0) s k ag tok res)"
  "sp_CompleteAndOut (sqlite_space c) i k ag tok res outs = as_call (sq_texts c) (\<lambda>s. SQLiteCompleteAndOut (sq_env c i 0) s k ag tok res outs)"
  "sp_Release (sqlite_space c) i k ag tok reason = as_call (sq_texts c) (\<lambda>s. SQLiteRelease (sq_env c i 0) s k ag tok reason)"
  "sp_RenewLease (sqlite_space c) i k ag tok dur = as_call (sq_texts c) (\<lambda>s. SQLiteRenewLease (sq_env c i 0) s k ag tok dur)"
  "sp_GetEvents (sqlite_space c) i k = as_read (sq_texts c) (\<lambda>d. SQLiteGetEvents (sq_env c i 0) d k)"
  "sp_GetGlobalEvents (sqlite_space c) i lim off = as_read (sq_texts c) (\<lambda>d. SQLiteGetGlobalEvents (sq_env c i 0) d lim off)"
  "sp_GetDAG (sqlite_space c) i k = (\<lambda>s. map_option (\<lambda>g. (Inr g, s)) (SQLiteGetDAG (sq_env c i) (s_db s) k))"
  "sp_UpdateAndGet (sqlite_space c) = Some (\<lambda>i k u. as_call (sq_texts c) (\<lambda>s. map_prod (map_sum (\<lambda>er. er) Some) (\<lambda>s. s) (SQLiteUpdateAndGet (sq_env c i 0) s k (Some u))))"
  "sp_CompleteAndGet (sqlite_space c) = Some (\<lambda>i k ag tok res. as_call (sq_texts c) (\<lambda>s. map_prod (map_sum (\<lambda>er. er) Some) (\<lambda>s. s) (SQLiteCompleteAndGet (sq_env c i 0) s k ag tok res)))"
  "sp_ReleaseAndGet (sqlite_space c) = Some (\<lambda>i k ag tok reason. as_call (sq_texts c) (\<lambda>s. map_prod (map_sum (\<lambda>er. er) Some) (\<lambda>s. s) (SQLiteReleaseAndGet (sq_env c i 0) s k ag tok reason)))"
  "sp_BatchTake (sqlite_space c) = None"
  "sp_Count (sqlite_space c) = Some (\<lambda>i q. as_read (sq_texts c) (\<lambda>d. SQLiteCount (sq_env c i 0) d (Some q)))"
  "sp_CountByStatus (sqlite_space c) = None"
  "sp_QueryEvents (sqlite_space c) = Some (\<lambda>i q. as_read (sq_texts c) (\<lambda>d. SQLiteQueryEvents (sq_env c i 0) d (Some q)))"
  "sp_RecordSpans (sqlite_space c) = None" "sp_ListSpans (sqlite_space c) = None"
  "sp_Health (sqlite_space c) = Some (\<lambda>i. as_read (sq_texts c) (\<lambda>d. SQLiteHealth (sq_env c i 0) d))"
  "sp_ShardMapInfo (sqlite_space c) = None" "sp_ShardHealthInfo (sqlite_space c) = None"
  "sp_ShardQueueStats (sqlite_space c) = None" "sp_DebugInvariants (sqlite_space c) = None"
  by (simp_all add: sqlite_space_def Let_def)

lemma map_prod_call: "map_prod (map_sum (\<lambda>er. er) g) (\<lambda>s. s) r = (x, s') \<Longrightarrow> \<exists>y. r = (y, s') \<and> x = map_sum (\<lambda>er. er) g y"
  by (cases r) auto

lemma sqlite_get_ns: "good_store s \<Longrightarrow> SQLiteGet e (s_db s) k = Inr t \<Longrightarrow> belongs sqlite_row_ns (sqlite_row s) k (effectiveAgentNamespace t)"
  by (auto simp: SQLiteGet_def good_store_def belongs_def sqlite_row_def effective_scan elim!: fetch_InrD)

lemma kept_store_writes:
  assumes "\<And>s x s'. good_store s \<Longrightarrow> f s = (x, s') \<Longrightarrow> kept_store k s x s'"
  shows "writes_one good_store sqlite_row sqlite_row_ns k (as_call lib (\<lambda>s. map_prod h (\<lambda>s. s) (f s)))"
proof (rule writes_one_call)
  fix s y s' assume g: "good_store s" and "map_prod h (\<lambda>s. s) (f s) = (y, s')"
  then obtain x where "f s = (x, s')" by (cases "f s") auto
  then show "good_store s' \<and> (\<forall>j. j \<noteq> k \<longrightarrow> sqlite_row s' j = sqlite_row s j) \<and>
    (\<forall>ns. belongs sqlite_row_ns (sqlite_row s) k ns \<longrightarrow> belongs sqlite_row_ns (sqlite_row s') k ns)"
    using assms[OF g] unfolding kept_store_def by blast
qed

lemma drop_result:
  "SQLiteComplete e s k ag tok res = map_prod (\<lambda>r. bindr r (\<lambda>_. Inr ())) (\<lambda>s. s) (SQLiteCompleteAndGet e s k ag tok res)"
  "SQLiteRelease e s k ag tok reason = map_prod (\<lambda>r. bindr r (\<lambda>_. Inr ())) (\<lambda>s. s) (SQLiteReleaseAndGet e s k ag tok reason)"
  "SQLiteUpdate e s k (Some u) = map_prod (\<lambda>r. bindr r (\<lambda>_. Inr ())) (\<lambda>s. s) (SQLiteUpdateAndGet e s k (Some u))"
  by (simp_all add: SQLiteComplete_def SQLiteRelease_def SQLiteUpdate_def map_prod_def Let_def split_beta)

lemma lease_writes:
  "writes_one good_store sqlite_row sqlite_row_ns k (as_call lib (\<lambda>s. map_prod h (\<lambda>s. s) (SQLiteCompleteAndGet e s k ag tok res)))"
  "writes_one good_store sqlite_row sqlite_row_ns k (as_call lib (\<lambda>s. map_prod h (\<lambda>s. s) (SQLiteReleaseAndGet e s k ag tok reason)))"
  "writes_one good_store sqlite_row sqlite_row_ns k (as_call lib (\<lambda>s. SQLiteRenewLease e s k ag tok dur))"
proof -
  show "writes_one good_store sqlite_row sqlite_row_ns k (as_call lib (\<lambda>s. map_prod h (\<lambda>s. s) (SQLiteCompleteAndGet e s k ag tok res)))"
    by (rule kept_store_writes) (rule lease_ops_kept(1))
  show "writes_one good_store sqlite_row sqlite_row_ns k (as_call lib (\<lambda>s. map_prod h (\<lambda>s. s) (SQLiteReleaseAndGet e s k ag tok reason)))"
    by (rule kept_store_writes) (rule lease_ops_kept(2))
  show "writes_one good_store sqlite_row sqlite_row_ns k (as_call lib (\<lambda>s. SQLiteRenewLease e s k ag tok dur))"
    using lease_ops_kept(3) unfolding kept_store_def by (intro writes_one_call) blast
qed

lemma lease_result_ns:
  "good_store s \<Longrightarrow> SQLiteCompleteAndGet e s k ag tok res = (Inr t, s') \<Longrightarrow> belongs sqlite_row_ns (sqlite_row s) k (effectiveAgentNamespace t)"
  "good_store s \<Longrightarrow> SQLiteReleaseAndGet e s k ag tok reason = (Inr t, s') \<Longrightarrow> belongs sqlite_row_ns (sqlite_row s) k (effectiveAgentNamespace t)"
  "good_store s \<Longrightarrow> SQLiteRenewLease e s k ag tok dur = (Inr t, s') \<Longrightarrow> belongs sqlite_row_ns (sqlite_row s) k (effectiveAgentNamespace t)"
  using lease_ops_kept(1)[of s e k ag tok res "Inr t" s'] lease_ops_kept(2)[of s e k ag tok reason "Inr t" s']
    lease_ops_kept(3)[of s e k ag tok dur "Inr t" s'] by (simp_all add: kept_store_def)

lemma dag_reads: "reads_only good row (\<lambda>s. map_option (\<lambda>g. (Inr g, s)) (f s))"
  by (auto simp: reads_only_def wp_def split: option.split)

lemma update_writes:
  assumes "keeps_namespace ns u"
  shows "writes_own good_store sqlite_row sqlite_row_ns ns k (as_call lib (\<lambda>s. map_prod h (\<lambda>s. s) (SQLiteUpdateAndGet e s k (Some u))))"
  unfolding writes_own_def
proof (intro allI impI, rule wpI)
  fix s y s' assume s: "good_store s" "belongs sqlite_row_ns (sqlite_row s) k ns"
    and "as_call lib (\<lambda>s. map_prod h (\<lambda>s. s) (SQLiteUpdateAndGet e s k (Some u))) s = Some (y, s')"
  then obtain x where "SQLiteUpdateAndGet e s k (Some u) = (x, s')" by (cases "SQLiteUpdateAndGet e s k (Some u)") (auto simp: as_call_def)
  then show "good_store s' \<and> (\<forall>j. j \<noteq> k \<longrightarrow> sqlite_row s' j = sqlite_row s j) \<and> belongs sqlite_row_ns (sqlite_row s') k ns"
    using update_kept[OF s] assms by (simp add: keeps_namespace_def)
qed

lemma sqlite_scoped_space: "scoped_space (sqlite_space c) good_store sqlite_row sqlite_row_ns (drawn c e)"
proof
  fix i q dur and s :: sqlite_store and ns s' k ag tok res outs u and t :: agent
  show "reads_only good_store sqlite_row (sp_Read (sqlite_space c) i q dur)"
    by (auto simp: reads_only_def intro!: wpI dest!: as_loop_Some dest: read_kept)
  show "effectiveAgentNamespace t = ns" if "scoped ns q" "sp_Read (sqlite_space c) i q dur s = Some (Inr (Some t), s')" for t
    using that by (auto simp: map_sum_Inr dest!: as_loop_Some dest: read_kept(2))
  show "good_store s' \<and> foreign_kept sqlite_row_ns ns (sqlite_row s) (sqlite_row s') \<and> (\<forall>t. y = Inr t \<longrightarrow> effectiveAgentNamespace t = ns)"
    if "good_store s" "scoped ns q" "sp_In (sqlite_space c) i q dur s = Some (y, s')" for y
    using that in_scoped by (fastforce simp: map_sum_Inr dest!: as_loop_Some)
  show "good_store s' \<and> foreign_kept sqlite_row_ns ns (sqlite_row s) (sqlite_row s') \<and> (\<forall>t. y = Inr (Some t) \<longrightarrow> effectiveAgentNamespace t = ns)"
    if "good_store s" "scoped ns q" "sp_Take (sqlite_space c) i q s = Some (y, s')" for y
    using that take_scoped by (fastforce simp: map_sum_Inr dest!: as_call_Some)
  show "good_store s' \<and> (\<forall>j. j \<noteq> a_ID t \<longrightarrow> sqlite_row s' j = sqlite_row s j) \<and>
      (\<forall>t'. w = Inr t' \<longrightarrow> (\<forall>ns. ns \<noteq> [] \<longrightarrow> trim_space ns = ns \<longrightarrow> a_NamespaceID t = ns \<longrightarrow> effectiveAgentNamespace t' = ns))"
    if "good_store s" "a_ID t \<noteq> []" "sp_Out (sqlite_space c) i t s = Some (w, s')" for w
    using that out_kept[OF that(1,2)] by (fastforce simp: map_sum_Inr dest!: as_call_Some)
  show "good_store s' \<and> (\<forall>j. j \<noteq> k \<longrightarrow> j \<notin> drawn c e \<longrightarrow> sqlite_row s' j = sqlite_row s j) \<and>
      (\<forall>t ts. w = Inr (t, ts) \<longrightarrow> belongs sqlite_row_ns (sqlite_row s) k (effectiveAgentNamespace t) \<and> (\<forall>t' \<in> set ts. effectiveAgentNamespace t' = ns))"
    if "good_store s" "list_all (\<lambda>t. a_ID t = [] \<and> a_NamespaceID t = ns) outs" "ns \<noteq> []" "trim_space ns = ns"
      "sp_CompleteAndOut (sqlite_space c) i k ag tok res outs s = Some (w, s')" for w
  proof -
    note w = that
    obtain x where x: "SQLiteCompleteAndOut (sq_env c i 0) s k ag tok res outs = (x, s')" "w = map_sum (err_of (sq_texts c)) (\<lambda>t. t) x"
      using w(5) by (auto dest!: as_call_Some)
    have "uuid (sq_env c i 0) n \<in> drawn c e" for n unfolding drawn_def by blast
    from complete_out_kept[OF w(1-4) this x(1)] show ?thesis using x(2) by (simp add: map_sum_Inr)
  qed
  show "effectiveAgentNamespace t = ns"
    if "sp_UpdateAndGet (sqlite_space c) = Some ug" "keeps_namespace ns u" "good_store s" "belongs sqlite_row_ns (sqlite_row s) k ns"
      "ug i k u s = Some (Inr (Some t), s')" for ug
    using that update_kept[OF that(3,4)] by (fastforce simp: keeps_namespace_def as_call_Inr map_sum_Inr dest!: map_prod_call)
qed (auto simp: as_read_reads as_read_Inr sqlite_get_ns query_scoped drop_result update_writes as_call_Inr map_sum_Inr
    lease_writes dag_reads lease_result_ns(3) dest!: map_prod_call, blast intro: lease_result_ns(1), blast intro: lease_result_ns(2))

interpretation sqlite_scoped: scoped_space "sqlite_space c" good_store sqlite_row sqlite_row_ns "drawn c e" for c e
  by (rule sqlite_scoped_space)

interpretation sqlite_api: scoped_api "sqlite_handlers c" good_store sqlite_row sqlite_row_ns "drawn c e" for c e
  by (rule scoped_api.intro) (simp_all add: sqlite_handlers_def requestSpace_def sqlite_scoped_space)

end
