(* ===== verification/Api_Access.thy ===== *)
theory Api_Access
  imports Api_Server
begin

text \<open>
  Who gets through to the handlers: the keys a file yields, what a key lookup finds, which requests authentication
  and the admin routes stop in front of the store, and what the production profile guarantees about the settings.
\<close>

section \<open>Keys\<close>

definition wf_limits :: "namespace_limits \<Rightarrow> bool" where
  "wf_limits l = (0 \<le> l_RateLimitRequests l \<and> 0 \<le> l_RateLimitWindow l \<and> 0 \<le> l_MaxBodyBytes l \<and>
     0 \<le> l_MaxActiveAgents l \<and> 0 \<le> l_MaxQueueDepth l)"

definition wf_entry :: "key_entry \<Rightarrow> bool" where
  "wf_entry k = (k_RawKey k \<noteq> [] \<and> trim_space (k_RawKey k) = k_RawKey k \<and> p_NamespaceID (k_Principal k) \<noteq> [] \<and>
     trim_space (p_NamespaceID (k_Principal k)) = p_NamespaceID (k_Principal k) \<and> wf_limits (p_Limits (k_Principal k)))"

lemma key_limits_wf: "key_limits_of idx l = Inr x \<Longrightarrow> wf_limits x"
  by (auto simp: key_limits_of_def Let_def wf_limits_def split: option.splits if_splits)

lemma load_keys_wf:
  "load_keys idx seen recs = Inr ks \<Longrightarrow>
     list_all wf_entry ks \<and> distinct (map k_RawKey ks) \<and> set (map k_RawKey ks) \<inter> set seen = {} \<and> length ks = length recs"
proof (induction recs arbitrary: idx seen ks)
  case (Cons rc rest)
  obtain limits out where r: "trim_space (kr_APIKey rc) \<noteq> []" "trim_space (kr_NamespaceID rc) \<noteq> []"
    "trim_space (kr_APIKey rc) \<notin> set seen" "key_limits_of idx (kr_Limits rc) = Inr limits"
    "load_keys (Suc idx) (trim_space (kr_APIKey rc) # seen) rest = Inr out"
    "ks = \<lparr> k_RawKey = trim_space (kr_APIKey rc), k_Principal = \<lparr> p_NamespaceID = trim_space (kr_NamespaceID rc),
        p_Admin = kr_Admin rc, p_Limits = limits \<rparr> \<rparr> # out"
    using Cons.prems by (auto simp: Let_def bindr_eq_Inr split: if_splits)
  show ?case using Cons.IH[OF r(5)] r key_limits_wf[OF r(4)] by (auto simp: wf_entry_def)
qed simp

lemma find_snoc: "find P (xs @ [x]) = (case find P xs of Some y \<Rightarrow> Some y | None \<Rightarrow> if P x then Some x else None)"
  by (induction xs) auto

lemma lookup_fold:
  "fold (\<lambda>k found. if hmac key = hmac (k_RawKey k) then Some (k_Principal k) else found) es acc =
     (case find (\<lambda>k. hmac key = hmac (k_RawKey k)) (rev es) of Some k \<Rightarrow> Some (k_Principal k) | None \<Rightarrow> acc)"
  by (induction es arbitrary: acc) (auto simp: find_snoc split: option.splits)

lemma lookup_find:
  "constantTimeLookup hmac es key = map_option k_Principal (find (\<lambda>k. hmac key = hmac (k_RawKey k)) (rev es))"
  unfolding constantTimeLookup_def lookup_fold by (simp split: option.split)

lemma find_rev_unique:
  assumes "distinct (map f xs)"
  shows "find (\<lambda>x. f x = k) (rev xs) = find (\<lambda>x. f x = k) xs"
proof (cases "\<exists>x \<in> set xs. f x = k")
  case True
  then obtain x where x: "x \<in> set xs" "f x = k" by blast
  have "find (\<lambda>y. f y = f x) xs = Some x" "find (\<lambda>y. f y = f x) (rev xs) = Some x"
    using assms x(1) by (auto intro!: find_eq_Some_key simp flip: rev_map)
  then show ?thesis using x(2) by simp
next
  case False
  then show ?thesis by (simp add: find_None_iff[THEN iffD2])
qed

lemma lookup_exact:
  assumes "inj_on hmac (insert key (k_RawKey ` set es))" "distinct (map k_RawKey es)"
  shows "constantTimeLookup hmac es key = map_option k_Principal (find (\<lambda>k. k_RawKey k = key) es)"
proof -
  have "find (\<lambda>k. hmac key = hmac (k_RawKey k)) (rev es) = find (\<lambda>k. k_RawKey k = key) (rev es)"
    by (rule find_cong) (use assms(1) in \<open>auto dest: inj_onD\<close>)
  then show ?thesis by (simp add: lookup_find find_rev_unique[OF assms(2)])
qed

lemma loaded_keys_wf:
  assumes "LoadAuthKeyPrincipals rd dec path = Inr keys"
  shows "list_all wf_entry keys \<and> distinct (map k_RawKey keys)"
  using assms load_keys_wf[of 0 "[]"]
  by (auto simp: LoadAuthKeyPrincipals_def Let_def split: if_splits option.splits)

section \<open>Actions that only answer\<close>

text \<open>\<open>quiet P m\<close>: from every state the action ends, leaves the state as it was, and its answer satisfies \<open>P\<close>.\<close>

definition quiet :: "('a \<Rightarrow> bool) \<Rightarrow> ('s, 'a) act \<Rightarrow> bool" where
  "quiet P m = (\<forall>s. \<exists>x. m s = Some (x, s) \<and> P x)"

lemma quiet_ret [simp]: "quiet P (ret x) = P x"
  by (simp add: quiet_def ret_def)

lemma quiet_then: "quiet (\<lambda>x. P (f x)) m \<Longrightarrow> quiet P (andThen m (\<lambda>x. ret (f x)))"
  by (auto simp: quiet_def andThen_def ret_def) (metis bind.bind_lunit case_prod_conv)

text \<open>An answer given in front of the handlers: a refusal or the answer to a preflight.\<close>

definition refusal :: "http_response \<Rightarrow> bool" where
  "refusal resp = (rs_Status resp \<in> {204, 401, 403, 404} \<and> (rs_Body resp = BNone \<or> (\<exists>t. rs_Body resp = BText t)))"

lemma refusal_headers [simp]: "refusal (with_headers hs resp) = refusal resp"
  by (simp add: refusal_def with_headers_def)

lemma refusal_simps [simp]:
  "refusal unauthorized" "refusal (http_error ''Forbidden'' 403)" "refusal (http_error ''CORS origin not allowed'' 403)"
  "refusal (http_error ''Telemetry endpoints disabled'' 404)" "refusal (respond 204 BNone)"
  by (simp_all add: refusal_def unauthorized_def http_error_def respond_def)

lemma quiet_cors: "quiet refusal (nxt r) \<Longrightarrow> quiet refusal (CORSMiddlewareWithConfig cfg nxt r)"
  by (simp add: CORSMiddlewareWithConfig_def Let_def quiet_then)

lemma quiet_security: "quiet refusal (nxt r) \<Longrightarrow> quiet refusal (SecurityHeadersMiddleware nxt r)"
  by (simp add: SecurityHeadersMiddleware_def quiet_then)

lemma quiet_telemetry: "quiet refusal (nxt r) \<Longrightarrow> quiet refusal (TelemetryModeMiddleware mode nxt r)"
  by (simp add: TelemetryModeMiddleware_def)

lemma serve_quiet:
  fixes h :: "'s handlers"
  assumes "\<And>core :: ('s \<times> rate_table) http_handler. quiet refusal (AuthMiddleware (ce_hmac ce) (ss_Auth ss) (AdminOnlyMiddleware DefaultAdminRouteConfig core)
    (r \<lparr> r_Principal := None \<rparr>))"
  shows "quiet refusal (serve ss ce debug prometheus e h r)"
  unfolding serve_def server_chain_def ApplyMiddleware_def Let_def
  by (cases "ss_Profile ss = ''benchmark''")
    (auto simp: resolveHTTPRuntimeOptions_def intro!: quiet_security quiet_cors quiet_telemetry assms)

section \<open>Properties\<close>

definition demo_record :: "string \<Rightarrow> string \<Rightarrow> bool \<Rightarrow> key_record" where
  "demo_record key ns admin = \<lparr> kr_APIKey = key, kr_NamespaceID = ns, kr_Admin = admin,
     kr_Limits = \<lparr> kl_RateLimitRequests = 5, kl_RateLimitWindow = ''1m30s'', kl_MaxBodyBytes = 0, kl_MaxActiveAgents = 2,
       kl_MaxQueueDepth = 0 \<rparr> \<rparr>"

definition demo_read :: "string \<Rightarrow> string option" where
  "demo_read path = (if path = ''keys.json'' then Some ''K'' else None)"

definition demo_decode :: "string \<Rightarrow> key_record list option" where
  "demo_decode raw = (if raw = ''K'' then Some [demo_record '' k1 '' ''red'' False, demo_record ''k2'' ''blue'' True] else None)"

definition demo_principal :: "string \<Rightarrow> bool \<Rightarrow> auth_principal" where
  "demo_principal ns admin = \<lparr> p_NamespaceID = ns, p_Admin = admin, p_Limits = \<lparr> l_RateLimitRequests = 5,
     l_RateLimitWindow = 90 * Second, l_MaxBodyBytes = 0, l_MaxActiveAgents = 2, l_MaxQueueDepth = 0 \<rparr> \<rparr>"

definition demo_keys :: "key_entry list" where
  "demo_keys = [\<lparr> k_RawKey = ''k1'', k_Principal = demo_principal ''red'' False \<rparr>,
     \<lparr> k_RawKey = ''k2'', k_Principal = demo_principal ''blue'' True \<rparr>]"

lemma demo_loaded: "LoadAuthKeyPrincipals demo_read demo_decode ''keys.json'' = Inr demo_keys"
  by code_simp

definition demo_request :: "string \<Rightarrow> string \<Rightarrow> string \<Rightarrow> http_request" where
  "demo_request m path key = \<lparr> r_Method = m, r_Path = path, r_Header = [(''X-API-Key'', key)], r_Query = [],
     r_RemoteAddr = ''10.0.0.7:443'', r_ContentLength = 0, r_Body = \<lparr> b_Bytes = [], b_Limit = None \<rparr>, r_Principal = None,
     r_Context = Background \<rparr>"

definition demo_viper :: viper where
  "demo_viper = \<lparr> vp_String = (\<lambda>k. if k = ''runtime.profile'' then ''Production'' else if k = ''auth.keys_file'' then ''keys.json'' else []),
     vp_Int = (\<lambda>k. 0), vp_Bool = (\<lambda>k. False) \<rparr>"

definition demo_settings :: server_settings where
  "demo_settings = settings_of demo_viper demo_keys"

text \<open>C20: The keys a file yields authenticate exactly their principals: a request with the key of an entry goes on with the
  principal of that entry, any other request (outside the exempt paths) is refused with 401.  The HMAC is assumed to
  tell the provided key and the keys of the file apart.
\<close>

theorem auth_principal_exact:
  assumes "LoadAuthKeyPrincipals rd dec path = Inr keys" "keys \<noteq> []" "ac_KeyPrincipals cfg = keys"
    and "r_Path r \<notin> set (if ac_ExemptPaths cfg = [] then DefaultAuthExemptPaths else ac_ExemptPaths cfg)"
    and "inj_on hmac (insert (trim_space (header_get r ''X-API-Key'')) (k_RawKey ` set keys))"
  shows "authenticate hmac cfg r =
    (case find (\<lambda>k. k_RawKey k = trim_space (header_get r ''X-API-Key'')) keys of
       Some k \<Rightarrow> Inr (withAuthPrincipal r (k_Principal k)) | None \<Rightarrow> Inl unauthorized)"
proof -
  let ?key = "trim_space (header_get r ''X-API-Key'')"
  have wf: "list_all wf_entry keys" "distinct (map k_RawKey keys)" using loaded_keys_wf[OF assms(1)] by auto
  have look: "constantTimeLookup hmac keys ?key = map_option k_Principal (find (\<lambda>k. k_RawKey k = ?key) keys)"
    using lookup_exact[OF assms(5) wf(2)] .
  have none: "find (\<lambda>k. k_RawKey k = []) keys = None"
    using wf(1) by (auto simp: find_None_iff list_all_iff wf_entry_def)
  show ?thesis using assms(2,3,4) look none by (auto simp: authenticate_def Let_def split: option.split)
qed

theorem auth_principal_exact_witness:
  "authenticate (\<lambda>k. k) (ss_Auth demo_settings) (demo_request ''GET'' ''/api/v1/stats'' ''k2'') =
     Inr (withAuthPrincipal (demo_request ''GET'' ''/api/v1/stats'' ''k2'') (demo_principal ''blue'' True))"
  using auth_principal_exact[OF demo_loaded, of "ss_Auth demo_settings" "demo_request ''GET'' ''/api/v1/stats'' ''k2''" "\<lambda>k. k"]
  by (simp add: demo_settings_def settings_of_def Let_def demo_keys_def DefaultAuthExemptPaths_def demo_request_def header_get_def
      str_at_def trim_space_def is_space_def)

text \<open>C6: A request that does not authenticate, or asks for an admin path without an admin principal, is stopped in front of
  the store: the server answers, and neither the store nor the table of the rate limiter changes.
\<close>

theorem stopped_before_store:
  assumes "ac_APIKey (ss_Auth ss) \<noteq> [] \<or> ac_KeyPrincipals (ss_Auth ss) \<noteq> []"
    and "case authenticate (ce_hmac ce) (ss_Auth ss) (r \<lparr> r_Principal := None \<rparr>) of
      Inl _ \<Rightarrow> True
    | Inr r' \<Rightarrow> admin_path DefaultAdminRouteConfig (r_Path r) \<and> (\<forall>p. r_Principal r' = Some p \<longrightarrow> \<not> p_Admin p)"
  shows "\<exists>resp. serve ss ce debug prometheus e h r s = Some (resp, s) \<and> refusal resp"
proof -
  have keep: "authenticate (ce_hmac ce) (ss_Auth ss) q = Inr r' \<Longrightarrow> r_Path r' = r_Path q" for q r'
    by (auto simp: authenticate_def Let_def withAuthPrincipal_def split: if_splits option.splits)
  have inl: "authenticate (ce_hmac ce) (ss_Auth ss) q = Inl resp \<Longrightarrow> refusal resp" for q resp
    using assms(1) by (auto simp: authenticate_def Let_def split: if_splits option.splits)
  have "quiet refusal (serve ss ce debug prometheus e h r)"
    by (rule serve_quiet) (use assms(2) inl keep in \<open>auto simp: AuthMiddleware_def AdminOnlyMiddleware_def
      AuthPrincipalFromContext_def split: sum.splits option.split\<close>)
  then show ?thesis unfolding quiet_def by blast
qed

definition demo_chain :: chain_env where
  "demo_chain = \<lparr> ce_now = 0, ce_hmac = (\<lambda>k. k), ce_expired = False \<rparr>"

theorem stopped_before_store_witness:
  "\<forall>e (h :: unit handlers) s. \<exists>resp. serve demo_settings demo_chain False (\<lambda>r. ret (respond 200 BNone)) e h
     (demo_request ''GET'' ''/stats'' ''k1'') s = Some (resp, s) \<and> refusal resp"
proof (intro allI, rule stopped_before_store)
  show "case authenticate (ce_hmac demo_chain) (ss_Auth demo_settings) ((demo_request ''GET'' ''/stats'' ''k1'') \<lparr> r_Principal := None \<rparr>) of
      Inl _ \<Rightarrow> True
    | Inr r' \<Rightarrow> admin_path DefaultAdminRouteConfig (r_Path (demo_request ''GET'' ''/stats'' ''k1'')) \<and> (\<forall>p. r_Principal r' = Some p \<longrightarrow> \<not> p_Admin p)"
    by (simp add: authenticate_def demo_settings_def settings_of_def Let_def demo_keys_def DefaultAuthExemptPaths_def demo_request_def
      header_get_def str_at_def trim_space_def is_space_def demo_chain_def constantTimeLookup_def demo_principal_def
      withAuthPrincipal_def admin_path_def DefaultAdminRouteConfig_def)
qed (simp add: demo_settings_def settings_of_def Let_def demo_keys_def)

lemma splitCommaList_trimmed: "x \<in> set (splitCommaList v) \<Longrightarrow> trim_space x = x"
  by (auto simp: splitCommaList_def split: if_splits)

lemma parseDurationOrDefault_pos: "0 < d \<Longrightarrow> 0 < parseDurationOrDefault v d"
  by (auto simp: parseDurationOrDefault_def split: option.split)

lemma check_settings_ok:
  assumes "check_settings v tel loaded = Inr ss"
  obtains keys where "loaded = Inr keys" "ss = settings_of v keys"
    "ss_Profile ss = ''production'' \<Longrightarrow> keys \<noteq> [] \<and> ''*'' \<notin> set (co_AllowedOrigins (ss_CORS ss))"
  using assms by (auto simp: check_settings_def guard_start_def Let_def split: sum.splits if_splits)

text \<open>C22: What starting in the production profile guarantees: a required key from a non-empty key file, no wildcard origin, a
  rate limit, a body limit and a request timeout, and an encrypted Postgres connection.
\<close>

theorem production_hardened:
  assumes "check_settings v tel (LoadAuthKeyPrincipals rd dec path) = Inr ss" "ss_Profile ss = ''production''"
  shows "ac_Mode (ss_Auth ss) = AuthModeRequired \<and> ac_KeyPrincipals (ss_Auth ss) \<noteq> [] \<and>
    list_all wf_entry (ac_KeyPrincipals (ss_Auth ss)) \<and> \<not> allow_any_origin (ss_CORS ss) \<and>
    0 < rl_RequestsPerWindow (ss_Rate ss) \<and> 0 < rl_Window (ss_Rate ss) \<and> 0 < ss_MaxBodyBytes ss \<and>
    0 < ss_RequestTimeout ss \<and> ss_PgSSLMode ss \<noteq> ''disable''"
proof -
  obtain keys where k: "LoadAuthKeyPrincipals rd dec path = Inr keys" "ss = settings_of v keys" "keys \<noteq> []"
    "''*'' \<notin> set (co_AllowedOrigins (ss_CORS ss))" using check_settings_ok[OF assms(1)] assms(2) by metis
  have prod: "lower_or v ''runtime.profile'' ''dev'' = ''production''" using assms(2) k(2) by (simp add: settings_of_def Let_def)
  have "\<forall>x \<in> set (co_AllowedOrigins (ss_CORS ss)). trim_space x = x"
    using k(2) prod splitCommaList_trimmed by (auto simp: settings_of_def Let_def cors_origins_def)
  then have "\<not> allow_any_origin (ss_CORS ss)" using k(4) by (force simp: allow_any_origin_def)
  then show ?thesis using k loaded_keys_wf[OF k(1)] prod parseDurationOrDefault_pos[of Second] parseDurationOrDefault_pos[of "30 * Second"]
    by (auto simp: settings_of_def Let_def auth_mode_of_def Second_def AuthModeRequired_def)
qed

theorem production_hardened_witness:
  "ac_Mode (ss_Auth demo_settings) = AuthModeRequired \<and> \<not> allow_any_origin (ss_CORS demo_settings) \<and>
   ss_PgSSLMode demo_settings \<noteq> ''disable''"
proof -
  have "check_settings demo_viper False (LoadAuthKeyPrincipals demo_read demo_decode ''keys.json'') = Inr demo_settings"
    unfolding demo_loaded by code_simp
  moreover have "ss_Profile demo_settings = ''production''" by code_simp
  ultimately show ?thesis using production_hardened by blast
qed

end
