(* ===== verification/Api_Namespaces.thy ===== *)
theory Api_Namespaces
  imports Api_Sqlite Api_Access
begin

text \<open>
  Isolation of namespaces from end to end: a request that enters the server's middleware chain, is authenticated as a
  principal bound to a namespace, and reaches the handlers over the SQLite store.
\<close>

section \<open>Through the middleware\<close>

abbreviation iso_chain ::
  "('s \<Rightarrow> bool) \<Rightarrow> ('s \<Rightarrow> string \<Rightarrow> 'r option) \<Rightarrow> ('r \<Rightarrow> string) \<Rightarrow> string set \<Rightarrow> string \<Rightarrow> ('s \<times> rate_table, http_response) act \<Rightarrow> bool" where
  "iso_chain good row row_ns uuids ns \<equiv> isolated (\<lambda>x. good (fst x)) (\<lambda>x. row (fst x)) row_ns uuids ns (\<lambda>_. True)"

lemma iso_on_store: "isolated good row row_ns uuids ns (\<lambda>_. True) m \<Longrightarrow> iso_chain good row row_ns uuids ns (on_store m)"
  by (fastforce simp: isolated_def wp_def on_store_def iso_post_def split: option.splits)

lemma isolated_map:
  assumes m: "isolated good row row_ns uuids ns P m"
    and g: "\<And>rows resp. own_body row_ns ns rows (rs_Body resp) \<Longrightarrow> own_body row_ns ns rows (rs_Body (g resp))"
  shows "isolated good row row_ns uuids ns P (andThen m (\<lambda>resp. ret (g resp)))"
  unfolding isolated_def wp_andThen
proof (intro allI impI)
  fix s assume "good s" "\<forall>u \<in> uuids. row s u = None" "P (row s)"
  from isolatedD[OF m this] show "wp m (\<lambda>x. wp (ret (g x)) (iso_post good row row_ns ns (row s))) s"
    by (rule wp_mono) (auto simp: iso_post_def g)
qed

lemma iso_headers:
  "isolated good row row_ns uuids ns P m \<Longrightarrow> isolated good row row_ns uuids ns P (andThen m (\<lambda>resp. ret (with_headers hs resp)))"
  by (rule isolated_map) (simp_all add: with_headers_def)

lemma shows_own_texts [simp]: "shows_own ns unauthorized" "shows_own ns (with_headers hs (http_error msg st))"
  "shows_own ns (with_headers hs (respond st BNone))" "shows_own ns (too_many n)"
  by (simp_all add: shows_own_def unauthorized_def with_headers_def too_many_def)

text \<open>The part of the chain in front of the principal, and the part behind it.\<close>

lemma iso_front:
  "isolated good row row_ns uuids ns P (nxt r) \<Longrightarrow> isolated good row row_ns uuids ns P (SecurityHeadersMiddleware nxt r)"
  "isolated good row row_ns uuids ns P (nxt r) \<Longrightarrow> isolated good row row_ns uuids ns P (CORSMiddlewareWithConfig cfg nxt r)"
  "isolated good row row_ns uuids ns P (nxt r) \<Longrightarrow> isolated good row row_ns uuids ns P (TelemetryModeMiddleware mode nxt r)"
  unfolding SecurityHeadersMiddleware_def CORSMiddlewareWithConfig_def TelemetryModeMiddleware_def Let_def
  by (simp_all add: iso_headers isolated_ret)

lemma iso_admin: "isolated good row row_ns uuids ns P (nxt r) \<Longrightarrow> isolated good row row_ns uuids ns P (AdminOnlyMiddleware cfg nxt r)"
  unfolding AdminOnlyMiddleware_def by (auto intro: isolated_ret split: option.split)

lemma iso_timeout: "isolated good row row_ns uuids ns P (nxt r) \<Longrightarrow> isolated good row row_ns uuids ns P (RequestTimeoutMiddleware d b x nxt r)"
  unfolding RequestTimeoutMiddleware_def by (auto intro: isolated_map)

lemma iso_body:
  "(\<And>b. isolated good row row_ns uuids ns P (nxt (r \<lparr> r_Body := b \<rparr>))) \<Longrightarrow> isolated good row row_ns uuids ns P (MaxBodyBytesMiddleware n m nxt r)"
proof -
  assume "\<And>b. isolated good row row_ns uuids ns P (nxt (r \<lparr> r_Body := b \<rparr>))"
  moreover from this[of "r_Body r"] have "isolated good row row_ns uuids ns P (nxt r)" by simp
  ultimately show ?thesis unfolding MaxBodyBytesMiddleware_def Let_def by simp
qed

lemma iso_rate:
  fixes good :: "'s \<Rightarrow> bool"
  assumes n: "iso_chain good row row_ns uuids ns (nxt r)"
  shows "iso_chain good row row_ns uuids ns (RateLimitMiddleware cfg now nxt r)"
  unfolding RateLimitMiddleware_def Let_def isolated_def
proof (intro allI impI)
  fix s :: "'s \<times> rate_table" assume s: "good (fst s)" "\<forall>u \<in> uuids. row (fst s) u = None"
  obtain st en where st: "s = (st, en)" by force
  have "wp (nxt r) (iso_post (\<lambda>x. good (fst x)) (\<lambda>x. row (fst x)) row_ns ns (row (fst s))) (st, en')" for en'
    using isolatedD[OF n, of "(st, en')"] s st by simp
  then show "wp (if rl_RequestsPerWindow cfg \<le> 0 \<or> rl_Window cfg \<le> 0 \<or> rl_MutatingOnly cfg \<and> \<not> isMutatingMethod (r_Method r) \<or>
        effective_limit cfg r \<le> 0 \<or> effective_window cfg r \<le> 0 then nxt r
     else (\<lambda>(s, entries). case rate_step now (client_key cfg r) (effective_limit cfg r) (effective_window cfg r) entries of
          (False, entries') \<Rightarrow> ret (too_many (retry_after now (entry_at entries (client_key cfg r) now (effective_window cfg r)) (effective_window cfg r))) (s, entries')
        | (True, entries') \<Rightarrow> nxt r (s, entries')))
      (iso_post (\<lambda>x. good (fst x)) (\<lambda>x. row (fst x)) row_ns ns (row (fst s))) s"
    using s st by (auto simp: wp_def ret_def iso_post_def shows_own_body split: prod.splits bool.splits)
qed

lemma serve_isolated:
  assumes auth: "authenticate (ce_hmac ce) (ss_Auth ss) (r \<lparr> r_Principal := None \<rparr>) = Inr r'"
    and mux: "\<And>b. isolated good row row_ns uuids ns (\<lambda>_. True) (mux debug prometheus e h (r' \<lparr> r_Body := b \<rparr>))"
  shows "iso_chain good row row_ns uuids ns (serve ss ce debug prometheus e h r)"
proof -
  have core: "iso_chain good row row_ns uuids ns (RateLimitMiddleware (ss_Rate ss) (ce_now ce) (\<lambda>r. on_store (mux debug prometheus e h r)) (r' \<lparr> r_Body := b \<rparr>))" for b
    by (intro iso_rate iso_on_store mux)
  from this[of "r_Body r'"] have core': "iso_chain good row row_ns uuids ns (RateLimitMiddleware (ss_Rate ss) (ce_now ce) (\<lambda>r. on_store (mux debug prometheus e h r)) r')"
    by simp
  show ?thesis unfolding serve_def server_chain_def ApplyMiddleware_def Let_def
    by (auto simp: resolveHTTPRuntimeOptions_def AuthMiddleware_def auth intro!: iso_front iso_admin iso_timeout iso_body core core')
qed

section \<open>Property\<close>


definition demo_tenant_row :: "string \<Rightarrow> string \<Rightarrow> agent_row" where
  "demo_tenant_row i ns = (demo_row i 100) \<lparr> r_metadata := JObj [(''namespace_id'', JStr ns)] \<rparr>"

definition demo_tenants :: sqlite_store where
  "demo_tenants = \<lparr> s_db = \<lparr> db_agents = [demo_tenant_row ''a'' ''blue'', demo_tenant_row ''b'' ''red''], db_events = [] \<rparr>,
     s_subs = NewSubscriptionRegistry, s_log = [] \<rparr>"

definition demo_calls :: sqlite_calls where
  "demo_calls = \<lparr> sq_env = (\<lambda>i n. quiet_env), sq_poll = (\<lambda>i. \<lparr> p_start = 0, p_now = (\<lambda>n. 0), p_done = (\<lambda>n. True), p_other = (\<lambda>n s. s) \<rparr>),
     sq_rounds = (\<lambda>i. 1), sq_texts = \<lparr> tx_quote = (\<lambda>s. s), tx_other = (\<lambda>er. plain_err ''driver'') \<rparr> \<rparr>"

definition demo_json :: json_lib where
  "demo_json = \<lparr> js_create = (\<lambda>b. DecErr), js_update = (\<lambda>b. DecErr), js_query = (\<lambda>b. DecErr),
     js_take = (\<lambda>b. DecOK \<lparr> tk_Query = empty_query, tk_Obs = None \<rparr>), js_batch_take = (\<lambda>b. DecErr), js_in = (\<lambda>b. DecErr),
     js_read = (\<lambda>b. DecErr), js_complete = (\<lambda>b. DecErr), js_complete_and_out = (\<lambda>b. DecErr), js_release = (\<lambda>b. DecErr),
     js_renew = (\<lambda>b. DecErr), js_span = (\<lambda>b. DecErr), js_batch = (\<lambda>b. DecErr) \<rparr>"

definition demo_api_env :: api_env where
  "demo_api_env = \<lparr> ae_json = demo_json, ae_now = (\<lambda>n. 0), ae_uuid = (\<lambda>n. ''fresh'') \<rparr>"

definition demo_get :: http_request where
  "demo_get = demo_request ''GET'' ''/api/v1/agents/b'' ''k1''"

lemma demo_authenticated:
  "authenticate (ce_hmac demo_chain) (ss_Auth demo_settings) (demo_get \<lparr> r_Principal := None \<rparr>) =
     Inr (demo_get \<lparr> r_Principal := Some (demo_principal ''red'' False) \<rparr>)"
  by (simp add: authenticate_def demo_settings_def settings_of_def Let_def demo_keys_def DefaultAuthExemptPaths_def demo_request_def
      header_get_def str_at_def trim_space_def is_space_def demo_chain_def constantTimeLookup_def demo_get_def withAuthPrincipal_def)

lemma demo_fresh: "u \<in> drawn demo_calls demo_api_env \<Longrightarrow> sqlite_row demo_tenants u = None"
  by (auto simp: drawn_def demo_calls_def demo_api_env_def quiet_env_def demo_tenants_def sqlite_row_def row_of_def
      demo_tenant_row_def demo_row_def)

lemma demo_tenants_good: "good_store demo_tenants"
  by (simp add: good_store_def wf_db_def wf_row_def demo_tenants_def demo_tenant_row_def demo_row_def is_object_def is_str_doc_def)

lemma demo_get_runs:
  "\<exists>resp s' l'. serve demo_settings demo_chain False (\<lambda>r. ret (respond 200 BNone)) demo_api_env (sqlite_handlers demo_calls)
     demo_get (demo_tenants, []) = Some (resp, (s', l'))"
proof -
  have opts: "ss_Profile demo_settings = ''production''" by code_simp
  have tel: "to_lower (trim_space (ss_TelemetryMode demo_settings)) \<noteq> ''disabled''" by code_simp
  have rl: "rl_MutatingOnly (ss_Rate demo_settings)" by (simp add: demo_settings_def settings_of_def Let_def)
  have req: "r_Method demo_get = ''GET''" "r_Path demo_get = ''/api/v1/agents/b''" "trim_space (header_get (demo_get \<lparr> r_Principal := p \<rparr>) ''Origin'') = []" for p
    by (simp_all add: demo_get_def demo_request_def header_get_def str_at_def)
  have agent: "extractIDFromPath ''/api/v1/agents/b'' agents_prefix = ''b''" by code_simp
  have clean: "clean_path ''/api/v1/agents/b''" by code_simp
  let ?r = "demo_get \<lparr> r_Principal := Some (demo_principal ''red'' False) \<rparr>"
  have "\<exists>x. GetAgent demo_api_env (sqlite_handlers demo_calls) ?r demo_tenants = Some x"
    by (auto simp: GetAgent_def Let_def req agent orAnswer_def andThen_def visibleAgent_def sqlite_handlers_def requestSpace_def
        as_read_def ret_def split: sum.split Option.bind_split prod.split)
  then have mux: "\<exists>x. mux False (\<lambda>r. ret (respond 200 BNone)) demo_api_env (sqlite_handlers demo_calls) ?r demo_tenants = Some x"
    by (simp add: mux_def agents_route_def Let_def req clean)
  then show ?thesis
    using demo_authenticated
    by (auto simp add: serve_def server_chain_def ApplyMiddleware_def Let_def resolveHTTPRuntimeOptions_def opts tel
        SecurityHeadersMiddleware_def CORSMiddlewareWithConfig_def TelemetryModeMiddleware_def AuthMiddleware_def
        AdminOnlyMiddleware_def admin_path_def DefaultAdminRouteConfig_def RequestTimeoutMiddleware_def MaxBodyBytesMiddleware_def
        RateLimitMiddleware_def isMutatingMethod_def req rl on_store_def andThen_def ret_def)
qed


end
