(* ===== verification/Api_Outcomes.thy ===== *)
theory Api_Outcomes
  imports Api_Sqlite
begin

text \<open>
  What clients of the HTTP API over the SQLite store observe: the quota check of CreateAgent, the status a refused lease
  operation answers with, and the graph that GetDAG shows.
\<close>

section \<open>Quotas\<close>

text \<open>The unexpired agents of a namespace in one status.\<close>

definition tenant_agents :: "gotime \<Rightarrow> db \<Rightarrow> string \<Rightarrow> status \<Rightarrow> agent list" where
  "tenant_agents now d ns st = filter (\<lambda>t. a_Status t = st \<and> map_of (or_nil (a_Metadata t)) NamespaceMetadataKey = Some ns)
     (visible_agents (UnixMilli now) d)"

lemma SQLiteCount_selected:
  assumes "wf_db d" "\<not> fault e CSelect" "\<not> fault e CScanRows"
  shows "SQLiteCount e d (Some q) = Inr (int (length (filter (query_selects (Some q)) (visible_agents (UnixMilli (clock e 0)) d))))"
proof -
  let ?q = "q \<lparr> q_Limit := 0, q_Offset := 0 \<rparr>"
  have sel: "query_selects (Some ?q) = query_selects (Some q)" by (simp add: query_selects_def fun_eq_iff MatchesQuery_Some)
  have "SQLiteQuery e d (Some ?q) = Inr (filter (query_selects (Some q)) (visible_agents (UnixMilli (clock e 0)) d))"
    using SQLiteQuery_spec[OF assms, of "Some ?q"] by (simp add: sel sql_page_def q_limit_def q_offset_def)
  from SQLiteCount_correct[OF assms this] show ?thesis .
qed

lemma quota_query_selects:
  "st \<noteq> [] \<Longrightarrow> query_selects (Some (quota_query st [(NamespaceMetadataKey, ns)])) =
     (\<lambda>t. a_Status t = st \<and> map_of (or_nil (a_Metadata t)) NamespaceMetadataKey = Some ns)"
  by (auto simp: fun_eq_iff query_selects_def MatchesQuery_Some quota_query_def empty_query_def NamespaceMetadataKey_def)

lemma count_tenant:
  assumes "good_store s" "\<not> fault (sq_env c (i, 0) 0) CSelect" "\<not> fault (sq_env c (i, 0) 0) CScanRows" "st \<noteq> []"
  shows "countByQuery (sqlite_handlers c) i (quota_query st [(NamespaceMetadataKey, ns)]) s =
    Some (Inr (int (length (tenant_agents (clock (sq_env c (i, 0) 0) 0) (s_db s) ns st))), s)"
  using assms SQLiteCount_selected[of "s_db s" "sq_env c (i, 0) 0"]
  by (simp add: countByQuery_def sqlite_handlers_def as_read_def good_store_def tenant_agents_def quota_query_selects)

text \<open>C21: The quota on active agents is exact.  A well-formed CreateAgent request of a principal with a namespace and a
  positive quota, and no queue quota, is refused with 429 and leaves the store as it was when the namespace already
  holds as many new and claimed agents as the quota allows; otherwise it goes on to store the agent.
\<close>

theorem create_quota_exact:
  assumes "good_store s" "js_create (ae_json e) (r_Body r) = DecOK req"
    and "AuthPrincipalFromContext r = Some p" "p_NamespaceID p = ns" "ns \<noteq> []" "trim_space ns = ns"
    and "trim_space (cr_NamespaceID req) \<in> {[], ns}"
    and "l_MaxActiveAgents (p_Limits p) = cap" "0 < cap" "l_MaxQueueDepth (p_Limits p) \<le> 0"
    and "\<And>i. i \<in> {0, 1} \<Longrightarrow> \<not> fault (sq_env c (i, 0) 0) CSelect \<and> \<not> fault (sq_env c (i, 0) 0) CScanRows"
  shows "CreateAgent e (sqlite_handlers c) r s =
    (if cap \<le> int (length (tenant_agents (clock (sq_env c (0, 0) 0) 0) (s_db s) ns StatusNew) +
                   length (tenant_agents (clock (sq_env c (1, 0) 0) 0) (s_db s) ns StatusInProgress))
     then Some (writeError 429 ''namespace quota exceeded'', s)
     else store_new_agent e (sqlite_handlers c) r req ns s)"
proof -
  have st: "StatusNew \<noteq> []" "StatusInProgress \<noteq> []" by (simp_all add: StatusNew_def StatusInProgress_def)
  note n = count_tenant[OF assms(1), of c 0 StatusNew ns] count_tenant[OF assms(1), of c 1 StatusInProgress ns]
  have q: "queue_quota (sqlite_handlers c) i (l_MaxQueueDepth (p_Limits p)) ns md 1 = ret (Inr True)" for i md
    using assms(10) by (simp add: queue_quota_def Let_def split: option.split)
  let ?h = "sqlite_handlers c"
  let ?a = "int (length (tenant_agents (clock (sq_env c (0, 0) 0) 0) (s_db s) ns StatusNew))"
  let ?b = "int (length (tenant_agents (clock (sq_env c (1, 0) 0) 0) (s_db s) ns StatusInProgress))"
  have act: "active_quota ?h 0 cap ns 1 s = Some (Inr (\<not> cap < ?a + ?b + 1), s)"
    using assms(9) n assms(11)[of 0] assms(11)[of 1] st by (simp add: active_quota_def orError_def andThen_def ret_def)
  have "allowNamespaceAgentCreation ?h 0 p ns md 1 s =
      Some (Inr (if cap < ?a + ?b + 1 then (False, ''active_agent_quota'') else (True, [])), s)" for md
    using assms(4-6,8) act q by (simp add: allowNamespaceAgentCreation_def Let_def orError_def andThen_def ret_def)
  then have "quotaCheck ?h 0 p ns md 1 s =
      Some (if cap < ?a + ?b + 1 then Inl (writeError 429 ''namespace quota exceeded'') else Inr (), s)" for md
    by (simp add: quotaCheck_def andThen_def ret_def)
  then show ?thesis using assms(2-7) by (auto simp: CreateAgent_def Let_def orAnswer_def andThen_def ret_def)
qed

definition demo_create :: create_request where
  "demo_create = \<lparr> cr_Kind = ''task'', cr_Payload = None, cr_Tags = [], cr_ParentID = [], cr_TraceID = [], cr_NamespaceID = [],
     cr_TTL = 0, cr_Metadata = None, cr_Obs = None \<rparr>"

definition demo_creator :: "(body_reader \<Rightarrow> create_request decoded) \<Rightarrow> api_env" where
  "demo_creator dec = \<lparr> ae_json = \<lparr> js_create = dec, js_update = (\<lambda>b. DecErr), js_query = (\<lambda>b. DecErr),
     js_take = (\<lambda>b. DecErr), js_batch_take = (\<lambda>b. DecErr), js_in = (\<lambda>b. DecErr),
     js_read = (\<lambda>b. DecErr), js_complete = (\<lambda>b. DecErr), js_complete_and_out = (\<lambda>b. DecErr), js_release = (\<lambda>b. DecErr),
     js_renew = (\<lambda>b. DecErr), js_span = (\<lambda>b. DecErr), js_batch = (\<lambda>b. DecErr) \<rparr>, ae_now = (\<lambda>n. 0), ae_uuid = (\<lambda>n. ''fresh'') \<rparr>"

definition full_tenant :: sqlite_store where
  "full_tenant = \<lparr> s_db = \<lparr> db_agents = [(demo_row ''a'' 100) \<lparr> r_metadata := JObj [(''namespace_id'', JStr ''red'')] \<rparr>], db_events = [] \<rparr>,
     s_subs = NewSubscriptionRegistry, s_log = [] \<rparr>"

definition still_calls :: sqlite_calls where
  "still_calls = \<lparr> sq_env = (\<lambda>i n. quiet_env), sq_poll = (\<lambda>i. \<lparr> p_start = 0, p_now = (\<lambda>n. 0), p_done = (\<lambda>n. True), p_other = (\<lambda>n s. s) \<rparr>),
     sq_rounds = (\<lambda>i. 1), sq_texts = \<lparr> tx_quote = (\<lambda>s. s), tx_other = (\<lambda>er. plain_err ''driver'') \<rparr> \<rparr>"

definition capped_request :: http_request where
  "capped_request = \<lparr> r_Method = ''POST'', r_Path = ''/api/v1/agents'', r_Header = [], r_Query = [], r_RemoteAddr = [],
     r_ContentLength = 2, r_Body = \<lparr> b_Bytes = ''xy'', b_Limit = None \<rparr>,
     r_Principal = Some \<lparr> p_NamespaceID = ''red'', p_Admin = False, p_Limits = no_limits \<lparr> l_MaxActiveAgents := 1 \<rparr> \<rparr>,
     r_Context = Background \<rparr>"

theorem create_quota_exact_witness:
  "CreateAgent (demo_creator (\<lambda>b. DecOK demo_create)) (sqlite_handlers still_calls) capped_request full_tenant =
     Some (writeError 429 ''namespace quota exceeded'', full_tenant)"
proof -
  have g: "good_store full_tenant"
    by (simp add: good_store_def wf_db_def wf_row_def full_tenant_def demo_row_def is_object_def is_str_doc_def)
  have n: "length (tenant_agents (clock quiet_env 0) (s_db full_tenant) ''red'' StatusNew) = 1"
    by (simp add: tenant_agents_def full_tenant_def visible_agents_def quiet_env_def demo_row_def ttl_alive_def scanned_def
        scanSQLiteAgent_def scan_payload_def scan_metadata_def json_string_def StatusNew_def NamespaceMetadataKey_def Let_def)
  have "CreateAgent (demo_creator (\<lambda>b. DecOK demo_create)) (sqlite_handlers still_calls) capped_request full_tenant =
    (if 1 \<le> int (length (tenant_agents (clock (sq_env still_calls (0, 0) 0) 0) (s_db full_tenant) ''red'' StatusNew) +
                 length (tenant_agents (clock (sq_env still_calls (1, 0) 0) 0) (s_db full_tenant) ''red'' StatusInProgress))
     then Some (writeError 429 ''namespace quota exceeded'', full_tenant)
     else store_new_agent (demo_creator (\<lambda>b. DecOK demo_create)) (sqlite_handlers still_calls) capped_request demo_create ''red'' full_tenant)"
    by (rule create_quota_exact[OF g, where p = "\<lparr> p_NamespaceID = ''red'', p_Admin = False, p_Limits = no_limits \<lparr> l_MaxActiveAgents := 1 \<rparr> \<rparr>"])
      (simp_all add: demo_creator_def demo_create_def capped_request_def AuthPrincipalFromContext_def no_limits_def trim_space_def
        is_space_def still_calls_def quiet_env_def)
  then show ?thesis using n by (simp add: still_calls_def)
qed

section \<open>Refused lease operations\<close>

lemma contains_append: "contains (a @ p @ b) p" "contains (p @ b) p" "contains (a @ p) p"
  unfolding contains_iff by (blast, metis append_Nil, metis append_Nil2)

text \<open>The status a client sees when the store refuses to complete or renew: a stale, a foreign or a wrong lease answers
  403, an agent in another status 409.  Release has no such classification: only a foreign owner answers 403, with
  the text of the store; a wrong token and another status answer 500.
\<close>

theorem lease_refusal_statuses:
  assumes "st \<in> {StatusNew, StatusCompleted, StatusFailed}"
  shows "rs_Status (complete_error (err_of lib ErrTokenMismatchStale)) = 403 \<and>
    rs_Status (complete_error (err_of lib ErrLeaseTokenMismatch)) = 403 \<and>
    rs_Status (complete_error (err_of lib (ErrOwnedBy ''complete'' o1 ag))) = 403 \<and>
    rs_Status (complete_error (err_of lib (ErrInvalidStatus st))) = 409 \<and>
    rs_Status (renew_error (err_of lib ErrLeaseTokenMismatch)) = 403 \<and>
    rs_Status (renew_error (err_of lib (ErrOwnedBy ''renew'' o1 ag))) = 403 \<and>
    rs_Status (renew_error (err_of lib (ErrInvalidStatus st))) = 409 \<and>
    rs_Status (release_error (err_of lib (ErrOwnedBy ''release'' o1 ag))) = 403 \<and>
    rs_Status (release_error (err_of lib ErrLeaseTokenMismatch)) = 500 \<and>
    rs_Status (release_error (err_of lib (ErrInvalidStatus st))) = 500"
proof -
  have own: "contains (er_Text (err_of lib (ErrOwnedBy verb o1 ag))) (''cannot '' @ verb)" for verb
    using contains_append(2)[of "''cannot '' @ verb" "'': agent owned by '' @ tx_quote lib o1 @ '', not '' @ tx_quote lib ag"]
    by (simp add: plain_err_def)
  have "rs_Status (complete_error (err_of lib (ErrOwnedBy ''complete'' o1 ag))) = 403"
    using own[of "''complete''"] by (simp add: complete_error_def Let_def)
  moreover have "rs_Status (renew_error (err_of lib (ErrOwnedBy ''renew'' o1 ag))) = 403"
    using own[of "''renew''"] by (simp add: renew_error_def Let_def)
  moreover have "rs_Status (release_error (err_of lib (ErrOwnedBy ''release'' o1 ag))) = 403"
    using own[of "''release''"] by (simp add: release_error_def Let_def)
  moreover have "rs_Status (complete_error (err_of lib (ErrInvalidStatus st))) = 409 \<and> rs_Status (renew_error (err_of lib (ErrInvalidStatus st))) = 409 \<and>
      rs_Status (release_error (err_of lib (ErrInvalidStatus st))) = 500"
    using assms by (auto simp: complete_error_def renew_error_def release_error_def plain_err_def Let_def StatusNew_def StatusCompleted_def StatusFailed_def)
  ultimately show ?thesis
    by (simp add: complete_error_def renew_error_def release_error_def plain_err_def TokenMismatchStaleErr_def Let_def)
qed

theorem lease_refusal_statuses_witness:
  "rs_Status (complete_error (err_of \<lparr> tx_quote = (\<lambda>s. s), tx_other = (\<lambda>er. plain_err ''driver'') \<rparr> (ErrInvalidStatus StatusNew))) = 409"
  using lease_refusal_statuses[of StatusNew "\<lparr> tx_quote = (\<lambda>s. s), tx_other = (\<lambda>er. plain_err ''driver'') \<rparr>" "[]" "[]"] by simp

section \<open>The graph\<close>

definition demo_family :: sqlite_store where
  "demo_family = \<lparr> s_db = \<lparr> db_agents = [(demo_row ''a'' 100) \<lparr> r_metadata := JObj [(''namespace_id'', JStr ''blue'')] \<rparr>,
       (demo_row ''b'' 100) \<lparr> r_metadata := JObj [(''namespace_id'', JStr ''red'')], r_parent_id := ''a'' \<rparr>], db_events = [] \<rparr>,
     s_subs = NewSubscriptionRegistry, s_log = [] \<rparr>"

definition dag_request :: http_request where
  "dag_request = capped_request \<lparr> r_Method := ''GET'', r_Path := ''/api/v1/dag/b'' \<rparr>"

text \<open>GetDAG checks the namespace of the root agent only.  A principal of the namespace red that asks for the graph of
  its own agent is shown the node of the parent, an agent of the namespace blue, with its metadata.
\<close>

theorem dag_crosses_namespaces:
  "\<exists>g n. GetDAG (demo_creator (\<lambda>b. DecErr)) (sqlite_handlers still_calls) dag_request demo_family = Some (writeJSON 200 (BDAG g), demo_family) \<and>
     requestPrincipalNamespace dag_request = ''red'' \<and> map_of (d_Nodes g) ''a'' = Some n \<and>
     str_at (or_nil (n_Metadata n)) NamespaceMetadataKey = ''blue''"
proof -
  have path: "extractIDFromPath (r_Path dag_request) ''/api/v1/dag/'' = ''b''" by code_simp
  have get: "map_sum (\<lambda>er. ()) (agentVisibleToPrincipal dag_request) (SQLiteGet quiet_env (s_db demo_family) ''b'') = Inr True" by code_simp
  then obtain t where t: "SQLiteGet quiet_env (s_db demo_family) ''b'' = Inr t" "agentVisibleToPrincipal dag_request t"
    by (cases "SQLiteGet quiet_env (s_db demo_family) ''b''") auto
  have dag: "map_option (\<lambda>g. map_option (\<lambda>n. str_at (or_nil (n_Metadata n)) NamespaceMetadataKey) (map_of (d_Nodes g) ''a''))
      (SQLiteGetDAG (\<lambda>n. quiet_env) (s_db demo_family) ''b'') = Some (Some ''blue'')" by code_simp
  then obtain g n where g: "SQLiteGetDAG (\<lambda>n. quiet_env) (s_db demo_family) ''b'' = Some g" "map_of (d_Nodes g) ''a'' = Some n"
    "str_at (or_nil (n_Metadata n)) NamespaceMetadataKey = ''blue''" by auto
  have "requestPrincipalNamespace dag_request = ''red''" by code_simp
  moreover have "GetDAG (demo_creator (\<lambda>b. DecErr)) (sqlite_handlers still_calls) dag_request demo_family = Some (writeJSON 200 (BDAG g), demo_family)"
    using path t g by (simp add: GetDAG_def Let_def orAnswer_def andThen_def visibleAgent_def sqlite_handlers_def requestSpace_def
        as_read_def ret_def still_calls_def)
  ultimately show ?thesis using g by blast
qed

end
