(* ===== verification/Vk_Keys.thy ===== *)
theory Vk_Keys
  imports Complex_Main Store_Graph Lease_Spec Telemetry_Types "HOL-Library.List_Lexorder" "HOL-Library.Char_ord"
    "HOL-Library.Product_Lexorder"
begin

text \<open>
  The data of the Valkey backend (\<^verbatim>\<open>pkg/store/valkey\<close>): the keys, what a server holds under them, the commands the
  store sends, and the Lua helpers all its scripts begin with.

  The value of an agent key is a JSON document; the model keeps the agent it denotes.  Strings and instants survive the
  way through JSON; what \<^verbatim>\<open>cjson\<close> (the JSON library of the server) makes of a payload and whether it writes a number
  as an integer are parameters, and so are the numbers Lua reads from strings.  A version is a number of Lua; the model
  increments it as an \<^verbatim>\<open>int64\<close>, which agrees below \<open>2 ^ 53\<close>.
\<close>

section \<open>Keys\<close>

definition QueueCreatedMsKey :: string where "QueueCreatedMsKey = ''queue_created_ms''"
definition internalCreatedMsKey :: string where "internalCreatedMsKey = ''__created_ms''"
definition internalLeaseUntilMsKey :: string where "internalLeaseUntilMsKey = ''__lease_until_ms''"

definition part :: "string \<Rightarrow> string" where
  "part v = show_int (int (length v)) @ '':'' @ v"

definition agentKey :: "string \<Rightarrow> string" where "agentKey i = ''agent:'' @ part i"
definition hotStateKey :: "string \<Rightarrow> string" where "hotStateKey i = ''agent_hot:'' @ part i"
definition reaperLeaderKey :: "string \<Rightarrow> string" where "reaperLeaderKey shardID = ''reaper:leader:'' @ part shardID"
definition allIndexKey :: string where "allIndexKey = ''index:all''"
definition statusIndexKey :: "string \<Rightarrow> string" where "statusIndexKey st = ''index:status:'' @ part st"
definition kindIndexKey :: "string \<Rightarrow> string" where "kindIndexKey kind = ''index:kind:'' @ part kind"
definition ownerIndexKey :: "string \<Rightarrow> string" where "ownerIndexKey owner = ''index:owner:'' @ part owner"
definition traceIndexKey :: "string \<Rightarrow> string" where "traceIndexKey trace = ''index:trace:'' @ part trace"
definition parentIndexKey :: "string \<Rightarrow> string" where "parentIndexKey parent = ''index:parent:'' @ part parent"
definition namespaceIndexKey :: "string \<Rightarrow> string" where "namespaceIndexKey ns = ''index:namespace:'' @ part ns"
definition tagIndexKey :: "string \<Rightarrow> string" where "tagIndexKey tag = ''index:tag:'' @ part tag"

definition metadataIndexKey :: "string \<Rightarrow> string \<Rightarrow> string" where
  "metadataIndexKey key v = ''index:meta:'' @ part key @ '':'' @ part v"

definition queueIndexKey :: "string \<Rightarrow> string \<Rightarrow> string" where
  "queueIndexKey namespaceID queue = ''queue:'' @ part namespaceID @ '':'' @ part queue @ '':new''"

definition globalOrderKey :: string where "globalOrderKey = ''order:new''"
definition globalLeaseKey :: string where "globalLeaseKey = ''lease:by_until''"
definition globalEventsKey :: string where "globalEventsKey = ''stream:events''"
definition agentEventsStreamKey :: "string \<Rightarrow> string" where "agentEventsStreamKey i = ''stream:events:agent:'' @ part i"
definition traceEventsStreamKey :: "string \<Rightarrow> string" where "traceEventsStreamKey tr = ''stream:events:trace:'' @ part tr"

definition telemetrySpanKey :: "string \<Rightarrow> string \<Rightarrow> string" where
  "telemetrySpanKey traceID spanID = ''telemetry:span:'' @ part traceID @ '':'' @ part spanID"

definition telemetryTraceKey :: "string \<Rightarrow> string" where "telemetryTraceKey traceID = ''telemetry:trace:'' @ part traceID"
definition telemetryCleanupKey :: string where "telemetryCleanupKey = ''telemetry:cleanup''"

section \<open>What a server holds\<close>

text \<open>The hot state of an agent, kept beside its document; scores are numbers of Lua.\<close>

record hot_agent_state =
  ht_ID :: string
  ht_Kind :: string
  ht_Status :: status
  ht_NamespaceID :: string
  ht_Queue :: string
  ht_Owner :: string
  ht_LeaseToken :: string
  ht_LeaseMS :: int
  ht_LeaseUntilMS :: rat
  ht_Version :: int
  ht_CreatedMS :: rat
  ht_QueueCreated :: rat

record stream_entry =
  x_ID :: string
  x_TupleID :: string
  x_Type :: event_type
  x_Kind :: string
  x_Timestamp :: gotime
  x_AgentID :: string
  x_TraceID :: string
  x_Version :: int
  x_Data :: json
  x_NamespaceID :: string

text \<open>A key space, split by the type of the values; a set without members and a missing key are the same.  The
  sorted sets of telemetry are kept apart.  A lock is a string with the time at which it expires.\<close>

record vk_db =
  k_agents :: "string \<Rightarrow> agent option"
  k_hot :: "string \<Rightarrow> hot_agent_state option"
  k_sets :: "string \<Rightarrow> string list"
  k_zsets :: "string \<Rightarrow> (string \<times> rat) list"
  k_streams :: "string \<Rightarrow> stream_entry list"
  k_spans :: "string \<Rightarrow> span option"
  k_span_zsets :: "string \<Rightarrow> (string \<times> rat) list"
  k_locks :: "string \<Rightarrow> (string \<times> gotime) option"

definition empty_vk :: vk_db where
  "empty_vk = \<lparr> k_agents = Map.empty, k_hot = Map.empty, k_sets = (\<lambda>_. []), k_zsets = (\<lambda>_. []),
     k_streams = (\<lambda>_. []), k_spans = Map.empty, k_span_zsets = (\<lambda>_. []), k_locks = Map.empty \<rparr>"

text \<open>
  The libraries of the server: \<^verbatim>\<open>tonumber\<close> on strings, \<^verbatim>\<open>tostring\<close> of integers with more than 14 digits, and \<^verbatim>\<open>cjson\<close>:
  whether \<^verbatim>\<open>cjson.encode\<close> writes an integer without an exponent, whether it writes an empty table as an array (by
  default it writes an object), and what a payload reads after \<^verbatim>\<open>cjson\<close> has decoded and encoded it.
\<close>

record lua_lib =
  lu_tonumber :: "string \<Rightarrow> rat option"
  lu_big :: "int \<Rightarrow> string"
  cj_integer :: "int \<Rightarrow> bool"
  cj_empty_array :: bool
  cj_payload :: "gval gomap \<Rightarrow> gval gomap"

text \<open>What a script meets on its server: the libraries, the id of the next entry of a stream and how many old
  entries \<^verbatim>\<open>MAXLEN ~\<close> makes the server drop.\<close>

record server =
  sv_lib :: lua_lib
  sv_id :: "string \<Rightarrow> nat \<Rightarrow> string"
  sv_trim :: "string \<Rightarrow> nat"

section \<open>Commands\<close>

definition sadd :: "string \<Rightarrow> string \<Rightarrow> vk_db \<Rightarrow> vk_db" where
  "sadd k m d = d \<lparr> k_sets := (k_sets d)(k := List.insert m (k_sets d k)) \<rparr>"

definition srem :: "string \<Rightarrow> string \<Rightarrow> vk_db \<Rightarrow> vk_db" where
  "srem k m d = d \<lparr> k_sets := (k_sets d)(k := removeAll m (k_sets d k)) \<rparr>"

definition zadd :: "string \<Rightarrow> rat \<Rightarrow> string \<Rightarrow> vk_db \<Rightarrow> vk_db" where
  "zadd k score m d = d \<lparr> k_zsets := (k_zsets d)(k := AList.update m score (k_zsets d k)) \<rparr>"

definition zrem :: "string \<Rightarrow> string \<Rightarrow> vk_db \<Rightarrow> vk_db" where
  "zrem k m d = d \<lparr> k_zsets := (k_zsets d)(k := AList.delete m (k_zsets d k)) \<rparr>"

text \<open>A sorted set is ordered by score and, for equal scores, by member.\<close>

definition zsorted :: "string \<Rightarrow> vk_db \<Rightarrow> (string \<times> rat) list" where
  "zsorted k d = sort_key (\<lambda>(m, score). (score, m)) (k_zsets d k)"

definition zrange :: "nat \<Rightarrow> string \<Rightarrow> vk_db \<Rightarrow> string list" where
  "zrange n k d = map fst (take n (zsorted k d))"

definition zrangebyscore :: "rat \<Rightarrow> nat \<Rightarrow> string \<Rightarrow> vk_db \<Rightarrow> string list" where
  "zrangebyscore mx n k d = map fst (take n (filter (\<lambda>(m, score). score \<le> mx) (zsorted k d)))"

definition xadd :: "server \<Rightarrow> string \<Rightarrow> nat \<Rightarrow> stream_entry \<Rightarrow> vk_db \<Rightarrow> vk_db" where
  "xadd sv k maxlen en d =
    (let es = k_streams d k @ [en \<lparr> x_ID := sv_id sv k (length (k_streams d k)) \<rparr>]
     in d \<lparr> k_streams := (k_streams d)(k := drop (min (sv_trim sv k) (length es - maxlen)) es) \<rparr>)"

section \<open>The Lua helpers\<close>

text \<open>The metadata are a table, which has each key once.\<close>

definition normalize_agent :: "agent \<Rightarrow> agent" where
  "normalize_agent t = t \<lparr> a_Metadata := Some (AList.clearjunk (or_nil (a_Metadata t))), a_Payload := Some (or_nil (a_Payload t)) \<rparr>"

definition metadata_value :: "agent \<Rightarrow> string \<Rightarrow> string" where
  "metadata_value t key = str_at (or_nil (a_Metadata t)) key"

definition namespace_value :: "agent \<Rightarrow> string" where
  "namespace_value t = (if a_NamespaceID t \<noteq> [] then a_NamespaceID t else metadata_value t NamespaceMetadataKey)"

definition queue_value :: "agent \<Rightarrow> string" where
  "queue_value t = metadata_value t QueueMetadataKey"

text \<open>The number a metadata entry holds, or 0.\<close>

definition number_at :: "lua_lib \<Rightarrow> agent \<Rightarrow> string \<Rightarrow> rat" where
  "number_at lib t key =
    (let raw = metadata_value t key
     in if raw = [] then 0 else case lu_tonumber lib raw of None \<Rightarrow> 0 | Some score \<Rightarrow> score)"

definition created_score :: "lua_lib \<Rightarrow> agent \<Rightarrow> rat" where
  "created_score lib t = number_at lib t internalCreatedMsKey"

definition queue_score :: "lua_lib \<Rightarrow> agent \<Rightarrow> rat" where
  "queue_score lib t =
    (let raw = metadata_value t QueueCreatedMsKey
     in if raw = [] then created_score lib t
        else case lu_tonumber lib raw of None \<Rightarrow> created_score lib t | Some score \<Rightarrow> score)"

definition lease_score :: "lua_lib \<Rightarrow> agent \<Rightarrow> rat" where
  "lease_score lib t = number_at lib t internalLeaseUntilMsKey"

definition queue_key :: "agent \<Rightarrow> string" where
  "queue_key t = (if queue_value t = [] then [] else queueIndexKey (namespace_value t) (queue_value t))"

definition lease_duration_ms :: "lua_lib \<Rightarrow> agent \<Rightarrow> int \<Rightarrow> int" where
  "lease_duration_ms lib t default_ms =
    (let number = (\<lambda>key. let raw = metadata_value t key in if raw = [] then None else
           case lu_tonumber lib raw of None \<Rightarrow> None | Some parsed \<Rightarrow> if 0 < parsed then Some parsed else None)
     in case number ''lease_ms'' of
          Some parsed \<Rightarrow> \<lfloor>parsed\<rfloor>
        | None \<Rightarrow> (case number ''lease_sec'' of Some parsed \<Rightarrow> \<lfloor>parsed * 1000\<rfloor> | None \<Rightarrow> default_ms))"

definition hot_state :: "lua_lib \<Rightarrow> agent \<Rightarrow> string \<Rightarrow> int \<Rightarrow> hot_agent_state" where
  "hot_state lib t tuple_id default_lease_ms =
    \<lparr> ht_ID = tuple_id, ht_Kind = a_Kind t, ht_Status = a_Status t, ht_NamespaceID = namespace_value t,
      ht_Queue = queue_value t, ht_Owner = a_Owner t, ht_LeaseToken = a_LeaseToken t,
      ht_LeaseMS = lease_duration_ms lib t default_lease_ms, ht_LeaseUntilMS = lease_score lib t,
      ht_Version = a_Version t, ht_CreatedMS = created_score lib t, ht_QueueCreated = queue_score lib t \<rparr>"

text \<open>The sets an agent is a member of, in the order in which the scripts go through them.\<close>

definition index_keys :: "agent \<Rightarrow> string list" where
  "index_keys t = [allIndexKey, statusIndexKey (a_Status t)] @ opt_clause kindIndexKey (a_Kind t) @
     opt_clause ownerIndexKey (a_Owner t) @ opt_clause traceIndexKey (a_TraceID t) @
     opt_clause parentIndexKey (a_ParentID t) @ opt_clause namespaceIndexKey (namespace_value t) @
     map tagIndexKey (a_Tags t) @ map (\<lambda>(k, v). metadataIndexKey k v) (or_nil (a_Metadata t))"

definition remove_indexes :: "agent \<Rightarrow> string \<Rightarrow> vk_db \<Rightarrow> vk_db" where
  "remove_indexes t tuple_id d =
    (let t = normalize_agent t;
         d = fold (\<lambda>k. srem k tuple_id) (index_keys t) d;
         d = (if a_Status t = StatusNew
              then (if queue_key t \<noteq> [] then zrem (queue_key t) tuple_id d else zrem globalOrderKey tuple_id d) else d)
     in if a_Status t = StatusInProgress then zrem globalLeaseKey tuple_id d else d)"

definition add_indexes :: "lua_lib \<Rightarrow> agent \<Rightarrow> string \<Rightarrow> vk_db \<Rightarrow> vk_db" where
  "add_indexes lib t tuple_id d =
    (let t = normalize_agent t;
         d = fold (\<lambda>k. sadd k tuple_id) (index_keys t) d;
         d = (if a_Status t = StatusNew
              then (if queue_key t \<noteq> [] then zadd (queue_key t) (queue_score lib t) tuple_id d
                    else zadd globalOrderKey (created_score lib t) tuple_id d) else d)
     in if a_Status t = StatusInProgress \<and> 0 < lease_score lib t
        then zadd globalLeaseKey (lease_score lib t) tuple_id d else d)"

text \<open>An entry goes to the stream of all events, that of the agent and that of the trace.\<close>

definition lua_append_event :: "server \<Rightarrow> stream_entry \<Rightarrow> vk_db \<Rightarrow> vk_db" where
  "lua_append_event sv en d =
    (let d = xadd sv globalEventsKey 500000 en d;
         d = xadd sv (agentEventsStreamKey (x_TupleID en)) 200000 en d
     in if x_TraceID en = [] then d else xadd sv (traceEventsStreamKey (x_TraceID en)) 200000 en d)"

definition load_agent :: "string \<Rightarrow> vk_db \<Rightarrow> agent option" where
  "load_agent key d = map_option normalize_agent (k_agents d key)"

definition load_hot :: "string \<Rightarrow> vk_db \<Rightarrow> hot_agent_state option" where
  "load_hot tuple_id d = k_hot d (hotStateKey tuple_id)"

text \<open>The document that \<^verbatim>\<open>cjson.encode\<close> writes of an agent.\<close>

definition cjson_encode :: "lua_lib \<Rightarrow> agent \<Rightarrow> agent" where
  "cjson_encode lib t = t \<lparr> a_Payload := Some (cj_payload lib (or_nil (a_Payload t))) \<rparr>"

definition persist_agent :: "lua_lib \<Rightarrow> agent \<Rightarrow> string \<Rightarrow> int \<Rightarrow> vk_db \<Rightarrow> vk_db" where
  "persist_agent lib t tuple_id default_lease_ms d =
    d \<lparr> k_agents := (k_agents d)(agentKey tuple_id \<mapsto> cjson_encode lib t),
        k_hot := (k_hot d)(hotStateKey tuple_id \<mapsto> hot_state lib t tuple_id default_lease_ms) \<rparr>"

section \<open>Keys tell their parts apart\<close>

lemma show_nat_digits: "list_all is_digit (show_int (int n))"
  using int_digits_spec[of "int n"] by (simp add: show_int_def)

lemma show_nat_inj: "show_int (int m) = show_int (int n) \<longleftrightarrow> m = n"
proof
  assume "show_int (int m) = show_int (int n)"
  then have "digits_val (int_digits (int m)) = digits_val (int_digits (int n))" by (simp add: show_int_def)
  then show "m = n" using int_digits_spec[of "int m"] int_digits_spec[of "int n"] by simp
qed simp

lemma colon_no_digit: "list_all is_digit s \<Longrightarrow> CHR '':'' \<notin> set s"
  by (auto simp: list_all_iff is_digit_def)

lemma colon_split:
  assumes "CHR '':'' \<notin> set a" "CHR '':'' \<notin> set b" "a @ CHR '':'' # x = b @ CHR '':'' # y"
  shows "a = b \<and> x = y"
  using assms by (auto simp: append_eq_append_conv2 Cons_eq_append_conv append_eq_Cons_conv)

lemma part_prefix: "part v @ x = part w @ y \<longleftrightarrow> v = w \<and> x = y"
proof
  assume e: "part v @ x = part w @ y"
  have "show_int (int (length v)) = show_int (int (length w)) \<and> v @ x = w @ y"
    by (rule colon_split) (use e colon_no_digit[OF show_nat_digits] in \<open>simp_all add: part_def\<close>)
  then show "v = w \<and> x = y" using append_eq_append_conv by (auto simp: show_nat_inj)
qed simp

lemma part_inj [simp]: "part v = part w \<longleftrightarrow> v = w"
  using part_prefix[of v "[]" w "[]"] by simp

lemma keys_inj [simp]:
  "agentKey i = agentKey j \<longleftrightarrow> i = j" "hotStateKey i = hotStateKey j \<longleftrightarrow> i = j"
  "statusIndexKey a = statusIndexKey b \<longleftrightarrow> a = b" "kindIndexKey a = kindIndexKey b \<longleftrightarrow> a = b"
  "ownerIndexKey a = ownerIndexKey b \<longleftrightarrow> a = b" "traceIndexKey a = traceIndexKey b \<longleftrightarrow> a = b"
  "parentIndexKey a = parentIndexKey b \<longleftrightarrow> a = b" "namespaceIndexKey a = namespaceIndexKey b \<longleftrightarrow> a = b"
  "tagIndexKey a = tagIndexKey b \<longleftrightarrow> a = b" "metadataIndexKey a b = metadataIndexKey a' b' \<longleftrightarrow> a = a' \<and> b = b'"
  "queueIndexKey a b = queueIndexKey a' b' \<longleftrightarrow> a = a' \<and> b = b'"
  "agentEventsStreamKey i = agentEventsStreamKey j \<longleftrightarrow> i = j" "traceEventsStreamKey i = traceEventsStreamKey j \<longleftrightarrow> i = j"
  "telemetryTraceKey i = telemetryTraceKey j \<longleftrightarrow> i = j" "telemetrySpanKey a b = telemetrySpanKey a' b' \<longleftrightarrow> a = a' \<and> b = b'"
  by (simp_all add: agentKey_def hotStateKey_def statusIndexKey_def kindIndexKey_def ownerIndexKey_def traceIndexKey_def
      parentIndexKey_def namespaceIndexKey_def tagIndexKey_def metadataIndexKey_def queueIndexKey_def
      agentEventsStreamKey_def traceEventsStreamKey_def telemetryTraceKey_def telemetrySpanKey_def part_prefix)

lemmas key_defs = allIndexKey_def statusIndexKey_def kindIndexKey_def ownerIndexKey_def traceIndexKey_def parentIndexKey_def
  namespaceIndexKey_def tagIndexKey_def metadataIndexKey_def queueIndexKey_def globalOrderKey_def globalLeaseKey_def

text \<open>Membership in the list of keys of an agent, key by key.\<close>

lemma index_keys_iff:
  "allIndexKey \<in> set (index_keys t)"
  "statusIndexKey v \<in> set (index_keys t) \<longleftrightarrow> a_Status t = v"
  "kindIndexKey v \<in> set (index_keys t) \<longleftrightarrow> v \<noteq> [] \<and> a_Kind t = v"
  "ownerIndexKey v \<in> set (index_keys t) \<longleftrightarrow> v \<noteq> [] \<and> a_Owner t = v"
  "traceIndexKey v \<in> set (index_keys t) \<longleftrightarrow> v \<noteq> [] \<and> a_TraceID t = v"
  "parentIndexKey v \<in> set (index_keys t) \<longleftrightarrow> v \<noteq> [] \<and> a_ParentID t = v"
  "namespaceIndexKey v \<in> set (index_keys t) \<longleftrightarrow> v \<noteq> [] \<and> namespace_value t = v"
  "tagIndexKey v \<in> set (index_keys t) \<longleftrightarrow> v \<in> set (a_Tags t)"
  "metadataIndexKey k v \<in> set (index_keys t) \<longleftrightarrow> (k, v) \<in> set (or_nil (a_Metadata t))"
  by (auto simp: index_keys_def opt_clause_def key_defs part_prefix)

end
