(* ===== verification/Vk_Scripts.thy ===== *)
theory Vk_Scripts
  imports Vk_Keys
begin

text \<open>
  The Lua scripts of \<^verbatim>\<open>pkg/store/valkey/store.go\<close>.  A script runs atomically on one server: it is a function of the
  server, its arguments and the key space, and returns its response and the new key space.  A script that raises an
  error keeps what it has written so far; its response is then \<^const>\<open>None\<close>.
\<close>

section \<open>Responses\<close>

text \<open>An agent in a response is a text written by the script or one that the script was given by the store.\<close>

datatype agent_text = LuaText agent | GoText agent

text \<open>\<^verbatim>\<open>scriptResponse\<close>; the lists are present only where the script sets them.\<close>

record script_response =
  sr_Code :: string
  sr_Agent :: "agent_text option"
  sr_Agents :: "agent_text list option"
  sr_Created :: "agent_text list option"
  sr_Count :: nat

type_synonym script = "vk_db \<Rightarrow> script_response option \<times> vk_db"

definition code_only :: "string \<Rightarrow> script_response" where
  "code_only c = \<lparr> sr_Code = c, sr_Agent = None, sr_Agents = None, sr_Created = None, sr_Count = 0 \<rparr>"

definition with_agent :: "string \<Rightarrow> agent_text \<Rightarrow> script_response" where
  "with_agent c a = (code_only c) \<lparr> sr_Agent := Some a \<rparr>"

section \<open>Pieces of the scripts\<close>

definition lua_succ :: "int \<Rightarrow> int" where
  "lua_succ v = to_int64 (v + 1)"

text \<open>\<^verbatim>\<open>tostring\<close> of a whole number has at most 14 digits.\<close>

definition lua_tostring :: "lua_lib \<Rightarrow> int \<Rightarrow> string" where
  "lua_tostring lib n = (if abs n < 100000000000000 then show_int n else lu_big lib n)"

definition lua_event :: "agent \<Rightarrow> string \<Rightarrow> event_type \<Rightarrow> gotime \<Rightarrow> string \<Rightarrow> json \<Rightarrow> stream_entry" where
  "lua_event t tuple_id ty timestamp agent_id dat =
    \<lparr> x_ID = [], x_TupleID = tuple_id, x_Type = ty, x_Kind = a_Kind t, x_Timestamp = timestamp, x_AgentID = agent_id,
      x_TraceID = a_TraceID t, x_Version = a_Version t, x_Data = dat, x_NamespaceID = namespace_value t \<rparr>"

definition event_if :: "server \<Rightarrow> bool \<Rightarrow> stream_entry \<Rightarrow> vk_db \<Rightarrow> vk_db" where
  "event_if sv write_events en d = (if write_events then lua_append_event sv en d else d)"

text \<open>An agent takes the place of the one that was loaded, and its indexes those of that one.\<close>

definition rewrite_agent :: "lua_lib \<Rightarrow> int \<Rightarrow> agent \<Rightarrow> agent \<Rightarrow> string \<Rightarrow> vk_db \<Rightarrow> vk_db" where
  "rewrite_agent lib dflt current new tuple_id d =
    add_indexes lib new tuple_id (persist_agent lib new tuple_id dflt (remove_indexes current tuple_id d))"

definition store_agent :: "lua_lib \<Rightarrow> agent \<Rightarrow> string \<Rightarrow> vk_db \<Rightarrow> vk_db" where
  "store_agent lib new tuple_id d =
    (let d = (case k_agents d (agentKey tuple_id) of None \<Rightarrow> d | Some old \<Rightarrow> remove_indexes (normalize_agent old) tuple_id d)
     in add_indexes lib new tuple_id (persist_agent lib new tuple_id 0 d))"

text \<open>The fields a claim sets; the script of a hot queue leaves \<^verbatim>\<open>lease_until\<close> out.\<close>

definition lua_claimed :: "string \<Rightarrow> string \<Rightarrow> gotime \<Rightarrow> string \<Rightarrow> gotime \<Rightarrow> agent \<Rightarrow> agent" where
  "lua_claimed agent_id lease_token timestamp lease_until_ms lease_until t = t
     \<lparr> a_Status := StatusInProgress, a_Owner := agent_id, a_OwnerTime := timestamp, a_UpdatedAt := timestamp,
       a_LeaseToken := lease_token, a_LeaseUntil := lease_until, a_Version := lua_succ (a_Version t),
       a_Metadata := Some (AList.update internalLeaseUntilMsKey lease_until_ms (or_nil (a_Metadata t))) \<rparr>"

definition lua_freed :: "status \<Rightarrow> gotime \<Rightarrow> agent \<Rightarrow> agent" where
  "lua_freed st timestamp t = t
     \<lparr> a_Status := st, a_Owner := [], a_OwnerTime := zero_time, a_LeaseToken := [], a_LeaseUntil := zero_time,
       a_UpdatedAt := timestamp, a_Version := lua_succ (a_Version t),
       a_Metadata := Some (AList.delete internalLeaseUntilMsKey (or_nil (a_Metadata t))) \<rparr>"

definition lua_completed :: "string \<Rightarrow> string \<Rightarrow> gotime \<Rightarrow> gval gomap \<Rightarrow> agent \<Rightarrow> agent" where
  "lua_completed agent_id lease_token timestamp result t =
    (let t = t \<lparr> a_Payload := Some (AList.update ''result'' (VMap result) (or_nil (a_Payload t))),
                a_Metadata := Some (AList.update CompletedAtMetadataKey (format_rfc3339nano timestamp)
                  (AList.update CompletedByTokenMetadataKey lease_token
                  (AList.update CompletedByMetadataKey agent_id (or_nil (a_Metadata t))))) \<rparr>
     in lua_freed StatusCompleted timestamp t)"

definition lease_code :: "string \<Rightarrow> string \<Rightarrow> agent \<Rightarrow> string option" where
  "lease_code agent_id lease_token t =
    (if a_Status t \<noteq> StatusInProgress then Some ''INVALID_STATUS''
     else if a_Owner t \<noteq> agent_id then Some ''OWNER_MISMATCH''
     else if a_LeaseToken t \<noteq> lease_token then Some ''LEASE_TOKEN_MISMATCH''
     else None)"

definition claim_data :: "string \<Rightarrow> json" where
  "claim_data agent_id = JObj [(''agent_id'', JStr agent_id)]"

section \<open>Scripts on one agent\<close>

definition outScript :: "server \<Rightarrow> bool \<Rightarrow> agent \<Rightarrow> string \<Rightarrow> gotime \<Rightarrow> string \<Rightarrow> json \<Rightarrow> script" where
  "outScript sv write_events new_json tuple_id timestamp agent_id event_data d =
    (let new = normalize_agent new_json;
         d = store_agent (sv_lib sv) new tuple_id d
     in (Some (code_only ''CREATED''),
         event_if sv write_events (lua_event new tuple_id EventCreated timestamp agent_id event_data) d))"

definition updateScript :: "server \<Rightarrow> bool \<Rightarrow> agent \<Rightarrow> string \<Rightarrow> gotime \<Rightarrow> string \<Rightarrow> json \<Rightarrow> script" where
  "updateScript sv write_events new_json tuple_id timestamp agent_id event_data d =
    (case load_agent (agentKey tuple_id) d of
       None \<Rightarrow> (Some (code_only ''NOT_FOUND''), d)
     | Some current \<Rightarrow>
         (let nxt = normalize_agent new_json;
              d = rewrite_agent (sv_lib sv) 0 current nxt tuple_id d
          in (Some (with_agent ''UPDATED'' (GoText new_json)),
              event_if sv write_events (lua_event nxt tuple_id EventUpdated timestamp agent_id event_data) d)))"

definition claimScript :: "server \<Rightarrow> bool \<Rightarrow> string \<Rightarrow> string \<Rightarrow> string \<Rightarrow> gotime \<Rightarrow> gotime \<Rightarrow> script" where
  "claimScript sv write_events tuple_id agent_id lease_token timestamp lease_until d =
    (case load_agent (agentKey tuple_id) d of
       None \<Rightarrow> (Some (code_only ''NOT_FOUND''), d)
     | Some current \<Rightarrow>
         if a_Status current \<noteq> StatusNew then (Some (code_only ''STATUS_CHANGED''), d)
         else (let new = lua_claimed agent_id lease_token timestamp (show_int (UnixMilli lease_until)) lease_until current;
                   d = rewrite_agent (sv_lib sv) 0 current new tuple_id d
               in (Some (with_agent ''CLAIMED'' (LuaText (cjson_encode (sv_lib sv) new))),
                   event_if sv write_events (lua_event new tuple_id EventClaimed timestamp agent_id (claim_data agent_id)) d)))"

definition completeScript ::
  "server \<Rightarrow> bool \<Rightarrow> string \<Rightarrow> string \<Rightarrow> string \<Rightarrow> gval gomap \<Rightarrow> json \<Rightarrow> gotime \<Rightarrow> script" where
  "completeScript sv write_events tuple_id agent_id lease_token result result_json timestamp d =
    (case load_agent (agentKey tuple_id) d of
       None \<Rightarrow> (Some (code_only ''NOT_FOUND''), d)
     | Some current \<Rightarrow>
         if a_Status current = StatusCompleted then
           (Some (if metadata_value current CompletedByTokenMetadataKey = lease_token
                  then with_agent ''ALREADY_COMPLETED'' (LuaText (cjson_encode (sv_lib sv) current))
                  else code_only ''STALE_TOKEN''), d)
         else case lease_code agent_id lease_token current of
           Some c \<Rightarrow> (Some (code_only c), d)
         | None \<Rightarrow>
             (let new = lua_completed agent_id lease_token timestamp result current;
                  d = rewrite_agent (sv_lib sv) 0 current new tuple_id d
              in (Some (with_agent ''COMPLETED'' (LuaText (cjson_encode (sv_lib sv) new))),
                  event_if sv write_events (lua_event new tuple_id EventCompleted timestamp agent_id result_json) d)))"

definition release_data :: "string \<Rightarrow> string \<Rightarrow> json" where
  "release_data previous_owner reason = JObj ((''previous_owner'', JStr previous_owner) #
     (if reason \<noteq> [] then [(''reap_reason'', JStr reason)] else []))"

definition releaseScript :: "server \<Rightarrow> bool \<Rightarrow> string \<Rightarrow> string \<Rightarrow> string \<Rightarrow> string \<Rightarrow> gotime \<Rightarrow> script" where
  "releaseScript sv write_events tuple_id agent_id lease_token reason timestamp d =
    (case load_agent (agentKey tuple_id) d of
       None \<Rightarrow> (Some (code_only ''NOT_FOUND''), d)
     | Some current \<Rightarrow>
         (case lease_code agent_id lease_token current of
            Some c \<Rightarrow> (Some (code_only c), d)
          | None \<Rightarrow>
              (let new = lua_freed StatusNew timestamp current;
                   d = rewrite_agent (sv_lib sv) 0 current new tuple_id d
               in (Some (with_agent ''RELEASED'' (LuaText (cjson_encode (sv_lib sv) new))),
                   event_if sv write_events (lua_event new tuple_id EventReleased timestamp agent_id
                     (release_data (a_Owner current) reason)) d))))"

definition renewLeaseScript :: "server \<Rightarrow> string \<Rightarrow> string \<Rightarrow> string \<Rightarrow> gotime \<Rightarrow> gotime \<Rightarrow> script" where
  "renewLeaseScript sv tuple_id agent_id lease_token timestamp lease_until d =
    (case load_agent (agentKey tuple_id) d of
       None \<Rightarrow> (Some (code_only ''NOT_FOUND''), d)
     | Some current \<Rightarrow>
         (case lease_code agent_id lease_token current of
            Some c \<Rightarrow> (Some (code_only c), d)
          | None \<Rightarrow>
              (let new = current \<lparr> a_OwnerTime := timestamp, a_UpdatedAt := timestamp, a_LeaseUntil := lease_until,
                     a_Metadata := Some (AList.update internalLeaseUntilMsKey (show_int (UnixMilli lease_until))
                       (or_nil (a_Metadata current))) \<rparr>
               in (Some (with_agent ''RENEWED'' (LuaText (cjson_encode (sv_lib sv) new))),
                   rewrite_agent (sv_lib sv) 0 current new tuple_id d))))"

section \<open>Completing with outputs\<close>

definition output_data :: "bool \<Rightarrow> agent \<Rightarrow> string \<Rightarrow> json" where
  "output_data slim_events out tuple_id =
    (if slim_events
     then JObj [(''tuple_id'', JStr (a_ID out)), (''kind'', JStr (a_Kind out)), (''status'', JStr (a_Status out)),
                (''parent_id'', JStr tuple_id)]
     else JObj [(''agent'', case agent_json out of Some j \<Rightarrow> j | None \<Rightarrow> JNull), (''parent_id'', JStr tuple_id)])"

fun lua_outputs ::
  "server \<Rightarrow> bool \<Rightarrow> bool \<Rightarrow> string \<Rightarrow> string \<Rightarrow> gotime \<Rightarrow> agent list \<Rightarrow> vk_db \<Rightarrow> agent_text list \<times> vk_db" where
  "lua_outputs sv write_events slim_events tuple_id agent_id timestamp [] d = ([], d)"
| "lua_outputs sv write_events slim_events tuple_id agent_id timestamp (out # outs) d =
    (let out = normalize_agent out;
         d = store_agent (sv_lib sv) out (a_ID out) d;
         d = event_if sv write_events (lua_event out (a_ID out) EventCreated timestamp agent_id
               (output_data slim_events out tuple_id)) d;
         (created, d) = lua_outputs sv write_events slim_events tuple_id agent_id timestamp outs d
     in (LuaText (cjson_encode (sv_lib sv) out) # created, d))"

text \<open>A nil slice of outputs is the text \<^verbatim>\<open>null\<close>, over which \<^verbatim>\<open>ipairs\<close> raises an error.\<close>

definition completeAndOutScript ::
  "server \<Rightarrow> bool \<Rightarrow> bool \<Rightarrow> string \<Rightarrow> string \<Rightarrow> string \<Rightarrow> gval gomap \<Rightarrow> json \<Rightarrow> agent list option \<Rightarrow> gotime \<Rightarrow> script" where
  "completeAndOutScript sv write_events slim_events tuple_id agent_id lease_token result result_json outputs timestamp d =
    (case load_agent (agentKey tuple_id) d of
       None \<Rightarrow> (Some (code_only ''NOT_FOUND''), d)
     | Some current \<Rightarrow>
         (case lease_code agent_id lease_token current of
            Some c \<Rightarrow> (Some (code_only c), d)
          | None \<Rightarrow>
              (let new = lua_completed agent_id lease_token timestamp result current;
                   d = rewrite_agent (sv_lib sv) 0 current new tuple_id d;
                   d = event_if sv write_events (lua_event new tuple_id EventCompleted timestamp agent_id result_json) d
               in case outputs of
                    None \<Rightarrow> (None, d)
                  | Some outs \<Rightarrow>
                      (let (created, d) = lua_outputs sv write_events slim_events tuple_id agent_id timestamp outs d
                       in (Some ((with_agent ''COMPLETED_AND_OUT'' (LuaText (cjson_encode (sv_lib sv) new)))
                            \<lparr> sr_Created := Some created \<rparr>), d)))))"

section \<open>Claims from a queue\<close>

record queue_claim =
  qc_Namespace :: string
  qc_Queue :: string
  qc_Kind :: string
  qc_Owner :: string
  qc_AgentID :: string
  qc_Timestamp :: gotime
  qc_NowMS :: int
  qc_DefaultLeaseMS :: int

definition queue_claimed :: "server \<Rightarrow> queue_claim \<Rightarrow> string \<Rightarrow> hot_agent_state \<Rightarrow> agent \<Rightarrow> agent" where
  "queue_claimed sv qc lease_token hot current =
    (let lease_ms = (if ht_LeaseMS hot \<le> 0 then qc_DefaultLeaseMS qc else ht_LeaseMS hot)
     in lua_claimed (qc_AgentID qc) lease_token (qc_Timestamp qc) (lua_tostring (sv_lib sv) (qc_NowMS qc + lease_ms))
          zero_time current)"

text \<open>How the walk over the candidates ends: a claim, a head that the query does not match, or the end of the
  candidates.  Candidates that do not belong to the queue are dropped from it.\<close>

datatype queue_end = QClaimed agent | QNotHead | QEmpty

fun queue_walk ::
  "server \<Rightarrow> bool \<Rightarrow> queue_claim \<Rightarrow> (string \<Rightarrow> string) \<Rightarrow> string \<Rightarrow> string list \<Rightarrow> vk_db \<Rightarrow> queue_end \<times> vk_db" where
  "queue_walk sv write_events qc token queue_key_name [] d = (QEmpty, d)"
| "queue_walk sv write_events qc token queue_key_name (tuple_id # rest) d =
    (case (load_hot tuple_id d, load_agent (agentKey tuple_id) d) of
       (Some hot, Some current) \<Rightarrow>
         if ht_Status hot \<noteq> StatusNew \<or> ht_Queue hot \<noteq> qc_Queue qc \<or> ht_NamespaceID hot \<noteq> qc_Namespace qc
         then queue_walk sv write_events qc token queue_key_name rest (zrem queue_key_name tuple_id d)
         else if qc_Kind qc \<noteq> [] \<and> ht_Kind hot \<noteq> qc_Kind qc then (QNotHead, d)
         else if qc_Owner qc \<noteq> [] \<and> ht_Owner hot \<noteq> qc_Owner qc then (QNotHead, d)
         else (let new = queue_claimed sv qc (token tuple_id) hot current;
                   d = rewrite_agent (sv_lib sv) (qc_DefaultLeaseMS qc) current new tuple_id d
               in (QClaimed new, event_if sv write_events (lua_event new tuple_id EventClaimed (qc_Timestamp qc)
                     (qc_AgentID qc) (claim_data (qc_AgentID qc))) d))
     | _ \<Rightarrow> queue_walk sv write_events qc token queue_key_name rest (zrem queue_key_name tuple_id d))"

definition queueTakeScript :: "server \<Rightarrow> bool \<Rightarrow> queue_claim \<Rightarrow> string \<Rightarrow> string \<Rightarrow> script" where
  "queueTakeScript sv write_events qc lease_token queue_key_name d =
    (case queue_walk sv write_events qc (\<lambda>_. lease_token) queue_key_name (zrange 16 queue_key_name d) d of
       (QClaimed new, d) \<Rightarrow> (Some (with_agent ''CLAIMED'' (LuaText (cjson_encode (sv_lib sv) new))), d)
     | (QNotHead, d) \<Rightarrow> (Some (code_only ''NOT_QUEUE_HEAD''), d)
     | (QEmpty, d) \<Rightarrow> (Some (code_only ''EMPTY''), d))"

text \<open>The rounds of a batch; the result says whether the script returned from within a round.\<close>

fun batch_rounds ::
  "server \<Rightarrow> bool \<Rightarrow> queue_claim \<Rightarrow> string \<Rightarrow> string \<Rightarrow> nat \<Rightarrow> nat \<Rightarrow> vk_db \<Rightarrow> (bool \<times> agent list) \<times> vk_db" where
  "batch_rounds sv write_events qc lease_token_prefix queue_key_name index 0 d = ((False, []), d)"
| "batch_rounds sv write_events qc lease_token_prefix queue_key_name index (Suc limit) d =
    (case queue_walk sv write_events qc (\<lambda>i. lease_token_prefix @ '':'' @ show_int (int index) @ '':'' @ i) queue_key_name
        (zrange 16 queue_key_name d) d of
       (QClaimed new, d) \<Rightarrow>
         (let ((returned, claimed), d) = batch_rounds sv write_events qc lease_token_prefix queue_key_name (Suc index) limit d
          in ((returned, new # claimed), d))
     | (QNotHead, d) \<Rightarrow> ((True, []), d)
     | (QEmpty, d) \<Rightarrow> ((False, []), d))"

definition queueBatchTakeScript :: "server \<Rightarrow> bool \<Rightarrow> queue_claim \<Rightarrow> string \<Rightarrow> nat \<Rightarrow> string \<Rightarrow> script" where
  "queueBatchTakeScript sv write_events qc lease_token_prefix limit queue_key_name d =
    (let ((returned, claimed), d) = batch_rounds sv write_events qc lease_token_prefix queue_key_name 1 limit d;
         code = (if returned then ''NOT_QUEUE_HEAD'' else if claimed = [] then ''EMPTY'' else ''BATCH_CLAIMED'')
     in (Some ((code_only code) \<lparr> sr_Agents := Some (map (\<lambda>t. LuaText (cjson_encode (sv_lib sv) t)) claimed) \<rparr>), d))"

section \<open>The reaper\<close>

definition reap_data :: "string \<Rightarrow> json" where
  "reap_data previous_owner = JObj [(''reap_reason'', JStr ''lease_expired''), (''previous_owner'', JStr previous_owner)]"

fun reap_walk :: "server \<Rightarrow> bool \<Rightarrow> gotime \<Rightarrow> string list \<Rightarrow> vk_db \<Rightarrow> nat \<times> vk_db" where
  "reap_walk sv write_events timestamp [] d = (0, d)"
| "reap_walk sv write_events timestamp (tuple_id # rest) d =
    (case load_agent (agentKey tuple_id) d of
       Some current \<Rightarrow>
         if a_Status current = StatusInProgress
         then (let new = lua_freed StatusNew timestamp current;
                   d = rewrite_agent (sv_lib sv) 0 current new tuple_id d;
                   d = event_if sv write_events (lua_event new tuple_id EventReleased timestamp ''reaper''
                         (reap_data (a_Owner current))) d;
                   (count, d) = reap_walk sv write_events timestamp rest d
               in (Suc count, d))
         else reap_walk sv write_events timestamp rest (zrem globalLeaseKey tuple_id d)
     | None \<Rightarrow> reap_walk sv write_events timestamp rest (zrem globalLeaseKey tuple_id d))"

definition reapScript :: "server \<Rightarrow> bool \<Rightarrow> gotime \<Rightarrow> int \<Rightarrow> nat \<Rightarrow> script" where
  "reapScript sv write_events timestamp now_ms batch d =
    (let (count, d) = reap_walk sv write_events timestamp (zrangebyscore (of_int now_ms) batch globalLeaseKey d) d
     in (Some ((code_only []) \<lparr> sr_Count := count \<rparr>), d))"

end
