(* ===== verification/Vk_Index.thy ===== *)
theory Vk_Index
  imports Vk_Scripts
begin

text \<open>
  The invariant of a Valkey server: the sets, the sorted sets and the hot states say exactly what the agent documents
  say.  Every script replaces documents by \<^verbatim>\<open>rewrite_agent\<close> or \<^verbatim>\<open>store_agent\<close>, which keep it.
\<close>

section \<open>The invariant\<close>

definition doc :: "vk_db \<Rightarrow> string \<Rightarrow> agent option" where
  "doc d i = k_agents d (agentKey i)"

definition hot :: "vk_db \<Rightarrow> string \<Rightarrow> hot_agent_state option" where
  "hot d i = k_hot d (hotStateKey i)"

text \<open>The sorted set an agent stands in, with its score.\<close>

definition zset_entry :: "lua_lib \<Rightarrow> agent \<Rightarrow> (string \<times> rat) option" where
  "zset_entry lib t =
    (if a_Status t = StatusNew
     then Some (if queue_key t \<noteq> [] then (queue_key t, queue_score lib t) else (globalOrderKey, created_score lib t))
     else if a_Status t = StatusInProgress \<and> 0 < lease_score lib t then Some (globalLeaseKey, lease_score lib t)
     else None)"

definition wf_doc :: "string \<Rightarrow> agent \<Rightarrow> bool" where
  "wf_doc i t \<longleftrightarrow> a_ID t = i \<and> distinct (map fst (or_nil (a_Metadata t)))"

definition sets_exact :: "vk_db \<Rightarrow> bool" where
  "sets_exact d \<longleftrightarrow> (\<forall>k. distinct (k_sets d k)) \<and>
     (\<forall>k i. i \<in> set (k_sets d k) \<longleftrightarrow> (\<exists>t. doc d i = Some t \<and> k \<in> set (index_keys t)))"

definition zsets_exact :: "lua_lib \<Rightarrow> vk_db \<Rightarrow> bool" where
  "zsets_exact lib d \<longleftrightarrow> (\<forall>k. distinct (map fst (k_zsets d k))) \<and>
     (\<forall>k i score. (i, score) \<in> set (k_zsets d k) \<longleftrightarrow>
        (\<exists>t. doc d i = Some t \<and> zset_entry lib t = Some (k, score)))"

definition hot_exact :: "lua_lib \<Rightarrow> vk_db \<Rightarrow> bool" where
  "hot_exact lib d \<longleftrightarrow> (\<forall>i t. doc d i = Some t \<longrightarrow> (\<exists>dflt. hot d i = Some (hot_state lib t i dflt)))"

definition good_vk :: "lua_lib \<Rightarrow> vk_db \<Rightarrow> bool" where
  "good_vk lib d \<longleftrightarrow> sets_exact d \<and> zsets_exact lib d \<and> hot_exact lib d \<and> (\<forall>i t. doc d i = Some t \<longrightarrow> wf_doc i t)"

section \<open>Commands and helpers\<close>

lemma normalize_frame [simp]:
  "a_ID (normalize_agent t) = a_ID t" "a_Kind (normalize_agent t) = a_Kind t" "a_Status (normalize_agent t) = a_Status t"
  "a_Tags (normalize_agent t) = a_Tags t" "a_Owner (normalize_agent t) = a_Owner t" "a_ParentID (normalize_agent t) = a_ParentID t"
  "a_TraceID (normalize_agent t) = a_TraceID t" "a_NamespaceID (normalize_agent t) = a_NamespaceID t"
  "a_LeaseToken (normalize_agent t) = a_LeaseToken t" "a_Version (normalize_agent t) = a_Version t" "a_TTL (normalize_agent t) = a_TTL t"
  "a_CreatedAt (normalize_agent t) = a_CreatedAt t"
  "a_Metadata (normalize_agent t) = Some (AList.clearjunk (or_nil (a_Metadata t)))"
  by (simp_all add: normalize_agent_def)

lemma normalize_distinct [simp]: "distinct (map fst (or_nil (a_Metadata (normalize_agent t))))"
  by (simp add: distinct_clearjunk)

lemma metadata_value_normalize [simp]: "metadata_value (normalize_agent t) k = metadata_value t k"
  by (simp add: metadata_value_def str_at_def map_of_clearjunk)

text \<open>What depends on the metadata map and the namespace only.\<close>

lemma values_cong:
  assumes "metadata_value t' = metadata_value t"
  shows "queue_value t' = queue_value t" "created_score lib t' = created_score lib t" "lease_score lib t' = lease_score lib t"
    "queue_score lib t' = queue_score lib t" "lease_duration_ms lib t' ms = lease_duration_ms lib t ms"
    "a_NamespaceID t' = a_NamespaceID t \<Longrightarrow> namespace_value t' = namespace_value t"
    "a_NamespaceID t' = a_NamespaceID t \<Longrightarrow> queue_key t' = queue_key t"
    "a_NamespaceID t' = a_NamespaceID t \<Longrightarrow> a_Status t' = a_Status t \<Longrightarrow> zset_entry lib t' = zset_entry lib t"
proof -
  show q: "queue_value t' = queue_value t" and c: "created_score lib t' = created_score lib t" and l: "lease_score lib t' = lease_score lib t"
    and qs: "queue_score lib t' = queue_score lib t" and "lease_duration_ms lib t' ms = lease_duration_ms lib t ms"
    unfolding queue_value_def created_score_def lease_score_def queue_score_def lease_duration_ms_def number_at_def assms by (rule refl)+
  show n: "a_NamespaceID t' = a_NamespaceID t \<Longrightarrow> namespace_value t' = namespace_value t"
    by (simp add: namespace_value_def assms)
  show k: "a_NamespaceID t' = a_NamespaceID t \<Longrightarrow> queue_key t' = queue_key t"
    by (simp add: queue_key_def q n)
  show "a_NamespaceID t' = a_NamespaceID t \<Longrightarrow> a_Status t' = a_Status t \<Longrightarrow> zset_entry lib t' = zset_entry lib t"
    by (simp add: zset_entry_def k qs c l)
qed

lemma values_normalize [simp]:
  "namespace_value (normalize_agent t) = namespace_value t" "queue_value (normalize_agent t) = queue_value t"
  "created_score lib (normalize_agent t) = created_score lib t" "lease_score lib (normalize_agent t) = lease_score lib t"
  "queue_key (normalize_agent t) = queue_key t" "queue_score lib (normalize_agent t) = queue_score lib t"
  "lease_duration_ms lib (normalize_agent t) ms = lease_duration_ms lib t ms" "zset_entry lib (normalize_agent t) = zset_entry lib t"
  by (rule values_cong; simp add: fun_eq_iff)+

lemma normalize_metadata: "wf_doc i t \<Longrightarrow> or_nil (a_Metadata (normalize_agent t)) = or_nil (a_Metadata t)"
  by (simp add: wf_doc_def distinct_clearjunk_id)

lemma normalize_idem [simp]: "normalize_agent (normalize_agent t) = normalize_agent t"
  by (simp add: normalize_agent_def distinct_clearjunk_id distinct_clearjunk)

lemma encode_frame [simp]:
  "a_ID (cjson_encode lib t) = a_ID t" "a_Kind (cjson_encode lib t) = a_Kind t" "a_Status (cjson_encode lib t) = a_Status t"
  "a_Tags (cjson_encode lib t) = a_Tags t" "a_Owner (cjson_encode lib t) = a_Owner t" "a_ParentID (cjson_encode lib t) = a_ParentID t"
  "a_TraceID (cjson_encode lib t) = a_TraceID t" "a_NamespaceID (cjson_encode lib t) = a_NamespaceID t"
  "a_LeaseToken (cjson_encode lib t) = a_LeaseToken t" "a_Version (cjson_encode lib t) = a_Version t" "a_TTL (cjson_encode lib t) = a_TTL t"
  "a_CreatedAt (cjson_encode lib t) = a_CreatedAt t" "a_Metadata (cjson_encode lib t) = a_Metadata t"
  by (simp_all add: cjson_encode_def)

lemma metadata_value_encode [simp]: "metadata_value (cjson_encode lib t) = metadata_value t"
  by (simp add: metadata_value_def fun_eq_iff)

lemma values_encode [simp]:
  "namespace_value (cjson_encode lib t) = namespace_value t" "queue_value (cjson_encode lib t) = queue_value t"
  "created_score lib' (cjson_encode lib t) = created_score lib' t" "lease_score lib' (cjson_encode lib t) = lease_score lib' t"
  "queue_key (cjson_encode lib t) = queue_key t" "queue_score lib' (cjson_encode lib t) = queue_score lib' t"
  "lease_duration_ms lib' (cjson_encode lib t) ms = lease_duration_ms lib' t ms" "zset_entry lib' (cjson_encode lib t) = zset_entry lib' t"
  by (rule values_cong; simp)+

lemma keys_encode [simp]:
  "index_keys (cjson_encode lib t) = index_keys t" "hot_state lib' (cjson_encode lib t) i ms = hot_state lib' t i ms"
  "wf_doc i (cjson_encode lib t) = wf_doc i t"
  by (simp_all add: index_keys_def hot_state_def wf_doc_def)

lemma set_index_keys_normalize: "wf_doc i t \<Longrightarrow> index_keys (normalize_agent t) = index_keys t"
  by (simp add: index_keys_def wf_doc_def distinct_clearjunk_id)

lemma sadd_frame [simp]:
  "k_agents (sadd k m d) = k_agents d" "k_hot (sadd k m d) = k_hot d" "k_zsets (sadd k m d) = k_zsets d" "k_streams (sadd k m d) = k_streams d"
  by (simp_all add: sadd_def)

lemma srem_frame [simp]:
  "k_agents (srem k m d) = k_agents d" "k_hot (srem k m d) = k_hot d" "k_zsets (srem k m d) = k_zsets d" "k_streams (srem k m d) = k_streams d"
  by (simp_all add: srem_def)

lemma zadd_frame [simp]:
  "k_agents (zadd k sc m d) = k_agents d" "k_hot (zadd k sc m d) = k_hot d" "k_sets (zadd k sc m d) = k_sets d" "k_streams (zadd k sc m d) = k_streams d"
  by (simp_all add: zadd_def)

lemma zrem_frame [simp]:
  "k_agents (zrem k m d) = k_agents d" "k_hot (zrem k m d) = k_hot d" "k_sets (zrem k m d) = k_sets d" "k_streams (zrem k m d) = k_streams d"
  by (simp_all add: zrem_def)

lemma fold_sadd [simp]:
  "k_agents (fold (\<lambda>k. sadd k m) ks d) = k_agents d" "k_hot (fold (\<lambda>k. sadd k m) ks d) = k_hot d"
  "k_zsets (fold (\<lambda>k. sadd k m) ks d) = k_zsets d" "k_streams (fold (\<lambda>k. sadd k m) ks d) = k_streams d"
  by (induction ks arbitrary: d) simp_all

lemma fold_srem [simp]:
  "k_agents (fold (\<lambda>k. srem k m) ks d) = k_agents d" "k_hot (fold (\<lambda>k. srem k m) ks d) = k_hot d"
  "k_zsets (fold (\<lambda>k. srem k m) ks d) = k_zsets d" "k_streams (fold (\<lambda>k. srem k m) ks d) = k_streams d"
  by (induction ks arbitrary: d) simp_all

lemma fold_sadd_sets:
  "i \<in> set (k_sets (fold (\<lambda>k. sadd k m) ks d) k) \<longleftrightarrow> i \<in> set (k_sets d k) \<or> i = m \<and> k \<in> set ks"
  "(\<forall>k. distinct (k_sets d k)) \<Longrightarrow> distinct (k_sets (fold (\<lambda>k. sadd k m) ks d) k)"
  by (induction ks arbitrary: d) (auto simp: sadd_def)

lemma fold_srem_sets:
  "i \<in> set (k_sets (fold (\<lambda>k. srem k m) ks d) k) \<longleftrightarrow> i \<in> set (k_sets d k) \<and> \<not> (i = m \<and> k \<in> set ks)"
  "(\<forall>k. distinct (k_sets d k)) \<Longrightarrow> distinct (k_sets (fold (\<lambda>k. srem k m) ks d) k)"
  by (induction ks arbitrary: d) (auto simp: srem_def distinct_removeAll)

lemma doc_simps [simp]:
  "doc (sadd k m d) = doc d" "doc (srem k m d) = doc d" "doc (zadd k sc m d) = doc d" "doc (zrem k m d) = doc d"
  "hot (sadd k m d) = hot d" "hot (srem k m d) = hot d" "hot (zadd k sc m d) = hot d" "hot (zrem k m d) = hot d"
  "doc (fold (\<lambda>k. sadd k m) ks d) = doc d" "doc (fold (\<lambda>k. srem k m) ks d) = doc d"
  "hot (fold (\<lambda>k. sadd k m) ks d) = hot d" "hot (fold (\<lambda>k. srem k m) ks d) = hot d"
  by (simp_all add: doc_def hot_def fun_eq_iff)

lemma index_frame [simp]:
  "doc (remove_indexes t i d) = doc d" "hot (remove_indexes t i d) = hot d"
  "doc (add_indexes lib t i d) = doc d" "hot (add_indexes lib t i d) = hot d"
  "k_streams (remove_indexes t i d) = k_streams d" "k_streams (add_indexes lib t i d) = k_streams d"
  by (simp_all add: remove_indexes_def add_indexes_def Let_def)

lemma persist_frame [simp]:
  "doc (persist_agent lib t i dflt d) = (doc d)(i \<mapsto> cjson_encode lib t)"
  "hot (persist_agent lib t i dflt d) = (hot d)(i \<mapsto> hot_state lib t i dflt)"
  "k_sets (persist_agent lib t i dflt d) = k_sets d" "k_zsets (persist_agent lib t i dflt d) = k_zsets d"
  "k_streams (persist_agent lib t i dflt d) = k_streams d"
  by (simp_all add: doc_def hot_def persist_agent_def fun_eq_iff)

lemma xadd_frame [simp]:
  "k_agents (xadd sv k n en d) = k_agents d" "k_hot (xadd sv k n en d) = k_hot d"
  "k_sets (xadd sv k n en d) = k_sets d" "k_zsets (xadd sv k n en d) = k_zsets d"
  unfolding xadd_def Let_def by simp_all

lemma append_frame [simp]:
  "k_agents (lua_append_event sv en d) = k_agents d" "k_hot (lua_append_event sv en d) = k_hot d"
  "k_sets (lua_append_event sv en d) = k_sets d" "k_zsets (lua_append_event sv en d) = k_zsets d"
  unfolding lua_append_event_def Let_def by simp_all

lemma event_frame [simp]:
  "doc (event_if sv w en d) = doc d" "hot (event_if sv w en d) = hot d"
  "k_sets (event_if sv w en d) = k_sets d" "k_zsets (event_if sv w en d) = k_zsets d"
  by (simp_all add: event_if_def doc_def hot_def fun_eq_iff)

lemma good_event [simp]: "good_vk lib (event_if sv w en d) \<longleftrightarrow> good_vk lib d"
  unfolding good_vk_def sets_exact_def zsets_exact_def hot_exact_def event_frame ..

section \<open>Replacing a document\<close>

text \<open>\<open>cleared i d d1\<close>: the indexes of \<open>d1\<close> are those of \<open>d\<close> without the agent \<open>i\<close>.\<close>

definition cleared :: "string \<Rightarrow> vk_db \<Rightarrow> vk_db \<Rightarrow> bool" where
  "cleared i d d1 \<longleftrightarrow>
     (\<forall>k j. j \<in> set (k_sets d1 k) \<longleftrightarrow> j \<noteq> i \<and> j \<in> set (k_sets d k)) \<and> (\<forall>k. distinct (k_sets d1 k)) \<and>
     (\<forall>k j score. (j, score) \<in> set (k_zsets d1 k) \<longleftrightarrow> j \<noteq> i \<and> (j, score) \<in> set (k_zsets d k)) \<and>
     (\<forall>k. distinct (map fst (k_zsets d1 k))) \<and> doc d1 = doc d \<and> hot d1 = hot d"

lemma set_zrem: "(j, score) \<in> set (k_zsets (zrem k m d) k') \<longleftrightarrow> (j, score) \<in> set (k_zsets d k') \<and> \<not> (k' = k \<and> j = m)"
  by (auto simp: zrem_def AList.delete_eq)

lemma distinct_zrem: "\<forall>k. distinct (map fst (k_zsets d k)) \<Longrightarrow> distinct (map fst (k_zsets (zrem k m d) k'))"
  by (simp add: zrem_def AList.distinct_delete)

lemma distinct_zadd: "\<forall>k. distinct (map fst (k_zsets d k)) \<Longrightarrow> distinct (map fst (k_zsets (zadd k sc m d) k'))"
  by (simp add: zadd_def distinct_update)

lemma set_zadd:
  assumes "\<forall>k. distinct (map fst (k_zsets d k))" "\<forall>k score. (m, score) \<notin> set (k_zsets d k)"
  shows "(j, score) \<in> set (k_zsets (zadd k sc m d) k') \<longleftrightarrow> (j, score) \<in> set (k_zsets d k') \<or> k' = k \<and> j = m \<and> score = sc"
proof -
  have d: "distinct (map fst (AList.update m sc (k_zsets d k)))" using assms(1) by (simp add: distinct_update)
  have "(j, score) \<in> set (AList.update m sc (k_zsets d k)) \<longleftrightarrow> map_of (AList.update m sc (k_zsets d k)) j = Some score"
    using map_of_eq_Some_iff[OF d] by simp
  also have "\<dots> \<longleftrightarrow> (j, score) \<in> set (k_zsets d k) \<or> j = m \<and> score = sc"
    using assms map_of_eq_Some_iff[of "k_zsets d k" j score] by (auto simp: map_of_upd)
  finally show ?thesis by (auto simp: zadd_def)
qed

lemma remove_cleared:
  assumes "good_vk lib d" "doc d i = Some old"
  shows "cleared i d (remove_indexes (normalize_agent old) i d)"
proof -
  have wf: "wf_doc i old" and S: "sets_exact d" and Z: "zsets_exact lib d" using assms by (auto simp: good_vk_def)
  have keys: "index_keys (normalize_agent old) = index_keys old" by (rule set_index_keys_normalize[OF wf])
  let ?dr = "fold (\<lambda>k. srem k i) (index_keys old) d"
  let ?d = "remove_indexes (normalize_agent old) i d"
  have sets: "k_sets ?d = k_sets ?dr" by (simp add: remove_indexes_def Let_def keys)
  have one: "(i, sc) \<in> set (k_zsets d k) \<longleftrightarrow> zset_entry lib old = Some (k, sc)" for k sc
    using Z assms(2) by (auto simp: zsets_exact_def)
  have z: "(j, sc) \<in> set (k_zsets ?d k) \<longleftrightarrow> j \<noteq> i \<and> (j, sc) \<in> set (k_zsets d k)" for j sc k
    using one[of sc k] by (auto simp: remove_indexes_def Let_def set_zrem zset_entry_def split: if_splits)
  have dz: "distinct (map fst (k_zsets ?d k))" for k
  proof -
    have "\<forall>k. distinct (map fst (k_zsets ?dr k))" using Z by (simp add: zsets_exact_def)
    from distinct_zrem[OF this] this show ?thesis by (simp add: remove_indexes_def Let_def keys)
  qed
  have m: "j \<in> set (k_sets ?d k) \<longleftrightarrow> j \<noteq> i \<and> j \<in> set (k_sets d k)" for j k
    unfolding sets fold_srem_sets using S assms(2) by (auto simp: sets_exact_def)
  have "distinct (k_sets ?d k)" for k unfolding sets using S by (intro fold_srem_sets(2)) (simp add: sets_exact_def)
  then show ?thesis unfolding cleared_def using m z dz by simp
qed

lemma cleared_none: "good_vk lib d \<Longrightarrow> doc d i = None \<Longrightarrow> cleared i d d"
  by (auto simp: cleared_def good_vk_def sets_exact_def zsets_exact_def)

lemma add_good:
  assumes "good_vk lib d" "cleared i d d1" "wf_doc i new"
  shows "good_vk lib (add_indexes lib new i (persist_agent lib new i dflt d1))"
proof -
  let ?p = "persist_agent lib new i dflt d1" and ?d = "add_indexes lib new i (persist_agent lib new i dflt d1)"
  have S: "sets_exact d" and Z: "zsets_exact lib d" and H: "hot_exact lib d" and W: "\<And>i t. doc d i = Some t \<Longrightarrow> wf_doc i t"
    using assms(1) by (auto simp: good_vk_def)
  have keys: "index_keys (normalize_agent new) = index_keys new" by (rule set_index_keys_normalize[OF assms(3)])
  have doc: "doc ?d = (doc d)(i \<mapsto> cjson_encode lib new)" and hot: "hot ?d = (hot d)(i \<mapsto> hot_state lib new i dflt)"
    using assms(2) by (simp_all add: cleared_def)
  have sets: "k_sets ?d = k_sets (fold (\<lambda>k. sadd k i) (index_keys new) ?p)"
    by (simp add: add_indexes_def Let_def keys)
  have "j \<in> set (k_sets ?d k) \<longleftrightarrow> (\<exists>t. doc ?d j = Some t \<and> k \<in> set (index_keys t))" for j k
    unfolding sets fold_sadd_sets using S assms(2) by (auto simp: doc sets_exact_def cleared_def)
  moreover have "distinct (k_sets ?d k)" for k
    unfolding sets using assms(2) by (intro fold_sadd_sets(2)) (simp add: cleared_def)
  ultimately have s: "sets_exact ?d" by (simp add: sets_exact_def)
  let ?q = "fold (\<lambda>k. sadd k i) (index_keys new) ?p"
  have dq: "\<forall>k. distinct (map fst (k_zsets ?q k))" and nq: "\<forall>k sc. (i, sc) \<notin> set (k_zsets ?q k)"
    using assms(2) by (simp_all add: cleared_def)
  have "distinct (map fst (k_zsets ?d k))" for k
    using dq by (auto simp: add_indexes_def Let_def keys intro!: distinct_zadd)
  moreover have "(j, sc) \<in> set (k_zsets ?d k) \<longleftrightarrow> (j, sc) \<in> set (k_zsets ?q k) \<or> j = i \<and> zset_entry lib new = Some (k, sc)" for j sc k
    by (auto simp: add_indexes_def Let_def keys set_zadd[OF dq nq] zset_entry_def)
  moreover have "(j, sc) \<in> set (k_zsets ?q k) \<longleftrightarrow> j \<noteq> i \<and> (\<exists>t. doc d j = Some t \<and> zset_entry lib t = Some (k, sc))" for j sc k
    using assms(2) Z by (auto simp: cleared_def zsets_exact_def)
  ultimately have "zsets_exact lib ?d" unfolding zsets_exact_def doc by auto
  moreover have "hot_exact lib ?d" using H unfolding hot_exact_def doc hot by auto
  moreover have "\<forall>j t. doc ?d j = Some t \<longrightarrow> wf_doc j t" using W assms(3) unfolding doc by auto
  ultimately show ?thesis using s by (simp add: good_vk_def)
qed

lemma load_agent_doc: "load_agent (agentKey i) d = map_option normalize_agent (doc d i)"
  by (simp add: load_agent_def doc_def)

lemma rewrite_good:
  assumes "good_vk lib d" "load_agent (agentKey i) d = Some current" "wf_doc i new"
  shows "good_vk lib (rewrite_agent lib dflt current new i d)"
    and "doc (rewrite_agent lib dflt current new i d) = (doc d)(i \<mapsto> cjson_encode lib new)"
proof -
  obtain old where old: "doc d i = Some old" "current = normalize_agent old" using assms(2) by (auto simp: load_agent_doc)
  show "good_vk lib (rewrite_agent lib dflt current new i d)"
    unfolding rewrite_agent_def old(2) by (rule add_good[OF assms(1) remove_cleared[OF assms(1) old(1)] assms(3)])
  show "doc (rewrite_agent lib dflt current new i d) = (doc d)(i \<mapsto> cjson_encode lib new)"
    by (simp add: rewrite_agent_def)
qed

lemma store_good:
  assumes "good_vk lib d" "wf_doc i new"
  shows "good_vk lib (store_agent lib new i d)" and "doc (store_agent lib new i d) = (doc d)(i \<mapsto> cjson_encode lib new)"
proof -
  show "good_vk lib (store_agent lib new i d)"
  proof (cases "doc d i")
    case None
    then show ?thesis
      using add_good[OF assms(1) cleared_none[OF assms(1) None] assms(2)] by (simp add: store_agent_def doc_def)
  next
    case (Some old)
    then show ?thesis
      using add_good[OF assms(1) remove_cleared[OF assms(1) Some] assms(2)] by (simp add: store_agent_def doc_def)
  qed
  show "doc (store_agent lib new i d) = (doc d)(i \<mapsto> cjson_encode lib new)"
    by (simp add: store_agent_def Let_def split: option.split)
qed

lemma good_empty: "good_vk lib empty_vk"
  by (simp add: good_vk_def sets_exact_def zsets_exact_def hot_exact_def empty_vk_def doc_def)

lemma loaded_wf: "good_vk lib d \<Longrightarrow> load_agent (agentKey i) d = Some t \<Longrightarrow> wf_doc i t"
  by (auto simp: load_agent_doc good_vk_def wf_doc_def distinct_clearjunk)

lemma wf_changes [simp]:
  "wf_doc i t \<Longrightarrow> wf_doc i (lua_claimed ag tok ts raw u t)" "wf_doc i t \<Longrightarrow> wf_doc i (lua_freed st ts t)"
  "wf_doc i t \<Longrightarrow> wf_doc i (lua_completed ag tok ts res t)" "wf_doc (a_ID t) (normalize_agent t)"
  by (simp_all add: wf_doc_def lua_claimed_def lua_freed_def lua_completed_def Let_def distinct_update distinct_delete distinct_clearjunk)

end
