(* ===== verification/Vk_Leases.thy ===== *)
theory Vk_Leases
  imports Vk_Index
begin

text \<open>
  A Valkey server as a backend of the lease contract.  Scripts are atomic, so whatever any number of nodes do, the agents
  of a server change by a sequence of script calls; each call is a sequence of steps of the contract and keeps the
  indexes exact.
\<close>

section \<open>Calls\<close>

text \<open>A call runs a script or one of the other commands that change a server: appending to a stream, the commands on
  spans, and \<^verbatim>\<open>SET\<close> of a lock with \<^verbatim>\<open>NX\<close> or \<^verbatim>\<open>XX\<close> and a time to live.\<close>

datatype vk_call =
    CallOut agent gotime string json
  | CallUpdate agent gotime string json
  | CallClaim string string string gotime gotime
  | CallQueueTake queue_claim string
  | CallQueueBatchTake queue_claim string nat
  | CallComplete string string string "gval gomap" json gotime
  | CallCompleteAndOut bool string string string "gval gomap" json "agent list option" gotime
  | CallRelease string string string string gotime
  | CallRenewLease string string string gotime gotime
  | CallReap gotime int nat
  | CallXadd string nat stream_entry
  | CallSetSpan string span
  | CallDelSpan string
  | CallZaddSpan string rat string
  | CallZremSpan string string
  | CallLock bool string string gotime gotime

abbreviation claim_key :: "queue_claim \<Rightarrow> string" where
  "claim_key qc \<equiv> queueIndexKey (qc_Namespace qc) (qc_Queue qc)"

definition plain_reply :: "vk_db \<Rightarrow> script_response option \<times> vk_db" where
  "plain_reply d = (Some (code_only ''OK''), d)"

definition lock_held :: "string \<Rightarrow> gotime \<Rightarrow> vk_db \<Rightarrow> string option" where
  "lock_held key now d = (case k_locks d key of Some (v, expires) \<Rightarrow> if now < expires then Some v else None | None \<Rightarrow> None)"

definition set_lock :: "bool \<Rightarrow> string \<Rightarrow> string \<Rightarrow> gotime \<Rightarrow> gotime \<Rightarrow> script" where
  "set_lock nx key v now expires d =
    (if (lock_held key now d = None) = nx then plain_reply (d \<lparr> k_locks := (k_locks d)(key \<mapsto> (v, expires)) \<rparr>)
     else (Some (code_only ''NIL''), d))"

fun vk_script :: "server \<Rightarrow> bool \<Rightarrow> vk_call \<Rightarrow> script" where
  "vk_script sv w (CallOut new ts ag dat) = outScript sv w new (a_ID new) ts ag dat"
| "vk_script sv w (CallUpdate new ts ag dat) = updateScript sv w new (a_ID new) ts ag dat"
| "vk_script sv w (CallClaim i ag tok ts u) = claimScript sv w i ag tok ts u"
| "vk_script sv w (CallQueueTake qc tok) = queueTakeScript sv w qc tok (claim_key qc)"
| "vk_script sv w (CallQueueBatchTake qc pre n) = queueBatchTakeScript sv w qc pre n (claim_key qc)"
| "vk_script sv w (CallComplete i ag tok res rj ts) = completeScript sv w i ag tok res rj ts"
| "vk_script sv w (CallCompleteAndOut slim i ag tok res rj outs ts) = completeAndOutScript sv w slim i ag tok res rj outs ts"
| "vk_script sv w (CallRelease i ag tok reason ts) = releaseScript sv w i ag tok reason ts"
| "vk_script sv w (CallRenewLease i ag tok ts u) = renewLeaseScript sv i ag tok ts u"
| "vk_script sv w (CallReap ts now batch) = reapScript sv w ts now batch"
| "vk_script sv w (CallXadd key maxlen en) = (\<lambda>d. plain_reply (xadd sv key maxlen en d))"
| "vk_script sv w (CallSetSpan key sp) = (\<lambda>d. plain_reply (d \<lparr> k_spans := (k_spans d)(key \<mapsto> sp) \<rparr>))"
| "vk_script sv w (CallDelSpan key) = (\<lambda>d. plain_reply (d \<lparr> k_spans := (k_spans d)(key := None) \<rparr>))"
| "vk_script sv w (CallZaddSpan key score m) = (\<lambda>d. plain_reply
    (d \<lparr> k_span_zsets := (k_span_zsets d)(key := AList.update m score (k_span_zsets d key)) \<rparr>))"
| "vk_script sv w (CallZremSpan key m) = (\<lambda>d. plain_reply
    (d \<lparr> k_span_zsets := (k_span_zsets d)(key := AList.delete m (k_span_zsets d key)) \<rparr>))"
| "vk_script sv w (CallLock nx key v now expires) = set_lock nx key v now expires"

text \<open>The store sends no completion, release or renewal without a worker and a token, and no claim from a queue
  without the name of the queue and its namespace.\<close>

fun vk_sent :: "vk_call \<Rightarrow> bool" where
  "vk_sent (CallComplete i ag tok res rj ts) = (ag \<noteq> [] \<and> tok \<noteq> [])"
| "vk_sent (CallCompleteAndOut slim i ag tok res rj outs ts) = (ag \<noteq> [] \<and> tok \<noteq> [])"
| "vk_sent (CallRelease i ag tok reason ts) = (ag \<noteq> [] \<and> tok \<noteq> [])"
| "vk_sent (CallRenewLease i ag tok ts u) = (ag \<noteq> [] \<and> tok \<noteq> [])"
| "vk_sent (CallQueueTake qc tok) = (qc_Namespace qc \<noteq> [] \<and> qc_Queue qc \<noteq> [])"
| "vk_sent (CallQueueBatchTake qc pre n) = (qc_Namespace qc \<noteq> [] \<and> qc_Queue qc \<noteq> [])"
| "vk_sent call = True"

type_synonym vk_request = "server \<times> bool \<times> vk_call"

text \<open>All servers run the same libraries.\<close>

definition vk_run :: "lua_lib \<Rightarrow> vk_request \<Rightarrow> script" where
  "vk_run lib r d = (case r of (sv, w, call) \<Rightarrow> if vk_sent call then vk_script (sv \<lparr> sv_lib := lib \<rparr>) w call d else (None, d))"

definition vk_exec :: "lua_lib \<Rightarrow> vk_request \<Rightarrow> vk_db \<Rightarrow> vk_db" where
  "vk_exec lib r d = snd (vk_run lib r d)"

section \<open>The view\<close>

definition vk_cell :: "lua_lib \<Rightarrow> agent \<Rightarrow> cell" where
  "vk_cell lib t = \<lparr> c_status = a_Status t, c_owner = a_Owner t, c_token = a_LeaseToken t,
     c_until = (if 0 < lease_score lib t then Some \<lfloor>lease_score lib t\<rfloor> else None), c_version = a_Version t,
     c_ctoken = metadata_value t CompletedByTokenMetadataKey \<rparr>"

definition vk_view :: "lua_lib \<Rightarrow> vk_db \<Rightarrow> space" where
  "vk_view lib d i = map_option (vk_cell lib) (doc d i)"

definition vk_take_label :: "lua_lib \<Rightarrow> agent \<Rightarrow> label" where
  "vk_take_label lib t = LTake (a_ID t) (a_Owner t) (a_LeaseToken t) (c_until (vk_cell lib t))"

definition out_labels :: "lua_lib \<Rightarrow> agent list \<Rightarrow> label list" where
  "out_labels lib outs = map (\<lambda>t. LOut (a_ID t) (vk_cell lib t)) outs"

definition sent_outputs :: "agent list option \<Rightarrow> agent list" where
  "sent_outputs outs = (case outs of None \<Rightarrow> [] | Some ts \<Rightarrow> ts)"

text \<open>The cell of an agent whose lease ends at the given text.\<close>

definition until_cell :: "lua_lib \<Rightarrow> string \<Rightarrow> int option" where
  "until_cell lib raw = (let u = (if raw = [] then 0 else case lu_tonumber lib raw of None \<Rightarrow> 0 | Some u \<Rightarrow> u)
     in if 0 < u then Some \<lfloor>u\<rfloor> else None)"

text \<open>The labels of a call.  An Update writes what the node has read and changed before; it is an update of the contract
  if the version it writes follows the stored one, and an unconditional write otherwise.\<close>

fun vk_labels :: "lua_lib \<Rightarrow> vk_request \<Rightarrow> vk_db \<Rightarrow> label list" where
  "vk_labels lib (sv, w, CallOut new ts ag dat) d = out_labels lib [new]"
| "vk_labels lib (sv, w, CallUpdate new ts ag dat) d =
    (case doc d (a_ID new) of None \<Rightarrow> []
     | Some t \<Rightarrow> if a_Version new = lua_succ (a_Version t) then [LUpdate (a_ID new) (vk_cell lib new)] else out_labels lib [new])"
| "vk_labels lib (sv, w, CallClaim i ag tok ts u) d =
    (case doc d i of None \<Rightarrow> []
     | Some t \<Rightarrow> if a_Status t = StatusNew then [LTake i ag tok (until_cell lib (show_int (UnixMilli u)))] else [])"
| "vk_labels lib (sv, w, CallQueueTake qc tok) d = (if qc_Namespace qc = [] \<or> qc_Queue qc = [] then [] else
    case fst (queue_walk (sv \<lparr> sv_lib := lib \<rparr>) w qc (\<lambda>_. tok) (claim_key qc) (zrange 16 (claim_key qc) d) d) of
       QClaimed new \<Rightarrow> [vk_take_label lib new] | _ \<Rightarrow> [])"
| "vk_labels lib (sv, w, CallQueueBatchTake qc pre n) d = (if qc_Namespace qc = [] \<or> qc_Queue qc = [] then [] else
    map (vk_take_label lib) (snd (fst (batch_rounds (sv \<lparr> sv_lib := lib \<rparr>) w qc pre (claim_key qc) 1 n d))))"
| "vk_labels lib (sv, w, CallComplete i ag tok res rj ts) d =
    (case doc d i of None \<Rightarrow> []
     | Some t \<Rightarrow> if ag \<noteq> [] \<and> tok \<noteq> [] \<and> lease_code ag tok t = None then [LComplete i ag tok] else [])"
| "vk_labels lib (sv, w, CallCompleteAndOut slim i ag tok res rj outs ts) d =
    (case doc d i of None \<Rightarrow> []
     | Some t \<Rightarrow> if ag \<noteq> [] \<and> tok \<noteq> [] \<and> lease_code ag tok t = None
         then LComplete i ag tok # out_labels lib (sent_outputs outs) else [])"
| "vk_labels lib (sv, w, CallRelease i ag tok reason ts) d =
    (case doc d i of None \<Rightarrow> []
     | Some t \<Rightarrow> if ag \<noteq> [] \<and> tok \<noteq> [] \<and> lease_code ag tok t = None then [LRelease i ag tok] else [])"
| "vk_labels lib (sv, w, CallRenewLease i ag tok ts u) d =
    (case doc d i of None \<Rightarrow> []
     | Some t \<Rightarrow> if ag \<noteq> [] \<and> tok \<noteq> [] \<and> lease_code ag tok t = None
         then [LRenew i ag tok (until_cell lib (show_int (UnixMilli u)))] else [])"
| "vk_labels lib (sv, w, CallReap ts now batch) d =
    map (\<lambda>i. LExpire i (now + 1)) (zrangebyscore (of_int now) batch globalLeaseKey d)"
| "vk_labels lib r d = []"

text \<open>A proper call creates agents under fresh ids, and updates agents that nobody has changed since they were read,
  leaving the lease alone.\<close>

fun vk_proper :: "lua_lib \<Rightarrow> vk_request \<Rightarrow> vk_db \<Rightarrow> bool" where
  "vk_proper lib (sv, w, CallOut new ts ag dat) d = (doc d (a_ID new) = None)"
| "vk_proper lib (sv, w, CallUpdate new ts ag dat) d =
    (case doc d (a_ID new) of None \<Rightarrow> True
     | Some t \<Rightarrow> a_Version new = lua_succ (a_Version t) \<and> a_Status new = a_Status t \<and> a_Owner new = a_Owner t \<and>
         a_LeaseToken new = a_LeaseToken t \<and>
         metadata_value new CompletedByTokenMetadataKey = metadata_value t CompletedByTokenMetadataKey)"
| "vk_proper lib (sv, w, CallCompleteAndOut slim i ag tok res rj outs ts) d =
    (distinct (map a_ID (sent_outputs outs)) \<and> list_all (\<lambda>t. doc d (a_ID t) = None) (sent_outputs outs))"
| "vk_proper lib r d = True"

section \<open>Cells of changed agents\<close>

lemma vk_cell_cong:
  "metadata_value t' = metadata_value t \<Longrightarrow> a_Status t' = a_Status t \<Longrightarrow> a_Owner t' = a_Owner t \<Longrightarrow>
   a_LeaseToken t' = a_LeaseToken t \<Longrightarrow> a_Version t' = a_Version t \<Longrightarrow> vk_cell lib t' = vk_cell lib t"
  by (simp add: vk_cell_def values_cong(3)[of t' t])

lemma vk_cell_simps [simp]: "vk_cell lib (normalize_agent t) = vk_cell lib t" "vk_cell lib (cjson_encode lib' t) = vk_cell lib t"
  by (rule vk_cell_cong; simp add: fun_eq_iff)+

lemma internal_keys [simp]:
  "internalLeaseUntilMsKey \<noteq> CompletedByTokenMetadataKey" "internalLeaseUntilMsKey \<noteq> CompletedByMetadataKey"
  "internalLeaseUntilMsKey \<noteq> CompletedAtMetadataKey" "CompletedByTokenMetadataKey \<noteq> internalLeaseUntilMsKey"
  "CompletedByMetadataKey \<noteq> internalLeaseUntilMsKey" "CompletedAtMetadataKey \<noteq> internalLeaseUntilMsKey"
  by (simp_all add: internalLeaseUntilMsKey_def CompletedByTokenMetadataKey_def CompletedByMetadataKey_def CompletedAtMetadataKey_def)

lemma metadata_value_upd:
  "metadata_value (t \<lparr> a_Metadata := Some (AList.update k v m) \<rparr>) k' = (if k' = k then v else str_at m k')"
  "metadata_value (t \<lparr> a_Metadata := Some (AList.delete k m) \<rparr>) k' = (if k' = k then [] else str_at m k')"
  by (auto simp: metadata_value_def str_at_def map_of_upd delete_conv')

lemma until_score: "metadata_value t internalLeaseUntilMsKey = raw \<Longrightarrow>
   (if 0 < lease_score lib t then Some \<lfloor>lease_score lib t\<rfloor> else None) = until_cell lib raw"
  by (simp add: lease_score_def number_at_def until_cell_def Let_def)

lemma claimed_vk_cell:
  "vk_cell lib (lua_claimed ag tok ts raw u t) = (vk_cell lib t) \<lparr> c_status := StatusInProgress, c_owner := ag, c_token := tok,
     c_until := until_cell lib raw, c_version := to_int64 (a_Version t + 1) \<rparr>"
proof -
  let ?n = "lua_claimed ag tok ts raw u t"
  have "metadata_value ?n internalLeaseUntilMsKey = raw" "metadata_value ?n CompletedByTokenMetadataKey = metadata_value t CompletedByTokenMetadataKey"
    by (auto simp: metadata_value_def lua_claimed_def str_at_def map_of_upd)
  then show ?thesis by (simp add: vk_cell_def until_score) (simp add: lua_claimed_def lua_succ_def)
qed

lemma freed_vk_cell:
  "vk_cell lib (lua_freed st ts t) = (freed st (vk_cell lib t)) \<lparr> c_version := to_int64 (a_Version t + 1) \<rparr>"
proof -
  let ?n = "lua_freed st ts t"
  have "metadata_value ?n internalLeaseUntilMsKey = []" "metadata_value ?n CompletedByTokenMetadataKey = metadata_value t CompletedByTokenMetadataKey"
    by (auto simp: metadata_value_def lua_freed_def str_at_def delete_conv')
  then show ?thesis by (simp add: vk_cell_def until_score freed_def) (simp add: lua_freed_def lua_succ_def until_cell_def)
qed

lemma completed_vk_cell:
  "vk_cell lib (lua_completed ag tok ts res t) =
     (freed StatusCompleted (vk_cell lib t)) \<lparr> c_version := to_int64 (a_Version t + 1), c_ctoken := tok \<rparr>"
proof -
  have "metadata_value (t \<lparr> a_Payload := p, a_Metadata := Some (AList.update CompletedAtMetadataKey x
      (AList.update CompletedByTokenMetadataKey tok (AList.update CompletedByMetadataKey ag m))) \<rparr>) CompletedByTokenMetadataKey = tok" for p x m
    by (simp add: metadata_value_def str_at_def map_of_upd CompletedByTokenMetadataKey_def CompletedByMetadataKey_def CompletedAtMetadataKey_def)
  then show ?thesis unfolding lua_completed_def Let_def freed_vk_cell by (simp add: vk_cell_def freed_def)
qed

lemma renewed_vk_cell:
  "vk_cell lib (t \<lparr> a_OwnerTime := ts, a_UpdatedAt := ts, a_LeaseUntil := u,
      a_Metadata := Some (AList.update internalLeaseUntilMsKey raw (or_nil (a_Metadata t))) \<rparr>) = (vk_cell lib t) \<lparr> c_until := until_cell lib raw \<rparr>"
proof -
  let ?n = "t \<lparr> a_OwnerTime := ts, a_UpdatedAt := ts, a_LeaseUntil := u,
      a_Metadata := Some (AList.update internalLeaseUntilMsKey raw (or_nil (a_Metadata t))) \<rparr>"
  have "metadata_value ?n internalLeaseUntilMsKey = raw" "metadata_value ?n CompletedByTokenMetadataKey = metadata_value t CompletedByTokenMetadataKey"
    by (auto simp: metadata_value_def str_at_def map_of_upd)
  then show ?thesis by (simp add: vk_cell_def until_score)
qed

section \<open>Scripts take steps of the contract\<close>

definition vk_sound :: "lua_lib \<Rightarrow> vk_db \<Rightarrow> label list \<Rightarrow> bool \<Rightarrow> vk_db \<Rightarrow> bool" where
  "vk_sound lib d ls ok d' \<longleftrightarrow> good_vk lib d' \<and> steps (vk_view lib d) ls (vk_view lib d') \<and>
     (ok \<longrightarrow> protocol (vk_view lib d) ls (vk_view lib d'))"

lemma vk_sound_refl [simp]: "good_vk lib d \<Longrightarrow> vk_sound lib d [] ok d"
  by (simp add: vk_sound_def steps_Nil)

lemma vk_sound_step:
  "good_vk lib d' \<Longrightarrow> step (vk_view lib d) l (vk_view lib d') \<Longrightarrow> (ok \<Longrightarrow> protocol_step (vk_view lib d) l) \<Longrightarrow> vk_sound lib d [l] ok d'"
  by (auto simp: vk_sound_def intro: steps_single)

lemma vk_sound_append:
  "vk_sound lib d ls ok d1 \<Longrightarrow> vk_sound lib d1 ls' ok d2 \<Longrightarrow> vk_sound lib d (ls @ ls') ok d2"
  by (auto simp: vk_sound_def protocol_append intro: steps_append)

lemma view_event [simp]: "vk_view lib (event_if sv w en d) = vk_view lib d"
  by (simp add: vk_view_def fun_eq_iff)

lemma sound_event [simp]: "vk_sound lib d ls ok (event_if sv w en d') \<longleftrightarrow> vk_sound lib d ls ok d'"
  by (simp add: vk_sound_def)

lemma view_doc: "doc d' = (doc d)(i \<mapsto> cjson_encode lib new) \<Longrightarrow> vk_view lib d' = (vk_view lib d)(i \<mapsto> vk_cell lib new)"
  by (simp add: vk_view_def fun_eq_iff)

text \<open>What a script has loaded is what the view shows.\<close>

lemma loaded:
  assumes "good_vk lib d" "load_agent (agentKey i) d = Some current"
  shows "vk_view lib d i = Some (vk_cell lib current)" "wf_doc i current" "a_ID current = i"
    "\<exists>t. doc d i = Some t \<and> current = normalize_agent t"
  using assms loaded_wf[OF assms] by (auto simp: load_agent_doc vk_view_def wf_doc_def)

lemma rewrite_sound:
  assumes "good_vk lib d" "load_agent (agentKey i) d = Some current" "wf_doc i new"
    "\<And>m. m i = Some (vk_cell lib current) \<Longrightarrow> step m l (m(i \<mapsto> vk_cell lib new))" "ok \<Longrightarrow> protocol_step (vk_view lib d) l"
  shows "vk_sound lib d [l] ok (rewrite_agent lib dflt current new i d)"
  using rewrite_good[OF assms(1-3)] assms(4)[of "vk_view lib d", OF loaded(1)[OF assms(1,2)]] assms(5)
  by (intro vk_sound_step) (simp_all add: view_doc)

lemma store_sound:
  assumes "good_vk lib d"
  shows "vk_sound lib d (out_labels lib [new]) (doc d (a_ID new) = None) (store_agent lib (normalize_agent new) (a_ID new) d)"
proof -
  note s = store_good[OF assms, of "a_ID new" "normalize_agent new"]
  have "vk_view lib (store_agent lib (normalize_agent new) (a_ID new) d) = (vk_view lib d)(a_ID new \<mapsto> vk_cell lib new)"
    using view_doc[OF s(2)] by simp
  then show ?thesis
    using s(1) unfolding out_labels_def by (auto intro!: vk_sound_step step.Out simp: vk_view_def)
qed

lemma lease_code_held: "lease_code ag tok t = None \<longleftrightarrow> held_by ag tok (vk_cell lib t)"
  by (auto simp: lease_code_def held_by_def vk_cell_def)

lemma lease_code_normalize [simp]: "lease_code ag tok (normalize_agent t) = lease_code ag tok t"
  by (simp add: lease_code_def)

lemma vk_cell_frame [simp]: "c_status (vk_cell lib t) = a_Status t" "c_version (vk_cell lib t) = a_Version t"
  "c_owner (vk_cell lib t) = a_Owner t" "c_token (vk_cell lib t) = a_LeaseToken t"
  "c_ctoken (vk_cell lib t) = metadata_value t CompletedByTokenMetadataKey"
  by (simp_all add: vk_cell_def)

lemma take_step:
  "a_Status t = StatusNew \<Longrightarrow> m i = Some (vk_cell lib t) \<Longrightarrow>
   step m (LTake i ag tok (until_cell lib raw)) (m(i \<mapsto> vk_cell lib (lua_claimed ag tok ts raw u t)))"
  unfolding claimed_vk_cell using step.Take[of m i "vk_cell lib t" ag tok "until_cell lib raw"] by simp

lemma complete_step:
  "ag \<noteq> [] \<Longrightarrow> tok \<noteq> [] \<Longrightarrow> lease_code ag tok t = None \<Longrightarrow> m i = Some (vk_cell lib t) \<Longrightarrow>
   step m (LComplete i ag tok) (m(i \<mapsto> vk_cell lib (lua_completed ag tok ts res t)))"
  unfolding completed_vk_cell lease_code_held[of _ _ _ lib] using step.Complete[of m i "vk_cell lib t" ag tok] by simp

lemma release_step:
  "ag \<noteq> [] \<Longrightarrow> tok \<noteq> [] \<Longrightarrow> lease_code ag tok t = None \<Longrightarrow> m i = Some (vk_cell lib t) \<Longrightarrow>
   step m (LRelease i ag tok) (m(i \<mapsto> vk_cell lib (lua_freed StatusNew ts t)))"
  unfolding freed_vk_cell lease_code_held[of _ _ _ lib] using step.Release[of m i "vk_cell lib t" ag tok] by simp

lemma renew_step:
  "ag \<noteq> [] \<Longrightarrow> tok \<noteq> [] \<Longrightarrow> lease_code ag tok t = None \<Longrightarrow> m i = Some (vk_cell lib t) \<Longrightarrow>
   step m (LRenew i ag tok (until_cell lib raw)) (m(i \<mapsto> vk_cell lib (t \<lparr> a_OwnerTime := ts, a_UpdatedAt := ts, a_LeaseUntil := u,
      a_Metadata := Some (AList.update internalLeaseUntilMsKey raw (or_nil (a_Metadata t))) \<rparr>)))"
  unfolding renewed_vk_cell lease_code_held[of _ _ _ lib] using step.Renew[of m i "vk_cell lib t" ag tok] by simp

lemma expire_step:
  "a_Status t = StatusInProgress \<Longrightarrow> 0 < lease_score lib t \<Longrightarrow> lease_score lib t \<le> of_int now \<Longrightarrow> m i = Some (vk_cell lib t) \<Longrightarrow>
   step m (LExpire i (now + 1)) (m(i \<mapsto> vk_cell lib (lua_freed StatusNew ts t)))"
  unfolding freed_vk_cell using step.Expire[of m i "vk_cell lib t" "\<lfloor>lease_score lib t\<rfloor>" "now + 1"]
  by (simp add: vk_cell_def floor_le_iff add_strict_increasing2)

end
