(* ===== verification/Vk_Backend.thy ===== *)
theory Vk_Backend
  imports Vk_Leases "HOL-Library.Multiset"
begin

text \<open>
  Every call of a script takes the steps that \<^verbatim>\<open>vk_labels\<close> names, keeps the indexes exact and, if it is proper, follows
  the lease protocol: a Valkey server is a backend of the lease contract, for any interleaving of calls.
\<close>

section \<open>Scripts on one agent\<close>

lemma vk_sound_mono: "vk_sound lib d ls ok d' \<Longrightarrow> (ok' \<Longrightarrow> ok) \<Longrightarrow> vk_sound lib d ls ok' d'"
  by (auto simp: vk_sound_def)

lemma no_document: "doc d i = None \<Longrightarrow> load_agent (agentKey i) d = None"
  by (simp add: load_agent_doc)

lemma a_document: "doc d i = Some t \<Longrightarrow> load_agent (agentKey i) d = Some (normalize_agent t)"
  by (simp add: load_agent_doc)

lemma out_script_sound:
  assumes "good_vk lib d" "sv_lib sv = lib"
  shows "vk_sound lib d (out_labels lib [new]) (doc d (a_ID new) = None) (snd (outScript sv w new (a_ID new) ts ag dat d))"
  using store_sound[OF assms(1)] assms(2) by (simp add: outScript_def Let_def)

lemma update_script_sound:
  assumes "good_vk lib d" "sv_lib sv = lib"
  shows "vk_sound lib d (vk_labels lib (sv', w, CallUpdate new ts ag dat) d) (vk_proper lib (sv', w, CallUpdate new ts ag dat) d)
    (snd (updateScript sv w new (a_ID new) ts ag dat d))"
proof (cases "doc d (a_ID new)")
  case (Some t)
  note l = a_document[OF Some]
  have "vk_sound lib d (vk_labels lib (sv', w, CallUpdate new ts ag dat) d) (vk_proper lib (sv', w, CallUpdate new ts ag dat) d)
    (rewrite_agent lib 0 (normalize_agent t) (normalize_agent new) (a_ID new) d)"
  proof (cases "a_Version new = lua_succ (a_Version t)")
    case True
    have "step m (LUpdate (a_ID new) (vk_cell lib new)) (m(a_ID new \<mapsto> vk_cell lib (normalize_agent new)))"
      if "m (a_ID new) = Some (vk_cell lib (normalize_agent t))" for m
      using step.Update[of m "a_ID new" "vk_cell lib t" "vk_cell lib new"] that True by (simp add: lua_succ_def)
    from rewrite_sound[OF assms(1) l _ this] show ?thesis using Some True by (simp add: vk_view_def)
  next
    case False
    have "step m (LOut (a_ID new) (vk_cell lib new)) (m(a_ID new \<mapsto> vk_cell lib (normalize_agent new)))" for m
      by (simp add: step.Out)
    from rewrite_sound[OF assms(1) l _ this, where ok = False] show ?thesis
      using Some False by (simp add: out_labels_def vk_sound_def)
  qed
  then show ?thesis using l assms(2) by (simp add: updateScript_def Let_def del: vk_labels.simps vk_proper.simps)
qed (use assms in \<open>simp add: updateScript_def no_document\<close>)

lemma claim_script_sound:
  assumes "good_vk lib d" "sv_lib sv = lib"
  shows "vk_sound lib d (vk_labels lib (sv', w, CallClaim i ag tok ts u) d) True (snd (claimScript sv w i ag tok ts u d))"
proof (cases "doc d i")
  case (Some t)
  note l = a_document[OF Some]
  show ?thesis
  proof (cases "a_Status t = StatusNew")
    case True
    note st = take_step[of "normalize_agent t", OF _, of _ i lib ag tok "show_int (UnixMilli u)" ts u]
    from rewrite_sound[OF assms(1) l _ st, where ok = True] loaded(2)[OF assms(1) l] show ?thesis
      using Some l True assms(2) by (simp add: claimScript_def Let_def)
  qed (use assms l Some in \<open>simp add: claimScript_def\<close>)
qed (use assms in \<open>simp add: claimScript_def no_document\<close>)

lemma complete_script_sound:
  assumes "good_vk lib d" "sv_lib sv = lib" "ag \<noteq> []" "tok \<noteq> []"
  shows "vk_sound lib d (vk_labels lib (sv', w, CallComplete i ag tok res rj ts) d) True
    (snd (completeScript sv w i ag tok res rj ts d))"
proof (cases "doc d i")
  case (Some t)
  note l = a_document[OF Some]
  show ?thesis
  proof (cases "lease_code ag tok t")
    case None
    then have "a_Status t \<noteq> StatusCompleted" by (auto simp: lease_code_def split: if_splits)
    note st = complete_step[of ag tok "normalize_agent t", OF assms(3,4) _, of _ i lib ts res]
    from rewrite_sound[OF assms(1) l _ st, where ok = True] loaded(2)[OF assms(1) l] show ?thesis
      using Some l None assms(2-4) \<open>a_Status t \<noteq> StatusCompleted\<close> by (simp add: completeScript_def Let_def)
  qed (use assms l Some in \<open>simp add: completeScript_def\<close>)
qed (use assms in \<open>simp add: completeScript_def no_document\<close>)

lemma release_script_sound:
  assumes "good_vk lib d" "sv_lib sv = lib" "ag \<noteq> []" "tok \<noteq> []"
  shows "vk_sound lib d (vk_labels lib (sv', w, CallRelease i ag tok reason ts) d) True
    (snd (releaseScript sv w i ag tok reason ts d))"
proof (cases "doc d i")
  case (Some t)
  note l = a_document[OF Some]
  show ?thesis
  proof (cases "lease_code ag tok t")
    case None
    note st = release_step[of ag tok "normalize_agent t", OF assms(3,4) _, of _ i lib ts]
    from rewrite_sound[OF assms(1) l _ st, where ok = True] loaded(2)[OF assms(1) l] show ?thesis
      using Some l None assms(2-4) by (simp add: releaseScript_def Let_def)
  qed (use assms l Some in \<open>simp add: releaseScript_def\<close>)
qed (use assms in \<open>simp add: releaseScript_def no_document\<close>)

lemma renew_script_sound:
  assumes "good_vk lib d" "sv_lib sv = lib" "ag \<noteq> []" "tok \<noteq> []"
  shows "vk_sound lib d (vk_labels lib (sv', w, CallRenewLease i ag tok ts u) d) True
    (snd (renewLeaseScript sv i ag tok ts u d))"
proof (cases "doc d i")
  case (Some t)
  note l = a_document[OF Some]
  show ?thesis
  proof (cases "lease_code ag tok t")
    case None
    note st = renew_step[of ag tok "normalize_agent t", OF assms(3,4) _, of _ i lib "show_int (UnixMilli u)" u ts]
    have wf: "wf_doc i (normalize_agent t \<lparr> a_OwnerTime := ts, a_UpdatedAt := ts, a_LeaseUntil := u,
      a_Metadata := Some (AList.update internalLeaseUntilMsKey raw (or_nil (a_Metadata (normalize_agent t)))) \<rparr>)" for raw
      using loaded(2)[OF assms(1) l] by (simp add: wf_doc_def distinct_update)
    from rewrite_sound[OF assms(1) l wf st, where ok = True] show ?thesis
      using Some l None assms(2-4) by (simp add: renewLeaseScript_def Let_def)
  qed (use assms l Some in \<open>simp add: renewLeaseScript_def\<close>)
qed (use assms in \<open>simp add: renewLeaseScript_def no_document\<close>)

section \<open>Completing with outputs\<close>

lemma lua_outputs_sound:
  assumes "good_vk lib d" "sv_lib sv = lib"
  shows "vk_sound lib d (out_labels lib outs) (distinct (map a_ID outs) \<and> list_all (\<lambda>t. doc d (a_ID t) = None) outs)
    (snd (lua_outputs sv w slim i ag ts outs d))"
  using assms(1)
proof (induction outs arbitrary: d)
  case (Cons out outs)
  define en where "en = lua_event (normalize_agent out) (a_ID out) EventCreated ts ag (output_data slim (normalize_agent out) i)"
  define d1 where "d1 = event_if sv w en (store_agent lib (normalize_agent out) (a_ID out) d)"
  have first: "vk_sound lib d (out_labels lib [out]) (doc d (a_ID out) = None) d1"
    using store_sound[OF Cons.prems] by (simp add: d1_def)
  then have good: "good_vk lib d1" by (simp add: vk_sound_def)
  have docs: "doc d1 = (doc d)(a_ID out \<mapsto> cjson_encode lib (normalize_agent out))"
    using store_good(2)[OF Cons.prems, of "a_ID out" "normalize_agent out"] by (simp add: d1_def)
  have rest: "snd (lua_outputs sv w slim i ag ts (out # outs) d) = snd (lua_outputs sv w slim i ag ts outs d1)"
    using assms(2) by (simp add: Let_def d1_def en_def split_beta)
  have labels: "out_labels lib (out # outs) = out_labels lib [out] @ out_labels lib outs" by (simp add: out_labels_def)
  show ?case unfolding rest labels
  proof (rule vk_sound_append)
    show "vk_sound lib d (out_labels lib [out]) (distinct (map a_ID (out # outs)) \<and> list_all (\<lambda>t. doc d (a_ID t) = None) (out # outs)) d1"
      by (rule vk_sound_mono[OF first]) simp
    show "vk_sound lib d1 (out_labels lib outs) (distinct (map a_ID (out # outs)) \<and> list_all (\<lambda>t. doc d (a_ID t) = None) (out # outs))
      (snd (lua_outputs sv w slim i ag ts outs d1))"
      by (rule vk_sound_mono[OF Cons.IH[OF good]]) (auto simp: docs list_all_iff, metis image_eqI)
  qed
qed (simp add: out_labels_def)

lemma complete_and_out_script_sound:
  assumes "good_vk lib d" "sv_lib sv = lib" "ag \<noteq> []" "tok \<noteq> []"
  shows "vk_sound lib d (vk_labels lib (sv', w, CallCompleteAndOut slim i ag tok res rj outs ts) d)
    (vk_proper lib (sv', w, CallCompleteAndOut slim i ag tok res rj outs ts) d)
    (snd (completeAndOutScript sv w slim i ag tok res rj outs ts d))"
proof (cases "doc d i")
  case (Some t)
  note l = a_document[OF Some]
  show ?thesis
  proof (cases "lease_code ag tok t")
    case None
    define new where "new = lua_completed ag tok ts res (normalize_agent t)"
    define d1 where "d1 = event_if sv w (lua_event new i EventCompleted ts ag rj) (rewrite_agent lib 0 (normalize_agent t) new i d)"
    note st = complete_step[of ag tok "normalize_agent t", OF assms(3,4) _, of _ i lib ts res]
    have wf: "wf_doc i new" using loaded(2)[OF assms(1) l] by (simp add: new_def)
    have first: "vk_sound lib d [LComplete i ag tok] True d1"
      using rewrite_sound[OF assms(1) l wf, of "LComplete i ag tok" True] st None by (simp add: d1_def new_def)
    then have good: "good_vk lib d1" by (simp add: vk_sound_def)
    have docs: "doc d1 = (doc d)(i \<mapsto> cjson_encode lib new)" using rewrite_good(2)[OF assms(1) l wf] by (simp add: d1_def)
    have "vk_sound lib d ([LComplete i ag tok] @ out_labels lib (sent_outputs outs))
      (distinct (map a_ID (sent_outputs outs)) \<and> list_all (\<lambda>t. doc d (a_ID t) = None) (sent_outputs outs))
      (snd (lua_outputs sv w slim i ag ts (sent_outputs outs) d1))"
    proof (rule vk_sound_append)
      show "vk_sound lib d [LComplete i ag tok] (distinct (map a_ID (sent_outputs outs)) \<and>
        list_all (\<lambda>t. doc d (a_ID t) = None) (sent_outputs outs)) d1" by (rule vk_sound_mono[OF first]) simp
      show "vk_sound lib d1 (out_labels lib (sent_outputs outs)) (distinct (map a_ID (sent_outputs outs)) \<and>
        list_all (\<lambda>t. doc d (a_ID t) = None) (sent_outputs outs)) (snd (lua_outputs sv w slim i ag ts (sent_outputs outs) d1))"
        by (rule vk_sound_mono[OF lua_outputs_sound[OF good assms(2)]]) (use Some in \<open>auto simp: docs list_all_iff\<close>)
    qed
    moreover have "snd (completeAndOutScript sv w slim i ag tok res rj outs ts d) = snd (lua_outputs sv w slim i ag ts (sent_outputs outs) d1)"
      using l None assms(2)
      by (cases outs) (simp_all add: completeAndOutScript_def Let_def d1_def new_def sent_outputs_def split_beta)
    ultimately show ?thesis using Some None assms(3,4) by simp
  qed (use assms l Some in \<open>simp add: completeAndOutScript_def\<close>)
qed (use assms in \<open>simp add: completeAndOutScript_def no_document\<close>)

section \<open>Claims from a queue\<close>

lemma set_zsorted: "set (zsorted k d) = set (k_zsets d k)"
  by (simp add: zsorted_def)

text \<open>Under the invariant a member of a queue's sorted set is a NEW agent of that queue, and its hot state says so: no
  candidate is ever dropped.\<close>

lemma queue_member:
  assumes "good_vk lib d" "(i, sc) \<in> set (k_zsets d (queueIndexKey ns q))"
  obtains t dflt where "doc d i = Some t" "a_Status t = StatusNew" "queue_value t = q" "namespace_value t = ns"
    "hot d i = Some (hot_state lib t i dflt)" "sc = queue_score lib t"
proof -
  obtain t where t: "doc d i = Some t" "zset_entry lib t = Some (queueIndexKey ns q, sc)"
    using assms by (auto simp: good_vk_def zsets_exact_def)
  moreover obtain dflt where "hot d i = Some (hot_state lib t i dflt)"
    using assms(1) t(1) unfolding good_vk_def hot_exact_def by blast
  moreover have "queueIndexKey ns q \<noteq> globalOrderKey" "queueIndexKey ns q \<noteq> globalLeaseKey"
    by (simp_all add: key_defs)
  ultimately show ?thesis
    by (intro that[of t dflt]) (auto simp: zset_entry_def queue_key_def split: if_splits)
qed

definition claims_head :: "queue_claim \<Rightarrow> agent \<Rightarrow> bool" where
  "claims_head qc t \<longleftrightarrow> (qc_Kind qc = [] \<or> a_Kind t = qc_Kind qc) \<and> (qc_Owner qc = [] \<or> a_Owner t = qc_Owner qc)"

lemma queue_walk_decides:
  assumes "good_vk lib d" "sv_lib sv = lib" "(i, sc) \<in> set (k_zsets d (claim_key qc))" "doc d i = Some t"
  shows "\<exists>hot new en. new = queue_claimed sv qc (token i) hot (normalize_agent t) \<and>
    queue_walk sv w qc token (claim_key qc) (i # rest) d =
      (if claims_head qc t then (QClaimed new, event_if sv w en (rewrite_agent lib (qc_DefaultLeaseMS qc) (normalize_agent t) new i d))
       else (QNotHead, d))"
proof -
  obtain dflt where m: "a_Status t = StatusNew" "queue_value t = qc_Queue qc" "namespace_value t = qc_Namespace qc"
    "hot d i = Some (hot_state lib t i dflt)"
    using queue_member[OF assms(1,3)] assms(4) by fastforce
  let ?hot = "hot_state lib t i dflt"
  have l: "load_hot i d = Some ?hot" "load_agent (agentKey i) d = Some (normalize_agent t)"
    using m(4) a_document[OF assms(4)] by (simp_all add: load_hot_def hot_def)
  have h: "ht_Status ?hot = StatusNew" "ht_Queue ?hot = qc_Queue qc" "ht_NamespaceID ?hot = qc_Namespace qc"
    "ht_Kind ?hot = a_Kind t" "ht_Owner ?hot = a_Owner t" using m by (simp_all add: hot_state_def)
  show ?thesis
    by (intro exI[of _ ?hot] exI conjI, rule refl) (auto simp: l h assms(2) claims_head_def Let_def)
qed

definition walk_labels :: "lua_lib \<Rightarrow> queue_end \<Rightarrow> label list" where
  "walk_labels lib r = (case r of QClaimed new \<Rightarrow> [vk_take_label lib new] | _ \<Rightarrow> [])"

lemma zrange_member: "i \<in> set (zrange n k d) \<Longrightarrow> \<exists>sc. (i, sc) \<in> set (k_zsets d k)"
  by (auto simp: zrange_def set_zsorted dest!: in_set_takeD)

lemma queue_walk_sound:
  assumes "good_vk lib d" "sv_lib sv = lib" "queue_walk sv w qc token (claim_key qc) (zrange n (claim_key qc) d) d = (r, d')"
  shows "vk_sound lib d (walk_labels lib r) True d'"
proof (cases "zrange n (claim_key qc) d")
  case Nil
  then show ?thesis using assms by (auto simp: walk_labels_def)
next
  case (Cons i rest)
  then obtain sc where sc: "(i, sc) \<in> set (k_zsets d (claim_key qc))" using zrange_member[of i n "claim_key qc" d] by auto
  obtain t where t: "doc d i = Some t" "a_Status t = StatusNew" using queue_member[OF assms(1) sc] by metis
  obtain hot new en where h: "new = queue_claimed sv qc (token i) hot (normalize_agent t)"
    "(r, d') = (if claims_head qc t then (QClaimed new, event_if sv w en (rewrite_agent lib (qc_DefaultLeaseMS qc) (normalize_agent t) new i d))
       else (QNotHead, d))"
    using queue_walk_decides[OF assms(1,2) sc t(1), of token w rest] assms(3) unfolding Cons by auto
  show ?thesis
  proof (cases "claims_head qc t")
    case True
    note l = a_document[OF t(1)]
    define raw where "raw = lua_tostring (sv_lib sv) (qc_NowMS qc + (if ht_LeaseMS hot \<le> 0 then qc_DefaultLeaseMS qc else ht_LeaseMS hot))"
    have new: "new = lua_claimed (qc_AgentID qc) (token i) (qc_Timestamp qc) raw zero_time (normalize_agent t)"
      by (simp add: h(1) queue_claimed_def raw_def Let_def)
    have wf: "wf_doc i new" using loaded(2)[OF assms(1) l] by (simp add: new)
    have lab: "vk_take_label lib new = LTake i (qc_AgentID qc) (token i) (until_cell lib raw)"
      using loaded(3)[OF assms(1) l] unfolding vk_take_label_def new claimed_vk_cell by (simp add: lua_claimed_def)
    have "vk_sound lib d [vk_take_label lib new] True (rewrite_agent lib (qc_DefaultLeaseMS qc) (normalize_agent t) new i d)"
      by (rule rewrite_sound[OF assms(1) l wf]) (unfold lab, use t(2) in \<open>simp_all add: new take_step\<close>)
    then show ?thesis using h(2) True by (simp add: walk_labels_def)
  qed (use h(2) assms(1) in \<open>simp add: walk_labels_def\<close>)
qed

lemma queue_take_script_sound:
  assumes "good_vk lib d" "sv_lib sv = lib"
  shows "vk_sound lib d (walk_labels lib (fst (queue_walk sv w qc (\<lambda>_. tok) (claim_key qc) (zrange 16 (claim_key qc) d) d))) True
    (snd (queueTakeScript sv w qc tok (claim_key qc) d))"
proof -
  obtain r d' where q: "queue_walk sv w qc (\<lambda>_. tok) (claim_key qc) (zrange 16 (claim_key qc) d) d = (r, d')" by force
  then have "snd (queueTakeScript sv w qc tok (claim_key qc) d) = d'"
    by (cases r) (simp_all add: queueTakeScript_def)
  then show ?thesis using queue_walk_sound[OF assms q] q by simp
qed

lemma batch_rounds_sound:
  assumes "good_vk lib d" "sv_lib sv = lib"
  shows "vk_sound lib d (map (vk_take_label lib) (snd (fst (batch_rounds sv w qc pre (claim_key qc) k n d)))) True
    (snd (batch_rounds sv w qc pre (claim_key qc) k n d))"
  using assms(1)
proof (induction n arbitrary: d k)
  case (Suc n)
  obtain r d' where q: "queue_walk sv w qc (\<lambda>i. pre @ '':'' @ show_int (int k) @ '':'' @ i) (claim_key qc)
      (zrange 16 (claim_key qc) d) d = (r, d')" by force
  note first = queue_walk_sound[OF Suc.prems assms(2) q]
  show ?case
  proof (cases r)
    case (QClaimed new)
    have "vk_sound lib d ([vk_take_label lib new] @ map (vk_take_label lib) (snd (fst (batch_rounds sv w qc pre (claim_key qc) (Suc k) n d'))))
      True (snd (batch_rounds sv w qc pre (claim_key qc) (Suc k) n d'))"
      by (rule vk_sound_append[OF _ Suc.IH]) (use first in \<open>simp_all add: QClaimed walk_labels_def vk_sound_def\<close>)
    then show ?thesis using q QClaimed by (simp add: split_beta)
  qed (use q first in \<open>simp_all add: walk_labels_def\<close>)
qed simp

section \<open>The reaper\<close>

definition expired_lease :: "lua_lib \<Rightarrow> int \<Rightarrow> vk_db \<Rightarrow> string \<Rightarrow> bool" where
  "expired_lease lib now d i \<longleftrightarrow> (\<exists>t. doc d i = Some t \<and> a_Status t = StatusInProgress \<and> 0 < lease_score lib t \<and>
     lease_score lib t \<le> of_int now)"

lemma reap_candidates:
  assumes "good_vk lib d"
  shows "distinct (zrangebyscore (of_int now) n globalLeaseKey d)"
    and "i \<in> set (zrangebyscore (of_int now) n globalLeaseKey d) \<Longrightarrow> expired_lease lib now d i"
proof -
  let ?l = "filter (\<lambda>(m, score). score \<le> of_int now) (zsorted globalLeaseKey d)"
  have "distinct (map fst (k_zsets d globalLeaseKey))" using assms by (simp add: good_vk_def zsets_exact_def)
  then have "distinct (map fst (zsorted globalLeaseKey d))" unfolding zsorted_def
    by (metis mset_map mset_sort mset_eq_imp_distinct_iff)
  then show "distinct (zrangebyscore (of_int now) n globalLeaseKey d)"
    unfolding zrangebyscore_def take_map[symmetric] by (simp add: distinct_map_filter)
  assume "i \<in> set (zrangebyscore (of_int now) n globalLeaseKey d)"
  then obtain sc where sc: "(i, sc) \<in> set (k_zsets d globalLeaseKey)" "sc \<le> of_int now"
    by (auto simp: zrangebyscore_def set_zsorted dest!: in_set_takeD)
  then obtain t where t: "doc d i = Some t" "zset_entry lib t = Some (globalLeaseKey, sc)"
    using assms by (auto simp: good_vk_def zsets_exact_def)
  moreover have "queue_key t \<noteq> globalLeaseKey" "globalOrderKey \<noteq> globalLeaseKey" by (simp_all add: key_defs queue_key_def)
  ultimately show "expired_lease lib now d i" using sc(2) by (auto simp: expired_lease_def zset_entry_def split: if_splits)
qed

lemma reap_walk_sound:
  assumes "good_vk lib d" "sv_lib sv = lib" "distinct ids" "\<forall>i\<in>set ids. expired_lease lib now d i"
  shows "vk_sound lib d (map (\<lambda>i. LExpire i (now + 1)) ids) True (snd (reap_walk sv w ts ids d)) \<and>
    fst (reap_walk sv w ts ids d) = length ids"
  using assms(1,3,4)
proof (induction ids arbitrary: d)
  case (Cons i ids)
  obtain t where t: "doc d i = Some t" "a_Status t = StatusInProgress" "0 < lease_score lib t" "lease_score lib t \<le> of_int now"
    using Cons.prems(3) by (auto simp: expired_lease_def)
  note l = a_document[OF t(1)]
  define new where "new = lua_freed StatusNew ts (normalize_agent t)"
  define d1 where "d1 = event_if sv w (lua_event new i EventReleased ts ''reaper'' (reap_data (a_Owner t))) (rewrite_agent lib 0 (normalize_agent t) new i d)"
  have wf: "wf_doc i new" using loaded(2)[OF Cons.prems(1) l] by (simp add: new_def)
  have first: "vk_sound lib d [LExpire i (now + 1)] True d1"
    unfolding d1_def sound_event
    by (rule rewrite_sound[OF Cons.prems(1) l wf]) (use t in \<open>simp_all add: new_def expire_step\<close>)
  then have good: "good_vk lib d1" by (simp add: vk_sound_def)
  have "doc d1 = (doc d)(i \<mapsto> cjson_encode lib new)" using rewrite_good(2)[OF Cons.prems(1) l wf] by (simp add: d1_def)
  then have ex: "\<forall>j\<in>set ids. expired_lease lib now d1 j" using Cons.prems(2,3) by (auto simp: expired_lease_def)
  have walk: "reap_walk sv w ts (i # ids) d = (Suc (fst (reap_walk sv w ts ids d1)), snd (reap_walk sv w ts ids d1))"
    using l t(2) assms(2) by (simp add: Let_def d1_def new_def split_beta)
  note ih = Cons.IH[OF good _ ex]
  have "vk_sound lib d ([LExpire i (now + 1)] @ map (\<lambda>i. LExpire i (now + 1)) ids) True (snd (reap_walk sv w ts ids d1))"
    by (rule vk_sound_append[OF first]) (use ih Cons.prems(2) in simp)
  then show ?case unfolding walk using ih Cons.prems(2) by simp
qed simp

lemma reap_script_sound:
  assumes "good_vk lib d" "sv_lib sv = lib"
  shows "vk_sound lib d (map (\<lambda>i. LExpire i (now + 1)) (zrangebyscore (of_int now) n globalLeaseKey d)) True
    (snd (reapScript sv w ts now n d))"
  using reap_walk_sound[OF assms reap_candidates(1)[OF assms(1)], of now n now w ts] reap_candidates(2)[OF assms(1)]
  by (auto simp: reapScript_def split_beta)

section \<open>The server as a backend\<close>

lemmas script_sound = out_script_sound update_script_sound claim_script_sound complete_script_sound
  complete_and_out_script_sound release_script_sound renew_script_sound reap_script_sound

text \<open>The other commands leave the agents and their indexes alone.\<close>

lemma good_frame:
  "doc d' = doc d \<Longrightarrow> hot d' = hot d \<Longrightarrow> k_sets d' = k_sets d \<Longrightarrow> k_zsets d' = k_zsets d \<Longrightarrow> good_vk lib d' = good_vk lib d"
  by (simp add: good_vk_def sets_exact_def zsets_exact_def hot_exact_def)

lemma frame_sound:
  "good_vk lib d \<Longrightarrow> doc d' = doc d \<Longrightarrow> hot d' = hot d \<Longrightarrow> k_sets d' = k_sets d \<Longrightarrow> k_zsets d' = k_zsets d \<Longrightarrow> vk_sound lib d [] ok d'"
  using vk_sound_refl[of lib d ok] good_frame[of d' d lib] by (simp add: vk_sound_def vk_view_def[abs_def])

lemma command_sound:
  assumes "good_vk lib d"
  shows "vk_sound lib d [] ok (snd (vk_script sv w (CallXadd k n en) d))" "vk_sound lib d [] ok (snd (vk_script sv w (CallSetSpan k sp) d))"
    "vk_sound lib d [] ok (snd (vk_script sv w (CallDelSpan k) d))" "vk_sound lib d [] ok (snd (vk_script sv w (CallZaddSpan k sc m) d))"
    "vk_sound lib d [] ok (snd (vk_script sv w (CallZremSpan k m) d))" "vk_sound lib d [] ok (snd (vk_script sv w (CallLock nx k m now ex) d))"
  by (rule frame_sound[OF assms]; simp add: plain_reply_def set_lock_def doc_def hot_def fun_eq_iff)+

lemma vk_request_sound:
  assumes "good_vk lib d"
  shows "vk_sound lib d (vk_labels lib r d) (vk_proper lib r d) (vk_exec lib r d)"
proof (cases r)
  case (fields sv w call)
  let ?sv = "sv \<lparr> sv_lib := lib \<rparr>"
  have lib: "sv_lib ?sv = lib" by simp
  show ?thesis
  proof (cases call)
    case (CallQueueTake qc tok)
    then show ?thesis
      using queue_take_script_sound[OF assms lib, of w qc tok] assms
      by (auto simp: fields vk_exec_def vk_run_def walk_labels_def split: queue_end.splits)
  next
    case (CallQueueBatchTake qc pre n)
    then show ?thesis
      using batch_rounds_sound[OF assms lib, of w qc pre 1 n] assms
      by (auto simp: fields vk_exec_def vk_run_def queueBatchTakeScript_def split_beta Let_def)
  next
    case (CallComplete i ag tok res rj ts)
    then show ?thesis
      using complete_script_sound[OF assms lib, of ag tok sv w i res rj ts] assms
      by (auto simp: fields vk_exec_def vk_run_def split: option.splits)
  next
    case (CallCompleteAndOut slim i ag tok res rj outs ts)
    then show ?thesis
      using complete_and_out_script_sound[OF assms lib, of ag tok sv w slim i res rj outs ts] assms
      by (auto simp: fields vk_exec_def vk_run_def split: option.splits)
  next
    case (CallRelease i ag tok reason ts)
    then show ?thesis
      using release_script_sound[OF assms lib, of ag tok sv w i reason ts] assms
      by (auto simp: fields vk_exec_def vk_run_def split: option.splits)
  next
    case (CallRenewLease i ag tok ts u)
    then show ?thesis
      using renew_script_sound[OF assms lib, of ag tok sv w i ts u] assms
      by (auto simp: fields vk_exec_def vk_run_def split: option.splits)
  qed (use script_sound(1-3,8)[OF assms lib] in \<open>simp_all add: fields vk_exec_def vk_run_def del: vk_labels.simps vk_proper.simps\<close>,
       use script_sound(1,8)[OF assms lib] command_sound[OF assms] in simp_all)
qed

interpretation vk: lease_backend "vk_view lib" "good_vk lib" "vk_exec lib" "vk_labels lib" "vk_proper lib" for lib
proof unfold_locales
  fix d r assume g: "good_vk lib d"
  note so = vk_request_sound[OF g, of r]
  show "good_vk lib (vk_exec lib r d)" "steps (vk_view lib d) (vk_labels lib r d) (vk_view lib (vk_exec lib r d))"
    using so by (simp_all add: vk_sound_def)
  assume "vk_proper lib r d"
  then show "protocol (vk_view lib d) (vk_labels lib r d) (vk_view lib (vk_exec lib r d))" using so by (simp add: vk_sound_def)
qed

end
