(* ===== verification/Vk_Store.thy ===== *)
theory Vk_Store
  imports Vk_Backend
begin

text \<open>
  A node of the Valkey store: its configuration (\<^verbatim>\<open>config.go\<close>, \<^verbatim>\<open>shardmap.go\<close>), its state, the requests it sends, and
  what its operations are made of: routing to shards, decoding of agents, matching and ordering
  (\<^verbatim>\<open>store.go\<close>, \<^verbatim>\<open>hotstate.go\<close>).

  The state of a node contains the servers, by address.  An operation asks its environment for the time, for UUIDs and
  for the fate of its requests; the things it has asked for are counted, and the count says which answer is next.
\<close>

section \<open>Configuration\<close>

record valkey_config =
  kc_Addr :: string
  kc_Shards :: "string list"
  kc_PublishPubSub :: bool
  kc_LeaseReapInterval :: string
  kc_LeaseReapBatch :: int
  kc_SlimEvents :: bool
  kc_DeferEvents :: bool
  kc_EventBatchSize :: int
  kc_ShardMapFile :: string
  kc_NodeID :: string
  kc_AdvertiseAddr :: string

definition DefaultValkeyConfig :: valkey_config where
  "DefaultValkeyConfig = \<lparr> kc_Addr = ''localhost:6379'', kc_Shards = [], kc_PublishPubSub = False,
     kc_LeaseReapInterval = ''1s'', kc_LeaseReapBatch = 200, kc_SlimEvents = False, kc_DeferEvents = False,
     kc_EventBatchSize = 100, kc_ShardMapFile = [], kc_NodeID = [], kc_AdvertiseAddr = [] \<rparr>"

record vk_spec =
  vp_ShardID :: string
  vp_Addr :: string
  vp_OwnerNodeID :: string
  vp_AdvertiseAddr :: string

definition trim_vk_spec :: "vk_spec \<Rightarrow> vk_spec" where
  "trim_vk_spec sp = \<lparr> vp_ShardID = trim_space (vp_ShardID sp), vp_Addr = trim_space (vp_Addr sp),
     vp_OwnerNodeID = trim_space (vp_OwnerNodeID sp), vp_AdvertiseAddr = trim_space (vp_AdvertiseAddr sp) \<rparr>"

fun check_specs :: "vk_spec list \<Rightarrow> store_error + vk_spec list" where
  "check_specs [] = Inr []"
| "check_specs (sp # sps) =
    (let sp = trim_vk_spec sp in
     if vp_ShardID sp = [] then Inl (ErrOther ''contains shard with empty shard_id'')
     else if vp_Addr sp = [] then Inl (ErrOther (''contains shard '' @ vp_ShardID sp @ '' with empty addr''))
     else bindr (check_specs sps) (\<lambda>rest. Inr (sp # rest)))"

text \<open>The shards of a map; \<open>load\<close> reads and decodes the file.\<close>

definition loadShardMap :: "(string \<Rightarrow> vk_spec list option) \<Rightarrow> string \<Rightarrow> store_error + vk_spec list" where
  "loadShardMap load path =
    (let path = trim_space path in
     if path = [] then Inl (ErrOther ''valkey shard map path is empty'')
     else case load path of
       None \<Rightarrow> Inl ErrUnmarshal
     | Some shards \<Rightarrow> if shards = [] then Inl (ErrOther ''valkey shard map has no shards'') else check_specs shards)"

definition collectValkeyAddrs :: "valkey_config \<Rightarrow> string list" where
  "collectValkeyAddrs cfg =
    (if kc_Shards cfg \<noteq> [] then filter (\<lambda>a. a \<noteq> []) (map trim_space (kc_Shards cfg))
     else let addr = trim_space (kc_Addr cfg) in if addr = [] then [] else [addr])"

text \<open>What a node knows; \<^verbatim>\<open>vc_lib\<close> are the libraries of its servers.\<close>

record vk_conf =
  vc_specs :: "vk_spec list"
  vc_ownerRouted :: bool
  vc_nodeID :: string
  vc_advertiseAddr :: string
  vc_leaseDuration :: duration
  vc_reapInterval :: duration
  vc_reapBatch :: int
  vc_publishPubSub :: bool
  vc_slimEvents :: bool
  vc_deferEvents :: bool
  vc_eventBatchSize :: int
  vc_queueCapacity :: int
  vc_reaperID :: string
  vc_lib :: lua_lib

definition vk_ownsShard :: "string \<Rightarrow> vk_spec \<Rightarrow> bool" where
  "vk_ownsShard nodeID sp =
    (let ownerNodeID = trim_space (vp_OwnerNodeID sp) in
     if trim_space nodeID = [] then True else if ownerNodeID = [] then True else ownerNodeID = trim_space nodeID)"

text \<open>The numbered shards of a list of addresses.\<close>

definition numbered_specs :: "string list \<Rightarrow> vk_spec list" where
  "numbered_specs addrs = map (\<lambda>(i, addr). \<lparr> vp_ShardID = ''valkey-'' @ show_int (int i), vp_Addr = addr,
     vp_OwnerNodeID = [], vp_AdvertiseAddr = [] \<rparr>) (enumerate 0 addrs)"

text \<open>\<open>u\<close> is the UUID of a reaper without a node id; \<open>connect\<close> says which addresses a client could be made for.\<close>

definition NewValkeyStore ::
  "lua_lib \<Rightarrow> (string \<Rightarrow> vk_spec list option) \<Rightarrow> (string \<Rightarrow> bool) \<Rightarrow> string \<Rightarrow> valkey_config option \<Rightarrow> store_error + vk_conf" where
  "NewValkeyStore lib load connect u cfgo =
    (let cfg = (case cfgo of None \<Rightarrow> DefaultValkeyConfig | Some c \<Rightarrow> c);
         nodeID = trim_space (kc_NodeID cfg);
         ownerRouted = (trim_space (kc_ShardMapFile cfg) \<noteq> []);
         specs = (if ownerRouted
           then bindr (loadShardMap load (kc_ShardMapFile cfg)) (\<lambda>sps.
             if nodeID = [] then Inl (ErrOther ''valkey owner-routed mode requires node_id'') else Inr sps)
           else let addrs = collectValkeyAddrs cfg in
             if addrs = [] then Inl (ErrOther ''valkey config missing addr/shards'') else Inr (numbered_specs addrs));
         reapInterval = (let raw = trim_space (kc_LeaseReapInterval cfg) in if raw = [] then Second else
           case ParseDuration raw of Some parsed \<Rightarrow> if 0 < parsed then parsed else Second | None \<Rightarrow> Second);
         reapBatch = (if kc_LeaseReapBatch cfg \<le> 0 then kc_LeaseReapBatch DefaultValkeyConfig else kc_LeaseReapBatch cfg);
         batch = (if kc_EventBatchSize cfg \<le> 0 then 100 else kc_EventBatchSize cfg)
     in bindr specs (\<lambda>sps.
       case find (\<lambda>sp. \<not> connect (vp_Addr sp)) sps of
         Some sp \<Rightarrow> Inl (ErrOther (''create valkey client for '' @ vp_Addr sp))
       | None \<Rightarrow>
           if ownerRouted \<and> \<not> list_ex (vk_ownsShard nodeID) sps
           then Inl (ErrOther ''valkey shard map has no shards owned by node'')
           else Inr \<lparr> vc_specs = sps, vc_ownerRouted = ownerRouted, vc_nodeID = nodeID,
             vc_advertiseAddr = trim_space (kc_AdvertiseAddr cfg),
             vc_leaseDuration = lo_LeaseDuration DefaultLeaseOptions, vc_reapInterval = reapInterval,
             vc_reapBatch = reapBatch, vc_publishPubSub = kc_PublishPubSub cfg, vc_slimEvents = kc_SlimEvents cfg,
             vc_deferEvents = kc_DeferEvents cfg, vc_eventBatchSize = batch,
             vc_queueCapacity = max 256 (batch * 4), vc_reaperID = (if nodeID = [] then u else nodeID), vc_lib = lib \<rparr>))"

section \<open>A node and its requests\<close>

text \<open>A deferred event with its namespace and the shard it belongs to.\<close>

type_synonym pending_vk_event = "event \<times> string \<times> string"

record vk_node =
  vn_servers :: "string \<Rightarrow> vk_db"
  vn_ids :: "string gomap"
  vn_subs :: registry
  vn_log :: "(event \<times> handler list) list"
  vn_queue :: "pending_vk_event list"
  vn_buffer :: "pending_vk_event list"
  vn_signals :: nat
  vn_published :: "(string \<times> string) list"
  vn_asked :: nat

text \<open>A request gets an answer, does not reach its server, or is carried out but its answer is lost.\<close>

datatype fate = Answered | Unsent | Unanswered

record vk_env = env +
  ve_fate :: "nat \<Rightarrow> fate"
  ve_server :: "nat \<Rightarrow> server"

type_synonym 'a vk_act = "vk_env \<Rightarrow> vk_node \<Rightarrow> (store_error + 'a) \<times> vk_node"

definition vk_ret :: "'a \<Rightarrow> 'a vk_act" where
  "vk_ret x e s = (Inr x, s)"

definition vk_fail :: "store_error \<Rightarrow> 'a vk_act" where
  "vk_fail er e s = (Inl er, s)"

definition vk_bind :: "'a vk_act \<Rightarrow> ('a \<Rightarrow> 'b vk_act) \<Rightarrow> 'b vk_act" where
  "vk_bind m f e s = (case m e s of (Inl er, s') \<Rightarrow> (Inl er, s') | (Inr x, s') \<Rightarrow> f x e s')"

text \<open>\<^verbatim>\<open>if v, err := m(); err == nil\<close>: the outcome as a value.\<close>

definition vk_try :: "'a vk_act \<Rightarrow> (store_error + 'a) vk_act" where
  "vk_try m e s = (case m e s of (r, s') \<Rightarrow> (Inr r, s'))"

definition vk_lift :: "store_error + 'a \<Rightarrow> 'a vk_act" where
  "vk_lift r e s = (r, s)"

definition vk_get :: "(vk_node \<Rightarrow> 'a) \<Rightarrow> 'a vk_act" where
  "vk_get f e s = (Inr (f s), s)"

definition vk_put :: "(vk_node \<Rightarrow> vk_node) \<Rightarrow> unit vk_act" where
  "vk_put f e s = (Inr (), f s)"

definition vk_ask :: "(vk_env \<Rightarrow> nat \<Rightarrow> 'a) \<Rightarrow> 'a vk_act" where
  "vk_ask f e s = (Inr (f e (vn_asked s)), s \<lparr> vn_asked := Suc (vn_asked s) \<rparr>)"

definition vk_now :: "gotime vk_act" where
  "vk_now = vk_ask clock"

definition vk_uuid :: "string vk_act" where
  "vk_uuid = vk_ask uuid"

text \<open>A read of a server: the answer is a function of the key space.\<close>

definition vk_read :: "string \<Rightarrow> (vk_db \<Rightarrow> 'a) \<Rightarrow> 'a vk_act" where
  "vk_read addr f = vk_bind (vk_ask (\<lambda>e n. (ve_fate e n, n))) (\<lambda>(fate, n).
     if fate = Answered then vk_get (\<lambda>s. f (vn_servers s addr)) else vk_fail (ErrDB (CExec n)))"

text \<open>A call that changes a server.\<close>

definition vk_send :: "vk_conf \<Rightarrow> bool \<Rightarrow> string \<Rightarrow> vk_call \<Rightarrow> script_response vk_act" where
  "vk_send c w addr call = vk_bind (vk_ask (\<lambda>e n. (ve_fate e n, ve_server e n, n))) (\<lambda>(fate, sv, n) e s.
     if fate = Unsent then (Inl (ErrDB (CExec n)), s)
     else let (r, d) = vk_run (vc_lib c) (sv, w, call) (vn_servers s addr);
              s' = s \<lparr> vn_servers := (vn_servers s)(addr := d) \<rparr>
          in (if fate = Unanswered then Inl (ErrDB (CExec n))
              else case r of None \<Rightarrow> Inl (ErrOther ''script error'') | Some resp \<Rightarrow> Inr resp, s'))"

text \<open>The response of a script is JSON: where \<^verbatim>\<open>cjson\<close> writes an empty table as an object, an empty list of agents cannot
  be decoded.\<close>

definition decode_response :: "lua_lib \<Rightarrow> script_response \<Rightarrow> store_error + script_response" where
  "decode_response lib resp =
    (if \<not> cj_empty_array lib \<and> (sr_Agents resp = Some [] \<or> sr_Created resp = Some []) then Inl ErrUnmarshal else Inr resp)"

definition execScriptJSON :: "vk_conf \<Rightarrow> bool \<Rightarrow> string \<Rightarrow> vk_call \<Rightarrow> script_response vk_act" where
  "execScriptJSON c w addr call = vk_bind (vk_send c w addr call) (\<lambda>resp. vk_lift (decode_response (vc_lib c) resp))"

section \<open>Decoding\<close>

text \<open>\<^verbatim>\<open>strings.ReplaceAll\<close> on the text of a document turns every empty object under the key \<^verbatim>\<open>tags\<close> into an empty array,
  also inside the payload.\<close>

fun fix_tags :: "gval \<Rightarrow> gval" where
  "fix_tags (VMap kvs) = VMap (map (\<lambda>(k, v). (k, if k = ''tags'' \<and> v = VMap [] then VList [] else fix_tags v)) kvs)"
| "fix_tags (VList vs) = VList (map fix_tags vs)"
| "fix_tags v = v"

definition fix_payload :: "gval gomap \<Rightarrow> gval gomap" where
  "fix_payload kvs = map (\<lambda>(k, v). (k, if k = ''tags'' \<and> v = VMap [] then VList [] else fix_tags v)) kvs"

text \<open>What \<^verbatim>\<open>json.Unmarshal\<close> makes of the text of an agent: a number that was not written as an integer does not fit an
  integer field.\<close>

definition unmarshal_agent :: "lua_lib \<Rightarrow> agent_text \<Rightarrow> store_error + agent" where
  "unmarshal_agent lib raw = (case raw of
     LuaText t \<Rightarrow> if cj_integer lib (a_TTL t) \<and> cj_integer lib (a_Version t)
       then Inr (t \<lparr> a_Payload := map_option fix_payload (a_Payload t) \<rparr>) else Inl ErrUnmarshal
   | GoText t \<Rightarrow> (case json_opt_map (a_Payload t) of
       Some (JObj kvs) \<Rightarrow> Inr (t \<lparr> a_Payload := Some (fix_payload (map (map_prod id unmarshal) kvs)) \<rparr>)
     | _ \<Rightarrow> Inr (t \<lparr> a_Payload := None \<rparr>)))"

definition decodeAgent :: "lua_lib \<Rightarrow> agent_text \<Rightarrow> store_error + agent" where
  "decodeAgent lib raw = bindr (unmarshal_agent lib raw) (\<lambda>t.
    let t = t \<lparr> a_Metadata := Some (or_nil (a_Metadata t)) \<rparr>;
        m = or_nil (a_Metadata t);
        ns = str_at m NamespaceMetadataKey;
        t = (if a_NamespaceID t = [] \<and> ns \<noteq> [] then t \<lparr> a_NamespaceID := ns \<rparr> else t);
        rawLease = trim_space (str_at m internalLeaseUntilMsKey)
    in Inr (if IsZero (a_LeaseUntil t) \<and> rawLease \<noteq> []
            then (case atoi rawLease of
                    Some leaseMS \<Rightarrow> if 0 < leaseMS then t \<lparr> a_LeaseUntil := time_UnixMilli leaseMS \<rparr> else t
                  | None \<Rightarrow> t)
            else t))"

definition vk_isExpired :: "agent \<Rightarrow> gotime \<Rightarrow> bool" where
  "vk_isExpired t now = (if a_TTL t \<le> 0 then False else \<not> IsZero (a_CreatedAt t) \<and> a_CreatedAt t + a_TTL t < now)"

text \<open>The numbers of a hot state are integers of the program.\<close>

definition whole :: "lua_lib \<Rightarrow> rat \<Rightarrow> bool" where
  "whole lib r \<longleftrightarrow> of_int \<lfloor>r\<rfloor> = r \<and> cj_integer lib \<lfloor>r\<rfloor>"

definition decodeHotAgentState :: "lua_lib \<Rightarrow> hot_agent_state \<Rightarrow> store_error + hot_agent_state" where
  "decodeHotAgentState lib h =
    (if cj_integer lib (ht_LeaseMS h) \<and> whole lib (ht_LeaseUntilMS h) \<and> cj_integer lib (ht_Version h) \<and>
        whole lib (ht_CreatedMS h) \<and> whole lib (ht_QueueCreated h) then Inr h else Inl ErrUnmarshal)"

section \<open>Matching and ordering\<close>

definition vk_matches :: "agent \<Rightarrow> query option \<Rightarrow> bool" where
  "vk_matches t qo = (case qo of None \<Rightarrow> True | Some q \<Rightarrow>
     (if q_Kind q \<noteq> [] \<and> a_Kind t \<noteq> q_Kind q then False
      else if q_Status q \<noteq> [] \<and> a_Status t \<noteq> q_Status q then False
      else if q_Owner q \<noteq> [] \<and> a_Owner t \<noteq> q_Owner q then False
      else if q_ParentID q \<noteq> [] \<and> a_ParentID t \<noteq> q_ParentID q then False
      else if q_TraceID q \<noteq> [] \<and> a_TraceID t \<noteq> q_TraceID q then False
      else if q_NamespaceID q \<noteq> [] \<and> (if a_NamespaceID t = [] then str_at (or_nil (a_Metadata t)) NamespaceMetadataKey
        else a_NamespaceID t) \<noteq> q_NamespaceID q then False
      else if \<not> list_all (\<lambda>tag. tag \<in> set (a_Tags t)) (q_Tags q) then False
      else list_all (\<lambda>(k, v). k = ''agent_id'' \<or> map_of (or_nil (a_Metadata t)) k = Some v) (or_nil (q_Metadata q))))"

definition hotStateMatchesQuery :: "hot_agent_state \<Rightarrow> query option \<Rightarrow> bool" where
  "hotStateMatchesQuery st qo = (case qo of None \<Rightarrow> True | Some q \<Rightarrow>
     (let queue = trim_space (str_at (or_nil (q_Metadata q)) QueueMetadataKey);
          namespaceID = trim_space (str_at (or_nil (q_Metadata q)) NamespaceMetadataKey)
      in if q_Kind q \<noteq> [] \<and> ht_Kind st \<noteq> q_Kind q then False
         else if q_Status q \<noteq> [] \<and> ht_Status st \<noteq> q_Status q then False
         else if q_Owner q \<noteq> [] \<and> ht_Owner st \<noteq> q_Owner q then False
         else if q_NamespaceID q \<noteq> [] \<and> ht_NamespaceID st \<noteq> q_NamespaceID q then False
         else if queue \<noteq> [] \<and> ht_Queue st \<noteq> queue then False
         else \<not> (namespaceID \<noteq> [] \<and> ht_NamespaceID st \<noteq> namespaceID)))"

definition queryRequiresFullAgent :: "query \<Rightarrow> bool" where
  "queryRequiresFullAgent q \<longleftrightarrow> q_ParentID q \<noteq> [] \<or> q_TraceID q \<noteq> [] \<or> q_Tags q \<noteq> [] \<or>
     list_ex (\<lambda>(k, v). k \<notin> {[], ''agent_id'', QueueMetadataKey, NamespaceMetadataKey}) (or_nil (q_Metadata q))"

definition canUseQueueTakeScript :: "query option \<Rightarrow> bool" where
  "canUseQueueTakeScript qo = (case qo of None \<Rightarrow> False | Some q \<Rightarrow>
     if q_Status q \<noteq> [] \<and> q_Status q \<noteq> StatusNew then False
     else if trim_space (q_NamespaceID q) = [] then False
     else if trim_space (str_at (or_nil (q_Metadata q)) QueueMetadataKey) = [] then False
     else \<not> queryRequiresFullAgent q)"

definition extractAgentID :: "query option \<Rightarrow> string" where
  "extractAgentID qo = (case qo of None \<Rightarrow> [] | Some q \<Rightarrow>
     if trim_space (q_AgentID q) \<noteq> [] then trim_space (q_AgentID q)
     else trim_space (str_at (or_nil (q_Metadata q)) ''agent_id''))"

definition sortAgents :: "agent list \<Rightarrow> agent list" where
  "sortAgents ts = sort_key (\<lambda>t. (a_CreatedAt t, a_ID t)) ts"

definition applyLimitOffset :: "int \<Rightarrow> int \<Rightarrow> 'a list \<Rightarrow> 'a list" where
  "applyLimitOffset limit offset xs =
    (let ys = (if 0 < offset then (if int (length xs) \<le> offset then [] else drop (nat offset) xs) else xs)
     in if 0 < limit \<and> limit < int (length ys) then take (nat limit) ys else ys)"

definition applyAgentLimitOffset :: "agent list \<Rightarrow> query option \<Rightarrow> agent list" where
  "applyAgentLimitOffset ts qo = (case qo of None \<Rightarrow> ts | Some q \<Rightarrow> applyLimitOffset (q_Limit q) (q_Offset q) ts)"

definition cloneQueryWithoutPagination :: "query option \<Rightarrow> query option" where
  "cloneQueryWithoutPagination qo = map_option (\<lambda>q. q \<lparr> q_Limit := 0, q_Offset := 0 \<rparr>) qo"

definition leaseDurationFromMetadata :: "string gomap option \<Rightarrow> duration \<Rightarrow> duration" where
  "leaseDurationFromMetadata mo fallback = (case mo of None \<Rightarrow> fallback | Some m \<Rightarrow>
     (let number = (\<lambda>key. case map_of m key of None \<Rightarrow> None | Some raw \<Rightarrow>
            (case atoi raw of Some n \<Rightarrow> if 0 < n then Some n else None | None \<Rightarrow> None))
      in case number ''lease_sec'' of Some sec \<Rightarrow> to_int64 (sec * Second)
         | None \<Rightarrow> (case number ''lease_ms'' of Some ms \<Rightarrow> to_int64 (ms * Millisecond) | None \<Rightarrow> fallback)))"

section \<open>Writing agents\<close>

definition normalizeAgentMetadata :: "agent \<Rightarrow> string \<Rightarrow> agent" where
  "normalizeAgentMetadata t shardID =
    (let m = or_nil (a_Metadata t);
         ns = trim_space (str_at m NamespaceMetadataKey);
         (m, nsid) = (if a_NamespaceID t \<noteq> [] then (AList.update NamespaceMetadataKey (a_NamespaceID t) m, a_NamespaceID t)
           else (m, if ns \<noteq> [] then ns else a_NamespaceID t));
         created = show_int (UnixMilli (a_CreatedAt t));
         m = AList.update internalCreatedMsKey created m;
         m = (if trim_space (str_at m QueueMetadataKey) \<noteq> [] \<and> trim_space (str_at m QueueCreatedMsKey) = []
              then AList.update QueueCreatedMsKey created m else m);
         m = (if IsZero (a_LeaseUntil t) then AList.delete internalLeaseUntilMsKey m
              else AList.update internalLeaseUntilMsKey (show_int (UnixMilli (a_LeaseUntil t))) m)
     in t \<lparr> a_Metadata := Some m, a_NamespaceID := nsid, a_ShardID := (if shardID \<noteq> [] then shardID else a_ShardID t) \<rparr>)"

definition normalizeAgentForOut :: "string \<Rightarrow> agent \<Rightarrow> gotime \<Rightarrow> string \<Rightarrow> agent" where
  "normalizeAgentForOut u t now shardID = normalizeAgentMetadata (t
     \<lparr> a_ID := (if a_ID t = [] then u else a_ID t), a_CreatedAt := (if IsZero (a_CreatedAt t) then now else a_CreatedAt t),
       a_Status := (if a_Status t = [] then StatusNew else a_Status t), a_UpdatedAt := now,
       a_Version := (if a_Version t = 0 then 1 else a_Version t),
       a_ShardID := (if shardID \<noteq> [] then shardID else a_ShardID t) \<rparr>) shardID"

definition normalizeOutputForParent :: "string \<Rightarrow> agent \<Rightarrow> agent \<Rightarrow> gotime \<Rightarrow> string \<Rightarrow> agent" where
  "normalizeOutputForParent u t parent now shardID = normalizeAgentMetadata (t
     \<lparr> a_ID := (if a_ID t = [] then u else a_ID t), a_CreatedAt := (if IsZero (a_CreatedAt t) then now else a_CreatedAt t),
       a_UpdatedAt := now, a_Version := (if a_Version t = 0 then 1 else a_Version t),
       a_Status := (if a_Status t = [] then StatusNew else a_Status t),
       a_ParentID := (if a_ParentID t = [] then a_ID parent else a_ParentID t),
       a_TraceID := (if a_TraceID t = [] then a_TraceID parent else a_TraceID t),
       a_NamespaceID := (if a_NamespaceID t = [] then a_NamespaceID parent else a_NamespaceID t),
       a_ShardID := (if shardID \<noteq> [] then shardID else a_ShardID t) \<rparr>) shardID"

definition vk_createdEventData :: "agent \<Rightarrow> bool \<Rightarrow> event_val gomap" where
  "vk_createdEventData t slim =
    (if slim then [(''tuple_id'', EVal (VStr (a_ID t))), (''kind'', EVal (VStr (a_Kind t))), (''status'', EVal (VStr (a_Status t)))]
     else [(''agent'', EAgent t)])"

section \<open>Routing\<close>

definition vk_isSharded :: "vk_conf \<Rightarrow> bool" where
  "vk_isSharded c \<longleftrightarrow> 1 < length (vc_specs c)"

definition vk_hashKey :: "string \<Rightarrow> string \<Rightarrow> 32 word" where
  "vk_hashKey namespaceID queue = fnv_write (fnv_write (fnv_write 2166136261 namespaceID) '':'') queue"

text \<open>\<^verbatim>\<open>byShardID\<close> holds the last shard of an id.\<close>

definition byShardID :: "vk_conf \<Rightarrow> string \<Rightarrow> vk_spec option" where
  "byShardID c shardID = find (\<lambda>sp. vp_ShardID sp = shardID) (rev (vc_specs c))"

definition first_shard :: "vk_conf \<Rightarrow> vk_spec" where
  "first_shard c = hd (vc_specs c)"

definition vk_remoteShardOwner :: "vk_spec \<Rightarrow> store_error" where
  "vk_remoteShardOwner sp = ErrOther
    (if vp_AdvertiseAddr sp \<noteq> [] then ''shard '' @ vp_ShardID sp @ '' owned by '' @ vp_OwnerNodeID sp @ '' at '' @ vp_AdvertiseAddr sp
     else if vp_OwnerNodeID sp \<noteq> [] then ''shard '' @ vp_ShardID sp @ '' owned by '' @ vp_OwnerNodeID sp
     else ''shard '' @ vp_ShardID sp @ '' not owned by this node'')"

definition vk_targetShardSpec :: "vk_conf \<Rightarrow> string \<Rightarrow> string \<Rightarrow> store_error + vk_spec" where
  "vk_targetShardSpec c namespaceID queue =
    (let namespaceID = trim_space namespaceID; queue = trim_space queue in
     if namespaceID = [] then Inl (ErrOther ''namespace_id is required for valkey hot-path routing'')
     else if queue = [] then Inl (ErrOther ''queue metadata is required for valkey hot-path routing'')
     else if vc_specs c = [] then Inl (ErrOther ''valkey store has no shards'')
     else Inr (vc_specs c ! unat (vk_hashKey namespaceID queue mod word_of_nat (length (vc_specs c)))))"

definition vk_targetShard :: "vk_conf \<Rightarrow> string \<Rightarrow> string \<Rightarrow> store_error + vk_spec" where
  "vk_targetShard c namespaceID queue = bindr (vk_targetShardSpec c namespaceID queue) (\<lambda>sp.
     if vc_ownerRouted c \<and> \<not> vk_ownsShard (vc_nodeID c) sp then Inl (vk_remoteShardOwner sp)
     else case byShardID c (vp_ShardID sp) of Some h \<Rightarrow> Inr h
       | None \<Rightarrow> Inl (ErrOther (''valkey shard '' @ vp_ShardID sp @ '' is not configured locally'')))"

text \<open>\<^const>\<open>None\<close>: the context carries no hint.\<close>

definition vk_shardFromHint :: "vk_conf \<Rightarrow> go_context \<Rightarrow> (store_error + vk_spec) option" where
  "vk_shardFromHint c ctx =
    (let shardID = trim_space (ShardIDFromContext ctx) in
     if shardID = [] then None
     else case byShardID c shardID of
       Some sp \<Rightarrow> Some (if vc_ownerRouted c \<and> \<not> vk_ownsShard (vc_nodeID c) sp then Inl (vk_remoteShardOwner sp) else Inr sp)
     | None \<Rightarrow> Some (Inl (ErrOther (''unknown shard_id '' @ shardID))))"

definition vk_shardFromAgent :: "vk_conf \<Rightarrow> agent \<Rightarrow> store_error + vk_spec" where
  "vk_shardFromAgent c t =
    (if \<not> vk_isSharded c then Inr (first_shard c)
     else let m = or_nil (a_Metadata t); ns = trim_space (a_NamespaceID t);
              ns = (if ns = [] then trim_space (str_at m NamespaceMetadataKey) else ns)
          in vk_targetShard c ns (trim_space (str_at m QueueMetadataKey)))"

text \<open>\<^const>\<open>None\<close>: the query does not name a queue.\<close>

definition vk_shardFromQuery :: "vk_conf \<Rightarrow> query option \<Rightarrow> (store_error + vk_spec) option" where
  "vk_shardFromQuery c qo =
    (if \<not> vk_isSharded c then Some (Inr (first_shard c))
     else case qo of None \<Rightarrow> None | Some q \<Rightarrow>
       (let queue = trim_space (str_at (or_nil (q_Metadata q)) QueueMetadataKey) in
        if trim_space (q_NamespaceID q) = [] \<or> queue = [] then None
        else Some (vk_targetShard c (q_NamespaceID q) queue)))"

definition vk_shardForMutation :: "vk_conf \<Rightarrow> go_context \<Rightarrow> query option \<Rightarrow> (store_error + vk_spec) option" where
  "vk_shardForMutation c ctx qo = (case vk_shardFromHint c ctx of Some r \<Rightarrow> Some r | None \<Rightarrow> vk_shardFromQuery c qo)"

text \<open>The shard a claim goes to.\<close>

definition claim_shard :: "vk_conf \<Rightarrow> go_context \<Rightarrow> query option \<Rightarrow> store_error + vk_spec" where
  "claim_shard c ctx qo = (case vk_shardForMutation c ctx qo of
     Some r \<Rightarrow> r
   | None \<Rightarrow> if vk_isSharded c then Inl (ErrOther ''valkey take requires namespace_id and metadata.queue'') else Inr (first_shard c))"

definition vk_orderedShardIDs :: "vk_conf \<Rightarrow> string list" where
  "vk_orderedShardIDs c = sort (map vp_ShardID (vc_specs c))"

definition vk_shardForTelemetry :: "vk_conf \<Rightarrow> string \<Rightarrow> string \<Rightarrow> vk_spec" where
  "vk_shardForTelemetry c namespaceID traceID =
    (if \<not> vk_isSharded c then first_shard c
     else case vk_targetShard c namespaceID (if trim_space traceID \<noteq> [] then ''__telemetry__:'' @ traceID else ''__telemetry__'') of
       Inl _ \<Rightarrow> first_shard c | Inr sp \<Rightarrow> sp)"

definition vk_shardForSpan :: "vk_conf \<Rightarrow> span \<Rightarrow> vk_spec" where
  "vk_shardForSpan c sp =
    (if \<not> vk_isSharded c then first_shard c
     else if trim_space (sn_NamespaceID sp) \<noteq> [] then vk_shardForTelemetry c (trim_space (sn_NamespaceID sp)) (sn_TraceID sp)
     else vk_shardForTelemetry c ''__trace__'' (sn_TraceID sp))"

definition shardForQueueStats :: "vk_conf \<Rightarrow> string \<Rightarrow> string \<Rightarrow> vk_spec option" where
  "shardForQueueStats c namespaceID queue =
    (if \<not> vk_isSharded c then (case vc_specs c of [] \<Rightarrow> None | sp # _ \<Rightarrow> Some sp)
     else case vk_targetShard c namespaceID queue of Inl _ \<Rightarrow> None | Inr sp \<Rightarrow> Some sp)"

end
