(* ===== verification/Vk_Ops.thy ===== *)
theory Vk_Ops
  imports Vk_Store
begin

text \<open>
  The operations of the Valkey store that read and change agents (\<^verbatim>\<open>store.go\<close>) and the announcement of events
  (\<^verbatim>\<open>events.go\<close>): subscribers in the process, deferred events and wakeups.
\<close>

section \<open>Events and wakeups\<close>

definition remember_id :: "string \<Rightarrow> vk_spec \<Rightarrow> unit vk_act" where
  "remember_id i sp = vk_put (\<lambda>s. s \<lparr> vn_ids := AList.update i (vp_ShardID sp) (vn_ids s) \<rparr>)"

definition vk_notifySubscribers :: "event \<Rightarrow> unit vk_act" where
  "vk_notifySubscribers ev = vk_put (\<lambda>s. s \<lparr> vn_log := vn_log s @ [(ev, Notify (vn_subs s) (Some ev))] \<rparr>)"

definition vk_signalWakeups :: "unit vk_act" where
  "vk_signalWakeups = vk_put (\<lambda>s. s \<lparr> vn_signals := Suc (vn_signals s) \<rparr>)"

text \<open>\<^verbatim>\<open>PUBLISH\<close> reaches whoever listens at that server; an error is only logged.\<close>

definition publishWakeup :: "vk_conf \<Rightarrow> vk_spec \<Rightarrow> string \<Rightarrow> string \<Rightarrow> unit vk_act" where
  "publishWakeup c sp namespaceID queue =
    (if \<not> vc_publishPubSub c then vk_ret ()
     else vk_bind (vk_ask ve_fate) (\<lambda>fate.
       if fate = Unsent then vk_ret ()
       else vk_put (\<lambda>s. s \<lparr> vn_published := vn_published s @ [(vp_Addr sp, trim_space namespaceID @ ''|'' @ trim_space queue)] \<rparr>)))"

text \<open>The commands of a pipeline; all are sent, and the first error is returned.\<close>

fun vk_pipeline :: "vk_conf \<Rightarrow> string \<Rightarrow> vk_call list \<Rightarrow> unit vk_act" where
  "vk_pipeline c addr [] = vk_ret ()"
| "vk_pipeline c addr (call # calls) = vk_bind (vk_try (vk_send c False addr call)) (\<lambda>r.
     vk_bind (vk_try (vk_pipeline c addr calls)) (\<lambda>rest. vk_lift (bindr r (\<lambda>_. rest))))"

definition pending_entry :: "event \<Rightarrow> string \<Rightarrow> json \<Rightarrow> stream_entry" where
  "pending_entry ev namespaceID dat = \<lparr> x_ID = [], x_TupleID = e_TupleID ev, x_Type = e_Type ev, x_Kind = e_Kind ev,
     x_Timestamp = e_Timestamp ev, x_AgentID = e_AgentID ev, x_TraceID = e_TraceID ev, x_Version = e_Version ev,
     x_Data = dat, x_NamespaceID = namespaceID \<rparr>"

definition appendEventToStreams :: "vk_conf \<Rightarrow> vk_spec \<Rightarrow> event \<Rightarrow> string \<Rightarrow> unit vk_act" where
  "appendEventToStreams c sp ev namespaceID = (case event_data_json (e_Data ev) of
     None \<Rightarrow> vk_fail ErrMarshal
   | Some dat \<Rightarrow>
       (let en = pending_entry ev namespaceID dat in
        vk_pipeline c (vp_Addr sp) ([CallXadd globalEventsKey 500000 en, CallXadd (agentEventsStreamKey (e_TupleID ev)) 200000 en] @
          (if e_TraceID ev \<noteq> [] then [CallXadd (traceEventsStreamKey (e_TraceID ev)) 200000 en] else []))))"

text \<open>A full queue makes the operation write the event itself.\<close>

definition vk_enqueueEvent :: "vk_conf \<Rightarrow> event \<Rightarrow> string \<Rightarrow> string \<Rightarrow> unit vk_act" where
  "vk_enqueueEvent c ev namespaceID shardID = vk_bind (vk_get vn_queue) (\<lambda>queue.
     if int (length queue) < vc_queueCapacity c
     then vk_put (\<lambda>s. s \<lparr> vn_queue := vn_queue s @ [(ev, namespaceID, shardID)] \<rparr>)
     else case byShardID c shardID of
       None \<Rightarrow> vk_ret ()
     | Some sp \<Rightarrow> vk_bind (vk_try (appendEventToStreams c sp ev namespaceID)) (\<lambda>_. vk_ret ()))"

text \<open>An event about an agent goes to the subscribers and, if events are deferred, to the queue.\<close>

definition announce :: "vk_conf \<Rightarrow> vk_spec \<Rightarrow> event_type \<Rightarrow> gotime \<Rightarrow> string \<Rightarrow> event_val gomap \<Rightarrow> agent \<Rightarrow> unit vk_act" where
  "announce c sp ty now agentID dat t = vk_bind vk_uuid (\<lambda>u.
     let ev = \<lparr> e_ID = u, e_TupleID = a_ID t, e_Type = ty, e_Kind = a_Kind t, e_Timestamp = now, e_AgentID = agentID,
           e_Data = dat, e_TraceID = a_TraceID t, e_Version = a_Version t \<rparr>
     in vk_bind (vk_notifySubscribers ev) (\<lambda>_.
          if vc_deferEvents c then vk_enqueueEvent c ev (a_NamespaceID t) (vp_ShardID sp) else vk_ret ()))"

definition wake_up :: "vk_conf \<Rightarrow> vk_spec \<Rightarrow> agent \<Rightarrow> unit vk_act" where
  "wake_up c sp t = vk_bind vk_signalWakeups (\<lambda>_.
     publishWakeup c sp (a_NamespaceID t) (str_at (or_nil (a_Metadata t)) QueueMetadataKey))"

section \<open>Reading one agent\<close>

text \<open>A decoded agent of a shard: it carries the id of the shard, and the node remembers where it was.\<close>

definition take_home :: "vk_spec \<Rightarrow> agent \<Rightarrow> agent vk_act" where
  "take_home sp t = vk_bind (remember_id (a_ID t) sp) (\<lambda>_. vk_ret (t \<lparr> a_ShardID := vp_ShardID sp \<rparr>))"

definition getFromShard :: "vk_conf \<Rightarrow> vk_spec \<Rightarrow> string \<Rightarrow> agent vk_act" where
  "getFromShard c sp i = vk_bind (vk_read (vp_Addr sp) (\<lambda>d. k_agents d (agentKey i))) (\<lambda>raw.
     case raw of None \<Rightarrow> vk_fail (ErrNotFound i)
     | Some raw \<Rightarrow> vk_bind (vk_lift (decodeAgent (vc_lib c) (LuaText raw))) (\<lambda>t.
         vk_bind vk_now (\<lambda>now. if vk_isExpired t now then vk_fail (ErrNotFound i) else take_home sp t)))"

fun probe_specs :: "vk_conf \<Rightarrow> string \<Rightarrow> string list \<Rightarrow> vk_spec vk_act" where
  "probe_specs c i [] = vk_fail (ErrNotFound i)"
| "probe_specs c i (shardID # ids) = (case byShardID c shardID of
     None \<Rightarrow> probe_specs c i ids
   | Some sp \<Rightarrow> vk_bind (vk_try (getFromShard c sp i)) (\<lambda>r. case r of Inr _ \<Rightarrow> vk_ret sp | Inl _ \<Rightarrow> probe_specs c i ids))"

definition shardByID :: "vk_conf \<Rightarrow> string \<Rightarrow> vk_spec vk_act" where
  "shardByID c i = vk_bind (vk_get (\<lambda>s. obind (map_of (vn_ids s) i) (byShardID c))) (\<lambda>cached.
     case cached of
       None \<Rightarrow> probe_specs c i (vk_orderedShardIDs c)
     | Some sp \<Rightarrow> vk_bind (vk_try (getFromShard c sp i)) (\<lambda>r. case r of
         Inr _ \<Rightarrow> vk_ret sp | Inl _ \<Rightarrow> probe_specs c i (vk_orderedShardIDs c)))"

definition VkGet :: "vk_conf \<Rightarrow> string \<Rightarrow> agent vk_act" where
  "VkGet c i = vk_bind (shardByID c i) (\<lambda>sp. getFromShard c sp i)"

section \<open>Out\<close>

definition VkOut :: "vk_conf \<Rightarrow> agent \<Rightarrow> agent vk_act" where
  "VkOut c t = vk_bind (vk_lift (vk_shardFromAgent c t)) (\<lambda>sp.
     vk_bind vk_now (\<lambda>now. vk_bind vk_uuid (\<lambda>u.
     let t = normalizeAgentForOut u t now (vp_ShardID sp);
         agentID = str_at (or_nil (a_Metadata t)) ''agent_id'';
         dat = vk_createdEventData t (vc_slimEvents c)
     in case (agent_json t, event_data_json dat) of
          (Some _, Some eventData) \<Rightarrow>
            vk_bind (execScriptJSON c (\<not> vc_deferEvents c) (vp_Addr sp) (CallOut t now agentID eventData)) (\<lambda>resp.
            if sr_Code resp \<notin> {[], ''CREATED''} then vk_fail (ErrOther (sr_Code resp))
            else vk_bind (remember_id (a_ID t) sp) (\<lambda>_.
              vk_bind (announce c sp EventCreated now agentID dat t) (\<lambda>_.
              vk_bind (wake_up c sp t) (\<lambda>_. vk_ret t))))
        | _ \<Rightarrow> vk_fail ErrMarshal)))"

section \<open>Claims\<close>

definition claim_data_map :: "string \<Rightarrow> event_val gomap" where
  "claim_data_map agentID = [(''agent_id'', EVal (VStr agentID))]"

definition vk_queue_of :: "query option \<Rightarrow> string" where
  "vk_queue_of qo = (case qo of None \<Rightarrow> [] | Some q \<Rightarrow> trim_space (str_at (or_nil (q_Metadata q)) QueueMetadataKey))"

definition worker_of :: "query option \<Rightarrow> string" where
  "worker_of qo = (if extractAgentID qo = [] then ''agent'' else extractAgentID qo)"

definition getManyHotStates :: "vk_conf \<Rightarrow> vk_spec \<Rightarrow> string list \<Rightarrow> (string \<Rightarrow> hot_agent_state option) vk_act" where
  "getManyHotStates c sp ids =
    (if ids = [] then vk_ret (\<lambda>_. None)
     else vk_read (vp_Addr sp) (\<lambda>d i. if i \<notin> set ids then None else
       case k_hot d (hotStateKey i) of None \<Rightarrow> None
       | Some h \<Rightarrow> (case decodeHotAgentState (vc_lib c) h of Inl _ \<Rightarrow> None | Inr h \<Rightarrow> Some h)))"

text \<open>The first candidate whose hot state and whose document match.\<close>

fun first_candidate :: "vk_conf \<Rightarrow> vk_spec \<Rightarrow> query option \<Rightarrow> (string \<Rightarrow> hot_agent_state option) \<Rightarrow> string list \<Rightarrow> agent option vk_act" where
  "first_candidate c sp q states [] = vk_ret None"
| "first_candidate c sp q states (i # ids) = (case states i of
     None \<Rightarrow> first_candidate c sp q states ids
   | Some st \<Rightarrow>
       if \<not> hotStateMatchesQuery st q then first_candidate c sp q states ids
       else vk_bind (vk_try (getFromShard c sp i)) (\<lambda>r. case r of
              Inl _ \<Rightarrow> first_candidate c sp q states ids
            | Inr t \<Rightarrow> if vk_matches t q then vk_ret (Some t) else first_candidate c sp q states ids))"

definition nextTakeCandidate :: "vk_conf \<Rightarrow> vk_spec \<Rightarrow> query option \<Rightarrow> agent option vk_act" where
  "nextTakeCandidate c sp qo =
    (if vk_queue_of qo \<noteq> []
     then vk_bind (vk_read (vp_Addr sp) (zrange 1 (queueIndexKey (case qo of None \<Rightarrow> [] | Some q \<Rightarrow> q_NamespaceID q) (vk_queue_of qo)))) (\<lambda>ids.
            case ids of [] \<Rightarrow> vk_ret None | i # _ \<Rightarrow> vk_bind (getFromShard c sp i) (\<lambda>t. vk_ret (Some t)))
     else vk_bind (vk_read (vp_Addr sp) (zrange 128 globalOrderKey)) (\<lambda>ids.
            vk_bind (getManyHotStates c sp ids) (\<lambda>states. first_candidate c sp qo states ids)))"

text \<open>The attempts of a claim that the script of the queue cannot make.\<close>

fun take_attempts :: "vk_conf \<Rightarrow> vk_spec \<Rightarrow> query option \<Rightarrow> string \<Rightarrow> nat \<Rightarrow> agent option vk_act" where
  "take_attempts c sp q agentID 0 = vk_ret None"
| "take_attempts c sp q agentID (Suc n) = vk_bind (nextTakeCandidate c sp q) (\<lambda>found.
     case found of None \<Rightarrow> vk_ret None
     | Some candidate \<Rightarrow>
         if \<not> vk_matches candidate q
         then (if vk_queue_of q \<noteq> [] then vk_ret None else take_attempts c sp q agentID n)
         else vk_bind vk_now (\<lambda>now. vk_bind vk_uuid (\<lambda>leaseToken.
           let leaseUntil = now + leaseDurationFromMetadata (a_Metadata candidate) (vc_leaseDuration c)
           in vk_bind (execScriptJSON c (\<not> vc_deferEvents c) (vp_Addr sp)
                (CallClaim (a_ID candidate) agentID leaseToken now leaseUntil)) (\<lambda>resp.
              if sr_Code resp \<in> {[], ''CLAIMED''}
              then (case sr_Agent resp of None \<Rightarrow> vk_fail ErrUnmarshal | Some raw \<Rightarrow>
                vk_bind (vk_lift (decodeAgent (vc_lib c) raw)) (\<lambda>claimed.
                vk_bind (take_home sp claimed) (\<lambda>claimed.
                vk_bind (announce c sp EventClaimed now agentID (claim_data_map agentID) claimed) (\<lambda>_.
                vk_ret (Some claimed)))))
              else if sr_Code resp = ''NOT_QUEUE_HEAD'' then vk_ret None
              else if sr_Code resp \<in> {''STATUS_CHANGED'', ''NOT_FOUND''} then take_attempts c sp q agentID n
              else vk_fail (ErrOther (sr_Code resp))))))"

definition queue_claim_of :: "vk_conf \<Rightarrow> query \<Rightarrow> string \<Rightarrow> gotime \<Rightarrow> queue_claim" where
  "queue_claim_of c q agentID now =
    \<lparr> qc_Namespace = trim_space (q_NamespaceID q), qc_Queue = vk_queue_of (Some q), qc_Kind = trim_space (q_Kind q),
      qc_Owner = trim_space (q_Owner q), qc_AgentID = agentID, qc_Timestamp = now, qc_NowMS = UnixMilli now,
      qc_DefaultLeaseMS = go_quot (vc_leaseDuration c) Millisecond \<rparr>"

text \<open>A claimed agent as the store returns it: its lease ends as the program computes it.\<close>

definition hot_claimed :: "vk_conf \<Rightarrow> vk_spec \<Rightarrow> string \<Rightarrow> gotime \<Rightarrow> agent_text \<Rightarrow> agent vk_act" where
  "hot_claimed c sp agentID now raw = vk_bind (vk_lift (decodeAgent (vc_lib c) raw)) (\<lambda>t.
     let t = t \<lparr> a_LeaseUntil := now + leaseDurationFromMetadata (a_Metadata t) (vc_leaseDuration c) \<rparr>
     in vk_bind (take_home sp t) (\<lambda>t.
        vk_bind (announce c sp EventClaimed now agentID (claim_data_map agentID) t) (\<lambda>_. vk_ret t)))"

definition claim_answer :: "vk_conf \<Rightarrow> vk_spec \<Rightarrow> string \<Rightarrow> gotime \<Rightarrow> script_response \<Rightarrow> agent option vk_act" where
  "claim_answer c sp agentID now resp =
    (if sr_Code resp \<in> {[], ''CLAIMED''}
     then (case sr_Agent resp of None \<Rightarrow> vk_fail ErrUnmarshal
           | Some raw \<Rightarrow> vk_bind (hot_claimed c sp agentID now raw) (\<lambda>t. vk_ret (Some t)))
     else if sr_Code resp \<in> {''EMPTY'', ''NOT_FOUND'', ''STATUS_CHANGED'', ''NOT_QUEUE_HEAD''} then vk_ret None
     else vk_fail (ErrOther (sr_Code resp)))"

definition takeFromQueueHotPath :: "vk_conf \<Rightarrow> vk_spec \<Rightarrow> query \<Rightarrow> string \<Rightarrow> agent option vk_act" where
  "takeFromQueueHotPath c sp q agentID =
    (if trim_space (q_NamespaceID q) = [] \<or> vk_queue_of (Some q) = [] then vk_ret None
     else vk_bind vk_now (\<lambda>now. vk_bind vk_uuid (\<lambda>leaseToken.
       vk_bind (execScriptJSON c (\<not> vc_deferEvents c) (vp_Addr sp) (CallQueueTake (queue_claim_of c q agentID now) leaseToken))
         (claim_answer c sp agentID now))))"

fun hot_claimed_all :: "vk_conf \<Rightarrow> vk_spec \<Rightarrow> string \<Rightarrow> gotime \<Rightarrow> agent_text list \<Rightarrow> agent list vk_act" where
  "hot_claimed_all c sp agentID now [] = vk_ret []"
| "hot_claimed_all c sp agentID now (raw # raws) = vk_bind (hot_claimed c sp agentID now raw) (\<lambda>t.
     vk_bind (hot_claimed_all c sp agentID now raws) (\<lambda>ts. vk_ret (t # ts)))"

definition batchTakeFromQueueHotPath :: "vk_conf \<Rightarrow> vk_spec \<Rightarrow> query \<Rightarrow> string \<Rightarrow> nat \<Rightarrow> agent list vk_act" where
  "batchTakeFromQueueHotPath c sp q agentID limit =
    (if trim_space (q_NamespaceID q) = [] \<or> vk_queue_of (Some q) = [] then vk_ret []
     else vk_bind vk_now (\<lambda>now. vk_bind vk_uuid (\<lambda>prefix.
       vk_bind (execScriptJSON c (\<not> vc_deferEvents c) (vp_Addr sp)
         (CallQueueBatchTake (queue_claim_of c q agentID now) prefix limit)) (\<lambda>resp.
         if sr_Code resp \<in> {[], ''BATCH_CLAIMED''}
         then hot_claimed_all c sp agentID now (case sr_Agents resp of None \<Rightarrow> [] | Some raws \<Rightarrow> raws)
         else if sr_Code resp \<in> {''EMPTY'', ''NOT_FOUND'', ''STATUS_CHANGED'', ''NOT_QUEUE_HEAD''} then vk_ret []
         else vk_fail (ErrOther (sr_Code resp))))))"

definition VkBoundTake :: "vk_conf \<Rightarrow> go_context \<Rightarrow> query option \<Rightarrow> agent option vk_act" where
  "VkBoundTake c ctx qo =
    (if (case qo of None \<Rightarrow> False | Some q \<Rightarrow> q_Status q \<noteq> [] \<and> q_Status q \<noteq> StatusNew) then vk_ret None
     else vk_bind (vk_lift (claim_shard c ctx qo)) (\<lambda>sp.
       case qo of
         Some q \<Rightarrow> if canUseQueueTakeScript (Some q) then takeFromQueueHotPath c sp q (worker_of qo)
                   else take_attempts c sp qo (worker_of qo) 64
       | None \<Rightarrow> take_attempts c sp qo (worker_of qo) 64))"

definition VkTake :: "vk_conf \<Rightarrow> query option \<Rightarrow> agent option vk_act" where
  "VkTake c qo = VkBoundTake c Background qo"

fun take_many :: "vk_conf \<Rightarrow> query option \<Rightarrow> nat \<Rightarrow> agent list vk_act" where
  "take_many c qo 0 = vk_ret []"
| "take_many c qo (Suc n) = vk_bind (VkTake c qo) (\<lambda>found. case found of
     None \<Rightarrow> vk_ret []
   | Some t \<Rightarrow> vk_bind (take_many c qo n) (\<lambda>ts. vk_ret (t # ts)))"

definition VkBatchTake :: "vk_conf \<Rightarrow> query option \<Rightarrow> int \<Rightarrow> agent list vk_act" where
  "VkBatchTake c qo limit =
    (if limit \<le> 0 then vk_ret []
     else case qo of
       Some q \<Rightarrow> if canUseQueueTakeScript (Some q)
         then vk_bind (vk_lift (claim_shard c Background qo)) (\<lambda>sp. batchTakeFromQueueHotPath c sp q (worker_of qo) (nat limit))
         else take_many c qo (nat limit)
     | None \<Rightarrow> take_many c qo (nat limit))"

end
