(* ===== verification/Vk_Lifecycle.thy ===== *)
theory Vk_Lifecycle
  imports Vk_Ops
begin

text \<open>
  Queries, updates and the end of a lease in the Valkey store (\<^verbatim>\<open>store.go\<close>): the sets a query reads and their
  intersection, \<^verbatim>\<open>UpdateAndGet\<close>, \<^verbatim>\<open>CompleteAndGet\<close>, \<^verbatim>\<open>CompleteAndOut\<close>, \<^verbatim>\<open>ReleaseAndGet\<close> and \<^verbatim>\<open>RenewLease\<close>.
\<close>

section \<open>Queries\<close>

text \<open>The sets a query reads, in the order of the code.\<close>

definition source_keys :: "query option \<Rightarrow> string list" where
  "source_keys qo = (case qo of None \<Rightarrow> [] | Some q \<Rightarrow>
     opt_clause statusIndexKey (q_Status q) @ opt_clause kindIndexKey (q_Kind q) @ opt_clause ownerIndexKey (q_Owner q) @
     opt_clause parentIndexKey (q_ParentID q) @ opt_clause traceIndexKey (q_TraceID q) @
     opt_clause namespaceIndexKey (q_NamespaceID q) @ map tagIndexKey (q_Tags q) @
     map (\<lambda>(k, v). metadataIndexKey k v) (filter (\<lambda>(k, v). k \<noteq> ''agent_id'') (or_nil (q_Metadata q))))"

fun read_sources :: "string \<Rightarrow> string list \<Rightarrow> string list list vk_act" where
  "read_sources addr [] = vk_ret []"
| "read_sources addr (k # ks) = vk_bind (vk_read addr (\<lambda>d. k_sets d k)) (\<lambda>ids.
     vk_bind (read_sources addr ks) (\<lambda>rest. vk_ret (ids # rest)))"

text \<open>The intersection starts from the smallest set.  The code collects it in a map, whose order is unspecified; the
  callers sort what they read.\<close>

definition intersect_sources :: "string list list \<Rightarrow> string list" where
  "intersect_sources sources = (case sort_key length sources of
     [] \<Rightarrow> []
   | base # rest \<Rightarrow> fold (\<lambda>ids allowed. filter (\<lambda>i. i \<in> set ids) allowed) rest base)"

definition candidateIDsForQuery :: "vk_conf \<Rightarrow> vk_spec \<Rightarrow> query option \<Rightarrow> string list vk_act" where
  "candidateIDsForQuery c sp qo =
    (if source_keys qo = [] then vk_read (vp_Addr sp) (\<lambda>d. k_sets d allIndexKey)
     else vk_bind (read_sources (vp_Addr sp) (source_keys qo)) (\<lambda>sources. vk_ret (intersect_sources sources)))"

text \<open>Documents that are gone, cannot be decoded or have expired are left out.\<close>

definition decoded_live :: "lua_lib \<Rightarrow> gotime \<Rightarrow> agent option \<Rightarrow> agent option" where
  "decoded_live lib now raw = (case raw of None \<Rightarrow> None | Some raw \<Rightarrow>
     (case decodeAgent lib (LuaText raw) of Inl _ \<Rightarrow> None | Inr t \<Rightarrow> if vk_isExpired t now then None else Some t))"

definition getManyFromShard :: "vk_conf \<Rightarrow> vk_spec \<Rightarrow> string list \<Rightarrow> agent list vk_act" where
  "getManyFromShard c sp ids =
    (if ids = [] then vk_ret []
     else vk_bind (vk_read (vp_Addr sp) (\<lambda>d. map (\<lambda>i. k_agents d (agentKey i)) ids)) (\<lambda>values. vk_bind vk_now (\<lambda>now.
       let found = filter (\<lambda>(i, r). r \<noteq> None) (zip ids (map (decoded_live (vc_lib c) now) values))
       in vk_bind (vk_put (\<lambda>s. s \<lparr> vn_ids := fold (\<lambda>(i, _). AList.update i (vp_ShardID sp)) found (vn_ids s) \<rparr>)) (\<lambda>_.
          vk_ret (map (\<lambda>(_, r). (the r) \<lparr> a_ShardID := vp_ShardID sp \<rparr>) found)))))"

definition queryShard :: "vk_conf \<Rightarrow> vk_spec \<Rightarrow> query option \<Rightarrow> agent list vk_act" where
  "queryShard c sp qo = vk_bind (candidateIDsForQuery c sp qo) (\<lambda>ids.
     if ids = [] then vk_ret []
     else vk_bind (getManyFromShard c sp ids) (\<lambda>values.
       let filtered = filter (\<lambda>t. vk_matches t qo) values
       in vk_bind (vk_put (\<lambda>s. s \<lparr> vn_ids := fold (\<lambda>t. AList.update (a_ID t) (vp_ShardID sp)) filtered (vn_ids s) \<rparr>)) (\<lambda>_.
          vk_ret (sortAgents filtered))))"

fun query_specs :: "vk_conf \<Rightarrow> query option \<Rightarrow> vk_spec list \<Rightarrow> agent list vk_act" where
  "query_specs c qo [] = vk_ret []"
| "query_specs c qo (sp # sps) = vk_bind (queryShard c sp qo) (\<lambda>ts.
     vk_bind (query_specs c qo sps) (\<lambda>rest. vk_ret (ts @ rest)))"

definition VkQuery :: "vk_conf \<Rightarrow> query option \<Rightarrow> agent list vk_act" where
  "VkQuery c qo = (case vk_shardFromQuery c qo of
     Some r \<Rightarrow> vk_bind (vk_lift r) (\<lambda>sp. vk_bind (queryShard c sp qo) (\<lambda>ts. vk_ret (applyAgentLimitOffset ts qo)))
   | None \<Rightarrow> vk_bind (query_specs c (cloneQueryWithoutPagination qo) (vc_specs c)) (\<lambda>ts.
       vk_ret (applyAgentLimitOffset (sortAgents ts) qo)))"

definition VkCount :: "vk_conf \<Rightarrow> query option \<Rightarrow> int vk_act" where
  "VkCount c qo = vk_bind (VkQuery c (cloneQueryWithoutPagination qo)) (\<lambda>ts. vk_ret (int (length ts)))"

definition count_statuses :: "agent list \<Rightarrow> (status \<times> int) list" where
  "count_statuses ts = fold (\<lambda>t m. AList.update (a_Status t) ((case map_of m (a_Status t) of None \<Rightarrow> 0 | Some n \<Rightarrow> n) + 1) m) ts []"

definition VkCountByStatus :: "vk_conf \<Rightarrow> query option \<Rightarrow> (status \<times> int) list vk_act" where
  "VkCountByStatus c qo = vk_bind (VkQuery c (map_option (\<lambda>q. q \<lparr> q_Status := [] \<rparr>) (cloneQueryWithoutPagination qo))) (\<lambda>ts.
     vk_ret (count_statuses ts))"

section \<open>Update\<close>

definition vk_moves_queue :: "gval gomap option \<Rightarrow> agent \<Rightarrow> bool" where
  "vk_moves_queue updates current = (case map_of (or_nil updates) ''metadata'' of
     Some (VStrMap m) \<Rightarrow> (let queue = trim_space (str_at m QueueMetadataKey)
       in queue \<noteq> [] \<and> queue \<noteq> str_at (or_nil (a_Metadata current)) QueueMetadataKey)
   | _ \<Rightarrow> False)"

text \<open>What an update writes: the agent that was read, changed, with the next version.\<close>

definition updated_agent :: "agent \<Rightarrow> gval gomap option \<Rightarrow> gotime \<Rightarrow> string \<Rightarrow> agent" where
  "updated_agent current updates now shardID =
    (let nxt = ApplyUpdates current updates
     in normalizeAgentMetadata (nxt \<lparr> a_UpdatedAt := now, a_Version := to_int64 (a_Version nxt + 1) \<rparr>) shardID)"

definition VkUpdateAndGet :: "vk_conf \<Rightarrow> string \<Rightarrow> gval gomap option \<Rightarrow> agent vk_act" where
  "VkUpdateAndGet c i updates = vk_bind (shardByID c i) (\<lambda>sp. vk_bind (getFromShard c sp i) (\<lambda>current.
     if vk_isSharded c \<and> vk_moves_queue updates current
     then vk_fail (ErrOther ''valkey update cannot move agents across queues/shards'')
     else vk_bind vk_now (\<lambda>now.
       let nxt = updated_agent current updates now (vp_ShardID sp);
           agentID = str_at (or_nil (a_Metadata current)) ''agent_id''
       in case (agent_json nxt, json_opt_map updates) of
            (Some _, Some eventData) \<Rightarrow>
              vk_bind (execScriptJSON c (\<not> vc_deferEvents c) (vp_Addr sp) (CallUpdate nxt now agentID eventData)) (\<lambda>resp.
              if sr_Code resp \<notin> {[], ''UPDATED''} then vk_fail (ErrOther (sr_Code resp))
              else case sr_Agent resp of None \<Rightarrow> vk_fail ErrUnmarshal | Some raw \<Rightarrow>
                vk_bind (vk_lift (decodeAgent (vc_lib c) raw)) (\<lambda>updated.
                vk_bind (take_home sp updated) (\<lambda>updated.
                vk_bind (announce c sp EventUpdated (a_UpdatedAt updated) agentID (plain_data (or_nil updates)) updated) (\<lambda>_.
                vk_bind (wake_up c sp updated) (\<lambda>_. vk_ret updated)))))
          | _ \<Rightarrow> vk_fail ErrMarshal)))"

section \<open>The end of a lease\<close>

definition classify_code :: "string \<Rightarrow> string \<Rightarrow> string \<Rightarrow> store_error" where
  "classify_code verb code i =
    (if code = ''NOT_FOUND'' then ErrNotFound i
     else if code = ''STALE_TOKEN'' \<and> verb = ''complete'' then ErrTokenMismatchStale
     else if code = ''INVALID_STATUS'' then ErrOther ''invalid status''
     else if code = ''OWNER_MISMATCH'' then ErrOther (''cannot '' @ verb @ '': ownership mismatch'')
     else if code = ''LEASE_TOKEN_MISMATCH'' then ErrLeaseTokenMismatch
     else ErrOther code)"

definition with_lease :: "string \<Rightarrow> string \<Rightarrow> 'a vk_act \<Rightarrow> 'a vk_act" where
  "with_lease agentID leaseToken m =
    (if agentID = [] then vk_fail ErrAgentIDRequired else if leaseToken = [] then vk_fail ErrLeaseTokenRequired else m)"

text \<open>The agent in a response with one of the expected codes.\<close>

definition responded :: "vk_conf \<Rightarrow> vk_spec \<Rightarrow> string list \<Rightarrow> string \<Rightarrow> string \<Rightarrow> script_response \<Rightarrow> agent vk_act" where
  "responded c sp codes verb i resp =
    (if sr_Code resp \<notin> set ([] # codes) then vk_fail (classify_code verb (sr_Code resp) i)
     else case sr_Agent resp of None \<Rightarrow> vk_fail ErrUnmarshal
       | Some raw \<Rightarrow> vk_bind (vk_lift (decodeAgent (vc_lib c) raw)) (take_home sp))"

definition VkCompleteAndGet :: "vk_conf \<Rightarrow> string \<Rightarrow> string \<Rightarrow> string \<Rightarrow> gval gomap option \<Rightarrow> agent vk_act" where
  "VkCompleteAndGet c i agentID leaseToken result = with_lease agentID leaseToken (vk_bind (shardByID c i) (\<lambda>sp.
     vk_bind vk_now (\<lambda>now. let result = or_nil result in
     case marshal_map result of None \<Rightarrow> vk_fail ErrMarshal
     | Some resultJSON \<Rightarrow>
         vk_bind (execScriptJSON c (\<not> vc_deferEvents c) (vp_Addr sp) (CallComplete i agentID leaseToken result resultJSON now)) (\<lambda>resp.
         vk_bind (responded c sp [''COMPLETED'', ''ALREADY_COMPLETED''] ''complete'' i resp) (\<lambda>t.
         if sr_Code resp = ''ALREADY_COMPLETED'' then vk_ret t
         else vk_bind (announce c sp EventCompleted now agentID (plain_data result) t) (\<lambda>_.
              vk_bind (wake_up c sp t) (\<lambda>_. vk_ret t)))))))"

text \<open>The outputs get their defaults from the parent and must belong to its shard.\<close>

fun vk_route_outputs :: "vk_conf \<Rightarrow> vk_spec \<Rightarrow> agent \<Rightarrow> gotime \<Rightarrow> agent list \<Rightarrow> agent list vk_act" where
  "vk_route_outputs c sp source now [] = vk_ret []"
| "vk_route_outputs c sp source now (out # outs) = vk_bind vk_uuid (\<lambda>u.
     let out = normalizeOutputForParent u out source now (vp_ShardID sp) in
     vk_bind (vk_lift (vk_shardFromAgent c out)) (\<lambda>target.
     if vp_ShardID target \<noteq> vp_ShardID sp
     then vk_fail (ErrOther (''cross_shard_atomic_unsupported: source='' @ vp_ShardID sp @ '' output='' @ vp_ShardID target))
     else vk_bind (vk_route_outputs c sp source now outs) (\<lambda>rest. vk_ret (out # rest))))"

fun decode_created :: "vk_conf \<Rightarrow> vk_spec \<Rightarrow> agent_text list \<Rightarrow> agent list vk_act" where
  "decode_created c sp [] = vk_ret []"
| "decode_created c sp (raw # raws) = vk_bind (vk_lift (decodeAgent (vc_lib c) raw)) (\<lambda>t. vk_bind (take_home sp t) (\<lambda>t.
     vk_bind (decode_created c sp raws) (\<lambda>ts. vk_ret (t # ts))))"

fun announce_created :: "vk_conf \<Rightarrow> vk_spec \<Rightarrow> gotime \<Rightarrow> string \<Rightarrow> string \<Rightarrow> agent list \<Rightarrow> unit vk_act" where
  "announce_created c sp now agentID parent [] = vk_ret ()"
| "announce_created c sp now agentID parent (out # outs) =
    vk_bind (announce c sp EventCreated now agentID
      (AList.update ''parent_id'' (EVal (VStr parent)) (vk_createdEventData out (vc_slimEvents c))) out) (\<lambda>_.
    vk_bind (publishWakeup c sp (a_NamespaceID out) (str_at (or_nil (a_Metadata out)) QueueMetadataKey)) (\<lambda>_.
    announce_created c sp now agentID parent outs))"

definition VkCompleteAndOut ::
  "vk_conf \<Rightarrow> string \<Rightarrow> string \<Rightarrow> string \<Rightarrow> gval gomap option \<Rightarrow> agent list option \<Rightarrow> (agent \<times> agent list) vk_act" where
  "VkCompleteAndOut c i agentID leaseToken result outputs = with_lease agentID leaseToken (vk_bind (VkGet c i) (\<lambda>source.
     case byShardID c (a_ShardID source) of
       None \<Rightarrow> vk_fail (ErrOther (''source shard '' @ a_ShardID source @ '' not configured''))
     | Some sp \<Rightarrow> vk_bind vk_now (\<lambda>now. let result = or_nil result in
         vk_bind (vk_route_outputs c sp source now (sent_outputs outputs)) (\<lambda>outs.
         case (marshal_map result, all_some (map agent_json outs)) of
           (Some resultJSON, Some _) \<Rightarrow>
             vk_bind (execScriptJSON c (\<not> vc_deferEvents c) (vp_Addr sp) (CallCompleteAndOut (vc_slimEvents c) i agentID leaseToken
               result resultJSON (map_option (\<lambda>_. outs) outputs) now)) (\<lambda>resp.
             vk_bind (responded c sp [''COMPLETED_AND_OUT''] ''complete'' i resp) (\<lambda>completed.
             vk_bind (decode_created c sp (case sr_Created resp of None \<Rightarrow> [] | Some raws \<Rightarrow> raws)) (\<lambda>created.
             vk_bind (announce c sp EventCompleted now agentID (plain_data result) completed) (\<lambda>_.
             vk_bind (announce_created c sp now agentID (a_ID completed) created) (\<lambda>_.
             vk_bind (wake_up c sp completed) (\<lambda>_. vk_ret (completed, created)))))))
         | _ \<Rightarrow> vk_fail ErrMarshal))))"

definition VkReleaseAndGet :: "vk_conf \<Rightarrow> string \<Rightarrow> string \<Rightarrow> string \<Rightarrow> string \<Rightarrow> agent vk_act" where
  "VkReleaseAndGet c i agentID leaseToken reason = with_lease agentID leaseToken (vk_bind (shardByID c i) (\<lambda>sp.
     vk_bind vk_now (\<lambda>now.
     vk_bind (execScriptJSON c (\<not> vc_deferEvents c) (vp_Addr sp) (CallRelease i agentID leaseToken reason now)) (\<lambda>resp.
     vk_bind (responded c sp [''RELEASED''] ''release'' i resp) (\<lambda>t.
     vk_bind (announce c sp EventReleased now agentID ((''previous_owner'', EVal (VStr agentID)) #
       (if reason \<noteq> [] then [(''reap_reason'', EVal (VStr reason))] else [])) t) (\<lambda>_.
     vk_bind (wake_up c sp t) (\<lambda>_. vk_ret t)))))))"

definition VkRenewLease :: "vk_conf \<Rightarrow> string \<Rightarrow> string \<Rightarrow> string \<Rightarrow> duration \<Rightarrow> agent vk_act" where
  "VkRenewLease c i agentID leaseToken leaseDuration = with_lease agentID leaseToken (vk_bind (shardByID c i) (\<lambda>sp.
     vk_bind (getFromShard c sp i) (\<lambda>current. vk_bind vk_now (\<lambda>now.
     let leaseDuration = (if leaseDuration \<le> 0 then leaseDurationFromMetadata (a_Metadata current) (vc_leaseDuration c) else leaseDuration)
     in vk_bind (execScriptJSON c (\<not> vc_deferEvents c) (vp_Addr sp) (CallRenewLease i agentID leaseToken now (now + leaseDuration))) (\<lambda>resp.
        responded c sp [''RENEWED''] ''renew'' i resp)))))"

end
