(* ===== verification/Vk_Background.thy ===== *)
theory Vk_Background
  imports Vk_Lifecycle
begin

text \<open>
  Events, spans, shard administration, the goroutines of a node of the Valkey store (the writer of deferred events and
  the lease reaper), and the blocking calls.
\<close>

section \<open>Events\<close>

definition stream_event :: "stream_entry \<Rightarrow> event" where
  "stream_event en = \<lparr> e_ID = x_ID en, e_TupleID = x_TupleID en, e_Type = x_Type en, e_Kind = x_Kind en,
     e_Timestamp = x_Timestamp en, e_AgentID = x_AgentID en,
     e_Data = (case x_Data en of JObj kvs \<Rightarrow> map (map_prod id (EVal \<circ> unmarshal)) kvs | _ \<Rightarrow> []),
     e_TraceID = x_TraceID en, e_Version = x_Version en \<rparr>"

definition parseStreamEntries :: "stream_entry list \<Rightarrow> event list" where
  "parseStreamEntries ens = map stream_event ens"

definition VkGetEvents :: "vk_conf \<Rightarrow> string \<Rightarrow> event list vk_act" where
  "VkGetEvents c tupleID = vk_bind (shardByID c tupleID) (\<lambda>sp.
     vk_bind (vk_read (vp_Addr sp) (\<lambda>d. k_streams d (agentEventsStreamKey tupleID))) (\<lambda>ens. vk_ret (parseStreamEntries ens)))"

text \<open>The newest entries of every shard.\<close>

fun newest_events :: "nat \<Rightarrow> vk_spec list \<Rightarrow> event list vk_act" where
  "newest_events n [] = vk_ret []"
| "newest_events n (sp # sps) = vk_bind (vk_read (vp_Addr sp) (\<lambda>d. take n (rev (k_streams d globalEventsKey)))) (\<lambda>ens.
     vk_bind (newest_events n sps) (\<lambda>rest. vk_ret (parseStreamEntries ens @ rest)))"

definition newest_first :: "event list \<Rightarrow> event list" where
  "newest_first evs = sort_key (\<lambda>ev. (- e_Timestamp ev, e_ID ev)) evs"

definition VkGetGlobalEvents :: "vk_conf \<Rightarrow> int \<Rightarrow> int \<Rightarrow> event list vk_act" where
  "VkGetGlobalEvents c limit offset =
    (let limit = (if limit \<le> 0 then 100 else limit);
         fetch = (if limit + offset \<le> 0 then limit else limit + offset)
     in vk_bind (newest_events (nat fetch) (vc_specs c)) (\<lambda>evs. vk_ret (applyLimitOffset limit offset (newest_first evs))))"

definition vk_filterEvents :: "event list \<Rightarrow> event_query \<Rightarrow> event list" where
  "vk_filterEvents evs q = filter (\<lambda>ev. (eq_TupleID q = [] \<or> e_TupleID ev = eq_TupleID q) \<and>
     (eq_AgentID q = [] \<or> e_AgentID ev = eq_AgentID q) \<and> (eq_Type q = [] \<or> e_Type ev = eq_Type q) \<and>
     (eq_TraceID q = [] \<or> e_TraceID ev = eq_TraceID q)) evs"

definition VkQueryEvents :: "vk_conf \<Rightarrow> event_query option \<Rightarrow> event_page vk_act" where
  "VkQueryEvents c qo =
    (let q = (case qo of None \<Rightarrow> empty_event_query | Some q \<Rightarrow> q);
         limit = (if eq_Limit q \<le> 0 then 100 else eq_Limit q);
         offset = (if eq_Offset q < 0 then 0 else eq_Offset q);
         fetch = nat (limit + offset);
         page = (\<lambda>evs. \<lparr> ep_Events = applyLimitOffset limit offset evs, ep_Total = int (length evs), ep_NextCursor = [] \<rparr>)
     in if eq_TupleID q \<noteq> []
        then vk_bind (shardByID c (eq_TupleID q)) (\<lambda>sp.
          vk_bind (vk_read (vp_Addr sp) (\<lambda>d. take fetch (k_streams d (agentEventsStreamKey (eq_TupleID q))))) (\<lambda>ens.
          vk_ret (page (vk_filterEvents (parseStreamEntries ens) q))))
        else vk_bind (newest_events fetch (vc_specs c)) (\<lambda>evs. vk_ret (page (vk_filterEvents (newest_first evs) q))))"

section \<open>Spans\<close>

text \<open>A span as it reads after \<^verbatim>\<open>json.Marshal\<close> and \<^verbatim>\<open>json.Unmarshal\<close>, or nothing where it cannot be marshalled.\<close>

definition stored_span :: "span \<Rightarrow> span option" where
  "stored_span sp =
    (if marshal_time (sn_TsStart sp) = None \<or> (case sn_TsEnd sp of None \<Rightarrow> False | Some t \<Rightarrow> marshal_time t = None) \<or>
        (case obind (sn_Metric sp) tm_ValueNum of None \<Rightarrow> False | Some x \<Rightarrow> \<not> finite_float x) then None
     else map_option (\<lambda>kvs. sp \<lparr> sn_Attrs := (if kvs = [] then None else Some (map (map_prod id (Attr \<circ> unmarshal)) kvs)) \<rparr>)
       (all_some_snd (map (map_prod id attr_json) (or_nil (sn_Attrs sp)))))"

definition span_calls :: "span \<Rightarrow> span \<Rightarrow> vk_call list" where
  "span_calls sp stored =
    (let key = telemetrySpanKey (sn_TraceID sp) (sn_SpanID sp); score = of_int (UnixMilli (sn_TsStart sp))
     in [CallSetSpan key stored, CallZaddSpan (telemetryTraceKey (sn_TraceID sp)) score key, CallZaddSpan telemetryCleanupKey score key])"

fun prepare_spans :: "nat \<Rightarrow> span list \<Rightarrow> vk_call list vk_act" where
  "prepare_spans i [] = vk_ret []"
| "prepare_spans i (sp # sps) = vk_bind vk_uuid (\<lambda>u.
     let sp = (if sn_SpanID sp = [] then sp \<lparr> sn_SpanID := ''generated-'' @ show_int (int i) @ ''-'' @ u \<rparr> else sp)
     in case stored_span sp of None \<Rightarrow> vk_fail ErrMarshal
        | Some stored \<Rightarrow> vk_bind (prepare_spans (Suc i) sps) (\<lambda>rest. vk_ret (span_calls sp stored @ rest)))"

text \<open>The code goes through the shards in the order of a map, which is unspecified; the model takes them in the order of
  their first span.\<close>

fun record_shards :: "vk_conf \<Rightarrow> span list \<Rightarrow> string list \<Rightarrow> unit vk_act" where
  "record_shards c spans [] = vk_ret ()"
| "record_shards c spans (shardID # ids) = (case byShardID c shardID of
     None \<Rightarrow> record_shards c spans ids
   | Some sp \<Rightarrow> vk_bind (prepare_spans 0 (filter (\<lambda>x. vp_ShardID (vk_shardForSpan c x) = shardID) spans)) (\<lambda>calls.
       vk_bind (vk_pipeline c (vp_Addr sp) calls) (\<lambda>_. record_shards c spans ids)))"

definition VkRecordSpans :: "vk_conf \<Rightarrow> span list \<Rightarrow> unit vk_act" where
  "VkRecordSpans c spans = record_shards c spans (remdups (map (\<lambda>x. vp_ShardID (vk_shardForSpan c x)) spans))"

definition span_zsorted :: "string \<Rightarrow> vk_db \<Rightarrow> (string \<times> rat) list" where
  "span_zsorted k d = sort_key (\<lambda>(m, score). (score, m)) (k_span_zsets d k)"

definition span_keys :: "int \<Rightarrow> string \<Rightarrow> vk_db \<Rightarrow> string list" where
  "span_keys n k d = map fst (take (nat n) (span_zsorted k d))"

fun list_shard_spans :: "int \<Rightarrow> string \<Rightarrow> string \<Rightarrow> vk_spec list \<Rightarrow> span list vk_act" where
  "list_shard_spans fetch traceID namespaceID [] = vk_ret []"
| "list_shard_spans fetch traceID namespaceID (sp # sps) =
    vk_bind (vk_read (vp_Addr sp) (span_keys fetch (telemetryTraceKey traceID))) (\<lambda>keys.
    vk_bind (if keys = [] then vk_ret [] else vk_read (vp_Addr sp) (\<lambda>d. List.map_filter (k_spans d) keys)) (\<lambda>values.
    vk_bind (list_shard_spans fetch traceID namespaceID sps) (\<lambda>rest.
    vk_ret (filter (\<lambda>x. namespaceID = [] \<or> sn_NamespaceID x = namespaceID) values @ rest))))"

definition VkListSpans :: "vk_conf \<Rightarrow> string \<Rightarrow> string \<Rightarrow> int \<Rightarrow> int \<Rightarrow> span list vk_act" where
  "VkListSpans c traceID namespaceID limit offset =
    (if trim_space traceID = [] then vk_fail (ErrOther ''trace_id is required'')
     else let limit = (if limit \<le> 0 then 100 else limit);
              fetch = (if limit + offset \<le> 0 then limit else limit + offset);
              shards = (if vk_isSharded c \<and> trim_space namespaceID \<noteq> [] then [vk_shardForTelemetry c namespaceID traceID] else vc_specs c)
          in vk_bind (list_shard_spans fetch traceID namespaceID shards) (\<lambda>spans.
             vk_ret (applyLimitOffset limit offset (sort_key (\<lambda>x. (sn_TsStart x, sn_SpanID x)) spans))))"

definition cleanup_calls :: "string list \<Rightarrow> span option list \<Rightarrow> vk_call list" where
  "cleanup_calls keys values = concat (map (\<lambda>(key, v). [CallDelSpan key, CallZremSpan telemetryCleanupKey key] @
     (case v of None \<Rightarrow> [] | Some sp \<Rightarrow> [CallZremSpan (telemetryTraceKey (sn_TraceID sp)) key])) (zip keys values))"

text \<open>The number of removed spans is returned together with the error of the shard that failed.\<close>

fun cleanup_shards :: "vk_conf \<Rightarrow> int \<Rightarrow> vk_spec list \<Rightarrow> int \<Rightarrow> (int \<times> store_error option) vk_act" where
  "cleanup_shards c cutoff [] removed = vk_ret (removed, None)"
| "cleanup_shards c cutoff (sp # sps) removed =
    vk_bind (vk_try (vk_read (vp_Addr sp) (\<lambda>d. map fst (take (nat (vc_reapBatch c))
      (filter (\<lambda>(m, score). score \<le> of_int cutoff) (span_zsorted telemetryCleanupKey d)))))) (\<lambda>r. case r of
        Inl er \<Rightarrow> vk_ret (removed, Some er)
      | Inr [] \<Rightarrow> cleanup_shards c cutoff sps removed
      | Inr keys \<Rightarrow> vk_bind (vk_try (vk_read (vp_Addr sp) (\<lambda>d. map (k_spans d) keys))) (\<lambda>r. case r of
            Inl er \<Rightarrow> vk_ret (removed, Some er)
          | Inr values \<Rightarrow> vk_bind (vk_try (vk_pipeline c (vp_Addr sp) (cleanup_calls keys values))) (\<lambda>r. case r of
                Inl er \<Rightarrow> vk_ret (removed + int (length keys), Some er)
              | Inr _ \<Rightarrow> cleanup_shards c cutoff sps (removed + int (length keys)))))"

definition VkCleanupSpansBefore :: "vk_conf \<Rightarrow> gotime \<Rightarrow> (int \<times> store_error option) vk_act" where
  "VkCleanupSpansBefore c cutoff = cleanup_shards c (UnixMilli cutoff) (vc_specs c) 0"

section \<open>Shard administration\<close>

definition vk_ping :: "vk_spec \<Rightarrow> unit vk_act" where
  "vk_ping sp = vk_read (vp_Addr sp) (\<lambda>_. ())"

fun VkHealth :: "vk_spec list \<Rightarrow> unit vk_act" where
  "VkHealth [] = vk_ret ()"
| "VkHealth (sp # sps) = vk_bind (vk_try (vk_ping sp)) (\<lambda>r. case r of
     Inl er \<Rightarrow> vk_fail (ErrOther (''shard '' @ vp_ShardID sp @ '' unhealthy'')) | Inr _ \<Rightarrow> VkHealth sps)"

record vk_shard_health =
  sh_ShardID :: string
  sh_OwnerNodeID :: string
  sh_AdvertiseAddr :: string
  sh_Error :: "store_error option"

fun VkShardHealthInfo :: "vk_spec list \<Rightarrow> vk_shard_health list vk_act" where
  "VkShardHealthInfo [] = vk_ret []"
| "VkShardHealthInfo (sp # sps) = vk_bind (vk_try (vk_ping sp)) (\<lambda>r. vk_bind (VkShardHealthInfo sps) (\<lambda>rest.
     vk_ret (\<lparr> sh_ShardID = vp_ShardID sp, sh_OwnerNodeID = vp_OwnerNodeID sp, sh_AdvertiseAddr = vp_AdvertiseAddr sp,
       sh_Error = (case r of Inl er \<Rightarrow> Some er | Inr _ \<Rightarrow> None) \<rparr> # rest)))"

definition VkShardMapInfo :: "vk_conf \<Rightarrow> string \<times> string \<times> vk_spec list" where
  "VkShardMapInfo c = (vc_nodeID c, vc_advertiseAddr c, vc_specs c)"

definition VkShardQueueStats :: "vk_conf \<Rightarrow> string \<Rightarrow> string \<Rightarrow> (string \<times> (status \<times> int) list \<times> int) vk_act" where
  "VkShardQueueStats c namespaceID queue = (case shardForQueueStats c namespaceID queue of
     None \<Rightarrow> vk_fail (ErrOther ''valkey store has no shards'')
   | Some sp \<Rightarrow> vk_bind (queryShard c sp (Some (empty_query \<lparr> q_NamespaceID := namespaceID, q_Metadata := Some [(QueueMetadataKey, queue)] \<rparr>))) (\<lambda>ts.
       let counts = count_statuses ts in vk_ret (vp_ShardID sp, counts, sum_list (map snd counts))))"

section \<open>The writer of deferred events\<close>

fun flushDeferredEvents :: "vk_conf \<Rightarrow> pending_vk_event list \<Rightarrow> unit vk_act" where
  "flushDeferredEvents c [] = vk_ret ()"
| "flushDeferredEvents c ((ev, ns, shardID) # evs) = (case byShardID c shardID of
     None \<Rightarrow> flushDeferredEvents c evs
   | Some sp \<Rightarrow> vk_bind (vk_try (appendEventToStreams c sp ev ns)) (\<lambda>_. flushDeferredEvents c evs))"

definition flush_buffer :: "vk_conf \<Rightarrow> unit vk_act" where
  "flush_buffer c = vk_bind (vk_get vn_buffer) (\<lambda>buf. vk_bind (flushDeferredEvents c buf) (\<lambda>_.
     vk_put (\<lambda>s. s \<lparr> vn_buffer := [] \<rparr>)))"

text \<open>A round of the loop: an event is received, the ticker fires, or the store is closed and the rest is drained.\<close>

datatype vk_writer_round = VwReceive | VwTick | VwDone

fun vk_writer :: "vk_conf \<Rightarrow> vk_writer_round \<Rightarrow> unit vk_act" where
  "vk_writer c VwReceive = vk_bind (vk_get vn_queue) (\<lambda>queue. case queue of
     [] \<Rightarrow> vk_ret ()
   | ev # rest \<Rightarrow> vk_bind (vk_put (\<lambda>s. s \<lparr> vn_queue := rest, vn_buffer := vn_buffer s @ [ev] \<rparr>)) (\<lambda>_.
       vk_bind (vk_get vn_buffer) (\<lambda>buf. if vc_eventBatchSize c \<le> int (length buf) then flush_buffer c else vk_ret ())))"
| "vk_writer c VwTick = flush_buffer c"
| "vk_writer c VwDone = vk_bind (vk_put (\<lambda>s. s \<lparr> vn_queue := [], vn_buffer := vn_buffer s @ vn_queue s \<rparr>)) (\<lambda>_. flush_buffer c)"

section \<open>The lease reaper\<close>

text \<open>The lock names the node that reaps a shard; the server lets it expire.\<close>

definition tryAcquireReaperLeadership :: "vk_conf \<Rightarrow> vk_spec \<Rightarrow> bool vk_act" where
  "tryAcquireReaperLeadership c sp =
    (if vc_ownerRouted c then vk_ret (vk_ownsShard (vc_nodeID c) sp)
     else let ttl = max 1000 (go_quot (vc_reapInterval c) Millisecond * 3) * Millisecond; key = reaperLeaderKey (vp_ShardID sp)
     in vk_bind vk_now (\<lambda>t1. vk_bind (vk_try (vk_send c False (vp_Addr sp) (CallLock True key (vc_reaperID c) t1 (t1 + ttl)))) (\<lambda>r.
        if (case r of Inl _ \<Rightarrow> False | Inr resp \<Rightarrow> sr_Code resp = ''OK'') then vk_ret True
        else vk_bind vk_now (\<lambda>t2. vk_bind (vk_try (vk_read (vp_Addr sp) (lock_held key t2))) (\<lambda>r.
          if r \<noteq> Inr (Some (vc_reaperID c)) then vk_ret False
          else vk_bind vk_now (\<lambda>t3. vk_bind (vk_try (vk_send c False (vp_Addr sp) (CallLock False key (vc_reaperID c) t3 (t3 + ttl)))) (\<lambda>r.
            vk_ret (case r of Inl _ \<Rightarrow> False | Inr resp \<Rightarrow> sr_Code resp = ''OK''))))))))"

fun reap_specs :: "vk_conf \<Rightarrow> gotime \<Rightarrow> vk_spec list \<Rightarrow> unit vk_act" where
  "reap_specs c now [] = vk_ret ()"
| "reap_specs c now (sp # sps) =
    (if vc_ownerRouted c \<and> \<not> vk_ownsShard (vc_nodeID c) sp then reap_specs c now sps
     else vk_bind (tryAcquireReaperLeadership c sp) (\<lambda>leads.
       if \<not> leads then reap_specs c now sps
       else vk_bind (vk_try (execScriptJSON c True (vp_Addr sp) (CallReap now (UnixMilli now) (nat (vc_reapBatch c))))) (\<lambda>r. case r of
         Inl _ \<Rightarrow> reap_specs c now sps
       | Inr resp \<Rightarrow> vk_bind (if 0 < sr_Count resp then vk_bind vk_signalWakeups (\<lambda>_. publishWakeup c sp [] []) else vk_ret ())
           (\<lambda>_. reap_specs c now sps))))"

definition vk_reapExpiredLeases :: "vk_conf \<Rightarrow> unit vk_act" where
  "vk_reapExpiredLeases c = vk_bind vk_now (\<lambda>now. reap_specs c now (vc_specs c))"

section \<open>Blocking calls\<close>

text \<open>The loop of \<^verbatim>\<open>In\<close> and \<^verbatim>\<open>Read\<close>; the fuel bounds the rounds.  A round that finds nothing waits for a signal of this
  node, for the deadline or for the end of the context.\<close>

fun vk_wait_loop ::
  "(nat \<Rightarrow> 's \<Rightarrow> (store_error + agent option) \<times> 's) \<Rightarrow> nat \<Rightarrow> nat \<Rightarrow> 's poll \<Rightarrow> duration \<Rightarrow> 's \<Rightarrow>
     ((store_error + agent option) \<times> 's) option" where
  "vk_wait_loop call 0 i p timeout s = None"
| "vk_wait_loop call (Suc fuel) i p timeout s = (case call i s of
     (Inl er, s') \<Rightarrow> Some (Inl er, s')
   | (Inr (Some t), s') \<Rightarrow> Some (Inr (Some t), s')
   | (Inr None, s') \<Rightarrow>
       if timeout \<le> 0 \<or> p_start p + timeout < p_now p i then Some (Inr None, s')
       else if p_done p i then Some (Inl ErrDeadline, s')
       else vk_wait_loop call fuel (Suc i) p timeout (p_other p i s'))"

definition VkIn ::
  "vk_conf \<Rightarrow> nat \<Rightarrow> (nat \<Rightarrow> vk_env) \<Rightarrow> vk_node poll \<Rightarrow> go_context \<Rightarrow> query option \<Rightarrow> duration \<Rightarrow> vk_node \<Rightarrow>
     ((store_error + agent option) \<times> vk_node) option" where
  "VkIn c fuel es p ctx q timeout s = vk_wait_loop (\<lambda>i. VkBoundTake c ctx q (es i)) fuel 0 p timeout s"

definition VkRead ::
  "vk_conf \<Rightarrow> nat \<Rightarrow> (nat \<Rightarrow> vk_env) \<Rightarrow> vk_node poll \<Rightarrow> query option \<Rightarrow> duration \<Rightarrow> vk_node \<Rightarrow>
     ((store_error + agent option) \<times> vk_node) option" where
  "VkRead c fuel es p q timeout s = vk_wait_loop (\<lambda>i s. map_prod first_of id (VkQuery c q (es i) s)) fuel 0 p timeout s"

text \<open>The traversal of related agents; \<open>ids n\<close> is the cache that the \<open>n\<close>-th read of the store meets.\<close>

definition VkGetDAG :: "vk_conf \<Rightarrow> (nat \<Rightarrow> vk_env) \<Rightarrow> (nat \<Rightarrow> string gomap) \<Rightarrow> vk_node \<Rightarrow> string \<Rightarrow> dag option" where
  "VkGetDAG c es ids s rootID = get_dag (\<lambda>n i. fst (VkGet c i (es n) (s \<lparr> vn_ids := ids n \<rparr>)))
     (\<lambda>n q. fst (VkQuery c q (es n) (s \<lparr> vn_ids := ids n \<rparr>))) rootID"

end
