(* ===== verification/Vk_Refine.thy ===== *)
theory Vk_Refine
  imports Vk_Background
begin

text \<open>
  A node of the Valkey store changes its servers by calls only.  \<^verbatim>\<open>calls_only\<close> says so of an action; it holds of the
  requests, is kept by the combinators, and so holds of every operation and of the goroutines, whatever faults they meet.
  With it, the contract of the servers is the contract of the store.
\<close>

section \<open>Actions that change servers by calls\<close>

definition reached :: "lua_lib \<Rightarrow> (vk_call \<Rightarrow> bool) \<Rightarrow> (string \<Rightarrow> vk_db) \<Rightarrow> (string \<Rightarrow> vk_db) \<Rightarrow> bool" where
  "reached lib P ds ds' \<longleftrightarrow> (\<forall>a. \<exists>rs. list_all (\<lambda>r. P (snd (snd r))) rs \<and> ds' a = run_ops (vk_exec lib) rs (ds a))"

text \<open>The action makes no other calls than those of \<open>P\<close>.\<close>

definition calls_in :: "vk_conf \<Rightarrow> (vk_call \<Rightarrow> bool) \<Rightarrow> 'a vk_act \<Rightarrow> bool" where
  "calls_in c P m \<longleftrightarrow> (\<forall>e s. reached (vc_lib c) P (vn_servers s) (vn_servers (snd (m e s))))"

abbreviation calls_only :: "vk_conf \<Rightarrow> 'a vk_act \<Rightarrow> bool" where
  "calls_only c \<equiv> calls_in c (\<lambda>_. True)"

lemma run_ops_append: "run_ops f (xs @ ys) s = run_ops f ys (run_ops f xs s)"
  by (induction xs arbitrary: s) simp_all

lemma reached_refl [simp]: "reached lib P ds ds"
  unfolding reached_def by (intro allI exI[of _ "[]"]) simp

lemma reached_trans: "reached lib P ds ds1 \<Longrightarrow> reached lib P ds1 ds2 \<Longrightarrow> reached lib P ds ds2"
  unfolding reached_def by (metis list_all_append run_ops_append)

lemma reached_one: "P (snd (snd r)) \<Longrightarrow> reached lib P ds (ds(a := vk_exec lib r (ds a)))"
proof -
  assume "P (snd (snd r))"
  then have "\<exists>rs. list_all (\<lambda>r. P (snd (snd r))) rs \<and> (ds(a := vk_exec lib r (ds a))) b = run_ops (vk_exec lib) rs (ds b)" for b
    by (cases "b = a") (auto intro: exI[of _ "[r]"] exI[of _ "[]"])
  then show ?thesis by (simp add: reached_def)
qed

named_theorems calls "rules for actions that change servers by calls only"

declare TrueI [calls]

lemma calls_ret [calls]: "calls_in c P (vk_ret x)"
  by (simp add: calls_in_def vk_ret_def)

lemma calls_fail [calls]: "calls_in c P (vk_fail er)"
  by (simp add: calls_in_def vk_fail_def)

lemma calls_lift [calls]: "calls_in c P (vk_lift r)"
  by (simp add: calls_in_def vk_lift_def)

lemma calls_get [calls]: "calls_in c P (vk_get f)"
  by (simp add: calls_in_def vk_get_def)

lemma calls_ask [calls]: "calls_in c P (vk_ask f)"
  by (simp add: calls_in_def vk_ask_def)

lemma calls_put: "(\<And>s. vn_servers (f s) = vn_servers s) \<Longrightarrow> calls_in c P (vk_put f)"
  by (simp add: calls_in_def vk_put_def)

lemma calls_bind [calls]:
  assumes "calls_in c P m" "\<And>x. calls_in c P (f x)"
  shows "calls_in c P (vk_bind m f)"
proof -
  have "reached (vc_lib c) P (vn_servers s) (vn_servers (snd (vk_bind m f e s)))" for e s
  proof (cases "m e s")
    case (Pair r s1)
    then have "reached (vc_lib c) P (vn_servers s) (vn_servers s1)" using assms(1) unfolding calls_in_def by (metis snd_conv)
    moreover have "reached (vc_lib c) P (vn_servers s1) (vn_servers (snd (f x e s1)))" for x
      using assms(2)[of x] by (simp add: calls_in_def)
    ultimately show ?thesis using Pair by (cases r) (auto simp: vk_bind_def intro: reached_trans)
  qed
  then show ?thesis by (simp add: calls_in_def)
qed

lemma calls_try [calls]: "calls_in c P m \<Longrightarrow> calls_in c P (vk_try m)"
  by (simp add: calls_in_def vk_try_def split_beta)

lemma calls_if [calls]: "(b \<Longrightarrow> calls_in c P m) \<Longrightarrow> (\<not> b \<Longrightarrow> calls_in c P m') \<Longrightarrow> calls_in c P (if b then m else m')"
  by simp

lemma calls_option [calls]:
  "(x = None \<Longrightarrow> calls_in c P m) \<Longrightarrow> (\<And>y. x = Some y \<Longrightarrow> calls_in c P (f y)) \<Longrightarrow> calls_in c P (case x of None \<Rightarrow> m | Some y \<Rightarrow> f y)"
  by (cases x) simp_all

lemma calls_sum [calls]:
  "(\<And>y. x = Inl y \<Longrightarrow> calls_in c P (f y)) \<Longrightarrow> (\<And>y. x = Inr y \<Longrightarrow> calls_in c P (g y)) \<Longrightarrow> calls_in c P (case x of Inl y \<Rightarrow> f y | Inr y \<Rightarrow> g y)"
  by (cases x) simp_all

lemma calls_list [calls]:
  "(x = [] \<Longrightarrow> calls_in c P m) \<Longrightarrow> (\<And>y ys. x = y # ys \<Longrightarrow> calls_in c P (f y ys)) \<Longrightarrow> calls_in c P (case x of [] \<Rightarrow> m | y # ys \<Rightarrow> f y ys)"
  by (cases x) simp_all

lemma calls_prod [calls]: "(\<And>y z. x = (y, z) \<Longrightarrow> calls_in c P (f y z)) \<Longrightarrow> calls_in c P (case x of (y, z) \<Rightarrow> f y z)"
  by (cases x) simp

lemma calls_let [calls]: "calls_in c P (f x) \<Longrightarrow> calls_in c P (let y = x in f y)"
  by simp

lemma calls_read [calls]: "calls_in c P (vk_read addr f)"
  unfolding vk_read_def by (intro calls)

lemma calls_send [calls]: "P call \<Longrightarrow> calls_in c P (vk_send c w addr call)"
proof -
  assume "P call"
  then have "reached (vc_lib c) P (vn_servers s) (vn_servers (snd (vk_send c w addr call e s)))" for e s
    using reached_one[of P "(ve_server e (vn_asked s), w, call)" "vc_lib c" "vn_servers s" addr]
    by (auto simp: vk_send_def vk_bind_def vk_ask_def vk_exec_def split_beta Let_def)
  then show ?thesis by (simp add: calls_in_def)
qed

lemma calls_exec [calls]: "P call \<Longrightarrow> calls_in c P (execScriptJSON c w addr call)"
  unfolding execScriptJSON_def by (intro calls)

section \<open>Operations\<close>

lemma calls_small [calls]:
  "calls_in c P vk_now" "calls_in c P vk_uuid" "calls_in c P (remember_id i sp)" "calls_in c P (vk_notifySubscribers ev)"
  "calls_in c P vk_signalWakeups" "calls_in c P (publishWakeup c sp ns q)"
  unfolding vk_now_def vk_uuid_def remember_id_def vk_notifySubscribers_def vk_signalWakeups_def publishWakeup_def
  by (intro calls calls_put; simp)+

lemma calls_pipeline: "list_all P cs \<Longrightarrow> calls_in c P (vk_pipeline c addr cs)"
  by (induction cs) (auto intro!: calls)

lemma calls_any_pipeline [calls]: "calls_only c (vk_pipeline c addr cs)"
  by (rule calls_pipeline) (simp add: list_all_iff)

fun appends :: "vk_call \<Rightarrow> bool" where
  "appends (CallXadd k n en) = True"
| "appends call = False"

text \<open>The announcement of an event appends to streams at most.\<close>

lemma appends_announce:
  assumes "\<And>k n en. P (CallXadd k n en)"
  shows "calls_in c P (appendEventToStreams c sp ev ns)" "calls_in c P (vk_enqueueEvent c ev ns k)" "calls_in c P (announce c sp ty now ag dat t)"
proof -
  show a: "calls_in c P (appendEventToStreams c sp ev ns)" for sp ev ns
    unfolding appendEventToStreams_def by (intro calls calls_pipeline) (simp_all add: assms)
  show e: "calls_in c P (vk_enqueueEvent c ev ns k)" for ev ns k unfolding vk_enqueueEvent_def by (intro calls calls_put a) simp
  show "calls_in c P (announce c sp ty now ag dat t)" unfolding announce_def by (intro calls e)
qed

lemmas calls_announce [calls] = appends_announce[of "\<lambda>_. True", OF TrueI]

lemma calls_home [calls]: "calls_in c P (wake_up c sp t)" "calls_in c P (take_home sp t)" "calls_in c P (getFromShard c sp i)"
proof -
  show "calls_in c P (wake_up c sp t)" unfolding wake_up_def by (intro calls)
  show h: "calls_in c P (take_home sp t)" for sp t unfolding take_home_def by (intro calls)
  show "calls_in c P (getFromShard c sp i)" unfolding getFromShard_def by (intro calls h)
qed

lemma calls_lookup [calls]: "calls_only c (probe_specs c i ks)" "calls_only c (shardByID c i)" "calls_only c (VkGet c i)"
proof -
  show p: "calls_only c (probe_specs c i ks)" for ks by (induction ks) (auto intro!: calls)
  show s: "calls_only c (shardByID c i)" unfolding shardByID_def by (intro calls p)
  show "calls_only c (VkGet c i)" unfolding VkGet_def by (intro calls s)
qed

lemma calls_out [calls]: "calls_only c (VkOut c t)"
  unfolding VkOut_def by (intro calls)

lemma calls_candidates [calls]:
  "calls_only c (getManyHotStates c sp ids)" "calls_only c (first_candidate c sp q st ids)" "calls_only c (nextTakeCandidate c sp q)"
proof -
  show h: "calls_only c (getManyHotStates c sp ids)" for ids unfolding getManyHotStates_def by (intro calls)
  show f: "calls_only c (first_candidate c sp q st ids)" for st ids by (induction ids) (auto intro!: calls)
  show "calls_only c (nextTakeCandidate c sp q)" unfolding nextTakeCandidate_def by (intro calls h f)
qed

lemma calls_attempts [calls]: "calls_only c (take_attempts c sp q ag n)"
  by (induction n) (auto intro!: calls)

lemma calls_hot [calls]:
  "calls_only c (hot_claimed c sp ag now raw)" "calls_only c (hot_claimed_all c sp ag now raws)"
  "calls_only c (takeFromQueueHotPath c sp q ag)" "calls_only c (batchTakeFromQueueHotPath c sp q ag n)"
proof -
  show h: "calls_only c (hot_claimed c sp ag now raw)" for now raw unfolding hot_claimed_def by (intro calls)
  show a: "calls_only c (hot_claimed_all c sp ag now raws)" for now raws by (induction raws) (auto intro!: calls h)
  show "calls_only c (takeFromQueueHotPath c sp q ag)" unfolding takeFromQueueHotPath_def claim_answer_def by (intro calls h)
  show "calls_only c (batchTakeFromQueueHotPath c sp q ag n)" unfolding batchTakeFromQueueHotPath_def by (intro calls a)
qed

lemma calls_take [calls]: "calls_only c (VkBoundTake c ctx q)" "calls_only c (VkTake c q)" "calls_only c (take_many c q n)" "calls_only c (VkBatchTake c q k)"
proof -
  show b: "calls_only c (VkBoundTake c ctx q)" for ctx unfolding VkBoundTake_def by (intro calls)
  show t: "calls_only c (VkTake c q)" unfolding VkTake_def by (rule b)
  show m: "calls_only c (take_many c q n)" for n by (induction n) (auto intro!: calls t)
  show "calls_only c (VkBatchTake c q k)" unfolding VkBatchTake_def by (intro calls m)
qed

lemma calls_query [calls]: "calls_only c (read_sources a ks)" "calls_only c (queryShard c sp q)" "calls_only c (query_specs c q sps)" "calls_only c (VkQuery c q)"
proof -
  show r: "calls_only c (read_sources a ks)" for a ks by (induction ks) (auto intro!: calls)
  show s: "calls_only c (queryShard c sp q)" for sp q
    unfolding queryShard_def candidateIDsForQuery_def getManyFromShard_def by (intro calls calls_put r; simp)
  show sp: "calls_only c (query_specs c q sps)" for q sps by (induction sps) (auto intro!: calls s)
  show "calls_only c (VkQuery c q)" unfolding VkQuery_def by (intro calls s sp)
qed

lemma calls_lease [calls]:
  "calls_only c (VkUpdateAndGet c i u)" "calls_only c (VkCompleteAndGet c i ag tok res)" "calls_only c (VkReleaseAndGet c i ag tok reason)"
  "calls_only c (VkRenewLease c i ag tok dur)"
  unfolding VkUpdateAndGet_def VkCompleteAndGet_def VkReleaseAndGet_def VkRenewLease_def with_lease_def responded_def by (intro calls)+

lemma calls_outputs [calls]:
  "calls_only c (vk_route_outputs c sp src now outs)" "calls_only c (decode_created c sp raws)"
  "calls_only c (announce_created c sp now ag par ts)"
  by (induction outs, auto intro!: calls) (induction raws, auto intro!: calls, induction ts, auto intro!: calls)

lemma calls_complete_and_out [calls]: "calls_only c (VkCompleteAndOut c i ag tok res outs)"
  unfolding VkCompleteAndOut_def with_lease_def responded_def by (intro calls)

lemma calls_background [calls]:
  "calls_only c (flushDeferredEvents c evs)" "calls_only c (vk_writer c r)" "calls_only c (tryAcquireReaperLeadership c sp)"
  "calls_only c (reap_specs c now sps)" "calls_only c (vk_reapExpiredLeases c)"
proof -
  show f: "calls_only c (flushDeferredEvents c evs)" for evs by (induction evs) (auto intro!: calls)
  have b: "calls_only c (flush_buffer c)" unfolding flush_buffer_def by (intro calls calls_put f) simp
  show "calls_only c (vk_writer c r)" by (cases r) (auto intro!: calls calls_put b)
  show l: "calls_only c (tryAcquireReaperLeadership c sp)" for sp unfolding tryAcquireReaperLeadership_def by (intro calls)
  show r: "calls_only c (reap_specs c now sps)" for now sps by (induction sps) (auto intro!: calls l)
  show "calls_only c (vk_reapExpiredLeases c)" unfolding vk_reapExpiredLeases_def by (intro calls r)
qed

lemma calls_spans [calls]:
  "calls_only c (prepare_spans k sps)" "calls_only c (record_shards c spans ids)" "calls_only c (VkRecordSpans c spans)"
  "calls_only c (cleanup_shards c ms specs n)" "calls_only c (VkCleanupSpansBefore c t)"
proof -
  show p: "calls_only c (prepare_spans k sps)" for k sps by (induction sps arbitrary: k) (auto intro!: calls)
  show r: "calls_only c (record_shards c spans ids)" for ids by (induction ids) (auto intro!: calls p)
  show "calls_only c (VkRecordSpans c spans)" unfolding VkRecordSpans_def by (rule r)
  show cl: "calls_only c (cleanup_shards c ms specs n)" for ms specs n by (induction specs arbitrary: n) (auto intro!: calls)
  show "calls_only c (VkCleanupSpansBefore c t)" unfolding VkCleanupSpansBefore_def by (rule cl)
qed

section \<open>The store as a user of the contract\<close>

datatype vk_op =
    VoOut agent
  | VoTake go_context "query option"
  | VoBatchTake "query option" int
  | VoQuery "query option"
  | VoGet string
  | VoUpdate string "gval gomap option"
  | VoComplete string string string "gval gomap option"
  | VoCompleteAndOut string string string "gval gomap option" "agent list option"
  | VoRelease string string string string
  | VoRenewLease string string string duration
  | VoRecordSpans "span list"
  | VoCleanupSpans gotime
  | VoWriter vk_writer_round
  | VoReap

text \<open>An operation or a round of a goroutine, without its result; every operation counts what it asks for from zero.\<close>

definition vk_done :: "'a vk_act \<Rightarrow> unit vk_act" where
  "vk_done m = vk_bind (vk_put (\<lambda>s. s \<lparr> vn_asked := 0 \<rparr>)) (\<lambda>_. vk_bind (vk_try m) (\<lambda>_. vk_ret ()))"

fun vk_operation :: "vk_conf \<Rightarrow> vk_op \<Rightarrow> unit vk_act" where
  "vk_operation c (VoOut t) = vk_done (VkOut c t)"
| "vk_operation c (VoTake ctx q) = vk_done (VkBoundTake c ctx q)"
| "vk_operation c (VoBatchTake q n) = vk_done (VkBatchTake c q n)"
| "vk_operation c (VoQuery q) = vk_done (VkQuery c q)"
| "vk_operation c (VoGet i) = vk_done (VkGet c i)"
| "vk_operation c (VoUpdate i u) = vk_done (VkUpdateAndGet c i u)"
| "vk_operation c (VoComplete i ag tok res) = vk_done (VkCompleteAndGet c i ag tok res)"
| "vk_operation c (VoCompleteAndOut i ag tok res outs) = vk_done (VkCompleteAndOut c i ag tok res outs)"
| "vk_operation c (VoRelease i ag tok reason) = vk_done (VkReleaseAndGet c i ag tok reason)"
| "vk_operation c (VoRenewLease i ag tok dur) = vk_done (VkRenewLease c i ag tok dur)"
| "vk_operation c (VoRecordSpans sps) = vk_done (VkRecordSpans c sps)"
| "vk_operation c (VoCleanupSpans t) = vk_done (VkCleanupSpansBefore c t)"
| "vk_operation c (VoWriter r) = vk_done (vk_writer c r)"
| "vk_operation c VoReap = vk_done (vk_reapExpiredLeases c)"

definition vk_node_exec :: "vk_conf \<Rightarrow> vk_env \<times> vk_op \<Rightarrow> vk_node \<Rightarrow> vk_node" where
  "vk_node_exec c op s = snd (vk_operation c (snd op) (fst op) s)"

lemma calls_done [calls]: "calls_only c m \<Longrightarrow> calls_only c (vk_done m)"
  unfolding vk_done_def by (intro calls calls_put) simp_all

lemma calls_operation: "calls_only c (vk_operation c op)"
  by (cases op) (auto intro!: calls)

lemma node_reached: "reached (vc_lib c) (\<lambda>_. True) (vn_servers s) (vn_servers (run_ops (vk_node_exec c) ops s))"
proof (induction ops arbitrary: s)
  case (Cons op ops)
  have "reached (vc_lib c) (\<lambda>_. True) (vn_servers s) (vn_servers (vk_node_exec c op s))"
    using calls_operation[of c "snd op"] by (simp add: calls_in_def vk_node_exec_def)
  then show ?case using Cons.IH[of "vk_node_exec c op s"] reached_trans by auto
qed simp

end
