(* ===== verification/Vk_Contract.thy ===== *)
theory Vk_Contract
  imports Vk_Refine
begin

text \<open>
  The lease contract of the Valkey store: of a server under calls of any number of nodes, and of a node whose requests
  may fail or lose their answers.
\<close>

section \<open>A server for examples\<close>

text \<open>Libraries as servers have them: numbers of at most 14 digits are written plainly, an empty table is an object.\<close>

definition demo_lib :: lua_lib where
  "demo_lib = \<lparr> lu_tonumber = (\<lambda>s. map_option of_int (atoi s)), lu_big = show_int,
     cj_integer = (\<lambda>n. abs n < 100000000000000), cj_empty_array = False, cj_payload = (\<lambda>p. p) \<rparr>"

definition demo_server :: server where
  "demo_server = \<lparr> sv_lib = demo_lib, sv_id = (\<lambda>k n. show_int (int n) @ ''-0''), sv_trim = (\<lambda>_. 0) \<rparr>"

text \<open>An agent of the queue \<^verbatim>\<open>jobs\<close>, created at the given second.\<close>

definition vk_demo_agent :: "string \<Rightarrow> int \<Rightarrow> agent" where
  "vk_demo_agent i sec = normalizeAgentForOut [] (empty_agent \<lparr> a_ID := i, a_Kind := ''job'', a_NamespaceID := ''ns'',
     a_CreatedAt := sec * Second, a_Metadata := Some [(''queue'', ''jobs'')] \<rparr>) (sec * Second) ''valkey-0''"

definition vk_demo_claim :: "gotime \<Rightarrow> queue_claim" where
  "vk_demo_claim now = \<lparr> qc_Namespace = ''ns'', qc_Queue = ''jobs'', qc_Kind = [], qc_Owner = [], qc_AgentID = ''w1'',
     qc_Timestamp = now, qc_NowMS = UnixMilli now, qc_DefaultLeaseMS = 300000 \<rparr>"

text \<open>An agent arrives, is claimed, completed, and completed once more by a retry.\<close>

definition vk_demo_calls :: "vk_request list" where
  "vk_demo_calls = map (\<lambda>call. (demo_server, True, call))
    [CallOut (vk_demo_agent ''a'' 10) (21 * Second) [] JNull, CallClaim ''a'' ''w1'' ''t1'' (30 * Second) (330 * Second),
     CallComplete ''a'' ''w1'' ''t1'' [] (JObj []) (31 * Second), CallComplete ''a'' ''w1'' ''t1'' [] (JObj []) (32 * Second)]"

text \<open>How the documents of a server change, for evaluating calls.\<close>

lemma doc_rewrite [simp]: "doc (rewrite_agent lib dflt cur new i d) = (doc d)(i \<mapsto> cjson_encode lib new)"
  by (simp add: rewrite_agent_def)

lemma doc_store [simp]: "doc (store_agent lib new i d) = (doc d)(i \<mapsto> cjson_encode lib new)"
  by (simp add: store_agent_def Let_def split: option.split)

lemma doc_empty [simp]: "doc empty_vk i = None"
  by (simp add: doc_def empty_vk_def)

lemma vk_demo_agent_fields [simp]: "a_ID (vk_demo_agent i sec) = i" "a_Status (vk_demo_agent i sec) = StatusNew"
  "a_Version (vk_demo_agent i sec) = 1"
  by (simp_all add: vk_demo_agent_def normalizeAgentForOut_def normalizeAgentMetadata_def Let_def split_beta empty_agent_def)

lemma lua_fields [simp]:
  "a_Status (lua_claimed ag tok ts raw u t) = StatusInProgress" "a_Owner (lua_claimed ag tok ts raw u t) = ag"
  "a_LeaseToken (lua_claimed ag tok ts raw u t) = tok" "a_Status (lua_freed st ts t) = st"
  "a_Status (lua_completed ag tok ts res t) = StatusCompleted" "metadata_value (lua_completed ag tok ts res t) CompletedByTokenMetadataKey = tok"
  using arg_cong[OF claimed_vk_cell[of undefined ag tok ts raw u t], of c_status] arg_cong[OF claimed_vk_cell[of undefined ag tok ts raw u t], of c_owner]
    arg_cong[OF claimed_vk_cell[of undefined ag tok ts raw u t], of c_token] arg_cong[OF freed_vk_cell[of undefined st ts t], of c_status]
    arg_cong[OF completed_vk_cell[of undefined ag tok ts res t], of c_status] arg_cong[OF completed_vk_cell[of undefined ag tok ts res t], of c_ctoken]
  by (simp_all add: freed_def)

lemmas script_eval = vk_exec_def vk_run_def outScript_def claimScript_def completeScript_def load_agent_doc lease_code_def
  with_agent_def code_only_def Let_def

section \<open>Completions\<close>

text \<open>Whether the answer to a request says that it completed the agent.\<close>

definition says_completed :: "lua_lib \<Rightarrow> string \<Rightarrow> vk_request \<Rightarrow> vk_db \<Rightarrow> bool" where
  "says_completed lib i r d = (case (snd (snd r), fst (vk_run lib r d)) of
     (CallComplete j ag tok res rj ts, Some resp) \<Rightarrow> j = i \<and> sr_Code resp = ''COMPLETED''
   | (CallCompleteAndOut slim j ag tok res rj outs ts, Some resp) \<Rightarrow> j = i \<and> sr_Code resp = ''COMPLETED_AND_OUT''
   | _ \<Rightarrow> False)"

fun completions_said :: "lua_lib \<Rightarrow> string \<Rightarrow> vk_request list \<Rightarrow> vk_db \<Rightarrow> nat" where
  "completions_said lib i [] d = 0"
| "completions_said lib i (r # rs) d = (if says_completed lib i r d then 1 else 0) + completions_said lib i rs (vk_exec lib r d)"

lemma lease_code_codes: "lease_code ag tok t = Some x \<Longrightarrow> x \<noteq> ''COMPLETED'' \<and> x \<noteq> ''COMPLETED_AND_OUT''"
  by (auto simp: lease_code_def split: if_splits)

lemma said_labels:
  assumes "says_completed lib i r d"
  shows "filter (is_complete i) (vk_labels lib r d) \<noteq> []"
proof -
  obtain sv w call where r: "r = (sv, w, call)" by (cases r)
  show ?thesis
  proof (cases call)
    case (CallComplete j ag tok res rj ts)
    then show ?thesis
      using assms r
      by (cases "doc d j"; cases "lease_code ag tok (the (doc d j))")
        (auto simp: says_completed_def vk_run_def completeScript_def no_document a_document with_agent_def code_only_def
          is_complete_def Let_def dest: lease_code_codes split: if_splits)
  next
    case (CallCompleteAndOut slim j ag tok res rj outs ts)
    then show ?thesis
      using assms r
      by (cases "doc d j"; cases "lease_code ag tok (the (doc d j))")
        (auto simp: says_completed_def vk_run_def completeAndOutScript_def no_document a_document with_agent_def code_only_def
          is_complete_def Let_def dest: lease_code_codes split: if_splits option.splits)
  qed (use assms r in \<open>auto simp: says_completed_def split: option.splits\<close>)
qed

lemma said_completions:
  "completions_said lib i rs d \<le> length (filter (is_complete i) (trace_ops (vk_exec lib) (vk_labels lib) rs d))"
proof (induction rs arbitrary: d)
  case (Cons r rs)
  have "(if says_completed lib i r d then 1 else 0) \<le> length (filter (is_complete i) (vk_labels lib r d))"
    using said_labels[of lib i r d] by (cases "filter (is_complete i) (vk_labels lib r d)") auto
  then show ?case using Cons.IH[of "vk_exec lib r d"] by simp
qed simp

section \<open>Properties\<close>



text \<open>C9: among the answers of a Valkey server to proper calls, at most one says that a given agent was completed, and
  none once the agent is completed, however the calls of the nodes interleave.\<close>

theorem vk_completes_at_most_once:
  assumes "good_vk lib d" "proper_ops (vk_exec lib) (vk_proper lib) rs d"
  shows "completions_said lib i rs d \<le> (if finished i (vk_view lib d) then 0 else 1)"
proof (cases "finished i (vk_view lib d)")
  case True
  then show ?thesis using vk.run_completed_stays[OF assms] said_completions[of lib i rs d] by simp
next
  case False
  then show ?thesis using vk.run_completes_once[OF assms, of i] said_completions[of lib i rs d] by simp
qed

theorem vk_completes_at_most_once_witness:
  "completions_said demo_lib ''a'' vk_demo_calls empty_vk = 1 \<and> completions_said demo_lib ''a'' vk_demo_calls empty_vk \<le> 1"
proof -
  have "proper_ops (vk_exec demo_lib) (vk_proper demo_lib) vk_demo_calls empty_vk" by (simp add: vk_demo_calls_def)
  from vk_completes_at_most_once[OF good_empty this, of "''a''"]
  have "completions_said demo_lib ''a'' vk_demo_calls empty_vk \<le> 1" by (auto split: if_splits)
  moreover have "completions_said demo_lib ''a'' vk_demo_calls empty_vk = 1"
    by (simp add: vk_demo_calls_def says_completed_def script_eval)
  ultimately show ?thesis by blast
qed



definition vk_demo_spec :: vk_spec where
  "vk_demo_spec = \<lparr> vp_ShardID = ''valkey-0'', vp_Addr = ''localhost:6379'', vp_OwnerNodeID = [], vp_AdvertiseAddr = [] \<rparr>"

definition vk_demo_conf :: vk_conf where
  "vk_demo_conf = \<lparr> vc_specs = [vk_demo_spec], vc_ownerRouted = False, vc_nodeID = [], vc_advertiseAddr = [],
     vc_leaseDuration = 5 * Minute, vc_reapInterval = Second, vc_reapBatch = 200, vc_publishPubSub = False,
     vc_slimEvents = False, vc_deferEvents = False, vc_eventBatchSize = 100, vc_queueCapacity = 400,
     vc_reaperID = ''r'', vc_lib = demo_lib \<rparr>"

definition vk_demo_node :: "vk_db \<Rightarrow> vk_node" where
  "vk_demo_node d = \<lparr> vn_servers = (\<lambda>_. d), vn_ids = [], vn_subs = [], vn_log = [], vn_queue = [], vn_buffer = [],
     vn_signals = 0, vn_published = [], vn_asked = 0 \<rparr>"

definition vk_quiet :: "gotime \<Rightarrow> vk_env" where
  "vk_quiet now = \<lparr> clock = (\<lambda>_. now), uuid = (\<lambda>n. ''u'' @ show_int (int n)), fault = (\<lambda>_. False),
     ve_fate = (\<lambda>_. Answered), ve_server = (\<lambda>_. demo_server) \<rparr>"

text \<open>A run in which the answer to a claim is lost and the reaper runs later.\<close>

definition vk_demo_ops :: "(vk_env \<times> vk_op) list" where
  "vk_demo_ops = [(vk_quiet (21 * Second), VoOut (vk_demo_agent ''a'' 10)),
     ((vk_quiet (30 * Second)) \<lparr> ve_fate := (\<lambda>_. Unanswered) \<rparr>, VoTake Background (Some (empty_query \<lparr> q_NamespaceID := ''ns'',
        q_Metadata := Some [(''queue'', ''jobs'')] \<rparr>))), (vk_quiet (600 * Second), VoReap)]"


section \<open>A server with one waiting agent\<close>

definition vk_demo :: vk_db where
  "vk_demo = vk_exec demo_lib (demo_server, True, CallOut (vk_demo_agent ''a'' 10) (21 * Second) [] JNull) empty_vk"

definition vk_demo_query :: query where
  "vk_demo_query = empty_query \<lparr> q_NamespaceID := ''ns'', q_Kind := ''job'', q_AgentID := ''w1'', q_Metadata := Some [(''queue'', ''jobs'')] \<rparr>"

lemma good_vk_demo: "good_vk demo_lib vk_demo"
  unfolding vk_demo_def by (rule vk.good_exec[OF good_empty])

lemma doc_vk_demo: "doc vk_demo = [''a'' \<mapsto> cjson_encode demo_lib (normalize_agent (vk_demo_agent ''a'' 10))]"
  by (simp add: vk_demo_def script_eval demo_server_def fun_eq_iff)

lemma vk_demo_agent_values:
  "a_Kind (vk_demo_agent ''a'' 10) = ''job''" "a_TTL (vk_demo_agent ''a'' 10) = 0" "namespace_value (vk_demo_agent ''a'' 10) = ''ns''"
  "queue_value (vk_demo_agent ''a'' 10) = ''jobs''"
  by code_simp+

end
