(* ===== verification/Vk_Queries.thy ===== *)
theory Vk_Queries
  imports Vk_Contract
begin

text \<open>
  Queries of the Valkey store: the intersection of index sets, followed by reading, decoding and matching, finds exactly
  the visible agents that the query selects.
\<close>

section \<open>Decoded documents\<close>

lemma decoded_fields:
  assumes "decodeAgent lib (LuaText raw) = Inr t"
  shows "a_ID t = a_ID raw" "a_Kind t = a_Kind raw" "a_Status t = a_Status raw" "a_Owner t = a_Owner raw"
    "a_ParentID t = a_ParentID raw" "a_TraceID t = a_TraceID raw" "a_Tags t = a_Tags raw" "a_CreatedAt t = a_CreatedAt raw"
    "or_nil (a_Metadata t) = or_nil (a_Metadata raw)" "a_NamespaceID t = namespace_value raw" "a_TTL t = a_TTL raw"
    "a_Version t = a_Version raw" "a_LeaseToken t = a_LeaseToken raw"
proof -
  obtain x where x: "unmarshal_agent lib (LuaText raw) = Inr x" "x = raw \<lparr> a_Payload := map_option fix_payload (a_Payload raw) \<rparr>"
    using assms by (auto simp: decodeAgent_def unmarshal_agent_def bindr_eq_Inr split: if_splits)
  show "a_ID t = a_ID raw" "a_Kind t = a_Kind raw" "a_Status t = a_Status raw" "a_Owner t = a_Owner raw"
    "a_ParentID t = a_ParentID raw" "a_TraceID t = a_TraceID raw" "a_Tags t = a_Tags raw" "a_CreatedAt t = a_CreatedAt raw"
    "or_nil (a_Metadata t) = or_nil (a_Metadata raw)" "a_NamespaceID t = namespace_value raw" "a_TTL t = a_TTL raw"
    "a_Version t = a_Version raw" "a_LeaseToken t = a_LeaseToken raw"
    using assms x unfolding decodeAgent_def
    by (auto simp: Let_def namespace_value_def metadata_value_def split: option.splits if_splits)
qed

text \<open>Matching a decoded agent is membership in the sets of the query.\<close>

lemma matches_sources:
  assumes "wf_doc i raw" "decodeAgent lib (LuaText raw) = Inr t"
  shows "vk_matches t qo \<longleftrightarrow> set (source_keys qo) \<subseteq> set (index_keys raw)"
proof (cases qo)
  case (Some q)
  note f = decoded_fields[OF assms(2)]
  have m: "map_of (or_nil (a_Metadata raw)) k = Some v \<longleftrightarrow> (k, v) \<in> set (or_nil (a_Metadata raw))" for k v
    using assms(1) by (simp add: wf_doc_def)
  have ns: "(if namespace_value raw = [] then str_at (or_nil (a_Metadata raw)) NamespaceMetadataKey else namespace_value raw) = namespace_value raw"
    by (simp add: namespace_value_def metadata_value_def)
  have md: "list_all (\<lambda>(k, v). k = ''agent_id'' \<or> map_of (or_nil (a_Metadata raw)) k = Some v) (or_nil (q_Metadata q)) \<longleftrightarrow>
      set (map (\<lambda>(k, v). metadataIndexKey k v) (filter (\<lambda>(k, v). k \<noteq> ''agent_id'') (or_nil (q_Metadata q)))) \<subseteq> set (index_keys raw)"
    by (auto simp: list_all_iff m index_keys_iff)
  have tg: "list_all (\<lambda>tag. tag \<in> set (a_Tags raw)) (q_Tags q) \<longleftrightarrow> set (map tagIndexKey (q_Tags q)) \<subseteq> set (index_keys raw)"
    by (auto simp: list_all_iff index_keys_iff)
  have oc: "set (opt_clause f v) \<subseteq> A \<longleftrightarrow> (v \<noteq> [] \<longrightarrow> f v \<in> A)" for f :: "string \<Rightarrow> string" and v A
    by (cases v) (auto simp: opt_clause_def)
  show ?thesis
    unfolding Some vk_matches_def source_keys_def option.case f ns md tg set_append Un_subset_iff oc index_keys_iff by auto
qed (simp add: vk_matches_def source_keys_def)

section \<open>Candidates\<close>

definition answered :: "gotime \<Rightarrow> vk_env \<Rightarrow> bool" where
  "answered now e \<longleftrightarrow> (\<forall>n. ve_fate e n = Answered \<and> clock e n = now)"

lemma read_answered:
  assumes "answered now e"
  shows "vk_read addr f e s = (Inr (f (vn_servers s addr)), s \<lparr> vn_asked := Suc (vn_asked s) \<rparr>)"
  using assms by (simp add: vk_read_def vk_bind_def vk_ask_def vk_get_def answered_def)

lemma now_answered: "answered now e \<Longrightarrow> vk_now e s = (Inr now, s \<lparr> vn_asked := Suc (vn_asked s) \<rparr>)"
  by (simp add: vk_now_def vk_ask_def answered_def)

text \<open>An action that succeeds with the given result and leaves the servers alone.\<close>

definition reads_as :: "vk_env \<Rightarrow> (string \<Rightarrow> vk_db) \<Rightarrow> 'a vk_act \<Rightarrow> 'a \<Rightarrow> bool" where
  "reads_as e ds m x \<longleftrightarrow> (\<forall>s. vn_servers s = ds \<longrightarrow> (\<exists>s'. m e s = (Inr x, s') \<and> vn_servers s' = ds))"

lemma reads_as_ret: "reads_as e ds (vk_ret x) x"
  by (simp add: reads_as_def vk_ret_def)

lemma reads_as_put: "(\<And>s. vn_servers (f s) = vn_servers s) \<Longrightarrow> reads_as e ds (vk_put f) ()"
  by (simp add: reads_as_def vk_put_def)

lemma reads_as_bind: "reads_as e ds m x \<Longrightarrow> reads_as e ds (f x) y \<Longrightarrow> reads_as e ds (vk_bind m f) y"
  unfolding reads_as_def vk_bind_def by (metis (no_types, lifting) case_prod_conv sum.case(2))

lemma reads_as_read: "answered now e \<Longrightarrow> reads_as e ds (vk_read addr f) (f (ds addr))"
  by (simp add: reads_as_def read_answered)

lemma reads_as_now: "answered now e \<Longrightarrow> reads_as e ds vk_now now"
  by (simp add: reads_as_def now_answered)

lemma reads_sources: "answered now e \<Longrightarrow> reads_as e ds (read_sources addr ks) (map (k_sets (ds addr)) ks)"
  by (induction ks) (auto intro!: reads_as_ret reads_as_bind reads_as_read)

lemma fold_filters: "set (fold (\<lambda>ids allowed. filter (\<lambda>i. i \<in> set ids) allowed) rest base) = {i \<in> set base. \<forall>ids\<in>set rest. i \<in> set ids}"
  "distinct base \<Longrightarrow> distinct (fold (\<lambda>ids allowed. filter (\<lambda>i. i \<in> set ids) allowed) rest base)"
  by (induction rest arbitrary: base) auto

lemma intersect_sources_set:
  assumes "sources \<noteq> []"
  shows "set (intersect_sources sources) = {i. \<forall>ids\<in>set sources. i \<in> set ids}"
    and "(\<And>ids. ids \<in> set sources \<Longrightarrow> distinct ids) \<Longrightarrow> distinct (intersect_sources sources)"
proof -
  obtain base rest where b: "sort_key length sources = base # rest"
    using assms by (metis neq_Nil_conv length_0_conv length_sort)
  have s: "set sources = insert base (set rest)" using arg_cong[OF b, of set] by simp
  show "set (intersect_sources sources) = {i. \<forall>ids\<in>set sources. i \<in> set ids}"
    using fold_filters(1)[of rest base] by (auto simp: intersect_sources_def b s)
  assume "\<And>ids. ids \<in> set sources \<Longrightarrow> distinct ids"
  then show "distinct (intersect_sources sources)" using fold_filters(2)[of base rest] by (simp add: intersect_sources_def b s)
qed

definition indexed_ids :: "vk_db \<Rightarrow> query option \<Rightarrow> string list" where
  "indexed_ids d qo = (if source_keys qo = [] then k_sets d allIndexKey else intersect_sources (map (k_sets d) (source_keys qo)))"

lemma reads_candidates: "answered now e \<Longrightarrow> reads_as e ds (candidateIDsForQuery c sp qo) (indexed_ids (ds (vp_Addr sp)) qo)"
  unfolding candidateIDsForQuery_def indexed_ids_def
  by (auto intro!: reads_as_bind reads_sources reads_as_ret reads_as_read)

lemma candidates_exact:
  assumes "good_vk lib d"
  shows "distinct (indexed_ids d qo)"
    and "i \<in> set (indexed_ids d qo) \<longleftrightarrow> (\<exists>t. doc d i = Some t \<and> set (source_keys qo) \<subseteq> set (index_keys t))"
proof -
  have S: "\<And>k. distinct (k_sets d k)" "\<And>k i. i \<in> set (k_sets d k) \<longleftrightarrow> (\<exists>t. doc d i = Some t \<and> k \<in> set (index_keys t))"
    using assms by (auto simp: good_vk_def sets_exact_def)
  show "distinct (indexed_ids d qo)"
    unfolding indexed_ids_def using S(1) intersect_sources_set(2)[of "map (k_sets d) (source_keys qo)"] by auto
  show "i \<in> set (indexed_ids d qo) \<longleftrightarrow> (\<exists>t. doc d i = Some t \<and> set (source_keys qo) \<subseteq> set (index_keys t))"
  proof (cases "source_keys qo = []")
    case True
    then show ?thesis using S(2) by (auto simp: indexed_ids_def index_keys_iff(1))
  next
    case False
    then obtain k ks where k: "source_keys qo = k # ks" by (cases "source_keys qo") auto
    have "i \<in> set (indexed_ids d qo) \<longleftrightarrow> (\<forall>k\<in>set (source_keys qo). \<exists>t. doc d i = Some t \<and> k \<in> set (index_keys t))"
      using False intersect_sources_set(1)[of "map (k_sets d) (source_keys qo)"] S(2) by (simp add: indexed_ids_def)
    then show ?thesis unfolding k by auto
  qed
qed

section \<open>Reading the candidates\<close>

text \<open>The agents of a server that a query of the shard is meant to find.\<close>

definition visible :: "lua_lib \<Rightarrow> gotime \<Rightarrow> vk_spec \<Rightarrow> vk_db \<Rightarrow> query option \<Rightarrow> agent set" where
  "visible lib now sp d qo = {t \<lparr> a_ShardID := vp_ShardID sp \<rparr> | t. \<exists>i raw. doc d i = Some raw \<and>
     decodeAgent lib (LuaText raw) = Inr t \<and> \<not> vk_isExpired t now \<and> vk_matches t qo}"

definition found_at :: "lua_lib \<Rightarrow> gotime \<Rightarrow> vk_spec \<Rightarrow> vk_db \<Rightarrow> string \<Rightarrow> agent option" where
  "found_at lib now sp d i = map_option (\<lambda>t. t \<lparr> a_ShardID := vp_ShardID sp \<rparr>) (decoded_live lib now (doc d i))"

lemma found_list:
  "map (\<lambda>(_, r). (the r) \<lparr> a_ShardID := k \<rparr>) (filter (\<lambda>(i, r). r \<noteq> None) (zip ids (map f (map g ids)))) =
     List.map_filter (\<lambda>i. map_option (\<lambda>t. t \<lparr> a_ShardID := k \<rparr>) (f (g i))) ids"
  by (induction ids) (auto simp: List.map_filter_simps split: option.splits)

lemma reads_many:
  assumes "answered now e"
  shows "reads_as e ds (getManyFromShard c sp ids) (List.map_filter (found_at (vc_lib c) now sp (ds (vp_Addr sp))) ids)"
proof (cases "ids = []")
  case True
  then show ?thesis by (simp add: getManyFromShard_def reads_as_ret List.map_filter_simps)
next
  case False
  show ?thesis
    unfolding getManyFromShard_def Let_def
    apply (simp only: False if_False)
    apply (rule reads_as_bind[OF reads_as_read[OF assms]], rule reads_as_bind[OF reads_as_now[OF assms]])
    apply (rule reads_as_bind[OF reads_as_put], simp)
    unfolding found_list found_at_def doc_def by (rule reads_as_ret)
qed

lemma set_map_filter: "set (List.map_filter f xs) = {y. \<exists>x\<in>set xs. f x = Some y}"
  by (auto simp: List.map_filter_def image_iff) force

lemma distinct_map_filter_ids:
  assumes "distinct xs" "\<And>x y. x \<in> set xs \<Longrightarrow> f x = Some y \<Longrightarrow> g y = x"
  shows "distinct (map g (List.map_filter f xs))"
  using assms
proof (induction xs)
  case (Cons a xs)
  have "g y \<noteq> g z" if "f a = Some y" "x \<in> set xs" "f x = Some z" for x y z
  proof -
    have "g y = a" "g z = x" using Cons.prems(2)[of a y] Cons.prems(2)[of x z] that by simp_all
    then show ?thesis using Cons.prems(1) that(2) by auto
  qed
  moreover have "distinct (map g (List.map_filter f xs))" by (rule Cons.IH) (use Cons.prems in auto)
  ultimately show ?case by (cases "f a") (auto simp: List.map_filter_simps set_map_filter)
qed (simp add: List.map_filter_simps)

lemma matches_shard [simp]: "vk_matches (t \<lparr> a_ShardID := k \<rparr>) qo = vk_matches t qo"
  by (cases qo) (simp_all add: vk_matches_def split del: if_split cong: if_cong)

text \<open>What a query reads from one shard, before sorting.\<close>

definition shard_matches :: "lua_lib \<Rightarrow> gotime \<Rightarrow> vk_spec \<Rightarrow> vk_db \<Rightarrow> query option \<Rightarrow> agent list" where
  "shard_matches lib now sp d qo = filter (\<lambda>t. vk_matches t qo) (List.map_filter (found_at lib now sp d) (indexed_ids d qo))"

lemma reads_query_shard:
  assumes "answered now e"
  shows "reads_as e ds (queryShard c sp qo) (sortAgents (shard_matches (vc_lib c) now sp (ds (vp_Addr sp)) qo))"
proof (cases "indexed_ids (ds (vp_Addr sp)) qo = []")
  case True
  then show ?thesis unfolding queryShard_def
    by (intro reads_as_bind[OF reads_candidates[OF assms]]) (simp add: shard_matches_def sortAgents_def List.map_filter_simps reads_as_ret)
next
  case False
  show ?thesis
    unfolding queryShard_def
    apply (rule reads_as_bind[OF reads_candidates[OF assms]])
    apply (simp only: False if_False Let_def)
    apply (rule reads_as_bind[OF reads_many[OF assms]], rule reads_as_bind[OF reads_as_put], simp)
    unfolding shard_matches_def by (rule reads_as_ret)
qed

lemma decoded_live_iff:
  "decoded_live lib now ro = Some t \<longleftrightarrow> (\<exists>raw. ro = Some raw \<and> decodeAgent lib (LuaText raw) = Inr t \<and> \<not> vk_isExpired t now)"
  by (auto simp: decoded_live_def split: option.splits sum.splits)

lemma shard_matches_exact:
  assumes "good_vk lib d"
  shows "set (shard_matches lib now sp d qo) = visible lib now sp d qo" and "distinct (map a_ID (shard_matches lib now sp d qo))"
proof -
  have wf: "wf_doc i raw" if "doc d i = Some raw" for i raw using assms that by (simp add: good_vk_def)
  have mem: "i \<in> set (indexed_ids d qo)" if "doc d i = Some raw" "decodeAgent lib (LuaText raw) = Inr t" "vk_matches t qo" for i raw t
    using that matches_sources[OF wf[OF that(1)] that(2), of qo] candidates_exact(2)[OF assms] by blast
  show "set (shard_matches lib now sp d qo) = visible lib now sp d qo"
  proof (intro set_eqI iffI)
    fix x assume "x \<in> set (shard_matches lib now sp d qo)"
    then show "x \<in> visible lib now sp d qo"
      by (auto simp: shard_matches_def set_map_filter found_at_def decoded_live_iff visible_def) blast
  next
    fix x assume "x \<in> visible lib now sp d qo"
    then show "x \<in> set (shard_matches lib now sp d qo)"
      using mem by (fastforce simp: shard_matches_def set_map_filter found_at_def decoded_live_iff visible_def)
  qed
  have id: "a_ID y = i" if "found_at lib now sp d i = Some y" for i y
    using that wf decoded_fields(1) by (fastforce simp: found_at_def decoded_live_iff wf_doc_def)
  have "distinct (map a_ID (List.map_filter (found_at lib now sp d) (indexed_ids d qo)))"
    by (rule distinct_map_filter_ids[OF candidates_exact(1)[OF assms]]) (simp add: id)
  then show "distinct (map a_ID (shard_matches lib now sp d qo))" by (simp add: shard_matches_def distinct_map_filter)
qed

lemma sorted_sortAgents: "sorted (map (\<lambda>t. (a_CreatedAt t, a_ID t)) (sortAgents ts))"
  by (simp add: sortAgents_def)

lemma set_sortAgents [simp]: "set (sortAgents ts) = set ts"
  by (simp add: sortAgents_def)

lemma distinct_map_sortAgents [simp]: "distinct (map f (sortAgents ts)) \<longleftrightarrow> distinct (map f ts)"
  unfolding sortAgents_def by (metis mset_map mset_sort mset_eq_imp_distinct_iff)

lemma reads_query_specs:
  assumes "answered now e"
  shows "reads_as e ds (query_specs c qo sps)
    (concat (map (\<lambda>sp. sortAgents (shard_matches (vc_lib c) now sp (ds (vp_Addr sp)) qo)) sps))"
  by (induction sps) (auto intro!: reads_as_ret reads_as_bind reads_query_shard[OF assms])

lemma visible_clone [simp]: "visible lib now sp d (cloneQueryWithoutPagination qo) = visible lib now sp d qo"
proof -
  have "vk_matches t (cloneQueryWithoutPagination qo) = vk_matches t qo" for t
    by (cases qo) (simp_all add: vk_matches_def cloneQueryWithoutPagination_def)
  then show ?thesis by (simp add: visible_def)
qed

text \<open>The shards a query reads.\<close>

definition query_shards_of :: "vk_conf \<Rightarrow> query option \<Rightarrow> vk_spec list" where
  "query_shards_of c qo = (case vk_shardFromQuery c qo of Some (Inr sp) \<Rightarrow> [sp] | Some (Inl _) \<Rightarrow> [] | None \<Rightarrow> vc_specs c)"

section \<open>Properties\<close>

text \<open>C12: a query of the Valkey store returns, page by page, the agents it is meant to find: with servers whose
  indexes are exact, the shards the query reads and no lost requests, it sorts by time of creation and id exactly the
  agents of those shards that can be decoded, have not expired and match, and cuts the page out of them.\<close>

theorem VkQuery_correct:
  assumes "answered now e" "vk_shardFromQuery c qo = None \<or> vk_shardFromQuery c qo = Some (Inr sp0)"
    and "\<And>sp. sp \<in> set (query_shards_of c qo) \<Longrightarrow> good_vk (vc_lib c) (vn_servers s (vp_Addr sp))"
  shows "\<exists>ts s'. VkQuery c qo e s = (Inr (applyAgentLimitOffset ts qo), s') \<and> vn_servers s' = vn_servers s \<and>
    set ts = (\<Union>sp\<in>set (query_shards_of c qo). visible (vc_lib c) now sp (vn_servers s (vp_Addr sp)) qo) \<and>
    sorted (map (\<lambda>t. (a_CreatedAt t, a_ID t)) ts) \<and> (length (query_shards_of c qo) = 1 \<longrightarrow> distinct (map a_ID ts))"
proof (cases "vk_shardFromQuery c qo")
  case None
  let ?ds = "vn_servers s" and ?q = "cloneQueryWithoutPagination qo"
  let ?all = "concat (map (\<lambda>sp. sortAgents (shard_matches (vc_lib c) now sp (?ds (vp_Addr sp)) ?q)) (vc_specs c))"
  have "reads_as e ?ds (VkQuery c qo) (applyAgentLimitOffset (sortAgents ?all) qo)"
    unfolding VkQuery_def None option.case by (rule reads_as_bind[OF reads_query_specs[OF assms(1)] reads_as_ret])
  then obtain s' where s': "VkQuery c qo e s = (Inr (applyAgentLimitOffset (sortAgents ?all) qo), s')" "vn_servers s' = ?ds"
    unfolding reads_as_def by blast
  have shards: "query_shards_of c qo = vc_specs c" by (simp add: query_shards_of_def None)
  have "set (shard_matches (vc_lib c) now sp (?ds (vp_Addr sp)) ?q) = visible (vc_lib c) now sp (?ds (vp_Addr sp)) qo"
    if "sp \<in> set (vc_specs c)" for sp
    using shard_matches_exact(1)[OF assms(3)[unfolded shards, OF that], of now sp ?q] by simp
  then have "set (sortAgents ?all) = (\<Union>sp\<in>set (vc_specs c). visible (vc_lib c) now sp (?ds (vp_Addr sp)) qo)"
    by (simp add: sortAgents_def)
  moreover have "distinct (map a_ID (sortAgents ?all))" if one: "length (vc_specs c) = 1"
  proof -
    obtain sp where sp: "vc_specs c = [sp]" using one by (auto simp: length_Suc_conv)
    have "distinct (map a_ID (shard_matches (vc_lib c) now sp (?ds (vp_Addr sp)) ?q))"
      by (rule shard_matches_exact(2)[OF assms(3)]) (simp add: shards sp)
    then show ?thesis by (simp add: sp distinct_map_sortAgents)
  qed
  ultimately show ?thesis
    unfolding shards by (intro exI[of _ "sortAgents ?all"] exI[of _ s']) (simp add: s' sorted_sortAgents)
next
  case (Some r)
  then have sp: "vk_shardFromQuery c qo = Some (Inr sp0)" using assms(2) by simp
  let ?ts = "sortAgents (shard_matches (vc_lib c) now sp0 (vn_servers s (vp_Addr sp0)) qo)"
  have shards: "query_shards_of c qo = [sp0]" by (simp add: query_shards_of_def sp)
  note good = assms(3)[unfolded shards, of sp0, simplified]
  have "reads_as e (vn_servers s) (VkQuery c qo) (applyAgentLimitOffset ?ts qo)"
    unfolding VkQuery_def sp option.case
    by (intro reads_as_bind[of _ _ _ sp0] reads_as_bind[OF reads_query_shard[OF assms(1)]] reads_as_ret)
      (simp add: reads_as_def vk_lift_def)
  then obtain s' where "VkQuery c qo e s = (Inr (applyAgentLimitOffset ?ts qo), s')" "vn_servers s' = vn_servers s"
    unfolding reads_as_def by blast
  then show ?thesis
    unfolding shards using shard_matches_exact[OF good, of now sp0 qo]
    by (intro exI[of _ ?ts] exI[of _ s']) (simp add: sorted_sortAgents distinct_map_sortAgents set_sortAgents)
qed

theorem VkQuery_correct_witness:
  "\<exists>ts s'. VkQuery vk_demo_conf (Some (empty_query \<lparr> q_Kind := ''job'' \<rparr>)) (vk_quiet (30 * Second)) (vk_demo_node vk_demo) =
     (Inr (applyAgentLimitOffset ts (Some (empty_query \<lparr> q_Kind := ''job'' \<rparr>))), s') \<and> ''a'' \<in> a_ID ` set ts \<and> distinct (map a_ID ts)"
proof -
  let ?q = "Some (empty_query \<lparr> q_Kind := ''job'' \<rparr>)" and ?raw = "cjson_encode demo_lib (normalize_agent (vk_demo_agent ''a'' 10))"
  have c: "vk_shardFromQuery vk_demo_conf ?q = Some (Inr vk_demo_spec)" "vc_lib vk_demo_conf = demo_lib"
    "vn_servers (vk_demo_node vk_demo) = (\<lambda>_. vk_demo)"
    by (simp_all add: vk_shardFromQuery_def vk_isSharded_def first_shard_def vk_demo_conf_def vk_demo_node_def)
  have sh: "query_shards_of vk_demo_conf ?q = [vk_demo_spec]" by (simp add: query_shards_of_def c(1))
  have a: "answered (30 * Second) (vk_quiet (30 * Second))" by (simp add: answered_def vk_quiet_def)
  have "is_ok (decodeAgent demo_lib (LuaText ?raw))"
    by (simp add: decodeAgent_def unmarshal_agent_def Let_def vk_demo_agent_values) (simp add: demo_lib_def)
  then obtain t where t: "decodeAgent demo_lib (LuaText ?raw) = Inr t" by (elim is_okE)
  have "t \<lparr> a_ShardID := vp_ShardID vk_demo_spec \<rparr> \<in> visible demo_lib (30 * Second) vk_demo_spec vk_demo ?q"
  proof -
    have "vk_matches t ?q" "\<not> vk_isExpired t (30 * Second)"
      using decoded_fields(2,11)[OF t] by (simp_all add: vk_matches_def empty_query_def vk_isExpired_def vk_demo_agent_values)
    then show ?thesis unfolding visible_def using t doc_vk_demo by auto
  qed
  moreover have "a_ID t = ''a''" using decoded_fields(1)[OF t] by simp
  moreover obtain ts s' where r: "VkQuery vk_demo_conf ?q (vk_quiet (30 * Second)) (vk_demo_node vk_demo) = (Inr (applyAgentLimitOffset ts ?q), s')"
    "set ts = (\<Union>sp\<in>set [vk_demo_spec]. visible demo_lib (30 * Second) sp vk_demo ?q)" "length [vk_demo_spec] = 1 \<longrightarrow> distinct (map a_ID ts)"
    using VkQuery_correct[OF a, of vk_demo_conf ?q vk_demo_spec "vk_demo_node vk_demo", unfolded sh c, OF _ good_vk_demo] by blast
  ultimately have "''a'' \<in> a_ID ` set ts" by (intro image_eqI[of _ _ "t \<lparr> a_ShardID := vp_ShardID vk_demo_spec \<rparr>"]) simp_all
  then show ?thesis using r(1,3) by (intro exI[of _ ts] exI[of _ s']) simp
qed

end
