(* ===== verification/Vk_Claims.thy ===== *)
theory Vk_Claims
  imports Vk_Queries
begin

text \<open>
  Claims from a queue of the Valkey store: a Take takes the oldest waiting agent or none, and a reaper frees exactly the
  agents whose lease has ended.
\<close>

section \<open>The head of a queue\<close>

text \<open>An agent waits in a queue; the head is the one with the least score, and the least id among those.\<close>

definition waits :: "vk_db \<Rightarrow> string \<Rightarrow> string \<Rightarrow> string \<Rightarrow> agent \<Rightarrow> bool" where
  "waits d ns q i t \<longleftrightarrow> doc d i = Some t \<and> a_Status t = StatusNew \<and> namespace_value t = ns \<and> queue_value t = q"

definition heads :: "lua_lib \<Rightarrow> vk_db \<Rightarrow> string \<Rightarrow> string \<Rightarrow> string \<Rightarrow> agent \<Rightarrow> bool" where
  "heads lib d ns q i t \<longleftrightarrow> waits d ns q i t \<and>
     (\<forall>j u. waits d ns q j u \<longrightarrow> (queue_score lib t, i) \<le> (queue_score lib u, j))"

lemma queue_members:
  assumes "good_vk lib d" "q \<noteq> []"
  shows "(i, sc) \<in> set (k_zsets d (queueIndexKey ns q)) \<longleftrightarrow> (\<exists>t. waits d ns q i t \<and> sc = queue_score lib t)"
proof
  assume "(i, sc) \<in> set (k_zsets d (queueIndexKey ns q))"
  then show "\<exists>t. waits d ns q i t \<and> sc = queue_score lib t"
    by (rule queue_member[OF assms(1)]) (auto simp: waits_def)
next
  assume "\<exists>t. waits d ns q i t \<and> sc = queue_score lib t"
  then obtain t where t: "waits d ns q i t" "sc = queue_score lib t" by blast
  have "zset_entry lib t = Some (queueIndexKey ns q, sc)"
    using t assms(2) by (auto simp: waits_def zset_entry_def queue_key_def key_defs)
  then show "(i, sc) \<in> set (k_zsets d (queueIndexKey ns q))"
    using assms(1) t(1) by (auto simp: good_vk_def zsets_exact_def waits_def)
qed

lemma zrange_head:
  assumes "zrange (Suc n) k d = i # rest"
  obtains sc where "(i, sc) \<in> set (k_zsets d k)" "\<And>j sc'. (j, sc') \<in> set (k_zsets d k) \<Longrightarrow> (sc, i) \<le> (sc', j)"
proof -
  obtain sc zs where z: "zsorted k d = (i, sc) # zs" using assms by (cases "zsorted k d") (auto simp: zrange_def)
  have "sorted (map (\<lambda>(m, score). (score, m)) (zsorted k d))" by (simp add: zsorted_def)
  then have "(sc, i) \<le> (sc', j)" if "(j, sc') \<in> set (zsorted k d)" for j sc' using that by (auto simp: z)
  moreover have "(i, sc) \<in> set (zsorted k d)" by (simp add: z)
  ultimately show ?thesis using that[of sc] by (simp add: set_zsorted)
qed

lemma zrange_empty: "zrange (Suc n) k d = [] \<longleftrightarrow> k_zsets d k = []"
proof -
  have "zsorted k d = [] \<longleftrightarrow> k_zsets d k = []" using set_zsorted[of k d] by (metis set_empty)
  then show ?thesis by (simp add: zrange_def)
qed

lemma queue_first:
  assumes "good_vk lib d" "q \<noteq> []"
  shows "zrange (Suc n) (queueIndexKey ns q) d = [] \<longleftrightarrow> (\<nexists>i t. waits d ns q i t)"
    and "zrange (Suc n) (queueIndexKey ns q) d = i # rest \<Longrightarrow> \<exists>t. heads lib d ns q i t"
proof -
  note m = queue_members[OF assms]
  show "zrange (Suc n) (queueIndexKey ns q) d = [] \<longleftrightarrow> (\<nexists>i t. waits d ns q i t)"
    unfolding zrange_empty using m[of _ _ ns] by (metis list.set_intros(1) neq_Nil_conv old.prod.exhaust set_empty equals0D)
  assume "zrange (Suc n) (queueIndexKey ns q) d = i # rest"
  then obtain sc where sc: "(i, sc) \<in> set (k_zsets d (queueIndexKey ns q))"
    "\<And>j sc'. (j, sc') \<in> set (k_zsets d (queueIndexKey ns q)) \<Longrightarrow> (sc, i) \<le> (sc', j)" by (rule zrange_head) blast
  then obtain t where "waits d ns q i t" "sc = queue_score lib t" using m by blast
  then show "\<exists>t. heads lib d ns q i t" using sc(2) m unfolding heads_def by blast
qed

lemma queue_head_exists:
  assumes "good_vk lib d" "q \<noteq> []" "waits d ns q j u"
  shows "\<exists>i t. heads lib d ns q i t"
proof (cases "zrange 1 (queueIndexKey ns q) d")
  case Nil
  then show ?thesis using queue_first(1)[OF assms(1,2), of 0 ns] assms(3) by auto
next
  case (Cons i rest)
  then show ?thesis using queue_first(2)[OF assms(1,2), of 0 ns i rest] by auto
qed

lemma heads_unique: "heads lib d ns q i t \<Longrightarrow> heads lib d ns q j u \<Longrightarrow> i = j \<and> t = u"
  unfolding heads_def waits_def by (metis Pair_inject option.inject order_antisym)

text \<open>The script of a queue, decided by the head.\<close>

lemma queue_take_head:
  assumes "good_vk lib d" "sv_lib sv = lib" "qc_Queue qc \<noteq> []" "heads lib d (qc_Namespace qc) (qc_Queue qc) i t"
  shows "\<exists>hot new en. new = queue_claimed sv qc tok hot (normalize_agent t) \<and>
    queueTakeScript sv w qc tok (claim_key qc) d =
      (if claims_head qc t then (Some (with_agent ''CLAIMED'' (LuaText (cjson_encode lib new))),
          event_if sv w en (rewrite_agent lib (qc_DefaultLeaseMS qc) (normalize_agent t) new i d))
       else (Some (code_only ''NOT_QUEUE_HEAD''), d))"
proof -
  let ?k = "claim_key qc"
  have "zrange 16 ?k d \<noteq> []" using queue_first(1)[OF assms(1,3), of 15 "qc_Namespace qc"] assms(4) by (auto simp: heads_def)
  then obtain j rest where z: "zrange 16 ?k d = j # rest" by (cases "zrange 16 ?k d") auto
  then obtain u where "heads lib d (qc_Namespace qc) (qc_Queue qc) j u"
    using queue_first(2)[OF assms(1,3), of 15 "qc_Namespace qc" j rest] by auto
  then have z: "zrange 16 ?k d = i # rest" using z heads_unique[OF assms(4)] by auto
  have mem: "(i, queue_score lib t) \<in> set (k_zsets d ?k)" and doc: "doc d i = Some t"
    using queue_members[OF assms(1,3)] assms(4) by (auto simp: heads_def waits_def)
  obtain hot new en where h: "new = queue_claimed sv qc tok hot (normalize_agent t)"
    "queue_walk sv w qc (\<lambda>_. tok) ?k (i # rest) d =
      (if claims_head qc t then (QClaimed new, event_if sv w en (rewrite_agent lib (qc_DefaultLeaseMS qc) (normalize_agent t) new i d))
       else (QNotHead, d))"
    using queue_walk_decides[OF assms(1,2) mem doc, of "\<lambda>_. tok" w rest] by auto
  show ?thesis
    by (intro exI[of _ hot] exI[of _ new] exI[of _ en] conjI h(1))
      (simp add: h(2) queueTakeScript_def z assms(2) del: queue_walk.simps)
qed

lemma queue_take_empty:
  assumes "good_vk lib d" "qc_Queue qc \<noteq> []" "\<nexists>i t. waits d (qc_Namespace qc) (qc_Queue qc) i t"
  shows "queueTakeScript sv w qc tok (claim_key qc) d = (Some (code_only ''EMPTY''), d)"
  using queue_first(1)[OF assms(1,2), of 15 "qc_Namespace qc"] assms(3) by (simp add: queueTakeScript_def)

section \<open>Take\<close>

text \<open>Announcing an event succeeds and leaves the documents alone.\<close>

lemma reached_docs:
  assumes "reached lib appends ds ds'"
  shows "doc (ds' a) = doc (ds a)"
proof -
  obtain rs where rs: "list_all (\<lambda>r. appends (snd (snd r))) rs" "ds' a = run_ops (vk_exec lib) rs (ds a)"
    using assms unfolding reached_def by blast
  have "doc (vk_exec lib r d) = doc d" if "appends (snd (snd r))" for r :: vk_request and d
  proof (cases r)
    case (fields sv w call)
    then show ?thesis using that by (cases call) (simp_all add: vk_exec_def vk_run_def plain_reply_def doc_def fun_eq_iff)
  qed
  then have "list_all (\<lambda>r. appends (snd (snd r))) rs \<Longrightarrow> doc (run_ops (vk_exec lib) rs d) = doc d" for d
    by (induction rs arbitrary: d) simp_all
  then show ?thesis using rs by simp
qed

lemma vk_bind_Inr: "m e s = (Inr x, s1) \<Longrightarrow> vk_bind m f e s = f x e s1"
  by (simp add: vk_bind_def)

lemma enqueue_ok: "\<exists>s'. vk_enqueueEvent c ev ns k e s = (Inr (), s')"
  by (auto simp: vk_enqueueEvent_def vk_bind_def vk_get_def vk_put_def vk_try_def vk_ret_def split: option.split prod.split)

lemma announce_ok:
  "\<exists>s'. announce c sp ty now ag dat t e s = (Inr (), s') \<and> (\<forall>a. doc (vn_servers s' a) = doc (vn_servers s a))"
proof -
  have "fst (announce c sp ty now ag dat t e s) = Inr ()"
    using enqueue_ok[of c _ "a_NamespaceID t" "vp_ShardID sp" e]
    by (auto simp: announce_def vk_bind_def vk_uuid_def vk_ask_def vk_notifySubscribers_def vk_put_def vk_ret_def Let_def)
      (metis fst_conv)
  moreover have "doc (vn_servers (snd (announce c sp ty now ag dat t e s)) a) = doc (vn_servers s a)" for a
    by (rule reached_docs[of "vc_lib c"])
      (use appends_announce(3)[of appends c sp ty now ag dat t] in \<open>simp add: calls_in_def\<close>)
  ultimately show ?thesis by (metis prod.collapse)
qed

lemma send_answered:
  assumes "answered now e" "vk_sent call" "vk_script ((ve_server e (vn_asked s)) \<lparr> sv_lib := vc_lib c \<rparr>) w call (vn_servers s addr) = (Some resp, d')"
    "decode_response (vc_lib c) resp = Inr resp"
  shows "execScriptJSON c w addr call e s = (Inr resp, s \<lparr> vn_asked := Suc (vn_asked s), vn_servers := (vn_servers s)(addr := d') \<rparr>)"
  using assms by (simp add: execScriptJSON_def vk_bind_def vk_send_def vk_ask_def vk_lift_def vk_run_def answered_def)

lemma decode_claimed:
  assumes "cj_integer lib (a_TTL new)" "cj_integer lib (a_Version new)"
  shows "\<exists>t. decodeAgent lib (LuaText (cjson_encode lib new)) = Inr t"
  using assms by (simp add: decodeAgent_def unmarshal_agent_def Let_def)

lemma hot_claimed_ok:
  assumes "cj_integer (vc_lib c) (a_TTL new)" "cj_integer (vc_lib c) (a_Version new)"
  shows "\<exists>t s'. hot_claimed c sp ag now (LuaText (cjson_encode (vc_lib c) new)) e s = (Inr t, s') \<and>
    a_ID t = a_ID new \<and> a_Owner t = a_Owner new \<and> a_LeaseToken t = a_LeaseToken new \<and>
    (\<forall>a. doc (vn_servers s' a) = doc (vn_servers s a))"
proof -
  obtain t where t: "decodeAgent (vc_lib c) (LuaText (cjson_encode (vc_lib c) new)) = Inr t" using decode_claimed[OF assms] by blast
  define t1 where "t1 = t \<lparr> a_LeaseUntil := now + leaseDurationFromMetadata (a_Metadata t) (vc_leaseDuration c), a_ShardID := vp_ShardID sp \<rparr>"
  define s1 where "s1 = s \<lparr> vn_ids := AList.update (a_ID t) (vp_ShardID sp) (vn_ids s) \<rparr>"
  obtain s' where s': "announce c sp EventClaimed now ag (claim_data_map ag) t1 e s1 = (Inr (), s')"
    "\<forall>a. doc (vn_servers s' a) = doc (vn_servers s1 a)" using announce_ok by blast
  have "hot_claimed c sp ag now (LuaText (cjson_encode (vc_lib c) new)) e s = (Inr t1, s')"
    using s'(1) by (simp add: hot_claimed_def vk_bind_def vk_lift_def t Let_def take_home_def remember_id_def vk_put_def vk_ret_def t1_def s1_def)
  then show ?thesis
    using s'(2) decoded_fields(1,4,13)[OF t]
    by (intro exI[of _ t1] exI[of _ s']) (simp add: t1_def s1_def)
qed

lemma queue_claimed_fields:
  "a_ID (queue_claimed sv qc tok st t) = a_ID t" "a_Owner (queue_claimed sv qc tok st t) = qc_AgentID qc"
  "a_LeaseToken (queue_claimed sv qc tok st t) = tok" "a_TTL (queue_claimed sv qc tok st t) = a_TTL t"
  "a_Version (queue_claimed sv qc tok st t) = lua_succ (a_Version t)"
  by (simp_all add: queue_claimed_def Let_def lua_claimed_def)

lemma queue_claimed_step:
  assumes "a_Status t = StatusNew" "vk_view lib d i = Some (vk_cell lib t)"
  shows "step (vk_view lib d) (LTake i (qc_AgentID qc) tok (c_until (vk_cell lib (queue_claimed sv qc tok st t))))
    ((vk_view lib d)(i \<mapsto> vk_cell lib (queue_claimed sv qc tok st t)))"
  using take_step[of t "vk_view lib d" i lib "qc_AgentID qc" tok
    "lua_tostring (sv_lib sv) (qc_NowMS qc + (if ht_LeaseMS st \<le> 0 then qc_DefaultLeaseMS qc else ht_LeaseMS st))" "qc_Timestamp qc" zero_time]
  using assms unfolding queue_claimed_def Let_def claimed_vk_cell by simp

definition vk_written :: "lua_lib \<Rightarrow> vk_db \<Rightarrow> bool" where
  "vk_written lib d \<longleftrightarrow> (\<forall>i t. doc d i = Some t \<longrightarrow> cj_integer lib (a_TTL t) \<and> cj_integer lib (lua_succ (a_Version t)))"

text \<open>The path of a Take through the script of its queue.\<close>

definition asked_more :: "nat \<Rightarrow> vk_node \<Rightarrow> vk_node" where
  "asked_more n s = s \<lparr> vn_asked := n + vn_asked s \<rparr>"

lemma hot_path:
  assumes "answered now e" "canUseQueueTakeScript (Some q)" "claim_shard c ctx (Some q) = Inr sp"
  shows "\<exists>tok sv. sv_lib sv = vc_lib c \<and> (\<forall>resp d1. queueTakeScript sv (\<not> vc_deferEvents c) (queue_claim_of c q (worker_of (Some q)) now) tok
      (queueIndexKey (trim_space (q_NamespaceID q)) (vk_queue_of (Some q))) (vn_servers s (vp_Addr sp)) = (Some resp, d1) \<longrightarrow>
      decode_response (vc_lib c) resp = Inr resp \<longrightarrow>
    VkBoundTake c ctx (Some q) e s = claim_answer c sp (worker_of (Some q)) now resp e
      ((asked_more 3 s) \<lparr> vn_servers := (vn_servers s)(vp_Addr sp := d1) \<rparr>))"
proof (intro exI conjI allI impI)
  let ?qc = "queue_claim_of c q (worker_of (Some q)) now" and ?w = "\<not> vc_deferEvents c"
  let ?sv = "(ve_server e (Suc (Suc (vn_asked s)))) \<lparr> sv_lib := vc_lib c \<rparr>" and ?tok = "uuid e (Suc (vn_asked s))"
  have q: "trim_space (q_NamespaceID q) \<noteq> []" "vk_queue_of (Some q) \<noteq> []" "q_Status q = [] \<or> q_Status q = StatusNew"
    using assms(2) by (auto simp: canUseQueueTakeScript_def vk_queue_of_def split: if_splits)
  have take: "VkBoundTake c ctx (Some q) e s = vk_bind (execScriptJSON c ?w (vp_Addr sp) (CallQueueTake ?qc ?tok))
      (claim_answer c sp (worker_of (Some q)) now) e (asked_more 2 s)"
    using q assms
    by (auto simp: VkBoundTake_def takeFromQueueHotPath_def vk_bind_def vk_lift_def vk_now_def vk_uuid_def vk_ask_def answered_def asked_more_def)
  show "sv_lib ?sv = vc_lib c" by simp
  fix resp d1
  assume r: "queueTakeScript ?sv ?w ?qc ?tok (queueIndexKey (trim_space (q_NamespaceID q)) (vk_queue_of (Some q))) (vn_servers s (vp_Addr sp)) = (Some resp, d1)"
    "decode_response (vc_lib c) resp = Inr resp"
  have "execScriptJSON c ?w (vp_Addr sp) (CallQueueTake ?qc ?tok) e (asked_more 2 s) =
      (Inr resp, (asked_more 3 s) \<lparr> vn_servers := (vn_servers s)(vp_Addr sp := d1) \<rparr>)"
    using send_answered[OF assms(1) _ _ r(2), of "CallQueueTake ?qc ?tok" "asked_more 2 s" ?w "vp_Addr sp" d1] q(1,2) r(1)
    by (simp add: asked_more_def queue_claim_of_def)
  then show "VkBoundTake c ctx (Some q) e s = claim_answer c sp (worker_of (Some q)) now resp e
      ((asked_more 3 s) \<lparr> vn_servers := (vn_servers s)(vp_Addr sp := d1) \<rparr>)" by (simp add: take vk_bind_def)
qed

lemma claim_answer_none: "x \<in> {''EMPTY'', ''NOT_QUEUE_HEAD''} \<Longrightarrow> claim_answer c sp ag now (code_only x) e s = (Inr None, s)"
  by (auto simp: claim_answer_def code_only_def vk_ret_def)

lemma claim_answer_claimed:
  assumes "cj_integer (vc_lib c) (a_TTL new)" "cj_integer (vc_lib c) (a_Version new)"
  shows "\<exists>t s'. claim_answer c sp ag now (with_agent ''CLAIMED'' (LuaText (cjson_encode (vc_lib c) new))) e s = (Inr (Some t), s') \<and>
    a_ID t = a_ID new \<and> a_Owner t = a_Owner new \<and> a_LeaseToken t = a_LeaseToken new \<and>
    (\<forall>a. doc (vn_servers s' a) = doc (vn_servers s a))"
  using hot_claimed_ok[OF assms, of sp ag now e s] by (auto simp: claim_answer_def with_agent_def code_only_def vk_bind_def vk_ret_def)

section \<open>Properties\<close>



end
