(* ===== verification/Vk_Findings.thy ===== *)
theory Vk_Findings
  imports Vk_Claims
begin

text \<open>
  Where the Valkey store does not do what its interface promises.
\<close>

section \<open>Answers\<close>

text \<open>The codes of the answers to a sequence of requests.\<close>

fun vk_codes :: "lua_lib \<Rightarrow> vk_request list \<Rightarrow> vk_db \<Rightarrow> string option list" where
  "vk_codes lib [] d = []"
| "vk_codes lib (r # rs) d = map_option sr_Code (fst (vk_run lib r d)) # vk_codes lib rs (vk_exec lib r d)"

lemma updated_fields:
  assumes "map_of (or_nil updates) ''status'' = None"
  shows "a_ID (updated_agent t updates now k) = a_ID t" "a_Status (updated_agent t updates now k) = a_Status t"
proof -
  have n: "a_ID (normalizeAgentMetadata x k) = a_ID x" "a_Status (normalizeAgentMetadata x k) = a_Status x" for x
    by (simp_all add: normalizeAgentMetadata_def Let_def split_beta)
  have "a_Status (ApplyUpdates t updates) = a_Status t"
    using assms by (auto simp: ApplyUpdates_def upd_status_def split: option.splits)
  then show "a_ID (updated_agent t updates now k) = a_ID t" "a_Status (updated_agent t updates now k) = a_Status t"
    by (simp_all add: updated_agent_def Let_def n)
qed

section \<open>Properties\<close>

text \<open>C29: an Update of the Valkey store can undo a claim: it writes back the agent it read, so that an Update that read
  a NEW agent before a worker claimed it makes the agent NEW again, without an error for anyone; a second worker can then
  claim it, and the first one, whose lease has not ended, is refused when it completes.\<close>

theorem stale_update_undoes_claim:
  assumes "doc d i = Some t" "a_ID t = i" "a_Status t = StatusNew" "decodeAgent lib (LuaText t) = Inr current"
    and "map_of (or_nil updates) ''status'' = None" "tok1 \<noteq> tok2" "w1 \<noteq> []" "tok1 \<noteq> []"
  shows "vk_codes lib (map (\<lambda>call. (sv, w, call)) [CallClaim i w1 tok1 ts1 u1, CallUpdate (updated_agent current updates ts2 k) ts2 ag dat,
      CallClaim i w2 tok2 ts3 u3, CallComplete i w1 tok1 res rj ts4]) d =
    [Some ''CLAIMED'', Some ''UPDATED'', Some ''CLAIMED'', Some (if w1 = w2 then ''LEASE_TOKEN_MISMATCH'' else ''OWNER_MISMATCH'')]"
proof -
  have f: "a_ID (updated_agent current updates ts2 k) = i" "a_Status (updated_agent current updates ts2 k) = StatusNew"
    using updated_fields[OF assms(5)] decoded_fields(1,3)[OF assms(4)] assms(2,3) by simp_all
  show ?thesis
    using assms(1,3,6-8) by (simp add: f script_eval updateScript_def)
qed

theorem stale_update_undoes_claim_witness:
  "\<exists>current. decodeAgent demo_lib (LuaText (the (doc vk_demo ''a''))) = Inr current \<and>
     vk_codes demo_lib (map (\<lambda>call. (demo_server, True, call)) [CallClaim ''a'' ''w1'' ''t1'' 30 330, CallUpdate (updated_agent current None 31 []) 31 [] JNull,
      CallClaim ''a'' ''w2'' ''t2'' 32 332, CallComplete ''a'' ''w1'' ''t1'' [] JNull 33]) vk_demo =
    [Some ''CLAIMED'', Some ''UPDATED'', Some ''CLAIMED'', Some ''OWNER_MISMATCH'']"
proof -
  let ?raw = "cjson_encode demo_lib (normalize_agent (vk_demo_agent ''a'' 10))"
  have d: "doc vk_demo ''a'' = Some ?raw" by (simp add: doc_vk_demo)
  have "is_ok (decodeAgent demo_lib (LuaText ?raw))"
    by (simp add: decodeAgent_def unmarshal_agent_def Let_def vk_demo_agent_values) (simp add: demo_lib_def)
  then obtain t where t: "decodeAgent demo_lib (LuaText ?raw) = Inr t" by (elim is_okE)
  have u: "map_of (or_nil (None :: gval gomap option)) ''status'' = None" by simp
  have "vk_codes demo_lib (map (\<lambda>call. (demo_server, True, call)) [CallClaim ''a'' ''w1'' ''t1'' 30 330, CallUpdate (updated_agent t None 31 []) 31 [] JNull,
      CallClaim ''a'' ''w2'' ''t2'' 32 332, CallComplete ''a'' ''w1'' ''t1'' [] JNull 33]) vk_demo =
    [Some ''CLAIMED'', Some ''UPDATED'', Some ''CLAIMED'', Some (if ''w1'' = ''w2'' then ''LEASE_TOKEN_MISMATCH'' else ''OWNER_MISMATCH'')]"
    by (rule stale_update_undoes_claim[OF d _ _ t u]) simp_all
  then show ?thesis using t d by (intro exI[of _ t]) simp
qed



end
