(* ===== verification/Mig_Loader.thy ===== *)
theory Mig_Loader
  imports Store_Common "HOL-Library.Sublist" "HOL-Library.List_Lexorder" "HOL-Library.Char_ord" "HOL-Library.Product_Lexorder"
begin

text \<open>
  The migration files of \<^verbatim>\<open>pkg/store/migrations\<close> (\<^verbatim>\<open>loader.go\<close>, \<^verbatim>\<open>result.go\<close>): their names and order, the directive that takes
  a file out of a transaction, and the scanner that counts the SQL statements of such a file.

  The embedded file system is a list of paths with contents, and \<^verbatim>\<open>sha256\<close> is a parameter.  The files are ASCII text.
\<close>

definition DirectionUp :: string where "DirectionUp = ''up''"
definition DirectionDown :: string where "DirectionDown = ''down''"
definition BackendPostgres :: string where "BackendPostgres = ''postgres''"
definition BackendSQLite :: string where "BackendSQLite = ''sqlite''"

definition SchemaTargetVersion :: int where "SchemaTargetVersion = 17"
definition SchemaMinCompatVersion :: int where "SchemaMinCompatVersion = SchemaTargetVersion - 1"

record mig_spec =
  ms_Backend :: string
  ms_Version :: int
  ms_Name :: string
  ms_Direction :: string
  ms_File :: string
  ms_SQL :: string
  ms_Checksum :: string
  ms_Transactional :: bool

section \<open>Scanning SQL\<close>

definition newline :: char where "newline = CHR 0x0A"
definition quote :: char where "quote = CHR 0x27"
definition dquote :: char where "dquote = CHR 0x22"

text \<open>The text after the closing quote; a doubled quote stands for itself.\<close>

fun scanQuotedString :: "char \<Rightarrow> string \<Rightarrow> string option" where
  "scanQuotedString q [] = None"
| "scanQuotedString q (c # cs) =
    (if c \<noteq> q then scanQuotedString q cs
     else case cs of d # ds \<Rightarrow> if d = q then scanQuotedString q ds else Some cs | [] \<Rightarrow> Some [])"

definition tag_char :: "char \<Rightarrow> bool" where
  "tag_char c \<longleftrightarrow> is_digit c \<or> c = CHR ''_'' \<or> 97 \<le> (of_char (lower_char c) :: nat) \<and> (of_char (lower_char c) :: nat) \<le> 122"

definition matchDollarQuote :: "string \<Rightarrow> string option" where
  "matchDollarQuote s = (case s of
     [] \<Rightarrow> None
   | c # cs \<Rightarrow>
       if c \<noteq> CHR ''$'' \<or> CHR ''$'' \<notin> set cs then None
       else let name = takeWhile (\<lambda>x. x \<noteq> CHR ''$'') cs
            in if list_all tag_char name then Some (''$'' @ name @ ''$'') else None)"

text \<open>Where the scanner is: between tokens, in a comment, or in a text between dollar quotes.\<close>

datatype scan_mode = Plain | InLine | InBlock nat | InDollar string

definition unterminated :: store_error where
  "unterminated = ErrOther ''unterminated SQL construct''"

lemma scanQuotedString_shorter: "scanQuotedString q s = Some r \<Longrightarrow> length r < length s"
  by (induction q s arbitrary: r rule: scanQuotedString.induct) (fastforce split: if_splits list.splits)+

text \<open>\<open>h\<close>: the current statement has content; \<open>n\<close>: the statements before it.\<close>

function scan_sql :: "scan_mode \<Rightarrow> bool \<Rightarrow> nat \<Rightarrow> string \<Rightarrow> store_error + nat" where
  "scan_sql m h n [] = (if m \<noteq> Plain then Inl unterminated else Inr (if h then Suc n else n))"
| "scan_sql InLine h n (c # cs) = scan_sql (if c = newline then Plain else InLine) h n cs"
| "scan_sql (InBlock d) h n (c # cs) =
    (if prefix ''/*'' (c # cs) then scan_sql (InBlock (Suc d)) h n (tl cs)
     else if prefix ''*/'' (c # cs) then scan_sql (if d \<le> 1 then Plain else InBlock (d - 1)) h n (tl cs)
     else scan_sql (InBlock d) h n cs)"
| "scan_sql (InDollar tag) h n (c # cs) =
    (if prefix tag (c # cs) then scan_sql Plain h n (drop (length tag - 1) cs) else scan_sql (InDollar tag) h n cs)"
| "scan_sql Plain h n (c # cs) =
    (if prefix ''--'' (c # cs) then scan_sql InLine h n (tl cs)
     else if prefix ''/*'' (c # cs) then scan_sql (InBlock 1) h n (tl cs)
     else if c = quote \<or> c = dquote then
       (case scanQuotedString c cs of
          None \<Rightarrow> Inl (ErrOther ''unterminated quoted string'')
        | Some rest \<Rightarrow> scan_sql Plain True n rest)
     else if c = CHR ''$'' then
       (case matchDollarQuote (c # cs) of
          Some tag \<Rightarrow> scan_sql (InDollar tag) True n (drop (length tag - 1) cs)
        | None \<Rightarrow> scan_sql Plain True n cs)
     else if c = CHR '';'' then scan_sql Plain False (if h then Suc n else n) cs
     else scan_sql Plain (h \<or> \<not> is_space c) n cs)"
  by pat_completeness auto
termination
  by (relation "measure (\<lambda>(m, h, n, s). length s)") (auto dest: scanQuotedString_shorter)

definition countTopLevelSQLStatements :: "string \<Rightarrow> store_error + nat" where
  "countTopLevelSQLStatements sqlText = scan_sql Plain False 0 sqlText"

section \<open>Loading\<close>

definition nontransactional_mark :: string where
  "nontransactional_mark = ''-- migrate:nontransactional''"

definition parseMigrationSQL :: "string \<Rightarrow> string \<times> bool" where
  "parseMigrationSQL raw =
    (let lines = split_on newline raw;
         marked = (\<lambda>line. trim_space line = nontransactional_mark)
     in (join_with [newline] (filter (\<lambda>line. \<not> marked line) lines), \<not> list_ex marked lines))"

definition validateSpec :: "mig_spec \<Rightarrow> store_error option" where
  "validateSpec sp =
    (if ms_Backend sp \<noteq> BackendPostgres \<or> ms_Transactional sp then None
     else case countTopLevelSQLStatements (ms_SQL sp) of
       Inl er \<Rightarrow> Some er
     | Inr n \<Rightarrow> if n \<noteq> 1 then Some (ErrOther ''non-transactional postgres migrations must contain exactly 1 top-level statement'') else None)"

text \<open>\<^verbatim>\<open>fs.Glob\<close> with the pattern \<^verbatim>\<open>backend/*.direction.sql\<close>.\<close>

definition glob_matches :: "string \<Rightarrow> string \<Rightarrow> string \<Rightarrow> bool" where
  "glob_matches backend direction file \<longleftrightarrow>
    (let pre = backend @ ''/''; rest = drop (length pre) file
     in prefix pre file \<and> suffix (''.'' @ direction @ ''.sql'') rest \<and> CHR ''/'' \<notin> set rest)"

definition invalid_name :: "string \<Rightarrow> store_error" where
  "invalid_name base = ErrOther (''invalid migration filename '' @ base)"

definition load_spec :: "(string \<Rightarrow> string) \<Rightarrow> string \<Rightarrow> string \<Rightarrow> string \<times> string \<Rightarrow> store_error + mig_spec" where
  "load_spec sha256 backend direction entry =
    (let (file, raw) = entry; base = last (split_on (CHR ''/'') file) in
     case split_on (CHR ''.'') base of
       [stem, _, _] \<Rightarrow>
         (case splitN2 (CHR ''_'') stem of
            [num, name] \<Rightarrow>
              (case atoi num of
                 None \<Rightarrow> Inl (ErrOther (''parse migration version from '' @ base))
               | Some version \<Rightarrow>
                   (let (sqlText, transactional) = parseMigrationSQL raw
                    in Inr \<lparr> ms_Backend = backend, ms_Version = version, ms_Name = name, ms_Direction = direction, ms_File = file,
                         ms_SQL = sqlText, ms_Checksum = sha256 raw, ms_Transactional = transactional \<rparr>))
          | _ \<Rightarrow> Inl (invalid_name base))
     | _ \<Rightarrow> Inl (invalid_name base))"

fun load_specs :: "(string \<Rightarrow> string) \<Rightarrow> string \<Rightarrow> string \<Rightarrow> (string \<times> string) list \<Rightarrow> store_error + mig_spec list" where
  "load_specs sha256 backend direction [] = Inr []"
| "load_specs sha256 backend direction (entry # entries) = bindr (load_spec sha256 backend direction entry) (\<lambda>sp.
     bindr (load_specs sha256 backend direction entries) (\<lambda>sps. Inr (sp # sps)))"

text \<open>Specs of one version are ordered by name in both directions.\<close>

definition mig_order :: "string \<Rightarrow> mig_spec \<Rightarrow> int \<times> string" where
  "mig_order direction sp = (if direction = DirectionDown then - ms_Version sp else ms_Version sp, ms_Name sp)"

definition Load :: "(string \<Rightarrow> string) \<Rightarrow> (string \<times> string) list \<Rightarrow> string \<Rightarrow> string \<Rightarrow> store_error + mig_spec list" where
  "Load sha256 migrationFiles backend direction =
    (let backend = to_lower (trim_space backend); direction = to_lower (trim_space direction) in
     if backend \<noteq> BackendPostgres \<and> backend \<noteq> BackendSQLite then Inl (ErrOther (''unsupported migration backend '' @ backend))
     else if direction \<noteq> DirectionUp \<and> direction \<noteq> DirectionDown then Inl (ErrOther (''unsupported migration direction '' @ direction))
     else let files = filter (\<lambda>(file, raw). glob_matches backend direction file) migrationFiles in
       if files = [] then Inl (ErrOther ''no migration files found'')
       else bindr (load_specs sha256 backend direction files) (\<lambda>specs.
         case List.find (\<lambda>sp. validateSpec sp \<noteq> None) specs of
           Some sp \<Rightarrow> Inl (the (validateSpec sp))
         | None \<Rightarrow> Inr (sort_key (mig_order direction) specs)))"

end
