(* ===== verification/Mig_Scan.thy ===== *)
theory Mig_Scan
  imports Mig_Loader
begin

text \<open>
  The scanner for SQL statements against a grammar: a text is written as a list of lexemes, and the statements of the list
  are the groups between semicolons that have content.
\<close>

section \<open>Lexemes\<close>

text \<open>A block comment has parts of text and nested comments.\<close>

datatype bpart = BText string | BNest "bpart list"

datatype lexeme = Blank char | Word string | Semi | LineComment string | BlockComment "bpart list" | Quoted char string
  | Dollar string string

fun part_text :: "bpart \<Rightarrow> string" where
  "part_text (BText s) = s"
| "part_text (BNest ps) = ''/*'' @ concat (map part_text ps) @ ''*/''"

fun part_ok :: "bpart \<Rightarrow> bool" where
  "part_ok (BText s) \<longleftrightarrow> \<not> sublist ''/*'' s \<and> \<not> sublist ''*/'' s \<and> (s = [] \<or> last s \<notin> {CHR ''*'', CHR ''/''})"
| "part_ok (BNest ps) \<longleftrightarrow> list_all part_ok ps"

definition dollar_quote :: "string \<Rightarrow> string" where
  "dollar_quote tag = ''$'' @ tag @ ''$''"

fun lex_text :: "lexeme \<Rightarrow> string" where
  "lex_text (Blank c) = [c]"
| "lex_text (Word w) = w"
| "lex_text Semi = '';''"
| "lex_text (LineComment s) = ''--'' @ s @ [newline]"
| "lex_text (BlockComment ps) = part_text (BNest ps)"
| "lex_text (Quoted q s) = q # concat (map (\<lambda>c. if c = q then [q, q] else [c]) s) @ [q]"
| "lex_text (Dollar tag s) = dollar_quote tag @ s @ dollar_quote tag"

definition word_ok :: "string \<Rightarrow> bool" where
  "word_ok w \<longleftrightarrow> list_all (\<lambda>c. \<not> is_space c \<and> c \<notin> {quote, dquote, CHR ''$'', CHR '';''}) w \<and> \<not> sublist ''--'' w \<and> \<not> sublist ''/*'' w \<and>
     (w = [] \<or> last w \<notin> {CHR ''-'', CHR ''/''})"

fun lex_ok :: "lexeme \<Rightarrow> bool" where
  "lex_ok (Blank c) \<longleftrightarrow> is_space c"
| "lex_ok (Word w) \<longleftrightarrow> w \<noteq> [] \<and> word_ok w"
| "lex_ok Semi \<longleftrightarrow> True"
| "lex_ok (LineComment s) \<longleftrightarrow> newline \<notin> set s"
| "lex_ok (BlockComment ps) \<longleftrightarrow> list_all part_ok ps"
| "lex_ok (Quoted q s) \<longleftrightarrow> q \<in> {quote, dquote}"
| "lex_ok (Dollar tag s) \<longleftrightarrow> list_all tag_char tag \<and>
     list_all (\<lambda>i. \<not> prefix (dollar_quote tag) (drop i (s @ dollar_quote tag))) [0..<length s]"

text \<open>Two quoted texts with the same quote need something between them.\<close>

fun apart :: "lexeme list \<Rightarrow> bool" where
  "apart (Quoted q s # Quoted q' s' # ls) \<longleftrightarrow> q \<noteq> q' \<and> apart (Quoted q' s' # ls)"
| "apart (l # ls) \<longleftrightarrow> apart ls"
| "apart [] \<longleftrightarrow> True"

fun has_content :: "lexeme \<Rightarrow> bool" where
  "has_content (Word w) = True"
| "has_content (Quoted q s) = True"
| "has_content (Dollar tag s) = True"
| "has_content l = False"

fun semi_groups :: "lexeme list \<Rightarrow> lexeme list list" where
  "semi_groups [] = [[]]"
| "semi_groups (l # ls) = (if l = Semi then [] # semi_groups ls else
     case semi_groups ls of [] \<Rightarrow> [[l]] | g # gs \<Rightarrow> (l # g) # gs)"

definition statements :: "lexeme list \<Rightarrow> nat" where
  "statements ls = length (filter (list_ex has_content) (semi_groups ls))"

section \<open>Scanning one lexeme\<close>

lemma sublist_ConsI: "sublist xs ys \<Longrightarrow> sublist xs (y # ys)"
  by (simp add: sublist_Cons_right)

lemma prefix_two: "prefix [a, b] (c # cs) \<longleftrightarrow> a = c \<and> (\<exists>ds. cs = b # ds)"
  by (cases cs) auto

lemma two_in_front:
  assumes "\<not> sublist [a, b] (c # cs)" "last (c # cs) \<noteq> a"
  shows "\<not> prefix [a, b] (c # cs @ rest)"
  using assms by (cases cs) (auto simp: prefix_two sublist_Cons_right)

lemma scan_word: "word_ok w \<Longrightarrow> w \<noteq> [] \<Longrightarrow> scan_sql Plain h n (w @ rest) = scan_sql Plain True n rest"
proof (induction w arbitrary: h)
  case (Cons c w)
  have "\<not> prefix ''--'' (c # w @ rest)" "\<not> prefix ''/*'' (c # w @ rest)"
    using Cons.prems(1) by (intro two_in_front; simp only: word_ok_def; blast)+
  then have step: "scan_sql Plain h n ((c # w) @ rest) = scan_sql Plain True n (w @ rest)"
    using Cons.prems(1) by (auto simp: word_ok_def)
  show ?case
  proof (cases "w = []")
    case False
    then have "word_ok w" using Cons.prems(1) by (auto simp: word_ok_def sublist_Cons_right)
    then show ?thesis using Cons.IH False step by simp
  qed (use step in simp)
qed simp

lemma scan_line: "newline \<notin> set s \<Longrightarrow> scan_sql InLine h n (s @ newline # rest) = scan_sql Plain h n rest"
  by (induction s) auto

lemma scan_block_text:
  "part_ok (BText s) \<Longrightarrow> scan_sql (InBlock d) h n (s @ rest) = scan_sql (InBlock d) h n rest"
proof (induction s)
  case (Cons c s)
  have "\<not> prefix ''/*'' (c # s @ rest)" "\<not> prefix ''*/'' (c # s @ rest)"
    using Cons.prems by (intro two_in_front; simp only: part_ok.simps; blast)+
  moreover have "part_ok (BText s)" using Cons.prems by (auto simp: sublist_Cons_right split: if_splits)
  ultimately show ?case using Cons.IH by auto
qed simp

lemma scan_parts:
  assumes "\<And>p r. p \<in> set ps \<Longrightarrow> scan_sql m h n (part_text p @ r) = scan_sql m h n r"
  shows "scan_sql m h n (concat (map part_text ps) @ rest) = scan_sql m h n rest"
  using assms by (induction ps) auto

lemma scan_block:
  "part_ok p \<Longrightarrow> scan_sql (InBlock (Suc d)) h n (part_text p @ rest) = scan_sql (InBlock (Suc d)) h n rest"
proof (induction p arbitrary: d rest)
  case (BText s)
  then show ?case using scan_block_text[of s] by simp
next
  case (BNest ps)
  have "scan_sql (InBlock (Suc (Suc d))) h n (concat (map part_text ps) @ r) = scan_sql (InBlock (Suc (Suc d))) h n r" for r
    using BNest by (intro scan_parts) (auto simp: list_all_iff)
  then show ?case by simp
qed

lemma scan_quoted:
  "take 1 rest \<noteq> [q] \<Longrightarrow> scanQuotedString q (concat (map (\<lambda>c. if c = q then [q, q] else [c]) s) @ q # rest) = Some rest"
  by (induction s) (auto split: list.splits)

lemma scan_dollar:
  assumes "tag \<noteq> []"
  shows "list_all (\<lambda>i. \<not> prefix tag (drop i (s @ tag))) [0..<length s] \<Longrightarrow>
    scan_sql (InDollar tag) h n (s @ tag @ rest) = scan_sql Plain h n rest"
proof (induction s)
  case Nil
  then show ?case using assms by (cases tag) auto
next
  case (Cons c s)
  have all: "\<not> prefix tag (drop i ((c # s) @ tag))" if "i < Suc (length s)" for i
    using Cons.prems that by (simp add: list_all_iff del: upt_Suc)
  have "\<not> prefix tag (((c # s) @ tag) @ rest)"
    using all[of 0] prefix_length_prefix[of tag "((c # s) @ tag) @ rest" "(c # s) @ tag"] by auto
  moreover have "list_all (\<lambda>i. \<not> prefix tag (drop i (s @ tag))) [0..<length s]"
    using all[of "Suc i" for i] by (simp add: list_all_iff)
  ultimately show ?case using Cons.IH by simp
qed

lemma match_dollar: "list_all tag_char tag \<Longrightarrow> matchDollarQuote (dollar_quote tag @ rest) = Some (dollar_quote tag)"
proof -
  assume t: "list_all tag_char tag"
  have "\<not> tag_char (CHR ''$'')" by code_simp
  then have "takeWhile (\<lambda>x. x \<noteq> CHR ''$'') (tag @ CHR ''$'' # rest) = tag"
    using t by (subst takeWhile_append2) (auto simp: list_all_iff)
  then show ?thesis using t by (simp add: matchDollarQuote_def dollar_quote_def)
qed

definition next_content :: "lexeme \<Rightarrow> bool \<Rightarrow> bool" where
  "next_content l h = (if l = Semi then False else h \<or> has_content l)"

lemma scan_lexeme:
  assumes "lex_ok l" "\<And>q s. l = Quoted q s \<Longrightarrow> take 1 rest \<noteq> [q]"
  shows "scan_sql Plain h n (lex_text l @ rest) = scan_sql Plain (next_content l h) (if l = Semi \<and> h then Suc n else n) rest"
proof (cases l)
  case (Blank c)
  have "c \<notin> {CHR ''-'', CHR ''/'', quote, dquote, CHR ''$'', CHR '';''}" if "is_space c" for c
    using that by (auto simp: is_space_def quote_def dquote_def)
  then show ?thesis using Blank assms(1) by (auto simp: next_content_def prefix_two)
next
  case (Word w)
  then show ?thesis using assms(1) scan_word[of w] by (simp add: next_content_def)
next
  case (LineComment s)
  then show ?thesis using assms(1) scan_line[of s] by (simp add: next_content_def)
next
  case (BlockComment ps)
  have "scan_sql (InBlock 1) h n (concat (map part_text ps) @ r) = scan_sql (InBlock 1) h n r" for r
    using assms(1) BlockComment scan_block[of _ 0] by (intro scan_parts) (auto simp: list_all_iff)
  then show ?thesis using BlockComment by (simp add: next_content_def)
next
  case (Quoted q s)
  have "q \<noteq> CHR ''-''" "q \<noteq> CHR ''/''" using assms(1) Quoted by (auto simp: quote_def dquote_def)
  then show ?thesis using Quoted assms scan_quoted[of rest q s] by (simp add: next_content_def prefix_two)
next
  case (Dollar tag s)
  let ?d = "dollar_quote tag"
  have d: "?d = CHR ''$'' # tag @ ''$''" by (simp add: dollar_quote_def)
  have m: "matchDollarQuote (?d @ s @ ?d @ rest) = Some ?d" using assms(1) Dollar by (simp add: match_dollar)
  have "scan_sql Plain h n (?d @ s @ ?d @ rest) = scan_sql (InDollar ?d) True n (s @ ?d @ rest)"
    using m unfolding d by (simp add: prefix_two quote_def dquote_def)
  moreover have "scan_sql (InDollar ?d) True n (s @ ?d @ rest) = scan_sql Plain True n rest"
    using assms(1) Dollar by (intro scan_dollar) (simp_all add: d)
  ultimately show ?thesis using Dollar by (simp add: next_content_def)
qed (simp add: next_content_def quote_def dquote_def)

section \<open>Counting statements\<close>

lemma semi_groups_Cons: "\<exists>g gs. semi_groups ls = g # gs"
  by (cases ls) (auto split: list.split)

lemma statements_step:
  "length (filter (list_ex has_content) (semi_groups (l # ls))) =
    (if l = Semi then statements ls else
     if has_content l then (case semi_groups ls of g # gs \<Rightarrow> Suc (length (filter (list_ex has_content) gs)) | [] \<Rightarrow> 1) else statements ls)"
  using semi_groups_Cons[of ls] by (auto simp: statements_def)

lemma quoted_front:
  assumes "apart (Quoted q s # ls)" "list_all lex_ok ls" "q \<in> {quote, dquote}"
  shows "take 1 (concat (map lex_text ls)) \<noteq> [q]"
proof (cases ls)
  case (Cons l ls')
  have q: "q \<noteq> CHR ''-''" "q \<noteq> CHR ''/''" "q \<noteq> CHR ''$''" "q \<noteq> CHR '';''" "\<not> is_space q"
    using assms(3) by (auto simp: quote_def dquote_def is_space_def)
  show ?thesis
  proof (cases l)
    case (Word w)
    then show ?thesis using Cons assms(2,3) by (cases w) (auto simp: word_ok_def)
  next
    case (Quoted q' s')
    then show ?thesis using Cons assms(1) by auto
  qed (use Cons q assms(2) in \<open>auto simp: dollar_quote_def\<close>)
qed simp

lemma apart_tl: "apart (l # ls) \<Longrightarrow> apart ls"
  by (cases "(l # ls)" rule: apart.cases) auto

text \<open>With content already seen, the first group counts whatever it holds.\<close>

lemma scan_lexemes:
  "list_all lex_ok ls \<Longrightarrow> apart ls \<Longrightarrow> scan_sql Plain h n (concat (map lex_text ls)) =
    Inr (n + (if h then Suc (length (filter (list_ex has_content) (tl (semi_groups ls)))) else statements ls))"
proof (induction ls arbitrary: h n)
  case Nil
  then show ?case by (simp add: statements_def)
next
  case (Cons l ls)
  obtain g gs where g: "semi_groups ls = g # gs" using semi_groups_Cons by blast
  have "scan_sql Plain h n (lex_text l @ concat (map lex_text ls)) =
      scan_sql Plain (next_content l h) (if l = Semi \<and> h then Suc n else n) (concat (map lex_text ls))"
    using Cons.prems quoted_front by (intro scan_lexeme) auto
  also have "\<dots> = Inr ((if l = Semi \<and> h then Suc n else n) + (if next_content l h then
      Suc (length (filter (list_ex has_content) (tl (semi_groups ls)))) else statements ls))"
    using Cons apart_tl by simp
  finally show ?case using g by (auto simp: next_content_def statements_def)
qed

lemma count_lexemes:
  assumes "list_all lex_ok ls" "apart ls"
  shows "countTopLevelSQLStatements (concat (map lex_text ls)) = Inr (statements ls)"
  using scan_lexemes[OF assms] by (simp add: countTopLevelSQLStatements_def)

end
