(* ===== verification/Mig_Schema.thy ===== *)
theory Mig_Schema
  imports Mig_Scan
begin

text \<open>
  The schema actions of both SQL backends (\<^verbatim>\<open>sqlite_migrations.go\<close>, \<^verbatim>\<open>postgres_migrations.go\<close>): validate, migrate and
  rollback over the table \<^verbatim>\<open>schema_migrations\<close>.  The two files differ in the checksums they accept and in migrations
  that run outside a transaction; a record holds the difference.

  A database is the rows of the table, if it exists, and its data, on which \<^verbatim>\<open>se_run\<close>, the SQL engine, executes the text
  of a migration: it says whether the execution succeeded and what the data are afterwards.  \<^verbatim>\<open>se_drops\<close> says which texts
  drop the table \<^verbatim>\<open>schema_migrations\<close> itself, as the down migration of the baseline does; statements on the table
  then fail.  \<^verbatim>\<open>se_fault\<close> says which other calls of the database fail.
\<close>

section \<open>The database\<close>

record applied_row =
  ar_Version :: int
  ar_Name :: string
  ar_Checksum :: string

record 'd schema_db =
  sd_rows :: "applied_row list option"
  sd_data :: 'd

datatype schema_call = SEnsure | SAlter | SLoad | SBackfill int | SCurrent bool | SBegin mig_spec | SRun mig_spec | SRecord mig_spec
  | SCommit mig_spec

record 'd schema_env =
  se_fault :: "schema_call \<Rightarrow> bool"
  se_run :: "string \<Rightarrow> 'd \<Rightarrow> bool \<times> 'd"
  se_drops :: "string \<Rightarrow> bool"

record schema_backend =
  sb_Name :: string
  sb_accepted :: "int \<Rightarrow> string \<Rightarrow> string \<Rightarrow> bool"
  sb_transaction :: "mig_spec \<Rightarrow> bool"

definition legacyPostgresMigrationChecksums :: "(int \<times> string list) list" where
  "legacyPostgresMigrationChecksums =
    [(6, [''5776530a74c7b9f65d49b207bd1555c6f89927245dd1e3f2651b6ef77f38646c'']),
     (7, [''d01aa52ff1458434284c74fc4c8ba6cb78f9484acfc4f65fab74587944b29aa8''])]"

definition migrationChecksumAccepted :: "int \<Rightarrow> string \<Rightarrow> string \<Rightarrow> bool" where
  "migrationChecksumAccepted version existing current \<longleftrightarrow> existing = current \<or>
    (case map_of legacyPostgresMigrationChecksums version of None \<Rightarrow> False | Some accepted \<Rightarrow> existing \<in> set accepted)"

definition sqlite_schema :: schema_backend where
  "sqlite_schema = \<lparr> sb_Name = BackendSQLite, sb_accepted = (\<lambda>_ existing current. existing = current), sb_transaction = (\<lambda>_. True) \<rparr>"

definition postgres_schema :: schema_backend where
  "postgres_schema = \<lparr> sb_Name = BackendPostgres, sb_accepted = migrationChecksumAccepted, sb_transaction = ms_Transactional \<rparr>"

section \<open>Steps\<close>

definition schema_failed :: "string \<Rightarrow> store_error" where
  "schema_failed what = ErrOther what"

definition ensureMigrationTable :: "'d schema_env \<Rightarrow> 'd schema_db \<Rightarrow> store_error option \<times> 'd schema_db" where
  "ensureMigrationTable e d =
    (if se_fault e SEnsure then (Some (schema_failed ''ensure schema_migrations table''), d)
     else let d = d \<lparr> sd_rows := Some (case sd_rows d of None \<Rightarrow> [] | Some rs \<Rightarrow> rs) \<rparr> in
       if se_fault e SAlter then (Some (schema_failed ''ensure schema_migrations.checksum column''), d) else (None, d))"

definition schema_rows :: "'d schema_db \<Rightarrow> applied_row list" where
  "schema_rows d = (case sd_rows d of None \<Rightarrow> [] | Some rs \<Rightarrow> rs)"

definition loadAppliedRows :: "'d schema_env \<Rightarrow> 'd schema_db \<Rightarrow> store_error + applied_row list" where
  "loadAppliedRows e d = (if se_fault e SLoad then Inl (schema_failed ''load applied migrations'') else Inr (sort_key ar_Version (schema_rows d)))"

text \<open>The spec of a version; where two files have one version, the map keeps the last.\<close>

definition spec_for :: "mig_spec list \<Rightarrow> int \<Rightarrow> mig_spec option" where
  "spec_for specs v = find (\<lambda>sp. ms_Version sp = v) (rev specs)"

definition set_checksum :: "int \<Rightarrow> string \<Rightarrow> 'd schema_db \<Rightarrow> 'd schema_db" where
  "set_checksum v c d = d \<lparr> sd_rows := map_option (map (\<lambda>r. if ar_Version r = v then r \<lparr> ar_Checksum := c \<rparr> else r)) (sd_rows d) \<rparr>"

fun reconcileAppliedChecksums ::
  "schema_backend \<Rightarrow> 'd schema_env \<Rightarrow> mig_spec list \<Rightarrow> applied_row list \<Rightarrow> 'd schema_db \<Rightarrow> store_error option \<times> 'd schema_db" where
  "reconcileAppliedChecksums b e ups [] d = (None, d)"
| "reconcileAppliedChecksums b e ups (row # rows) d = (case spec_for ups (ar_Version row) of
     None \<Rightarrow> (Some (schema_failed ''migration version with no corresponding up migration file''), d)
   | Some sp \<Rightarrow>
       (let existing = trim_space (ar_Checksum row) in
        if existing = [] then
          (if se_fault e (SBackfill (ar_Version row)) then (Some (schema_failed ''backfill migration checksum''), d)
           else reconcileAppliedChecksums b e ups rows (set_checksum (ar_Version row) (ms_Checksum sp) d))
        else if \<not> sb_accepted b (ar_Version row) existing (ms_Checksum sp) then (Some (schema_failed ''checksum mismatch''), d)
        else reconcileAppliedChecksums b e ups rows d))"

text \<open>\<^verbatim>\<open>COALESCE(MAX(version), 0)\<close>\<close>

definition currentVersion :: "'d schema_db \<Rightarrow> int" where
  "currentVersion d = (if schema_rows d = [] then 0 else Max (set (map ar_Version (schema_rows d))))"

definition applied_of :: "mig_spec \<Rightarrow> applied_row" where
  "applied_of sp = \<lparr> ar_Version = ms_Version sp, ar_Name = ms_Name sp, ar_Checksum = ms_Checksum sp \<rparr>"

text \<open>\<^verbatim>\<open>INSERT ... ON CONFLICT (version) DO UPDATE\<close>\<close>

definition record_row :: "mig_spec \<Rightarrow> applied_row list \<Rightarrow> applied_row list" where
  "record_row sp rows =
    (if ms_Version sp \<in> set (map ar_Version rows) then map (\<lambda>r. if ar_Version r = ms_Version sp then applied_of sp else r) rows
     else rows @ [applied_of sp])"

text \<open>The SQL of a migration and the change of its row: in one transaction, or one after the other.\<close>

definition apply_spec ::
  "schema_backend \<Rightarrow> 'd schema_env \<Rightarrow> mig_spec \<Rightarrow> (applied_row list \<Rightarrow> applied_row list) \<Rightarrow> 'd schema_db \<Rightarrow> store_error option \<times> 'd schema_db" where
  "apply_spec b e sp change d =
    (let failed = Some (schema_failed ''apply migration''); changed = Some (change (schema_rows d)) in
     if sb_transaction b sp \<and> se_fault e (SBegin sp) \<or> se_fault e (SRun sp) then (failed, d)
     else let (ok, x) = se_run e (ms_SQL sp) (sd_data d); gone = se_drops e (ms_SQL sp) in
       if sb_transaction b sp
       then (if \<not> ok \<or> gone \<or> se_fault e (SRecord sp) \<or> se_fault e (SCommit sp) then (failed, d)
             else (None, d \<lparr> sd_data := x, sd_rows := changed \<rparr>))
       else if ok \<and> gone then (failed, d \<lparr> sd_data := x, sd_rows := None \<rparr>)
       else if \<not> ok \<or> se_fault e (SRecord sp) then (failed, d \<lparr> sd_data := x \<rparr>)
       else (None, d \<lparr> sd_data := x, sd_rows := changed \<rparr>))"

definition applyUpSpec :: "schema_backend \<Rightarrow> 'd schema_env \<Rightarrow> mig_spec \<Rightarrow> 'd schema_db \<Rightarrow> store_error option \<times> 'd schema_db" where
  "applyUpSpec b e sp d = apply_spec b e sp (record_row sp) d"

definition applyDownSpec :: "schema_backend \<Rightarrow> 'd schema_env \<Rightarrow> mig_spec \<Rightarrow> 'd schema_db \<Rightarrow> store_error option \<times> 'd schema_db" where
  "applyDownSpec b e sp d = apply_spec b e sp (filter (\<lambda>r. ar_Version r \<noteq> ms_Version sp)) d"

section \<open>Actions\<close>

record applied_step =
  as_Version :: int
  as_Name :: string
  as_Direction :: string
  as_Checksum :: string

record mig_result =
  mr_Backend :: string
  mr_Action :: string
  mr_RequestedVersion :: int
  mr_PreviousVersion :: int
  mr_CurrentVersion :: int
  mr_TargetVersion :: int
  mr_MinCompatVersion :: int
  mr_CompatibilityRange :: "int \<times> int"
  mr_Compatible :: bool
  mr_Applied :: "applied_step list"
  mr_RolledBack :: "applied_step list"

definition schemaActionValidate :: string where "schemaActionValidate = ''validate''"
definition schemaActionMigrate :: string where "schemaActionMigrate = ''migrate''"
definition schemaActionRollback :: string where "schemaActionRollback = ''rollback''"

definition step_of :: "string \<Rightarrow> mig_spec \<Rightarrow> applied_step" where
  "step_of direction sp = \<lparr> as_Version = ms_Version sp, as_Name = ms_Name sp, as_Direction = direction, as_Checksum = ms_Checksum sp \<rparr>"

fun migrate_loop ::
  "schema_backend \<Rightarrow> 'd schema_env \<Rightarrow> int \<Rightarrow> int \<Rightarrow> mig_spec list \<Rightarrow> 'd schema_db \<Rightarrow> (store_error + applied_step list) \<times> 'd schema_db" where
  "migrate_loop b e previous target [] d = (Inr [], d)"
| "migrate_loop b e previous target (sp # sps) d =
    (if ms_Version sp \<le> previous \<or> target < ms_Version sp then migrate_loop b e previous target sps d
     else case applyUpSpec b e sp d of
       (Some er, d) \<Rightarrow> (Inl er, d)
     | (None, d) \<Rightarrow> (case migrate_loop b e previous target sps d of (r, d) \<Rightarrow> (bindr r (\<lambda>steps. Inr (step_of DirectionUp sp # steps)), d)))"

text \<open>From version \<open>requested + k\<close> down to \<open>requested\<close>.\<close>

fun rollback_loop ::
  "schema_backend \<Rightarrow> 'd schema_env \<Rightarrow> mig_spec list \<Rightarrow> int \<Rightarrow> nat \<Rightarrow> 'd schema_db \<Rightarrow> (store_error + applied_step list) \<times> 'd schema_db" where
  "rollback_loop b e downs requested 0 d = (Inr [], d)"
| "rollback_loop b e downs requested (Suc k) d = (case spec_for downs (requested + int (Suc k)) of
     None \<Rightarrow> (Inl (schema_failed ''missing down migration''), d)
   | Some sp \<Rightarrow> (case applyDownSpec b e sp d of
       (Some er, d) \<Rightarrow> (Inl er, d)
     | (None, d) \<Rightarrow> (case rollback_loop b e downs requested k d of (r, d) \<Rightarrow> (bindr r (\<lambda>steps. Inr (step_of DirectionDown sp # steps)), d))))"

text \<open>The switch over the actions: the requested version as it is reported, the applied and the rolled back steps.\<close>

definition schema_action ::
  "schema_backend \<Rightarrow> 'd schema_env \<Rightarrow> mig_spec list \<Rightarrow> mig_spec list \<Rightarrow> string \<Rightarrow> int \<Rightarrow> int \<Rightarrow> 'd schema_db \<Rightarrow>
     (store_error + int \<times> applied_step list \<times> applied_step list) \<times> 'd schema_db" where
  "schema_action b e ups downs action requested previous d =
    (if action = schemaActionMigrate then
       (let target = (if requested \<le> 0 then SchemaTargetVersion else requested) in
        if SchemaTargetVersion < target then (Inl (schema_failed ''requested migration target exceeds schema target''), d)
        else if target < previous then (Inl (schema_failed ''requested migration target is below current version''), d)
        else case migrate_loop b e previous target ups d of (r, d) \<Rightarrow> (bindr r (\<lambda>steps. Inr (target, steps, [])), d))
     else if action = schemaActionRollback then
       (if requested < 0 then (Inl (schema_failed ''rollback requires explicit target version >= 0''), d)
        else if previous < requested then (Inl (schema_failed ''rollback target exceeds current version''), d)
        else case rollback_loop b e downs requested (nat (previous - requested)) d of (r, d) \<Rightarrow> (bindr r (\<lambda>steps. Inr (requested, [], steps)), d))
     else (Inr (requested, [], []), d))"

definition compatible :: "int \<Rightarrow> bool" where
  "compatible v \<longleftrightarrow> SchemaMinCompatVersion \<le> v \<and> v \<le> SchemaTargetVersion"

definition schema_result :: "schema_backend \<Rightarrow> string \<Rightarrow> int \<Rightarrow> int \<Rightarrow> int \<times> applied_step list \<times> applied_step list \<Rightarrow> mig_result" where
  "schema_result b action previous current out = (case out of (requested, applied, rolledBack) \<Rightarrow>
    \<lparr> mr_Backend = sb_Name b, mr_Action = action, mr_RequestedVersion = requested, mr_PreviousVersion = previous, mr_CurrentVersion = current,
      mr_TargetVersion = SchemaTargetVersion, mr_MinCompatVersion = SchemaMinCompatVersion,
      mr_CompatibilityRange = (SchemaMinCompatVersion, SchemaTargetVersion), mr_Compatible = compatible current,
      mr_Applied = applied, mr_RolledBack = rolledBack \<rparr>)"

text \<open>What follows the loading of the files.\<close>

definition schema_steps ::
  "schema_backend \<Rightarrow> 'd schema_env \<Rightarrow> mig_spec list \<Rightarrow> mig_spec list \<Rightarrow> string \<Rightarrow> int \<Rightarrow> 'd schema_db \<Rightarrow> (store_error + mig_result) \<times> 'd schema_db" where
  "schema_steps b e ups downs action requested d = (case loadAppliedRows e d of
     Inl er \<Rightarrow> (Inl er, d)
   | Inr rows \<Rightarrow> (case reconcileAppliedChecksums b e ups rows d of
       (Some er, d) \<Rightarrow> (Inl er, d)
     | (None, d) \<Rightarrow>
         if se_fault e (SCurrent False) then (Inl (schema_failed ''query current migration version''), d)
         else let previous = currentVersion d in
           (case schema_action b e ups downs action requested previous d of
              (Inl er, d) \<Rightarrow> (Inl er, d)
            | (Inr out, d) \<Rightarrow>
                if se_fault e (SCurrent True) then (Inl (schema_failed ''query current migration version''), d)
                else if action = schemaActionValidate \<and> \<not> compatible (currentVersion d)
                then (Inl (schema_failed ''schema version outside compatible window''), d)
                else (Inr (schema_result b action previous (currentVersion d) out), d))))"

definition run_schema_action ::
  "schema_backend \<Rightarrow> 'd schema_env \<Rightarrow> (string \<Rightarrow> string) \<Rightarrow> (string \<times> string) list \<Rightarrow> string \<Rightarrow> int \<Rightarrow> 'd schema_db \<Rightarrow> (store_error + mig_result) \<times> 'd schema_db" where
  "run_schema_action b e sha256 migrationFiles action requested d =
    (let action = to_lower (trim_space action); action = (if action = [] then schemaActionValidate else action) in
     if action \<notin> {schemaActionValidate, schemaActionMigrate, schemaActionRollback}
     then (Inl (schema_failed (''unsupported schema action: '' @ action)), d)
     else case ensureMigrationTable e d of
       (Some er, d) \<Rightarrow> (Inl er, d)
     | (None, d) \<Rightarrow>
         (case (Load sha256 migrationFiles (sb_Name b) DirectionUp, Load sha256 migrationFiles (sb_Name b) DirectionDown) of
            (Inr ups, Inr downs) \<Rightarrow> schema_steps b e ups downs action requested d
          | (Inl er, _) \<Rightarrow> (Inl er, d)
          | (_, Inl er) \<Rightarrow> (Inl er, d)))"

definition runSchemaActionWithDB ::
  "'d schema_env \<Rightarrow> (string \<Rightarrow> string) \<Rightarrow> (string \<times> string) list \<Rightarrow> string \<Rightarrow> int \<Rightarrow> 'd schema_db \<Rightarrow> (store_error + mig_result) \<times> 'd schema_db" where
  "runSchemaActionWithDB = run_schema_action sqlite_schema"

definition runSchemaActionWithPool ::
  "'d schema_env \<Rightarrow> (string \<Rightarrow> string) \<Rightarrow> (string \<times> string) list \<Rightarrow> string \<Rightarrow> int \<Rightarrow> 'd schema_db \<Rightarrow> (store_error + mig_result) \<times> 'd schema_db" where
  "runSchemaActionWithPool = run_schema_action postgres_schema"

definition runSchemaMode ::
  "schema_backend \<Rightarrow> 'd schema_env \<Rightarrow> (string \<Rightarrow> string) \<Rightarrow> (string \<times> string) list \<Rightarrow> string \<Rightarrow> 'd schema_db \<Rightarrow> store_error option \<times> 'd schema_db" where
  "runSchemaMode b e sha256 migrationFiles mode d =
    (let mode = to_lower (trim_space mode); mode = (if mode = [] then schemaActionMigrate else mode) in
     if mode \<notin> {schemaActionMigrate, schemaActionValidate} then (Some (schema_failed (''unsupported schema mode: '' @ mode)), d)
     else case run_schema_action b e sha256 migrationFiles mode 0 d of (Inl er, d) \<Rightarrow> (Some er, d) | (Inr _, d) \<Rightarrow> (None, d))"

section \<open>The embedded files\<close>

definition sqlite_migrations :: "string list" where
  "sqlite_migrations = [''0001_baseline'', ''0002_namespace_columns_additive'', ''0003_namespace_backfill'',
     ''0004_namespace_indexes'', ''0005_namespace_constraints'', ''0006_rename_tables_tuple_to_agent'']"

definition postgres_migrations :: "string list" where
  "postgres_migrations = [''0001_baseline'', ''0002_namespace_columns_additive'', ''0003_namespace_backfill'', ''0004_namespace_indexes'',
     ''0005_namespace_constraints'', ''0006_partition_events_tables'', ''0007_tuples_inprogress_lease_index'',
     ''0008_tuples_new_ns_queue_created_index'', ''0009_tuples_new_ns_queue_kind_created_index'', ''0010_drop_tuples_metadata_index'',
     ''0011_drop_tuples_created_new_index'', ''0012_drop_tuples_queue_created_new_index'', ''0013_drop_tuples_queue_kind_created_new_index'',
     ''0014_shard_id_columns'', ''0015_rename_tables_tuple_to_agent'', ''0016_agents_take_covering_index'', ''0017_drop_superseded_take_index'']"

definition migration_names :: "string \<Rightarrow> string list \<Rightarrow> string list" where
  "migration_names backend names =
    concat (map (\<lambda>name. map (\<lambda>direction. backend @ ''/'' @ name @ ''.'' @ direction @ ''.sql'') [DirectionDown, DirectionUp]) names)"

text \<open>The embedded file system with given contents.\<close>

definition embedded_files :: "(string \<Rightarrow> string) \<Rightarrow> (string \<times> string) list" where
  "embedded_files content = map (\<lambda>file. (file, content file))
    (migration_names BackendPostgres postgres_migrations @ migration_names BackendSQLite sqlite_migrations)"

end
