(* ===== verification/Mig_Contract.thy ===== *)
theory Mig_Contract
  imports Mig_Schema
begin

text \<open>
  What the schema actions keep: whatever actions run and whatever calls fail, the database is the result of executing the
  first so many up migrations, and the table \<^verbatim>\<open>schema_migrations\<close> lists exactly those.
\<close>

section \<open>States of a schema\<close>

text \<open>\<open>ran run qs x y\<close>: executing the migrations \<open>qs\<close> one after the other succeeds and leads from \<open>x\<close> to \<open>y\<close>.\<close>

fun ran :: "(string \<Rightarrow> 'd \<Rightarrow> bool \<times> 'd) \<Rightarrow> mig_spec list \<Rightarrow> 'd \<Rightarrow> 'd \<Rightarrow> bool" where
  "ran run [] x y \<longleftrightarrow> x = y"
| "ran run (sp # sps) x y \<longleftrightarrow> (case run (ms_SQL sp) x of (ok, z) \<Rightarrow> ok \<and> ran run sps z y)"

lemma ran_snoc: "ran run (qs @ [sp]) x z \<longleftrightarrow> (\<exists>y. ran run qs x y \<and> run (ms_SQL sp) y = (True, z))"
  by (induction qs arbitrary: x) (auto split: prod.splits)

definition holds_specs :: "(string \<Rightarrow> 'd \<Rightarrow> bool \<times> 'd) \<Rightarrow> 'd \<Rightarrow> mig_spec list \<Rightarrow> 'd schema_db \<Rightarrow> bool" where
  "holds_specs run x qs d \<longleftrightarrow> schema_rows d = map applied_of qs \<and> ran run qs x (sd_data d)"

text \<open>Migrations are numbered from 1 and ordered.\<close>

definition numbered :: "mig_spec list \<Rightarrow> bool" where
  "numbered ups \<longleftrightarrow> sorted_wrt (<) (map ms_Version ups) \<and> list_all (\<lambda>sp. 0 < ms_Version sp) ups"

definition mig_version_at :: "mig_spec list \<Rightarrow> int" where
  "mig_version_at qs = (if qs = [] then 0 else ms_Version (last qs))"

lemma applied_of_version [simp]: "ar_Version (applied_of sp) = ms_Version sp"
  by (simp add: applied_of_def)

lemma numbered_append:
  "numbered (qs @ ss) \<longleftrightarrow> numbered qs \<and> numbered ss \<and> (\<forall>q\<in>set qs. \<forall>s\<in>set ss. ms_Version q < ms_Version s)"
  by (auto simp: numbered_def sorted_wrt_append)

lemma mig_version_at_max: "numbered qs \<Longrightarrow> q \<in> set qs \<Longrightarrow> ms_Version q \<le> mig_version_at qs"
  by (cases qs rule: rev_cases) (auto simp: numbered_append mig_version_at_def)

lemma mig_version_at_less: "numbered (qs @ ss) \<Longrightarrow> s \<in> set ss \<Longrightarrow> mig_version_at qs < ms_Version s"
  by (cases "qs = []") (auto simp: numbered_append mig_version_at_def, auto simp: numbered_def list_all_iff)

lemma currentVersion_at:
  assumes "schema_rows d = map applied_of qs" "numbered qs"
  shows "currentVersion d = mig_version_at qs"
proof (cases qs rule: rev_cases)
  case (snoc qs' q)
  then have "Max (set (map ms_Version qs)) = ms_Version q"
    using mig_version_at_max[OF assms(2)] by (intro Max_eqI) (auto simp: mig_version_at_def)
  then show ?thesis using assms snoc by (simp add: currentVersion_def mig_version_at_def comp_def)
qed (use assms in \<open>simp add: currentVersion_def mig_version_at_def\<close>)

lemma spec_for_Some:
  assumes "spec_for specs v = Some sp"
  shows "sp \<in> set specs" "ms_Version sp = v"
proof -
  obtain i where "i < length (rev specs)" "ms_Version (rev specs ! i) = v" "sp = rev specs ! i"
    using assms by (auto simp: spec_for_def find_Some_iff)
  then show "sp \<in> set specs" "ms_Version sp = v" using nth_mem[of i "rev specs"] by simp_all
qed

lemma numbered_unique:
  assumes "numbered ups" "p \<in> set ups" "q \<in> set ups" "ms_Version p = ms_Version q"
  shows "p = q"
proof -
  have "distinct (map ms_Version ups)" using assms(1) unfolding numbered_def strict_sorted_iff by blast
  then show ?thesis using assms(2-4) unfolding distinct_map by (blast dest: inj_onD)
qed

lemma spec_for_numbered:
  assumes "numbered ups" "sp \<in> set ups"
  shows "spec_for ups (ms_Version sp) = Some sp"
proof (cases "spec_for ups (ms_Version sp)")
  case None
  then show ?thesis using assms(2) by (auto simp: spec_for_def find_None_iff)
next
  case (Some q)
  then show ?thesis using numbered_unique[OF assms(1) _ assms(2)] spec_for_Some[OF Some] by simp
qed

section \<open>Reconciling\<close>

text \<open>The rows of applied migrations carry the checksums of their files: nothing is changed.\<close>

lemma set_checksum_same:
  assumes "numbered ups" "set qs \<subseteq> set ups" "schema_rows d = map applied_of qs" "sp \<in> set ups"
  shows "set_checksum (ms_Version sp) (ms_Checksum sp) d = d"
proof -
  have "(if ms_Version q = ms_Version sp then applied_of q \<lparr> ar_Checksum := ms_Checksum sp \<rparr> else applied_of q) = applied_of q" if "q \<in> set qs" for q
    using numbered_unique[OF assms(1) _ assms(4), of q] assms(2) that by (auto simp: applied_of_def)
  then have "map (\<lambda>r. if ar_Version r = ms_Version sp then r \<lparr> ar_Checksum := ms_Checksum sp \<rparr> else r) (map applied_of qs) = map applied_of qs"
    by simp
  then show ?thesis using assms(3) by (cases "sd_rows d") (auto simp: set_checksum_def schema_rows_def)
qed

lemma reconcile_same:
  assumes "numbered ups" "set qs \<subseteq> set ups" "schema_rows d = map applied_of qs" "set rows \<subseteq> applied_of ` set ups"
  shows "snd (reconcileAppliedChecksums b e ups rows d) = d"
  using assms(4)
proof (induction rows)
  case (Cons r rows)
  then obtain sp where sp: "sp \<in> set ups" "r = applied_of sp" by auto
  then show ?case
    using Cons set_checksum_same[OF assms(1,2,3) sp(1)] spec_for_numbered[OF assms(1) sp(1)] by (simp add: Let_def)
qed simp

section \<open>Migrating and rolling back\<close>

lemma record_new: "ms_Version sp \<notin> ms_Version ` set qs \<Longrightarrow> record_row sp (map applied_of qs) = map applied_of (qs @ [sp])"
  by (auto simp: record_row_def)

lemma up_spec:
  assumes "sb_transaction b sp" "holds_specs (se_run e) x qs d" "ms_Version sp \<notin> ms_Version ` set qs"
  shows "case applyUpSpec b e sp d of (None, d') \<Rightarrow> holds_specs (se_run e) x (qs @ [sp]) d' | (Some _, d') \<Rightarrow> d' = d"
  using assms by (auto simp: applyUpSpec_def apply_spec_def Let_def holds_specs_def record_new schema_rows_def ran_snoc split: prod.splits)

lemma migrate_skip:
  "\<forall>q\<in>set qs. ms_Version q \<le> previous \<Longrightarrow> migrate_loop b e previous target (qs @ ss) d = migrate_loop b e previous target ss d"
  by (induction qs) auto

lemma migrate_beyond: "\<forall>s\<in>set ss. target < ms_Version s \<Longrightarrow> migrate_loop b e previous target ss d = (Inr [], d)"
  by (induction ss) auto

text \<open>The loop executes a first part of the migrations it is given.\<close>

lemma migrate_loop_holds:
  "numbered (qs @ ss) \<Longrightarrow> \<forall>s\<in>set ss. previous < ms_Version s \<Longrightarrow> list_all (sb_transaction b) ss \<Longrightarrow> holds_specs (se_run e) x qs d \<Longrightarrow>
    \<exists>rs. prefix rs ss \<and> holds_specs (se_run e) x (qs @ rs) (snd (migrate_loop b e previous target ss d))"
proof (induction ss arbitrary: qs d)
  case (Cons s ss)
  have later: "\<forall>s'\<in>set ss. ms_Version s < ms_Version s'" and new: "ms_Version s \<notin> ms_Version ` set qs"
    using Cons.prems(1) by (auto simp: numbered_def sorted_wrt_append)
  show ?case
  proof (cases "target < ms_Version s")
    case True
    then have "migrate_loop b e previous target (s # ss) d = (Inr [], d)" using later by (intro migrate_beyond) auto
    then show ?thesis using Cons.prems(4) by (intro exI[of _ "[]"]) simp
  next
    case False
    obtain r d' where up: "applyUpSpec b e s d = (r, d')" by (cases "applyUpSpec b e s d")
    show ?thesis
    proof (cases r)
      case None
      then have "holds_specs (se_run e) x (qs @ [s]) d'" using up_spec[OF _ Cons.prems(4) new, of b] Cons.prems(3) up by simp
      then obtain rs where "prefix rs ss" "holds_specs (se_run e) x ((qs @ [s]) @ rs) (snd (migrate_loop b e previous target ss d'))"
        using Cons.IH[of "qs @ [s]" d'] Cons.prems by auto
      then show ?thesis using False None up Cons.prems(2) by (intro exI[of _ "s # rs"]) (auto split: prod.splits)
    next
      case (Some er)
      then have "d' = d" using up_spec[OF _ Cons.prems(4) new, of b] Cons.prems(3) up by simp
      then show ?thesis using False Some up Cons.prems(2,4) by (intro exI[of _ "[]"]) simp
    qed
  qed
qed auto

text \<open>A down migration undoes its up migration where the migrations before it have run on the data \<open>x\<close> and both succeed.\<close>

definition undoes :: "(string \<Rightarrow> 'd \<Rightarrow> bool \<times> 'd) \<Rightarrow> 'd \<Rightarrow> mig_spec list \<Rightarrow> mig_spec list \<Rightarrow> bool" where
  "undoes run x ups downs \<longleftrightarrow> (\<forall>dn\<in>set downs. \<exists>qs up. prefix (qs @ [up]) ups \<and> ms_Version up = ms_Version dn \<and>
     (\<forall>y z w. ran run qs x y \<longrightarrow> run (ms_SQL up) y = (True, z) \<longrightarrow> run (ms_SQL dn) z = (True, w) \<longrightarrow> w = y))"

definition specs_upto :: "int \<Rightarrow> mig_spec list \<Rightarrow> mig_spec list" where
  "specs_upto v ups = filter (\<lambda>sp. ms_Version sp \<le> v) ups"

lemma specs_upto_prefix: "numbered ups \<Longrightarrow> prefix (specs_upto v ups) ups"
proof (induction ups)
  case (Cons u us)
  have "specs_upto v us = []" if "v < ms_Version u" using Cons.prems that by (auto simp: specs_upto_def numbered_def filter_empty_conv)
  moreover have "numbered us" using Cons.prems by (simp add: numbered_def)
  ultimately show ?case using Cons.IH by (auto simp: specs_upto_def)
qed (simp add: specs_upto_def)

lemma specs_upto_at:
  assumes "numbered ups" "prefix qs ups"
  shows "specs_upto (mig_version_at qs) ups = qs"
proof -
  obtain ss where ss: "ups = qs @ ss" using assms(2) by (auto simp: prefix_def)
  have "specs_upto (mig_version_at qs) qs = qs" using mig_version_at_max[of qs] assms(1) ss by (auto simp: specs_upto_def filter_id_conv numbered_append)
  moreover have "specs_upto (mig_version_at qs) ss = []" using mig_version_at_less[of qs ss] assms(1) ss by (force simp: specs_upto_def filter_empty_conv)
  ultimately show ?thesis by (simp add: ss specs_upto_def)
qed

lemma specs_upto_snoc:
  assumes "numbered ups" "sp \<in> set ups"
  shows "specs_upto (ms_Version sp) ups = specs_upto (ms_Version sp - 1) ups @ [sp]"
proof -
  obtain qs ss where u: "ups = qs @ sp # ss" using assms(2) by (auto simp: in_set_conv_decomp)
  have "numbered (qs @ [sp])" "prefix (qs @ [sp]) ups" using assms(1) u by (auto simp: numbered_append numbered_def sorted_wrt_append)
  then have a: "specs_upto (ms_Version sp) ups = qs @ [sp]" using specs_upto_at[OF assms(1), of "qs @ [sp]"] by (simp add: mig_version_at_def)
  have "specs_upto (ms_Version sp - 1) ups = filter (\<lambda>q. ms_Version q < ms_Version sp) (specs_upto (ms_Version sp) ups)"
    by (auto simp: specs_upto_def intro!: filter_cong)
  also have "\<dots> = qs" unfolding a using assms(1) u by (auto simp: numbered_append filter_id_conv)
  finally show ?thesis using a by simp
qed

lemma down_spec:
  assumes "sb_transaction b dn" "numbered ups" "undoes (se_run e) x ups downs" "dn \<in> set downs"
    and "holds_specs (se_run e) x (specs_upto (ms_Version dn) ups) d"
  shows "case applyDownSpec b e dn d of (None, d') \<Rightarrow> holds_specs (se_run e) x (specs_upto (ms_Version dn - 1) ups) d' | (Some _, d') \<Rightarrow> d' = d"
proof -
  let ?qs = "specs_upto (ms_Version dn - 1) ups"
  obtain qs up where qs: "prefix (qs @ [up]) ups" "ms_Version up = ms_Version dn"
    "\<And>y z w. ran (se_run e) qs x y \<Longrightarrow> se_run e (ms_SQL up) y = (True, z) \<Longrightarrow> se_run e (ms_SQL dn) z = (True, w) \<Longrightarrow> w = y"
    using assms(3,4) unfolding undoes_def by blast
  have u: "up \<in> set ups" using qs(1) set_mono_prefix by fastforce
  have "qs = ?qs" using specs_upto_at[OF assms(2) qs(1)] specs_upto_snoc[OF assms(2) u] qs(2) by (simp add: mig_version_at_def)
  then have up: "up \<in> set ups" "ms_Version up = ms_Version dn"
    "\<And>y z w. ran (se_run e) ?qs x y \<Longrightarrow> se_run e (ms_SQL up) y = (True, z) \<Longrightarrow> se_run e (ms_SQL dn) z = (True, w) \<Longrightarrow> w = y"
    using qs u by simp_all
  have h: "holds_specs (se_run e) x (?qs @ [up]) d" using assms(5) specs_upto_snoc[OF assms(2) up(1)] up(2) by simp
  then obtain y where y: "ran (se_run e) ?qs x y" "se_run e (ms_SQL up) y = (True, sd_data d)" by (auto simp: holds_specs_def ran_snoc)
  have "filter (\<lambda>r. ar_Version r \<noteq> ms_Version dn) (map applied_of (?qs @ [up])) = map applied_of ?qs"
    using up(2) by (auto simp: filter_map comp_def specs_upto_def intro!: filter_cong arg_cong[of _ _ "map applied_of"])
  then have "case applyDownSpec b e dn d of (None, d') \<Rightarrow> schema_rows d' = map applied_of ?qs \<and> sd_data d' = y | (Some _, d') \<Rightarrow> d' = d"
    using assms(1) h up(3)[OF y]
    by (auto simp: applyDownSpec_def apply_spec_def Let_def holds_specs_def schema_rows_def split: prod.splits)
  then show ?thesis using y(1) by (auto simp: holds_specs_def split: prod.splits option.splits)
qed

lemma rollback_loop_holds:
  assumes "numbered ups" "undoes (se_run e) x ups downs" "list_all (sb_transaction b) downs"
  shows "holds_specs (se_run e) x (specs_upto (requested + int k) ups) d \<Longrightarrow>
    \<exists>v. holds_specs (se_run e) x (specs_upto v ups) (snd (rollback_loop b e downs requested k d))"
proof (induction k arbitrary: d)
  case (Suc k)
  show ?case
  proof (cases "spec_for downs (requested + int (Suc k))")
    case None
    then show ?thesis using Suc.prems by auto
  next
    case (Some dn)
    note dn = spec_for_Some[OF Some]
    obtain r d' where down: "applyDownSpec b e dn d = (r, d')" by (cases "applyDownSpec b e dn d")
    have tx: "sb_transaction b dn" using assms(3) dn(1) by (simp add: list_all_iff)
    have v: "ms_Version dn - 1 = requested + int k" using dn(2) by simp
    have h: "holds_specs (se_run e) x (specs_upto (ms_Version dn) ups) d" using Suc.prems dn(2) by simp
    have c: "case (r, d') of (None, d') \<Rightarrow> holds_specs (se_run e) x (specs_upto (requested + int k) ups) d' | (Some _, d') \<Rightarrow> d' = d"
      using down_spec[OF tx assms(1,2) dn(1) h] down unfolding v by simp
    show ?thesis
    proof (cases r)
      case None
      then show ?thesis using c Suc.IH[of d'] Some down by (auto split: prod.splits)
    next
      case (Some er)
      then show ?thesis using c Suc.prems down \<open>spec_for downs _ = _\<close> by auto
    qed
  qed
qed auto

section \<open>Any sequence of actions\<close>

definition stands :: "(string \<Rightarrow> 'd \<Rightarrow> bool \<times> 'd) \<Rightarrow> 'd \<Rightarrow> mig_spec list \<Rightarrow> 'd schema_db \<Rightarrow> bool" where
  "stands run x ups d \<longleftrightarrow> (\<exists>qs. prefix qs ups \<and> holds_specs run x qs d)"

lemma schema_action_stands:
  assumes "numbered ups" "list_all (sb_transaction b) ups" "list_all (sb_transaction b) downs" "undoes (se_run e) x ups downs"
    and "prefix qs ups" "holds_specs (se_run e) x qs d" "previous = mig_version_at qs"
  shows "stands (se_run e) x ups (snd (schema_action b e ups downs action requested previous d))"
proof -
  obtain ss where ss: "ups = qs @ ss" using assms(5) by (auto simp: prefix_def)
  have d: "stands (se_run e) x ups d" using assms(5,6) by (auto simp: stands_def)
  have "\<forall>q\<in>set qs. ms_Version q \<le> previous" "\<forall>s\<in>set ss. previous < ms_Version s"
    using mig_version_at_max[of qs] mig_version_at_less[of qs ss] assms(1,7) ss by (auto simp: numbered_append)
  then have m: "stands (se_run e) x ups (snd (migrate_loop b e previous target ups d))" for target
    using migrate_loop_holds[of qs ss previous b e x d target] assms(1,2,6) ss
    by (simp add: migrate_skip stands_def) (meson same_prefix_prefix)
  have "stands (se_run e) x ups (snd (rollback_loop b e downs requested (nat (previous - requested)) d))" if "requested \<le> previous"
    using rollback_loop_holds[OF assms(1,4,3), of requested "nat (previous - requested)" d] specs_upto_at[OF assms(1,5)] assms(6,7) that
      specs_upto_prefix[OF assms(1)] by (auto simp: stands_def)
  then show ?thesis using d m by (auto simp: schema_action_def Let_def case_prod_beta)
qed

lemma schema_steps_stands:
  assumes "numbered ups" "list_all (sb_transaction b) ups" "list_all (sb_transaction b) downs" "undoes (se_run e) x ups downs"
    and "stands (se_run e) x ups d"
  shows "stands (se_run e) x ups (snd (schema_steps b e ups downs action requested d))"
proof -
  obtain qs where qs: "prefix qs ups" "holds_specs (se_run e) x qs d" using assms(5) by (auto simp: stands_def)
  have sub: "set qs \<subseteq> set ups" using qs(1) by (rule set_mono_prefix)
  have n: "numbered qs" using assms(1) qs(1) by (auto simp: prefix_def numbered_append)
  have rows: "schema_rows d = map applied_of qs" using qs(2) by (simp add: holds_specs_def)
  obtain r where r: "reconcileAppliedChecksums b e ups (sort_key ar_Version (schema_rows d)) d = (r, d)"
    using reconcile_same[OF assms(1) sub rows, of "sort_key ar_Version (schema_rows d)" b e] rows sub
    by (cases "reconcileAppliedChecksums b e ups (sort_key ar_Version (schema_rows d)) d") auto
  have "stands (se_run e) x ups (snd (schema_action b e ups downs action requested (currentVersion d) d))"
    by (rule schema_action_stands[OF assms(1-4) qs currentVersion_at[OF rows n]])
  then show ?thesis using assms(5) r
    by (cases "schema_action b e ups downs action requested (currentVersion d) d")
      (auto simp: schema_steps_def loadAppliedRows_def Let_def split: option.split sum.split)
qed

lemma stands_ensured: "stands run x ups d \<Longrightarrow> stands run x ups (snd (ensureMigrationTable e d))"
  by (auto simp: stands_def holds_specs_def ensureMigrationTable_def schema_rows_def Let_def split: option.splits)

lemma run_schema_action_stands:
  assumes "Load sha256 files (sb_Name b) DirectionUp = Inr ups" "Load sha256 files (sb_Name b) DirectionDown = Inr downs"
    and "numbered ups" "list_all (sb_transaction b) ups" "list_all (sb_transaction b) downs" "undoes (se_run e) x ups downs"
    and "stands (se_run e) x ups d"
  shows "stands (se_run e) x ups (snd (run_schema_action b e sha256 files action requested d))"
proof -
  obtain r d' where en: "ensureMigrationTable e d = (r, d')" by (cases "ensureMigrationTable e d")
  then have s: "stands (se_run e) x ups d'" using stands_ensured[OF assms(7), of e] by simp
  then show ?thesis using schema_steps_stands[OF assms(3-6) s] assms(1,2,7) en
    by (auto simp: run_schema_action_def Let_def split: option.split)
qed

end
