(* ===== verification/Mig_Outcomes.thy ===== *)
theory Mig_Outcomes
  imports Mig_Contract
begin

text \<open>
  Properties of the migrations: the scanner counts the statements of the grammar, the schema is always a first part of the
  migrations, migrating is complete and can be repeated, and what the shared version window means for SQLite.
\<close>

text \<open>C32: the scanner that guards non-transactional migrations counts the statements of a text as its grammar does: for every
  text that is written as words, blanks, quoted texts, dollar-quoted texts, line comments and nested block comments, the
  number is that of the groups between top-level semicolons which have content; semicolons in quotes and comments do
  not count.\<close>

theorem countTopLevelSQLStatements_correct:
  assumes "list_all lex_ok ls" "apart ls"
  shows "countTopLevelSQLStatements (concat (map lex_text ls)) = Inr (statements ls)"
  by (rule count_lexemes[OF assms])

definition demo_lexemes :: "lexeme list" where
  "demo_lexemes = [Word ''SELECT'', Blank (CHR '' ''), Quoted quote ''a;b'', LineComment '' c;'', Semi, BlockComment [BText ''x;'', BNest [BText ''y'']],
     Semi, Dollar ''f'' '' $;'', Semi]"

theorem countTopLevelSQLStatements_correct_witness:
  "countTopLevelSQLStatements (concat (map lex_text demo_lexemes)) = Inr 2"
proof -
  have "list_all lex_ok demo_lexemes" "apart demo_lexemes" "statements demo_lexemes = 2" by code_simp+
  then show ?thesis using countTopLevelSQLStatements_correct[of demo_lexemes] by simp
qed


definition demo_files :: "(string \<times> string) list" where
  "demo_files = [(''sqlite/0001_a.down.sql'', ''0''), (''sqlite/0001_a.up.sql'', ''+''), (''sqlite/0002_b.down.sql'', ''-''), (''sqlite/0002_b.up.sql'', ''+'')]"

definition mig_demo_spec :: "string \<Rightarrow> string \<Rightarrow> int \<Rightarrow> string \<Rightarrow> mig_spec" where
  "mig_demo_spec direction sqlText v name = \<lparr> ms_Backend = BackendSQLite, ms_Version = v, ms_Name = name, ms_Direction = direction,
     ms_File = ''sqlite/000'' @ show_int v @ ''_'' @ name @ ''.'' @ direction @ ''.sql'', ms_SQL = sqlText, ms_Checksum = sqlText, ms_Transactional = True \<rparr>"

text \<open>An engine whose data count the executed migrations; the first down migration drops the table of migrations.\<close>

definition mig_demo_run :: "string \<Rightarrow> nat \<Rightarrow> bool \<times> nat" where
  "mig_demo_run sqlText x = (if sqlText = ''+'' then (True, Suc x) else (0 < x, x - 1))"

definition mig_demo_drops :: "string \<Rightarrow> bool" where
  "mig_demo_drops sqlText \<longleftrightarrow> sqlText = ''0''"

definition demo_actions :: "((schema_call \<Rightarrow> bool) \<times> string \<times> int) list" where
  "demo_actions = [(\<lambda>_. False, ''migrate'', 0), (\<lambda>c. c = SAlter, ''validate'', 0), (\<lambda>_. False, ''rollback'', 1)]"

lemma mig_demo_loaded:
  "Load (\<lambda>raw. raw) demo_files BackendSQLite DirectionUp = Inr [mig_demo_spec ''up'' ''+'' 1 ''a'', mig_demo_spec ''up'' ''+'' 2 ''b'']"
  "Load (\<lambda>raw. raw) demo_files BackendSQLite DirectionDown = Inr [mig_demo_spec ''down'' ''-'' 2 ''b'', mig_demo_spec ''down'' ''0'' 1 ''a'']"
  by code_simp+


section \<open>Migrating completely\<close>

lemma reconcile_passes:
  assumes "numbered ups" "set rows \<subseteq> applied_of ` set ups" "\<And>c. \<not> se_fault e c"
    and "\<And>sp. sp \<in> set ups \<Longrightarrow> trim_space (ms_Checksum sp) = ms_Checksum sp" "\<And>v c. sb_accepted b v c c"
  shows "fst (reconcileAppliedChecksums b e ups rows d) = None"
  using assms(2)
proof (induction rows arbitrary: d)
  case (Cons r rows)
  then obtain sp where sp: "sp \<in> set ups" "r = applied_of sp" by auto
  then show ?case using Cons spec_for_numbered[OF assms(1) sp(1)] assms(3,4,5) by (simp add: Let_def) (simp add: applied_of_def)
qed simp

lemma migrate_loop_complete:
  "numbered (qs @ ss) \<Longrightarrow> \<forall>s\<in>set ss. previous < ms_Version s \<and> ms_Version s \<le> target \<Longrightarrow> (\<And>c. \<not> se_fault e c) \<Longrightarrow> \<forall>s\<in>set ss. \<not> se_drops e (ms_SQL s) \<Longrightarrow>
    sd_rows d = Some (map applied_of qs) \<Longrightarrow> ran (se_run e) ss (sd_data d) y \<Longrightarrow>
    migrate_loop b e previous target ss d = (Inr (map (step_of DirectionUp) ss), d \<lparr> sd_rows := Some (map applied_of (qs @ ss)), sd_data := y \<rparr>)"
proof (induction ss arbitrary: qs d)
  case Nil
  then show ?case by simp
next
  case (Cons s ss)
  have new: "ms_Version s \<notin> ms_Version ` set qs" using Cons.prems(1) by (auto simp: numbered_def sorted_wrt_append)
  obtain z where z: "se_run e (ms_SQL s) (sd_data d) = (True, z)" "ran (se_run e) ss z y" using Cons.prems(6) by (auto split: prod.splits)
  let ?d = "d \<lparr> sd_data := z, sd_rows := Some (map applied_of (qs @ [s])) \<rparr>"
  have up: "applyUpSpec b e s d = (None, ?d)"
    using Cons.prems(3,4,5) z(1) record_new[OF new] by (simp add: applyUpSpec_def apply_spec_def Let_def schema_rows_def)
  have "migrate_loop b e previous target ss ?d = (Inr (map (step_of DirectionUp) ss), ?d \<lparr> sd_rows := Some (map applied_of ((qs @ [s]) @ ss)), sd_data := y \<rparr>)"
    using Cons.prems z(2) by (intro Cons.IH) auto
  then show ?case using Cons.prems(2) up by simp
qed

text \<open>Where no call fails, the checksums have no blanks around them and the SQL of the missing migrations succeeds, migrate
  executes exactly the migrations that are missing, in order, reports them, and leaves all of them recorded; a further
  migrate executes none and changes nothing.\<close>

theorem migrate_completes:
  assumes "Load sha256 files (sb_Name b) DirectionUp = Inr (qs @ ss)" "Load sha256 files (sb_Name b) DirectionDown = Inr downs"
    and "numbered (qs @ ss)" "list_all (\<lambda>sp. ms_Version sp \<le> SchemaTargetVersion \<and> trim_space (ms_Checksum sp) = ms_Checksum sp) (qs @ ss)"
    and "\<And>c. \<not> se_fault e c" "\<And>v c. sb_accepted b v c c" "schema_rows d = map applied_of qs" "ran (se_run e) ss (sd_data d) y"
    and "\<forall>s\<in>set ss. \<not> se_drops e (ms_SQL s)"
  shows "let (r, d') = run_schema_action b e sha256 files ''migrate'' 0 d; (r', d'') = run_schema_action b e sha256 files ''migrate'' 0 d'
    in (\<exists>m. r = Inr m \<and> mr_Applied m = map (step_of DirectionUp) ss \<and> mr_CurrentVersion m = mig_version_at (qs @ ss)) \<and>
       schema_rows d' = map applied_of (qs @ ss) \<and> sd_data d' = y \<and> (\<exists>m. r' = Inr m \<and> mr_Applied m = []) \<and> d'' = d'"
proof -
  have one: "\<exists>m. run_schema_action b e sha256 files ''migrate'' 0 c = (Inr m, \<lparr> sd_rows = Some (map applied_of (qs @ ss)), sd_data = y \<rparr>) \<and>
      mr_Applied m = map (step_of DirectionUp) us \<and> mr_CurrentVersion m = mig_version_at (qs @ ss)"
    if h: "qs @ ss = ps @ us" "schema_rows c = map applied_of ps" "ran (se_run e) us (sd_data c) y" "\<forall>s\<in>set us. \<not> se_drops e (ms_SQL s)" for c ps us
  proof -
    let ?c = "\<lparr> sd_rows = Some (map applied_of ps), sd_data = sd_data c \<rparr>" and ?d = "\<lparr> sd_rows = Some (map applied_of (qs @ ss)), sd_data = y \<rparr>"
    let ?ups = "qs @ ss" and ?p = "mig_version_at ps"
    have n: "numbered ps" using assms(3) h(1) by (simp add: numbered_append)
    have en: "ensureMigrationTable e c = (None, ?c)"
      using assms(5) h(2) by (cases "sd_rows c") (auto simp: ensureMigrationTable_def schema_rows_def)
    have rows: "schema_rows ?c = map applied_of ps" "schema_rows ?d = map applied_of ?ups" by (simp_all add: schema_rows_def)
    let ?s = "sort_key ar_Version (schema_rows ?c)"
    have "reconcileAppliedChecksums b e ?ups ?s ?c = (None, ?c)"
      using reconcile_same[OF assms(3) _ rows(1), of ?s b e] reconcile_passes[OF assms(3) _ assms(5) _ assms(6), of ?s ?c] assms(4) h(1) rows(1)
      by (cases "reconcileAppliedChecksums b e ?ups ?s ?c") (auto simp: list_all_iff)
    moreover have cur: "currentVersion ?c = ?p" "currentVersion ?d = mig_version_at ?ups"
      using currentVersion_at[OF rows(1) n] currentVersion_at[OF rows(2) assms(3)] by simp_all
    moreover have "migrate_loop b e ?p SchemaTargetVersion ?ups ?c = (Inr (map (step_of DirectionUp) us), ?d)"
      using migrate_loop_complete[of ps us ?p SchemaTargetVersion e ?c y b] migrate_skip[of ps ?p b e SchemaTargetVersion us ?c]
        mig_version_at_max[OF n] mig_version_at_less[of ps us] assms(3,4,5) h by (simp add: list_all_iff)
    moreover have "?p \<le> SchemaTargetVersion"
      using assms(4) h(1) by (cases ps rule: rev_cases) (auto simp: mig_version_at_def SchemaTargetVersion_def list_all_iff)
    moreover have "to_lower (trim_space ''migrate'') = schemaActionMigrate" "schemaActionMigrate \<noteq> []" "schemaActionMigrate \<noteq> schemaActionValidate"
      by code_simp+
    ultimately show ?thesis
      using assms(1,2,5) en by (simp add: run_schema_action_def schema_steps_def loadAppliedRows_def schema_action_def schema_result_def Let_def)
  qed
  obtain m where m: "run_schema_action b e sha256 files ''migrate'' 0 d = (Inr m, \<lparr> sd_rows = Some (map applied_of (qs @ ss)), sd_data = y \<rparr>)"
    "mr_Applied m = map (step_of DirectionUp) ss" "mr_CurrentVersion m = mig_version_at (qs @ ss)"
    using one[OF refl assms(7,8,9)] by blast
  moreover obtain m' where "run_schema_action b e sha256 files ''migrate'' 0 \<lparr> sd_rows = Some (map applied_of (qs @ ss)), sd_data = y \<rparr> =
      (Inr m', \<lparr> sd_rows = Some (map applied_of (qs @ ss)), sd_data = y \<rparr>)" "mr_Applied m' = []"
    using one[of "qs @ ss" "[]" "\<lparr> sd_rows = Some (map applied_of (qs @ ss)), sd_data = y \<rparr>"] by (auto simp: schema_rows_def)
  ultimately show ?thesis by (simp add: schema_rows_def)
qed

theorem migrate_completes_witness:
  "let (r, d') = run_schema_action sqlite_schema \<lparr> se_fault = (\<lambda>_. False), se_run = mig_demo_run, se_drops = mig_demo_drops \<rparr> (\<lambda>raw. raw) demo_files ''migrate'' 0 \<lparr> sd_rows = None, sd_data = 0 \<rparr>
   in (\<exists>m. r = Inr m \<and> map as_Version (mr_Applied m) = [1, 2] \<and> mr_CurrentVersion m = 2) \<and> sd_data d' = 2"
proof -
  let ?ups = "[mig_demo_spec ''up'' ''+'' 1 ''a'', mig_demo_spec ''up'' ''+'' 2 ''b'']" and ?e = "\<lparr> se_fault = (\<lambda>_. False), se_run = mig_demo_run, se_drops = mig_demo_drops \<rparr>"
  have s: "list_all (\<lambda>sp. ms_Version sp \<le> SchemaTargetVersion \<and> trim_space (ms_Checksum sp) = ms_Checksum sp) ([] @ ?ups)" by code_simp
  have n: "numbered ([] @ ?ups)" by (simp add: numbered_def mig_demo_spec_def)
  have l: "Load (\<lambda>raw. raw) demo_files (sb_Name sqlite_schema) DirectionUp = Inr ([] @ ?ups)"
    "Load (\<lambda>raw. raw) demo_files (sb_Name sqlite_schema) DirectionDown = Inr [mig_demo_spec ''down'' ''-'' 2 ''b'', mig_demo_spec ''down'' ''0'' 1 ''a'']"
    using mig_demo_loaded by (simp_all add: sqlite_schema_def)
  have r: "ran (se_run ?e) ?ups (sd_data \<lparr> sd_rows = None, sd_data = 0 \<rparr>) 2" by (simp add: mig_demo_run_def mig_demo_spec_def)
  have "\<forall>s\<in>set ?ups. \<not> se_drops ?e (ms_SQL s)" by (simp add: mig_demo_drops_def mig_demo_spec_def)
  then show ?thesis
    using migrate_completes[OF l n s _ _ _ r] by (auto simp: sqlite_schema_def schema_rows_def step_of_def mig_demo_spec_def mig_version_at_def Let_def)
qed

section \<open>Rolling back completely\<close>

lemma rollback_loop_stops:
  assumes "spec_for downs 1 = Some dn" "se_drops e (ms_SQL dn)"
  shows "0 < k \<Longrightarrow> fst (rollback_loop b e downs 0 k d) \<noteq> Inr steps"
proof (induction k arbitrary: d steps)
  case (Suc k)
  have fails: "fst (applyDownSpec b e dn c) \<noteq> None" for c
    using assms(2) by (simp add: applyDownSpec_def apply_spec_def Let_def split: prod.split)
  show ?case
  proof (cases "k = 0")
    case True
    then show ?thesis using assms(1) fails[of d] by (auto split: prod.splits option.splits)
  next
    case False
    then show ?thesis using Suc.IH by (auto simp: bindr_def split: prod.splits option.splits sum.splits) (metis fst_conv)+
  qed
qed simp

text \<open>The down migration of the baseline drops the table of migrations, from which its row is then deleted: rolling back to
  version 0 succeeds only where nothing has been migrated.\<close>

theorem rollback_to_zero_fails:
  assumes "Load sha256 files (sb_Name b) DirectionDown = Inr downs" "spec_for downs 1 = Some dn" "se_drops e (ms_SQL dn)"
    and "fst (run_schema_action b e sha256 files ''rollback'' 0 d) = Inr m"
  shows "mr_PreviousVersion m = 0"
proof -
  have a: "to_lower (trim_space ''rollback'') = schemaActionRollback" "schemaActionRollback \<noteq> []" "schemaActionRollback \<noteq> schemaActionMigrate"
    "schemaActionRollback \<noteq> schemaActionValidate" by code_simp+
  obtain ups c where "fst (schema_steps b e ups downs schemaActionRollback 0 c) = Inr m"
    using assms(1,4) a by (auto simp: run_schema_action_def Let_def split: prod.splits option.splits sum.splits)
  then obtain previous c1 out where "fst (schema_action b e ups downs schemaActionRollback 0 previous c1) = Inr out" "mr_PreviousVersion m = previous"
    by (auto simp: schema_steps_def schema_result_def Let_def split: prod.splits option.splits sum.splits if_splits) (metis fst_conv)+
  then show ?thesis
    using rollback_loop_stops[OF assms(2,3), of "nat previous" b c1] a
    by (auto simp: schema_action_def bindr_def split: prod.splits sum.splits if_splits) (metis fst_conv linorder_neqE_linordered_idom zero_less_nat_eq)
qed

section \<open>SQLite and the version window\<close>

definition file_version :: "string \<Rightarrow> int option" where
  "file_version file = atoi (hd (splitN2 (CHR ''_'') (hd (split_on (CHR ''.'') (last (split_on (CHR ''/'') file))))))"

lemma load_specs_version:
  "load_specs sha256 backend direction entries = Inr specs \<Longrightarrow> map (\<lambda>sp. Some (ms_Version sp)) specs = map (file_version \<circ> fst) entries"
  by (induction entries arbitrary: specs)
    (auto simp: load_spec_def file_version_def Let_def bindr_def split: prod.splits list.splits option.splits sum.splits)

lemma sqlite_up_names:
  "map file_version (filter (glob_matches BackendSQLite DirectionUp)
     (migration_names BackendPostgres postgres_migrations @ migration_names BackendSQLite sqlite_migrations)) =
   [Some 1, Some 2, Some 3, Some 4, Some 5, Some 6]"
  by code_simp

lemma sqlite_up_versions:
  assumes "Load sha256 (embedded_files content) BackendSQLite DirectionUp = Inr ups" "sp \<in> set ups"
  shows "ms_Version sp \<le> 6"
proof -
  let ?names = "migration_names BackendPostgres postgres_migrations @ migration_names BackendSQLite sqlite_migrations"
  let ?files = "map (\<lambda>file. (file, content file)) (filter (glob_matches BackendSQLite DirectionUp) ?names)"
  have low: "to_lower (trim_space BackendSQLite) = BackendSQLite" "to_lower (trim_space DirectionUp) = DirectionUp" by code_simp+
  have files: "filter (\<lambda>(file, raw). glob_matches BackendSQLite DirectionUp file) (embedded_files content) = ?files"
    by (simp add: embedded_files_def filter_map comp_def del: filter_append map_append)
  obtain specs where specs: "load_specs sha256 BackendSQLite DirectionUp ?files = Inr specs" "set ups = set specs"
    using assms(1) unfolding Load_def Let_def low files
    by (auto simp: bindr_def split: if_splits sum.splits option.splits)
  have "map (\<lambda>sp. Some (ms_Version sp)) specs = [Some 1, Some 2, Some 3, Some 4, Some 5, Some 6]"
    using load_specs_version[OF specs(1)] sqlite_up_names by (simp add: comp_def)
  then have "Some (ms_Version sp) \<in> set [Some 1, Some 2, Some 3, Some 4, Some 5, Some (6 :: int)]"
    using assms(2) specs(2) by (metis image_eqI list.set_map)
  then show ?thesis by auto
qed

lemma reconcile_versions:
  "reconcileAppliedChecksums b e ups rows d = (None, d') \<Longrightarrow>
    map ar_Version (schema_rows d') = map ar_Version (schema_rows d) \<and> ar_Version ` set rows \<subseteq> ms_Version ` set ups"
proof (induction rows arbitrary: d)
  case (Cons r rows)
  obtain sp where sp: "spec_for ups (ar_Version r) = Some sp" using Cons.prems by (auto split: option.splits)
  have "map ar_Version (schema_rows (set_checksum v c d)) = map ar_Version (schema_rows d)" for v c
    by (auto simp: set_checksum_def schema_rows_def split: option.split)
  moreover have "ar_Version r \<in> ms_Version ` set ups" using spec_for_Some[OF sp] by (metis image_eqI)
  ultimately show ?case using Cons.IH Cons.prems sp by (auto simp: Let_def split: if_splits)
qed simp

text \<open>C34: the compatibility window [16, 17] is that of the Postgres migrations, but the SQLite store, whose migrations end at
  version 6, is checked against it too: whatever the migration files contain and whatever state the database is in,
  validating a SQLite schema fails, also right after a complete migration.\<close>

theorem sqlite_never_validates:
  "fst (runSchemaMode sqlite_schema e sha256 (embedded_files content) ''validate'' d) \<noteq> None"
proof -
  have "schema_steps sqlite_schema e ups downs schemaActionValidate r c \<noteq> (Inr m, c')"
    if ups: "Load sha256 (embedded_files content) BackendSQLite DirectionUp = Inr ups" for ups downs r c m c'
  proof
    assume "schema_steps sqlite_schema e ups downs schemaActionValidate r c = (Inr m, c')"
    then obtain c1 where c1: "reconcileAppliedChecksums sqlite_schema e ups (sort_key ar_Version (schema_rows c)) c = (None, c1)"
      and ok: "compatible (currentVersion c1)"
      by (auto simp: schema_steps_def loadAppliedRows_def schema_action_def schemaActionValidate_def schemaActionMigrate_def schemaActionRollback_def Let_def
          split: if_splits option.splits sum.splits prod.splits)
    have "v \<le> 6" if "v \<in> set (map ar_Version (schema_rows c1))" for v
      using reconcile_versions[OF c1] sqlite_up_versions[OF ups] that by (auto simp: image_iff subset_iff)
    then have "currentVersion c1 \<le> 6" by (auto simp: currentVersion_def)
    then show False using ok by (simp add: compatible_def SchemaMinCompatVersion_def SchemaTargetVersion_def)
  qed
  moreover have "to_lower (trim_space ''validate'') = schemaActionValidate" "to_lower (trim_space schemaActionValidate) = schemaActionValidate"
    "schemaActionValidate \<noteq> []" by code_simp+
  ultimately show ?thesis
    by (auto simp: runSchemaMode_def run_schema_action_def sqlite_schema_def Let_def split: prod.splits option.splits sum.splits)
qed

end
