(* ===== verification/Store_Select.thy ===== *)
theory Store_Select
  imports Vk_Store
begin

text \<open>
  The choice of a backend in \<^verbatim>\<open>pkg/store/store.go\<close>: the configuration of every backend, its defaults, and \<^verbatim>\<open>NewStore\<close>, which
  says which constructor is called with which configuration.
\<close>

definition StoreTypePostgres :: string where "StoreTypePostgres = ''postgres''"
definition StoreTypePostgresSharded :: string where "StoreTypePostgresSharded = ''postgres-sharded''"
definition StoreTypeSQLite :: string where "StoreTypeSQLite = ''sqlite-file''"
definition StoreTypeSQLiteMem :: string where "StoreTypeSQLiteMem = ''sqlite-memory''"
definition StoreTypeValkey :: string where "StoreTypeValkey = ''valkey''"

record pg_options =
  po_Host :: string
  po_Port :: int
  po_User :: string
  po_Password :: string
  po_Database :: string
  po_SSLMode :: string
  po_SchemaMode :: string
  po_MaxConns :: int
  po_MinConns :: int
  po_MaxConnAge :: string
  po_MaxIdleTime :: string
  po_SlimEvents :: bool
  po_QueueClaimMode :: string
  po_DeferEvents :: bool
  po_EventBatchSize :: int
  po_PrefetchEnabled :: bool
  po_PrefetchBufferSize :: int
  po_PrefetchBatchSize :: int

record sharded_options =
  so_ShardMapFile :: string
  so_NodeID :: string
  so_AdvertiseAddr :: string
  so_ShardMapRefreshPeriod :: string
  so_SchemaMode :: string
  so_MaxConns :: int
  so_MinConns :: int
  so_MaxConnAge :: string
  so_MaxIdleTime :: string
  so_SlimEvents :: bool
  so_QueueClaimMode :: string
  so_DeferEvents :: bool
  so_EventBatchSize :: int
  so_PrefetchEnabled :: bool
  so_PrefetchBufferSize :: int
  so_PrefetchBatchSize :: int

record sqlite_options =
  lo_Path :: string
  lo_InMemory :: bool
  lo_SchemaMode :: string
  lo_BusyTimeout :: string
  lo_JournalMode :: string
  lo_Synchronous :: string
  lo_CacheSizeKB :: int

record store_options =
  st_Type :: string
  st_Postgres :: "pg_options option"
  st_PostgresSharded :: "sharded_options option"
  st_SQLite :: "sqlite_options option"
  st_Valkey :: "valkey_config option"

definition DefaultPostgresConfig :: pg_options where
  "DefaultPostgresConfig = \<lparr> po_Host = ''localhost'', po_Port = 5432, po_User = ''postgres'', po_Password = [], po_Database = ''agent_space'',
     po_SSLMode = ''disable'', po_SchemaMode = ''migrate'', po_MaxConns = 50, po_MinConns = 15, po_MaxConnAge = ''30m'', po_MaxIdleTime = ''15m'',
     po_SlimEvents = False, po_QueueClaimMode = ''strict'', po_DeferEvents = False, po_EventBatchSize = 0, po_PrefetchEnabled = False,
     po_PrefetchBufferSize = 0, po_PrefetchBatchSize = 0 \<rparr>"

definition DefaultPostgresShardedConfig :: sharded_options where
  "DefaultPostgresShardedConfig = \<lparr> so_ShardMapFile = ''./config/shard_map.json'', so_NodeID = [], so_AdvertiseAddr = [],
     so_ShardMapRefreshPeriod = ''0s'', so_SchemaMode = ''migrate'', so_MaxConns = 50, so_MinConns = 15, so_MaxConnAge = ''30m'',
     so_MaxIdleTime = ''15m'', so_SlimEvents = False, so_QueueClaimMode = ''strict'', so_DeferEvents = False, so_EventBatchSize = 0,
     so_PrefetchEnabled = False, so_PrefetchBufferSize = 0, so_PrefetchBatchSize = 0 \<rparr>"

definition DefaultSQLiteConfig :: sqlite_options where
  "DefaultSQLiteConfig = \<lparr> lo_Path = ''./data/sqlite/agent_space.db'', lo_InMemory = False, lo_SchemaMode = ''migrate'', lo_BusyTimeout = ''5s'',
     lo_JournalMode = ''WAL'', lo_Synchronous = ''NORMAL'', lo_CacheSizeKB = 16384 \<rparr>"

definition DefaultConfig :: store_options where
  "DefaultConfig = \<lparr> st_Type = StoreTypePostgres, st_Postgres = Some DefaultPostgresConfig,
     st_PostgresSharded = Some DefaultPostgresShardedConfig, st_SQLite = Some DefaultSQLiteConfig, st_Valkey = Some DefaultValkeyConfig \<rparr>"

definition normalizeStoreType :: "string \<Rightarrow> string" where
  "normalizeStoreType v =
    (let n = trim_space (to_lower v) in
     if n \<in> {[], StoreTypePostgres} then StoreTypePostgres
     else if n \<in> {StoreTypePostgresSharded, StoreTypeSQLite, StoreTypeSQLiteMem, StoreTypeValkey} then n
     else v)"

text \<open>The constructor that is called.\<close>

datatype store_call = NewPostgres pg_options | NewPostgresSharded sharded_options | NewSQLite sqlite_options | NewValkey valkey_config

definition NewStore :: "store_options option \<Rightarrow> store_error + store_call" where
  "NewStore cfgo = (case cfgo of
     None \<Rightarrow> Inl (ErrOther ''store config is nil'')
   | Some cfg \<Rightarrow>
       (let n = normalizeStoreType (st_Type cfg) in
        if n = StoreTypePostgres then (case st_Postgres cfg of None \<Rightarrow> Inl (ErrOther ''postgres config is nil'') | Some c \<Rightarrow> Inr (NewPostgres c))
        else if n = StoreTypePostgresSharded then
          (case st_PostgresSharded cfg of None \<Rightarrow> Inl (ErrOther ''postgres sharded config is nil'') | Some c \<Rightarrow> Inr (NewPostgresSharded c))
        else if n = StoreTypeSQLite \<or> n = StoreTypeSQLiteMem then
          (let c = (case st_SQLite cfg of None \<Rightarrow> DefaultSQLiteConfig | Some c \<Rightarrow> c)
           in Inr (NewSQLite (if st_Type cfg = StoreTypeSQLiteMem then c \<lparr> lo_InMemory := True \<rparr> else c)))
        else if n = StoreTypeValkey then Inr (NewValkey (case st_Valkey cfg of None \<Rightarrow> DefaultValkeyConfig | Some c \<Rightarrow> c))
        else Inl (ErrOther (''unsupported store type: '' @ st_Type cfg))))"

lemma normalizeStoreType_idem: "normalizeStoreType (normalizeStoreType v) = normalizeStoreType v"
proof -
  have "trim_space (to_lower n) = n" if "n \<in> {StoreTypePostgres, StoreTypePostgresSharded, StoreTypeSQLite, StoreTypeSQLiteMem, StoreTypeValkey}" for n
    using that by (elim insertE emptyE; hypsubst; code_simp)
  then show ?thesis by (auto simp: normalizeStoreType_def Let_def)
qed

text \<open>The type is normalised for the choice of the backend, but the in-memory store is chosen by the type as it was
  written: in another spelling it opens the file.\<close>

lemma spelled_memory_opens_file:
  assumes "trim_space (to_lower ty) = StoreTypeSQLiteMem" "ty \<noteq> StoreTypeSQLiteMem"
  shows "NewStore (Some (DefaultConfig \<lparr> st_Type := ty \<rparr>)) = Inr (NewSQLite DefaultSQLiteConfig) \<and> \<not> lo_InMemory DefaultSQLiteConfig"
proof -
  have "normalizeStoreType ty = StoreTypeSQLiteMem"
    using assms(1) by (simp add: normalizeStoreType_def StoreTypePostgres_def StoreTypeSQLiteMem_def)
  moreover have "StoreTypeSQLiteMem \<noteq> StoreTypePostgres" "StoreTypeSQLiteMem \<noteq> StoreTypePostgresSharded" by code_simp+
  ultimately show ?thesis using assms(2) by (simp add: NewStore_def DefaultConfig_def DefaultSQLiteConfig_def)
qed

end
