(* ===== verification/Spec2Isabelle.thy ===== *)
theory Spec2Isabelle
  imports Sqlite_Outcomes Sqlite_Graph Pg_Findings Pg_Telemetry Sharded_Queries Api_Rate Api_Namespaces Api_Outcomes Vk_Findings
    Mig_Outcomes Store_Select
begin

text \<open>
  A verification of AgentSpaces: the store in which producers put agents (units of work), workers claim them under a
  lease, complete, release or renew them, and a reaper frees leases that ran out; and the HTTP server in front of it.

  \<^bold>\<open>The program.\<close>  \<^verbatim>\<open>pkg/agent\<close> has the data (Agent, Event, Query, ...) and its helpers;
  \<^verbatim>\<open>pkg/store/internal/common\<close> what the backends share (generic updates, completion metadata, the subscription
  registry); \<^verbatim>\<open>pkg/store/sqlite\<close>, \<^verbatim>\<open>pkg/store/postgres\<close>, \<^verbatim>\<open>pkg/store/postgressharded\<close> and \<^verbatim>\<open>pkg/store/valkey\<close> are its backends.  Every backend
  offers the same operations (Out, Get, Take, In, Read, Query, Update, Complete, CompleteAndOut, Release, RenewLease,
  GetDAG, Count, event queries, Subscribe) and a reaper.  The sharded backend routes them to Postgres stores by namespace
  and queue.  The Valkey backend keeps agents as JSON documents on one or more servers, with sets and sorted sets as
  indexes, and changes them by Lua scripts; its nodes share nothing but the servers.  \<^verbatim>\<open>internal/api\<close> has the HTTP handlers, which call a backend through the interface \<^verbatim>\<open>agent.AgentSpace\<close>,
  and the middleware in front of them; \<^verbatim>\<open>pkg/store/migrations\<close> has the versioned SQL files that the two SQL backends apply
  to their databases, and \<^verbatim>\<open>pkg/store/store.go\<close> chooses a backend; \<^verbatim>\<open>cmd/server\<close> reads the settings and composes routes and middleware.  The server
  holds no state of the space, only the table of the rate limiter.

  \<^bold>\<open>Theories.\<close>
  \<^item> \<^verbatim>\<open>Prelude\<close>: lemmas on lists, maps and results; the result type \<^verbatim>\<open>error + 'a\<close> with \<^verbatim>\<open>bindr\<close>.
  \<^item> \<^verbatim>\<open>Go_Std\<close>: what is used of Go: int64 wrap-around, truncated division, times, string functions, Atoi, JSON values,
    durations and the FNV hash.  \<^verbatim>\<open>Telemetry_Types\<close>: \<^verbatim>\<open>pkg/telemetry/types.go\<close>.
  \<^item> \<^verbatim>\<open>Agent_Model\<close>: \<^verbatim>\<open>pkg/agent\<close>: types.go, helpers.go, route_context.go.
  \<^item> \<^verbatim>\<open>Store_Common\<close>: \<^verbatim>\<open>pkg/store/internal/common\<close>, the errors and the environment of an operation.
  \<^item> \<^verbatim>\<open>Sql_Common\<close>: the steps both SQL backends repeat (defaults of Out, guards, lease durations, paging).
  \<^item> \<^verbatim>\<open>Store_Graph\<close>: the loops both repeat: the traversal of GetDAG and the polling of In and Read.  The
    locale \<^verbatim>\<open>dag_source\<close> has the laws of the reads the traversal makes; it is interpreted for both backends.
  \<^item> \<^verbatim>\<open>Lease_Spec\<close>: the contract of a backend, without tables: a space of lease cells, labelled steps and the laws of
    the lease protocol; the locale \<^verbatim>\<open>lease_backend\<close> is the interface a backend refines, interpreted for SQLite, Postgres,
    the sharded store and Valkey.
  \<^item> \<^verbatim>\<open>Sqlite_Rows\<close>, \<^verbatim>\<open>Sqlite_Query\<close>, \<^verbatim>\<open>Sqlite_Lifecycle\<close>: sqlite_sql_helpers.go; sqlite_query.go and sqlite_events.go;
    sqlite_lifecycle.go and sqlite_reaper.go.  \<^verbatim>\<open>Sqlite_Refine\<close>: they refine the contract.  \<^verbatim>\<open>Sqlite_Leases\<close>,
    \<^verbatim>\<open>Sqlite_Outcomes\<close>, \<^verbatim>\<open>Sqlite_Graph\<close>: their properties.
  \<^item> \<^verbatim>\<open>Pg_Rows\<close>: postgres_sql_helpers.go and the SQL expressions the statements use.  \<^verbatim>\<open>Pg_Query\<close>: postgres_query.go and
    postgres_events.go, with the WHERE conditions both as text and as clauses with numbered arguments.
    \<^verbatim>\<open>Pg_Lifecycle\<close>: Out and all ways to claim of postgres_lifecycle.go, postgres_take_fallback.go, the event writer
    of postgres_engine.go, postgres_notify.go and postgres_prefetch.go.  \<^verbatim>\<open>Pg_Complete\<close>: the other operations,
    postgres_reaper.go, postgres_partitions.go, postgres_schema.go.
  \<^item> \<^verbatim>\<open>Pg_Statements\<close>, \<^verbatim>\<open>Pg_Refine\<close>, \<^verbatim>\<open>Pg_Backend\<close>: statements, transactions and operations of Postgres refine the contract.
    \<^verbatim>\<open>Pg_Leases\<close>, \<^verbatim>\<open>Pg_Claims\<close>, \<^verbatim>\<open>Pg_Background\<close>, \<^verbatim>\<open>Pg_Graph\<close>, \<^verbatim>\<open>Pg_Findings\<close>: their properties.
    \<^verbatim>\<open>Pg_Telemetry\<close>: postgres_telemetry.go and the dropping of partitions, with the round trip of spans.
  \<^item> \<^verbatim>\<open>Mig_Loader\<close>: loader.go and result.go.  \<^verbatim>\<open>Mig_Scan\<close>: a grammar of SQL texts and that the scanner follows it.
    \<^verbatim>\<open>Mig_Schema\<close>: sqlite_migrations.go and postgres_migrations.go, which differ in a record.  \<^verbatim>\<open>Mig_Contract\<close>: what the
    schema actions keep.  \<^verbatim>\<open>Mig_Outcomes\<close>: their properties.  \<^verbatim>\<open>Store_Select\<close>: store.go.
  \<^item> \<^verbatim>\<open>Sharded_Routing\<close>: config.go of the sharded backend and its routing (shard map, FNV hash, look-up of shards).
    \<^verbatim>\<open>Sharded_Store\<close>: its operations.  \<^verbatim>\<open>Sharded_Leases\<close>, \<^verbatim>\<open>Sharded_Queries\<close>: their properties.
  \<^item> \<^verbatim>\<open>Vk_Keys\<close>: the keys of the Valkey backend, what a server holds under them, the commands and the Lua helpers.
    \<^verbatim>\<open>Vk_Scripts\<close>: the ten Lua scripts of store.go, each a function of the key space.  \<^verbatim>\<open>Vk_Index\<close>: the invariant that
    every index says what the documents say.  \<^verbatim>\<open>Vk_Leases\<close>, \<^verbatim>\<open>Vk_Backend\<close>: every call on a server refines the contract.
  \<^item> \<^verbatim>\<open>Vk_Store\<close>: config.go, shardmap.go, hotstate.go, the state of a node, its requests, decoding and routing.
    \<^verbatim>\<open>Vk_Ops\<close>: events.go, Get, Out and all ways to claim.  \<^verbatim>\<open>Vk_Lifecycle\<close>: queries, updates and the end of a lease.
    \<^verbatim>\<open>Vk_Background\<close>: event queries, spans, shard administration, the event writer, the reaper and the blocking calls.
    \<^verbatim>\<open>Vk_Refine\<close>: whatever a node does reaches its servers as a sequence of calls.  \<^verbatim>\<open>Vk_Contract\<close>, \<^verbatim>\<open>Vk_Queries\<close>,
    \<^verbatim>\<open>Vk_Claims\<close>, \<^verbatim>\<open>Vk_Findings\<close>: their properties.
  \<^item> \<^verbatim>\<open>Api_Types\<close>: types.go, requests, responses and the interface \<^verbatim>\<open>agent.AgentSpace\<close> as a record of actions.
    \<^verbatim>\<open>Api_Telemetry\<close>: telemetry.go.  \<^verbatim>\<open>Api_Handlers\<close>, \<^verbatim>\<open>Api_Lease_Handlers\<close>, \<^verbatim>\<open>Api_Event_Handlers\<close>: handlers.go.
    \<^verbatim>\<open>Api_Net\<close>: host and address parsing and client identifiers.  \<^verbatim>\<open>Api_Middleware\<close>: auth_principal.go, middleware.go,
    security_middleware.go, security_headers.go and normalizeEndpoint.  \<^verbatim>\<open>Api_Server\<close>: settings, routes and chain of main.go.
  \<^item> \<^verbatim>\<open>Api_Access\<close>, \<^verbatim>\<open>Api_Rate\<close>: authentication, start-up and the rate limiter.
  \<^item> \<^verbatim>\<open>Api_Isolation\<close>: what isolation of namespaces means for an action, and two locales: \<^verbatim>\<open>scoped_space\<close>, the laws a
    backend promises (a scoped query returns agents of its namespace, an operation on an agent changes rows of its
    namespace only), and \<^verbatim>\<open>scoped_api\<close>, which adds the clock and UUIDs of a request.  \<^verbatim>\<open>Api_Isolation_Handlers\<close> proves inside
    it that every handler is isolated.  \<^verbatim>\<open>Api_Sqlite\<close> presents the SQLite store through the interface and interprets both;
    \<^verbatim>\<open>Api_Namespaces\<close> and \<^verbatim>\<open>Api_Outcomes\<close> draw the consequences for the server over it.

  \<^bold>\<open>State and operations.\<close>  A table is the list of its rows, a store a record of tables, subscriptions,
  the log of announced events and, for Postgres, the event channel, the sent notifications and the prefetchers.  An
  operation is a function of an environment (clock readings, UUIDs, which database calls fail; for Postgres also
  \<^verbatim>\<open>now()\<close>, row locks, the advisory lock and collation order), the store and its arguments; it returns a result or an
  error, and the new store.  A transaction body works on a copy of the tables that the commit installs.  A sharded
  store is the list of its shards with their stores and the cache of shard ids.  A Valkey server is a record of what its
  keys hold, and a script a function of it; a node of the Valkey store has the servers by address, the cache of shard
  ids, subscriptions, the queue and buffer of deferred events and the sent wakeups, and each of its requests is
  answered, not sent, or carried out with its answer lost.  A handler is an action on the state of any
  store: it returns a response and the new state, or nothing when a blocking call does not return; a call of the store is
  named by a number, under which the environment says what it meets.

  \<^bold>\<open>What is shown.\<close>
  \<^item> Refinement: any sequence of operations of a backend, with any faults, is a run of the lease contract, and
    keeps the tables well-formed.  So an agent is completed at most once, and a token is useless after the
    next claim.  The same holds for every shard of the sharded backend and, however the calls of its nodes
    interleave, for every server of the Valkey backend.
  \<^item> Indexes: after any calls the sets, queues, lease entries and hot states of a Valkey server are exactly those of its
    documents; so a query answered from the intersection of index sets returns exactly the visible matching agents,
    and a claim from a queue takes its first waiting agent.
  \<^item> Routing: a shard map is normalised to a well-formed one, nodes with the same shards agree on the shard of a queue,
    the cache of shard ids has no effect on results, queries merge the shards in order, outputs stay on the shard.
  \<^item> Tenants: a request of a principal with a namespace changes no agent of another namespace and is answered with its
    own only, on every route over SQLite; requests without a valid key or admin right do not reach the store; keys
    authenticate exactly their principals; quotas are exact; the limiter passes at most twice the limit in a window;
    forged forwarding headers have no effect; the production profile cannot start without its protections.
  \<^item> Functional behaviour: Take claims an oldest claimable agent (SQLite), strict queues are first in, first out and
    the two claim statements agree (Postgres), Complete decides like a guarded read, retries of Complete,
    outputs of CompleteAndOut, the reaper frees exactly the lapsed leases, Query, Count and CountByStatus equal a
    reference, GetDAG collects the connected live agents, updates and subscriptions.
  \<^item> Background: deferred events are written once and in order, prefetch buffers stay bounded, blocking calls return.
  \<^item> Migrations: whatever schema actions run and whatever calls fail, the schema is that of the first so many
    migrations, and the table of migrations says which; migrate executes exactly the missing ones; the scanner counts
    the statements of the grammar; a SQLite schema never validates, and rolling back to version 0 never succeeds.
  \<^item> Telemetry: the spans recorded in Postgres are what a listing of their trace returns.
  \<^item> Errors leave the store unchanged.
  \<^item> Departures of the code from its intent, each as a theorem that holds for all inputs of the kind.

  \<^bold>\<open>Bounds.\<close>  GetDAG is a partial function whose loop is proved to return on every table.  In and Read take a
  number of rounds as fuel; \<^verbatim>\<open>timeout / pollInterval + 2\<close> rounds are proved to be enough when every round takes at
  least the poll interval.  All other recursion is structural.

  \<^bold>\<open>Assumptions of the model.\<close>  Operations of a backend run one after the other: SQLite allows one writer, and
  a Postgres transaction locks the rows it changes; what others do meanwhile enters through the environment.  A failed
  commit leaves the tables as they were.  Times are instants in nanoseconds, milliseconds in SQLite columns and
  microseconds in Postgres columns.  JSON columns hold documents; a map is an association list and the order of its
  members carries no meaning.  Rows with equal sort keys keep the order of the table.  A pgx batch is one implicit
  transaction.  The product of a number and an interval is exact.  The slice of tags of an agent is not nil.

  The HTTP server: while a request runs, nobody else changes the SQLite store it is served from.  JSON decoding, the
  HMAC, Prometheus and the configuration library are parameters.  A request that times out is answered by the
  middleware, and its handler runs to its end.

  Valkey: a script runs atomically, and what it wrote before an error stays.  \<^verbatim>\<open>tonumber\<close>, \<^verbatim>\<open>tostring\<close> of large numbers
  and \<^verbatim>\<open>cjson\<close> (payloads, exponents, empty tables) are parameters, the same on all servers; versions stay below
  \<open>2 ^ 53\<close>, up to which numbers of Lua count exactly.  Locks expire by the clock of the node that asks for them.

  Migrations: the files are ASCII text; \<^verbatim>\<open>sha256\<close> and the SQL engine, which executes a file on the data and may drop the
  table of migrations, are parameters.  A transaction that fails leaves no trace, a file outside of one may.

  \<^bold>\<open>Not modelled.\<close>  The opening of databases, pools and clients, the wrappers that copy configurations and ask for the
  capabilities of a store, flags, the listener and periodic loops of \<^verbatim>\<open>main.go\<close>, logging and metrics: they hold no logic
  of the space.  Drivers, clients, the network, the LISTEN connection
  and the subscription to the Valkey wakeup channel are outside: their effect is a fault or a wakeup of the environment.
\<close>

end
